(* ===== verification/Prelude.thy ===== *)
theory Prelude
  imports
    Main
    "HOL-Library.Word"
    "HOL-Library.AList"
    "HOL-Library.Multiset"
    "HOL-Library.List_Lexorder"
    "HOL-Library.Char_ord"
    "HOL-Library.Product_Lexorder"
begin

unbundle bit_operations_syntax

text \<open>
  Shared vocabulary of the development: the names of the model's basic types, the error values of
  \<open>zagros-primitives/src/lib.rs\<close>, results as sums, the saturating and checked arithmetic of the
  fixed-width integers, little-endian bytes, ASCII case folding, and the generic list and map
  lemmas the components use.

  The workspace is built with \<open>overflow-checks = true\<close>, so a plain \<open>+\<close>, \<open>-\<close> or \<open>*\<close> of the
  source is either exact or a panic. Counters are therefore \<open>nat\<close>; every saturating, checked or
  truncating operation of the source is written out at its width below.
\<close>

section \<open>Collections of facts\<close>

named_theorems arith_defs \<open>definitions of the saturating and checked operations\<close>
named_theorems result_simps \<open>facts about results\<close>

section \<open>Basic types\<close>

type_synonym byte = "8 word"
type_synonym bytes = "byte list"
type_synonym hash = bytes
type_synonym address = string
type_synonym pubkey = bytes

text \<open>\<open>NIL_HASH = [0u8; 32]\<close>, also the all-zero public key the code refuses.\<close>

definition NIL_HASH :: hash where
  "NIL_HASH = replicate 32 0"

text \<open>
  The errors. A message carries the fixed part of the source's text (interpolated values are left
  out). \<open>RustPanic\<close> is the value of an operation that panics in the source (an index out of range).
\<close>

datatype zerror =
    InsufficientBalance
  | InvalidSignature
  | InvalidNonce
  | TransactionExpired
  | GasLimitExceeded
  | ContractExecutionFailed
  | AccountNotFound
  | MempoolFull
  | InvalidAddress
  | StakingError string
  | BridgeError string
  | Reentrancy
  | DatabaseError string
  | P2pError string
  | ConfigError string
  | InsufficientBalanceForGas
  | Other string
  | RustPanic

type_synonym 'a result = "zerror + 'a"

definition is_ok :: "'a result \<Rightarrow> bool" where
  "is_ok r = (case r of Inl _ \<Rightarrow> False | Inr _ \<Rightarrow> True)"

text \<open>Rust's \<open>?\<close> operator: go on with the value, or return the error.\<close>

definition try_then :: "'a result \<Rightarrow> ('a \<Rightarrow> 'b result) \<Rightarrow> 'b result" where
  "try_then r k = (case r of Inl e \<Rightarrow> Inl e | Inr x \<Rightarrow> k x)"

lemma is_ok_simps [simp, result_simps]:
  "is_ok (Inr x)" "\<not> is_ok (Inl e)"
  by (simp_all add: is_ok_def)

lemma is_ok_iff: "is_ok r \<longleftrightarrow> (\<exists>x. r = Inr x)"
  by (cases r) (simp_all add: is_ok_def)

lemma is_ok_unit [simp]: "is_ok (r :: unit result) \<longleftrightarrow> r = Inr ()"
  by (cases r) (simp_all add: is_ok_def)

lemma try_then_simps [simp, result_simps]:
  "try_then (Inl e) k = Inl e" "try_then (Inr x) k = k x"
  by (simp_all add: try_then_def)

lemma try_then_Inr: "try_then r k = Inr y \<longleftrightarrow> (\<exists>x. r = Inr x \<and> k x = Inr y)"
  by (cases r) auto

section \<open>Fixed-width arithmetic\<close>

abbreviation u16_max :: nat where "u16_max \<equiv> 65535"
abbreviation u32_max :: nat where "u32_max \<equiv> 4294967295"
abbreviation u64_max :: nat where "u64_max \<equiv> 18446744073709551615"
abbreviation u128_max :: nat where "u128_max \<equiv> 340282366920938463463374607431768211455"

lemma width_max_powers:
  "u16_max = 2 ^ 16 - 1" "u32_max = 2 ^ 32 - 1" "u64_max = 2 ^ 64 - 1" "u128_max = 2 ^ 128 - 1"
  by simp_all

definition sat_add :: "nat \<Rightarrow> nat \<Rightarrow> nat \<Rightarrow> nat" where
  [arith_defs]: "sat_add mx a b = min mx (a + b)"

definition sat_mul :: "nat \<Rightarrow> nat \<Rightarrow> nat \<Rightarrow> nat" where
  [arith_defs]: "sat_mul mx a b = min mx (a * b)"

text \<open>\<open>saturating_sub\<close> of an unsigned integer is \<open>nat\<close> subtraction.\<close>

definition sat_sub :: "nat \<Rightarrow> nat \<Rightarrow> nat" where
  [arith_defs]: "sat_sub a b = a - b"

definition checked_add :: "nat \<Rightarrow> nat \<Rightarrow> nat \<Rightarrow> nat option" where
  [arith_defs]: "checked_add mx a b = (if a + b \<le> mx then Some (a + b) else None)"

definition checked_sub :: "nat \<Rightarrow> nat \<Rightarrow> nat option" where
  [arith_defs]: "checked_sub a b = (if b \<le> a then Some (a - b) else None)"

text \<open>\<open>x as u16\<close> and its kin: truncation to the width.\<close>

definition as_u16 :: "nat \<Rightarrow> nat" where
  [arith_defs]: "as_u16 n = n mod 65536"

definition as_u32 :: "nat \<Rightarrow> nat" where
  [arith_defs]: "as_u32 n = n mod 4294967296"

definition as_u64 :: "nat \<Rightarrow> nat" where
  [arith_defs]: "as_u64 n = n mod 18446744073709551616"

lemma sat_add_le_max [simp]: "sat_add mx a b \<le> mx"
  by (simp add: sat_add_def)

lemma sat_mul_le_max [simp]: "sat_mul mx a b \<le> mx"
  by (simp add: sat_mul_def)

lemma sat_add_exact: "a + b \<le> mx \<Longrightarrow> sat_add mx a b = a + b"
  by (simp add: sat_add_def)

lemma sat_mul_exact: "a * b \<le> mx \<Longrightarrow> sat_mul mx a b = a * b"
  by (simp add: sat_mul_def)

lemma sat_add_mono: "a \<le> a' \<Longrightarrow> b \<le> b' \<Longrightarrow> sat_add mx a b \<le> sat_add mx a' b'"
  by (auto simp: sat_add_def intro!: min.mono)

lemma sat_mul_mono: "a \<le> a' \<Longrightarrow> b \<le> b' \<Longrightarrow> sat_mul mx a b \<le> sat_mul mx a' b'"
  by (simp add: sat_mul_def min.coboundedI2 mult_le_mono)

lemma sat_add_upper: "sat_add mx a b \<le> a + b"
  by (simp add: sat_add_def)

lemma sat_mul_upper: "sat_mul mx a b \<le> a * b"
  by (simp add: sat_mul_def)

section \<open>Bytes and text\<close>

text \<open>\<open>to_le_bytes\<close> of a \<open>k\<close>-byte integer.\<close>

fun le_bytes :: "nat \<Rightarrow> nat \<Rightarrow> bytes" where
  "le_bytes 0 n = []"
| "le_bytes (Suc k) n = of_nat (n mod 256) # le_bytes k (n div 256)"

text \<open>\<open>from_le_bytes\<close>.\<close>

fun from_le_bytes :: "bytes \<Rightarrow> nat" where
  "from_le_bytes [] = 0"
| "from_le_bytes (b # bs) = unat b + 256 * from_le_bytes bs"

text \<open>The bytes of a string literal.\<close>

definition str_bytes :: "string \<Rightarrow> bytes" where
  "str_bytes s = map of_char s"

definition ascii_lower :: "char \<Rightarrow> char" where
  "ascii_lower c =
     (let n = of_char c :: nat in if 65 \<le> n \<and> n \<le> 90 then char_of (n + 32) else c)"

definition to_ascii_lowercase :: "string \<Rightarrow> string" where
  "to_ascii_lowercase s = map ascii_lower s"

lemma length_le_bytes [simp]: "length (le_bytes k n) = k"
  by (induction k arbitrary: n) auto

lemma from_le_bytes_le_bytes: "n < 256 ^ k \<Longrightarrow> from_le_bytes (le_bytes k n) = n"
proof (induction k arbitrary: n)
  case 0
  then show ?case by simp
next
  case (Suc k)
  then have "n div 256 < 256 ^ k"
    by (simp add: div_less_iff_less_mult mult.commute)
  with Suc.IH show ?case
    by (simp add: unat_of_nat take_bit_eq_mod)
qed

lemma le_bytes_inj: "m < 256 ^ k \<Longrightarrow> n < 256 ^ k \<Longrightarrow> le_bytes k m = le_bytes k n \<Longrightarrow> m = n"
  by (metis from_le_bytes_le_bytes)

lemma from_le_bytes_less: "from_le_bytes bs < 256 ^ length bs"
proof (induction bs)
  case Nil
  then show ?case by simp
next
  case (Cons b bs)
  have "unat b < 256"
    using unsigned_less [of b, where 'a = nat] by simp
  with Cons.IH show ?case by simp
qed

lemma length_to_ascii_lowercase [simp]: "length (to_ascii_lowercase s) = length s"
  by (simp add: to_ascii_lowercase_def)

lemma ascii_lower_idem [simp]: "ascii_lower (ascii_lower c) = ascii_lower c"
proof (cases "65 \<le> (of_char c :: nat) \<and> (of_char c :: nat) \<le> 90")
  case True
  then have "ascii_lower c = char_of ((of_char c :: nat) + 32)"
    by (simp add: ascii_lower_def)
  moreover from True have "of_char (char_of ((of_char c :: nat) + 32) :: char) = (of_char c :: nat) + 32"
    by simp
  ultimately show ?thesis
    using True by (simp add: ascii_lower_def)
next
  case False
  then have "ascii_lower c = c"
    by (auto simp: ascii_lower_def Let_def)
  then show ?thesis by simp
qed

lemma to_ascii_lowercase_idem [simp]:
  "to_ascii_lowercase (to_ascii_lowercase s) = to_ascii_lowercase s"
  by (simp add: to_ascii_lowercase_def)

section \<open>Lists and association lists\<close>

text \<open>
  \<open>HashMap\<close>s and \<open>BTreeMap\<close>s are association lists with distinct keys: \<open>map_of\<close> reads,
  \<open>AList.update\<close> inserts (in place, or at the end), \<open>AList.delete\<close> removes.
\<close>

text \<open>Run a fallible step over a list, left to right, stopping at the first error.\<close>

fun fold_result :: "('x \<Rightarrow> 's \<Rightarrow> 's result) \<Rightarrow> 'x list \<Rightarrow> 's \<Rightarrow> 's result" where
  "fold_result f [] s = Inr s"
| "fold_result f (x # xs) s = (case f x s of Inl e \<Rightarrow> Inl e | Inr s' \<Rightarrow> fold_result f xs s')"

lemma fold_result_append:
  "fold_result f (xs @ ys) s =
     (case fold_result f xs s of Inl e \<Rightarrow> Inl e | Inr s' \<Rightarrow> fold_result f ys s')"
  by (induction xs arbitrary: s) (auto split: sum.splits)

lemma fold_result_invariant:
  assumes "fold_result f xs s = Inr t"
    and "P s"
    and "\<And>x s s'. x \<in> set xs \<Longrightarrow> P s \<Longrightarrow> f x s = Inr s' \<Longrightarrow> P s'"
  shows "P t"
  using assms
proof (induction xs arbitrary: s)
  case Nil
  then show ?case by simp
next
  case (Cons x xs)
  then obtain s' where s': "f x s = Inr s'" "fold_result f xs s' = Inr t"
    by (auto split: sum.splits)
  have "P s'"
    by (rule Cons.prems(3) [OF _ Cons.prems(2) s'(1)]) simp
  then show ?case
    by (rule Cons.IH [OF s'(2)]) (use Cons.prems(3) in auto)
qed

lemma map_of_update [simp]: "map_of (AList.update k v al) = (map_of al)(k \<mapsto> v)"
  by (simp add: update_conv')

lemma set_update_subset: "set (AList.update k v al) \<subseteq> insert (k, v) (set al)"
  by (induction al) auto

lemma length_filter_le_card:
  "distinct (map f xs) \<Longrightarrow> length (filter P xs) = card (f ` {x \<in> set xs. P x})"
proof -
  assume d: "distinct (map f xs)"
  then have "distinct (map f (filter P xs))"
    by (induction xs) auto
  then have "card (set (map f (filter P xs))) = length (filter P xs)"
    using distinct_card by fastforce
  then show ?thesis by simp
qed

end
