(* ===== verification/Types.thy ===== *)
theory Types
  imports Prelude
begin

text \<open>
  The transaction types of \<open>crates/zagros-types/src/lib.rs\<close> and
  \<open>crates/zagros-executor/src/bridge.rs\<close>: \<open>TxType\<close>, \<open>Transaction\<close>, the protocol constants and
  the structural validation a node runs before anything else. Signature recovery (secp256k1, RLP)
  is third-party code: \<open>verify_signature\<close> is an argument of \<open>tx_validate\<close>.
\<close>

section \<open>Constants\<close>

definition CHAIN_ID :: nat where
  "CHAIN_ID = 21072026"

definition TOKEN_DECIMAL :: nat where
  "TOKEN_DECIMAL = 1000000000000000000"

definition MAX_SUPPLY :: nat where
  "MAX_SUPPLY = 42000000 * TOKEN_DECIMAL"

definition TOTAL_SUPPLY :: nat where
  "TOTAL_SUPPLY = MAX_SUPPLY"

definition LIQUIDITY_POOL_ADDRESS :: address where
  "LIQUIDITY_POOL_ADDRESS = ''0x0000000000000000000000000000000000000000''"

definition VALIDATOR_REWARD_POOL :: address where
  "VALIDATOR_REWARD_POOL = ''0x0000000000000000000000000000000000000003''"

definition SLASH_VALIDATOR_ADDRESS :: address where
  "SLASH_VALIDATOR_ADDRESS = ''0x0000000000000000000000000000000000000007''"

definition D14_RULES_ACTIVATION_HEIGHT :: nat where
  "D14_RULES_ACTIVATION_HEIGHT = 9400"

section \<open>Transactions\<close>

datatype tx_type =
    Transfer
  | SwapBuy
  | SwapSell
  | BridgeMint
  | BridgeMintAndSwap
  | BridgeBurn
  | BridgeSwapAndBurn
  | StakeZagros
  | UnstakeZagros
  | DeployContract
  | CallContract
  | ContractCall bytes
  | SubmitProposal
  | Vote
  | ClaimReward
  | SlashValidator
  | ReportMalicious
  | RegisterValidator
  | UnregisterValidator
  | ApproveValidator
  | RemoveValidator
  | RotateConsensusKey

record transaction =
  tx_id :: hash
  tx_kind :: tx_type
  tx_sender :: address
  tx_amount :: nat
  tx_receiver :: address
  tx_payload :: bytes
  tx_signature :: bytes
  tx_timestamp :: nat
  tx_nonce :: nat
  tx_gas_limit :: nat
  tx_gas_price :: nat
  tx_chain_id :: nat

section \<open>Addresses and structural validation\<close>

definition is_ascii_hexdigit :: "char \<Rightarrow> bool" where
  "is_ascii_hexdigit c =
     (let n = of_char c :: nat
      in (48 \<le> n \<and> n \<le> 57) \<or> (65 \<le> n \<and> n \<le> 70) \<or> (97 \<le> n \<and> n \<le> 102))"

definition validate_address :: "address \<Rightarrow> bool" where
  "validate_address a =
     (if take 2 a = ''0x'' \<or> take 2 a = ''0X''
      then (if length a \<noteq> 42 then False else list_all is_ascii_hexdigit (drop 2 a))
      else False)"

definition checks_amount :: "tx_type \<Rightarrow> bool" where
  "checks_amount k = (k \<in> {Transfer, SwapBuy, SwapSell, StakeZagros, UnstakeZagros})"

definition tx_validate :: "(transaction \<Rightarrow> bool) \<Rightarrow> transaction \<Rightarrow> unit result" where
  "tx_validate verify_signature tx =
     (if \<not> verify_signature tx then Inl InvalidSignature
      else if \<not> validate_address (tx_sender tx) then Inl InvalidAddress
      else if \<not> validate_address (tx_receiver tx) then Inl InvalidAddress
      else if tx_chain_id tx \<noteq> CHAIN_ID then Inl (Other ''Invalid Chain ID'')
      else if checks_amount (tx_kind tx) \<and> tx_amount tx = 0 \<and> tx_kind tx \<noteq> UnstakeZagros
        then Inl (Other ''Amount must be greater than zero'')
      else if checks_amount (tx_kind tx) \<and> TOTAL_SUPPLY < tx_amount tx
        then Inl (Other ''Amount exceeds total supply'')
      else if tx_kind tx = ContractCall []
        then Inl (Other ''ContractCall must have non-empty data payload'')
      else if tx_gas_limit tx = 0 then Inl (Other ''Gas limit cannot be zero'')
      else if 10000000 < tx_gas_limit tx then Inl GasLimitExceeded
      else if tx_gas_price tx = 0 then Inl (Other ''Gas price cannot be zero'')
      else if 1048576 < length (tx_payload tx) then Inl (Other ''Payload too large (max 1MB)'')
      else Inr ())"

text \<open>
  \<open>slash_target_address\<close>: the account a slash names. \<open>from_utf8\<close> is the standard library's
  decoding of bytes to text, \<open>hex_encode\<close> the hex crate's.
\<close>

definition slash_target_address ::
  "(bytes \<Rightarrow> string option) \<Rightarrow> (bytes \<Rightarrow> string) \<Rightarrow> address \<Rightarrow> bytes \<Rightarrow> address" where
  "slash_target_address from_utf8 hex_encode receiver payload =
     (if receiver \<noteq> SLASH_VALIDATOR_ADDRESS then receiver
      else case from_utf8 payload of
        Some text \<Rightarrow>
          if validate_address text then text
          else if 36 \<le> length payload
            then ''0x'' @ hex_encode (drop 12 (take 32 (drop 4 payload)))
          else if length payload = 32 then ''0x'' @ hex_encode (take 20 (drop 12 payload))
          else if length payload = 20 then ''0x'' @ hex_encode payload
          else []
      | None \<Rightarrow>
          if 36 \<le> length payload
            then ''0x'' @ hex_encode (drop 12 (take 32 (drop 4 payload)))
          else if length payload = 32 then ''0x'' @ hex_encode (take 20 (drop 12 payload))
          else if length payload = 20 then ''0x'' @ hex_encode payload
          else [])"

section \<open>Bridge proposals\<close>

datatype bridge_tx_type = Mint | Burn

record bridge_signature =
  bs_authority :: address
  bs_signature :: bytes
  bs_public_key :: bytes
  bs_timestamp :: nat

record claim_voucher =
  cv_signer :: string
  cv_signature :: string

record bridge_proposal =
  bp_proposal_id :: hash
  bp_tx_type :: bridge_tx_type
  bp_amount :: nat
  bp_recipient :: address
  bp_source_chain :: string
  bp_source_tx_hash :: string
  bp_timestamp :: nat
  bp_signatures :: "bridge_signature list"
  bp_executed :: bool
  bp_nonce :: nat
  bp_auto_swap :: bool
  bp_amount_out_min :: nat
  bp_claim_vouchers :: "claim_voucher list"

section \<open>Lemmas\<close>

lemma validate_address_length: "validate_address a \<Longrightarrow> length a = 42"
  by (auto simp: validate_address_def split: if_splits)

lemma validate_address_nonempty: "validate_address a \<Longrightarrow> a \<noteq> []"
  using validate_address_length by fastforce

lemma tx_validate_Inr:
  "tx_validate vs tx = Inr () \<longleftrightarrow>
     vs tx \<and> validate_address (tx_sender tx) \<and> validate_address (tx_receiver tx) \<and>
     tx_chain_id tx = CHAIN_ID \<and>
     (checks_amount (tx_kind tx) \<longrightarrow>
        tx_amount tx \<le> TOTAL_SUPPLY \<and> (tx_amount tx = 0 \<longrightarrow> tx_kind tx = UnstakeZagros)) \<and>
     tx_kind tx \<noteq> ContractCall [] \<and>
     0 < tx_gas_limit tx \<and> tx_gas_limit tx \<le> 10000000 \<and> 0 < tx_gas_price tx \<and>
     length (tx_payload tx) \<le> 1048576"
  by (auto simp: tx_validate_def)

end
