(* ===== verification/Quorum.thy ===== *)
theory Quorum
  imports Prelude
begin

text \<open>
  The contract of a Byzantine quorum rule, as the consensus layer relies on it: a quorum is reached
  by the correct validators alone, and two quorums share more validators than can be faulty. The
  code's \<open>quorum_of\<close> and \<open>byzantine_tolerance\<close> are shown to satisfy it in \<open>ConsensusTypes\<close>.
\<close>

locale quorum_rule =
  fixes quorum :: "nat \<Rightarrow> nat result" and tolerance :: "nat \<Rightarrow> nat"
  assumes available: "quorum n = Inr q \<Longrightarrow> q + tolerance n \<le> n"
    and intersecting: "quorum n = Inr q \<Longrightarrow> n + tolerance n < 2 * q"
begin

lemma quorum_positive: "quorum n = Inr q \<Longrightarrow> tolerance n < q"
  using available intersecting by fastforce

lemma overlap:
  assumes q: "quorum n = Inr q"
    and sub: "A \<subseteq> {..<n}" "B \<subseteq> {..<n}"
    and big: "q \<le> card A" "q \<le> card B"
  shows "tolerance n < card (A \<inter> B)"
proof -
  have fin: "finite A" "finite B"
    using sub finite_subset by blast+
  have "card (A \<union> B) \<le> n"
    using card_mono [of "{..<n}" "A \<union> B"] sub by simp
  moreover have "card A + card B = card (A \<union> B) + card (A \<inter> B)"
    by (rule card_Un_Int [OF fin])
  ultimately show ?thesis
    using intersecting [OF q] big by linarith
qed

text \<open>Two quorums share a validator outside any tolerated set of faulty ones.\<close>

lemma honest_overlap:
  assumes "quorum n = Inr q" "A \<subseteq> {..<n}" "B \<subseteq> {..<n}" "q \<le> card A" "q \<le> card B"
    and faulty: "finite F" "card F \<le> tolerance n"
  shows "\<exists>v \<in> A \<inter> B. v \<notin> F"
proof (rule ccontr)
  assume "\<not> ?thesis"
  then have "A \<inter> B \<subseteq> F" by blast
  then have "card (A \<inter> B) \<le> card F"
    by (rule card_mono [OF faulty(1)])
  with overlap [OF assms(1-5)] faulty(2) show False by linarith
qed

text \<open>The validators outside a tolerated faulty set form a quorum.\<close>

lemma correct_quorum:
  assumes "quorum n = Inr q" and "finite F" "card F \<le> tolerance n"
  shows "q \<le> card ({..<n} - F)"
proof -
  have "n - card F \<le> card ({..<n} - F)"
    using diff_card_le_card_Diff [of F "{..<n}"] assms(2) by simp
  with available [OF assms(1)] assms(3) show ?thesis by linarith
qed

text \<open>A tolerated set of faulty validators is not a quorum.\<close>

lemma faulty_below_quorum:
  assumes "quorum n = Inr q" and "finite F" "card F \<le> tolerance n"
  shows "card F < q"
  using quorum_positive [OF assms(1)] assms(3) by linarith

end

end
