(* ===== verification/ConsensusTypes.thy ===== *)
theory ConsensusTypes
  imports Types Quorum
begin

text \<open>
  The consensus data types of \<open>crates/zagros-types/src/consensus.rs\<close>: the domain-separated signing
  payload, the quorum arithmetic, the active validator set, votes, headers, quorum certificates,
  heartbeats and equivocation evidence, with their structural validation.

  Keccak-256 and bincode are third-party code: \<open>keccak\<close> and \<open>ser_header\<close> are fields of the record
  \<open>crypto_env\<close> every definition that hashes takes as an argument.
\<close>

section \<open>Domain separation\<close>

definition DOMAIN_VOTE :: bytes where
  "DOMAIN_VOTE = str_bytes ''ZAGROS/VOTE/v1''"

definition DOMAIN_SHADOW :: bytes where
  "DOMAIN_SHADOW = str_bytes ''ZAGROS/SHADOW/v1''"

definition DOMAIN_HEADER :: bytes where
  "DOMAIN_HEADER = str_bytes ''ZAGROS/HEADER/v1''"

definition DOMAIN_HEARTBEAT :: bytes where
  "DOMAIN_HEARTBEAT = str_bytes ''ZAGROS/HEARTBEAT/v1''"

definition DOMAIN_KEYOWN :: bytes where
  "DOMAIN_KEYOWN = str_bytes ''ZAGROS/KEYOWN/v1''"

definition DOMAIN_KEYROT :: bytes where
  "DOMAIN_KEYROT = str_bytes ''ZAGROS/KEYROT/v1''"

record consensus_domain =
  dm_chain_id :: nat
  dm_genesis_hash :: hash

definition signing_payload ::
  "bytes \<Rightarrow> consensus_domain \<Rightarrow> nat \<Rightarrow> nat \<Rightarrow> nat \<Rightarrow> byte \<Rightarrow> hash \<Rightarrow> bytes" where
  "signing_payload tag d epoch height round phase bh =
     tag @ le_bytes 8 (dm_chain_id d) @ dm_genesis_hash d @ le_bytes 8 epoch @
     le_bytes 8 height @ le_bytes 4 round @ [phase] @ bh"

section \<open>Validator set and quorum arithmetic\<close>

definition MAX_VALIDATORS_HARD :: nat where
  "MAX_VALIDATORS_HARD = 101"

definition MIN_VALIDATORS :: nat where
  "MIN_VALIDATORS = 4"

definition byzantine_tolerance :: "nat \<Rightarrow> nat" where
  "byzantine_tolerance n = (if n = 0 then 0 else (n - 1) div 3)"

definition quorum_of :: "nat \<Rightarrow> nat result" where
  "quorum_of n =
     (if n < MIN_VALIDATORS then Inl (Other ''validator kumesi BFT icin cok kucuk'')
      else if MAX_VALIDATORS_HARD < n then Inl (Other ''validator kumesi kod tavanini asiyor'')
      else Inr ((2 * n) div 3 + 1))"

datatype validator_status =
    Candidate | Approved | Probation | Active | Jailed | Exiting | Removed

record validator_declaration =
  vd_provider :: string
  vd_region :: string
  vd_asn :: nat
  vd_operator_id :: hash

record validator_member =
  m_address :: address
  m_consensus_pubkey :: pubkey

record active_validator_set =
  vs_epoch :: nat
  vs_members :: "validator_member list"

text \<open>\<open>ActiveValidatorSet::len\<close>: \<open>members.len() as u16\<close>.\<close>

definition vs_len :: "active_validator_set \<Rightarrow> nat" where
  "vs_len s = as_u16 (length (vs_members s))"

definition vs_quorum :: "active_validator_set \<Rightarrow> nat result" where
  "vs_quorum s = quorum_of (vs_len s)"

definition vs_hash :: "(bytes \<Rightarrow> hash) \<Rightarrow> active_validator_set \<Rightarrow> hash" where
  "vs_hash keccak s =
     keccak (le_bytes 8 (vs_epoch s) @ concat (sort (map m_consensus_pubkey (vs_members s))))"

definition pubkey_of :: "active_validator_set \<Rightarrow> nat \<Rightarrow> pubkey option" where
  "pubkey_of s idx =
     (if idx < length (vs_members s) then Some (m_consensus_pubkey (vs_members s ! idx)) else None)"

text \<open>The loop of \<open>ActiveValidatorSet::validate\<close>, with the two sets it has seen so far.\<close>

fun validate_members ::
  "pubkey list \<Rightarrow> address list \<Rightarrow> validator_member list \<Rightarrow> unit result" where
  "validate_members seen_keys seen_addr [] = Inr ()"
| "validate_members seen_keys seen_addr (m # ms) =
     (if m_consensus_pubkey m \<in> set seen_keys
        then Inl (Other ''validator kumesinde tekrar eden consensus_pubkey'')
      else if to_ascii_lowercase (m_address m) \<in> set seen_addr
        then Inl (Other ''validator kumesinde tekrar eden adres'')
      else if m_consensus_pubkey m = NIL_HASH
        then Inl (Other ''sifir consensus_pubkey'')
      else validate_members (m_consensus_pubkey m # seen_keys)
             (to_ascii_lowercase (m_address m) # seen_addr) ms)"

definition vs_validate :: "active_validator_set \<Rightarrow> unit result" where
  "vs_validate s =
     (case quorum_of (vs_len s) of Inl e \<Rightarrow> Inl e
      | Inr _ \<Rightarrow> validate_members [] [] (vs_members s))"

section \<open>Votes\<close>

datatype vote_phase = Prevote | Precommit

definition as_u8 :: "vote_phase \<Rightarrow> byte" where
  "as_u8 p = (case p of Prevote \<Rightarrow> 1 | Precommit \<Rightarrow> 2)"

record vote =
  v_height :: nat
  v_round :: nat
  v_phase :: vote_phase
  v_block_hash :: hash
  v_validator_idx :: nat
  v_shadow :: bool
  v_sig :: bytes

definition v_is_nil :: "vote \<Rightarrow> bool" where
  "v_is_nil v = (v_block_hash v = NIL_HASH)"

definition domain_tag :: "vote \<Rightarrow> bytes" where
  "domain_tag v = (if v_shadow v then DOMAIN_SHADOW else DOMAIN_VOTE)"

section \<open>Quorum certificates and headers\<close>

record quorum_certificate =
  q_height :: nat
  q_round :: nat
  q_block_hash :: hash
  q_epoch :: nat
  q_validator_set_hash :: hash
  q_signers :: bytes
  q_sigs :: "bytes list"

record block_header =
  h_version :: nat
  h_number :: nat
  h_parent_hash :: hash
  h_state_root :: hash
  h_timestamp_ms :: nat
  h_tx_root :: hash
  h_tx_count :: nat
  h_body_bytes :: nat
  h_epoch :: nat
  h_validator_set_hash :: hash
  h_round :: nat
  h_proposer_idx :: nat
  h_max_ruleset :: nat
  h_last_qc :: "quorum_certificate option"

record signed_header =
  sh_header :: block_header
  sh_sig :: bytes

text \<open>
  The third-party code the consensus layer calls: Keccak-256, bincode's header encoding, and
  Ed25519 (\<open>ed_key_ok\<close> says whether \<open>VerifyingKey::from_bytes\<close> accepts the key).
\<close>

record crypto_env =
  keccak :: "bytes \<Rightarrow> hash"
  ser_header :: "block_header \<Rightarrow> bytes"
  ed_public :: "bytes \<Rightarrow> pubkey"
  ed_sign :: "bytes \<Rightarrow> hash \<Rightarrow> bytes"
  ed_key_ok :: "pubkey \<Rightarrow> bool"
  ed_check :: "pubkey \<Rightarrow> hash \<Rightarrow> bytes \<Rightarrow> bool"

definition signing_digest ::
  "crypto_env \<Rightarrow> bytes \<Rightarrow> consensus_domain \<Rightarrow> nat \<Rightarrow> nat \<Rightarrow> nat \<Rightarrow> byte \<Rightarrow> hash \<Rightarrow> hash" where
  "signing_digest E tag d epoch height round phase bh =
     keccak E (signing_payload tag d epoch height round phase bh)"

definition vote_signing_digest ::
  "crypto_env \<Rightarrow> consensus_domain \<Rightarrow> nat \<Rightarrow> vote \<Rightarrow> hash" where
  "vote_signing_digest E d epoch v =
     signing_digest E (domain_tag v) d epoch (v_height v) (v_round v) (as_u8 (v_phase v))
       (v_block_hash v)"

definition h_hash :: "crypto_env \<Rightarrow> block_header \<Rightarrow> hash" where
  "h_hash E h = keccak E (ser_header E h)"

definition compute_tx_root :: "crypto_env \<Rightarrow> hash list \<Rightarrow> hash" where
  "compute_tx_root E tx_hashes = keccak E (concat tx_hashes)"

definition header_signing_digest :: "crypto_env \<Rightarrow> consensus_domain \<Rightarrow> block_header \<Rightarrow> hash" where
  "header_signing_digest E d h =
     signing_digest E DOMAIN_HEADER d (h_epoch h) (h_number h) (h_round h) 0 (h_hash E h)"

subsection \<open>The signer bit set\<close>

definition bitset_len_for :: "nat \<Rightarrow> nat" where
  "bitset_len_for n = (n + 7) div 8"

text \<open>One byte of \<open>signer_indices\<close>: the inner loop over its eight bits.\<close>

definition byte_indices :: "nat \<Rightarrow> byte \<Rightarrow> nat list" where
  "byte_indices byte_i b =
     map (\<lambda>k. as_u16 (byte_i * 8 + k)) (filter (\<lambda>k. b AND push_bit k 1 \<noteq> 0) [0..<8])"

fun signer_indices_from :: "nat \<Rightarrow> bytes \<Rightarrow> nat list" where
  "signer_indices_from byte_i [] = []"
| "signer_indices_from byte_i (b # bs) = byte_indices byte_i b @ signer_indices_from (Suc byte_i) bs"

definition signer_indices :: "quorum_certificate \<Rightarrow> nat list" where
  "signer_indices q = signer_indices_from 0 (q_signers q)"

text \<open>\<open>bitset[idx / 8] |= 1 << (idx % 8)\<close>: an index past the end panics.\<close>

definition set_signer :: "bytes \<Rightarrow> nat \<Rightarrow> bytes result" where
  "set_signer bitset idx =
     (if idx div 8 < length bitset
      then Inr (bitset[idx div 8 := bitset ! (idx div 8) OR push_bit (idx mod 8) 1])
      else Inl RustPanic)"

subsection \<open>Structural validation\<close>

definition qc_validate_structure ::
  "crypto_env \<Rightarrow> quorum_certificate \<Rightarrow> active_validator_set \<Rightarrow> unit result" where
  "qc_validate_structure E qc s =
     (case vs_quorum s of Inl e \<Rightarrow> Inl e
      | Inr q \<Rightarrow>
        (if q_block_hash qc = NIL_HASH then Inl (Other ''QC nil hash tasiyamaz'')
         else if q_epoch qc \<noteq> vs_epoch s then Inl (Other ''QC epoch != kume epoch'')
         else if q_validator_set_hash qc \<noteq> vs_hash (keccak E) s
           then Inl (Other ''QC validator_set_hash kume ile uyusmuyor'')
         else if length (q_signers qc) \<noteq> bitset_len_for (vs_len s)
           then Inl (Other ''QC bitset boyutu kume boyutuyla uyusmuyor'')
         else (let idxs = signer_indices qc in
           if list_ex (\<lambda>i. vs_len s \<le> i) idxs
             then Inl (Other ''QC imzaci indeksi kume disinda'')
           else if length idxs \<noteq> length (q_sigs qc) then Inl (Other ''QC imza sayisi != imzaci biti'')
           else if as_u16 (length idxs) < q then Inl (Other ''QC quorum altinda'')
           else Inr ())))"

section \<open>Heartbeats, shadow votes and evidence\<close>

record heartbeat =
  hb_height :: nat
  hb_round :: nat
  hb_timestamp_ms :: nat
  hb_validator_idx :: nat
  hb_sig :: bytes

record shadow_vote_attestation =
  sva_address :: address
  sva_vote :: vote

definition heartbeat_signing_digest ::
  "crypto_env \<Rightarrow> consensus_domain \<Rightarrow> nat \<Rightarrow> heartbeat \<Rightarrow> hash" where
  "heartbeat_signing_digest E d epoch hb =
     signing_digest E DOMAIN_HEARTBEAT d epoch (hb_height hb) (hb_round hb) 0
       (le_bytes 8 (hb_timestamp_ms hb) @ replicate 24 0)"

datatype evidence =
    DoubleVote vote vote
  | DoublePropose signed_header signed_header

definition ev_height :: "evidence \<Rightarrow> nat" where
  "ev_height ev =
     (case ev of DoubleVote a b \<Rightarrow> v_height a | DoublePropose a b \<Rightarrow> h_number (sh_header a))"

definition ev_validator_idx :: "evidence \<Rightarrow> nat" where
  "ev_validator_idx ev =
     (case ev of DoubleVote a b \<Rightarrow> v_validator_idx a
      | DoublePropose a b \<Rightarrow> h_proposer_idx (sh_header a))"

definition evidence_validate_structure :: "crypto_env \<Rightarrow> evidence \<Rightarrow> unit result" where
  "evidence_validate_structure E ev =
     (case ev of
        DoubleVote a b \<Rightarrow>
          if v_height a \<noteq> v_height b \<or> v_round a \<noteq> v_round b \<or> v_phase a \<noteq> v_phase b \<or>
             v_validator_idx a \<noteq> v_validator_idx b
            then Inl (Other ''DoubleVote: (height, round, phase, validator) ayni olmali'')
          else if v_shadow a \<noteq> v_shadow b
            then Inl (Other ''DoubleVote: shadow bayraklari farkli'')
          else if v_block_hash a = v_block_hash b
            then Inl (Other ''DoubleVote: ayni block_hash, equivocation degil'')
          else if v_sig a = v_sig b then Inl (Other ''DoubleVote: ayni imza'')
          else Inr ()
      | DoublePropose a b \<Rightarrow>
          let ha = sh_header a; hb = sh_header b in
          if h_number ha \<noteq> h_number hb \<or> h_round ha \<noteq> h_round hb \<or>
             h_proposer_idx ha \<noteq> h_proposer_idx hb
            then Inl (Other ''DoublePropose: (height, round, proposer) ayni olmali'')
          else if h_hash E ha = h_hash E hb then Inl (Other ''DoublePropose: ayni header'')
          else Inr ())"

section \<open>Liveness counters\<close>

record liveness_counters =
  lc_epoch :: nat
  lc_participated :: nat
  lc_total :: nat
  lc_strikes :: nat

text \<open>The product is taken in \<open>u128\<close>, where two \<open>u64\<close> factors below it always fit.\<close>

definition participation_bps :: "liveness_counters \<Rightarrow> nat option" where
  "participation_bps c =
     (if lc_total c = 0 then None
      else Some (as_u16 (min (lc_participated c * 10000 div lc_total c) 10000)))"

section \<open>Quorum arithmetic\<close>

lemma quorum_of_Inr:
  "quorum_of n = Inr q \<longleftrightarrow>
     MIN_VALIDATORS \<le> n \<and> n \<le> MAX_VALIDATORS_HARD \<and> q = (2 * n) div 3 + 1"
  by (auto simp: quorum_of_def)

interpretation code_quorum: quorum_rule quorum_of byzantine_tolerance
proof unfold_locales
  fix n q
  assume "quorum_of n = Inr q"
  then have n: "4 \<le> n" and q: "q = (2 * n) div 3 + 1"
    by (simp_all add: quorum_of_Inr MIN_VALIDATORS_def)
  from n have f: "byzantine_tolerance n = (n - 1) div 3"
    by (simp add: byzantine_tolerance_def)
  show "q + byzantine_tolerance n \<le> n"
    unfolding q f using n by presburger
  show "n + byzantine_tolerance n < 2 * q"
    unfolding q f using n by presburger
qed

section \<open>Signing payloads\<close>

text \<open>
  A payload is the tag followed by 93 bytes of fixed layout, so two equal payloads have tags of the
  same length and every field can be read back.
\<close>

lemma length_signing_payload:
  "length (dm_genesis_hash d) = 32 \<Longrightarrow> length bh = 32 \<Longrightarrow>
     length (signing_payload tag d epoch height round phase bh) = length tag + 93"
  by (simp add: signing_payload_def)

lemma signing_payload_inj:
  assumes eq: "signing_payload t d e h r ph bh = signing_payload t' d' e' h' r' ph' bh'"
    and hash: "length (dm_genesis_hash d) = 32" "length (dm_genesis_hash d') = 32"
      "length bh = 32" "length bh' = 32"
    and width: "dm_chain_id d < 2 ^ 64" "dm_chain_id d' < 2 ^ 64" "e < 2 ^ 64" "e' < 2 ^ 64"
      "h < 2 ^ 64" "h' < 2 ^ 64" "r < 2 ^ 32" "r' < 2 ^ 32"
  shows "t = t' \<and> dm_chain_id d = dm_chain_id d' \<and> dm_genesis_hash d = dm_genesis_hash d' \<and>
    e = e' \<and> h = h' \<and> r = r' \<and> ph = ph' \<and> bh = bh'"
proof -
  have "length t + 93 = length t' + 93"
    using arg_cong [OF eq, of length] hash by (simp add: length_signing_payload)
  then have tags: "t = t'"
    and chain: "le_bytes 8 (dm_chain_id d) = le_bytes 8 (dm_chain_id d')"
    and gen: "dm_genesis_hash d = dm_genesis_hash d'"
    and ep: "le_bytes 8 e = le_bytes 8 e'" and he: "le_bytes 8 h = le_bytes 8 h'"
    and ro: "le_bytes 4 r = le_bytes 4 r'" and rest: "ph = ph'" "bh = bh'"
    using eq hash by (auto simp: signing_payload_def)
  have "dm_chain_id d = dm_chain_id d'" "e = e'" "h = h'"
    by (rule le_bytes_inj [where k = 8, OF _ _ chain] le_bytes_inj [where k = 8, OF _ _ ep]
        le_bytes_inj [where k = 8, OF _ _ he]; use width in simp)+
  moreover have "r = r'"
    by (rule le_bytes_inj [where k = 4, OF _ _ ro]) (use width in simp_all)
  ultimately show ?thesis using tags gen rest by simp
qed

section \<open>The signer bit set\<close>

text \<open>Whether bit \<open>i\<close> of the set is on.\<close>

definition bit_on :: "bytes \<Rightarrow> nat \<Rightarrow> bool" where
  "bit_on bs i \<longleftrightarrow> i div 8 < length bs \<and> bit (bs ! (i div 8)) (i mod 8)"

lemma byte_bit_test: "(b :: byte) AND push_bit k 1 \<noteq> 0 \<longleftrightarrow> bit b k"
  by (simp add: bit_iff_and_push_bit_not_eq_0)

lemma bit_on_Cons_plus: "bit_on (b # bs) (n + 8) \<longleftrightarrow> bit_on bs n"
proof -
  have "(n + 8) div 8 = Suc (n div 8)" "(n + 8) mod 8 = n mod 8" by simp_all
  then show ?thesis by (simp add: bit_on_def del: div_add_self2 mod_add_self2)
qed

lemma signer_indices_from_conv:
  "8 * (i + length bs) \<le> 65536 \<Longrightarrow>
     signer_indices_from i bs = map (\<lambda>n. 8 * i + n) (filter (bit_on bs) [0..<8 * length bs])"
proof (induction bs arbitrary: i)
  case Nil
  then show ?case by simp
next
  case (Cons b bs)
  have "[0..<8 * length (b # bs)] = [0..<8] @ map (\<lambda>n. n + 8) [0..<8 * length bs]"
    by (simp add: map_add_upt upt_add_eq_append [of 0 8 "8 * length bs", simplified] add.commute)
  moreover have "filter (bit_on (b # bs)) [0..<8] = filter (bit b) [0..<8]"
    by (rule filter_cong) (auto simp: bit_on_def)
  moreover have "filter (bit_on (b # bs)) (map (\<lambda>n. n + 8) [0..<8 * length bs]) =
      map (\<lambda>n. n + 8) (filter (bit_on bs) [0..<8 * length bs])"
    by (simp add: filter_map o_def bit_on_Cons_plus)
  moreover have "byte_indices i b = map (\<lambda>n. 8 * i + n) (filter (bit b) [0..<8])"
    unfolding byte_indices_def byte_bit_test
    by (rule map_cong) (use Cons.prems in \<open>auto simp: as_u16_def mult.commute\<close>)
  ultimately show ?case
    using Cons.IH [of "Suc i"] Cons.prems by (simp add: o_def algebra_simps)
qed

lemma signer_indices_conv:
  "length (q_signers q) \<le> 8192 \<Longrightarrow>
     signer_indices q = filter (bit_on (q_signers q)) [0..<8 * length (q_signers q)]"
  by (simp add: signer_indices_def signer_indices_from_conv)

lemma distinct_signer_indices:
  "length (q_signers q) \<le> 8192 \<Longrightarrow> distinct (signer_indices q)"
  by (simp add: signer_indices_conv)

lemma set_signer_indices:
  "length (q_signers q) \<le> 8192 \<Longrightarrow> set (signer_indices q) = {i. bit_on (q_signers q) i}"
  by (auto simp: signer_indices_conv bit_on_def)

lemma sorted_signer_indices:
  "length (q_signers q) \<le> 8192 \<Longrightarrow> sorted (signer_indices q)"
  by (simp add: signer_indices_conv sorted_wrt_filter)

lemma bit_on_set_signer:
  assumes "set_signer bs i = Inr bs'"
  shows "length bs' = length bs" "bit_on bs' j \<longleftrightarrow> j = i \<or> bit_on bs j"
proof -
  have i: "i div 8 < length bs"
    and bs': "bs' = bs[i div 8 := bs ! (i div 8) OR push_bit (i mod 8) 1]"
    using assms by (auto simp: set_signer_def split: if_splits)
  show "length bs' = length bs" by (simp add: bs')
  have split: "j = i \<longleftrightarrow> j div 8 = i div 8 \<and> j mod 8 = i mod 8"
    by (metis div_mult_mod_eq)
  have eight: "j mod 8 < 8" by simp
  show "bit_on bs' j \<longleftrightarrow> j = i \<or> bit_on bs j"
    using i eight unfolding bs' bit_on_def split
    by (auto simp: nth_list_update bit_or_iff bit_exp_iff fold_possible_bit)
qed

text \<open>A bit set built by \<open>set_signer\<close> from the empty one reads back in increasing order.\<close>

lemma set_signer_fold:
  assumes "n \<le> MAX_VALIDATORS_HARD" and "\<forall>i \<in> set idxs. i < n"
  shows "\<exists>bs. fold_result (\<lambda>i b. set_signer b i) idxs (replicate (bitset_len_for n) 0) = Inr bs \<and>
    length bs = bitset_len_for n \<and>
    signer_indices (qc\<lparr>q_signers := bs\<rparr>) = sorted_list_of_set (set idxs)"
proof -
  have "\<exists>bs. fold_result (\<lambda>i b. set_signer b i) idxs b0 = Inr bs \<and> length bs = length b0 \<and>
      (\<forall>j. bit_on bs j \<longleftrightarrow> j \<in> set idxs \<or> bit_on b0 j)"
    if "length b0 = bitset_len_for n" for b0
    using assms(2) that
  proof (induction idxs arbitrary: b0)
    case Nil
    then show ?case by simp
  next
    case (Cons i idxs)
    then have "i div 8 < length b0" by (auto simp: bitset_len_for_def)
    then obtain b1 where b1: "set_signer b0 i = Inr b1" by (simp add: set_signer_def)
    note step = bit_on_set_signer [OF b1]
    obtain bs where "fold_result (\<lambda>i b. set_signer b i) idxs b1 = Inr bs" "length bs = length b1"
      "\<forall>j. bit_on bs j \<longleftrightarrow> j \<in> set idxs \<or> bit_on b1 j"
      using Cons.IH [of b1] Cons.prems step(1) by auto
    then show ?case using b1 step by auto
  qed
  from this [of "replicate (bitset_len_for n) 0"] obtain bs where
    run: "fold_result (\<lambda>i b. set_signer b i) idxs (replicate (bitset_len_for n) 0) = Inr bs"
    and len: "length bs = bitset_len_for n"
    and bits: "\<forall>j. bit_on bs j \<longleftrightarrow> j \<in> set idxs \<or> bit_on (replicate (bitset_len_for n) 0) j"
    by auto
  have zero: "\<not> bit_on (replicate k 0) j" for k j by (auto simp: bit_on_def)
  have short: "length (q_signers (qc\<lparr>q_signers := bs\<rparr>)) \<le> 8192"
    using len assms(1) by (simp add: bitset_len_for_def MAX_VALIDATORS_HARD_def)
  have "set (signer_indices (qc\<lparr>q_signers := bs\<rparr>)) = set idxs"
    using set_signer_indices [OF short] bits zero by auto
  then have "signer_indices (qc\<lparr>q_signers := bs\<rparr>) = sorted_list_of_set (set idxs)"
    using distinct_signer_indices [OF short] sorted_signer_indices [OF short]
    by (metis sorted_list_of_set.idem_if_sorted_distinct)
  with run len show ?thesis by blast
qed

section \<open>The validator set\<close>

lemma validate_members_Inr:
  "validate_members sk sa ms = Inr () \<longleftrightarrow>
     distinct (map m_consensus_pubkey ms) \<and> distinct (map (to_ascii_lowercase \<circ> m_address) ms) \<and>
     set (map m_consensus_pubkey ms) \<inter> set sk = {} \<and>
     set (map (to_ascii_lowercase \<circ> m_address) ms) \<inter> set sa = {} \<and>
     NIL_HASH \<notin> set (map m_consensus_pubkey ms)"
  by (induction ms arbitrary: sk sa) auto

lemma vs_quorum_Inr:
  "vs_quorum s = Inr q \<longleftrightarrow>
     4 \<le> vs_len s \<and> vs_len s \<le> 101 \<and> q = (2 * vs_len s) div 3 + 1"
  by (auto simp: vs_quorum_def quorum_of_Inr MIN_VALIDATORS_def MAX_VALIDATORS_HARD_def)

text \<open>The bytes hashed by \<open>vs_hash\<close>, and what they determine.\<close>

definition vs_bytes :: "active_validator_set \<Rightarrow> bytes" where
  "vs_bytes s = le_bytes 8 (vs_epoch s) @ concat (sort (map m_consensus_pubkey (vs_members s)))"

lemma vs_hash_bytes: "vs_hash k s = k (vs_bytes s)"
  by (simp add: vs_hash_def vs_bytes_def)

lemma concat_blocks_inj:
  assumes "0 < n" "\<forall>x \<in> set xs. length x = n" "\<forall>y \<in> set ys. length y = n"
    and "concat xs = concat ys"
  shows "xs = ys"
proof -
  have len: "length (concat zs) = n * length zs" if "\<forall>z \<in> set zs. length z = n" for zs :: "'a list list"
    using that by (induction zs) auto
  have "length xs = length ys"
    using arg_cong [OF assms(4), of length] len [OF assms(2)] len [OF assms(3)] assms(1) by simp
  then show ?thesis
    using assms(2-4) by (induction xs ys rule: list_induct2) auto
qed

lemma vs_bytes_order: "mset (vs_members s) = mset (vs_members t) \<Longrightarrow> vs_epoch s = vs_epoch t \<Longrightarrow>
    vs_bytes s = vs_bytes t"
  by (simp add: vs_bytes_def) (metis mset_map sort_key_id_if_sorted sorted_list_of_multiset_mset)

lemma vs_bytes_binding:
  assumes "vs_bytes s = vs_bytes t"
    and "\<forall>m \<in> set (vs_members s). length (m_consensus_pubkey m) = 32"
    and "\<forall>m \<in> set (vs_members t). length (m_consensus_pubkey m) = 32"
    and "vs_epoch s < 2 ^ 64" "vs_epoch t < 2 ^ 64"
  shows "vs_epoch s = vs_epoch t"
    and "mset (map m_consensus_pubkey (vs_members s)) = mset (map m_consensus_pubkey (vs_members t))"
proof -
  have "le_bytes 8 (vs_epoch s) = le_bytes 8 (vs_epoch t)"
    and body: "concat (sort (map m_consensus_pubkey (vs_members s))) =
      concat (sort (map m_consensus_pubkey (vs_members t)))"
    using assms(1) by (auto simp: vs_bytes_def)
  then show "vs_epoch s = vs_epoch t"
    using le_bytes_inj [of "vs_epoch s" 8] assms(4,5) by simp
  have "sort (map m_consensus_pubkey (vs_members s)) = sort (map m_consensus_pubkey (vs_members t))"
    by (rule concat_blocks_inj [OF _ _ _ body, of 32]) (use assms(2,3) in auto)
  then show "mset (map m_consensus_pubkey (vs_members s)) = mset (map m_consensus_pubkey (vs_members t))"
    by (metis mset_sort)
qed

section \<open>Quorum certificates\<close>

lemma qc_validate_structure_Inr:
  "qc_validate_structure E qc s = Inr () \<longleftrightarrow>
     4 \<le> vs_len s \<and> vs_len s \<le> 101 \<and> q_block_hash qc \<noteq> NIL_HASH \<and> q_epoch qc = vs_epoch s \<and>
     q_validator_set_hash qc = vs_hash (keccak E) s \<and>
     length (q_signers qc) = bitset_len_for (vs_len s) \<and>
     (\<forall>i \<in> set (signer_indices qc). i < vs_len s) \<and>
     length (signer_indices qc) = length (q_sigs qc) \<and>
     (2 * vs_len s) div 3 + 1 \<le> as_u16 (length (signer_indices qc))"
proof (cases "vs_quorum s")
  case (Inl e)
  then show ?thesis
    using vs_quorum_Inr [of s "(2 * vs_len s) div 3 + 1"] by (auto simp: qc_validate_structure_def)
next
  case (Inr q)
  then show ?thesis
    using vs_quorum_Inr [of s q]
    by (auto simp: qc_validate_structure_def Let_def list_ex_iff not_le not_less)
qed

text \<open>A structurally valid certificate names a quorum of distinct validators of the set.\<close>

lemma qc_signers_quorum:
  assumes "qc_validate_structure E qc s = Inr ()"
  shows "distinct (signer_indices qc)" "set (signer_indices qc) \<subseteq> {..<vs_len s}"
    and "vs_quorum s = Inr ((2 * vs_len s) div 3 + 1)"
    and "(2 * vs_len s) div 3 + 1 \<le> card (set (signer_indices qc))"
proof -
  note v = assms [unfolded qc_validate_structure_Inr]
  have "length (q_signers qc) \<le> 8192"
    using v by (auto simp: bitset_len_for_def)
  then show d: "distinct (signer_indices qc)"
    by (rule distinct_signer_indices)
  show "set (signer_indices qc) \<subseteq> {..<vs_len s}" using v by auto
  show "vs_quorum s = Inr ((2 * vs_len s) div 3 + 1)" using v by (simp add: vs_quorum_Inr)
  have "as_u16 (length (signer_indices qc)) \<le> length (signer_indices qc)"
    by (simp add: as_u16_def)
  with v have "(2 * vs_len s) div 3 + 1 \<le> length (signer_indices qc)"
    by linarith
  then show "(2 * vs_len s) div 3 + 1 \<le> card (set (signer_indices qc))"
    by (simp only: distinct_card [OF d])
qed

subsection \<open>Evidence\<close>

lemma evidence_validate_structure_Inr:
  "evidence_validate_structure E (DoubleVote a b) = Inr () \<longleftrightarrow>
     v_height a = v_height b \<and> v_round a = v_round b \<and> v_phase a = v_phase b \<and>
     v_validator_idx a = v_validator_idx b \<and> v_shadow a = v_shadow b \<and>
     v_block_hash a \<noteq> v_block_hash b \<and> v_sig a \<noteq> v_sig b"
  "evidence_validate_structure E (DoublePropose x y) = Inr () \<longleftrightarrow>
     h_number (sh_header x) = h_number (sh_header y) \<and>
     h_round (sh_header x) = h_round (sh_header y) \<and>
     h_proposer_idx (sh_header x) = h_proposer_idx (sh_header y) \<and>
     h_hash E (sh_header x) \<noteq> h_hash E (sh_header y)"
  by (auto simp: evidence_validate_structure_def Let_def)

section \<open>Properties\<close>

text \<open>
  The quorum of a set of n validators is reachable by the correct ones alone (at most f are
  faulty), and two quorums always share more than f validators, so at least one correct one.
\<close>

theorem quorum_of_intersects:
  assumes "quorum_of n = Inr q"
  shows "q + byzantine_tolerance n \<le> n \<and>
    (\<forall>A B. A \<subseteq> {..<n} \<longrightarrow> B \<subseteq> {..<n} \<longrightarrow> q \<le> card A \<longrightarrow> q \<le> card B \<longrightarrow>
       byzantine_tolerance n < card (A \<inter> B))"
  using code_quorum.available [OF assms] code_quorum.overlap [OF assms] by blast

theorem quorum_of_intersects_witness:
  "byzantine_tolerance 51 < card ({..<35} \<inter> {16..<51::nat})"
proof -
  have "quorum_of 51 = Inr 35"
    by (simp add: quorum_of_def MIN_VALIDATORS_def MAX_VALIDATORS_HARD_def)
  from quorum_of_intersects [OF this]
  have "{..<35} \<subseteq> {..<51::nat} \<longrightarrow> {16..<51} \<subseteq> {..<51::nat} \<longrightarrow> 35 \<le> card {..<35::nat} \<longrightarrow>
      35 \<le> card {16..<51::nat} \<longrightarrow> byzantine_tolerance 51 < card ({..<35} \<inter> {16..<51::nat})"
    by blast
  then show ?thesis by auto
qed

text \<open>
  C35: the signing payload is unambiguous: two payloads are equal only if the domain tag, the chain,
  the genesis hash, the epoch, the height, the round, the phase and the hash all agree, even though
  tags have different lengths. A signature for one message type, chain or round is never one for
  another.
\<close>

theorem signing_payload_unambiguous:
  assumes "signing_payload t d e h r ph bh = signing_payload t' d' e' h' r' ph' bh'"
    and "length (dm_genesis_hash d) = 32" "length (dm_genesis_hash d') = 32"
    and "length bh = 32" "length bh' = 32"
    and "dm_chain_id d < 2 ^ 64" "dm_chain_id d' < 2 ^ 64" "e < 2 ^ 64" "e' < 2 ^ 64"
    and "h < 2 ^ 64" "h' < 2 ^ 64" "r < 2 ^ 32" "r' < 2 ^ 32"
  shows "t = t' \<and> dm_chain_id d = dm_chain_id d' \<and> dm_genesis_hash d = dm_genesis_hash d' \<and>
    e = e' \<and> h = h' \<and> r = r' \<and> ph = ph' \<and> bh = bh'"
  by (rule signing_payload_inj [OF assms])

definition sample_domain :: consensus_domain where
  "sample_domain = \<lparr>dm_chain_id = CHAIN_ID, dm_genesis_hash = NIL_HASH\<rparr>"

theorem signing_payload_unambiguous_witness:
  "signing_payload DOMAIN_VOTE sample_domain 3 10 1 2 (replicate 32 7) \<noteq>
   signing_payload DOMAIN_SHADOW sample_domain 3 10 1 2 (replicate 32 7)"
proof
  assume "signing_payload DOMAIN_VOTE sample_domain 3 10 1 2 (replicate 32 7) =
    signing_payload DOMAIN_SHADOW sample_domain 3 10 1 2 (replicate 32 7)"
  then have "DOMAIN_VOTE = DOMAIN_SHADOW"
    using signing_payload_unambiguous [of DOMAIN_VOTE sample_domain 3 10 1 2 "replicate 32 7"
        DOMAIN_SHADOW sample_domain 3 10 1 2 "replicate 32 7"]
    by (simp add: sample_domain_def NIL_HASH_def CHAIN_ID_def)
  then have "length DOMAIN_VOTE = length DOMAIN_SHADOW" by (rule arg_cong)
  then show False by (simp add: DOMAIN_VOTE_def DOMAIN_SHADOW_def str_bytes_def)
qed

text \<open>
  Two structurally valid certificates of the same validator set name signer sets that share more
  than f validators: with at most f faulty ones, a correct validator signed both.
\<close>

theorem qc_signers_overlap:
  assumes "qc_validate_structure E qc s = Inr ()" and "qc_validate_structure E qc' s = Inr ()"
  shows "byzantine_tolerance (vs_len s) <
    card (set (signer_indices qc) \<inter> set (signer_indices qc'))"
proof -
  have "quorum_of (vs_len s) = Inr ((2 * vs_len s) div 3 + 1)"
    using qc_signers_quorum(3) [OF assms(1)] by (simp add: vs_quorum_def)
  from code_quorum.overlap [OF this qc_signers_quorum(2) [OF assms(1)] qc_signers_quorum(2) [OF assms(2)]
      qc_signers_quorum(4) [OF assms(1)] qc_signers_quorum(4) [OF assms(2)]]
  show ?thesis .
qed

definition sample_members :: "validator_member list" where
  "sample_members =
    map (\<lambda>i. \<lparr>m_address = ''0x'' @ replicate 40 (char_of (48 + i)),
             m_consensus_pubkey = replicate 32 (of_nat i)\<rparr>) [1, 2, 3, 4]"

text \<open>A four-member set and two certificates of it that share three signers.\<close>

definition toy_env :: crypto_env where
  "toy_env =
    \<lparr>keccak = (\<lambda>x. x), ser_header = (\<lambda>h. le_bytes 8 (h_number h) @ le_bytes 8 (h_timestamp_ms h)),
     ed_public = (\<lambda>k. k), ed_sign = (\<lambda>k d. take 64 (rev d @ k @ replicate 64 0)),
     ed_key_ok = (\<lambda>_. True), ed_check = (\<lambda>k d s. s = take 64 (rev d @ k @ replicate 64 0))\<rparr>"

definition toy_set :: active_validator_set where
  "toy_set = \<lparr>vs_epoch = 0, vs_members = sample_members\<rparr>"

definition toy_qc :: "hash \<Rightarrow> byte \<Rightarrow> quorum_certificate" where
  "toy_qc bh bits =
    \<lparr>q_height = 4, q_round = 0, q_block_hash = bh, q_epoch = 0,
     q_validator_set_hash = vs_hash (keccak toy_env) toy_set, q_signers = [bits],
     q_sigs = [[1], [2], [3]]\<rparr>"

lemma toy_set_len: "vs_len toy_set = 4"
  by (simp add: vs_len_def toy_set_def sample_members_def as_u16_def)

lemma toy_qc_signers:
  "signer_indices (toy_qc bh 7) = [0, 1, 2]" "signer_indices (toy_qc bh 14) = [1, 2, 3]"
  by (simp_all add: signer_indices_def toy_qc_def byte_indices_def upt_rec as_u16_def)

lemma toy_qc_valid:
  "bh \<noteq> NIL_HASH \<Longrightarrow> qc_validate_structure toy_env (toy_qc bh 7) toy_set = Inr ()"
  "bh \<noteq> NIL_HASH \<Longrightarrow> qc_validate_structure toy_env (toy_qc bh 14) toy_set = Inr ()"
  unfolding qc_validate_structure_Inr toy_qc_signers toy_set_len
  by (simp_all add: toy_qc_def bitset_len_for_def as_u16_def toy_set_def)

theorem qc_signers_overlap_witness:
  "byzantine_tolerance 4 < card (set [0, 1, 2] \<inter> set [1, 2, 3 :: nat])"
proof -
  have "replicate 32 1 \<noteq> NIL_HASH" "replicate 32 2 \<noteq> NIL_HASH"
    by (simp_all add: NIL_HASH_def numeral_2_eq_2)
  from qc_signers_overlap [OF toy_qc_valid(1) [OF this(1)] toy_qc_valid(2) [OF this(2)]]
  show ?thesis unfolding toy_qc_signers toy_set_len .
qed

text \<open>
  A signer bit set built by \<open>set_signer\<close> from the empty one reads back as exactly the signers put
  in, in increasing order, and building it never runs past its end.
\<close>

theorem signer_bitset_roundtrip:
  assumes "n \<le> MAX_VALIDATORS_HARD" and "\<forall>i \<in> set idxs. i < n"
  shows "\<exists>bs. fold_result (\<lambda>i b. set_signer b i) idxs (replicate (bitset_len_for n) 0) = Inr bs \<and>
    length bs = bitset_len_for n \<and>
    signer_indices (qc\<lparr>q_signers := bs\<rparr>) = sorted_list_of_set (set idxs)"
  by (rule set_signer_fold [OF assms])

definition sample_qc :: quorum_certificate where
  "sample_qc =
    \<lparr>q_height = 4, q_round = 0, q_block_hash = replicate 32 1, q_epoch = 0,
     q_validator_set_hash = replicate 32 2, q_signers = [], q_sigs = []\<rparr>"

theorem signer_bitset_roundtrip_witness:
  "signer_indices (sample_qc\<lparr>q_signers := [9, 2]\<rparr>) = [0, 3, 9]"
proof -
  have "fold_result (\<lambda>i b. set_signer b i) [9, 0, 3] (replicate (bitset_len_for 10) 0) = Inr [9, 2]"
    by (simp add: set_signer_def bitset_len_for_def numeral_2_eq_2)
  moreover have "sorted_list_of_set (set [9, 0, 3 :: nat]) = [0, 3, 9]" by simp
  ultimately show ?thesis
    using signer_bitset_roundtrip [of 10 "[9, 0, 3]" sample_qc]
    by (auto simp: MAX_VALIDATORS_HARD_def)
qed

text \<open>
  the hash of a validator set does not depend on the order of its members, and it binds the epoch
  and the multiset of consensus keys: sets with different ones feed different bytes to the hash.
\<close>

theorem vs_hash_binding:
  assumes "\<forall>m \<in> set (vs_members s) \<union> set (vs_members t). length (m_consensus_pubkey m) = 32"
    and "vs_epoch s < 2 ^ 64" "vs_epoch t < 2 ^ 64"
    and no_collision: "vs_hash k s = vs_hash k t \<Longrightarrow> vs_bytes s = vs_bytes t"
  shows "vs_hash k s = vs_hash k t \<longleftrightarrow>
    vs_epoch s = vs_epoch t \<and>
    mset (map m_consensus_pubkey (vs_members s)) = mset (map m_consensus_pubkey (vs_members t))"
proof
  assume "vs_hash k s = vs_hash k t"
  note bytes = no_collision [OF this]
  show "vs_epoch s = vs_epoch t \<and>
    mset (map m_consensus_pubkey (vs_members s)) = mset (map m_consensus_pubkey (vs_members t))"
    using vs_bytes_binding [OF bytes] assms(1-3) by auto
next
  assume "vs_epoch s = vs_epoch t \<and>
    mset (map m_consensus_pubkey (vs_members s)) = mset (map m_consensus_pubkey (vs_members t))"
  then show "vs_hash k s = vs_hash k t"
    by (metis vs_hash_def sorted_list_of_multiset_mset)
qed

theorem vs_hash_binding_witness:
  "vs_hash (\<lambda>x. x) \<lparr>vs_epoch = 2, vs_members = sample_members\<rparr> =
   vs_hash (\<lambda>x. x) \<lparr>vs_epoch = 2, vs_members = rev sample_members\<rparr>"
proof -
  have "vs_hash (\<lambda>x. x) s = vs_bytes s" for s by (simp add: vs_hash_bytes)
  then show ?thesis
    using vs_hash_binding [of "\<lparr>vs_epoch = 2, vs_members = sample_members\<rparr>"
        "\<lparr>vs_epoch = 2, vs_members = rev sample_members\<rparr>" "\<lambda>x. x"]
    by (simp add: sample_members_def)
qed

text \<open>
  A validator set validates exactly when its size (as the 16-bit number the code computes) lies
  in [4, 101], no consensus key and no address (up to letter case) repeats, and no key is zero.
\<close>

theorem vs_validate_exact:
  "vs_validate s = Inr () \<longleftrightarrow>
     4 \<le> vs_len s \<and> vs_len s \<le> 101 \<and>
     distinct (map m_consensus_pubkey (vs_members s)) \<and>
     distinct (map (to_ascii_lowercase \<circ> m_address) (vs_members s)) \<and>
     NIL_HASH \<notin> m_consensus_pubkey ` set (vs_members s)"
proof (cases "quorum_of (vs_len s)")
  case (Inl e)
  then have "\<not> (4 \<le> vs_len s \<and> vs_len s \<le> 101)"
    by (auto simp: quorum_of_def MIN_VALIDATORS_def MAX_VALIDATORS_HARD_def split: if_splits)
  with Inl show ?thesis by (auto simp: vs_validate_def)
next
  case (Inr q)
  then have "4 \<le> vs_len s \<and> vs_len s \<le> 101"
    by (simp add: quorum_of_Inr MIN_VALIDATORS_def MAX_VALIDATORS_HARD_def)
  with Inr show ?thesis by (simp add: vs_validate_def validate_members_Inr)
qed

end
