(* ===== verification/ChainParams.thy ===== *)
theory ChainParams
  imports ConsensusTypes
begin

text \<open>
  The on-chain consensus parameters of \<open>crates/zagros-types/src/consensus.rs\<close>: \<open>ChainParams\<close> with
  its bounds, the governance patches of single parameters, the QC closing tolerance (grace), typed
  governance proposals, the admin multisig and the header rules that read the parameters. bincode
  decoding is an argument (\<open>dec\<close>): \<open>None\<close> is its error.
\<close>

section \<open>The QC closing tolerance\<close>

definition DEFAULT_QC_GRACE_MS :: nat where
  "DEFAULT_QC_GRACE_MS = 200"

definition qc_grace_cap_ms :: "nat \<Rightarrow> nat" where
  "qc_grace_cap_ms t_base_ms = t_base_ms div 4"

definition validate_qc_grace :: "nat \<Rightarrow> nat \<Rightarrow> unit result" where
  "validate_qc_grace t_base_ms grace_ms =
     (if qc_grace_cap_ms t_base_ms < grace_ms
      then Inl (ConfigError ''qc_grace_ms > t_base_ms/4 (tur zaman butcesine sigmali)'')
      else Inr ())"

definition decode_qc_grace :: "bytes \<Rightarrow> nat result" where
  "decode_qc_grace bs =
     (if length bs = 8 then Inr (from_le_bytes bs)
      else Inl (ConfigError ''qc_grace_ms sentinel 8 bayt olmali''))"

definition encode_qc_grace :: "nat \<Rightarrow> bytes" where
  "encode_qc_grace ms = le_bytes 8 ms"

section \<open>Chain parameters\<close>

record chain_params =
  p_active_ruleset :: nat
  p_max_validators :: nat
  p_max_block_bytes :: nat
  p_block_interval_ms :: nat
  p_t_base_ms :: nat
  p_epoch_seconds :: nat
  p_probation_epochs :: nat
  p_uptime_threshold_bps :: nat
  p_max_liveness_strikes :: nat
  p_idle_block_interval_s :: nat
  p_max_clock_skew_ms :: nat
  p_evidence_max_age_epochs :: nat
  p_bond_lock_seconds :: nat
  p_max_per_provider :: nat
  p_max_per_region :: nat
  p_max_per_operator :: nat
  p_timelock_epochs :: nat
  p_gov_voting_epochs :: nat
  p_min_validator_stake_zerenya :: nat
  p_stake_hysteresis_bps :: nat
  p_application_fee_zerenya :: nat
  p_reserve_floor_zerenya_per_day :: nat
  p_reserve_end_epoch :: nat
  p_reporter_reward_cap_bps :: nat
  p_false_declaration_slash_bps :: nat
  p_vote_cap_bps :: nat
  p_staker_quorum_bps :: nat

definition genesis_defaults :: chain_params where
  "genesis_defaults =
    \<lparr> p_active_ruleset = 1,
      p_max_validators = 10,
      p_max_block_bytes = 262144,
      p_block_interval_ms = 500,
      p_t_base_ms = 1500,
      p_epoch_seconds = 7200,
      p_probation_epochs = 3,
      p_uptime_threshold_bps = 9000,
      p_max_liveness_strikes = 3,
      p_idle_block_interval_s = 600,
      p_max_clock_skew_ms = 2000,
      p_evidence_max_age_epochs = 24,
      p_bond_lock_seconds = 604800,
      p_max_per_provider = 5,
      p_max_per_region = 7,
      p_max_per_operator = 1,
      p_timelock_epochs = 3,
      p_gov_voting_epochs = 168,
      p_min_validator_stake_zerenya = TOKEN_DECIMAL * 17 div 100,
      p_stake_hysteresis_bps = 2000,
      p_application_fee_zerenya = TOKEN_DECIMAL * 5 div 1000,
      p_reserve_floor_zerenya_per_day = 0,
      p_reserve_end_epoch = 0,
      p_reporter_reward_cap_bps = 5000,
      p_false_declaration_slash_bps = 1000,
      p_vote_cap_bps = 1000,
      p_staker_quorum_bps = 2000 \<rparr>"

text \<open>The loop of \<open>validate\<close> over the basis-point parameters.\<close>

fun validate_bps :: "(string \<times> nat) list \<Rightarrow> unit result" where
  "validate_bps [] = Inr ()"
| "validate_bps ((name, v) # rest) =
     (if 10000 < v then Inl (ConfigError (name @ '' <= 10000 olmali'')) else validate_bps rest)"

definition params_validate :: "chain_params \<Rightarrow> unit result" where
  "params_validate p =
     (if \<not> (1 \<le> p_gov_voting_epochs p \<and> p_gov_voting_epochs p \<le> 720)
        then Inl (ConfigError ''gov_voting_epochs [1, 720] araliginda olmali'')
      else if p_active_ruleset p = 0
        then Inl (ConfigError ''active_ruleset 0 olamaz (kural setleri 1'')
      else if p_max_validators p < MIN_VALIDATORS \<or> MAX_VALIDATORS_HARD < p_max_validators p
        then Inl (ConfigError ''max_validators [4, 101] araliginda olmali'')
      else if \<not> (16 * 1024 \<le> p_max_block_bytes p \<and> p_max_block_bytes p \<le> 8 * 1024 * 1024)
        then Inl (ConfigError ''max_block_bytes [16 KiB, 8 MiB] araliginda olmali'')
      else if \<not> (100 \<le> p_block_interval_ms p \<and> p_block_interval_ms p \<le> 60000)
        then Inl (ConfigError ''block_interval_ms [100, 60000] araliginda olmali'')
      else if p_t_base_ms p < p_block_interval_ms p \<or> 120000 < p_t_base_ms p
        then Inl (ConfigError ''t_base_ms block_interval_ms araliginda olmali'')
      else if \<not> (300 \<le> p_epoch_seconds p \<and> p_epoch_seconds p \<le> 86400)
        then Inl (ConfigError ''epoch_seconds [300, 86400] araliginda olmali'')
      else if p_probation_epochs p = 0 \<or> 100 < p_probation_epochs p
        then Inl (ConfigError ''probation_epochs [1, 100] araliginda olmali'')
      else if 10000 < p_uptime_threshold_bps p \<or> p_uptime_threshold_bps p < 5000
        then Inl (ConfigError ''uptime_threshold_bps [5000, 10000] araliginda olmali'')
      else if p_max_liveness_strikes p = 0
        then Inl (ConfigError ''max_liveness_strikes >= 1 olmali'')
      else if p_idle_block_interval_s p < 10
        then Inl (ConfigError ''idle_block_interval_s >= 10 olmali'')
      else if 60000 < p_max_clock_skew_ms p
        then Inl (ConfigError ''max_clock_skew_ms <= 60 s olmali'')
      else if p_evidence_max_age_epochs p = 0
        then Inl (ConfigError ''evidence_max_age_epochs >= 1 olmali'')
      else if p_bond_lock_seconds p <
          sat_mul u64_max (sat_add u64_max (p_evidence_max_age_epochs p) 1) (p_epoch_seconds p)
        then Inl (ConfigError ''bond_lock_seconds >= (evidence_max_age_epochs + 1) * epoch_seconds'')
      else if p_max_per_operator p = 0 \<or> p_max_per_provider p = 0 \<or> p_max_per_region p = 0
        then Inl (ConfigError ''cesitlilik tavanlari >= 1 olmali'')
      else if p_timelock_epochs p = 0 then Inl (ConfigError ''timelock_epochs >= 1 olmali'')
      else if p_min_validator_stake_zerenya p = 0
        then Inl (ConfigError ''min_validator_stake_zerenya > 0 olmali'')
      else (case validate_bps
              [(''stake_hysteresis_bps'', p_stake_hysteresis_bps p),
               (''reporter_reward_cap_bps'', p_reporter_reward_cap_bps p),
               (''false_declaration_slash_bps'', p_false_declaration_slash_bps p),
               (''vote_cap_bps'', p_vote_cap_bps p),
               (''staker_quorum_bps'', p_staker_quorum_bps p)] of
          Inl e \<Rightarrow> Inl e
        | Inr _ \<Rightarrow>
            if p_vote_cap_bps p = 0 \<or> p_staker_quorum_bps p = 0
            then Inl (ConfigError ''vote_cap_bps ve staker_quorum_bps > 0 olmali'')
            else Inr ()))"

definition params_decode :: "(bytes \<Rightarrow> chain_params option) \<Rightarrow> bytes \<Rightarrow> chain_params result" where
  "params_decode dec bs =
     (case dec bs of None \<Rightarrow> Inl (ConfigError ''ChainParams cozulemedi'')
      | Some p \<Rightarrow> (case params_validate p of Inl e \<Rightarrow> Inl e | Inr _ \<Rightarrow> Inr p))"

section \<open>Governance patches of single parameters\<close>

datatype gov_channel = Consensus | Economic

datatype param_key =
    MaxValidators | MaxBlockBytes | BlockIntervalMs | TBaseMs | EpochSeconds | ProbationEpochs
  | UptimeThresholdBps | MaxLivenessStrikes | IdleBlockIntervalS | MaxClockSkewMs
  | EvidenceMaxAgeEpochs | BondLockSeconds | MaxPerProvider | MaxPerRegion | MaxPerOperator
  | TimelockEpochs | GovVotingEpochs
  | MinValidatorStakeZerenya | StakeHysteresisBps | ApplicationFeeZerenya
  | ReserveFloorZerenyaPerDay | ReserveEndEpoch | ReporterRewardCapBps | FalseDeclarationSlashBps
  | VoteCapBps | StakerQuorumBps
  | QcGraceMs

definition pk_channel :: "param_key \<Rightarrow> gov_channel" where
  "pk_channel k =
     (if k \<in> {MaxValidators, MaxBlockBytes, BlockIntervalMs, TBaseMs, EpochSeconds,
              ProbationEpochs, UptimeThresholdBps, MaxLivenessStrikes, IdleBlockIntervalS,
              MaxClockSkewMs, EvidenceMaxAgeEpochs, BondLockSeconds, MaxPerProvider,
              MaxPerRegion, MaxPerOperator, TimelockEpochs, GovVotingEpochs, QcGraceMs}
      then Consensus else Economic)"

record param_update =
  pu_key :: param_key
  pu_value :: nat

text \<open>\<open>cast!\<close>: \<open>try_from\<close> of the \<open>u128\<close> value into the field's width.\<close>

definition cast_to :: "nat \<Rightarrow> nat \<Rightarrow> nat result" where
  "cast_to mx v = (if v \<le> mx then Inr v else Inl (ConfigError ''icin deger tasar''))"

text \<open>The \<open>match\<close> of \<open>apply_param_updates_inner\<close> on one update.\<close>

definition apply_one_update :: "param_update \<Rightarrow> chain_params \<Rightarrow> chain_params result" where
  "apply_one_update u p =
    (let v = pu_value u; c16 = cast_to u16_max v; c32 = cast_to u32_max v; c64 = cast_to u64_max v
     in case pu_key u of
        MaxValidators \<Rightarrow> try_then c16 (\<lambda>x. Inr (p\<lparr>p_max_validators := x\<rparr>))
      | MaxBlockBytes \<Rightarrow> try_then c64 (\<lambda>x. Inr (p\<lparr>p_max_block_bytes := x\<rparr>))
      | BlockIntervalMs \<Rightarrow> try_then c64 (\<lambda>x. Inr (p\<lparr>p_block_interval_ms := x\<rparr>))
      | TBaseMs \<Rightarrow> try_then c64 (\<lambda>x. Inr (p\<lparr>p_t_base_ms := x\<rparr>))
      | EpochSeconds \<Rightarrow> try_then c64 (\<lambda>x. Inr (p\<lparr>p_epoch_seconds := x\<rparr>))
      | ProbationEpochs \<Rightarrow> try_then c32 (\<lambda>x. Inr (p\<lparr>p_probation_epochs := x\<rparr>))
      | UptimeThresholdBps \<Rightarrow> try_then c16 (\<lambda>x. Inr (p\<lparr>p_uptime_threshold_bps := x\<rparr>))
      | MaxLivenessStrikes \<Rightarrow> try_then c32 (\<lambda>x. Inr (p\<lparr>p_max_liveness_strikes := x\<rparr>))
      | IdleBlockIntervalS \<Rightarrow> try_then c64 (\<lambda>x. Inr (p\<lparr>p_idle_block_interval_s := x\<rparr>))
      | MaxClockSkewMs \<Rightarrow> try_then c64 (\<lambda>x. Inr (p\<lparr>p_max_clock_skew_ms := x\<rparr>))
      | EvidenceMaxAgeEpochs \<Rightarrow> try_then c32 (\<lambda>x. Inr (p\<lparr>p_evidence_max_age_epochs := x\<rparr>))
      | BondLockSeconds \<Rightarrow> try_then c64 (\<lambda>x. Inr (p\<lparr>p_bond_lock_seconds := x\<rparr>))
      | MaxPerProvider \<Rightarrow> try_then c16 (\<lambda>x. Inr (p\<lparr>p_max_per_provider := x\<rparr>))
      | MaxPerRegion \<Rightarrow> try_then c16 (\<lambda>x. Inr (p\<lparr>p_max_per_region := x\<rparr>))
      | MaxPerOperator \<Rightarrow> try_then c16 (\<lambda>x. Inr (p\<lparr>p_max_per_operator := x\<rparr>))
      | TimelockEpochs \<Rightarrow> try_then c32 (\<lambda>x. Inr (p\<lparr>p_timelock_epochs := x\<rparr>))
      | GovVotingEpochs \<Rightarrow> try_then c32 (\<lambda>x. Inr (p\<lparr>p_gov_voting_epochs := x\<rparr>))
      | MinValidatorStakeZerenya \<Rightarrow> Inr (p\<lparr>p_min_validator_stake_zerenya := v\<rparr>)
      | StakeHysteresisBps \<Rightarrow> try_then c16 (\<lambda>x. Inr (p\<lparr>p_stake_hysteresis_bps := x\<rparr>))
      | ApplicationFeeZerenya \<Rightarrow> Inr (p\<lparr>p_application_fee_zerenya := v\<rparr>)
      | ReserveFloorZerenyaPerDay \<Rightarrow> Inr (p\<lparr>p_reserve_floor_zerenya_per_day := v\<rparr>)
      | ReserveEndEpoch \<Rightarrow> try_then c64 (\<lambda>x. Inr (p\<lparr>p_reserve_end_epoch := x\<rparr>))
      | ReporterRewardCapBps \<Rightarrow> try_then c16 (\<lambda>x. Inr (p\<lparr>p_reporter_reward_cap_bps := x\<rparr>))
      | FalseDeclarationSlashBps \<Rightarrow>
          try_then c16 (\<lambda>x. Inr (p\<lparr>p_false_declaration_slash_bps := x\<rparr>))
      | VoteCapBps \<Rightarrow> try_then c16 (\<lambda>x. Inr (p\<lparr>p_vote_cap_bps := x\<rparr>))
      | StakerQuorumBps \<Rightarrow> try_then c16 (\<lambda>x. Inr (p\<lparr>p_staker_quorum_bps := x\<rparr>))
      | QcGraceMs \<Rightarrow> Inl RustPanic)"

fun apply_updates_loop ::
  "param_key list \<Rightarrow> param_update list \<Rightarrow> chain_params \<Rightarrow> chain_params result" where
  "apply_updates_loop seen [] p = Inr p"
| "apply_updates_loop seen (u # us) p =
     (if pu_key u \<in> set seen then Inl (ConfigError ''yinelenen anahtar'')
      else try_then (apply_one_update u p) (apply_updates_loop (pu_key u # seen) us))"

definition apply_param_updates_inner ::
  "chain_params \<Rightarrow> param_update list \<Rightarrow> chain_params result" where
  "apply_param_updates_inner base updates =
     (if updates = [] then Inl (ConfigError ''bos parametre yamasi'')
      else try_then (apply_updates_loop [] updates base)
        (\<lambda>p. try_then (params_validate p) (\<lambda>_. Inr p)))"

definition apply_param_updates :: "chain_params \<Rightarrow> param_update list \<Rightarrow> chain_params result" where
  "apply_param_updates base updates =
     (if list_ex (\<lambda>u. pu_key u = QcGraceMs) updates
      then Inl (ConfigError ''QcGraceMs icin apply_param_updates_with_grace kullanilmali'')
      else apply_param_updates_inner base updates)"

text \<open>The loop that takes the grace update out of the patch: (grace, seen, rest).\<close>

fun split_grace ::
  "param_update list \<Rightarrow> nat \<times> bool \<times> param_update list \<Rightarrow>
   (nat \<times> bool \<times> param_update list) result" where
  "split_grace [] acc = Inr acc"
| "split_grace (u # us) (grace, seen_grace, rest) =
     (if pu_key u = QcGraceMs then
        (if seen_grace then Inl (ConfigError ''yinelenen anahtar: QcGraceMs'')
         else if u64_max < pu_value u then Inl (ConfigError ''QcGraceMs icin deger tasar'')
         else split_grace us (pu_value u, True, rest))
      else split_grace us (grace, seen_grace, rest @ [u]))"

definition apply_param_updates_with_grace ::
  "chain_params \<Rightarrow> nat \<Rightarrow> param_update list \<Rightarrow> (chain_params \<times> nat) result" where
  "apply_param_updates_with_grace base base_grace_ms updates =
     try_then (split_grace updates (base_grace_ms, False, []))
       (\<lambda>(grace, seen_grace, rest).
          try_then
            (if rest = []
             then (if \<not> seen_grace then Inl (ConfigError ''bos parametre yamasi'') else Inr base)
             else apply_param_updates_inner base rest)
            (\<lambda>p. try_then (validate_qc_grace (p_t_base_ms p) grace) (\<lambda>_. Inr (p, grace))))"

section \<open>Typed proposals\<close>

datatype proposal_action =
    Text
  | ParamChange "param_update list"
  | ScheduleUpgrade nat bytes nat
  | ShortenAdminAuthority nat
  | ActApproveValidator string
  | ActRemoveValidator string

fun channel_loop :: "param_update list \<Rightarrow> gov_channel option \<Rightarrow> gov_channel option result" where
  "channel_loop [] ch = Inr ch"
| "channel_loop (u # us) ch =
     (case ch of
        None \<Rightarrow> channel_loop us (Some (pk_channel (pu_key u)))
      | Some existing \<Rightarrow>
          if existing \<noteq> pk_channel (pu_key u)
          then Inl (ConfigError ''tek oneride iki kanal karisamaz (consensus+economic)'')
          else channel_loop us ch)"

definition pa_channel :: "proposal_action \<Rightarrow> gov_channel option result" where
  "pa_channel a =
     (case a of
        Text \<Rightarrow> Inr None
      | ScheduleUpgrade _ _ _ \<Rightarrow> Inr (Some Consensus)
      | ShortenAdminAuthority _ \<Rightarrow> Inr (Some Consensus)
      | ActApproveValidator _ \<Rightarrow> Inr (Some Consensus)
      | ActRemoveValidator _ \<Rightarrow> Inr (Some Consensus)
      | ParamChange updates \<Rightarrow> channel_loop updates None)"

definition GOV_PAYLOAD_MAGIC :: bytes where
  "GOV_PAYLOAD_MAGIC = str_bytes ''ZGOV1'' @ [0]"

definition encode_payload :: "(proposal_action \<Rightarrow> bytes) \<Rightarrow> proposal_action \<Rightarrow> bytes" where
  "encode_payload ser a = GOV_PAYLOAD_MAGIC @ ser a"

definition decode_payload ::
  "(bytes \<Rightarrow> proposal_action option) \<Rightarrow> bytes \<Rightarrow> proposal_action option result" where
  "decode_payload dec payload =
     (if length payload < length GOV_PAYLOAD_MAGIC \<or>
         take (length GOV_PAYLOAD_MAGIC) payload \<noteq> GOV_PAYLOAD_MAGIC
      then Inr None
      else case dec (drop (length GOV_PAYLOAD_MAGIC) payload) of
          None \<Rightarrow> Inl (ConfigError ''bozuk tipli oneri'')
        | Some a \<Rightarrow> Inr (Some a))"

section \<open>Admin multisig\<close>

datatype admin_action = Approve | Remove | VetoProposal

record admin_action_payload =
  aa_action :: admin_action
  aa_target :: address
  aa_epoch :: nat
  aa_signatures :: "bytes list"

definition admin_payload_decode ::
  "(bytes \<Rightarrow> admin_action_payload option) \<Rightarrow> bytes \<Rightarrow> admin_action_payload result" where
  "admin_payload_decode dec bs =
     (case dec bs of None \<Rightarrow> Inl (Other ''AdminAction payload cozulemedi'')
      | Some p \<Rightarrow>
          if aa_signatures p = [] \<or> 16 < length (aa_signatures p)
            then Inl (Other ''AdminAction imza sayisi [1,16] olmali'')
          else if \<not> validate_address (aa_target p) then Inl InvalidAddress
          else Inr p)"

record admin_multisig =
  am_signers :: "address list"
  am_threshold :: nat

fun validate_signers :: "address list \<Rightarrow> address list \<Rightarrow> unit result" where
  "validate_signers seen [] = Inr ()"
| "validate_signers seen (a # as) =
     (if \<not> validate_address a then Inl InvalidAddress
      else if to_ascii_lowercase a \<in> set seen
        then Inl (ConfigError ''admin multisig tekrar eden imzaci'')
      else validate_signers (to_ascii_lowercase a # seen) as)"

definition multisig_validate :: "admin_multisig \<Rightarrow> unit result" where
  "multisig_validate m =
     (if am_signers m = [] \<or> 16 < length (am_signers m)
        then Inl (ConfigError ''admin multisig imzaci sayisi [1,16]'')
      else if am_threshold m = 0 \<or> length (am_signers m) < am_threshold m
        then Inl (ConfigError ''admin multisig esigi [1, imzaci sayisi]'')
      else validate_signers [] (am_signers m))"

definition is_signer :: "admin_multisig \<Rightarrow> address \<Rightarrow> bool" where
  "is_signer m a =
     list_ex (\<lambda>s. to_ascii_lowercase s = to_ascii_lowercase a) (am_signers m)"

definition multisig_decode ::
  "(bytes \<Rightarrow> admin_multisig option) \<Rightarrow> bytes \<Rightarrow> admin_multisig result" where
  "multisig_decode dec bs =
     (case dec bs of None \<Rightarrow> Inl (ConfigError ''AdminMultisig cozulemedi'')
      | Some m \<Rightarrow> try_then (multisig_validate m) (\<lambda>_. Inr m))"

text \<open>
  \<open>validator_action_target\<close>: the account an approval or a removal names, shared by the scheduler
  and the executor.
\<close>

definition validator_action_target ::
  "(bytes \<Rightarrow> admin_action_payload option) \<Rightarrow> tx_type \<Rightarrow> bytes \<Rightarrow> address option" where
  "validator_action_target dec k payload =
     (if k = ApproveValidator \<or> k = RemoveValidator
      then (case admin_payload_decode dec payload of
              Inl _ \<Rightarrow> None | Inr p \<Rightarrow> Some (to_ascii_lowercase (aa_target p)))
      else None)"

section \<open>Header structure\<close>

definition HEADER_VERSION :: nat where
  "HEADER_VERSION = 2"

definition header_validate_structure :: "block_header \<Rightarrow> chain_params \<Rightarrow> unit result" where
  "header_validate_structure h p =
     (if h_version h \<noteq> HEADER_VERSION then Inl (Other ''header surumu'')
      else if p_max_block_bytes p < h_body_bytes h then Inl (Other ''blok govdesi > max_block_bytes'')
      else if h_number h = 0 then Inl (Other ''yukseklik 0 yalniz genesis'')
      else if h_max_ruleset h < p_active_ruleset p
        then Inl (Other ''baslik max_ruleset < aktif kural seti'')
      else (case h_last_qc h of
          None \<Rightarrow>
            if 1 < h_number h then Inl (Other ''genesis disinda her blok last_qc tasimali'')
            else Inr ()
        | Some qc \<Rightarrow>
            if q_height qc + 1 \<noteq> h_number h then Inl (Other ''last_qc yuksekligi ebeveyn degil'')
            else if q_block_hash qc \<noteq> h_parent_hash h
              then Inl (Other ''last_qc.block_hash != parent_hash'')
            else Inr ()))"

section \<open>What a patch does\<close>

text \<open>The field a key names (\<open>QcGraceMs\<close> names no field of \<open>chain_params\<close>).\<close>

fun param_value :: "param_key \<Rightarrow> chain_params \<Rightarrow> nat" where
  "param_value MaxValidators p = p_max_validators p"
| "param_value MaxBlockBytes p = p_max_block_bytes p"
| "param_value BlockIntervalMs p = p_block_interval_ms p"
| "param_value TBaseMs p = p_t_base_ms p"
| "param_value EpochSeconds p = p_epoch_seconds p"
| "param_value ProbationEpochs p = p_probation_epochs p"
| "param_value UptimeThresholdBps p = p_uptime_threshold_bps p"
| "param_value MaxLivenessStrikes p = p_max_liveness_strikes p"
| "param_value IdleBlockIntervalS p = p_idle_block_interval_s p"
| "param_value MaxClockSkewMs p = p_max_clock_skew_ms p"
| "param_value EvidenceMaxAgeEpochs p = p_evidence_max_age_epochs p"
| "param_value BondLockSeconds p = p_bond_lock_seconds p"
| "param_value MaxPerProvider p = p_max_per_provider p"
| "param_value MaxPerRegion p = p_max_per_region p"
| "param_value MaxPerOperator p = p_max_per_operator p"
| "param_value TimelockEpochs p = p_timelock_epochs p"
| "param_value GovVotingEpochs p = p_gov_voting_epochs p"
| "param_value MinValidatorStakeZerenya p = p_min_validator_stake_zerenya p"
| "param_value StakeHysteresisBps p = p_stake_hysteresis_bps p"
| "param_value ApplicationFeeZerenya p = p_application_fee_zerenya p"
| "param_value ReserveFloorZerenyaPerDay p = p_reserve_floor_zerenya_per_day p"
| "param_value ReserveEndEpoch p = p_reserve_end_epoch p"
| "param_value ReporterRewardCapBps p = p_reporter_reward_cap_bps p"
| "param_value FalseDeclarationSlashBps p = p_false_declaration_slash_bps p"
| "param_value VoteCapBps p = p_vote_cap_bps p"
| "param_value StakerQuorumBps p = p_staker_quorum_bps p"
| "param_value QcGraceMs p = 0"

lemma cast_to_Inr: "cast_to mx v = Inr x \<longleftrightarrow> v \<le> mx \<and> x = v"
  by (auto simp: cast_to_def)

text \<open>One update sets the field its key names to its value and leaves every other field.\<close>

lemma apply_one_update_Inr:
  assumes "apply_one_update u p = Inr p'"
  shows "pu_key u \<noteq> QcGraceMs" "p_active_ruleset p' = p_active_ruleset p"
    and "param_value (pu_key u) p' = pu_value u"
    and "k \<noteq> pu_key u \<Longrightarrow> param_value k p' = param_value k p"
proof -
  show "pu_key u \<noteq> QcGraceMs"
    using assms by (auto simp: apply_one_update_def)
  show "p_active_ruleset p' = p_active_ruleset p"
    using assms by (cases "pu_key u") (auto simp: apply_one_update_def try_then_Inr cast_to_Inr)
  show "param_value (pu_key u) p' = pu_value u"
    using assms by (cases "pu_key u") (auto simp: apply_one_update_def try_then_Inr cast_to_Inr)
  assume "k \<noteq> pu_key u"
  then show "param_value k p' = param_value k p"
    using assms
    by (cases "pu_key u"; simp add: apply_one_update_def try_then_Inr cast_to_Inr; cases k; auto)
qed

lemma apply_updates_loop_Inr:
  assumes "apply_updates_loop seen us p = Inr p'"
  shows "distinct (map pu_key us) \<and> pu_key ` set us \<inter> set seen = {} \<and>
    QcGraceMs \<notin> pu_key ` set us \<and> p_active_ruleset p' = p_active_ruleset p \<and>
    (\<forall>u \<in> set us. param_value (pu_key u) p' = pu_value u) \<and>
    (\<forall>k. k \<notin> pu_key ` set us \<longrightarrow> param_value k p' = param_value k p)"
  using assms
proof (induction us arbitrary: seen p)
  case Nil
  then show ?case by simp
next
  case (Cons u us)
  from Cons.prems obtain p1 where fresh: "pu_key u \<notin> set seen"
    and one: "apply_one_update u p = Inr p1"
    and rest: "apply_updates_loop (pu_key u # seen) us p1 = Inr p'"
    by (auto simp: try_then_Inr split: if_splits)
  note ih = Cons.IH [OF rest]
  note fields = apply_one_update_Inr [OF one]
  show ?case
    using ih fields fresh by auto
qed

lemma apply_param_updates_inner_Inr:
  assumes "apply_param_updates_inner base us = Inr p"
  shows "us \<noteq> []" "params_validate p = Inr ()" "distinct (map pu_key us)"
    and "QcGraceMs \<notin> pu_key ` set us" "p_active_ruleset p = p_active_ruleset base"
    and "u \<in> set us \<Longrightarrow> param_value (pu_key u) p = pu_value u"
    and "k \<notin> pu_key ` set us \<Longrightarrow> param_value k p = param_value k base"
proof -
  from assms have ne: "us \<noteq> []" and loop: "apply_updates_loop [] us base = Inr p"
    and val: "params_validate p = Inr ()"
    by (auto simp: apply_param_updates_inner_def try_then_Inr split: if_splits)
  show "us \<noteq> []" by (rule ne)
  show "params_validate p = Inr ()" by (rule val)
  note facts = apply_updates_loop_Inr [OF loop]
  show "distinct (map pu_key us)" "QcGraceMs \<notin> pu_key ` set us"
    "p_active_ruleset p = p_active_ruleset base"
    using facts by blast+
  show "u \<in> set us \<Longrightarrow> param_value (pu_key u) p = pu_value u" using facts by blast
  show "k \<notin> pu_key ` set us \<Longrightarrow> param_value k p = param_value k base" using facts by blast
qed

lemma split_grace_Inr:
  assumes "split_grace us (g, s, rest) = Inr (g', s', rest')"
  shows "rest' = rest @ filter (\<lambda>u. pu_key u \<noteq> QcGraceMs) us"
    and "s' \<longleftrightarrow> s \<or> (\<exists>u \<in> set us. pu_key u = QcGraceMs)"
    and "u \<in> set us \<Longrightarrow> pu_key u = QcGraceMs \<Longrightarrow> g' = pu_value u"
    and "(\<forall>u \<in> set us. pu_key u \<noteq> QcGraceMs) \<Longrightarrow> g' = g"
proof -
  have "rest' = rest @ filter (\<lambda>u. pu_key u \<noteq> QcGraceMs) us \<and>
    (s' \<longleftrightarrow> s \<or> (\<exists>u \<in> set us. pu_key u = QcGraceMs)) \<and>
    (\<forall>u \<in> set us. pu_key u = QcGraceMs \<longrightarrow> g' = pu_value u \<and> \<not> s) \<and>
    ((\<forall>u \<in> set us. pu_key u \<noteq> QcGraceMs) \<longrightarrow> g' = g)"
    using assms
  proof (induction us arbitrary: g s rest)
    case Nil
    then show ?case by simp
  next
    case (Cons u us)
    show ?case
    proof (cases "pu_key u = QcGraceMs")
      case True
      with Cons.prems have "\<not> s" "split_grace us (pu_value u, True, rest) = Inr (g', s', rest')"
        by (auto split: if_splits)
      with Cons.IH [OF this(2)] True show ?thesis by auto
    next
      case False
      with Cons.prems have "split_grace us (g, s, rest @ [u]) = Inr (g', s', rest')" by simp
      from Cons.IH [OF this] False show ?thesis by auto
    qed
  qed
  then show "rest' = rest @ filter (\<lambda>u. pu_key u \<noteq> QcGraceMs) us"
    and "s' \<longleftrightarrow> s \<or> (\<exists>u \<in> set us. pu_key u = QcGraceMs)"
    and "u \<in> set us \<Longrightarrow> pu_key u = QcGraceMs \<Longrightarrow> g' = pu_value u"
    and "(\<forall>u \<in> set us. pu_key u \<noteq> QcGraceMs) \<Longrightarrow> g' = g"
    by blast+
qed

lemma validate_qc_grace_Inr: "validate_qc_grace t g = Inr () \<longleftrightarrow> g \<le> t div 4"
  by (simp add: validate_qc_grace_def qc_grace_cap_ms_def)

lemma genesis_defaults_valid_core: "params_validate genesis_defaults = Inr ()"
  by (simp add: params_validate_def genesis_defaults_def MIN_VALIDATORS_def
      MAX_VALIDATORS_HARD_def sat_mul_def sat_add_def TOKEN_DECIMAL_def)

section \<open>Proposal channels\<close>

lemma channel_loop_Inr:
  "channel_loop us ch = Inr c \<longleftrightarrow>
     (case ch of
        Some g \<Rightarrow> c = Some g \<and> (\<forall>u \<in> set us. pk_channel (pu_key u) = g)
      | None \<Rightarrow> (us = [] \<and> c = None) \<or>
          (\<exists>g. us \<noteq> [] \<and> c = Some g \<and> (\<forall>u \<in> set us. pk_channel (pu_key u) = g)))"
  by (induction us ch rule: channel_loop.induct) (auto split: option.splits)

section \<open>The admin multisig\<close>

lemma validate_signers_Inr:
  "validate_signers seen as = Inr () \<longleftrightarrow>
     (\<forall>a \<in> set as. validate_address a) \<and> distinct (map to_ascii_lowercase as) \<and>
     to_ascii_lowercase ` set as \<inter> set seen = {}"
  by (induction as arbitrary: seen) auto

lemma multisig_validate_Inr:
  "multisig_validate m = Inr () \<longleftrightarrow>
     am_signers m \<noteq> [] \<and> length (am_signers m) \<le> 16 \<and>
     0 < am_threshold m \<and> am_threshold m \<le> length (am_signers m) \<and>
     (\<forall>a \<in> set (am_signers m). validate_address a) \<and>
     distinct (map to_ascii_lowercase (am_signers m))"
  by (auto simp: multisig_validate_def validate_signers_Inr)

lemma is_signer_iff:
  "is_signer m a \<longleftrightarrow> to_ascii_lowercase a \<in> to_ascii_lowercase ` set (am_signers m)"
  by (auto simp: is_signer_def list_ex_iff image_iff) metis

section \<open>Properties\<close>

text \<open>
  The genesis parameters pass their own validation, and the default QC closing tolerance fits
  them, so a chain can start.
\<close>

theorem genesis_defaults_valid:
  "params_validate genesis_defaults = Inr () \<and>
   validate_qc_grace (p_t_base_ms genesis_defaults) DEFAULT_QC_GRACE_MS = Inr ()"
  by (simp_all add: params_validate_def genesis_defaults_def MIN_VALIDATORS_def
      MAX_VALIDATORS_HARD_def sat_mul_def sat_add_def TOKEN_DECIMAL_def validate_qc_grace_def
      qc_grace_cap_ms_def DEFAULT_QC_GRACE_MS_def)

text \<open>
  C40: a governance patch either fails as a whole or yields parameters that pass validation, in which
  exactly the listed fields have changed, each to the value the patch gives it; the active rule set,
  which only a scheduled upgrade may move, is untouched, and no key occurs twice.
\<close>

theorem apply_param_updates_exact:
  assumes "apply_param_updates base us = Inr p"
  shows "params_validate p = Inr () \<and> p_active_ruleset p = p_active_ruleset base \<and>
    us \<noteq> [] \<and> distinct (map pu_key us) \<and>
    (\<forall>u \<in> set us. param_value (pu_key u) p = pu_value u) \<and>
    (\<forall>k. k \<notin> pu_key ` set us \<longrightarrow> param_value k p = param_value k base)"
proof -
  have "apply_param_updates_inner base us = Inr p"
    using assms by (simp add: apply_param_updates_def split: if_splits)
  note facts = apply_param_updates_inner_Inr [OF this]
  from facts show ?thesis by blast
qed

definition sample_patch :: "param_update list" where
  "sample_patch = [\<lparr>pu_key = EpochSeconds, pu_value = 3600\<rparr>, \<lparr>pu_key = VoteCapBps, pu_value = 500\<rparr>]"

theorem apply_param_updates_exact_witness:
  "params_validate (genesis_defaults\<lparr>p_epoch_seconds := 3600, p_vote_cap_bps := 500\<rparr>) = Inr () \<and>
   distinct (map pu_key sample_patch)"
proof -
  have "apply_param_updates genesis_defaults sample_patch =
      Inr (genesis_defaults\<lparr>p_epoch_seconds := 3600, p_vote_cap_bps := 500\<rparr>)"
    by (simp add: apply_param_updates_def apply_param_updates_inner_def sample_patch_def
        apply_one_update_def cast_to_def params_validate_def genesis_defaults_def
        MIN_VALIDATORS_def MAX_VALIDATORS_HARD_def sat_mul_def sat_add_def TOKEN_DECIMAL_def)
  from apply_param_updates_exact [OF this] show ?thesis by simp
qed

text \<open>
  A patch that goes through the grace-aware path leaves the QC closing tolerance within a quarter
  of the base round time in force after the patch, sets the tolerance exactly when the patch names
  it, and changes only the listed parameters.
\<close>

theorem apply_param_updates_with_grace_exact:
  assumes "params_validate base = Inr ()"
    and "apply_param_updates_with_grace base g us = Inr (p, g')"
  shows "g' \<le> p_t_base_ms p div 4 \<and> params_validate p = Inr () \<and> us \<noteq> [] \<and>
    p_active_ruleset p = p_active_ruleset base \<and>
    (\<forall>u \<in> set us. if pu_key u = QcGraceMs then g' = pu_value u
                  else param_value (pu_key u) p = pu_value u) \<and>
    (QcGraceMs \<notin> pu_key ` set us \<longrightarrow> g' = g) \<and>
    (\<forall>k. k \<notin> pu_key ` set us \<longrightarrow> param_value k p = param_value k base)"
proof -
  from assms(2) obtain s rest where sg: "split_grace us (g, False, []) = Inr (g', s, rest)"
    and p: "(if rest = []
             then (if \<not> s then Inl (ConfigError ''bos parametre yamasi'') else Inr base)
             else apply_param_updates_inner base rest) = Inr p"
    and grace: "validate_qc_grace (p_t_base_ms p) g' = Inr ()"
    by (auto simp: apply_param_updates_with_grace_def try_then_Inr)
  note facts = split_grace_Inr [OF sg]
  have rest: "set rest = {u \<in> set us. pu_key u \<noteq> QcGraceMs}" and "us \<noteq> []"
    using facts(1,2) p by (auto split: if_splits)
  have core: "params_validate p = Inr () \<and> p_active_ruleset p = p_active_ruleset base \<and>
      (\<forall>u \<in> set rest. param_value (pu_key u) p = pu_value u) \<and>
      (\<forall>k. k \<notin> pu_key ` set rest \<longrightarrow> param_value k p = param_value k base)"
  proof (cases "rest = []")
    case True
    with p assms(1) show ?thesis by (auto split: if_splits)
  next
    case False
    with p have "apply_param_updates_inner base rest = Inr p" by simp
    from apply_param_updates_inner_Inr [OF this] show ?thesis by blast
  qed
  have "g' \<le> p_t_base_ms p div 4"
    using grace by (simp add: validate_qc_grace_Inr)
  moreover have "\<forall>u \<in> set us. if pu_key u = QcGraceMs then g' = pu_value u
      else param_value (pu_key u) p = pu_value u"
    using core facts(3) rest by simp
  moreover have "QcGraceMs \<notin> pu_key ` set us \<longrightarrow> g' = g"
    using facts(4) by (metis imageI)
  moreover have "\<forall>k. k \<notin> pu_key ` set us \<longrightarrow> param_value k p = param_value k base"
    using core rest by auto
  ultimately show ?thesis using core \<open>us \<noteq> []\<close> by blast
qed

theorem apply_param_updates_with_grace_exact_witness:
  "(300::nat) \<le> p_t_base_ms genesis_defaults div 4"
proof -
  have "apply_param_updates_with_grace genesis_defaults 200
      [\<lparr>pu_key = QcGraceMs, pu_value = 300\<rparr>] = Inr (genesis_defaults, 300)"
    by (simp add: apply_param_updates_with_grace_def validate_qc_grace_def qc_grace_cap_ms_def
        genesis_defaults_def)
  from apply_param_updates_with_grace_exact [OF genesis_defaults_valid_core this]
  show ?thesis by blast
qed

text \<open>
  A typed proposal survives the payload encoding whenever bincode reads back what it wrote, and
  a payload without the magic prefix is never taken for a typed proposal (it stays a text proposal).
\<close>

theorem proposal_payload_roundtrip:
  assumes "dec (ser a) = Some a"
  shows "decode_payload dec (encode_payload ser a) = Inr (Some a) \<and>
    (take 6 bs \<noteq> GOV_PAYLOAD_MAGIC \<longrightarrow> decode_payload dec bs = Inr None)"
proof -
  have "length GOV_PAYLOAD_MAGIC = 6" by (simp add: GOV_PAYLOAD_MAGIC_def str_bytes_def)
  then show ?thesis
    by (simp add: decode_payload_def encode_payload_def assms)
qed

theorem proposal_payload_roundtrip_witness:
  "decode_payload (\<lambda>b. if b = [5] then Some (ShortenAdminAuthority 7) else None)
     (encode_payload (\<lambda>_. [5]) (ShortenAdminAuthority 7)) = Inr (Some (ShortenAdminAuthority 7))"
  using proposal_payload_roundtrip [of "\<lambda>b. if b = [5] then Some (ShortenAdminAuthority 7) else None"
      "\<lambda>_. [5]" "ShortenAdminAuthority 7"] by simp

end
