(* ===== verification/DoubleSign.thy ===== *)
theory DoubleSign
  imports Types
begin

text \<open>
  \<open>DoubleSignProtector\<close> of \<open>crates/zagros-consensus/src/engine.rs\<close>: the highest signed
  (height, round, step, hash) is kept in a file, and a signature is allowed only when it repeats that
  watermark or lies strictly above it and the new watermark has been written. \<open>file_state\<close> is the
  file at \<open>path\<close>; the outcome of a write is the argument \<open>disk_ok\<close> (a failed write leaves the old file:
  the rename is last). The hex crate is the record \<open>hex_env\<close>. Text is ASCII.
\<close>

section \<open>Text of numbers\<close>

definition is_digit :: "char \<Rightarrow> bool" where
  "is_digit c = (let n = of_char c :: nat in 48 \<le> n \<and> n \<le> 57)"

definition is_whitespace :: "char \<Rightarrow> bool" where
  "is_whitespace c = (let n = of_char c :: nat in n = 32 \<or> (9 \<le> n \<and> n \<le> 13))"

text \<open>\<open>format!("{}", n)\<close> of an unsigned integer.\<close>

fun show_nat :: "nat \<Rightarrow> string" where
  "show_nat n =
     (if n < 10 then [char_of (48 + n)] else show_nat (n div 10) @ [char_of (48 + n mod 10)])"

declare show_nat.simps [simp del]

fun parse_digits :: "nat \<Rightarrow> nat \<Rightarrow> string \<Rightarrow> nat option" where
  "parse_digits mx acc [] = Some acc"
| "parse_digits mx acc (c # cs) =
     (if is_digit c
      then (let acc' = acc * 10 + (of_char c - 48) in
            if mx < acc' then None else parse_digits mx acc' cs)
      else None)"

text \<open>\<open>str::parse\<close> into an unsigned type with maximum \<open>mx\<close>: an optional plus sign, then digits.\<close>

definition parse_uint :: "nat \<Rightarrow> string \<Rightarrow> nat option" where
  "parse_uint mx s =
     (let ds = (case s of [] \<Rightarrow> [] | c # cs \<Rightarrow> if c = CHR ''+'' then cs else s) in
      if ds = [] then None else parse_digits mx 0 ds)"

text \<open>\<open>split_whitespace\<close>: the maximal runs of non-whitespace, \<open>cur\<close> the run being read.\<close>

fun split_ws_from :: "string \<Rightarrow> string \<Rightarrow> string list" where
  "split_ws_from cur [] = (if cur = [] then [] else [cur])"
| "split_ws_from cur (c # cs) =
     (if is_whitespace c
      then (if cur = [] then split_ws_from [] cs else cur # split_ws_from [] cs)
      else split_ws_from (cur @ [c]) cs)"

definition split_whitespace :: "string \<Rightarrow> string list" where
  "split_whitespace s = split_ws_from [] s"

section \<open>The protector\<close>

record hex_env =
  hex_enc :: "bytes \<Rightarrow> string"
  hex_dec :: "string \<Rightarrow> bytes option"

datatype file_state = Missing | Unreadable | Contents string

type_synonym watermark = "nat \<times> nat \<times> nat \<times> hash"

record double_sign_protector =
  ds_file :: file_state
  ds_highest :: "watermark option"
  ds_poisoned :: bool

definition ds_parse :: "hex_env \<Rightarrow> string \<Rightarrow> watermark option" where
  "ds_parse X s =
     (case split_whitespace s of
        t1 # t2 # t3 # t4 # _ \<Rightarrow>
          (case parse_uint u64_max t1 of None \<Rightarrow> None | Some h \<Rightarrow>
           (case parse_uint u32_max t2 of None \<Rightarrow> None | Some r \<Rightarrow>
            (case parse_uint 255 t3 of None \<Rightarrow> None | Some step \<Rightarrow>
             (case hex_dec X t4 of None \<Rightarrow> None | Some bytes \<Rightarrow>
               if length bytes \<noteq> 32 then None else Some (h, r, step, bytes)))))
      | _ \<Rightarrow> None)"

definition ds_load :: "hex_env \<Rightarrow> file_state \<Rightarrow> double_sign_protector" where
  "ds_load X file =
     (case file of
        Missing \<Rightarrow> \<lparr>ds_file = file, ds_highest = None, ds_poisoned = False\<rparr>
      | Unreadable \<Rightarrow> \<lparr>ds_file = file, ds_highest = None, ds_poisoned = True\<rparr>
      | Contents s \<Rightarrow>
          (case ds_parse X s of
             Some v \<Rightarrow> \<lparr>ds_file = file, ds_highest = Some v, ds_poisoned = False\<rparr>
           | None \<Rightarrow> \<lparr>ds_file = file, ds_highest = None, ds_poisoned = True\<rparr>))"

text \<open>The line written: \<open>"{} {} {} {}\n"\<close>.\<close>

definition ds_line :: "hex_env \<Rightarrow> nat \<Rightarrow> nat \<Rightarrow> nat \<Rightarrow> hash \<Rightarrow> string" where
  "ds_line X h r step hash =
     show_nat h @ '' '' @ show_nat r @ '' '' @ show_nat step @ '' '' @ hex_enc X hash @ [CHR 0x0A]"

definition ds_persist ::
  "hex_env \<Rightarrow> bool \<Rightarrow> nat \<Rightarrow> nat \<Rightarrow> nat \<Rightarrow> hash \<Rightarrow> file_state \<Rightarrow> bool \<times> file_state" where
  "ds_persist X disk_ok h r step hash file =
     (if disk_ok then (True, Contents (ds_line X h r step hash)) else (False, file))"

definition ds_write_and_raise ::
  "hex_env \<Rightarrow> bool \<Rightarrow> nat \<Rightarrow> nat \<Rightarrow> nat \<Rightarrow> hash \<Rightarrow> double_sign_protector \<Rightarrow>
   bool \<times> double_sign_protector" where
  "ds_write_and_raise X disk_ok h r step hash p =
     (case ds_persist X disk_ok h r step hash (ds_file p) of
        (True, f) \<Rightarrow> (True, p\<lparr>ds_file := f, ds_highest := Some (h, r, step, hash)\<rparr>)
      | (False, f) \<Rightarrow> (False, p\<lparr>ds_file := f\<rparr>))"

definition ds_allow ::
  "hex_env \<Rightarrow> bool \<Rightarrow> nat \<Rightarrow> nat \<Rightarrow> nat \<Rightarrow> hash \<Rightarrow> double_sign_protector \<Rightarrow>
   bool \<times> double_sign_protector" where
  "ds_allow X disk_ok h r step hash p =
     (if ds_poisoned p then (False, p)
      else case ds_highest p of
        Some (ph, pr, ps, phash) \<Rightarrow>
          if (h, r, step) = (ph, pr, ps) then (hash = phash, p)
          else if (h, r, step) < (ph, pr, ps) then (False, p)
          else ds_write_and_raise X disk_ok h r step hash p
      | None \<Rightarrow> ds_write_and_raise X disk_ok h r step hash p)"

section \<open>Round trip of the file\<close>

lemma is_digit_char_of: "n < 10 \<Longrightarrow> is_digit (char_of (48 + n :: nat))"
  by (simp add: is_digit_def Let_def)

lemma digit_not_ws: "is_digit c \<Longrightarrow> \<not> is_whitespace c \<and> c \<noteq> CHR ''+''"
  by (auto simp: is_digit_def is_whitespace_def Let_def)

lemma show_nat_digits: "\<forall>c \<in> set (show_nat n). is_digit c"
proof (induction n rule: show_nat.induct)
  case (1 n)
  then show ?case
    by (subst show_nat.simps) (auto simp: is_digit_char_of)
qed

lemma show_nat_nonempty: "show_nat n \<noteq> []"
  by (subst show_nat.simps) simp

lemma parse_digits_append:
  "parse_digits mx acc (xs @ ys) =
     (case parse_digits mx acc xs of None \<Rightarrow> None | Some a \<Rightarrow> parse_digits mx a ys)"
  by (induction mx acc xs rule: parse_digits.induct) (auto simp: Let_def)

lemma parse_digits_show_nat: "n \<le> mx \<Longrightarrow> parse_digits mx 0 (show_nat n) = Some n"
proof (induction n rule: show_nat.induct)
  case (1 n)
  show ?case
  proof (cases "n < 10")
    case True
    with 1(2) show ?thesis
      by (subst show_nat.simps) (simp add: is_digit_char_of)
  next
    case False
    then have "parse_digits mx 0 (show_nat (n div 10)) = Some (n div 10)"
      using 1 by (meson div_le_dividend le_trans)
    with False 1(2) show ?thesis
      by (subst show_nat.simps) (simp add: parse_digits_append is_digit_char_of)
  qed
qed

lemma parse_uint_show_nat: "n \<le> mx \<Longrightarrow> parse_uint mx (show_nat n) = Some n"
proof -
  assume n: "n \<le> mx"
  obtain c cs where s: "show_nat n = c # cs"
    using show_nat_nonempty by (meson neq_Nil_conv)
  then have "c \<noteq> CHR ''+''"
    using show_nat_digits [of n] digit_not_ws by auto
  with s n show ?thesis
    using parse_digits_show_nat [OF n] by (simp add: parse_uint_def)
qed

lemma split_ws_run:
  "\<forall>c \<in> set w. \<not> is_whitespace c \<Longrightarrow> split_ws_from cur (w @ rest) = split_ws_from (cur @ w) rest"
  by (induction w arbitrary: cur) auto

lemma split_ws_word:
  assumes "\<forall>c \<in> set w. \<not> is_whitespace c" "w \<noteq> []" "is_whitespace s"
  shows "split_ws_from [] (w @ s # rest) = w # split_ws_from [] rest"
  using split_ws_run [OF assms(1), of "[]" "s # rest"] assms by simp

text \<open>Documented behaviour of the hex crate on 32-byte hashes.\<close>

definition hex_ok :: "hex_env \<Rightarrow> bool" where
  "hex_ok X \<longleftrightarrow>
     (\<forall>b. length b = 32 \<longrightarrow> hex_dec X (hex_enc X b) = Some b \<and> hex_enc X b \<noteq> [] \<and>
        (\<forall>c \<in> set (hex_enc X b). \<not> is_whitespace c))"

definition watermark_ok :: "watermark \<Rightarrow> bool" where
  "watermark_ok w = (case w of (h, r, step, hash) \<Rightarrow>
     h \<le> u64_max \<and> r \<le> u32_max \<and> step \<le> 255 \<and> length hash = 32)"

lemma ds_parse_line:
  assumes "hex_ok X" "watermark_ok (h, r, step, hash)"
  shows "ds_parse X (ds_line X h r step hash) = Some (h, r, step, hash)"
proof -
  have sp: "is_whitespace (CHR '' '')" "is_whitespace (CHR 0x0A)"
    by (simp_all add: is_whitespace_def)
  have num: "\<forall>c \<in> set (show_nat n). \<not> is_whitespace c" for n
    using show_nat_digits digit_not_ws by blast
  have hx: "\<forall>c \<in> set (hex_enc X hash). \<not> is_whitespace c" "hex_enc X hash \<noteq> []"
    "hex_dec X (hex_enc X hash) = Some hash"
    using assms by (auto simp: hex_ok_def watermark_ok_def)
  have "split_whitespace (ds_line X h r step hash) =
      [show_nat h, show_nat r, show_nat step, hex_enc X hash]"
    unfolding split_whitespace_def ds_line_def
    by (simp add: split_ws_word [OF num show_nat_nonempty sp(1)] split_ws_word [OF hx(1,2) sp(2)])
  then show ?thesis
    using assms hx by (simp add: ds_parse_def parse_uint_show_nat watermark_ok_def)
qed

section \<open>Runs with restarts\<close>

text \<open>
  A run is a sequence of requests to sign (with the outcome a write would have) and of restarts,
  which throw the protector away and load it again from the file.
\<close>

datatype ds_event =
    Ask bool nat nat nat hash
  | Restart

definition ds_step ::
  "hex_env \<Rightarrow> ds_event \<Rightarrow> double_sign_protector \<Rightarrow> watermark list \<times> double_sign_protector" where
  "ds_step X ev p =
     (case ev of
        Ask ok h r step hash \<Rightarrow>
          (case ds_allow X ok h r step hash p of
             (granted, p') \<Rightarrow> (if granted then [(h, r, step, hash)] else [], p'))
      | Restart \<Rightarrow> ([], ds_load X (ds_file p)))"

fun ds_run ::
  "hex_env \<Rightarrow> ds_event list \<Rightarrow> double_sign_protector \<Rightarrow> watermark list \<times> double_sign_protector" where
  "ds_run X [] p = ([], p)"
| "ds_run X (ev # evs) p =
     (let (g, p') = ds_step X ev p; (gs, p'') = ds_run X evs p' in (g @ gs, p''))"

definition event_ok :: "ds_event \<Rightarrow> bool" where
  "event_ok ev = (case ev of Ask _ h r step hash \<Rightarrow> watermark_ok (h, r, step, hash) | Restart \<Rightarrow> True)"

definition triple :: "watermark \<Rightarrow> nat \<times> nat \<times> nat" where
  "triple w = (case w of (h, r, step, _) \<Rightarrow> (h, r, step))"

text \<open>The order the protector enforces on granted signatures: strictly up, or the same one again.\<close>

definition ds_le :: "watermark \<Rightarrow> watermark \<Rightarrow> bool" where
  "ds_le w w' \<longleftrightarrow> w = w' \<or> triple w < triple w'"

lemma ds_le_trans: "ds_le a b \<Longrightarrow> ds_le b c \<Longrightarrow> ds_le a c"
  by (auto simp: ds_le_def)

lemma ds_le_same_triple: "ds_le w w' \<Longrightarrow> triple w = triple w' \<Longrightarrow> w = w'"
  by (auto simp: ds_le_def)

text \<open>The protector is always what loading its file would give, so a restart changes nothing.\<close>

definition ds_synced :: "hex_env \<Rightarrow> double_sign_protector \<Rightarrow> bool" where
  "ds_synced X p \<longleftrightarrow> ds_load X (ds_file p) = p"

lemma ds_load_file [simp]: "ds_file (ds_load X f) = f"
  by (auto simp: ds_load_def split: file_state.splits option.splits)

lemma ds_load_synced: "ds_synced X (ds_load X f)"
  by (simp add: ds_synced_def)

lemma ds_write_and_raise_synced:
  assumes "hex_ok X" "watermark_ok (h, r, step, hash)" "\<not> ds_poisoned p" "ds_synced X p"
    and "ds_write_and_raise X ok h r step hash p = (b, p')"
  shows "ds_synced X p'" "b \<Longrightarrow> ds_highest p' = Some (h, r, step, hash)" "\<not> b \<Longrightarrow> p' = p"
  using assms
  by (auto simp: ds_write_and_raise_def ds_persist_def ds_synced_def ds_load_def ds_parse_line
      split: if_splits)

lemma ds_allow_step:
  assumes "hex_ok X" "watermark_ok (h, r, step, hash)" "ds_synced X p"
    and "ds_allow X ok h r step hash p = (b, p')"
  shows "ds_synced X p'"
    and "b \<Longrightarrow> \<not> ds_poisoned p \<and> ds_highest p' = Some (h, r, step, hash)"
    and "\<not> b \<Longrightarrow> p' = p"
    and "b \<Longrightarrow> ds_highest p = Some w \<Longrightarrow> ds_le w (h, r, step, hash)"
proof -
  note wr = ds_write_and_raise_synced [OF assms(1,2) _ assms(3)]
  have "ds_synced X p' \<and> (b \<longrightarrow> \<not> ds_poisoned p \<and> ds_highest p' = Some (h, r, step, hash)) \<and>
      (\<not> b \<longrightarrow> p' = p) \<and> (b \<longrightarrow> ds_highest p = Some w \<longrightarrow> ds_le w (h, r, step, hash))"
  proof (cases "ds_poisoned p")
    case True
    with assms(3,4) show ?thesis by (simp add: ds_allow_def)
  next
    case False
    show ?thesis
    proof (cases "ds_highest p")
      case None
      with False assms(4) have "ds_write_and_raise X ok h r step hash p = (b, p')"
        by (simp add: ds_allow_def)
      from wr [OF False this] None False show ?thesis by auto
    next
      case (Some v)
      obtain ph pr ps phash where v: "v = (ph, pr, ps, phash)" by (cases v)
      consider (eq) "(h, r, step) = (ph, pr, ps)" | (lt) "(h, r, step) < (ph, pr, ps)"
        | (gt) "(ph, pr, ps) < (h, r, step)"
        by fastforce
      then show ?thesis
      proof cases
        case eq
        with False Some v assms(3,4) show ?thesis
          by (auto simp: ds_allow_def ds_le_def)
      next
        case lt
        with False Some v assms(3,4) show ?thesis
          by (simp add: ds_allow_def split: if_splits)
      next
        case gt
        then have "ds_write_and_raise X ok h r step hash p = (b, p')"
          using False Some v assms(4) by (auto simp: ds_allow_def split: if_splits)
        from wr [OF False this] Some v gt False show ?thesis
          by (auto simp: ds_le_def triple_def)
      qed
    qed
  qed
  then show "ds_synced X p'" "b \<Longrightarrow> \<not> ds_poisoned p \<and> ds_highest p' = Some (h, r, step, hash)"
    "\<not> b \<Longrightarrow> p' = p" "b \<Longrightarrow> ds_highest p = Some w \<Longrightarrow> ds_le w (h, r, step, hash)"
    by blast+
qed

lemma ds_run_ordered:
  assumes "hex_ok X" "ds_synced X p" "\<forall>ev \<in> set evs. event_ok ev" "ds_run X evs p = (gs, p')"
  shows "ds_synced X p' \<and> sorted_wrt ds_le gs \<and>
    (\<forall>w. ds_highest p = Some w \<longrightarrow> (\<forall>g \<in> set gs. ds_le w g)) \<and> (ds_poisoned p \<longrightarrow> gs = [])"
  using assms(2-)
proof (induction evs arbitrary: p gs)
  case Nil
  then show ?case by simp
next
  case (Cons ev evs)
  obtain g p1 where step: "ds_step X ev p = (g, p1)" by fastforce
  obtain gs1 p2 where run: "ds_run X evs p1 = (gs1, p2)" by fastforce
  have out: "gs = g @ gs1" "p' = p2" using Cons.prems(3) step run by auto
  show ?case
  proof (cases ev)
    case Restart
    then have "g = []" "p1 = p" using step Cons.prems(1) by (auto simp: ds_step_def ds_synced_def)
    then show ?thesis using Cons.IH [of p1 gs1] Cons.prems run out by simp
  next
    case (Ask ok h r st hash)
    then obtain b where allow: "ds_allow X ok h r st hash p = (b, p1)"
      and g: "g = (if b then [(h, r, st, hash)] else [])"
      using step by (auto simp: ds_step_def split: prod.splits)
    have ok: "watermark_ok (h, r, st, hash)" using Cons.prems(2) Ask by (simp add: event_ok_def)
    note facts = ds_allow_step [OF assms(1) ok Cons.prems(1) allow]
    have ih: "ds_synced X p2 \<and> sorted_wrt ds_le gs1 \<and>
      (\<forall>w. ds_highest p1 = Some w \<longrightarrow> (\<forall>g \<in> set gs1. ds_le w g)) \<and> (ds_poisoned p1 \<longrightarrow> gs1 = [])"
      using Cons.IH [OF facts(1)] Cons.prems(2,3) run out by simp
    show ?thesis
    proof (cases b)
      case True
      have "\<forall>w. ds_highest p = Some w \<longrightarrow> (\<forall>g \<in> set gs1. ds_le w g)"
        using facts(2,4) True ih ds_le_trans by blast
      then show ?thesis using ih facts(2,4) True g out by auto
    next
      case False
      then show ?thesis using ih facts(3) g out by auto
    qed
  qed
qed

section \<open>Properties\<close>

text \<open>
  C32: no double signing across restarts: whatever the file held at the start, in any sequence of
  requests, failed writes and restarts, the granted signatures go strictly up in (height, round,
  step), except that the latest one may be granted again with the same hash. Two granted signatures
  for the same (height, round, step) are therefore always for the same hash.
\<close>

theorem no_double_sign:
  assumes "hex_ok X" and "\<forall>ev \<in> set evs. event_ok ev"
    and "ds_run X evs (ds_load X file) = (gs, p)"
  shows "sorted_wrt ds_le gs \<and>
    (\<forall>h r step a b. (h, r, step, a) \<in> set gs \<longrightarrow> (h, r, step, b) \<in> set gs \<longrightarrow> a = b)"
proof -
  have srt: "sorted_wrt ds_le gs"
    using ds_run_ordered [OF assms(1) ds_load_synced assms(2,3)] by blast
  have "a = b" if "(h, r, step, a) \<in> set gs" "(h, r, step, b) \<in> set gs" for h r step a b
  proof -
    from that obtain i j where ij: "i < length gs" "gs ! i = (h, r, step, a)"
      "j < length gs" "gs ! j = (h, r, step, b)"
      by (auto simp: in_set_conv_nth)
    then have "i = j \<or> ds_le (gs ! i) (gs ! j) \<or> ds_le (gs ! j) (gs ! i)"
      using srt by (metis nat_neq_iff sorted_wrt_iff_nth_less)
    with ij show ?thesis
      using ds_le_same_triple [of "gs ! i" "gs ! j"] ds_le_same_triple [of "gs ! j" "gs ! i"]
      by (auto simp: triple_def)
  qed
  with srt show ?thesis by blast
qed

text \<open>A hex codec that satisfies \<open>hex_ok\<close>: two letters per byte.\<close>

definition toy_hex :: hex_env where
  "toy_hex =
    \<lparr>hex_enc = (\<lambda>b. concat (map (\<lambda>x. [char_of (97 + unat x div 16), char_of (97 + unat x mod 16)]) b)),
     hex_dec = (\<lambda>t. Some (map (\<lambda>i. of_nat ((of_char (t ! (2 * i)) - 97) * 16 + (of_char (t ! (2 * i + 1)) - 97)))
       [0..<length t div 2]))\<rparr>"

lemma toy_hex_nth:
  "i < length b \<Longrightarrow>
     concat (map (\<lambda>x. [f x, g x]) b) ! (2 * i) = f (b ! i) \<and>
     concat (map (\<lambda>x. [f x, g x]) b) ! (2 * i + 1) = g (b ! i)"
  by (induction b arbitrary: i) (auto simp: nth_Cons' less_Suc_eq_0_disj)

lemma letter_not_ws: "n < 16 \<Longrightarrow> \<not> is_whitespace (char_of (97 + n :: nat))"
  by (auto simp: is_whitespace_def Let_def)

lemma toy_hex_ok: "hex_ok toy_hex"
proof -
  have len: "length (concat (map (\<lambda>x. [f x, g x]) b)) = 2 * length b" for f g and b :: bytes
    by (induction b) auto
  have small: "unat (x :: byte) div 16 < 16" for x
    using unsigned_less [of x, where 'a = nat] by simp
  have "hex_dec toy_hex (hex_enc toy_hex b) = Some b" for b
  proof -
    have "of_nat ((of_char (hex_enc toy_hex b ! (2 * i)) - 97) * 16 +
        (of_char (hex_enc toy_hex b ! (2 * i + 1)) - 97)) = b ! i" if "i < length b" for i
      using toy_hex_nth [OF that, of "\<lambda>x. char_of (97 + unat x div 16)" "\<lambda>x. char_of (97 + unat x mod 16)"]
        small [of "b ! i"]
      by (simp add: toy_hex_def)
    then show ?thesis
      by (simp add: toy_hex_def len) (rule nth_equalityI; simp add: toy_hex_def)
  qed
  moreover have "\<forall>c \<in> set (hex_enc toy_hex b). \<not> is_whitespace c" for b
    using small by (auto simp: toy_hex_def letter_not_ws)
  moreover have "length b = 32 \<Longrightarrow> hex_enc toy_hex b \<noteq> []" for b
    by (cases b) (auto simp: toy_hex_def)
  ultimately show ?thesis by (simp add: hex_ok_def)
qed

theorem no_double_sign_witness:
  "sorted_wrt ds_le (fst (ds_run toy_hex
     [Ask True 7 0 1 NIL_HASH, Restart, Ask True 7 0 1 (replicate 32 9), Ask True 7 0 2 NIL_HASH]
     (ds_load toy_hex Missing)))"
proof -
  let ?evs = "[Ask True 7 0 1 NIL_HASH, Restart, Ask True 7 0 1 (replicate 32 9), Ask True 7 0 2 NIL_HASH]"
  have "\<forall>ev \<in> set ?evs. event_ok ev"
    by (simp add: event_ok_def watermark_ok_def NIL_HASH_def)
  then show ?thesis
    using no_double_sign [OF toy_hex_ok, of ?evs Missing] by (metis prod.collapse)
qed

text \<open>
  C39: a file that is unreadable or does not parse blocks every signature, a write that fails grants
  nothing and leaves the protector as it was, and a written watermark is read back as it was.
\<close>

theorem protector_fails_closed:
  assumes "hex_ok X" and "watermark_ok (h, r, step, hash)"
  shows "(\<forall>s. ds_parse X s = None \<longrightarrow> \<not> fst (ds_allow X ok h r step hash (ds_load X (Contents s)))) \<and>
    \<not> fst (ds_allow X ok h r step hash (ds_load X Unreadable)) \<and>
    (\<forall>p. ds_highest p \<noteq> Some (h, r, step, hash) \<longrightarrow> ds_allow X False h r step hash p = (False, p)) \<and>
    ds_parse X (ds_line X h r step hash) = Some (h, r, step, hash)"
  using ds_parse_line [OF assms]
  by (auto simp: ds_allow_def ds_load_def ds_write_and_raise_def ds_persist_def
      split: option.splits prod.splits)

theorem protector_fails_closed_witness:
  "ds_parse toy_hex (ds_line toy_hex 12 3 2 NIL_HASH) = Some (12, 3, 2, NIL_HASH)"
  using protector_fails_closed [OF toy_hex_ok, of 12 3 2 NIL_HASH]
  by (simp add: watermark_ok_def NIL_HASH_def)

end
