(* ===== verification/Crypto.thy ===== *)
theory Crypto
  imports ConsensusTypes
begin

text \<open>
  The consensus cryptography of \<open>crates/zagros-crypto/src/lib.rs\<close>: signing and verifying votes,
  headers and heartbeats, checking and building quorum certificates, checking equivocation evidence
  and key ownership, and the checks made when a key file is loaded. Ed25519 itself is the
  \<open>ed_*\<close> fields of \<open>crypto_env\<close>; a key pair is its 32 secret bytes.
\<close>

section \<open>Keys and digests\<close>

definition SIGNATURE_LEN :: nat where
  "SIGNATURE_LEN = 64"

definition sign_digest :: "crypto_env \<Rightarrow> bytes \<Rightarrow> hash \<Rightarrow> bytes" where
  "sign_digest E kp digest = ed_sign E kp digest"

definition verify_digest :: "crypto_env \<Rightarrow> pubkey \<Rightarrow> hash \<Rightarrow> bytes \<Rightarrow> unit result" where
  "verify_digest E pk digest sig =
     (if \<not> ed_key_ok E pk then Inl (Other ''InvalidSignature: gecersiz Ed25519 pubkey'')
      else if length sig \<noteq> SIGNATURE_LEN then Inl (Other ''InvalidSignature: imza uzunlugu'')
      else if ed_check E pk digest sig then Inr () else Inl InvalidSignature)"

section \<open>Votes, headers, heartbeats\<close>

definition sign_vote :: "crypto_env \<Rightarrow> bytes \<Rightarrow> consensus_domain \<Rightarrow> nat \<Rightarrow> vote \<Rightarrow> vote" where
  "sign_vote E kp d epoch v = v\<lparr>v_sig := sign_digest E kp (vote_signing_digest E d epoch v)\<rparr>"

definition verify_vote ::
  "crypto_env \<Rightarrow> vote \<Rightarrow> consensus_domain \<Rightarrow> active_validator_set \<Rightarrow> unit result" where
  "verify_vote E v d s =
     (case pubkey_of s (v_validator_idx v) of
        None \<Rightarrow> Inl (Other ''oy: validator_idx kumede yok'')
      | Some pk \<Rightarrow> verify_digest E pk (vote_signing_digest E d (vs_epoch s) v) (v_sig v))"

definition verify_shadow_vote ::
  "crypto_env \<Rightarrow> vote \<Rightarrow> consensus_domain \<Rightarrow> nat \<Rightarrow> pubkey \<Rightarrow> unit result" where
  "verify_shadow_vote E v d epoch pk =
     (if \<not> v_shadow v then Inl (Other ''shadow=false oy shadow dogrulamasindan gecemez'')
      else if pk = NIL_HASH then Inl (Other ''shadow oy: sifir pubkey'')
      else verify_digest E pk (vote_signing_digest E d epoch v) (v_sig v))"

definition sign_header :: "crypto_env \<Rightarrow> bytes \<Rightarrow> consensus_domain \<Rightarrow> block_header \<Rightarrow> signed_header" where
  "sign_header E kp d h =
     \<lparr>sh_header = h, sh_sig = sign_digest E kp (header_signing_digest E d h)\<rparr>"

definition verify_signed_header ::
  "crypto_env \<Rightarrow> signed_header \<Rightarrow> consensus_domain \<Rightarrow> active_validator_set \<Rightarrow> unit result" where
  "verify_signed_header E sh d s =
     (if h_epoch (sh_header sh) \<noteq> vs_epoch s then Inl (Other ''baslik epoch != kume epoch'')
      else if h_validator_set_hash (sh_header sh) \<noteq> vs_hash (keccak E) s
        then Inl (Other ''baslik validator_set_hash kume ile uyusmuyor'')
      else case pubkey_of s (h_proposer_idx (sh_header sh)) of
          None \<Rightarrow> Inl (Other ''baslik: proposer_idx kumede yok'')
        | Some pk \<Rightarrow> verify_digest E pk (header_signing_digest E d (sh_header sh)) (sh_sig sh))"

definition sign_heartbeat ::
  "crypto_env \<Rightarrow> bytes \<Rightarrow> consensus_domain \<Rightarrow> nat \<Rightarrow> heartbeat \<Rightarrow> heartbeat" where
  "sign_heartbeat E kp d epoch hb =
     hb\<lparr>hb_sig := sign_digest E kp (heartbeat_signing_digest E d epoch hb)\<rparr>"

definition verify_heartbeat ::
  "crypto_env \<Rightarrow> heartbeat \<Rightarrow> consensus_domain \<Rightarrow> active_validator_set \<Rightarrow> unit result" where
  "verify_heartbeat E hb d s =
     (case pubkey_of s (hb_validator_idx hb) of
        None \<Rightarrow> Inl (Other ''heartbeat: validator_idx kumede yok'')
      | Some pk \<Rightarrow>
          verify_digest E pk (heartbeat_signing_digest E d (vs_epoch s) hb) (hb_sig hb))"

section \<open>Quorum certificates\<close>

definition qc_digest :: "crypto_env \<Rightarrow> consensus_domain \<Rightarrow> quorum_certificate \<Rightarrow> hash" where
  "qc_digest E d qc =
     signing_digest E DOMAIN_VOTE d (q_epoch qc) (q_height qc) (q_round qc) (as_u8 Precommit)
       (q_block_hash qc)"

text \<open>The loop of \<open>verify_qc\<close>: \<open>i\<close> counts the signers passed, \<open>qc.sigs[i]\<close> panics past the end.\<close>

fun verify_qc_loop ::
  "crypto_env \<Rightarrow> active_validator_set \<Rightarrow> hash \<Rightarrow> bytes list \<Rightarrow> nat \<Rightarrow> nat list \<Rightarrow> unit result" where
  "verify_qc_loop E s digest sigs i [] = Inr ()"
| "verify_qc_loop E s digest sigs i (idx # rest) =
     (case pubkey_of s idx of
        None \<Rightarrow> Inl (Other ''QC: imzaci kumede yok'')
      | Some pk \<Rightarrow>
          (if \<not> i < length sigs then Inl RustPanic
           else if is_ok (verify_digest E pk digest (sigs ! i))
             then verify_qc_loop E s digest sigs (Suc i) rest
           else Inl (Other ''QC: validator imzasi gecersiz'')))"

definition verify_qc ::
  "crypto_env \<Rightarrow> quorum_certificate \<Rightarrow> consensus_domain \<Rightarrow> active_validator_set \<Rightarrow> unit result" where
  "verify_qc E qc d s =
     try_then (qc_validate_structure E qc s)
       (\<lambda>_. verify_qc_loop E s (qc_digest E d qc) (q_sigs qc) 0 (signer_indices qc))"

text \<open>The votes \<open>build_qc\<close> looks at: plain, non-nil precommits for the block at (height, round).\<close>

definition qc_candidate :: "nat \<Rightarrow> nat \<Rightarrow> hash \<Rightarrow> vote \<Rightarrow> bool" where
  "qc_candidate height round bh v =
     (\<not> (v_shadow v \<or> v_is_nil v \<or> v_height v \<noteq> height \<or> v_round v \<noteq> round \<or> v_block_hash v \<noteq> bh) \<and>
      v_phase v = Precommit)"

fun build_qc_loop ::
  "crypto_env \<Rightarrow> consensus_domain \<Rightarrow> active_validator_set \<Rightarrow> nat \<Rightarrow> nat \<Rightarrow> hash \<Rightarrow>
   vote list \<Rightarrow> (nat \<times> bytes) list \<Rightarrow> (nat \<times> bytes) list result" where
  "build_qc_loop E d s height round bh [] picked = Inr picked"
| "build_qc_loop E d s height round bh (v # vs) picked =
     (if \<not> qc_candidate height round bh v then build_qc_loop E d s height round bh vs picked
      else if vs_len s \<le> v_validator_idx v \<or> list_ex (\<lambda>(i, _). i = v_validator_idx v) picked
        then build_qc_loop E d s height round bh vs picked
      else case verify_vote E v d s of
          Inl e \<Rightarrow> Inl e
        | Inr _ \<Rightarrow>
            build_qc_loop E d s height round bh vs (picked @ [(v_validator_idx v, v_sig v)]))"

definition build_qc ::
  "crypto_env \<Rightarrow> vote list \<Rightarrow> consensus_domain \<Rightarrow> active_validator_set \<Rightarrow> nat \<Rightarrow> nat \<Rightarrow> hash \<Rightarrow>
   quorum_certificate result" where
  "build_qc E votes d s height round bh =
     try_then (build_qc_loop E d s height round bh votes [])
       (\<lambda>picked0. let picked = sort_key fst picked0 in
          try_then (fold_result (\<lambda>(i, _) bs. set_signer bs i) picked
                      (replicate (bitset_len_for (vs_len s)) 0))
            (\<lambda>signers.
               let qc = \<lparr>q_height = height, q_round = round, q_block_hash = bh,
                         q_epoch = vs_epoch s, q_validator_set_hash = vs_hash (keccak E) s,
                         q_signers = signers, q_sigs = map snd picked\<rparr>
               in try_then (verify_qc E qc d s) (\<lambda>_. Inr qc)))"

section \<open>Evidence\<close>

definition verify_evidence ::
  "crypto_env \<Rightarrow> evidence \<Rightarrow> consensus_domain \<Rightarrow> active_validator_set \<Rightarrow> unit result" where
  "verify_evidence E ev d s =
     try_then (evidence_validate_structure E ev)
       (\<lambda>_. case ev of
          DoubleVote a b \<Rightarrow> try_then (verify_vote E a d s) (\<lambda>_. verify_vote E b d s)
        | DoublePropose a b \<Rightarrow>
            try_then (verify_signed_header E a d s) (\<lambda>_. verify_signed_header E b d s))"

section \<open>Key ownership\<close>

definition key_ownership_digest ::
  "crypto_env \<Rightarrow> consensus_domain \<Rightarrow> string \<Rightarrow> pubkey option \<Rightarrow> hash" where
  "key_ownership_digest E d account rotation_from =
     keccak E
       (signing_payload (if rotation_from \<noteq> None then DOMAIN_KEYROT else DOMAIN_KEYOWN) d 0 0 0 0
          (case rotation_from of None \<Rightarrow> replicate 32 0 | Some old \<Rightarrow> old) @
        str_bytes (to_ascii_lowercase account))"

definition prove_key_ownership ::
  "crypto_env \<Rightarrow> bytes \<Rightarrow> consensus_domain \<Rightarrow> string \<Rightarrow> pubkey option \<Rightarrow> bytes" where
  "prove_key_ownership E kp d account rotation_from =
     sign_digest E kp (key_ownership_digest E d account rotation_from)"

definition verify_key_ownership ::
  "crypto_env \<Rightarrow> pubkey \<Rightarrow> bytes \<Rightarrow> consensus_domain \<Rightarrow> string \<Rightarrow> pubkey option \<Rightarrow> unit result" where
  "verify_key_ownership E pk proof d account rotation_from =
     verify_digest E pk (key_ownership_digest E d account rotation_from) proof"

section \<open>Key files\<close>

record key_file =
  kf_version :: nat
  kf_scheme :: string
  kf_public_key_hex :: string
  kf_secret_key_hex :: string

text \<open>\<open>save_keyfile\<close>, up to the JSON text and the file system: the record written, with mode 0600.\<close>

definition save_keyfile :: "crypto_env \<Rightarrow> (bytes \<Rightarrow> string) \<Rightarrow> bytes \<Rightarrow> nat \<times> key_file" where
  "save_keyfile E hex_encode kp =
     (384, \<lparr>kf_version = 1, kf_scheme = ''ed25519'', kf_public_key_hex = hex_encode (ed_public E kp),
            kf_secret_key_hex = hex_encode kp\<rparr>)"

text \<open>
  \<open>load_keyfile\<close> on a file of mode \<open>mode\<close> whose JSON text parses to \<open>kf\<close> (\<open>None\<close>: it does not).
  \<open>0o077\<close> is 63.
\<close>

definition load_keyfile ::
  "crypto_env \<Rightarrow> (string \<Rightarrow> bytes option) \<Rightarrow> nat \<Rightarrow> key_file option \<Rightarrow> bytes result" where
  "load_keyfile E hex_decode mode kfo =
     (if mode AND 63 \<noteq> 0 then Inl (Other ''keyfile izinleri cok genis'')
      else case kfo of
        None \<Rightarrow> Inl (Other ''keyfile json'')
      | Some kf \<Rightarrow>
          if kf_version kf \<noteq> 1 \<or> kf_scheme kf \<noteq> ''ed25519''
            then Inl (Other ''keyfile surumu/semasi desteklenmiyor'')
          else case hex_decode (kf_secret_key_hex kf) of
              None \<Rightarrow> Inl (Other ''secret hex'')
            | Some secret \<Rightarrow>
                if length secret \<noteq> 32 then Inl (Other ''secret 32 bayt degil'')
                else case hex_decode (kf_public_key_hex kf) of
                    None \<Rightarrow> Inl (Other ''pubkey hex'')
                  | Some pk \<Rightarrow>
                      if pk \<noteq> ed_public E secret
                        then Inl (Other ''keyfile public_key secret ile uyusmuyor'')
                      else Inr secret)"

section \<open>What verification accepts\<close>

text \<open>Documented behaviour of Ed25519: a signature made with a secret key checks under its public key.\<close>

definition ed25519_correct :: "crypto_env \<Rightarrow> bool" where
  "ed25519_correct E \<longleftrightarrow>
     (\<forall>k d. ed_key_ok E (ed_public E k) \<and> length (ed_sign E k d) = 64 \<and>
            ed_check E (ed_public E k) d (ed_sign E k d))"

lemma verify_digest_Inr:
  "verify_digest E pk d sg = Inr () \<longleftrightarrow> ed_key_ok E pk \<and> length sg = 64 \<and> ed_check E pk d sg"
  by (simp add: verify_digest_def SIGNATURE_LEN_def)

lemma sign_then_verify:
  "ed25519_correct E \<Longrightarrow> verify_digest E (ed_public E k) d (sign_digest E k d) = Inr ()"
  by (simp add: verify_digest_Inr ed25519_correct_def sign_digest_def)

text \<open>
  What the three kinds of signed message share: a message verifies when its context fits and its
  signature checks, under the key of the validator it names, on its digest.
\<close>

locale signed_message =
  fixes verify_msg :: "crypto_env \<Rightarrow> 'm \<Rightarrow> consensus_domain \<Rightarrow> active_validator_set \<Rightarrow> unit result"
    and sign_msg :: "crypto_env \<Rightarrow> bytes \<Rightarrow> consensus_domain \<Rightarrow> nat \<Rightarrow> 'u \<Rightarrow> 'm"
    and digest_of :: "crypto_env \<Rightarrow> consensus_domain \<Rightarrow> nat \<Rightarrow> 'm \<Rightarrow> hash"
    and signer_of :: "'m \<Rightarrow> nat"
    and sig_of :: "'m \<Rightarrow> bytes"
    and fits :: "crypto_env \<Rightarrow> active_validator_set \<Rightarrow> 'm \<Rightarrow> bool"
  assumes verify_iff: "verify_msg E m d s = Inr () \<longleftrightarrow>
      fits E s m \<and> (\<exists>pk. pubkey_of s (signer_of m) = Some pk \<and>
        verify_digest E pk (digest_of E d (vs_epoch s) m) (sig_of m) = Inr ())"
    and signature: "sig_of (sign_msg E k d ep u) =
      sign_digest E k (digest_of E d ep (sign_msg E k d ep u))"
begin

lemma sign_verifies:
  assumes "ed25519_correct E"
    and "pubkey_of s (signer_of (sign_msg E k d (vs_epoch s) u)) = Some (ed_public E k)"
    and "fits E s (sign_msg E k d (vs_epoch s) u)"
  shows "verify_msg E (sign_msg E k d (vs_epoch s) u) d s = Inr ()"
  using assms sign_then_verify [OF assms(1)] by (simp add: verify_iff signature)

text \<open>A message that verifies names a member of the set, whose key signed the message's digest.\<close>

lemma verified_signed:
  assumes "verify_msg E m d s = Inr ()"
  obtains pk where "pubkey_of s (signer_of m) = Some pk" "signer_of m < length (vs_members s)"
    "ed_check E pk (digest_of E d (vs_epoch s) m) (sig_of m)"
  using assms by (auto simp: verify_iff verify_digest_Inr pubkey_of_def split: if_splits)

lemma unknown_signer_rejected:
  "length (vs_members s) \<le> signer_of m \<Longrightarrow> verify_msg E m d s \<noteq> Inr ()"
  by (simp add: verify_iff pubkey_of_def)

text \<open>A message tampered with under an unchanged signature verifies only if the digest is the same.\<close>

lemma tampered_rejected:
  assumes "verify_msg E m d s = Inr ()" "signer_of m' = signer_of m" "sig_of m' = sig_of m"
    and one: "\<And>pk sg. ed_check E pk (digest_of E d (vs_epoch s) m) sg \<Longrightarrow>
      \<not> ed_check E pk (digest_of E d (vs_epoch s) m') sg"
  shows "verify_msg E m' d s \<noteq> Inr ()"
  using assms by (auto simp: verify_iff verify_digest_Inr)

end

interpretation votes: signed_message verify_vote sign_vote vote_signing_digest v_validator_idx v_sig
  "\<lambda>E s m. True"
  by unfold_locales
    (auto simp: verify_vote_def sign_vote_def vote_signing_digest_def domain_tag_def
      split: option.splits)

interpretation headers: signed_message verify_signed_header "\<lambda>E k d ep h. sign_header E k d h"
  "\<lambda>E d ep sh. header_signing_digest E d (sh_header sh)" "\<lambda>sh. h_proposer_idx (sh_header sh)" sh_sig
  "\<lambda>E s sh. h_epoch (sh_header sh) = vs_epoch s \<and>
     h_validator_set_hash (sh_header sh) = vs_hash (keccak E) s"
  by unfold_locales
    (auto simp: verify_signed_header_def sign_header_def split: option.splits)

interpretation heartbeats: signed_message verify_heartbeat sign_heartbeat heartbeat_signing_digest
  hb_validator_idx hb_sig "\<lambda>E s m. True"
  by unfold_locales
    (auto simp: verify_heartbeat_def sign_heartbeat_def heartbeat_signing_digest_def
      split: option.splits)

section \<open>Certificates: lemmas\<close>

lemma verify_qc_loop_Inr:
  "verify_qc_loop E s dg sigs i idxs = Inr () \<longleftrightarrow>
     (\<forall>j < length idxs. i + j < length sigs \<and>
        (\<exists>pk. pubkey_of s (idxs ! j) = Some pk \<and> verify_digest E pk dg (sigs ! (i + j)) = Inr ()))"
proof (induction idxs arbitrary: i)
  case Nil
  then show ?case by simp
next
  case (Cons idx idxs)
  have "(\<forall>j < length (idx # idxs). P j) \<longleftrightarrow> P 0 \<and> (\<forall>j < length idxs. P (Suc j))" for P
    using less_Suc_eq_0_disj by auto
  then show ?case
    using Cons.IH [of "Suc i"] by (auto split: option.splits)
qed

lemma verify_qc_Inr:
  "verify_qc E qc d s = Inr () \<longleftrightarrow>
     qc_validate_structure E qc s = Inr () \<and>
     (\<forall>j < length (signer_indices qc). \<exists>pk. pubkey_of s (signer_indices qc ! j) = Some pk \<and>
        verify_digest E pk (qc_digest E d qc) (q_sigs qc ! j) = Inr ())"
  by (auto simp: verify_qc_def try_then_Inr verify_qc_loop_Inr qc_validate_structure_Inr)

text \<open>The structure check keeps the loop inside the signature list.\<close>

lemma verify_qc_loop_in_range:
  "i + length idxs \<le> length sigs \<Longrightarrow> verify_qc_loop E s dg sigs i idxs \<noteq> Inl RustPanic"
  by (induction idxs arbitrary: i) (auto split: option.split)

lemma qc_validate_structure_no_panic: "qc_validate_structure E qc s \<noteq> Inl RustPanic"
  by (auto simp: qc_validate_structure_def vs_quorum_def quorum_of_def Let_def split: sum.split)

lemma verify_qc_no_panic: "verify_qc E qc d s \<noteq> Inl RustPanic"
proof (cases "qc_validate_structure E qc s")
  case (Inl e)
  then show ?thesis using qc_validate_structure_no_panic [of E qc s] by (simp add: verify_qc_def try_then_def)
next
  case (Inr u)
  then have "length (signer_indices qc) = length (q_sigs qc)"
    by (simp add: qc_validate_structure_Inr)
  then show ?thesis
    using Inr verify_qc_loop_in_range [of 0 "signer_indices qc" "q_sigs qc" E s "qc_digest E d qc"]
    by (simp add: verify_qc_def try_then_def)
qed

text \<open>Every signer of a verified certificate has a signature on the certificate's digest.\<close>

lemma verify_qc_signature:
  assumes "verify_qc E qc d s = Inr ()" and "i \<in> set (signer_indices qc)"
  obtains pk sg where "pubkey_of s i = Some pk"
    "verify_digest E pk (qc_digest E d qc) sg = Inr ()"
  using assms unfolding verify_qc_Inr in_set_conv_nth by blast

lemma qc_candidate_digest:
  "qc_candidate height round bh v \<Longrightarrow>
     vote_signing_digest E d ep v =
       signing_digest E DOMAIN_VOTE d ep height round (as_u8 Precommit) bh"
  by (auto simp: qc_candidate_def vote_signing_digest_def domain_tag_def)

text \<open>The certificate's digest, signed by one validator, is a precommit vote of that validator.\<close>

definition precommit_of :: "quorum_certificate \<Rightarrow> nat \<Rightarrow> bytes \<Rightarrow> vote" where
  "precommit_of qc i sg =
     \<lparr>v_height = q_height qc, v_round = q_round qc, v_phase = Precommit,
      v_block_hash = q_block_hash qc, v_validator_idx = i, v_shadow = False, v_sig = sg\<rparr>"

lemma verify_precommit_of:
  assumes "q_epoch qc = vs_epoch s" "pubkey_of s i = Some pk"
    and "verify_digest E pk (qc_digest E d qc) sg = Inr ()"
  shows "verify_vote E (precommit_of qc i sg) d s = Inr ()"
  using assms
  by (simp add: verify_vote_def precommit_of_def vote_signing_digest_def domain_tag_def qc_digest_def)

text \<open>A verified certificate stores, for each signer, the signature of its verifying precommit.\<close>

lemma stored_precommit:
  assumes "verify_qc E qc d s = Inr ()" and "i \<in> set (signer_indices qc)"
  obtains sg where "sg \<in> set (q_sigs qc)" "verify_vote E (precommit_of qc i sg) d s = Inr ()"
proof -
  obtain j where j: "j < length (signer_indices qc)" "signer_indices qc ! j = i"
    using assms(2) by (auto simp: in_set_conv_nth)
  then obtain pk where "pubkey_of s i = Some pk" "verify_digest E pk (qc_digest E d qc) (q_sigs qc ! j) = Inr ()"
    using assms(1) by (auto simp: verify_qc_Inr)
  moreover have "q_epoch qc = vs_epoch s" "length (q_sigs qc) = length (signer_indices qc)"
    using assms(1) by (simp_all add: verify_qc_Inr qc_validate_structure_Inr)
  ultimately show ?thesis
    using that [of "q_sigs qc ! j"] j(1) by (simp add: verify_precommit_of)
qed

subsection \<open>Building a certificate\<close>

lemma build_qc_loop_Inr:
  assumes "build_qc_loop E d s h r bh vs picked0 = Inr picked" "distinct (map fst picked0)"
  shows "distinct (map fst picked)" "set picked0 \<subseteq> set picked"
    and "(i, sg) \<in> set picked \<Longrightarrow> (i, sg) \<in> set picked0 \<or>
      (\<exists>v \<in> set vs. qc_candidate h r bh v \<and> i = v_validator_idx v \<and> sg = v_sig v \<and>
         i < vs_len s \<and> verify_vote E v d s = Inr ())"
    and "v \<in> set vs \<Longrightarrow> qc_candidate h r bh v \<Longrightarrow> v_validator_idx v < vs_len s \<Longrightarrow>
      v_validator_idx v \<in> fst ` set picked"
proof -
  let ?new = "\<lambda>vs i sg. \<exists>v \<in> set vs. qc_candidate h r bh v \<and> i = v_validator_idx v \<and> sg = v_sig v \<and>
         i < vs_len s \<and> verify_vote E v d s = Inr ()"
  have "distinct (map fst picked) \<and> set picked0 \<subseteq> set picked \<and>
    (\<forall>i sg. (i, sg) \<in> set picked \<longrightarrow> (i, sg) \<in> set picked0 \<or> ?new vs i sg) \<and>
    (\<forall>v \<in> set vs. qc_candidate h r bh v \<longrightarrow> v_validator_idx v < vs_len s \<longrightarrow>
       v_validator_idx v \<in> fst ` set picked)"
    using assms
  proof (induction vs arbitrary: picked0)
    case Nil
    then show ?case by simp
  next
    case (Cons v vs)
    show ?case
    proof (cases "qc_candidate h r bh v \<and> v_validator_idx v < vs_len s \<and>
        v_validator_idx v \<notin> fst ` set picked0")
      case True
      then have fresh: "\<not> list_ex (\<lambda>(i, _). i = v_validator_idx v) picked0"
        by (auto simp: list_ex_iff image_iff)
      with True Cons.prems(1) have ok: "verify_vote E v d s = Inr ()"
        and go: "build_qc_loop E d s h r bh vs (picked0 @ [(v_validator_idx v, v_sig v)]) = Inr picked"
        by (auto split: sum.splits)
      have "distinct (map fst (picked0 @ [(v_validator_idx v, v_sig v)]))"
        using Cons.prems(2) True by auto
      note IH = Cons.IH [OF go this]
      have "set picked0 \<subseteq> set picked" and here: "(v_validator_idx v, v_sig v) \<in> set picked"
        using IH by auto
      moreover have "(i, sg) \<in> set picked0 \<or> ?new (v # vs) i sg" if "(i, sg) \<in> set picked" for i sg
      proof -
        have "(i, sg) \<in> set (picked0 @ [(v_validator_idx v, v_sig v)]) \<or> ?new vs i sg"
          using IH that by blast
        then show ?thesis using True ok by fastforce
      qed
      moreover have "v_validator_idx w \<in> fst ` set picked"
        if "w \<in> set (v # vs)" "qc_candidate h r bh w" "v_validator_idx w < vs_len s" for w
        using that IH image_eqI [OF _ here, of _ fst] by auto
      ultimately show ?thesis using IH by blast
    next
      case False
      then have go: "build_qc_loop E d s h r bh vs picked0 = Inr picked"
        using Cons.prems(1) by (auto simp: list_ex_iff image_iff split: if_splits)
      from Cons.IH [OF go Cons.prems(2)] False show ?thesis
        by auto
    qed
  qed
  then show "distinct (map fst picked)" "set picked0 \<subseteq> set picked"
    and "(i, sg) \<in> set picked \<Longrightarrow> (i, sg) \<in> set picked0 \<or> ?new vs i sg"
    and "v \<in> set vs \<Longrightarrow> qc_candidate h r bh v \<Longrightarrow> v_validator_idx v < vs_len s \<Longrightarrow>
      v_validator_idx v \<in> fst ` set picked"
    by blast+
qed

lemma build_qc_loop_total:
  assumes "\<forall>v \<in> set vs. qc_candidate h r bh v \<longrightarrow> v_validator_idx v < vs_len s \<longrightarrow>
      verify_vote E v d s = Inr ()"
  shows "\<exists>picked. build_qc_loop E d s h r bh vs picked0 = Inr picked"
  using assms by (induction vs arbitrary: picked0) auto

lemma fold_set_signer_fst:
  "fold_result (\<lambda>(i, _) bs. set_signer bs i) ps b = fold_result (\<lambda>i bs. set_signer bs i) (map fst ps) b"
  by (induction ps arbitrary: b) (auto split: sum.splits)

text \<open>What \<open>build_qc\<close> returns: the certificate of the picked votes, in validator order, verified.\<close>

lemma build_qc_Inr:
  assumes "build_qc E votes d s h r bh = Inr qc"
  shows "verify_qc E qc d s = Inr ()" "q_height qc = h" "q_round qc = r" "q_block_hash qc = bh"
    and "set (signer_indices qc) = {v_validator_idx v | v. v \<in> set votes \<and> qc_candidate h r bh v \<and>
           v_validator_idx v < vs_len s}"
proof -
  from assms obtain picked0 signers where
    loop: "build_qc_loop E d s h r bh votes [] = Inr picked0" and
    fold: "fold_result (\<lambda>(i, _) bs. set_signer bs i) (sort_key fst picked0)
             (replicate (bitset_len_for (vs_len s)) 0) = Inr signers" and
    qc: "qc = \<lparr>q_height = h, q_round = r, q_block_hash = bh, q_epoch = vs_epoch s,
              q_validator_set_hash = vs_hash (keccak E) s, q_signers = signers,
              q_sigs = map snd (sort_key fst picked0)\<rparr>" and
    ver: "verify_qc E qc d s = Inr ()"
    by (auto simp: build_qc_def try_then_Inr Let_def)
  show "verify_qc E qc d s = Inr ()" by (rule ver)
  show "q_height qc = h" "q_round qc = r" "q_block_hash qc = bh" by (simp_all add: qc)
  note loop_facts = build_qc_loop_Inr [OF loop, simplified]
  have "vs_len s \<le> MAX_VALIDATORS_HARD"
    using ver by (simp add: verify_qc_Inr qc_validate_structure_Inr MAX_VALIDATORS_HARD_def)
  moreover have "\<forall>i \<in> set (map fst (sort_key fst picked0)). i < vs_len s"
    using loop_facts(3) by fastforce
  ultimately obtain bs where
    bs: "fold_result (\<lambda>i b. set_signer b i) (map fst (sort_key fst picked0))
        (replicate (bitset_len_for (vs_len s)) 0) = Inr bs"
    "signer_indices (qc\<lparr>q_signers := bs\<rparr>) =
        sorted_list_of_set (set (map fst (sort_key fst picked0)))"
    using set_signer_fold by blast
  have "signers = bs" using bs(1) fold by (simp add: fold_set_signer_fst)
  then have "qc\<lparr>q_signers := bs\<rparr> = qc" by (simp add: qc)
  with bs(2) have "set (signer_indices qc) = fst ` set picked0" by simp
  moreover have "fst ` set picked0 = {v_validator_idx v | v. v \<in> set votes \<and> qc_candidate h r bh v \<and>
           v_validator_idx v < vs_len s}"
  proof (intro set_eqI iffI)
    fix i
    assume "i \<in> fst ` set picked0"
    then obtain sg where "(i, sg) \<in> set picked0" by auto
    from loop_facts(3) [OF this]
    show "i \<in> {v_validator_idx v | v. v \<in> set votes \<and> qc_candidate h r bh v \<and>
        v_validator_idx v < vs_len s}"
      by auto
  next
    fix i
    assume "i \<in> {v_validator_idx v | v. v \<in> set votes \<and> qc_candidate h r bh v \<and>
        v_validator_idx v < vs_len s}"
    then show "i \<in> fst ` set picked0" using loop_facts(4) by auto
  qed
  ultimately show "set (signer_indices qc) = {v_validator_idx v | v. v \<in> set votes \<and>
      qc_candidate h r bh v \<and> v_validator_idx v < vs_len s}"
    by simp
qed

text \<open>The picked signatures, in validator order, verify as a certificate.\<close>

lemma picked_verify:
  assumes d: "distinct (map fst ps)" and srt: "sorted (map fst ps)"
    and ok: "\<forall>(i, sg) \<in> set ps. \<exists>pk. pubkey_of s i = Some pk \<and>
        verify_digest E pk (qc_digest E d qc) sg = Inr ()"
    and idx: "signer_indices qc = sorted_list_of_set (set (map fst ps))"
    and sigs: "q_sigs qc = map snd ps"
    and struct: "qc_validate_structure E qc s = Inr ()"
  shows "verify_qc E qc d s = Inr ()"
proof -
  have "signer_indices qc = map fst ps"
    using idx d srt by (metis sorted_list_of_set.idem_if_sorted_distinct)
  with ok sigs struct show ?thesis
    unfolding verify_qc_Inr by (fastforce simp: in_set_conv_nth)
qed

lemma build_qc_complete:
  assumes ok: "\<forall>v \<in> set votes. qc_candidate h r bh v \<longrightarrow> v_validator_idx v < vs_len s \<longrightarrow>
      verify_vote E v d s = Inr ()"
    and q: "vs_quorum s = Inr q" and nonnil: "bh \<noteq> NIL_HASH"
    and enough: "q \<le> card {v_validator_idx v | v. v \<in> set votes \<and> qc_candidate h r bh v \<and>
      v_validator_idx v < vs_len s}"
  shows "\<exists>qc. build_qc E votes d s h r bh = Inr qc"
proof -
  obtain picked0 where loop: "build_qc_loop E d s h r bh votes [] = Inr picked0"
    using build_qc_loop_total [OF ok] by blast
  note facts = build_qc_loop_Inr [OF loop, simplified]
  let ?ps = "sort_key fst picked0"
  have n: "4 \<le> vs_len s" "vs_len s \<le> 101" and qv: "q = (2 * vs_len s) div 3 + 1"
    using q by (simp_all add: vs_quorum_Inr)
  have d: "distinct (map fst ?ps)"
    using facts(1) by (metis distinct_map distinct_sort set_sort)
  have below: "\<forall>i \<in> set (map fst ?ps). i < vs_len s"
    using facts(3) by fastforce
  let ?qc0 = "\<lparr>q_height = h, q_round = r, q_block_hash = bh, q_epoch = vs_epoch s,
      q_validator_set_hash = vs_hash (keccak E) s, q_signers = [], q_sigs = map snd ?ps\<rparr>"
  obtain bs where bs: "fold_result (\<lambda>i b. set_signer b i) (map fst ?ps)
        (replicate (bitset_len_for (vs_len s)) 0) = Inr bs"
    "length bs = bitset_len_for (vs_len s)"
    "signer_indices (?qc0\<lparr>q_signers := bs\<rparr>) = sorted_list_of_set (set (map fst ?ps))"
    using set_signer_fold [OF _ below, of ?qc0] n by (auto simp: MAX_VALIDATORS_HARD_def)
  let ?qc = "?qc0\<lparr>q_signers := bs\<rparr>"
  have "{v_validator_idx v | v. v \<in> set votes \<and> qc_candidate h r bh v \<and> v_validator_idx v < vs_len s}
      \<subseteq> fst ` set picked0"
    using facts(4) by auto
  then have "q \<le> card (fst ` set picked0)"
    using enough card_mono [OF finite_imageI [OF finite_set]] le_trans by blast
  moreover have len: "length (signer_indices ?qc) = card (fst ` set picked0)"
    using bs(3) by simp
  moreover have "card (fst ` set picked0) = length picked0"
    using facts(1) distinct_card by fastforce
  moreover have "card (fst ` set picked0) \<le> vs_len s"
    using below card_mono [of "{..<vs_len s}" "fst ` set picked0"] by fastforce
  ultimately have struct: "qc_validate_structure E ?qc s = Inr ()"
    using bs n nonnil below unfolding qc_validate_structure_Inr qv
    by (simp add: as_u16_def)
  have "\<forall>(i, sg) \<in> set ?ps. \<exists>pk. pubkey_of s i = Some pk \<and>
      verify_digest E pk (qc_digest E d ?qc) sg = Inr ()"
  proof clarify
    fix i sg
    assume "(i, sg) \<in> set ?ps"
    then obtain v where v: "qc_candidate h r bh v" "i = v_validator_idx v" "sg = v_sig v"
      "verify_vote E v d s = Inr ()"
      using facts(3) by auto
    have "vote_signing_digest E d (vs_epoch s) v = qc_digest E d ?qc"
      using qc_candidate_digest [OF v(1)] by (simp add: qc_digest_def)
    with v show "\<exists>pk. pubkey_of s i = Some pk \<and> verify_digest E pk (qc_digest E d ?qc) sg = Inr ()"
      by (auto simp: votes.verify_iff)
  qed
  from picked_verify [OF d _ this _ _ struct] bs(3)
  have "verify_qc E ?qc d s = Inr ()" by simp
  then have "build_qc E votes d s h r bh = Inr ?qc"
    using loop bs(1) by (simp add: build_qc_def fold_set_signer_fst)
  then show ?thesis by blast
qed

section \<open>A concrete chain\<close>

text \<open>
  Four validators with one-byte keys, and the certificates their signatures make. \<open>toy_env\<close> is a
  signature scheme that checks its own signatures and no other.
\<close>

lemma toy_env_correct: "ed25519_correct toy_env"
  by (auto simp: ed25519_correct_def toy_env_def min_def)

definition toy_key :: "nat \<Rightarrow> bytes" where
  "toy_key i = replicate 32 (of_nat (i + 1))"

definition toy_precommit :: "hash \<Rightarrow> nat \<Rightarrow> vote" where
  "toy_precommit bh i =
     sign_vote toy_env (toy_key i) sample_domain 0
       \<lparr>v_height = 4, v_round = 0, v_phase = Precommit, v_block_hash = bh, v_validator_idx = i,
        v_shadow = False, v_sig = []\<rparr>"

definition toy_cert :: "hash \<Rightarrow> byte \<Rightarrow> nat list \<Rightarrow> quorum_certificate" where
  "toy_cert bh bits idxs = (toy_qc bh bits)\<lparr>q_sigs := map (\<lambda>i. v_sig (toy_precommit bh i)) idxs\<rparr>"

lemma toy_pubkey: "i < 4 \<Longrightarrow> pubkey_of toy_set i = Some (toy_key i)"
  by (auto simp: pubkey_of_def toy_set_def sample_members_def toy_key_def less_Suc_eq numeral_eq_Suc)

lemma toy_precommit_verifies:
  "i < 4 \<Longrightarrow> verify_vote toy_env (toy_precommit bh i) sample_domain toy_set = Inr ()"
  unfolding toy_precommit_def
  using votes.sign_verifies [OF toy_env_correct, where s = toy_set and k = "toy_key i" and
      d = sample_domain and u = "\<lparr>v_height = 4, v_round = 0, v_phase = Precommit,
        v_block_hash = bh, v_validator_idx = i, v_shadow = False, v_sig = []\<rparr>"]
  by (simp add: toy_pubkey sign_vote_def) (simp add: toy_set_def toy_env_def)

lemma toy_cert_signers:
  "signer_indices (toy_cert bh 7 idxs) = [0, 1, 2]" "signer_indices (toy_cert bh 14 idxs) = [1, 2, 3]"
  using toy_qc_signers by (simp_all add: signer_indices_def toy_cert_def)

lemma toy_cert_valid:
  "bh \<noteq> NIL_HASH \<Longrightarrow> verify_qc toy_env (toy_cert bh 7 [0, 1, 2]) sample_domain toy_set = Inr ()"
  "bh \<noteq> NIL_HASH \<Longrightarrow> verify_qc toy_env (toy_cert bh 14 [1, 2, 3]) sample_domain toy_set = Inr ()"
proof -
  have sig: "\<exists>pk. pubkey_of toy_set i = Some pk \<and>
      verify_digest toy_env pk (qc_digest toy_env sample_domain (toy_cert bh bits idxs))
        (v_sig (toy_precommit bh i)) = Inr ()" if "i < 4" for i bits idxs
  proof -
    have "vote_signing_digest toy_env sample_domain (vs_epoch toy_set) (toy_precommit bh i) =
        qc_digest toy_env sample_domain (toy_cert bh bits idxs)"
      by (simp add: vote_signing_digest_def toy_precommit_def sign_vote_def domain_tag_def
          qc_digest_def toy_cert_def toy_qc_def toy_set_def)
    with toy_precommit_verifies [OF that, of bh] show ?thesis
      by (auto simp: votes.verify_iff toy_precommit_def sign_vote_def)
  qed
  have sigs: "q_sigs (toy_cert bh bits idxs) = map (\<lambda>i. v_sig (toy_precommit bh i)) idxs" for bits idxs
    by (simp add: toy_cert_def)
  have three: "(\<forall>j < length [a, b, c]. P j) \<longleftrightarrow> P 0 \<and> P 1 \<and> P 2" for a b c :: nat and P
    by (auto simp: less_Suc_eq numeral_2_eq_2)
  assume bh: "bh \<noteq> NIL_HASH"
  have "qc_validate_structure toy_env (toy_cert bh 7 [0, 1, 2]) toy_set = Inr ()"
    "qc_validate_structure toy_env (toy_cert bh 14 [1, 2, 3]) toy_set = Inr ()"
    using toy_qc_valid [OF bh] unfolding qc_validate_structure_Inr toy_cert_signers toy_qc_signers
    by (simp_all add: toy_cert_def toy_qc_def)
  then show "verify_qc toy_env (toy_cert bh 7 [0, 1, 2]) sample_domain toy_set = Inr ()"
    "verify_qc toy_env (toy_cert bh 14 [1, 2, 3]) sample_domain toy_set = Inr ()"
    unfolding verify_qc_Inr toy_cert_signers three
    using sig [of 0] sig [of 1] sig [of 2] sig [of 3]
    by (simp_all add: sigs)
qed

definition bh_one :: hash where
  "bh_one = replicate 32 1"

definition bh_two :: hash where
  "bh_two = replicate 32 2"

lemma bh_distinct: "bh_one \<noteq> NIL_HASH" "bh_two \<noteq> NIL_HASH" "bh_one \<noteq> bh_two"
  by (simp_all add: bh_one_def bh_two_def NIL_HASH_def numeral_eq_Suc)

section \<open>Properties\<close>

text \<open>
  C33: accountability of conflicting certificates: if two certificates verify for the same height and
  round of one validator set but name different blocks, then more than f validators signed both. For
  each of them the signatures stored in the two certificates are two verifying plain precommits of
  that validator for that height and round, one for each block, and \<open>verify_evidence\<close> accepts the pair
  as a double vote unless the two signatures are the same bytes. (Nothing is assumed of Ed25519: a key
  for which one signature checks on both digests, which the non-strict verification of the code does
  not rule out, is exactly the case in which the evidence check refuses the pair.) Hence when at most
  f validators sign for two blocks of one height and round, at most one of these is certified.
\<close>

theorem conflicting_certificates_accountable:
  assumes "verify_qc E qc d s = Inr ()" and "verify_qc E qc' d s = Inr ()"
    and "q_height qc = q_height qc'" and "q_round qc = q_round qc'"
    and "q_block_hash qc \<noteq> q_block_hash qc'"
  shows "\<exists>A. A \<subseteq> {..<vs_len s} \<and> byzantine_tolerance (vs_len s) < card A \<and>
    (\<forall>i \<in> A. \<exists>sg \<in> set (q_sigs qc). \<exists>sg' \<in> set (q_sigs qc').
       let a = precommit_of qc i sg; b = precommit_of qc' i sg' in
       verify_vote E a d s = Inr () \<and> verify_vote E b d s = Inr () \<and>
       verify_evidence E (DoubleVote a b) d s =
         (if sg = sg' then Inl (Other ''DoubleVote: ayni imza'') else Inr ()))"
proof (rule exI [of _ "set (signer_indices qc) \<inter> set (signer_indices qc')"], intro conjI ballI)
  let ?A = "set (signer_indices qc) \<inter> set (signer_indices qc')"
  have struct: "qc_validate_structure E qc s = Inr ()" "qc_validate_structure E qc' s = Inr ()"
    using assms(1,2) by (simp_all add: verify_qc_Inr)
  note sub = qc_signers_quorum(2) [OF struct(1)] qc_signers_quorum(2) [OF struct(2)]
  show "?A \<subseteq> {..<vs_len s}" using sub by blast
  have "quorum_of (vs_len s) = Inr ((2 * vs_len s) div 3 + 1)"
    using qc_signers_quorum(3) [OF struct(1)] by (simp add: vs_quorum_def)
  then show "byzantine_tolerance (vs_len s) < card ?A"
    by (rule code_quorum.overlap [OF _ sub qc_signers_quorum(4) [OF struct(1)]
          qc_signers_quorum(4) [OF struct(2)]])
  fix i
  assume i: "i \<in> ?A"
  obtain sg where 1: "sg \<in> set (q_sigs qc)" "verify_vote E (precommit_of qc i sg) d s = Inr ()"
    using stored_precommit [OF assms(1)] i by blast
  obtain sg' where 2: "sg' \<in> set (q_sigs qc')" "verify_vote E (precommit_of qc' i sg') d s = Inr ()"
    using stored_precommit [OF assms(2)] i by blast
  have "verify_evidence E (DoubleVote (precommit_of qc i sg) (precommit_of qc' i sg')) d s =
      (if sg = sg' then Inl (Other ''DoubleVote: ayni imza'') else Inr ())"
    using 1(2) 2(2) assms(3-5)
    by (simp add: verify_evidence_def try_then_def evidence_validate_structure_def precommit_of_def)
  then show "\<exists>sg \<in> set (q_sigs qc). \<exists>sg' \<in> set (q_sigs qc').
       let a = precommit_of qc i sg; b = precommit_of qc' i sg' in
       verify_vote E a d s = Inr () \<and> verify_vote E b d s = Inr () \<and>
       verify_evidence E (DoubleVote a b) d s =
         (if sg = sg' then Inl (Other ''DoubleVote: ayni imza'') else Inr ())"
    using 1 2 unfolding Let_def by blast
qed

theorem conflicting_certificates_accountable_witness:
  "\<exists>A. A \<subseteq> {..<4} \<and> byzantine_tolerance 4 < card A \<and>
    (\<forall>i \<in> A. \<exists>sg \<in> set (q_sigs (toy_cert bh_one 7 [0, 1, 2])).
       \<exists>sg' \<in> set (q_sigs (toy_cert bh_two 14 [1, 2, 3])).
         verify_evidence toy_env (DoubleVote (precommit_of (toy_cert bh_one 7 [0, 1, 2]) i sg)
           (precommit_of (toy_cert bh_two 14 [1, 2, 3]) i sg')) sample_domain toy_set = Inr ())"
proof -
  have fields: "q_height (toy_cert bh b l) = 4" "q_round (toy_cert bh b l) = 0"
    "q_block_hash (toy_cert bh b l) = bh" for bh b l
    by (simp_all add: toy_cert_def toy_qc_def)
  note acc = conflicting_certificates_accountable
    [OF toy_cert_valid(1) [OF bh_distinct(1)] toy_cert_valid(2) [OF bh_distinct(2)]]
  have differ: "sg \<noteq> sg'" if "sg \<in> set (q_sigs (toy_cert bh_one b l))" "sg' \<in> set (q_sigs (toy_cert bh_two b' l'))"
    for sg sg' b b' l l'
  proof
    assume "sg = sg'"
    with that obtain i j where "v_sig (toy_precommit bh_one i) = v_sig (toy_precommit bh_two j)"
      by (auto simp: toy_cert_def)
    then have "take 32 (v_sig (toy_precommit bh_one i)) = take 32 (v_sig (toy_precommit bh_two j))"
      by simp
    then have "rev bh_one = rev bh_two"
      by (simp add: toy_precommit_def sign_vote_def sign_digest_def vote_signing_digest_def
          signing_digest_def signing_payload_def toy_env_def bh_one_def bh_two_def)
    then show False using bh_distinct by simp
  qed
  have ex: "\<exists>A. A \<subseteq> {..<vs_len toy_set} \<and> byzantine_tolerance (vs_len toy_set) < card A \<and>
    (\<forall>i \<in> A. \<exists>sg \<in> set (q_sigs (toy_cert bh_one 7 [0, 1, 2])).
       \<exists>sg' \<in> set (q_sigs (toy_cert bh_two 14 [1, 2, 3])).
         verify_evidence toy_env (DoubleVote (precommit_of (toy_cert bh_one 7 [0, 1, 2]) i sg)
           (precommit_of (toy_cert bh_two 14 [1, 2, 3]) i sg')) sample_domain toy_set =
         (if sg = sg' then Inl (Other ''DoubleVote: ayni imza'') else Inr ()))"
    using acc [unfolded fields Let_def, OF refl refl bh_distinct(3)] by (elim exE conjE) (intro exI conjI, assumption, assumption, fast)
  from ex obtain A where A: "A \<subseteq> {..<4}" "byzantine_tolerance 4 < card A"
    "\<forall>i \<in> A. \<exists>sg \<in> set (q_sigs (toy_cert bh_one 7 [0, 1, 2])).
       \<exists>sg' \<in> set (q_sigs (toy_cert bh_two 14 [1, 2, 3])).
         verify_evidence toy_env (DoubleVote (precommit_of (toy_cert bh_one 7 [0, 1, 2]) i sg)
           (precommit_of (toy_cert bh_two 14 [1, 2, 3]) i sg')) sample_domain toy_set =
         (if sg = sg' then Inl (Other ''DoubleVote: ayni imza'') else Inr ())"
    unfolding toy_set_len by blast
  show ?thesis
  proof (intro exI [of _ A] conjI A(1,2) ballI)
    fix i assume "i \<in> A"
    then show "\<exists>sg \<in> set (q_sigs (toy_cert bh_one 7 [0, 1, 2])).
       \<exists>sg' \<in> set (q_sigs (toy_cert bh_two 14 [1, 2, 3])).
         verify_evidence toy_env (DoubleVote (precommit_of (toy_cert bh_one 7 [0, 1, 2]) i sg)
           (precommit_of (toy_cert bh_two 14 [1, 2, 3]) i sg')) sample_domain toy_set = Inr ()"
      using A(3) differ by (metis (no_types, lifting))
  qed
qed

text \<open>
  C34: verifying a certificate never panics, whatever the certificate holds: the structure check keeps
  the loop inside the signature list. And a verified certificate is the work of a quorum: it carries
  one signature per signer, and more than two thirds of the set's validators, each counted once, have
  in it a valid signature on the precommit digest of exactly this epoch, height, round and block.
\<close>

theorem verify_qc_sound:
  "verify_qc E qc d s \<noteq> Inl RustPanic \<and>
   (verify_qc E qc d s = Inr () \<longrightarrow>
     q_block_hash qc \<noteq> NIL_HASH \<and> q_validator_set_hash qc = vs_hash (keccak E) s \<and>
     length (q_sigs qc) = length (signer_indices qc) \<and>
     2 * vs_len s < 3 * card (set (signer_indices qc)) \<and>
     (\<forall>i \<in> set (signer_indices qc). i < vs_len s \<and>
        (\<exists>sg \<in> set (q_sigs qc). verify_vote E (precommit_of qc i sg) d s = Inr ())))"
proof (rule conjI [OF verify_qc_no_panic], rule impI)
  assume ok: "verify_qc E qc d s = Inr ()"
  then have struct: "qc_validate_structure E qc s = Inr ()"
    by (simp add: verify_qc_Inr)
  note v = struct [unfolded qc_validate_structure_Inr]
  have "2 * vs_len s < 3 * ((2 * vs_len s) div 3 + 1)" by presburger
  then have "2 * vs_len s < 3 * card (set (signer_indices qc))"
    using qc_signers_quorum(4) [OF struct] by linarith
  then show "q_block_hash qc \<noteq> NIL_HASH \<and> q_validator_set_hash qc = vs_hash (keccak E) s \<and>
     length (q_sigs qc) = length (signer_indices qc) \<and>
     2 * vs_len s < 3 * card (set (signer_indices qc)) \<and>
     (\<forall>i \<in> set (signer_indices qc). i < vs_len s \<and>
        (\<exists>sg \<in> set (q_sigs qc). verify_vote E (precommit_of qc i sg) d s = Inr ()))"
    using v by (auto intro: stored_precommit [OF ok])
qed

theorem verify_qc_sound_witness:
  "2 * vs_len toy_set < 3 * card (set (signer_indices (toy_cert bh_one 7 [0, 1, 2])))"
  using verify_qc_sound [of toy_env "toy_cert bh_one 7 [0, 1, 2]" sample_domain toy_set]
    toy_cert_valid(1) [OF bh_distinct(1)] by blast

text \<open>
  A certificate can be built from the votes at hand exactly when they hold a quorum: if every
  matching precommit in the list verifies and they come from at least Q validators, \<open>build_qc\<close>
  returns a certificate that verifies for that height, round and block and whose signers are exactly
  those validators, whatever other votes (shadow, nil, repeated, other rounds) the list holds.
\<close>

theorem build_qc_from_quorum:
  assumes "\<forall>v \<in> set votes. qc_candidate h r bh v \<longrightarrow> v_validator_idx v < vs_len s \<longrightarrow>
      verify_vote E v d s = Inr ()"
    and "vs_quorum s = Inr q" and "bh \<noteq> NIL_HASH"
    and "q \<le> card {v_validator_idx v | v. v \<in> set votes \<and> qc_candidate h r bh v \<and>
      v_validator_idx v < vs_len s}"
  shows "\<exists>qc. build_qc E votes d s h r bh = Inr qc \<and> verify_qc E qc d s = Inr () \<and>
    q_height qc = h \<and> q_round qc = r \<and> q_block_hash qc = bh \<and>
    set (signer_indices qc) = {v_validator_idx v | v. v \<in> set votes \<and> qc_candidate h r bh v \<and>
      v_validator_idx v < vs_len s}"
proof -
  obtain qc where "build_qc E votes d s h r bh = Inr qc"
    using build_qc_complete [OF assms] by blast
  with build_qc_Inr [OF this] show ?thesis by blast
qed

theorem build_qc_from_quorum_witness:
  "\<exists>qc. build_qc toy_env (map (toy_precommit bh_one) [2, 0, 1]) sample_domain toy_set 4 0 bh_one = Inr qc"
proof -
  have cand: "qc_candidate 4 0 bh_one (toy_precommit bh_one i)" for i
    using bh_distinct(1)
    by (simp add: qc_candidate_def toy_precommit_def sign_vote_def v_is_nil_def)
  have idx: "v_validator_idx (toy_precommit bh i) = i" for bh i
    by (simp add: toy_precommit_def sign_vote_def)
  let ?votes = "map (toy_precommit bh_one) [2, 0, 1]"
  have "v \<in> set ?votes \<Longrightarrow> qc_candidate 4 0 bh_one v \<and> v_validator_idx v < vs_len toy_set" for v
    by (auto simp: cand idx toy_set_len)
  then have "{v_validator_idx v | v. v \<in> set ?votes \<and> qc_candidate 4 0 bh_one v \<and>
      v_validator_idx v < vs_len toy_set} = v_validator_idx ` set ?votes"
    by blast
  also have "\<dots> = {0, 1, 2}" by (auto simp: idx)
  finally have "{v_validator_idx v | v. v \<in> set ?votes \<and> qc_candidate 4 0 bh_one v \<and>
      v_validator_idx v < vs_len toy_set} = {0, 1, 2}" .
  moreover have "vs_quorum toy_set = Inr 3"
    by (simp add: vs_quorum_Inr toy_set_len)
  ultimately show ?thesis
    using build_qc_from_quorum [of ?votes 4 0 bh_one toy_set toy_env sample_domain 3]
      toy_precommit_verifies bh_distinct(1)
    by (auto simp: toy_set_len)
qed

text \<open>
  Accepted equivocation evidence is two signatures of one validator's key on different messages
  for the same slot: for a double vote, the same height, round and phase with different blocks; for
  a double proposal, the same height and round with different headers.
\<close>

theorem verify_evidence_sound:
  assumes "verify_evidence E ev d s = Inr ()"
  shows "\<exists>pk. pubkey_of s (ev_validator_idx ev) = Some pk \<and>
    (case ev of
       DoubleVote a b \<Rightarrow>
         v_height a = v_height b \<and> v_round a = v_round b \<and> v_phase a = v_phase b \<and>
         v_shadow a = v_shadow b \<and> v_block_hash a \<noteq> v_block_hash b \<and>
         ed_check E pk (vote_signing_digest E d (vs_epoch s) a) (v_sig a) \<and>
         ed_check E pk (vote_signing_digest E d (vs_epoch s) b) (v_sig b)
     | DoublePropose a b \<Rightarrow>
         h_number (sh_header a) = h_number (sh_header b) \<and>
         h_round (sh_header a) = h_round (sh_header b) \<and> sh_header a \<noteq> sh_header b \<and>
         ed_check E pk (header_signing_digest E d (sh_header a)) (sh_sig a) \<and>
         ed_check E pk (header_signing_digest E d (sh_header b)) (sh_sig b))"
proof (cases ev)
  case (DoubleVote a b)
  with assms show ?thesis
    by (auto simp: verify_evidence_def try_then_Inr evidence_validate_structure_Inr votes.verify_iff
        verify_digest_Inr ev_validator_idx_def)
next
  case (DoublePropose a b)
  with assms show ?thesis
    by (auto simp: verify_evidence_def try_then_Inr evidence_validate_structure_Inr
        headers.verify_iff verify_digest_Inr ev_validator_idx_def)
qed

theorem verify_evidence_sound_witness:
  "\<exists>pk. pubkey_of toy_set 1 = Some pk \<and>
     ed_check toy_env pk
       (vote_signing_digest toy_env sample_domain (vs_epoch toy_set) (toy_precommit bh_one 1))
       (v_sig (toy_precommit bh_one 1))"
proof -
  have idx: "v_validator_idx (toy_precommit bh i) = i" for bh i
    by (simp add: toy_precommit_def sign_vote_def)
  have "v_sig (toy_precommit bh_one 1) \<noteq> v_sig (toy_precommit bh_two 1)"
  proof
    assume "v_sig (toy_precommit bh_one 1) = v_sig (toy_precommit bh_two 1)"
    then have "take 32 (v_sig (toy_precommit bh_one 1)) = take 32 (v_sig (toy_precommit bh_two 1))"
      by simp
    then have "rev bh_one = rev bh_two"
      by (simp add: toy_precommit_def sign_vote_def sign_digest_def vote_signing_digest_def
          signing_digest_def signing_payload_def toy_env_def bh_one_def bh_two_def)
    then show False using bh_distinct by simp
  qed
  then have "verify_evidence toy_env (DoubleVote (toy_precommit bh_one 1) (toy_precommit bh_two 1))
      sample_domain toy_set = Inr ()"
    using toy_precommit_verifies [of 1] bh_distinct(3)
    by (simp add: verify_evidence_def try_then_Inr evidence_validate_structure_Inr)
      (simp add: toy_precommit_def sign_vote_def)
  from verify_evidence_sound [OF this] show ?thesis
    by (auto simp: ev_validator_idx_def idx)
qed

text \<open>
  a key file written by \<open>save_keyfile\<close> loads back as the same key, and one readable by the group
  or by others, or whose public key is not the secret's, never loads.
\<close>

theorem keyfile_roundtrip:
  assumes hex: "hex_decode (hex_encode kp) = Some kp"
      "hex_decode (hex_encode (ed_public E kp)) = Some (ed_public E kp)"
    and "length kp = 32"
  shows "load_keyfile E hex_decode (fst (save_keyfile E hex_encode kp))
      (Some (snd (save_keyfile E hex_encode kp))) = Inr kp \<and>
    (mode AND 63 \<noteq> 0 \<longrightarrow> load_keyfile E hex_decode mode kf \<noteq> Inr k) \<and>
    (load_keyfile E hex_decode mode (Some f) = Inr k \<longrightarrow>
       hex_decode (kf_public_key_hex f) = Some (ed_public E k))"
  using assms
  by (auto simp: save_keyfile_def load_keyfile_def split: option.splits if_splits)

theorem keyfile_roundtrip_witness:
  "load_keyfile toy_env (\<lambda>t. if t = ''07'' then Some (replicate 32 7) else None) 384
     (Some \<lparr>kf_version = 1, kf_scheme = ''ed25519'', kf_public_key_hex = ''07'',
            kf_secret_key_hex = ''07''\<rparr>) = Inr (replicate 32 7)"
  using keyfile_roundtrip [of "\<lambda>t. if t = ''07'' then Some (replicate 32 7) else None" "\<lambda>_. ''07''"
      "replicate 32 7" toy_env]
  by (simp add: save_keyfile_def toy_env_def)

end
