(* ===== verification/EngineState.thy ===== *)
theory EngineState
  imports Crypto DoubleSign ChainParams
begin

text \<open>
  The data of the BFT engine (\<open>crates/zagros-consensus/src/engine.rs\<close>): proposals, messages, outputs,
  the engine's state \<open>BftEngine\<close> with its constructor, its observers and the operations that call no
  handler (timers' lengths, rotation of the set, buffering, vote tallies). Times are milliseconds.
\<close>

section \<open>Constants\<close>

definition MAX_BUFFERED_PER_HEIGHT :: nat where
  "MAX_BUFFERED_PER_HEIGHT = 4096"

definition MAX_LOOKAHEAD_HEIGHTS :: nat where
  "MAX_LOOKAHEAD_HEIGHTS = 2"

definition MAX_LOOKAHEAD_ROUNDS :: nat where
  "MAX_LOOKAHEAD_ROUNDS = 16"

definition TIMEOUT_CAP_MULTIPLIER :: nat where
  "TIMEOUT_CAP_MULTIPLIER = 10"

definition ENVELOPE_PHASE :: byte where
  "ENVELOPE_PHASE = 1"

definition SUPPORTED_RULESET :: nat where
  "SUPPORTED_RULESET = 2"

section \<open>Messages and outputs\<close>

record proposal =
  pr_signed :: signed_header
  pr_txs :: "transaction list"
  pr_bridge_proposals :: "bridge_proposal list"
  pr_shadow_votes :: "shadow_vote_attestation list"
  pr_round :: nat
  pr_valid_round :: "nat option"
  pr_sig :: bytes

definition pr_block_hash :: "crypto_env \<Rightarrow> proposal \<Rightarrow> hash" where
  "pr_block_hash E p = h_hash E (sh_header (pr_signed p))"

definition pr_height :: "proposal \<Rightarrow> nat" where
  "pr_height p = h_number (sh_header (pr_signed p))"

definition envelope_digest :: "crypto_env \<Rightarrow> consensus_domain \<Rightarrow> nat \<Rightarrow> proposal \<Rightarrow> hash" where
  "envelope_digest E d epoch p =
     signing_digest E DOMAIN_HEADER d epoch (pr_height p) (pr_round p) ENVELOPE_PHASE
       (pr_block_hash E p)"

datatype message =
    MProposal proposal
  | MVote vote
  | MHeartbeat heartbeat
  | MShadowVote shadow_vote_attestation

definition msg_height :: "message \<Rightarrow> nat" where
  "msg_height m =
     (case m of MProposal p \<Rightarrow> pr_height p | MVote v \<Rightarrow> v_height v | MHeartbeat h \<Rightarrow> hb_height h
      | MShadowVote sv \<Rightarrow> v_height (sva_vote sv))"

datatype qc_close = Immediate | Full | GraceExpired | Clamped

record committed_block =
  cb_proposal :: proposal
  cb_qc :: quorum_certificate
  cb_rounds_used :: nat
  cb_qc_close :: qc_close

datatype view_change_reason = Timeout | NilQuorum | RoundSkip

datatype engine_output =
    Broadcast message
  | NeedProposal nat nat
  | Commit committed_block
  | EvidenceOut evidence
  | ViewChange nat nat nat view_change_reason
  | Dropped string

section \<open>State\<close>

record node_identity =
  id_idx :: nat
  id_keypair :: bytes

record chain_tip =
  tip_height :: nat
  tip_hash :: hash
  tip_qc :: "quorum_certificate option"
  tip_timestamp_ms :: nat

datatype step = Propose | SPrevote | SPrecommit

record engine_stats =
  st_view_changes_total :: nat
  st_timeouts_total :: nat
  st_nil_quorum_view_changes :: nat
  st_round_skips :: nat
  st_commits_total :: nat
  st_last_commit_round :: nat

type_synonym vote_book = "(nat \<times> (nat \<times> vote) list) list"

record engine =
  e_local_max_ruleset :: nat
  e_domain :: consensus_domain
  e_params :: chain_params
  e_identity :: "node_identity option"
  e_set :: active_validator_set
  e_tip_set :: active_validator_set
  e_tip :: chain_tip
  e_tip_committed_at_ms :: nat
  e_height :: nat
  e_round :: nat
  e_step :: step
  e_round_active :: bool
  e_locked :: "(nat \<times> hash) option"
  e_valid :: "(nat \<times> hash) option"
  e_valid_proposal :: "proposal option"
  e_proposals :: "(nat \<times> proposal) list"
  e_verified :: "(hash \<times> bool) list"
  e_prevotes :: vote_book
  e_precommits :: vote_book
  e_pending_qc :: "quorum_certificate option"
  e_buffered :: "(nat \<times> message list) list"
  e_evidence_seen :: "(nat \<times> nat \<times> nat) list"
  e_qc_grace_ms :: nat
  e_qc_grace_wait :: "(nat \<times> hash \<times> nat) option"
  e_last_qc_close :: qc_close
  e_propose_ready_at :: "nat option"
  e_propose_deadline :: "nat option"
  e_prevote_deadline :: "nat option"
  e_precommit_deadline :: "nat option"
  e_stats :: engine_stats
  e_double_sign :: "double_sign_protector option"

text \<open>
  What the engine calls outside itself: cryptography, hex, the block simulation of the host
  (\<open>BlockVerifier\<close>), bincode's size of a block body, whether a write of the double-sign file
  succeeds, and the order in which a hash map yields its values.
\<close>

record engine_env =
  en_crypto :: crypto_env
  en_hex :: hex_env
  en_simulate :: "block_header \<Rightarrow> transaction list \<Rightarrow> bridge_proposal list \<Rightarrow>
    shadow_vote_attestation list \<Rightarrow> hash result"
  en_body_bytes :: "transaction list \<Rightarrow> nat"
  en_disk_ok :: "nat \<Rightarrow> nat \<Rightarrow> nat \<Rightarrow> bool"
  en_values :: "(nat \<times> proposal) list \<Rightarrow> proposal list"

definition initial_stats :: engine_stats where
  "initial_stats =
    \<lparr>st_view_changes_total = 0, st_timeouts_total = 0, st_nil_quorum_view_changes = 0,
     st_round_skips = 0, st_commits_total = 0, st_last_commit_round = 0\<rparr>"

definition fresh_engine ::
  "consensus_domain \<Rightarrow> chain_params \<Rightarrow> active_validator_set \<Rightarrow> node_identity option \<Rightarrow>
   chain_tip \<Rightarrow> active_validator_set \<Rightarrow> engine" where
  "fresh_engine d params vset identity tip tip_set =
    \<lparr>e_local_max_ruleset = SUPPORTED_RULESET, e_domain = d, e_params = params,
     e_identity = identity, e_set = vset, e_tip_set = tip_set, e_tip = tip,
     e_tip_committed_at_ms = 0, e_height = tip_height tip + 1, e_round = 0, e_step = Propose,
     e_round_active = False, e_locked = None, e_valid = None, e_valid_proposal = None,
     e_proposals = [], e_verified = [], e_prevotes = [], e_precommits = [], e_pending_qc = None,
     e_buffered = [], e_evidence_seen = [], e_qc_grace_ms = 0, e_qc_grace_wait = None,
     e_last_qc_close = Immediate, e_propose_ready_at = None, e_propose_deadline = None,
     e_prevote_deadline = None, e_precommit_deadline = None, e_stats = initial_stats,
     e_double_sign = None\<rparr>"

definition identity_fits :: "crypto_env \<Rightarrow> active_validator_set \<Rightarrow> node_identity option \<Rightarrow> bool" where
  "identity_fits E vset identity =
     (case identity of None \<Rightarrow> True
      | Some i \<Rightarrow> pubkey_of vset (id_idx i) = Some (ed_public E (id_keypair i)))"

definition check_tip ::
  "crypto_env \<Rightarrow> consensus_domain \<Rightarrow> chain_tip \<Rightarrow> active_validator_set \<Rightarrow> unit result" where
  "check_tip E d tip tip_set =
     (if 0 < tip_height tip then
        (case tip_qc tip of
           Some qc \<Rightarrow>
             if q_height qc \<noteq> tip_height tip \<or> q_block_hash qc \<noteq> tip_hash tip
             then Inl (Other ''tip.qc tip ile uyusmuyor'')
             else verify_qc E qc d tip_set
         | None \<Rightarrow> Inl (Other ''genesis disinda tip QC tasimali''))
      else Inr ())"

text \<open>\<open>BftEngine::new\<close>.\<close>

definition engine_new ::
  "crypto_env \<Rightarrow> consensus_domain \<Rightarrow> chain_params \<Rightarrow> active_validator_set \<Rightarrow>
   node_identity option \<Rightarrow> chain_tip \<Rightarrow> active_validator_set option \<Rightarrow> engine result" where
  "engine_new E d params vset identity tip tip_set_opt =
     try_then (params_validate params) (\<lambda>_.
     try_then (vs_validate vset) (\<lambda>_.
     try_then (case tip_set_opt of
                 Some ts \<Rightarrow> try_then (vs_validate ts) (\<lambda>_. Inr ts)
               | None \<Rightarrow> Inr vset) (\<lambda>tip_set.
     if \<not> identity_fits E vset identity
       then Inl (Other ''konsensus kimligi: idx/pubkey aktif kumeyle uyusmuyor'')
     else try_then (check_tip E d tip tip_set)
       (\<lambda>_. Inr (fresh_engine d params vset identity tip tip_set)))))"

definition set_double_sign_protector :: "hex_env \<Rightarrow> file_state \<Rightarrow> engine \<Rightarrow> engine" where
  "set_double_sign_protector X file s = s\<lparr>e_double_sign := Some (ds_load X file)\<rparr>"

section \<open>Observers and timers\<close>

definition my_idx :: "engine \<Rightarrow> nat option" where
  "my_idx s = map_option id_idx (e_identity s)"

definition opt_list :: "'a option \<Rightarrow> 'a list" where
  "opt_list x = (case x of None \<Rightarrow> [] | Some y \<Rightarrow> [y])"

definition next_deadline :: "engine \<Rightarrow> nat option" where
  "next_deadline s =
     (let ds = opt_list (e_propose_ready_at s) @ opt_list (e_propose_deadline s) @
               opt_list (e_prevote_deadline s) @ opt_list (e_precommit_deadline s) @
               opt_list (map_option (\<lambda>(_, _, at). at) (e_qc_grace_wait s))
      in if ds = [] then None else Some (Min (set ds)))"

definition set_qc_grace_ms :: "nat \<Rightarrow> engine \<Rightarrow> engine" where
  "set_qc_grace_ms ms s = s\<lparr>e_qc_grace_ms := ms\<rparr>"

definition qc_grace_deadline :: "engine \<Rightarrow> nat \<Rightarrow> nat option" where
  "qc_grace_deadline s since =
     (if e_qc_grace_ms s = 0 then None
      else let at = sat_add u64_max since (e_qc_grace_ms s) in
        (case e_precommit_deadline s of
           Some pd \<Rightarrow> if pd \<le> sat_add u64_max at 1 then None else Some at
         | None \<Rightarrow> Some at))"

text \<open>\<open>(height + round) % n\<close>; \<open>n = 0\<close>, which would panic, is excluded by the validated set.\<close>

definition proposer_for :: "engine \<Rightarrow> nat \<Rightarrow> nat \<Rightarrow> nat" where
  "proposer_for s height round = as_u16 ((height + round) mod vs_len (e_set s))"

definition is_proposer :: "engine \<Rightarrow> bool" where
  "is_proposer s = (my_idx s = Some (proposer_for s (e_height s) (e_round s)))"

definition t_propose :: "engine \<Rightarrow> nat \<Rightarrow> nat" where
  "t_propose s round =
     (let t = sat_mul u64_max (p_t_base_ms (e_params s)) (1 + round)
      in min t (sat_mul u64_max (p_t_base_ms (e_params s)) TIMEOUT_CAP_MULTIPLIER))"

definition t_vote :: "engine \<Rightarrow> nat \<Rightarrow> nat" where
  "t_vote s round =
     (let t = sat_mul u64_max (max (p_t_base_ms (e_params s) div 2) 1) (1 + round)
      in min t (sat_mul u64_max (p_t_base_ms (e_params s)) TIMEOUT_CAP_MULTIPLIER))"

section \<open>Rotation, buffering, tallies\<close>

text \<open>\<open>Iterator::position\<close>.\<close>

fun position :: "('a \<Rightarrow> bool) \<Rightarrow> 'a list \<Rightarrow> nat option" where
  "position P [] = None"
| "position P (x # xs) = (if P x then Some 0 else map_option Suc (position P xs))"

definition rotate_validator_set :: "crypto_env \<Rightarrow> active_validator_set \<Rightarrow> engine \<Rightarrow> engine result" where
  "rotate_validator_set E new_set s =
     try_then (vs_validate new_set) (\<lambda>_.
       if e_round_active s \<or> e_proposals s \<noteq> [] \<or> e_prevotes s \<noteq> []
       then Inl (Other ''validator kumesi yalnizca yukseklik basinda (bos durumda) degistirilebilir'')
       else let ident =
             (case e_identity s of None \<Rightarrow> None
              | Some i \<Rightarrow>
                  (case position (\<lambda>m. m_consensus_pubkey m = ed_public E (id_keypair i))
                     (vs_members new_set) of
                    Some k \<Rightarrow> Some \<lparr>id_idx = as_u16 k, id_keypair = id_keypair i\<rparr>
                  | None \<Rightarrow> None))
            in Inr (s\<lparr>e_identity := ident, e_set := new_set\<rparr>))"

definition buffer_msg :: "nat \<Rightarrow> message \<Rightarrow> engine \<Rightarrow> engine \<times> engine_output" where
  "buffer_msg height m s =
     (if e_height s + MAX_LOOKAHEAD_HEIGHTS < height then (s, Dropped ''cok ileri yukseklik'')
      else let q = (case map_of (e_buffered s) height of None \<Rightarrow> [] | Some q \<Rightarrow> q) in
        if MAX_BUFFERED_PER_HEIGHT \<le> length q
        then (s, Dropped ''tampon dolu'')
        else (s\<lparr>e_buffered := AList.update height (q @ [m]) (e_buffered s)\<rparr>,
              Dropped ''tamponlandi''))"

definition slot :: "vote_book \<Rightarrow> nat \<Rightarrow> (nat \<times> vote) list" where
  "slot book round = (case map_of book round of None \<Rightarrow> [] | Some m \<Rightarrow> m)"

definition distinct_voters_at :: "engine \<Rightarrow> nat \<Rightarrow> nat" where
  "distinct_voters_at s round =
     length (remdups (map fst (slot (e_prevotes s) round) @ map fst (slot (e_precommits s) round)))"

definition has_quorum_prevotes :: "engine \<Rightarrow> nat \<Rightarrow> hash \<Rightarrow> bool" where
  "has_quorum_prevotes s round h =
     (case vs_quorum (e_set s) of
        Inl _ \<Rightarrow> False
      | Inr q \<Rightarrow>
          q \<le> length (filter (\<lambda>(_, v). v_block_hash v = h) (slot (e_prevotes s) round)))"

text \<open>
  \<open>quorum_value\<close>: the votes of a round grouped by hash, the smallest hash with at least \<open>q\<close> votes
  and its votes. (\<open>unwrap_or(usize::MAX)\<close> above: a set without a quorum has none.)
\<close>

definition quorum_value :: "vote_book \<Rightarrow> nat \<Rightarrow> nat \<Rightarrow> (hash \<times> vote list) option" where
  "quorum_value book round q =
     (let votes = map snd (slot book round);
          hits = filter (\<lambda>h. q \<le> length (filter (\<lambda>v. v_block_hash v = h) votes))
                   (sort (remdups (map v_block_hash votes)))
      in case hits of [] \<Rightarrow> None
         | h # _ \<Rightarrow> Some (h, filter (\<lambda>v. v_block_hash v = h) votes))"

end
