(* ===== verification/Engine.thy ===== *)
theory Engine
  imports EngineState
begin

text \<open>
  The handlers of the BFT engine (\<open>crates/zagros-consensus/src/engine.rs\<close>). The handlers call each
  other (\<open>start_round\<close>, \<open>on_proposal\<close>, \<open>cast_vote\<close>, \<open>on_vote\<close>, \<open>try_advance\<close>), so each is a body that
  takes the recursive calls as its argument \<open>rec\<close>, and \<open>exec\<close> ties the knot with a bound on the depth
  of calls. A result is the new state and the outputs in order; \<open>None\<close> is a bound that was too small
  (\<open>EngineTermination\<close> shows that \<open>CALL_DEPTH\<close> always suffices).
\<close>

section \<open>Calls and results\<close>

datatype call =
    CStartRound nat "view_change_reason option"
  | COnProposal proposal
  | CCastVote vote_phase hash
  | COnVote vote
  | CTryAdvance

type_synonym engine_result = "(engine \<times> engine_output list) option"
type_synonym caller = "call \<Rightarrow> engine \<Rightarrow> engine_result"

definition emit :: "engine_output list \<Rightarrow> engine \<Rightarrow> engine_result" where
  "emit out s = Some (s, out)"

text \<open>\<open>out.extend(...)\<close>: go on in the new state, outputs appended.\<close>

definition and_then :: "engine_result \<Rightarrow> (engine \<Rightarrow> engine_result) \<Rightarrow> engine_result" where
  "and_then m k =
     (case m of None \<Rightarrow> None
      | Some (s, out) \<Rightarrow> (case k s of None \<Rightarrow> None | Some (s', out') \<Rightarrow> Some (s', out @ out')))"

section \<open>Starting a round\<close>

definition note_view_change ::
  "nat \<Rightarrow> view_change_reason option \<Rightarrow> engine \<Rightarrow> engine \<times> engine_output list" where
  "note_view_change round reason s =
     (case reason of None \<Rightarrow> (s, [])
      | Some why \<Rightarrow>
          (let st = e_stats s;
               st1 = st\<lparr>st_view_changes_total := st_view_changes_total st + 1\<rparr>;
               st2 = (case why of
                        NilQuorum \<Rightarrow>
                          st1\<lparr>st_nil_quorum_view_changes := st_nil_quorum_view_changes st1 + 1\<rparr>
                      | RoundSkip \<Rightarrow> st1\<lparr>st_round_skips := st_round_skips st1 + 1\<rparr>
                      | Timeout \<Rightarrow> st1)
           in (s\<lparr>e_stats := st2\<rparr>, [ViewChange (e_height s) (e_round s) round why])))"

definition window_start :: "nat \<Rightarrow> engine \<Rightarrow> nat" where
  "window_start now s =
     max now (sat_add u64_max (tip_timestamp_ms (e_tip s)) (p_block_interval_ms (e_params s)))"

definition enter_round :: "nat \<Rightarrow> nat \<Rightarrow> engine \<Rightarrow> engine" where
  "enter_round round now s =
     s\<lparr>e_round := round, e_step := Propose, e_prevote_deadline := None,
       e_precommit_deadline := None, e_qc_grace_wait := None,
       e_propose_deadline := Some (sat_add u64_max (window_start now s) (t_propose s round)),
       e_propose_ready_at := None\<rparr>"

definition ask_proposal :: "nat \<Rightarrow> nat \<Rightarrow> engine \<Rightarrow> engine \<times> engine_output list" where
  "ask_proposal round now s =
     (if is_proposer s \<and> map_of (e_proposals s) round = None
      then (if window_start now s \<le> now then (s, [NeedProposal (e_height s) round])
            else (s\<lparr>e_propose_ready_at := Some (window_start now s)\<rparr>, []))
      else (s, []))"

definition start_round_body ::
  "caller \<Rightarrow> nat \<Rightarrow> nat \<Rightarrow> view_change_reason option \<Rightarrow> engine \<Rightarrow> engine_result" where
  "start_round_body rec round now reason s =
     (let (s0, out0) = note_view_change round reason s;
          (s2, out1) = ask_proposal round now (enter_round round now s0)
      in and_then (emit (out0 @ out1) s2)
           (\<lambda>s. and_then
              (case map_of (e_proposals s) round of
                 Some p \<Rightarrow> rec (COnProposal p) (s\<lparr>e_proposals := AList.delete round (e_proposals s)\<rparr>)
               | None \<Rightarrow> emit [] s)
              (rec CTryAdvance)))"

section \<open>Proposals\<close>

definition check_last_qc :: "engine_env \<Rightarrow> block_header \<Rightarrow> engine \<Rightarrow> unit result" where
  "check_last_qc V h s =
     (case (h_last_qc h, tip_qc (e_tip s)) of
        (Some qc, Some _) \<Rightarrow> verify_qc (en_crypto V) qc (e_domain s) (e_tip_set s)
      | (None, None) \<Rightarrow>
          if e_height s = 1 then Inr () else Inl (Other ''last_qc / tip.qc uyusmazligi'')
      | _ \<Rightarrow> Inl (Other ''last_qc / tip.qc uyusmazligi''))"

definition check_body :: "engine_env \<Rightarrow> proposal \<Rightarrow> engine \<Rightarrow> unit result" where
  "check_body V p s =
     (let h = sh_header (pr_signed p); actual = en_body_bytes V (pr_txs p) in
      if h_tx_count h \<noteq> length (pr_txs p) then Inl (Other ''tx_count govdeyle uyusmuyor'')
      else if h_tx_root h \<noteq> compute_tx_root (en_crypto V) (map tx_id (pr_txs p))
        then Inl (Other ''tx_root govdeyle uyusmuyor'')
      else if actual \<noteq> h_body_bytes h then Inl (Other ''body_bytes != gercek'')
      else if p_max_block_bytes (e_params s) < actual
        then Inl (Other ''govde max_block_bytes asiyor'')
      else if list_ex (\<lambda>tx. tx_chain_id tx \<noteq> CHAIN_ID) (pr_txs p)
        then Inl (Other ''govdede yabanci chain_id li tx'')
      else Inr ())"

definition check_simulation :: "engine_env \<Rightarrow> proposal \<Rightarrow> engine \<Rightarrow> unit result" where
  "check_simulation V p s =
     (if map_of (e_verified s) (pr_block_hash (en_crypto V) p) \<noteq> Some True
      then try_then
             (en_simulate V (sh_header (pr_signed p)) (pr_txs p) (pr_bridge_proposals p)
                (pr_shadow_votes p))
             (\<lambda>root. if root \<noteq> h_state_root (sh_header (pr_signed p))
                     then Inl (Other ''state_root uyusmazligi'') else Inr ())
      else Inr ())"

definition check_proposal :: "engine_env \<Rightarrow> proposal \<Rightarrow> nat \<Rightarrow> engine \<Rightarrow> unit result" where
  "check_proposal V p now s =
     (let h = sh_header (pr_signed p) in
      try_then (header_validate_structure h (e_params s)) (\<lambda>_.
      if h_number h \<noteq> e_height s then Inl (Other ''yukseklik uyusmuyor'')
      else if pr_round p < h_round h then Inl (Other ''baslik turu zarf turundan buyuk'')
      else if h_proposer_idx h \<noteq> proposer_for s (h_number h) (h_round h)
        then Inl (Other ''baslik proposer_idx != rotasyon'')
      else try_then (verify_signed_header (en_crypto V) (pr_signed p) (e_domain s) (e_set s)) (\<lambda>_.
      if (case pr_valid_round p of None \<Rightarrow> False | Some vr \<Rightarrow> pr_round p \<le> vr)
        then Inl (Other ''valid_round zarf turundan kucuk olmali'')
      else if h_parent_hash h \<noteq> tip_hash (e_tip s)
        then Inl (Other ''parent_hash tip ile uyusmuyor'')
      else try_then (check_last_qc V h s) (\<lambda>_.
      if h_timestamp_ms h \<le> tip_timestamp_ms (e_tip s)
        then Inl (Other ''zaman damgasi ebeveynden buyuk degil'')
      else if sat_add u64_max now (p_max_clock_skew_ms (e_params s)) < h_timestamp_ms h
        then Inl (Other ''zaman damgasi gelecekte (max_clock_skew_ms)'')
      else try_then (check_body V p s) (\<lambda>_. check_simulation V p s)))))"

definition double_propose_evidence ::
  "proposal \<Rightarrow> proposal \<Rightarrow> engine \<Rightarrow> engine \<times> engine_output list" where
  "double_propose_evidence a b s =
     (let ha = sh_header (pr_signed a); hb = sh_header (pr_signed b);
          key = (h_proposer_idx ha, h_round ha, 255)
      in if h_round ha \<noteq> h_round hb \<or> h_proposer_idx ha \<noteq> h_proposer_idx hb then (s, [])
         else if key \<in> set (e_evidence_seen s) then (s, [])
         else (s\<lparr>e_evidence_seen := e_evidence_seen s @ [key]\<rparr>,
               [EvidenceOut (DoublePropose (pr_signed a) (pr_signed b))]))"

text \<open>The value to prevote for (INV-C4): the lock holds unless a newer proof of lock is at hand.\<close>

definition prevote_choice :: "engine \<Rightarrow> bool \<Rightarrow> hash \<Rightarrow> nat option \<Rightarrow> hash" where
  "prevote_choice s valid bh valid_round =
     (if \<not> valid then NIL_HASH
      else case e_locked s of
          None \<Rightarrow> bh
        | Some (locked_round, locked_hash) \<Rightarrow>
            if locked_hash = bh then bh
            else (case valid_round of
                Some vr \<Rightarrow>
                  if locked_round < vr \<and> vr < e_round s \<and> has_quorum_prevotes s vr bh then bh
                  else NIL_HASH
              | None \<Rightarrow> NIL_HASH))"

definition on_future_proposal ::
  "engine_env \<Rightarrow> proposal \<Rightarrow> engine \<Rightarrow> engine_result" where
  "on_future_proposal V p s =
     (if e_round s + MAX_LOOKAHEAD_ROUNDS < pr_round p
      then emit [Dropped ''oneri cok ileri round''] s
      else case map_of (e_proposals s) (pr_round p) of
          Some existing \<Rightarrow>
            (let (s', out) =
                 (if pr_block_hash (en_crypto V) existing \<noteq> pr_block_hash (en_crypto V) p
                  then double_propose_evidence existing p s else (s, []))
             in emit (out @ [Dropped ''ileri round icin oneri zaten var'']) s')
        | None \<Rightarrow>
            emit [Dropped ''ileri round icin tamponlandi'']
              (s\<lparr>e_proposals := AList.update (pr_round p) p (e_proposals s)\<rparr>))"

definition or_insert :: "nat \<Rightarrow> 'a \<Rightarrow> (nat \<times> 'a) list \<Rightarrow> (nat \<times> 'a) list" where
  "or_insert k v al = (if map_of al k = None then AList.update k v al else al)"

definition on_old_proposal ::
  "engine_env \<Rightarrow> caller \<Rightarrow> proposal \<Rightarrow> nat \<Rightarrow> engine \<Rightarrow> engine_result" where
  "on_old_proposal V rec p now s =
     (let bh = pr_block_hash (en_crypto V) p in
      if map_option q_block_hash (e_pending_qc s) \<noteq> Some bh
      then emit [Dropped ''eski round onerisi''] s
      else case check_proposal V p now s of
          Inl e \<Rightarrow> emit [Dropped ''bekleyen QC govdesi gecersiz''] s
        | Inr _ \<Rightarrow>
            rec CTryAdvance
              (s\<lparr>e_verified := AList.update bh True (e_verified s),
                e_proposals := or_insert (pr_round p) p (e_proposals s)\<rparr>))"

definition on_current_proposal ::
  "engine_env \<Rightarrow> caller \<Rightarrow> proposal \<Rightarrow> nat \<Rightarrow> engine \<Rightarrow> engine_result" where
  "on_current_proposal V rec p now s =
     (let bh = pr_block_hash (en_crypto V) p in
      case map_of (e_proposals s) (pr_round p) of
        Some existing \<Rightarrow>
          (if pr_block_hash (en_crypto V) existing = bh
           then emit [Dropped ''oneri zaten alindi''] s
           else (let (s', out) = double_propose_evidence existing p s
                 in emit (out @ [Dropped ''ayni round da ikinci oneri (equivocation)'']) s'))
      | None \<Rightarrow>
          (let valid = is_ok (check_proposal V p now s);
               out0 = (if valid then [] else [Dropped ''oneri gecersiz'']);
               s1 = (if valid
                     then s\<lparr>e_verified := AList.update bh True (e_verified s),
                            e_proposals := AList.update (pr_round p) p (e_proposals s)\<rparr>
                     else s)
           in and_then (emit out0 s1)
                (\<lambda>s. and_then
                   (if e_step s = Propose
                    then rec (CCastVote Prevote (prevote_choice s valid bh (pr_valid_round p)))
                           (s\<lparr>e_step := SPrevote\<rparr>)
                    else emit [] s)
                   (rec CTryAdvance))))"

definition on_proposal_body ::
  "engine_env \<Rightarrow> caller \<Rightarrow> proposal \<Rightarrow> nat \<Rightarrow> engine \<Rightarrow> engine_result" where
  "on_proposal_body V rec p now s =
     (case pubkey_of (e_set s) (proposer_for s (e_height s) (pr_round p)) of
        None \<Rightarrow> emit [Dropped ''oneri: proposer indeksi kume disinda''] s
      | Some pk \<Rightarrow>
          (if \<not> is_ok (verify_digest (en_crypto V) pk
                 (envelope_digest (en_crypto V) (e_domain s) (vs_epoch (e_set s)) p) (pr_sig p))
           then emit [Dropped ''oneri zarf imzasi''] s
           else if e_round s < pr_round p then on_future_proposal V p s
           else if pr_round p < e_round s then on_old_proposal V rec p now s
           else on_current_proposal V rec p now s))"

section \<open>Votes\<close>

definition book_of :: "vote_phase \<Rightarrow> engine \<Rightarrow> vote_book" where
  "book_of phase s = (case phase of Prevote \<Rightarrow> e_prevotes s | Precommit \<Rightarrow> e_precommits s)"

definition set_book :: "vote_phase \<Rightarrow> vote_book \<Rightarrow> engine \<Rightarrow> engine" where
  "set_book phase b s =
     (case phase of Prevote \<Rightarrow> s\<lparr>e_prevotes := b\<rparr> | Precommit \<Rightarrow> s\<lparr>e_precommits := b\<rparr>)"

definition record_vote :: "vote \<Rightarrow> engine \<Rightarrow> engine" where
  "record_vote v s =
     (let b = book_of (v_phase v) s in
      set_book (v_phase v)
        (AList.update (v_round v) (AList.update (v_validator_idx v) v (slot b (v_round v))) b) s)"

definition double_vote ::
  "vote \<Rightarrow> vote \<Rightarrow> engine \<Rightarrow> engine \<times> engine_output list" where
  "double_vote existing v s =
     (let key = (v_validator_idx v, v_round v, unat (as_u8 (v_phase v))) in
      if key \<in> set (e_evidence_seen s) then (s, [])
      else (s\<lparr>e_evidence_seen := e_evidence_seen s @ [key]\<rparr>, [EvidenceOut (DoubleVote existing v)]))"

definition on_vote_body ::
  "engine_env \<Rightarrow> caller \<Rightarrow> vote \<Rightarrow> engine \<Rightarrow> engine_result" where
  "on_vote_body V rec v s =
     (if v_shadow v then emit [Dropped ''golge oy sayilmaz''] s
      else if e_round s + MAX_LOOKAHEAD_ROUNDS < v_round v
        then emit [Dropped ''oy cok ileri round''] s
      else if \<not> is_ok (verify_vote (en_crypto V) v (e_domain s) (e_set s))
        then emit [Dropped ''oy imzasi''] s
      else case map_of (slot (book_of (v_phase v) s) (v_round v)) (v_validator_idx v) of
          Some existing \<Rightarrow>
            (if v_block_hash existing = v_block_hash v then emit [Dropped ''oy zaten alindi''] s
             else (let (s', out) = double_vote existing v s
                   in emit (out @ [Dropped ''ayni (h,r,phase) icin ikinci oy (equivocation)'']) s'))
        | None \<Rightarrow>
            (let s1 = record_vote v s in
             if e_round s1 < v_round v \<and>
                byzantine_tolerance (vs_len (e_set s1)) < distinct_voters_at s1 (v_round v)
             then rec (CStartRound (v_round v) (Some RoundSkip)) s1
             else rec CTryAdvance s1))"

definition arm_timer :: "vote_phase \<Rightarrow> nat \<Rightarrow> engine \<Rightarrow> engine" where
  "arm_timer phase now s =
     (let at = sat_add u64_max now (t_vote s (e_round s)) in
      case phase of
        Prevote \<Rightarrow> (if e_prevote_deadline s = None then s\<lparr>e_prevote_deadline := Some at\<rparr> else s)
      | Precommit \<Rightarrow>
          (if e_precommit_deadline s = None then s\<lparr>e_precommit_deadline := Some at\<rparr> else s))"

text \<open>\<open>DoubleSignProtector::allow\<close> on the engine's protector, when there is one.\<close>

definition guard_sign :: "engine_env \<Rightarrow> nat \<Rightarrow> nat \<Rightarrow> nat \<Rightarrow> hash \<Rightarrow> engine \<Rightarrow> bool \<times> engine" where
  "guard_sign V h r st bh s =
     (case e_double_sign s of
        None \<Rightarrow> (True, s)
      | Some ds \<Rightarrow>
          (let (ok, ds') = ds_allow (en_hex V) (en_disk_ok V h r st) h r st bh ds
           in (ok, s\<lparr>e_double_sign := Some ds'\<rparr>)))"

definition my_vote :: "engine_env \<Rightarrow> node_identity \<Rightarrow> vote_phase \<Rightarrow> hash \<Rightarrow> engine \<Rightarrow> vote" where
  "my_vote V i phase bh s =
     sign_vote (en_crypto V) (id_keypair i) (e_domain s) (vs_epoch (e_set s))
       \<lparr>v_height = e_height s, v_round = e_round s, v_phase = phase, v_block_hash = bh,
        v_validator_idx = id_idx i, v_shadow = False, v_sig = []\<rparr>"

definition cast_vote_body ::
  "engine_env \<Rightarrow> caller \<Rightarrow> vote_phase \<Rightarrow> hash \<Rightarrow> nat \<Rightarrow> engine \<Rightarrow> engine_result" where
  "cast_vote_body V rec phase bh now s =
     (case e_identity s of
        None \<Rightarrow> emit [] (arm_timer phase now s)
      | Some i \<Rightarrow>
          (if map_of (slot (book_of phase s) (e_round s)) (id_idx i) \<noteq> None then emit [] s
           else (let (ok, s1) = guard_sign V (e_height s) (e_round s)
                                  (case phase of Prevote \<Rightarrow> 1 | Precommit \<Rightarrow> 2) bh s
                 in if \<not> ok then emit [] (arm_timer phase now s1)
                    else (let vote = my_vote V i phase bh s1
                          in and_then (emit [Broadcast (MVote vote)] (arm_timer phase now s1))
                               (rec (COnVote vote))))))"

section \<open>Advancing\<close>

text \<open>The prevote stage: a quorum of prevotes in the current round locks and precommits.\<close>

definition prevote_stage ::
  "engine_env \<Rightarrow> caller \<Rightarrow> nat \<Rightarrow> nat \<Rightarrow> engine \<Rightarrow> engine_result" where
  "prevote_stage V rec q round s =
     (case quorum_value (e_prevotes s) round q of
        None \<Rightarrow> emit [] s
      | Some (h, _) \<Rightarrow>
          (if h \<noteq> NIL_HASH then
             (if map_option (pr_block_hash (en_crypto V)) (map_of (e_proposals s) round) = Some h
              then (let s1 = (if e_step s \<noteq> Propose
                              then s\<lparr>e_valid := Some (round, h),
                                     e_valid_proposal := map_of (e_proposals s) round\<rparr>
                              else s)
                    in if e_step s1 = SPrevote
                       then rec (CCastVote Precommit h)
                              (s1\<lparr>e_locked := Some (round, h), e_step := SPrecommit,
                                  e_prevote_deadline := None\<rparr>)
                       else emit [] s1)
              else emit [] s)
           else if e_step s = SPrevote
             then rec (CCastVote Precommit NIL_HASH)
                    (s\<lparr>e_step := SPrecommit, e_prevote_deadline := None\<rparr>)
           else emit [] s))"

text \<open>Whether a quorum of precommits closes now, or the grace window keeps it open.\<close>

datatype closing =
    KeepWaiting "(nat \<times> hash \<times> nat) option"
  | CloseNow qc_close

definition grace_decision :: "nat \<Rightarrow> nat \<Rightarrow> hash \<Rightarrow> nat \<Rightarrow> engine \<Rightarrow> closing" where
  "grace_decision now r h votes s =
     (if vs_len (e_set s) \<le> votes
      then CloseNow (if e_qc_grace_wait s \<noteq> None then Full else Immediate)
      else if e_qc_grace_ms s = 0 then CloseNow Immediate
      else (let fresh = (case qc_grace_deadline s now of
                           Some at \<Rightarrow> KeepWaiting (Some (r, h, at)) | None \<Rightarrow> CloseNow Clamped)
            in case e_qc_grace_wait s of
                 Some (wr, wh, at) \<Rightarrow>
                   if wr = r \<and> wh = h
                   then (if now < at then KeepWaiting (e_qc_grace_wait s)
                         else CloseNow GraceExpired)
                   else fresh
               | None \<Rightarrow> fresh))"

fun collect_qc ::
  "engine_env \<Rightarrow> nat \<Rightarrow> nat \<Rightarrow> nat list \<Rightarrow> engine \<Rightarrow> engine \<times> engine_output list" where
  "collect_qc V q now [] s = (s, [])"
| "collect_qc V q now (r # rs) s =
     (case quorum_value (e_precommits s) r q of
        None \<Rightarrow> collect_qc V q now rs s
      | Some (h, votes) \<Rightarrow>
          (if h = NIL_HASH then collect_qc V q now rs s
           else case grace_decision now r h (length votes) s of
               KeepWaiting w \<Rightarrow> (s\<lparr>e_qc_grace_wait := w\<rparr>, [])
             | CloseNow c \<Rightarrow>
                 (case build_qc (en_crypto V) votes (e_domain s) (e_set s) (e_height s) r h of
                    Inr qc \<Rightarrow>
                      (s\<lparr>e_pending_qc := Some qc, e_qc_grace_wait := None, e_last_qc_close := c\<rparr>, [])
                  | Inl e \<Rightarrow>
                      (let (s', out) = collect_qc V q now rs s
                       in (s', Dropped ''QC kurulamadi'' # out)))))"

definition qc_stage :: "engine_env \<Rightarrow> nat \<Rightarrow> nat \<Rightarrow> engine \<Rightarrow> engine \<times> engine_output list" where
  "qc_stage V q now s =
     (if e_pending_qc s = None then collect_qc V q now (sort (map fst (e_precommits s))) s
      else (s, []))"

definition commit :: "engine_env \<Rightarrow> proposal \<Rightarrow> quorum_certificate \<Rightarrow> nat \<Rightarrow> engine \<Rightarrow>
    engine \<times> engine_output list" where
  "commit V p qc now s =
     (s\<lparr>e_tip := \<lparr>tip_height = e_height s, tip_hash = pr_block_hash (en_crypto V) p,
                  tip_qc = Some qc, tip_timestamp_ms = h_timestamp_ms (sh_header (pr_signed p))\<rparr>,
        e_tip_set := e_set s, e_tip_committed_at_ms := now,
        e_stats := (e_stats s)\<lparr>st_commits_total := st_commits_total (e_stats s) + 1,
                               st_last_commit_round := q_round qc\<rparr>,
        e_qc_grace_wait := None, e_height := e_height s + 1, e_round := 0, e_step := Propose,
        e_round_active := False, e_locked := None, e_valid := None, e_valid_proposal := None,
        e_proposals := [], e_verified := [], e_prevotes := [], e_precommits := [],
        e_pending_qc := None, e_evidence_seen := [], e_propose_ready_at := None,
        e_propose_deadline := None, e_prevote_deadline := None, e_precommit_deadline := None\<rparr>,
      [Commit \<lparr>cb_proposal = p, cb_qc = qc, cb_rounds_used = e_round s + 1,
               cb_qc_close = e_last_qc_close s\<rparr>])"

text \<open>The body of the block a certificate names: a stored proposal, or else the valid one.\<close>

definition body_for :: "engine_env \<Rightarrow> hash \<Rightarrow> engine \<Rightarrow> proposal option" where
  "body_for V bh s =
     (case List.find (\<lambda>p. pr_block_hash (en_crypto V) p = bh) (en_values V (e_proposals s)) of
        Some p \<Rightarrow> Some p
      | None \<Rightarrow>
          (case e_valid_proposal s of
             Some p \<Rightarrow> if pr_block_hash (en_crypto V) p = bh then Some p else None
           | None \<Rightarrow> None))"

text \<open>The commit stage: \<open>Some\<close> when \<open>try_advance\<close> returns here.\<close>

definition commit_stage ::
  "engine_env \<Rightarrow> nat \<Rightarrow> engine \<Rightarrow> (engine \<times> engine_output list) option" where
  "commit_stage V now s =
     (case e_pending_qc s of None \<Rightarrow> None
      | Some qc \<Rightarrow>
          (case body_for V (q_block_hash qc) s of None \<Rightarrow> None
           | Some p \<Rightarrow>
               (if map_of (e_verified s) (q_block_hash qc) \<noteq> Some True
                then (case check_proposal V p now s of
                        Inr _ \<Rightarrow>
                          Some (commit V p qc now
                            (s\<lparr>e_verified := AList.update (q_block_hash qc) True (e_verified s)\<rparr>))
                      | Inl e \<Rightarrow>
                          Some (s\<lparr>e_proposals :=
                                    filter (\<lambda>(_, p'). pr_block_hash (en_crypto V) p' \<noteq> q_block_hash qc)
                                      (e_proposals s)\<rparr>,
                                [Dropped ''QC govdesi dogrulanamadi, kopya atildi'']))
                else Some (commit V p qc now s))))"

definition nil_stage :: "caller \<Rightarrow> nat \<Rightarrow> nat \<Rightarrow> engine \<Rightarrow> engine_result" where
  "nil_stage rec q round s =
     (if e_pending_qc s = None \<and> e_step s = SPrecommit
      then (case quorum_value (e_precommits s) round q of
              Some (h, _) \<Rightarrow>
                if h = NIL_HASH then rec (CStartRound (round + 1) (Some NilQuorum)) s else emit [] s
            | None \<Rightarrow> emit [] s)
      else emit [] s)"

definition try_advance_body ::
  "engine_env \<Rightarrow> caller \<Rightarrow> nat \<Rightarrow> engine \<Rightarrow> engine_result" where
  "try_advance_body V rec now s =
     (if \<not> e_round_active s then emit [] s
      else case vs_quorum (e_set s) of
          Inl e \<Rightarrow> emit [Dropped ''quorum hesaplanamadi''] s
        | Inr q \<Rightarrow>
            (let round = e_round s in
             and_then (prevote_stage V rec q round s)
               (\<lambda>s. let (s1, out1) = qc_stage V q now s in
                  and_then (emit out1 s1)
                    (\<lambda>s. case commit_stage V now s of
                        Some (s2, out2) \<Rightarrow> emit out2 s2
                      | None \<Rightarrow> nil_stage rec q round s))))"

section \<open>Tying the knot\<close>

definition body :: "engine_env \<Rightarrow> nat \<Rightarrow> caller \<Rightarrow> call \<Rightarrow> engine \<Rightarrow> engine_result" where
  "body V now rec c s =
     (case c of
        CStartRound round reason \<Rightarrow> start_round_body rec round now reason s
      | COnProposal p \<Rightarrow> on_proposal_body V rec p now s
      | CCastVote phase bh \<Rightarrow> cast_vote_body V rec phase bh now s
      | COnVote v \<Rightarrow> on_vote_body V rec v s
      | CTryAdvance \<Rightarrow> try_advance_body V rec now s)"

fun exec :: "engine_env \<Rightarrow> nat \<Rightarrow> nat \<Rightarrow> call \<Rightarrow> engine \<Rightarrow> engine_result" where
  "exec V now 0 c s = None"
| "exec V now (Suc k) c s = body V now (exec V now k) c s"

definition CALL_DEPTH :: nat where
  "CALL_DEPTH = 20"

definition run_call :: "engine_env \<Rightarrow> nat \<Rightarrow> call \<Rightarrow> engine \<Rightarrow> engine_result" where
  "run_call V now c s = exec V now CALL_DEPTH c s"

section \<open>The host's interface\<close>

definition on_heartbeat :: "engine_env \<Rightarrow> heartbeat \<Rightarrow> nat \<Rightarrow> engine \<Rightarrow> engine \<times> engine_output list" where
  "on_heartbeat V hb now s =
     (if hb_round hb \<noteq> e_round s then (s, [Dropped ''heartbeat round''])
      else if hb_validator_idx hb \<noteq> proposer_for s (e_height s) (e_round s)
        then (s, [Dropped ''heartbeat lider olmayan validator dan''])
      else if \<not> is_ok (verify_heartbeat (en_crypto V) hb (e_domain s) (e_set s))
        then (s, [Dropped ''heartbeat imzasi''])
      else if sat_add u64_max now (p_max_clock_skew_ms (e_params s)) < hb_timestamp_ms hb
        then (s, [Dropped ''heartbeat zaman damgasi gelecekte''])
      else if e_step s \<noteq> Propose then (s, [Dropped ''heartbeat: oneri adimi gecti''])
      else if sat_add u64_max (e_tip_committed_at_ms s)
                (sat_mul u64_max (p_idle_block_interval_s (e_params s)) 1000) \<le> now
        then (s, [Dropped ''heartbeat: bos blok vadesi doldu, timer sifirlanmadi''])
      else (s\<lparr>e_propose_deadline := Some (sat_add u64_max now (t_propose s (e_round s)))\<rparr>, []))"

definition handle :: "engine_env \<Rightarrow> nat \<Rightarrow> message \<Rightarrow> engine \<Rightarrow> engine_result" where
  "handle V now m s =
     (if msg_height m < e_height s then emit [Dropped ''gecmis yukseklik''] s
      else if e_height s < msg_height m \<or> \<not> e_round_active s
        then (let (s', o1) = buffer_msg (msg_height m) m s in emit [o1] s')
      else case m of
          MProposal p \<Rightarrow> run_call V now (COnProposal p) s
        | MVote v \<Rightarrow> run_call V now (COnVote v) s
        | MHeartbeat h \<Rightarrow> (let (s', out) = on_heartbeat V h now s in emit out s')
        | MShadowVote _ \<Rightarrow>
            emit [Dropped ''shadow oy motor tarafindan islenmez (surucu katmaninda)''] s)"

fun handle_all :: "engine_env \<Rightarrow> nat \<Rightarrow> message list \<Rightarrow> engine \<Rightarrow> engine_result" where
  "handle_all V now [] s = emit [] s"
| "handle_all V now (m # ms) s = and_then (handle V now m s) (handle_all V now ms)"

definition start :: "engine_env \<Rightarrow> nat \<Rightarrow> engine \<Rightarrow> engine_result" where
  "start V now s0 =
     (let s1 = (if e_tip_committed_at_ms s0 = 0 then s0\<lparr>e_tip_committed_at_ms := now\<rparr> else s0) in
      and_then
        (if \<not> e_round_active s1 then run_call V now (CStartRound 0 None) (s1\<lparr>e_round_active := True\<rparr>)
         else emit [] s1)
        (\<lambda>s. let replay = (case map_of (e_buffered s) (e_height s) of None \<Rightarrow> [] | Some q \<Rightarrow> q)
              in handle_all V now replay
                   (s\<lparr>e_buffered := filter (\<lambda>(h, _). e_height s < h)
                                     (AList.delete (e_height s) (e_buffered s))\<rparr>)))"

definition due :: "nat option \<Rightarrow> nat \<Rightarrow> bool" where
  "due d now = (case d of None \<Rightarrow> False | Some at \<Rightarrow> at \<le> now)"

definition count_timeout :: "engine \<Rightarrow> engine" where
  "count_timeout s = s\<lparr>e_stats := (e_stats s)\<lparr>st_timeouts_total := st_timeouts_total (e_stats s) + 1\<rparr>\<rparr>"

text \<open>The four timers of \<open>tick\<close>, one block of the source each.\<close>

definition tick_ready :: "nat \<Rightarrow> engine \<Rightarrow> engine \<times> engine_output list" where
  "tick_ready now s =
     (if due (e_propose_ready_at s) now
      then (let s1 = s\<lparr>e_propose_ready_at := None\<rparr> in
            if is_proposer s1 \<and> e_step s1 = Propose \<and> map_of (e_proposals s1) (e_round s1) = None
            then (s1, [NeedProposal (e_height s1) (e_round s1)]) else (s1, []))
      else (s, []))"

definition tick_propose :: "engine_env \<Rightarrow> nat \<Rightarrow> engine \<Rightarrow> engine_result" where
  "tick_propose V now s =
     (if due (e_propose_deadline s) now
      then (let s1 = s\<lparr>e_propose_deadline := None, e_propose_ready_at := None\<rparr> in
            if e_step s1 = Propose
            then run_call V now (CCastVote Prevote NIL_HASH) ((count_timeout s1)\<lparr>e_step := SPrevote\<rparr>)
            else emit [] s1)
      else emit [] s)"

definition tick_prevote :: "engine_env \<Rightarrow> nat \<Rightarrow> engine \<Rightarrow> engine_result" where
  "tick_prevote V now s =
     (if due (e_prevote_deadline s) now
      then (let s1 = s\<lparr>e_prevote_deadline := None\<rparr> in
            if e_step s1 = SPrevote
            then run_call V now (CCastVote Precommit NIL_HASH) ((count_timeout s1)\<lparr>e_step := SPrecommit\<rparr>)
            else emit [] s1)
      else emit [] s)"

definition tick_precommit :: "engine_env \<Rightarrow> nat \<Rightarrow> engine \<Rightarrow> engine_result" where
  "tick_precommit V now s =
     (if due (e_precommit_deadline s) now
      then (let s1 = s\<lparr>e_precommit_deadline := None\<rparr> in
            if e_step s1 = SPrecommit \<and> e_pending_qc s1 = None \<and> e_qc_grace_wait s1 = None
            then run_call V now (CStartRound (e_round s1 + 1) (Some Timeout)) (count_timeout s1)
            else run_call V now CTryAdvance s1)
      else run_call V now CTryAdvance s)"

definition tick :: "engine_env \<Rightarrow> nat \<Rightarrow> engine \<Rightarrow> engine_result" where
  "tick V now s =
     (if \<not> e_round_active s then emit [] s
      else (let (s1, out1) = tick_ready now s in
            and_then (emit out1 s1)
              (\<lambda>s. and_then (tick_propose V now s)
                (\<lambda>s. and_then (tick_prevote V now s) (tick_precommit V now)))))"

subsection \<open>Proposing\<close>

definition proposal_error :: "string \<Rightarrow> engine \<Rightarrow> (engine \<times> engine_output list result) option" where
  "proposal_error msg s = Some (s, Inl (Other msg))"

definition publish_proposal ::
  "engine_env \<Rightarrow> nat \<Rightarrow> proposal \<Rightarrow> engine \<Rightarrow> (engine \<times> engine_output list result) option" where
  "publish_proposal V now p s =
     (case run_call V now (COnProposal p) s of
        None \<Rightarrow> None
      | Some (s', out) \<Rightarrow> Some (s', Inr (Broadcast (MProposal p) # out)))"

text \<open>Re-proposing the valid value: the same header in a new envelope.\<close>

definition repropose ::
  "engine_env \<Rightarrow> nat \<Rightarrow> node_identity \<Rightarrow> nat \<Rightarrow> proposal \<Rightarrow> engine \<Rightarrow>
   (engine \<times> engine_output list result) option" where
  "repropose V now i vr vp s =
     (let p = vp\<lparr>pr_round := e_round s, pr_valid_round := Some vr\<rparr>;
          (ok, s1) = guard_sign V (e_height s) (e_round s) 0 (pr_block_hash (en_crypto V) p) s
      in if \<not> ok then proposal_error ''anti-equivocation: bu (h,r) icin propose reddedildi'' s1
         else publish_proposal V now
           (p\<lparr>pr_sig := sign_digest (en_crypto V) (id_keypair i)
                (envelope_digest (en_crypto V) (e_domain s1) (vs_epoch (e_set s1)) p)\<rparr>) s1)"

definition draft_header ::
  "engine_env \<Rightarrow> nat \<Rightarrow> node_identity \<Rightarrow> transaction list \<Rightarrow> engine \<Rightarrow> block_header" where
  "draft_header V now i txs s =
    \<lparr>h_version = HEADER_VERSION, h_number = e_height s, h_parent_hash = tip_hash (e_tip s),
     h_state_root = NIL_HASH,
     h_timestamp_ms = max now (sat_add u64_max (tip_timestamp_ms (e_tip s)) 1),
     h_tx_root = compute_tx_root (en_crypto V) (map tx_id txs),
     h_tx_count = as_u32 (length txs), h_body_bytes = as_u32 (en_body_bytes V txs),
     h_epoch = vs_epoch (e_set s), h_validator_set_hash = vs_hash (keccak (en_crypto V)) (e_set s),
     h_round = e_round s, h_proposer_idx = id_idx i, h_max_ruleset = e_local_max_ruleset s,
     h_last_qc = tip_qc (e_tip s)\<rparr>"

definition propose_new ::
  "engine_env \<Rightarrow> nat \<Rightarrow> node_identity \<Rightarrow> transaction list \<Rightarrow> bridge_proposal list \<Rightarrow>
   shadow_vote_attestation list \<Rightarrow> engine \<Rightarrow> (engine \<times> engine_output list result) option" where
  "propose_new V now i txs bridge shadow s =
     (let body_bytes = en_body_bytes V txs in
      if p_max_block_bytes (e_params s) < body_bytes
        then proposal_error ''oneri govdesi > max_block_bytes'' s
      else if u32_max < length txs then proposal_error ''tx sayisi u32 sinirini asiyor'' s
      else (let draft = draft_header V now i txs s in
        case en_simulate V draft txs bridge shadow of
          Inl e \<Rightarrow> Some (s, Inl e)
        | Inr root \<Rightarrow>
            (let h = draft\<lparr>h_state_root := root\<rparr> in
             case header_validate_structure h (e_params s) of
               Inl e \<Rightarrow> Some (s, Inl e)
             | Inr _ \<Rightarrow>
                 (let (ok, s1) = guard_sign V (e_height s) (e_round s) 0 (h_hash (en_crypto V) h) s in
                  if \<not> ok
                  then proposal_error ''anti-equivocation: bu (h,r) icin propose reddedildi'' s1
                  else (let p0 = \<lparr>pr_signed = sign_header (en_crypto V) (id_keypair i) (e_domain s1) h,
                                  pr_txs = txs, pr_bridge_proposals = bridge,
                                  pr_shadow_votes = shadow, pr_round = e_round s1,
                                  pr_valid_round = None, pr_sig = []\<rparr>;
                            p = p0\<lparr>pr_sig := sign_digest (en_crypto V) (id_keypair i)
                                  (envelope_digest (en_crypto V) (e_domain s1) (vs_epoch (e_set s1)) p0)\<rparr>
                        in publish_proposal V now p
                             (s1\<lparr>e_verified := AList.update (pr_block_hash (en_crypto V) p) True
                                               (e_verified s1)\<rparr>))))))"

definition propose ::
  "engine_env \<Rightarrow> nat \<Rightarrow> transaction list \<Rightarrow> bridge_proposal list \<Rightarrow>
   shadow_vote_attestation list \<Rightarrow> engine \<Rightarrow> (engine \<times> engine_output list result) option" where
  "propose V now txs bridge shadow s =
     (case e_identity s of
        None \<Rightarrow> proposal_error ''gozlemci oneri yapamaz'' s
      | Some i \<Rightarrow>
          (if \<not> e_round_active s \<or> \<not> is_proposer s \<or> e_step s \<noteq> Propose
             then proposal_error ''bu node su an oneremez (proposer degil / adim gecti)'' s
           else if map_of (e_proposals s) (e_round s) \<noteq> None
             then proposal_error ''bu round icin zaten oneri var (double-propose engellendi)'' s
           else (case (e_valid s, e_valid_proposal s) of
               (Some (vr, _), Some vp) \<Rightarrow> repropose V now i vr vp s
             | _ \<Rightarrow> propose_new V now i txs bridge shadow s)))"

definition send_heartbeat :: "engine_env \<Rightarrow> nat \<Rightarrow> engine \<Rightarrow> (engine \<times> engine_output list) result" where
  "send_heartbeat V now s =
     (case e_identity s of
        None \<Rightarrow> Inl (Other ''gozlemci heartbeat gonderemez'')
      | Some i \<Rightarrow>
          (if \<not> e_round_active s \<or> \<not> is_proposer s \<or> e_step s \<noteq> Propose
           then Inl (Other ''heartbeat yalniz Propose adimindaki lider tarafindan gonderilir'')
           else (let hb = sign_heartbeat (en_crypto V) (id_keypair i) (e_domain s) (vs_epoch (e_set s))
                       \<lparr>hb_height = e_height s, hb_round = e_round s, hb_timestamp_ms = now,
                        hb_validator_idx = id_idx i, hb_sig = []\<rparr>;
                     (s', out) = on_heartbeat V hb now s
                 in Inr (s', Broadcast (MHeartbeat hb) # out))))"

end
