(* ===== verification/EngineFacts.thy ===== *)
theory EngineFacts
  imports Engine
begin

text \<open>
  Facts the engine's proofs share: sequencing, what the bookkeeping helpers leave alone, vote books
  and tallies, and that a larger bound on the depth of calls never changes a result.
\<close>

named_theorems engine_core \<open>helpers that change bookkeeping fields only\<close>

section \<open>Sequencing\<close>

lemma emit_Some [simp]: "emit out s = Some (s', out') \<longleftrightarrow> s' = s \<and> out' = out"
  by (auto simp: emit_def)

lemma emit_None [simp]: "emit out s \<noteq> None"
  by (simp add: emit_def)

lemma and_then_emit:
  "and_then (emit out s) k = (case k s of None \<Rightarrow> None | Some (s', o') \<Rightarrow> Some (s', out @ o'))"
  by (simp add: and_then_def emit_def)

lemma and_then_Some:
  "and_then m k = Some (s', out) \<longleftrightarrow>
     (\<exists>s1 o1 o2. m = Some (s1, o1) \<and> k s1 = Some (s', o2) \<and> out = o1 @ o2)"
  by (auto simp: and_then_def split: option.splits)

lemma and_then_SomeE:
  assumes "and_then m k = Some (s', out)"
  obtains s1 o1 o2 where "m = Some (s1, o1)" "k s1 = Some (s', o2)" "out = o1 @ o2"
  using assms by (auto simp: and_then_Some)

lemma emit_eq: "emit out s = Some (s, out)"
  by (simp add: emit_def)

section \<open>The bookkeeping fields\<close>

text \<open>
  Counters, timers, evidence and the double-sign file, erased: the rest is the protocol
  state.
\<close>

definition core :: "engine \<Rightarrow> engine" where
  "core s =
     s\<lparr>e_stats := initial_stats, e_propose_ready_at := None, e_propose_deadline := None,
       e_prevote_deadline := None, e_precommit_deadline := None, e_qc_grace_wait := None,
       e_evidence_seen := [], e_double_sign := None, e_last_qc_close := Immediate,
       e_tip_committed_at_ms := 0, e_qc_grace_ms := 0\<rparr>"

lemma core_sel:
  "e_domain (core s) = e_domain s"
  "e_params (core s) = e_params s"
  "e_identity (core s) = e_identity s"
  "e_set (core s) = e_set s"
  "e_tip_set (core s) = e_tip_set s"
  "e_tip (core s) = e_tip s"
  "e_height (core s) = e_height s"
  "e_round (core s) = e_round s"
  "e_step (core s) = e_step s"
  "e_round_active (core s) = e_round_active s"
  "e_locked (core s) = e_locked s"
  "e_valid (core s) = e_valid s"
  "e_valid_proposal (core s) = e_valid_proposal s"
  "e_proposals (core s) = e_proposals s"
  "e_verified (core s) = e_verified s"
  "e_prevotes (core s) = e_prevotes s"
  "e_precommits (core s) = e_precommits s"
  "e_pending_qc (core s) = e_pending_qc s"
  "e_local_max_ruleset (core s) = e_local_max_ruleset s"
  "e_buffered (core s) = e_buffered s"
  by (simp_all add: core_def)

lemma core_fields:
  assumes "core s' = core s"
  shows "e_domain s' = e_domain s"
    "e_params s' = e_params s"
    "e_identity s' = e_identity s"
    "e_set s' = e_set s"
    "e_tip_set s' = e_tip_set s"
    "e_tip s' = e_tip s"
    "e_height s' = e_height s"
    "e_round s' = e_round s"
    "e_step s' = e_step s"
    "e_round_active s' = e_round_active s"
    "e_locked s' = e_locked s"
    "e_valid s' = e_valid s"
    "e_valid_proposal s' = e_valid_proposal s"
    "e_proposals s' = e_proposals s"
    "e_verified s' = e_verified s"
    "e_prevotes s' = e_prevotes s"
    "e_precommits s' = e_precommits s"
    "e_pending_qc s' = e_pending_qc s"
    "e_local_max_ruleset s' = e_local_max_ruleset s"
    "e_buffered s' = e_buffered s"
  using arg_cong [OF assms, of e_domain]
    arg_cong [OF assms, of e_params]
    arg_cong [OF assms, of e_identity]
    arg_cong [OF assms, of e_set]
    arg_cong [OF assms, of e_tip_set]
    arg_cong [OF assms, of e_tip]
    arg_cong [OF assms, of e_height]
    arg_cong [OF assms, of e_round]
    arg_cong [OF assms, of e_step]
    arg_cong [OF assms, of e_round_active]
    arg_cong [OF assms, of e_locked]
    arg_cong [OF assms, of e_valid]
    arg_cong [OF assms, of e_valid_proposal]
    arg_cong [OF assms, of e_proposals]
    arg_cong [OF assms, of e_verified]
    arg_cong [OF assms, of e_prevotes]
    arg_cong [OF assms, of e_precommits]
    arg_cong [OF assms, of e_pending_qc]
    arg_cong [OF assms, of e_local_max_ruleset]
    arg_cong [OF assms, of e_buffered]
  by (simp_all only: core_sel)

lemma core_note_view_change [engine_core]: "core (fst (note_view_change r why s)) = core s"
  by (auto simp: note_view_change_def core_def Let_def split: option.splits)

lemma core_ask_proposal [engine_core]: "core (fst (ask_proposal r now s)) = core s"
  by (auto simp: ask_proposal_def core_def)

lemma core_arm_timer [engine_core]: "core (arm_timer ph now s) = core s"
  by (auto simp: arm_timer_def core_def Let_def split: vote_phase.splits)

lemma core_guard_sign [engine_core]: "core (snd (guard_sign V h r st bh s)) = core s"
  by (auto simp: guard_sign_def core_def Let_def split: option.splits prod.splits)

lemma core_double_vote [engine_core]: "core (fst (double_vote a b s)) = core s"
  by (auto simp: double_vote_def core_def Let_def)

lemma core_double_propose [engine_core]: "core (fst (double_propose_evidence a b s)) = core s"
  by (auto simp: double_propose_evidence_def core_def Let_def)

lemma core_updates [engine_core]:
  "core (s\<lparr>e_qc_grace_wait := w\<rparr>) = core s" "core (s\<lparr>e_prevote_deadline := d\<rparr>) = core s"
  "core (s\<lparr>e_precommit_deadline := d\<rparr>) = core s" "core (s\<lparr>e_propose_deadline := d\<rparr>) = core s"
  "core (s\<lparr>e_propose_ready_at := d\<rparr>) = core s" "core (count_timeout s) = core s"
  "core (s\<lparr>e_tip_committed_at_ms := at\<rparr>) = core s"
  "core (s\<lparr>e_qc_grace_ms := g\<rparr>) = core s"
  by (simp_all add: core_def count_timeout_def)

lemma enter_round_fields [simp]:
  "e_domain (enter_round r now s) = e_domain s" "e_params (enter_round r now s) = e_params s"
  "e_identity (enter_round r now s) = e_identity s" "e_set (enter_round r now s) = e_set s"
  "e_height (enter_round r now s) = e_height s" "e_round (enter_round r now s) = r"
  "e_step (enter_round r now s) = Propose"
  "e_round_active (enter_round r now s) = e_round_active s"
  "e_prevotes (enter_round r now s) = e_prevotes s"
  "e_precommits (enter_round r now s) = e_precommits s"
  "e_proposals (enter_round r now s) = e_proposals s"
  by (simp_all add: enter_round_def)

section \<open>Vote books\<close>

definition voters :: "engine \<Rightarrow> nat \<Rightarrow> nat set" where
  "voters s r = fst ` set (slot (e_prevotes s) r) \<union> fst ` set (slot (e_precommits s) r)"

lemma finite_voters [simp]: "finite (voters s r)"
  by (simp add: voters_def)

lemma distinct_voters_at_card: "distinct_voters_at s r = card (voters s r)"
  by (simp add: distinct_voters_at_def voters_def length_remdups_card_conv del: length_remdups_concat)

lemma voters_cong:
  "e_prevotes s' = e_prevotes s \<Longrightarrow> e_precommits s' = e_precommits s \<Longrightarrow> voters s' r = voters s r"
  by (simp add: voters_def)

lemma slot_update: "slot (AList.update r m book) r' = (if r' = r then m else slot book r')"
  by (simp add: slot_def)

lemma slot_Nil [simp]: "slot [] r = []"
  by (simp add: slot_def)

definition slots_distinct :: "vote_book \<Rightarrow> bool" where
  "slots_distinct book \<longleftrightarrow> (\<forall>r. distinct (map fst (slot book r)))"

lemma slots_distinct_Nil [simp]: "slots_distinct []"
  by (simp add: slots_distinct_def)

lemma record_vote_books:
  "book_of ph (record_vote v s) =
     (if ph = v_phase v
      then AList.update (v_round v)
             (AList.update (v_validator_idx v) v (slot (book_of ph s) (v_round v))) (book_of ph s)
      else book_of ph s)"
  by (cases "v_phase v"; cases ph) (simp_all add: record_vote_def set_book_def book_of_def Let_def)

lemma record_vote_fields [simp]:
  "e_set (record_vote v s) = e_set s" "e_round (record_vote v s) = e_round s"
  "e_step (record_vote v s) = e_step s" "e_height (record_vote v s) = e_height s"
  "e_round_active (record_vote v s) = e_round_active s"
  "e_identity (record_vote v s) = e_identity s" "e_domain (record_vote v s) = e_domain s"
  "e_params (record_vote v s) = e_params s" "e_tip (record_vote v s) = e_tip s"
  "e_tip_set (record_vote v s) = e_tip_set s" "e_locked (record_vote v s) = e_locked s"
  "e_valid (record_vote v s) = e_valid s" "e_valid_proposal (record_vote v s) = e_valid_proposal s"
  "e_proposals (record_vote v s) = e_proposals s" "e_verified (record_vote v s) = e_verified s"
  "e_pending_qc (record_vote v s) = e_pending_qc s" "e_buffered (record_vote v s) = e_buffered s"
  by (cases "v_phase v"; simp add: record_vote_def set_book_def Let_def)+

lemma set_keys_update: "fst ` set (AList.update k v al) = insert k (fst ` set al)"
  by (simp add: dom_map_of_conv_image_fst [symmetric])

lemma voters_books: "voters s r = fst ` set (slot (book_of Prevote s) r) \<union> fst ` set (slot (book_of Precommit s) r)"
  by (simp add: voters_def book_of_def)

lemma voters_record_vote:
  "voters (record_vote v s) r = (if r = v_round v then insert (v_validator_idx v) (voters s r) else voters s r)"
  by (cases "v_phase v") (simp_all add: voters_books record_vote_books slot_update set_keys_update)

lemma record_vote_distinct:
  assumes "slots_distinct (book_of ph s)"
  shows "slots_distinct (book_of ph (record_vote v s))"
  using assms by (auto simp: slots_distinct_def record_vote_books slot_update intro!: AList.distinct_update)

section \<open>Tallies\<close>

lemma quorum_value_Some:
  assumes "quorum_value book r q = Some (h, vs)"
  shows "vs = filter (\<lambda>v. v_block_hash v = h) (map snd (slot book r))" "q \<le> length vs"
proof -
  let ?hits = "filter (\<lambda>h. q \<le> length (filter (\<lambda>v. v_block_hash v = h) (map snd (slot book r))))
    (sort (remdups (map v_block_hash (map snd (slot book r)))))"
  from assms obtain rest where hits: "?hits = h # rest"
    and vs: "vs = filter (\<lambda>v. v_block_hash v = h) (map snd (slot book r))"
    by (auto simp: quorum_value_def Let_def split: list.splits)
  show "vs = filter (\<lambda>v. v_block_hash v = h) (map snd (slot book r))" by (rule vs)
  have "h \<in> set ?hits" unfolding hits by simp
  then show "q \<le> length vs" unfolding vs by simp
qed

lemma quorum_value_voters:
  assumes "quorum_value book r q = Some (h, vs)" "slots_distinct book"
  shows "q \<le> card (fst ` set (slot book r))"
proof -
  have "length vs \<le> length (slot book r)"
    unfolding quorum_value_Some(1) [OF assms(1)] using length_filter_le [of _ "map snd (slot book r)"] by simp
  then have "q \<le> length (slot book r)"
    using quorum_value_Some(2) [OF assms(1)] by simp
  moreover have "distinct (map fst (slot book r))"
    using assms(2) by (simp add: slots_distinct_def)
  then have "card (set (map fst (slot book r))) = length (map fst (slot book r))"
    by (rule distinct_card)
  ultimately show ?thesis by simp
qed

text \<open>With more than half of the voters needed, at most one value has a quorum.\<close>

lemma quorum_value_count:
  assumes "quorum_value book r q = Some (h, vs)"
  shows "q \<le> length (filter (\<lambda>(_, v). v_block_hash v = h) (slot book r))"
proof -
  have "length vs = length (filter (\<lambda>(_, v). v_block_hash v = h) (slot book r))"
    using quorum_value_Some(1) [OF assms] by (simp add: filter_map o_def split_def)
  with quorum_value_Some(2) [OF assms] show ?thesis by simp
qed

section \<open>A larger bound changes nothing\<close>

definition le_res :: "engine_result \<Rightarrow> engine_result \<Rightarrow> bool" where
  "le_res a b \<longleftrightarrow> (\<forall>x. a = Some x \<longrightarrow> b = Some x)"

definition extends :: "caller \<Rightarrow> caller \<Rightarrow> bool" where
  "extends rec rec' \<longleftrightarrow> (\<forall>c s. le_res (rec c s) (rec' c s))"

lemma le_res_refl [simp, intro!]: "le_res a a"
  by (simp add: le_res_def)

lemma extends_le: "extends rec rec' \<Longrightarrow> le_res (rec c s) (rec' c s)"
  by (simp add: extends_def)

lemma and_then_le:
  assumes "le_res m m'" "\<And>s. le_res (k s) (k' s)"
  shows "le_res (and_then m k) (and_then m' k')"
  unfolding le_res_def
proof (intro allI impI)
  fix x
  assume x: "and_then m k = Some x"
  obtain s' out where "x = (s', out)" by (cases x)
  with x obtain s1 o1 o2 where "m = Some (s1, o1)" "k s1 = Some (s', o2)" "out = o1 @ o2"
    by (auto elim: and_then_SomeE)
  then have "m' = Some (s1, o1)" "k' s1 = Some (s', o2)"
    using assms by (auto simp: le_res_def)
  with \<open>x = (s', out)\<close> \<open>out = o1 @ o2\<close> show "and_then m' k' = Some x"
    by (auto simp: and_then_Some)
qed

lemma body_extends:
  assumes "extends rec rec'"
  shows "le_res (body V now rec c s) (body V now rec' c s)"
proof -
  note ext = extends_le [OF assms]
  have round: "le_res (start_round_body rec r now why s) (start_round_body rec' r now why s)" for r why s
    unfolding start_round_body_def Let_def
    by (auto split: prod.split option.split intro!: and_then_le ext)
  have old: "le_res (on_old_proposal V rec p now s) (on_old_proposal V rec' p now s)" for p s
    unfolding on_old_proposal_def Let_def by (auto split: sum.split intro!: ext)
  have current: "le_res (on_current_proposal V rec p now s) (on_current_proposal V rec' p now s)" for p s
    unfolding on_current_proposal_def Let_def by (auto split: option.split intro!: and_then_le ext)
  have proposal: "le_res (on_proposal_body V rec p now s) (on_proposal_body V rec' p now s)" for p s
    unfolding on_proposal_body_def by (auto split: option.split intro!: old current)
  have cast: "le_res (cast_vote_body V rec ph bh now s) (cast_vote_body V rec' ph bh now s)" for ph bh s
    unfolding cast_vote_body_def Let_def
    by (auto split: option.split prod.split intro!: and_then_le ext)
  have vote: "le_res (on_vote_body V rec v s) (on_vote_body V rec' v s)" for v s
    unfolding on_vote_body_def Let_def by (auto split: option.split intro!: ext)
  have pre: "le_res (prevote_stage V rec q r s) (prevote_stage V rec' q r s)" for q r s
    unfolding prevote_stage_def Let_def by (auto split: option.split intro!: ext)
  have nil: "le_res (nil_stage rec q r s) (nil_stage rec' q r s)" for q r s
    unfolding nil_stage_def by (auto split: option.split intro!: ext)
  have adv: "le_res (try_advance_body V rec now s) (try_advance_body V rec' now s)" for s
    unfolding try_advance_body_def Let_def
    by (auto split: sum.split prod.split option.split intro!: and_then_le pre nil)
  show ?thesis
    unfolding body_def using round proposal cast vote adv by (simp split: call.split)
qed

lemma exec_extends: "extends (exec V now k) (exec V now (Suc k))"
proof (induction k)
  case 0
  then show ?case by (simp add: extends_def le_res_def)
next
  case (Suc k)
  then show ?case
    using body_extends unfolding extends_def by simp
qed

lemma exec_mono:
  assumes "k \<le> k'" "exec V now k c s = Some x"
  shows "exec V now k' c s = Some x"
  using assms
proof (induction k' rule: dec_induct)
  case base
  then show ?case by simp
next
  case (step n)
  then show ?case using exec_extends unfolding extends_def le_res_def by blast
qed

end
