(* ===== verification/EngineTermination.thy ===== *)
theory EngineTermination
  imports EngineFacts
begin

text \<open>
  The handlers of the engine return: the depth of calls among them is bounded by a constant,
  whatever the messages. The reason is the round-skip rule: at most f validators have been heard in
  any round above the current one, so a round entered by a view change has too few votes, with the
  node's own, for another quorum, and the chain of calls stops there. The same argument shows that
  rounds only grow (INV-T1, a debug assertion of the source).
\<close>

section \<open>The invariant\<close>

abbreviation tol :: "engine \<Rightarrow> nat" where
  "tol s \<equiv> byzantine_tolerance (vs_len (e_set s))"

definition engine_ok :: "engine \<Rightarrow> bool" where
  "engine_ok s \<longleftrightarrow>
     is_ok (vs_quorum (e_set s)) \<and>
     slots_distinct (e_prevotes s) \<and> slots_distinct (e_precommits s) \<and>
     (\<forall>r > e_round s. card (voters s r) \<le> tol s) \<and>
     (\<not> e_round_active s \<longrightarrow> e_step s = Propose \<and> e_prevotes s = [] \<and> e_precommits s = [])"

text \<open>Few enough voters in the current round for no quorum, even with the node's own vote.\<close>

definition idle :: "engine \<Rightarrow> bool" where
  "idle s \<longleftrightarrow> card (voters s (e_round s)) \<le> tol s + 1"

text \<open>What a call in an idle round does to the round: nothing, or the block is committed.\<close>

definition stays :: "engine \<Rightarrow> engine \<Rightarrow> bool" where
  "stays s s' \<longleftrightarrow> engine_ok s' \<and> idle s' \<and>
     (\<not> e_round_active s' \<or>
      (e_round_active s \<and> e_round s' = e_round s \<and> e_step s' = e_step s))"

lemma quorum_gap: "vs_quorum s = Inr q \<Longrightarrow> byzantine_tolerance (vs_len s) + 1 < q"
proof -
  assume "vs_quorum s = Inr q"
  then have "4 \<le> vs_len s" "q = (2 * vs_len s) div 3 + 1" by (simp_all add: vs_quorum_Inr)
  then show ?thesis unfolding byzantine_tolerance_def by presburger
qed

lemma engine_ok_core:
  assumes "core s' = core s"
  shows "engine_ok s' \<longleftrightarrow> engine_ok s"
  unfolding engine_ok_def voters_def core_fields [OF assms] by (rule refl)

lemma idle_core:
  assumes "core s' = core s"
  shows "idle s' \<longleftrightarrow> idle s"
  unfolding idle_def voters_def core_fields [OF assms] by (rule refl)

text \<open>States that agree on the round and the votes.\<close>

definition same_round :: "engine \<Rightarrow> engine \<Rightarrow> bool" where
  "same_round s s' \<longleftrightarrow>
     e_set s' = e_set s \<and> e_round s' = e_round s \<and> e_round_active s' = e_round_active s \<and>
     e_prevotes s' = e_prevotes s \<and> e_precommits s' = e_precommits s"

lemma same_round_core:
  assumes "core s' = core s"
  shows "same_round s s'"
  unfolding same_round_def core_fields [OF assms] by simp

lemma same_round_refl [simp]: "same_round s s"
  by (simp add: same_round_def)

lemma same_round_trans: "same_round s t \<Longrightarrow> same_round t u \<Longrightarrow> same_round s u"
  by (simp add: same_round_def)

lemma engine_ok_same_round:
  "engine_ok s \<Longrightarrow> same_round s s' \<Longrightarrow> e_step s' = e_step s \<or> e_round_active s' \<Longrightarrow> engine_ok s'"
  by (auto simp: engine_ok_def same_round_def voters_def)

lemma idle_same_round: "idle s \<Longrightarrow> same_round s s' \<Longrightarrow> idle s'"
  by (simp add: idle_def same_round_def voters_def)

lemma idle_no_quorum:
  assumes "engine_ok s" "idle s" "vs_quorum (e_set s) = Inr q"
  shows "quorum_value (e_prevotes s) (e_round s) q = None"
    "quorum_value (e_precommits s) (e_round s) q = None"
proof -
  have few: "card (voters s (e_round s)) < q"
    using assms(2) quorum_gap [OF assms(3)] by (simp add: idle_def)
  have "card (fst ` set (slot (e_prevotes s) (e_round s))) \<le> card (voters s (e_round s))"
    "card (fst ` set (slot (e_precommits s) (e_round s))) \<le> card (voters s (e_round s))"
    by (auto simp: voters_def intro!: card_mono)
  then have "quorum_value book (e_round s) q = None"
    if "book \<in> {e_prevotes s, e_precommits s}" for book
    using that few assms(1) quorum_value_voters [of book "e_round s" q]
    by (cases "quorum_value book (e_round s) q") (auto simp: engine_ok_def)
  then show "quorum_value (e_prevotes s) (e_round s) q = None"
    "quorum_value (e_precommits s) (e_round s) q = None"
    by simp_all
qed

section \<open>Stages that call no handler\<close>

lemma collect_qc_fields:
  assumes "collect_qc V q now rs s = (s', out)"
  shows "same_round s s'" "e_step s' = e_step s" "e_height s' = e_height s"
    "e_proposals s' = e_proposals s" "e_identity s' = e_identity s"
proof -
  have "same_round s s' \<and> e_step s' = e_step s \<and> e_height s' = e_height s \<and>
      e_proposals s' = e_proposals s \<and> e_identity s' = e_identity s"
    using assms
  proof (induction rs arbitrary: s' out)
    case Nil
    then show ?case by simp
  next
    case (Cons r rs)
    then show ?case
      by (auto simp: same_round_def Let_def
          split: option.splits prod.splits if_splits closing.splits sum.splits)
  qed
  then show "same_round s s'" "e_step s' = e_step s" "e_height s' = e_height s"
    "e_proposals s' = e_proposals s" "e_identity s' = e_identity s"
    by blast+
qed

lemma qc_stage_fields:
  assumes "qc_stage V q now s = (s', out)"
  shows "same_round s s'" "e_step s' = e_step s"
  using assms collect_qc_fields by (auto simp: qc_stage_def split: if_splits)

lemma commit_fields:
  "e_round_active (fst (commit V p qc now s)) = False" "e_step (fst (commit V p qc now s)) = Propose"
  "e_prevotes (fst (commit V p qc now s)) = []" "e_precommits (fst (commit V p qc now s)) = []"
  "e_set (fst (commit V p qc now s)) = e_set s" "e_round (fst (commit V p qc now s)) = 0"
  by (simp_all add: commit_def)

lemma commit_ok: "is_ok (vs_quorum (e_set s)) \<Longrightarrow> engine_ok (fst (commit V p qc now s))"
  by (simp add: engine_ok_def commit_fields voters_def)

text \<open>How the commit stage ends: the block is committed, or a body that fails its check is dropped.\<close>

lemma commit_stage_cases:
  assumes "commit_stage V now s = Some (s', out)"
  obtains (commit) qc p vf where "e_pending_qc s = Some qc" "body_for V (q_block_hash qc) s = Some p"
      "map_of (e_verified s) (q_block_hash qc) = Some True \<or> check_proposal V p now s = Inr ()"
      "commit V p qc now (s\<lparr>e_verified := vf\<rparr>) = (s', out)"
  | (drop) qc where "e_pending_qc s = Some qc"
      "s' = s\<lparr>e_proposals := filter (\<lambda>(_, p'). pr_block_hash (en_crypto V) p' \<noteq> q_block_hash qc)
              (e_proposals s)\<rparr>"
      "out = [Dropped ''QC govdesi dogrulanamadi, kopya atildi'']"
proof -
  from assms obtain qc p where q: "e_pending_qc s = Some qc"
    and p: "body_for V (q_block_hash qc) s = Some p"
    by (auto simp: commit_stage_def split: option.splits)
  show ?thesis
  proof (cases "map_of (e_verified s) (q_block_hash qc) = Some True")
    case True
    then have "commit V p qc now (s\<lparr>e_verified := e_verified s\<rparr>) = (s', out)"
      using assms q p by (simp add: commit_stage_def)
    with q p True show ?thesis by (blast intro: commit)
  next
    case False
    show ?thesis
    proof (cases "check_proposal V p now s")
      case (Inl e)
      with assms q p False show ?thesis
        by (auto simp: commit_stage_def intro: drop)
    next
      case (Inr u)
      then have "commit V p qc now (s\<lparr>e_verified := AList.update (q_block_hash qc) True (e_verified s)\<rparr>) =
          (s', out)" "check_proposal V p now s = Inr ()"
        using assms q p False by (simp_all add: commit_stage_def)
      with q p show ?thesis by (blast intro: commit)
    qed
  qed
qed

lemma commit_stage_ok:
  assumes "commit_stage V now s = Some (s', out)" "engine_ok s"
  shows "engine_ok s'" "\<not> e_round_active s' \<or> (same_round s s' \<and> e_step s' = e_step s)"
proof -
  have "engine_ok s' \<and> (\<not> e_round_active s' \<or> (same_round s s' \<and> e_step s' = e_step s))"
    using assms(1)
  proof (cases rule: commit_stage_cases)
    case (commit qc p vf)
    then have s': "s' = fst (commit V p qc now (s\<lparr>e_verified := vf\<rparr>))" by simp
    show ?thesis
      using commit_ok [of "s\<lparr>e_verified := vf\<rparr>" V p qc now] assms(2) s'
      by (simp add: commit_fields engine_ok_def)
  next
    case (drop qc)
    then have "same_round s s'" "e_step s' = e_step s" by (simp_all add: same_round_def)
    then show ?thesis using engine_ok_same_round [OF assms(2)] by blast
  qed
  then show "engine_ok s'" "\<not> e_round_active s' \<or> (same_round s s' \<and> e_step s' = e_step s)"
    by blast+
qed

section \<open>Calls that return\<close>

definition returns ::
  "engine_env \<Rightarrow> nat \<Rightarrow> nat \<Rightarrow> call \<Rightarrow> engine \<Rightarrow> (engine \<Rightarrow> bool) \<Rightarrow> bool" where
  "returns V now n c s P \<longleftrightarrow> (\<exists>s' out. exec V now n c s = Some (s', out) \<and> P s')"

lemma returns_mono: "returns V now n c s P \<Longrightarrow> n \<le> m \<Longrightarrow> returns V now m c s P"
  unfolding returns_def using exec_mono by blast

lemma returns_weaken: "returns V now n c s P \<Longrightarrow> (\<And>s'. P s' \<Longrightarrow> Q s') \<Longrightarrow> returns V now n c s Q"
  unfolding returns_def by blast

lemma returns_exec: "returns V now n c s P \<Longrightarrow> exec V now m c s = Some (s', out) \<Longrightarrow> P s'"
  unfolding returns_def
  using exec_mono [of n "max n m" V now c s] exec_mono [of m "max n m" V now c s] by force

definition yields :: "engine_result \<Rightarrow> (engine \<Rightarrow> bool) \<Rightarrow> bool" where
  "yields m P \<longleftrightarrow> (\<exists>s' out. m = Some (s', out) \<and> P s')"

lemma yields_emit [simp]: "yields (emit out s) P \<longleftrightarrow> P s"
  by (auto simp: yields_def emit_def)

lemma yields_and_then:
  "yields m P \<Longrightarrow> (\<And>s. P s \<Longrightarrow> yields (k s) Q) \<Longrightarrow> yields (and_then m k) Q"
  by (fastforce simp: yields_def and_then_Some)

lemma returns_yields: "returns V now n c s P \<longleftrightarrow> yields (exec V now n c s) P"
  by (simp add: returns_def yields_def)

lemma yields_weaken: "yields m P \<Longrightarrow> (\<And>s. P s \<Longrightarrow> Q s) \<Longrightarrow> yields m Q"
  by (auto simp: yields_def)

text \<open>What \<open>try_advance\<close> does after its prevote stage.\<close>

definition advance_tail ::
  "engine_env \<Rightarrow> caller \<Rightarrow> nat \<Rightarrow> nat \<Rightarrow> nat \<Rightarrow> engine \<Rightarrow> engine_result" where
  "advance_tail V rec now q round s =
     (let (s1, out1) = qc_stage V q now s in
      and_then (emit out1 s1)
        (\<lambda>s. case commit_stage V now s of
            Some (s2, out2) \<Rightarrow> emit out2 s2 | None \<Rightarrow> nil_stage rec q round s))"

lemma try_advance_tail:
  "try_advance_body V rec now s =
     (if \<not> e_round_active s then emit [] s
      else case vs_quorum (e_set s) of
          Inl e \<Rightarrow> emit [Dropped ''quorum hesaplanamadi''] s
        | Inr q \<Rightarrow> and_then (prevote_stage V rec q (e_round s) s) (advance_tail V rec now q (e_round s)))"
  unfolding try_advance_body_def advance_tail_def Let_def by (rule refl)

lemma advance_tail_yields:
  assumes ok: "engine_ok s"
    and keep: "\<And>s'. engine_ok s' \<Longrightarrow> \<not> e_round_active s' \<or> (same_round s s' \<and> e_step s' = e_step s) \<Longrightarrow> P s'"
    and nil: "\<And>s'. engine_ok s' \<Longrightarrow> same_round s s' \<Longrightarrow> e_step s' = SPrecommit \<Longrightarrow> e_step s = SPrecommit \<Longrightarrow>
      quorum_value (e_precommits s') round q \<noteq> None \<Longrightarrow>
      yields (rec (CStartRound (round + 1) (Some NilQuorum)) s') P"
  shows "yields (advance_tail V rec now q round s) P"
proof -
  obtain s1 out1 where qc: "qc_stage V q now s = (s1, out1)" by fastforce
  note f1 = qc_stage_fields [OF qc]
  have ok1: "engine_ok s1" using engine_ok_same_round [OF ok f1(1)] f1(2) by blast
  have P1: "P s1" using keep [OF ok1] f1 by blast
  have "yields (case commit_stage V now s1 of Some (s2, out2) \<Rightarrow> emit out2 s2
      | None \<Rightarrow> nil_stage rec q round s1) P"
  proof (cases "commit_stage V now s1")
    case None
    then show ?thesis
      using P1 nil [OF ok1 f1(1)] f1(2) by (auto simp: nil_stage_def split: option.splits)
  next
    case (Some r)
    obtain s2 out2 where r: "r = (s2, out2)" by (cases r)
    note f2 = commit_stage_ok [OF Some [unfolded r] ok1]
    have "P s2" using keep [OF f2(1)] f2(2) f1 same_round_trans by metis
    then show ?thesis by (simp add: Some r)
  qed
  then show ?thesis
    unfolding advance_tail_def qc by (auto intro!: yields_and_then [of _ "\<lambda>s. s = s1"])
qed

subsection \<open>Idle rounds\<close>

lemma run_advance_idle:
  assumes ok: "engine_ok s" and idle: "idle s"
  shows "returns V now 1 CTryAdvance s (stays s)"
proof (cases "e_round_active s")
  case False
  with ok idle show ?thesis
    by (simp add: returns_yields body_def try_advance_tail stays_def)
next
  case True
  obtain q where q: "vs_quorum (e_set s) = Inr q"
    using ok by (auto simp: engine_ok_def is_ok_iff)
  note none = idle_no_quorum [OF ok idle q]
  have pre: "prevote_stage V rec q (e_round s) s = emit [] s" for rec
    using none by (simp add: prevote_stage_def)
  have "yields (advance_tail V rec now q (e_round s) s) (stays s)" for rec
  proof (rule advance_tail_yields [OF ok])
    fix s'
    assume s': "engine_ok s'" "\<not> e_round_active s' \<or> (same_round s s' \<and> e_step s' = e_step s)"
    have "idle s'"
    proof (cases "e_round_active s'")
      case True
      then show ?thesis using s' idle_same_round [OF idle] by blast
    next
      case False
      then show ?thesis using s' by (simp add: idle_def engine_ok_def voters_def)
    qed
    with s' show "stays s s'" by (auto simp: stays_def same_round_def)
  next
    fix s'
    assume "same_round s s'" "quorum_value (e_precommits s') (e_round s) q \<noteq> None"
    then show "yields (rec (CStartRound (e_round s + 1) (Some NilQuorum)) s') (stays s)"
      using none by (simp add: same_round_def)
  qed
  then show ?thesis
    using True q by (auto simp: returns_yields body_def try_advance_tail pre
        intro!: yields_and_then [of _ "\<lambda>t. t = s"])
qed

text \<open>Recording a vote of the current or an earlier round.\<close>

lemma engine_ok_record:
  assumes "engine_ok s" "e_round_active s" "v_round v \<le> e_round s"
  shows "engine_ok (record_vote v s)"
proof -
  have "slots_distinct (book_of ph s)" for ph
    using assms(1) by (cases ph) (simp_all add: engine_ok_def book_of_def)
  from record_vote_distinct [OF this [of Prevote]] record_vote_distinct [OF this [of Precommit]]
  have "slots_distinct (e_prevotes (record_vote v s))" "slots_distinct (e_precommits (record_vote v s))"
    by (simp_all add: book_of_def)
  then show ?thesis
    using assms by (simp add: engine_ok_def voters_record_vote)
qed

lemma run_vote_idle:
  assumes ok: "engine_ok s" and act: "e_round_active s" and rnd: "v_round v \<le> e_round s"
    and few: "card (insert (v_validator_idx v) (voters s (e_round s))) \<le> tol s + 1"
  shows "returns V now 2 (COnVote v) s (stays s)"
proof -
  have idle: "idle s"
    using few card_insert_le [of "voters s (e_round s)" "v_validator_idx v"]
    unfolding idle_def by linarith
  have here: "stays s s" using ok idle by (simp add: stays_def)
  have dv: "stays s (fst (double_vote a v s))" for a
    using here engine_ok_core [OF core_double_vote] idle_core [OF core_double_vote]
    by (simp add: stays_def core_fields [OF core_double_vote])
  let ?s1 = "record_vote v s"
  have ok1: "engine_ok ?s1" by (rule engine_ok_record [OF ok act rnd])
  have "idle ?s1" using few idle by (auto simp: idle_def voters_record_vote)
  with ok1 have "returns V now 1 CTryAdvance ?s1 (stays ?s1)" by (rule run_advance_idle)
  then have adv: "yields (exec V now 1 CTryAdvance ?s1) (stays s)"
    unfolding returns_yields by (rule yields_weaken) (simp add: stays_def)
  show ?thesis
    using here dv adv rnd
    by (auto simp: returns_yields numeral_2_eq_2 body_def on_vote_body_def Let_def split_def
        split: option.splits)
qed

lemma card_insert_Suc: "finite A \<Longrightarrow> card A \<le> n \<Longrightarrow> card (insert a A) \<le> n + 1"
  by (simp add: card_insert_if)

lemma my_vote_fields [simp]:
  "v_round (my_vote V i ph bh s) = e_round s" "v_validator_idx (my_vote V i ph bh s) = id_idx i"
  "v_height (my_vote V i ph bh s) = e_height s" "v_phase (my_vote V i ph bh s) = ph"
  "v_block_hash (my_vote V i ph bh s) = bh" "v_shadow (my_vote V i ph bh s) = False"
  by (simp_all add: my_vote_def sign_vote_def)

text \<open>
  Casting a vote: whatever holds of the state, of its bookkeeping variants, and of the state after
  the own vote has been handled.
\<close>

lemma cast_vote_yields:
  assumes keep: "\<And>s'. core s' = core s \<Longrightarrow> P s'"
    and vote: "\<And>i s'. e_identity s = Some i \<Longrightarrow> core s' = core s \<Longrightarrow>
      map_of (slot (book_of ph s) (e_round s)) (id_idx i) = None \<Longrightarrow>
      yields (rec (COnVote (my_vote V i ph bh s)) s') P"
  shows "yields (cast_vote_body V rec ph bh now s) P"
proof (cases "e_identity s")
  case None
  then show ?thesis using keep [OF core_arm_timer] by (simp add: cast_vote_body_def)
next
  case (Some i)
  obtain ok s1 where g: "guard_sign V (e_height s) (e_round s) (case ph of Prevote \<Rightarrow> 1 | Precommit \<Rightarrow> 2) bh s = (ok, s1)"
    by fastforce
  have core1: "core s1 = core s" using core_guard_sign g by (metis snd_conv)
  have arm: "core (arm_timer ph now s1) = core s" using core1 core_arm_timer by simp
  have same: "my_vote V i ph bh s1 = my_vote V i ph bh s"
    unfolding my_vote_def core_fields [OF core1] by (rule refl)
  show ?thesis
  proof (cases "map_of (slot (book_of ph s) (e_round s)) (id_idx i)")
    case (Some v)
    then show ?thesis using keep [of s] \<open>e_identity s = Some i\<close> by (simp add: cast_vote_body_def)
  next
    case None
    have eq: "cast_vote_body V rec ph bh now s =
        (if \<not> ok then emit [] (arm_timer ph now s1)
         else and_then (emit [Broadcast (MVote (my_vote V i ph bh s))] (arm_timer ph now s1))
                (rec (COnVote (my_vote V i ph bh s))))"
      using None \<open>e_identity s = Some i\<close> g by (simp add: cast_vote_body_def Let_def same)
    show ?thesis
    proof (cases ok)
      case True
      have "yields (and_then (emit [Broadcast (MVote (my_vote V i ph bh s))] (arm_timer ph now s1))
                (rec (COnVote (my_vote V i ph bh s)))) P"
        by (rule yields_and_then [of _ "\<lambda>t. t = arm_timer ph now s1"])
          (use vote [OF \<open>e_identity s = Some i\<close> arm None] in simp_all)
      with True show ?thesis by (simp add: eq)
    next
      case False
      then show ?thesis using keep [OF arm] by (simp add: eq)
    qed
  qed
qed

lemma voters_core:
  assumes "core s' = core s"
  shows "voters s' r = voters s r"
  unfolding voters_def core_fields [OF assms] by (rule refl)

lemma run_cast_idle:
  assumes ok: "engine_ok s" and act: "e_round_active s" and few: "card (voters s (e_round s)) \<le> tol s"
  shows "returns V now 3 (CCastVote ph bh) s (stays s)"
proof -
  have idle: "idle s" using few by (simp add: idle_def)
  have "yields (cast_vote_body V (exec V now 2) ph bh now s) (stays s)"
  proof (rule cast_vote_yields)
    fix s'
    assume c: "core s' = core s"
    show "stays s s'"
      using ok idle engine_ok_core [OF c] idle_core [OF c] core_fields [OF c]
      by (simp add: stays_def)
  next
    fix i :: node_identity and s'
    assume c: "core s' = core s"
    have "card (insert (id_idx i) (voters s' (e_round s'))) \<le> tol s' + 1"
      using few card_insert_Suc [of "voters s (e_round s)" "tol s" "id_idx i"]
      by (simp add: voters_core [OF c] core_fields [OF c])
    then have "returns V now 2 (COnVote (my_vote V i ph bh s)) s' (stays s')"
      using ok act engine_ok_core [OF c] core_fields [OF c]
      by (intro run_vote_idle) simp_all
    then show "yields (exec V now 2 (COnVote (my_vote V i ph bh s)) s') (stays s)"
      unfolding returns_yields
      by (rule yields_weaken) (simp add: stays_def core_fields [OF c])
  qed
  then show ?thesis by (simp add: returns_yields numeral_3_eq_3 numeral_2_eq_2 body_def)
qed

text \<open>Handling a proposal: what holds of the state and survives casting a vote and advancing.\<close>

lemma proposal_yields:
  assumes keep: "\<And>s'. same_round s s' \<Longrightarrow> e_step s' = e_step s \<Longrightarrow> P s'"
    and advance: "\<And>s'. same_round s s' \<Longrightarrow> e_step s' = e_step s \<Longrightarrow> yields (rec CTryAdvance s') P"
    and cast: "\<And>s' bh. same_round s s' \<Longrightarrow> e_step s = Propose \<Longrightarrow> e_step s' = SPrevote \<Longrightarrow>
      yields (rec (CCastVote Prevote bh) s') Q"
    and after: "\<And>s'. Q s' \<Longrightarrow> yields (rec CTryAdvance s') P"
  shows "yields (on_proposal_body V rec p now s) P"
proof -
  have dp: "P (fst (double_propose_evidence a b s))" for a b
    using keep same_round_core [OF core_double_propose] core_fields(9) [OF core_double_propose] by blast
  have "yields (on_future_proposal V p s) P"
    using dp keep [of s] keep [of "s\<lparr>e_proposals := AList.update (pr_round p) p (e_proposals s)\<rparr>"]
    by (auto simp: on_future_proposal_def Let_def split_def same_round_def split: option.splits)
  moreover have "yields (on_old_proposal V rec p now s) P"
    using keep [of s] by (auto simp: on_old_proposal_def Let_def same_round_def split: sum.splits
        intro!: advance)
  moreover have "yields (on_current_proposal V rec p now s) P"
  proof (cases "map_of (e_proposals s) (pr_round p)")
    case (Some e)
    then show ?thesis
      using dp keep [of s] by (auto simp: on_current_proposal_def Let_def split_def)
  next
    case None
    define valid where "valid = is_ok (check_proposal V p now s)"
    define s1 where "s1 = (if valid
      then s\<lparr>e_verified := AList.update (pr_block_hash (en_crypto V) p) True (e_verified s),
             e_proposals := AList.update (pr_round p) p (e_proposals s)\<rparr> else s)"
    have s1: "same_round s s1" "e_step s1 = e_step s" by (simp_all add: s1_def same_round_def)
    have vote: "same_round s (s1\<lparr>e_step := SPrevote\<rparr>)" using s1 by (simp add: same_round_def)
    have tail: "yields (and_then (if e_step t = Propose
          then rec (CCastVote Prevote (prevote_choice t valid (pr_block_hash (en_crypto V) p)
                 (pr_valid_round p))) (t\<lparr>e_step := SPrevote\<rparr>)
          else emit [] t) (rec CTryAdvance)) P" if t: "t = s1" for t
    proof (cases "e_step s = Propose")
      case True
      then have "yields (rec (CCastVote Prevote bh) (s1\<lparr>e_step := SPrevote\<rparr>)) Q" for bh
        by (intro cast [OF vote]) simp_all
      with True s1(2) t show ?thesis by (auto intro: yields_and_then after)
    next
      case False
      then have "e_step t \<noteq> Propose" using s1 t by simp
      moreover have "yields (and_then (emit [] s1) (rec CTryAdvance)) P"
        by (rule yields_and_then [of _ "\<lambda>t. t = s1"]) (use advance [OF s1] in simp_all)
      ultimately show ?thesis using t by simp
    qed
    have eq: "on_current_proposal V rec p now s =
        and_then (emit (if valid then [] else [Dropped ''oneri gecersiz'']) s1)
          (\<lambda>s. and_then
             (if e_step s = Propose
              then rec (CCastVote Prevote (prevote_choice s valid (pr_block_hash (en_crypto V) p)
                     (pr_valid_round p))) (s\<lparr>e_step := SPrevote\<rparr>)
              else emit [] s)
             (rec CTryAdvance))"
      by (simp only: on_current_proposal_def None Let_def valid_def s1_def option.case)
    show ?thesis
      unfolding eq by (rule yields_and_then [of _ "\<lambda>t. t = s1", OF _ tail]) simp_all
  qed
  moreover have "P s" using keep [of s] by simp
  ultimately show ?thesis
    by (auto simp: on_proposal_body_def split: option.splits)
qed

definition settles :: "engine \<Rightarrow> engine \<Rightarrow> bool" where
  "settles s s' \<longleftrightarrow> engine_ok s' \<and> idle s' \<and>
     (\<not> e_round_active s' \<or>
      (e_round_active s \<and> e_round s' = e_round s \<and> (e_step s' = e_step s \<or> e_step s' = SPrevote)))"

lemma engine_ok_active:
  "engine_ok s \<Longrightarrow> same_round s s' \<Longrightarrow> e_round_active s \<Longrightarrow> engine_ok s'"
  using engine_ok_same_round by (auto simp: same_round_def)

lemma run_proposal_idle:
  assumes ok: "engine_ok s" and act: "e_round_active s" and few: "card (voters s (e_round s)) \<le> tol s"
  shows "returns V now 4 (COnProposal p) s (settles s)"
proof -
  have idle: "idle s" using few by (simp add: idle_def)
  have "yields (on_proposal_body V (exec V now 3) p now s) (settles s)"
  proof (rule proposal_yields [where Q = "\<lambda>t. engine_ok t \<and> idle t \<and>
        (\<not> e_round_active t \<or> (e_round_active s \<and> e_round t = e_round s \<and> e_step t = SPrevote))"])
    fix s'
    assume s': "same_round s s'" "e_step s' = e_step s"
    have ok': "engine_ok s'" "idle s'"
      using engine_ok_active [OF ok s'(1) act] idle_same_round [OF idle s'(1)] by blast+
    then show "settles s s'" using s' by (simp add: settles_def same_round_def)
    have "returns V now 3 CTryAdvance s' (stays s')"
      by (rule returns_mono [OF run_advance_idle [OF ok']]) simp
    then show "yields (exec V now 3 CTryAdvance s') (settles s)"
      unfolding returns_yields by (rule yields_weaken) (use s' in \<open>auto simp: stays_def settles_def same_round_def\<close>)
  next
    fix s' bh
    assume s': "same_round s s'" "e_step s' = SPrevote"
    have "returns V now 3 (CCastVote Prevote bh) s' (stays s')"
      by (rule run_cast_idle) (use s' few act engine_ok_active [OF ok s'(1) act] in
          \<open>auto simp: same_round_def voters_def\<close>)
    then show "yields (exec V now 3 (CCastVote Prevote bh) s') (\<lambda>t. engine_ok t \<and> idle t \<and>
        (\<not> e_round_active t \<or> (e_round_active s \<and> e_round t = e_round s \<and> e_step t = SPrevote)))"
      unfolding returns_yields by (rule yields_weaken) (use s' in \<open>auto simp: stays_def same_round_def\<close>)
  next
    fix s'
    assume s': "engine_ok s' \<and> idle s' \<and>
        (\<not> e_round_active s' \<or> (e_round_active s \<and> e_round s' = e_round s \<and> e_step s' = SPrevote))"
    then have "returns V now 3 CTryAdvance s' (stays s')"
      by (intro returns_mono [OF run_advance_idle]) simp_all
    then show "yields (exec V now 3 CTryAdvance s') (settles s)"
      unfolding returns_yields by (rule yields_weaken) (use s' in \<open>auto simp: stays_def settles_def\<close>)
  qed
  then show ?thesis by (simp add: returns_yields eval_nat_numeral body_def)
qed

text \<open>The state in which a round starts.\<close>

definition started :: "nat \<Rightarrow> nat \<Rightarrow> view_change_reason option \<Rightarrow> engine \<Rightarrow> engine" where
  "started r now why s = fst (ask_proposal r now (enter_round r now (fst (note_view_change r why s))))"

lemma started_fields:
  "e_set (started r now why s) = e_set s" "e_round (started r now why s) = r"
  "e_step (started r now why s) = Propose"
  "e_round_active (started r now why s) = e_round_active s"
  "e_prevotes (started r now why s) = e_prevotes s"
  "e_precommits (started r now why s) = e_precommits s"
  "e_height (started r now why s) = e_height s"
  "e_identity (started r now why s) = e_identity s"
  unfolding started_def
  by (simp_all add: core_fields [OF core_ask_proposal] core_fields [OF core_note_view_change])

lemma start_round_eq:
  "start_round_body rec r now why s =
     and_then
       (emit (snd (note_view_change r why s) @
              snd (ask_proposal r now (enter_round r now (fst (note_view_change r why s)))))
          (started r now why s))
       (\<lambda>s. and_then
          (case map_of (e_proposals s) r of
             Some p \<Rightarrow> rec (COnProposal p) (s\<lparr>e_proposals := AList.delete r (e_proposals s)\<rparr>)
           | None \<Rightarrow> emit [] s)
          (rec CTryAdvance))"
  by (simp add: start_round_body_def started_def Let_def split_def)

text \<open>Entering round \<open>r\<close> needs the bound on the voters only above \<open>r\<close>.\<close>

definition ok_above :: "nat \<Rightarrow> engine \<Rightarrow> bool" where
  "ok_above r s \<longleftrightarrow>
     is_ok (vs_quorum (e_set s)) \<and> slots_distinct (e_prevotes s) \<and> slots_distinct (e_precommits s) \<and>
     (\<forall>r' > r. card (voters s r') \<le> tol s)"

lemma engine_ok_above: "engine_ok s \<Longrightarrow> e_round s \<le> r \<Longrightarrow> ok_above r s"
  by (auto simp: engine_ok_def ok_above_def)

lemma started_ok:
  "ok_above r s \<Longrightarrow> e_round_active s \<Longrightarrow> engine_ok (started r now why s)"
  by (simp add: engine_ok_def ok_above_def started_fields voters_def)

lemma round_yields:
  assumes proposal: "\<And>p t. same_round (started r now why s) t \<Longrightarrow> e_step t = Propose \<Longrightarrow>
      yields (rec (COnProposal p) t) Q"
    and start: "Q (started r now why s)"
    and after: "\<And>t. Q t \<Longrightarrow> yields (rec CTryAdvance t) P"
  shows "yields (start_round_body rec r now why s) P"
proof -
  have "yields (and_then (case map_of (e_proposals t) r of
             Some p \<Rightarrow> rec (COnProposal p) (t\<lparr>e_proposals := AList.delete r (e_proposals t)\<rparr>)
           | None \<Rightarrow> emit [] t) (rec CTryAdvance)) P" if t: "t = started r now why s" for t
    by (rule yields_and_then [of _ Q, OF _ after])
      (use t start proposal in \<open>auto simp: same_round_def started_fields split: option.splits\<close>)
  then show ?thesis
    unfolding start_round_eq by (rule yields_and_then [of _ "\<lambda>t. t = started r now why s", rotated]) simp_all
qed

lemma run_round_idle:
  assumes ok: "ok_above r s" and act: "e_round_active s" and few: "card (voters s r) \<le> tol s"
  shows "returns V now 5 (CStartRound r why) s
    (\<lambda>s'. engine_ok s' \<and> (\<not> e_round_active s' \<or> (e_round s' = r \<and> e_step s' \<noteq> SPrecommit)))"
proof -
  let ?s0 = "started r now why s"
  let ?Q = "\<lambda>t. engine_ok t \<and> idle t \<and> (\<not> e_round_active t \<or> (e_round t = r \<and> e_step t \<noteq> SPrecommit))"
  have ok0: "engine_ok ?s0" by (rule started_ok [OF ok act])
  have few0: "card (voters ?s0 (e_round ?s0)) \<le> tol ?s0"
    using few by (simp add: started_fields voters_def)
  have "yields (start_round_body (exec V now 4) r now why s)
    (\<lambda>s'. engine_ok s' \<and> (\<not> e_round_active s' \<or> (e_round s' = r \<and> e_step s' \<noteq> SPrecommit)))"
  proof (rule round_yields [where Q = ?Q])
    fix p t
    assume t: "same_round ?s0 t" "e_step t = Propose"
    have act0: "e_round_active ?s0" using act by (simp add: started_fields)
    have "returns V now 4 (COnProposal p) t (settles t)"
      by (rule run_proposal_idle)
        (use engine_ok_active [OF ok0 t(1) act0] act0 few0 t in \<open>auto simp: same_round_def voters_def\<close>)
    then show "yields (exec V now 4 (COnProposal p) t) ?Q"
      unfolding returns_yields
      by (rule yields_weaken) (use t in \<open>auto simp: settles_def same_round_def started_fields\<close>)
  next
    show "?Q ?s0" using ok0 few0 by (simp add: idle_def started_fields)
  next
    fix t
    assume t: "?Q t"
    then have "returns V now 4 CTryAdvance t (stays t)"
      by (intro returns_mono [OF run_advance_idle]) simp_all
    then show "yields (exec V now 4 CTryAdvance t)
      (\<lambda>s'. engine_ok s' \<and> (\<not> e_round_active s' \<or> (e_round s' = r \<and> e_step s' \<noteq> SPrecommit)))"
      unfolding returns_yields by (rule yields_weaken) (use t in \<open>auto simp: stays_def\<close>)
  qed
  then show ?thesis by (simp add: returns_yields eval_nat_numeral body_def)
qed

subsection \<open>Any round\<close>

text \<open>From the precommit step the round is left only for one in which no precommit follows.\<close>

definition leaves :: "engine \<Rightarrow> engine \<Rightarrow> bool" where
  "leaves s s' \<longleftrightarrow> engine_ok s' \<and> (e_step s' = SPrecommit \<longrightarrow> e_round s' = e_round s)"

lemma tail_leaves:
  assumes ok: "engine_ok s" and act: "e_step s = SPrecommit \<Longrightarrow> e_round s = round"
    and n: "5 \<le> n"
  shows "yields (advance_tail V (exec V now n) now q round s) (leaves s)"
proof (rule advance_tail_yields [OF ok])
  fix s'
  assume "engine_ok s'" "\<not> e_round_active s' \<or> (same_round s s' \<and> e_step s' = e_step s)"
  then show "leaves s s'" by (auto simp: leaves_def same_round_def engine_ok_def)
next
  fix s'
  assume s': "engine_ok s'" "same_round s s'" "e_step s' = SPrecommit" "e_step s = SPrecommit"
  have r: "e_round s' = round" using act s' by (simp add: same_round_def)
  have act': "e_round_active s'" using s' by (auto simp: engine_ok_def)
  have "ok_above (round + 1) s'" "card (voters s' (round + 1)) \<le> tol s'"
    using s'(1) r by (auto simp: engine_ok_def ok_above_def)
  from returns_mono [OF run_round_idle [OF this(1) act' this(2)] n]
  have "returns V now n (CStartRound (round + 1) (Some NilQuorum)) s'
    (\<lambda>t. engine_ok t \<and> (\<not> e_round_active t \<or> (e_round t = round + 1 \<and> e_step t \<noteq> SPrecommit)))" .
  then show "yields (exec V now n (CStartRound (round + 1) (Some NilQuorum)) s') (leaves s)"
    unfolding returns_yields by (rule yields_weaken) (auto simp: leaves_def engine_ok_def)
qed

text \<open>The prevote stage: nothing, new valid value, or a precommit is cast from the precommit step.\<close>

lemma prevote_stage_yields:
  assumes keep: "\<And>s'. same_round s s' \<Longrightarrow> e_step s' = e_step s \<Longrightarrow> P s'"
    and cast: "\<And>s' h. same_round s s' \<Longrightarrow> e_step s = SPrevote \<Longrightarrow> e_step s' = SPrecommit \<Longrightarrow>
      yields (rec (CCastVote Precommit h) s') P"
  shows "yields (prevote_stage V rec q r s) P"
  unfolding prevote_stage_def Let_def
  by (auto split: option.splits simp: same_round_def intro!: keep cast)

lemma run_advance_precommit:
  assumes ok: "engine_ok s" and st: "e_step s = SPrecommit"
  shows "returns V now 6 CTryAdvance s (leaves s)"
proof -
  have act: "e_round_active s" using ok st by (auto simp: engine_ok_def)
  obtain q where q: "vs_quorum (e_set s) = Inr q"
    using ok by (auto simp: engine_ok_def is_ok_iff)
  have "yields (and_then (prevote_stage V (exec V now 5) q (e_round s) s)
      (advance_tail V (exec V now 5) now q (e_round s))) (leaves s)"
  proof (rule yields_and_then)
    show "yields (prevote_stage V (exec V now 5) q (e_round s) s)
        (\<lambda>t. same_round s t \<and> e_step t = e_step s)"
      by (rule prevote_stage_yields) (use st in simp_all)
  next
    fix t
    assume t: "same_round s t \<and> e_step t = e_step s"
    have "engine_ok t" using engine_ok_same_round [OF ok] t by blast
    then have "yields (advance_tail V (exec V now 5) now q (e_round s) t) (leaves t)"
      by (rule tail_leaves) (use t in \<open>simp_all add: same_round_def\<close>)
    then show "yields (advance_tail V (exec V now 5) now q (e_round s) t) (leaves s)"
      by (rule yields_weaken) (use t in \<open>auto simp: leaves_def same_round_def\<close>)
  qed
  then show ?thesis
    using act q by (simp add: returns_yields eval_nat_numeral body_def try_advance_tail)
qed

text \<open>A vote of the current or an earlier round: what advancing gives, the vote gives.\<close>

lemma vote_yields:
  assumes ok: "engine_ok s" and act: "e_round_active s" and rnd: "v_round v \<le> e_round s"
    and keep: "\<And>s'. same_round s s' \<Longrightarrow> e_step s' = e_step s \<Longrightarrow> P s'"
    and advance: "\<And>s'. engine_ok s' \<Longrightarrow> e_round s' = e_round s \<Longrightarrow> e_step s' = e_step s \<Longrightarrow>
      yields (rec CTryAdvance s') P"
  shows "yields (on_vote_body V rec v s) P"
proof -
  have dv: "P (fst (double_vote a v s))" for a
    by (rule keep [OF same_round_core [OF core_double_vote]])
      (simp add: core_fields [OF core_double_vote])
  have "yields (rec CTryAdvance (record_vote v s)) P"
    by (rule advance) (simp_all add: engine_ok_record [OF ok act rnd])
  then show ?thesis
    using dv keep [of s] rnd by (auto simp: on_vote_body_def Let_def split_def split: option.splits)
qed

lemma run_vote_precommit:
  assumes ok: "engine_ok s" and st: "e_step s = SPrecommit" and rnd: "v_round v \<le> e_round s"
  shows "returns V now 7 (COnVote v) s (leaves s)"
proof -
  have act: "e_round_active s" using ok st by (auto simp: engine_ok_def)
  have "yields (on_vote_body V (exec V now 6) v s) (leaves s)"
  proof (rule vote_yields [OF ok act rnd])
    fix s'
    assume "same_round s s'" "e_step s' = e_step s"
    then show "leaves s s'"
      using engine_ok_same_round [OF ok] by (simp add: leaves_def same_round_def)
  next
    fix s'
    assume "engine_ok s'" "e_round s' = e_round s" "e_step s' = e_step s"
    then have "returns V now 6 CTryAdvance s' (leaves s')"
      using st by (intro run_advance_precommit) simp_all
    then show "yields (exec V now 6 CTryAdvance s') (leaves s)"
      unfolding returns_yields
      by (rule yields_weaken) (simp add: leaves_def \<open>e_round s' = e_round s\<close>)
  qed
  then show ?thesis by (simp add: returns_yields eval_nat_numeral body_def)
qed

lemma run_cast_precommit:
  assumes ok: "engine_ok s" and st: "e_step s = SPrecommit"
  shows "returns V now 8 (CCastVote ph bh) s (leaves s)"
proof -
  have "yields (cast_vote_body V (exec V now 7) ph bh now s) (leaves s)"
  proof (rule cast_vote_yields)
    fix s'
    assume c: "core s' = core s"
    show "leaves s s'" using ok engine_ok_core [OF c] core_fields [OF c] by (simp add: leaves_def)
  next
    fix i :: node_identity and s'
    assume c: "core s' = core s"
    have "returns V now 7 (COnVote (my_vote V i ph bh s)) s' (leaves s')"
      by (rule run_vote_precommit) (use ok st engine_ok_core [OF c] core_fields [OF c] in simp_all)
    then show "yields (exec V now 7 (COnVote (my_vote V i ph bh s)) s') (leaves s)"
      unfolding returns_yields by (rule yields_weaken) (simp add: leaves_def core_fields [OF c])
  qed
  then show ?thesis by (simp add: returns_yields eval_nat_numeral body_def)
qed

lemma run_advance:
  assumes ok: "engine_ok s"
  shows "returns V now 9 CTryAdvance s engine_ok"
proof (cases "e_round_active s")
  case False
  with ok show ?thesis by (simp add: returns_yields eval_nat_numeral body_def try_advance_tail)
next
  case True
  obtain q where q: "vs_quorum (e_set s) = Inr q"
    using ok by (auto simp: engine_ok_def is_ok_iff)
  have "yields (and_then (prevote_stage V (exec V now 8) q (e_round s) s)
      (advance_tail V (exec V now 8) now q (e_round s))) engine_ok"
  proof (rule yields_and_then)
    show "yields (prevote_stage V (exec V now 8) q (e_round s) s) (leaves s)"
    proof (rule prevote_stage_yields)
      fix s'
      assume "same_round s s'" "e_step s' = e_step s"
      then show "leaves s s'"
        using engine_ok_same_round [OF ok] by (simp add: leaves_def same_round_def)
    next
      fix s' h
      assume s': "same_round s s'" "e_step s' = SPrecommit"
      then have "returns V now 8 (CCastVote Precommit h) s' (leaves s')"
        using run_cast_precommit engine_ok_active [OF ok s'(1) True] by blast
      then show "yields (exec V now 8 (CCastVote Precommit h) s') (leaves s)"
        unfolding returns_yields
        by (rule yields_weaken) (use s' in \<open>simp add: leaves_def same_round_def\<close>)
    qed
  next
    fix t
    assume t: "leaves s t"
    have "yields (advance_tail V (exec V now 8) now q (e_round s) t) (leaves t)"
      by (rule tail_leaves) (use t in \<open>simp_all add: leaves_def\<close>)
    then show "yields (advance_tail V (exec V now 8) now q (e_round s) t) engine_ok"
      by (rule yields_weaken) (simp add: leaves_def)
  qed
  then show ?thesis
    using True q by (simp add: returns_yields eval_nat_numeral body_def try_advance_tail)
qed

lemma run_vote_old:
  assumes ok: "engine_ok s" and act: "e_round_active s" and rnd: "v_round v \<le> e_round s"
  shows "returns V now 10 (COnVote v) s engine_ok"
proof -
  have "yields (on_vote_body V (exec V now 9) v s) engine_ok"
    by (rule vote_yields [OF ok act rnd])
      (use engine_ok_same_round [OF ok] run_advance in \<open>auto simp: returns_yields\<close>)
  then show ?thesis by (simp add: returns_yields eval_nat_numeral body_def)
qed

lemma run_cast:
  assumes ok: "engine_ok s" and act: "e_round_active s"
  shows "returns V now 11 (CCastVote ph bh) s engine_ok"
proof -
  have "yields (cast_vote_body V (exec V now 10) ph bh now s) engine_ok"
  proof (rule cast_vote_yields)
    fix s'
    assume "core s' = core s"
    then show "engine_ok s'" using ok engine_ok_core by blast
  next
    fix i :: node_identity and s'
    assume c: "core s' = core s"
    have "returns V now 10 (COnVote (my_vote V i ph bh s)) s' engine_ok"
      by (rule run_vote_old) (use ok act engine_ok_core [OF c] core_fields [OF c] in simp_all)
    then show "yields (exec V now 10 (COnVote (my_vote V i ph bh s)) s') engine_ok"
      by (simp add: returns_yields)
  qed
  then show ?thesis by (simp add: returns_yields eval_nat_numeral body_def)
qed

lemma run_proposal:
  assumes ok: "engine_ok s" and act: "e_round_active s"
  shows "returns V now 12 (COnProposal p) s engine_ok"
proof -
  have adv: "yields (exec V now 11 CTryAdvance t) engine_ok" if "engine_ok t" for t
    using returns_mono [OF run_advance [OF that], of 11] by (simp add: returns_yields)
  have "yields (on_proposal_body V (exec V now 11) p now s) engine_ok"
    by (rule proposal_yields [where Q = engine_ok])
      (use engine_ok_active [OF ok _ act] adv run_cast act in \<open>auto simp: returns_yields same_round_def\<close>)
  then show ?thesis by (simp add: returns_yields eval_nat_numeral body_def)
qed

lemma run_round:
  assumes ok: "ok_above r s" and act: "e_round_active s"
  shows "returns V now 13 (CStartRound r why) s engine_ok"
proof -
  have adv: "yields (exec V now 12 CTryAdvance t) engine_ok" if "engine_ok t" for t
    using returns_mono [OF run_advance [OF that], of 12] by (simp add: returns_yields)
  have ok0: "engine_ok (started r now why s)" and act0: "e_round_active (started r now why s)"
    using started_ok [OF ok act] act by (simp_all add: started_fields)
  have "yields (start_round_body (exec V now 12) r now why s) engine_ok"
    by (rule round_yields [where Q = engine_ok])
      (use ok0 adv run_proposal engine_ok_active [OF ok0 _ act0] act0 in
        \<open>auto simp: returns_yields same_round_def\<close>)
  then show ?thesis by (simp add: returns_yields eval_nat_numeral body_def)
qed

text \<open>A recorded vote of a later round leaves the bound intact, or the skip rule fires.\<close>

lemma record_later:
  assumes ok: "engine_ok s" and act: "e_round_active s" and rnd: "e_round s < v_round v"
  shows "ok_above (v_round v) (record_vote v s)"
    and "card (voters (record_vote v s) (v_round v)) \<le> tol s \<Longrightarrow> engine_ok (record_vote v s)"
proof -
  have d: "slots_distinct (book_of ph s)" for ph
    using ok by (cases ph) (simp_all add: engine_ok_def book_of_def)
  from record_vote_distinct [OF d [of Prevote]] record_vote_distinct [OF d [of Precommit]]
  have sd: "slots_distinct (e_prevotes (record_vote v s))" "slots_distinct (e_precommits (record_vote v s))"
    by (simp_all add: book_of_def)
  then show "ok_above (v_round v) (record_vote v s)"
    using ok rnd by (auto simp: ok_above_def engine_ok_def voters_record_vote)
  assume few: "card (voters (record_vote v s) (v_round v)) \<le> tol s"
  have "card (voters (record_vote v s) r) \<le> tol s" if "e_round s < r" for r
    using few ok that by (cases "r = v_round v") (auto simp: engine_ok_def voters_record_vote)
  then show "engine_ok (record_vote v s)"
    using sd ok act by (simp add: engine_ok_def)
qed

lemma run_vote:
  assumes ok: "engine_ok s" and act: "e_round_active s"
  shows "returns V now 14 (COnVote v) s engine_ok"
proof (cases "v_round v \<le> e_round s")
  case True
  then show ?thesis using returns_mono [OF run_vote_old [OF ok act True]] by simp
next
  case False
  then have rnd: "e_round s < v_round v" by simp
  note later = record_later [OF ok act rnd]
  have act1: "e_round_active (record_vote v s)" using act by simp
  have skip: "yields (exec V now 13 (CStartRound (v_round v) why) (record_vote v s)) engine_ok" for why
    using run_round [OF later(1) act1] by (simp add: returns_yields)
  have adv: "yields (exec V now 13 CTryAdvance (record_vote v s)) engine_ok"
    if "card (voters (record_vote v s) (v_round v)) \<le> tol s"
    using returns_mono [OF run_advance [OF later(2) [OF that]], of 13] by (simp add: returns_yields)
  have dv: "engine_ok (fst (double_vote a v s))" for a
    using ok engine_ok_core [OF core_double_vote] by blast
  have "yields (on_vote_body V (exec V now 13) v s) engine_ok"
    using ok skip adv dv
    by (auto simp: on_vote_body_def Let_def split_def distinct_voters_at_card not_less rnd
        split: option.splits)
  then show ?thesis by (simp add: returns_yields eval_nat_numeral body_def)
qed

section \<open>The host's operations return\<close>

lemma run_calls:
  assumes "engine_ok s" "e_round_active s"
  shows "yields (run_call V now (COnProposal p) s) engine_ok"
    "yields (run_call V now (COnVote v) s) engine_ok"
    "yields (run_call V now (CCastVote ph bh) s) engine_ok"
  using returns_mono [OF run_proposal [OF assms]] returns_mono [OF run_vote [OF assms]]
    returns_mono [OF run_cast [OF assms]]
  by (simp_all add: run_call_def returns_yields CALL_DEPTH_def)

lemma run_call_advance: "engine_ok s \<Longrightarrow> yields (run_call V now CTryAdvance s) engine_ok"
  using returns_mono [OF run_advance] by (simp add: run_call_def returns_yields CALL_DEPTH_def)

lemma run_call_round:
  "ok_above r s \<Longrightarrow> e_round_active s \<Longrightarrow> yields (run_call V now (CStartRound r why) s) engine_ok"
  using returns_mono [OF run_round] by (simp add: run_call_def returns_yields CALL_DEPTH_def)

lemma core_on_heartbeat [engine_core]: "core (fst (on_heartbeat V hb now s)) = core s"
  by (simp add: on_heartbeat_def core_def)

lemma handle_returns:
  assumes "engine_ok s"
  shows "yields (handle V now m s) engine_ok"
proof (cases "msg_height m < e_height s \<or> e_height s < msg_height m \<or> \<not> e_round_active s")
  case True
  have "same_round s (fst (buffer_msg h m s))" "e_step (fst (buffer_msg h m s)) = e_step s" for h
    by (auto simp: buffer_msg_def same_round_def Let_def)
  then have "engine_ok (fst (buffer_msg h m s))" for h
    using engine_ok_same_round [OF assms] by blast
  with True assms show ?thesis by (auto simp: handle_def split_def Let_def)
next
  case False
  then have act: "e_round_active s" by simp
  have "engine_ok (fst (on_heartbeat V hb now s))" for hb
    using assms engine_ok_core [OF core_on_heartbeat] by blast
  then show ?thesis
    using False run_calls [OF assms act] assms
    by (auto simp: handle_def split_def Let_def split: message.splits)
qed

lemma handle_all_returns:
  "engine_ok s \<Longrightarrow> yields (handle_all V now ms s) engine_ok"
proof (induction ms arbitrary: s)
  case Nil
  then show ?case by simp
next
  case (Cons m ms)
  show ?case
    unfolding handle_all.simps
    by (rule yields_and_then [OF handle_returns [OF Cons.prems] Cons.IH])
qed

lemma start_returns:
  assumes ok: "engine_ok s"
  shows "yields (start V now s) engine_ok"
proof -
  define s1 where "s1 = (if e_tip_committed_at_ms s = 0 then s\<lparr>e_tip_committed_at_ms := now\<rparr> else s)"
  have ok1: "engine_ok s1"
    by (rule engine_ok_same_round [OF ok]) (simp_all add: s1_def same_round_def)
  have "yields (if \<not> e_round_active s1 then run_call V now (CStartRound 0 None) (s1\<lparr>e_round_active := True\<rparr>)
      else emit [] s1) engine_ok"
  proof (cases "e_round_active s1")
    case False
    then have "ok_above 0 (s1\<lparr>e_round_active := True\<rparr>)"
      using ok1 by (simp add: engine_ok_def ok_above_def voters_def)
    then have "yields (run_call V now (CStartRound 0 None) (s1\<lparr>e_round_active := True\<rparr>)) engine_ok"
      by (rule run_call_round) simp
    with False show ?thesis by simp
  next
    case True
    with ok1 show ?thesis by simp
  qed
  moreover have "yields (handle_all V now ms (t\<lparr>e_buffered := b\<rparr>)) engine_ok" if "engine_ok t" for t b ms
    by (rule handle_all_returns [OF engine_ok_same_round [OF that]]) (simp_all add: same_round_def)
  ultimately show ?thesis
    unfolding start_def Let_def s1_def [symmetric]
    by (rule yields_and_then)
qed

lemma engine_ok_timeout:
  assumes "engine_ok s" "e_round_active s"
  shows "engine_ok ((count_timeout s)\<lparr>e_step := st\<rparr>)" "engine_ok (count_timeout s)"
proof -
  show "engine_ok (count_timeout s)" using assms(1) engine_ok_core [OF core_updates(6)] by blast
  then show "engine_ok ((count_timeout s)\<lparr>e_step := st\<rparr>)"
    by (rule engine_ok_active) (simp_all add: same_round_def count_timeout_def assms)
qed

lemma engine_ok_timers:
  assumes "engine_ok t"
  shows "engine_ok (t\<lparr>e_propose_deadline := None, e_propose_ready_at := None\<rparr>)"
    "engine_ok (t\<lparr>e_prevote_deadline := None\<rparr>)" "engine_ok (t\<lparr>e_precommit_deadline := None\<rparr>)"
  by (rule engine_ok_same_round [OF assms]; simp add: same_round_def)+

lemma engine_ok_acts: "engine_ok t \<Longrightarrow> e_step t \<noteq> Propose \<Longrightarrow> e_round_active t"
  by (auto simp: engine_ok_def)

lemma tick_propose_returns:
  assumes "engine_ok t" "e_round_active t"
  shows "yields (tick_propose V now t) engine_ok"
  using assms run_calls(3) [OF engine_ok_timeout(1) [OF engine_ok_timers(1) [OF assms(1)]]]
    engine_ok_timers(1) [OF assms(1)]
  by (auto simp: tick_propose_def Let_def count_timeout_def)

lemma tick_prevote_returns:
  assumes "engine_ok t"
  shows "yields (tick_prevote V now t) engine_ok"
  using assms engine_ok_acts [OF assms]
    run_calls(3) [OF engine_ok_timeout(1) [OF engine_ok_timers(2) [OF assms]]] engine_ok_timers(2) [OF assms]
  by (auto simp: tick_prevote_def Let_def count_timeout_def)

lemma tick_returns:
  assumes ok: "engine_ok s"
  shows "yields (tick V now s) engine_ok"
proof (cases "e_round_active s")
  case False
  with ok show ?thesis by (simp add: tick_def)
next
  case True
  have core1: "core (fst (tick_ready now s)) = core s"
    by (simp add: tick_ready_def core_updates Let_def)
  have ok1: "engine_ok (fst (tick_ready now s))" "e_round_active (fst (tick_ready now s))"
    using ok True engine_ok_core [OF core1] core_fields(10) [OF core1] by blast+
  have precommit: "yields (tick_precommit V now t) engine_ok" if t: "engine_ok t" for t
  proof -
    let ?t = "t\<lparr>e_precommit_deadline := None\<rparr>"
    have "yields (run_call V now (CStartRound (e_round ?t + 1) (Some Timeout)) (count_timeout ?t)) engine_ok"
      if "e_step t = SPrecommit"
    proof (rule run_call_round)
      have a: "e_round_active ?t" using engine_ok_acts [OF t] that by simp
      then show "e_round_active (count_timeout ?t)" by (simp add: count_timeout_def)
      show "ok_above (e_round ?t + 1) (count_timeout ?t)"
        by (rule engine_ok_above [OF engine_ok_timeout(2) [OF engine_ok_timers(3) [OF t] a]])
          (simp add: count_timeout_def)
    qed
    then show ?thesis
      using run_call_advance [OF t] run_call_advance [OF engine_ok_timers(3) [OF t]]
      by (auto simp: tick_precommit_def Let_def)
  qed
  have "yields (and_then (tick_propose V now t)
      (\<lambda>s. and_then (tick_prevote V now s) (tick_precommit V now))) engine_ok"
    if "t = fst (tick_ready now s)" for t
    using that ok1 by (auto intro!: yields_and_then [of _ engine_ok] tick_propose_returns tick_prevote_returns precommit)
  then have "yields (and_then (emit (snd (tick_ready now s)) (fst (tick_ready now s)))
      (\<lambda>s. and_then (tick_propose V now s) (\<lambda>s. and_then (tick_prevote V now s) (tick_precommit V now))))
      engine_ok"
    by (rule yields_and_then [of _ "\<lambda>t. t = fst (tick_ready now s)", rotated]) simp_all
  with True show ?thesis by (simp add: tick_def split_def Let_def)
qed

lemma guard_sign_ok: "engine_ok s \<Longrightarrow> engine_ok (snd (guard_sign V h r st bh s))"
  using engine_ok_core [OF core_guard_sign] by blast

lemma publish_returns:
  assumes "engine_ok s" "e_round_active s"
  shows "\<exists>s' r. publish_proposal V now p s = Some (s', r) \<and> engine_ok s'"
  using run_calls(1) [OF assms, of V now p] by (auto simp: yields_def publish_proposal_def)

lemma propose_returns:
  assumes ok: "engine_ok s"
  shows "\<exists>s' r. propose V now txs bridge shadow s = Some (s', r) \<and> engine_ok s'"
proof -
  have sign: "engine_ok s1 \<and> e_round_active s1 = e_round_active s"
    if "guard_sign V h r st bh s = (b, s1)" for h r st bh b s1
    using guard_sign_ok [OF ok, of V h r st bh] core_fields(10) [OF core_guard_sign, of V h r st bh s]
    by (simp add: that)
  have ver: "engine_ok (t\<lparr>e_verified := x\<rparr>)" if "engine_ok t" for t x
    by (rule engine_ok_same_round [OF that]) (simp_all add: same_round_def)
  have re: "\<exists>s' r. repropose V now i vr vp s = Some (s', r) \<and> engine_ok s'"
    if "e_round_active s" for i vr vp
    using that sign publish_returns
    by (auto simp: repropose_def Let_def proposal_error_def split: prod.splits)
  have new: "\<exists>s' r. propose_new V now i txs bridge shadow s = Some (s', r) \<and> engine_ok s'"
    if "e_round_active s" for i
    using that ok sign publish_returns [OF ver]
    by (auto simp: propose_new_def Let_def proposal_error_def split: prod.splits sum.splits)
  show ?thesis
    using ok re new by (auto simp: propose_def proposal_error_def split: option.splits)
qed

section \<open>Runs\<close>

text \<open>
  The events of a height: what the host does between two constructions of the engine. A failed
  \<open>heartbeat\<close> or rotation leaves the state as it was.
\<close>

datatype engine_event =
    EStart nat
  | ETick nat
  | EHandle nat message
  | EPropose nat "transaction list" "bridge_proposal list" "shadow_vote_attestation list"
  | EHeartbeat nat
  | ERotate active_validator_set
  | EGrace nat

definition apply_event :: "engine_env \<Rightarrow> engine_event \<Rightarrow> engine \<Rightarrow> engine_result" where
  "apply_event V ev s =
     (case ev of
        EStart now \<Rightarrow> start V now s
      | ETick now \<Rightarrow> tick V now s
      | EHandle now m \<Rightarrow> handle V now m s
      | EPropose now txs bridge shadow \<Rightarrow>
          (case propose V now txs bridge shadow s of
             None \<Rightarrow> None
           | Some (s', Inl e) \<Rightarrow> emit [] s'
           | Some (s', Inr out) \<Rightarrow> emit out s')
      | EHeartbeat now \<Rightarrow>
          (case send_heartbeat V now s of Inl e \<Rightarrow> emit [] s | Inr (s', out) \<Rightarrow> emit out s')
      | ERotate vset \<Rightarrow>
          (case rotate_validator_set (en_crypto V) vset s of Inl e \<Rightarrow> emit [] s | Inr s' \<Rightarrow> emit [] s')
      | EGrace ms \<Rightarrow> emit [] (set_qc_grace_ms ms s))"

lemma heartbeat_core: "send_heartbeat V now s = Inr (s', out) \<Longrightarrow> core s' = core s"
  using core_on_heartbeat
  by (auto simp: send_heartbeat_def Let_def split_def split: option.splits if_splits)

lemma vs_validate_quorum: "vs_validate s = Inr () \<Longrightarrow> is_ok (vs_quorum s)"
  by (auto simp: vs_validate_def vs_quorum_def split: sum.splits)

lemma event_returns:
  assumes ok: "engine_ok s"
  shows "yields (apply_event V ev s) engine_ok"
proof (cases ev)
  case (EPropose now txs bridge shadow)
  obtain s' r where "propose V now txs bridge shadow s = Some (s', r)" "engine_ok s'"
    using propose_returns [OF ok] by blast
  then show ?thesis by (simp add: apply_event_def EPropose split: sum.splits)
next
  case (EHeartbeat now)
  have "engine_ok s'" if "send_heartbeat V now s = Inr (s', out)" for s' out
    using ok engine_ok_core [OF heartbeat_core [OF that]] by blast
  then show ?thesis using ok by (auto simp: apply_event_def EHeartbeat split: sum.splits)
next
  case (ERotate vset)
  have "engine_ok s'" if "rotate_validator_set (en_crypto V) vset s = Inr s'" for s'
  proof -
    have "vs_validate vset = Inr ()" "\<not> e_round_active s"
      using that by (auto simp: rotate_validator_set_def try_then_Inr split: if_splits)
    moreover have "e_set s' = vset" "e_prevotes s' = e_prevotes s" "e_precommits s' = e_precommits s"
      "e_step s' = e_step s" "e_round_active s' = e_round_active s" "e_round s' = e_round s"
      using that by (auto simp: rotate_validator_set_def try_then_Inr Let_def split: if_splits)
    ultimately show ?thesis
      using ok vs_validate_quorum [of vset] by (simp add: engine_ok_def voters_def)
  qed
  then show ?thesis using ok by (auto simp: apply_event_def ERotate split: sum.splits)
next
  case (EGrace ms)
  have "engine_ok (set_qc_grace_ms ms s)"
    by (rule engine_ok_same_round [OF ok]) (simp_all add: same_round_def set_qc_grace_ms_def)
  then show ?thesis by (simp add: apply_event_def EGrace)
qed (use start_returns tick_returns handle_returns ok in \<open>simp_all add: apply_event_def\<close>)

lemma engine_new_fresh:
  assumes "engine_new E d params vset identity tip tip_set = Inr s"
  shows "vs_validate vset = Inr ()" "params_validate params = Inr ()" "identity_fits E vset identity"
    and "\<exists>ts. s = fresh_engine d params vset identity tip ts \<and> check_tip E d tip ts = Inr ()"
  using assms by (auto simp: engine_new_def try_then_Inr split: if_splits)

lemma engine_new_ok:
  assumes "engine_new E d params vset identity tip tip_set = Inr s"
  shows "engine_ok s"
  using engine_new_fresh [OF assms] vs_validate_quorum [of vset]
  by (auto simp: engine_ok_def fresh_engine_def voters_def)

text \<open>The states (and outputs) an engine reaches from a given state.\<close>

inductive reaches :: "engine_env \<Rightarrow> engine \<Rightarrow> engine_output list \<Rightarrow> engine \<Rightarrow> bool"
  for V :: engine_env and s0 :: engine where
  here: "reaches V s0 [] s0"
| event: "reaches V s0 out s \<Longrightarrow> apply_event V ev s = Some (s', out') \<Longrightarrow> reaches V s0 (out @ out') s'"

lemma reaches_ok: "reaches V s0 out s \<Longrightarrow> engine_ok s0 \<Longrightarrow> engine_ok s"
proof (induction rule: reaches.induct)
  case here
  then show ?case .
next
  case (event out s ev s' out')
  then have "yields (apply_event V ev s) engine_ok" by (intro event_returns) simp
  with event show ?case by (auto simp: yields_def)
qed

text \<open>
  C2: every operation of the host on a constructed engine returns: from any state the engine can
  reach, starting, ticking, handling any message, proposing, sending a heartbeat or rotating the set
  ends within the call depth, however the validators vote, so no message can make the mutually
  recursive handlers run on.
\<close>

theorem engine_always_returns:
  assumes "engine_new (en_crypto V) d params vset identity tip tip_set = Inr s0"
    and "reaches V s0 out s"
  shows "\<exists>s' out'. apply_event V ev s = Some (s', out')"
proof -
  have "yields (apply_event V ev s) engine_ok"
    by (rule event_returns [OF reaches_ok [OF assms(2) engine_new_ok [OF assms(1)]]])
  then show ?thesis by (auto simp: yields_def)
qed

section \<open>A concrete engine\<close>

definition toy_tip :: chain_tip where
  "toy_tip = \<lparr>tip_height = 3, tip_hash = replicate 32 5, tip_qc = None, tip_timestamp_ms = 1000\<rparr>"

definition toy_genesis_tip :: chain_tip where
  "toy_genesis_tip = \<lparr>tip_height = 0, tip_hash = NIL_HASH, tip_qc = None, tip_timestamp_ms = 1000\<rparr>"

definition toy_engine_env :: engine_env where
  "toy_engine_env =
    \<lparr>en_crypto = toy_env, en_hex = toy_hex, en_simulate = (\<lambda>h txs b sv. Inr (replicate 32 3)),
     en_body_bytes = (\<lambda>txs. 8 + length txs), en_disk_ok = (\<lambda>h r st. True), en_values = map snd\<rparr>"

definition toy_engine :: engine where
  "toy_engine =
     fresh_engine sample_domain genesis_defaults toy_set
       (Some \<lparr>id_idx = 1, id_keypair = toy_key 1\<rparr>) toy_genesis_tip toy_set"

lemma toy_set_valid: "vs_validate toy_set = Inr ()"
  using toy_set_len
  by (simp add: vs_validate_def quorum_of_def MIN_VALIDATORS_def MAX_VALIDATORS_HARD_def)
    (simp add: toy_set_def sample_members_def NIL_HASH_def to_ascii_lowercase_def ascii_lower_def
      Let_def)

lemma toy_engine_new:
  "engine_new toy_env sample_domain genesis_defaults toy_set
     (Some \<lparr>id_idx = 1, id_keypair = toy_key 1\<rparr>) toy_genesis_tip None = Inr toy_engine"
proof -
  have "ed_public toy_env k = k" for k by (simp add: toy_env_def)
  then show ?thesis
    using genesis_defaults_valid_core toy_set_valid toy_pubkey [of 1]
    by (simp add: engine_new_def identity_fits_def toy_engine_def check_tip_def toy_genesis_tip_def)
qed

theorem engine_always_returns_witness:
  "\<exists>s' out'. apply_event toy_engine_env (EStart 2000) toy_engine = Some (s', out')"
proof -
  have "engine_new (en_crypto toy_engine_env) sample_domain genesis_defaults toy_set
     (Some \<lparr>id_idx = 1, id_keypair = toy_key 1\<rparr>) toy_genesis_tip None = Inr toy_engine"
    using toy_engine_new by (simp add: toy_engine_env_def)
  from engine_always_returns [OF this reaches.here] show ?thesis .
qed

end
