(* ===== verification/EngineProtocol.thy ===== *)
theory EngineProtocol
  imports EngineTermination
begin

text \<open>
  The protocol the engine implements, as guarded steps on its state, and the refinement: whatever a
  handler does is a sequence of these steps. The safety properties of the engine are invariants of
  the steps (\<open>EngineSafety\<close>).
\<close>

section \<open>Steps\<close>

definition vote_cast :: "engine_output \<Rightarrow> bool" where
  "vote_cast o' = (case o' of Broadcast (MVote _) \<Rightarrow> True | _ \<Rightarrow> False)"

text \<open>Outputs that neither vote, nor commit, nor change the view.\<close>

definition quiet :: "engine_output \<Rightarrow> bool" where
  "quiet o' =
     (case o' of Broadcast m \<Rightarrow> (case m of MVote _ \<Rightarrow> False | _ \<Rightarrow> True)
      | Commit _ \<Rightarrow> False | ViewChange _ _ _ _ \<Rightarrow> False | _ \<Rightarrow> True)"

text \<open>INV-C4: what the lock permits to prevote for.\<close>

definition lock_allows :: "engine \<Rightarrow> hash \<Rightarrow> bool" where
  "lock_allows s bh =
     (case e_locked s of None \<Rightarrow> True
      | Some (lr, lh) \<Rightarrow>
          lh = bh \<or> (\<exists>vr. lr < vr \<and> vr < e_round s \<and> has_quorum_prevotes s vr bh))"

definition may_vote :: "engine \<Rightarrow> vote_phase \<Rightarrow> hash \<Rightarrow> bool" where
  "may_vote s ph bh =
     (case ph of
        Prevote \<Rightarrow> e_step s = SPrevote \<and> (bh = NIL_HASH \<or> lock_allows s bh)
      | Precommit \<Rightarrow> e_step s = SPrecommit \<and> (bh = NIL_HASH \<or> e_locked s = Some (e_round s, bh)))"

definition fresh_slot :: "engine \<Rightarrow> vote \<Rightarrow> bool" where
  "fresh_slot s v = (map_of (slot (book_of (v_phase v) s) (v_round v)) (v_validator_idx v) = None)"

definition good_vote :: "engine_env \<Rightarrow> engine \<Rightarrow> vote \<Rightarrow> bool" where
  "good_vote V s v \<longleftrightarrow>
     \<not> v_shadow v \<and> v_height v = e_height s \<and>
     verify_vote (en_crypto V) v (e_domain s) (e_set s) = Inr ()"

text \<open>The votes the node is sent are in \<open>M\<close>; so are the buffered ones.\<close>

definition heard :: "vote set \<Rightarrow> message \<Rightarrow> bool" where
  "heard M m = (case m of MVote v \<Rightarrow> v \<in> M | _ \<Rightarrow> True)"

definition buffers_heard :: "vote set \<Rightarrow> (nat \<times> message list) list \<Rightarrow> bool" where
  "buffers_heard M b \<longleftrightarrow> (\<forall>q \<in> snd ` set b. list_all (heard M) q)"

definition quorum_in :: "active_validator_set \<Rightarrow> vote_book \<Rightarrow> nat \<Rightarrow> hash \<Rightarrow> bool" where
  "quorum_in S book r h =
     (case vs_quorum S of
        Inl _ \<Rightarrow> False
      | Inr q \<Rightarrow> q \<le> length (filter (\<lambda>(_, v). v_block_hash v = h) (slot book r)))"

lemma has_quorum_quorum_in: "has_quorum_prevotes s r h = quorum_in (e_set s) (e_prevotes s) r h"
  by (simp add: has_quorum_prevotes_def quorum_in_def)

inductive protocol_step ::
  "engine_env \<Rightarrow> vote set \<Rightarrow> nat \<Rightarrow> engine \<Rightarrow> engine_output list \<Rightarrow> engine \<Rightarrow> bool"
  for V :: engine_env and M :: "vote set" and now :: nat where
  bookkeeping:
    "core s' = core s \<Longrightarrow> list_all quiet out \<Longrightarrow> protocol_step V M now s out s'"
| buffer:
    "buffers_heard M b \<Longrightarrow> protocol_step V M now s [] (s\<lparr>e_buffered := b\<rparr>)"
| activate:
    "\<not> e_round_active s \<Longrightarrow> list_all quiet out \<Longrightarrow>
     protocol_step V M now s out (started 0 now None (s\<lparr>e_round_active := True\<rparr>))"
| new_round:
    "e_round_active s \<Longrightarrow> e_round s < r \<Longrightarrow> list_all quiet out \<Longrightarrow>
     protocol_step V M now s (ViewChange (e_height s) (e_round s) r why # out) (started r now (Some why) s)"
| forget:
    "set ps \<subseteq> set (e_proposals s) \<Longrightarrow> protocol_step V M now s [] (s\<lparr>e_proposals := ps\<rparr>)"
| store_future:
    "e_round_active s \<Longrightarrow> e_round s < pr_round p \<Longrightarrow>
     protocol_step V M now s [] (s\<lparr>e_proposals := AList.update (pr_round p) p (e_proposals s)\<rparr>)"
| accept:
    "e_round_active s \<Longrightarrow> check_proposal V p now s = Inr () \<Longrightarrow> pr_round p \<le> e_round s \<Longrightarrow>
     set ps \<subseteq> insert (pr_round p, p) (set (e_proposals s)) \<Longrightarrow>
     protocol_step V M now s []
       (s\<lparr>e_verified := AList.update (pr_block_hash (en_crypto V) p) True (e_verified s),
         e_proposals := ps\<rparr>)"
| own_block:
    "e_round_active s \<Longrightarrow> protocol_step V M now s [] (s\<lparr>e_verified := AList.update bh True (e_verified s)\<rparr>)"
| to_prevote:
    "e_round_active s \<Longrightarrow> e_step s = Propose \<Longrightarrow> protocol_step V M now s [] (s\<lparr>e_step := SPrevote\<rparr>)"
| to_precommit:
    "e_round_active s \<Longrightarrow> e_step s = SPrevote \<Longrightarrow> core s' = core (s\<lparr>e_step := SPrecommit\<rparr>) \<Longrightarrow>
     protocol_step V M now s [] s'"
| hear_vote:
    "e_round_active s \<Longrightarrow> v \<in> M \<Longrightarrow> good_vote V s v \<Longrightarrow> fresh_slot s v \<Longrightarrow>
     protocol_step V M now s [] (record_vote v s)"
| cast_own:
    "e_round_active s \<Longrightarrow> e_identity s = Some i \<Longrightarrow> v = my_vote V i ph bh s \<Longrightarrow> good_vote V s v \<Longrightarrow>
     fresh_slot s v \<Longrightarrow> may_vote s ph bh \<Longrightarrow>
     protocol_step V M now s [Broadcast (MVote v)] (record_vote v s)"
| new_valid:
    "e_round_active s \<Longrightarrow> has_quorum_prevotes s (e_round s) bh \<Longrightarrow>
     protocol_step V M now s [] (s\<lparr>e_valid := Some (e_round s, bh), e_valid_proposal := vp\<rparr>)"
| lock:
    "e_round_active s \<Longrightarrow> e_step s = SPrevote \<Longrightarrow> bh \<noteq> NIL_HASH \<Longrightarrow>
     has_quorum_prevotes s (e_round s) bh \<Longrightarrow>
     protocol_step V M now s []
       (s\<lparr>e_locked := Some (e_round s, bh), e_step := SPrecommit, e_prevote_deadline := None\<rparr>)"
| certify:
    "e_round_active s \<Longrightarrow> verify_qc (en_crypto V) qc (e_domain s) (e_set s) = Inr () \<Longrightarrow>
     q_height qc = e_height s \<Longrightarrow> q_block_hash qc \<noteq> NIL_HASH \<Longrightarrow>
     quorum_in (e_set s) (e_precommits s) (q_round qc) (q_block_hash qc) \<Longrightarrow>
     protocol_step V M now s []
       (s\<lparr>e_pending_qc := Some qc, e_qc_grace_wait := None, e_last_qc_close := c\<rparr>)"
| finalize:
    "e_round_active s \<Longrightarrow> e_pending_qc s = Some qc \<Longrightarrow> pr_block_hash (en_crypto V) p = q_block_hash qc \<Longrightarrow>
     commit V p qc now (s\<lparr>e_verified := vf\<rparr>) = (s', out) \<Longrightarrow> protocol_step V M now s out s'"

text \<open>Sequences of steps, with their outputs in order.\<close>

inductive protocol_steps ::
  "engine_env \<Rightarrow> vote set \<Rightarrow> nat \<Rightarrow> engine \<Rightarrow> engine_output list \<Rightarrow> engine \<Rightarrow> bool"
  for V :: engine_env and M :: "vote set" and now :: nat where
  nil: "protocol_steps V M now s [] s"
| step: "protocol_step V M now s out s1 \<Longrightarrow> protocol_steps V M now s1 out' s' \<Longrightarrow>
     protocol_steps V M now s (out @ out') s'"

lemma steps_one: "protocol_step V M now s out s' \<Longrightarrow> protocol_steps V M now s out s'"
  using protocol_steps.step [OF _ protocol_steps.nil] by fastforce

lemma steps_append:
  "protocol_steps V M now s out s1 \<Longrightarrow> protocol_steps V M now s1 out' s' \<Longrightarrow>
     protocol_steps V M now s (out @ out') s'"
proof (induction rule: protocol_steps.induct)
  case (nil s)
  then show ?case by simp
next
  case (step s o1 s1 o2 s2)
  from protocol_steps.step [OF step.hyps(1) step.IH [OF step.prems]] show ?case by simp
qed

text \<open>What no step changes.\<close>

definition same_rules :: "engine \<Rightarrow> engine \<Rightarrow> bool" where
  "same_rules s s' \<longleftrightarrow> e_set s' = e_set s \<and> e_identity s' = e_identity s \<and>
     e_domain s' = e_domain s \<and> e_params s' = e_params s"

lemma same_rules_core:
  assumes "core s' = core s"
  shows "same_rules s s'"
  unfolding same_rules_def core_fields [OF assms] by simp

lemma started_rules: "same_rules s (started r now why s)"
  unfolding same_rules_def started_def
  by (simp add: core_fields [OF core_ask_proposal] core_fields [OF core_note_view_change])

lemma step_rules: "protocol_step V M now s out s' \<Longrightarrow> same_rules s s'"
proof (induction rule: protocol_step.induct)
  case (bookkeeping s' s out)
  then show ?case by (simp add: same_rules_core)
next
  case (to_precommit s s')
  then show ?case using same_rules_core [OF to_precommit(3)] by (simp add: same_rules_def)
next
  case (new_round s r out why)
  then show ?case by (simp add: started_rules)
next
  case (activate s out)
  then show ?case using started_rules [of "s\<lparr>e_round_active := True\<rparr>"] by (simp add: same_rules_def)
next
  case (finalize s qc p vf s' out)
  then show ?case by (auto simp: commit_def same_rules_def)
qed (simp_all add: same_rules_def)

lemma steps_rules: "protocol_steps V M now s out s' \<Longrightarrow> same_rules s s'"
  by (induction rule: protocol_steps.induct) (use step_rules in \<open>auto simp: same_rules_def\<close>)

section \<open>Refinement\<close>

text \<open>A result that, when it is there, is a sequence of steps.\<close>

definition tracks :: "engine_env \<Rightarrow> vote set \<Rightarrow> nat \<Rightarrow> engine \<Rightarrow> engine_result \<Rightarrow> bool" where
  "tracks V M now s m \<longleftrightarrow> (\<forall>s' out. m = Some (s', out) \<longrightarrow> protocol_steps V M now s out s')"

lemma tracks_emit: "protocol_steps V M now s out s' \<Longrightarrow> tracks V M now s (emit out s')"
  by (simp add: tracks_def)

lemma tracks_here [simp]: "tracks V M now s (emit [] s)"
  by (simp add: tracks_def protocol_steps.nil)

lemma tracks_quiet: "list_all quiet out \<Longrightarrow> core s' = core s \<Longrightarrow> tracks V M now s (emit out s')"
  by (intro tracks_emit steps_one bookkeeping)

lemma tracks_and_then:
  assumes "tracks V M now s m" "\<And>t out. m = Some (t, out) \<Longrightarrow> tracks V M now t (k t)"
  shows "tracks V M now s (and_then m k)"
  unfolding tracks_def
proof (intro allI impI)
  fix s' out
  assume "and_then m k = Some (s', out)"
  then obtain t o1 o2 where "m = Some (t, o1)" "k t = Some (s', o2)" "out = o1 @ o2"
    by (auto elim: and_then_SomeE)
  then show "protocol_steps V M now s out s'"
    using assms steps_append by (auto simp: tracks_def)
qed

lemma tracks_step:
  "protocol_step V M now s [] t \<Longrightarrow> tracks V M now t m \<Longrightarrow> tracks V M now s m"
  unfolding tracks_def using protocol_steps.step by fastforce

lemma quiet_outputs [simp]:
  "quiet (Dropped m)" "quiet (NeedProposal h r)" "quiet (EvidenceOut e)"
  by (simp_all add: quiet_def)

lemma quiet_ask: "list_all quiet (snd (ask_proposal r now s))"
  by (simp add: ask_proposal_def)

lemma quiet_double_vote: "list_all quiet (snd (double_vote a b s))"
  by (simp add: double_vote_def Let_def)

lemma quiet_double_propose: "list_all quiet (snd (double_propose_evidence a b s))"
  by (simp add: double_propose_evidence_def Let_def)

subsection \<open>The pieces of the handlers\<close>

text \<open>
  The node's key is the one its index has in the set, and no certificate is pending between a commit
  and the next start.
\<close>

definition sound_state :: "engine_env \<Rightarrow> vote set \<Rightarrow> engine \<Rightarrow> bool" where
  "sound_state V M s \<longleftrightarrow> identity_fits (en_crypto V) (e_set s) (e_identity s) \<and>
     (\<not> e_round_active s \<longrightarrow> e_pending_qc s = None) \<and> buffers_heard M (e_buffered s)"

lemma sound_core:
  assumes "core s' = core s"
  shows "sound_state V M s' \<longleftrightarrow> sound_state V M s"
  unfolding sound_state_def core_fields [OF assms] by (rule refl)

lemma started_pending: "e_pending_qc (started r now why s) = e_pending_qc s"
  unfolding started_def core_fields [OF core_ask_proposal]
  by (simp add: enter_round_def core_fields [OF core_note_view_change])

lemma started_buffered: "e_buffered (started r now why s) = e_buffered s"
  unfolding started_def core_fields [OF core_ask_proposal]
  by (simp add: enter_round_def core_fields [OF core_note_view_change])

lemma sound_started: "sound_state V M s \<Longrightarrow> sound_state V M (started r now why s)"
  by (simp add: sound_state_def started_fields started_pending started_buffered)

lemma sound_step: "protocol_step V M now s out s' \<Longrightarrow> sound_state V M s \<Longrightarrow> sound_state V M s'"
proof (induction rule: protocol_step.induct)
  case (bookkeeping s' s out)
  then show ?case using sound_core by blast
next
  case (new_round s r out why)
  then show ?case by (simp add: sound_started)
next
  case (activate s out)
  then show ?case using sound_started [of V M "s\<lparr>e_round_active := True\<rparr>"] by (simp add: sound_state_def)
next
  case (to_precommit s s')
  then have "sound_state V M (s\<lparr>e_step := SPrecommit\<rparr>)" by (simp add: sound_state_def)
  then show ?case using sound_core [OF to_precommit(3)] by blast
next
  case (finalize s qc p vf s' out)
  then show ?case by (auto simp: commit_def sound_state_def)
qed (simp_all add: sound_state_def)

lemma sound_steps: "protocol_steps V M now s out s' \<Longrightarrow> sound_state V M s \<Longrightarrow> sound_state V M s'"
  by (induction rule: protocol_steps.induct) (use sound_step in blast)+

lemma collect_qc_tracks:
  assumes "collect_qc V q now rs s = (s', out)" "e_round_active s" "vs_quorum (e_set s) = Inr q"
  shows "protocol_steps V M now s out s'"
  using assms
proof (induction rs arbitrary: s' out)
  case Nil
  then show ?case by (simp add: protocol_steps.nil)
next
  case (Cons r rs)
  show ?case
  proof (cases "quorum_value (e_precommits s) r q")
    case None
    with Cons show ?thesis by simp
  next
    case (Some hv)
    obtain h vs where hv: "hv = (h, vs)" by (cases hv)
    show ?thesis
    proof (cases "h = NIL_HASH")
      case True
      with Some hv Cons show ?thesis by simp
    next
      case False
      show ?thesis
      proof (cases "grace_decision now r h (length vs) s")
        case (KeepWaiting w)
        with Some hv False Cons.prems(1) have "s' = s\<lparr>e_qc_grace_wait := w\<rparr>" "out = []" by simp_all
        then show ?thesis using steps_one [OF bookkeeping [of "s\<lparr>e_qc_grace_wait := w\<rparr>" s "[]"]]
          by (simp add: core_updates)
      next
        case (CloseNow c)
        show ?thesis
        proof (cases "build_qc (en_crypto V) vs (e_domain s) (e_set s) (e_height s) r h")
          case (Inl e)
          obtain t o' where rest: "collect_qc V q now rs s = (t, o')" by fastforce
          with Some hv False CloseNow Inl Cons.prems(1)
          have "s' = t" "out = Dropped ''QC kurulamadi'' # o'" by simp_all
          moreover have "protocol_steps V M now s [Dropped ''QC kurulamadi''] s"
            by (rule steps_one [OF bookkeeping]) simp_all
          ultimately show ?thesis
            using Cons.IH [OF rest Cons.prems(2,3)] steps_append by fastforce
        next
          case (Inr qc)
          with Some hv False CloseNow Cons.prems(1)
          have "s' = s\<lparr>e_pending_qc := Some qc, e_qc_grace_wait := None, e_last_qc_close := c\<rparr>"
            "out = []" by simp_all
          then show ?thesis
            using build_qc_Inr(1-4) [OF Inr] Cons.prems(2,3) False quorum_value_count [OF Some [unfolded hv]]
            by (auto intro!: steps_one certify simp: quorum_in_def)
        qed
      qed
    qed
  qed
qed

lemma body_for_hash: "body_for V bh s = Some p \<Longrightarrow> pr_block_hash (en_crypto V) p = bh"
  by (auto simp: body_for_def find_Some_iff split: option.splits if_splits)

lemma commit_stage_tracks:
  assumes "commit_stage V now s = Some (s', out)" "e_round_active s"
  shows "protocol_steps V M now s out s'"
  using assms(1)
proof (cases rule: commit_stage_cases)
  case (commit qc p vf)
  then show ?thesis
    using assms(2) body_for_hash by (auto intro!: steps_one finalize)
next
  case (drop qc)
  let ?ps = "filter (\<lambda>(_, p'). pr_block_hash (en_crypto V) p' \<noteq> q_block_hash qc) (e_proposals s)"
  have "protocol_step V M now s [] (s\<lparr>e_proposals := ?ps\<rparr>)" by (rule forget) auto
  moreover have "protocol_step V M now (s\<lparr>e_proposals := ?ps\<rparr>) out s'"
    using drop by (auto intro: bookkeeping)
  ultimately show ?thesis
    using steps_append [OF steps_one steps_one] by fastforce
qed

subsection \<open>When a handler may be called\<close>

definition callable :: "engine_env \<Rightarrow> vote set \<Rightarrow> call \<Rightarrow> engine \<Rightarrow> bool" where
  "callable V M c s \<longleftrightarrow> sound_state V M s \<and>
     (case c of
        CStartRound r why \<Rightarrow> why \<noteq> None \<and> e_round_active s \<and> e_round s < r \<and> ok_above r s
      | COnProposal p \<Rightarrow> e_round_active s \<and> engine_ok s
      | CCastVote ph bh \<Rightarrow> e_round_active s \<and> engine_ok s \<and> may_vote s ph bh
      | COnVote v \<Rightarrow> e_round_active s \<and> engine_ok s \<and> v_height v = e_height s \<and> v \<in> M
      | CTryAdvance \<Rightarrow> engine_ok s)"

lemma result_ok:
  assumes "callable V M c s" "exec V now k c s = Some (s', out)"
  shows "engine_ok s'"
proof (cases c)
  case (CStartRound r why)
  then show ?thesis
    using assms returns_exec [OF run_round] by (auto simp: callable_def)
next
  case (COnProposal p)
  then show ?thesis
    using assms returns_exec [OF run_proposal] by (auto simp: callable_def)
next
  case (CCastVote ph bh)
  then show ?thesis
    using assms returns_exec [OF run_cast] by (auto simp: callable_def)
next
  case (COnVote v)
  then show ?thesis
    using assms returns_exec [OF run_vote] by (auto simp: callable_def)
next
  case CTryAdvance
  then show ?thesis
    using assms returns_exec [OF run_advance] by (auto simp: callable_def)
qed

definition all_track :: "engine_env \<Rightarrow> vote set \<Rightarrow> nat \<Rightarrow> nat \<Rightarrow> bool" where
  "all_track V M now k \<longleftrightarrow> (\<forall>j < k. \<forall>c s. callable V M c s \<longrightarrow> tracks V M now s (exec V now j c s))"

lemma all_trackD:
  "all_track V M now k \<Longrightarrow> j < k \<Longrightarrow> callable V M c s \<Longrightarrow> tracks V M now s (exec V now j c s)"
  by (simp add: all_track_def)

lemma tracks_sound: "tracks V M now s m \<Longrightarrow> m = Some (s', out) \<Longrightarrow> sound_state V M s \<Longrightarrow> sound_state V M s'"
  unfolding tracks_def using sound_steps by blast

text \<open>Advancing after another call: the state is again well-formed.\<close>

lemma tracks_then_advance:
  assumes all: "all_track V M now k" "j < k" and sound: "sound_state V M s"
    and m: "tracks V M now s m" and ok: "\<And>t out. m = Some (t, out) \<Longrightarrow> engine_ok t"
  shows "tracks V M now s (and_then m (exec V now j CTryAdvance))"
proof (rule tracks_and_then [OF m])
  fix t out
  assume "m = Some (t, out)"
  then have "callable V M CTryAdvance t"
    using ok tracks_sound [OF m _ sound] by (simp add: callable_def)
  then show "tracks V M now t (exec V now j CTryAdvance t)"
    by (rule all_trackD [OF all])
qed

subsection \<open>Each handler\<close>

lemma start_round_tracks:
  assumes all: "all_track V M now (Suc k)" and pre: "callable V M (CStartRound r (Some why)) s"
  shows "tracks V M now s (start_round_body (exec V now k) r now (Some why) s)"
proof -
  let ?s0 = "started r now (Some why) s"
  have ok0: "engine_ok ?s0" and act0: "e_round_active ?s0" and sound0: "sound_state V M ?s0"
    using pre started_ok sound_started by (auto simp: callable_def started_fields)
  have "protocol_steps V M now s (snd (note_view_change r (Some why) s) @
      snd (ask_proposal r now (enter_round r now (fst (note_view_change r (Some why) s))))) ?s0"
    using pre quiet_ask by (auto simp: note_view_change_def Let_def callable_def intro!: steps_one new_round)
  moreover have "tracks V M now ?s0 (and_then
      (case map_of (e_proposals ?s0) r of
         Some p \<Rightarrow> exec V now k (COnProposal p) (?s0\<lparr>e_proposals := AList.delete r (e_proposals ?s0)\<rparr>)
       | None \<Rightarrow> emit [] ?s0) (exec V now k CTryAdvance))"
  proof (cases "map_of (e_proposals ?s0) r")
    case None
    then show ?thesis
      using ok0 sound0 by (auto intro!: tracks_then_advance [OF all])
  next
    case (Some p)
    let ?t = "?s0\<lparr>e_proposals := AList.delete r (e_proposals ?s0)\<rparr>"
    have "engine_ok ?t" by (rule engine_ok_active [OF ok0 _ act0]) (simp add: same_round_def)
    then have call: "callable V M (COnProposal p) ?t"
      using act0 sound0 by (simp add: callable_def sound_state_def)
    have "set (AList.delete r (e_proposals ?s0)) \<subseteq> set (e_proposals ?s0)"
      by (auto simp: AList.delete_eq)
    then have "protocol_step V M now ?s0 [] ?t" by (rule forget)
    then have "tracks V M now ?s0 (exec V now k (COnProposal p) ?t)"
      by (rule tracks_step) (rule all_trackD [OF all _ call], simp)
    then have "tracks V M now ?s0 (and_then (exec V now k (COnProposal p) ?t) (exec V now k CTryAdvance))"
      by (rule tracks_then_advance [OF all lessI sound0]) (use result_ok [OF call] in auto)
    then show ?thesis using Some by simp
  qed
  ultimately show ?thesis
    unfolding start_round_eq by (intro tracks_and_then [OF tracks_emit]) (auto simp only: emit_Some)
qed

lemma prevote_choice_allowed:
  "prevote_choice s valid bh vr = NIL_HASH \<or> lock_allows s (prevote_choice s valid bh vr)"
  by (auto simp: prevote_choice_def lock_allows_def split: option.splits if_splits)

lemma has_quorum_cong:
  "e_set s' = e_set s \<Longrightarrow> e_prevotes s' = e_prevotes s \<Longrightarrow>
     has_quorum_prevotes s' r h = has_quorum_prevotes s r h"
  unfolding has_quorum_prevotes_def by (simp split: sum.split)

lemma lock_allows_step: "lock_allows (s\<lparr>e_step := st\<rparr>) bh = lock_allows s bh"
proof -
  have "has_quorum_prevotes (s\<lparr>e_step := st\<rparr>) r bh = has_quorum_prevotes s r bh" for r
    by (rule has_quorum_cong) simp_all
  then show ?thesis by (simp add: lock_allows_def split: option.split)
qed

lemma on_proposal_tracks:
  assumes all: "all_track V M now (Suc k)" and pre: "callable V M (COnProposal p) s"
  shows "tracks V M now s (on_proposal_body V (exec V now k) p now s)"
proof -
  have ok: "engine_ok s" and act: "e_round_active s" and sound: "sound_state V M s"
    using pre by (simp_all add: callable_def)
  have dp: "tracks V M now s (emit (snd (double_propose_evidence a b s) @ [Dropped m])
      (fst (double_propose_evidence a b s)))" for a b m
    by (rule tracks_quiet) (simp_all add: quiet_double_propose core_double_propose)
  have drop: "tracks V M now s (emit [Dropped m] s)" for m
    by (rule tracks_quiet) simp_all
  have future: "tracks V M now s (on_future_proposal V p s)" if "e_round s < pr_round p"
  proof -
    let ?t = "s\<lparr>e_proposals := AList.update (pr_round p) p (e_proposals s)\<rparr>"
    have "tracks V M now s (emit [Dropped m] ?t)" for m
      by (rule tracks_step [OF store_future [OF act that]]) (rule tracks_quiet, simp_all)
    with dp drop show ?thesis
      by (auto simp: on_future_proposal_def Let_def split_def split: option.splits)
  qed
  have accepted: "tracks V M now s m" if "check_proposal V p now s = Inr ()" "pr_round p \<le> e_round s"
      "set ps \<subseteq> insert (pr_round p, p) (set (e_proposals s))"
      "tracks V M now (s\<lparr>e_verified := AList.update (pr_block_hash (en_crypto V) p) True (e_verified s),
         e_proposals := ps\<rparr>) m" for ps m
    by (rule tracks_step [OF accept [OF act that(1-3)] that(4)])
  have okv: "callable V M CTryAdvance (s\<lparr>e_verified := vf, e_proposals := ps\<rparr>)" for vf ps
    using engine_ok_active [OF ok _ act] sound by (simp add: callable_def same_round_def sound_state_def)
  have old: "tracks V M now s (on_old_proposal V (exec V now k) p now s)" if "pr_round p < e_round s"
  proof (cases "check_proposal V p now s")
    case (Inl e)
    with drop show ?thesis by (simp add: on_old_proposal_def Let_def)
  next
    case (Inr u)
    have "set (or_insert (pr_round p) p (e_proposals s)) \<subseteq> insert (pr_round p, p) (set (e_proposals s))"
      using set_update_subset [of "pr_round p" p "e_proposals s"] by (auto simp: or_insert_def)
    then have "tracks V M now s (exec V now k CTryAdvance
        (s\<lparr>e_verified := AList.update (pr_block_hash (en_crypto V) p) True (e_verified s),
          e_proposals := or_insert (pr_round p) p (e_proposals s)\<rparr>))"
      by (rule accepted [rotated 2]) (use Inr that all_trackD [OF all _ okv] in simp_all)
    then show ?thesis using Inr drop by (simp add: on_old_proposal_def Let_def)
  qed
  have current: "tracks V M now s (on_current_proposal V (exec V now k) p now s)"
    if rnd: "pr_round p = e_round s"
  proof (cases "map_of (e_proposals s) (pr_round p)")
    case (Some e)
    then show ?thesis
      using dp drop by (simp add: on_current_proposal_def Let_def split_def)
  next
    case None
    define valid where "valid = is_ok (check_proposal V p now s)"
    define s1 where "s1 = (if valid
      then s\<lparr>e_verified := AList.update (pr_block_hash (en_crypto V) p) True (e_verified s),
             e_proposals := AList.update (pr_round p) p (e_proposals s)\<rparr> else s)"
    have c1: "callable V M CTryAdvance s1" and act1: "e_round_active s1"
      using okv ok sound act by (auto simp: s1_def callable_def)
    then have ok1: "engine_ok s1" and sound1: "sound_state V M s1" by (simp_all add: callable_def)
    have step1: "protocol_steps V M now s [] s1"
    proof (cases valid)
      case True
      then have "protocol_step V M now s [] s1"
        unfolding s1_def using accept [OF act _ _ set_update_subset, where p = p] rnd
        by (simp add: valid_def)
      then show ?thesis by (rule steps_one)
    next
      case False
      then show ?thesis by (simp add: s1_def protocol_steps.nil)
    qed
    have eq: "on_current_proposal V (exec V now k) p now s =
        and_then (emit (if valid then [] else [Dropped ''oneri gecersiz'']) s1)
          (\<lambda>s. and_then
             (if e_step s = Propose
              then exec V now k (CCastVote Prevote (prevote_choice s valid (pr_block_hash (en_crypto V) p)
                     (pr_valid_round p))) (s\<lparr>e_step := SPrevote\<rparr>)
              else emit [] s)
             (exec V now k CTryAdvance))"
      by (simp only: on_current_proposal_def None Let_def valid_def s1_def option.case)
    have out0: "tracks V M now s (emit (if valid then [] else [Dropped ''oneri gecersiz'']) s1)"
    proof -
      have "protocol_steps V M now s1 (if valid then [] else [Dropped ''oneri gecersiz'']) s1"
        by (intro steps_one bookkeeping) simp_all
      from steps_append [OF step1 this] show ?thesis by (simp add: tracks_emit)
    qed
    have rest: "tracks V M now s1 (and_then
             (if e_step s1 = Propose
              then exec V now k (CCastVote Prevote (prevote_choice s1 valid (pr_block_hash (en_crypto V) p)
                     (pr_valid_round p))) (s1\<lparr>e_step := SPrevote\<rparr>)
              else emit [] s1)
             (exec V now k CTryAdvance))"
    proof (cases "e_step s1 = Propose")
      case False
      then show ?thesis
        using ok1 sound1 by (auto intro!: tracks_then_advance [OF all])
    next
      case True
      let ?bh = "prevote_choice s1 valid (pr_block_hash (en_crypto V) p) (pr_valid_round p)"
      have "engine_ok (s1\<lparr>e_step := SPrevote\<rparr>)"
        by (rule engine_ok_active [OF ok1 _ act1]) (simp add: same_round_def)
      moreover have "may_vote (s1\<lparr>e_step := SPrevote\<rparr>) Prevote ?bh"
        using prevote_choice_allowed [of s1 valid "pr_block_hash (en_crypto V) p" "pr_valid_round p"]
        by (simp add: may_vote_def lock_allows_step)
      ultimately have call: "callable V M (CCastVote Prevote ?bh) (s1\<lparr>e_step := SPrevote\<rparr>)"
        using act1 sound1 by (simp add: callable_def sound_state_def)
      have "tracks V M now s1 (exec V now k (CCastVote Prevote ?bh) (s1\<lparr>e_step := SPrevote\<rparr>))"
        by (rule tracks_step [OF to_prevote [OF act1 True]]) (rule all_trackD [OF all _ call], simp)
      then have "tracks V M now s1 (and_then
          (exec V now k (CCastVote Prevote ?bh) (s1\<lparr>e_step := SPrevote\<rparr>)) (exec V now k CTryAdvance))"
        by (rule tracks_then_advance [OF all lessI sound1]) (use result_ok [OF call] in auto)
      with True show ?thesis by simp
    qed
    show ?thesis
      unfolding eq by (rule tracks_and_then [OF out0]) (use rest in simp)
  qed
  show ?thesis
    using future old current drop by (auto simp: on_proposal_body_def split: option.splits)
qed

lemma on_vote_tracks:
  assumes all: "all_track V M now (Suc k)" and pre: "callable V M (COnVote v) s"
  shows "tracks V M now s (on_vote_body V (exec V now k) v s)"
proof -
  have ok: "engine_ok s" and act: "e_round_active s" and sound: "sound_state V M s"
    and h: "v_height v = e_height s" and vM: "v \<in> M"
    using pre by (simp_all add: callable_def)
  have dv: "tracks V M now s (emit (snd (double_vote a b s) @ [Dropped m]) (fst (double_vote a b s)))" for a b m
    by (rule tracks_quiet) (simp_all add: quiet_double_vote core_double_vote)
  have drop: "tracks V M now s (emit [Dropped m] s)" for m
    by (rule tracks_quiet) simp_all
  let ?s1 = "record_vote v s"
  have sound1: "sound_state V M ?s1" using sound by (simp add: sound_state_def)
  have recorded: "tracks V M now s
      (if e_round ?s1 < v_round v \<and> tol ?s1 < distinct_voters_at ?s1 (v_round v)
       then exec V now k (CStartRound (v_round v) (Some RoundSkip)) ?s1
       else exec V now k CTryAdvance ?s1)"
    if good: "good_vote V s v" and fresh: "fresh_slot s v"
  proof (rule tracks_step [OF hear_vote [OF act vM good fresh]])
    show "tracks V M now ?s1
      (if e_round ?s1 < v_round v \<and> tol ?s1 < distinct_voters_at ?s1 (v_round v)
       then exec V now k (CStartRound (v_round v) (Some RoundSkip)) ?s1
       else exec V now k CTryAdvance ?s1)"
    proof (cases "e_round s < v_round v")
      case True
      note later = record_later [OF ok act True]
      have "callable V M (CStartRound (v_round v) (Some RoundSkip)) ?s1"
        using later(1) True act sound1 by (simp add: callable_def)
      moreover have "callable V M CTryAdvance ?s1" if "\<not> tol ?s1 < distinct_voters_at ?s1 (v_round v)"
        using later(2) that sound1 by (simp add: callable_def distinct_voters_at_card)
      ultimately show ?thesis
        using all_trackD [OF all] True by auto
    next
      case False
      then have "callable V M CTryAdvance ?s1"
        using engine_ok_record [OF ok act] sound1 by (simp add: callable_def)
      with False show ?thesis using all_trackD [OF all] by auto
    qed
  qed
  show ?thesis
    using dv drop recorded h
    by (auto simp: on_vote_body_def Let_def split_def good_vote_def fresh_slot_def split: option.splits)
qed

lemma own_vote_good:
  assumes ed: "ed25519_correct (en_crypto V)" and sound: "sound_state V M s"
    and i: "e_identity s = Some i"
  shows "good_vote V s (my_vote V i ph bh s)"
proof -
  have "pubkey_of (e_set s) (id_idx i) = Some (ed_public (en_crypto V) (id_keypair i))"
    using sound i by (simp add: sound_state_def identity_fits_def)
  then have "verify_vote (en_crypto V) (my_vote V i ph bh s) (e_domain s) (e_set s) = Inr ()"
    unfolding my_vote_def by (intro votes.sign_verifies [OF ed]) (simp_all add: sign_vote_def)
  then show ?thesis by (simp add: good_vote_def)
qed

lemma may_vote_core:
  assumes "core s' = core s"
  shows "may_vote s' ph bh = may_vote s ph bh"
  unfolding may_vote_def lock_allows_def has_quorum_prevotes_def core_fields [OF assms] by (rule refl)

lemma book_of_core:
  assumes "core s' = core s"
  shows "book_of ph s' = book_of ph s"
  unfolding book_of_def core_fields [OF assms] by (rule refl)

lemma cast_vote_tracks:
  assumes ed: "ed25519_correct (en_crypto V)"
    and all: "all_track V M now (Suc k)" and pre: "callable V M (CCastVote ph bh) s"
  shows "tracks V M now s (cast_vote_body V (exec V now k) ph bh now s)"
proof (cases "e_identity s")
  case None
  have "tracks V M now s (emit [] (arm_timer ph now s))"
    by (rule tracks_quiet) (simp_all add: core_arm_timer)
  then show ?thesis using None by (simp add: cast_vote_body_def)
next
  case (Some i)
  have ok: "engine_ok s" and act: "e_round_active s" and sound: "sound_state V M s"
    and may: "may_vote s ph bh"
    using pre by (simp_all add: callable_def)
  obtain okd s1 where g: "guard_sign V (e_height s) (e_round s) (case ph of Prevote \<Rightarrow> 1 | Precommit \<Rightarrow> 2) bh s =
      (okd, s1)"
    by fastforce
  let ?s2 = "arm_timer ph now s1"
  have core1: "core s1 = core s" using core_guard_sign g by (metis snd_conv)
  then have core2: "core ?s2 = core s" by (simp add: core_arm_timer)
  have v1: "my_vote V i ph bh s1 = my_vote V i ph bh ?s2"
    unfolding my_vote_def core_fields [OF core1] core_fields [OF core2] by (rule refl)
  let ?v = "my_vote V i ph bh ?s2"
  show ?thesis
  proof (cases "map_of (slot (book_of ph s) (e_round s)) (id_idx i)")
    case (Some w)
    then show ?thesis using \<open>e_identity s = Some i\<close> by (simp add: cast_vote_body_def)
  next
    case None
    have eq: "cast_vote_body V (exec V now k) ph bh now s =
        (if \<not> okd then emit [] ?s2
         else and_then (emit [Broadcast (MVote ?v)] ?s2) (exec V now k (COnVote ?v)))"
      using None \<open>e_identity s = Some i\<close> g by (simp add: cast_vote_body_def Let_def v1)
    have i2: "e_identity ?s2 = Some i" "sound_state V M ?s2" "e_round_active ?s2" "engine_ok ?s2"
      using \<open>e_identity s = Some i\<close> act sound sound_core [OF core2]
        core_fields [OF core2] ok engine_ok_core [OF core2] by simp_all
    have good: "good_vote V ?s2 ?v" by (rule own_vote_good [OF ed i2(2,1)])
    have fresh: "fresh_slot ?s2 ?v"
      using None book_of_core [OF core2] core_fields [OF core2] by (simp add: fresh_slot_def)
    show ?thesis
    proof (cases okd)
      case False
      then show ?thesis unfolding eq by (auto intro: tracks_quiet simp: core2)
    next
      case True
      show ?thesis
      proof (cases k)
        case 0
        then show ?thesis unfolding eq by (simp add: True tracks_def and_then_def emit_def)
      next
        case (Suc j)
        let ?s3 = "record_vote ?v ?s2"
        have run: "exec V now k (COnVote ?v) ?s2 = exec V now j CTryAdvance ?s3"
          using good fresh Suc
          by (simp add: body_def on_vote_body_def good_vote_def fresh_slot_def Let_def)
        have "callable V M CTryAdvance ?s3"
          using engine_ok_record [OF i2(4,3), of ?v] i2(2) by (simp add: callable_def sound_state_def)
        then have rest: "tracks V M now ?s3 (exec V now j CTryAdvance ?s3)"
          using all_trackD [OF all] Suc by simp
        have "protocol_steps V M now s [] ?s2" by (intro steps_one bookkeeping) (simp_all add: core2)
        moreover have "protocol_steps V M now ?s2 [Broadcast (MVote ?v)] ?s3"
          using may may_vote_core [OF core2] good fresh i2 by (intro steps_one cast_own) simp_all
        ultimately have own: "protocol_steps V M now s [Broadcast (MVote ?v)] ?s3"
          using steps_append by fastforce
        show ?thesis
          using own rest True unfolding eq
          by (auto simp: run tracks_def and_then_Some intro: steps_append [of V M now s "[Broadcast (MVote ?v)]", simplified])
      qed
    qed
  qed
qed

subsection \<open>Advancing\<close>

lemma quorum_has_prevotes:
  assumes "quorum_value (e_prevotes s) r q = Some (h, vs)" "vs_quorum (e_set s) = Inr q"
  shows "has_quorum_prevotes s r h"
  using quorum_value_count [OF assms(1)] assms(2) by (simp add: has_quorum_prevotes_def)

text \<open>The state with its valid value noted, as \<open>prevote_stage\<close> does once a value has its quorum.\<close>

definition with_valid :: "hash \<Rightarrow> engine \<Rightarrow> engine" where
  "with_valid h s = (if e_step s \<noteq> Propose
     then s\<lparr>e_valid := Some (e_round s, h), e_valid_proposal := map_of (e_proposals s) (e_round s)\<rparr> else s)"

lemma with_valid_fields [simp]:
  "same_round s (with_valid h s)" "e_step (with_valid h s) = e_step s"
  "e_round (with_valid h s) = e_round s" "e_round_active (with_valid h s) = e_round_active s"
  "sound_state V M (with_valid h s) = sound_state V M s" "e_set (with_valid h s) = e_set s"
  "e_prevotes (with_valid h s) = e_prevotes s"
  by (simp_all add: with_valid_def same_round_def sound_state_def)

lemma prevote_stage_value:
  assumes "quorum_value (e_prevotes s) (e_round s) q = Some (h, vs)" "h \<noteq> NIL_HASH"
  shows "prevote_stage V rec q (e_round s) s =
    (if map_option (pr_block_hash (en_crypto V)) (map_of (e_proposals s) (e_round s)) = Some h
     then (if e_step (with_valid h s) = SPrevote
           then rec (CCastVote Precommit h)
             ((with_valid h s)\<lparr>e_locked := Some (e_round s, h), e_step := SPrecommit,
                               e_prevote_deadline := None\<rparr>)
           else emit [] (with_valid h s))
     else emit [] s)"
  using assms(2)
  by (simp only: prevote_stage_def assms(1) option.case prod.case Let_def with_valid_def if_True not_False_eq_True)

lemma prevote_stage_leaves:
  assumes ok: "engine_ok s" and act: "e_round_active s"
    and run: "prevote_stage V (exec V now k) q (e_round s) s = Some (t, out)"
  shows "leaves s t"
proof -
  have same: "leaves s s'" if "same_round s s'" "e_step s' = e_step s" for s'
    using engine_ok_same_round [OF ok that(1)] that by (simp add: leaves_def same_round_def)
  have cast: "leaves s t" if "exec V now k (CCastVote Precommit h) s' = Some (t, out)"
      "same_round s s'" "e_step s' = SPrecommit" for h s'
    using returns_exec [OF run_cast_precommit [OF engine_ok_active [OF ok that(2) act] that(3)] that(1)] that(2)
    by (simp add: leaves_def same_round_def)
  consider (quiet) s' where "t = s'" "same_round s s'" "e_step s' = e_step s"
    | (cast) h s' where "exec V now k (CCastVote Precommit h) s' = Some (t, out)" "same_round s s'"
        "e_step s' = SPrecommit"
  proof (cases "quorum_value (e_prevotes s) (e_round s) q")
    case None
    then show ?thesis using run quiet [of s] by (simp add: prevote_stage_def)
  next
    case (Some hv)
    obtain h vs where hv: "hv = (h, vs)" by (cases hv)
    show ?thesis
    proof (cases "h \<noteq> NIL_HASH")
      case True
      let ?t = "(with_valid h s)\<lparr>e_locked := Some (e_round s, h), e_step := SPrecommit,
                               e_prevote_deadline := None\<rparr>"
      have "same_round s ?t" using with_valid_fields(1) [of s h] by (simp add: same_round_def)
      then show ?thesis
        using run Some hv prevote_stage_value [OF _ True, of s q vs V "exec V now k"]
          quiet [of s] quiet [of "with_valid h s"] cast [of h ?t]
        by (auto split: if_splits)
    next
      case False
      with run Some hv show ?thesis
        using quiet [of s] cast [of NIL_HASH "s\<lparr>e_step := SPrecommit, e_prevote_deadline := None\<rparr>"]
        by (auto simp: prevote_stage_def same_round_def split: if_splits)
    qed
  qed
  then show ?thesis using same cast by cases blast+
qed

lemma prevote_stage_tracks:
  assumes all: "all_track V M now (Suc k)" and ok: "engine_ok s" and act: "e_round_active s"
    and sound: "sound_state V M s" and q: "vs_quorum (e_set s) = Inr q"
  shows "tracks V M now s (prevote_stage V (exec V now k) q (e_round s) s)"
proof (cases "quorum_value (e_prevotes s) (e_round s) q")
  case None
  then show ?thesis by (simp add: prevote_stage_def)
next
  case (Some hv)
  then obtain h vs where qv: "quorum_value (e_prevotes s) (e_round s) q = Some (h, vs)"
    by (cases hv) simp
  have hq: "has_quorum_prevotes s (e_round s) h" by (rule quorum_has_prevotes [OF qv q])
  have cast: "tracks V M now t (exec V now k (CCastVote Precommit bh) t)"
    if "same_round s t" "e_step t = SPrecommit" "bh = NIL_HASH \<or> e_locked t = Some (e_round s, bh)"
      "sound_state V M t" for t bh
    by (rule all_trackD [OF all])
      (use that engine_ok_active [OF ok that(1) act] act in
        \<open>auto simp: callable_def may_vote_def same_round_def\<close>)
  show ?thesis
  proof (cases "h = NIL_HASH")
    case True
    have "tracks V M now s (exec V now k (CCastVote Precommit NIL_HASH)
        (s\<lparr>e_step := SPrecommit, e_prevote_deadline := None\<rparr>))" if "e_step s = SPrevote"
    proof (rule tracks_step [OF to_precommit [OF act that]])
      show "core (s\<lparr>e_step := SPrecommit, e_prevote_deadline := None\<rparr>) = core (s\<lparr>e_step := SPrecommit\<rparr>)"
        by (simp add: core_def)
      show "tracks V M now (s\<lparr>e_step := SPrecommit, e_prevote_deadline := None\<rparr>)
        (exec V now k (CCastVote Precommit NIL_HASH) (s\<lparr>e_step := SPrecommit, e_prevote_deadline := None\<rparr>))"
        by (rule cast) (use sound in \<open>simp_all add: same_round_def sound_state_def\<close>)
    qed
    with True qv show ?thesis by (simp add: prevote_stage_def)
  next
    case False
    define s1 where "s1 = with_valid h s"
    have s1: "same_round s s1" "e_step s1 = e_step s" "sound_state V M s1"
      using sound by (simp_all add: s1_def)
    have steps1: "protocol_steps V M now s [] s1"
      using steps_one [OF new_valid [OF act hq]] by (simp add: s1_def with_valid_def protocol_steps.nil)
    have r1: "e_round s1 = e_round s" "e_round_active s1"
      using s1(1) act by (simp_all add: same_round_def)
    have hq1: "has_quorum_prevotes s1 (e_round s1) h"
      using hq s1(1) has_quorum_cong [of s1 s] by (simp add: same_round_def)
    have lock: "tracks V M now s1 (exec V now k (CCastVote Precommit h)
        (s1\<lparr>e_locked := Some (e_round s, h), e_step := SPrecommit, e_prevote_deadline := None\<rparr>))"
      if "e_step s1 = SPrevote"
      unfolding r1(1) [symmetric]
      by (rule tracks_step [OF protocol_step.lock [OF r1(2) that False hq1]], rule cast)
        (use s1 in \<open>simp_all add: same_round_def sound_state_def\<close>)
    have t1: "tracks V M now s m" if "tracks V M now s1 m" for m
      using that steps_append [OF steps1] by (auto simp: tracks_def)
    note eq = prevote_stage_value [OF qv False, of V "exec V now k", folded s1_def]
    show ?thesis
      unfolding eq using t1 [OF lock] t1 [OF tracks_here] by simp
  qed
qed

lemma try_advance_tracks:
  assumes all: "all_track V M now (Suc k)" and pre: "callable V M CTryAdvance s"
  shows "tracks V M now s (try_advance_body V (exec V now k) now s)"
proof (cases "e_round_active s")
  case False
  then show ?thesis by (simp add: try_advance_tail)
next
  case True
  have ok: "engine_ok s" and sound: "sound_state V M s" using pre by (simp_all add: callable_def)
  obtain q where q: "vs_quorum (e_set s) = Inr q"
    using ok by (auto simp: engine_ok_def is_ok_iff)
  note pre_tr = prevote_stage_tracks [OF all ok True sound q]
  have "tracks V M now t (advance_tail V (exec V now k) now q (e_round s) t)"
    if run: "prevote_stage V (exec V now k) q (e_round s) s = Some (t, out)" for t out
  proof -
    have lv: "leaves s t" by (rule prevote_stage_leaves [OF ok True run])
    have lv_steps: "e_set t = e_set s"
      using pre_tr run steps_rules by (auto simp: tracks_def same_rules_def)
    have okt: "engine_ok t" and soundt: "sound_state V M t"
      using lv tracks_sound [OF pre_tr run sound] by (simp_all add: leaves_def)
    obtain s1 out1 where qc: "qc_stage V q now t = (s1, out1)" by fastforce
    note f1 = qc_stage_fields [OF qc]
    have ok1: "engine_ok s1" using engine_ok_same_round [OF okt f1(1)] f1(2) by blast
    have act_if: "e_round_active t" if "e_precommits t \<noteq> []"
      using okt that by (auto simp: engine_ok_def)
    have steps1: "protocol_steps V M now t out1 s1"
    proof (cases "e_round_active t")
      case True
      have "vs_quorum (e_set t) = Inr q"
        using lv_steps q by simp
      with qc collect_qc_tracks True show ?thesis
        by (auto simp: qc_stage_def protocol_steps.nil split: if_splits)
    next
      case False
      then have "e_precommits t = []" using act_if by blast
      with qc show ?thesis by (auto simp: qc_stage_def protocol_steps.nil split: if_splits)
    qed
    have nil: "tracks V M now s1 (nil_stage (exec V now k) q (e_round s) s1)"
    proof -
      have "callable V M (CStartRound (e_round s + 1) (Some NilQuorum)) s1" if "e_step s1 = SPrecommit"
      proof -
        have "e_step t = SPrecommit" using that f1(2) by simp
        then have "e_round t = e_round s" using lv by (simp add: leaves_def)
        then have "e_round s1 = e_round s" using f1(1) by (simp add: same_round_def)
        moreover have "sound_state V M s1"
          using sound_steps [OF steps1 soundt] .
        moreover have "e_round_active s1" using ok1 that by (auto simp: engine_ok_def)
        ultimately show ?thesis
          using engine_ok_above [OF ok1, of "e_round s + 1"] by (simp add: callable_def)
      qed
      then show ?thesis
        using all_trackD [OF all lessI]
        by (auto simp: nil_stage_def split: option.splits)
    qed
    have fin: "tracks V M now s1 (case commit_stage V now s1 of
        Some (s2, out2) \<Rightarrow> emit out2 s2 | None \<Rightarrow> nil_stage (exec V now k) q (e_round s) s1)"
    proof (cases "commit_stage V now s1")
      case None
      with nil show ?thesis by simp
    next
      case (Some r)
      obtain s2 out2 where r: "r = (s2, out2)" by (cases r)
      have "e_pending_qc s1 \<noteq> None"
        using Some by (auto simp: commit_stage_def split: option.splits)
      then have "e_round_active s1"
        using sound_steps [OF steps1 soundt] by (auto simp: sound_state_def)
      then have "protocol_steps V M now s1 out2 s2"
        using commit_stage_tracks Some r by blast
      then show ?thesis using Some r by (simp add: tracks_emit)
    qed
    show ?thesis
      unfolding advance_tail_def qc Let_def prod.case
      by (rule tracks_and_then [OF tracks_emit [OF steps1]]) (use fin in simp)
  qed
  then show ?thesis
    using True q by (auto simp: try_advance_tail intro: tracks_and_then [OF pre_tr])
qed

subsection \<open>Calls and events\<close>

lemma exec_tracks:
  assumes ed: "ed25519_correct (en_crypto V)"
  shows "callable V M c s \<Longrightarrow> tracks V M now s (exec V now k c s)"
proof (induction k arbitrary: c s rule: less_induct)
  case (less k)
  show ?case
  proof (cases k)
    case 0
    then show ?thesis by (simp add: tracks_def)
  next
    case (Suc j)
    have all: "all_track V M now (Suc j)"
      using less.IH Suc by (simp add: all_track_def)
    show ?thesis
    proof (cases c)
      case (CStartRound r why)
      with less.prems obtain w where "why = Some w" by (auto simp: callable_def)
      with CStartRound less.prems show ?thesis
        using start_round_tracks [OF all] by (simp add: Suc body_def)
    next
      case (COnProposal p)
      with less.prems show ?thesis using on_proposal_tracks [OF all] by (simp add: Suc body_def)
    next
      case (CCastVote ph bh)
      with less.prems show ?thesis using cast_vote_tracks [OF ed all] by (simp add: Suc body_def)
    next
      case (COnVote v)
      with less.prems show ?thesis using on_vote_tracks [OF all] by (simp add: Suc body_def)
    next
      case CTryAdvance
      with less.prems show ?thesis using try_advance_tracks [OF all] by (simp add: Suc body_def)
    qed
  qed
qed

lemma run_call_tracks:
  "ed25519_correct (en_crypto V) \<Longrightarrow> callable V M c s \<Longrightarrow> tracks V M now s (run_call V now c s)"
  unfolding run_call_def by (rule exec_tracks)

definition event_time :: "engine_event \<Rightarrow> nat" where
  "event_time ev =
     (case ev of EStart now \<Rightarrow> now | ETick now \<Rightarrow> now | EHandle now _ \<Rightarrow> now
      | EPropose now _ _ _ \<Rightarrow> now | EHeartbeat now \<Rightarrow> now | ERotate _ \<Rightarrow> 0 | EGrace _ \<Rightarrow> 0)"

definition is_rotation :: "engine_event \<Rightarrow> bool" where
  "is_rotation ev = (case ev of ERotate _ \<Rightarrow> True | _ \<Rightarrow> False)"

lemma start_fresh_tracks:
  assumes ed: "ed25519_correct (en_crypto V)"
    and ok: "engine_ok s" and idle: "\<not> e_round_active s" and sound: "sound_state V M s"
  shows "tracks V M now s (run_call V now (CStartRound 0 None) (s\<lparr>e_round_active := True\<rparr>))"
proof -
  let ?a = "s\<lparr>e_round_active := True\<rparr>"
  let ?s0 = "started 0 now None ?a"
  let ?outs = "snd (note_view_change 0 None ?a) @
      snd (ask_proposal 0 now (enter_round 0 now (fst (note_view_change 0 None ?a))))"
  have ok0: "engine_ok ?s0"
    using ok idle by (intro started_ok) (simp_all add: engine_ok_def ok_above_def voters_def)
  have act0: "e_round_active ?s0" by (simp add: started_fields)
  have st: "protocol_steps V M now s ?outs ?s0"
    by (rule steps_one [OF activate [OF idle]]) (simp add: note_view_change_def quiet_ask)
  have sound0: "sound_state V M ?s0" by (rule sound_steps [OF st sound])
  have all: "all_track V M now (Suc 19)" using exec_tracks [OF ed] by (simp add: all_track_def)
  have rest: "tracks V M now ?s0 (and_then
      (case map_of (e_proposals ?s0) 0 of
         Some p \<Rightarrow> exec V now 19 (COnProposal p) (?s0\<lparr>e_proposals := AList.delete 0 (e_proposals ?s0)\<rparr>)
       | None \<Rightarrow> emit [] ?s0) (exec V now 19 CTryAdvance))"
  proof (cases "map_of (e_proposals ?s0) 0")
    case None
    then show ?thesis using ok0 sound0 by (auto intro!: tracks_then_advance [OF all])
  next
    case (Some p)
    let ?t = "?s0\<lparr>e_proposals := AList.delete 0 (e_proposals ?s0)\<rparr>"
    have "engine_ok ?t" by (rule engine_ok_active [OF ok0 _ act0]) (simp add: same_round_def)
    then have call: "callable V M (COnProposal p) ?t"
      using act0 sound0 by (simp add: callable_def sound_state_def)
    have "protocol_step V M now ?s0 [] ?t" by (rule forget) (auto simp: AList.delete_eq)
    then have "tracks V M now ?s0 (exec V now 19 (COnProposal p) ?t)"
      by (rule tracks_step) (rule exec_tracks [OF ed call])
    then have "tracks V M now ?s0 (and_then (exec V now 19 (COnProposal p) ?t) (exec V now 19 CTryAdvance))"
      by (rule tracks_then_advance [OF all lessI sound0]) (use result_ok [OF call] in auto)
    then show ?thesis using Some by simp
  qed
  have "run_call V now (CStartRound 0 None) ?a = start_round_body (exec V now 19) 0 now None ?a"
    by (simp add: run_call_def CALL_DEPTH_def eval_nat_numeral body_def)
  then show ?thesis
    unfolding start_round_eq
    by (auto simp only: emit_Some intro!: tracks_and_then [OF tracks_emit [OF st]] rest)
qed

lemma buffers_heard_lookup:
  "buffers_heard M b \<Longrightarrow> map_of b h = Some q \<Longrightarrow> list_all (heard M) q"
  by (force simp: buffers_heard_def dest: map_of_SomeD)

lemma buffers_heard_subset: "buffers_heard M b \<Longrightarrow> set b' \<subseteq> set b \<Longrightarrow> buffers_heard M b'"
  unfolding buffers_heard_def by blast

lemma buffers_heard_update:
  assumes "buffers_heard M b" "list_all (heard M) q"
  shows "buffers_heard M (AList.update h q b)"
  using assms set_update_subset [of h q b] by (auto simp: buffers_heard_def)

lemma buffer_msg_tracks:
  assumes sound: "sound_state V M s" and heard: "heard M m"
  shows "protocol_steps V M now s [snd (buffer_msg h m s)] (fst (buffer_msg h m s))"
proof -
  have note_it: "protocol_steps V M now t [Dropped w] t" for t w
    by (rule steps_one [OF bookkeeping]) simp_all
  define q where "q = (case map_of (e_buffered s) h of None \<Rightarrow> [] | Some q \<Rightarrow> q)"
  have "list_all (heard M) (q @ [m])"
    using sound heard buffers_heard_lookup
    by (auto simp: q_def sound_state_def split: option.splits)
  then have "buffers_heard M (AList.update h (q @ [m]) (e_buffered s))"
    using sound buffers_heard_update by (simp add: sound_state_def)
  then have "protocol_steps V M now s [] (s\<lparr>e_buffered := AList.update h (q @ [m]) (e_buffered s)\<rparr>)"
    by (intro steps_one buffer)
  from steps_append [OF this note_it]
  have "protocol_steps V M now s [Dropped w] (s\<lparr>e_buffered := AList.update h (q @ [m]) (e_buffered s)\<rparr>)" for w
    by simp
  with note_it show ?thesis
    by (simp add: buffer_msg_def Let_def q_def [symmetric])
qed

lemma handle_tracks:
  assumes ed: "ed25519_correct (en_crypto V)" and ok: "engine_ok s" and sound: "sound_state V M s"
    and heard: "heard M m"
  shows "tracks V M now s (handle V now m s)"
proof (cases "msg_height m < e_height s \<or> e_height s < msg_height m \<or> \<not> e_round_active s")
  case True
  have "tracks V M now s (emit [snd (buffer_msg h m s)] (fst (buffer_msg h m s)))" for h
    by (rule tracks_emit [OF buffer_msg_tracks [OF sound heard]])
  with True show ?thesis
    by (auto simp: handle_def split_def Let_def intro: tracks_quiet)
next
  case False
  then have act: "e_round_active s" and h: "msg_height m = e_height s" by simp_all
  have hb: "list_all quiet (snd (on_heartbeat V hb now s))" for hb
    by (simp add: on_heartbeat_def)
  have call: "callable V M (COnProposal p) s"
    "v_height v = e_height s \<Longrightarrow> v \<in> M \<Longrightarrow> callable V M (COnVote v) s" for p v
    using ok act sound by (simp_all add: callable_def)
  show ?thesis
    using False run_call_tracks [OF ed call(1)] run_call_tracks [OF ed call(2)] h heard
    by (auto simp: handle_def split_def Let_def msg_height_def hb core_on_heartbeat heard_def
        split: message.splits intro: tracks_quiet)
qed

lemma handle_all_tracks:
  assumes ed: "ed25519_correct (en_crypto V)"
  shows "engine_ok s \<Longrightarrow> sound_state V M s \<Longrightarrow> list_all (heard M) ms \<Longrightarrow>
    tracks V M now s (handle_all V now ms s)"
proof (induction ms arbitrary: s)
  case Nil
  then show ?case by simp
next
  case (Cons m ms)
  have tr: "tracks V M now s (handle V now m s)" using Cons.prems by (intro handle_tracks [OF ed]) simp_all
  show ?case
    unfolding handle_all.simps
  proof (rule tracks_and_then [OF tr])
    fix t out
    assume run: "handle V now m s = Some (t, out)"
    then have "engine_ok t" using handle_returns [OF Cons.prems(1), of V now m] by (simp add: yields_def)
    with tracks_sound [OF tr run Cons.prems(2)] Cons.prems(3) show "tracks V M now t (handle_all V now ms t)"
      by (intro Cons.IH) simp_all
  qed
qed

lemma tracks_core: "core s' = core s \<Longrightarrow> tracks V M now s' m \<Longrightarrow> tracks V M now s m"
  by (rule tracks_step [OF bookkeeping]) simp_all

lemma start_tracks:
  assumes ed: "ed25519_correct (en_crypto V)" and ok: "engine_ok s" and sound: "sound_state V M s"
  shows "tracks V M now s (start V now s)"
proof -
  define s1 where "s1 = (if e_tip_committed_at_ms s = 0 then s\<lparr>e_tip_committed_at_ms := now\<rparr> else s)"
  have c1: "core s1 = core s" by (simp add: s1_def core_updates)
  have ok1: "engine_ok s1" "sound_state V M s1"
    using ok sound engine_ok_core [OF c1] sound_core [OF c1] by simp_all
  let ?m = "if \<not> e_round_active s1 then run_call V now (CStartRound 0 None) (s1\<lparr>e_round_active := True\<rparr>)
      else emit [] s1"
  have m: "tracks V M now s1 ?m"
    using start_fresh_tracks [OF ed ok1(1) _ ok1(2)] by simp
  have okm: "engine_ok t" if "?m = Some (t, out)" for t out
  proof (cases "e_round_active s1")
    case True
    with that ok1 show ?thesis by simp
  next
    case False
    have "yields (run_call V now (CStartRound 0 None) (s1\<lparr>e_round_active := True\<rparr>)) engine_ok"
      using ok1(1) False
      by (intro run_call_round) (simp_all add: engine_ok_def ok_above_def voters_def)
    with False that show ?thesis by (simp add: yields_def)
  qed
  define replay where "replay (t :: engine) = (case map_of (e_buffered t) (e_height t) of None \<Rightarrow> [] | Some q \<Rightarrow> q)" for t
  define rest where "rest (t :: engine) = filter (\<lambda>(h, _). e_height t < h) (AList.delete (e_height t) (e_buffered t))" for t
  have "tracks V M now t (handle_all V now (replay t) (t\<lparr>e_buffered := rest t\<rparr>))"
    if run: "?m = Some (t, out)" for t out
  proof -
    let ?t = "t\<lparr>e_buffered := rest t\<rparr>"
    have t: "engine_ok t" "sound_state V M t"
      using okm [OF run] tracks_sound [OF m run ok1(2)] by simp_all
    then have b: "buffers_heard M (e_buffered t)" by (simp add: sound_state_def)
    have "buffers_heard M (rest t)"
      by (rule buffers_heard_subset [OF b]) (auto simp: rest_def AList.delete_eq)
    then have step: "protocol_step V M now t [] ?t" by (rule buffer)
    have "engine_ok ?t" by (rule engine_ok_same_round [OF t(1)]) (simp_all add: same_round_def)
    moreover have "list_all (heard M) (replay t)"
      using buffers_heard_lookup [OF b] by (simp add: replay_def split: option.split)
    ultimately show ?thesis
      using handle_all_tracks [OF ed] sound_step [OF step t(2)] by (intro tracks_step [OF step]) blast
  qed
  then have "tracks V M now s1 (start V now s)"
    unfolding start_def Let_def s1_def [symmetric] replay_def rest_def by (intro tracks_and_then [OF m])
  then show ?thesis by (rule tracks_core [OF c1])
qed

lemma core_count_step: "core ((count_timeout s)\<lparr>e_step := st\<rparr>) = core (s\<lparr>e_step := st\<rparr>)"
  by (simp add: core_def count_timeout_def)

lemma tick_cast_tracks:
  assumes ed: "ed25519_correct (en_crypto V)" and ok: "engine_ok s" and sound: "sound_state V M s"
    and act: "e_round_active s"
    and st: "(ph = Prevote \<and> st = SPrevote \<and> e_step s = Propose) \<or>
             (ph = Precommit \<and> st = SPrecommit \<and> e_step s = SPrevote)"
  shows "tracks V M now s (run_call V now (CCastVote ph NIL_HASH) ((count_timeout s)\<lparr>e_step := st\<rparr>))"
proof -
  let ?c = "count_timeout s"
  have c: "core ?c = core s" by (simp add: core_updates)
  have fields: "e_step ?c = e_step s" "e_round_active ?c = e_round_active s"
    by (simp_all add: core_fields [OF c])
  have "protocol_step V M now ?c [] (?c\<lparr>e_step := st\<rparr>)"
    using st act fields by (auto intro: to_prevote to_precommit)
  moreover have "callable V M (CCastVote ph NIL_HASH) (?c\<lparr>e_step := st\<rparr>)"
    using st act sound engine_ok_timeout(1) [OF ok act]
    by (auto simp: callable_def may_vote_def sound_state_def count_timeout_def)
  ultimately have "tracks V M now ?c (run_call V now (CCastVote ph NIL_HASH) (?c\<lparr>e_step := st\<rparr>))"
    using tracks_step run_call_tracks [OF ed] by blast
  then show ?thesis by (rule tracks_core [OF c])
qed

lemma tick_tracks:
  assumes ed: "ed25519_correct (en_crypto V)" and ok: "engine_ok s" and sound: "sound_state V M s"
  shows "tracks V M now s (tick V now s)"
proof (cases "e_round_active s")
  case False
  then show ?thesis by (simp add: tick_def)
next
  case True
  let ?r = "fst (tick_ready now s)"
  have c: "core ?r = core s" by (simp add: tick_ready_def core_updates Let_def)
  have okr: "engine_ok ?r" "sound_state V M ?r" "e_round_active ?r"
    using ok sound True engine_ok_core [OF c] sound_core [OF c] core_fields(10) [OF c] by simp_all
  have ready: "tracks V M now s (emit (snd (tick_ready now s)) ?r)"
    by (rule tracks_quiet [OF _ c]) (simp add: tick_ready_def Let_def)
  have upd: "engine_ok t' \<and> sound_state V M t'"
    if "engine_ok t" "sound_state V M t" "core t' = core t" for t t'
    using that engine_ok_core [OF that(3)] sound_core [OF that(3)] by simp
  have active: "e_round_active t" if "engine_ok t" "e_step t \<noteq> Propose" for t
    using that by (auto simp: engine_ok_def)
  have propose: "tracks V M now t (tick_propose V now t)"
    if t: "engine_ok t" "sound_state V M t" "e_round_active t" for t
  proof -
    let ?t = "t\<lparr>e_propose_deadline := None, e_propose_ready_at := None\<rparr>"
    have ct: "core ?t = core t" by (simp add: core_def)
    have "tracks V M now ?t (if e_step ?t = Propose
        then run_call V now (CCastVote Prevote NIL_HASH) ((count_timeout ?t)\<lparr>e_step := SPrevote\<rparr>)
        else emit [] ?t)"
      using upd [OF t(1,2) ct] t(3) tick_cast_tracks [OF ed, of ?t M Prevote SPrevote] by simp
    from tracks_core [OF ct this] show ?thesis by (simp add: tick_propose_def Let_def)
  qed
  have prevote: "tracks V M now t (tick_prevote V now t)"
    if t: "engine_ok t" "sound_state V M t" for t
  proof -
    let ?t = "t\<lparr>e_prevote_deadline := None\<rparr>"
    have ct: "core ?t = core t" by (simp add: core_updates)
    have "tracks V M now ?t (if e_step ?t = SPrevote
        then run_call V now (CCastVote Precommit NIL_HASH) ((count_timeout ?t)\<lparr>e_step := SPrecommit\<rparr>)
        else emit [] ?t)"
      using upd [OF t ct] active [OF t(1)] tick_cast_tracks [OF ed, of ?t M Precommit SPrecommit] by simp
    from tracks_core [OF ct this] show ?thesis by (simp add: tick_prevote_def Let_def)
  qed
  have advance: "tracks V M now t (run_call V now CTryAdvance t)"
    if "engine_ok t" "sound_state V M t" for t
    using run_call_tracks [OF ed] that by (simp add: callable_def)
  have precommit: "tracks V M now t (tick_precommit V now t)"
    if t: "engine_ok t" "sound_state V M t" for t
  proof -
    let ?t = "t\<lparr>e_precommit_deadline := None\<rparr>"
    have ct: "core ?t = core t" by (simp add: core_updates)
    note u = upd [OF t ct]
    have cc: "core (count_timeout ?t) = core ?t" by (simp add: core_updates)
    have "tracks V M now ?t (run_call V now (CStartRound (e_round ?t + 1) (Some Timeout)) (count_timeout ?t))"
      if "e_step ?t = SPrecommit"
    proof (rule tracks_core [OF cc], rule run_call_tracks [OF ed])
      have "e_round_active ?t" using active [OF t(1)] that by simp
      then show "callable V M (CStartRound (e_round ?t + 1) (Some Timeout)) (count_timeout ?t)"
        using upd [OF _ _ cc] u engine_ok_above [of "count_timeout ?t" "e_round ?t + 1"]
        by (simp add: callable_def core_fields [OF cc])
    qed
    then have "tracks V M now ?t (if e_step ?t = SPrecommit \<and> e_pending_qc ?t = None \<and> e_qc_grace_wait ?t = None
        then run_call V now (CStartRound (e_round ?t + 1) (Some Timeout)) (count_timeout ?t)
        else run_call V now CTryAdvance ?t)"
      using advance u by simp
    from tracks_core [OF ct this] advance [OF t] show ?thesis
      by (simp add: tick_precommit_def Let_def)
  qed
  have okp: "engine_ok t'" if "tick_propose V now t = Some (t', out)" "engine_ok t" "e_round_active t" for t t' out
    using tick_propose_returns [OF that(2,3), of V now] that(1) by (simp add: yields_def)
  have okv: "engine_ok t'" if "tick_prevote V now t = Some (t', out)" "engine_ok t" for t t' out
    using tick_prevote_returns [OF that(2), of V now] that(1) by (simp add: yields_def)
  have "tracks V M now ?r (and_then (tick_propose V now ?r)
      (\<lambda>s. and_then (tick_prevote V now s) (tick_precommit V now)))"
  proof (rule tracks_and_then [OF propose [OF okr]])
    fix t out
    assume run: "tick_propose V now ?r = Some (t, out)"
    have t: "engine_ok t" "sound_state V M t"
      using okp [OF run okr(1,3)] tracks_sound [OF propose [OF okr] run okr(2)] by simp_all
    show "tracks V M now t (and_then (tick_prevote V now t) (tick_precommit V now))"
      by (rule tracks_and_then [OF prevote [OF t]])
        (use precommit okv t tracks_sound [OF prevote [OF t] _ t(2)] in blast)
  qed
  then have "tracks V M now s (and_then (emit (snd (tick_ready now s)) ?r)
      (\<lambda>s. and_then (tick_propose V now s) (\<lambda>s. and_then (tick_prevote V now s) (tick_precommit V now))))"
    by (intro tracks_and_then [OF ready]) simp
  with True show ?thesis by (simp add: tick_def split_def Let_def)
qed

text \<open>A result of \<open>propose\<close>, read as outputs.\<close>

definition as_outputs :: "(engine \<times> engine_output list result) option \<Rightarrow> engine_result" where
  "as_outputs r =
     (case r of None \<Rightarrow> None | Some (s', Inl e) \<Rightarrow> emit [] s' | Some (s', Inr out) \<Rightarrow> emit out s')"

lemma publish_tracks:
  assumes ed: "ed25519_correct (en_crypto V)" and ok: "engine_ok s" and sound: "sound_state V M s"
    and act: "e_round_active s"
  shows "tracks V M now s (as_outputs (publish_proposal V now p s))"
proof -
  have call: "callable V M (COnProposal p) s" using ok sound act by (simp add: callable_def)
  have "protocol_steps V M now s (Broadcast (MProposal p) # out) s'"
    if "run_call V now (COnProposal p) s = Some (s', out)" for s' out
  proof -
    have "protocol_steps V M now s [Broadcast (MProposal p)] s"
      by (intro steps_one bookkeeping) (simp_all add: quiet_def)
    moreover have "protocol_steps V M now s out s'"
      using run_call_tracks [OF ed call] that by (simp add: tracks_def)
    ultimately show ?thesis using steps_append by fastforce
  qed
  then show ?thesis
    by (auto simp: tracks_def as_outputs_def publish_proposal_def split: option.splits)
qed

lemma propose_tracks:
  assumes ed: "ed25519_correct (en_crypto V)" and ok: "engine_ok s" and sound: "sound_state V M s"
  shows "tracks V M now s (as_outputs (propose V now txs bridge shadow s))"
proof -
  have err [simp]: "tracks V M now s (as_outputs (proposal_error m t))" if "core t = core s" for m t
    using that by (auto simp: as_outputs_def proposal_error_def intro: tracks_quiet)
  have fails: "tracks V M now s (as_outputs (Some (s, Inl e)))" for e
    by (simp add: as_outputs_def)
  have c: "core (snd (guard_sign V h r st bh s)) = core s" for h r st bh
    by (rule core_guard_sign)
  have pub: "tracks V M now s (as_outputs (publish_proposal V now p t))"
    if "core t = core s" "e_round_active s" for p t
    by (rule tracks_core [OF that(1)], rule publish_tracks [OF ed])
      (use that ok sound engine_ok_core [OF that(1)] sound_core [OF that(1)] core_fields [OF that(1)] in simp_all)
  have new: "tracks V M now s (as_outputs (publish_proposal V now p
      (t\<lparr>e_verified := AList.update bh True (e_verified t)\<rparr>)))"
    if "core t = core s" "e_round_active s" for p t bh
  proof (rule tracks_core [OF that(1)], rule tracks_step [OF own_block])
    let ?t = "t\<lparr>e_verified := AList.update bh True (e_verified t)\<rparr>"
    show act: "e_round_active t" using that core_fields [OF that(1)] by simp
    have "engine_ok t" "sound_state V M t"
      using ok sound engine_ok_core [OF that(1)] sound_core [OF that(1)] by simp_all
    then have "engine_ok ?t" "sound_state V M ?t"
      using engine_ok_active [OF _ _ act] by (simp_all add: same_round_def sound_state_def)
    then show "tracks V M now ?t (as_outputs (publish_proposal V now p ?t))"
      by (rule publish_tracks [OF ed]) (simp add: act)
  qed
  have re: "tracks V M now s (as_outputs (repropose V now i vr vp s))" if "e_round_active s" for i vr vp
    using pub [OF c that] by (simp add: repropose_def Let_def split_def c)
  have nw: "tracks V M now s (as_outputs (propose_new V now i txs bridge shadow s))"
    if "e_round_active s" for i
    using new [OF c that] fails by (auto simp: propose_new_def Let_def split_def c split: sum.splits)
  show ?thesis
    using re nw by (auto simp: propose_def split: option.splits)
qed

lemma heartbeat_quiet:
  assumes "send_heartbeat V now s = Inr (s', out)"
  shows "list_all quiet out"
  using assms by (auto simp: send_heartbeat_def Let_def split_def on_heartbeat_def quiet_def
    split: option.splits if_splits)

text \<open>
  The refinement: every event other than a rotation is a sequence of protocol steps.
\<close>

definition heard_event :: "vote set \<Rightarrow> engine_event \<Rightarrow> bool" where
  "heard_event M ev = (case ev of EHandle _ m \<Rightarrow> heard M m | _ \<Rightarrow> True)"

theorem event_tracks:
  assumes ed: "ed25519_correct (en_crypto V)" and ok: "engine_ok s" and sound: "sound_state V M s"
    and norot: "\<not> is_rotation ev" and heard: "heard_event M ev"
  shows "tracks V M (event_time ev) s (apply_event V ev s)"
proof (cases ev)
  case (EPropose now txs bridge shadow)
  then show ?thesis
    using propose_tracks [OF ed ok sound, of now txs bridge shadow]
    by (simp add: apply_event_def event_time_def as_outputs_def split: sum.split)
next
  case (EHeartbeat now)
  then show ?thesis
    using heartbeat_quiet heartbeat_core
    by (auto simp: apply_event_def event_time_def split: sum.splits intro: tracks_quiet)
next
  case (ERotate v)
  with norot show ?thesis by (simp add: is_rotation_def)
next
  case (EGrace ms)
  then show ?thesis
    by (auto simp: apply_event_def event_time_def set_qc_grace_ms_def core_updates intro: tracks_quiet)
qed (use start_tracks tick_tracks handle_tracks ed ok sound heard in \<open>simp_all add: apply_event_def event_time_def heard_event_def\<close>)

lemma engine_new_sound:
  assumes "engine_new (en_crypto V) d params vset identity tip tip_set = Inr s"
  shows "sound_state V M s"
  using engine_new_fresh [OF assms] by (auto simp: sound_state_def fresh_engine_def buffers_heard_def)

end
