(* ===== verification/EngineSafety.thy ===== *)
theory EngineSafety
  imports EngineProtocol
begin

text \<open>
  Safety of the engine, as invariants of the protocol steps over the outputs so far: the node votes
  at most once in a slot (INV-C1), the lock governs its prevotes (INV-C4), what it commits carries a
  verified certificate and one commit per height (INV-C3), and rounds only grow (INV-T1). Together
  with quorum intersection they give agreement between nodes (\<open>Agreement\<close>).
\<close>

section \<open>What the outputs say\<close>

definition own_votes :: "engine_output list \<Rightarrow> vote set" where
  "own_votes out = {v. Broadcast (MVote v) \<in> set out}"

definition commits :: "engine_output list \<Rightarrow> committed_block list" where
  "commits out = List.map_filter (\<lambda>x. case x of Commit cb \<Rightarrow> Some cb | _ \<Rightarrow> None) out"

lemma own_votes_append [simp]: "own_votes (a @ b) = own_votes a \<union> own_votes b"
  by (auto simp: own_votes_def)

lemma own_votes_Nil [simp]: "own_votes [] = {}"
  by (simp add: own_votes_def)

lemma own_votes_Cons:
  "own_votes (x # out) = (case x of Broadcast (MVote v) \<Rightarrow> {v} | _ \<Rightarrow> {}) \<union> own_votes out"
  by (auto simp: own_votes_def split: engine_output.splits message.splits)

lemma own_votes_quiet [simp]: "list_all quiet out \<Longrightarrow> own_votes out = {}"
  by (force simp: own_votes_def quiet_def list_all_iff)

lemma commits_append [simp]: "commits (a @ b) = commits a @ commits b"
  by (simp add: commits_def List.map_filter_def)

lemma commits_simps [simp]:
  "commits [] = []" "commits (Broadcast m # out) = commits out" "commits (Commit cb # out) = cb # commits out"
  "commits (ViewChange h f t why # out) = commits out" "commits (Dropped w # out) = commits out"
  by (simp_all add: commits_def List.map_filter_def)

lemma commits_quiet [simp]: "list_all quiet out \<Longrightarrow> commits out = []"
  by (induction out) (auto simp: commits_def List.map_filter_def quiet_def split: engine_output.splits)

lemma commits_set: "cb \<in> set (commits out) \<longleftrightarrow> Commit cb \<in> set out"
  by (induction out) (auto simp: commits_def List.map_filter_def split: engine_output.splits)

lemma quiet_no_view_change: "list_all quiet out \<Longrightarrow> ViewChange h f t why \<notin> set out"
  by (auto simp: quiet_def list_all_iff)

section \<open>Ballots and quorums of ballots\<close>

definition is_ballot :: "vote \<Rightarrow> nat \<Rightarrow> nat \<Rightarrow> vote_phase \<Rightarrow> hash \<Rightarrow> nat \<Rightarrow> bool" where
  "is_ballot v h r ph b i \<longleftrightarrow>
     \<not> v_shadow v \<and> v_height v = h \<and> v_round v = r \<and> v_phase v = ph \<and> v_block_hash v = b \<and>
     v_validator_idx v = i"

text \<open>A quorum of validators voted for \<open>b\<close>, as far as the votes in \<open>K\<close> show.\<close>

definition backed ::
  "crypto_env \<Rightarrow> consensus_domain \<Rightarrow> active_validator_set \<Rightarrow> vote set \<Rightarrow> vote_phase \<Rightarrow>
   nat \<Rightarrow> nat \<Rightarrow> hash \<Rightarrow> bool" where
  "backed C d S K ph h r b \<longleftrightarrow>
     (\<exists>Q q. vs_quorum S = Inr q \<and> q \<le> card Q \<and>
        (\<forall>i \<in> Q. \<exists>v \<in> K. is_ballot v h r ph b i \<and> verify_vote C v d S = Inr ()))"

lemma backed_mono: "backed C d S K ph h r b \<Longrightarrow> K \<subseteq> K' \<Longrightarrow> backed C d S K' ph h r b"
  unfolding backed_def by blast

abbreviation backed_in :: "engine_env \<Rightarrow> vote set \<Rightarrow> engine \<Rightarrow> vote_phase \<Rightarrow> nat \<Rightarrow> nat \<Rightarrow> hash \<Rightarrow> bool" where
  "backed_in V K s \<equiv> backed (en_crypto V) (e_domain s) (e_set s) K"

lemma backed_rules:
  "same_rules s s' \<Longrightarrow> backed_in V K s' = backed_in V K s"
  by (simp add: same_rules_def)

section \<open>The vote books\<close>

definition books_inv :: "engine_env \<Rightarrow> vote set \<Rightarrow> engine_output list \<Rightarrow> engine \<Rightarrow> bool" where
  "books_inv V M out s \<longleftrightarrow>
     (\<forall>ph. slots_distinct (book_of ph s)) \<and>
     (\<forall>ph r i v. (i, v) \<in> set (slot (book_of ph s) r) \<longrightarrow>
        is_ballot v (e_height s) r ph (v_block_hash v) i \<and>
        verify_vote (en_crypto V) v (e_domain s) (e_set s) = Inr () \<and> v \<in> M \<union> own_votes out)"

text \<open>The books together with the fields they are read against.\<close>

definition frame :: "engine \<Rightarrow> _" where
  "frame s = (e_height s, e_prevotes s, e_precommits s, e_domain s, e_set s)"

lemma books_inv_frame:
  assumes "frame s' = frame s" "books_inv V M out s" "own_votes out \<subseteq> own_votes out'"
  shows "books_inv V M out' s'"
proof -
  have eq: "book_of ph s' = book_of ph s" for ph
    using assms(1) by (cases ph) (simp_all add: frame_def book_of_def)
  have fields: "e_height s' = e_height s" "e_domain s' = e_domain s" "e_set s' = e_set s"
    using assms(1) by (simp_all add: frame_def)
  show ?thesis
    using assms(2,3) unfolding books_inv_def eq fields by blast
qed

lemma frame_core: "core s' = core s \<Longrightarrow> frame s' = frame s"
  by (simp add: frame_def core_fields [of s' s])

lemma core_started: "core (started r now why s) = core (enter_round r now s)"
proof -
  have "core (enter_round r now t) = core (enter_round r now s)" if "core t = core s" for t
    using that unfolding core_def enter_round_def by (cases t; cases s) simp
  from this [OF core_note_view_change] show ?thesis
    unfolding started_def core_ask_proposal .
qed

lemma started_more:
  "e_locked (started r now why s) = e_locked s" "e_domain (started r now why s) = e_domain s"
  "frame (started r now why s) = frame s" "e_valid (started r now why s) = e_valid s"
  "e_tip (started r now why s) = e_tip s"
  unfolding core_fields [OF core_started] frame_core [OF core_started]
  by (simp_all add: enter_round_def frame_def)

lemma record_book:
  "(i, w) \<in> set (slot (book_of ph (record_vote v s)) r) \<Longrightarrow>
     (ph = v_phase v \<and> r = v_round v \<and> i = v_validator_idx v \<and> w = v) \<or>
     (i, w) \<in> set (slot (book_of ph s) r)"
  using set_update_subset [of "v_validator_idx v" v "slot (book_of ph s) (v_round v)"]
  by (auto simp: record_vote_books slot_update split: if_splits)

lemma books_record:
  assumes inv: "books_inv V M out s" and good: "good_vote V s v"
    and v: "v \<in> M \<union> own_votes out'" and grows: "own_votes out \<subseteq> own_votes out'"
  shows "books_inv V M out' (record_vote v s)"
  unfolding books_inv_def
proof (intro conjI allI impI)
  have old: "w \<in> M \<union> own_votes out'" if "(i, w) \<in> set (slot (book_of ph s) r)" for ph r i w
    using that inv grows unfolding books_inv_def by blast
  show "slots_distinct (book_of ph (record_vote v s))" for ph
    using inv by (simp add: books_inv_def record_vote_distinct)
  fix ph r i w
  assume "(i, w) \<in> set (slot (book_of ph (record_vote v s)) r)"
  from record_book [OF this] show
    "is_ballot w (e_height (record_vote v s)) r ph (v_block_hash w) i"
    "verify_vote (en_crypto V) w (e_domain (record_vote v s)) (e_set (record_vote v s)) = Inr ()"
    "w \<in> M \<union> own_votes out'"
    using inv good v old by (auto simp: books_inv_def good_vote_def is_ballot_def)
qed

lemma books_empty:
  "e_prevotes s = [] \<Longrightarrow> e_precommits s = [] \<Longrightarrow> books_inv V M out s"
  by (auto simp: books_inv_def book_of_def slot_def split: vote_phase.splits)

lemma books_step:
  assumes "protocol_step V M now s out' s'" "books_inv V M out s"
  shows "books_inv V M (out @ out') s'"
  using assms
proof (cases rule: protocol_step.cases)
  case bookkeeping
  then show ?thesis using assms(2) books_inv_frame [OF frame_core] by simp
next
  case to_precommit
  then have "frame s' = frame s" using frame_core [of s' "s\<lparr>e_step := SPrecommit\<rparr>"] by (simp add: frame_def)
  then show ?thesis using assms(2) to_precommit by (simp add: books_inv_frame)
next
  case (hear_vote v)
  then show ?thesis using assms(2) by (auto intro: books_record)
next
  case (cast_own i v ph bh)
  then show ?thesis using assms(2) by (auto intro: books_record simp: own_votes_Cons)
next
  case (finalize qc p vf)
  then have "e_prevotes s' = []" "e_precommits s' = []" by (auto simp: commit_def)
  then show ?thesis by (rule books_empty)
qed (use assms(2) in \<open>auto intro!: books_inv_frame [of _ s V M out] simp: frame_def started_more started_fields\<close>)

text \<open>A quorum in a book is backed by the votes known.\<close>

lemma quorum_in_backed:
  assumes inv: "books_inv V M out s" and q: "quorum_in (e_set s) (book_of ph s) r h"
  shows "backed_in V (M \<union> own_votes out) s ph (e_height s) r h"
proof -
  let ?f = "filter (\<lambda>(_, v). v_block_hash v = h) (slot (book_of ph s) r)"
  from q obtain q where q: "vs_quorum (e_set s) = Inr q" "q \<le> length ?f"
    by (auto simp: quorum_in_def split: sum.splits)
  have "distinct (map fst (slot (book_of ph s) r))"
    using inv by (simp add: books_inv_def slots_distinct_def)
  then have "distinct (map fst ?f)" by (simp add: distinct_map_filter)
  then have "card (fst ` set ?f) = length ?f"
    using distinct_card by fastforce
  moreover have "\<exists>v \<in> M \<union> own_votes out. is_ballot v (e_height s) r ph h i \<and>
      verify_vote (en_crypto V) v (e_domain s) (e_set s) = Inr ()" if "i \<in> fst ` set ?f" for i
    using that inv by (fastforce simp: books_inv_def)
  ultimately show ?thesis
    unfolding backed_def using q by (intro exI [of _ "fst ` set ?f"] exI [of _ q]) simp
qed

section \<open>One vote per slot (INV-C1)\<close>

definition recorded :: "engine \<Rightarrow> vote \<Rightarrow> bool" where
  "recorded s v \<longleftrightarrow> \<not> fresh_slot s v"

definition own_inv :: "engine_env \<Rightarrow> engine_output list \<Rightarrow> engine \<Rightarrow> bool" where
  "own_inv V out s \<longleftrightarrow>
     (\<forall>v \<in> own_votes out.
        \<not> v_shadow v \<and> my_idx s = Some (v_validator_idx v) \<and>
        verify_vote (en_crypto V) v (e_domain s) (e_set s) = Inr () \<and>
        v_height v \<le> e_height s \<and>
        (v_height v = e_height s \<longrightarrow>
           e_round_active s \<and> recorded s v \<and>
           (v_round v < e_round s \<or>
            v_round v = e_round s \<and> (v_phase v = Precommit \<longrightarrow> e_step s = SPrecommit))))"

definition once_inv :: "engine_output list \<Rightarrow> bool" where
  "once_inv out \<longleftrightarrow>
     (\<forall>v \<in> own_votes out. \<forall>w \<in> own_votes out.
        v_height v = v_height w \<and> v_round v = v_round w \<and> v_phase v = v_phase w \<longrightarrow> v = w)"

lemma fresh_slot_frame: "frame s' = frame s \<Longrightarrow> fresh_slot s' v = fresh_slot s v"
  by (cases "v_phase v") (simp_all add: fresh_slot_def frame_def book_of_def)

lemma own_inv_frame:
  assumes "own_inv V out s" "own_votes out' \<subseteq> own_votes out" "frame s' = frame s"
    and "e_identity s' = e_identity s"
    and "e_round_active s \<Longrightarrow> e_round_active s'"
    and "e_round s < e_round s' \<or> e_round s' = e_round s \<and> (e_step s = SPrecommit \<longrightarrow> e_step s' = SPrecommit)"
  shows "own_inv V out' s'"
  unfolding own_inv_def
proof
  fix v assume "v \<in> own_votes out'"
  then have v: "v \<in> own_votes out" using assms(2) by blast
  have f: "e_height s' = e_height s" "e_domain s' = e_domain s" "e_set s' = e_set s" "my_idx s' = my_idx s"
    "recorded s' v = recorded s v"
    using assms(3,4) fresh_slot_frame [OF assms(3)] by (simp_all add: frame_def my_idx_def recorded_def)
  show "\<not> v_shadow v \<and> my_idx s' = Some (v_validator_idx v) \<and>
      verify_vote (en_crypto V) v (e_domain s') (e_set s') = Inr () \<and> v_height v \<le> e_height s' \<and>
      (v_height v = e_height s' \<longrightarrow> e_round_active s' \<and> recorded s' v \<and>
        (v_round v < e_round s' \<or>
         v_round v = e_round s' \<and> (v_phase v = Precommit \<longrightarrow> e_step s' = SPrecommit)))"
    unfolding f using bspec [OF assms(1) [unfolded own_inv_def] v] assms(5,6) by auto
qed

lemma recorded_more: "recorded s v \<Longrightarrow> recorded (record_vote w s) v"
  by (auto simp: recorded_def fresh_slot_def record_vote_books slot_update update_conv' split: if_splits)

lemma recorded_now: "recorded (record_vote v s) v"
  by (simp add: recorded_def fresh_slot_def record_vote_books slot_update update_conv')

lemma own_inv_record:
  assumes "own_inv V out s"
  shows "own_inv V out (record_vote v s)"
  using assms recorded_more by (auto simp: own_inv_def my_idx_def)

lemma own_inv_out [simp]: "own_votes out' = {} \<Longrightarrow> own_inv V (out @ out') s = own_inv V out s"
  by (simp add: own_inv_def)

lemma once_inv_out [simp]: "own_votes out' = {} \<Longrightarrow> once_inv (out @ out') = once_inv out"
  by (simp add: once_inv_def)

lemma own_step:
  assumes "protocol_step V M now s out' s'" "own_inv V out s"
  shows "own_inv V (out @ out') s'"
  using assms
proof (cases rule: protocol_step.cases)
  case bookkeeping
  then have c: "core s' = core s" and q: "list_all quiet out'" by simp_all
  show ?thesis
    by (rule own_inv_frame [OF assms(2)]) (simp_all add: q frame_core [OF c] core_fields [OF c])
next
  case to_precommit
  let ?t = "s\<lparr>e_step := SPrecommit\<rparr>"
  have "own_inv V out ?t"
    using to_precommit by (intro own_inv_frame [OF assms(2)]) (simp_all add: frame_def)
  then have "own_inv V out s'"
    by (rule own_inv_frame) (use frame_core [OF to_precommit(4)] core_fields [OF to_precommit(4)] in simp_all)
  with to_precommit show ?thesis by simp
next
  case (new_round r out why)
  then show ?thesis
    by (intro own_inv_frame [OF assms(2)]) (simp_all add: own_votes_Cons started_more started_fields)
next
  case activate
  have old: "v_height v < e_height s" if "v \<in> own_votes out" for v
    using that activate bspec [OF assms(2) [unfolded own_inv_def]] by fastforce
  have "own_inv V out s'"
    unfolding own_inv_def
  proof
    fix v assume v: "v \<in> own_votes out"
    show "\<not> v_shadow v \<and> my_idx s' = Some (v_validator_idx v) \<and>
      verify_vote (en_crypto V) v (e_domain s') (e_set s') = Inr () \<and> v_height v \<le> e_height s' \<and>
      (v_height v = e_height s' \<longrightarrow> e_round_active s' \<and> recorded s' v \<and>
        (v_round v < e_round s' \<or>
         v_round v = e_round s' \<and> (v_phase v = Precommit \<longrightarrow> e_step s' = SPrecommit)))"
      using bspec [OF assms(2) [unfolded own_inv_def] v] old [OF v] activate
      by (simp add: started_fields started_more my_idx_def)
  qed
  with activate show ?thesis by simp
next
  case (hear_vote v)
  then show ?thesis using own_inv_record [OF assms(2)] by simp
next
  case (cast_own i v ph bh)
  have "own_inv V out s'" using own_inv_record [OF assms(2)] cast_own by simp
  moreover have "own_votes (out @ out') = insert v (own_votes out)"
    using cast_own by (simp add: own_votes_Cons)
  moreover have "v_phase v = Precommit \<Longrightarrow> e_step s = SPrecommit"
    using cast_own by (simp add: may_vote_def split: vote_phase.splits)
  ultimately show ?thesis
    using cast_own recorded_now [of v s]
    by (auto simp: own_inv_def good_vote_def my_idx_def)
next
  case (finalize qc p vf)
  then have "e_height s' = e_height s + 1" "e_domain s' = e_domain s" "e_set s' = e_set s"
    "my_idx s' = my_idx s" "own_votes out' = {}"
    by (auto simp: commit_def my_idx_def own_votes_Cons)
  then show ?thesis using assms(2) by (fastforce simp: own_inv_def)
next
  case buffer
  show ?thesis by (rule own_inv_frame [OF assms(2)]) (use buffer in \<open>simp_all add: frame_def\<close>)
next
  case forget
  show ?thesis by (rule own_inv_frame [OF assms(2)]) (use forget in \<open>simp_all add: frame_def\<close>)
next
  case store_future
  show ?thesis by (rule own_inv_frame [OF assms(2)]) (use store_future in \<open>simp_all add: frame_def\<close>)
next
  case accept
  show ?thesis by (rule own_inv_frame [OF assms(2)]) (use accept in \<open>simp_all add: frame_def\<close>)
next
  case own_block
  show ?thesis by (rule own_inv_frame [OF assms(2)]) (use own_block in \<open>simp_all add: frame_def\<close>)
next
  case to_prevote
  show ?thesis by (rule own_inv_frame [OF assms(2)]) (use to_prevote in \<open>simp_all add: frame_def\<close>)
next
  case new_valid
  show ?thesis by (rule own_inv_frame [OF assms(2)]) (use new_valid in \<open>simp_all add: frame_def\<close>)
next
  case lock
  show ?thesis by (rule own_inv_frame [OF assms(2)]) (use lock in \<open>simp_all add: frame_def\<close>)
next
  case certify
  show ?thesis by (rule own_inv_frame [OF assms(2)]) (use certify in \<open>simp_all add: frame_def\<close>)
qed

lemma once_step:
  assumes step: "protocol_step V M now s out' s'" and own: "own_inv V out s" and once: "once_inv out"
  shows "once_inv (out @ out')"
  using step
proof (cases rule: protocol_step.cases)
  case (cast_own i v ph bh)
  have "False" if w: "w \<in> own_votes out" "v_height w = v_height v" "v_round w = v_round v" "v_phase w = v_phase v" for w
  proof -
    have "recorded s w" "v_validator_idx w = v_validator_idx v"
      using own w cast_own by (auto simp: own_inv_def my_idx_def)
    then have "recorded s v" using w by (simp add: recorded_def fresh_slot_def)
    with cast_own show False by (simp add: recorded_def)
  qed
  moreover have "own_votes (out @ out') = insert v (own_votes out)"
    using cast_own by (simp add: own_votes_Cons)
  ultimately show ?thesis using once by (auto simp: once_inv_def) metis+
next
  case finalize
  then have "own_votes out' = {}" by (auto simp: commit_def own_votes_Cons)
  then show ?thesis using once by simp
qed (use once in \<open>simp_all add: own_votes_Cons\<close>)

section \<open>The lock (INV-C4)\<close>

text \<open>
  The lock is a block with a quorum of prevotes, and every precommit of the height is at or below it.
\<close>

definition lock_inv :: "engine_env \<Rightarrow> vote set \<Rightarrow> engine_output list \<Rightarrow> engine \<Rightarrow> bool" where
  "lock_inv V M out s \<longleftrightarrow>
     (\<not> e_round_active s \<longrightarrow> e_locked s = None) \<and>
     (\<forall>lr lh. e_locked s = Some (lr, lh) \<longrightarrow>
        lh \<noteq> NIL_HASH \<and> backed_in V (M \<union> own_votes out) s Prevote (e_height s) lr lh \<and>
        (lr < e_round s \<or> lr = e_round s \<and> e_step s = SPrecommit)) \<and>
     (\<forall>v \<in> own_votes out. v_phase v = Precommit \<and> v_block_hash v \<noteq> NIL_HASH \<longrightarrow>
        backed_in V (M \<union> own_votes out) s Prevote (v_height v) (v_round v) (v_block_hash v) \<and>
        (v_height v = e_height s \<longrightarrow>
           (\<exists>lr lh. e_locked s = Some (lr, lh) \<and>
              (v_round v < lr \<or> v_round v = lr \<and> v_block_hash v = lh))))"

text \<open>
  After a precommit for one block, a prevote for another in a later round needs a proof of lock from a
  round between the two.
\<close>

definition unlock_inv :: "engine_env \<Rightarrow> vote set \<Rightarrow> engine_output list \<Rightarrow> engine \<Rightarrow> bool" where
  "unlock_inv V M out s \<longleftrightarrow>
     (\<forall>v \<in> own_votes out. \<forall>w \<in> own_votes out.
        v_phase v = Precommit \<and> v_phase w = Prevote \<and> v_height w = v_height v \<and> v_round v < v_round w \<and> v_block_hash v \<noteq> NIL_HASH \<and>
        v_block_hash w \<noteq> NIL_HASH \<and> v_block_hash w \<noteq> v_block_hash v \<longrightarrow>
        (\<exists>vr. v_round v < vr \<and> vr < v_round w \<and>
           backed_in V (M \<union> own_votes out) s Prevote (v_height w) vr (v_block_hash w)))"

lemma backed_grow:
  "backed_in V (M \<union> own_votes out) s ph h r b \<Longrightarrow> backed_in V (M \<union> own_votes (out @ out')) s ph h r b"
  by (erule backed_mono) auto

lemma lock_inv_frame:
  assumes "lock_inv V M out s" "own_votes out' = {}" "same_rules s s'"
    and "e_height s' = e_height s" "e_locked s' = e_locked s"
    and "\<not> e_round_active s' \<Longrightarrow> \<not> e_round_active s"
    and "e_round s < e_round s' \<or> e_round s' = e_round s \<and> (e_step s = SPrecommit \<longrightarrow> e_step s' = SPrecommit)"
  shows "lock_inv V M (out @ out') s'"
proof -
  have f: "e_domain s' = e_domain s" "e_set s' = e_set s"
    using assms(3) by (simp_all add: same_rules_def)
  have "lr < e_round s' \<or> lr = e_round s' \<and> e_step s' = SPrecommit"
    if "lr < e_round s \<or> lr = e_round s \<and> e_step s = SPrecommit" for lr
    using that assms(7) by auto
  then show ?thesis
    using assms(1,2,6) unfolding lock_inv_def f assms(4,5) by auto
qed

lemma lock_step:
  assumes step: "protocol_step V M now s out' s'" and inv: "lock_inv V M out s"
    and own: "own_inv V out s" and books: "books_inv V M out s"
  shows "lock_inv V M (out @ out') s'"
  using step
proof (cases rule: protocol_step.cases)
  case bookkeeping
  then have c: "core s' = core s" and q: "list_all quiet out'" by simp_all
  show ?thesis
    by (rule lock_inv_frame [OF inv]) (simp_all add: q step_rules [OF step] core_fields [OF c])
next
  case to_precommit
  note c = to_precommit(4)
  show ?thesis
    by (rule lock_inv_frame [OF inv])
      (use to_precommit in \<open>simp_all add: step_rules [OF step] core_fields [OF c]\<close>)
next
  case (new_round r out why)
  then show ?thesis
    by (intro lock_inv_frame [OF inv])
      (simp_all add: own_votes_Cons started_more started_fields started_rules)
next
  case activate
  then have "e_locked s = None" using inv by (simp add: lock_inv_def)
  moreover have "v_height v \<noteq> e_height s" if "v \<in> own_votes out" for v
    using own that activate by (auto simp: own_inv_def)
  ultimately show ?thesis
    using inv activate by (auto simp: lock_inv_def started_more started_fields)
next
  case (hear_vote v)
  then show ?thesis
    by (intro lock_inv_frame [OF inv]) (simp_all add: same_rules_def)
next
  case (cast_own i v ph bh)
  have K: "own_votes (out @ out') = insert v (own_votes out)"
    using cast_own by (simp add: own_votes_Cons)
  have grow: "backed_in V (M \<union> own_votes out) s ph h r b \<Longrightarrow>
      backed_in V (M \<union> own_votes (out @ out')) s ph h r b" for ph h r b
    by (rule backed_grow)
  have new: "e_locked s = Some (e_round s, v_block_hash v)" if "v_phase v = Precommit" "v_block_hash v \<noteq> NIL_HASH"
    using that cast_own by (simp add: may_vote_def)
  have v: "v_height v = e_height s" "v_round v = e_round s" using cast_own by simp_all
  have rules: "e_domain s' = e_domain s" "e_set s' = e_set s" "e_locked s' = e_locked s"
    "e_height s' = e_height s" "e_round_active s' = e_round_active s" "e_round s' = e_round s"
    "e_step s' = e_step s"
    using cast_own by simp_all
  have one: "backed_in V (M \<union> own_votes (out @ out')) s Prevote (v_height u) (v_round u) (v_block_hash u) \<and>
      (v_height u = e_height s \<longrightarrow> (\<exists>lr lh. e_locked s = Some (lr, lh) \<and>
         (v_round u < lr \<or> v_round u = lr \<and> v_block_hash u = lh)))"
    if u: "u \<in> own_votes (out @ out')" "v_phase u = Precommit" "v_block_hash u \<noteq> NIL_HASH" for u
  proof (cases "u = v")
    case True
    then have l: "e_locked s = Some (e_round s, v_block_hash v)" using new u by simp
    then have "backed_in V (M \<union> own_votes out) s Prevote (e_height s) (e_round s) (v_block_hash v)"
      using inv by (simp add: lock_inv_def)
    from grow [OF this] show ?thesis using True l v by simp
  next
    case False
    then have "u \<in> own_votes out" using u(1) unfolding K by simp
    then show ?thesis using inv u(2,3) grow unfolding lock_inv_def by blast
  qed
  have locked: "lh \<noteq> NIL_HASH \<and> backed_in V (M \<union> own_votes (out @ out')) s Prevote (e_height s) lr lh \<and>
      (lr < e_round s \<or> lr = e_round s \<and> e_step s = SPrecommit)" if "e_locked s = Some (lr, lh)" for lr lh
    using inv that grow unfolding lock_inv_def by blast
  show ?thesis
    unfolding lock_inv_def rules using inv one locked by (auto simp: lock_inv_def)
next
  case (lock bh)
  have "backed_in V (M \<union> own_votes out) s Prevote (e_height s) (e_round s) bh"
    by (rule quorum_in_backed [OF books])
      (use lock in \<open>simp add: has_quorum_quorum_in book_of_def\<close>)
  moreover have "v_round v < e_round s" if "v \<in> own_votes out" "v_height v = e_height s" "v_phase v = Precommit" for v
    using own that lock by (auto simp: own_inv_def)
  ultimately show ?thesis
    using inv lock by (auto simp: lock_inv_def)
next
  case (finalize qc p vf)
  then have f: "e_height s' = e_height s + 1" "e_domain s' = e_domain s" "e_set s' = e_set s"
    "e_locked s' = None" "own_votes out' = {}"
    by (auto simp: commit_def own_votes_Cons)
  have "v_height v \<noteq> Suc (e_height s)" if "v \<in> own_votes out" for v
    using own that by (auto simp: own_inv_def)
  then show ?thesis using inv f by (auto simp: lock_inv_def)
next
  case buffer
  show ?thesis by (rule lock_inv_frame [OF inv]) (use buffer step_rules [OF step] in simp_all)
next
  case forget
  show ?thesis by (rule lock_inv_frame [OF inv]) (use forget step_rules [OF step] in simp_all)
next
  case store_future
  show ?thesis by (rule lock_inv_frame [OF inv]) (use store_future step_rules [OF step] in simp_all)
next
  case accept
  show ?thesis by (rule lock_inv_frame [OF inv]) (use accept step_rules [OF step] in simp_all)
next
  case own_block
  show ?thesis by (rule lock_inv_frame [OF inv]) (use own_block step_rules [OF step] in simp_all)
next
  case to_prevote
  show ?thesis by (rule lock_inv_frame [OF inv]) (use to_prevote step_rules [OF step] in simp_all)
next
  case new_valid
  show ?thesis by (rule lock_inv_frame [OF inv]) (use new_valid step_rules [OF step] in simp_all)
next
  case certify
  show ?thesis by (rule lock_inv_frame [OF inv]) (use certify step_rules [OF step] in simp_all)
qed

lemma unlock_step:
  assumes step: "protocol_step V M now s out' s'" and inv: "unlock_inv V M out s"
    and lock: "lock_inv V M out s" and own: "own_inv V out s" and books: "books_inv V M out s"
  shows "unlock_inv V M (out @ out') s'"
proof -
  have f: "e_domain s' = e_domain s" "e_set s' = e_set s"
    using step_rules [OF step] by (simp_all add: same_rules_def)
  show ?thesis
  proof (cases "own_votes out' = {}")
    case True
    then show ?thesis using inv by (simp add: unlock_inv_def f)
  next
    case False
    with step obtain i v ph bh where cast: "own_votes out' = {v}" "v = my_vote V i ph bh s" "may_vote s ph bh"
      by cases (auto simp: own_votes_Cons commit_def)
    let ?K = "M \<union> own_votes (out @ out')"
    have K: "own_votes (out @ out') = insert v (own_votes out)" using cast(1) by simp
    have at: "v_height v = e_height s" "v_round v = e_round s" "v_phase v = ph" "v_block_hash v = bh"
      using cast(2) by simp_all
    have key: "\<exists>vr. v_round u < vr \<and> vr < v_round w \<and> backed_in V ?K s Prevote (v_height w) vr (v_block_hash w)"
      if uw: "u \<in> own_votes (out @ out')" "w \<in> own_votes (out @ out')" "v_phase u = Precommit"
        "v_phase w = Prevote" "v_height w = v_height u" "v_round u < v_round w"
        "v_block_hash u \<noteq> NIL_HASH" "v_block_hash w \<noteq> NIL_HASH" "v_block_hash w \<noteq> v_block_hash u"
      for u w
    proof (cases "u \<in> own_votes out \<and> w \<in> own_votes out")
      case True
      then obtain vr where "v_round u < vr" "vr < v_round w"
        "backed_in V (M \<union> own_votes out) s Prevote (v_height w) vr (v_block_hash w)"
        using inv uw unfolding unlock_inv_def by blast
      then show ?thesis using backed_grow by blast
    next
      case False
      have "w \<noteq> v \<Longrightarrow> u = v" using False uw K by auto
      moreover have "w \<in> own_votes out \<Longrightarrow> v_height w = e_height s \<Longrightarrow> v_round w \<le> e_round s"
        using own by (auto simp: own_inv_def)
      ultimately have w: "w = v" using uw at K by fastforce
      then have u: "u \<in> own_votes out" using uw K by auto
      have u_at: "v_height u = e_height s" using uw(5) w at by simp
      obtain lr lh where l: "e_locked s = Some (lr, lh)"
        "v_round u < lr \<or> v_round u = lr \<and> v_block_hash u = lh"
        using lock u uw(3,7) u_at unfolding lock_inv_def by blast
      have ph: "ph = Prevote" using uw(4) w at by simp
      then have pv: "e_step s = SPrevote" "lock_allows s bh"
        using cast(3) uw(8) w at by (auto simp: may_vote_def)
      have l': "backed_in V (M \<union> own_votes out) s Prevote (e_height s) lr lh" "lr < e_round s"
        using lock l(1) pv(1) by (auto simp: lock_inv_def)
      show ?thesis
      proof (cases "lh = bh")
        case True
        then have "v_round u < lr" using l(2) uw(9) w at by auto
        moreover have "backed_in V ?K s Prevote (v_height w) lr (v_block_hash w)"
          using backed_grow [OF l'(1), of out'] True w at by simp
        ultimately show ?thesis using l'(2) w at by auto
      next
        case False
        then obtain vr where vr: "lr < vr" "vr < e_round s" "has_quorum_prevotes s vr bh"
          using pv(2) l(1) by (auto simp: lock_allows_def)
        have "backed_in V (M \<union> own_votes out) s Prevote (e_height s) vr bh"
          by (rule quorum_in_backed [OF books]) (use vr(3) in \<open>simp add: has_quorum_quorum_in book_of_def\<close>)
        then have "backed_in V ?K s Prevote (v_height w) vr (v_block_hash w)"
          using backed_grow [where s = s and r = vr and b = bh and h = "e_height s" and out' = out'] w at by simp
        moreover have "v_round u < vr" using vr(1) l(2) by auto
        ultimately show ?thesis using vr(2) w at by auto
      qed
    qed
    show ?thesis
      unfolding unlock_inv_def f using key by blast
  qed
qed

section \<open>Commits (INV-C3) and rounds (INV-T1)\<close>

definition certified :: "engine_env \<Rightarrow> vote set \<Rightarrow> engine \<Rightarrow> quorum_certificate \<Rightarrow> bool" where
  "certified V K s qc \<longleftrightarrow>
     verify_qc (en_crypto V) qc (e_domain s) (e_set s) = Inr () \<and> q_block_hash qc \<noteq> NIL_HASH \<and>
     backed_in V K s Precommit (q_height qc) (q_round qc) (q_block_hash qc)"

definition commit_inv :: "engine_env \<Rightarrow> vote set \<Rightarrow> engine_output list \<Rightarrow> engine \<Rightarrow> bool" where
  "commit_inv V M out s \<longleftrightarrow>
     (\<forall>qc. e_pending_qc s = Some qc \<longrightarrow>
        q_height qc = e_height s \<and> certified V (M \<union> own_votes out) s qc) \<and>
     (\<forall>cb \<in> set (commits out).
        q_height (cb_qc cb) < e_height s \<and> certified V (M \<union> own_votes out) s (cb_qc cb) \<and>
        pr_block_hash (en_crypto V) (cb_proposal cb) = q_block_hash (cb_qc cb)) \<and>
     sorted_wrt (<) (map (\<lambda>cb. q_height (cb_qc cb)) (commits out))"

lemma certified_grow:
  "certified V (M \<union> own_votes out) s qc \<Longrightarrow> same_rules s s' \<Longrightarrow>
     certified V (M \<union> own_votes (out @ out')) s' qc"
  unfolding certified_def same_rules_def using backed_grow [of V s M out] by metis

lemma commit_inv_frame:
  assumes "commit_inv V M out s" "same_rules s s'" "commits out' = []"
    "e_height s' = e_height s" "e_pending_qc s' = e_pending_qc s"
  shows "commit_inv V M (out @ out') s'"
  using assms(1,3-5) certified_grow [OF _ assms(2), where out' = out'] by (simp add: commit_inv_def)

lemma started_pending_height:
  "e_pending_qc (started r now why s) = e_pending_qc s" "e_height (started r now why s) = e_height s"
  by (simp_all add: started_pending started_fields)

lemma commit_step:
  assumes step: "protocol_step V M now s out' s'" and inv: "commit_inv V M out s"
    and books: "books_inv V M out s"
  shows "commit_inv V M (out @ out') s'"
  using step
proof (cases rule: protocol_step.cases)
  case bookkeeping
  then have c: "core s' = core s" and q: "list_all quiet out'" by simp_all
  show ?thesis
    by (rule commit_inv_frame [OF inv step_rules [OF step]]) (simp_all add: q core_fields [OF c])
next
  case to_precommit
  show ?thesis
    by (rule commit_inv_frame [OF inv step_rules [OF step]])
      (use to_precommit in \<open>simp_all add: core_fields [OF to_precommit(4)]\<close>)
next
  case (certify qc c)
  have "backed_in V (M \<union> own_votes out) s Precommit (e_height s) (q_round qc) (q_block_hash qc)"
    by (rule quorum_in_backed [OF books]) (use certify in \<open>simp add: book_of_def\<close>)
  then show ?thesis
    using inv certify by (simp add: commit_inv_def certified_def)
next
  case (finalize qc p vf)
  define cb where "cb = \<lparr>cb_proposal = p, cb_qc = qc, cb_rounds_used = e_round s + 1,
      cb_qc_close = e_last_qc_close s\<rparr>"
  from finalize have out': "out' = [Commit cb]"
    and s': "e_height s' = e_height s + 1" "e_pending_qc s' = None"
    by (auto simp: commit_def cb_def)
  note grow = certified_grow [OF _ step_rules [OF step], where out' = out']
  have pending: "q_height qc = e_height s" "certified V (M \<union> own_votes out) s qc"
    using inv finalize by (simp_all add: commit_inv_def)
  have "commits (out @ out') = commits out @ [cb]" by (simp add: out')
  moreover have "certified V (M \<union> own_votes (out @ out')) s' (cb_qc cb)"
    using grow [OF pending(2)] by (simp add: cb_def)
  moreover have "q_height (cb_qc c) < e_height s \<and> certified V (M \<union> own_votes (out @ out')) s' (cb_qc c)"
    if "c \<in> set (commits out)" for c
    using inv that grow unfolding commit_inv_def by blast
  ultimately show ?thesis
    using inv pending(1) finalize s' unfolding commit_inv_def
    by (auto simp: cb_def sorted_wrt_append)
next
  case (new_round r out why)
  then show ?thesis
    by (intro commit_inv_frame [OF inv]) (simp_all add: started_pending_height started_rules)
next
  case activate
  then show ?thesis
    using step_rules [OF step]
    by (intro commit_inv_frame [OF inv]) (simp_all add: started_pending_height)
next
  case (hear_vote v)
  then show ?thesis by (intro commit_inv_frame [OF inv]) (simp_all add: same_rules_def)
next
  case (cast_own i v ph bh)
  then show ?thesis by (intro commit_inv_frame [OF inv]) (simp_all add: same_rules_def)
qed (use commit_inv_frame [OF inv step_rules [OF step], of out'] in simp_all)

definition view_inv :: "engine_output list \<Rightarrow> bool" where
  "view_inv out \<longleftrightarrow> (\<forall>h f t why. ViewChange h f t why \<in> set out \<longrightarrow> f < t)"

lemma view_step:
  assumes "protocol_step V M now s out' s'" "view_inv out"
  shows "view_inv (out @ out')"
  using assms quiet_no_view_change
  by (cases rule: protocol_step.cases) (auto simp: view_inv_def commit_def)

section \<open>Runs\<close>

text \<open>All invariants together.\<close>

definition history :: "engine_env \<Rightarrow> vote set \<Rightarrow> engine_output list \<Rightarrow> engine \<Rightarrow> bool" where
  "history V M out s \<longleftrightarrow>
     books_inv V M out s \<and> own_inv V out s \<and> once_inv out \<and> lock_inv V M out s \<and>
     unlock_inv V M out s \<and> commit_inv V M out s \<and> view_inv out"

lemma history_step:
  assumes "protocol_step V M now s out' s'" "history V M out s"
  shows "history V M (out @ out') s'"
proof -
  from assms(2) have I: "books_inv V M out s" "own_inv V out s" "once_inv out" "lock_inv V M out s"
    "unlock_inv V M out s" "commit_inv V M out s" "view_inv out"
    by (simp_all add: history_def)
  note st = assms(1)
  show ?thesis
    unfolding history_def
    using books_step [OF st I(1)] own_step [OF st I(2)] once_step [OF st I(2,3)]
      lock_step [OF st I(4,2,1)] unlock_step [OF st I(5,4,2,1)] commit_step [OF st I(6,1)]
      view_step [OF st I(7)] by blast
qed

lemma history_steps:
  "protocol_steps V M now s out' s' \<Longrightarrow> history V M out s \<Longrightarrow> history V M (out @ out') s'"
proof (induction arbitrary: out rule: protocol_steps.induct)
  case (nil s)
  then show ?case by simp
next
  case (step s o1 s1 o2 s')
  from step.IH [OF history_step [OF step.hyps(1) step.prems]] show ?case by simp
qed

text \<open>
  A steady run of the engine: from a state, through events in which the node hears the votes \<open>M\<close>,
  with no rotation of the set.
\<close>

inductive steady :: "engine_env \<Rightarrow> vote set \<Rightarrow> engine \<Rightarrow> engine_output list \<Rightarrow> engine \<Rightarrow> bool"
  for V :: engine_env and M :: "vote set" and s0 :: engine where
  here: "steady V M s0 [] s0"
| event: "steady V M s0 out s \<Longrightarrow> \<not> is_rotation ev \<Longrightarrow> heard_event M ev \<Longrightarrow>
     apply_event V ev s = Some (s', out') \<Longrightarrow> steady V M s0 (out @ out') s'"

lemma fresh_history:
  assumes "engine_new (en_crypto V) d params vset identity tip tip_set = Inr s0"
  shows "history V M [] s0"
  using engine_new_fresh [OF assms]
  by (auto simp: history_def own_inv_def once_inv_def lock_inv_def unlock_inv_def commit_inv_def
      view_inv_def fresh_engine_def intro: books_empty)

theorem steady_history:
  assumes ed: "ed25519_correct (en_crypto V)"
    and new: "engine_new (en_crypto V) d params vset identity tip tip_set = Inr s0"
    and run: "steady V M s0 out s"
  shows "history V M out s \<and> same_rules s0 s \<and> engine_ok s \<and> sound_state V M s"
  using run
proof (induction rule: steady.induct)
  case here
  then show ?case
    using fresh_history [OF new] engine_new_ok [OF new] engine_new_sound [OF new]
    by (simp add: same_rules_def)
next
  case (event out s ev s' out')
  then have ok: "engine_ok s" and sound: "sound_state V M s" by simp_all
  have steps: "protocol_steps V M (event_time ev) s out' s'"
    using event_tracks [OF ed ok sound event.hyps(2,3)] event.hyps(4) by (simp add: tracks_def)
  have "engine_ok s'" using event_returns [OF ok, of V ev] event.hyps(4) by (simp add: yields_def)
  then show ?case
    using history_steps [OF steps] steps_rules [OF steps] sound_steps [OF steps sound] event.IH
    by (simp add: same_rules_def)
qed

end
