(* ===== verification/EngineExample.thy ===== *)
theory EngineExample
  imports EngineSafety
begin

text \<open>
  A concrete run: four validators with toy keys, one proposal, and the engine of a validator that
  prevotes for it, locks it, precommits and commits, evaluated step by step. It shows that the
  hypotheses of the engine's safety properties hold in runs that do commit.
\<close>

section \<open>The data of the run\<close>

declare One_nat_def [simp del]

definition toy_header :: block_header where
  "toy_header =
    \<lparr>h_version = 2, h_number = 1, h_parent_hash = NIL_HASH, h_state_root = replicate 32 3,
     h_timestamp_ms = 2000, h_tx_root = compute_tx_root toy_env [], h_tx_count = 0, h_body_bytes = 8,
     h_epoch = 0, h_validator_set_hash = vs_hash (keccak toy_env) toy_set, h_round = 0,
     h_proposer_idx = 1, h_max_ruleset = 2, h_last_qc = None\<rparr>"

definition toy_bh :: hash where
  "toy_bh = h_hash toy_env toy_header"

definition toy_unsigned :: proposal where
  "toy_unsigned = \<lparr>pr_signed = sign_header toy_env (toy_key 1) sample_domain toy_header, pr_txs = [],
               pr_bridge_proposals = [], pr_shadow_votes = [], pr_round = 0, pr_valid_round = None,
               pr_sig = []\<rparr>"

definition toy_proposal :: proposal where
  "toy_proposal =
     toy_unsigned\<lparr>pr_sig := sign_digest toy_env (toy_key 1)
       (envelope_digest toy_env sample_domain 0 toy_unsigned)\<rparr>"

definition toy_ballot :: "vote_phase \<Rightarrow> nat \<Rightarrow> vote" where
  "toy_ballot ph i =
     sign_vote toy_env (toy_key i) sample_domain 0
       \<lparr>v_height = 1, v_round = 0, v_phase = ph, v_block_hash = toy_bh,
        v_validator_idx = i, v_shadow = False, v_sig = []\<rparr>"

definition toy_node :: "nat \<Rightarrow> engine" where
  "toy_node i = fresh_engine sample_domain genesis_defaults toy_set
       (Some \<lparr>id_idx = i, id_keypair = toy_key i\<rparr>) toy_genesis_tip toy_set"

text \<open>The ballots of the validators \<open>ks\<close>, in the order they arrived.\<close>

definition toy_book :: "vote_phase \<Rightarrow> nat list \<Rightarrow> vote_book" where
  "toy_book ph ks = (if ks = [] then [] else [(0, map (\<lambda>k. (k, toy_ballot ph k)) ks)])"

text \<open>
  A node's state in the run: its step, whether it has the proposal and the lock, the voters heard in
  each phase and its timers.
\<close>

definition toy_at :: "nat \<Rightarrow> step \<Rightarrow> bool \<Rightarrow> bool \<Rightarrow> nat list \<Rightarrow> nat list \<Rightarrow> nat option \<Rightarrow> nat option \<Rightarrow> engine" where
  "toy_at i st got lk ks js pvd pcd =
     (toy_node i)\<lparr>e_tip_committed_at_ms := 2000, e_round_active := True, e_propose_deadline := Some 3500,
       e_step := st, e_locked := (if lk then Some (0, toy_bh) else None),
       e_valid := (if lk then Some (0, toy_bh) else None),
       e_valid_proposal := (if lk then Some toy_proposal else None),
       e_proposals := (if got then [(0, toy_proposal)] else []),
       e_verified := (if got then [(toy_bh, True)] else []),
       e_prevotes := toy_book Prevote ks, e_precommits := toy_book Precommit js,
       e_prevote_deadline := pvd, e_precommit_deadline := pcd\<rparr>"

lemma toy_ballot_fields [simp]:
  "v_height (toy_ballot ph i) = 1" "v_round (toy_ballot ph i) = 0" "v_phase (toy_ballot ph i) = ph"
  "v_block_hash (toy_ballot ph i) = toy_bh" "v_validator_idx (toy_ballot ph i) = i"
  "v_shadow (toy_ballot ph i) = False"
  by (simp_all add: toy_ballot_def sign_vote_def)

lemma toy_ballot_verifies [simp]:
  "i < 4 \<Longrightarrow> verify_vote toy_env (toy_ballot ph i) sample_domain toy_set = Inr ()"
  unfolding toy_ballot_def
  using votes.sign_verifies [OF toy_env_correct, where s = toy_set and k = "toy_key i" and
      d = sample_domain and u = "\<lparr>v_height = 1, v_round = 0, v_phase = ph,
        v_block_hash = toy_bh, v_validator_idx = i, v_shadow = False, v_sig = []\<rparr>"]
  by (simp add: toy_pubkey sign_vote_def) (simp add: toy_set_def toy_env_def)

lemma toy_env_fields [simp]:
  "en_crypto toy_engine_env = toy_env" "en_values toy_engine_env = map snd"
  "en_body_bytes toy_engine_env = (\<lambda>txs. 8 + length txs)"
  "en_simulate toy_engine_env = (\<lambda>h txs b sv. Inr (replicate 32 3))"
  by (simp_all add: toy_engine_env_def)

lemma toy_node_fields [simp]:
  "e_identity (toy_node i) = Some \<lparr>id_idx = i, id_keypair = toy_key i\<rparr>" "e_set (toy_node i) = toy_set"
  "e_domain (toy_node i) = sample_domain" "e_height (toy_node i) = 1" "e_round (toy_node i) = 0"
  "e_params (toy_node i) = genesis_defaults" "e_tip (toy_node i) = toy_genesis_tip"
  "e_tip_set (toy_node i) = toy_set" "e_double_sign (toy_node i) = None" "e_pending_qc (toy_node i) = None"
  "e_qc_grace_ms (toy_node i) = 0" "e_qc_grace_wait (toy_node i) = None" "e_buffered (toy_node i) = []"
  "e_propose_ready_at (toy_node i) = None" "e_last_qc_close (toy_node i) = Immediate"
  by (simp_all add: toy_node_def fresh_engine_def toy_genesis_tip_def)

lemma toy_at_fields [simp]:
  "e_identity (toy_at i st got lk ks js pvd pcd) = Some \<lparr>id_idx = i, id_keypair = toy_key i\<rparr>"
  "e_set (toy_at i st got lk ks js pvd pcd) = toy_set"
  "e_domain (toy_at i st got lk ks js pvd pcd) = sample_domain"
  "e_height (toy_at i st got lk ks js pvd pcd) = 1" "e_round (toy_at i st got lk ks js pvd pcd) = 0"
  "e_step (toy_at i st got lk ks js pvd pcd) = st" "e_round_active (toy_at i st got lk ks js pvd pcd)"
  "e_prevotes (toy_at i st got lk ks js pvd pcd) = toy_book Prevote ks" "e_precommits (toy_at i st got lk ks js pvd pcd) = toy_book Precommit js"
  "e_locked (toy_at i st got lk ks js pvd pcd) = (if lk then Some (0, toy_bh) else None)"
  "e_proposals (toy_at i st got lk ks js pvd pcd) = (if got then [(0, toy_proposal)] else [])"
  "e_verified (toy_at i st got lk ks js pvd pcd) = (if got then [(toy_bh, True)] else [])"
  "e_double_sign (toy_at i st got lk ks js pvd pcd) = None"
  "e_pending_qc (toy_at i st got lk ks js pvd pcd) = None"
  "e_params (toy_at i st got lk ks js pvd pcd) = genesis_defaults"
  "e_tip (toy_at i st got lk ks js pvd pcd) = toy_genesis_tip"
  "e_qc_grace_ms (toy_at i st got lk ks js pvd pcd) = 0"
  "e_qc_grace_wait (toy_at i st got lk ks js pvd pcd) = None"
  "e_prevote_deadline (toy_at i st got lk ks js pvd pcd) = pvd"
  "e_precommit_deadline (toy_at i st got lk ks js pvd pcd) = pcd"
  by (simp_all add: toy_at_def)

lemma toy_updates [simp]:
  "(toy_at i st got lk ks js pvd pcd)\<lparr>e_step := st'\<rparr> = toy_at i st' got lk ks js pvd pcd"
  "(toy_at i st got lk ks js pvd pcd)\<lparr>e_prevote_deadline := x\<rparr> = toy_at i st got lk ks js x pcd"
  "(toy_at i st got lk ks js pvd pcd)\<lparr>e_precommit_deadline := x\<rparr> = toy_at i st got lk ks js pvd x"
  "(toy_at i st got lk ks js pvd pcd)\<lparr>e_prevotes := toy_book Prevote ks'\<rparr> = toy_at i st got lk ks' js pvd pcd"
  "(toy_at i st got lk ks js pvd pcd)\<lparr>e_precommits := toy_book Precommit js'\<rparr> = toy_at i st got lk ks js' pvd pcd"
  by (simp_all add: toy_at_def)

lemma toy_numbers [simp]:
  "vs_len toy_set = 4" "vs_quorum toy_set = Inr 3" "vs_epoch toy_set = 0" "byzantine_tolerance 4 = 1"
  by (simp_all add: toy_set_len vs_quorum_Inr byzantine_tolerance_def) (simp add: toy_set_def)

lemma toy_bh_not_nil [simp]: "toy_bh \<noteq> NIL_HASH"
proof -
  have "length toy_bh = 16" by (simp add: toy_bh_def h_hash_def toy_env_def)
  moreover have "length NIL_HASH = 32" by (simp add: NIL_HASH_def)
  ultimately show ?thesis by auto
qed

lemma toy_proposal_fields [simp]:
  "pr_signed toy_proposal = sign_header toy_env (toy_key 1) sample_domain toy_header"
  "pr_txs toy_proposal = []" "pr_round toy_proposal = 0" "pr_valid_round toy_proposal = None"
  "pr_block_hash toy_env toy_proposal = toy_bh" "pr_height toy_proposal = 1"
  by (simp_all add: toy_proposal_def toy_unsigned_def pr_block_hash_def toy_bh_def sign_header_def
      pr_height_def toy_header_def)

lemma toy_envelope [simp]:
  "verify_digest toy_env (toy_key 1) (envelope_digest toy_env sample_domain 0 toy_proposal)
     (pr_sig toy_proposal) = Inr ()"
proof -
  have "ed_public toy_env (toy_key 1) = toy_key 1" by (simp add: toy_env_def)
  moreover have "envelope_digest toy_env sample_domain 0 toy_proposal =
      envelope_digest toy_env sample_domain 0 toy_unsigned"
    by (simp add: envelope_digest_def toy_proposal_def pr_height_def pr_block_hash_def)
  ultimately show ?thesis
    using sign_then_verify [OF toy_env_correct, of "toy_key 1" "envelope_digest toy_env sample_domain 0 toy_unsigned"]
    by (simp add: toy_proposal_def)
qed

lemma toy_pubkeys [simp]: "i < 4 \<Longrightarrow> pubkey_of toy_set i = Some (toy_key i)"
  by (rule toy_pubkey)

lemma toy_header_verifies [simp]:
  "verify_signed_header toy_env (sign_header toy_env (toy_key 1) sample_domain toy_header) sample_domain toy_set = Inr ()"
proof -
  have "ed_public toy_env (toy_key 1) = toy_key 1" by (simp add: toy_env_def)
  then show ?thesis
    using headers.sign_verifies [OF toy_env_correct, where s = toy_set and k = "toy_key 1" and
        d = sample_domain and u = toy_header]
    by (simp add: sign_header_def toy_header_def)
qed

lemma toy_proposal_checks [simp]:
  assumes "e_params s = genesis_defaults" "e_height s = 1" "e_set s = toy_set" "e_domain s = sample_domain"
    "e_tip s = toy_genesis_tip"
  shows "check_proposal toy_engine_env toy_proposal 2000 s = Inr ()"
proof -
  have h: "sh_header (sign_header toy_env (toy_key 1) sample_domain toy_header) = toy_header"
    by (simp add: sign_header_def)
  have f: "h_number toy_header = 1" "h_round toy_header = 0" "h_proposer_idx toy_header = 1"
    "h_parent_hash toy_header = NIL_HASH" "h_last_qc toy_header = None" "h_timestamp_ms toy_header = 2000"
    "h_tx_count toy_header = 0" "h_tx_root toy_header = compute_tx_root toy_env []"
    "h_body_bytes toy_header = 8" "h_state_root toy_header = replicate 32 3"
    by (simp_all add: toy_header_def)
  have st: "header_validate_structure toy_header genesis_defaults = Inr ()"
    by (simp add: header_validate_structure_def toy_header_def HEADER_VERSION_def genesis_defaults_def)
  have pr: "proposer_for s 1 0 = 1"
    using assms by (simp add: proposer_for_def as_u16_def)
  have big: "p_max_block_bytes genesis_defaults = 262144" "p_max_clock_skew_ms genesis_defaults = 2000"
    by (simp_all add: genesis_defaults_def)
  have tip: "tip_hash toy_genesis_tip = NIL_HASH" "tip_qc toy_genesis_tip = None"
    "tip_timestamp_ms toy_genesis_tip = 1000"
    by (simp_all add: toy_genesis_tip_def)
  show ?thesis
    unfolding check_proposal_def Let_def toy_proposal_fields h f assms toy_env_fields
    by (simp add: st pr f tip big assms check_last_qc_def check_body_def check_simulation_def h
        try_then_def Let_def sat_add_def)
qed


lemma toy_my_vote [simp]:
  "my_vote toy_engine_env \<lparr>id_idx = i, id_keypair = toy_key i\<rparr> ph toy_bh (toy_at i st got lk ks js pvd pcd) =
     toy_ballot ph i"
  by (simp add: my_vote_def toy_ballot_def)

lemma toy_guard [simp]: "guard_sign V h r st bh (toy_at i st' got lk ks js pvd pcd) = (True, toy_at i st' got lk ks js pvd pcd)"
  by (simp add: guard_sign_def)

lemma toy_arm [simp]:
  "arm_timer Prevote 2000 (toy_at i st got lk ks js None pcd) = toy_at i st got lk ks js (Some 2750) pcd"
  "arm_timer Precommit 2000 (toy_at i st got lk ks js pvd None) = toy_at i st got lk ks js pvd (Some 2750)"
  by (simp_all add: arm_timer_def t_vote_def Let_def genesis_defaults_def sat_mul_def sat_add_def
      TIMEOUT_CAP_MULTIPLIER_def)

lemma toy_slot [simp]: "slot (toy_book ph ks) 0 = map (\<lambda>k. (k, toy_ballot ph k)) ks"
  by (simp add: toy_book_def slot_def)

lemma toy_lookup: "map_of (map (\<lambda>k. (k, toy_ballot ph k)) ks) k = (if k \<in> set ks then Some (toy_ballot ph k) else None)"
  by (induction ks) auto

lemma toy_insert: "k \<notin> set ks \<Longrightarrow> AList.update k (toy_ballot ph k) (map (\<lambda>k. (k, toy_ballot ph k)) ks) =
    map (\<lambda>k. (k, toy_ballot ph k)) (ks @ [k])"
  by (induction ks) auto

lemma toy_record:
  "k \<notin> set ks \<Longrightarrow> record_vote (toy_ballot Prevote k) (toy_at i st got lk ks js pvd pcd) =
     toy_at i st got lk (ks @ [k]) js pvd pcd"
  "k \<notin> set js \<Longrightarrow> record_vote (toy_ballot Precommit k) (toy_at i st got lk ks js pvd pcd) =
     toy_at i st got lk ks (js @ [k]) pvd pcd"
proof -
  have "AList.update 0 (AList.update k (toy_ballot ph k) (slot (toy_book ph ks) 0)) (toy_book ph ks) =
      toy_book ph (ks @ [k])" if "k \<notin> set ks" for ph ks
    unfolding toy_slot toy_insert [OF that] by (simp add: toy_book_def)
  then show "k \<notin> set ks \<Longrightarrow> record_vote (toy_ballot Prevote k) (toy_at i st got lk ks js pvd pcd) =
     toy_at i st got lk (ks @ [k]) js pvd pcd"
  "k \<notin> set js \<Longrightarrow> record_vote (toy_ballot Precommit k) (toy_at i st got lk ks js pvd pcd) =
     toy_at i st got lk ks (js @ [k]) pvd pcd"
    by (simp_all add: record_vote_def book_of_def set_book_def del: toy_slot)
qed

lemma toy_quorum_value [simp]:
  "quorum_value (toy_book ph ks) 0 3 = (if 3 \<le> length ks then Some (toy_bh, map (toy_ballot ph) ks) else None)"
proof (cases "ks = []")
  case True
  then show ?thesis by (simp add: quorum_value_def)
next
  case False
  have one: "remdups (map (\<lambda>x. toy_bh) xs) = [toy_bh]" if "xs \<noteq> []" for xs :: "nat list"
    using that by (induction xs) (auto simp: image_constant_conv)
  show ?thesis
    using one [OF False] False by (simp add: quorum_value_def o_def Let_def)
qed

lemma toy_has_quorum [simp]:
  "has_quorum_prevotes (toy_at i st got lk ks js pvd pcd) 0 toy_bh = (3 \<le> length ks)"
  by (simp add: has_quorum_prevotes_def o_def split_def)

lemma toy_rounds [simp]: "map fst (toy_book ph ks) = (if ks = [] then [] else [0])"
  by (simp add: toy_book_def)

text \<open>Calls: \<open>try_advance\<close> below a quorum, then each vote.\<close>

lemma toy_no_qc [simp]:
  "length js < 3 \<Longrightarrow> qc_stage toy_engine_env 3 2000 (toy_at i st got lk ks js pvd pcd) =
     (toy_at i st got lk ks js pvd pcd, [])"
  by (simp add: qc_stage_def)

lemma toy_rest [simp]:
  assumes "length js < 3"
  shows "advance_tail toy_engine_env rec 2000 3 0 (toy_at i st got lk ks js pvd pcd) =
     emit [] (toy_at i st got lk ks js pvd pcd)"
  using assms by (auto simp: advance_tail_def commit_stage_def nil_stage_def and_then_def emit_def)

lemma toy_advance_none:
  assumes "length ks < 3" "length js < 3"
  shows "exec toy_engine_env 2000 (Suc k) CTryAdvance (toy_at i st got lk ks js pvd pcd) =
     emit [] (toy_at i st got lk ks js pvd pcd)"
  using assms by (simp add: body_def try_advance_tail prevote_stage_def and_then_emit) (simp add: emit_def)


lemma toy_verifies [simp]: "is_ok (Inr x)"
  by (simp add: is_ok_def)

lemma and_then_pair:
  "and_then (Some (s, out)) k = (case k s of None \<Rightarrow> None | Some (s', o') \<Rightarrow> Some (s', out @ o'))"
  by (simp add: and_then_def)

lemma toy_hear:
  assumes "k < 4" "k \<notin> set ks" "length ks < 2" "length js < 2"
  shows "exec toy_engine_env 2000 (Suc (Suc n)) (COnVote (toy_ballot Prevote k)) (toy_at i st got lk ks js pvd pcd) =
     emit [] (toy_at i st got lk (ks @ [k]) js pvd pcd)"
  using assms
  by (simp add: body_def [of _ _ _ "COnVote v" for v] on_vote_body_def book_of_def toy_lookup toy_record
     toy_advance_none Let_def MAX_LOOKAHEAD_ROUNDS_def del: exec.simps(2) add: exec.simps(2) [where c = "COnVote v" for v])


lemma toy_cast_prevote:
  assumes "i < 4" "i \<notin> set ks" "length ks < 2" "length js < 2"
  shows "exec toy_engine_env 2000 (Suc (Suc (Suc n))) (CCastVote Prevote toy_bh) (toy_at i st got lk ks js None pcd) =
     emit [Broadcast (MVote (toy_ballot Prevote i))] (toy_at i st got lk (ks @ [i]) js (Some 2750) pcd)"
  using assms
  by (simp add: body_def [of _ _ _ "CCastVote p v" for p v] cast_vote_body_def book_of_def toy_lookup toy_hear
      Let_def and_then_pair emit_eq
      del: exec.simps(2) add: exec.simps(2) [where c = "CCastVote p v" for p v])

lemma toy_hear_proposal:
  assumes "i < 4"
  shows "exec toy_engine_env 2000 (Suc (Suc (Suc (Suc n)))) (COnProposal toy_proposal)
      (toy_at i Propose False False [] [] None None) =
    emit [Broadcast (MVote (toy_ballot Prevote i))] (toy_at i SPrevote True False [i] [] (Some 2750) None)"
proof -
  let ?s = "toy_at i Propose False False [] [] None None"
  have leader: "proposer_for ?s 1 0 = 1" by (simp add: proposer_for_def as_u16_def)
  have checks: "check_proposal toy_engine_env toy_proposal 2000 ?s = Inr ()"
    by (rule toy_proposal_checks) simp_all
  have got: "?s\<lparr>e_verified := [(toy_bh, True)], e_proposals := [(0, toy_proposal)]\<rparr> =
      toy_at i Propose True False [] [] None None"
    by (simp add: toy_at_def)
  show ?thesis
    using assms leader checks got toy_cast_prevote [of i "[]" "[]" n SPrevote True False None]
      toy_advance_none [of "[i]" "[]" "Suc (Suc n)" i SPrevote True False "Some 2750" None]
    by (simp add: body_def [of _ _ _ "COnProposal v" for v] on_proposal_body_def on_current_proposal_def
        prevote_choice_def Let_def and_then_pair emit_eq
        del: exec.simps(2) add: exec.simps(2) [where c = "COnProposal v" for v])
qed

text \<open>The prevote that makes the quorum: the node locks and precommits.\<close>

lemma toy_advance_locked:
  assumes "3 \<le> length ks" "length js < 3"
  shows "exec toy_engine_env 2000 (Suc n) CTryAdvance (toy_at i SPrecommit True True ks js pvd pcd) =
     emit [] (toy_at i SPrecommit True True ks js pvd pcd)"
proof -
  let ?s = "toy_at i SPrecommit True True ks js pvd pcd"
  have "?s\<lparr>e_valid := Some (0, toy_bh), e_valid_proposal := Some toy_proposal\<rparr> = ?s"
    by (simp add: toy_at_def)
  then show ?thesis
    using assms by (simp add: body_def try_advance_tail prevote_stage_def and_then_pair emit_eq)
qed

lemma toy_cast_precommit:
  assumes "i < 4" "3 \<le> length ks"
  shows "exec toy_engine_env 2000 (Suc (Suc (Suc n))) (CCastVote Precommit toy_bh)
      (toy_at i SPrecommit True True ks [] pvd None) =
     emit [Broadcast (MVote (toy_ballot Precommit i))] (toy_at i SPrecommit True True ks [i] pvd (Some 2750))"
proof -
  have "exec toy_engine_env 2000 (Suc (Suc n)) (COnVote (toy_ballot Precommit i))
      (toy_at i SPrecommit True True ks [] pvd (Some 2750)) =
      emit [] (toy_at i SPrecommit True True ks [i] pvd (Some 2750))"
    using assms toy_advance_locked [of ks "[i]" n i pvd "Some 2750"] toy_record(2) [of i "[]" i SPrecommit True True ks]
    by (simp add: body_def [of _ _ _ "COnVote v" for v] on_vote_body_def book_of_def
        Let_def MAX_LOOKAHEAD_ROUNDS_def del: exec.simps(2) add: exec.simps(2) [where c = "COnVote v" for v])
  then show ?thesis
    by (simp add: body_def [of _ _ _ "CCastVote p v" for p v] cast_vote_body_def book_of_def
        Let_def and_then_pair emit_eq
        del: exec.simps(2) add: exec.simps(2) [where c = "CCastVote p v" for p v])
qed

lemma toy_polka:
  assumes "i < 4" "k < 4" "k \<notin> set ks" "length ks = 2"
  shows "exec toy_engine_env 2000 (Suc (Suc (Suc (Suc (Suc n))))) (COnVote (toy_ballot Prevote k))
      (toy_at i SPrevote True False ks [] pvd None) =
    emit [Broadcast (MVote (toy_ballot Precommit i))]
      (toy_at i SPrecommit True True (ks @ [k]) [i] None (Some 2750))"
proof -
  let ?s = "toy_at i SPrevote True False (ks @ [k]) [] pvd None"
  have lock: "?s\<lparr>e_valid := Some (0, toy_bh), e_valid_proposal := Some toy_proposal, e_locked := Some (0, toy_bh),
      e_step := SPrecommit, e_prevote_deadline := None\<rparr> = toy_at i SPrecommit True True (ks @ [k]) [] None None"
    by (simp add: toy_at_def)
  have "exec toy_engine_env 2000 (Suc (Suc (Suc (Suc n)))) CTryAdvance ?s =
      emit [Broadcast (MVote (toy_ballot Precommit i))]
        (toy_at i SPrecommit True True (ks @ [k]) [i] None (Some 2750))"
    using assms lock toy_cast_precommit [of i "ks @ [k]" n None]
    by (simp add: body_def [of _ _ _ CTryAdvance] try_advance_tail prevote_stage_def Let_def and_then_pair emit_eq
        del: exec.simps(2) add: exec.simps(2) [where c = CTryAdvance])
  then show ?thesis
    using assms by (simp add: body_def [of _ _ _ "COnVote v" for v] on_vote_body_def book_of_def toy_lookup toy_record
        Let_def MAX_LOOKAHEAD_ROUNDS_def del: exec.simps(2) add: exec.simps(2) [where c = "COnVote v" for v])
qed

lemma exec_numeral: "exec V now (numeral k) c s = body V now (exec V now (pred_numeral k)) c s"
  by (simp add: numeral_eq_Suc)

text \<open>The precommit that makes the quorum: the block is committed.\<close>

lemma toy_build:
  assumes "set ks \<subseteq> {..<4}" "distinct ks" "3 \<le> length ks"
  shows "\<exists>qc. build_qc toy_env (map (toy_ballot Precommit) ks) sample_domain toy_set 1 0 toy_bh = Inr qc"
proof (rule build_qc_complete [where q = 3])
  have "{v_validator_idx v |v. v \<in> set (map (toy_ballot Precommit) ks) \<and> qc_candidate 1 0 toy_bh v \<and>
      v_validator_idx v < vs_len toy_set} = set ks"
    using assms(1) by (force simp: qc_candidate_def v_is_nil_def)
  then show "3 \<le> card {v_validator_idx v |v. v \<in> set (map (toy_ballot Precommit) ks) \<and>
      qc_candidate 1 0 toy_bh v \<and> v_validator_idx v < vs_len toy_set}"
    using assms(2,3) by (simp add: distinct_card)
qed (use assms(1) in auto)

lemma toy_decides:
  assumes "i < 4" "k < 4" "k \<notin> set js" "length js = 2" "distinct js" "set js \<subseteq> {..<4}" "3 \<le> length ks"
  shows "\<exists>s' cb. exec toy_engine_env 2000 (Suc (Suc n)) (COnVote (toy_ballot Precommit k))
      (toy_at i SPrecommit True True ks js pvd pcd) = emit [Commit cb] s' \<and> q_height (cb_qc cb) = 1"
proof -
  let ?s = "toy_at i SPrecommit True True ks (js @ [k]) pvd pcd"
  have valid: "?s\<lparr>e_valid := Some (0, toy_bh), e_valid_proposal := Some toy_proposal\<rparr> = ?s"
    by (simp add: toy_at_def)
  obtain qc where qc: "build_qc toy_env (map (toy_ballot Precommit) (js @ [k])) sample_domain toy_set 1 0 toy_bh = Inr qc"
    using toy_build [of "js @ [k]"] assms by auto
  then have h: "q_block_hash qc = toy_bh" "q_height qc = 1" by (rule build_qc_Inr)+
  let ?t = "?s\<lparr>e_pending_qc := Some qc, e_qc_grace_wait := None, e_last_qc_close := Immediate\<rparr>"
  have stage: "qc_stage toy_engine_env 3 2000 ?s = (?t, [])"
    using qc assms(4) by (simp add: qc_stage_def grace_decision_def)
  obtain s' cb where c: "commit toy_engine_env toy_proposal qc 2000 ?t = (s', [Commit cb])" "cb_qc cb = qc"
    by (simp add: commit_def)
  have fin: "commit_stage toy_engine_env 2000 ?t = Some (s', [Commit cb])"
    using c(1) h(1) by (simp add: commit_stage_def body_for_def)
  have "exec toy_engine_env 2000 (Suc n) CTryAdvance ?s = emit [Commit cb] s'"
    using assms valid stage fin
    by (simp add: body_def [of _ _ _ CTryAdvance] try_advance_tail prevote_stage_def Let_def and_then_pair emit_eq
        advance_tail_def del: exec.simps(2) add: exec.simps(2) [where c = CTryAdvance])
  then have "exec toy_engine_env 2000 (Suc (Suc n)) (COnVote (toy_ballot Precommit k))
      (toy_at i SPrecommit True True ks js pvd pcd) = emit [Commit cb] s'"
    using assms by (simp add: body_def [of _ _ _ "COnVote v" for v] on_vote_body_def book_of_def toy_lookup toy_record
        Let_def MAX_LOOKAHEAD_ROUNDS_def del: exec.simps(2) add: exec.simps(2) [where c = "COnVote v" for v])
  then show ?thesis using c(2) h(2) by blast
qed

lemma toy_hear_precommit:
  assumes "k < 4" "k \<notin> set js" "length js < 2" "3 \<le> length ks"
  shows "exec toy_engine_env 2000 (Suc (Suc n)) (COnVote (toy_ballot Precommit k))
      (toy_at i SPrecommit True True ks js pvd pcd) =
     emit [] (toy_at i SPrecommit True True ks (js @ [k]) pvd pcd)"
  using assms toy_advance_locked [of ks "js @ [k]" n i pvd pcd]
  by (simp add: body_def [of _ _ _ "COnVote v" for v] on_vote_body_def book_of_def toy_lookup toy_record
        Let_def MAX_LOOKAHEAD_ROUNDS_def del: exec.simps(2) add: exec.simps(2) [where c = "COnVote v" for v])

subsection \<open>Events\<close>

lemma toy_start:
  "\<exists>out. apply_event toy_engine_env (EStart 2000) (toy_node i) =
     Some (toy_at i Propose False False [] [] None None, out) \<and> own_votes out = {}"
proof -
  let ?s = "toy_at i Propose False False [] [] None None"
  define a where "a = (toy_node i)\<lparr>e_tip_committed_at_ms := 2000, e_round_active := True\<rparr>"
  have e: "enter_round 0 2000 a = ?s"
    by (simp add: a_def enter_round_def toy_at_def toy_node_def fresh_engine_def window_start_def sat_add_def
        t_propose_def Let_def sat_mul_def genesis_defaults_def toy_genesis_tip_def TIMEOUT_CAP_MULTIPLIER_def toy_book_def)
  have w: "window_start 2000 ?s = 2000"
    by (simp add: window_start_def sat_add_def genesis_defaults_def toy_genesis_tip_def)
  obtain out where ask: "ask_proposal 0 2000 ?s = (?s, out)" "own_votes out = {}"
    using w by (cases "is_proposer ?s") (simp_all add: ask_proposal_def own_votes_Cons)
  have run: "run_call toy_engine_env 2000 (CStartRound 0 None) a = emit out ?s"
    using toy_advance_none [of "[]" "[]" 18 i Propose False False None None] ask(1) e
    by (simp add: run_call_def CALL_DEPTH_def exec_numeral body_def [of _ _ _ "CStartRound r w" for r w]
        start_round_body_def note_view_change_def Let_def and_then_pair emit_eq)
  have "e_tip_committed_at_ms (toy_node i) = 0" "\<not> e_round_active (toy_node i)"
    by (simp_all add: toy_node_def fresh_engine_def)
  then have "start toy_engine_env 2000 (toy_node i) = Some (?s, out)"
    using run by (simp add: start_def Let_def a_def and_then_pair emit_eq toy_at_def)
  then show ?thesis using ask(2) by (simp add: apply_event_def)
qed

lemma toy_handle:
  assumes "exec toy_engine_env 2000 (Suc (Suc (Suc (Suc (Suc 15))))) c (toy_at i st got lk ks js pvd pcd) = emit out s'"
    and "c = COnVote (toy_ballot ph k) \<and> m = MVote (toy_ballot ph k) \<or> c = COnProposal toy_proposal \<and> m = MProposal toy_proposal"
  shows "apply_event toy_engine_env (EHandle 2000 m) (toy_at i st got lk ks js pvd pcd) = Some (s', out)"
proof -
  have "CALL_DEPTH = Suc (Suc (Suc (Suc (Suc 15))))" by (simp add: CALL_DEPTH_def)
  then have "run_call toy_engine_env 2000 c (toy_at i st got lk ks js pvd pcd) = Some (s', out)"
    using assms(1) by (simp only: run_call_def emit_eq)
  then show ?thesis
    using assms(2) by (auto simp: apply_event_def handle_def msg_height_def)
qed

text \<open>The votes each of the two correct nodes is sent: those of the other one and of validator 3.\<close>

definition toy_sent :: "nat \<Rightarrow> vote set" where
  "toy_sent i = {toy_ballot ph k | ph k. k = 1 - i \<or> k = 3}"

lemma toy_extend:
  assumes "steady toy_engine_env (toy_sent i) s0 out (toy_at i st got lk ks js pvd pcd)"
    and "exec toy_engine_env 2000 (Suc (Suc (Suc (Suc (Suc 15))))) c (toy_at i st got lk ks js pvd pcd) = emit out' s'"
    and "c = COnVote (toy_ballot ph k) \<and> (k = 1 - i \<or> k = 3) \<or> c = COnProposal toy_proposal"
  shows "steady toy_engine_env (toy_sent i) s0 (out @ out') s'"
  using assms(3)
proof
  assume c: "c = COnVote (toy_ballot ph k) \<and> (k = 1 - i \<or> k = 3)"
  show ?thesis
    by (rule steady.event [OF assms(1), where ev = "EHandle 2000 (MVote (toy_ballot ph k))"])
      (use c toy_handle [OF assms(2), of ph k "MVote (toy_ballot ph k)"] in
        \<open>auto simp: is_rotation_def heard_event_def heard_def toy_sent_def\<close>)
next
  assume c: "c = COnProposal toy_proposal"
  show ?thesis
    by (rule steady.event [OF assms(1), where ev = "EHandle 2000 (MProposal toy_proposal)"])
      (use c toy_handle [OF assms(2), of ph k "MProposal toy_proposal"] in
        \<open>auto simp: is_rotation_def heard_event_def heard_def\<close>)
qed

lemma toy_run_locked:
  assumes "i < 2"
  shows "\<exists>out. steady toy_engine_env (toy_sent i) (toy_node i) out
      (toy_at i SPrecommit True True [i, 1 - i, 3] [i] None (Some 2750)) \<and>
    own_votes out = {toy_ballot Prevote i, toy_ballot Precommit i}"
proof -
  let ?j = "1 - i" and ?run = "steady toy_engine_env (toy_sent i) (toy_node i)"
  have i: "i < 4" "?j < 4" "?j \<noteq> i" "i \<noteq> 3" "?j \<noteq> 3"
    using assms by (auto simp: less_2_cases_iff One_nat_def)
  obtain o1 where "apply_event toy_engine_env (EStart 2000) (toy_node i) =
      Some (toy_at i Propose False False [] [] None None, o1)" and o1: "own_votes o1 = {}"
    using toy_start by blast
  then have "?run ([] @ o1) (toy_at i Propose False False [] [] None None)"
    by (intro steady.event [OF steady.here]) (auto simp: is_rotation_def heard_event_def)
  from toy_extend [OF this toy_hear_proposal [OF i(1)]]
  have "?run ([] @ o1 @ [Broadcast (MVote (toy_ballot Prevote i))]) (toy_at i SPrevote True False [i] [] (Some 2750) None)"
    by simp
  from toy_extend [OF this toy_hear [of ?j "[i]" "[]"], of Prevote ?j]
  have "?run (o1 @ [Broadcast (MVote (toy_ballot Prevote i))]) (toy_at i SPrevote True False [i, ?j] [] (Some 2750) None)"
    using i by simp
  from toy_extend [OF this toy_polka [of i 3 "[i, ?j]"], of Prevote 3]
  have "?run (o1 @ [Broadcast (MVote (toy_ballot Prevote i)), Broadcast (MVote (toy_ballot Precommit i))])
      (toy_at i SPrecommit True True [i, ?j, 3] [i] None (Some 2750))"
    using i by simp
  moreover have "own_votes (o1 @ [Broadcast (MVote (toy_ballot Prevote i)),
      Broadcast (MVote (toy_ballot Precommit i))]) = {toy_ballot Prevote i, toy_ballot Precommit i}"
    using o1 by (auto simp: own_votes_Cons)
  ultimately show ?thesis by blast
qed

lemma toy_run:
  assumes "i < 2"
  shows "\<exists>out s cb. steady toy_engine_env (toy_sent i) (toy_node i) out s \<and> Commit cb \<in> set out \<and>
    q_height (cb_qc cb) = 1 \<and> own_votes out = {toy_ballot Prevote i, toy_ballot Precommit i}"
proof -
  let ?j = "1 - i" and ?run = "steady toy_engine_env (toy_sent i) (toy_node i)"
  have i: "i < 4" "?j < 4" "?j \<noteq> i" "i \<noteq> 3" "?j \<noteq> 3"
    using assms by (auto simp: less_2_cases_iff One_nat_def)
  obtain out where "?run out (toy_at i SPrecommit True True [i, ?j, 3] [i] None (Some 2750))"
    and own: "own_votes out = {toy_ballot Prevote i, toy_ballot Precommit i}"
    using toy_run_locked [OF assms] by blast
  from toy_extend [OF this(1) toy_hear_precommit [of ?j "[i]"], of Precommit ?j]
  have run: "?run out (toy_at i SPrecommit True True [i, ?j, 3] [i, ?j] None (Some 2750))"
    using i by simp
  obtain s cb where fin: "exec toy_engine_env 2000 (Suc (Suc (Suc (Suc (Suc 15))))) (COnVote (toy_ballot Precommit 3))
      (toy_at i SPrecommit True True [i, ?j, 3] [i, ?j] None (Some 2750)) = emit [Commit cb] s \<and> q_height (cb_qc cb) = 1"
    using toy_decides [of i 3 "[i, ?j]" "[i, ?j, 3]" "Suc (Suc (Suc 15))" None "Some 2750"] i
    by (auto simp del: exec.simps(2))
  from toy_extend [OF run conjunct1 [OF fin], of Precommit 3] have "?run (out @ [Commit cb]) s" by simp
  moreover have "own_votes (out @ [Commit cb]) = {toy_ballot Prevote i, toy_ballot Precommit i}"
    using own by (simp add: own_votes_Cons)
  ultimately show ?thesis using fin by fastforce
qed

lemma toy_node_new:
  "i < 4 \<Longrightarrow> engine_new toy_env sample_domain genesis_defaults toy_set
     (Some \<lparr>id_idx = i, id_keypair = toy_key i\<rparr>) toy_genesis_tip None = Inr (toy_node i)"
proof -
  assume i: "i < 4"
  have "ed_public toy_env k = k" for k by (simp add: toy_env_def)
  then show ?thesis
    using genesis_defaults_valid_core toy_set_valid i
    by (simp add: engine_new_def identity_fits_def toy_node_def check_tip_def toy_genesis_tip_def try_then_def)
qed

end
