(* ===== verification/Agreement.thy ===== *)
theory Agreement
  imports EngineExample
begin

text \<open>
  Agreement between nodes: the argument from the voting discipline of the correct validators, as the
  locale \<open>lock_discipline\<close>, and its instance for networks of engines.
\<close>

section \<open>From the voting discipline to agreement\<close>

text \<open>
  In a network \<open>N\<close> that is \<open>good\<close>, \<open>prevoted N h i r b\<close> says that validator \<open>i\<close> prevoted for \<open>b\<close> in
  round \<open>r\<close> of height \<open>h\<close>; \<open>supported N vote h r b\<close> that a quorum voted for \<open>b\<close> (the correct members of
  the quorum did). Two quorums share a correct validator.
\<close>

locale lock_discipline =
  fixes good :: "'n \<Rightarrow> bool" and correct :: "'n \<Rightarrow> nat set" and quorum :: "'n \<Rightarrow> nat set \<Rightarrow> bool"
    and prevoted precommitted :: "'n \<Rightarrow> nat \<Rightarrow> nat \<Rightarrow> nat \<Rightarrow> hash \<Rightarrow> bool"
  assumes quorums_meet: "good N \<Longrightarrow> quorum N Q \<Longrightarrow> quorum N Q' \<Longrightarrow> Q \<inter> Q' \<inter> correct N \<noteq> {}"
    and one_prevote: "good N \<Longrightarrow> i \<in> correct N \<Longrightarrow> prevoted N h i r b \<Longrightarrow> prevoted N h i r b' \<Longrightarrow> b = b'"
    and precommit_supported: "good N \<Longrightarrow> i \<in> correct N \<Longrightarrow> precommitted N h i r b \<Longrightarrow> b \<noteq> NIL_HASH \<Longrightarrow>
      \<exists>Q. quorum N Q \<and> (\<forall>j \<in> Q \<inter> correct N. prevoted N h j r b)"
    and unlocking: "good N \<Longrightarrow> i \<in> correct N \<Longrightarrow> precommitted N h i r b \<Longrightarrow> prevoted N h i r' b' \<Longrightarrow>
      r < r' \<Longrightarrow> b \<noteq> NIL_HASH \<Longrightarrow> b' \<noteq> NIL_HASH \<Longrightarrow> b' \<noteq> b \<Longrightarrow>
      \<exists>vr Q. r < vr \<and> vr < r' \<and> quorum N Q \<and> (\<forall>j \<in> Q \<inter> correct N. prevoted N h j vr b')"
begin

definition polka :: "'n \<Rightarrow> nat \<Rightarrow> nat \<Rightarrow> hash \<Rightarrow> bool" where
  "polka N h r b \<longleftrightarrow> (\<exists>Q. quorum N Q \<and> (\<forall>j \<in> Q \<inter> correct N. prevoted N h j r b))"

definition decided :: "'n \<Rightarrow> nat \<Rightarrow> nat \<Rightarrow> hash \<Rightarrow> bool" where
  "decided N h r b \<longleftrightarrow> (\<exists>Q. quorum N Q \<and> (\<forall>j \<in> Q \<inter> correct N. precommitted N h j r b))"

lemma polka_unique:
  assumes "good N" "polka N h r b" "polka N h r b'"
  shows "b = b'"
  using assms quorums_meet [OF assms(1)] one_prevote [OF assms(1)]
  unfolding polka_def by blast

lemma decided_polka:
  assumes "good N" "decided N h r b" "b \<noteq> NIL_HASH"
  shows "polka N h r b"
proof -
  obtain Q where Q: "quorum N Q" "\<forall>j \<in> Q \<inter> correct N. precommitted N h j r b"
    using assms(2) by (auto simp: decided_def)
  then obtain i where "i \<in> correct N" "precommitted N h i r b"
    using quorums_meet [OF assms(1) Q(1) Q(1)] by blast
  then show ?thesis
    using precommit_supported [OF assms(1) _ _ assms(3)] unfolding polka_def by blast
qed

text \<open>Once a block is decided, no other block has a polka in that round or a later one.\<close>

lemma polka_after_decision:
  assumes good: "good N" and dec: "decided N h r b" "b \<noteq> NIL_HASH"
  shows "r \<le> r' \<Longrightarrow> polka N h r' b' \<Longrightarrow> b' \<noteq> NIL_HASH \<Longrightarrow> b' = b"
proof (induction r' rule: less_induct)
  case (less r')
  show ?case
  proof (cases "r' = r")
    case True
    then show ?thesis
      using polka_unique [OF good _ decided_polka [OF good dec]] less.prems by blast
  next
    case False
    then have lt: "r < r'" using less.prems(1) by simp
    obtain Q where Q: "quorum N Q" "\<forall>j \<in> Q \<inter> correct N. precommitted N h j r b"
      using dec(1) by (auto simp: decided_def)
    obtain Q' where Q': "quorum N Q'" "\<forall>j \<in> Q' \<inter> correct N. prevoted N h j r' b'"
      using less.prems(2) by (auto simp: polka_def)
    obtain i where i: "i \<in> correct N" "precommitted N h i r b" "prevoted N h i r' b'"
      using quorums_meet [OF good Q(1) Q'(1)] Q Q' by blast
    show ?thesis
    proof (rule ccontr)
      assume ne: "b' \<noteq> b"
      from unlocking [OF good i lt dec(2) less.prems(3) ne]
      obtain vr where vr: "r < vr" "vr < r'" "polka N h vr b'"
        unfolding polka_def by blast
      from less.IH [OF vr(2) _ vr(3) less.prems(3)] vr(1) ne show False by simp
    qed
  qed
qed

theorem agreement:
  assumes good: "good N" and "decided N h r b" "decided N h r' b'" "b \<noteq> NIL_HASH" "b' \<noteq> NIL_HASH"
  shows "b = b'"
proof (cases "r \<le> r'")
  case True
  from polka_after_decision [OF good assms(2,4) True decided_polka [OF good assms(3,5)] assms(5)]
  show ?thesis by simp
next
  case False
  then have "r' \<le> r" by simp
  from polka_after_decision [OF good assms(3,5) this decided_polka [OF good assms(2,4)] assms(4)]
  show ?thesis .
qed

end

section \<open>Networks of engines\<close>

text \<open>
  The nodes of one epoch: each correct validator \<open>i\<close> runs an engine built by \<open>engine_new\<close> for its
  index, through a steady run in which it hears the votes \<open>nw_heard N i\<close>.
\<close>

record network =
  nw_crypto :: crypto_env
  nw_domain :: consensus_domain
  nw_set :: active_validator_set
  nw_faulty :: "nat set"
  nw_env :: "nat \<Rightarrow> engine_env"
  nw_heard :: "nat \<Rightarrow> vote set"
  nw_init :: "nat \<Rightarrow> engine"
  nw_out :: "nat \<Rightarrow> engine_output list"
  nw_now :: "nat \<Rightarrow> engine"

definition correct_nodes :: "network \<Rightarrow> nat set" where
  "correct_nodes N = {..<vs_len (nw_set N)} - nw_faulty N"

text \<open>The same ballot, whatever its signature.\<close>

definition same_ballot :: "vote \<Rightarrow> vote \<Rightarrow> bool" where
  "same_ballot v w \<longleftrightarrow> is_ballot w (v_height v) (v_round v) (v_phase v) (v_block_hash v) (v_validator_idx v)"

definition node_runs :: "network \<Rightarrow> nat \<Rightarrow> bool" where
  "node_runs N i \<longleftrightarrow>
     en_crypto (nw_env N i) = nw_crypto N \<and>
     (\<exists>params key tip tip_set.
        engine_new (nw_crypto N) (nw_domain N) params (nw_set N) (Some \<lparr>id_idx = i, id_keypair = key\<rparr>)
          tip tip_set = Inr (nw_init N i)) \<and>
     steady (nw_env N i) (nw_heard N i) (nw_init N i) (nw_out N i) (nw_now N i)"

text \<open>
  No forgery: a vote that verifies under a correct validator's key was broadcast by that validator.
\<close>

definition unforged :: "network \<Rightarrow> vote set \<Rightarrow> bool" where
  "unforged N K \<longleftrightarrow>
     (\<forall>v \<in> K. v_validator_idx v \<in> correct_nodes N \<and> \<not> v_shadow v \<and>
        verify_vote (nw_crypto N) v (nw_domain N) (nw_set N) = Inr () \<longrightarrow>
        (\<exists>w \<in> own_votes (nw_out N (v_validator_idx v)). same_ballot v w))"

definition sound_network :: "network \<Rightarrow> bool" where
  "sound_network N \<longleftrightarrow>
     ed25519_correct (nw_crypto N) \<and> length (vs_members (nw_set N)) = vs_len (nw_set N) \<and>
     finite (nw_faulty N) \<and> card (nw_faulty N) \<le> byzantine_tolerance (vs_len (nw_set N)) \<and>
     (\<forall>i \<in> correct_nodes N. node_runs N i \<and> unforged N (nw_heard N i))"

text \<open>Validator \<open>i\<close> broadcast a vote.\<close>

definition voted :: "vote_phase \<Rightarrow> network \<Rightarrow> nat \<Rightarrow> nat \<Rightarrow> nat \<Rightarrow> hash \<Rightarrow> bool" where
  "voted ph N h i r b \<longleftrightarrow> (\<exists>v \<in> own_votes (nw_out N i). is_ballot v h r ph b i)"

definition is_quorum :: "network \<Rightarrow> nat set \<Rightarrow> bool" where
  "is_quorum N Q \<longleftrightarrow>
     Q \<subseteq> {..<vs_len (nw_set N)} \<and> (\<exists>q. vs_quorum (nw_set N) = Inr q \<and> q \<le> card Q)"

lemma node_history:
  assumes "sound_network N" "i \<in> correct_nodes N"
  shows "history (nw_env N i) (nw_heard N i) (nw_out N i) (nw_now N i)"
    "en_crypto (nw_env N i) = nw_crypto N" "e_domain (nw_now N i) = nw_domain N"
    "e_set (nw_now N i) = nw_set N" "my_idx (nw_now N i) = Some i"
proof -
  have run: "node_runs N i" and ed: "ed25519_correct (nw_crypto N)"
    using assms by (simp_all add: sound_network_def)
  then obtain params key tip tip_set where c: "en_crypto (nw_env N i) = nw_crypto N" and
    new: "engine_new (nw_crypto N) (nw_domain N) params (nw_set N) (Some \<lparr>id_idx = i, id_keypair = key\<rparr>)
      tip tip_set = Inr (nw_init N i)" and
    st: "steady (nw_env N i) (nw_heard N i) (nw_init N i) (nw_out N i) (nw_now N i)"
    unfolding node_runs_def by blast
  from steady_history [of "nw_env N i", unfolded c, OF ed new st]
  have h: "history (nw_env N i) (nw_heard N i) (nw_out N i) (nw_now N i)"
    "same_rules (nw_init N i) (nw_now N i)" by blast+
  show "history (nw_env N i) (nw_heard N i) (nw_out N i) (nw_now N i)" by (rule h(1))
  show "en_crypto (nw_env N i) = nw_crypto N" by (rule c)
  show "e_domain (nw_now N i) = nw_domain N" "e_set (nw_now N i) = nw_set N" "my_idx (nw_now N i) = Some i"
    using h(2) engine_new_fresh(4) [OF new] by (auto simp: same_rules_def fresh_engine_def my_idx_def)
qed

text \<open>A ballot that a correct node knows of, cast by a correct validator, was broadcast by it.\<close>

lemma known_ballot:
  assumes N: "sound_network N" and i: "i \<in> correct_nodes N" and j: "j \<in> correct_nodes N"
    and v: "v \<in> nw_heard N i \<union> own_votes (nw_out N i)" "is_ballot v h r ph b j"
    and ok: "verify_vote (nw_crypto N) v (nw_domain N) (nw_set N) = Inr ()"
  shows "voted ph N h j r b"
proof (cases "v \<in> nw_heard N i")
  case True
  have "unforged N (nw_heard N i)" using N i by (simp add: sound_network_def)
  then have "\<exists>w \<in> own_votes (nw_out N j). same_ballot v w"
    using True v(2) ok j unfolding unforged_def is_ballot_def by blast
  then show ?thesis
    using v(2) by (auto simp: voted_def same_ballot_def is_ballot_def)
next
  case False
  then have "v \<in> own_votes (nw_out N i)" using v(1) by simp
  moreover from this have "v_validator_idx v = i"
    using node_history(1,5) [OF N i] by (auto simp: history_def own_inv_def)
  ultimately show ?thesis using v(2) by (auto simp: voted_def is_ballot_def)
qed

lemma backed_quorum:
  assumes N: "sound_network N" and i: "i \<in> correct_nodes N"
    and b: "backed (nw_crypto N) (nw_domain N) (nw_set N) (nw_heard N i \<union> own_votes (nw_out N i)) ph h r b"
  shows "\<exists>Q. is_quorum N Q \<and> (\<forall>j \<in> Q \<inter> correct_nodes N. voted ph N h j r b)"
proof -
  from b obtain Q q where q: "vs_quorum (nw_set N) = Inr q" "q \<le> card Q"
    and Q: "\<forall>j \<in> Q. \<exists>v \<in> nw_heard N i \<union> own_votes (nw_out N i).
      is_ballot v h r ph b j \<and> verify_vote (nw_crypto N) v (nw_domain N) (nw_set N) = Inr ()"
    unfolding backed_def by blast
  have "j < vs_len (nw_set N)" if j: "j \<in> Q" for j
  proof -
    obtain v where v: "is_ballot v h r ph b j" "verify_vote (nw_crypto N) v (nw_domain N) (nw_set N) = Inr ()"
      using bspec [OF Q j] by (elim bexE conjE)
    from votes.verified_signed [OF v(2)] have "v_validator_idx v < length (vs_members (nw_set N))" .
    then show ?thesis using N v(1) by (simp add: sound_network_def is_ballot_def)
  qed
  then have "is_quorum N Q" using q by (auto simp: is_quorum_def)
  moreover have "voted ph N h j r b" if j: "j \<in> Q" "j \<in> correct_nodes N" for j
  proof -
    obtain v where "v \<in> nw_heard N i \<union> own_votes (nw_out N i)" "is_ballot v h r ph b j"
      "verify_vote (nw_crypto N) v (nw_domain N) (nw_set N) = Inr ()"
      using bspec [OF Q j(1)] by (elim bexE conjE)
    then show ?thesis by (rule known_ballot [OF N i j(2)])
  qed
  ultimately show ?thesis by blast
qed

interpretation net: lock_discipline sound_network correct_nodes is_quorum "voted Prevote" "voted Precommit"
proof
  fix N Q Q'
  assume N: "sound_network N" and Q: "is_quorum N Q" and Q': "is_quorum N Q'"
  obtain q where q: "quorum_of (vs_len (nw_set N)) = Inr q" "q \<le> card Q" "q \<le> card Q'"
    using Q Q' by (auto simp: is_quorum_def vs_quorum_def)
  have "\<exists>v \<in> Q \<inter> Q'. v \<notin> nw_faulty N"
    by (rule code_quorum.honest_overlap [OF q(1) _ _ q(2,3)])
      (use N Q Q' in \<open>simp_all add: sound_network_def is_quorum_def\<close>)
  then show "Q \<inter> Q' \<inter> correct_nodes N \<noteq> {}"
    using Q by (auto simp: correct_nodes_def is_quorum_def)
next
  fix N i h r b b'
  assume N: "sound_network N" "i \<in> correct_nodes N"
    and v: "voted Prevote N h i r b" "voted Prevote N h i r b'"
  have "once_inv (nw_out N i)" using node_history(1) [OF N] by (simp add: history_def)
  then show "b = b'"
    using v unfolding voted_def is_ballot_def once_inv_def by metis
next
  fix N i h r b
  assume N: "sound_network N" "i \<in> correct_nodes N" and v: "voted Precommit N h i r b" and nil: "b \<noteq> NIL_HASH"
  note facts = node_history [OF N]
  have "lock_inv (nw_env N i) (nw_heard N i) (nw_out N i) (nw_now N i)"
    using facts(1) by (simp add: history_def)
  then have "backed (nw_crypto N) (nw_domain N) (nw_set N) (nw_heard N i \<union> own_votes (nw_out N i)) Prevote h r b"
    using v nil unfolding lock_inv_def voted_def is_ballot_def facts by blast
  then show "\<exists>Q. is_quorum N Q \<and> (\<forall>j \<in> Q \<inter> correct_nodes N. voted Prevote N h j r b)"
    by (rule backed_quorum [OF N])
next
  fix N i h r b r' b'
  assume N: "sound_network N" "i \<in> correct_nodes N" and v: "voted Precommit N h i r b"
    "voted Prevote N h i r' b'" and lt: "r < r'" "b \<noteq> NIL_HASH" "b' \<noteq> NIL_HASH" "b' \<noteq> b"
  note facts = node_history [OF N]
  have "unlock_inv (nw_env N i) (nw_heard N i) (nw_out N i) (nw_now N i)"
    using facts(1) by (simp add: history_def)
  moreover obtain x where x: "x \<in> own_votes (nw_out N i)" "is_ballot x h r Precommit b i"
    using v(1) by (auto simp: voted_def)
  moreover obtain y where y: "y \<in> own_votes (nw_out N i)" "is_ballot y h r' Prevote b' i"
    using v(2) by (auto simp: voted_def)
  ultimately have "\<exists>vr. v_round x < vr \<and> vr < v_round y \<and> backed (nw_crypto N) (nw_domain N) (nw_set N)
      (nw_heard N i \<union> own_votes (nw_out N i)) Prevote (v_height y) vr (v_block_hash y)"
    unfolding unlock_inv_def facts using lt by (elim ballE [where x = x] ballE [where x = y]) (simp_all add: is_ballot_def)
  then obtain vr where vr: "r < vr" "vr < r'" "backed (nw_crypto N) (nw_domain N) (nw_set N)
      (nw_heard N i \<union> own_votes (nw_out N i)) Prevote h vr b'"
    using x(2) y(2) by (auto simp: is_ballot_def)
  with backed_quorum [OF N vr(3)]
  show "\<exists>vr Q. r < vr \<and> vr < r' \<and> is_quorum N Q \<and> (\<forall>j \<in> Q \<inter> correct_nodes N. voted Prevote N h j vr b')"
    by blast
qed

lemma commit_decided:
  assumes N: "sound_network N" and i: "i \<in> correct_nodes N" and cb: "Commit cb \<in> set (nw_out N i)"
  shows "net.decided N (q_height (cb_qc cb)) (q_round (cb_qc cb)) (q_block_hash (cb_qc cb))"
    "q_block_hash (cb_qc cb) \<noteq> NIL_HASH"
    "pr_block_hash (nw_crypto N) (cb_proposal cb) = q_block_hash (cb_qc cb)"
proof -
  note facts = node_history [OF N i]
  have "commit_inv (nw_env N i) (nw_heard N i) (nw_out N i) (nw_now N i)"
    using facts(1) by (simp add: history_def)
  then have "certified (nw_env N i) (nw_heard N i \<union> own_votes (nw_out N i)) (nw_now N i) (cb_qc cb) \<and>
      pr_block_hash (nw_crypto N) (cb_proposal cb) = q_block_hash (cb_qc cb)"
    using cb unfolding commit_inv_def commits_set [symmetric] facts by blast
  then have c: "certified (nw_env N i) (nw_heard N i \<union> own_votes (nw_out N i)) (nw_now N i) (cb_qc cb)"
    and h: "pr_block_hash (nw_crypto N) (cb_proposal cb) = q_block_hash (cb_qc cb)" by simp_all
  show "net.decided N (q_height (cb_qc cb)) (q_round (cb_qc cb)) (q_block_hash (cb_qc cb))"
    using c backed_quorum [OF N i] unfolding certified_def facts net.decided_def by blast
  show "q_block_hash (cb_qc cb) \<noteq> NIL_HASH" using c by (simp add: certified_def)
  show "pr_block_hash (nw_crypto N) (cb_proposal cb) = q_block_hash (cb_qc cb)" by (rule h)
qed

text \<open>
  C1: agreement. In a network of correct engines with at most f = (n-1)/3 faulty validators, no two
  correct nodes ever commit different blocks at the same height, whatever the faulty validators send,
  however messages are delayed or reordered and in whatever rounds the commits happen; the faulty
  validators can do anything but forge a correct validator's signature. The engines are not restarted
  and the set is not rotated within the run.
\<close>

theorem no_two_blocks_committed:
  assumes "sound_network N" and "i \<in> correct_nodes N" and "j \<in> correct_nodes N"
    and "Commit a \<in> set (nw_out N i)" and "Commit b \<in> set (nw_out N j)"
    and "q_height (cb_qc a) = q_height (cb_qc b)"
  shows "pr_block_hash (nw_crypto N) (cb_proposal a) = pr_block_hash (nw_crypto N) (cb_proposal b) \<and>
    q_block_hash (cb_qc a) = q_block_hash (cb_qc b)"
proof -
  note a = commit_decided [OF assms(1,2,4)]
  note b = commit_decided [OF assms(1,3,5)]
  have "q_block_hash (cb_qc a) = q_block_hash (cb_qc b)"
    by (rule net.agreement [OF assms(1) a(1) _ a(2) b(2)]) (use b(1) assms(6) in simp)
  then show ?thesis using a(3) b(3) by simp
qed

section \<open>A network that commits\<close>

text \<open>
  Validators 0 and 1 commit; validator 2 has not started; validator 3 is faulty (it votes, but runs no
  engine).
\<close>

lemma toy_network:
  "\<exists>N a. sound_network N \<and> 0 \<in> correct_nodes N \<and> 1 \<in> correct_nodes N \<and>
     (\<forall>i \<in> {0, 1}. Commit (a i) \<in> set (nw_out N i) \<and> q_height (cb_qc (a i)) = 1)"
proof -
  obtain out s cb where run: "\<And>i. i < 2 \<Longrightarrow> steady toy_engine_env (toy_sent i) (toy_node i) (out i) (s i) \<and>
      Commit (cb i) \<in> set (out i) \<and> q_height (cb_qc (cb i)) = 1 \<and> own_votes (out i) = {toy_ballot Prevote i, toy_ballot Precommit i}"
    using toy_run by metis
  define N where "N = \<lparr>nw_crypto = toy_env, nw_domain = sample_domain, nw_set = toy_set, nw_faulty = {3},
    nw_env = (\<lambda>_. toy_engine_env), nw_heard = (\<lambda>i. if i < 2 then toy_sent i else {}), nw_init = toy_node,
    nw_out = (\<lambda>i. if i < 2 then out i else []), nw_now = (\<lambda>i. if i < 2 then s i else toy_node i)\<rparr>"
  have correct: "correct_nodes N = {0, 1, 2}"
    by (auto simp: correct_nodes_def N_def)
  have runs: "node_runs N i" if "i \<in> {0, 1, 2}" for i
  proof -
    have "engine_new toy_env sample_domain genesis_defaults toy_set
        (Some \<lparr>id_idx = i, id_keypair = toy_key i\<rparr>) toy_genesis_tip None = Inr (nw_init N i)"
      using that toy_node_new [of i] by (auto simp: N_def)
    moreover have "steady (nw_env N i) (nw_heard N i) (nw_init N i) (nw_out N i) (nw_now N i)"
      using run [of i] steady.here by (simp add: N_def)
    moreover have "en_crypto (nw_env N i) = nw_crypto N" "nw_domain N = sample_domain" "nw_set N = toy_set"
      "nw_crypto N = toy_env"
      by (simp_all add: N_def)
    ultimately show ?thesis unfolding node_runs_def by auto
  qed
  have unforged: "unforged N (nw_heard N i)" if "i \<in> {0, 1, 2}" for i
  proof -
    have "\<exists>w \<in> own_votes (nw_out N (v_validator_idx v)). same_ballot v w"
      if v: "v \<in> toy_sent i" "i < 2" "v_validator_idx v \<noteq> 3" for v
    proof -
      obtain ph where ph: "v = toy_ballot ph (1 - i)" "1 - i < 2" using v by (auto simp: toy_sent_def)
      then have "own_votes (nw_out N (1 - i)) = {toy_ballot Prevote (1 - i), toy_ballot Precommit (1 - i)}"
        using run [of "1 - i"] by (simp add: N_def)
      then show ?thesis using ph by (cases ph) (auto simp: same_ballot_def is_ballot_def)
    qed
    note sent = this
    show ?thesis
      unfolding unforged_def correct
    proof (intro ballI impI, elim conjE)
      fix v assume v: "v \<in> nw_heard N i" "v_validator_idx v \<in> {0, 1, 2}"
      then have "i < 2" "v \<in> toy_sent i" by (auto simp: N_def split: if_splits)
      with v(2) show "\<exists>w \<in> own_votes (nw_out N (v_validator_idx v)). same_ballot v w"
        by (intro sent) auto
    qed
  qed
  have "sound_network N"
    unfolding sound_network_def correct using runs unforged toy_env_correct
    by (simp add: N_def) (simp add: toy_set_def sample_members_def)
  then show ?thesis
    using run correct by (intro exI [of _ N] exI [of _ cb]) (simp add: N_def)
qed

theorem no_two_blocks_committed_witness:
  "\<exists>(N :: network) a. (\<forall>i \<in> {0, 1 :: nat}. Commit (a i) \<in> set (nw_out N i)) \<and>
     pr_block_hash (nw_crypto N) (cb_proposal (a 0)) = pr_block_hash (nw_crypto N) (cb_proposal (a 1)) \<and>
     q_block_hash (cb_qc (a 0)) = q_block_hash (cb_qc (a 1))"
proof -
  obtain N a where N: "sound_network N" "0 \<in> correct_nodes N" "1 \<in> correct_nodes N"
    and a: "\<forall>i \<in> {0, 1}. Commit (a i) \<in> set (nw_out N i) \<and> q_height (cb_qc (a i)) = 1"
    using toy_network by blast
  have "pr_block_hash (nw_crypto N) (cb_proposal (a 0)) = pr_block_hash (nw_crypto N) (cb_proposal (a 1)) \<and>
      q_block_hash (cb_qc (a 0)) = q_block_hash (cb_qc (a 1))"
    by (rule no_two_blocks_committed [OF N]) (use a in simp_all)
  with a show ?thesis by (intro exI [of _ N] exI [of _ a]) simp
qed

end
