(* ===== verification/EngineProperties.thy ===== *)
theory EngineProperties
  imports EngineExample
begin

text \<open>
  The engine's promises to its operator and to the other nodes: the safety invariants of one node's
  run, the bounds on its timers, the rotation of proposers, the rotation of the set, and what a
  restart forgets.
\<close>

section \<open>Safety of one node\<close>

text \<open>
  C31: one vote per slot (INV-C1): in a run from construction through any events but a rotation, a
  node broadcasts at most one vote for a height, round and phase, so it can never be evidence against
  itself.
\<close>

theorem one_vote_per_slot:
  assumes "ed25519_correct (en_crypto V)"
    and "engine_new (en_crypto V) d params vset identity tip tip_set = Inr s0"
    and "steady V M s0 out s"
    and "Broadcast (MVote v) \<in> set out" and "Broadcast (MVote w) \<in> set out"
    and "v_height v = v_height w" and "v_round v = v_round w" and "v_phase v = v_phase w"
  shows "v = w"
  using steady_history [OF assms(1-3)] assms(4-)
  by (auto simp: history_def once_inv_def own_votes_def)

text \<open>
  C7: the lock (INV-C4), within one run of a node: from the construction of the engine on, through any events
  but a rotation of the set and without a restart, after the node has precommitted a block every prevote of it
  in a later round of that height is for nil, for the same block, or for a block backed by a proof of lock: a
  quorum of verified prevotes for it in a round strictly between the two. A restart breaks this: the restarted
  engine has no lock (\<open>restart_forgets_lock\<close>).
\<close>

theorem prevotes_respect_lock:
  assumes "ed25519_correct (en_crypto V)"
    and "engine_new (en_crypto V) d params vset identity tip tip_set = Inr s0"
    and "steady V M s0 out s"
    and "Broadcast (MVote v) \<in> set out" and "Broadcast (MVote w) \<in> set out"
    and "v_phase v = Precommit" and "v_phase w = Prevote" and "v_height w = v_height v"
    and "v_round v < v_round w" and "v_block_hash v \<noteq> NIL_HASH"
  shows "v_block_hash w = NIL_HASH \<or> v_block_hash w = v_block_hash v \<or>
    (\<exists>vr. v_round v < vr \<and> vr < v_round w \<and>
      backed (en_crypto V) (e_domain s) (e_set s) (M \<union> own_votes out) Prevote (v_height w) vr (v_block_hash w))"
  using steady_history [OF assms(1-3)] assms(4-)
  unfolding history_def unlock_inv_def own_votes_def by blast

text \<open>
  C8: commits (INV-C3): every block a node commits comes with a certificate that verifies against the
  set, names that block, is not nil and was formed from a quorum of verified precommits, and the
  committed heights are strictly increasing, so there is one commit per height.
\<close>

theorem commits_are_certified:
  assumes "ed25519_correct (en_crypto V)"
    and "engine_new (en_crypto V) d params vset identity tip tip_set = Inr s0"
    and "steady V M s0 out s"
  shows "(\<forall>cb \<in> set (commits out).
      verify_qc (en_crypto V) (cb_qc cb) (e_domain s) (e_set s) = Inr () \<and>
      q_block_hash (cb_qc cb) \<noteq> NIL_HASH \<and>
      pr_block_hash (en_crypto V) (cb_proposal cb) = q_block_hash (cb_qc cb) \<and>
      backed (en_crypto V) (e_domain s) (e_set s) (M \<union> own_votes out) Precommit
        (q_height (cb_qc cb)) (q_round (cb_qc cb)) (q_block_hash (cb_qc cb))) \<and>
    sorted_wrt (<) (map (\<lambda>cb. q_height (cb_qc cb)) (commits out))"
  using steady_history [OF assms] by (auto simp: history_def commit_inv_def certified_def)

text \<open>
  Rounds only grow (INV-T1, a debug assertion of the source): every view change a node reports
  goes to a strictly later round.
\<close>

theorem view_changes_go_forward:
  assumes "ed25519_correct (en_crypto V)"
    and "engine_new (en_crypto V) d params vset identity tip tip_set = Inr s0"
    and "steady V M s0 out s"
    and "ViewChange h from_round to_round why \<in> set out"
  shows "from_round < to_round"
  using steady_history [OF assms(1-3)] assms(4) unfolding history_def view_inv_def by blast

text \<open>A run that votes and commits, for the witnesses.\<close>

lemma toy_new: "engine_new (en_crypto toy_engine_env) sample_domain genesis_defaults toy_set
     (Some \<lparr>id_idx = 0, id_keypair = toy_key 0\<rparr>) toy_genesis_tip None = Inr (toy_node 0)"
  using toy_node_new [of 0] by simp

lemma toy_correct: "ed25519_correct (en_crypto toy_engine_env)"
  by (simp add: toy_env_correct)

theorem one_vote_per_slot_witness:
  "\<exists>out s v. steady toy_engine_env (toy_sent 0) (toy_node 0) out s \<and> Broadcast (MVote v) \<in> set out \<and>
     (\<forall>w. Broadcast (MVote w) \<in> set out \<longrightarrow> v_height v = v_height w \<longrightarrow>
       v_round v = v_round w \<longrightarrow> v_phase v = v_phase w \<longrightarrow> v = w)"
proof -
  obtain out s where run: "steady toy_engine_env (toy_sent 0) (toy_node 0) out s"
    and own: "own_votes out = {toy_ballot Prevote 0, toy_ballot Precommit 0}"
    using toy_run [of 0] by auto
  let ?v = "toy_ballot Prevote 0"
  from own have v: "Broadcast (MVote ?v) \<in> set out" by (auto simp: own_votes_def)
  have "?v = w" if "Broadcast (MVote w) \<in> set out" "v_height ?v = v_height w" "v_round ?v = v_round w"
      "v_phase ?v = v_phase w" for w
    by (rule one_vote_per_slot [OF toy_correct toy_new run v that])
  with run v show ?thesis by blast
qed

theorem commits_are_certified_witness:
  "\<exists>out s cb. steady toy_engine_env (toy_sent 0) (toy_node 0) out s \<and> cb \<in> set (commits out) \<and>
     verify_qc toy_env (cb_qc cb) (e_domain s) (e_set s) = Inr ()"
proof -
  obtain out s cb where run: "steady toy_engine_env (toy_sent 0) (toy_node 0) out s" and "Commit cb \<in> set out"
    using toy_run [of 0] by auto
  then have "cb \<in> set (commits out)" by (simp add: commits_set)
  with commits_are_certified [OF toy_correct toy_new run] run show ?thesis by auto
qed

text \<open>The run again, up to the precommit; then the precommit and the propose timers fire.\<close>

lemma toy_locked_run:
  "\<exists>out. steady toy_engine_env (toy_sent 0) (toy_node 0) out
      (toy_at 0 SPrecommit True True [0, 1, 3] [0] None (Some 2750)) \<and>
    own_votes out = {toy_ballot Prevote 0, toy_ballot Precommit 0}"
  using toy_run_locked [of 0] by simp

abbreviation toy_locked :: engine where
  "toy_locked \<equiv> toy_at 0 SPrecommit True True [0, 1, 3] [0] None (Some 2750)"

definition toy_round_one :: engine where
  "toy_round_one = started 1 2750 (Some Timeout) (count_timeout (toy_at 0 SPrecommit True True [0, 1, 3] [0] None None))"

lemma toy_locked_timers [simp]:
  "e_propose_ready_at toy_locked = None" "e_propose_deadline toy_locked = Some 3500"
  by (simp_all add: toy_at_def)

lemma toy_round_one_fields:
  "e_round toy_round_one = 1" "e_step toy_round_one = Propose" "e_round_active toy_round_one"
  "e_set toy_round_one = toy_set" "e_height toy_round_one = 1" "e_domain toy_round_one = sample_domain"
  "e_identity toy_round_one = Some \<lparr>id_idx = 0, id_keypair = toy_key 0\<rparr>"
  "e_prevotes toy_round_one = toy_book Prevote [0, 1, 3]" "e_precommits toy_round_one = toy_book Precommit [0]"
  "e_pending_qc toy_round_one = None" "e_proposals toy_round_one = [(0, toy_proposal)]"
  unfolding toy_round_one_def
  by (simp_all add: started_fields started_more started_pending count_timeout_def
      core_fields(14) [OF core_started] enter_round_def)

lemma toy_other_round [simp]: "slot (toy_book ph ks) 1 = []"
  by (simp add: toy_book_def slot_def One_nat_def)

lemma toy_round_one_advance:
  "exec toy_engine_env 2750 (Suc n) CTryAdvance toy_round_one = emit [] toy_round_one"
proof -
  note f = toy_round_one_fields
  have q: "quorum_value (toy_book Prevote [0, 1, 3]) 1 3 = None" by (simp add: quorum_value_def)
  have "prevote_stage toy_engine_env rec 3 1 toy_round_one = emit [] toy_round_one" for rec
    by (simp add: prevote_stage_def f(8) q)
  moreover have "qc_stage toy_engine_env 3 2750 toy_round_one = (toy_round_one, [])"
    by (simp add: qc_stage_def f(9,10))
  ultimately show ?thesis
    by (simp add: body_def try_advance_tail advance_tail_def f commit_stage_def nil_stage_def and_then_emit)
      (simp add: emit_def)
qed

lemma toy_view_change:
  "apply_event toy_engine_env (ETick 2750) toy_locked = Some (toy_round_one, [ViewChange 1 0 1 Timeout])"
proof -
  let ?t = "toy_at 0 SPrecommit True True [0, 1, 3] [0] None None"
  have ask: "ask_proposal 1 2750 (enter_round 1 2750 x) = (enter_round 1 2750 x, [])"
    if "e_set x = toy_set" "e_height x = 1" "my_idx x = Some 0" for x
  proof -
    have "\<not> is_proposer (enter_round 1 2750 x)"
      using that by (auto simp: is_proposer_def proposer_for_def as_u16_def my_idx_def)
    then show ?thesis by (simp add: ask_proposal_def)
  qed
  have "start_round_body rec 1 2750 (Some Timeout) (count_timeout ?t) =
      and_then (emit [ViewChange 1 0 1 Timeout] toy_round_one) (rec CTryAdvance)" for rec
  proof -
    have "snd (note_view_change 1 (Some Timeout) (count_timeout ?t)) = [ViewChange 1 0 1 Timeout]"
      by (simp add: note_view_change_def Let_def count_timeout_def)
    moreover have "snd (ask_proposal 1 2750 (enter_round 1 2750 (fst (note_view_change 1 (Some Timeout) (count_timeout ?t))))) = []"
      by (subst ask) (simp_all add: core_fields [OF core_note_view_change] count_timeout_def my_idx_def)
    ultimately show ?thesis
      unfolding start_round_eq toy_round_one_def [symmetric] using toy_round_one_fields(11)
      by (simp add: and_then_def emit_def split: option.split)
  qed
  then have "run_call toy_engine_env 2750 (CStartRound 1 (Some Timeout)) (count_timeout ?t) =
      emit [ViewChange 1 0 1 Timeout] toy_round_one"
    using toy_round_one_advance [of 18]
    by (simp add: run_call_def CALL_DEPTH_def exec_numeral body_def [of _ _ _ "CStartRound r w" for r w]
        and_then_pair emit_eq)
  then have "tick_precommit toy_engine_env 2750 toy_locked = emit [ViewChange 1 0 1 Timeout] toy_round_one"
    by (simp add: tick_precommit_def due_def Let_def)
  then show ?thesis
    by (simp add: apply_event_def tick_def tick_ready_def tick_propose_def tick_prevote_def due_def and_then_pair emit_eq)
qed

lemma toy_nil_prevote:
  "\<exists>s out v. apply_event toy_engine_env (ETick 5750) toy_round_one = Some (s, out) \<and>
     Broadcast (MVote v) \<in> set out \<and> v_phase v = Prevote \<and> v_round v = 1 \<and> v_height v = 1"
proof -
  note f = toy_round_one_fields
  let ?V = toy_engine_env and ?i = "\<lparr>id_idx = 0 :: nat, id_keypair = toy_key 0\<rparr>"
  let ?t = "toy_round_one\<lparr>e_propose_deadline := None, e_propose_ready_at := None\<rparr>"
  let ?u = "(count_timeout ?t)\<lparr>e_step := SPrevote\<rparr>"
  let ?v = "my_vote ?V ?i Prevote NIL_HASH ?u"
  have timers: "e_propose_ready_at toy_round_one = None" "e_propose_deadline toy_round_one = Some 5750"
    "e_double_sign toy_round_one = None"
  proof -
    have np: "\<not> is_proposer (enter_round 1 2750 (fst (note_view_change 1 (Some Timeout) (count_timeout (toy_at 0 SPrecommit True True [0, 1, 3] [0] None None)))))"
      by (simp add: is_proposer_def proposer_for_def as_u16_def my_idx_def core_fields [OF core_note_view_change] count_timeout_def)
    show "e_propose_ready_at toy_round_one = None" "e_propose_deadline toy_round_one = Some 5750"
      "e_double_sign toy_round_one = None"
      using np unfolding toy_round_one_def started_def ask_proposal_def
      by (simp_all add: enter_round_def note_view_change_def Let_def count_timeout_def window_start_def
          t_propose_def genesis_defaults_def sat_add_def sat_mul_def toy_genesis_tip_def TIMEOUT_CAP_MULTIPLIER_def)
  qed
  obtain s out where ev: "apply_event ?V (ETick 5750) toy_round_one = Some (s, out)"
  proof -
    obtain o1 where "steady ?V (toy_sent 0) (toy_node 0) o1 toy_locked" using toy_locked_run by blast
    from steady_history [OF toy_correct toy_new this] have "engine_ok toy_locked" by simp
    from event_returns [OF this, of ?V "ETick 2750"] have "engine_ok toy_round_one"
      by (simp add: toy_view_change yields_def)
    from event_returns [OF this, of ?V "ETick 5750"] show ?thesis using that by (auto simp: yields_def)
  qed
  have u: "e_identity ?u = Some ?i" "e_round ?u = 1" "e_height ?u = 1" "e_double_sign ?u = None"
    "e_prevotes ?u = toy_book Prevote [0, 1, 3]"
    by (simp_all add: count_timeout_def f timers)
  obtain k where cast: "run_call ?V 5750 (CCastVote Prevote NIL_HASH) ?u =
      and_then (emit [Broadcast (MVote ?v)] (arm_timer Prevote 5750 ?u)) k"
    unfolding run_call_def CALL_DEPTH_def exec_numeral
    by (simp add: body_def cast_vote_body_def u book_of_def guard_sign_def Let_def)
  have tick: "tick_propose ?V 5750 toy_round_one = run_call ?V 5750 (CCastVote Prevote NIL_HASH) ?u"
    by (simp add: tick_propose_def due_def timers f Let_def)
  have "Broadcast (MVote ?v) \<in> set out"
    using ev f(3) by (auto simp: apply_event_def tick_def tick_ready_def due_def timers tick cast and_then_Some
        elim!: and_then_SomeE)
  with ev u show ?thesis
    by (intro exI [of _ s] exI [of _ out] exI [of _ ?v]) simp
qed

lemma toy_long_run:
  "\<exists>out s v w. steady toy_engine_env (toy_sent 0) (toy_node 0) out s \<and> ViewChange 1 0 1 Timeout \<in> set out \<and>
     Broadcast (MVote v) \<in> set out \<and> Broadcast (MVote w) \<in> set out \<and> v_phase v = Precommit \<and>
     v_phase w = Prevote \<and> v_height w = v_height v \<and> v_round v < v_round w \<and> v_block_hash v \<noteq> NIL_HASH"
proof -
  obtain o1 where run: "steady toy_engine_env (toy_sent 0) (toy_node 0) o1 toy_locked"
    and own: "own_votes o1 = {toy_ballot Prevote 0, toy_ballot Precommit 0}"
    using toy_locked_run by blast
  have run1: "steady toy_engine_env (toy_sent 0) (toy_node 0) (o1 @ [ViewChange 1 0 1 Timeout]) toy_round_one"
    by (rule steady.event [OF run _ _ toy_view_change]) (simp_all add: is_rotation_def heard_event_def)
  obtain s out w where ev: "apply_event toy_engine_env (ETick 5750) toy_round_one = Some (s, out)"
    and w: "Broadcast (MVote w) \<in> set out" "v_phase w = Prevote" "v_round w = 1" "v_height w = 1"
    using toy_nil_prevote by blast
  have "steady toy_engine_env (toy_sent 0) (toy_node 0) ((o1 @ [ViewChange 1 0 1 Timeout]) @ out) s"
    by (rule steady.event [OF run1 _ _ ev]) (simp_all add: is_rotation_def heard_event_def)
  moreover have "Broadcast (MVote (toy_ballot Precommit 0)) \<in> set o1"
    using own by (auto simp: own_votes_def)
  ultimately show ?thesis
    using w by (intro exI [of _ "(o1 @ [ViewChange 1 0 1 Timeout]) @ out"] exI [of _ s]
        exI [of _ "toy_ballot Precommit 0"] exI [of _ w]) simp
qed

theorem prevotes_respect_lock_witness:
  "\<exists>out s v w. steady toy_engine_env (toy_sent 0) (toy_node 0) out s \<and>
     Broadcast (MVote v) \<in> set out \<and> Broadcast (MVote w) \<in> set out \<and> v_round v < v_round w \<and>
     (v_block_hash w = NIL_HASH \<or> v_block_hash w = v_block_hash v \<or>
       (\<exists>vr. v_round v < vr \<and> vr < v_round w \<and>
         backed toy_env (e_domain s) (e_set s) (toy_sent 0 \<union> own_votes out) Prevote (v_height w) vr (v_block_hash w)))"
proof -
  obtain out s v w where run: "steady toy_engine_env (toy_sent 0) (toy_node 0) out s"
    and vw: "Broadcast (MVote v) \<in> set out" "Broadcast (MVote w) \<in> set out" "v_phase v = Precommit"
      "v_phase w = Prevote" "v_height w = v_height v" "v_round v < v_round w" "v_block_hash v \<noteq> NIL_HASH"
    using toy_long_run by blast
  from prevotes_respect_lock [OF toy_correct toy_new run vw] run vw show ?thesis
    unfolding toy_env_fields by blast
qed

theorem view_changes_go_forward_witness:
  "\<exists>out s. steady toy_engine_env (toy_sent 0) (toy_node 0) out s \<and> ViewChange 1 0 1 Timeout \<in> set out \<and>
     (0 :: nat) < 1"
proof -
  obtain out s where run: "steady toy_engine_env (toy_sent 0) (toy_node 0) out s"
    and vc: "ViewChange 1 0 1 Timeout \<in> set out"
    using toy_long_run by blast
  from view_changes_go_forward [OF toy_correct toy_new run vc] run vc show ?thesis by blast
qed

section \<open>Timers\<close>

text \<open>
  Round timers: both timeouts grow with the round (later rounds wait at least as long), are
  at least one millisecond and never exceed ten times the base, nor 64 bits.
\<close>

theorem timeouts_grow_and_are_capped:
  assumes "params_validate (e_params s) = Inr ()" and "r \<le> r'"
  shows "0 < t_propose s r \<and> t_propose s r \<le> t_propose s r' \<and>
    t_propose s r' \<le> min u64_max (10 * p_t_base_ms (e_params s)) \<and>
    0 < t_vote s r \<and> t_vote s r \<le> t_vote s r' \<and>
    t_vote s r' \<le> min u64_max (10 * p_t_base_ms (e_params s))"
proof -
  have base: "0 < p_t_base_ms (e_params s)"
    using assms(1) by (auto simp: params_validate_def split: if_splits)
  have mono: "sat_mul u64_max a (1 + r) \<le> sat_mul u64_max a (1 + r')" for a
    using assms(2) by (simp add: sat_mul_def min.coboundedI1 min.coboundedI2 mult_le_mono2)
  have pos: "0 < sat_mul u64_max a (1 + r)" "0 < sat_mul u64_max a 10" if "0 < a" for a
    using that by (simp_all add: sat_mul_def)
  have cap: "sat_mul u64_max (p_t_base_ms (e_params s)) 10 \<le> min u64_max (10 * p_t_base_ms (e_params s))"
    by (simp add: sat_mul_def mult.commute)
  show ?thesis
    using mono pos(1) [OF base] pos(2) [OF base] pos(1) [of "max (p_t_base_ms (e_params s) div 2) 1"] cap
    by (auto simp: t_propose_def t_vote_def Let_def TIMEOUT_CAP_MULTIPLIER_def intro: le_trans
        min.coboundedI1 min.coboundedI2)
qed

theorem timeouts_grow_and_are_capped_witness:
  "t_propose (toy_node 0) 2 \<le> t_propose (toy_node 0) 9 \<and> t_propose (toy_node 0) 9 \<le> 15000"
proof -
  have p: "e_params (toy_node 0) = genesis_defaults" "p_t_base_ms genesis_defaults = 1500"
    by (simp_all add: genesis_defaults_def)
  have v: "params_validate (e_params (toy_node 0)) = Inr ()"
    unfolding p by (rule genesis_defaults_valid_core)
  from timeouts_grow_and_are_capped [OF v, of 2 9] show ?thesis by (simp add: p)
qed

text \<open>
  The host's timer: \<open>next_deadline\<close> is the earliest of the armed timers (proposal time, three
  round timers, grace window), and absent exactly when none is armed, so a host that wakes at it
  misses none.
\<close>

theorem next_deadline_is_earliest:
  "case next_deadline s of
     None \<Rightarrow> e_propose_ready_at s = None \<and> e_propose_deadline s = None \<and> e_prevote_deadline s = None \<and>
       e_precommit_deadline s = None \<and> e_qc_grace_wait s = None
   | Some at \<Rightarrow>
       {at} \<subseteq> set_option (e_propose_ready_at s) \<union> set_option (e_propose_deadline s) \<union>
         set_option (e_prevote_deadline s) \<union> set_option (e_precommit_deadline s) \<union>
         set_option (map_option (\<lambda>(_, _, at). at) (e_qc_grace_wait s)) \<and>
       set_option (e_propose_ready_at s) \<union> set_option (e_propose_deadline s) \<union>
         set_option (e_prevote_deadline s) \<union> set_option (e_precommit_deadline s) \<union>
         set_option (map_option (\<lambda>(_, _, at). at) (e_qc_grace_wait s)) \<subseteq> {at..}"
proof -
  have list: "set (opt_list x) = set_option x" "opt_list x = [] \<longleftrightarrow> x = None" for x :: "nat option"
    by (cases x; simp add: opt_list_def)+
  let ?ds = "opt_list (e_propose_ready_at s) @ opt_list (e_propose_deadline s) @
               opt_list (e_prevote_deadline s) @ opt_list (e_precommit_deadline s) @
               opt_list (map_option (\<lambda>(_, _, at). at) (e_qc_grace_wait s))"
  show ?thesis
  proof (cases "?ds = []")
    case True
    then show ?thesis by (simp add: next_deadline_def list)
  next
    case False
    then have "Min (set ?ds) \<in> set ?ds" "\<forall>x \<in> set ?ds. Min (set ?ds) \<le> x"
      using Min_in [of "set ?ds"] Min_le [of "set ?ds"] by simp_all
    moreover have "next_deadline s = Some (Min (set ?ds))"
      using False by (simp add: next_deadline_def Let_def)
    ultimately show ?thesis
      by (auto simp: list)
  qed
qed

text \<open>
  the grace window never reaches the precommit timer: when a node waits for more precommits, the
  window ends at least two milliseconds before the precommit timer of the round (so waiting cannot
  cause a view change), and a node with grace switched off never waits.
\<close>

theorem grace_ends_before_precommit_timer:
  assumes "qc_grace_deadline s since = Some at"
  shows "0 < e_qc_grace_ms s \<and> at = min u64_max (since + e_qc_grace_ms s) \<and>
    (case e_precommit_deadline s of None \<Rightarrow> True | Some pd \<Rightarrow> min u64_max (at + 1) < pd)"
  using assms
  by (auto simp: qc_grace_deadline_def Let_def sat_add_def split: if_splits option.splits)

theorem grace_ends_before_precommit_timer_witness:
  "min u64_max (1030 + 1) < (1750 :: nat)"
proof -
  let ?s = "(toy_node 0)\<lparr>e_qc_grace_ms := 30, e_precommit_deadline := Some 1750\<rparr>"
  have "qc_grace_deadline ?s 1000 = Some 1030"
    by (simp add: qc_grace_deadline_def sat_add_def)
  from grace_ends_before_precommit_timer [OF this] show ?thesis by simp
qed

section \<open>Proposers\<close>

text \<open>
  C36: leadership is fair: in any n consecutive rounds of a height every validator of the set is the
  proposer of exactly one round, so a faulty leader is followed by a correct one within f + 1 rounds.
\<close>

theorem proposer_rotation_is_fair:
  assumes "vs_validate (e_set s) = Inr ()" and "i < vs_len (e_set s)"
  shows "\<exists>!k. k < vs_len (e_set s) \<and> proposer_for s h (r + k) = i"
proof -
  let ?n = "vs_len (e_set s)"
  have n: "?n \<le> 101" "0 < ?n"
    using vs_validate_quorum [OF assms(1)] by (auto simp: is_ok_iff vs_quorum_Inr)
  have "(h + (r + k)) mod ?n < 65536" for k
    using mod_less_divisor [OF n(2), of "h + (r + k)"] n(1) by linarith
  then have eq: "proposer_for s h (r + k) = ((h + r) + k) mod ?n" for k
    by (simp add: proposer_for_def as_u16_def add.assoc)
  let ?k = "(i + ?n - (h + r) mod ?n) mod ?n"
  have at: "((h + r) + ?k) mod ?n = i"
  proof -
    have "((h + r) + ?k) mod ?n = ((h + r) mod ?n + (i + ?n - (h + r) mod ?n)) mod ?n"
      by (simp add: mod_simps)
    also have "\<dots> = (i + ?n) mod ?n"
      using mod_less_divisor [OF n(2), of "h + r"] by simp
    finally show ?thesis using assms(2) by simp
  qed
  have le: "k' \<le> k" if "k' < ?n" "((h + r) + k) mod ?n = ((h + r) + k') mod ?n" for k k'
  proof (rule ccontr)
    assume "\<not> k' \<le> k"
    moreover from this have "?n dvd k' - k"
      using that(2) mod_eq_dvd_iff_nat [of "(h + r) + k" "(h + r) + k'" ?n] by simp
    ultimately show False using that(1) by (auto dest: dvd_imp_le)
  qed
  have "k = k'" if "k < ?n" "k' < ?n" "((h + r) + k) mod ?n = ((h + r) + k') mod ?n" for k k'
    by (rule le_antisym; rule le) (use that in simp_all)
  then show ?thesis
    unfolding eq using at mod_less_divisor [OF n(2)] by (intro ex1I [of _ ?k]) auto
qed

theorem proposer_rotation_is_fair_witness:
  "\<exists>!k. k < 4 \<and> proposer_for (toy_node 0) 7 (2 + k) = 3"
  using proposer_rotation_is_fair [of "toy_node 0" 3 7 2] toy_set_valid by simp

section \<open>Two gaps\<close>

text \<open>
  What a restart forgets: the lock is not persisted, only the watermark of the last signature. An
  engine built anew, whose double-sign file says that the node precommitted block \<open>b\<close> in round r of this
  height, starts unlocked, may prevote for any block at once, and the protector lets it sign a
  prevote for any other block in a later round, without a proof of lock.
\<close>

theorem restart_forgets_lock:
  assumes "engine_new (en_crypto V) d params vset identity tip tip_set = Inr s0"
    and "hex_ok (en_hex V)" and "watermark_ok (e_height s0, r, 2, b)"
    and "s = set_double_sign_protector (en_hex V) (Contents (ds_line (en_hex V) (e_height s0) r 2 b)) s0"
    and "r < r'" and "en_disk_ok V (e_height s0) r' 1"
  shows "e_locked s = None \<and> lock_allows s b' \<and> prevote_choice s True b' vr = b' \<and>
    fst (guard_sign V (e_height s0) r' 1 b' s)"
proof -
  have "e_locked s = None"
    using engine_new_fresh(4) [OF assms(1)] assms(4)
    by (auto simp: fresh_engine_def set_double_sign_protector_def)
  moreover have "ds_load (en_hex V) (Contents (ds_line (en_hex V) (e_height s0) r 2 b)) =
      \<lparr>ds_file = Contents (ds_line (en_hex V) (e_height s0) r 2 b),
       ds_highest = Some (e_height s0, r, 2, b), ds_poisoned = False\<rparr>"
    using ds_parse_line [OF assms(2,3)] by (simp add: ds_load_def)
  then have "fst (guard_sign V (e_height s0) r' 1 b' s)"
    using assms(4-6) by (simp add: guard_sign_def set_double_sign_protector_def ds_allow_def
        ds_write_and_raise_def ds_persist_def split_def)
  ultimately show ?thesis by (simp add: lock_allows_def prevote_choice_def)
qed

theorem restart_forgets_lock_witness:
  "fst (guard_sign toy_engine_env 1 1 1 bh_two
     (set_double_sign_protector toy_hex (Contents (ds_line toy_hex 1 0 2 bh_one)) (toy_node 0)))"
proof -
  have V: "en_hex toy_engine_env = toy_hex" "en_disk_ok toy_engine_env = (\<lambda>_ _ _. True)" "e_height (toy_node 0) = 1"
    by (simp_all add: toy_engine_env_def)
  have "watermark_ok (1, 0, 2, bh_one)" by (simp add: watermark_ok_def bh_one_def)
  from restart_forgets_lock [OF toy_new, unfolded V, OF toy_hex_ok this refl, of 1 bh_two]
  show ?thesis by simp
qed

text \<open>
  A body nobody checked can be committed: \<open>verified\<close> is keyed by the header's hash, and a
  proposal of a later round is stored unchecked. When the certified header was verified with one body
  and the first stored proposal with that header carries another, the engine commits that other body,
  although \<open>check_proposal\<close> rejects it.
\<close>

theorem unchecked_body_is_committed:
  assumes "e_pending_qc s = Some qc" and "map_of (e_verified s) (q_block_hash qc) = Some True"
    and "en_values V (e_proposals s) = forged # rest"
    and "pr_block_hash (en_crypto V) forged = q_block_hash qc"
  shows "\<exists>s' cb. commit_stage V now s = Some (s', [Commit cb]) \<and> cb_proposal cb = forged"
  using assms by (simp add: commit_stage_def body_for_def commit_def)

text \<open>
  The witness: the state before the last precommit, with the leader of round 1 (validator 2) having
  sent the header of round 0 again, under its own envelope, with another body.
\<close>

definition forged_tx :: transaction where
  "forged_tx = \<lparr>tx_id = bh_one, tx_kind = Transfer, tx_sender = [], tx_amount = 1, tx_receiver = [], tx_payload = [],
     tx_signature = [], tx_timestamp = 0, tx_nonce = 0, tx_gas_limit = 0, tx_gas_price = 0, tx_chain_id = CHAIN_ID\<rparr>"

definition forged_proposal :: proposal where
  "forged_proposal = toy_proposal\<lparr>pr_txs := [forged_tx], pr_round := 1,
     pr_sig := sign_digest toy_env (toy_key 2) (envelope_digest toy_env sample_domain 0 (toy_proposal\<lparr>pr_round := 1\<rparr>))\<rparr>"

lemma forged_is_stored:
  "on_proposal_body toy_engine_env rec forged_proposal 2000 toy_locked =
     emit [Dropped ''ileri round icin tamponlandi'']
       (toy_locked\<lparr>e_proposals := [(0, toy_proposal), (1, forged_proposal)]\<rparr>)"
proof -
  have p: "proposer_for toy_locked 1 1 = 2" by (simp add: proposer_for_def as_u16_def)
  have f: "pr_round forged_proposal = 1" by (simp add: forged_proposal_def)
  have e: "envelope_digest toy_env sample_domain 0 forged_proposal =
      envelope_digest toy_env sample_domain 0 (toy_proposal\<lparr>pr_round := 1\<rparr>)"
    by (simp add: envelope_digest_def forged_proposal_def pr_height_def pr_block_hash_def)
  have "ed_public toy_env (toy_key 2) = toy_key 2" by (simp add: toy_env_def)
  then have "verify_digest toy_env (toy_key 2) (envelope_digest toy_env sample_domain 0 forged_proposal)
      (pr_sig forged_proposal) = Inr ()"
    unfolding e using sign_then_verify [OF toy_env_correct, of "toy_key 2"] by (simp add: forged_proposal_def)
  then show ?thesis
    by (simp add: on_proposal_body_def p f on_future_proposal_def MAX_LOOKAHEAD_ROUNDS_def)
qed

text \<open>The same host, whose hash map yields its values in the other order.\<close>

definition toy_other_order :: engine_env where
  "toy_other_order = toy_engine_env\<lparr>en_values := (\<lambda>al. rev (map snd al))\<rparr>"

theorem unchecked_body_is_committed_witness:
  "\<exists>s qc cb s'. e_proposals s = [(0, toy_proposal), (1, forged_proposal)] \<and>
     commit_stage toy_other_order 2000 s = Some (s', [Commit cb]) \<and> cb_proposal cb = forged_proposal \<and>
     e_pending_qc s = Some qc \<and> check_proposal toy_other_order forged_proposal 2000 s \<noteq> Inr ()"
proof -
  let ?s = "toy_locked\<lparr>e_pending_qc := Some (toy_qc toy_bh 7), e_proposals := [(0, toy_proposal), (1, forged_proposal)]\<rparr>"
  have h: "pr_block_hash toy_env forged_proposal = toy_bh"
    by (simp add: forged_proposal_def pr_block_hash_def toy_bh_def sign_header_def)
  have V: "en_crypto toy_other_order = toy_env" "en_values toy_other_order = (\<lambda>al. rev (map snd al))"
    "en_body_bytes toy_other_order = (\<lambda>txs. 8 + length txs)"
    by (simp_all add: toy_other_order_def)
  have "\<exists>s' cb. commit_stage toy_other_order 2000 ?s = Some (s', [Commit cb]) \<and> cb_proposal cb = forged_proposal"
    by (rule unchecked_body_is_committed [where qc = "toy_qc toy_bh 7" and rest = "[toy_proposal]"])
      (simp_all add: toy_qc_def h V)
  moreover have "check_body toy_other_order forged_proposal ?s \<noteq> Inr ()"
    by (simp add: check_body_def Let_def forged_proposal_def sign_header_def toy_header_def)
  then have "check_proposal toy_other_order forged_proposal 2000 ?s \<noteq> Inr ()"
    by (auto simp: check_proposal_def Let_def try_then_Inr split: if_splits)
  ultimately show ?thesis
    by (intro exI [of _ ?s] exI [of _ "toy_qc toy_bh 7"]) auto
qed

end
