(* ===== verification/Accounts.thy ===== *)
theory Accounts
  imports ConsensusTypes Types
begin

text \<open>
  The account of \<open>crates/zagros-types/src/lib.rs\<close>: \<open>AccountState\<close> with its operations, the five
  older shapes an account may have on disk and the migration that reads them. The decoder of each
  shape (bincode) is third-party code: the record \<open>account_decoders\<close>.

  The \<open>BTreeMap\<close> of contract storage is a map; amounts are \<open>nat\<close>, with the checked operations of
  \<open>u128\<close> and \<open>u64\<close> written out.
\<close>

section \<open>Accounts\<close>

type_synonym u256 = "256 word"

record account =
  ac_balance :: nat
  ac_zerenya_balance :: nat
  ac_staked_balance :: nat
  ac_reward_debt :: nat
  ac_is_contract :: bool
  ac_contract_code :: bytes
  ac_storage :: "u256 \<rightharpoonup> u256"
  ac_nonce :: nat
  ac_storage_root :: hash
  ac_pending_unstake_amount :: nat
  ac_unlock_time :: nat
  ac_is_registered_validator :: bool
  ac_jailed_until :: nat
  ac_pending_stake_amount :: nat
  ac_pending_stake_activation_time :: nat
  ac_validator_registered_at :: nat
  ac_validator_status :: "validator_status option"
  ac_consensus_pubkey :: pubkey
  ac_validator_declaration :: validator_declaration
  ac_validator_stake_snapshot :: nat
  ac_validator_status_epoch :: nat
  ac_liveness :: liveness_counters
  ac_bond_unlock_at :: nat

text \<open>\<open>AccountState::default()\<close>.\<close>

definition default_account :: account where
  "default_account = \<lparr>ac_balance = 0, ac_zerenya_balance = 0, ac_staked_balance = 0,
     ac_reward_debt = 0, ac_is_contract = False, ac_contract_code = [], ac_storage = Map.empty,
     ac_nonce = 0, ac_storage_root = replicate 32 0, ac_pending_unstake_amount = 0,
     ac_unlock_time = 0, ac_is_registered_validator = False, ac_jailed_until = 0,
     ac_pending_stake_amount = 0, ac_pending_stake_activation_time = 0,
     ac_validator_registered_at = 0, ac_validator_status = None,
     ac_consensus_pubkey = replicate 32 0,
     ac_validator_declaration = \<lparr>vd_provider = [], vd_region = [], vd_asn = 0,
       vd_operator_id = replicate 32 0\<rparr>,
     ac_validator_stake_snapshot = 0, ac_validator_status_epoch = 0,
     ac_liveness = \<lparr>lc_epoch = 0, lc_participated = 0, lc_total = 0, lc_strikes = 0\<rparr>,
     ac_bond_unlock_at = 0\<rparr>"

definition account_new :: "nat \<Rightarrow> account" where
  "account_new balance =
     default_account\<lparr>ac_balance := balance, ac_pending_unstake_amount := 0, ac_unlock_time := 0\<rparr>"

definition new_contract :: "bytes \<Rightarrow> account" where
  "new_contract code = default_account\<lparr>ac_is_contract := True, ac_contract_code := code\<rparr>"

definition reward_acc_storage_slot :: u256 where
  "reward_acc_storage_slot = 0"

text \<open>\<open>u128::try_from\<close> of a stored word that does not fit gives 0.\<close>

definition get_reward_per_share :: "account \<Rightarrow> nat" where
  "get_reward_per_share a =
     (case ac_storage a reward_acc_storage_slot of
        None \<Rightarrow> 0
      | Some v \<Rightarrow> if unat v \<le> u128_max then unat v else 0)"

definition set_reward_per_share :: "nat \<Rightarrow> account \<Rightarrow> account" where
  "set_reward_per_share amount a =
     a\<lparr>ac_storage := (ac_storage a)(reward_acc_storage_slot \<mapsto> of_nat amount)\<rparr>"

definition total_balance :: "account \<Rightarrow> nat" where
  "total_balance a = sat_add u128_max (ac_balance a) (ac_staked_balance a)"

definition ac_increment_nonce :: "account \<Rightarrow> account" where
  "ac_increment_nonce a = a\<lparr>ac_nonce := sat_add u64_max (ac_nonce a) 1\<rparr>"

definition ac_add_balance :: "nat \<Rightarrow> account \<Rightarrow> account result" where
  "ac_add_balance amount a =
     (case checked_add u128_max (ac_balance a) amount of
        None \<Rightarrow> Inl (Other ''Balance overflow'')
      | Some b \<Rightarrow> Inr (a\<lparr>ac_balance := b\<rparr>))"

definition ac_sub_balance :: "nat \<Rightarrow> account \<Rightarrow> account result" where
  "ac_sub_balance amount a =
     (case checked_sub (ac_balance a) amount of
        None \<Rightarrow> Inl InsufficientBalance
      | Some b \<Rightarrow> Inr (a\<lparr>ac_balance := b\<rparr>))"

definition ac_add_zerenya_balance :: "nat \<Rightarrow> account \<Rightarrow> account result" where
  "ac_add_zerenya_balance amount a =
     (case checked_add u128_max (ac_zerenya_balance a) amount of
        None \<Rightarrow> Inl (Other ''ZERENYA balance overflow'')
      | Some b \<Rightarrow> Inr (a\<lparr>ac_zerenya_balance := b\<rparr>))"

definition ac_sub_zerenya_balance :: "nat \<Rightarrow> account \<Rightarrow> account result" where
  "ac_sub_zerenya_balance amount a =
     (case checked_sub (ac_zerenya_balance a) amount of
        None \<Rightarrow> Inl InsufficientBalance
      | Some b \<Rightarrow> Inr (a\<lparr>ac_zerenya_balance := b\<rparr>))"

section \<open>The older shapes\<close>

text \<open>Each shape adds fields at the end of the one before it, so the records extend each other.\<close>

record account_v0 =
  v_balance :: nat
  v_zerenya_balance :: nat
  v_staked_balance :: nat
  v_reward_debt :: nat
  v_delegated_to :: address
  v_is_contract :: bool
  v_contract_code :: bytes
  v_storage :: "u256 \<rightharpoonup> u256"
  v_account_nonce :: nat
  v_storage_root :: hash

record account_v1 = account_v0 +
  v_pending_unstake_amount :: nat
  v_unlock_time :: nat

record account_v2 = account_v1 +
  v_is_registered_validator :: bool
  v_jailed_until :: nat
  v_validator_commission_bps :: nat
  v_pending_stake_amount :: nat
  v_pending_stake_activation_time :: nat

record account_v3 = account_v2 +
  v_validator_registered_at :: nat

record account_v4 = account_v3 +
  v_validator_status :: "validator_status option"
  v_consensus_pubkey :: pubkey
  v_validator_declaration :: validator_declaration
  v_validator_stake_snapshot :: nat
  v_validator_status_epoch :: nat
  v_liveness :: liveness_counters
  v_bond_unlock_at :: nat

definition from_v0 :: "account_v0 \<Rightarrow> account" where
  "from_v0 old = default_account\<lparr>
     ac_balance := v_balance old, ac_zerenya_balance := v_zerenya_balance old,
     ac_staked_balance := v_staked_balance old, ac_reward_debt := v_reward_debt old,
     ac_is_contract := v_is_contract old, ac_contract_code := v_contract_code old,
     ac_storage := v_storage old, ac_nonce := v_account_nonce old,
     ac_storage_root := v_storage_root old,
     ac_pending_unstake_amount := 0, ac_unlock_time := 0, ac_is_registered_validator := False,
     ac_jailed_until := 0, ac_pending_stake_amount := 0, ac_pending_stake_activation_time := 0,
     ac_validator_registered_at := 0\<rparr>"

definition from_v1 :: "account_v1 \<Rightarrow> account" where
  "from_v1 old = default_account\<lparr>
     ac_balance := v_balance old, ac_zerenya_balance := v_zerenya_balance old,
     ac_staked_balance := v_staked_balance old, ac_reward_debt := v_reward_debt old,
     ac_is_contract := v_is_contract old, ac_contract_code := v_contract_code old,
     ac_storage := v_storage old, ac_nonce := v_account_nonce old,
     ac_storage_root := v_storage_root old,
     ac_pending_unstake_amount := v_pending_unstake_amount old,
     ac_unlock_time := v_unlock_time old, ac_is_registered_validator := False,
     ac_jailed_until := 0, ac_pending_stake_amount := 0, ac_pending_stake_activation_time := 0,
     ac_validator_registered_at := 0\<rparr>"

definition from_v2 :: "account_v2 \<Rightarrow> account" where
  "from_v2 old = default_account\<lparr>
     ac_balance := v_balance old, ac_zerenya_balance := v_zerenya_balance old,
     ac_staked_balance := v_staked_balance old, ac_reward_debt := v_reward_debt old,
     ac_is_contract := v_is_contract old, ac_contract_code := v_contract_code old,
     ac_storage := v_storage old, ac_nonce := v_account_nonce old,
     ac_storage_root := v_storage_root old,
     ac_pending_unstake_amount := v_pending_unstake_amount old,
     ac_unlock_time := v_unlock_time old,
     ac_is_registered_validator := v_is_registered_validator old,
     ac_jailed_until := v_jailed_until old,
     ac_pending_stake_amount := v_pending_stake_amount old,
     ac_pending_stake_activation_time := v_pending_stake_activation_time old,
     ac_validator_registered_at := 0\<rparr>"

definition from_v3 :: "account_v3 \<Rightarrow> account" where
  "from_v3 old = default_account\<lparr>
     ac_balance := v_balance old, ac_zerenya_balance := v_zerenya_balance old,
     ac_staked_balance := v_staked_balance old, ac_reward_debt := v_reward_debt old,
     ac_is_contract := v_is_contract old, ac_contract_code := v_contract_code old,
     ac_storage := v_storage old, ac_nonce := v_account_nonce old,
     ac_storage_root := v_storage_root old,
     ac_pending_unstake_amount := v_pending_unstake_amount old,
     ac_unlock_time := v_unlock_time old,
     ac_validator_status := (if v_is_registered_validator old then Some Candidate else None),
     ac_is_registered_validator := v_is_registered_validator old,
     ac_jailed_until := v_jailed_until old,
     ac_pending_stake_amount := v_pending_stake_amount old,
     ac_pending_stake_activation_time := v_pending_stake_activation_time old,
     ac_validator_registered_at := v_validator_registered_at old\<rparr>"

definition from_v4 :: "account_v4 \<Rightarrow> account" where
  "from_v4 old = \<lparr>
     ac_balance = v_balance old, ac_zerenya_balance = v_zerenya_balance old,
     ac_staked_balance = v_staked_balance old, ac_reward_debt = v_reward_debt old,
     ac_is_contract = v_is_contract old, ac_contract_code = v_contract_code old,
     ac_storage = v_storage old, ac_nonce = v_account_nonce old,
     ac_storage_root = v_storage_root old,
     ac_pending_unstake_amount = v_pending_unstake_amount old,
     ac_unlock_time = v_unlock_time old,
     ac_is_registered_validator = v_is_registered_validator old,
     ac_jailed_until = v_jailed_until old,
     ac_pending_stake_amount = v_pending_stake_amount old,
     ac_pending_stake_activation_time = v_pending_stake_activation_time old,
     ac_validator_registered_at = v_validator_registered_at old,
     ac_validator_status = v_validator_status old,
     ac_consensus_pubkey = v_consensus_pubkey old,
     ac_validator_declaration = v_validator_declaration old,
     ac_validator_stake_snapshot = v_validator_stake_snapshot old,
     ac_validator_status_epoch = v_validator_status_epoch old,
     ac_liveness = v_liveness old,
     ac_bond_unlock_at = v_bond_unlock_at old\<rparr>"

text \<open>\<open>bincode::deserialize\<close> at each of the six types.\<close>

record account_decoders =
  dec_current :: "bytes \<Rightarrow> account option"
  dec_v4 :: "bytes \<Rightarrow> account_v4 option"
  dec_v3 :: "bytes \<Rightarrow> account_v3 option"
  dec_v2 :: "bytes \<Rightarrow> account_v2 option"
  dec_v1 :: "bytes \<Rightarrow> account_v1 option"
  dec_v0 :: "bytes \<Rightarrow> account_v0 option"

definition deserialize_with_migration :: "account_decoders \<Rightarrow> bytes \<Rightarrow> account option" where
  "deserialize_with_migration D bytes =
     (case dec_current D bytes of Some account \<Rightarrow> Some account
      | None \<Rightarrow> (case dec_v4 D bytes of Some account \<Rightarrow> Some (from_v4 account)
      | None \<Rightarrow> (case dec_v3 D bytes of Some account \<Rightarrow> Some (from_v3 account)
      | None \<Rightarrow> (case dec_v2 D bytes of Some account \<Rightarrow> Some (from_v2 account)
      | None \<Rightarrow> (case dec_v1 D bytes of Some account \<Rightarrow> Some (from_v1 account)
      | None \<Rightarrow> map_option from_v0 (dec_v0 D bytes))))))"

section \<open>Facts about amounts\<close>

lemma get_set_reward_per_share:
  assumes "amount \<le> u128_max"
  shows "get_reward_per_share (set_reward_per_share amount a) = amount"
proof -
  have "unat (of_nat amount :: u256) = amount"
    using assms by (simp add: unat_of_nat take_bit_eq_mod)
  with assms show ?thesis by (simp add: get_reward_per_share_def set_reward_per_share_def)
qed

lemma ac_add_balance_Inr:
  "ac_add_balance amount a = Inr b \<longleftrightarrow>
     ac_balance a + amount \<le> u128_max \<and> b = a\<lparr>ac_balance := ac_balance a + amount\<rparr>"
  by (auto simp: ac_add_balance_def checked_add_def)

lemma ac_sub_balance_Inr:
  "ac_sub_balance amount a = Inr b \<longleftrightarrow>
     amount \<le> ac_balance a \<and> b = a\<lparr>ac_balance := ac_balance a - amount\<rparr>"
  by (auto simp: ac_sub_balance_def checked_sub_def)

section \<open>What migration keeps\<close>

text \<open>
  What an older row and the account read from it have in common: funds and code in every shape, the
  withdrawal vault from V1 on, the validator's standing from V2 on, the lifecycle from V4 on.
\<close>

definition same_funds :: "account \<Rightarrow> 'a account_v0_scheme \<Rightarrow> bool" where
  "same_funds a old \<longleftrightarrow>
     ac_balance a = v_balance old \<and> ac_zerenya_balance a = v_zerenya_balance old \<and>
     ac_staked_balance a = v_staked_balance old \<and> ac_reward_debt a = v_reward_debt old \<and>
     ac_is_contract a = v_is_contract old \<and> ac_contract_code a = v_contract_code old \<and>
     ac_storage a = v_storage old \<and> ac_nonce a = v_account_nonce old \<and>
     ac_storage_root a = v_storage_root old"

definition same_vault :: "account \<Rightarrow> 'a account_v1_scheme \<Rightarrow> bool" where
  "same_vault a old \<longleftrightarrow>
     ac_pending_unstake_amount a = v_pending_unstake_amount old \<and> ac_unlock_time a = v_unlock_time old"

definition same_standing :: "account \<Rightarrow> 'a account_v2_scheme \<Rightarrow> bool" where
  "same_standing a old \<longleftrightarrow>
     ac_is_registered_validator a = v_is_registered_validator old \<and>
     ac_jailed_until a = v_jailed_until old \<and>
     ac_pending_stake_amount a = v_pending_stake_amount old \<and>
     ac_pending_stake_activation_time a = v_pending_stake_activation_time old"

definition no_role :: "account \<Rightarrow> bool" where
  "no_role a \<longleftrightarrow> \<not> ac_is_registered_validator a \<and> ac_validator_status a = None \<and>
     ac_pending_stake_amount a = 0 \<and> ac_bond_unlock_at a = 0"

text \<open>
  C38: migration loses no funds and forges no rights. The newest shape that decodes is taken; the
  account has the row's balances, stake, debt, code, storage and nonce, its withdrawal vault and its
  validator standing where the shape has them; one from before the validator fields gets no role;
  and a row that no shape reads is an error, never an empty account.
\<close>

theorem migration_keeps_funds:
  assumes "dec_current D bytes = None"
  shows "case deserialize_with_migration D bytes of
      None \<Rightarrow> dec_v4 D bytes = None \<and> dec_v3 D bytes = None \<and> dec_v2 D bytes = None \<and>
        dec_v1 D bytes = None \<and> dec_v0 D bytes = None
    | Some a \<Rightarrow>
        (case dec_v4 D bytes of Some v \<Rightarrow> same_funds a v \<and> same_vault a v \<and> same_standing a v \<and>
            ac_validator_status a = v_validator_status v \<and> ac_bond_unlock_at a = v_bond_unlock_at v
         | None \<Rightarrow>
        (case dec_v3 D bytes of Some v \<Rightarrow> same_funds a v \<and> same_vault a v \<and> same_standing a v
         | None \<Rightarrow>
        (case dec_v2 D bytes of Some v \<Rightarrow> same_funds a v \<and> same_vault a v \<and> same_standing a v
         | None \<Rightarrow>
        (case dec_v1 D bytes of Some v \<Rightarrow> same_funds a v \<and> same_vault a v \<and> no_role a
         | None \<Rightarrow>
        (case dec_v0 D bytes of Some v \<Rightarrow> same_funds a v \<and> ac_pending_unstake_amount a = 0 \<and> no_role a
         | None \<Rightarrow> False)))))"
  using assms
  by (simp add: deserialize_with_migration_def from_v0_def from_v1_def from_v2_def from_v3_def
      from_v4_def same_funds_def same_vault_def same_standing_def no_role_def default_account_def
      split: option.split)

text \<open>A V1 row, for the witness: its reader is a function of the first byte.\<close>

definition sample_v1 :: account_v1 where
  "sample_v1 = \<lparr>v_balance = 42, v_zerenya_balance = 7, v_staked_balance = 1, v_reward_debt = 5,
     v_delegated_to = ''0x1111111111111111111111111111111111111111'', v_is_contract = False,
     v_contract_code = [], v_storage = Map.empty, v_account_nonce = 3, v_storage_root = replicate 32 9,
     v_pending_unstake_amount = 500, v_unlock_time = 999\<rparr>"

definition sample_decoders :: account_decoders where
  "sample_decoders = \<lparr>dec_current = (\<lambda>b. None), dec_v4 = (\<lambda>b. None), dec_v3 = (\<lambda>b. None),
     dec_v2 = (\<lambda>b. None), dec_v1 = (\<lambda>b. if b = [1] then Some sample_v1 else None), dec_v0 = (\<lambda>b. None)\<rparr>"

theorem migration_keeps_funds_witness:
  "\<exists>a. deserialize_with_migration sample_decoders [1] = Some a \<and> same_funds a sample_v1 \<and>
     same_vault a sample_v1 \<and> no_role a"
  using migration_keeps_funds [of sample_decoders "[1]"]
  by (auto simp: sample_decoders_def deserialize_with_migration_def split: option.splits)

text \<open>
  A registered validator read from a V2 row has no lifecycle status, although the flag and the
  status are to agree and the V3 migration of the same validator makes it a candidate.
\<close>

theorem v2_migration_forgets_status:
  assumes "v_is_registered_validator old"
  shows "ac_is_registered_validator (from_v2 old) \<and> ac_validator_status (from_v2 old) = None \<and>
    ac_validator_status (from_v3 (account_v2.extend old \<lparr>v_validator_registered_at = 0\<rparr>)) = Some Candidate"
  using assms by (simp add: from_v2_def from_v3_def default_account_def account_v2.defs account_v3.defs)

definition sample_v2 :: account_v2 where
  "sample_v2 = account_v1.extend sample_v1 \<lparr>v_is_registered_validator = True, v_jailed_until = 0,
     v_validator_commission_bps = 250, v_pending_stake_amount = 10,
     v_pending_stake_activation_time = 1000000\<rparr>"

theorem v2_migration_forgets_status_witness:
  "ac_is_registered_validator (from_v2 sample_v2) \<and> ac_validator_status (from_v2 sample_v2) = None"
  using v2_migration_forgets_status [of sample_v2] by (simp add: sample_v2_def account_v1.defs)

end
