(* ===== verification/StateApi.thy ===== *)
theory StateApi
  imports Accounts
begin

text \<open>
  The account interface of \<open>crates/zagros-state/src/lib.rs\<close>: the keys, the canonical address, the
  trait's default methods and the balance methods that both implementations
  (\<open>overlay.rs\<close>, \<open>manager.rs\<close>) write out in the same words over their own \<open>get_account\<close> and
  \<open>set_account\<close>, which are arguments here.

  The locale \<open>account_store\<close> is the contract of the two: reading at an address gives what the view
  maps its canonical form to, writing updates the view there and nowhere else.
\<close>

section \<open>Keys and canonical addresses\<close>

text \<open>
  \<open>str::trim\<close> and \<open>to_lowercase\<close> on ASCII text (addresses are ASCII; the Unicode white space and
  case mappings beyond it are outside the model).
\<close>

definition is_space :: "char \<Rightarrow> bool" where
  "is_space c = (let n = of_char c :: nat in n = 32 \<or> (9 \<le> n \<and> n \<le> 13))"

definition trim :: "string \<Rightarrow> string" where
  "trim s = rev (dropWhile is_space (rev (dropWhile is_space s)))"

definition starts_with :: "string \<Rightarrow> string \<Rightarrow> bool" where
  "starts_with s pre = (take (length pre) s = pre)"

definition canonicalize :: "address \<Rightarrow> address" where
  "canonicalize address =
     (let addr = trim address
      in if (starts_with addr ''0x'' \<or> starts_with addr ''0X'') \<and> length addr = 42
         then ''0x'' @ to_ascii_lowercase (drop 2 addr)
         else address)"

definition is_ascii_uppercase :: "char \<Rightarrow> bool" where
  "is_ascii_uppercase c = (let n = of_char c :: nat in 65 \<le> n \<and> n \<le> 90)"

definition canonicalize_address :: "address \<Rightarrow> address" where
  "canonicalize_address address =
     (let addr = trim address
      in if (starts_with addr ''0x'' \<or> starts_with addr ''0X'') \<and> length addr = 42
         then (if length addr = length address \<and> addr ! 1 = CHR ''x'' \<and>
                  list_all (\<lambda>b. \<not> is_ascii_uppercase b) (drop 2 addr)
               then address
               else ''0x'' @ to_ascii_lowercase (drop 2 addr))
         else address)"

definition receipt_key :: "(bytes \<Rightarrow> string) \<Rightarrow> hash \<Rightarrow> address" where
  "receipt_key hex_encode txid = ''Receipt_'' @ hex_encode txid"

definition tx_body_key :: "(bytes \<Rightarrow> string) \<Rightarrow> hash \<Rightarrow> address" where
  "tx_body_key hex_encode txid = ''tx_body_'' @ hex_encode txid"

text \<open>\<open>format!\<close> of an unsigned number: its decimal digits.\<close>

fun decimal :: "nat \<Rightarrow> string" where
  "decimal n = (if n < 10 then [char_of (48 + n)] else decimal (n div 10) @ [char_of (48 + n mod 10)])"

declare decimal.simps [simp del]

definition block_key :: "nat \<Rightarrow> address" where
  "block_key number = ''block_'' @ decimal number"

definition consensus_block_key :: "nat \<Rightarrow> address" where
  "consensus_block_key number = ''consensus_block_'' @ decimal number"

definition block_hash_key :: "(bytes \<Rightarrow> string) \<Rightarrow> hash \<Rightarrow> address" where
  "block_hash_key hex_encode h = ''block_hash_'' @ hex_encode h"

section \<open>State actions\<close>

text \<open>
  A method reads and changes a state and returns a result; on an error the changes made before it
  stay.
\<close>

type_synonym ('s, 'a) action = "'s \<Rightarrow> 'a result \<times> 's"

definition give :: "'a \<Rightarrow> ('s, 'a) action" where
  "give x s = (Inr x, s)"

definition stop :: "zerror \<Rightarrow> ('s, 'a) action" where
  "stop e s = (Inl e, s)"

definition andthen :: "('s, 'a) action \<Rightarrow> ('a \<Rightarrow> ('s, 'b) action) \<Rightarrow> ('s, 'b) action" where
  "andthen m k s = (case m s of (Inl e, s') \<Rightarrow> (Inl e, s') | (Inr x, s') \<Rightarrow> k x s')"

text \<open>A pure result inside an action: \<open>?\<close> on a value.\<close>

definition lift :: "'a result \<Rightarrow> ('s, 'a) action" where
  "lift r s = (r, s)"

definition map_err :: "(zerror \<Rightarrow> zerror) \<Rightarrow> 'a result \<Rightarrow> 'a result" where
  "map_err f r = (case r of Inl e \<Rightarrow> Inl (f e) | Inr x \<Rightarrow> Inr x)"

definition unwrap_or_default :: "account option \<Rightarrow> account" where
  "unwrap_or_default a = (case a of None \<Rightarrow> default_account | Some x \<Rightarrow> x)"

definition ok_or_not_found :: "account option \<Rightarrow> account result" where
  "ok_or_not_found a = (case a of None \<Rightarrow> Inl AccountNotFound | Some x \<Rightarrow> Inr x)"

section \<open>The methods over reading and writing\<close>

type_synonym 's getter = "address \<Rightarrow> ('s, account option) action"
type_synonym 's setter = "address \<Rightarrow> account \<Rightarrow> ('s, unit) action"

definition state_get_balance :: "'s getter \<Rightarrow> address \<Rightarrow> ('s, nat) action" where
  "state_get_balance fetch address =
     andthen (fetch address) (\<lambda>a. give (ac_balance (unwrap_or_default a)))"

definition account_state_error :: "zerror \<Rightarrow> zerror" where
  "account_state_error e = DatabaseError ''AccountState error''"

definition state_add_balance :: "'s getter \<Rightarrow> 's setter \<Rightarrow> address \<Rightarrow> nat \<Rightarrow> ('s, unit) action" where
  "state_add_balance fetch put address amount =
     andthen (fetch address) (\<lambda>a.
     andthen (lift (map_err account_state_error (ac_add_balance amount (unwrap_or_default a)))) (\<lambda>account.
     put address account))"

definition state_sub_balance :: "'s getter \<Rightarrow> 's setter \<Rightarrow> address \<Rightarrow> nat \<Rightarrow> ('s, unit) action" where
  "state_sub_balance fetch put address amount =
     andthen (fetch address) (\<lambda>a.
     andthen (lift (ok_or_not_found a)) (\<lambda>account.
     andthen (lift (map_err account_state_error (ac_sub_balance amount account))) (\<lambda>account.
     put address account)))"

definition state_add_zerenya_balance :: "'s getter \<Rightarrow> 's setter \<Rightarrow> address \<Rightarrow> nat \<Rightarrow> ('s, unit) action" where
  "state_add_zerenya_balance fetch put address amount =
     andthen (fetch address) (\<lambda>a.
       let account = unwrap_or_default a
       in case checked_add u128_max (ac_zerenya_balance account) amount of
            None \<Rightarrow> stop (Other ''ZERENYA overflow'')
          | Some b \<Rightarrow> put address (account\<lparr>ac_zerenya_balance := b\<rparr>))"

definition state_sub_zerenya_balance :: "'s getter \<Rightarrow> 's setter \<Rightarrow> address \<Rightarrow> nat \<Rightarrow> ('s, unit) action" where
  "state_sub_zerenya_balance fetch put address amount =
     andthen (fetch address) (\<lambda>a.
     andthen (lift (ok_or_not_found a)) (\<lambda>account.
       if ac_zerenya_balance account < amount then stop InsufficientBalance
       else put address (account\<lparr>ac_zerenya_balance := ac_zerenya_balance account - amount\<rparr>)))"

definition state_get_nonce :: "'s getter \<Rightarrow> address \<Rightarrow> ('s, nat) action" where
  "state_get_nonce fetch address =
     andthen (fetch address) (\<lambda>a. give (ac_nonce (unwrap_or_default a)))"

definition state_increment_nonce :: "'s getter \<Rightarrow> 's setter \<Rightarrow> address \<Rightarrow> ('s, unit) action" where
  "state_increment_nonce fetch put address =
     andthen (fetch address) (\<lambda>a.
     andthen (lift (ok_or_not_found a)) (\<lambda>account.
       case checked_add u64_max (ac_nonce account) 1 of
         None \<Rightarrow> stop (Other ''Nonce overflow'')
       | Some n \<Rightarrow> put address (account\<lparr>ac_nonce := n\<rparr>)))"

definition state_get_zerenya_balance :: "'s getter \<Rightarrow> address \<Rightarrow> ('s, nat) action" where
  "state_get_zerenya_balance fetch address =
     andthen (fetch address) (\<lambda>a. give (case a of None \<Rightarrow> 0 | Some x \<Rightarrow> ac_zerenya_balance x))"

definition get_accumulated_reward_per_share :: "'s getter \<Rightarrow> ('s, nat) action" where
  "get_accumulated_reward_per_share fetch =
     andthen (fetch LIQUIDITY_POOL_ADDRESS) (\<lambda>a. give (get_reward_per_share (unwrap_or_default a)))"

definition set_accumulated_reward_per_share :: "'s getter \<Rightarrow> 's setter \<Rightarrow> nat \<Rightarrow> ('s, unit) action" where
  "set_accumulated_reward_per_share fetch put amount =
     andthen (fetch LIQUIDITY_POOL_ADDRESS) (\<lambda>a.
     put LIQUIDITY_POOL_ADDRESS (set_reward_per_share amount (unwrap_or_default a)))"

definition get_pool_reserves :: "'s getter \<Rightarrow> ('s, nat \<times> nat) action" where
  "get_pool_reserves fetch =
     andthen (fetch LIQUIDITY_POOL_ADDRESS) (\<lambda>a.
       let pool = unwrap_or_default a in give (ac_balance pool, ac_zerenya_balance pool))"

definition set_pool_reserves :: "'s getter \<Rightarrow> 's setter \<Rightarrow> nat \<Rightarrow> nat \<Rightarrow> ('s, unit) action" where
  "set_pool_reserves fetch put zagros_reserve zerenya_reserve =
     andthen (fetch LIQUIDITY_POOL_ADDRESS) (\<lambda>a.
     put LIQUIDITY_POOL_ADDRESS
       ((unwrap_or_default a)\<lparr>ac_balance := zagros_reserve, ac_zerenya_balance := zerenya_reserve\<rparr>))"

section \<open>The canonical address\<close>

lemma trim_prefix:
  "s \<noteq> [] \<Longrightarrow> \<not> is_space (hd s) \<Longrightarrow> \<not> is_space (last s) \<Longrightarrow> trim s = s"
  by (simp add: trim_def dropWhile_eq_self_iff [THEN iffD2] hd_rev)

lemma trim_last:
  assumes "trim s \<noteq> []"
  shows "\<not> is_space (last (trim s))"
proof -
  let ?r = "dropWhile is_space (rev (dropWhile is_space s))"
  from assms have "?r \<noteq> []" by (simp add: trim_def)
  then have "\<not> is_space (hd ?r)" by (rule hd_dropWhile)
  with \<open>?r \<noteq> []\<close> show ?thesis by (simp add: trim_def last_rev)
qed

lemma is_space_lower [simp]: "is_space (ascii_lower c) = is_space c"
  by (auto simp: is_space_def ascii_lower_def Let_def)

lemma canonicalize_canonical:
  assumes "length addr = 42" "starts_with addr ''0x'' \<or> starts_with addr ''0X''" "\<not> is_space (last addr)"
  shows "canonicalize (''0x'' @ to_ascii_lowercase (drop 2 addr)) = ''0x'' @ to_ascii_lowercase (drop 2 addr)"
proof -
  let ?c = "''0x'' @ to_ascii_lowercase (drop 2 addr)"
  have ne: "drop 2 addr \<noteq> []" using assms(1) by auto
  then have "last ?c = ascii_lower (last addr)"
    by (simp add: to_ascii_lowercase_def last_map last_drop assms(1))
  with assms(3) have "\<not> is_space (last ?c)" by (metis is_space_lower)
  moreover have "\<not> is_space (hd ?c)" by (simp add: is_space_def)
  ultimately have "trim ?c = ?c" using trim_prefix [of ?c] by blast
  then show ?thesis using assms(1) by (simp add: canonicalize_def Let_def starts_with_def)
qed

lemma canonicalize_idem [simp]: "canonicalize (canonicalize a) = canonicalize a"
proof (cases "(starts_with (trim a) ''0x'' \<or> starts_with (trim a) ''0X'') \<and> length (trim a) = 42")
  case True
  then have "\<not> is_space (last (trim a))" by (intro trim_last) auto
  with True canonicalize_canonical [of "trim a"] show ?thesis
    by (simp add: canonicalize_def Let_def)
next
  case False
  then have "canonicalize a = a" by (auto simp: canonicalize_def Let_def)
  then show ?thesis by simp
qed

lemma canonicalize_short: "length a < 42 \<Longrightarrow> canonicalize a = a"
proof -
  assume "length a < 42"
  moreover have "length (trim a) \<le> length a"
    using length_dropWhile_le [of is_space a]
      length_dropWhile_le [of is_space "rev (dropWhile is_space a)"] by (simp add: trim_def)
  ultimately show ?thesis by (auto simp: canonicalize_def Let_def)
qed

lemma ascii_lower_id: "\<not> is_ascii_uppercase c \<Longrightarrow> ascii_lower c = c"
  by (auto simp: is_ascii_uppercase_def ascii_lower_def Let_def)

lemma trim_full: "length (trim a) = length a \<Longrightarrow> trim a = a"
proof -
  assume len: "length (trim a) = length a"
  have "length (trim a) \<le> length (dropWhile is_space a)"
    using length_dropWhile_le [of is_space "rev (dropWhile is_space a)"] by (simp add: trim_def)
  then have d: "dropWhile is_space a = a"
    using len length_dropWhile_le [of is_space a]
    by (metis append_eq_append_conv append_Nil le_antisym takeWhile_dropWhile_id)
  then have "dropWhile is_space (rev a) = rev a"
    using len by (metis (no_types) append_eq_append_conv append_Nil length_rev takeWhile_dropWhile_id trim_def)
  with d show ?thesis by (simp add: trim_def)
qed

text \<open>The fast path of the manager computes the same address.\<close>

lemma canonicalize_address_eq: "canonicalize_address a = canonicalize a"
proof -
  have "a = ''0x'' @ to_ascii_lowercase (drop 2 (trim a))"
    if len: "length (trim a) = length a" "length (trim a) = 42" and x: "trim a ! 1 = CHR ''x''"
      and pre: "starts_with (trim a) ''0x'' \<or> starts_with (trim a) ''0X''"
      and low: "list_all (\<lambda>b. \<not> is_ascii_uppercase b) (drop 2 (trim a))"
  proof -
    have t: "trim a = a" using len(1) by (rule trim_full)
    have "to_ascii_lowercase (drop 2 a) = drop 2 a"
      using low t by (simp add: to_ascii_lowercase_def list_all_iff map_idI ascii_lower_id)
    moreover have "take 2 a = ''0x''"
      using pre x t len(2) by (cases a; cases "tl a") (auto simp: starts_with_def)
    ultimately show ?thesis using t by (metis append_take_drop_id)
  qed
  then show ?thesis by (auto simp: canonicalize_address_def canonicalize_def Let_def)
qed

section \<open>The contract of a store\<close>

text \<open>
  \<open>view\<close> is the map from canonical addresses to accounts that a state stands for; \<open>known\<close> are the
  canonical addresses the store can read.
\<close>

locale account_store =
  fixes fetch :: "'s getter" and put :: "'s setter"
    and view :: "'s \<Rightarrow> address \<rightharpoonup> account" and inv :: "'s \<Rightarrow> bool" and known :: "address \<Rightarrow> bool"
  assumes fetch_ok: "inv s \<Longrightarrow> known (canonicalize a) \<Longrightarrow>
      \<exists>s'. fetch a s = (Inr (view s (canonicalize a)), s') \<and> inv s' \<and> view s' = view s"
    and put_ok: "inv s \<Longrightarrow> known (canonicalize a) \<Longrightarrow>
      \<exists>s'. put a x s = (Inr (), s') \<and> inv s' \<and> view s' = (view s)(canonicalize a \<mapsto> x)"
begin

text \<open>
  \<open>does s m r v\<close>: the action \<open>m\<close>, run in \<open>s\<close>, returns \<open>r\<close> and leaves a sound state with view \<open>v\<close>.
\<close>

definition does :: "'s \<Rightarrow> ('s, 'a) action \<Rightarrow> 'a result \<Rightarrow> (address \<rightharpoonup> account) \<Rightarrow> bool" where
  "does s m r v \<longleftrightarrow> fst (m s) = r \<and> inv (snd (m s)) \<and> view (snd (m s)) = v"

lemma does_fetch: "inv s \<Longrightarrow> known (canonicalize a) \<Longrightarrow> does s (fetch a) (Inr (view s (canonicalize a))) (view s)"
  unfolding does_def by (metis fetch_ok fst_conv snd_conv)

lemma does_put: "inv s \<Longrightarrow> known (canonicalize a) \<Longrightarrow> does s (put a x) (Inr ()) ((view s)(canonicalize a \<mapsto> x))"
  unfolding does_def by (metis put_ok fst_conv snd_conv)

lemma does_andthen:
  assumes "does s m (Inr x) v" "\<And>s'. inv s' \<Longrightarrow> view s' = v \<Longrightarrow> does s' (k x) r w"
  shows "does s (andthen m k) r w"
  using assms by (cases "m s") (auto simp: does_def andthen_def)

lemma does_put_at [intro]: "inv s \<Longrightarrow> view s = v \<Longrightarrow> known (canonicalize a) \<Longrightarrow> does s (put a x) (Inr ()) (v(canonicalize a \<mapsto> x))"
  using does_put by blast

lemma does_pure [intro]: "inv s \<Longrightarrow> view s = v \<Longrightarrow> does s (give x) (Inr x) v"
  "inv s \<Longrightarrow> view s = v \<Longrightarrow> does s (stop e) (Inl e) v"
  by (simp_all add: does_def give_def stop_def)

lemma does_lift_error [intro]: "inv s \<Longrightarrow> view s = v \<Longrightarrow> does s (andthen (lift (Inl e)) k) (Inl e) v"
  by (simp add: does_def andthen_def lift_def)

lemma does_lift_ok [simp]: "does s (andthen (lift (Inr x)) k) r v = does s (k x) r v"
  by (simp add: does_def andthen_def lift_def)

definition account_at :: "(address \<rightharpoonup> account) \<Rightarrow> address \<Rightarrow> account" where
  "account_at v a = unwrap_or_default (v (canonicalize a))"

lemma add_balance_does:
  assumes "inv s" "known (canonicalize a)"
  shows "does s (state_add_balance fetch put a n)
    (if ac_balance (account_at (view s) a) + n \<le> u128_max then Inr ()
     else Inl (DatabaseError ''AccountState error''))
    (if ac_balance (account_at (view s) a) + n \<le> u128_max
     then (view s)(canonicalize a \<mapsto> (account_at (view s) a)\<lparr>ac_balance := ac_balance (account_at (view s) a) + n\<rparr>)
     else view s)"
  unfolding state_add_balance_def
  by (rule does_andthen [OF does_fetch [OF assms]])
    (use assms in \<open>auto simp: ac_add_balance_def checked_add_def map_err_def account_state_error_def
        account_at_def simp del: fun_upd_apply\<close>)

lemma sub_balance_does:
  assumes "inv s" "known (canonicalize a)"
  shows "does s (state_sub_balance fetch put a n)
    (case view s (canonicalize a) of None \<Rightarrow> Inl AccountNotFound
     | Some x \<Rightarrow> if n \<le> ac_balance x then Inr () else Inl (DatabaseError ''AccountState error''))
    (case view s (canonicalize a) of None \<Rightarrow> view s
     | Some x \<Rightarrow> if n \<le> ac_balance x then (view s)(canonicalize a \<mapsto> x\<lparr>ac_balance := ac_balance x - n\<rparr>) else view s)"
  unfolding state_sub_balance_def
  by (rule does_andthen [OF does_fetch [OF assms]])
    (use assms in \<open>auto simp: ac_sub_balance_def checked_sub_def map_err_def account_state_error_def
        ok_or_not_found_def simp del: fun_upd_apply split: option.split\<close>)

lemma set_then_get_reserves:
  assumes "inv s" "known (canonicalize LIQUIDITY_POOL_ADDRESS)"
  shows "does s (andthen (set_pool_reserves fetch put x y) (\<lambda>_. get_pool_reserves fetch)) (Inr (x, y))
    ((view s)(canonicalize LIQUIDITY_POOL_ADDRESS \<mapsto>
       (account_at (view s) LIQUIDITY_POOL_ADDRESS)\<lparr>ac_balance := x, ac_zerenya_balance := y\<rparr>))"
  (is "does s _ _ ?v")
proof (rule does_andthen)
  show "does s (set_pool_reserves fetch put x y) (Inr ()) ?v"
    unfolding set_pool_reserves_def
    by (rule does_andthen [OF does_fetch [OF assms]])
      (use assms(2) in \<open>auto simp: account_at_def simp del: fun_upd_apply\<close>)
  show "does s' (get_pool_reserves fetch) (Inr (x, y)) ?v" if "inv s'" "view s' = ?v" for s'
    unfolding get_pool_reserves_def
    by (rule does_andthen [OF does_fetch [OF that(1) assms(2)]])
      (use that in \<open>auto simp: unwrap_or_default_def\<close>)
qed

text \<open>Moving an amount between two accounts keeps their sum.\<close>

lemma move_keeps_sum:
  assumes "inv s" "known (canonicalize a)" "known (canonicalize b)" "canonicalize a \<noteq> canonicalize b"
    and "n \<le> ac_balance (account_at (view s) a)" "view s (canonicalize a) \<noteq> None"
    and "ac_balance (account_at (view s) b) + n \<le> u128_max"
  shows "\<exists>v. does s (andthen (state_sub_balance fetch put a n) (\<lambda>_. state_add_balance fetch put b n)) (Inr ()) v \<and>
    ac_balance (account_at v a) + ac_balance (account_at v b) =
      ac_balance (account_at (view s) a) + ac_balance (account_at (view s) b) \<and>
    (\<forall>c. c \<noteq> canonicalize a \<longrightarrow> c \<noteq> canonicalize b \<longrightarrow> v c = view s c)"
proof -
  obtain x where x: "view s (canonicalize a) = Some x" using assms(6) by blast
  let ?v = "(view s)(canonicalize a \<mapsto> x\<lparr>ac_balance := ac_balance x - n\<rparr>)"
  let ?y = "account_at (view s) b"
  let ?w = "?v(canonicalize b \<mapsto> ?y\<lparr>ac_balance := ac_balance ?y + n\<rparr>)"
  have le: "n \<le> ac_balance x" using assms(5) x by (simp add: account_at_def unwrap_or_default_def)
  have y: "account_at ?v b = ?y" using assms(4) by (simp add: account_at_def)
  have "does s (andthen (state_sub_balance fetch put a n) (\<lambda>_. state_add_balance fetch put b n)) (Inr ()) ?w"
  proof (rule does_andthen)
    show "does s (state_sub_balance fetch put a n) (Inr ()) ?v"
      using sub_balance_does [OF assms(1,2), of n] x le by simp
    show "does s' (state_add_balance fetch put b n) (Inr ()) ?w" if "inv s'" "view s' = ?v" for s'
      using add_balance_does [OF that(1) assms(3), of n] assms(7) y that(2) by simp
  qed
  moreover have "ac_balance (account_at ?w a) + ac_balance (account_at ?w b) =
      ac_balance (account_at (view s) a) + ac_balance (account_at (view s) b)"
    using assms(4) x le by (simp add: account_at_def unwrap_or_default_def)
  ultimately show ?thesis by (intro exI [of _ ?w]) auto
qed

end

section \<open>The contract of checkpoints\<close>

text \<open>
  What a caller relies on that opens one checkpoint, works and closes it: \<open>opened s\<close> is the open
  checkpoint with the view it would return to. Reads and writes leave it alone; a commit keeps the
  present view, a revert brings back the old one.
\<close>

locale snapshot_store = account_store fetch put view inv known
  for fetch :: "'s getter" and put :: "'s setter"
    and view :: "'s \<Rightarrow> address \<rightharpoonup> account" and inv :: "'s \<Rightarrow> bool" and known :: "address \<Rightarrow> bool" +
  fixes checkpoint :: "('s, nat) action"
    and commit :: "nat \<Rightarrow> ('s, unit) action"
    and revert :: "nat \<Rightarrow> ('s, unit) action"
    and opened :: "'s \<Rightarrow> (nat \<times> (address \<rightharpoonup> account)) option"
  assumes fetch_opened: "inv s \<Longrightarrow> known (canonicalize a) \<Longrightarrow> opened (snd (fetch a s)) = opened s"
    and put_opened: "inv s \<Longrightarrow> known (canonicalize a) \<Longrightarrow> opened (snd (put a x s)) = opened s"
    and checkpoint_ok: "inv s \<Longrightarrow> opened s = None \<Longrightarrow>
      \<exists>n s'. checkpoint s = (Inr n, s') \<and> inv s' \<and> view s' = view s \<and> opened s' = Some (n, view s)"
    and commit_ok: "inv s \<Longrightarrow> opened s = Some (n, v) \<Longrightarrow>
      \<exists>s'. commit n s = (Inr (), s') \<and> inv s' \<and> view s' = view s \<and> opened s' = None"
    and revert_ok: "inv s \<Longrightarrow> opened s = Some (n, v) \<Longrightarrow>
      \<exists>s'. revert n s = (Inr (), s') \<and> inv s' \<and> view s' = v \<and> opened s' = None"
begin

text \<open>An action made of reads and writes: sound, and without effect on the open checkpoint.\<close>

definition tame :: "('s, 'a) action \<Rightarrow> bool" where
  "tame m \<longleftrightarrow> (\<forall>s. inv s \<longrightarrow> inv (snd (m s)) \<and> opened (snd (m s)) = opened s)"

lemma tame_pure [intro]: "tame (give x)" "tame (stop e)" "tame (lift r)"
  by (simp_all add: tame_def give_def stop_def lift_def)

lemma tame_fetch [intro]: "known (canonicalize a) \<Longrightarrow> tame (fetch a)"
  unfolding tame_def using fetch_ok fetch_opened by (metis snd_conv)

lemma tame_put [intro]: "known (canonicalize a) \<Longrightarrow> tame (put a x)"
  unfolding tame_def using put_ok put_opened by (metis snd_conv)

lemma tame_andthen [intro]:
  assumes "tame m" "\<And>x. tame (k x)"
  shows "tame (andthen m k)"
  unfolding tame_def
proof (intro allI impI)
  fix s assume "inv s"
  with assms show "inv (snd (andthen m k s)) \<and> opened (snd (andthen m k s)) = opened s"
    unfolding tame_def andthen_def by (cases "m s") (auto split: sum.split; metis snd_conv)
qed

end

text \<open>
  The shape of a transaction in the executor: open a checkpoint, work, and commit on success or
  revert on an error, which is passed on.
\<close>

definition transact ::
  "('s, nat) action \<Rightarrow> (nat \<Rightarrow> ('s, unit) action) \<Rightarrow> (nat \<Rightarrow> ('s, unit) action) \<Rightarrow>
     ('s, 'a) action \<Rightarrow> ('s, 'a) action" where
  "transact checkpoint commit revert work =
     andthen checkpoint (\<lambda>checkpoint_id s.
       case work s of
         (Inr x, s') \<Rightarrow> andthen (commit checkpoint_id) (\<lambda>_. give x) s'
       | (Inl e, s') \<Rightarrow> andthen (revert checkpoint_id) (\<lambda>_. stop e) s')"

context snapshot_store
begin

lemma transact_ok:
  assumes "inv s" "opened s = None" "tame work"
  shows "\<exists>s1. inv s1 \<and> view s1 = view s \<and>
    (case work s1 of
       (Inr x, s2) \<Rightarrow> \<exists>s3. transact checkpoint commit revert work s = (Inr x, s3) \<and>
         inv s3 \<and> view s3 = view s2 \<and> opened s3 = None
     | (Inl e, s2) \<Rightarrow> \<exists>s3. transact checkpoint commit revert work s = (Inl e, s3) \<and>
         inv s3 \<and> view s3 = view s \<and> opened s3 = None)"
proof -
  obtain n s1 where s1: "checkpoint s = (Inr n, s1)" "inv s1" "view s1 = view s" "opened s1 = Some (n, view s)"
    using checkpoint_ok [OF assms(1,2)] by blast
  obtain r s2 where work: "work s1 = (r, s2)" by (cases "work s1")
  then have s2: "inv s2" "opened s2 = Some (n, view s)"
    using assms(3) s1(2,4) unfolding tame_def by (metis snd_conv)+
  show ?thesis
  proof (cases r)
    case (Inl e)
    obtain s3 where "revert n s2 = (Inr (), s3)" "inv s3" "view s3 = view s" "opened s3 = None"
      using revert_ok [OF s2] by blast
    with s1 work Inl show ?thesis
      by (intro exI [of _ s1]) (simp add: transact_def andthen_def stop_def)
  next
    case (Inr x)
    obtain s3 where "commit n s2 = (Inr (), s3)" "inv s3" "view s3 = view s2" "opened s3 = None"
      using commit_ok [OF s2] by blast
    with s1 work Inr show ?thesis
      by (intro exI [of _ s1]) (simp add: transact_def andthen_def give_def)
  qed
qed

text \<open>A transaction that fails leaves no trace.\<close>

lemma failed_transact:
  assumes "inv s" "opened s = None" "tame work" "transact checkpoint commit revert work s = (Inl e, s')"
  shows "view s' = view s \<and> inv s' \<and> opened s' = None"
proof -
  obtain s1 where s1: "case work s1 of
       (Inr x, s2) \<Rightarrow> \<exists>s3. transact checkpoint commit revert work s = (Inr x, s3) \<and>
         inv s3 \<and> view s3 = view s2 \<and> opened s3 = None
     | (Inl e, s2) \<Rightarrow> \<exists>s3. transact checkpoint commit revert work s = (Inl e, s3) \<and>
         inv s3 \<and> view s3 = view s \<and> opened s3 = None"
    using transact_ok [OF assms(1-3)] by (elim exE conjE) (rule that)
  obtain r s2 where "work s1 = (r, s2)" by (cases "work s1")
  with s1 assms(4) show ?thesis by (cases r) auto
qed

end

text \<open>The raw genesis row is not an account; no account operation names it.\<close>

definition account_key :: "address \<Rightarrow> bool" where
  "account_key a \<longleftrightarrow> a \<noteq> ''block_0''"

end
