(* ===== verification/Overlay.thy ===== *)
theory Overlay
  imports StateApi
begin

text \<open>
  The simulation overlay of \<open>crates/zagros-state/src/overlay.rs\<close>: writes go to a private map, reads
  look there first and then at the shared state, and every thread has a stack of checkpoint journals
  with the entry each address had before its first write.

  The shared state is read only, so it is a record of the answers it gives. A thread is named by a
  number. A journal and the private map are association lists; the end of a \<open>Vec\<close> stack is the head
  of its list.

  The lemmas: the journals of a stack lead back, one after the other, from the present map to the map
  before each checkpoint (\<open>unwind\<close>), and every operation keeps that; hence reverting a checkpoint
  restores the map exactly, whatever happened since. The overlay meets the contracts
  \<open>account_store\<close> and \<open>snapshot_store\<close>.
\<close>

section \<open>State\<close>

type_synonym journal = "(address \<times> account option option) list"
type_synonym thread = nat

record inner_state =
  in_get_account :: "address \<Rightarrow> account option result"
  in_validator_candidates :: "(address \<times> nat) list result"
  in_total_known_addresses :: "nat result"
  in_state_root_with_overrides :: "(address \<times> account option) list \<Rightarrow> hash result"

record overlay =
  ov_inner :: inner_state
  ov_accounts :: "(address \<times> account option) list"
  ov_journals :: "(thread \<times> journal list) list"

definition overlay_new :: "inner_state \<Rightarrow> overlay" where
  "overlay_new inner = \<lparr>ov_inner = inner, ov_accounts = [], ov_journals = []\<rparr>"

definition overrides :: "overlay \<Rightarrow> (address \<times> account option) list" where
  "overrides s = sort_key fst (ov_accounts s)"

section \<open>Operations\<close>

definition journal_previous :: "thread \<Rightarrow> address \<Rightarrow> overlay \<Rightarrow> overlay" where
  "journal_previous tid canonical s =
     (case map_of (ov_journals s) tid of
        None \<Rightarrow> s
      | Some [] \<Rightarrow> s
      | Some (latest # stack) \<Rightarrow>
          if canonical \<in> fst ` set latest then s
          else s\<lparr>ov_journals := AList.update tid
                  (AList.update canonical (map_of (ov_accounts s) canonical) latest # stack)
                  (ov_journals s)\<rparr>)"

definition ov_get_account :: "overlay getter" where
  "ov_get_account address s =
     (let canonical = canonicalize address
      in case map_of (ov_accounts s) canonical of
           Some entry \<Rightarrow> (Inr entry, s)
         | None \<Rightarrow> (in_get_account (ov_inner s) canonical, s))"

definition ov_set_account :: "thread \<Rightarrow> overlay setter" where
  "ov_set_account tid address state s =
     (let canonical = canonicalize address;
          s = journal_previous tid canonical s
      in (Inr (), s\<lparr>ov_accounts := AList.update canonical (Some state) (ov_accounts s)\<rparr>))"

definition ov_get_validator_candidates :: "(overlay, (address \<times> nat) list) action" where
  "ov_get_validator_candidates s = (in_validator_candidates (ov_inner s), s)"

definition ov_total_known_addresses :: "(overlay, nat) action" where
  "ov_total_known_addresses s = (in_total_known_addresses (ov_inner s), s)"

definition ov_checkpoint :: "thread \<Rightarrow> (overlay, nat) action" where
  "ov_checkpoint tid s =
     (let stack = (case map_of (ov_journals s) tid of None \<Rightarrow> [] | Some stack \<Rightarrow> stack)
      in (Inr (length stack + 1),
          s\<lparr>ov_journals := AList.update tid ([] # stack) (ov_journals s)\<rparr>))"

text \<open>\<open>parent.entry(addr).or_insert(prev)\<close> for every entry of the closed journal.\<close>

fun merge_journal :: "journal \<Rightarrow> journal \<Rightarrow> journal" where
  "merge_journal [] parent = parent"
| "merge_journal ((addr, prev) # latest) parent =
     merge_journal latest (if addr \<in> fst ` set parent then parent else AList.update addr prev parent)"

definition ov_commit_checkpoint :: "thread \<Rightarrow> nat \<Rightarrow> (overlay, unit) action" where
  "ov_commit_checkpoint tid checkpoint_id s =
     (case map_of (ov_journals s) tid of
        None \<Rightarrow> (Inl (Other ''overlay: no open checkpoint''), s)
      | Some stack \<Rightarrow>
          if length stack \<noteq> checkpoint_id
          then (Inl (Other ''overlay: checkpoint is not on top''), s)
          else (let stack' = (case stack of
                    [] \<Rightarrow> []
                  | [latest] \<Rightarrow> []
                  | latest # parent # rest \<Rightarrow> merge_journal latest parent # rest)
                in (Inr (), s\<lparr>ov_journals := AList.update tid stack' (ov_journals s)\<rparr>)))"

fun restore_journal :: "journal \<Rightarrow> (address \<times> account option) list \<Rightarrow> (address \<times> account option) list" where
  "restore_journal [] accounts = accounts"
| "restore_journal ((addr, prev) # latest) accounts =
     restore_journal latest
       (case prev of
          Some entry \<Rightarrow> AList.update addr entry accounts
        | None \<Rightarrow> AList.delete addr accounts)"

definition ov_revert_checkpoint :: "thread \<Rightarrow> nat \<Rightarrow> (overlay, unit) action" where
  "ov_revert_checkpoint tid checkpoint_id s =
     (case map_of (ov_journals s) tid of
        None \<Rightarrow> (Inl (Other ''overlay: no open checkpoint''), s)
      | Some stack \<Rightarrow>
          if length stack \<noteq> checkpoint_id
          then (Inl (Other ''overlay: checkpoint is not on top''), s)
          else (let (latest, rest) = (case stack of [] \<Rightarrow> ([], []) | latest # rest \<Rightarrow> (latest, rest))
                in (Inr (), s\<lparr>ov_journals := AList.update tid rest (ov_journals s),
                        ov_accounts := restore_journal latest (ov_accounts s)\<rparr>)))"

definition ov_state_root :: "(overlay, hash) action" where
  "ov_state_root s = (in_state_root_with_overrides (ov_inner s) (overrides s), s)"

section \<open>Journals lead back\<close>

definition undo :: "journal \<Rightarrow> (address \<rightharpoonup> account option) \<Rightarrow> (address \<rightharpoonup> account option)" where
  "undo j m = (\<lambda>a. case map_of j a of None \<Rightarrow> m a | Some prev \<Rightarrow> prev)"

fun unwind :: "journal list \<Rightarrow> (address \<rightharpoonup> account option) \<Rightarrow> (address \<rightharpoonup> account option)" where
  "unwind [] m = m"
| "unwind (j # js) m = unwind js (undo j m)"

definition journal_ok :: "journal \<Rightarrow> bool" where
  "journal_ok j = distinct (map fst j)"

lemma undo_Nil [simp]: "undo [] m = m"
  by (simp add: undo_def)

lemma journal_ok_Nil [simp]: "journal_ok []"
  by (simp add: journal_ok_def)

lemma journal_ok_update: "journal_ok j \<Longrightarrow> journal_ok (AList.update a p j)"
  by (simp add: journal_ok_def distinct_update)

lemma undo_first_write:
  assumes "a \<notin> fst ` set j"
  shows "undo (AList.update a (m a) j) (m(a \<mapsto> x)) = undo j m"
proof -
  have "map_of j a = None" using assms by (simp add: map_of_eq_None_iff)
  then show ?thesis by (auto simp: undo_def fun_eq_iff split: option.split)
qed

lemma undo_later_write:
  assumes "a \<in> fst ` set j"
  shows "undo j (m(a \<mapsto> x)) = undo j m"
proof -
  have "map_of j a \<noteq> None" using assms by (simp add: map_of_eq_None_iff)
  then show ?thesis by (auto simp: undo_def fun_eq_iff split: option.split)
qed

lemma merge_journal_ok: "journal_ok parent \<Longrightarrow> journal_ok (merge_journal latest parent)"
  by (induction latest parent rule: merge_journal.induct) (simp_all add: journal_ok_update)

lemma map_of_merge:
  "journal_ok latest \<Longrightarrow> map_of (merge_journal latest parent) = map_of latest ++ map_of parent"
proof (induction latest parent rule: merge_journal.induct)
  case (1 parent)
  then show ?case by simp
next
  case (2 addr prev latest parent)
  have fresh: "map_of latest addr = None"
    using 2(2) by (simp add: journal_ok_def map_of_eq_None_iff)
  show ?case
  proof (cases "addr \<in> fst ` set parent")
    case True
    then obtain p where "map_of parent addr = Some p" by (metis map_of_eq_None_iff not_Some_eq)
    with True 2 show ?thesis
      by (auto simp: journal_ok_def map_add_def fun_eq_iff split: option.split)
  next
    case False
    then have "map_of parent addr = None" by (simp add: map_of_eq_None_iff)
    with False fresh 2 show ?thesis
      by (auto simp: journal_ok_def map_add_def fun_eq_iff split: option.split)
  qed
qed

lemma undo_merge: "journal_ok latest \<Longrightarrow> undo (merge_journal latest parent) m = undo parent (undo latest m)"
  by (auto simp: undo_def map_of_merge map_add_def fun_eq_iff split: option.split)

lemma map_of_restore: "journal_ok j \<Longrightarrow> map_of (restore_journal j accounts) = undo j (map_of accounts)"
proof (induction j accounts rule: restore_journal.induct)
  case (1 accounts)
  then show ?case by simp
next
  case (2 addr prev latest accounts)
  then have "map_of latest addr = None" "journal_ok latest"
    by (simp_all add: journal_ok_def map_of_eq_None_iff)
  with 2 show ?case
    by (cases prev) (auto simp: undo_def fun_eq_iff delete_conv' split: option.split)
qed

section \<open>Operations keep the way back\<close>

text \<open>A thread's stack, and what the overlay holds at all.\<close>

definition stack_of :: "thread \<Rightarrow> overlay \<Rightarrow> journal list" where
  "stack_of tid s = (case map_of (ov_journals s) tid of None \<Rightarrow> [] | Some stack \<Rightarrow> stack)"

definition written :: "overlay \<Rightarrow> address \<rightharpoonup> account option" where
  "written s = map_of (ov_accounts s)"

definition stacks_ok :: "overlay \<Rightarrow> bool" where
  "stacks_ok s = (\<forall>tid. list_all journal_ok (stack_of tid s))"

datatype ov_op =
    SetAccount address account
  | Checkpoint
  | CommitCheckpoint nat
  | RevertCheckpoint nat

fun ov_step :: "thread \<Rightarrow> ov_op \<Rightarrow> overlay \<Rightarrow> overlay" where
  "ov_step tid (SetAccount a x) s = snd (ov_set_account tid a x s)"
| "ov_step tid Checkpoint s = snd (ov_checkpoint tid s)"
| "ov_step tid (CommitCheckpoint n) s = snd (ov_commit_checkpoint tid n s)"
| "ov_step tid (RevertCheckpoint n) s = snd (ov_revert_checkpoint tid n s)"

lemma stack_of_update:
  "stack_of tid (s\<lparr>ov_journals := AList.update t js (ov_journals s)\<rparr>) = (if tid = t then js else stack_of tid s)"
  "stack_of tid (s\<lparr>ov_accounts := acc\<rparr>) = stack_of tid s"
  "stack_of tid (s\<lparr>ov_journals := AList.update t js (ov_journals s), ov_accounts := acc\<rparr>) =
     (if tid = t then js else stack_of tid s)"
  by (simp_all add: stack_of_def)

lemma written_update [simp]:
  "written (s\<lparr>ov_journals := js\<rparr>) = written s"
  "written (s\<lparr>ov_accounts := acc\<rparr>) = map_of acc"
  "written (s\<lparr>ov_journals := js, ov_accounts := acc\<rparr>) = map_of acc"
  by (simp_all add: written_def)

lemma journal_previous_written [simp]: "written (journal_previous tid a s) = written s"
  by (simp add: journal_previous_def split: option.split list.split)

lemma journal_previous_accounts [simp]: "ov_accounts (journal_previous tid a s) = ov_accounts s"
  by (simp add: journal_previous_def split: option.split list.split)

lemma stack_journal_previous:
  "stack_of t (journal_previous tid a s) =
     (if t = tid then (case stack_of tid s of
          [] \<Rightarrow> []
        | latest # rest \<Rightarrow> (if a \<in> fst ` set latest then latest else AList.update a (written s a) latest) # rest)
      else stack_of t s)"
  by (auto simp: journal_previous_def stack_of_def written_def split: option.split list.split)

text \<open>
  A thread that has \<open>new\<close> journals above \<open>old\<close> and does not close into \<open>old\<close> keeps both \<open>old\<close> and
  the map that unwinding \<open>new\<close> gives.
\<close>

definition leads_back :: "thread \<Rightarrow> journal list \<Rightarrow> (address \<rightharpoonup> account option) \<Rightarrow> overlay \<Rightarrow> bool" where
  "leads_back tid old m s \<longleftrightarrow>
     stacks_ok s \<and> (\<exists>new. new \<noteq> [] \<and> stack_of tid s = new @ old \<and> unwind new (written s) = m)"

lemma leads_back_cons:
  "leads_back tid old m s \<longleftrightarrow>
     stacks_ok s \<and> (\<exists>j js. stack_of tid s = j # js @ old \<and> unwind js (undo j (written s)) = m)"
  unfolding leads_back_def by (metis append_Cons list.distinct(1) neq_Nil_conv unwind.simps(2))

lemma stacks_ok_replace:
  assumes "stacks_ok s" "\<And>t. t \<noteq> tid \<Longrightarrow> stack_of t s' = stack_of t s"
    and "list_all journal_ok (stack_of tid s')"
  shows "stacks_ok s'"
  using assms unfolding stacks_ok_def by metis

lemma leads_back_set:
  assumes "leads_back tid old m s"
  shows "leads_back tid old m (snd (ov_set_account tid a x s))"
proof -
  obtain j js where stack: "stack_of tid s = j # js @ old" and m: "unwind js (undo j (written s)) = m"
    and ok: "stacks_ok s"
    using assms leads_back_cons by blast
  let ?c = "canonicalize a" and ?s = "snd (ov_set_account tid a x s)"
  let ?j = "if ?c \<in> fst ` set j then j else AList.update ?c (written s ?c) j"
  have stacks: "stack_of t ?s = (if t = tid then ?j # js @ old else stack_of t s)" for t
    using stack by (simp add: ov_set_account_def Let_def stack_of_update stack_journal_previous)
  have "written ?s = (written s)(?c \<mapsto> Some x)"
    by (simp add: ov_set_account_def Let_def written_def)
  moreover have "undo ?j ((written s)(?c \<mapsto> Some x)) = undo j (written s)"
    using undo_first_write [of ?c j "written s"] undo_later_write [of ?c j "written s"]
    by (cases "?c \<in> fst ` set j") simp_all
  ultimately have lead: "unwind js (undo ?j (written ?s)) = m" using m by metis
  have "list_all journal_ok (j # js @ old)" using ok stack unfolding stacks_ok_def by metis
  then have "list_all journal_ok (stack_of tid ?s)" using stacks [of tid] by (simp add: journal_ok_update)
  then have "stacks_ok ?s" using stacks by (intro stacks_ok_replace [OF ok, of tid]) simp_all
  moreover have "stack_of tid ?s = ?j # js @ old" using stacks [of tid] by simp
  ultimately show ?thesis using lead unfolding leads_back_cons by blast
qed

lemma stacks_checkpoint:
  "stack_of t (snd (ov_checkpoint tid s)) = (if t = tid then [] # stack_of tid s else stack_of t s)"
  "written (snd (ov_checkpoint tid s)) = written s"
  by (simp_all add: ov_checkpoint_def Let_def stack_of_def split: option.split)

lemma stacks_ok_checkpoint: "stacks_ok s \<Longrightarrow> stacks_ok (snd (ov_checkpoint tid s))"
  by (simp add: stacks_ok_def stacks_checkpoint)

lemma leads_back_checkpoint:
  assumes "leads_back tid old m s"
  shows "leads_back tid old m (snd (ov_checkpoint tid s))"
proof -
  obtain new where new: "new \<noteq> []" "stack_of tid s = new @ old" "unwind new (written s) = m"
    and ok: "stacks_ok s"
    using assms unfolding leads_back_def by blast
  then have "stack_of tid (snd (ov_checkpoint tid s)) = ([] # new) @ old"
    "unwind ([] # new) (written (snd (ov_checkpoint tid s))) = m"
    by (simp_all add: stacks_checkpoint)
  with stacks_ok_checkpoint [OF ok] show ?thesis unfolding leads_back_def by blast
qed

lemma stack_of_Cons: "stack_of tid s = j # js \<longleftrightarrow> map_of (ov_journals s) tid = Some (j # js)"
  by (auto simp: stack_of_def split: option.split)

text \<open>What a close does when the identifier is the depth of the stack.\<close>

lemma stacks_commit:
  assumes "stack_of tid s = j # js"
  shows "ov_commit_checkpoint tid (length (j # js)) s = (Inr (), s\<lparr>ov_journals :=
    AList.update tid (case js of [] \<Rightarrow> [] | p # rest \<Rightarrow> merge_journal j p # rest) (ov_journals s)\<rparr>)"
  using assms by (cases js) (simp_all add: ov_commit_checkpoint_def stack_of_Cons)

lemma stacks_revert:
  assumes "stack_of tid s = j # js"
  shows "ov_revert_checkpoint tid (length (j # js)) s = (Inr (), s\<lparr>ov_journals :=
    AList.update tid js (ov_journals s), ov_accounts := restore_journal j (ov_accounts s)\<rparr>)"
  using assms by (simp add: ov_revert_checkpoint_def stack_of_Cons)

lemma close_other_depth:
  assumes "n \<noteq> length (stack_of tid s)"
  shows "snd (ov_commit_checkpoint tid n s) = s" "snd (ov_revert_checkpoint tid n s) = s"
    "\<exists>e. fst (ov_commit_checkpoint tid n s) = Inl e" "\<exists>e. fst (ov_revert_checkpoint tid n s) = Inl e"
  using assms
  by (auto simp: ov_commit_checkpoint_def ov_revert_checkpoint_def stack_of_def split: option.splits)

lemma stacks_ok_close:
  assumes "stacks_ok s"
  shows "stacks_ok (snd (ov_commit_checkpoint tid n s))" "stacks_ok (snd (ov_revert_checkpoint tid n s))"
proof -
  show "stacks_ok (snd (ov_commit_checkpoint tid n s))"
  proof (cases "n = length (stack_of tid s)")
    case True
    then show ?thesis
    proof (cases "stack_of tid s")
      case Nil
      with True assms show ?thesis
        by (auto simp: ov_commit_checkpoint_def stacks_ok_def stack_of_def split: option.splits)
    next
      case (Cons j js)
      then have "list_all journal_ok (j # js)" using assms unfolding stacks_ok_def by metis
      with assms True show ?thesis
        using stacks_commit [OF Cons] Cons merge_journal_ok
        by (auto simp: stacks_ok_def stack_of_update split: list.split)
    qed
  qed (simp add: assms close_other_depth)
  show "stacks_ok (snd (ov_revert_checkpoint tid n s))"
  proof (cases "n = length (stack_of tid s)")
    case True
    then show ?thesis
    proof (cases "stack_of tid s")
      case Nil
      with True assms show ?thesis
        by (auto simp: ov_revert_checkpoint_def stacks_ok_def stack_of_def split: option.splits)
    next
      case (Cons j js)
      then have "list_all journal_ok (j # js)" using assms unfolding stacks_ok_def by metis
      with assms True show ?thesis
        using stacks_revert [OF Cons] Cons by (auto simp: stacks_ok_def stack_of_update)
    qed
  qed (simp add: assms close_other_depth)
qed

lemma leads_back_commit:
  assumes "leads_back tid old m s" "length old < length (stack_of tid (snd (ov_commit_checkpoint tid n s)))"
  shows "leads_back tid old m (snd (ov_commit_checkpoint tid n s))"
proof (cases "n = length (stack_of tid s)")
  case False
  with assms(1) show ?thesis by (simp add: close_other_depth)
next
  case True
  obtain j js where stack: "stack_of tid s = j # js @ old" and m: "unwind js (undo j (written s)) = m"
    and ok: "stacks_ok s"
    using assms(1) leads_back_cons by blast
  let ?s = "snd (ov_commit_checkpoint tid n s)"
  have eq: "?s = s\<lparr>ov_journals := AList.update tid
      (case js @ old of [] \<Rightarrow> [] | p # rest \<Rightarrow> merge_journal j p # rest) (ov_journals s)\<rparr>"
    using stacks_commit [OF stack] True stack by simp
  obtain p rest where js: "js = p # rest"
    using assms(2) unfolding eq by (cases js) (auto simp: stack_of_update split: list.splits)
  have "journal_ok j" using ok stack unfolding stacks_ok_def by (metis list.pred_inject(2))
  then have "unwind (merge_journal j p # rest) (written ?s) = m"
    using m js by (simp add: eq undo_merge)
  moreover have "stack_of tid ?s = (merge_journal j p # rest) @ old"
    by (simp add: eq js stack_of_update)
  ultimately show ?thesis
    using stacks_ok_close(1) [OF ok] unfolding leads_back_def by blast
qed

lemma leads_back_revert:
  assumes "leads_back tid old m s" "length old < length (stack_of tid (snd (ov_revert_checkpoint tid n s)))"
  shows "leads_back tid old m (snd (ov_revert_checkpoint tid n s))"
proof (cases "n = length (stack_of tid s)")
  case False
  with assms(1) show ?thesis by (simp add: close_other_depth)
next
  case True
  obtain j js where stack: "stack_of tid s = j # js @ old" and m: "unwind js (undo j (written s)) = m"
    and ok: "stacks_ok s"
    using assms(1) leads_back_cons by blast
  let ?s = "snd (ov_revert_checkpoint tid n s)"
  have eq: "?s = s\<lparr>ov_journals := AList.update tid (js @ old) (ov_journals s),
      ov_accounts := restore_journal j (ov_accounts s)\<rparr>"
    using stacks_revert [OF stack] True stack by simp
  have "journal_ok j" using ok stack unfolding stacks_ok_def by (metis list.pred_inject(2))
  then have "unwind js (written ?s) = m"
    using m by (simp add: eq map_of_restore written_def)
  moreover have "stack_of tid ?s = js @ old" by (simp add: eq stack_of_update)
  moreover from this assms(2) have "js \<noteq> []" by auto
  ultimately show ?thesis
    using stacks_ok_close(2) [OF ok] unfolding leads_back_def by blast
qed

lemma leads_back_step:
  assumes "leads_back tid old m s" "length old < length (stack_of tid (ov_step tid op s))"
  shows "leads_back tid old m (ov_step tid op s)"
  using assms leads_back_set leads_back_checkpoint leads_back_commit leads_back_revert
  by (cases op) simp_all

text \<open>Running operations that never close below a depth.\<close>

fun stays_above :: "thread \<Rightarrow> nat \<Rightarrow> ov_op list \<Rightarrow> overlay \<Rightarrow> bool" where
  "stays_above tid n [] s = True"
| "stays_above tid n (op # ops) s \<longleftrightarrow>
     n < length (stack_of tid (ov_step tid op s)) \<and> stays_above tid n ops (ov_step tid op s)"

definition ov_run :: "thread \<Rightarrow> ov_op list \<Rightarrow> overlay \<Rightarrow> overlay" where
  "ov_run tid ops s = fold (ov_step tid) ops s"

lemma leads_back_run:
  "leads_back tid old m s \<Longrightarrow> stays_above tid (length old) ops s \<Longrightarrow> leads_back tid old m (ov_run tid ops s)"
  unfolding ov_run_def
  by (induction ops arbitrary: s) (simp_all add: leads_back_step)

lemma stacks_ok_set:
  assumes "stacks_ok s"
  shows "stacks_ok (snd (ov_set_account tid a x s))"
proof (rule stacks_ok_replace [OF assms, of tid])
  have "list_all journal_ok (stack_of tid s)" using assms by (simp add: stacks_ok_def)
  then show "list_all journal_ok (stack_of tid (snd (ov_set_account tid a x s)))"
    by (cases "stack_of tid s")
      (simp_all add: ov_set_account_def Let_def stack_of_update stack_journal_previous journal_ok_update)
qed (simp add: ov_set_account_def Let_def stack_of_update stack_journal_previous)

lemma stacks_ok_step: "stacks_ok s \<Longrightarrow> stacks_ok (ov_step tid op s)"
  by (cases op) (simp_all add: stacks_ok_set stacks_ok_checkpoint stacks_ok_close)

lemma stacks_ok_run: "stacks_ok s \<Longrightarrow> stacks_ok (ov_run tid ops s)"
  unfolding ov_run_def by (induction ops arbitrary: s) (simp_all add: stacks_ok_step)

section \<open>The contracts\<close>

definition seen :: "inner_state \<Rightarrow> (address \<rightharpoonup> account option) \<Rightarrow> address \<rightharpoonup> account" where
  "seen inner m a = (case m a of Some entry \<Rightarrow> entry
     | None \<Rightarrow> (case in_get_account inner a of Inr x \<Rightarrow> x | Inl e \<Rightarrow> None))"

definition ov_view :: "overlay \<Rightarrow> address \<rightharpoonup> account" where
  "ov_view s = seen (ov_inner s) (written s)"

definition ov_opened :: "thread \<Rightarrow> overlay \<Rightarrow> (nat \<times> (address \<rightharpoonup> account)) option" where
  "ov_opened tid s =
     (case stack_of tid s of [j] \<Rightarrow> Some (1, seen (ov_inner s) (undo j (written s))) | _ \<Rightarrow> None)"

text \<open>The shared state can be read, and the thread has at most one checkpoint open.\<close>

definition ov_sound :: "thread \<Rightarrow> overlay \<Rightarrow> bool" where
  "ov_sound tid s \<longleftrightarrow> stacks_ok s \<and> length (stack_of tid s) \<le> 1 \<and>
     (\<forall>a. account_key a \<longrightarrow> (\<exists>x. in_get_account (ov_inner s) a = Inr x))"

lemma seen_update: "seen inner (m(a \<mapsto> Some x)) = (seen inner m)(a \<mapsto> x)"
  by (auto simp: seen_def fun_eq_iff)

lemma inner_kept [simp]:
  "ov_inner (journal_previous tid a s) = ov_inner s"
  "ov_inner (snd (ov_set_account tid a x s)) = ov_inner s"
  "ov_inner (snd (ov_checkpoint tid s)) = ov_inner s"
  "ov_inner (snd (ov_commit_checkpoint tid n s)) = ov_inner s"
  "ov_inner (snd (ov_revert_checkpoint tid n s)) = ov_inner s"
  by (auto simp: journal_previous_def ov_set_account_def ov_checkpoint_def ov_commit_checkpoint_def
      ov_revert_checkpoint_def Let_def split: option.split list.split)

lemma written_set: "written (snd (ov_set_account tid a x s)) = (written s)(canonicalize a \<mapsto> Some x)"
  by (simp add: ov_set_account_def Let_def written_def)

lemma stack_set:
  "stack_of tid (snd (ov_set_account tid a x s)) =
     (case stack_of tid s of [] \<Rightarrow> []
      | j # js \<Rightarrow> (if canonicalize a \<in> fst ` set j then j
          else AList.update (canonicalize a) (written s (canonicalize a)) j) # js)"
  by (simp add: ov_set_account_def Let_def stack_of_update stack_journal_previous)

lemma opened_set: "ov_opened tid (snd (ov_set_account tid a x s)) = ov_opened tid s"
  using undo_first_write [of "canonicalize a" _ "written s"] undo_later_write [of "canonicalize a" _ "written s"]
  by (simp add: ov_opened_def stack_set written_set split: list.split)

lemma sound_stack: "ov_sound tid s \<Longrightarrow> stack_of tid s = [] \<or> (\<exists>j. stack_of tid s = [j])"
  by (cases "stack_of tid s") (auto simp: ov_sound_def)

interpretation ov: snapshot_store ov_get_account "ov_set_account tid" ov_view "ov_sound tid" account_key
    "ov_checkpoint tid" "ov_commit_checkpoint tid" "ov_revert_checkpoint tid" "ov_opened tid" for tid
proof
  fix s a x n v
  assume sound: "ov_sound tid s"
  show "\<exists>s'. ov_get_account a s = (Inr (ov_view s (canonicalize a)), s') \<and> ov_sound tid s' \<and> ov_view s' = ov_view s"
    if key: "account_key (canonicalize a)"
  proof -
    obtain y where "in_get_account (ov_inner s) (canonicalize a) = Inr y"
      using sound key unfolding ov_sound_def by blast
    with sound show ?thesis
      by (cases "map_of (ov_accounts s) (canonicalize a)")
        (simp_all add: ov_get_account_def ov_view_def seen_def written_def Let_def)
  qed
  show "\<exists>s'. ov_set_account tid a x s = (Inr (), s') \<and> ov_sound tid s' \<and>
      ov_view s' = (ov_view s)(canonicalize a \<mapsto> x)"
  proof (intro exI conjI)
    show "ov_set_account tid a x s = (Inr (), snd (ov_set_account tid a x s))"
      by (simp add: ov_set_account_def Let_def)
    show "ov_sound tid (snd (ov_set_account tid a x s))"
      using sound stacks_ok_set by (auto simp: ov_sound_def stack_set split: list.split)
    show "ov_view (snd (ov_set_account tid a x s)) = (ov_view s)(canonicalize a \<mapsto> x)"
      by (simp only: ov_view_def written_set inner_kept seen_update)
  qed
  show "ov_opened tid (snd (ov_get_account a s)) = ov_opened tid s"
    by (simp add: ov_get_account_def Let_def split: option.split)
  show "ov_opened tid (snd (ov_set_account tid a x s)) = ov_opened tid s"
    by (rule opened_set)
  show "\<exists>n s'. ov_checkpoint tid s = (Inr n, s') \<and> ov_sound tid s' \<and> ov_view s' = ov_view s \<and>
      ov_opened tid s' = Some (n, ov_view s)" if "ov_opened tid s = None"
  proof -
    have nil: "stack_of tid s = []" using sound_stack [OF sound] that by (auto simp: ov_opened_def)
    have "fst (ov_checkpoint tid s) = Inr 1"
      using nil by (simp add: ov_checkpoint_def Let_def stack_of_def)
    then have "ov_checkpoint tid s = (Inr 1, snd (ov_checkpoint tid s))" by (metis prod.collapse)
    then show ?thesis
      using sound nil stacks_ok_checkpoint
      by (intro exI [of _ 1] exI [of _ "snd (ov_checkpoint tid s)"])
        (simp add: ov_sound_def stacks_checkpoint ov_opened_def ov_view_def)
  qed
  show "\<exists>s'. ov_commit_checkpoint tid n s = (Inr (), s') \<and> ov_sound tid s' \<and> ov_view s' = ov_view s \<and>
      ov_opened tid s' = None" if opened: "ov_opened tid s = Some (n, v)"
  proof -
    obtain j where j: "stack_of tid s = [j]" and n: "n = 1"
      using opened by (auto simp: ov_opened_def split: list.splits)
    have eq: "ov_commit_checkpoint tid n s = (Inr (), s\<lparr>ov_journals := AList.update tid [] (ov_journals s)\<rparr>)"
      using stacks_commit [OF j] n by simp
    then show ?thesis
      using sound stacks_ok_close(1) [of s tid n] eq
      by (simp add: ov_sound_def stack_of_update ov_opened_def ov_view_def)
  qed
  show "\<exists>s'. ov_revert_checkpoint tid n s = (Inr (), s') \<and> ov_sound tid s' \<and> ov_view s' = v \<and>
      ov_opened tid s' = None" if opened: "ov_opened tid s = Some (n, v)"
  proof -
    obtain j where j: "stack_of tid s = [j]" and n: "n = 1" and v: "v = seen (ov_inner s) (undo j (written s))"
      using opened by (auto simp: ov_opened_def split: list.splits)
    have eq: "ov_revert_checkpoint tid n s = (Inr (), s\<lparr>ov_journals := AList.update tid [] (ov_journals s),
        ov_accounts := restore_journal j (ov_accounts s)\<rparr>)"
      using stacks_revert [OF j] n by simp
    have "journal_ok j" using sound j unfolding ov_sound_def stacks_ok_def by (metis list.pred_inject(2))
    then show ?thesis
      using sound stacks_ok_close(2) [of s tid n] eq v
      by (simp add: ov_sound_def stack_of_update ov_opened_def ov_view_def map_of_restore written_def)
  qed
qed

section \<open>Reverting\<close>

text \<open>
  C12: a reverted checkpoint leaves no trace: whatever a thread did after opening it (writes, nested
  checkpoints, commits and reverts, also failing ones) without closing it, reverting it succeeds,
  and the overlay holds for every address the entry it held before, with the thread's outer journals
  untouched. A close that does not name the top checkpoint is an error and changes nothing.
\<close>

theorem revert_leaves_no_trace:
  assumes "stacks_ok s" and "ov_checkpoint tid s = (Inr n, s1)"
    and "stays_above tid (length (stack_of tid s)) ops s1"
    and "length (stack_of tid (ov_run tid ops s1)) = n"
  shows "\<exists>s2. ov_revert_checkpoint tid n (ov_run tid ops s1) = (Inr (), s2) \<and>
      written s2 = written s \<and> stack_of tid s2 = stack_of tid s \<and>
    (\<forall>k. k \<noteq> n \<longrightarrow> snd (ov_revert_checkpoint tid k (ov_run tid ops s1)) = ov_run tid ops s1 \<and>
      snd (ov_commit_checkpoint tid k (ov_run tid ops s1)) = ov_run tid ops s1)"
proof -
  let ?s = "ov_run tid ops s1"
  have s1: "s1 = snd (ov_checkpoint tid s)" using assms(2) by simp
  have n: "n = Suc (length (stack_of tid s))"
    using assms(2) by (simp add: ov_checkpoint_def stack_of_def Let_def)
  have "leads_back tid (stack_of tid s) (written s) s1"
    using stacks_ok_checkpoint [OF assms(1)] unfolding leads_back_cons s1
    by (auto simp: stacks_checkpoint)
  then have "leads_back tid (stack_of tid s) (written s) ?s"
    using assms(3) by (rule leads_back_run)
  then obtain j js where stack: "stack_of tid ?s = j # js @ stack_of tid s"
    and lead: "unwind js (undo j (written ?s)) = written s" and ok: "stacks_ok ?s"
    unfolding leads_back_cons by blast
  then have "js = []" using assms(4) n by simp
  moreover have "journal_ok j" using ok stack unfolding stacks_ok_def by (metis list.pred_inject(2))
  ultimately show ?thesis
    using stacks_revert [of tid ?s j "stack_of tid s"] stack lead n close_other_depth [of _ tid ?s]
    by (auto simp: stack_of_update map_of_restore written_def)
qed

text \<open>Two accounts, a nested checkpoint that is committed and one that is reverted.\<close>

definition sample_inner :: inner_state where
  "sample_inner = \<lparr>in_get_account = (\<lambda>a. Inr (Some (account_new 5))),
     in_validator_candidates = Inr [], in_total_known_addresses = Inr 0,
     in_state_root_with_overrides = (\<lambda>changes. Inr NIL_HASH)\<rparr>"

definition sample_ov_ops :: "ov_op list" where
  "sample_ov_ops = [SetAccount ''a'' (account_new 1), Checkpoint, SetAccount ''b'' (account_new 2),
     CommitCheckpoint 2, Checkpoint, SetAccount ''a'' (account_new 3), RevertCheckpoint 2]"

definition sample_ov_start :: overlay where
  "sample_ov_start = snd (ov_set_account 0 ''a'' (account_new 9) (overlay_new sample_inner))"

lemma sample_ov_facts:
  "stays_above 0 0 sample_ov_ops (snd (ov_checkpoint 0 sample_ov_start))"
  "length (stack_of 0 (ov_run 0 sample_ov_ops (snd (ov_checkpoint 0 sample_ov_start)))) = 1"
  "stack_of 0 sample_ov_start = []"
  "fst (ov_checkpoint 0 sample_ov_start) = Inr 1"
  by code_simp+

theorem revert_leaves_no_trace_witness:
  "written (snd (ov_revert_checkpoint 0 1 (ov_run 0 sample_ov_ops (snd (ov_checkpoint 0 sample_ov_start)))))
     = [''a'' \<mapsto> Some (account_new 9)]"
proof -
  have start: "sample_ov_start = \<lparr>ov_inner = sample_inner, ov_accounts = [(''a'', Some (account_new 9))],
      ov_journals = []\<rparr>"
    by (simp add: sample_ov_start_def overlay_new_def ov_set_account_def canonicalize_short journal_previous_def)
  have "ov_checkpoint 0 sample_ov_start = (Inr 1, snd (ov_checkpoint 0 sample_ov_start))"
    using sample_ov_facts(4) by (metis prod.collapse)
  moreover have "stacks_ok sample_ov_start" by (simp add: start stacks_ok_def stack_of_def)
  ultimately obtain s2 where
    "ov_revert_checkpoint 0 1 (ov_run 0 sample_ov_ops (snd (ov_checkpoint 0 sample_ov_start))) = (Inr (), s2)"
    "written s2 = written sample_ov_start"
    using revert_leaves_no_trace [of sample_ov_start 0 1 "snd (ov_checkpoint 0 sample_ov_start)" sample_ov_ops]
      sample_ov_facts by auto
  then show ?thesis by (auto simp: start written_def)
qed

end
