(* ===== verification/Trie.thy ===== *)
theory Trie
  imports Prelude
begin

text \<open>
  The state commitment of \<open>crates/zagros-state/src/trie.rs\<close>: a path-compressed binary radix tree
  over 256-bit keys whose root hash seals the chain state. The keys are hashes of addresses, the
  values hashes of serialised accounts. Keccak-256 is third-party code: the argument \<open>keccak\<close>.

  Every \<open>Branch\<close> stores the bit at which its two subtrees part, some key below it and its own
  hash. The lemmas: an invariant that every operation keeps; insertion and removal are the update and
  the deletion of the map the tree stands for; the tree is a function of that map alone
  (canonicity), so the root does not depend on the order of the operations; and two different maps
  with one root give a collision of \<open>keccak\<close> among the strings the two trees hash.
\<close>

section \<open>Nodes\<close>

definition EMPTY_ROOT :: hash where
  "EMPTY_ROOT = replicate 32 0"

definition KEY_BITS :: nat where
  "KEY_BITS = 256"

datatype node =
    Leaf hash hash
  | Branch nat hash hash node node

text \<open>
  \<open>bit\<close>: bit \<open>i\<close> of a key, the most significant bit of the first byte first. \<open>leading_zeros\<close> is
  the operation of \<open>u8\<close>.
\<close>

definition key_bit :: "hash \<Rightarrow> nat \<Rightarrow> byte" where
  "key_bit key i = drop_bit (7 - (i AND 7)) (key ! drop_bit 3 i) AND 1"

definition leading_zeros :: "byte \<Rightarrow> nat" where
  "leading_zeros x = length (takeWhile (\<lambda>i. \<not> bit x i) [7, 6, 5, 4, 3, 2, 1, 0])"

fun first_diff_loop :: "nat \<Rightarrow> hash \<Rightarrow> hash \<Rightarrow> nat" where
  "first_diff_loop n (a # as) (b # bs) =
     (if a \<noteq> b then n * 8 + leading_zeros (a XOR b) else first_diff_loop (n + 1) as bs)"
| "first_diff_loop n _ _ = KEY_BITS"

definition first_diff_bit :: "hash \<Rightarrow> hash \<Rightarrow> nat" where
  "first_diff_bit a b = first_diff_loop 0 a b"

definition leaf_hash :: "(bytes \<Rightarrow> hash) \<Rightarrow> hash \<Rightarrow> hash \<Rightarrow> hash" where
  "leaf_hash keccak key value = keccak ([0] @ key @ value)"

definition branch_hash :: "(bytes \<Rightarrow> hash) \<Rightarrow> hash \<Rightarrow> hash \<Rightarrow> hash" where
  "branch_hash keccak left right = keccak ([1] @ left @ right)"

fun node_hash :: "(bytes \<Rightarrow> hash) \<Rightarrow> node \<Rightarrow> hash" where
  "node_hash keccak (Leaf key value) = leaf_hash keccak key value"
| "node_hash keccak (Branch bit_index prefix hash left right) = hash"

fun rep_key :: "node \<Rightarrow> hash" where
  "rep_key (Leaf key value) = key"
| "rep_key (Branch bit_index prefix hash left right) = prefix"

definition make_branch :: "(bytes \<Rightarrow> hash) \<Rightarrow> nat \<Rightarrow> node \<Rightarrow> node \<Rightarrow> node" where
  "make_branch keccak bit_index a b =
     (let (left, right) = (if key_bit (rep_key a) bit_index = 0 then (a, b) else (b, a))
      in Branch bit_index (rep_key left)
           (branch_hash keccak (node_hash keccak left) (node_hash keccak right)) left right)"

section \<open>Insertion and removal\<close>

fun insert_node :: "(bytes \<Rightarrow> hash) \<Rightarrow> node \<Rightarrow> hash \<Rightarrow> hash \<Rightarrow> node" where
  "insert_node keccak (Leaf k v) key value =
     (if k = key then Leaf key value
      else make_branch keccak (as_u16 (first_diff_bit k key)) (Leaf k v) (Leaf key value))"
| "insert_node keccak (Branch bit_index prefix hash left right) key value =
     (let d = first_diff_bit prefix key
      in if as_u16 d < bit_index
         then make_branch keccak (as_u16 d) (make_branch keccak bit_index left right) (Leaf key value)
         else if key_bit key bit_index = 0
         then make_branch keccak bit_index (insert_node keccak left key value) right
         else make_branch keccak bit_index left (insert_node keccak right key value))"

fun remove_node :: "(bytes \<Rightarrow> hash) \<Rightarrow> node \<Rightarrow> hash \<Rightarrow> node option" where
  "remove_node keccak (Leaf k v) key = (if k = key then None else Some (Leaf k v))"
| "remove_node keccak (Branch bit_index prefix hash left right) key =
     (let d = first_diff_bit prefix key
      in if as_u16 d < bit_index then Some (make_branch keccak bit_index left right)
         else if key_bit key bit_index = 0
         then (case remove_node keccak left key of
             None \<Rightarrow> Some right
           | Some new_left \<Rightarrow> Some (make_branch keccak bit_index new_left right))
         else (case remove_node keccak right key of
             None \<Rightarrow> Some left
           | Some new_right \<Rightarrow> Some (make_branch keccak bit_index left new_right)))"

record merkle_trie =
  mt_root :: "node option"

definition trie_new :: merkle_trie where
  "trie_new = \<lparr>mt_root = None\<rparr>"

definition trie_insert :: "(bytes \<Rightarrow> hash) \<Rightarrow> hash \<Rightarrow> hash \<Rightarrow> merkle_trie \<Rightarrow> merkle_trie" where
  "trie_insert keccak key value t =
     t\<lparr>mt_root := Some (case mt_root t of
         None \<Rightarrow> Leaf key value
       | Some node \<Rightarrow> insert_node keccak node key value)\<rparr>"

definition trie_remove :: "(bytes \<Rightarrow> hash) \<Rightarrow> hash \<Rightarrow> merkle_trie \<Rightarrow> merkle_trie" where
  "trie_remove keccak key t =
     (case mt_root t of
        None \<Rightarrow> t
      | Some node \<Rightarrow> t\<lparr>mt_root := remove_node keccak node key\<rparr>)"

definition root_hash :: "(bytes \<Rightarrow> hash) \<Rightarrow> merkle_trie \<Rightarrow> hash" where
  "root_hash keccak t = (case mt_root t of None \<Rightarrow> EMPTY_ROOT | Some node \<Rightarrow> node_hash keccak node)"

section \<open>Bits of a key\<close>

text \<open>The bits of a key as truth values, and two keys that agree below a bit.\<close>

definition kbit :: "hash \<Rightarrow> nat \<Rightarrow> bool" where
  "kbit k i = bit (k ! (i div 8)) (7 - i mod 8)"

definition agree :: "nat \<Rightarrow> hash \<Rightarrow> hash \<Rightarrow> bool" where
  "agree n k k' = (\<forall>i<n. kbit k i = kbit k' i)"

lemma key_bit_eq_0: "key_bit k i = 0 \<longleftrightarrow> \<not> kbit k i"
proof -
  have "i AND 7 = i mod 8"
    using take_bit_eq_mask [of 3 i] by (simp add: take_bit_eq_mod mask_eq_exp_minus_1)
  moreover have "drop_bit 3 i = i div 8"
    by (simp add: drop_bit_eq_div)
  ultimately show ?thesis
    by (simp add: key_bit_def kbit_def bit_iff_odd_drop_bit and_one_eq odd_iff_mod_2_eq_one)
qed

lemma agree_refl [simp]: "agree n k k"
  by (simp add: agree_def)

lemma agree_sym: "agree n k k' \<Longrightarrow> agree n k' k"
  by (simp add: agree_def)

lemma agree_trans: "agree n k k' \<Longrightarrow> agree n k' k'' \<Longrightarrow> agree n k k''"
  by (simp add: agree_def)

lemma agree_mono: "agree n k k' \<Longrightarrow> m \<le> n \<Longrightarrow> agree m k k'"
  by (simp add: agree_def)

lemma leading_zeros_spec:
  assumes "x \<noteq> 0"
  shows "leading_zeros x < 8 \<and> bit x (7 - leading_zeros x) \<and>
    (\<forall>i<leading_zeros x. \<not> bit x (7 - i))"
proof -
  let ?l = "rev [0..<8]"
  let ?P = "\<lambda>i. \<not> bit x i"
  have l: "?l = [7, 6, 5, 4, 3, 2, 1, 0]" by (simp add: upt_rec numeral_eq_Suc)
  then have lz: "leading_zeros x = length (takeWhile ?P ?l)"
    by (simp only: leading_zeros_def)
  have nth: "i < 8 \<Longrightarrow> ?l ! i = 7 - i" for i
    by (subst rev_nth) auto
  have "\<exists>i<8. bit x i"
  proof (rule ccontr)
    assume "\<not> (\<exists>i<8. bit x i)"
    then have "x = 0" by (intro bit_word_eqI) auto
    with assms show False by simp
  qed
  then have "\<not> (\<forall>i \<in> set ?l. ?P i)" by auto
  then have "takeWhile ?P ?l \<noteq> ?l" by (metis takeWhile_eq_all_conv)
  then have less: "length (takeWhile ?P ?l) < length ?l"
    by (metis length_takeWhile_le nat_less_le takeWhile_eq_take take_all_iff)
  moreover have "bit x (?l ! length (takeWhile ?P ?l))"
    using nth_length_takeWhile [OF less] by simp
  moreover have "\<not> bit x (?l ! i)" if "i < length (takeWhile ?P ?l)" for i
    using takeWhile_nth [OF that] nth_mem [OF that] set_takeWhileD by metis
  ultimately show ?thesis using nth by (auto simp: lz)
qed

lemma xor_eq_zero: "a XOR b = 0 \<Longrightarrow> a = b" for a b :: byte
  by (metis xor.assoc xor.left_neutral xor_self_eq)

lemma kbit_Cons: "kbit (a # as) i = (if i < 8 then bit a (7 - i) else kbit as (i - 8))"
proof (cases "i < 8")
  case True
  then show ?thesis by (simp add: kbit_def)
next
  case False
  then have "i div 8 = Suc ((i - 8) div 8)" "i mod 8 = (i - 8) mod 8"
    by (simp_all add: le_div_geq le_mod_geq)
  with False show ?thesis by (simp add: kbit_def)
qed

lemma first_diff_loop_spec:
  assumes "length as = length bs" "as \<noteq> bs"
  shows "\<exists>d. first_diff_loop n as bs = n * 8 + d \<and> d < 8 * length as \<and>
    kbit as d \<noteq> kbit bs d \<and> agree d as bs"
  using assms
proof (induction as bs arbitrary: n rule: list_induct2)
  case Nil
  then show ?case by simp
next
  case (Cons a as b bs)
  show ?case
  proof (cases "a = b")
    case True
    with Cons obtain d where d: "first_diff_loop (n + 1) as bs = (n + 1) * 8 + d"
        "d < 8 * length as" "kbit as d \<noteq> kbit bs d" "agree d as bs"
      by metis
    show ?thesis
      by (rule exI [of _ "d + 8"]) (use True d in \<open>auto simp: kbit_Cons agree_def\<close>)
  next
    case False
    then have lz: "leading_zeros (a XOR b) < 8" "bit (a XOR b) (7 - leading_zeros (a XOR b))"
        "\<forall>i<leading_zeros (a XOR b). \<not> bit (a XOR b) (7 - i)"
      using leading_zeros_spec [of "a XOR b"] xor_eq_zero [of a b] by blast+
    show ?thesis
      by (rule exI [of _ "leading_zeros (a XOR b)"])
        (use False lz in \<open>auto simp: kbit_Cons agree_def bit_xor_iff\<close>)
  qed
qed

lemma first_diff_loop_same: "first_diff_loop n as as = KEY_BITS"
  by (induction as arbitrary: n) simp_all

text \<open>What \<open>first_diff_bit\<close> computes on keys of 32 bytes.\<close>

lemma first_diff_bit_spec:
  assumes "length a = 32" "length b = 32" "a \<noteq> b"
  shows "first_diff_bit a b < 256" "kbit a (first_diff_bit a b) \<noteq> kbit b (first_diff_bit a b)"
    "agree (first_diff_bit a b) a b"
  using first_diff_loop_spec [of a b 0] assms by (auto simp: first_diff_bit_def)

lemma first_diff_bit_as_u16:
  assumes "length a = 32" "length b = 32"
  shows "as_u16 (first_diff_bit a b) = first_diff_bit a b"
proof (cases "a = b")
  case True
  then show ?thesis by (simp add: first_diff_bit_def first_diff_loop_same KEY_BITS_def as_u16_def)
next
  case False
  with assms first_diff_bit_spec(1) [of a b] show ?thesis by (simp add: as_u16_def)
qed

lemma agree_below_first_diff:
  assumes "length a = 32" "length b = 32" "n \<le> first_diff_bit a b"
  shows "agree n a b"
  using assms first_diff_bit_spec(3) [of a b] by (cases "a = b") (auto intro: agree_mono)

section \<open>The map a tree stands for\<close>

fun contents :: "node \<Rightarrow> hash \<rightharpoonup> hash" where
  "contents (Leaf k v) = [k \<mapsto> v]"
| "contents (Branch i p h l r) = contents l ++ contents r"

abbreviation keys :: "node \<Rightarrow> hash set" where
  "keys t \<equiv> dom (contents t)"

text \<open>Two sets of keys part at bit \<open>i\<close>: all agree below it, and the sets differ there.\<close>

definition parts_at :: "nat \<Rightarrow> hash set \<Rightarrow> hash set \<Rightarrow> bool" where
  "parts_at i A B \<longleftrightarrow> i < 256 \<and> (\<forall>a \<in> A \<union> B. \<forall>b \<in> A \<union> B. agree i a b) \<and>
     (\<forall>a \<in> A. \<forall>b \<in> B. kbit a i \<noteq> kbit b i)"

text \<open>
  The invariant: 32-byte leaves; the subtrees of a branch part at its bit, zeros on the left; its
  prefix is the leftmost key and its stored hash is the hash of the stored hashes below.
\<close>

fun trie_ok :: "(bytes \<Rightarrow> hash) \<Rightarrow> node \<Rightarrow> bool" where
  "trie_ok keccak (Leaf k v) \<longleftrightarrow> length k = 32 \<and> length v = 32"
| "trie_ok keccak (Branch i p h l r) \<longleftrightarrow>
     parts_at i (keys l) (keys r) \<and> \<not> kbit p i \<and> p = rep_key l \<and>
     h = branch_hash keccak (node_hash keccak l) (node_hash keccak r) \<and>
     trie_ok keccak l \<and> trie_ok keccak r"

lemma parts_at_sym: "parts_at i A B \<Longrightarrow> parts_at i B A"
  by (auto simp: parts_at_def)

lemma parts_at_disjoint: "parts_at i A B \<Longrightarrow> A \<inter> B = {}"
  by (auto simp: parts_at_def)

text \<open>One zero on the left fixes the bit of every key.\<close>

lemma parts_at_zeros:
  assumes "parts_at i A B" "p \<in> A" "b \<in> B" "\<not> kbit p i"
  shows "\<forall>k \<in> A. \<not> kbit k i" "\<forall>k \<in> B. kbit k i"
proof -
  have diff: "\<forall>a \<in> A. \<forall>b \<in> B. kbit a i \<noteq> kbit b i" using assms(1) by (simp add: parts_at_def)
  show ones: "\<forall>k \<in> B. kbit k i" using diff assms(2,4) by blast
  show "\<forall>k \<in> A. \<not> kbit k i" using diff ones assms(3) by blast
qed

lemma parts_at_split:
  assumes "parts_at i A B" "p \<in> A" "b \<in> B" "\<not> kbit p i"
  shows "A = {k \<in> A \<union> B. \<not> kbit k i}" "B = {k \<in> A \<union> B. kbit k i}"
  using parts_at_zeros [OF assms] by blast+

lemma rep_key_in_keys: "trie_ok keccak t \<Longrightarrow> rep_key t \<in> keys t"
  by (induction t) auto

lemma keys_length: "trie_ok keccak t \<Longrightarrow> k \<in> keys t \<Longrightarrow> length k = 32"
  by (induction t) (auto split: if_splits)

lemma values_length: "trie_ok keccak t \<Longrightarrow> contents t k = Some v \<Longrightarrow> length v = 32"
  by (induction t) (auto simp: map_add_Some_iff split: if_splits)

lemma make_branch_ok:
  assumes ok: "trie_ok keccak a" "trie_ok keccak b" and parts: "parts_at i (keys a) (keys b)"
  shows "trie_ok keccak (make_branch keccak i a b) \<and>
    contents (make_branch keccak i a b) = contents a ++ contents b"
proof -
  have "rep_key a \<in> keys a" "rep_key b \<in> keys b" using ok by (simp_all add: rep_key_in_keys)
  then have "kbit (rep_key a) i \<noteq> kbit (rep_key b) i" using parts by (auto simp: parts_at_def)
  moreover have "contents b ++ contents a = contents a ++ contents b"
    using parts_at_disjoint [OF parts] by (metis map_add_comm)
  ultimately show ?thesis
    using ok parts parts_at_sym [OF parts] by (auto simp: make_branch_def Let_def key_bit_eq_0)
qed

lemma make_branch_again:
  "trie_ok keccak (Branch i p h l r) \<Longrightarrow> make_branch keccak i l r = Branch i p h l r"
  by (auto simp: make_branch_def key_bit_eq_0)

section \<open>Insertion and removal are map update and deletion\<close>

lemma parts_at_singleton:
  assumes "k \<notin> A" "p \<in> A" "length p = 32" "length k = 32"
    and near: "\<forall>a \<in> A. agree n a p" and "first_diff_bit p k < n"
  shows "parts_at (first_diff_bit p k) A {k}"
proof -
  let ?d = "first_diff_bit p k"
  have "p \<noteq> k" using assms(1,2) by blast
  then have diff: "?d < 256" "kbit p ?d \<noteq> kbit k ?d" "agree ?d p k"
    using first_diff_bit_spec assms(3,4) by blast+
  have low: "agree ?d a p" and at: "kbit a ?d = kbit p ?d" if "a \<in> A" for a
    using near that assms(6) by (simp_all add: agree_def)
  have "agree ?d a k" if "a \<in> A" for a using low [OF that] diff(3) agree_trans by blast
  then have "agree ?d a b" if "a \<in> A \<union> {k}" "b \<in> A \<union> {k}" for a b
    using that by (metis UnE agree_refl agree_sym agree_trans singletonD)
  then show ?thesis using at diff by (auto simp: parts_at_def)
qed

text \<open>Below a branch whose bits the key shares, the key joins the side its bit names.\<close>

lemma parts_at_insert:
  assumes "parts_at i A B" "p \<in> A" "b \<in> B" "\<not> kbit p i" "agree i p k"
  shows "\<not> kbit k i \<Longrightarrow> parts_at i (insert k A) B" "kbit k i \<Longrightarrow> parts_at i A (insert k B)"
proof -
  have "agree i a k" if "a \<in> A \<union> B" for a
    using assms(1,2,5) that unfolding parts_at_def by (meson UnI1 agree_trans)
  then have near: "agree i a b" if "a \<in> insert k (A \<union> B)" "b \<in> insert k (A \<union> B)" for a b
    using that by (metis agree_refl agree_sym agree_trans insertE)
  note zeros = parts_at_zeros [OF assms(1-4)]
  show "\<not> kbit k i \<Longrightarrow> parts_at i (insert k A) B" "kbit k i \<Longrightarrow> parts_at i A (insert k B)"
    using assms(1) near zeros unfolding parts_at_def by auto
qed

lemma insert_node_ok:
  assumes "trie_ok keccak t" "length key = 32" "length value = 32"
  shows "trie_ok keccak (insert_node keccak t key value) \<and>
    contents (insert_node keccak t key value) = (contents t)(key \<mapsto> value)"
  using assms
proof (induction t)
  case (Leaf k v)
  show ?case
  proof (cases "k = key")
    case True
    with Leaf show ?thesis by (simp add: fun_eq_iff)
  next
    case False
    have "parts_at (first_diff_bit k key) {k} {key}"
      using parts_at_singleton [of key "{k}" k "Suc (first_diff_bit k key)"] False Leaf by simp
    with False Leaf show ?thesis
      using make_branch_ok [of keccak "Leaf k v" "Leaf key value" "first_diff_bit k key"]
      by (auto simp: first_diff_bit_as_u16)
  qed
next
  case (Branch i p h l r)
  let ?d = "first_diff_bit p key" and ?t = "Branch i p h l r"
  have ok: "trie_ok keccak l" "trie_ok keccak r" and parts: "parts_at i (keys l) (keys r)"
    and p: "p = rep_key l" "\<not> kbit p i" using Branch.prems by auto
  have in_l: "p \<in> keys l" and in_r: "rep_key r \<in> keys r" using ok p by (simp_all add: rep_key_in_keys)
  have len: "length p = 32" using keys_length [OF ok(1) in_l] .
  have d: "as_u16 ?d = ?d" using first_diff_bit_as_u16 len Branch.prems by blast
  have zeros: "\<forall>a \<in> keys l. \<not> kbit a i" "\<forall>b \<in> keys r. kbit b i"
    using parts_at_zeros [OF parts in_l in_r p(2)] .
  show ?case
  proof (cases "?d < i")
    case True
    have near: "\<forall>a \<in> keys ?t. agree i a p" using parts in_l by (auto simp: parts_at_def)
    have "i < 256" using parts by (simp add: parts_at_def)
    then have "p \<noteq> key"
      using True by (auto simp: first_diff_bit_def first_diff_loop_same KEY_BITS_def)
    then have "kbit p ?d \<noteq> kbit key ?d"
      using first_diff_bit_spec(2) len Branch.prems(2) by blast
    then have "key \<notin> keys ?t" using near True by (auto simp: agree_def)
    then have "parts_at ?d (keys ?t) {key}"
      using parts_at_singleton [of key "keys ?t" p i] near True len in_l Branch.prems by auto
    then show ?thesis
      using make_branch_ok [of keccak ?t "Leaf key value" ?d] Branch.prems True d
      by (auto simp: make_branch_again [OF Branch.prems(1)] Let_def)
  next
    case False
    then have a: "agree i p key" using agree_below_first_diff len Branch.prems by simp
    note join = parts_at_insert [OF parts in_l in_r p(2) a]
    show ?thesis
    proof (cases "kbit key i")
      case True
      let ?r = "insert_node keccak r key value"
      have sub: "trie_ok keccak ?r" "contents ?r = (contents r)(key \<mapsto> value)"
        using Branch.IH(2) [OF ok(2) Branch.prems(2,3)] by blast+
      then have "keys ?r = insert key (keys r)" by simp
      then show ?thesis
        using True False d make_branch_ok [OF ok(1) sub(1), of i] join(2) sub(2)
        by (simp add: Let_def key_bit_eq_0)
    next
      case high: False
      let ?l = "insert_node keccak l key value"
      have sub: "trie_ok keccak ?l" "contents ?l = (contents l)(key \<mapsto> value)"
        using Branch.IH(1) [OF ok(1) Branch.prems(2,3)] by blast+
      then have "keys ?l = insert key (keys l)" by simp
      moreover have "key \<notin> keys r" using zeros high by blast
      then have "(contents l)(key \<mapsto> value) ++ contents r = (contents l ++ contents r)(key \<mapsto> value)"
        by (auto simp: map_add_def fun_eq_iff split: option.split)
      ultimately show ?thesis
        using high False d make_branch_ok [OF sub(1) ok(2), of i] join(1) sub(2)
        by (simp add: Let_def key_bit_eq_0)
    qed
  qed
qed

text \<open>Removal; a branch that loses a side is replaced by the other side.\<close>

lemma parts_at_subset: "parts_at i A B \<Longrightarrow> A' \<subseteq> A \<Longrightarrow> B' \<subseteq> B \<Longrightarrow> parts_at i A' B'"
  unfolding parts_at_def by blast

lemma map_add_delete_left: "k \<notin> dom n \<Longrightarrow> (m(k := None)) ++ n = (m ++ n)(k := None)"
  by (auto simp: map_add_def fun_eq_iff split: option.split)

lemma map_add_delete_right: "k \<notin> dom m \<Longrightarrow> m ++ n(k := None) = (m ++ n)(k := None)"
  by (auto simp: map_add_def fun_eq_iff split: option.split)

lemma remove_node_ok:
  assumes "trie_ok keccak t" "length key = 32"
  shows "case remove_node keccak t key of
      None \<Rightarrow> (contents t)(key := None) = Map.empty
    | Some t' \<Rightarrow> trie_ok keccak t' \<and> contents t' = (contents t)(key := None)"
  using assms
proof (induction t)
  case (Leaf k v)
  then show ?case by auto
next
  case (Branch i p h l r)
  let ?d = "first_diff_bit p key" and ?t = "Branch i p h l r"
  have ok: "trie_ok keccak l" "trie_ok keccak r" and parts: "parts_at i (keys l) (keys r)"
    and p: "p = rep_key l" "\<not> kbit p i" using Branch.prems by auto
  have in_l: "p \<in> keys l" and in_r: "rep_key r \<in> keys r" using ok p by (simp_all add: rep_key_in_keys)
  have len: "length p = 32" using keys_length [OF ok(1) in_l] .
  have d: "as_u16 ?d = ?d" using first_diff_bit_as_u16 len Branch.prems by blast
  note zeros = parts_at_zeros [OF parts in_l in_r p(2)]
  show ?case
  proof (cases "?d < i")
    case True
    have near: "\<forall>a \<in> keys ?t. agree i a p" using parts in_l by (auto simp: parts_at_def)
    have "i < 256" using parts by (simp add: parts_at_def)
    then have "p \<noteq> key"
      using True by (auto simp: first_diff_bit_def first_diff_loop_same KEY_BITS_def)
    then have "kbit p ?d \<noteq> kbit key ?d"
      using first_diff_bit_spec(2) len Branch.prems(2) by blast
    then have "key \<notin> keys ?t" using near True by (auto simp: agree_def)
    then have "(contents ?t)(key := None) = contents ?t" by (auto simp: fun_eq_iff)
    moreover have "remove_node keccak ?t key = Some ?t"
      by (simp only: remove_node.simps Let_def d True if_True make_branch_again [OF Branch.prems(1)])
    ultimately show ?thesis
      using Branch.prems(1) by (simp del: remove_node.simps trie_ok.simps contents.simps)
  next
    case False
    show ?thesis
    proof (cases "kbit key i")
      case True
      then have out: "key \<notin> keys l" using zeros by blast
      show ?thesis
      proof (cases "remove_node keccak r key")
        case None
        then have "(contents r)(key := None) = Map.empty"
          using Branch.IH(2) [OF ok(2) Branch.prems(2)] by simp
        then show ?thesis
          using None True False d ok map_add_delete_right [OF out, of "contents r"]
          by (simp add: Let_def key_bit_eq_0)
      next
        case (Some r')
        then have sub: "trie_ok keccak r'" "contents r' = (contents r)(key := None)"
          using Branch.IH(2) [OF ok(2) Branch.prems(2)] by simp_all
        then have "parts_at i (keys l) (keys r')" by (auto intro: parts_at_subset [OF parts])
        then show ?thesis
          using Some True False d make_branch_ok [OF ok(1) sub(1)] sub(2)
            map_add_delete_right [OF out, of "contents r"]
          by (simp add: Let_def key_bit_eq_0)
      qed
    next
      case high: False
      then have out: "key \<notin> keys r" using zeros by blast
      show ?thesis
      proof (cases "remove_node keccak l key")
        case None
        then have "(contents l)(key := None) = Map.empty"
          using Branch.IH(1) [OF ok(1) Branch.prems(2)] by simp
        then show ?thesis
          using None high False d ok map_add_delete_left [OF out, of "contents l"]
          by (simp add: Let_def key_bit_eq_0)
      next
        case (Some l')
        then have sub: "trie_ok keccak l'" "contents l' = (contents l)(key := None)"
          using Branch.IH(1) [OF ok(1) Branch.prems(2)] by simp_all
        then have "parts_at i (keys l') (keys r)" by (auto intro: parts_at_subset [OF parts])
        then show ?thesis
          using Some high False d make_branch_ok [OF sub(1) ok(2)] sub(2)
            map_add_delete_left [OF out, of "contents l"]
          by (simp add: Let_def key_bit_eq_0)
      qed
    qed
  qed
qed

section \<open>Canonicity: the tree is a function of the map\<close>

lemma branch_two_keys:
  assumes "trie_ok keccak (Branch i p h l r)"
  shows "\<exists>a \<in> keys l. \<exists>b \<in> keys r. kbit a i \<noteq> kbit b i"
  using assms rep_key_in_keys [of keccak l] rep_key_in_keys [of keccak r]
  by (auto simp: parts_at_def)

lemma branch_not_single:
  assumes "trie_ok keccak (Branch i p h l r)"
  shows "contents (Branch i p h l r) \<noteq> [k \<mapsto> v]"
proof
  assume single: "contents (Branch i p h l r) = [k \<mapsto> v]"
  obtain a b where ab: "a \<in> keys l" "b \<in> keys r" "kbit a i \<noteq> kbit b i"
    using branch_two_keys [OF assms] by blast
  have "keys (Branch i p h l r) = {k}" by (simp only: single) simp
  then have "a = k" "b = k" using ab(1,2) by auto
  with ab(3) show False by simp
qed

lemma same_part_bit:
  assumes "parts_at i A B" "parts_at j A' B'" "A \<union> B = A' \<union> B'" "a \<in> A" "b \<in> B"
  shows "\<not> i < j"
  using assms unfolding parts_at_def agree_def by (metis UnCI)

lemma contents_restrict:
  assumes "trie_ok keccak (Branch i p h l r)"
  shows "contents l = contents (Branch i p h l r) |` keys l"
    "contents r = contents (Branch i p h l r) |` keys r"
proof -
  have "keys l \<inter> keys r = {}" using assms by (auto dest: parts_at_disjoint)
  then show "contents l = contents (Branch i p h l r) |` keys l"
    "contents r = contents (Branch i p h l r) |` keys r"
    by (auto simp: fun_eq_iff restrict_map_def map_add_def split: option.split)
qed

lemma trie_canonical:
  assumes "trie_ok keccak t" "trie_ok keccak t'" "contents t = contents t'"
  shows "t = t'"
  using assms
proof (induction t arbitrary: t')
  case (Leaf k v)
  show ?case
  proof (cases t')
    case t': (Leaf k' v')
    have same: "[k \<mapsto> v] = [k' \<mapsto> v']" using Leaf.prems(3) unfolding t' contents.simps .
    then have "k = k'" by (metis fun_upd_apply option.distinct(1))
    moreover from same have "v = v'" by (metis calculation fun_upd_same option.inject)
    ultimately show ?thesis by (simp add: t')
  next
    case t': (Branch j p' h' l' r')
    have "contents t' = [k \<mapsto> v]" using Leaf.prems(3) by (metis contents.simps(1))
    with branch_not_single Leaf.prems(2) t' show ?thesis by blast
  qed
next
  case (Branch i p h l r)
  show ?case
  proof (cases t')
    case t': (Leaf k v)
    have "contents (Branch i p h l r) = [k \<mapsto> v]"
      using Branch.prems(3) unfolding t' contents.simps(1) .
    with branch_not_single [OF Branch.prems(1)] show ?thesis by blast
  next
    case t': (Branch j p' h' l' r')
    note prems = Branch.prems [unfolded t']
    have parts: "parts_at i (keys l) (keys r)" "parts_at j (keys l') (keys r')"
      using prems by simp_all
    have dom: "keys l \<union> keys r = keys l' \<union> keys r'"
      using arg_cong [OF prems(3), of dom] by (simp add: Un_commute)
    have reps: "rep_key l \<in> keys l" "rep_key r \<in> keys r" "rep_key l' \<in> keys l'" "rep_key r' \<in> keys r'"
      using prems rep_key_in_keys [of keccak] unfolding trie_ok.simps by blast+
    have "i = j"
      using same_part_bit [OF parts dom reps(1,2)] same_part_bit [OF parts(2,1) dom [symmetric] reps(3,4)]
      by simp
    have low: "\<not> kbit (rep_key l) i" "\<not> kbit (rep_key l') i" using prems \<open>i = j\<close> by auto
    have "keys l = keys l'" "keys r = keys r'"
      using parts_at_split [OF parts(1) reps(1,2) low(1), unfolded dom]
        parts_at_split [OF parts(2) reps(3,4)] low(2) \<open>i = j\<close> by metis+
    then have "contents l = contents l'" "contents r = contents r'"
      using contents_restrict [OF prems(1)] contents_restrict [OF prems(2)] prems(3) by simp_all
    then have "l = l'" "r = r'" using Branch.IH prems by simp_all
    with \<open>i = j\<close> prems t' show ?thesis by simp
  qed
qed

section \<open>The root binds the contents\<close>

text \<open>
  The strings a tree hashes. The root binds the contents as far as \<open>keccak\<close> has no collision among
  them: one byte tells leaves from branches, and the pieces have 32 bytes each.
\<close>

fun preimages :: "(bytes \<Rightarrow> hash) \<Rightarrow> node \<Rightarrow> bytes set" where
  "preimages keccak (Leaf k v) = {[0] @ k @ v}"
| "preimages keccak (Branch i p h l r) =
     insert ([1] @ node_hash keccak l @ node_hash keccak r)
       (preimages keccak l \<union> preimages keccak r)"

definition collision :: "(bytes \<Rightarrow> hash) \<Rightarrow> bytes set \<Rightarrow> bytes set \<Rightarrow> bool" where
  "collision keccak X Y = (\<exists>x \<in> X. \<exists>y \<in> Y. x \<noteq> y \<and> keccak x = keccak y)"

definition root_string :: "(bytes \<Rightarrow> hash) \<Rightarrow> node \<Rightarrow> bytes" where
  "root_string keccak t = (case t of Leaf k v \<Rightarrow> [0] @ k @ v
     | Branch i p h l r \<Rightarrow> [1] @ node_hash keccak l @ node_hash keccak r)"

lemma root_string_preimage: "root_string keccak t \<in> preimages keccak t"
  by (cases t) (simp_all add: root_string_def)

lemma node_hash_keccak: "trie_ok keccak t \<Longrightarrow> node_hash keccak t = keccak (root_string keccak t)"
  by (cases t) (auto simp: root_string_def leaf_hash_def branch_hash_def)

lemma collision_mono: "collision keccak X Y \<Longrightarrow> X \<subseteq> X' \<Longrightarrow> Y \<subseteq> Y' \<Longrightarrow> collision keccak X' Y'"
  unfolding collision_def by blast

lemma node_hash_binds:
  assumes "\<And>x. length (keccak x) = 32" "trie_ok keccak t" "trie_ok keccak t'"
    and "node_hash keccak t = node_hash keccak t'"
    and free: "\<not> collision keccak (preimages keccak t) (preimages keccak t')"
  shows "t = t'"
  using assms(2-)
proof (induction t arbitrary: t')
  case (Leaf k v)
  have "root_string keccak (Leaf k v) = root_string keccak t'"
    using Leaf.prems root_string_preimage node_hash_keccak unfolding collision_def by metis
  with Leaf.prems(1,2) show ?case by (cases t') (auto simp: root_string_def)
next
  case (Branch i p h l r)
  have "root_string keccak (Branch i p h l r) = root_string keccak t'"
    using Branch.prems root_string_preimage node_hash_keccak unfolding collision_def by metis
  then obtain j p' h' l' r' where t': "t' = Branch j p' h' l' r'"
    and app: "node_hash keccak l @ node_hash keccak r = node_hash keccak l' @ node_hash keccak r'"
    by (cases t') (auto simp: root_string_def)
  note prems = Branch.prems [unfolded t']
  have ok: "trie_ok keccak l" "trie_ok keccak r" "trie_ok keccak l'" "trie_ok keccak r'"
    using prems(1,2) by simp_all
  then have "length (node_hash keccak l) = length (node_hash keccak l')"
    by (simp add: node_hash_keccak assms(1))
  then have "node_hash keccak l = node_hash keccak l'" "node_hash keccak r = node_hash keccak r'"
    using app by simp_all
  moreover have "\<not> collision keccak (preimages keccak l) (preimages keccak l')"
    "\<not> collision keccak (preimages keccak r) (preimages keccak r')"
    using prems(4) by (auto intro: collision_mono)
  ultimately have "l = l'" "r = r'" using Branch.IH ok by blast+
  then have "contents (Branch i p h l r) = contents t'" by (simp add: t')
  then show ?case using trie_canonical Branch.prems(1,2) by blast
qed

section \<open>The interface of a sealed map\<close>

text \<open>
  What the account state asks of its commitment: a map with insertion and removal, and a seal that
  is a function of the map. The lemmas follow runs of operations.
\<close>

datatype ('k, 'v) map_op = Put 'k 'v | Del 'k

fun map_ops :: "('k, 'v) map_op list \<Rightarrow> ('k \<rightharpoonup> 'v) \<Rightarrow> ('k \<rightharpoonup> 'v)" where
  "map_ops [] m = m"
| "map_ops (Put k v # ops) m = map_ops ops (m(k \<mapsto> v))"
| "map_ops (Del k # ops) m = map_ops ops (m(k := None))"

fun run_ops :: "('k \<Rightarrow> 'v \<Rightarrow> 's \<Rightarrow> 's) \<Rightarrow> ('k \<Rightarrow> 's \<Rightarrow> 's) \<Rightarrow> ('k, 'v) map_op list \<Rightarrow> 's \<Rightarrow> 's" where
  "run_ops put del [] s = s"
| "run_ops put del (Put k v # ops) s = run_ops put del ops (put k v s)"
| "run_ops put del (Del k # ops) s = run_ops put del ops (del k s)"

locale sealed_map =
  fixes view :: "'s \<Rightarrow> 'k \<rightharpoonup> 'v"
    and inv :: "'s \<Rightarrow> bool"
    and good :: "('k, 'v) map_op \<Rightarrow> bool"
    and empty :: 's
    and put :: "'k \<Rightarrow> 'v \<Rightarrow> 's \<Rightarrow> 's"
    and del :: "'k \<Rightarrow> 's \<Rightarrow> 's"
    and seal :: "'s \<Rightarrow> 'd"
  assumes inv_empty: "inv empty"
    and view_empty: "view empty = Map.empty"
    and put_ok: "inv s \<Longrightarrow> good (Put k v) \<Longrightarrow> inv (put k v s) \<and> view (put k v s) = (view s)(k \<mapsto> v)"
    and del_ok: "inv s \<Longrightarrow> good (Del k) \<Longrightarrow> inv (del k s) \<and> view (del k s) = (view s)(k := None)"
    and seal_view: "inv s \<Longrightarrow> inv s' \<Longrightarrow> view s = view s' \<Longrightarrow> seal s = seal s'"
begin

lemma run_ok:
  "inv s \<Longrightarrow> list_all good ops \<Longrightarrow>
    inv (run_ops put del ops s) \<and> view (run_ops put del ops s) = map_ops ops (view s)"
proof (induction ops arbitrary: s)
  case Nil
  then show ?case by simp
next
  case (Cons x ops)
  then show ?case by (cases x) (simp_all add: put_ok del_ok)
qed

lemma seal_of_map:
  assumes "list_all good ops" "list_all good ops'"
    and "map_ops ops Map.empty = map_ops ops' Map.empty"
  shows "seal (run_ops put del ops empty) = seal (run_ops put del ops' empty)"
  using run_ok [OF inv_empty] assms by (intro seal_view) (simp_all add: view_empty)

end

definition trie_view :: "merkle_trie \<Rightarrow> hash \<rightharpoonup> hash" where
  "trie_view t = (case mt_root t of None \<Rightarrow> Map.empty | Some node \<Rightarrow> contents node)"

definition trie_inv :: "(bytes \<Rightarrow> hash) \<Rightarrow> merkle_trie \<Rightarrow> bool" where
  "trie_inv keccak t = (case mt_root t of None \<Rightarrow> True | Some node \<Rightarrow> trie_ok keccak node)"

fun hash_op :: "(hash, hash) map_op \<Rightarrow> bool" where
  "hash_op (Put k v) \<longleftrightarrow> length k = 32 \<and> length v = 32"
| "hash_op (Del k) \<longleftrightarrow> length k = 32"

lemma trie_insert_ok:
  assumes "trie_inv keccak t" "length k = 32" "length v = 32"
  shows "trie_inv keccak (trie_insert keccak k v t) \<and>
    trie_view (trie_insert keccak k v t) = (trie_view t)(k \<mapsto> v)"
  using assms insert_node_ok [of keccak _ k v]
  by (auto simp: trie_inv_def trie_view_def trie_insert_def split: option.split)

lemma trie_remove_ok:
  assumes "trie_inv keccak t" "length k = 32"
  shows "trie_inv keccak (trie_remove keccak k t) \<and>
    trie_view (trie_remove keccak k t) = (trie_view t)(k := None)"
proof (cases "mt_root t")
  case None
  then show ?thesis by (auto simp: trie_inv_def trie_view_def trie_remove_def)
next
  case (Some node)
  then show ?thesis
    using assms remove_node_ok [of keccak node k]
    by (cases "remove_node keccak node k") (auto simp: trie_inv_def trie_view_def trie_remove_def)
qed

lemma contents_nonempty: "trie_ok keccak t \<Longrightarrow> contents t \<noteq> Map.empty"
  using rep_key_in_keys by fastforce

lemma trie_eq_of_view:
  assumes "trie_inv keccak t" "trie_inv keccak t'" "trie_view t = trie_view t'"
  shows "t = t'"
  using assms trie_canonical contents_nonempty
  by (cases t; cases t') (fastforce simp: trie_inv_def trie_view_def split: option.splits)

interpretation seal: sealed_map trie_view "trie_inv keccak" hash_op trie_new
    "trie_insert keccak" "trie_remove keccak" "root_hash keccak" for keccak
proof
  show "root_hash keccak t = root_hash keccak t'"
    if "trie_inv keccak t" "trie_inv keccak t'" "trie_view t = trie_view t'" for t t'
    using trie_eq_of_view [OF that] by simp
qed (simp_all add: trie_inv_def trie_view_def trie_new_def trie_insert_ok [unfolded trie_inv_def trie_view_def]
    trie_remove_ok [unfolded trie_inv_def trie_view_def])

section \<open>Properties\<close>

definition trie_run :: "(bytes \<Rightarrow> hash) \<Rightarrow> (hash, hash) map_op list \<Rightarrow> merkle_trie" where
  "trie_run keccak ops = run_ops (trie_insert keccak) (trie_remove keccak) ops trie_new"

definition trie_strings :: "(bytes \<Rightarrow> hash) \<Rightarrow> merkle_trie \<Rightarrow> bytes set" where
  "trie_strings keccak t = (case mt_root t of None \<Rightarrow> {} | Some node \<Rightarrow> preimages keccak node)"

lemma trie_run_ok:
  "list_all hash_op ops \<Longrightarrow>
    trie_inv keccak (trie_run keccak ops) \<and> trie_view (trie_run keccak ops) = map_ops ops Map.empty"
  using seal.run_ok [of keccak trie_new ops] by (simp add: trie_run_def trie_inv_def trie_view_def trie_new_def)

lemma root_binds_trie:
  assumes "\<And>x. length (keccak x) = 32" "trie_inv keccak t" "trie_inv keccak t'"
    and "root_hash keccak t = root_hash keccak t'"
    and "\<not> collision keccak (trie_strings keccak t) (trie_strings keccak t')"
    and zero: "\<forall>x \<in> trie_strings keccak t \<union> trie_strings keccak t'. keccak x \<noteq> EMPTY_ROOT"
  shows "t = t'"
proof -
  have "node_hash keccak n \<noteq> EMPTY_ROOT" if "mt_root t = Some n \<or> mt_root t' = Some n" for n
    using that assms(2,3) zero root_string_preimage [of keccak n]
    by (auto simp: trie_inv_def trie_strings_def node_hash_keccak)
  with assms node_hash_binds [of keccak] show ?thesis
    by (cases "mt_root t"; cases "mt_root t'"; cases t; cases t')
      (force simp: root_hash_def trie_inv_def trie_strings_def)+
qed

text \<open>
  C11: the state root commits to the accounts: two histories of insertions and removals (32-byte keys
  and values) end in the same root exactly when they end in the same map, as long as the hash has no
  collision, and no preimage of zero, among the strings the two trees hash. So the root depends
  neither on the order of the operations nor on what was overwritten or removed.
\<close>

theorem root_commits_to_map:
  assumes "\<And>x. length (keccak x) = 32"
    and "list_all hash_op ops" and "list_all hash_op ops'"
    and "\<not> collision keccak (trie_strings keccak (trie_run keccak ops)) (trie_strings keccak (trie_run keccak ops'))"
    and "\<forall>x \<in> trie_strings keccak (trie_run keccak ops) \<union> trie_strings keccak (trie_run keccak ops').
      keccak x \<noteq> EMPTY_ROOT"
  shows "root_hash keccak (trie_run keccak ops) = root_hash keccak (trie_run keccak ops') \<longleftrightarrow>
    map_ops ops Map.empty = map_ops ops' Map.empty"
  using root_binds_trie [OF assms(1) _ _ _ assms(4,5)] trie_run_ok [OF assms(2)] trie_run_ok [OF assms(3)]
    seal.seal_of_map [OF assms(2,3), of keccak]
  by (metis trie_run_def)

text \<open>A function to 32 bytes without collisions on the sample strings: their first 32 bytes.\<close>

definition sample_keccak :: "bytes \<Rightarrow> hash" where
  "sample_keccak x = take 32 (x @ replicate 32 1)"

definition sample_key :: "byte \<Rightarrow> hash" where
  "sample_key b = replicate 32 b"

definition sample_history :: "(hash, hash) map_op list" where
  "sample_history = [Put (sample_key 1) (sample_key 9), Put (sample_key 2) (sample_key 8)]"

definition sample_history' :: "(hash, hash) map_op list" where
  "sample_history' = [Put (sample_key 2) (sample_key 7), Put (sample_key 5) (sample_key 3),
     Put (sample_key 2) (sample_key 8), Put (sample_key 1) (sample_key 9), Del (sample_key 5)]"

lemma sample_key_eq [simp]: "sample_key a = sample_key b \<longleftrightarrow> a = b"
  by (simp add: sample_key_def)

lemma length_sample [simp]: "length (sample_key a) = 32" "length (sample_keccak x) = 32"
  by (simp_all add: sample_key_def sample_keccak_def)

lemma sample_hash_ops: "list_all hash_op sample_history" "list_all hash_op sample_history'"
  by (simp_all add: sample_history_def sample_history'_def)

lemma sample_same_map: "map_ops sample_history Map.empty = map_ops sample_history' Map.empty"
  by (auto simp: sample_history_def sample_history'_def)

lemma sample_same_trie: "trie_run sample_keccak sample_history' = trie_run sample_keccak sample_history"
  using trie_eq_of_view trie_run_ok sample_hash_ops sample_same_map by metis

lemma sample_diff: "first_diff_bit (sample_key 1) (sample_key 2) = 6"
  by (simp add: first_diff_bit_def sample_key_def numeral_eq_Suc leading_zeros_def)

lemma sample_trie:
  "mt_root (trie_run sample_keccak sample_history) =
     Some (make_branch sample_keccak 6 (Leaf (sample_key 1) (sample_key 9)) (Leaf (sample_key 2) (sample_key 8)))"
  using sample_diff
  by (simp add: trie_run_def sample_history_def trie_new_def trie_insert_def as_u16_def)

lemma sample_strings:
  "trie_strings sample_keccak (trie_run sample_keccak sample_history) =
     {[1] @ sample_keccak ([0] @ sample_key 1 @ sample_key 9) @ sample_keccak ([0] @ sample_key 2 @ sample_key 8),
      [0] @ sample_key 1 @ sample_key 9, [0] @ sample_key 2 @ sample_key 8}"
proof -
  have "key_bit (sample_key 1) 6 = 0"
    by (simp add: key_bit_eq_0 kbit_def sample_key_def)
  then show ?thesis
    by (auto simp: trie_strings_def sample_trie make_branch_def leaf_hash_def)
qed

lemma sample_hashes:
  "sample_keccak ([0] @ sample_key 1 @ sample_key 9) = 0 # replicate 31 1"
  "sample_keccak ([0] @ sample_key 2 @ sample_key 8) = 0 # replicate 31 2"
  "sample_keccak ([1] @ (0 # replicate 31 1) @ xs) = 1 # 0 # replicate 30 1"
  by (simp_all add: sample_keccak_def sample_key_def numeral_eq_Suc)

lemma sample_no_collision:
  "\<not> collision sample_keccak (trie_strings sample_keccak (trie_run sample_keccak sample_history))
     (trie_strings sample_keccak (trie_run sample_keccak sample_history))"
  unfolding collision_def sample_strings sample_hashes(1)
  using sample_hashes by (auto simp: sample_hashes(2))

theorem root_commits_to_map_witness:
  "root_hash sample_keccak (trie_run sample_keccak sample_history) =
     root_hash sample_keccak (trie_run sample_keccak sample_history')"
  using root_commits_to_map [of sample_keccak sample_history sample_history'] sample_hash_ops
    sample_same_map sample_no_collision sample_same_trie sample_strings sample_hashes
  by (auto simp: EMPTY_ROOT_def)

end
