(* ===== verification/StateManager.thy ===== *)
theory StateManager
  imports StateApi Trie
begin

text \<open>
  The account store of \<open>crates/zagros-state/src/manager.rs\<close>: a write-back cache over a storage
  engine, checkpoints with a journal per transaction, the trie of account leaves with the set of
  addresses whose leaf is stale, and the gate that keeps flushes and open checkpoints apart.

  The maps are association lists and the sets lists without repetition, both in any order (the
  source's \<open>DashMap\<close> iterates in none). \<open>ACTIVE_CHECKPOINT\<close>, a thread-local, is a function of the
  thread. Waiting on the condition variable is the guard of a step: \<open>checkpoint\<close> and \<open>flush\<close> are
  written from the point where the gate lets them pass, and section Gate has the waiting. The
  storage engine is its rows with the faults it answers; bincode and Keccak-256 are the record
  \<open>state_env\<close>.
\<close>

section \<open>State\<close>

type_synonym thread = nat

datatype cache_slot = Present account | Deleted

record cache_entry =
  ce_slot :: cache_slot
  ce_dirty :: bool

record checkpoint_gate =
  open_checkpoints :: nat
  flush_active :: bool

text \<open>\<open>st_fault\<close>: the error a read at a key gives; \<open>st_write_fault\<close>: the error of every write.\<close>

record storage_engine =
  st_rows :: "(address \<times> bytes) list"
  st_fault :: "address \<Rightarrow> zerror option"
  st_write_fault :: "zerror option"

definition st_get :: "storage_engine \<Rightarrow> address \<Rightarrow> bytes option result" where
  "st_get st key = (case st_fault st key of Some e \<Rightarrow> Inl e | None \<Rightarrow> Inr (map_of (st_rows st) key))"

definition st_delete :: "address \<Rightarrow> storage_engine \<Rightarrow> storage_engine result" where
  "st_delete key st =
     (case st_write_fault st of Some e \<Rightarrow> Inl e
      | None \<Rightarrow> Inr (st\<lparr>st_rows := AList.delete key (st_rows st)\<rparr>))"

fun write_rows :: "(address \<times> bytes option) list \<Rightarrow> (address \<times> bytes) list \<Rightarrow> (address \<times> bytes) list" where
  "write_rows [] rows = rows"
| "write_rows ((k, Some v) # kvs) rows = write_rows kvs (AList.update k v rows)"
| "write_rows ((k, None) # kvs) rows = write_rows kvs (AList.delete k rows)"

definition st_write_batch :: "(address \<times> bytes option) list \<Rightarrow> storage_engine \<Rightarrow> storage_engine result" where
  "st_write_batch kvs st =
     (case st_write_fault st of Some e \<Rightarrow> Inl e
      | None \<Rightarrow> Inr (st\<lparr>st_rows := write_rows kvs (st_rows st)\<rparr>))"

record state_env =
  sv_keccak :: "bytes \<Rightarrow> hash"
  sv_serialize :: "account \<Rightarrow> bytes option"
  sv_decoders :: account_decoders

record state_manager =
  sm_cache :: "(address \<times> cache_entry) list"
  sm_storage :: storage_engine
  sm_address_index :: "address list"
  sm_journal :: "(nat \<times> (address \<times> account option) list) list"
  sm_next_checkpoint_id :: nat
  sm_trie :: merkle_trie
  sm_trie_dirty :: "address list"
  sm_gate :: checkpoint_gate
  sm_active :: "thread \<Rightarrow> nat"
  sm_max_cache_entries :: nat

definition DEFAULT_MAX_CACHE_ENTRIES :: nat where
  "DEFAULT_MAX_CACHE_ENTRIES = 2000000"

section \<open>Leaves\<close>

definition account_leaf_key :: "state_env \<Rightarrow> address \<Rightarrow> hash" where
  "account_leaf_key E canonical_address = sv_keccak E (str_bytes canonical_address)"

definition account_leaf_value :: "state_env \<Rightarrow> account \<Rightarrow> hash result" where
  "account_leaf_value E account =
     (case sv_serialize E account of
        None \<Rightarrow> Inl (DatabaseError ''Account serialize (leaf)'')
      | Some bytes \<Rightarrow> Inr (sv_keccak E bytes))"

section \<open>Opening the store\<close>

text \<open>One row of the start-up scan. An \<open>expect\<close> that fails panics.\<close>

definition load_row ::
  "state_env \<Rightarrow> storage_engine \<Rightarrow> address \<Rightarrow> merkle_trie \<times> address list \<Rightarrow> (merkle_trie \<times> address list) result" where
  "load_row E storage key acc =
     (if starts_with key ''0x''
      then (let canonical = canonicalize_address key
            in case st_get storage canonical of
                 Inl e \<Rightarrow> Inl RustPanic
               | Inr None \<Rightarrow> Inl RustPanic
               | Inr (Some bytes) \<Rightarrow>
                   (case deserialize_with_migration (sv_decoders E) bytes of
                      None \<Rightarrow> Inl RustPanic
                    | Some account \<Rightarrow>
                        (case account_leaf_value E account of
                           Inl e \<Rightarrow> Inl RustPanic
                         | Inr leaf_value \<Rightarrow>
                             Inr (trie_insert (sv_keccak E) (account_leaf_key E canonical) leaf_value (fst acc),
                                  List.insert canonical (snd acc)))))
      else Inr acc)"

definition sm_new :: "state_env \<Rightarrow> storage_engine \<Rightarrow> state_manager result" where
  "sm_new E storage =
     try_then (fold_result (load_row E storage) (map fst (st_rows storage)) (trie_new, []))
       (\<lambda>(trie, address_index). Inr
         \<lparr>sm_cache = [], sm_storage = storage, sm_address_index = address_index, sm_journal = [],
          sm_next_checkpoint_id = 1, sm_trie = trie, sm_trie_dirty = [],
          sm_gate = \<lparr>open_checkpoints = 0, flush_active = False\<rparr>, sm_active = (\<lambda>tid. 0),
          sm_max_cache_entries = DEFAULT_MAX_CACHE_ENTRIES\<rparr>)"

definition with_max_cache_entries :: "nat \<Rightarrow> state_manager \<Rightarrow> state_manager" where
  "with_max_cache_entries n s = s\<lparr>sm_max_cache_entries := max n 1\<rparr>"

section \<open>The cache\<close>

definition cache_insert :: "address \<Rightarrow> cache_slot \<Rightarrow> bool \<Rightarrow> state_manager \<Rightarrow> state_manager" where
  "cache_insert address slot dirty s =
     s\<lparr>sm_cache := AList.update address \<lparr>ce_slot = slot, ce_dirty = dirty\<rparr> (sm_cache s)\<rparr>"

fun remove_clean :: "address list \<Rightarrow> (address \<times> cache_entry) list \<Rightarrow> (address \<times> cache_entry) list" where
  "remove_clean [] cache = cache"
| "remove_clean (a # as) cache =
     remove_clean as
       (case map_of cache a of
          None \<Rightarrow> cache
        | Some entry \<Rightarrow> if ce_dirty entry then cache else AList.delete a cache)"

definition maybe_evict_cache :: "state_manager \<Rightarrow> state_manager" where
  "maybe_evict_cache s =
     (if length (sm_cache s) \<le> sm_max_cache_entries s then s
      else (let target = sm_max_cache_entries s * 4 div 5;
                to_remove = length (sm_cache s) - target;
                candidates = take to_remove (map fst (filter (\<lambda>(a, entry). \<not> ce_dirty entry) (sm_cache s)))
            in s\<lparr>sm_cache := remove_clean candidates (sm_cache s)\<rparr>))"

definition slot_account :: "cache_slot \<Rightarrow> account option" where
  "slot_account slot = (case slot of Present account \<Rightarrow> Some account | Deleted \<Rightarrow> None)"

definition sm_get_account :: "state_env \<Rightarrow> state_manager getter" where
  "sm_get_account E address s =
     (let canonical = canonicalize_address address
      in case map_of (sm_cache s) canonical of
           Some entry \<Rightarrow> (Inr (slot_account (ce_slot entry)), s)
         | None \<Rightarrow>
             (case st_get (sm_storage s) canonical of
                Inl e \<Rightarrow> (Inl e, s)
              | Inr None \<Rightarrow> (Inr None, s)
              | Inr (Some bytes) \<Rightarrow>
                  (case deserialize_with_migration (sv_decoders E) bytes of
                     None \<Rightarrow> (Inl (DatabaseError ''Deserialize''), s)
                   | Some account \<Rightarrow>
                       (Inr (Some account),
                        maybe_evict_cache (cache_insert canonical (Present account) False s)))))"

definition record_old_state :: "state_env \<Rightarrow> thread \<Rightarrow> address \<Rightarrow> (state_manager, unit) action" where
  "record_old_state E tid address s =
     (let current_cp = sm_active s tid
      in if current_cp = 0 then (Inr (), s)
         else case map_of (sm_journal s) current_cp of
           None \<Rightarrow> (Inr (), s)
         | Some cp_journal \<Rightarrow>
             (let canonical = canonicalize_address address;
                  record = (\<lambda>old_state. (Inr (), s\<lparr>sm_journal := AList.update current_cp
                      (AList.update canonical old_state cp_journal) (sm_journal s)\<rparr>))
              in if canonical \<in> fst ` set cp_journal then (Inr (), s)
                 else case map_of (sm_cache s) canonical of
                   Some entry \<Rightarrow> record (slot_account (ce_slot entry))
                 | None \<Rightarrow>
                     (case st_get (sm_storage s) canonical of
                        Inl e \<Rightarrow> (Inl e, s)
                      | Inr None \<Rightarrow> record None
                      | Inr (Some bytes) \<Rightarrow> record (deserialize_with_migration (sv_decoders E) bytes))))"

definition mark_chain_state :: "address \<Rightarrow> state_manager \<Rightarrow> state_manager" where
  "mark_chain_state canonical s =
     (if starts_with canonical ''0x''
      then s\<lparr>sm_address_index := List.insert canonical (sm_address_index s),
             sm_trie_dirty := List.insert canonical (sm_trie_dirty s)\<rparr>
      else s)"

definition sm_set_account :: "state_env \<Rightarrow> thread \<Rightarrow> state_manager setter" where
  "sm_set_account E tid address state =
     (let canonical = canonicalize_address address
      in andthen (record_old_state E tid canonical) (\<lambda>_ s.
           (Inr (), maybe_evict_cache (mark_chain_state canonical
              (cache_insert canonical (Present state) True s)))))"

section \<open>Checkpoints\<close>

definition sm_checkpoint :: "thread \<Rightarrow> (state_manager, nat) action" where
  "sm_checkpoint tid s =
     (let s = s\<lparr>sm_gate := (sm_gate s)\<lparr>open_checkpoints := open_checkpoints (sm_gate s) + 1\<rparr>\<rparr>;
          cp = sm_next_checkpoint_id s
      in (Inr cp, s\<lparr>sm_next_checkpoint_id := cp + 1,
                    sm_journal := AList.update cp [] (sm_journal s),
                    sm_active := (sm_active s)(tid := cp)\<rparr>))"

definition close_checkpoint_in_gate :: "state_manager \<Rightarrow> state_manager" where
  "close_checkpoint_in_gate s =
     s\<lparr>sm_gate := (sm_gate s)\<lparr>open_checkpoints := open_checkpoints (sm_gate s) - 1\<rparr>\<rparr>"

definition sm_commit_checkpoint :: "thread \<Rightarrow> nat \<Rightarrow> (state_manager, unit) action" where
  "sm_commit_checkpoint tid checkpoint_id s =
     (Inr (), close_checkpoint_in_gate
        (s\<lparr>sm_journal := AList.delete checkpoint_id (sm_journal s),
           sm_active := (sm_active s)(tid := 0)\<rparr>))"

definition restore_entry :: "address \<times> account option \<Rightarrow> state_manager \<Rightarrow> state_manager" where
  "restore_entry = (\<lambda>(address, old_state) s.
     let s = (case old_state of
           Some state \<Rightarrow> cache_insert address (Present state) True s
         | None \<Rightarrow>
             (let s = cache_insert address Deleted True s
              in if starts_with address ''0x''
                 then s\<lparr>sm_address_index := removeAll address (sm_address_index s)\<rparr> else s))
     in if starts_with address ''0x''
        then s\<lparr>sm_trie_dirty := List.insert address (sm_trie_dirty s)\<rparr> else s)"

definition sm_revert_checkpoint :: "thread \<Rightarrow> nat \<Rightarrow> (state_manager, unit) action" where
  "sm_revert_checkpoint tid checkpoint_id s =
     (let s = (case map_of (sm_journal s) checkpoint_id of
           None \<Rightarrow> s
         | Some cp_journal \<Rightarrow>
             fold restore_entry cp_journal (s\<lparr>sm_journal := AList.delete checkpoint_id (sm_journal s)\<rparr>))
      in (Inr (), close_checkpoint_in_gate (s\<lparr>sm_active := (sm_active s)(tid := 0)\<rparr>)))"

section \<open>The state root\<close>

definition update_leaf :: "state_env \<Rightarrow> address \<Rightarrow> account option \<Rightarrow> merkle_trie \<Rightarrow> merkle_trie result" where
  "update_leaf E address account trie =
     (case account of
        Some acc \<Rightarrow> try_then (account_leaf_value E acc)
          (\<lambda>leaf_value. Inr (trie_insert (sv_keccak E) (account_leaf_key E address) leaf_value trie))
      | None \<Rightarrow> Inr (trie_remove (sv_keccak E) (account_leaf_key E address) trie))"

text \<open>An address leaves the stale set before its account is read.\<close>

fun sync_trie_loop :: "state_env \<Rightarrow> address list \<Rightarrow> (state_manager, unit) action" where
  "sync_trie_loop E [] s = (Inr (), s)"
| "sync_trie_loop E (address # dirty) s =
     andthen (\<lambda>s. sm_get_account E address (s\<lparr>sm_trie_dirty := removeAll address (sm_trie_dirty s)\<rparr>))
       (\<lambda>account s.
          case update_leaf E address account (sm_trie s) of
            Inl e \<Rightarrow> (Inl e, s)
          | Inr trie \<Rightarrow> sync_trie_loop E dirty (s\<lparr>sm_trie := trie\<rparr>)) s"

definition sync_trie_dirty :: "state_env \<Rightarrow> (state_manager, unit) action" where
  "sync_trie_dirty E s = sync_trie_loop E (sm_trie_dirty s) s"

definition sm_state_root :: "state_env \<Rightarrow> (state_manager, hash) action" where
  "sm_state_root E =
     andthen (sync_trie_dirty E) (\<lambda>_ s. (Inr (root_hash (sv_keccak E) (sm_trie s)), s))"

definition override_leaf :: "state_env \<Rightarrow> address \<times> account option \<Rightarrow> merkle_trie \<Rightarrow> merkle_trie result" where
  "override_leaf E = (\<lambda>(address, account) scratch.
     let canonical = canonicalize_address address
     in if \<not> starts_with canonical ''0x'' then Inr scratch else update_leaf E canonical account scratch)"

definition sm_state_root_with_overrides ::
  "state_env \<Rightarrow> (address \<times> account option) list \<Rightarrow> (state_manager, hash) action" where
  "sm_state_root_with_overrides E overrides =
     andthen (sync_trie_dirty E) (\<lambda>_ s.
       (try_then (fold_result (override_leaf E) overrides (sm_trie s))
          (\<lambda>scratch. Inr (root_hash (sv_keccak E) scratch)), s))"

section \<open>Flushing\<close>

definition clear_dirty :: "address \<Rightarrow> cache_entry \<Rightarrow> state_manager \<Rightarrow> state_manager" where
  "clear_dirty a entry s = s\<lparr>sm_cache := AList.update a (entry\<lparr>ce_dirty := False\<rparr>) (sm_cache s)\<rparr>"

definition row_of :: "state_env \<Rightarrow> cache_slot \<Rightarrow> bytes option result" where
  "row_of E slot =
     (case slot of
        Present account \<Rightarrow> (case sv_serialize E account of
            None \<Rightarrow> Inl (DatabaseError ''Serialize'')
          | Some bytes \<Rightarrow> Inr (Some bytes))
      | Deleted \<Rightarrow> Inr None)"

fun collect_batch ::
  "state_env \<Rightarrow> address list \<Rightarrow> (address \<times> bytes option) list \<Rightarrow> (state_manager, (address \<times> bytes option) list) action" where
  "collect_batch E [] batch s = (Inr batch, s)"
| "collect_batch E (a # as) batch s =
     (case map_of (sm_cache s) a of
        None \<Rightarrow> collect_batch E as batch s
      | Some entry \<Rightarrow>
          if \<not> ce_dirty entry then collect_batch E as batch s
          else (case row_of E (ce_slot entry) of
              Inl e \<Rightarrow> (Inl e, s)
            | Inr value \<Rightarrow> collect_batch E as (batch @ [(a, value)]) (clear_dirty a entry s)))"

text \<open>After a failed write the addresses are dirty again.\<close>

fun mark_dirty_again :: "address list \<Rightarrow> (address \<times> cache_entry) list \<Rightarrow> (address \<times> cache_entry) list" where
  "mark_dirty_again [] cache = cache"
| "mark_dirty_again (a # as) cache =
     mark_dirty_again as
       (case map_of cache a of
          None \<Rightarrow> cache
        | Some entry \<Rightarrow> AList.update a (entry\<lparr>ce_dirty := True\<rparr>) cache)"

definition flush_with_gate_claimed :: "state_env \<Rightarrow> (state_manager, unit) action" where
  "flush_with_gate_claimed E s =
     (let candidates = map fst (filter (\<lambda>(a, entry). ce_dirty entry) (sm_cache s))
      in if candidates = [] then (Inr (), s)
         else andthen (collect_batch E candidates []) (\<lambda>batch s.
           if batch = [] then (Inr (), s)
           else case st_write_batch batch (sm_storage s) of
             Inl error \<Rightarrow> (Inl error, s\<lparr>sm_cache := mark_dirty_again (map fst batch) (sm_cache s)\<rparr>)
           | Inr storage \<Rightarrow> (Inr (), s\<lparr>sm_storage := storage\<rparr>)) s)"

definition set_flush_active :: "bool \<Rightarrow> state_manager \<Rightarrow> state_manager" where
  "set_flush_active b s = s\<lparr>sm_gate := (sm_gate s)\<lparr>flush_active := b\<rparr>\<rparr>"

definition sm_flush :: "state_env \<Rightarrow> (state_manager, unit) action" where
  "sm_flush E s =
     (let (r, s) = flush_with_gate_claimed E (set_flush_active True s)
      in (r, set_flush_active False s))"

section \<open>Queries and housekeeping\<close>

fun collect_candidates ::
  "state_env \<Rightarrow> address list \<Rightarrow> (address \<times> nat) list \<Rightarrow> (state_manager, (address \<times> nat) list) action" where
  "collect_candidates E [] acc s = (Inr acc, s)"
| "collect_candidates E (address # addrs) acc s =
     (if \<not> validate_address address then collect_candidates E addrs acc s
      else andthen (sm_get_account E address) (\<lambda>account.
        case account of
          None \<Rightarrow> collect_candidates E addrs acc
        | Some account \<Rightarrow>
            if \<not> ac_is_contract account \<and> 0 < ac_staked_balance account
            then collect_candidates E addrs (AList.update address (ac_staked_balance account) acc)
            else collect_candidates E addrs acc) s)"

text \<open>The \<open>BTreeMap\<close> gives its entries in the order of the addresses.\<close>

definition sm_get_validator_candidates :: "state_env \<Rightarrow> (state_manager, (address \<times> nat) list) action" where
  "sm_get_validator_candidates E s =
     andthen (collect_candidates E (sm_address_index s) []) (\<lambda>acc. give (sort_key fst acc)) s"

definition sm_total_known_addresses :: "(state_manager, nat) action" where
  "sm_total_known_addresses s = (Inr (length (sm_address_index s)), s)"

definition corrupted :: "account \<Rightarrow> bool" where
  "corrupted account = (ac_is_contract account \<and> ac_contract_code account = [0])"

fun find_corrupted :: "state_env \<Rightarrow> address list \<Rightarrow> address list \<Rightarrow> (state_manager, address list) action" where
  "find_corrupted E [] acc s = (Inr acc, s)"
| "find_corrupted E (address # addrs) acc s =
     andthen (sm_get_account E address) (\<lambda>account.
        case account of
          None \<Rightarrow> find_corrupted E addrs acc
        | Some account \<Rightarrow> find_corrupted E addrs (if corrupted account then acc @ [address] else acc)) s"

fun repair_all :: "state_env \<Rightarrow> thread \<Rightarrow> address list \<Rightarrow> nat \<Rightarrow> (state_manager, nat) action" where
  "repair_all E tid [] repaired s = (Inr repaired, s)"
| "repair_all E tid (address # addrs) repaired s =
     andthen (sm_get_account E address) (\<lambda>account.
        case account of
          None \<Rightarrow> repair_all E tid addrs repaired
        | Some account \<Rightarrow>
            if corrupted account
            then andthen (sm_set_account E tid address (account\<lparr>ac_is_contract := False, ac_contract_code := []\<rparr>))
                   (\<lambda>_. repair_all E tid addrs (repaired + 1))
            else repair_all E tid addrs repaired) s"

definition repair_stale_evm_default_bytecode_corruption :: "state_env \<Rightarrow> thread \<Rightarrow> (state_manager, nat) action" where
  "repair_stale_evm_default_bytecode_corruption E tid s =
     andthen (find_corrupted E (sm_address_index s) []) (\<lambda>to_repair. repair_all E tid to_repair 0) s"

definition evict_from_cache :: "address list \<Rightarrow> state_manager \<Rightarrow> state_manager" where
  "evict_from_cache ks s =
     s\<lparr>sm_cache := fold (\<lambda>k cache. if starts_with k ''0x'' then cache else AList.delete k cache) ks (sm_cache s)\<rparr>"

definition hard_delete_key :: "address \<Rightarrow> (state_manager, unit) action" where
  "hard_delete_key key s =
     (if starts_with key ''0x'' then (Inr (), s)
      else (let s = s\<lparr>sm_cache := AList.delete key (sm_cache s)\<rparr>
            in case st_delete key (sm_storage s) of
                 Inl e \<Rightarrow> (Inl e, s)
               | Inr storage \<Rightarrow> (Inr (), s\<lparr>sm_storage := storage\<rparr>)))"

definition get_genesis_block_0_bytes :: "(state_manager, bytes option) action" where
  "get_genesis_block_0_bytes s = (st_get (sm_storage s) ''block_0'', s)"

section \<open>The accounts a store stands for\<close>

definition disk_view :: "state_env \<Rightarrow> storage_engine \<Rightarrow> address \<rightharpoonup> account" where
  "disk_view E st a = (case map_of (st_rows st) a of None \<Rightarrow> None
     | Some b \<Rightarrow> deserialize_with_migration (sv_decoders E) b)"

definition sm_view :: "state_env \<Rightarrow> state_manager \<Rightarrow> address \<rightharpoonup> account" where
  "sm_view E s a = (case map_of (sm_cache s) a of Some entry \<Rightarrow> slot_account (ce_slot entry)
     | None \<Rightarrow> disk_view E (sm_storage s) a)"

text \<open>
  Soundness: the accounts on disk can be read, an entry that is not dirty says what the disk says,
  and journals and cache have one entry per address.
\<close>

definition readable :: "state_env \<Rightarrow> storage_engine \<Rightarrow> bool" where
  "readable E st \<longleftrightarrow> (\<forall>a. account_key a \<longrightarrow> st_fault st a = None \<and>
     (\<forall>b. map_of (st_rows st) a = Some b \<longrightarrow> deserialize_with_migration (sv_decoders E) b \<noteq> None))"

definition clean_ok :: "state_env \<Rightarrow> state_manager \<Rightarrow> bool" where
  "clean_ok E s \<longleftrightarrow> (\<forall>a entry. map_of (sm_cache s) a = Some entry \<longrightarrow> \<not> ce_dirty entry \<longrightarrow>
     slot_account (ce_slot entry) = disk_view E (sm_storage s) a)"

definition journals_ok :: "state_manager \<Rightarrow> bool" where
  "journals_ok s \<longleftrightarrow> distinct (map fst (sm_cache s)) \<and>
     (\<forall>n j. map_of (sm_journal s) n = Some j \<longrightarrow> distinct (map fst j))"

definition sm_ok :: "state_env \<Rightarrow> state_manager \<Rightarrow> bool" where
  "sm_ok E s \<longleftrightarrow> readable E (sm_storage s) \<and> clean_ok E s \<and> journals_ok s"

lemma sm_view_cong:
  "sm_cache s' = sm_cache s \<Longrightarrow> sm_storage s' = sm_storage s \<Longrightarrow> sm_view E s' = sm_view E s"
  by (simp add: sm_view_def fun_eq_iff cong: option.case_cong)

lemma sm_ok_cong:
  "sm_cache s' = sm_cache s \<Longrightarrow> sm_storage s' = sm_storage s \<Longrightarrow> sm_journal s' = sm_journal s \<Longrightarrow>
    sm_ok E s' = sm_ok E s"
  by (simp add: sm_ok_def clean_ok_def journals_ok_def)

text \<open>Eviction drops clean entries only, so nobody can tell.\<close>

lemma remove_clean_spec:
  "map_of (remove_clean as cache) a =
     (case map_of cache a of
        Some entry \<Rightarrow> if a \<in> set as \<and> \<not> ce_dirty entry then None else Some entry
      | None \<Rightarrow> None)"
proof (induction as cache rule: remove_clean.induct)
  case (1 cache)
  then show ?case by (simp split: option.split)
next
  case (2 b as cache)
  then show ?case by (auto simp: delete_conv' split: option.split)
qed

lemma distinct_remove_clean: "distinct (map fst cache) \<Longrightarrow> distinct (map fst (remove_clean as cache))"
  by (induction as cache rule: remove_clean.induct) (auto simp: distinct_delete split: option.split)

lemma evict_fields [simp]:
  "sm_storage (maybe_evict_cache s) = sm_storage s"
  "sm_address_index (maybe_evict_cache s) = sm_address_index s"
  "sm_journal (maybe_evict_cache s) = sm_journal s"
  "sm_next_checkpoint_id (maybe_evict_cache s) = sm_next_checkpoint_id s"
  "sm_trie (maybe_evict_cache s) = sm_trie s"
  "sm_trie_dirty (maybe_evict_cache s) = sm_trie_dirty s"
  "sm_gate (maybe_evict_cache s) = sm_gate s"
  "sm_active (maybe_evict_cache s) = sm_active s"
  by (simp_all add: maybe_evict_cache_def Let_def)

lemma evict_cases:
  obtains "maybe_evict_cache s = s"
  | as where "maybe_evict_cache s = s\<lparr>sm_cache := remove_clean as (sm_cache s)\<rparr>"
proof -
  have "maybe_evict_cache s = s \<or> (\<exists>as. maybe_evict_cache s = s\<lparr>sm_cache := remove_clean as (sm_cache s)\<rparr>)"
    unfolding maybe_evict_cache_def Let_def by auto
  then show ?thesis using that by blast
qed

lemma evict_ok:
  assumes "sm_ok E s"
  shows "sm_ok E (maybe_evict_cache s)" "sm_view E (maybe_evict_cache s) = sm_view E s"
proof -
  have "sm_ok E (maybe_evict_cache s) \<and> sm_view E (maybe_evict_cache s) = sm_view E s"
  proof (cases rule: evict_cases [of s])
    case 1
    with assms show ?thesis by simp
  next
    case (2 as)
    then show ?thesis
      using assms distinct_remove_clean
      by (auto simp: sm_ok_def clean_ok_def journals_ok_def sm_view_def fun_eq_iff remove_clean_spec
          split: option.splits if_splits)
  qed
  then show "sm_ok E (maybe_evict_cache s)" "sm_view E (maybe_evict_cache s) = sm_view E s" by simp_all
qed

lemma cache_insert_fields [simp]:
  "sm_storage (cache_insert a slot d s) = sm_storage s"
  "sm_address_index (cache_insert a slot d s) = sm_address_index s"
  "sm_journal (cache_insert a slot d s) = sm_journal s"
  "sm_next_checkpoint_id (cache_insert a slot d s) = sm_next_checkpoint_id s"
  "sm_trie (cache_insert a slot d s) = sm_trie s"
  "sm_trie_dirty (cache_insert a slot d s) = sm_trie_dirty s"
  "sm_gate (cache_insert a slot d s) = sm_gate s"
  "sm_active (cache_insert a slot d s) = sm_active s"
  by (simp_all add: cache_insert_def)

lemma cache_insert_view: "sm_view E (cache_insert a slot d s) = (sm_view E s)(a := slot_account slot)"
  by (auto simp: sm_view_def cache_insert_def fun_eq_iff split: option.split)

lemma cache_insert_ok:
  assumes "sm_ok E s" "\<not> d \<Longrightarrow> slot_account slot = disk_view E (sm_storage s) a"
  shows "sm_ok E (cache_insert a slot d s)"
  using assms by (auto simp: sm_ok_def clean_ok_def journals_ok_def cache_insert_def distinct_update)

lemma sm_get_ok:
  assumes "sm_ok E s" "account_key (canonicalize a)"
  shows "\<exists>s'. sm_get_account E a s = (Inr (sm_view E s (canonicalize a)), s') \<and> sm_ok E s' \<and>
    sm_view E s' = sm_view E s \<and> sm_storage s' = sm_storage s \<and> sm_journal s' = sm_journal s \<and>
    sm_active s' = sm_active s \<and> sm_next_checkpoint_id s' = sm_next_checkpoint_id s \<and>
    sm_trie s' = sm_trie s \<and> sm_trie_dirty s' = sm_trie_dirty s \<and> sm_gate s' = sm_gate s"
proof -
  let ?a = "canonicalize a"
  have st: "st_get (sm_storage s) ?a = Inr (map_of (st_rows (sm_storage s)) ?a)"
    and dec: "\<And>b. map_of (st_rows (sm_storage s)) ?a = Some b \<Longrightarrow> deserialize_with_migration (sv_decoders E) b \<noteq> None"
    using assms by (auto simp: sm_ok_def readable_def st_get_def)
  show ?thesis
  proof (cases "map_of (sm_cache s) ?a")
    case (Some entry)
    with assms show ?thesis
      by (simp add: sm_get_account_def canonicalize_address_eq sm_view_def)
  next
    case None
    show ?thesis
    proof (cases "map_of (st_rows (sm_storage s)) ?a")
      case no_row: None
      with None st assms show ?thesis
        by (simp add: sm_get_account_def canonicalize_address_eq sm_view_def disk_view_def)
    next
      case (Some b)
      then obtain x where x: "deserialize_with_migration (sv_decoders E) b = Some x" using dec by blast
      then have disk: "disk_view E (sm_storage s) ?a = Some x" using Some by (simp add: disk_view_def)
      then have view: "sm_view E s ?a = Some x" using None by (simp add: sm_view_def)
      let ?s = "cache_insert ?a (Present x) False s"
      have ok: "sm_ok E ?s" using disk by (intro cache_insert_ok [OF assms(1)]) (simp add: slot_account_def)
      moreover have "sm_view E ?s = sm_view E s"
        using view by (auto simp: cache_insert_view slot_account_def)
      moreover have "sm_get_account E a s = (Inr (Some x), maybe_evict_cache ?s)"
        using None st Some x by (simp add: sm_get_account_def canonicalize_address_eq)
      ultimately show ?thesis using evict_ok [OF ok] view by simp
    qed
  qed
qed

section \<open>Writing and checkpoints\<close>

definition recorded :: "state_env \<Rightarrow> thread \<Rightarrow> address \<Rightarrow> state_manager \<Rightarrow> (nat \<times> (address \<times> account option) list) list" where
  "recorded E tid c s =
     (case map_of (sm_journal s) (sm_active s tid) of
        None \<Rightarrow> sm_journal s
      | Some j \<Rightarrow>
          if sm_active s tid = 0 \<or> c \<in> fst ` set j then sm_journal s
          else AList.update (sm_active s tid) (AList.update c (sm_view E s c) j) (sm_journal s))"

lemma record_old_state_ok:
  assumes "sm_ok E s" "account_key c" "canonicalize c = c"
  shows "record_old_state E tid c s = (Inr (), s\<lparr>sm_journal := recorded E tid c s\<rparr>)"
proof -
  have "st_get (sm_storage s) c = Inr (map_of (st_rows (sm_storage s)) c)"
    using assms by (auto simp: sm_ok_def readable_def st_get_def)
  then show ?thesis
    using assms(3)
    by (auto simp: record_old_state_def recorded_def canonicalize_address_eq Let_def sm_view_def
        disk_view_def split: option.split)
qed

text \<open>What a write leaves: the cache before eviction, the marks and the journal.\<close>

definition written_state :: "state_env \<Rightarrow> thread \<Rightarrow> address \<Rightarrow> account \<Rightarrow> state_manager \<Rightarrow> state_manager" where
  "written_state E tid c x s =
     mark_chain_state c (cache_insert c (Present x) True (s\<lparr>sm_journal := recorded E tid c s\<rparr>))"

lemma mark_fields [simp]:
  "sm_cache (mark_chain_state c s) = sm_cache s"
  "sm_storage (mark_chain_state c s) = sm_storage s"
  "sm_journal (mark_chain_state c s) = sm_journal s"
  "sm_next_checkpoint_id (mark_chain_state c s) = sm_next_checkpoint_id s"
  "sm_trie (mark_chain_state c s) = sm_trie s"
  "sm_gate (mark_chain_state c s) = sm_gate s"
  "sm_active (mark_chain_state c s) = sm_active s"
  by (simp_all add: mark_chain_state_def)

lemma sm_set_eq:
  assumes "sm_ok E s" "account_key (canonicalize a)"
  shows "sm_set_account E tid a x s = (Inr (), maybe_evict_cache (written_state E tid (canonicalize a) x s))"
  using record_old_state_ok [OF assms, of tid]
  by (simp add: sm_set_account_def canonicalize_address_eq andthen_def written_state_def Let_def)

lemma recorded_distinct:
  assumes "journals_ok s" "map_of (recorded E tid c s) n = Some j"
  shows "distinct (map fst j)"
  using assms by (auto simp: recorded_def journals_ok_def distinct_update split: option.splits if_splits)

lemma written_state_ok:
  assumes "sm_ok E s"
  shows "sm_ok E (written_state E tid c x s)" "sm_view E (written_state E tid c x s) = (sm_view E s)(c \<mapsto> x)"
proof -
  let ?s = "s\<lparr>sm_journal := recorded E tid c s\<rparr>"
  have "sm_ok E ?s"
    using assms recorded_distinct by (auto simp: sm_ok_def clean_ok_def journals_ok_def)
  then have "sm_ok E (cache_insert c (Present x) True ?s)" by (rule cache_insert_ok) simp
  then show "sm_ok E (written_state E tid c x s)"
    by (simp add: written_state_def sm_ok_cong [of "mark_chain_state c (cache_insert c (Present x) True ?s)"
        "cache_insert c (Present x) True ?s"])
  have "sm_view E (written_state E tid c x s) = sm_view E (cache_insert c (Present x) True ?s)"
    unfolding written_state_def by (rule sm_view_cong) simp_all
  also have "\<dots> = (sm_view E ?s)(c \<mapsto> x)" by (simp add: cache_insert_view slot_account_def)
  also have "sm_view E ?s = sm_view E s" by (rule sm_view_cong) simp_all
  finally show "sm_view E (written_state E tid c x s) = (sm_view E s)(c \<mapsto> x)" .
qed

definition restored :: "(address \<times> account option) list \<Rightarrow> (address \<rightharpoonup> account) \<Rightarrow> (address \<rightharpoonup> account)" where
  "restored j v = (\<lambda>a. case map_of j a of Some old \<Rightarrow> old | None \<Rightarrow> v a)"

lemma restored_Nil [simp]: "restored [] v = v"
  by (simp add: restored_def)

lemma restored_write:
  assumes "distinct (map fst j)"
  shows "restored (if c \<in> fst ` set j then j else AList.update c (v c) j) (v(c \<mapsto> x)) = restored j v"
proof (cases "map_of j c")
  case None
  then have "c \<notin> fst ` set j" by (simp add: map_of_eq_None_iff)
  with None show ?thesis by (auto simp: restored_def fun_eq_iff split: option.split)
next
  case (Some y)
  then have "c \<in> fst ` set j" by (metis map_of_eq_None_iff option.distinct(1))
  with Some show ?thesis by (auto simp: restored_def fun_eq_iff split: option.split)
qed

lemma restore_entry_fields [simp]:
  "sm_storage (restore_entry e s) = sm_storage s"
  "sm_journal (restore_entry e s) = sm_journal s"
  "sm_next_checkpoint_id (restore_entry e s) = sm_next_checkpoint_id s"
  "sm_trie (restore_entry e s) = sm_trie s"
  "sm_gate (restore_entry e s) = sm_gate s"
  "sm_active (restore_entry e s) = sm_active s"
  by (cases e; simp add: restore_entry_def Let_def split: option.split)+

definition old_slot :: "account option \<Rightarrow> cache_slot" where
  "old_slot old = (case old of Some x \<Rightarrow> Present x | None \<Rightarrow> Deleted)"

lemma restore_entry_cache:
  "sm_cache (restore_entry (a, old) s) = sm_cache (cache_insert a (old_slot old) True s)"
  by (simp add: restore_entry_def Let_def old_slot_def cache_insert_def split: option.split)

lemma slot_old_slot [simp]: "slot_account (old_slot old) = old"
  by (simp add: slot_account_def old_slot_def split: option.split)

lemma restore_entry_ok:
  assumes "sm_ok E s"
  shows "sm_ok E (restore_entry (a, old) s)" "sm_view E (restore_entry (a, old) s) = (sm_view E s)(a := old)"
proof -
  have "sm_ok E (cache_insert a (old_slot old) True s)" by (rule cache_insert_ok [OF assms]) simp
  then show "sm_ok E (restore_entry (a, old) s)"
    using sm_ok_cong [of "restore_entry (a, old) s" "cache_insert a (old_slot old) True s" E]
    by (simp add: restore_entry_cache)
  have "sm_view E (restore_entry (a, old) s) = sm_view E (cache_insert a (old_slot old) True s)"
    by (rule sm_view_cong) (simp_all add: restore_entry_cache)
  then show "sm_view E (restore_entry (a, old) s) = (sm_view E s)(a := old)"
    by (simp only: cache_insert_view slot_old_slot)
qed

lemma restore_fold_ok:
  assumes "sm_ok E s" "distinct (map fst j)"
  shows "sm_ok E (fold restore_entry j s) \<and> sm_view E (fold restore_entry j s) = restored j (sm_view E s)"
  using assms
proof (induction j arbitrary: s)
  case Nil
  then show ?case by simp
next
  case (Cons e j)
  obtain a old where e: "e = (a, old)" by (cases e)
  have fresh: "map_of j a = None" using Cons.prems(2) e by (simp add: map_of_eq_None_iff)
  have "restored j ((sm_view E s)(a := old)) = restored (e # j) (sm_view E s)"
    using fresh by (auto simp: restored_def e fun_eq_iff split: option.split)
  with Cons.IH [OF restore_entry_ok(1) [OF Cons.prems(1), of a old]] Cons.prems(2)
    restore_entry_ok(2) [OF Cons.prems(1), of a old]
  show ?case by (simp only: fold_Cons comp_apply e list.map distinct.simps fst_conv)
qed

lemma restore_fold_fields:
  "sm_storage (fold restore_entry j s) = sm_storage s"
  "sm_journal (fold restore_entry j s) = sm_journal s"
  "sm_next_checkpoint_id (fold restore_entry j s) = sm_next_checkpoint_id s"
  "sm_trie (fold restore_entry j s) = sm_trie s"
  "sm_gate (fold restore_entry j s) = sm_gate s"
  "sm_active (fold restore_entry j s) = sm_active s"
  by (induction j arbitrary: s) simp_all

section \<open>The contracts\<close>

text \<open>A thread's checkpoint has its journal; identifiers start at one.\<close>

definition sm_sound :: "state_env \<Rightarrow> thread \<Rightarrow> state_manager \<Rightarrow> bool" where
  "sm_sound E tid s \<longleftrightarrow> sm_ok E s \<and> 0 < sm_next_checkpoint_id s \<and>
     (sm_active s tid \<noteq> 0 \<longrightarrow> map_of (sm_journal s) (sm_active s tid) \<noteq> None)"

definition sm_opened :: "state_env \<Rightarrow> thread \<Rightarrow> state_manager \<Rightarrow> (nat \<times> (address \<rightharpoonup> account)) option" where
  "sm_opened E tid s =
     (if sm_active s tid = 0 then None
      else case map_of (sm_journal s) (sm_active s tid) of
        None \<Rightarrow> None
      | Some j \<Rightarrow> Some (sm_active s tid, restored j (sm_view E s)))"

lemma sm_opened_cong:
  "sm_active s' = sm_active s \<Longrightarrow> sm_journal s' = sm_journal s \<Longrightarrow> sm_view E s' = sm_view E s \<Longrightarrow>
    sm_opened E tid s' = sm_opened E tid s"
  by (simp add: sm_opened_def cong: option.case_cong)

lemma written_opened:
  assumes "sm_sound E tid s"
  shows "sm_opened E tid (written_state E tid c x s) = sm_opened E tid s"
proof (cases "sm_active s tid = 0")
  case True
  then show ?thesis by (simp add: sm_opened_def written_state_def)
next
  case False
  then obtain j where j: "map_of (sm_journal s) (sm_active s tid) = Some j"
    using assms by (auto simp: sm_sound_def)
  then have d: "distinct (map fst j)" using assms by (auto simp: sm_sound_def sm_ok_def journals_ok_def)
  have view: "sm_view E (written_state E tid c x s) = (sm_view E s)(c \<mapsto> x)"
    using assms written_state_ok(2) by (auto simp: sm_sound_def)
  have jn: "map_of (sm_journal (written_state E tid c x s)) (sm_active s tid) =
      Some (if c \<in> fst ` set j then j else AList.update c (sm_view E s c) j)"
    using j False by (simp add: written_state_def recorded_def)
  have act: "sm_active (written_state E tid c x s) = sm_active s"
    by (simp add: written_state_def)
  show ?thesis
    unfolding sm_opened_def act jn j view option.case restored_write [OF d] ..
qed

lemma checkpoint_fields:
  "fst (sm_checkpoint tid s) = Inr (sm_next_checkpoint_id s)"
  "sm_cache (snd (sm_checkpoint tid s)) = sm_cache s"
  "sm_storage (snd (sm_checkpoint tid s)) = sm_storage s"
  "sm_journal (snd (sm_checkpoint tid s)) = AList.update (sm_next_checkpoint_id s) [] (sm_journal s)"
  "sm_active (snd (sm_checkpoint tid s)) = (sm_active s)(tid := sm_next_checkpoint_id s)"
  "sm_next_checkpoint_id (snd (sm_checkpoint tid s)) = sm_next_checkpoint_id s + 1"
  "sm_trie (snd (sm_checkpoint tid s)) = sm_trie s"
  "sm_trie_dirty (snd (sm_checkpoint tid s)) = sm_trie_dirty s"
  by (simp_all add: sm_checkpoint_def Let_def)

lemma sm_commit_fields:
  "fst (sm_commit_checkpoint tid n s) = Inr ()"
  "sm_cache (snd (sm_commit_checkpoint tid n s)) = sm_cache s"
  "sm_storage (snd (sm_commit_checkpoint tid n s)) = sm_storage s"
  "sm_journal (snd (sm_commit_checkpoint tid n s)) = AList.delete n (sm_journal s)"
  "sm_active (snd (sm_commit_checkpoint tid n s)) = (sm_active s)(tid := 0)"
  "sm_next_checkpoint_id (snd (sm_commit_checkpoint tid n s)) = sm_next_checkpoint_id s"
  "sm_trie (snd (sm_commit_checkpoint tid n s)) = sm_trie s"
  "sm_trie_dirty (snd (sm_commit_checkpoint tid n s)) = sm_trie_dirty s"
  by (simp_all add: sm_commit_checkpoint_def close_checkpoint_in_gate_def)

lemma checkpoint_ok:
  assumes "sm_ok E s"
  shows "sm_ok E (snd (sm_checkpoint tid s))" "sm_view E (snd (sm_checkpoint tid s)) = sm_view E s"
  using assms sm_view_cong [of "snd (sm_checkpoint tid s)" s E]
  by (auto simp: sm_ok_def clean_ok_def journals_ok_def checkpoint_fields)

lemma sm_commit_ok:
  assumes "sm_ok E s"
  shows "sm_ok E (snd (sm_commit_checkpoint tid n s))" "sm_view E (snd (sm_commit_checkpoint tid n s)) = sm_view E s"
  using assms sm_view_cong [of "snd (sm_commit_checkpoint tid n s)" s E]
  by (auto simp: sm_ok_def clean_ok_def journals_ok_def sm_commit_fields delete_conv' split: if_splits)

text \<open>A revert, as its effect on the maps.\<close>

definition reverted :: "thread \<Rightarrow> nat \<Rightarrow> (address \<times> account option) list \<Rightarrow> state_manager \<Rightarrow> state_manager" where
  "reverted tid n j s =
     close_checkpoint_in_gate ((fold restore_entry j (s\<lparr>sm_journal := AList.delete n (sm_journal s)\<rparr>))
       \<lparr>sm_active := (sm_active s)(tid := 0)\<rparr>)"

lemma revert_eq:
  "map_of (sm_journal s) n = Some j \<Longrightarrow> sm_revert_checkpoint tid n s = (Inr (), reverted tid n j s)"
  by (simp add: sm_revert_checkpoint_def reverted_def Let_def restore_fold_fields)

lemma reverted_ok:
  assumes "sm_ok E s" "distinct (map fst j)"
  shows "sm_ok E (reverted tid n j s)" "sm_view E (reverted tid n j s) = restored j (sm_view E s)"
proof -
  let ?s = "s\<lparr>sm_journal := AList.delete n (sm_journal s)\<rparr>"
  have "sm_ok E ?s" using assms(1)
    by (auto simp: sm_ok_def clean_ok_def journals_ok_def delete_conv' split: if_splits)
  note fold = restore_fold_ok [OF this assms(2)]
  have "sm_view E ?s = sm_view E s" by (rule sm_view_cong) simp_all
  with fold show "sm_view E (reverted tid n j s) = restored j (sm_view E s)"
    using sm_view_cong [of "reverted tid n j s" "fold restore_entry j ?s" E]
    by (simp add: reverted_def close_checkpoint_in_gate_def)
  from fold show "sm_ok E (reverted tid n j s)"
    using sm_ok_cong [of "reverted tid n j s" "fold restore_entry j ?s" E]
    by (simp add: reverted_def close_checkpoint_in_gate_def)
qed

interpretation sm: snapshot_store "sm_get_account E" "sm_set_account E tid" "sm_view E" "sm_sound E tid"
    account_key "sm_checkpoint tid" "sm_commit_checkpoint tid" "sm_revert_checkpoint tid" "sm_opened E tid"
  for E tid
proof
  fix s a x n v
  assume sound: "sm_sound E tid s"
  then have ok: "sm_ok E s" by (simp add: sm_sound_def)
  show "\<exists>s'. sm_get_account E a s = (Inr (sm_view E s (canonicalize a)), s') \<and> sm_sound E tid s' \<and>
      sm_view E s' = sm_view E s" if "account_key (canonicalize a)"
    using sm_get_ok [OF ok that] sound unfolding sm_sound_def by (metis (no_types, lifting))
  show "sm_opened E tid (snd (sm_get_account E a s)) = sm_opened E tid s" if "account_key (canonicalize a)"
    using sm_get_ok [OF ok that] sm_opened_cong by (metis snd_conv)
  show "\<exists>s'. sm_set_account E tid a x s = (Inr (), s') \<and> sm_sound E tid s' \<and>
      sm_view E s' = (sm_view E s)(canonicalize a \<mapsto> x)" if key: "account_key (canonicalize a)"
  proof -
    let ?w = "written_state E tid (canonicalize a) x s"
    have "sm_ok E (maybe_evict_cache ?w)" "sm_view E (maybe_evict_cache ?w) = (sm_view E s)(canonicalize a \<mapsto> x)"
      using evict_ok [OF written_state_ok(1) [OF ok]] written_state_ok(2) [OF ok] by metis+
    moreover have "map_of (recorded E tid (canonicalize a) s) (sm_active s tid) \<noteq> None"
      if "sm_active s tid \<noteq> 0"
      using sound that by (auto simp: sm_sound_def recorded_def)
    ultimately show ?thesis
      using sound sm_set_eq [OF ok key] by (auto simp: sm_sound_def written_state_def)
  qed
  show "sm_opened E tid (snd (sm_set_account E tid a x s)) = sm_opened E tid s" if key: "account_key (canonicalize a)"
  proof -
    let ?w = "written_state E tid (canonicalize a) x s"
    have "sm_opened E tid (maybe_evict_cache ?w) = sm_opened E tid ?w"
      using evict_ok(2) [OF written_state_ok(1) [OF ok]] by (intro sm_opened_cong) simp_all
    then show ?thesis using written_opened [OF sound] sm_set_eq [OF ok key] by simp
  qed
  show "\<exists>n s'. sm_checkpoint tid s = (Inr n, s') \<and> sm_sound E tid s' \<and> sm_view E s' = sm_view E s \<and>
      sm_opened E tid s' = Some (n, sm_view E s)"
  proof -
    let ?s = "snd (sm_checkpoint tid s)"
    have "sm_checkpoint tid s = (Inr (sm_next_checkpoint_id s), ?s)"
      by (simp add: prod_eq_iff checkpoint_fields)
    moreover have "sm_sound E tid ?s"
      using sound checkpoint_ok(1) by (auto simp: sm_sound_def checkpoint_fields)
    moreover have "sm_opened E tid ?s = Some (sm_next_checkpoint_id s, sm_view E s)"
      using sound checkpoint_ok(2) [OF ok, of tid] by (simp add: sm_sound_def sm_opened_def checkpoint_fields)
    ultimately show ?thesis using checkpoint_ok(2) [OF ok, of tid] by blast
  qed
  show "\<exists>s'. sm_commit_checkpoint tid n s = (Inr (), s') \<and> sm_sound E tid s' \<and> sm_view E s' = sm_view E s \<and>
      sm_opened E tid s' = None"
    using sound sm_commit_ok [OF ok, of tid n]
    by (intro exI [of _ "snd (sm_commit_checkpoint tid n s)"])
      (simp add: prod_eq_iff sm_commit_fields sm_sound_def sm_opened_def)
  show "\<exists>s'. sm_revert_checkpoint tid n s = (Inr (), s') \<and> sm_sound E tid s' \<and> sm_view E s' = v \<and>
      sm_opened E tid s' = None" if opened: "sm_opened E tid s = Some (n, v)"
  proof -
    obtain j where j: "map_of (sm_journal s) n = Some j" and v: "v = restored j (sm_view E s)"
      using opened by (auto simp: sm_opened_def split: option.splits if_splits)
    have "distinct (map fst j)" using ok j by (auto simp: sm_ok_def journals_ok_def)
    from reverted_ok [OF ok this, of tid n] show ?thesis
      using revert_eq [OF j] sound v
      by (auto simp: sm_sound_def sm_opened_def reverted_def close_checkpoint_in_gate_def restore_fold_fields)
  qed
qed

end
