(* ===== verification/StateRoot.thy ===== *)
theory StateRoot
  imports StateManager
begin

text \<open>
  What the store commits to: as long as no read of the disk fails, after any sequence of reads, writes, checkpoints,
  commits, reverts, flushes, failed writes, evictions and earlier roots, the root is a function of the chain accounts alone (those
  under \<open>0x\<close> keys); a flush writes the accounts the store stands for; and a store opened again on the
  flushed rows stands for the same accounts and gives the same root.

  The roster \<open>R\<close> names the chain addresses in play; the leaf keys must not collide on it. An account
  is \<open>faithful\<close> when its serialisation reads back as itself.
\<close>

section \<open>Leaves in step with the accounts\<close>

definition faithful :: "state_env \<Rightarrow> account \<Rightarrow> bool" where
  "faithful E x \<longleftrightarrow> (\<exists>b. sv_serialize E x = Some b \<and> deserialize_with_migration (sv_decoders E) b = Some x)"

definition leaf :: "state_env \<Rightarrow> account \<Rightarrow> hash" where
  "leaf E x = sv_keccak E (the (sv_serialize E x))"

definition chain_key :: "address \<Rightarrow> bool" where
  "chain_key a \<longleftrightarrow> starts_with a ''0x''"

definition faithful_rows :: "state_env \<Rightarrow> storage_engine \<Rightarrow> bool" where
  "faithful_rows E st \<longleftrightarrow> (\<forall>a x. account_key a \<longrightarrow> disk_view E st a = Some x \<longrightarrow> faithful E x)"

definition faithful_state :: "state_env \<Rightarrow> state_manager \<Rightarrow> bool" where
  "faithful_state E s \<longleftrightarrow> faithful_rows E (sm_storage s) \<and>
     (\<forall>a entry x. map_of (sm_cache s) a = Some entry \<longrightarrow> ce_slot entry = Present x \<longrightarrow> faithful E x) \<and>
     (\<forall>n j a x. map_of (sm_journal s) n = Some j \<longrightarrow> map_of j a = Some (Some x) \<longrightarrow> faithful E x)"

definition journals_within :: "address set \<Rightarrow> state_manager \<Rightarrow> bool" where
  "journals_within R s \<longleftrightarrow>
     (\<forall>n j a. map_of (sm_journal s) n = Some j \<longrightarrow> a \<in> fst ` set j \<longrightarrow> chain_key a \<longrightarrow> a \<in> R)"

text \<open>\<open>stale E R D s\<close>: outside \<open>D\<close> the trie's leaves are those of the accounts.\<close>

definition stale :: "state_env \<Rightarrow> address set \<Rightarrow> address set \<Rightarrow> state_manager \<Rightarrow> bool" where
  "stale E R D s \<longleftrightarrow>
     trie_inv (sv_keccak E) (sm_trie s) \<and> dom (trie_view (sm_trie s)) \<subseteq> account_leaf_key E ` R \<and>
     (\<forall>a \<in> R - D. trie_view (sm_trie s) (account_leaf_key E a) = map_option (leaf E) (sm_view E s a)) \<and>
     (\<forall>a. chain_key a \<longrightarrow> a \<notin> R \<longrightarrow> sm_view E s a = None)"

definition tracked :: "state_env \<Rightarrow> address set \<Rightarrow> state_manager \<Rightarrow> bool" where
  "tracked E R s \<longleftrightarrow> sm_ok E s \<and> faithful_state E s \<and> journals_within R s \<and>
     set (sm_trie_dirty s) \<subseteq> R \<and> stale E R (set (sm_trie_dirty s)) s"

text \<open>The hypotheses on the environment: 32-byte hashes, no collision on the roster.\<close>

definition roster_ok :: "state_env \<Rightarrow> address set \<Rightarrow> bool" where
  "roster_ok E R \<longleftrightarrow> (\<forall>x. length (sv_keccak E x) = 32) \<and> inj_on (account_leaf_key E) R \<and>
     (\<forall>a \<in> R. chain_key a \<and> canonicalize a = a)"

lemma chain_account_key: "chain_key a \<Longrightarrow> account_key a"
  by (auto simp: chain_key_def account_key_def starts_with_def)

lemma stale_cong:
  assumes "stale E R D s" "sm_trie s' = sm_trie s" "\<And>a. chain_key a \<Longrightarrow> sm_view E s' a = sm_view E s a"
    and "\<forall>a \<in> R. chain_key a"
  shows "stale E R D s'"
  using assms unfolding stale_def by auto

lemma stale_mono: "stale E R D s \<Longrightarrow> D \<subseteq> D' \<Longrightarrow> stale E R D' s"
  unfolding stale_def by blast

lemma faithful_view:
  assumes "faithful_state E s" "account_key a" "sm_view E s a = Some x"
  shows "faithful E x"
  using assms
  by (auto simp: faithful_state_def faithful_rows_def sm_view_def slot_account_def
      split: option.splits cache_slot.splits)

lemma faithful_leaf: "faithful E x \<Longrightarrow> account_leaf_value E x = Inr (leaf E x)"
  by (auto simp: faithful_def account_leaf_value_def leaf_def)

section \<open>Every operation keeps the leaves in step\<close>

lemma remove_clean_Some: "map_of (remove_clean as cache) a = Some e \<Longrightarrow> map_of cache a = Some e"
  by (auto simp: remove_clean_spec split: option.splits if_splits)

text \<open>Two states whose journals are those of the first, or empty.\<close>

definition journals_from :: "state_manager \<Rightarrow> state_manager \<Rightarrow> bool" where
  "journals_from s s' \<longleftrightarrow> (\<forall>n j. map_of (sm_journal s') n = Some j \<longrightarrow> j = [] \<or> map_of (sm_journal s) n = Some j)"

lemma journals_from_same: "sm_journal s' = sm_journal s \<Longrightarrow> journals_from s s'"
  by (simp add: journals_from_def)

lemma journals_within_from: "journals_within R s \<Longrightarrow> journals_from s s' \<Longrightarrow> journals_within R s'"
  unfolding journals_within_def journals_from_def
  by (metis empty_iff image_empty list.set(1))

lemma faithful_from:
  assumes "faithful_state E s" "journals_from s s'" "faithful_rows E (sm_storage s')"
    and "\<And>a entry x. map_of (sm_cache s') a = Some entry \<Longrightarrow> ce_slot entry = Present x \<Longrightarrow> faithful E x"
  shows "faithful_state E s'"
  unfolding faithful_state_def
proof (intro conjI allI impI)
  fix n j a x
  assume j: "map_of (sm_journal s') n = Some j" "map_of j a = Some (Some x)"
  then have "map_of (sm_journal s) n = Some j"
    using assms(2) unfolding journals_from_def by (metis map_of.simps(1) option.distinct(1))
  with j(2) assms(1) show "faithful E x" unfolding faithful_state_def by blast
qed (use assms in auto)

lemma tracked_from:
  assumes "tracked E R s" "\<forall>b \<in> R. chain_key b" "sm_ok E s'" "journals_from s s'"
    and "faithful_state E s'" "sm_trie s' = sm_trie s" "sm_trie_dirty s' = sm_trie_dirty s"
    and "\<And>a. chain_key a \<Longrightarrow> sm_view E s' a = sm_view E s a"
  shows "tracked E R s'"
  using assms stale_cong [of E R "set (sm_trie_dirty s)" s s'] journals_within_from [of R s s']
  unfolding tracked_def by simp

lemma evict_faithful:
  assumes "faithful_state E s"
  shows "faithful_state E (maybe_evict_cache s)"
proof (rule faithful_from [OF assms journals_from_same])
  fix a entry x
  assume "map_of (sm_cache (maybe_evict_cache s)) a = Some entry" "ce_slot entry = Present x"
  then have "map_of (sm_cache s) a = Some entry"
    by (cases rule: evict_cases [of s]) (auto dest: remove_clean_Some)
  with \<open>ce_slot entry = Present x\<close> assms show "faithful E x"
    unfolding faithful_state_def by blast
qed (use assms in \<open>simp_all add: faithful_state_def\<close>)

lemma get_faithful:
  assumes "faithful_state E s" "sm_get_account E a s = (r, s')"
    and "account_key (canonicalize a)"
  shows "faithful_state E s'"
proof -
  have "s' = s \<or> (\<exists>x. disk_view E (sm_storage s) (canonicalize a) = Some x \<and>
      s' = maybe_evict_cache (cache_insert (canonicalize a) (Present x) False s))"
    using assms(2)
    by (auto simp: sm_get_account_def canonicalize_address_eq Let_def st_get_def disk_view_def
        split: option.splits)
  moreover have "faithful_state E (maybe_evict_cache (cache_insert (canonicalize a) (Present x) False s))"
    if "disk_view E (sm_storage s) (canonicalize a) = Some x" for x
  proof (rule evict_faithful)
    have "faithful E x" using assms(1,3) that by (auto simp: faithful_state_def faithful_rows_def)
    with assms(1) show "faithful_state E (cache_insert (canonicalize a) (Present x) False s)"
      by (auto simp: faithful_state_def cache_insert_def split: if_splits)
  qed
  ultimately show ?thesis using assms(1) by blast
qed

lemma get_tracked:
  assumes "tracked E R s" "account_key (canonicalize a)" "\<forall>b \<in> R. chain_key b"
  shows "\<exists>s'. sm_get_account E a s = (Inr (sm_view E s (canonicalize a)), s') \<and> tracked E R s' \<and>
    sm_view E s' = sm_view E s \<and> sm_trie s' = sm_trie s \<and> sm_trie_dirty s' = sm_trie_dirty s"
proof -
  obtain s' where s': "sm_get_account E a s = (Inr (sm_view E s (canonicalize a)), s')" "sm_ok E s'"
      "sm_view E s' = sm_view E s" "sm_journal s' = sm_journal s" "sm_trie s' = sm_trie s"
      "sm_trie_dirty s' = sm_trie_dirty s"
    using sm_get_ok [of E s a] assms(1,2) unfolding tracked_def by blast
  have "faithful_state E s'" using get_faithful [OF _ s'(1) assms(2)] assms(1) by (simp add: tracked_def)
  then have "tracked E R s'"
    using s' by (intro tracked_from [OF assms(1,3)]) (simp_all add: journals_from_same)
  with s' show ?thesis by blast
qed

lemma recorded_member:
  assumes "map_of (recorded E tid c s) n = Some j" "a \<in> fst ` set j"
  shows "a = c \<or> (\<exists>j'. map_of (sm_journal s) n = Some j' \<and> a \<in> fst ` set j')"
proof -
  have "fst ` set (AList.update c v l) \<subseteq> insert c (fst ` set l)" for v and l :: "(address \<times> account option) list"
    using set_update_subset [of c v l] by auto
  then have new: "b = c \<or> b \<in> fst ` set l"
    if "b \<in> fst ` set (AList.update c v l)" for b v and l :: "(address \<times> account option) list"
    using that by blast
  show ?thesis
  proof (cases "map_of (sm_journal s) n = Some j")
    case True
    with assms(2) show ?thesis by blast
  next
    case False
    then obtain l where "map_of (sm_journal s) n = Some l" "j = AList.update c (sm_view E s c) l"
      using assms(1) by (auto simp: recorded_def split: option.splits if_splits)
    with new assms(2) show ?thesis by blast
  qed
qed

lemma recorded_entry:
  assumes "map_of (recorded E tid c s) n = Some j" "map_of j a = Some old"
  shows "(a = c \<and> old = sm_view E s c) \<or> (\<exists>j'. map_of (sm_journal s) n = Some j' \<and> map_of j' a = Some old)"
  using assms by (auto simp: recorded_def split: option.splits if_splits)

lemma written_faithful:
  assumes "faithful_state E s" "faithful E x" "account_key c"
  shows "faithful_state E (written_state E tid c x s)"
  unfolding faithful_state_def
proof (intro conjI allI impI)
  fix n j a y
  assume "map_of (sm_journal (written_state E tid c x s)) n = Some j" "map_of j a = Some (Some y)"
  then have "(a = c \<and> Some y = sm_view E s c) \<or>
      (\<exists>j'. map_of (sm_journal s) n = Some j' \<and> map_of j' a = Some (Some y))"
    using recorded_entry [of E tid c s n j a] by (simp add: written_state_def)
  then show "faithful E y"
    using faithful_view [OF assms(1,3)] assms(1) by (metis faithful_state_def)
qed (use assms in \<open>auto simp: faithful_state_def written_state_def cache_insert_def split: if_splits\<close>)

lemma written_tracked:
  assumes "tracked E R s" "faithful E x" "account_key c" "canonicalize c = c" "chain_key c \<Longrightarrow> c \<in> R"
    and "\<forall>b \<in> R. chain_key b"
  shows "tracked E R (written_state E tid c x s)"
proof -
  let ?w = "written_state E tid c x s"
  have ok: "sm_ok E s" using assms(1) by (simp add: tracked_def)
  note view = written_state_ok(2) [OF ok, of tid c x]
  have dirty: "set (sm_trie_dirty ?w) = set (sm_trie_dirty s) \<union> (if chain_key c then {c} else {})"
    by (simp add: written_state_def mark_chain_state_def chain_key_def)
  have in_R: "chain_key c = (c \<in> R)" using assms(5,6) by blast
  have "sm_trie ?w = sm_trie s" by (simp add: written_state_def)
  then have "stale E R (set (sm_trie_dirty ?w)) ?w"
    using assms(1) in_R unfolding tracked_def stale_def dirty view by (cases "c \<in> R") auto
  moreover have "journals_within R ?w"
    unfolding journals_within_def
  proof (intro allI impI)
    fix n j a
    assume "map_of (sm_journal ?w) n = Some j" "a \<in> fst ` set j" "chain_key a"
    moreover from this have "a = c \<or> (\<exists>j'. map_of (sm_journal s) n = Some j' \<and> a \<in> fst ` set j')"
      using recorded_member [of E tid c s n j a] by (simp add: written_state_def)
    ultimately show "a \<in> R" using assms(1,5) unfolding tracked_def journals_within_def by blast
  qed
  moreover have "set (sm_trie_dirty ?w) \<subseteq> R"
    using assms(1,5) dirty by (auto simp: tracked_def)
  ultimately show ?thesis
    using written_state_ok(1) [OF ok] written_faithful assms(1-3) by (simp add: tracked_def)
qed

lemma evict_tracked:
  assumes "tracked E R s" "\<forall>b \<in> R. chain_key b"
  shows "tracked E R (maybe_evict_cache s)"
proof -
  have ok: "sm_ok E s" using assms(1) by (simp add: tracked_def)
  show ?thesis
    using assms(1) evict_ok [OF ok] evict_faithful
    by (intro tracked_from [OF assms]) (simp_all add: tracked_def journals_from_same)
qed

lemma set_tracked:
  assumes "tracked E R s" "faithful E x" "account_key (canonicalize a)"
    and "chain_key (canonicalize a) \<Longrightarrow> canonicalize a \<in> R" "\<forall>b \<in> R. chain_key b"
  shows "tracked E R (snd (sm_set_account E tid a x s))"
proof -
  have "sm_ok E s" using assms(1) by (simp add: tracked_def)
  then have "snd (sm_set_account E tid a x s) = maybe_evict_cache (written_state E tid (canonicalize a) x s)"
    using sm_set_eq [of E s a tid x] assms(3) by simp
  with evict_tracked [OF written_tracked [OF assms(1-3) canonicalize_idem assms(4,5), of tid] assms(5)]
  show ?thesis by simp
qed

lemma checkpoint_tracked:
  assumes "tracked E R s" "\<forall>b \<in> R. chain_key b"
  shows "tracked E R (snd (sm_checkpoint tid s))"
proof (rule tracked_from [OF assms])
  have ok: "sm_ok E s" using assms(1) by (simp add: tracked_def)
  show j: "journals_from s (snd (sm_checkpoint tid s))"
    by (simp add: journals_from_def checkpoint_fields)
  show "faithful_state E (snd (sm_checkpoint tid s))"
    using assms(1) by (intro faithful_from [OF _ j]) (auto simp: tracked_def faithful_state_def checkpoint_fields)
qed (use assms(1) checkpoint_ok [of E s tid] in \<open>simp_all add: tracked_def checkpoint_fields\<close>)

lemma commit_tracked:
  assumes "tracked E R s" "\<forall>b \<in> R. chain_key b"
  shows "tracked E R (snd (sm_commit_checkpoint tid n s))"
proof (rule tracked_from [OF assms])
  show j: "journals_from s (snd (sm_commit_checkpoint tid n s))"
    by (simp add: journals_from_def sm_commit_fields delete_conv')
  show "faithful_state E (snd (sm_commit_checkpoint tid n s))"
    using assms(1) by (intro faithful_from [OF _ j]) (auto simp: tracked_def faithful_state_def sm_commit_fields)
qed (use assms(1) sm_commit_ok [of E s tid n] in \<open>simp_all add: tracked_def sm_commit_fields\<close>)

text \<open>A revert marks what it restores.\<close>

lemma restore_entry_dirty:
  "set (sm_trie_dirty (restore_entry (a, old) s)) = set (sm_trie_dirty s) \<union> (if chain_key a then {a} else {})"
  by (simp add: restore_entry_def Let_def chain_key_def cache_insert_def split: option.split)

lemma restore_fold_dirty:
  "set (sm_trie_dirty (fold restore_entry j s)) = set (sm_trie_dirty s) \<union> {a \<in> fst ` set j. chain_key a}"
proof (induction j arbitrary: s)
  case (Cons e j)
  obtain a old where "e = (a, old)" by (cases e)
  with Cons show ?case by (auto simp: restore_entry_dirty)
qed simp

lemma restore_fold_faithful:
  assumes "\<And>a entry x. map_of (sm_cache s) a = Some entry \<Longrightarrow> ce_slot entry = Present x \<Longrightarrow> faithful E x"
    and "\<And>a x. (a, Some x) \<in> set j \<Longrightarrow> faithful E x"
    and "map_of (sm_cache (fold restore_entry j s)) a = Some entry" "ce_slot entry = Present x"
  shows "faithful E x"
  using assms
proof (induction j arbitrary: s)
  case Nil
  then show ?case by simp
next
  case (Cons e j)
  obtain b old where e: "e = (b, old)" by (cases e)
  show ?case
  proof (rule Cons.IH)
    show "faithful E y" if "map_of (sm_cache (restore_entry e s)) c = Some en" "ce_slot en = Present y" for c en y
    proof (cases "c = b")
      case True
      with that have "old = Some y"
        by (auto simp: e restore_entry_cache cache_insert_def old_slot_def split: option.splits)
      then show ?thesis using Cons.prems(2) [of b] e by simp
    next
      case False
      with that have "map_of (sm_cache s) c = Some en"
        by (simp add: e restore_entry_cache cache_insert_def)
      then show ?thesis using Cons.prems(1) that(2) by blast
    qed
    show "faithful E y" if "(c, Some y) \<in> set j" for c y by (rule Cons.prems(2) [of c]) (simp add: that)
    show "map_of (sm_cache (fold restore_entry j (restore_entry e s))) a = Some entry"
      using Cons.prems(3) by simp
  qed (rule Cons.prems(4))
qed

lemma revert_tracked:
  assumes "tracked E R s" "\<forall>b \<in> R. chain_key b"
  shows "tracked E R (snd (sm_revert_checkpoint tid n s))"
proof (cases "map_of (sm_journal s) n")
  case None
  have ok: "sm_ok E s" using assms(1) by (simp add: tracked_def)
  let ?s = "snd (sm_revert_checkpoint tid n s)"
  have eq: "?s = close_checkpoint_in_gate (s\<lparr>sm_active := (sm_active s)(tid := 0)\<rparr>)"
    using None by (simp add: sm_revert_checkpoint_def)
  show ?thesis
  proof (rule tracked_from [OF assms])
    show "sm_ok E ?s" using ok by (simp add: eq close_checkpoint_in_gate_def sm_ok_def clean_ok_def journals_ok_def)
    show "faithful_state E ?s"
      using assms(1) by (simp add: eq close_checkpoint_in_gate_def faithful_state_def tracked_def)
    show "sm_view E ?s a = sm_view E s a" for a
      using sm_view_cong [of ?s s E] by (simp add: eq close_checkpoint_in_gate_def)
  qed (simp_all add: eq close_checkpoint_in_gate_def journals_from_same)
next
  case (Some j)
  have ok: "sm_ok E s" and faith: "faithful_state E s" and within: "journals_within R s"
    using assms(1) by (simp_all add: tracked_def)
  have d: "distinct (map fst j)" using ok Some by (auto simp: sm_ok_def journals_ok_def)
  let ?s = "reverted tid n j s"
  have eq: "snd (sm_revert_checkpoint tid n s) = ?s" using revert_eq [OF Some] by simp
  have keys: "a \<in> R" if "a \<in> fst ` set j" "chain_key a" for a
    using within Some that unfolding journals_within_def by blast
  have dirty: "set (sm_trie_dirty ?s) = set (sm_trie_dirty s) \<union> {a \<in> fst ` set j. chain_key a}"
    by (simp add: reverted_def close_checkpoint_in_gate_def restore_fold_dirty)
  have trie: "sm_trie ?s = sm_trie s"
    by (simp add: reverted_def close_checkpoint_in_gate_def restore_fold_fields)
  have view: "sm_view E ?s = restored j (sm_view E s)" using reverted_ok(2) [OF ok d] .
  have same: "restored j (sm_view E s) a = sm_view E s a" if "a \<notin> fst ` set j" for a
    using that by (simp add: restored_def map_of_eq_None_iff [THEN iffD2])
  have from_s: "journals_from s ?s"
    by (simp add: journals_from_def reverted_def close_checkpoint_in_gate_def restore_fold_fields delete_conv')
  have "(a, Some x) \<in> set j \<Longrightarrow> faithful E x" for a x
    using faith Some d map_of_eq_Some_iff [of j] unfolding faithful_state_def by metis
  then have "faithful_state E ?s"
    using faith restore_fold_faithful [of "s\<lparr>sm_journal := AList.delete n (sm_journal s)\<rparr>" E j]
    by (intro faithful_from [OF faith from_s])
      (auto simp: reverted_def close_checkpoint_in_gate_def restore_fold_fields faithful_state_def)
  moreover have "stale E R (set (sm_trie_dirty ?s)) ?s"
    unfolding stale_def view trie dirty
    using assms keys same unfolding tracked_def stale_def
    by (metis (no_types, lifting) DiffD1 DiffD2 DiffI UnCI mem_Collect_eq)
  moreover have "set (sm_trie_dirty ?s) \<subseteq> R" using dirty keys assms(1) by (auto simp: tracked_def)
  ultimately show ?thesis
    using reverted_ok(1) [OF ok d] journals_within_from [OF within from_s] by (simp add: tracked_def eq)
qed

section \<open>The root\<close>

lemma update_leaf_ok:
  assumes "roster_ok E R" "trie_inv (sv_keccak E) t" "\<And>x. account = Some x \<Longrightarrow> faithful E x"
  shows "\<exists>t'. update_leaf E a account t = Inr t' \<and> trie_inv (sv_keccak E) t' \<and>
    trie_view t' = (trie_view t)(account_leaf_key E a := map_option (leaf E) account)"
proof -
  have len: "length (account_leaf_key E a) = 32" "\<And>x. length (leaf E x) = 32"
    using assms(1) by (simp_all add: roster_ok_def account_leaf_key_def leaf_def)
  show ?thesis
  proof (cases account)
    case None
    then show ?thesis using trie_remove_ok [OF assms(2) len(1)] by (simp add: update_leaf_def)
  next
    case (Some x)
    then show ?thesis
      using trie_insert_ok [OF assms(2) len] faithful_leaf [OF assms(3) [OF Some]]
      by (simp add: update_leaf_def)
  qed
qed

text \<open>The loop of \<open>sync_trie_dirty\<close>: \<open>as\<close> are the addresses still to do.\<close>

lemma sync_loop_ok:
  assumes ro: "roster_ok E R"
    and "sm_ok E s" "faithful_state E s" "journals_within R s" "stale E R (set as) s"
    and "set (sm_trie_dirty s) \<subseteq> set as" "set as \<subseteq> R"
  shows "\<exists>s'. sync_trie_loop E as s = (Inr (), s') \<and> tracked E R s' \<and> sm_trie_dirty s' = [] \<and>
    sm_view E s' = sm_view E s"
  using assms(2-)
proof (induction as arbitrary: s)
  case Nil
  then show ?case by (simp add: tracked_def)
next
  case (Cons a as)
  have chain: "\<forall>b \<in> R. chain_key b" and canon: "canonicalize a = a" and a: "a \<in> R"
    and inj: "inj_on (account_leaf_key E) R"
    using ro Cons.prems(6) by (auto simp: roster_ok_def)
  have key: "account_key a" using chain a chain_account_key by blast
  define s0 where "s0 = s\<lparr>sm_trie_dirty := removeAll a (sm_trie_dirty s)\<rparr>"
  have s0: "sm_ok E s0" "sm_view E s0 = sm_view E s" "sm_trie s0 = sm_trie s"
      "sm_storage s0 = sm_storage s" "sm_cache s0 = sm_cache s" "sm_journal s0 = sm_journal s"
      "set (sm_trie_dirty s0) = set (sm_trie_dirty s) - {a}"
    using Cons.prems(1) sm_ok_cong [of s0 s E] sm_view_cong [of s0 s E] by (simp_all add: s0_def)
  have f0: "faithful_state E s0" using Cons.prems(2) s0 by (simp add: faithful_state_def)
  obtain s1 where s1: "sm_get_account E a s0 = (Inr (sm_view E s a), s1)" "sm_ok E s1"
      "sm_view E s1 = sm_view E s" "sm_journal s1 = sm_journal s" "sm_trie s1 = sm_trie s"
      "sm_trie_dirty s1 = sm_trie_dirty s0"
    using sm_get_ok [OF s0(1), of a] canon key s0 by auto
  have f1: "faithful_state E s1" using get_faithful [OF f0 s1(1)] canon key by simp
  obtain t where t: "update_leaf E a (sm_view E s a) (sm_trie s) = Inr t" "trie_inv (sv_keccak E) t"
      "trie_view t = (trie_view (sm_trie s))(account_leaf_key E a := map_option (leaf E) (sm_view E s a))"
    using update_leaf_ok [OF ro, of "sm_trie s" "sm_view E s a" a] Cons.prems(2,4)
      faithful_view [OF Cons.prems(2) key] by (auto simp: stale_def)
  define s2 where "s2 = s1\<lparr>sm_trie := t\<rparr>"
  have v2: "sm_view E s2 = sm_view E s" using sm_view_cong [of s2 s1 E] s1(3) by (simp add: s2_def)
  have "stale E R (set as) s2"
    unfolding stale_def v2
  proof (intro conjI ballI)
    show "trie_inv (sv_keccak E) (sm_trie s2)" using t by (simp add: s2_def)
    show "dom (trie_view (sm_trie s2)) \<subseteq> account_leaf_key E ` R"
      using Cons.prems(4) a by (auto simp: s2_def t(3) stale_def split: if_splits)
    show "\<forall>b. chain_key b \<longrightarrow> b \<notin> R \<longrightarrow> sm_view E s b = None" using Cons.prems(4) by (simp add: stale_def)
    fix b assume b: "b \<in> R - set as"
    show "trie_view (sm_trie s2) (account_leaf_key E b) = map_option (leaf E) (sm_view E s b)"
    proof (cases "b = a")
      case True
      then show ?thesis by (simp add: s2_def t(3))
    next
      case False
      then have "account_leaf_key E b \<noteq> account_leaf_key E a"
        using inj a b unfolding inj_on_def by blast
      then show ?thesis using Cons.prems(4) b False by (simp add: s2_def t(3) stale_def)
    qed
  qed
  moreover have "sm_ok E s2" using s1(2) sm_ok_cong [of s2 s1 E] by (simp add: s2_def)
  moreover have "faithful_state E s2" using f1 by (simp add: s2_def faithful_state_def)
  moreover have "journals_within R s2" using Cons.prems(3) s1(4) by (simp add: s2_def journals_within_def)
  moreover have "set (sm_trie_dirty s2) \<subseteq> set as"
    using Cons.prems(5) s0(7) s1(6) by (auto simp: s2_def)
  ultimately have "\<exists>s'. sync_trie_loop E as s2 = (Inr (), s') \<and> tracked E R s' \<and> sm_trie_dirty s' = [] \<and>
      sm_view E s' = sm_view E s"
    using Cons.IH [of s2] Cons.prems(6) v2 by simp
  moreover have "sync_trie_loop E (a # as) s = sync_trie_loop E as s2"
    using s1(1,5) t(1) by (simp add: andthen_def s0_def s2_def)
  ultimately show ?case by metis
qed

lemma sync_ok:
  assumes "roster_ok E R" "tracked E R s"
  shows "\<exists>s'. sync_trie_dirty E s = (Inr (), s') \<and> tracked E R s' \<and> sm_trie_dirty s' = [] \<and>
    sm_view E s' = sm_view E s"
  using sync_loop_ok [OF assms(1), of s "sm_trie_dirty s"] assms(2)
  by (simp add: sync_trie_dirty_def tracked_def)

text \<open>Leaves in step with the same accounts make the same tree.\<close>

lemma same_leaves:
  assumes "roster_ok E R" "stale E R {} s" "stale E R {} t" "\<And>a. chain_key a \<Longrightarrow> sm_view E s a = sm_view E t a"
  shows "sm_trie s = sm_trie t"
proof (rule trie_eq_of_view [of "sv_keccak E"])
  show "trie_view (sm_trie s) = trie_view (sm_trie t)"
  proof
    fix k
    show "trie_view (sm_trie s) k = trie_view (sm_trie t) k"
    proof (cases "k \<in> account_leaf_key E ` R")
      case True
      then obtain a where "a \<in> R" "k = account_leaf_key E a" by blast
      then show ?thesis
        using assms by (auto simp: stale_def roster_ok_def)
    next
      case False
      then have "k \<notin> dom (trie_view (sm_trie s))" "k \<notin> dom (trie_view (sm_trie t))"
        using assms(2,3) unfolding stale_def by blast+
      then show ?thesis by (simp add: domIff)
    qed
  qed
qed (use assms(2,3) in \<open>simp_all add: stale_def\<close>)

lemma state_root_ok:
  assumes "roster_ok E R" "tracked E R s"
  shows "\<exists>s'. sm_state_root E s = (Inr (root_hash (sv_keccak E) (sm_trie s')), s') \<and> tracked E R s' \<and>
    stale E R {} s' \<and> sm_view E s' = sm_view E s"
proof -
  obtain s' where "sync_trie_dirty E s = (Inr (), s')" "tracked E R s'" "sm_trie_dirty s' = []"
    "sm_view E s' = sm_view E s"
    using sync_ok [OF assms] by blast
  then show ?thesis by (auto simp: sm_state_root_def andthen_def tracked_def)
qed

lemma root_of_accounts:
  assumes "roster_ok E R" "tracked E R s" "tracked E R t" "\<And>a. chain_key a \<Longrightarrow> sm_view E s a = sm_view E t a"
  shows "\<exists>root. fst (sm_state_root E s) = Inr root \<and> fst (sm_state_root E t) = Inr root"
proof -
  obtain s' where s': "sm_state_root E s = (Inr (root_hash (sv_keccak E) (sm_trie s')), s')"
      "stale E R {} s'" "sm_view E s' = sm_view E s"
    using state_root_ok [OF assms(1,2)] by blast
  obtain t' where t': "sm_state_root E t = (Inr (root_hash (sv_keccak E) (sm_trie t')), t')"
      "stale E R {} t'" "sm_view E t' = sm_view E t"
    using state_root_ok [OF assms(1,3)] by blast
  have "sm_trie s' = sm_trie t'"
    using same_leaves [OF assms(1) s'(2) t'(2)] assms(4) s'(3) t'(3) by simp
  with s' t' show ?thesis by simp
qed

section \<open>Flushing\<close>

text \<open>The row of a faithful entry.\<close>

definition row :: "state_env \<Rightarrow> cache_slot \<Rightarrow> bytes option" where
  "row E slot = (case slot of Present x \<Rightarrow> sv_serialize E x | Deleted \<Rightarrow> None)"

lemma row_of_ok:
  "(\<And>x. slot = Present x \<Longrightarrow> faithful E x) \<Longrightarrow> row_of E slot = Inr (row E slot)"
  by (cases slot) (auto simp: row_of_def row_def faithful_def split: option.split)

lemma row_reads_back:
  "(\<And>x. slot = Present x \<Longrightarrow> faithful E x) \<Longrightarrow>
    (case row E slot of None \<Rightarrow> None | Some b \<Rightarrow> deserialize_with_migration (sv_decoders E) b) = slot_account slot"
  by (cases slot) (auto simp: row_def slot_account_def faithful_def)

definition cleared :: "address set \<Rightarrow> (address \<rightharpoonup> cache_entry) \<Rightarrow> address \<rightharpoonup> cache_entry" where
  "cleared A m = (\<lambda>a. if a \<in> A then map_option (\<lambda>e. e\<lparr>ce_dirty := False\<rparr>) (m a) else m a)"

lemma collect_batch_ok:
  assumes "distinct as" "\<And>a. a \<in> set as \<Longrightarrow> \<exists>e. map_of (sm_cache s) a = Some e \<and> ce_dirty e"
    and "\<And>a e x. map_of (sm_cache s) a = Some e \<Longrightarrow> ce_slot e = Present x \<Longrightarrow> faithful E x"
    and "distinct (map fst (sm_cache s))"
  shows "\<exists>cache. collect_batch E as batch s =
      (Inr (batch @ map (\<lambda>a. (a, row E (ce_slot (the (map_of (sm_cache s) a))))) as), s\<lparr>sm_cache := cache\<rparr>) \<and>
    map_of cache = cleared (set as) (map_of (sm_cache s)) \<and> distinct (map fst cache)"
  using assms
proof (induction as arbitrary: s batch)
  case Nil
  then show ?case by (intro exI [of _ "sm_cache s"]) (simp add: cleared_def)
next
  case (Cons a as)
  obtain e where e: "map_of (sm_cache s) a = Some e" "ce_dirty e" using Cons.prems(2) [of a] by auto
  have r: "row_of E (ce_slot e) = Inr (row E (ce_slot e))"
    using Cons.prems(3) [OF e(1)] by (rule row_of_ok)
  let ?s = "clear_dirty a e s"
  have fresh: "a \<notin> set as" using Cons.prems(1) by simp
  have m: "map_of (sm_cache ?s) = (map_of (sm_cache s))(a \<mapsto> e\<lparr>ce_dirty := False\<rparr>)"
    by (simp add: clear_dirty_def)
  have other: "map_of (sm_cache ?s) b = map_of (sm_cache s) b" if "b \<in> set as" for b
    using that fresh m by auto
  have "\<exists>cache. collect_batch E as (batch @ [(a, row E (ce_slot e))]) ?s =
      (Inr ((batch @ [(a, row E (ce_slot e))]) @ map (\<lambda>a. (a, row E (ce_slot (the (map_of (sm_cache ?s) a))))) as),
        ?s\<lparr>sm_cache := cache\<rparr>) \<and>
    map_of cache = cleared (set as) (map_of (sm_cache ?s)) \<and> distinct (map fst cache)"
  proof (rule Cons.IH)
    show "distinct as" using Cons.prems(1) by simp
    show "\<exists>e. map_of (sm_cache ?s) b = Some e \<and> ce_dirty e" if "b \<in> set as" for b
      using Cons.prems(2) [of b] that other by simp
    show "faithful E x" if "map_of (sm_cache ?s) b = Some en" "ce_slot en = Present x" for b en x
      using that Cons.prems(3) e(1) m by (auto split: if_splits)
    show "distinct (map fst (sm_cache ?s))" using Cons.prems(4) by (simp add: clear_dirty_def distinct_update)
  qed
  then obtain cache where c: "collect_batch E as (batch @ [(a, row E (ce_slot e))]) ?s =
      (Inr ((batch @ [(a, row E (ce_slot e))]) @ map (\<lambda>a. (a, row E (ce_slot (the (map_of (sm_cache ?s) a))))) as),
        ?s\<lparr>sm_cache := cache\<rparr>)"
    "map_of cache = cleared (set as) (map_of (sm_cache ?s))" "distinct (map fst cache)" by blast
  have rows: "map (\<lambda>a. (a, row E (ce_slot (the (map_of (sm_cache ?s) a))))) as =
      map (\<lambda>a. (a, row E (ce_slot (the (map_of (sm_cache s) a))))) as"
    using other by simp
  have cl: "cleared (set as) (map_of (sm_cache ?s)) = cleared (set (a # as)) (map_of (sm_cache s))"
    using e fresh by (auto simp: cleared_def m fun_eq_iff)
  have "collect_batch E (a # as) batch s = collect_batch E as (batch @ [(a, row E (ce_slot e))]) ?s"
    using e r by simp
  moreover have "?s\<lparr>sm_cache := cache\<rparr> = s\<lparr>sm_cache := cache\<rparr>" by (simp add: clear_dirty_def)
  ultimately show ?case using c rows cl e(1) by (intro exI [of _ cache]) simp
qed

lemma map_of_write_rows:
  "distinct (map fst kvs) \<Longrightarrow>
    map_of (write_rows kvs rows) k = (case map_of kvs k of Some v \<Rightarrow> v | None \<Rightarrow> map_of rows k)"
proof (induction kvs rows rule: write_rows.induct)
  case (1 rows)
  then show ?case by simp
next
  case (2 k' v kvs rows)
  then have "map_of kvs k' = None" by (simp add: map_of_eq_None_iff)
  with 2 show ?case by (auto split: option.split)
next
  case (3 k' kvs rows)
  then have "map_of kvs k' = None" by (simp add: map_of_eq_None_iff)
  with 3 show ?case by (auto simp: delete_conv' split: option.split)
qed

lemma flush_gate_fields [simp]:
  "sm_cache (set_flush_active b s) = sm_cache s" "sm_storage (set_flush_active b s) = sm_storage s"
  "sm_journal (set_flush_active b s) = sm_journal s" "sm_trie (set_flush_active b s) = sm_trie s"
  "sm_trie_dirty (set_flush_active b s) = sm_trie_dirty s" "sm_active (set_flush_active b s) = sm_active s"
  by (simp_all add: set_flush_active_def)

text \<open>What a flush body leaves: a clean cache over rows that say what the cache said.\<close>

definition flushed :: "state_env \<Rightarrow> state_manager \<Rightarrow> state_manager \<Rightarrow> bool" where
  "flushed E s s' \<longleftrightarrow> sm_ok E s' \<and> faithful_state E s' \<and> sm_view E s' = sm_view E s \<and>
     disk_view E (sm_storage s') = sm_view E s \<and>
     (\<forall>a e. map_of (sm_cache s') a = Some e \<longrightarrow> \<not> ce_dirty e) \<and>
     sm_journal s' = sm_journal s \<and> sm_trie s' = sm_trie s \<and> sm_trie_dirty s' = sm_trie_dirty s \<and>
     sm_active s' = sm_active s \<and> st_fault (sm_storage s') = st_fault (sm_storage s) \<and>
     st_write_fault (sm_storage s') = st_write_fault (sm_storage s)"

lemma dirty_member:
  assumes "distinct (map fst cache)"
  shows "a \<in> set (map fst (filter (\<lambda>(a, e). ce_dirty e) cache)) \<longleftrightarrow> (\<exists>e. map_of cache a = Some e \<and> ce_dirty e)"
  using map_of_eq_Some_iff [OF assms, of a] by force

lemma flush_body_ok:
  assumes "sm_ok E s" "faithful_state E s" "st_write_fault (sm_storage s) = None"
  shows "\<exists>s'. flush_with_gate_claimed E s = (Inr (), s') \<and> flushed E s s'"
proof -
  let ?c = "map fst (filter (\<lambda>(a, e). ce_dirty e) (sm_cache s))"
  let ?v = "\<lambda>a. row E (ce_slot (the (map_of (sm_cache s) a)))"
  have d: "distinct (map fst (sm_cache s))" using assms(1) by (simp add: sm_ok_def journals_ok_def)
  note member = dirty_member [OF d]
  have faith: "faithful E x" if "map_of (sm_cache s) a = Some e" "ce_slot e = Present x" for a e x
    using assms(2) that unfolding faithful_state_def by blast
  have clean: "slot_account (ce_slot e) = disk_view E (sm_storage s) a"
    if "map_of (sm_cache s) a = Some e" "\<not> ce_dirty e" for a e
    using assms(1) that unfolding sm_ok_def clean_ok_def by blast
  show ?thesis
  proof (cases "?c = []")
    case True
    then have all: "\<not> ce_dirty e" if "map_of (sm_cache s) a = Some e" for a e
      using member [of a] that by auto
    then have "disk_view E (sm_storage s) = sm_view E s"
      using clean by (auto simp: sm_view_def fun_eq_iff split: option.split)
    with assms all True show ?thesis by (auto simp: flush_with_gate_claimed_def Let_def flushed_def)
  next
    case False
    have "distinct ?c" using d by (rule distinct_map_filter)
    then obtain cache where c: "collect_batch E ?c [] s = (Inr (map (\<lambda>a. (a, ?v a)) ?c), s\<lparr>sm_cache := cache\<rparr>)"
      "map_of cache = cleared (set ?c) (map_of (sm_cache s))" "distinct (map fst cache)"
      using collect_batch_ok [of ?c s E "[]"] member faith d by auto
    define rows where "rows = write_rows (map (\<lambda>a. (a, ?v a)) ?c) (st_rows (sm_storage s))"
    define s' where "s' = s\<lparr>sm_cache := cache, sm_storage := (sm_storage s)\<lparr>st_rows := rows\<rparr>\<rparr>"
    have run: "flush_with_gate_claimed E s = (Inr (), s')"
      using False c(1) assms(3)
      by (simp add: flush_with_gate_claimed_def Let_def andthen_def st_write_batch_def s'_def rows_def)
    have rows: "map_of rows a = (if a \<in> set ?c then ?v a else map_of (st_rows (sm_storage s)) a)" for a
    proof -
      have keys: "map fst (map (\<lambda>a. (a, ?v a)) ?c) = ?c" by (simp add: comp_def)
      have "map_of (map (\<lambda>a. (a, ?v a)) ?c) a = (if a \<in> set ?c then Some (?v a) else None)"
        by (simp only: map_of_map_restrict restrict_map_def comp_def)
      then show ?thesis
        unfolding rows_def using map_of_write_rows [of "map (\<lambda>a. (a, ?v a)) ?c"] \<open>distinct ?c\<close>
        by (simp only: keys) (simp only: if_distrib [of "case_option _ _"] option.case split: if_split)
    qed
    have slot: "map_of cache a = None \<longleftrightarrow> map_of (sm_cache s) a = None"
      "map_of cache a = Some e' \<Longrightarrow> \<exists>e. map_of (sm_cache s) a = Some e \<and> ce_slot e' = ce_slot e" for a e'
      by (auto simp: c(2) cleared_def split: if_splits)
    have undirty: "\<not> ce_dirty e" if "map_of cache a = Some e" for a e
      using that member [of a] by (auto simp: c(2) cleared_def split: if_splits)
    have disk: "disk_view E (sm_storage s') = sm_view E s"
    proof
      fix a
      show "disk_view E (sm_storage s') a = sm_view E s a"
      proof (cases "a \<in> set ?c")
        case True
        then obtain e where e: "map_of (sm_cache s) a = Some e" using member by blast
        then have "disk_view E (sm_storage s') a =
            (case row E (ce_slot e) of None \<Rightarrow> None | Some b \<Rightarrow> deserialize_with_migration (sv_decoders E) b)"
          using True by (simp add: disk_view_def s'_def rows)
        then show ?thesis using e row_reads_back [OF faith [OF e]] by (simp add: sm_view_def)
      next
        case False
        then have "disk_view E (sm_storage s') a = disk_view E (sm_storage s) a"
          by (simp add: disk_view_def s'_def rows)
        then show ?thesis
          using False member [of a] clean [of a] by (auto simp: sm_view_def split: option.split)
      qed
    qed
    have view: "sm_view E s' a = sm_view E s a" for a
    proof (cases "map_of cache a")
      case None
      then have "sm_view E s' a = disk_view E (sm_storage s') a" by (simp add: sm_view_def s'_def)
      then show ?thesis by (simp add: disk)
    next
      case (Some e')
      then show ?thesis using slot(2) [OF Some] by (auto simp: sm_view_def s'_def)
    qed
    have "readable E (sm_storage s')"
      unfolding readable_def
    proof (intro allI impI conjI)
      fix a assume key: "account_key a"
      show "st_fault (sm_storage s') a = None"
        using assms(1) key by (simp add: s'_def sm_ok_def readable_def)
      fix b assume b: "map_of (st_rows (sm_storage s')) a = Some b"
      show "deserialize_with_migration (sv_decoders E) b \<noteq> None"
      proof (cases "a \<in> set ?c")
        case True
        then obtain e where e: "map_of (sm_cache s) a = Some e" using member by blast
        with True b have "row E (ce_slot e) = Some b" by (simp add: s'_def rows)
        then obtain x where "ce_slot e = Present x" "sv_serialize E x = Some b"
          by (auto simp: row_def split: cache_slot.splits)
        with faith [OF e] show ?thesis by (auto simp: faithful_def)
      next
        case False
        with b key assms(1) show ?thesis by (simp add: s'_def rows sm_ok_def readable_def)
      qed
    qed
    moreover have "clean_ok E s'"
      unfolding clean_ok_def
    proof (intro allI impI)
      fix a e' assume "map_of (sm_cache s') a = Some e'"
      then have "sm_view E s' a = slot_account (ce_slot e')" by (simp add: sm_view_def)
      then show "slot_account (ce_slot e') = disk_view E (sm_storage s') a" by (simp add: disk view)
    qed
    ultimately have ok: "sm_ok E s'"
      using assms(1) c(3) by (simp add: sm_ok_def journals_ok_def s'_def)
    have faithful: "faithful_state E s'"
      using assms(2) faithful_view [OF assms(2)] slot(2) faith
      unfolding faithful_state_def faithful_rows_def disk
      by (simp add: s'_def) metis
    show ?thesis
      using run ok faithful disk view undirty by (intro exI [of _ s']) (auto simp: flushed_def s'_def fun_eq_iff)
  qed
qed

lemma flushed_tracked:
  assumes "tracked E R s" "\<forall>b \<in> R. chain_key b" "flushed E s s'"
  shows "tracked E R s'"
  using assms(3) by (intro tracked_from [OF assms(1,2)]) (simp_all add: flushed_def journals_from_same)

lemma gate_tracked:
  assumes "tracked E R s" "\<forall>b \<in> R. chain_key b"
  shows "tracked E R (set_flush_active b s)" "sm_view E (set_flush_active b s) = sm_view E s"
proof -
  show view: "sm_view E (set_flush_active b s) = sm_view E s" by (rule sm_view_cong) simp_all
  show "tracked E R (set_flush_active b s)"
    using assms(1) view sm_ok_cong [of "set_flush_active b s" s E]
    by (intro tracked_from [OF assms]) (simp_all add: tracked_def journals_from_same faithful_state_def)
qed

lemma flush_ok:
  assumes "tracked E R s" "\<forall>b \<in> R. chain_key b" "st_write_fault (sm_storage s) = None"
  shows "\<exists>s'. sm_flush E s = (Inr (), s') \<and> tracked E R s' \<and> sm_view E s' = sm_view E s \<and>
    disk_view E (sm_storage s') = sm_view E s \<and> st_write_fault (sm_storage s') = None"
proof -
  let ?s = "set_flush_active True s"
  have t: "tracked E R ?s" "sm_view E ?s = sm_view E s" using gate_tracked [OF assms(1,2)] by simp_all
  then obtain s1 where s1: "flush_with_gate_claimed E ?s = (Inr (), s1)" "flushed E ?s s1"
    using flush_body_ok [of E ?s] assms(3) by (auto simp: tracked_def)
  then have "tracked E R s1" using flushed_tracked [OF t(1) assms(2)] by blast
  from gate_tracked [OF this assms(2), of False] s1 t(2) assms(3) show ?thesis
    by (auto simp: sm_flush_def flushed_def)
qed

text \<open>A write that fails leaves every address as dirty as it was.\<close>

lemma map_of_mark_dirty:
  "map_of (mark_dirty_again as cache) a =
     (if a \<in> set as then map_option (\<lambda>e. e\<lparr>ce_dirty := True\<rparr>) (map_of cache a) else map_of cache a)"
proof (induction as cache rule: mark_dirty_again.induct)
  case (1 cache)
  then show ?case by simp
next
  case (2 b as cache)
  then show ?case by (cases "map_of cache b") (auto simp: option.map_comp comp_def)
qed

lemma distinct_mark_dirty: "distinct (map fst cache) \<Longrightarrow> distinct (map fst (mark_dirty_again as cache))"
  by (induction as cache rule: mark_dirty_again.induct) (auto simp: distinct_update split: option.split)

lemma flush_body_failed:
  assumes "sm_ok E s" "faithful_state E s" "st_write_fault (sm_storage s) = Some err"
  shows "\<exists>r cache. flush_with_gate_claimed E s = (r, s\<lparr>sm_cache := cache\<rparr>) \<and>
    map_of cache = map_of (sm_cache s) \<and> distinct (map fst cache) \<and>
    (r = Inl err \<or> (\<forall>a e. map_of (sm_cache s) a = Some e \<longrightarrow> \<not> ce_dirty e))"
proof -
  let ?c = "map fst (filter (\<lambda>(a, e). ce_dirty e) (sm_cache s))"
  let ?v = "\<lambda>a. row E (ce_slot (the (map_of (sm_cache s) a)))"
  have d: "distinct (map fst (sm_cache s))" using assms(1) by (simp add: sm_ok_def journals_ok_def)
  note member = dirty_member [OF d]
  show ?thesis
  proof (cases "?c = []")
    case True
    then have "\<not> ce_dirty e" if "map_of (sm_cache s) a = Some e" for a e
      using member [of a] that by auto
    with True d show ?thesis
      by (intro exI [of _ "Inr ()"] exI [of _ "sm_cache s"]) (simp add: flush_with_gate_claimed_def Let_def)
  next
    case False
    have faith: "faithful E x" if "map_of (sm_cache s) a = Some e" "ce_slot e = Present x" for a e x
      using assms(2) that unfolding faithful_state_def by blast
    have "distinct ?c" using d by (rule distinct_map_filter)
    then obtain cache where c: "collect_batch E ?c [] s = (Inr (map (\<lambda>a. (a, ?v a)) ?c), s\<lparr>sm_cache := cache\<rparr>)"
      "map_of cache = cleared (set ?c) (map_of (sm_cache s))" "distinct (map fst cache)"
      using collect_batch_ok [of ?c s E "[]"] member faith d by auto
    have "map_of (mark_dirty_again ?c cache) a = map_of (sm_cache s) a" for a
      using member [of a] by (auto simp: map_of_mark_dirty c(2) cleared_def option.map_comp comp_def)
    moreover have "flush_with_gate_claimed E s = (Inl err, s\<lparr>sm_cache := mark_dirty_again ?c cache\<rparr>)"
      using False c(1) assms(3) by (simp add: flush_with_gate_claimed_def Let_def andthen_def st_write_batch_def comp_def)
    ultimately show ?thesis using distinct_mark_dirty [OF c(3)] by blast
  qed
qed

lemma flush_tracked:
  assumes "tracked E R s" "\<forall>b \<in> R. chain_key b"
  shows "tracked E R (snd (sm_flush E s)) \<and> sm_view E (snd (sm_flush E s)) = sm_view E s"
proof (cases "st_write_fault (sm_storage s)")
  case None
  from flush_ok [OF assms None] show ?thesis by auto
next
  case (Some err)
  let ?s = "set_flush_active True s"
  have t: "tracked E R ?s" "sm_view E ?s = sm_view E s" using gate_tracked [OF assms] by simp_all
  then obtain r cache where c: "flush_with_gate_claimed E ?s = (r, ?s\<lparr>sm_cache := cache\<rparr>)"
      "map_of cache = map_of (sm_cache ?s)" "distinct (map fst cache)"
    using flush_body_failed [of E ?s err] Some by (auto simp: tracked_def)
  let ?t = "?s\<lparr>sm_cache := cache\<rparr>"
  have view: "sm_view E ?t = sm_view E ?s" using c(2) by (simp add: sm_view_def fun_eq_iff split: option.split)
  have "tracked E R ?t"
  proof (rule tracked_from [OF t(1) assms(2)])
    show "sm_ok E ?t" using t(1) c by (simp add: tracked_def sm_ok_def clean_ok_def journals_ok_def)
    show "faithful_state E ?t" using t(1) c(2) by (simp add: tracked_def faithful_state_def)
  qed (simp_all add: view journals_from_same)
  from gate_tracked [OF this assms(2), of False] view t(2) c(1) show ?thesis
    by (simp add: sm_flush_def)
qed

section \<open>Opening\<close>

lemma load_rows_ok:
  assumes ro: "roster_ok E R" and "readable E st" "faithful_rows E st"
    and "\<And>a. a \<in> set ks \<Longrightarrow> map_of (st_rows st) a \<noteq> None" "\<And>a. a \<in> set ks \<Longrightarrow> chain_key a \<Longrightarrow> a \<in> R"
    and "trie_inv (sv_keccak E) t"
  shows "\<exists>t' index'. fold_result (load_row E st) ks (t, index) = Inr (t', index') \<and>
    trie_inv (sv_keccak E) t' \<and>
    (\<forall>a \<in> R. trie_view t' (account_leaf_key E a) =
       (if a \<in> set ks then map_option (leaf E) (disk_view E st a) else trie_view t (account_leaf_key E a))) \<and>
    (\<forall>k. k \<notin> account_leaf_key E ` R \<longrightarrow> trie_view t' k = trie_view t k)"
  using assms(4-)
proof (induction ks arbitrary: t index)
  case Nil
  then show ?case by simp
next
  case (Cons a ks)
  show ?case
  proof (cases "chain_key a")
    case False
    then have "load_row E st a (t, index) = Inr (t, index)" by (simp add: load_row_def chain_key_def)
    moreover have "a \<notin> R" using False ro by (auto simp: roster_ok_def)
    ultimately show ?thesis using Cons.IH [of t index] Cons.prems by auto
  next
    case True
    then have a: "a \<in> R" and canon: "canonicalize a = a" and key: "account_key a"
      using Cons.prems(2) ro chain_account_key by (auto simp: roster_ok_def)
    obtain b x where b: "map_of (st_rows st) a = Some b" and x: "deserialize_with_migration (sv_decoders E) b = Some x"
      using Cons.prems(1) [of a] assms(2) key unfolding readable_def by (metis list.set_intros(1) not_None_eq)
    have disk: "disk_view E st a = Some x" using b x by (simp add: disk_view_def)
    have st: "st_get st a = Inr (Some b)" using b assms(2) key by (simp add: st_get_def readable_def)
    have "faithful E x" using assms(3) key disk by (auto simp: faithful_rows_def)
    then have lv: "account_leaf_value E x = Inr (leaf E x)" by (rule faithful_leaf)
    let ?t = "trie_insert (sv_keccak E) (account_leaf_key E a) (leaf E x) t"
    have ins: "trie_inv (sv_keccak E) ?t"
      "trie_view ?t = (trie_view t)(account_leaf_key E a \<mapsto> leaf E x)"
      using trie_insert_ok [OF Cons.prems(3), of "account_leaf_key E a" "leaf E x"] ro
      by (simp_all add: roster_ok_def account_leaf_key_def leaf_def)
    have load: "load_row E st a (t, index) = Inr (?t, List.insert a index)"
      using True st x lv by (simp add: load_row_def chain_key_def canonicalize_address_eq canon Let_def)
    obtain t' index' where t': "fold_result (load_row E st) ks (?t, List.insert a index) = Inr (t', index')"
        "trie_inv (sv_keccak E) t'"
        "\<forall>c \<in> R. trie_view t' (account_leaf_key E c) =
          (if c \<in> set ks then map_option (leaf E) (disk_view E st c) else trie_view ?t (account_leaf_key E c))"
        "\<forall>k. k \<notin> account_leaf_key E ` R \<longrightarrow> trie_view t' k = trie_view ?t k"
      using Cons.IH [of ?t "List.insert a index"] Cons.prems(1,2) ins(1) by auto
    have "account_leaf_key E c \<noteq> account_leaf_key E a" if "c \<in> R" "c \<noteq> a" for c
      using ro a that unfolding roster_ok_def inj_on_def by blast
    then have "\<forall>c \<in> R. trie_view t' (account_leaf_key E c) =
        (if c \<in> set (a # ks) then map_option (leaf E) (disk_view E st c) else trie_view t (account_leaf_key E c))"
      using t'(3) disk by (auto simp: ins(2))
    moreover have "\<forall>k. k \<notin> account_leaf_key E ` R \<longrightarrow> trie_view t' k = trie_view t k"
      using t'(4) a by (auto simp: ins(2))
    ultimately show ?thesis using t'(1,2) load by (intro exI [of _ t'] exI [of _ index']) simp
  qed
qed

text \<open>Rows a store can open: readable, faithful, and with the chain keys of the roster only.\<close>

definition openable :: "state_env \<Rightarrow> address set \<Rightarrow> storage_engine \<Rightarrow> bool" where
  "openable E R st \<longleftrightarrow> readable E st \<and> faithful_rows E st \<and>
     (\<forall>a. map_of (st_rows st) a \<noteq> None \<longrightarrow> chain_key a \<longrightarrow> a \<in> R)"

lemma open_ok:
  assumes ro: "roster_ok E R" and "openable E R st"
  shows "\<exists>s. sm_new E st = Inr s \<and> tracked E R s \<and> sm_view E s = disk_view E st"
proof -
  let ?ks = "map fst (st_rows st)"
  have in_ks: "map_of (st_rows st) a \<noteq> None \<longleftrightarrow> a \<in> set ?ks" for a
    by (simp add: map_of_eq_None_iff)
  have st: "readable E st" "faithful_rows E st" "\<And>a. a \<in> set ?ks \<Longrightarrow> chain_key a \<Longrightarrow> a \<in> R"
    using assms(2) in_ks unfolding openable_def by blast+
  have empty: "trie_inv (sv_keccak E) trie_new" "trie_view trie_new = Map.empty"
    by (simp_all add: trie_inv_def trie_view_def trie_new_def)
  obtain t index where load: "fold_result (load_row E st) ?ks (trie_new, []) = Inr (t, index)"
      "trie_inv (sv_keccak E) t"
      "\<forall>a \<in> R. trie_view t (account_leaf_key E a) =
         (if a \<in> set ?ks then map_option (leaf E) (disk_view E st a) else None)"
      "\<forall>k. k \<notin> account_leaf_key E ` R \<longrightarrow> trie_view t k = None"
    using load_rows_ok [OF ro st(1,2), of ?ks trie_new "[]"] in_ks st(3) empty by fastforce
  define s where "s = \<lparr>sm_cache = [], sm_storage = st, sm_address_index = index, sm_journal = [],
      sm_next_checkpoint_id = 1, sm_trie = t, sm_trie_dirty = [],
      sm_gate = \<lparr>open_checkpoints = 0, flush_active = False\<rparr>, sm_active = (\<lambda>tid. 0),
      sm_max_cache_entries = DEFAULT_MAX_CACHE_ENTRIES\<rparr>"
  have new: "sm_new E st = Inr s" using load(1) by (simp add: sm_new_def s_def)
  have view: "sm_view E s = disk_view E st" by (simp add: sm_view_def s_def fun_eq_iff)
  have none: "disk_view E st a = None" if "a \<notin> set ?ks" for a
  proof -
    have "map_of (st_rows st) a = None" using that in_ks by blast
    then show ?thesis by (simp add: disk_view_def)
  qed
  have "stale E R {} s"
    unfolding stale_def view
  proof (intro conjI ballI allI impI)
    show "trie_inv (sv_keccak E) (sm_trie s)" using load(2) by (simp add: s_def)
    show "dom (trie_view (sm_trie s)) \<subseteq> account_leaf_key E ` R" using load(4) by (auto simp: s_def)
    show "trie_view (sm_trie s) (account_leaf_key E a) = map_option (leaf E) (disk_view E st a)"
      if "a \<in> R - {}" for a
      using load(3) none that by (simp add: s_def)
    show "disk_view E st a = None" if "chain_key a" "a \<notin> R" for a
      using none st(3) that by blast
  qed
  moreover have "sm_ok E s" using st(1) by (simp add: sm_ok_def clean_ok_def journals_ok_def s_def)
  moreover have "faithful_state E s" using st(2) by (simp add: faithful_state_def s_def)
  ultimately have "tracked E R s" by (simp add: tracked_def journals_within_def s_def)
  with new view show ?thesis by blast
qed

section \<open>Runs\<close>

text \<open>
  What the executor, the producer and the network do with a store, from any thread; and, as \<open>OpDisk\<close>, what
  happens to it: the writes of the disk begin to fail, or to succeed again.
\<close>

datatype sm_op =
    OpGet address
  | OpSet thread address account
  | OpCheckpoint thread
  | OpCommit thread nat
  | OpRevert thread nat
  | OpFlush
  | OpRoot
  | OpEvict "address list"
  | OpDisk "zerror option"

fun sm_step :: "state_env \<Rightarrow> sm_op \<Rightarrow> state_manager \<Rightarrow> state_manager" where
  "sm_step E (OpGet a) s = snd (sm_get_account E a s)"
| "sm_step E (OpSet tid a x) s = snd (sm_set_account E tid a x s)"
| "sm_step E (OpCheckpoint tid) s = snd (sm_checkpoint tid s)"
| "sm_step E (OpCommit tid n) s = snd (sm_commit_checkpoint tid n s)"
| "sm_step E (OpRevert tid n) s = snd (sm_revert_checkpoint tid n s)"
| "sm_step E OpFlush s = snd (sm_flush E s)"
| "sm_step E OpRoot s = snd (sm_state_root E s)"
| "sm_step E (OpEvict ks) s = evict_from_cache ks s"
| "sm_step E (OpDisk fault) s = s\<lparr>sm_storage := (sm_storage s)\<lparr>st_write_fault := fault\<rparr>\<rparr>"

definition sm_run :: "state_env \<Rightarrow> sm_op list \<Rightarrow> state_manager \<Rightarrow> state_manager" where
  "sm_run E ops s = fold (sm_step E) ops s"

text \<open>Operations on account keys, of faithful accounts, within the roster.\<close>

fun op_within :: "state_env \<Rightarrow> address set \<Rightarrow> sm_op \<Rightarrow> bool" where
  "op_within E R (OpGet a) \<longleftrightarrow> account_key (canonicalize a)"
| "op_within E R (OpSet tid a x) \<longleftrightarrow> account_key (canonicalize a) \<and> faithful E x \<and>
     (chain_key (canonicalize a) \<longrightarrow> canonicalize a \<in> R)"
| "op_within E R op \<longleftrightarrow> True"

lemma map_of_fold_delete:
  "map_of (fold (\<lambda>k c. if starts_with k ''0x'' then c else AList.delete k c) ks cache) a =
     (if a \<in> set ks \<and> \<not> chain_key a then None else map_of cache a)"
  by (induction ks arbitrary: cache) (auto simp: delete_conv' chain_key_def)

lemma distinct_fold_delete:
  "distinct (map fst cache) \<Longrightarrow>
     distinct (map fst (fold (\<lambda>k c. if starts_with k ''0x'' then c else AList.delete k c) ks cache))"
  by (induction ks arbitrary: cache) (auto simp: distinct_delete)

lemma evict_keys_tracked:
  assumes "tracked E R s" "\<forall>b \<in> R. chain_key b"
  shows "tracked E R (evict_from_cache ks s)"
proof (rule tracked_from [OF assms])
  let ?s = "evict_from_cache ks s"
  have cache: "map_of (sm_cache ?s) a = (if a \<in> set ks \<and> \<not> chain_key a then None else map_of (sm_cache s) a)" for a
    by (simp add: evict_from_cache_def map_of_fold_delete)
  show "sm_ok E ?s"
    using assms(1) distinct_fold_delete
    by (auto simp: tracked_def sm_ok_def clean_ok_def journals_ok_def cache split: if_splits)
      (simp_all add: evict_from_cache_def)
  show "faithful_state E ?s"
    using assms(1) unfolding tracked_def faithful_state_def cache by (simp add: evict_from_cache_def)
  show "sm_view E ?s a = sm_view E s a" if "chain_key a" for a
  proof -
    have "sm_storage ?s = sm_storage s" by (simp add: evict_from_cache_def)
    with that show ?thesis by (simp add: sm_view_def cache split: option.split)
  qed
qed (simp_all add: evict_from_cache_def journals_from_same)

lemma disk_fault_tracked:
  assumes "tracked E R s" "\<forall>b \<in> R. chain_key b"
  shows "tracked E R (s\<lparr>sm_storage := (sm_storage s)\<lparr>st_write_fault := fault\<rparr>\<rparr>)"
proof (rule tracked_from [OF assms])
  let ?d = "(sm_storage s)\<lparr>st_write_fault := fault\<rparr>"
  let ?s = "s\<lparr>sm_storage := ?d\<rparr>"
  have disk: "disk_view E ?d = disk_view E (sm_storage s)" "readable E ?d = readable E (sm_storage s)"
    "faithful_rows E ?d = faithful_rows E (sm_storage s)"
    by (simp_all add: disk_view_def readable_def faithful_rows_def fun_eq_iff)
  show "sm_ok E ?s" "faithful_state E ?s"
    using assms(1) by (simp_all add: tracked_def sm_ok_def clean_ok_def journals_ok_def faithful_state_def disk)
  show "sm_view E ?s a = sm_view E s a" for a
    by (simp add: sm_view_def disk split: option.split)
qed (simp_all add: journals_from_same)

lemma step_tracked:
  assumes "roster_ok E R" "tracked E R s" "op_within E R op"
  shows "tracked E R (sm_step E op s)"
proof -
  have chain: "\<forall>b \<in> R. chain_key b" using assms(1) by (simp add: roster_ok_def)
  show ?thesis
  proof (cases op)
    case (OpGet a)
    with assms(3) get_tracked [OF assms(2) _ chain, of a] show ?thesis by auto
  next
    case (OpSet tid a x)
    with assms(3) set_tracked [OF assms(2) _ _ _ chain, of x a tid] show ?thesis by simp
  next
    case OpRoot
    with state_root_ok [OF assms(1,2)] show ?thesis by auto
  qed (use assms(2) chain checkpoint_tracked commit_tracked revert_tracked flush_tracked
      evict_keys_tracked disk_fault_tracked in simp_all)
qed

lemma run_tracked:
  "roster_ok E R \<Longrightarrow> tracked E R s \<Longrightarrow> list_all (op_within E R) ops \<Longrightarrow> tracked E R (sm_run E ops s)"
  unfolding sm_run_def by (induction ops arbitrary: s) (simp_all add: step_tracked)

section \<open>Properties\<close>

text \<open>
  C9: the state root is a function of the accounts, as long as no read of the disk fails. Two nodes open stores
  whose rows can all be read, decoded and written back the same, and then do anything at all with account keys
  and accounts that read back: reads, writes, checkpoints, commits and reverts from any threads, flushes that
  succeed or fail as the disk's writes do, evictions, roots on the way. As soon as the accounts under chain keys
  are the same, they compute the same root, and computing it does not fail. The chain keys of rows and writes
  lie in a set of canonical addresses on which the 32-byte hash of addresses has no collision. After a failed
  read this does not hold (the root then lacks a change).
\<close>

theorem state_root_is_function_of_accounts:
  assumes "roster_ok E R"
    and "sm_new E st = Inr s" and "openable E R st" and "list_all (op_within E R) ops"
    and "sm_new E st' = Inr s'" and "openable E R st'" and "list_all (op_within E R) ops'"
    and "\<And>a. chain_key a \<Longrightarrow> sm_view E (sm_run E ops s) a = sm_view E (sm_run E ops' s') a"
  shows "\<exists>root. fst (sm_state_root E (sm_run E ops s)) = Inr root \<and>
    fst (sm_state_root E (sm_run E ops' s')) = Inr root"
proof -
  have "tracked E R s" "tracked E R s'"
    using open_ok [OF assms(1,3)] open_ok [OF assms(1,6)] assms(2,5) by auto
  then have "tracked E R (sm_run E ops s)" "tracked E R (sm_run E ops' s')"
    using run_tracked assms(1,4,7) by blast+
  then show ?thesis using root_of_accounts [OF assms(1)] assms(8) by blast
qed

text \<open>
  C10: durability: after a run, a flush whose write succeeds leaves every account readable from the
  rows alone; a store opened on those rows stands for the same accounts and has the same root as the
  store that flushed.
\<close>

theorem flush_then_reopen:
  assumes "roster_ok E R" and "sm_new E st = Inr s0" and "openable E R st"
    and "list_all (op_within E R) ops" and "s = sm_run E ops s0"
    and "st_write_fault (sm_storage s) = None"
  shows "\<exists>s1 s2 root. sm_flush E s = (Inr (), s1) \<and> sm_new E (sm_storage s1) = Inr s2 \<and>
    sm_view E s2 = sm_view E s \<and> fst (sm_state_root E s) = Inr root \<and> fst (sm_state_root E s2) = Inr root"
proof -
  have chain: "\<forall>b \<in> R. chain_key b" using assms(1) by (simp add: roster_ok_def)
  have s: "tracked E R s"
    using open_ok [OF assms(1,3)] assms(2,4,5) run_tracked [OF assms(1)] by auto
  obtain s1 where s1: "sm_flush E s = (Inr (), s1)" "tracked E R s1" "sm_view E s1 = sm_view E s"
      "disk_view E (sm_storage s1) = sm_view E s"
    using flush_ok [OF s chain assms(6)] by blast
  have "a \<in> R" if row: "map_of (st_rows (sm_storage s1)) a \<noteq> None" and a: "chain_key a" for a
  proof (rule ccontr)
    assume "a \<notin> R"
    then have "sm_view E s a = None" using s a by (simp add: tracked_def stale_def)
    then have "disk_view E (sm_storage s1) a = None" using s1(4) by simp
    moreover obtain b where "map_of (st_rows (sm_storage s1)) a = Some b" using row by blast
    ultimately show False
      using s1(2) chain_account_key [OF a] by (auto simp: tracked_def sm_ok_def readable_def disk_view_def)
  qed
  then have "openable E R (sm_storage s1)"
    using s1(2) by (simp add: openable_def tracked_def sm_ok_def faithful_state_def)
  then obtain s2 where s2: "sm_new E (sm_storage s1) = Inr s2" "tracked E R s2"
      "sm_view E s2 = disk_view E (sm_storage s1)"
    using open_ok [OF assms(1)] by blast
  then show ?thesis using root_of_accounts [OF assms(1) s s2(2)] s1(1,4) by auto
qed

text \<open>
  C37: a failed read during the root loses a write: \<open>sync_trie_dirty\<close> takes an address off the stale
  set before it reads the account, so when that read fails the error is reported once, and the next
  call, with the storage healthy again, returns the root without the account's change.
\<close>

theorem failed_sync_forgets_write:
  assumes "sm_trie_dirty s = [a]" and "canonicalize a = a" and "map_of (sm_cache s) a = None"
    and "st_fault (sm_storage s) a = Some e"
  shows "\<exists>s1. sm_state_root E s = (Inl e, s1) \<and> sm_view E s1 = sm_view E s \<and>
    fst (sm_state_root E (s1\<lparr>sm_storage := (sm_storage s1)\<lparr>st_fault := (\<lambda>k. None)\<rparr>\<rparr>)) =
      Inr (root_hash (sv_keccak E) (sm_trie s))"
proof -
  let ?s1 = "s\<lparr>sm_trie_dirty := []\<rparr>"
  have "sm_state_root E s = (Inl e, ?s1)"
    using assms by (simp add: sm_state_root_def sync_trie_dirty_def andthen_def sm_get_account_def
        canonicalize_address_eq st_get_def)
  moreover have "sm_view E ?s1 = sm_view E s" by (rule sm_view_cong) simp_all
  ultimately show ?thesis
    by (intro exI [of _ ?s1]) (simp add: sm_state_root_def sync_trie_dirty_def andthen_def)
qed

section \<open>Witnesses\<close>

text \<open>Accounts with a small balance, in one byte; the first 32 bytes as a hash; one address.\<close>

definition byte_decoders :: account_decoders where
  "byte_decoders = sample_decoders\<lparr>dec_current :=
     (\<lambda>b. case b of [n] \<Rightarrow> Some (account_new (unat n)) | _ \<Rightarrow> None)\<rparr>"

definition byte_env :: state_env where
  "byte_env = \<lparr>sv_keccak = sample_keccak,
     sv_serialize = (\<lambda>x. Some [of_nat (ac_balance x)]), sv_decoders = byte_decoders\<rparr>"

definition alice :: address where
  "alice = ''0x1111111111111111111111111111111111111111''"

definition empty_disk :: storage_engine where
  "empty_disk = \<lparr>st_rows = [], st_fault = (\<lambda>a. None), st_write_fault = None\<rparr>"

definition empty_store :: state_manager where
  "empty_store = \<lparr>sm_cache = [], sm_storage = empty_disk, sm_address_index = [], sm_journal = [],
     sm_next_checkpoint_id = 1, sm_trie = trie_new, sm_trie_dirty = [],
     sm_gate = \<lparr>open_checkpoints = 0, flush_active = False\<rparr>, sm_active = (\<lambda>tid. 0),
     sm_max_cache_entries = DEFAULT_MAX_CACHE_ENTRIES\<rparr>"

lemma alice_canonical: "canonicalize alice = alice" "chain_key alice" "account_key alice"
  by code_simp+

lemma byte_faithful: "n < 256 \<Longrightarrow> faithful byte_env (account_new n)"
  by (simp add: faithful_def byte_env_def byte_decoders_def deserialize_with_migration_def account_new_def
      unat_of_nat take_bit_eq_mod default_account_def)

lemma byte_roster: "roster_ok byte_env {alice}"
  using alice_canonical by (simp add: roster_ok_def byte_env_def)

lemma empty_openable: "openable byte_env {alice} empty_disk"
  by (simp add: openable_def readable_def faithful_rows_def disk_view_def empty_disk_def)

lemma empty_new: "sm_new byte_env empty_disk = Inr empty_store"
  by (simp add: sm_new_def empty_disk_def empty_store_def)

definition alice_ops :: "nat \<Rightarrow> sm_op list" where
  "alice_ops n = [OpSet 0 alice (account_new n), OpRoot, OpCheckpoint 1, OpFlush, OpSet 0 alice (account_new 7)]"

lemma alice_ops_within: "n < 256 \<Longrightarrow> list_all (op_within byte_env {alice}) (alice_ops n)"
  using alice_canonical by (simp add: alice_ops_def byte_faithful)

lemma empty_tracked: "tracked byte_env {alice} empty_store"
  using open_ok [OF byte_roster empty_openable] empty_new by simp

lemma set_view:
  assumes "tracked E R s" "account_key (canonicalize a)"
  shows "sm_view E (snd (sm_set_account E tid a x s)) = (sm_view E s)(canonicalize a \<mapsto> x)"
proof -
  have ok: "sm_ok E s" using assms(1) by (simp add: tracked_def)
  show ?thesis
    using sm_set_eq [OF ok assms(2), of tid x] evict_ok(2) [OF written_state_ok(1) [OF ok]]
      written_state_ok(2) [OF ok] by simp
qed

lemma alice_view:
  assumes "n < 256"
  shows "sm_view byte_env (sm_run byte_env (alice_ops n) empty_store) alice = Some (account_new 7)"
    "chain_key a \<Longrightarrow> a \<noteq> alice \<Longrightarrow> sm_view byte_env (sm_run byte_env (alice_ops n) empty_store) a = None"
proof -
  have run: "sm_run byte_env (alice_ops n) empty_store =
      snd (sm_set_account byte_env 0 alice (account_new 7) (sm_run byte_env (butlast (alice_ops n)) empty_store))"
    by (simp add: alice_ops_def sm_run_def)
  have t: "tracked byte_env {alice} (sm_run byte_env (butlast (alice_ops n)) empty_store)"
    using alice_ops_within [OF assms] by (intro run_tracked byte_roster empty_tracked) (simp add: alice_ops_def)
  show "sm_view byte_env (sm_run byte_env (alice_ops n) empty_store) alice = Some (account_new 7)"
    using set_view [OF t, of alice] alice_canonical by (simp add: run)
  show "sm_view byte_env (sm_run byte_env (alice_ops n) empty_store) a = None" if "chain_key a" "a \<noteq> alice"
    using run_tracked [OF byte_roster empty_tracked alice_ops_within [OF assms]] that
    by (simp add: tracked_def stale_def)
qed

theorem state_root_is_function_of_accounts_witness:
  "\<exists>root. fst (sm_state_root byte_env (sm_run byte_env (alice_ops 3) empty_store)) = Inr root \<and>
     fst (sm_state_root byte_env (sm_run byte_env (alice_ops 9) empty_store)) = Inr root"
proof -
  have "sm_view byte_env (sm_run byte_env (alice_ops 3) empty_store) a =
      sm_view byte_env (sm_run byte_env (alice_ops 9) empty_store) a" if "chain_key a" for a
    using alice_view [of 3] alice_view [of 9] that by (cases "a = alice") simp_all
  then show ?thesis
    using state_root_is_function_of_accounts [OF byte_roster empty_new empty_openable alice_ops_within
        empty_new empty_openable alice_ops_within, of 3 9] by simp
qed

lemma byte_flush_fault: "st_write_fault (sm_storage (sm_run byte_env [OpSet 0 alice (account_new 3)] empty_store)) = None"
proof -
  have "sm_ok byte_env empty_store" using empty_tracked by (simp add: tracked_def)
  then show ?thesis
    using sm_set_eq [of byte_env empty_store alice 0 "account_new 3"] alice_canonical
    by (simp add: sm_run_def written_state_def) (simp add: empty_store_def empty_disk_def)
qed

theorem flush_then_reopen_witness:
  "\<exists>s1 s2. sm_flush byte_env (sm_run byte_env [OpSet 0 alice (account_new 3)] empty_store) = (Inr (), s1) \<and>
     sm_new byte_env (sm_storage s1) = Inr s2"
proof -
  have "list_all (op_within byte_env {alice}) [OpSet 0 alice (account_new 3)]"
    using alice_canonical by (simp add: byte_faithful)
  then show ?thesis
    using flush_then_reopen [OF byte_roster empty_new empty_openable _ refl byte_flush_fault] by blast
qed

theorem failed_sync_forgets_write_witness:
  "\<exists>s1. sm_state_root byte_env (empty_store\<lparr>sm_trie_dirty := [alice],
       sm_storage := empty_disk\<lparr>st_rows := [(alice, [5])], st_fault := (\<lambda>k. Some (DatabaseError ''io''))\<rparr>\<rparr>) =
     (Inl (DatabaseError ''io''), s1)"
proof -
  let ?s = "empty_store\<lparr>sm_trie_dirty := [alice],
     sm_storage := empty_disk\<lparr>st_rows := [(alice, [5])], st_fault := (\<lambda>k. Some (DatabaseError ''io''))\<rparr>\<rparr>"
  have "sm_trie_dirty ?s = [alice]" "map_of (sm_cache ?s) alice = None"
    "st_fault (sm_storage ?s) alice = Some (DatabaseError ''io'')"
    by (simp_all add: empty_store_def)
  from failed_sync_forgets_write [OF this(1) alice_canonical(1) this(2,3), of byte_env]
  show ?thesis by blast
qed

end
