(* ===== verification/StateGate.thy ===== *)
theory StateGate
  imports StateManager
begin

text \<open>
  The gate between open checkpoints and flushes of \<open>crates/zagros-state/src/manager.rs\<close>, with threads
  that interleave: a step relation over the store and the place each thread is at. A thread that
  finds the gate shut waits, which is a step it cannot take. A flush takes two steps, claiming the
  gate and running its body, so that other threads can step in between.

  The lemmas: the gate counts the open checkpoints exactly, at most one flush runs, and no checkpoint
  is open while it does, so what a flush writes never contains half of a transaction.
\<close>

datatype place = Outside | InTransaction | Flushing

record system =
  sys_store :: state_manager
  sys_place :: "thread \<Rightarrow> place"

inductive sys_step :: "state_env \<Rightarrow> system \<Rightarrow> system \<Rightarrow> bool" for E where
  open_step:
    "sys_place c t = Outside \<Longrightarrow> \<not> flush_active (sm_gate (sys_store c)) \<Longrightarrow>
       sys_step E c \<lparr>sys_store = snd (sm_checkpoint t (sys_store c)),
         sys_place = (sys_place c)(t := InTransaction)\<rparr>"
| read_step:
    "sys_place c t \<noteq> Flushing \<Longrightarrow>
       sys_step E c (c\<lparr>sys_store := snd (sm_get_account E a (sys_store c))\<rparr>)"
| write_step:
    "sys_place c t \<noteq> Flushing \<Longrightarrow>
       sys_step E c (c\<lparr>sys_store := snd (sm_set_account E t a x (sys_store c))\<rparr>)"
| commit_step:
    "sys_place c t = InTransaction \<Longrightarrow>
       sys_step E c \<lparr>sys_store = snd (sm_commit_checkpoint t n (sys_store c)),
         sys_place = (sys_place c)(t := Outside)\<rparr>"
| revert_step:
    "sys_place c t = InTransaction \<Longrightarrow>
       sys_step E c \<lparr>sys_store = snd (sm_revert_checkpoint t n (sys_store c)),
         sys_place = (sys_place c)(t := Outside)\<rparr>"
| claim_step:
    "sys_place c t = Outside \<Longrightarrow> open_checkpoints (sm_gate (sys_store c)) = 0 \<Longrightarrow>
       \<not> flush_active (sm_gate (sys_store c)) \<Longrightarrow>
       sys_step E c \<lparr>sys_store = set_flush_active True (sys_store c),
         sys_place = (sys_place c)(t := Flushing)\<rparr>"
| flush_step:
    "sys_place c t = Flushing \<Longrightarrow>
       sys_step E c \<lparr>sys_store = set_flush_active False (snd (flush_with_gate_claimed E (sys_store c))),
         sys_place = (sys_place c)(t := Outside)\<rparr>"

inductive sys_reachable :: "state_env \<Rightarrow> system \<Rightarrow> bool" for E where
  sys_start: "sm_new E st = Inr s \<Longrightarrow> sys_reachable E \<lparr>sys_store = s, sys_place = (\<lambda>t. Outside)\<rparr>"
| sys_next: "sys_reachable E c \<Longrightarrow> sys_step E c c' \<Longrightarrow> sys_reachable E c'"

section \<open>Which operation touches the gate\<close>

lemma get_gate [simp]:
  "sm_gate (snd (sm_get_account E a s)) = sm_gate s"
  "sm_active (snd (sm_get_account E a s)) = sm_active s"
  by (simp_all add: sm_get_account_def Let_def split: option.split sum.split)

lemma record_gate [simp]:
  "sm_gate (snd (record_old_state E t a s)) = sm_gate s"
  "sm_active (snd (record_old_state E t a s)) = sm_active s"
  by (simp_all add: record_old_state_def Let_def split: option.split sum.split)

lemma set_gate [simp]:
  "sm_gate (snd (sm_set_account E t a x s)) = sm_gate s"
  "sm_active (snd (sm_set_account E t a x s)) = sm_active s"
proof -
  obtain r s' where r: "record_old_state E t (canonicalize_address a) s = (r, s')" by (cases "record_old_state E t (canonicalize_address a) s")
  then have "sm_gate s' = sm_gate s" "sm_active s' = sm_active s"
    using record_gate [of E t "canonicalize_address a" s] by simp_all
  then show "sm_gate (snd (sm_set_account E t a x s)) = sm_gate s"
    "sm_active (snd (sm_set_account E t a x s)) = sm_active s"
    using r by (cases r; simp add: sm_set_account_def Let_def andthen_def)+
qed

lemma collect_gate [simp]:
  "sm_gate (snd (collect_batch E as batch s)) = sm_gate s"
  "sm_active (snd (collect_batch E as batch s)) = sm_active s"
  by (induction E as batch s rule: collect_batch.induct)
    (simp_all add: clear_dirty_def split: option.split sum.split)

lemma flush_body_gate [simp]:
  "sm_gate (snd (flush_with_gate_claimed E s)) = sm_gate s"
  "sm_active (snd (flush_with_gate_claimed E s)) = sm_active s"
proof -
  let ?c = "map fst (filter (\<lambda>(a, entry). ce_dirty entry) (sm_cache s))"
  obtain r s' where r: "collect_batch E ?c [] s = (r, s')" by (cases "collect_batch E ?c [] s")
  then have "sm_gate s' = sm_gate s" "sm_active s' = sm_active s"
    using collect_gate [of E ?c "[]" s] by simp_all
  then show "sm_gate (snd (flush_with_gate_claimed E s)) = sm_gate s"
    "sm_active (snd (flush_with_gate_claimed E s)) = sm_active s"
    using r by (cases r; simp add: flush_with_gate_claimed_def Let_def andthen_def split: sum.split)+
qed

lemma checkpoint_gate [simp]:
  "sm_gate (snd (sm_checkpoint t s)) = (sm_gate s)\<lparr>open_checkpoints := open_checkpoints (sm_gate s) + 1\<rparr>"
  by (simp add: sm_checkpoint_def Let_def)

lemma close_gate [simp]:
  "sm_gate (snd (sm_commit_checkpoint t n s)) = (sm_gate s)\<lparr>open_checkpoints := open_checkpoints (sm_gate s) - 1\<rparr>"
  "sm_gate (snd (sm_revert_checkpoint t n s)) = (sm_gate s)\<lparr>open_checkpoints := open_checkpoints (sm_gate s) - 1\<rparr>"
  "sm_active (snd (sm_revert_checkpoint t n s)) = (sm_active s)(t := 0)"
  by (auto simp: sm_commit_checkpoint_def sm_revert_checkpoint_def close_checkpoint_in_gate_def Let_def
      restore_fold_fields split: option.split)

lemma set_flush_gate [simp]:
  "sm_gate (set_flush_active b s) = (sm_gate s)\<lparr>flush_active := b\<rparr>"
  "sm_active (set_flush_active b s) = sm_active s"
  by (simp_all add: set_flush_active_def)

section \<open>The invariant\<close>

definition in_transaction :: "system \<Rightarrow> thread set" where
  "in_transaction c = {t. sys_place c t = InTransaction}"

definition flushing :: "system \<Rightarrow> thread set" where
  "flushing c = {t. sys_place c t = Flushing}"

definition gate_ok :: "system \<Rightarrow> bool" where
  "gate_ok c \<longleftrightarrow> finite (in_transaction c) \<and>
     open_checkpoints (sm_gate (sys_store c)) = card (in_transaction c) \<and>
     (flush_active (sm_gate (sys_store c)) \<longrightarrow> in_transaction c = {} \<and> (\<exists>t. flushing c = {t})) \<and>
     (\<not> flush_active (sm_gate (sys_store c)) \<longrightarrow> flushing c = {}) \<and>
     (\<forall>t. sys_place c t \<noteq> InTransaction \<longrightarrow> sm_active (sys_store c) t = 0)"

lemma places_update:
  "in_transaction \<lparr>sys_store = s, sys_place = (sys_place c)(t := p)\<rparr> =
     (if p = InTransaction then insert t (in_transaction c) else in_transaction c - {t})"
  "flushing \<lparr>sys_store = s, sys_place = (sys_place c)(t := p)\<rparr> =
     (if p = Flushing then insert t (flushing c) else flushing c - {t})"
  "in_transaction (c\<lparr>sys_store := s\<rparr>) = in_transaction c"
  "flushing (c\<lparr>sys_store := s\<rparr>) = flushing c"
  by (auto simp: in_transaction_def flushing_def)

lemma place_member:
  "sys_place c t = InTransaction \<longleftrightarrow> t \<in> in_transaction c"
  "sys_place c t = Flushing \<longleftrightarrow> t \<in> flushing c"
  "sys_place c t = Outside \<longleftrightarrow> t \<notin> in_transaction c \<and> t \<notin> flushing c"
  by (cases "sys_place c t"; simp add: in_transaction_def flushing_def)+

lemma gate_step:
  assumes "gate_ok c" "sys_step E c c'"
  shows "gate_ok c'"
  using assms(2)
proof (cases rule: sys_step.cases)
  case (open_step t)
  with assms(1) show ?thesis
    by (auto simp: gate_ok_def places_update place_member checkpoint_fields)
next
  case (read_step t a)
  with assms(1) show ?thesis by (simp add: gate_ok_def places_update)
next
  case (write_step t a x)
  with assms(1) show ?thesis by (simp add: gate_ok_def places_update)
next
  case (commit_step t n)
  with assms(1) show ?thesis
    by (auto simp: gate_ok_def places_update place_member sm_commit_fields)
next
  case (revert_step t n)
  with assms(1) show ?thesis
    by (auto simp: gate_ok_def places_update place_member)
next
  case (claim_step t)
  with assms(1) show ?thesis
    by (auto simp: gate_ok_def places_update place_member)
next
  case (flush_step t)
  with assms(1) show ?thesis
    by (auto simp: gate_ok_def places_update place_member)
qed

lemma reachable_gate_ok: "sys_reachable E c \<Longrightarrow> gate_ok c"
proof (induction rule: sys_reachable.induct)
  case (sys_start st s)
  then have "sm_gate s = \<lparr>open_checkpoints = 0, flush_active = False\<rparr>" "sm_active s = (\<lambda>t. 0)"
    by (auto simp: sm_new_def try_then_Inr)
  then show ?case by (simp add: gate_ok_def in_transaction_def flushing_def)
next
  case (sys_next c c')
  then show ?case using gate_step by blast
qed

text \<open>
  C13: the gate counts exactly and excludes. In any interleaving of threads that open a checkpoint,
  read, write, commit, revert and flush, the counter of the gate is the number of threads that hold a
  checkpoint, and its flag is set exactly when some thread is between claiming the gate and finishing
  its flush. While one thread is, every other thread is outside, so no row the flush writes belongs to
  a transaction that may still be reverted; and a thread that is not in a transaction journals nothing.
  A commit or revert gives the gate back: when every thread is outside, any of them can claim it at
  once, so a flush never waits for a checkpoint that is already closed.
\<close>

theorem flush_excludes_transactions:
  assumes "sys_reachable E c"
  shows "finite {t. sys_place c t = InTransaction} \<and>
    open_checkpoints (sm_gate (sys_store c)) = card {t. sys_place c t = InTransaction} \<and>
    (flush_active (sm_gate (sys_store c)) \<longleftrightarrow> (\<exists>t. sys_place c t = Flushing)) \<and>
    (\<forall>t t'. sys_place c t = Flushing \<longrightarrow> t' \<noteq> t \<longrightarrow> sys_place c t' = Outside) \<and>
    (\<forall>t. sys_place c t \<noteq> InTransaction \<longrightarrow> sm_active (sys_store c) t = 0) \<and>
    ((\<forall>t. sys_place c t = Outside) \<longrightarrow>
      (\<forall>t. \<exists>c'. sys_step E c c' \<and> sys_place c' t = Flushing))"
proof -
  have ok: "gate_ok c" using reachable_gate_ok [OF assms] .
  note gate = ok [unfolded gate_ok_def in_transaction_def flushing_def]
  have excl: "\<forall>t t'. sys_place c t = Flushing \<longrightarrow> t' \<noteq> t \<longrightarrow> sys_place c t' = Outside"
  proof (intro allI impI)
    fix t t' assume t: "sys_place c t = Flushing" "t' \<noteq> t"
    then have "in_transaction c = {}" "flushing c = {t}"
      using ok by (auto simp: gate_ok_def place_member)
    with t show "sys_place c t' = Outside" by (simp add: place_member)
  qed
  have claim: "\<exists>c'. sys_step E c c' \<and> sys_place c' t = Flushing" if o: "\<forall>t. sys_place c t = Outside" for t
  proof -
    have "open_checkpoints (sm_gate (sys_store c)) = 0" "\<not> flush_active (sm_gate (sys_store c))"
      using gate o by auto
    then show ?thesis using claim_step [of c t E] o
      by (intro exI [of _ "\<lparr>sys_store = set_flush_active True (sys_store c),
        sys_place = (sys_place c)(t := Flushing)\<rparr>"]) simp
  qed
  have flag: "flush_active (sm_gate (sys_store c)) \<longleftrightarrow> (\<exists>t. sys_place c t = Flushing)"
    using gate by blast
  show ?thesis using gate excl claim flag by blast
qed

text \<open>A run with a transaction, then a flush that has claimed the gate.\<close>

definition tiny_env :: state_env where
  "tiny_env = \<lparr>sv_keccak = (\<lambda>x. NIL_HASH), sv_serialize = (\<lambda>x. Some []), sv_decoders = sample_decoders\<rparr>"

definition tiny_disk :: storage_engine where
  "tiny_disk = \<lparr>st_rows = [], st_fault = (\<lambda>a. None), st_write_fault = None\<rparr>"

theorem flush_excludes_transactions_witness:
  "\<exists>c. sys_reachable tiny_env c \<and> sys_place c 2 = Flushing \<and>
     (\<forall>t. t \<noteq> 2 \<longrightarrow> sys_place c t = Outside) \<and> sm_active (sys_store c) 2 = 0"
proof -
  obtain s where s: "sm_new tiny_env tiny_disk = Inr s" "sm_gate s = \<lparr>open_checkpoints = 0, flush_active = False\<rparr>"
    by (simp add: sm_new_def tiny_disk_def)
  define c0 where "c0 = \<lparr>sys_store = s, sys_place = (\<lambda>t. Outside)\<rparr>"
  define c1 where "c1 = \<lparr>sys_store = snd (sm_checkpoint 1 s), sys_place = (sys_place c0)(1 := InTransaction)\<rparr>"
  define c2 where "c2 = \<lparr>sys_store = snd (sm_commit_checkpoint 1 1 (sys_store c1)), sys_place = (sys_place c1)(1 := Outside)\<rparr>"
  define c3 where "c3 = \<lparr>sys_store = set_flush_active True (sys_store c2), sys_place = (sys_place c2)(2 := Flushing)\<rparr>"
  have "sys_reachable tiny_env c0" unfolding c0_def by (rule sys_start [OF s(1)])
  moreover have "sys_step tiny_env c0 c1"
    using open_step [of c0 1 tiny_env] s(2) by (simp add: c0_def c1_def)
  moreover have "sys_step tiny_env c1 c2"
    using commit_step [of c1 1 tiny_env 1] by (simp add: c1_def c2_def)
  moreover have "sys_step tiny_env c2 c3"
    using claim_step [of c2 2 tiny_env] s(2) by (simp add: c0_def c1_def c2_def c3_def)
  ultimately have c3: "sys_reachable tiny_env c3" by (meson sys_next)
  moreover have "sys_place c3 2 = Flushing" by (simp add: c3_def)
  ultimately show ?thesis
    using flush_excludes_transactions [OF c3] by (intro exI [of _ c3]) (simp del: fun_upd_apply)
qed

end
