(* ===== verification/Swap.thy ===== *)
theory Swap
  imports StateRoot
begin

text \<open>
  The native exchange of \<open>crates/zagros-executor/src/swap.rs\<close>: the constant-product quotes of the
  three directions, the fee, and the volume window that bounds how much of the pool may move. The
  pool holds ZAGROS and ZERENYA; amounts are \<open>u128\<close>, products \<open>U256\<close>.

  The quotes are pure. The volume tracker is stored as the code of an account, read and written
  through the state interface; its encodings (bincode) are the record \<open>tracker_codec\<close>.
\<close>

section \<open>Constants and quotes\<close>

abbreviation u256_max :: nat where
  "u256_max \<equiv> 115792089237316195423570985008687907853269984665640564039457584007913129639935"

definition MIN_POOL_LIQUIDITY_ZAGROS :: nat where
  "MIN_POOL_LIQUIDITY_ZAGROS = 1000000 * TOKEN_DECIMAL"

definition MIN_POOL_LIQUIDITY_ZERENYA :: nat where
  "MIN_POOL_LIQUIDITY_ZERENYA = 250 * TOKEN_DECIMAL"

definition MAX_SWAP_AMOUNT_PERCENT :: nat where
  "MAX_SWAP_AMOUNT_PERCENT = 5"

definition STANDARD_SWAP_FEE_BPS :: nat where
  "STANDARD_SWAP_FEE_BPS = 10"

definition SWAP_VOLUME_WINDOW_SECS :: nat where
  "SWAP_VOLUME_WINDOW_SECS = 60"

record swap_buy_quote =
  sq_amount_out :: nat
  sq_raw_amount_out :: nat
  sq_community_fee :: nat
  sq_new_pool_zagros :: nat
  sq_new_pool_zerenya :: nat

record bridge_swap_quote =
  bq_amount_out :: nat
  bq_community_fee :: nat
  bq_new_pool_zagros :: nat
  bq_new_pool_zerenya :: nat

text \<open>\<open>from_be_bytes\<close>.\<close>

definition from_be_bytes :: "bytes \<Rightarrow> nat" where
  "from_be_bytes bs = from_le_bytes (rev bs)"

definition swap_amount_out_min :: "transaction \<Rightarrow> nat result" where
  "swap_amount_out_min tx =
     (if length (tx_payload tx) < 68 then Inr 0
      else (let n = from_be_bytes (take 32 (drop 36 (tx_payload tx)))
            in if n \<le> u128_max then Inr n else Inl (Other ''Invalid swap amount'')))"

text \<open>
  \<open>U256::from(a).saturating_mul(b).checked_div(d).unwrap_or(0).to::<u128>()\<close>; the last conversion
  panics when the quotient does not fit.
\<close>

definition amm_quotient :: "nat \<Rightarrow> nat \<Rightarrow> nat \<Rightarrow> nat result" where
  "amm_quotient a b d =
     (let q = (if d = 0 then 0 else sat_mul u256_max a b div d)
      in if q \<le> u128_max then Inr q else Inl RustPanic)"

definition swap_cap :: "nat \<Rightarrow> nat" where
  "swap_cap reserve = sat_mul u128_max reserve MAX_SWAP_AMOUNT_PERCENT div 100"

definition quote_swap_buy :: "nat \<Rightarrow> nat \<Rightarrow> nat \<Rightarrow> nat \<Rightarrow> swap_buy_quote result" where
  "quote_swap_buy amount_in pool_zagros pool_zerenya fee_bps =
     (if pool_zagros < MIN_POOL_LIQUIDITY_ZAGROS \<or> pool_zerenya < MIN_POOL_LIQUIDITY_ZERENYA
      then Inl (Other ''Insufficient liquidity'')
      else if swap_cap pool_zerenya < amount_in then Inl (Other ''Swap too large'')
      else try_then (amm_quotient amount_in pool_zagros (sat_add u256_max pool_zerenya amount_in)) (\<lambda>raw_amount_out.
        if raw_amount_out = 0 then Inl (Other ''Insufficient liquidity'')
        else (let swap_fee = sat_mul u128_max raw_amount_out fee_bps div 10000;
                  amount_out = raw_amount_out - swap_fee
              in if amount_out = 0 then Inl (Other ''Insufficient liquidity'')
                 else Inr \<lparr>sq_amount_out = amount_out, sq_raw_amount_out = raw_amount_out,
                   sq_community_fee = swap_fee, sq_new_pool_zagros = pool_zagros - raw_amount_out,
                   sq_new_pool_zerenya = sat_add u128_max pool_zerenya amount_in\<rparr>)))"

text \<open>Here the subtraction from the reserve is a plain one; the guard before it keeps it from underflow.\<close>

definition quote_bridge_mint_and_swap :: "nat \<Rightarrow> nat \<Rightarrow> nat \<Rightarrow> nat \<Rightarrow> bridge_swap_quote result" where
  "quote_bridge_mint_and_swap amount pool_zagros pool_zerenya fee_bps =
     (if pool_zagros < MIN_POOL_LIQUIDITY_ZAGROS \<or> pool_zerenya < MIN_POOL_LIQUIDITY_ZERENYA
      then Inl (Other ''Insufficient liquidity'')
      else if amount = 0 then Inl (Other ''Insufficient liquidity'')
      else if swap_cap pool_zerenya < amount then Inl (Other ''Swap too large'')
      else try_then (amm_quotient amount pool_zagros (sat_add u256_max pool_zerenya amount)) (\<lambda>raw_amount_out.
        if raw_amount_out = 0 \<or> pool_zagros < raw_amount_out then Inl (Other ''Insufficient liquidity'')
        else (let swap_fee = sat_mul u128_max raw_amount_out fee_bps div 10000;
                  amount_out = raw_amount_out - swap_fee
              in if amount_out = 0 then Inl (Other ''Insufficient liquidity'')
                 else Inr \<lparr>bq_amount_out = amount_out, bq_community_fee = swap_fee,
                   bq_new_pool_zagros = pool_zagros - raw_amount_out,
                   bq_new_pool_zerenya = sat_add u128_max pool_zerenya amount\<rparr>)))"

definition quote_bridge_swap_and_burn :: "nat \<Rightarrow> nat \<Rightarrow> nat \<Rightarrow> nat \<Rightarrow> bridge_swap_quote result" where
  "quote_bridge_swap_and_burn amount pool_zagros pool_zerenya fee_bps =
     (if amount = 0 \<or> pool_zagros < MIN_POOL_LIQUIDITY_ZAGROS \<or> pool_zerenya < MIN_POOL_LIQUIDITY_ZERENYA
      then Inl (Other ''Insufficient liquidity'')
      else if swap_cap pool_zagros < amount then Inl (Other ''Swap too large'')
      else (let swap_fee = sat_mul u128_max amount fee_bps div 10000;
                amount_in_after_fee = amount - swap_fee
            in try_then (amm_quotient amount_in_after_fee pool_zerenya
                           (sat_add u256_max pool_zagros amount_in_after_fee)) (\<lambda>amount_out.
                 if amount_out = 0 \<or> pool_zerenya < amount_out then Inl (Other ''Insufficient liquidity'')
                 else Inr \<lparr>bq_amount_out = amount_out, bq_community_fee = swap_fee,
                   bq_new_pool_zagros = sat_add u128_max pool_zagros amount_in_after_fee,
                   bq_new_pool_zerenya = pool_zerenya - amount_out\<rparr>)))"

section \<open>The volume window\<close>

datatype swap_direction = ZerenyaIn | ZagrosIn

record legacy_tracker =
  lt_window_start_secs :: nat
  lt_cumulative_zerenya_in :: nat
  lt_cumulative_zagros_in :: nat

record swap_volume_tracker =
  vt_window_start_secs :: nat
  vt_current_zerenya_in :: nat
  vt_current_zagros_in :: nat
  vt_previous_zerenya_in :: nat
  vt_previous_zagros_in :: nat

definition vt_align :: "nat \<Rightarrow> nat" where
  "vt_align secs = secs - secs mod SWAP_VOLUME_WINDOW_SECS"

definition vt_fresh :: "nat \<Rightarrow> swap_volume_tracker" where
  "vt_fresh block_timestamp_secs = \<lparr>vt_window_start_secs = vt_align block_timestamp_secs,
     vt_current_zerenya_in = 0, vt_current_zagros_in = 0,
     vt_previous_zerenya_in = 0, vt_previous_zagros_in = 0\<rparr>"

definition vt_advance_to :: "nat \<Rightarrow> swap_volume_tracker \<Rightarrow> swap_volume_tracker" where
  "vt_advance_to block_timestamp_secs t =
     (let aligned = vt_align block_timestamp_secs
      in if aligned \<le> vt_window_start_secs t then t
         else (let t = (if SWAP_VOLUME_WINDOW_SECS * 2 \<le> aligned - vt_window_start_secs t
                        then t\<lparr>vt_previous_zerenya_in := 0, vt_previous_zagros_in := 0\<rparr>
                        else t\<lparr>vt_previous_zerenya_in := vt_current_zerenya_in t,
                               vt_previous_zagros_in := vt_current_zagros_in t\<rparr>)
               in t\<lparr>vt_current_zerenya_in := 0, vt_current_zagros_in := 0, vt_window_start_secs := aligned\<rparr>))"

definition vt_current :: "swap_direction \<Rightarrow> swap_volume_tracker \<Rightarrow> nat" where
  "vt_current direction t =
     (case direction of ZerenyaIn \<Rightarrow> vt_current_zerenya_in t | ZagrosIn \<Rightarrow> vt_current_zagros_in t)"

definition vt_previous :: "swap_direction \<Rightarrow> swap_volume_tracker \<Rightarrow> nat" where
  "vt_previous direction t =
     (case direction of ZerenyaIn \<Rightarrow> vt_previous_zerenya_in t | ZagrosIn \<Rightarrow> vt_previous_zagros_in t)"

definition vt_effective :: "swap_direction \<Rightarrow> nat \<Rightarrow> swap_volume_tracker \<Rightarrow> nat" where
  "vt_effective direction block_timestamp_secs t =
     (let elapsed = min (block_timestamp_secs - vt_window_start_secs t) SWAP_VOLUME_WINDOW_SECS;
          remaining = SWAP_VOLUME_WINDOW_SECS - elapsed;
          weighted = sat_mul u128_max (vt_previous direction t) remaining div SWAP_VOLUME_WINDOW_SECS
      in sat_add u128_max (vt_current direction t) weighted)"

definition vt_add :: "swap_direction \<Rightarrow> nat \<Rightarrow> swap_volume_tracker \<Rightarrow> swap_volume_tracker" where
  "vt_add direction amount t =
     (case direction of
        ZerenyaIn \<Rightarrow> t\<lparr>vt_current_zerenya_in := sat_add u128_max (vt_current_zerenya_in t) amount\<rparr>
      | ZagrosIn \<Rightarrow> t\<lparr>vt_current_zagros_in := sat_add u128_max (vt_current_zagros_in t) amount\<rparr>)"

record tracker_codec =
  tc_serialize :: "swap_volume_tracker \<Rightarrow> bytes option"
  tc_deserialize :: "bytes \<Rightarrow> swap_volume_tracker option"
  tc_deserialize_legacy :: "bytes \<Rightarrow> legacy_tracker option"

definition swap_volume_tracker_key :: address where
  "swap_volume_tracker_key = ''__SWAP_VOLUME_WINDOW__''"

text \<open>The tracker an account's code holds.\<close>

definition decode_tracker :: "tracker_codec \<Rightarrow> account option \<Rightarrow> nat \<Rightarrow> swap_volume_tracker result" where
  "decode_tracker C account block_timestamp_secs =
     (case account of
        None \<Rightarrow> Inr (vt_fresh block_timestamp_secs)
      | Some a \<Rightarrow>
          if ac_contract_code a = [] then Inr (vt_fresh block_timestamp_secs)
          else (case tc_deserialize C (ac_contract_code a) of
              Some tracker \<Rightarrow> Inr tracker
            | None \<Rightarrow> (case tc_deserialize_legacy C (ac_contract_code a) of
                  Some legacy \<Rightarrow> Inr \<lparr>vt_window_start_secs = vt_align (lt_window_start_secs legacy),
                    vt_current_zerenya_in = lt_cumulative_zerenya_in legacy,
                    vt_current_zagros_in = lt_cumulative_zagros_in legacy,
                    vt_previous_zerenya_in = 0, vt_previous_zagros_in = 0\<rparr>
                | None \<Rightarrow> Inl (Other ''Corrupt swap volume tracker''))))"

definition tracker_error :: "string \<Rightarrow> ('s, 'a) action \<Rightarrow> ('s, 'a) action" where
  "tracker_error message m s = (case m s of (Inl e, s') \<Rightarrow> (Inl (Other message), s') | (Inr x, s') \<Rightarrow> (Inr x, s'))"

definition load_tracker :: "tracker_codec \<Rightarrow> 's getter \<Rightarrow> address \<Rightarrow> nat \<Rightarrow> ('s, swap_volume_tracker) action" where
  "load_tracker C fetch key block_timestamp_secs =
     andthen (tracker_error ''Swap volume tracker read error'' (fetch key))
       (\<lambda>account. lift (decode_tracker C account block_timestamp_secs))"

text \<open>The decision: the new effective volume and the tracker to store.\<close>

definition volume_decision ::
  "swap_direction \<Rightarrow> nat \<Rightarrow> nat \<Rightarrow> nat \<Rightarrow> swap_volume_tracker \<Rightarrow> (nat \<times> swap_volume_tracker) result" where
  "volume_decision direction amount pool_reserve block_timestamp_secs tracker =
     (let tracker = vt_advance_to block_timestamp_secs tracker;
          current = vt_effective direction block_timestamp_secs tracker
      in case checked_add u128_max current amount of
           None \<Rightarrow> Inl (Other ''Swap volume counter overflow'')
         | Some new_effective \<Rightarrow>
             if swap_cap pool_reserve < new_effective
             then Inl (Other ''Swap too large (cumulative window limit exceeded)'')
             else Inr (new_effective, vt_add direction amount tracker))"

definition check_and_record_swap_volume ::
  "tracker_codec \<Rightarrow> 's getter \<Rightarrow> 's setter \<Rightarrow> swap_direction \<Rightarrow> nat \<Rightarrow> nat \<Rightarrow> nat \<Rightarrow> ('s, nat) action" where
  "check_and_record_swap_volume C fetch put direction amount pool_reserve block_timestamp_secs =
     andthen (load_tracker C fetch swap_volume_tracker_key block_timestamp_secs) (\<lambda>tracker.
     andthen (lift (volume_decision direction amount pool_reserve block_timestamp_secs tracker))
       (\<lambda>(new_effective, tracker).
          case tc_serialize C tracker of
            None \<Rightarrow> stop (Other ''Failed to serialize swap volume tracker'')
          | Some bytes \<Rightarrow>
              andthen (tracker_error ''Swap volume tracker read error'' (fetch swap_volume_tracker_key)) (\<lambda>account.
              andthen (tracker_error ''Swap volume tracker write error''
                  (put swap_volume_tracker_key ((unwrap_or_default account)\<lparr>ac_contract_code := bytes\<rparr>)))
                (\<lambda>_. give new_effective))))"

definition record_volume_and_compute_fee_bps ::
  "tracker_codec \<Rightarrow> 's getter \<Rightarrow> 's setter \<Rightarrow> swap_direction \<Rightarrow> nat \<Rightarrow> nat \<Rightarrow> nat \<Rightarrow> ('s, nat) action" where
  "record_volume_and_compute_fee_bps C fetch put direction amount pool_reserve block_timestamp_secs =
     andthen (check_and_record_swap_volume C fetch put direction amount pool_reserve block_timestamp_secs)
       (\<lambda>_. give STANDARD_SWAP_FEE_BPS)"

section \<open>Quotes\<close>

lemma mul_fits_u256: "a \<le> u128_max \<Longrightarrow> b \<le> u128_max \<Longrightarrow> a * b \<le> u256_max"
  using mult_le_mono [of a u128_max b u128_max] by simp

lemma quotient_below: "a * b div (d + a) \<le> b" for a b d :: nat
proof (cases "d + a = 0")
  case False
  have "a * b div (d + a) \<le> (d + a) * b div (d + a)" by (intro div_le_mono mult_le_mono1) simp
  also have "\<dots> = b" using False by simp
  finally show ?thesis .
qed simp

text \<open>On reserves that fit, the quotient is exact and below the reserve it is paid from.\<close>

lemma amm_quotient_exact:
  assumes "a \<le> u128_max" "b \<le> u128_max" "d \<le> u128_max"
  shows "amm_quotient a b (sat_add u256_max d a) = Inr (a * b div (d + a))"
proof -
  have "a * b \<le> u256_max" using mul_fits_u256 assms by blast
  moreover have "d + a \<le> u256_max" using assms by simp
  moreover have "a * b div (d + a) \<le> u128_max" using quotient_below [of a b d] assms(2) by simp
  ultimately show ?thesis by (simp add: amm_quotient_def sat_mul_def sat_add_def Let_def)
qed

text \<open>Paying out the rounded-down quotient never lowers the product of the reserves.\<close>

lemma product_grows: "x * y \<le> (y - a * y div (x + a)) * (x + a)" for a x y :: nat
proof (cases "x + a = 0")
  case False
  have "a * y div (x + a) * (x + a) \<le> a * y" by simp
  then have "(x + a) * y \<le> a * y div (x + a) * (x + a) + x * y + 0 + (a * y - a * y div (x + a) * (x + a))"
    by (simp add: algebra_simps)
  moreover have "(y - a * y div (x + a)) * (x + a) = y * (x + a) - a * y div (x + a) * (x + a)"
    by (simp add: diff_mult_distrib)
  ultimately show ?thesis
    using \<open>a * y div (x + a) * (x + a) \<le> a * y\<close> by (simp add: algebra_simps)
qed simp

lemma cap_below: "swap_cap r < a \<or> a \<le> r"
proof -
  have "swap_cap r \<le> r * 5 div 100"
    unfolding swap_cap_def MAX_SWAP_AMOUNT_PERCENT_def by (intro div_le_mono sat_mul_upper)
  then show ?thesis by linarith
qed

lemma fee_below: "fee_bps \<le> 10000 \<Longrightarrow> sat_mul u128_max n fee_bps div 10000 \<le> n"
proof -
  assume "fee_bps \<le> 10000"
  then have "sat_mul u128_max n fee_bps div 10000 \<le> n * 10000 div 10000"
    by (intro div_le_mono order_trans [OF sat_mul_upper] mult_le_mono2)
  then show ?thesis by simp
qed

text \<open>
  The reserves of a pool: at most the native supply on one side, and room for a swap on the other.
\<close>

definition pool_ok :: "nat \<Rightarrow> nat \<Rightarrow> bool" where
  "pool_ok zagros zerenya \<longleftrightarrow> 2 * zagros \<le> u128_max \<and> 2 * zerenya \<le> u128_max"

lemma quote_swap_buy_exact:
  assumes "pool_ok z e" "fee_bps \<le> 10000" "quote_swap_buy a z e fee_bps = Inr q"
  shows "sq_raw_amount_out q = a * z div (e + a) \<and>
    sq_amount_out q + sq_community_fee q = sq_raw_amount_out q \<and> 0 < sq_amount_out q \<and>
    sq_raw_amount_out q \<le> z \<and> sq_new_pool_zagros q = z - sq_raw_amount_out q \<and>
    sq_new_pool_zerenya q = e + a \<and> a \<le> e"
proof -
  have a: "a \<le> e" using assms(3) cap_below [of e a] by (auto simp: quote_swap_buy_def split: if_splits)
  then have max: "a \<le> u128_max" "z \<le> u128_max" "e \<le> u128_max" "e + a \<le> u128_max"
    using assms(1) by (auto simp: pool_ok_def)
  have "amm_quotient a z (sat_add u256_max e a) = Inr (a * z div (e + a))"
    using amm_quotient_exact max by blast
  then show ?thesis
    using assms(2,3) a max quotient_below [of a z e] fee_below [of fee_bps "a * z div (e + a)"]
    by (auto simp: quote_swap_buy_def Let_def sat_add_exact split: if_splits)
qed

lemma quote_mint_exact:
  assumes "pool_ok z e" "fee_bps \<le> 10000" "quote_bridge_mint_and_swap a z e fee_bps = Inr q"
  shows "\<exists>raw. raw = a * z div (e + a) \<and> bq_amount_out q + bq_community_fee q = raw \<and>
    0 < bq_amount_out q \<and> raw \<le> z \<and> bq_new_pool_zagros q = z - raw \<and>
    bq_new_pool_zerenya q = e + a \<and> a \<le> e"
proof -
  have a: "a \<le> e" using assms(3) cap_below [of e a] by (auto simp: quote_bridge_mint_and_swap_def split: if_splits)
  then have max: "a \<le> u128_max" "z \<le> u128_max" "e \<le> u128_max" "e + a \<le> u128_max"
    using assms(1) by (auto simp: pool_ok_def)
  have "amm_quotient a z (sat_add u256_max e a) = Inr (a * z div (e + a))"
    using amm_quotient_exact max by blast
  then show ?thesis
    using assms(2,3) a max quotient_below [of a z e] fee_below [of fee_bps "a * z div (e + a)"]
    by (auto simp: quote_bridge_mint_and_swap_def Let_def sat_add_exact split: if_splits)
qed

lemma quote_burn_in_range:
  assumes "z + a \<le> u128_max" "e \<le> u128_max" "fee_bps \<le> 10000" "quote_bridge_swap_and_burn a z e fee_bps = Inr q"
  shows "\<exists>net. net + bq_community_fee q = a \<and> bq_amount_out q = net * e div (z + net) \<and>
    0 < bq_amount_out q \<and> bq_amount_out q \<le> e \<and> bq_new_pool_zagros q = z + net \<and>
    bq_new_pool_zerenya q = e - bq_amount_out q \<and> a \<le> z"
proof -
  define fee where "fee = sat_mul u128_max a fee_bps div 10000"
  define net where "net = a - fee"
  have fee: "fee \<le> a" using fee_below assms(3) unfolding fee_def by blast
  have "\<not> swap_cap z < a" using assms(4) by (auto simp: quote_bridge_swap_and_burn_def split: if_splits)
  then have a: "a \<le> z" using cap_below [of z a] by blast
  have max: "net \<le> u128_max" "z \<le> u128_max" "e \<le> u128_max" "z + net \<le> u128_max"
    using assms(1,2) unfolding net_def by linarith+
  have quot: "amm_quotient net e (sat_add u256_max z net) = Inr (net * e div (z + net))"
    using amm_quotient_exact max by blast
  have sum: "sat_add u128_max z net = z + net" using max(4) by (rule sat_add_exact)
  have "q = \<lparr>bq_amount_out = net * e div (z + net), bq_community_fee = fee,
      bq_new_pool_zagros = z + net, bq_new_pool_zerenya = e - net * e div (z + net)\<rparr> \<and>
    0 < net * e div (z + net) \<and> net * e div (z + net) \<le> e"
    using assms(4)
    unfolding quote_bridge_swap_and_burn_def Let_def fee_def [symmetric] net_def [symmetric] quot sum
      try_then_simps
    by (simp only: split: if_splits) (simp_all add: not_less)
  then show ?thesis using a fee by (intro exI [of _ net]) (simp add: net_def)
qed

lemma quote_burn_exact:
  assumes "pool_ok z e" "fee_bps \<le> 10000" "quote_bridge_swap_and_burn a z e fee_bps = Inr q"
  shows "\<exists>net. net + bq_community_fee q = a \<and> bq_amount_out q = net * e div (z + net) \<and>
    0 < bq_amount_out q \<and> bq_amount_out q \<le> e \<and> bq_new_pool_zagros q = z + net \<and>
    bq_new_pool_zerenya q = e - bq_amount_out q \<and> a \<le> z"
proof -
  have "\<not> swap_cap z < a" using assms(3) by (auto simp: quote_bridge_swap_and_burn_def split: if_splits)
  then have "a \<le> z" using cap_below [of z a] by blast
  then have "z + a \<le> u128_max" "e \<le> u128_max" using assms(1) by (auto simp: pool_ok_def)
  then show ?thesis using quote_burn_in_range assms(2,3) by blast
qed

lemma quotes_never_panic:
  assumes "pool_ok z e"
  shows "quote_swap_buy a z e f \<noteq> Inl RustPanic" "quote_bridge_mint_and_swap a z e f \<noteq> Inl RustPanic"
    "quote_bridge_swap_and_burn a z e f \<noteq> Inl RustPanic"
proof -
  have e: "amm_quotient a z (sat_add u256_max e a) = Inr (a * z div (e + a))" if "\<not> swap_cap e < a"
    using that cap_below [of e a] assms by (intro amm_quotient_exact) (auto simp: pool_ok_def)
  have z: "amm_quotient (a - n) e (sat_add u256_max z (a - n)) = Inr ((a - n) * e div (z + (a - n)))"
    if "\<not> swap_cap z < a" for n
    using that cap_below [of z a] assms by (intro amm_quotient_exact) (auto simp: pool_ok_def)
  show "quote_swap_buy a z e f \<noteq> Inl RustPanic"
  proof (cases "swap_cap e < a")
    case False
    show ?thesis unfolding quote_swap_buy_def Let_def e [OF False] try_then_simps by simp
  qed (simp add: quote_swap_buy_def)
  show "quote_bridge_mint_and_swap a z e f \<noteq> Inl RustPanic"
  proof (cases "swap_cap e < a")
    case False
    show ?thesis unfolding quote_bridge_mint_and_swap_def Let_def e [OF False] try_then_simps by simp
  qed (simp add: quote_bridge_mint_and_swap_def)
  show "quote_bridge_swap_and_burn a z e f \<noteq> Inl RustPanic"
  proof (cases "swap_cap z < a")
    case False
    show ?thesis unfolding quote_bridge_swap_and_burn_def Let_def z [OF False] try_then_simps by simp
  qed (simp add: quote_bridge_swap_and_burn_def)
qed

section \<open>Properties of the exchange\<close>

text \<open>
  C27: the exchange conserves both currencies and never weakens the pool: in each direction what the
  user gets, the fee and the new reserve add up to the old reserve (and the payment in), the product
  of the reserves does not fall, and no quote on reserves of at most half of 128 bits panics.
\<close>

theorem quotes_conserve_and_keep_product:
  assumes "pool_ok z e" and "f \<le> 10000"
  shows "(\<forall>q. quote_swap_buy a z e f = Inr q \<longrightarrow>
      sq_amount_out q + sq_community_fee q + sq_new_pool_zagros q = z \<and> sq_new_pool_zerenya q = e + a \<and>
      z * e \<le> sq_new_pool_zagros q * sq_new_pool_zerenya q) \<and>
    (\<forall>q. quote_bridge_mint_and_swap a z e f = Inr q \<longrightarrow>
      bq_amount_out q + bq_community_fee q + bq_new_pool_zagros q = z \<and> bq_new_pool_zerenya q = e + a \<and>
      z * e \<le> bq_new_pool_zagros q * bq_new_pool_zerenya q) \<and>
    (\<forall>q. quote_bridge_swap_and_burn a z e f = Inr q \<longrightarrow>
      bq_amount_out q + bq_new_pool_zerenya q = e \<and> bq_new_pool_zagros q + bq_community_fee q = z + a \<and>
      z * e \<le> bq_new_pool_zagros q * bq_new_pool_zerenya q) \<and>
    quote_swap_buy a z e f \<noteq> Inl RustPanic \<and> quote_bridge_mint_and_swap a z e f \<noteq> Inl RustPanic \<and>
    quote_bridge_swap_and_burn a z e f \<noteq> Inl RustPanic"
proof (intro conjI allI impI)
  fix q assume q: "quote_swap_buy a z e f = Inr q"
  note exact = quote_swap_buy_exact [OF assms q]
  show "sq_amount_out q + sq_community_fee q + sq_new_pool_zagros q = z" "sq_new_pool_zerenya q = e + a"
    using exact by simp_all
  show "z * e \<le> sq_new_pool_zagros q * sq_new_pool_zerenya q"
    using exact product_grows [of e z a] by (metis mult.commute)
next
  fix q assume q: "quote_bridge_mint_and_swap a z e f = Inr q"
  note exact = quote_mint_exact [OF assms q]
  show "bq_amount_out q + bq_community_fee q + bq_new_pool_zagros q = z" "bq_new_pool_zerenya q = e + a"
    using exact by auto
  show "z * e \<le> bq_new_pool_zagros q * bq_new_pool_zerenya q"
    using exact product_grows [of e z a] by (metis mult.commute)
next
  fix q assume q: "quote_bridge_swap_and_burn a z e f = Inr q"
  note exact = quote_burn_exact [OF assms q]
  show "bq_amount_out q + bq_new_pool_zerenya q = e" "bq_new_pool_zagros q + bq_community_fee q = z + a"
    using exact by auto
  show "z * e \<le> bq_new_pool_zagros q * bq_new_pool_zerenya q"
    using exact product_grows [of z e] by (metis mult.commute)
qed (use quotes_never_panic [OF assms(1)] in simp_all)

text \<open>The genesis pool, and a purchase of 10 ZERENYA at the standard fee.\<close>

definition genesis_zagros :: nat where
  "genesis_zagros = 42000000 * TOKEN_DECIMAL"

definition genesis_zerenya :: nat where
  "genesis_zerenya = 10500 * TOKEN_DECIMAL"

lemma genesis_pool_ok: "pool_ok genesis_zagros genesis_zerenya"
  by (simp add: pool_ok_def genesis_zagros_def genesis_zerenya_def TOKEN_DECIMAL_def)

lemma genesis_buy:
  "\<exists>q. quote_swap_buy (10 * TOKEN_DECIMAL) genesis_zagros genesis_zerenya STANDARD_SWAP_FEE_BPS = Inr q"
  by (simp add: quote_swap_buy_def MIN_POOL_LIQUIDITY_ZAGROS_def MIN_POOL_LIQUIDITY_ZERENYA_def
      genesis_zagros_def genesis_zerenya_def TOKEN_DECIMAL_def swap_cap_def MAX_SWAP_AMOUNT_PERCENT_def
      amm_quotient_def sat_mul_def sat_add_def STANDARD_SWAP_FEE_BPS_def Let_def)

theorem quotes_conserve_and_keep_product_witness:
  "\<exists>q. quote_swap_buy (10 * TOKEN_DECIMAL) genesis_zagros genesis_zerenya STANDARD_SWAP_FEE_BPS = Inr q \<and>
     genesis_zagros * genesis_zerenya \<le> sq_new_pool_zagros q * sq_new_pool_zerenya q"
  using quotes_conserve_and_keep_product [OF genesis_pool_ok, of STANDARD_SWAP_FEE_BPS "10 * TOKEN_DECIMAL"]
    genesis_buy
  by (auto simp: STANDARD_SWAP_FEE_BPS_def)

text \<open>
  C28: no free lunch: on reserves of at most half of 128 bits and at any fee of at most 100 per cent,
  exchanging ZERENYA for ZAGROS, by a purchase or by a bridge deposit, and selling the whole proceeds
  straight back through the bridge exit gives at most the ZERENYA that was put in.
\<close>

theorem round_trip_gains_nothing:
  assumes "pool_ok z e" and "f \<le> 10000"
    and "(\<exists>q. quote_swap_buy a z e f = Inr q \<and>
        (out, z', e') = (sq_amount_out q, sq_new_pool_zagros q, sq_new_pool_zerenya q)) \<or>
      (\<exists>q. quote_bridge_mint_and_swap a z e f = Inr q \<and>
        (out, z', e') = (bq_amount_out q, bq_new_pool_zagros q, bq_new_pool_zerenya q))"
    and "quote_bridge_swap_and_burn out z' e' f = Inr back"
  shows "bq_amount_out back \<le> a"
proof -
  obtain raw where raw: "out \<le> raw" "raw = a * z div (e + a)" "raw \<le> z" "z' = z - raw" "e' = e + a" "a \<le> e"
    using assms(3) quote_swap_buy_exact [OF assms(1,2)] quote_mint_exact [OF assms(1,2)] by fastforce
  have fits: "z' + out \<le> u128_max" "e' \<le> u128_max"
    using raw(1,3-6) assms(1) by (auto simp: pool_ok_def)
  obtain net where net: "net \<le> out" "bq_amount_out back = net * e' div (z' + net)" "bq_amount_out back \<le> e'"
    using quote_burn_in_range [OF fits assms(2,4)] by (metis le_add1)
  have le: "z' + net \<le> z" using raw(1,3,4) net(1) by simp
  have "z * e \<le> z' * e'" using product_grows [of e z a] raw(2,4,5) by (metis mult.commute)
  also have "\<dots> \<le> (e' - bq_amount_out back) * (z' + net)"
    using product_grows [of z' e' net] net(2) by simp
  also have "\<dots> \<le> (e' - bq_amount_out back) * z" using le by (rule mult_le_mono2)
  finally have "z * e \<le> z * (e' - bq_amount_out back)" by (simp add: mult.commute)
  moreover have "0 < z"
    using assms(3) by (auto simp: quote_bridge_mint_and_swap_def quote_swap_buy_def
        MIN_POOL_LIQUIDITY_ZAGROS_def TOKEN_DECIMAL_def split: if_splits)
  ultimately have "e \<le> e' - bq_amount_out back" by simp
  then show ?thesis using net(3) raw(5) by simp
qed

text \<open>A pool on which both legs go through.\<close>

lemma genesis_round_trip:
  "case quote_swap_buy TOKEN_DECIMAL genesis_zagros genesis_zerenya STANDARD_SWAP_FEE_BPS of
     Inl err \<Rightarrow> False
   | Inr q \<Rightarrow> is_ok (quote_bridge_swap_and_burn (sq_amount_out q) (sq_new_pool_zagros q)
       (sq_new_pool_zerenya q) STANDARD_SWAP_FEE_BPS)"
  by (simp add: quote_swap_buy_def quote_bridge_swap_and_burn_def MIN_POOL_LIQUIDITY_ZAGROS_def
      MIN_POOL_LIQUIDITY_ZERENYA_def genesis_zagros_def genesis_zerenya_def TOKEN_DECIMAL_def swap_cap_def
      MAX_SWAP_AMOUNT_PERCENT_def amm_quotient_def sat_mul_def sat_add_def STANDARD_SWAP_FEE_BPS_def
      Let_def)

theorem round_trip_gains_nothing_witness:
  "\<exists>q q'. quote_swap_buy TOKEN_DECIMAL genesis_zagros genesis_zerenya STANDARD_SWAP_FEE_BPS = Inr q \<and>
     quote_bridge_swap_and_burn (sq_amount_out q) (sq_new_pool_zagros q) (sq_new_pool_zerenya q)
       STANDARD_SWAP_FEE_BPS = Inr q' \<and> bq_amount_out q' \<le> TOKEN_DECIMAL"
proof -
  obtain q q' where q: "quote_swap_buy TOKEN_DECIMAL genesis_zagros genesis_zerenya STANDARD_SWAP_FEE_BPS = Inr q"
    "quote_bridge_swap_and_burn (sq_amount_out q) (sq_new_pool_zagros q) (sq_new_pool_zerenya q)
       STANDARD_SWAP_FEE_BPS = Inr q'"
    using genesis_round_trip by (auto simp: is_ok_iff split: sum.splits)
  have "bq_amount_out q' \<le> TOKEN_DECIMAL"
    using q by (intro round_trip_gains_nothing [OF genesis_pool_ok _ _ q(2)])
      (auto simp: STANDARD_SWAP_FEE_BPS_def)
  with q show ?thesis by blast
qed

section \<open>Properties of the volume window\<close>

lemma vt_add_current:
  "vt_current d (vt_add d' amount t) =
     (if d = d' then sat_add u128_max (vt_current d t) amount else vt_current d t)"
  by (cases d; cases d') (simp_all add: vt_current_def vt_add_def)

lemma vt_add_window [simp]: "vt_window_start_secs (vt_add d amount t) = vt_window_start_secs t"
  by (cases d) (simp_all add: vt_add_def)

lemma vt_add_previous [simp]: "vt_previous d (vt_add d' amount t) = vt_previous d t"
  by (cases d; cases d') (simp_all add: vt_previous_def vt_add_def)

text \<open>
  Swaps put to the tracker one after the other: direction, amount, reserve of the side paid in, block
  time.
\<close>

type_synonym swap_event = "swap_direction \<times> nat \<times> nat \<times> nat"

definition accept_swap :: "swap_event \<Rightarrow> swap_volume_tracker \<Rightarrow> swap_volume_tracker result" where
  "accept_swap ev t = (case ev of (d, amount, reserve, ts) \<Rightarrow>
     (case volume_decision d amount reserve ts t of Inl e \<Rightarrow> Inl e | Inr (n, t') \<Rightarrow> Inr t'))"

definition event_time :: "swap_event \<Rightarrow> nat" where
  "event_time ev = (case ev of (d, amount, reserve, ts) \<Rightarrow> ts)"

text \<open>
  The rule the tracker is to implement, on the whole history of accepted swaps: the k-th minute's
  volume, and the sliding volume, in which the minute before counts by the share of the current one
  that is left.
\<close>

definition minute_volume :: "swap_direction \<Rightarrow> nat \<Rightarrow> swap_event list \<Rightarrow> nat" where
  "minute_volume d k evs =
     sum_list (map (\<lambda>(d', amount, reserve, ts). if d' = d \<and> ts div 60 = k then amount else 0) evs)"

definition minute_before :: "swap_direction \<Rightarrow> nat \<Rightarrow> swap_event list \<Rightarrow> nat" where
  "minute_before d ts evs = (if ts < 60 then 0 else minute_volume d (ts div 60 - 1) evs)"

definition sliding_volume :: "swap_direction \<Rightarrow> nat \<Rightarrow> swap_event list \<Rightarrow> nat" where
  "sliding_volume d ts evs =
     minute_volume d (ts div 60) evs + minute_before d ts evs * (60 - ts mod 60) div 60"

lemma minute_volume_snoc:
  "minute_volume d k (evs @ [(d', amount, reserve, ts)]) =
     minute_volume d k evs + (if d' = d \<and> ts div 60 = k then amount else 0)"
  by (simp add: minute_volume_def)

lemma minute_volume_silent:
  "(\<And>ev. ev \<in> set evs \<Longrightarrow> event_time ev div 60 \<noteq> k) \<Longrightarrow> minute_volume d k evs = 0"
  unfolding minute_volume_def by (fastforce simp: sum_list_eq_0_iff event_time_def)

text \<open>The tracker after a history, brought to a time in the minute of \<open>now\<close>.\<close>

definition tracks :: "swap_event list \<Rightarrow> nat \<Rightarrow> swap_volume_tracker \<Rightarrow> bool" where
  "tracks evs now t \<longleftrightarrow> vt_window_start_secs t = 60 * (now div 60) \<and>
     (\<forall>d. vt_current d t = minute_volume d (now div 60) evs \<and> vt_previous d t = minute_before d now evs \<and>
        minute_volume d (now div 60) evs \<le> u128_max div 100 \<and>
        minute_before d now evs \<le> u128_max div 100)"

lemma vt_align_minute: "vt_align ts = 60 * (ts div 60)"
  by (simp add: vt_align_def SWAP_VOLUME_WINDOW_SECS_def minus_mod_eq_mult_div)

lemma tracks_fresh: "tracks [] start (vt_fresh start)"
  by (simp add: tracks_def vt_fresh_def vt_align_minute minute_volume_def minute_before_def
      vt_current_def vt_previous_def split: swap_direction.split)

lemma vt_advance_shift:
  assumes "vt_window_start_secs t = 60 * k" "k < ts div 60"
  shows "vt_window_start_secs (vt_advance_to ts t) = 60 * (ts div 60)"
    and "vt_current d (vt_advance_to ts t) = 0"
    and "vt_previous d (vt_advance_to ts t) = (if ts div 60 = k + 1 then vt_current d t else 0)"
  using assms
  by (auto simp: vt_advance_to_def vt_align_minute SWAP_VOLUME_WINDOW_SECS_def Let_def vt_current_def
      vt_previous_def split: swap_direction.split)

lemma tracks_advance:
  assumes t: "tracks evs now t" and now: "now \<le> ts" and past: "\<And>ev. ev \<in> set evs \<Longrightarrow> event_time ev \<le> now"
  shows "tracks evs ts (vt_advance_to ts t)"
proof (cases "ts div 60 = now div 60")
  case True
  have "ts < 60 \<longleftrightarrow> ts div 60 = 0" "now < 60 \<longleftrightarrow> now div 60 = 0" by auto
  then have "minute_before d ts evs = minute_before d now evs" for d
    using True by (simp add: minute_before_def)
  moreover have "vt_advance_to ts t = t"
    using t True by (simp add: tracks_def vt_advance_to_def vt_align_minute)
  ultimately show ?thesis using t True unfolding tracks_def by metis
next
  case False
  then have less: "now div 60 < ts div 60" using now by (simp add: div_le_mono order_le_neq_trans)
  have old: "event_time ev div 60 \<le> now div 60" if "ev \<in> set evs" for ev
    using past [OF that] by (rule div_le_mono)
  have w: "vt_window_start_secs t = 60 * (now div 60)" using t by (simp add: tracks_def)
  note shift = vt_advance_shift [OF w less]
  have "minute_volume d (ts div 60) evs = 0" for d
    using old less by (intro minute_volume_silent) fastforce
  moreover have "vt_previous d (vt_advance_to ts t) = minute_before d ts evs" for d
  proof (cases "ts div 60 = now div 60 + 1")
    case True
    moreover have "\<not> ts < 60" using less by auto
    ultimately show ?thesis using t shift(3) [of d] by (simp add: tracks_def minute_before_def)
  next
    case False
    have "minute_volume d (ts div 60 - 1) evs = 0"
      using old less False by (intro minute_volume_silent) fastforce
    then show ?thesis using False shift(3) [of d] by (simp add: minute_before_def)
  qed
  moreover have "vt_previous d (vt_advance_to ts t) \<le> u128_max div 100" for d
    using t shift(3) [of d] by (simp add: tracks_def)
  ultimately show ?thesis using shift(1,2) by (auto simp: tracks_def)
qed

lemma tracks_effective:
  assumes "tracks evs ts t"
  shows "vt_effective d ts t = sliding_volume d ts evs" "sliding_volume d ts evs \<le> u128_max div 50"
proof -
  have t: "vt_window_start_secs t = 60 * (ts div 60)" "vt_current d t = minute_volume d (ts div 60) evs"
    "vt_previous d t = minute_before d ts evs" "minute_volume d (ts div 60) evs \<le> u128_max div 100"
    "minute_before d ts evs \<le> u128_max div 100"
    using assms by (auto simp: tracks_def)
  let ?left = "60 - ts mod 60"
  have left: "60 - min (ts - 60 * (ts div 60)) 60 = ?left"
    by (simp add: minus_mult_div_eq_mod)
  have "minute_before d ts evs * ?left \<le> minute_before d ts evs * 60" by (rule mult_le_mono2) simp
  then have prev: "minute_before d ts evs * ?left \<le> u128_max"
      "minute_before d ts evs * ?left div 60 \<le> minute_before d ts evs"
    using t(5) by (linarith, linarith)
  then show "vt_effective d ts t = sliding_volume d ts evs"
    using t by (simp add: vt_effective_def SWAP_VOLUME_WINDOW_SECS_def Let_def left sliding_volume_def
        sat_mul_def sat_add_def)
  show "sliding_volume d ts evs \<le> u128_max div 50"
    using t prev(2) by (simp add: sliding_volume_def)
qed

lemma swap_cap_bound: "swap_cap reserve \<le> u128_max div 100"
  unfolding swap_cap_def sat_mul_def by (intro div_le_mono) simp

lemma accept_swap_iff:
  assumes "tracks evs now t" "now \<le> ts" "\<And>ev. ev \<in> set evs \<Longrightarrow> event_time ev \<le> now"
  shows "accept_swap (d, amount, reserve, ts) t = Inr t' \<longleftrightarrow>
    sliding_volume d ts evs + amount \<le> swap_cap reserve \<and> t' = vt_add d amount (vt_advance_to ts t)"
proof -
  note adv = tracks_effective [OF tracks_advance [OF assms], of d]
  have "swap_cap reserve \<le> u128_max" using swap_cap_bound [of reserve] by simp
  then show ?thesis
    by (auto simp: accept_swap_def volume_decision_def Let_def adv(1) checked_add_def)
qed

lemma accept_swap_tracks:
  assumes "tracks evs now t" "now \<le> ts" "\<And>ev. ev \<in> set evs \<Longrightarrow> event_time ev \<le> now"
    and "accept_swap (d, amount, reserve, ts) t = Inr t'"
  shows "tracks (evs @ [(d, amount, reserve, ts)]) ts t'"
proof -
  note adv = tracks_advance [OF assms(1-3)]
  have acc: "sliding_volume d ts evs + amount \<le> swap_cap reserve" "t' = vt_add d amount (vt_advance_to ts t)"
    using accept_swap_iff [OF assms(1-3)] assms(4) by blast+
  have "minute_volume d (ts div 60) evs + amount \<le> u128_max div 100"
    using acc(1) swap_cap_bound [of reserve] unfolding sliding_volume_def by linarith
  moreover have "minute_before d' ts (evs @ [(d, amount, reserve, ts)]) = minute_before d' ts evs" for d'
    by (auto simp: minute_before_def minute_volume_snoc)
  ultimately show ?thesis
    using adv by (auto simp: tracks_def acc(2) vt_add_current minute_volume_snoc sat_add_def)
qed

lemma order_max: "sorted xs \<Longrightarrow> x \<in> set xs \<Longrightarrow> x \<le> last xs" for x :: nat
  by (induction xs) auto

lemma accepted_run_tracks:
  assumes "fold_result accept_swap evs (vt_fresh start) = Inr t" "sorted (start # map event_time evs)"
  shows "tracks evs (last (start # map event_time evs)) t"
  using assms
proof (induction evs arbitrary: t rule: rev_induct)
  case Nil
  then have "t = vt_fresh start" by simp
  then show ?case using tracks_fresh [of start] by simp
next
  case (snoc ev evs)
  obtain d n r ts where ev: "ev = (d, n, r, ts)" by (cases ev)
  obtain t0 where t0: "fold_result accept_swap evs (vt_fresh start) = Inr t0" "accept_swap (d, n, r, ts) t0 = Inr t"
    using snoc.prems(1) ev by (auto simp: fold_result_append split: sum.splits)
  have time: "event_time ev = ts" by (simp add: ev event_time_def)
  have sorted: "sorted (start # map event_time evs)" and
    le: "x \<in> set (start # map event_time evs) \<Longrightarrow> x \<le> ts" for x
    using snoc.prems(2) by (auto simp: time sorted_append)
  have "event_time e \<le> last (start # map event_time evs)" if "e \<in> set evs" for e
    using order_max [OF sorted] that by auto
  then show ?case
    using accept_swap_tracks [OF snoc.IH [OF t0(1) sorted] le _ t0(2)] last_in_set [of "start # map event_time evs"]
    by (simp only: map_append list.map append.simps last.simps ev [symmetric] time) simp
qed

text \<open>
  C29: the volume window, exactly. After any history of accepted swaps since the tracker was set up,
  over any number of minutes and in both directions (their block times in order, as blocks have them),
  a swap is accepted if and only if its amount, the volume its direction already has in the current
  minute, and the volume of the minute before weighted by the seconds left of this one (rounded down)
  come to at most five per cent of the reserve given (a product past 128 bits saturates). So in every
  clock minute what was paid in on one side, up to and including an accepted swap, is at most five per
  cent of that side's reserve at that swap. Any 60 seconds not aligned to the minute are not capped so:
  see \<open>sliding_window_admits_double\<close>.
\<close>

theorem window_caps_volume:
  assumes "fold_result accept_swap evs (vt_fresh start) = Inr t"
    and "sorted (start # map event_time evs @ [ts])"
  shows "((\<exists>t'. accept_swap (d, amount, reserve, ts) t = Inr t') \<longleftrightarrow>
      sliding_volume d ts evs + amount \<le> min u128_max (reserve * 5) div 100) \<and>
    (\<forall>t'. accept_swap (d, amount, reserve, ts) t = Inr t' \<longrightarrow>
      minute_volume d (ts div 60) (evs @ [(d, amount, reserve, ts)]) \<le> reserve * 5 div 100)"
proof -
  let ?last = "last (start # map event_time evs)"
  have sorted: "sorted (start # map event_time evs)" using assms(2) by (auto simp: sorted_append)
  have "x \<le> ts" if "x \<in> set (start # map event_time evs)" for x
    using assms(2) that by (auto simp: sorted_append)
  then have le: "?last \<le> ts" using last_in_set by blast
  have past: "event_time ev \<le> ?last" if "ev \<in> set evs" for ev
    using order_max [OF sorted] that by auto
  note iff = accept_swap_iff [OF accepted_run_tracks [OF assms(1) sorted] le past, of d amount reserve]
  have cap: "swap_cap reserve = min u128_max (reserve * 5) div 100"
    by (simp add: swap_cap_def MAX_SWAP_AMOUNT_PERCENT_def sat_mul_def)
  have "minute_volume d (ts div 60) (evs @ [(d, amount, reserve, ts)]) \<le> reserve * 5 div 100"
    if "sliding_volume d ts evs + amount \<le> min u128_max (reserve * 5) div 100"
  proof -
    have "min u128_max (reserve * 5) div 100 \<le> reserve * 5 div 100" by (intro div_le_mono) simp
    then show ?thesis using that unfolding sliding_volume_def minute_volume_snoc by simp
  qed
  then show ?thesis using iff unfolding cap by blast
qed

text \<open>Evaluating one accepted swap.\<close>

lemma accept_swap_eval:
  assumes "vt_advance_to ts t = t1" "vt_effective d ts t1 = n" "n + amount \<le> u128_max" "n + amount \<le> swap_cap reserve"
  shows "accept_swap (d, amount, reserve, ts) t = Inr (vt_add d amount t1)"
  using assms by (simp add: accept_swap_def volume_decision_def checked_add_def)

definition tracker_of :: "nat \<Rightarrow> nat \<Rightarrow> nat \<Rightarrow> nat \<Rightarrow> nat \<Rightarrow> swap_volume_tracker" where
  "tracker_of w ce cz pe pz = \<lparr>vt_window_start_secs = w, vt_current_zerenya_in = ce,
     vt_current_zagros_in = cz, vt_previous_zerenya_in = pe, vt_previous_zagros_in = pz\<rparr>"

lemmas tracker_eval = tracker_of_def vt_advance_to_def vt_align_def SWAP_VOLUME_WINDOW_SECS_def
  vt_effective_def vt_current_def vt_previous_def sat_add_def sat_mul_def swap_cap_def
  MAX_SWAP_AMOUNT_PERCENT_def vt_add_def vt_fresh_def

theorem window_caps_volume_witness:
  "(\<exists>t. fold_result accept_swap [(ZerenyaIn, 30000, 1000000, 61), (ZagrosIn, 7, 1000000, 70)] (vt_fresh 60) = Inr t \<and>
     (\<exists>t'. accept_swap (ZerenyaIn, 35000, 1000000, 150) t = Inr t') \<and>
     \<not> (\<exists>t'. accept_swap (ZerenyaIn, 35001, 1000000, 150) t = Inr t'))"
proof -
  let ?evs = "[(ZerenyaIn, 30000, 1000000, 61), (ZagrosIn, 7, 1000000, 70)]"
  have fresh: "vt_fresh 60 = tracker_of 60 0 0 0 0" by (simp add: tracker_eval)
  have "accept_swap (ZerenyaIn, 30000, 1000000, 61) (tracker_of 60 0 0 0 0) =
      Inr (vt_add ZerenyaIn 30000 (tracker_of 60 0 0 0 0))"
    by (rule accept_swap_eval [of _ _ _ _ 0]) (simp_all add: tracker_eval)
  moreover have "vt_add ZerenyaIn 30000 (tracker_of 60 0 0 0 0) = tracker_of 60 30000 0 0 0"
    by (simp add: tracker_eval)
  moreover have "accept_swap (ZagrosIn, 7, 1000000, 70) (tracker_of 60 30000 0 0 0) =
      Inr (vt_add ZagrosIn 7 (tracker_of 60 30000 0 0 0))"
    by (rule accept_swap_eval [of _ _ _ _ 0]) (simp_all add: tracker_eval)
  ultimately obtain t where run: "fold_result accept_swap ?evs (vt_fresh 60) = Inr t"
    by (simp add: fresh)
  have sliding: "sliding_volume ZerenyaIn 150 ?evs = 15000"
    by (simp add: sliding_volume_def minute_volume_def minute_before_def)
  have sorted: "sorted (60 # map event_time ?evs @ [150])" by (simp add: event_time_def)
  have "(\<exists>t'. accept_swap (ZerenyaIn, n, 1000000, 150) t = Inr t') \<longleftrightarrow> 15000 + n \<le> 50000" for n
    using window_caps_volume [OF run sorted, of ZerenyaIn n 1000000] by (simp add: sliding)
  then show ?thesis using run by (intro exI [of _ t]) simp
qed

text \<open>
  What the window does not cap: the previous window counts by the time left, as if its volume had
  been spread evenly. Two swaps 59 seconds apart, the first at the end of its window, are both
  accepted although they add up to almost twice the limit on the same reserve.
\<close>

lemma sliding_window_admits_double:
  "\<exists>t t'. accept_swap (ZagrosIn, 60000, 1200000, 59) (vt_fresh 0) = Inr t \<and>
     accept_swap (ZagrosIn, 58000, 1200000, 118) t = Inr t' \<and>
     swap_cap 1200000 = 60000 \<and> (60000 :: nat) + 58000 > swap_cap 1200000 + 50000"
proof -
  have fresh: "vt_fresh 0 = tracker_of 0 0 0 0 0" by (simp add: tracker_eval)
  have "accept_swap (ZagrosIn, 60000, 1200000, 59) (tracker_of 0 0 0 0 0) =
      Inr (vt_add ZagrosIn 60000 (tracker_of 0 0 0 0 0))"
    by (rule accept_swap_eval [of _ _ _ _ 0]) (simp_all add: tracker_eval)
  moreover have "vt_add ZagrosIn 60000 (tracker_of 0 0 0 0 0) = tracker_of 0 0 60000 0 0"
    by (simp add: tracker_eval)
  moreover have "accept_swap (ZagrosIn, 58000, 1200000, 118) (tracker_of 0 0 60000 0 0) =
      Inr (vt_add ZagrosIn 58000 (tracker_of 60 0 0 0 60000))"
    by (rule accept_swap_eval [of _ _ _ _ 2000]) (simp_all add: tracker_eval)
  moreover have "swap_cap 1200000 = 60000" by (simp add: tracker_eval)
  ultimately show ?thesis by (simp add: fresh)
qed

section \<open>The window in the state\<close>

context account_store
begin

lemma does_tracker_error:
  "does s m (Inr x) v \<Longrightarrow> does s (tracker_error msg m) (Inr x) v"
  by (cases "m s") (auto simp: does_def tracker_error_def)

lemma does_lift_final: "inv s \<Longrightarrow> view s = v \<Longrightarrow> does s (lift r) r v"
  by (simp add: does_def lift_def)

text \<open>What recording a swap does to the accounts, as a function of the stored tracker.\<close>

lemma record_volume_does:
  assumes s: "inv s" and key: "known swap_volume_tracker_key" "canonicalize swap_volume_tracker_key = swap_volume_tracker_key"
  shows "does s (check_and_record_swap_volume C fetch put d amount reserve ts)
    (case decode_tracker C (view s swap_volume_tracker_key) ts of Inl e \<Rightarrow> Inl e
     | Inr t \<Rightarrow> (case volume_decision d amount reserve ts t of Inl e \<Rightarrow> Inl e
       | Inr (n, t') \<Rightarrow> (case tc_serialize C t' of
           None \<Rightarrow> Inl (Other ''Failed to serialize swap volume tracker'') | Some b \<Rightarrow> Inr n)))
    (case decode_tracker C (view s swap_volume_tracker_key) ts of Inl e \<Rightarrow> view s
     | Inr t \<Rightarrow> (case volume_decision d amount reserve ts t of Inl e \<Rightarrow> view s
       | Inr (n, t') \<Rightarrow> (case tc_serialize C t' of None \<Rightarrow> view s
         | Some b \<Rightarrow> (view s)(swap_volume_tracker_key \<mapsto>
             (unwrap_or_default (view s swap_volume_tracker_key))\<lparr>ac_contract_code := b\<rparr>))))"
    (is "does s _ ?r ?v")
proof -
  let ?k = swap_volume_tracker_key
  have fetch: "does s' (tracker_error msg (fetch ?k)) (Inr (view s' ?k)) (view s')" if "inv s'" for s' msg
    using does_tracker_error [OF does_fetch [OF that, of ?k]] key by simp
  have load: "does s (load_tracker C fetch ?k ts) (decode_tracker C (view s ?k) ts) (view s)"
    unfolding load_tracker_def by (rule does_andthen [OF fetch [OF s]]) (auto intro: does_lift_final)
  show ?thesis
  proof (cases "decode_tracker C (view s ?k) ts")
    case (Inl e)
    with load show ?thesis
      by (cases "load_tracker C fetch ?k ts s") (simp add: check_and_record_swap_volume_def does_def andthen_def)
  next
    case (Inr t)
    show ?thesis
      unfolding check_and_record_swap_volume_def
    proof (rule does_andthen [OF load [unfolded Inr]])
      fix s1 assume s1: "inv s1" "view s1 = view s"
      show "does s1 (andthen (lift (volume_decision d amount reserve ts t)) (\<lambda>(new_effective, tracker).
          case tc_serialize C tracker of
            None \<Rightarrow> stop (Other ''Failed to serialize swap volume tracker'')
          | Some bytes \<Rightarrow>
              andthen (tracker_error ''Swap volume tracker read error'' (fetch ?k)) (\<lambda>account.
              andthen (tracker_error ''Swap volume tracker write error''
                  (put ?k ((unwrap_or_default account)\<lparr>ac_contract_code := bytes\<rparr>)))
                (\<lambda>_. give new_effective)))) ?r ?v"
      proof (cases "volume_decision d amount reserve ts t")
        case Inl': (Inl e)
        with Inr s1 show ?thesis by auto
      next
        case Inr': (Inr p)
        obtain n t' where p: "p = (n, t')" by (cases p)
        show ?thesis
        proof (cases "tc_serialize C t'")
          case None
          with Inr Inr' p s1 show ?thesis by auto
        next
          case (Some b)
          let ?a = "(unwrap_or_default (view s ?k))\<lparr>ac_contract_code := b\<rparr>"
          have wrote: "does s2 (andthen (tracker_error ''Swap volume tracker write error'' (put ?k ?a)) (\<lambda>_. give n))
              (Inr n) ((view s)(?k \<mapsto> ?a))" if "inv s2" "view s2 = view s" for s2
          proof (rule does_andthen)
            show "does s2 (tracker_error ''Swap volume tracker write error'' (put ?k ?a)) (Inr ()) ((view s)(?k \<mapsto> ?a))"
              using does_put_at [OF that, of ?k ?a] key by (intro does_tracker_error) simp
          qed auto
          have "does s1 (andthen (tracker_error ''Swap volume tracker read error'' (fetch ?k)) (\<lambda>account.
              andthen (tracker_error ''Swap volume tracker write error''
                  (put ?k ((unwrap_or_default account)\<lparr>ac_contract_code := b\<rparr>))) (\<lambda>_. give n)))
              (Inr n) ((view s)(?k \<mapsto> ?a))"
            by (rule does_andthen [OF fetch [OF s1(1)]]) (use wrote s1 in auto)
          with Inr Inr' p Some show ?thesis by simp
        qed
      qed
    qed
  qed
qed

end

text \<open>
  C30: recording is all or nothing: on the real store a swap that is refused (corrupt tracker, volume
  over the limit, overflow, failed encoding) leaves every account as it was; an accepted one stores
  exactly the advanced tracker with the amount added, touches no other account, and its effective
  volume is within five per cent of the reserve.
\<close>

theorem volume_recorded_exactly:
  assumes "sm_sound E tid s"
    and "check_and_record_swap_volume C (sm_get_account E) (sm_set_account E tid) d amount reserve ts s = (r, s')"
  shows "case r of
      Inl e \<Rightarrow> sm_view E s' = sm_view E s
    | Inr n \<Rightarrow> n \<le> swap_cap reserve \<and>
        (\<exists>t t' b. decode_tracker C (sm_view E s swap_volume_tracker_key) ts = Inr t \<and>
           t' = vt_add d amount (vt_advance_to ts t) \<and>
           n = vt_effective d ts (vt_advance_to ts t) + amount \<and> tc_serialize C t' = Some b \<and>
           sm_view E s' = (sm_view E s)(swap_volume_tracker_key \<mapsto>
             (unwrap_or_default (sm_view E s swap_volume_tracker_key))\<lparr>ac_contract_code := b\<rparr>))"
proof -
  let ?k = swap_volume_tracker_key
  have key: "account_key ?k" "canonicalize ?k = ?k"
    by (simp_all add: account_key_def swap_volume_tracker_key_def canonicalize_short)
  note does = sm.record_volume_does [OF assms(1) key, of C d amount reserve ts]
  show ?thesis
  proof (cases "decode_tracker C (sm_view E s ?k) ts")
    case (Inl e)
    with does assms(2) show ?thesis by (simp add: sm.does_def)
  next
    case (Inr t)
    show ?thesis
    proof (cases "volume_decision d amount reserve ts t")
      case Inl': (Inl e)
      with does Inr assms(2) show ?thesis by (simp add: sm.does_def)
    next
      case Inr': (Inr p)
      obtain n t' where p: "p = (n, t')" by (cases p)
      have n: "n \<le> swap_cap reserve" "n = vt_effective d ts (vt_advance_to ts t) + amount"
          "t' = vt_add d amount (vt_advance_to ts t)"
        using Inr' p by (auto simp: volume_decision_def Let_def checked_add_def split: option.splits if_splits)
      show ?thesis
      proof (cases "tc_serialize C t'")
        case None
        with does Inr Inr' p assms(2) show ?thesis by (simp add: sm.does_def)
      next
        case (Some b)
        with does Inr Inr' p assms(2) have "r = Inr n" "sm_view E s' = (sm_view E s)(?k \<mapsto>
             (unwrap_or_default (sm_view E s ?k))\<lparr>ac_contract_code := b\<rparr>)"
          by (simp_all add: sm.does_def)
        with n Inr Some show ?thesis by auto
      qed
    qed
  qed
qed

text \<open>A codec for the witness, and a store with one account.\<close>

definition flat_codec :: tracker_codec where
  "flat_codec = \<lparr>tc_serialize = (\<lambda>t. Some [1]), tc_deserialize = (\<lambda>b. None), tc_deserialize_legacy = (\<lambda>b. None)\<rparr>"

theorem volume_recorded_exactly_witness:
  "\<exists>s'. check_and_record_swap_volume flat_codec (sm_get_account byte_env) (sm_set_account byte_env 0)
       ZerenyaIn 5 1000 120 empty_store = (Inr 5, s') \<and>
     sm_view byte_env s' swap_volume_tracker_key = Some (default_account\<lparr>ac_contract_code := [1]\<rparr>)"
proof -
  have sound: "sm_sound byte_env 0 empty_store"
    using empty_tracked by (simp add: tracked_def sm_sound_def) (simp add: empty_store_def)
  have none: "sm_view byte_env empty_store swap_volume_tracker_key = None"
    by (simp add: sm_view_def disk_view_def empty_store_def empty_disk_def)
  have key: "account_key swap_volume_tracker_key" "canonicalize swap_volume_tracker_key = swap_volume_tracker_key"
    by (simp_all add: account_key_def swap_volume_tracker_key_def canonicalize_short)
  have decision: "volume_decision ZerenyaIn 5 1000 120 (vt_fresh 120) = Inr (5, vt_add ZerenyaIn 5 (vt_fresh 120))"
  proof -
    have "vt_advance_to 120 (vt_fresh 120) = vt_fresh 120" "vt_effective ZerenyaIn 120 (vt_fresh 120) = 0"
      "swap_cap 1000 = 50"
      by (simp_all add: tracker_eval)
    then show ?thesis by (simp add: volume_decision_def checked_add_def)
  qed
  obtain r s' where run: "check_and_record_swap_volume flat_codec (sm_get_account byte_env)
      (sm_set_account byte_env 0) ZerenyaIn 5 1000 120 empty_store = (r, s')"
    by (metis surj_pair)
  have "r = Inr 5"
    using sm.record_volume_does [OF sound key, of flat_codec ZerenyaIn 5 1000 120] run none decision
    by (simp add: sm.does_def decode_tracker_def flat_codec_def)
  then show ?thesis
    using volume_recorded_exactly [OF sound run] run none by (auto simp: unwrap_or_default_def flat_codec_def)
qed

end
