(* ===== verification/Host.thy ===== *)
theory Host
  imports StateRoot Overlay
begin

text \<open>
  What the executor (\<open>crates/zagros-executor\<close>) is given to work on. It is written against the
  \<open>State\<close> trait; here a \<open>host\<close> is the record of the trait's operations, and the executor's own
  volatile variables (\<open>Executor\<close>'s atomics and locks) stand beside the store, so every function of
  the executor is an action on a pair.

  Besides the manager and the overlay there is a third host, \<open>plain_host\<close>: a bare map with one saved
  copy. It is the specification of the other two. The relation \<open>mirrors\<close> says that an action on a
  store and the same action on the plain host return the same value and end in the same accounts;
  it is a congruence for the combinators the code is written with, so it holds for whole handlers.
\<close>

section \<open>Hosts\<close>

record 's host =
  h_get :: "'s getter"
  h_put :: "'s setter"
  h_checkpoint :: "('s, nat) action"
  h_commit :: "nat \<Rightarrow> ('s, unit) action"
  h_revert :: "nat \<Rightarrow> ('s, unit) action"
  h_candidates :: "('s, (address \<times> nat) list) action"

text \<open>An action on the store, run beside variables it does not touch.\<close>

definition on_store :: "('s, 'a) action \<Rightarrow> ('s \<times> 'v, 'a) action" where
  "on_store m sw = (case m (fst sw) of (r, s') \<Rightarrow> (r, (s', snd sw)))"

definition shared :: "'s host \<Rightarrow> ('s \<times> 'v) host" where
  "shared H = \<lparr>h_get = (\<lambda>a. on_store (h_get H a)), h_put = (\<lambda>a x. on_store (h_put H a x)),
     h_checkpoint = on_store (h_checkpoint H), h_commit = (\<lambda>n. on_store (h_commit H n)),
     h_revert = (\<lambda>n. on_store (h_revert H n)), h_candidates = on_store (h_candidates H)\<rparr>"

definition manager_host :: "state_env \<Rightarrow> thread \<Rightarrow> state_manager host" where
  "manager_host E tid = \<lparr>h_get = sm_get_account E, h_put = sm_set_account E tid,
     h_checkpoint = sm_checkpoint tid, h_commit = sm_commit_checkpoint tid,
     h_revert = sm_revert_checkpoint tid, h_candidates = sm_get_validator_candidates E\<rparr>"

definition overlay_host :: "thread \<Rightarrow> overlay host" where
  "overlay_host tid = \<lparr>h_get = ov_get_account, h_put = ov_set_account tid,
     h_checkpoint = ov_checkpoint tid, h_commit = ov_commit_checkpoint tid,
     h_revert = ov_revert_checkpoint tid, h_candidates = ov_get_validator_candidates\<rparr>"

text \<open>The variables of \<open>Executor\<close> that change while it runs.\<close>

record validator_index =
  vi_by_stake :: "(nat \<times> address) list"
  vi_stakes :: "(address \<times> nat) list"

record volatile =
  vo_staking_index :: "validator_index option"
  vo_pending_gas_reward :: nat
  vo_block_producer :: address
  vo_transfer_index :: nat
  vo_processing :: "address list"

definition read_var :: "(volatile \<Rightarrow> 'a) \<Rightarrow> ('s \<times> volatile, 'a) action" where
  "read_var f sw = (Inr (f (snd sw)), sw)"

definition change_var :: "(volatile \<Rightarrow> volatile) \<Rightarrow> ('s \<times> volatile, unit) action" where
  "change_var f sw = (Inr (), (fst sw, f (snd sw)))"

section \<open>More actions\<close>

text \<open>\<open>.ok()\<close>: the value, or nothing on an error.\<close>

definition attempt :: "('s, 'a) action \<Rightarrow> ('s, 'a option) action" where
  "attempt m s = (case m s of (Inl e, s') \<Rightarrow> (Inr None, s') | (Inr x, s') \<Rightarrow> (Inr (Some x), s'))"

text \<open>\<open>.map_err(f)\<close>.\<close>

definition rename_error :: "(zerror \<Rightarrow> zerror) \<Rightarrow> ('s, 'a) action \<Rightarrow> ('s, 'a) action" where
  "rename_error f m s = (case m s of (r, s') \<Rightarrow> (map_err f r, s'))"

text \<open>A loop over a list whose body may fail.\<close>

fun each :: "('a \<Rightarrow> ('s, unit) action) \<Rightarrow> 'a list \<Rightarrow> ('s, unit) action" where
  "each f [] = give ()"
| "each f (x # xs) = andthen (f x) (\<lambda>_. each f xs)"

definition fails_unless :: "bool \<Rightarrow> zerror \<Rightarrow> ('s, unit) action" where
  "fails_unless c e = (if c then give () else stop e)"

text \<open>
  The shape of \<open>apply_transaction\<close>: open a checkpoint, work, then commit and go on with the value,
  or revert and go on with the error, which says more there than a plain one. Its own errors are pairs
  of an error and the fee charged:
  \<open>with_fee g m k\<close> is \<open>m.map_err(|e| (e, g))?\<close> followed by \<open>k\<close>.
\<close>

type_synonym 'a failing = "(zerror \<times> nat) + 'a"

definition with_fee :: "nat \<Rightarrow> ('s, 'a) action \<Rightarrow> ('a \<Rightarrow> 's \<Rightarrow> 'b failing \<times> 's) \<Rightarrow> 's \<Rightarrow> 'b failing \<times> 's" where
  "with_fee g m k s = (case m s of (Inl e, s') \<Rightarrow> (Inl (e, g), s') | (Inr x, s') \<Rightarrow> k x s')"

definition bracket ::
  "'s host \<Rightarrow> ('s \<Rightarrow> ('e + 'a) \<times> 's) \<Rightarrow> ('a \<Rightarrow> 's \<Rightarrow> 'b failing \<times> 's) \<Rightarrow> ('e \<Rightarrow> 's \<Rightarrow> 'b failing \<times> 's) \<Rightarrow>
     's \<Rightarrow> 'b failing \<times> 's" where
  "bracket H work on_commit on_revert =
     with_fee 0 (h_checkpoint H) (\<lambda>checkpoint_id s.
       case work s of
         (Inr x, s') \<Rightarrow> with_fee 0 (h_commit H checkpoint_id) (\<lambda>_. on_commit x) s'
       | (Inl e, s') \<Rightarrow> with_fee 0 (h_revert H checkpoint_id) (\<lambda>_. on_revert e) s')"

section \<open>The plain store\<close>

record plain =
  pl_view :: "address \<rightharpoonup> account"
  pl_saved :: "(address \<rightharpoonup> account) option"

definition plain_get :: "plain getter" where
  "plain_get a s = (Inr (pl_view s (canonicalize a)), s)"

definition plain_put :: "plain setter" where
  "plain_put a x s = (Inr (), s\<lparr>pl_view := (pl_view s)(canonicalize a \<mapsto> x)\<rparr>)"

definition plain_checkpoint :: "(plain, nat) action" where
  "plain_checkpoint s =
     (case pl_saved s of
        None \<Rightarrow> (Inr 1, s\<lparr>pl_saved := Some (pl_view s)\<rparr>)
      | Some _ \<Rightarrow> (Inl (Other ''checkpoint already open''), s))"

definition plain_commit :: "nat \<Rightarrow> (plain, unit) action" where
  "plain_commit n s = (Inr (), s\<lparr>pl_saved := None\<rparr>)"

definition plain_revert :: "nat \<Rightarrow> (plain, unit) action" where
  "plain_revert n s =
     (case pl_saved s of
        None \<Rightarrow> (Inl (Other ''no open checkpoint''), s)
      | Some v \<Rightarrow> (Inr (), s\<lparr>pl_view := v, pl_saved := None\<rparr>))"

definition candidate :: "(address \<rightharpoonup> account) \<Rightarrow> address \<Rightarrow> bool" where
  "candidate v a \<longleftrightarrow> validate_address a \<and>
     (\<exists>x. v a = Some x \<and> \<not> ac_is_contract x \<and> 0 < ac_staked_balance x)"

definition plain_candidates :: "(plain, (address \<times> nat) list) action" where
  "plain_candidates s =
     (Inr (map (\<lambda>a. (a, ac_staked_balance (unwrap_or_default (pl_view s a))))
        (sorted_list_of_set {a. candidate (pl_view s) a})), s)"

definition plain_host :: "plain host" where
  "plain_host = \<lparr>h_get = plain_get, h_put = plain_put, h_checkpoint = plain_checkpoint,
     h_commit = plain_commit, h_revert = plain_revert, h_candidates = plain_candidates\<rparr>"

section \<open>Running actions on the plain store\<close>

lemma plain_reset: "(s :: plain)\<lparr>pl_view := v, pl_saved := c\<rparr> = \<lparr>pl_view = v, pl_saved = c\<rparr>"
  by (cases s) simp

named_theorems runs \<open>evaluation of actions on the plain host\<close>

lemma run_pure [runs]:
  "give x s = (Inr x, s)" "stop e s = (Inl e, s)" "lift r s = (r, s)"
  by (simp_all add: give_def stop_def lift_def)

lemma run_andthen_pure [runs]:
  "andthen (give x) k = k x" "andthen (stop e) k' = stop e" "andthen (lift (Inr y)) k'' = k'' y"
  "andthen (lift (Inl e')) k3 = stop e'"
  by (simp_all add: andthen_def give_def stop_def lift_def fun_eq_iff)

lemma run_get [runs]:
  "h_get (shared plain_host) a (s, w) = (Inr (pl_view s (canonicalize a)), (s, w))"
  by (simp add: shared_def plain_host_def plain_get_def on_store_def)

lemma run_put [runs]:
  "h_put (shared plain_host) a x (s, w) = (Inr (), (s\<lparr>pl_view := (pl_view s)(canonicalize a \<mapsto> x)\<rparr>, w))"
  by (simp add: shared_def plain_host_def plain_put_def on_store_def)

lemma run_vars [runs]:
  "read_var f (s, w) = (Inr (f w), (s, w))" "change_var g (s, w) = (Inr (), (s, g w))"
  by (simp_all add: read_var_def change_var_def)

lemma andthen_cases:
  "andthen m k s = (case m s of (Inl e, s') \<Rightarrow> (Inl e, s') | (Inr x, s') \<Rightarrow> k x s')"
  by (fact andthen_def)

lemma andthen_Inr:
  "andthen m k s = (Inr y, s'') \<longleftrightarrow> (\<exists>x s'. m s = (Inr x, s') \<and> k x s' = (Inr y, s''))"
  by (cases "m s"; cases "fst (m s)") (auto simp: andthen_def)

lemma andthen_assoc: "andthen (andthen m k) l = andthen m (\<lambda>x. andthen (k x) l)"
  by (auto simp: andthen_def fun_eq_iff split: prod.splits sum.splits)

text \<open>The keys that are not addresses stay as they are.\<close>

lemma canonicalize_other:
  "hd a \<noteq> CHR ''0'' \<Longrightarrow> a \<noteq> [] \<Longrightarrow> \<not> is_space (hd a) \<Longrightarrow> canonicalize a = a"
proof -
  assume a: "hd a \<noteq> CHR ''0''" "a \<noteq> []" "\<not> is_space (hd a)"
  then have d: "dropWhile is_space a = a" by (simp add: dropWhile_eq_self_iff)
  show ?thesis
  proof (cases "trim a")
    case Nil
    then show ?thesis by (simp add: canonicalize_def starts_with_def)
  next
    case (Cons c cs)
    have "trim a = take (length (trim a)) a"
    proof -
      have "a = trim a @ rev (takeWhile is_space (rev a))"
        using d by (metis rev_append rev_rev_ident takeWhile_dropWhile_id trim_def)
      then show ?thesis by (metis append_eq_conv_conj)
    qed
    then have "hd (trim a) = hd a" using Cons by (metis hd_take length_greater_0_conv list.discI)
    with a(1) have "\<not> starts_with (trim a) ''0x''" "\<not> starts_with (trim a) ''0X''"
      by (cases "trim a"; auto simp: starts_with_def)+
    then show ?thesis by (simp add: canonicalize_def Let_def)
  qed
qed

lemma account_key_canonicalize [simp]: "account_key (canonicalize a) = account_key a"
proof -
  have "canonicalize ''block_0'' = ''block_0''" by (rule canonicalize_short) simp
  then show ?thesis by (auto simp: account_key_def canonicalize_def Let_def split: if_splits)
qed

section \<open>Mirrored runs\<close>

text \<open>The executor's own variables only matter through the producer, whose account is read.\<close>

definition producer_ok :: "volatile \<Rightarrow> bool" where
  "producer_ok w \<longleftrightarrow> account_key (vo_block_producer w)"


locale chain_store = snapshot_store fetch put view inv account_key checkpoint commit revert opened
  for fetch :: "'s getter" and put :: "'s setter"
    and view :: "'s \<Rightarrow> address \<rightharpoonup> account" and inv :: "'s \<Rightarrow> bool"
    and checkpoint :: "('s, nat) action"
    and commit :: "nat \<Rightarrow> ('s, unit) action"
    and revert :: "nat \<Rightarrow> ('s, unit) action"
    and opened :: "'s \<Rightarrow> (nat \<times> (address \<rightharpoonup> account)) option" +
  fixes candidates :: "('s, (address \<times> nat) list) action"
begin

definition host :: "'s host" where
  "host = \<lparr>h_get = fetch, h_put = put, h_checkpoint = checkpoint, h_commit = commit,
     h_revert = revert, h_candidates = candidates\<rparr>"

definition plainly :: "'s \<Rightarrow> plain" where
  "plainly s = \<lparr>pl_view = view s, pl_saved = map_option snd (opened s)\<rparr>"

definition mirrors ::
  "('s \<times> volatile \<Rightarrow> 'r \<times> 's \<times> volatile) \<Rightarrow> (plain \<times> volatile \<Rightarrow> 'r \<times> plain \<times> volatile) \<Rightarrow> bool" where
  "mirrors m m' \<longleftrightarrow> (\<forall>s w. inv s \<longrightarrow> producer_ok w \<longrightarrow>
     (case m (s, w) of (r, (s', w')) \<Rightarrow>
        producer_ok w' \<and> inv s' \<and> opened s' = opened s \<and> m' (plainly s, w) = (r, (plainly s', w'))))"

lemma mirrorsD:
  assumes "mirrors m m'" "inv s" "producer_ok w" "m (s, w) = (r, (s', w'))"
  shows "producer_ok w' \<and> inv s' \<and> opened s' = opened s \<and> m' (plainly s, w) = (r, (plainly s', w'))"
  using assms(1) [unfolded mirrors_def, rule_format, OF assms(2,3)] assms(4) by simp

lemma mirrorsI:
  assumes "\<And>s w r s' w'. inv s \<Longrightarrow> producer_ok w \<Longrightarrow> m (s, w) = (r, (s', w')) \<Longrightarrow>
    producer_ok w' \<and> inv s' \<and> opened s' = opened s \<and> m' (plainly s, w) = (r, (plainly s', w'))"
  shows "mirrors m m'"
  unfolding mirrors_def
proof (intro allI impI)
  fix s w
  assume s: "inv s" "producer_ok w"
  obtain r s' w' where "m (s, w) = (r, (s', w'))" by (metis prod.exhaust)
  with assms [OF s this]
  show "case m (s, w) of (r, (s', w')) \<Rightarrow> producer_ok w' \<and> inv s' \<and> opened s' = opened s \<and>
      m' (plainly s, w) = (r, (plainly s', w'))"
    by simp
qed

lemma mirrors_get [intro!]:
  assumes "account_key a"
  shows "mirrors (h_get (shared host) a) (h_get (shared plain_host) a)"
  unfolding mirrors_def
proof (intro allI impI)
  fix s and w :: volatile
  assume "inv s" and w: "producer_ok w"
  then obtain s' where "fetch a s = (Inr (view s (canonicalize a)), s')" "inv s'" "view s' = view s"
    using fetch_ok assms by fastforce
  moreover from this have "opened s' = opened s" using fetch_opened [OF \<open>inv s\<close>, of a] assms by simp
  ultimately show "case h_get (shared host) a (s, w) of (r, (s', w')) \<Rightarrow> producer_ok w' \<and> inv s' \<and> opened s' = opened s \<and>
      h_get (shared plain_host) a (plainly s, w) = (r, (plainly s', w'))"
    by (simp add: shared_def host_def on_store_def plain_host_def plain_get_def plainly_def w)
qed

lemma mirrors_put [intro!]:
  assumes "account_key a"
  shows "mirrors (h_put (shared host) a x) (h_put (shared plain_host) a x)"
  unfolding mirrors_def
proof (intro allI impI)
  fix s and w :: volatile
  assume "inv s" and w: "producer_ok w"
  then obtain s' where "put a x s = (Inr (), s')" "inv s'" "view s' = (view s)(canonicalize a \<mapsto> x)"
    using put_ok assms by fastforce
  moreover from this have "opened s' = opened s" using put_opened [OF \<open>inv s\<close>, of a x] assms by simp
  ultimately show "case h_put (shared host) a x (s, w) of (r, (s', w')) \<Rightarrow> producer_ok w' \<and> inv s' \<and> opened s' = opened s \<and>
      h_put (shared plain_host) a x (plainly s, w) = (r, (plainly s', w'))"
    by (simp add: shared_def host_def on_store_def plain_host_def plain_put_def plainly_def w)
qed

lemma mirrors_pure [intro!]:
  "mirrors (give x) (give x)" "mirrors (stop e) (stop e)" "mirrors (lift r) (lift r)"
  "mirrors (read_var f) (read_var f)"
  by (simp_all add: mirrors_def give_def stop_def lift_def read_var_def)

lemma mirrors_change [intro!]:
  "(\<And>w. vo_block_producer (g w) = vo_block_producer w) \<Longrightarrow> mirrors (change_var g) (change_var g)"
  by (simp add: mirrors_def change_var_def producer_ok_def)

lemma mirrors_andthen [intro!]:
  assumes "mirrors m m'" "\<And>x. mirrors (k x) (k' x)"
  shows "mirrors (andthen m k) (andthen m' k')"
  unfolding mirrors_def
proof (intro allI impI)
  fix s w
  assume s: "inv s" and w: "producer_ok w"
  obtain r s1 w1 where m: "m (s, w) = (r, (s1, w1))" by (metis prod.exhaust)
  note 1 = mirrorsD [OF assms(1) s w m]
  show "case andthen m k (s, w) of (r, (s', w')) \<Rightarrow> producer_ok w' \<and> inv s' \<and> opened s' = opened s \<and>
      andthen m' k' (plainly s, w) = (r, (plainly s', w'))"
  proof (cases r)
    case (Inl e)
    then show ?thesis using m 1 by (simp add: andthen_def)
  next
    case (Inr x)
    obtain r2 s2 w2 where k: "k x (s1, w1) = (r2, (s2, w2))" by (metis prod.exhaust)
    with mirrorsD [OF assms(2) _ _ k] show ?thesis using m 1 Inr by (simp add: andthen_def)
  qed
qed

lemma mirrors_read_producer [intro!]:
  assumes "\<And>p. account_key p \<Longrightarrow> mirrors (k p) (k' p)"
  shows "mirrors (andthen (read_var vo_block_producer) k) (andthen (read_var vo_block_producer) k')"
proof (rule mirrorsI)
  fix s w r s' w'
  assume s: "inv s" "producer_ok w" and run: "andthen (read_var vo_block_producer) k (s, w) = (r, (s', w'))"
  have read: "andthen (read_var vo_block_producer) f (x, w) = f (vo_block_producer w) (x, w)"
    for f :: "address \<Rightarrow> 'c \<times> volatile \<Rightarrow> 'd result \<times> 'c \<times> volatile" and x
    by (simp add: andthen_def read_var_def)
  have "mirrors (k (vo_block_producer w)) (k' (vo_block_producer w))"
    using assms s(2) by (simp add: producer_ok_def)
  from mirrorsD [OF this s] run
  show "producer_ok w' \<and> inv s' \<and> opened s' = opened s \<and>
      andthen (read_var vo_block_producer) k' (plainly s, w) = (r, (plainly s', w'))"
    by (simp add: read)
qed

lemma mirrors_if [intro!]:
  "(c \<Longrightarrow> mirrors m m') \<Longrightarrow> (\<not> c \<Longrightarrow> mirrors n n') \<Longrightarrow>
     mirrors (if c then m else n) (if c then m' else n')"
  by simp

lemma mirrors_option [intro!]:
  "(x = None \<Longrightarrow> mirrors m m') \<Longrightarrow> (\<And>y. x = Some y \<Longrightarrow> mirrors (k y) (k' y)) \<Longrightarrow>
     mirrors (case x of None \<Rightarrow> m | Some y \<Rightarrow> k y) (case x of None \<Rightarrow> m' | Some y \<Rightarrow> k' y)"
  by (simp split: option.split)

lemma mirrors_sum [intro!]:
  "(\<And>y. x = Inl y \<Longrightarrow> mirrors (f y) (f' y)) \<Longrightarrow> (\<And>y. x = Inr y \<Longrightarrow> mirrors (k y) (k' y)) \<Longrightarrow>
     mirrors (case x of Inl y \<Rightarrow> f y | Inr y \<Rightarrow> k y) (case x of Inl y \<Rightarrow> f' y | Inr y \<Rightarrow> k' y)"
  by (simp split: sum.split)

lemma mirrors_prod [intro!]:
  "(\<And>a b. p = (a, b) \<Longrightarrow> mirrors (k a b) (k' a b)) \<Longrightarrow>
     mirrors (case p of (a, b) \<Rightarrow> k a b) (case p of (a, b) \<Rightarrow> k' a b)"
  by (simp split: prod.split)

lemma mirrors_let [intro!]: "(\<And>y. y = x \<Longrightarrow> mirrors (k y) (k' y)) \<Longrightarrow> mirrors (Let x k) (Let x k')"
  by simp

lemma mirrors_attempt [intro!]: "mirrors m m' \<Longrightarrow> mirrors (attempt m) (attempt m')"
proof (rule mirrorsI)
  fix s w r s' w'
  assume m: "mirrors m m'" and s: "inv s" "producer_ok w" and run: "attempt m (s, w) = (r, (s', w'))"
  obtain q s1 w1 where q: "m (s, w) = (q, (s1, w1))" by (metis prod.exhaust)
  from mirrorsD [OF m s q] run q
  show "producer_ok w' \<and> inv s' \<and> opened s' = opened s \<and> attempt m' (plainly s, w) = (r, (plainly s', w'))"
    by (cases q) (auto simp: attempt_def)
qed

lemma mirrors_rename [intro!]: "mirrors m m' \<Longrightarrow> mirrors (rename_error f m) (rename_error f m')"
proof (rule mirrorsI)
  fix s w r s' w'
  assume m: "mirrors m m'" and s: "inv s" "producer_ok w" and run: "rename_error f m (s, w) = (r, (s', w'))"
  obtain q s1 w1 where q: "m (s, w) = (q, (s1, w1))" by (metis prod.exhaust)
  from mirrorsD [OF m s q] run q
  show "producer_ok w' \<and> inv s' \<and> opened s' = opened s \<and> rename_error f m' (plainly s, w) = (r, (plainly s', w'))"
    by (auto simp: rename_error_def)
qed

lemma mirrors_each [intro!]: "(\<And>x. x \<in> set xs \<Longrightarrow> mirrors (f x) (f' x)) \<Longrightarrow> mirrors (each f xs) (each f' xs)"
  by (induction xs) auto

lemma mirrors_unless [intro!]: "mirrors (fails_unless c e) (fails_unless c e)"
  by (auto simp: fails_unless_def)

text \<open>Between transactions no checkpoint is open. A transaction is mirrored as a whole.\<close>

definition settled :: "'s \<Rightarrow> bool" where
  "settled s \<longleftrightarrow> inv s \<and> opened s = None"

definition mirrors_tx ::
  "('s \<times> volatile \<Rightarrow> 'r \<times> 's \<times> volatile) \<Rightarrow> (plain \<times> volatile \<Rightarrow> 'r \<times> plain \<times> volatile) \<Rightarrow> bool" where
  "mirrors_tx m m' \<longleftrightarrow> (\<forall>s w. settled s \<longrightarrow> producer_ok w \<longrightarrow>
     (case m (s, w) of (r, (s', w')) \<Rightarrow> producer_ok w' \<and> settled s' \<and> m' (plainly s, w) = (r, (plainly s', w'))))"

lemma mirrors_txD:
  assumes "mirrors_tx m m'" "settled s" "producer_ok w" "m (s, w) = (r, (s', w'))"
  shows "producer_ok w' \<and> settled s' \<and> m' (plainly s, w) = (r, (plainly s', w'))"
  using assms(1) [unfolded mirrors_tx_def, rule_format, OF assms(2,3)] assms(4) by simp

lemma mirrors_tx: "mirrors m m' \<Longrightarrow> mirrors_tx m m'"
  unfolding mirrors_tx_def
proof (intro allI impI)
  fix s w
  assume m: "mirrors m m'" and s: "settled s" "producer_ok w"
  obtain r s' w' where run: "m (s, w) = (r, (s', w'))" by (metis prod.exhaust)
  from mirrorsD [OF m _ s(2) run] s(1) run
  show "case m (s, w) of (r, (s', w')) \<Rightarrow> producer_ok w' \<and> settled s' \<and> m' (plainly s, w) = (r, (plainly s', w'))"
    by (simp add: settled_def)
qed

lemma mirrors_tx_andthen:
  assumes "mirrors_tx m m'" "\<And>x. mirrors_tx (k x) (k' x)"
  shows "mirrors_tx (andthen m k) (andthen m' k')"
  unfolding mirrors_tx_def
proof (intro allI impI)
  fix s w
  assume s: "settled s" and w: "producer_ok w"
  obtain r s1 w1 where m: "m (s, w) = (r, (s1, w1))" by (metis prod.exhaust)
  note 1 = mirrors_txD [OF assms(1) s w m]
  show "case andthen m k (s, w) of (r, (s', w')) \<Rightarrow> producer_ok w' \<and> settled s' \<and>
      andthen m' k' (plainly s, w) = (r, (plainly s', w'))"
  proof (cases r)
    case (Inl e)
    then show ?thesis using m 1 by (simp add: andthen_def)
  next
    case (Inr x)
    obtain r2 s2 w2 where k: "k x (s1, w1) = (r2, (s2, w2))" by (metis prod.exhaust)
    with mirrors_txD [OF assms(2) _ _ k] show ?thesis using m 1 Inr by (simp add: andthen_def)
  qed
qed

lemma mirrors_with_fee:
  assumes "mirrors_tx m m'" "\<And>x. mirrors_tx (k x) (k' x)"
  shows "mirrors_tx (with_fee g m k) (with_fee g m' k')"
  unfolding mirrors_tx_def
proof (intro allI impI)
  fix s w
  assume s: "settled s" and w: "producer_ok w"
  obtain r s1 w1 where m: "m (s, w) = (r, (s1, w1))" by (metis prod.exhaust)
  note 1 = mirrors_txD [OF assms(1) s w m]
  show "case with_fee g m k (s, w) of (r, (s', w')) \<Rightarrow> producer_ok w' \<and> settled s' \<and>
      with_fee g m' k' (plainly s, w) = (r, (plainly s', w'))"
  proof (cases r)
    case (Inl e)
    then show ?thesis using m 1 by (simp add: with_fee_def)
  next
    case (Inr x)
    obtain r2 s2 w2 where k: "k x (s1, w1) = (r2, (s2, w2))" by (metis prod.exhaust)
    with mirrors_txD [OF assms(2) _ _ k] show ?thesis using m 1 Inr by (simp add: with_fee_def)
  qed
qed

lemma mirrors_with_fee_in:
  assumes "mirrors m m'" "\<And>x. mirrors (k x) (k' x)"
  shows "mirrors (with_fee g m k) (with_fee g m' k')"
  unfolding mirrors_def
proof (intro allI impI)
  fix s w
  assume s: "inv s" and w: "producer_ok w"
  obtain r s1 w1 where m: "m (s, w) = (r, (s1, w1))" by (metis prod.exhaust)
  note 1 = mirrorsD [OF assms(1) s w m]
  show "case with_fee g m k (s, w) of (r, (s', w')) \<Rightarrow> producer_ok w' \<and> inv s' \<and> opened s' = opened s \<and>
      with_fee g m' k' (plainly s, w) = (r, (plainly s', w'))"
  proof (cases r)
    case (Inl e)
    then show ?thesis using m 1 by (simp add: with_fee_def)
  next
    case (Inr x)
    obtain r2 s2 w2 where k: "k x (s1, w1) = (r2, (s2, w2))" by (metis prod.exhaust)
    with mirrorsD [OF assms(2) _ _ k] show ?thesis using m 1 Inr by (simp add: with_fee_def)
  qed
qed

lemma mirrors_bracket:
  assumes work: "mirrors m m'"
    and rest: "\<And>x. mirrors_tx (k x) (k' x)" "\<And>e. mirrors_tx (l e) (l' e)"
  shows "mirrors_tx (bracket (shared host) m k l) (bracket (shared plain_host) m' k' l')"
  unfolding mirrors_tx_def
proof (intro allI impI)
  fix s w
  assume s: "settled s" and w: "producer_ok w"
  then obtain n s1 where cp: "checkpoint s = (Inr n, s1)" "inv s1" "view s1 = view s" "opened s1 = Some (n, view s)"
    using checkpoint_ok [of s] unfolding settled_def by blast
  have plain0: "plainly s = \<lparr>pl_view = view s, pl_saved = None\<rparr>" using s by (simp add: plainly_def settled_def)
  have plain1: "plainly s1 = \<lparr>pl_view = view s, pl_saved = Some (view s)\<rparr>" using cp by (simp add: plainly_def)
  obtain r s2 w2 where m: "m (s1, w) = (r, (s2, w2))" by (metis prod.exhaust)
  note 2 = mirrorsD [OF work cp(2) w m]
  have saved: "pl_saved (plainly s2) = Some (view s)" using 2 cp(4) by (simp add: plainly_def)
  have run: "bracket (shared plain_host) m' k' l' (plainly s, w) =
      (case r of Inr x \<Rightarrow> k' x (plainly s2\<lparr>pl_saved := None\<rparr>, w2)
       | Inl e \<Rightarrow> l' e (\<lparr>pl_view = view s, pl_saved = None\<rparr>, w2))"
    using 2 saved by (simp add: bracket_def with_fee_def shared_def plain_host_def on_store_def plain_checkpoint_def
        plain_commit_def plain_revert_def plain0 plain1 plain_reset split: sum.split)
  show "case bracket (shared host) m k l (s, w) of (r, (s', w')) \<Rightarrow> producer_ok w' \<and> settled s' \<and>
      bracket (shared plain_host) m' k' l' (plainly s, w) = (r, (plainly s', w'))"
  proof (cases r)
    case (Inl e)
    obtain s3 where s3: "revert n s2 = (Inr (), s3)" "inv s3" "view s3 = view s" "opened s3 = None"
      using revert_ok [of s2 n "view s"] 2 cp(4) by auto
    then have "settled s3" "plainly s3 = \<lparr>pl_view = view s, pl_saved = None\<rparr>"
      by (simp_all add: settled_def plainly_def)
    moreover obtain r4 s4 w4 where "l e (s3, w2) = (r4, (s4, w4))" by (metis prod.exhaust)
    moreover note mirrors_txD [OF rest(2) \<open>settled s3\<close> 2 [THEN conjunct1] \<open>l e (s3, w2) = (r4, (s4, w4))\<close>]
    ultimately show ?thesis
      using m Inl s3(1) cp(1) run by (simp add: bracket_def with_fee_def shared_def host_def on_store_def)
  next
    case (Inr x)
    obtain s3 where s3: "commit n s2 = (Inr (), s3)" "inv s3" "view s3 = view s2" "opened s3 = None"
      using commit_ok [of s2 n "view s"] 2 cp(4) by auto
    then have "settled s3" "plainly s3 = plainly s2\<lparr>pl_saved := None\<rparr>"
      by (simp_all add: settled_def plainly_def)
    moreover obtain r4 s4 w4 where "k x (s3, w2) = (r4, (s4, w4))" by (metis prod.exhaust)
    moreover note mirrors_txD [OF rest(1) \<open>settled s3\<close> 2 [THEN conjunct1] \<open>k x (s3, w2) = (r4, (s4, w4))\<close>]
    ultimately show ?thesis
      using m Inr s3(1) cp(1) run by (simp add: bracket_def with_fee_def shared_def host_def on_store_def)
  qed
qed

lemma mirrors_tx_if [intro!]:
  "(c \<Longrightarrow> mirrors_tx m m') \<Longrightarrow> (\<not> c \<Longrightarrow> mirrors_tx n n') \<Longrightarrow>
     mirrors_tx (if c then m else n) (if c then m' else n')"
  by simp

end

text \<open>The two implementations of the trait are such stores.\<close>

interpretation managed: chain_store "sm_get_account E" "sm_set_account E tid" "sm_view E" "sm_sound E tid"
    "sm_checkpoint tid" "sm_commit_checkpoint tid" "sm_revert_checkpoint tid" "sm_opened E tid"
    "sm_get_validator_candidates E"
  for E tid
  by unfold_locales

interpretation simulated: chain_store ov_get_account "ov_set_account tid" ov_view "ov_sound tid"
    "ov_checkpoint tid" "ov_commit_checkpoint tid" "ov_revert_checkpoint tid" "ov_opened tid"
    ov_get_validator_candidates
  for tid
  by unfold_locales

lemma hosts:
  "managed.host E tid = manager_host E tid" "simulated.host tid = overlay_host tid"
  by (simp_all add: managed.host_def manager_host_def simulated.host_def overlay_host_def)

end
