(* ===== verification/Gas.thy ===== *)
theory Gas
  imports Types
begin

text \<open>
  Fees: \<open>crates/zagros-types/src/gas.rs\<close>. The fee target is fixed in ZERENYA and turned into ZAGROS
  by the ratio of the pool's reserves; a loaded mempool multiplies it. The price in floating point,
  which only a panel shows, is left out.
\<close>

section \<open>Constants\<close>

definition GAS_FEE_ZERENYA :: nat where
  "GAS_FEE_ZERENYA = 12500000000000"

definition TOKEN_FACTORY_FEE_ZERENYA :: nat where
  "TOKEN_FACTORY_FEE_ZERENYA = 1942500000000000"

definition DDOS_THRESHOLD :: nat where
  "DDOS_THRESHOLD = 50000"

definition STRESS_STEP :: nat where
  "STRESS_STEP = 5000"

definition EVM_INTRINSIC_GAS_BASE :: nat where
  "EVM_INTRINSIC_GAS_BASE = 21000"

definition EVM_CALLDATA_GAS_ZERO :: nat where
  "EVM_CALLDATA_GAS_ZERO = 4"

definition EVM_CALLDATA_GAS_NONZERO :: nat where
  "EVM_CALLDATA_GAS_NONZERO = 16"

definition MIN_EVM_GAS_PRICE_WEI :: nat where
  "MIN_EVM_GAS_PRICE_WEI = 1000000000"

section \<open>The pure functions\<close>

text \<open>
  The product is taken in \<open>U256\<close>, where two 128-bit factors fit; a quotient that does not fit in
  \<open>u128\<close> becomes its maximum.
\<close>

definition base_gas_fee_from_reserves :: "nat \<Rightarrow> nat \<Rightarrow> nat \<Rightarrow> nat" where
  "base_gas_fee_from_reserves target_gas_fee_zerenya pool_zagros pool_zerenya =
     (if pool_zerenya = 0 then target_gas_fee_zerenya
      else let result = target_gas_fee_zerenya * pool_zagros div pool_zerenya
           in if result \<le> u128_max then result else u128_max)"

definition ddos_stress_multiplier :: "nat \<Rightarrow> nat \<Rightarrow> nat" where
  "ddos_stress_multiplier mempool_load ddos_threshold =
     (if mempool_load \<le> ddos_threshold then 1
      else let excess = mempool_load - ddos_threshold;
               exponent = min (excess div STRESS_STEP) 10
           in min u128_max (2 ^ exponent))"

definition gas_multiplier_for_tx_type :: "tx_type \<Rightarrow> nat" where
  "gas_multiplier_for_tx_type k =
     (case k of
        Transfer \<Rightarrow> 1
      | SwapBuy \<Rightarrow> 2 | SwapSell \<Rightarrow> 2
      | StakeZagros \<Rightarrow> 2 | UnstakeZagros \<Rightarrow> 2
      | BridgeMint \<Rightarrow> 3 | BridgeBurn \<Rightarrow> 3 | BridgeMintAndSwap \<Rightarrow> 3 | BridgeSwapAndBurn \<Rightarrow> 3
      | DeployContract \<Rightarrow> 100
      | CallContract \<Rightarrow> 5
      | ContractCall _ \<Rightarrow> 5
      | SubmitProposal \<Rightarrow> 10
      | Vote \<Rightarrow> 1
      | ClaimReward \<Rightarrow> 2
      | ReportMalicious \<Rightarrow> 10
      | SlashValidator \<Rightarrow> 10
      | RegisterValidator \<Rightarrow> 2 | UnregisterValidator \<Rightarrow> 2 | RotateConsensusKey \<Rightarrow> 2
      | ApproveValidator \<Rightarrow> 10 | RemoveValidator \<Rightarrow> 10)"

definition evm_intrinsic_gas :: "bytes \<Rightarrow> nat" where
  "evm_intrinsic_gas calldata =
     (let calldata_gas = sum_list (map (\<lambda>b. if b = 0 then EVM_CALLDATA_GAS_ZERO else EVM_CALLDATA_GAS_NONZERO) calldata)
      in sat_add u128_max EVM_INTRINSIC_GAS_BASE calldata_gas)"

section \<open>The calculator\<close>

record gas_calculator =
  gc_pool_zagros :: nat
  gc_pool_zerenya :: nat
  gc_target_gas_fee_zerenya :: nat
  gc_ddos_threshold :: nat
  gc_dynamic_pricing_enabled :: bool

definition gc_with_target :: "nat \<Rightarrow> nat \<Rightarrow> nat \<Rightarrow> gas_calculator" where
  "gc_with_target pool_zagros pool_zerenya target_gas_fee_zerenya =
     \<lparr>gc_pool_zagros = pool_zagros, gc_pool_zerenya = pool_zerenya,
      gc_target_gas_fee_zerenya = target_gas_fee_zerenya, gc_ddos_threshold = DDOS_THRESHOLD,
      gc_dynamic_pricing_enabled = True\<rparr>"

definition gc_new :: "nat \<Rightarrow> nat \<Rightarrow> gas_calculator" where
  "gc_new pool_zagros pool_zerenya = gc_with_target pool_zagros pool_zerenya GAS_FEE_ZERENYA"

definition with_ddos_threshold :: "nat \<Rightarrow> gas_calculator \<Rightarrow> gas_calculator" where
  "with_ddos_threshold n g = g\<lparr>gc_ddos_threshold := n\<rparr>"

definition with_dynamic_pricing_enabled :: "bool \<Rightarrow> gas_calculator \<Rightarrow> gas_calculator" where
  "with_dynamic_pricing_enabled b g = g\<lparr>gc_dynamic_pricing_enabled := b\<rparr>"

definition calculate_base_gas_fee :: "gas_calculator \<Rightarrow> nat" where
  "calculate_base_gas_fee g =
     (if \<not> gc_dynamic_pricing_enabled g then gc_target_gas_fee_zerenya g
      else base_gas_fee_from_reserves (gc_target_gas_fee_zerenya g) (gc_pool_zagros g) (gc_pool_zerenya g))"

definition stress_multiplier :: "gas_calculator \<Rightarrow> nat \<Rightarrow> nat" where
  "stress_multiplier g mempool_load = ddos_stress_multiplier mempool_load (gc_ddos_threshold g)"

definition calculate_dynamic_gas_fee :: "gas_calculator \<Rightarrow> nat \<Rightarrow> nat" where
  "calculate_dynamic_gas_fee g mempool_load =
     sat_mul u128_max (calculate_base_gas_fee g) (stress_multiplier g mempool_load)"

definition evm_min_fee :: "gas_calculator \<Rightarrow> bytes \<Rightarrow> nat \<Rightarrow> nat" where
  "evm_min_fee g calldata mempool_load =
     sat_mul u128_max (sat_mul u128_max (evm_intrinsic_gas calldata) MIN_EVM_GAS_PRICE_WEI)
       (stress_multiplier g mempool_load)"

text \<open>\<open>div_ceil\<close>.\<close>

definition div_ceil :: "nat \<Rightarrow> nat \<Rightarrow> nat" where
  "div_ceil a b = (if a mod b = 0 then a div b else a div b + 1)"

definition calculate_gas_for_tx_type :: "gas_calculator \<Rightarrow> tx_type \<Rightarrow> nat \<Rightarrow> nat" where
  "calculate_gas_for_tx_type g k mempool_load =
     (let base_gas = calculate_dynamic_gas_fee g mempool_load
      in case k of
           ContractCall data \<Rightarrow>
             (let data_gas = div_ceil (length data) 32
              in sat_add u128_max (sat_mul u128_max base_gas (gas_multiplier_for_tx_type k))
                   (sat_mul u128_max base_gas data_gas div 100))
         | other \<Rightarrow> sat_mul u128_max base_gas (gas_multiplier_for_tx_type other))"

text \<open>\<open>i128\<close> deltas: added or subtracted, saturating.\<close>

definition saturating_delta :: "int \<Rightarrow> nat \<Rightarrow> nat" where
  "saturating_delta d current =
     (if 0 \<le> d then sat_add u128_max current (nat d) else sat_sub current (nat (- d)))"

definition update_pools :: "int \<Rightarrow> int \<Rightarrow> gas_calculator \<Rightarrow> gas_calculator" where
  "update_pools zagros_amount zerenya_amount g =
     g\<lparr>gc_pool_zagros := saturating_delta zagros_amount (gc_pool_zagros g),
       gc_pool_zerenya := saturating_delta zerenya_amount (gc_pool_zerenya g)\<rparr>"

definition sync_pools :: "nat \<Rightarrow> nat \<Rightarrow> gas_calculator \<Rightarrow> gas_calculator" where
  "sync_pools zagros_reserve zerenya_reserve g =
     g\<lparr>gc_pool_zagros := zagros_reserve, gc_pool_zerenya := zerenya_reserve\<rparr>"

definition get_pool_balances :: "gas_calculator \<Rightarrow> nat \<times> nat" where
  "get_pool_balances g = (gc_pool_zagros g, gc_pool_zerenya g)"

section \<open>Facts\<close>

lemma base_gas_fee_le_max:
  "target \<le> u128_max \<Longrightarrow> base_gas_fee_from_reserves target zagros zerenya \<le> u128_max"
  by (simp add: base_gas_fee_from_reserves_def Let_def)

lemma stress_multiplier_exact:
  "ddos_stress_multiplier load threshold =
     (if load \<le> threshold then 1 else 2 ^ min ((load - threshold) div STRESS_STEP) 10)"
proof -
  have "(2 :: nat) ^ min n 10 \<le> u128_max" for n
  proof -
    have "(2 :: nat) ^ min n 10 \<le> 2 ^ 10" by (rule power_increasing) simp_all
    then show ?thesis by simp
  qed
  then show ?thesis by (simp add: ddos_stress_multiplier_def Let_def min_absorb2)
qed

lemma stress_multiplier_range: "1 \<le> ddos_stress_multiplier load threshold" "ddos_stress_multiplier load threshold \<le> 1024"
proof -
  have "(2 :: nat) ^ min n 10 \<le> 2 ^ 10" for n by (rule power_increasing) simp_all
  then show "1 \<le> ddos_stress_multiplier load threshold" "ddos_stress_multiplier load threshold \<le> 1024"
    by (simp_all add: stress_multiplier_exact)
qed

lemma stress_multiplier_mono: "load \<le> load' \<Longrightarrow> ddos_stress_multiplier load t \<le> ddos_stress_multiplier load' t"
proof -
  assume "load \<le> load'"
  then have "min ((load - t) div STRESS_STEP) 10 \<le> min ((load' - t) div STRESS_STEP) 10"
    by (intro min.mono div_le_mono diff_le_mono) simp_all
  with \<open>load \<le> load'\<close> show ?thesis by (auto simp: stress_multiplier_exact intro!: power_increasing)
qed

lemma multiplier_range: "1 \<le> gas_multiplier_for_tx_type k" "gas_multiplier_for_tx_type k \<le> 100"
  by (cases k; simp add: gas_multiplier_for_tx_type_def)+

text \<open>
  The fee the mempool asks for and the ceiling the executor enforces agree: a native transaction
  that declares exactly the fee of the schedule at any load is never above 1024 times the fee at no
  load, the bound past which a block's transaction is invalid.
\<close>

theorem scheduled_fee_below_ceiling:
  assumes "\<And>data. k \<noteq> ContractCall data"
  shows "calculate_gas_for_tx_type g k load \<le> sat_mul u128_max (calculate_gas_for_tx_type g k 0) 1024"
proof -
  let ?b = "calculate_base_gas_fee g" and ?m = "stress_multiplier g load" and ?k = "gas_multiplier_for_tx_type k"
  have fee: "calculate_gas_for_tx_type g k n = sat_mul u128_max (calculate_dynamic_gas_fee g n) ?k" for n
  proof (cases k)
    case (ContractCall data)
    with assms show ?thesis by blast
  qed (simp_all add: calculate_gas_for_tx_type_def Let_def)
  have m: "?m \<le> 1024" by (simp_all add: stress_multiplier_def stress_multiplier_range)
  have one: "stress_multiplier g 0 = 1" by (simp add: stress_multiplier_def ddos_stress_multiplier_def)
  have "sat_mul u128_max (sat_mul u128_max ?b ?m) ?k \<le> min u128_max (?b * ?m * ?k)"
    by (simp add: sat_mul_def min.coboundedI2)
  also have "\<dots> \<le> min u128_max (min u128_max (min u128_max ?b * ?k) * 1024)"
  proof (cases "?b \<le> u128_max \<and> ?b * ?k \<le> u128_max")
    case True
    have "?b * ?m * ?k \<le> ?b * ?k * 1024"
      using mult_le_mono2 [OF m, of "?b * ?k"] by (simp add: ac_simps)
    with True show ?thesis by (simp add: min.coboundedI2)
  next
    case False
    have "u128_max \<le> min u128_max ?b * ?k"
    proof (cases "?b \<le> u128_max")
      case True
      with False show ?thesis by simp
    next
      case False
      with multiplier_range(1) [of k] mult_le_mono2 [of 1 ?k "u128_max"] show ?thesis by simp
    qed
    then show ?thesis by simp
  qed
  finally show ?thesis by (simp add: fee calculate_dynamic_gas_fee_def one sat_mul_def)
qed

theorem scheduled_fee_below_ceiling_witness:
  "calculate_gas_for_tx_type (gc_new 42000000 10500) SwapBuy 61000 \<le>
     sat_mul u128_max (calculate_gas_for_tx_type (gc_new 42000000 10500) SwapBuy 0) 1024"
  by (rule scheduled_fee_below_ceiling) simp

end
