(* ===== verification/Params.thy ===== *)
theory Params
  imports Host Gas ChainParams
begin

text \<open>
  The chain's parameters in the state: \<open>crates/zagros-executor/src/params.rs\<close>, and the loading and
  storing of the validator set from \<open>validator_set.rs\<close> that it calls. Each record lives in the
  \<open>contract_code\<close> of an account under a key that is no address; reading one that is missing or
  damaged is an error, never a default.

  The encodings (bincode) and the cryptographic libraries are the record \<open>libs\<close>. The process-wide
  flag of the wire format that \<open>load_chain_params\<close> also sets is not part of the state and is left
  out, as are the log lines.
\<close>

section \<open>Third-party code\<close>

record scheduled_upgrade =
  su_target_ruleset :: nat
  su_binary_sha256 :: hash
  su_activation_epoch :: nat

record libs =
  lb_crypto :: crypto_env
  lb_hex :: "bytes \<Rightarrow> string"
  lb_unhex :: "string \<Rightarrow> bytes option"
  lb_from_utf8 :: "bytes \<Rightarrow> string option"
  lb_recover_signer :: "hash \<Rightarrow> bytes \<Rightarrow> address option"
  lb_ser_params :: "chain_params \<Rightarrow> bytes"
  lb_de_params :: "bytes \<Rightarrow> chain_params option"
  lb_ser_set :: "active_validator_set \<Rightarrow> bytes option"
  lb_de_set :: "bytes \<Rightarrow> active_validator_set option"
  lb_ser_multisig :: "admin_multisig \<Rightarrow> bytes"
  lb_de_multisig :: "bytes \<Rightarrow> admin_multisig option"
  lb_ser_upgrade :: "scheduled_upgrade \<Rightarrow> bytes option"
  lb_de_upgrade :: "bytes \<Rightarrow> scheduled_upgrade option"

section \<open>Keys\<close>

definition GENESIS_HASH_KEY :: address where
  "GENESIS_HASH_KEY = ''__GENESIS_HASH__''"

definition ADMIN_MULTISIG_KEY :: address where
  "ADMIN_MULTISIG_KEY = ''__ADMIN_MULTISIG__''"

definition ACTIVE_VALIDATOR_SET_KEY :: address where
  "ACTIVE_VALIDATOR_SET_KEY = ''__ACTIVE_VALIDATOR_SET__''"

definition active_validator_set_epoch_key :: "nat \<Rightarrow> address" where
  "active_validator_set_epoch_key epoch = ''__ACTIVE_VALIDATOR_SET_EPOCH_'' @ decimal epoch @ ''__''"

definition CHAIN_PARAMS_KEY :: address where
  "CHAIN_PARAMS_KEY = ''__CHAIN_PARAMS__''"

definition SCHEDULED_UPGRADE_KEY :: address where
  "SCHEDULED_UPGRADE_KEY = ''__SCHEDULED_UPGRADE__''"

definition QC_GRACE_MS_KEY :: address where
  "QC_GRACE_MS_KEY = ''__QC_GRACE_MS__''"

definition ADMIN_AUTHORITY_END_KEY :: address where
  "ADMIN_AUTHORITY_END_KEY = ''__ADMIN_AUTHORITY_END__''"

definition GENESIS_TIMESTAMP_KEY :: address where
  "GENESIS_TIMESTAMP_KEY = ''__GENESIS_TIMESTAMP__''"

definition ADMIN_AUTHORITY_PERIOD_SECONDS :: nat where
  "ADMIN_AUTHORITY_PERIOD_SECONDS = 730 * 24 * 60 * 60"

definition ruleset_decl_key :: "address \<Rightarrow> address" where
  "ruleset_decl_key a = ''__RULESET_DECL_'' @ to_ascii_lowercase a @ ''__''"

section \<open>Sentinels\<close>

definition read_sentinel :: "'s host \<Rightarrow> address \<Rightarrow> ('s, bytes) action" where
  "read_sentinel H key =
     andthen (h_get H key) (\<lambda>account.
       case account of
         Some acc \<Rightarrow>
           if ac_contract_code acc \<noteq> [] then give (ac_contract_code acc)
           else stop (ConfigError (key @ '' is not in the state''))
       | None \<Rightarrow> stop (ConfigError (key @ '' is not in the state'')))"

definition write_sentinel :: "'s host \<Rightarrow> address \<Rightarrow> bytes \<Rightarrow> ('s, unit) action" where
  "write_sentinel H key bytes = h_put H key (default_account\<lparr>ac_contract_code := bytes\<rparr>)"

definition load_chain_params :: "'m libs_scheme \<Rightarrow> 's host \<Rightarrow> ('s, chain_params) action" where
  "load_chain_params L H =
     andthen (read_sentinel H CHAIN_PARAMS_KEY) (\<lambda>bytes. lift (params_decode (lb_de_params L) bytes))"

definition store_chain_params :: "'m libs_scheme \<Rightarrow> 's host \<Rightarrow> chain_params \<Rightarrow> ('s, unit) action" where
  "store_chain_params L H params =
     andthen (lift (params_validate params)) (\<lambda>_. write_sentinel H CHAIN_PARAMS_KEY (lb_ser_params L params))"

definition load_qc_grace_ms :: "'s host \<Rightarrow> ('s, nat) action" where
  "load_qc_grace_ms H =
     andthen (h_get H QC_GRACE_MS_KEY) (\<lambda>account.
       case account of
         Some acc \<Rightarrow>
           if ac_contract_code acc \<noteq> [] then lift (decode_qc_grace (ac_contract_code acc))
           else give DEFAULT_QC_GRACE_MS
       | None \<Rightarrow> give DEFAULT_QC_GRACE_MS)"

definition store_qc_grace_ms :: "'s host \<Rightarrow> nat \<Rightarrow> ('s, unit) action" where
  "store_qc_grace_ms H ms = write_sentinel H QC_GRACE_MS_KEY (encode_qc_grace ms)"

definition load_genesis_hash :: "'s host \<Rightarrow> ('s, hash) action" where
  "load_genesis_hash H =
     andthen (read_sentinel H GENESIS_HASH_KEY) (\<lambda>bytes.
       if length bytes \<noteq> 32 then stop (ConfigError ''genesis_hash 32 bayt degil'')
       else if bytes = replicate 32 0 then stop (ConfigError ''genesis_hash sifir olamaz'')
       else give bytes)"

definition store_genesis_hash :: "'s host \<Rightarrow> hash \<Rightarrow> ('s, unit) action" where
  "store_genesis_hash H h =
     (if h = replicate 32 0 then stop (ConfigError ''genesis_hash sifir olamaz'')
      else write_sentinel H GENESIS_HASH_KEY h)"

definition load_consensus_domain :: "'s host \<Rightarrow> ('s, consensus_domain) action" where
  "load_consensus_domain H =
     andthen (load_genesis_hash H) (\<lambda>h. give \<lparr>dm_chain_id = CHAIN_ID, dm_genesis_hash = h\<rparr>)"

definition genesis_timestamp :: "'s host \<Rightarrow> ('s, nat) action" where
  "genesis_timestamp H =
     andthen (h_get H GENESIS_TIMESTAMP_KEY) (\<lambda>account.
       case account of
         Some acc \<Rightarrow> if 0 < ac_balance acc then give (ac_balance acc)
                     else stop (ConfigError ''genesis zaman damgasi yok'')
       | None \<Rightarrow> stop (ConfigError ''genesis zaman damgasi yok''))"

definition admin_authority_end :: "'s host \<Rightarrow> ('s, nat) action" where
  "admin_authority_end H =
     andthen (genesis_timestamp H) (\<lambda>genesis_ts.
       let fixed_end = sat_add u128_max genesis_ts ADMIN_AUTHORITY_PERIOD_SECONDS
       in andthen (h_get H ADMIN_AUTHORITY_END_KEY) (\<lambda>account.
         case account of
           Some acc \<Rightarrow> if 0 < ac_balance acc then give (min fixed_end (ac_balance acc)) else give fixed_end
         | None \<Rightarrow> give fixed_end))"

definition shorten_admin_authority :: "'s host \<Rightarrow> nat \<Rightarrow> ('s, unit) action" where
  "shorten_admin_authority H end_timestamp =
     andthen (admin_authority_end H) (\<lambda>present_end.
       if present_end \<le> end_timestamp
       then stop (Other ''admin yetkisi yalnizca KISALTILABILIR'')
       else h_put H ADMIN_AUTHORITY_END_KEY (default_account\<lparr>ac_balance := end_timestamp\<rparr>))"

definition load_admin_multisig :: "'m libs_scheme \<Rightarrow> 's host \<Rightarrow> ('s, admin_multisig) action" where
  "load_admin_multisig L H =
     andthen (read_sentinel H ADMIN_MULTISIG_KEY) (\<lambda>bytes. lift (multisig_decode (lb_de_multisig L) bytes))"

definition store_admin_multisig :: "'m libs_scheme \<Rightarrow> 's host \<Rightarrow> admin_multisig \<Rightarrow> ('s, unit) action" where
  "store_admin_multisig L H m =
     andthen (lift (multisig_validate m)) (\<lambda>_. write_sentinel H ADMIN_MULTISIG_KEY (lb_ser_multisig L m))"

section \<open>Epochs, prices and thresholds\<close>

definition epoch_at :: "nat \<Rightarrow> nat \<Rightarrow> nat \<Rightarrow> nat" where
  "epoch_at block_timestamp_secs genesis_ts epoch_seconds =
     (if epoch_seconds = 0 \<or> block_timestamp_secs < genesis_ts then 0
      else as_u64 ((block_timestamp_secs - genesis_ts) div epoch_seconds))"

definition zerenya_to_zagros :: "'s host \<Rightarrow> nat \<Rightarrow> ('s, nat) action" where
  "zerenya_to_zagros H zerenya_amount =
     andthen (get_pool_reserves (h_get H)) (\<lambda>(pool_zagros, pool_zerenya).
       give (base_gas_fee_from_reserves zerenya_amount pool_zagros pool_zerenya))"

definition min_validator_stake_zagros :: "'s host \<Rightarrow> chain_params \<Rightarrow> ('s, nat) action" where
  "min_validator_stake_zagros H params = zerenya_to_zagros H (p_min_validator_stake_zerenya params)"

definition application_fee_zagros :: "'s host \<Rightarrow> chain_params \<Rightarrow> ('s, nat) action" where
  "application_fee_zagros H params = zerenya_to_zagros H (p_application_fee_zerenya params)"

definition qualification_threshold :: "nat \<Rightarrow> nat \<Rightarrow> nat \<Rightarrow> nat" where
  "qualification_threshold snapshot current_min hysteresis_bps =
     (let base = (if snapshot = 0 then current_min else snapshot)
      in sat_mul u128_max base (sat_sub 10000 hysteresis_bps) div 10000)"

definition LIVENESS_THRESHOLD_CAP_BPS :: nat where
  "LIVENESS_THRESHOLD_CAP_BPS = 2100"

definition LIVENESS_MAX_STRIKES_FLOOR :: nat where
  "LIVENESS_MAX_STRIKES_FLOOR = 12"

definition LIVENESS_V2_ACTIVATION_EPOCH :: nat where
  "LIVENESS_V2_ACTIVATION_EPOCH = 48"

definition D11_ACTIVATION_EPOCH :: nat where
  "D11_ACTIVATION_EPOCH = 56"

definition liveness_v2_active :: "nat \<Rightarrow> bool" where
  "liveness_v2_active epoch \<longleftrightarrow> LIVENESS_V2_ACTIVATION_EPOCH \<le> epoch"

definition effective_uptime_threshold_bps :: "chain_params \<Rightarrow> nat" where
  "effective_uptime_threshold_bps params = min (p_uptime_threshold_bps params) LIVENESS_THRESHOLD_CAP_BPS"

definition effective_uptime_threshold_bps_at :: "chain_params \<Rightarrow> nat \<Rightarrow> nat" where
  "effective_uptime_threshold_bps_at params epoch =
     (if liveness_v2_active epoch then effective_uptime_threshold_bps params
      else p_uptime_threshold_bps params)"

definition effective_max_liveness_strikes :: "chain_params \<Rightarrow> nat" where
  "effective_max_liveness_strikes params = max (p_max_liveness_strikes params) LIVENESS_MAX_STRIKES_FLOOR"

definition effective_max_liveness_strikes_at :: "chain_params \<Rightarrow> nat \<Rightarrow> nat" where
  "effective_max_liveness_strikes_at params epoch =
     (if liveness_v2_active epoch then effective_max_liveness_strikes params
      else p_max_liveness_strikes params)"

section \<open>The active set\<close>

definition load_active_set :: "'m libs_scheme \<Rightarrow> 's host \<Rightarrow> ('s, active_validator_set) action" where
  "load_active_set L H =
     andthen (read_sentinel H ACTIVE_VALIDATOR_SET_KEY) (\<lambda>bytes.
       case lb_de_set L bytes of
         None \<Rightarrow> stop (ConfigError ''ActiveValidatorSet cozulemedi'')
       | Some vset \<Rightarrow> andthen (lift (vs_validate vset)) (\<lambda>_. give vset))"

definition store_active_set :: "'m libs_scheme \<Rightarrow> 's host \<Rightarrow> active_validator_set \<Rightarrow> ('s, unit) action" where
  "store_active_set L H vset =
     andthen (lift (vs_validate vset)) (\<lambda>_.
       case lb_ser_set L vset of
         None \<Rightarrow> stop (Other ''ActiveValidatorSet'')
       | Some bytes \<Rightarrow> write_sentinel H ACTIVE_VALIDATOR_SET_KEY bytes)"

definition store_active_set_epoch_snapshot ::
  "'m libs_scheme \<Rightarrow> 's host \<Rightarrow> active_validator_set \<Rightarrow> ('s, unit) action" where
  "store_active_set_epoch_snapshot L H vset =
     andthen (lift (vs_validate vset)) (\<lambda>_.
       case lb_ser_set L vset of
         None \<Rightarrow> stop (Other ''ActiveValidatorSet snapshot'')
       | Some bytes \<Rightarrow>
           h_put H (active_validator_set_epoch_key (vs_epoch vset)) (default_account\<lparr>ac_contract_code := bytes\<rparr>))"

definition load_validator_set_at_epoch ::
  "'m libs_scheme \<Rightarrow> 's host \<Rightarrow> nat \<Rightarrow> ('s, active_validator_set) action" where
  "load_validator_set_at_epoch L H epoch =
     andthen (h_get H (active_validator_set_epoch_key epoch)) (\<lambda>account.
       case account of
         None \<Rightarrow> stop (ConfigError ''kume anlik goruntusu yok'')
       | Some acc \<Rightarrow>
           if ac_contract_code acc = [] then stop (ConfigError ''kume anlik goruntusu yok'')
           else (case lb_de_set L (ac_contract_code acc) of
               None \<Rightarrow> stop (ConfigError ''kume anlik goruntusu cozulemedi'')
             | Some vset \<Rightarrow> andthen (lift (vs_validate vset)) (\<lambda>_. give vset)))"

text \<open>
  \<open>producer_reward_factor_bps\<close>: the producer's share scaled by its participation in the epoch, as a
  part of the ceiling that a quorum of the set leaves. Every missing measurement gives the full
  factor.
\<close>

definition producer_reward_factor_bps :: "'m libs_scheme \<Rightarrow> 's host \<Rightarrow> address \<Rightarrow> ('s, nat) action" where
  "producer_reward_factor_bps L H producer =
     andthen (attempt (load_active_set L H)) (\<lambda>loaded.
       case loaded of
         None \<Rightarrow> give 10000
       | Some vset \<Rightarrow>
           if vs_epoch vset < D11_ACTIVATION_EPOCH then give 10000
           else if vs_len vset = 0 \<or>
               \<not> list_ex (\<lambda>m. to_ascii_lowercase (m_address m) = to_ascii_lowercase producer) (vs_members vset)
             then give 10000
           else andthen (attempt (h_get H producer)) (\<lambda>found.
             case found of
               None \<Rightarrow> give 10000
             | Some None \<Rightarrow> give 10000
             | Some (Some acc) \<Rightarrow>
                 if lc_epoch (ac_liveness acc) \<noteq> vs_epoch vset then give 10000
                 else (case participation_bps (ac_liveness acc) of
                     None \<Rightarrow> give 10000
                   | Some bps \<Rightarrow>
                       (let quorum = (case quorum_of (vs_len vset) of Inl e \<Rightarrow> vs_len vset | Inr q \<Rightarrow> q);
                            ceiling_bps = max (quorum * 10000 div vs_len vset) 1
                        in give (as_u16 (min (bps * 10000 div ceiling_bps) 10000))))))"

section \<open>Scheduled upgrades\<close>

definition record_ruleset_declaration :: "'s host \<Rightarrow> address \<Rightarrow> nat \<Rightarrow> ('s, unit) action" where
  "record_ruleset_declaration H a max_ruleset =
     andthen (h_get H (ruleset_decl_key a)) (\<lambda>account.
       h_put H (ruleset_decl_key a) ((unwrap_or_default account)\<lparr>ac_balance := max_ruleset\<rparr>))"

definition ruleset_declaration :: "'s host \<Rightarrow> address \<Rightarrow> ('s, nat) action" where
  "ruleset_declaration H a =
     andthen (attempt (h_get H (ruleset_decl_key a))) (\<lambda>found.
       case found of
         Some (Some acc) \<Rightarrow> give (as_u32 (ac_balance acc))
       | Some None \<Rightarrow> give 0
       | None \<Rightarrow> give 0)"

definition store_scheduled_upgrade :: "'m libs_scheme \<Rightarrow> 's host \<Rightarrow> scheduled_upgrade \<Rightarrow> ('s, unit) action" where
  "store_scheduled_upgrade L H up =
     andthen (load_chain_params L H) (\<lambda>params.
       if su_target_ruleset up \<le> p_active_ruleset params
       then stop (ConfigError ''hedef ruleset yururlukteki ruleset ten buyuk olmali'')
       else (case lb_ser_upgrade L up of
           None \<Rightarrow> stop (ConfigError ''ScheduledUpgrade serialize'')
         | Some bytes \<Rightarrow> write_sentinel H SCHEDULED_UPGRADE_KEY bytes))"

definition load_scheduled_upgrade :: "'m libs_scheme \<Rightarrow> 's host \<Rightarrow> ('s, scheduled_upgrade option) action" where
  "load_scheduled_upgrade L H =
     andthen (h_get H SCHEDULED_UPGRADE_KEY) (\<lambda>account.
       case account of
         None \<Rightarrow> give None
       | Some acc \<Rightarrow>
           if ac_contract_code acc = [] then give None
           else (case lb_de_upgrade L (ac_contract_code acc) of
               None \<Rightarrow> stop (ConfigError ''ScheduledUpgrade decode'')
             | Some up \<Rightarrow> give (Some up)))"

definition clear_scheduled_upgrade :: "'s host \<Rightarrow> ('s, unit) action" where
  "clear_scheduled_upgrade H = write_sentinel H SCHEDULED_UPGRADE_KEY []"

fun count_ready :: "'s host \<Rightarrow> nat \<Rightarrow> validator_member list \<Rightarrow> ('s, nat) action" where
  "count_ready H target [] = give 0"
| "count_ready H target (m # ms) =
     andthen (ruleset_declaration H (m_address m)) (\<lambda>declared.
     andthen (count_ready H target ms) (\<lambda>n. give (if target \<le> declared then n + 1 else n)))"

definition maybe_activate_scheduled_upgrade ::
  "'m libs_scheme \<Rightarrow> 's host \<Rightarrow> nat \<Rightarrow> active_validator_set \<Rightarrow> ('s, nat option) action" where
  "maybe_activate_scheduled_upgrade L H current_epoch vset =
     andthen (load_scheduled_upgrade L H) (\<lambda>loaded.
       case loaded of
         None \<Rightarrow> give None
       | Some up \<Rightarrow>
           if current_epoch < su_activation_epoch up then give None
           else andthen (clear_scheduled_upgrade H) (\<lambda>_.
             let n = length (vs_members vset)
             in andthen (count_ready H (su_target_ruleset up) (vs_members vset)) (\<lambda>ready.
               if n = 0 \<or> 5 * ready < 4 * n
               then andthen (load_chain_params L H) (\<lambda>_. give None)
               else andthen (load_chain_params L H) (\<lambda>params.
                 andthen (store_chain_params L H (params\<lparr>p_active_ruleset := su_target_ruleset up\<rparr>)) (\<lambda>_.
                   give (Some (su_target_ruleset up)))))))"

section \<open>The same on every store\<close>

lemmas key_defs = GENESIS_HASH_KEY_def ADMIN_MULTISIG_KEY_def ACTIVE_VALIDATOR_SET_KEY_def
  active_validator_set_epoch_key_def CHAIN_PARAMS_KEY_def SCHEDULED_UPGRADE_KEY_def QC_GRACE_MS_KEY_def
  ADMIN_AUTHORITY_END_KEY_def GENESIS_TIMESTAMP_KEY_def ruleset_decl_key_def

lemma keys_are_accounts [simp]:
  "account_key GENESIS_HASH_KEY" "account_key ADMIN_MULTISIG_KEY" "account_key ACTIVE_VALIDATOR_SET_KEY"
  "account_key (active_validator_set_epoch_key n)" "account_key CHAIN_PARAMS_KEY"
  "account_key SCHEDULED_UPGRADE_KEY" "account_key QC_GRACE_MS_KEY" "account_key ADMIN_AUTHORITY_END_KEY"
  "account_key GENESIS_TIMESTAMP_KEY" "account_key (ruleset_decl_key a)"
  "account_key LIQUIDITY_POOL_ADDRESS" "account_key VALIDATOR_REWARD_POOL"
  by (simp_all add: account_key_def key_defs LIQUIDITY_POOL_ADDRESS_def VALIDATOR_REWARD_POOL_def)

context chain_store
begin

lemma mirrors_reserves [intro!]:
  "mirrors (get_pool_reserves (h_get (shared host))) (get_pool_reserves (h_get (shared plain_host)))"
  "mirrors (set_pool_reserves (h_get (shared host)) (h_put (shared host)) x y)
     (set_pool_reserves (h_get (shared plain_host)) (h_put (shared plain_host)) x y)"
  unfolding get_pool_reserves_def set_pool_reserves_def by (auto simp: Let_def)

lemma mirrors_reward_per_share [intro!]:
  "mirrors (get_accumulated_reward_per_share (h_get (shared host)))
     (get_accumulated_reward_per_share (h_get (shared plain_host)))"
  "mirrors (set_accumulated_reward_per_share (h_get (shared host)) (h_put (shared host)) n)
     (set_accumulated_reward_per_share (h_get (shared plain_host)) (h_put (shared plain_host)) n)"
  unfolding get_accumulated_reward_per_share_def set_accumulated_reward_per_share_def by auto

lemma mirrors_add_balance [intro!]:
  "account_key a \<Longrightarrow> mirrors (state_add_balance (h_get (shared host)) (h_put (shared host)) a n)
     (state_add_balance (h_get (shared plain_host)) (h_put (shared plain_host)) a n)"
  unfolding state_add_balance_def by auto

lemma mirrors_sentinels [intro!]:
  "account_key k \<Longrightarrow> mirrors (read_sentinel (shared host) k) (read_sentinel (shared plain_host) k)"
  "account_key k \<Longrightarrow> mirrors (write_sentinel (shared host) k bs) (write_sentinel (shared plain_host) k bs)"
  unfolding read_sentinel_def write_sentinel_def by auto

lemma mirrors_chain_params [intro!]:
  "mirrors (load_chain_params L (shared host)) (load_chain_params L (shared plain_host))"
  "mirrors (store_chain_params L (shared host) p) (store_chain_params L (shared plain_host) p)"
  unfolding load_chain_params_def store_chain_params_def by auto

lemma mirrors_qc_grace [intro!]:
  "mirrors (load_qc_grace_ms (shared host)) (load_qc_grace_ms (shared plain_host))"
  "mirrors (store_qc_grace_ms (shared host) n) (store_qc_grace_ms (shared plain_host) n)"
  unfolding load_qc_grace_ms_def store_qc_grace_ms_def by auto

lemma mirrors_genesis [intro!]:
  "mirrors (load_genesis_hash (shared host)) (load_genesis_hash (shared plain_host))"
  "mirrors (genesis_timestamp (shared host)) (genesis_timestamp (shared plain_host))"
  unfolding load_genesis_hash_def genesis_timestamp_def by auto

lemma mirrors_domain [intro!]:
  "mirrors (load_consensus_domain (shared host)) (load_consensus_domain (shared plain_host))"
  unfolding load_consensus_domain_def by auto

lemma mirrors_authority [intro!]:
  "mirrors (admin_authority_end (shared host)) (admin_authority_end (shared plain_host))"
  "mirrors (load_admin_multisig L (shared host)) (load_admin_multisig L (shared plain_host))"
  unfolding admin_authority_end_def load_admin_multisig_def by (auto simp: Let_def)

lemma mirrors_prices [intro!]:
  "mirrors (zerenya_to_zagros (shared host) n) (zerenya_to_zagros (shared plain_host) n)"
  "mirrors (min_validator_stake_zagros (shared host) p) (min_validator_stake_zagros (shared plain_host) p)"
  "mirrors (application_fee_zagros (shared host) p) (application_fee_zagros (shared plain_host) p)"
  unfolding min_validator_stake_zagros_def application_fee_zagros_def zerenya_to_zagros_def by auto

lemma mirrors_active_set [intro!]:
  "mirrors (load_active_set L (shared host)) (load_active_set L (shared plain_host))"
  "mirrors (load_validator_set_at_epoch L (shared host) n) (load_validator_set_at_epoch L (shared plain_host) n)"
  unfolding load_active_set_def load_validator_set_at_epoch_def by auto

lemma mirrors_factor [intro!]:
  "account_key a \<Longrightarrow> mirrors (producer_reward_factor_bps L (shared host) a)
     (producer_reward_factor_bps L (shared plain_host) a)"
  unfolding producer_reward_factor_bps_def by (auto simp: Let_def split: option.split)

end

end
