(* ===== verification/Executor.thy ===== *)
theory Executor
  imports Params Swap
begin

text \<open>
  The executor's state and its bookkeeping (\<open>crates/zagros-executor/src/lib.rs\<close>): configuration,
  receipts, the validator index, rewards, the records of transfers, burns, slashes and proofs. The
  handlers of the transactions are in the theories that follow.

  The encodings of the records are third-party code: \<open>executor_libs\<close> extends \<open>libs\<close>. Log lines are
  left out.
\<close>

section \<open>Records and their encodings\<close>

record archived_log =
  al_address :: address
  al_topics :: "hash list"
  al_data :: bytes

record archived_receipt =
  rc_status :: bool
  rc_gas_used :: nat
  rc_contract_address :: "address option"
  rc_logs :: "archived_log list"
  rc_block_number :: nat

record bridge_burn_record =
  br_index :: nat
  br_tx_id :: hash
  br_sender :: address
  br_amount :: nat
  br_timestamp :: nat

datatype slash_reason = DoubleSign | ForgedBridgeSignature | InvalidProposal | ConflictingVote
  | InvalidBlockProduction | AdminEmergencySeizure

record slash_record =
  sl_index :: nat
  sl_target :: address
  sl_reason :: slash_reason
  sl_confiscated_amount :: nat
  sl_timestamp :: nat

record reward_snapshot =
  rs_total_staked :: nat
  rs_accumulated_reward_per_share :: nat
  rs_staker_share :: nat
  rs_validator_share :: nat
  rs_timestamp :: nat

record transfer_record =
  tr_index :: nat
  tr_tx_id :: hash
  tr_sender :: address
  tr_receiver :: address
  tr_amount :: nat
  tr_asset :: string
  tr_timestamp :: nat

record executor_libs = libs +
  lx_tracker :: tracker_codec
  lx_ser_receipt :: "archived_receipt \<Rightarrow> bytes option"
  lx_stored_tx :: "transaction \<Rightarrow> bytes option"
  lx_ser_burns :: "bridge_burn_record list \<Rightarrow> bytes option"
  lx_de_burns :: "bytes \<Rightarrow> bridge_burn_record list option"
  lx_ser_slashes :: "slash_record list \<Rightarrow> bytes option"
  lx_de_slashes :: "bytes \<Rightarrow> slash_record list option"
  lx_ser_hashes :: "hash list \<Rightarrow> bytes option"
  lx_de_hashes :: "bytes \<Rightarrow> hash list option"
  lx_ser_snapshot :: "reward_snapshot \<Rightarrow> bytes option"
  lx_ser_transfer :: "transfer_record \<Rightarrow> bytes option"

record exec_config =
  cf_bridge_authority :: address
  cf_bridge_required_signatures :: nat
  cf_bridge_timelock_secs :: nat
  cf_bridge_daily_mint_limit :: nat
  cf_admin_authority :: address
  cf_gas_target_zerenya :: nat
  cf_governance_proposal_fee :: nat
  cf_governance_min_stake_to_submit :: nat
  cf_governance_max_active_proposals :: nat
  cf_governance_voting_period_secs :: nat
  cf_governance_proposal_expiry_secs :: nat

definition GLOBAL_TOTAL_STAKED :: address where
  "GLOBAL_TOTAL_STAKED = ''__GLOBAL_TOTAL_STAKED__''"

definition GLOBAL_BLOCK_HEIGHT :: address where
  "GLOBAL_BLOCK_HEIGHT = ''__GLOBAL_BLOCK_HEIGHT__''"

definition VALIDATOR_REWARD_BPS :: nat where
  "VALIDATOR_REWARD_BPS = 2000"

definition JAIL_DURATION_SECONDS :: nat where
  "JAIL_DURATION_SECONDS = 7 * 24 * 60 * 60"

definition REWARD_VESTING_SECONDS :: nat where
  "REWARD_VESTING_SECONDS = 60 * 60"

section \<open>Pure helpers\<close>

definition reward_owed :: "nat \<Rightarrow> nat \<Rightarrow> nat" where
  "reward_owed staked_balance accumulated_reward_per_share =
     (let result = staked_balance * accumulated_reward_per_share div 1000000000000
      in if result \<le> u128_max then result else u128_max)"

definition canonical_account_address :: "address \<Rightarrow> address result" where
  "canonical_account_address a =
     (if \<not> validate_address a then Inl InvalidAddress
      else Inr (''0x'' @ to_ascii_lowercase (drop 2 a)))"

definition is_evm_deploy :: "address \<Rightarrow> bool" where
  "is_evm_deploy receiver \<longleftrightarrow> receiver = [] \<or> receiver = ''0x'' \<or>
     receiver = ''0x0000000000000000000000000000000000000000''"

definition is_evm_tx :: "tx_type \<Rightarrow> bool" where
  "is_evm_tx k = (case k of ContractCall _ \<Rightarrow> True | CallContract \<Rightarrow> True | _ \<Rightarrow> False)"

section \<open>The validator index\<close>

definition index_from_candidates :: "(address \<times> nat) list \<Rightarrow> validator_index" where
  "index_from_candidates candidates =
     \<lparr>vi_by_stake = map (\<lambda>(a, stake). (stake, a)) candidates, vi_stakes = candidates\<rparr>"

definition index_update :: "address \<Rightarrow> account \<Rightarrow> validator_index \<Rightarrow> validator_index" where
  "index_update a account index =
     (let index = (case map_of (vi_stakes index) a of
            None \<Rightarrow> index
          | Some previous_stake \<Rightarrow>
              \<lparr>vi_by_stake = removeAll (previous_stake, a) (vi_by_stake index),
               vi_stakes = AList.delete a (vi_stakes index)\<rparr>)
      in if \<not> ac_is_contract account \<and> 0 < ac_staked_balance account
         then \<lparr>vi_by_stake = List.insert (ac_staked_balance account, a) (vi_by_stake index),
               vi_stakes = AList.update a (ac_staked_balance account) (vi_stakes index)\<rparr>
         else index)"

section \<open>Receipts and heights\<close>

definition current_block_height_for_rules :: "'s host \<Rightarrow> ('s, nat) action" where
  "current_block_height_for_rules H =
     andthen (attempt (h_get H GLOBAL_BLOCK_HEIGHT)) (\<lambda>found.
       case found of
         Some (Some a) \<Rightarrow> give (as_u64 (ac_balance a))
       | Some None \<Rightarrow> give 0
       | None \<Rightarrow> give 0)"

definition archive_transaction ::
  "'m executor_libs_scheme \<Rightarrow> 's host \<Rightarrow> transaction \<Rightarrow> archived_receipt \<Rightarrow> ('s, unit) action" where
  "archive_transaction L H tx receipt =
     andthen (current_block_height_for_rules H) (\<lambda>height.
       case lx_ser_receipt L (receipt\<lparr>rc_block_number := height\<rparr>) of
         None \<Rightarrow> stop (DatabaseError ''ArchivedReceipt serialize'')
       | Some receipt_bytes \<Rightarrow>
           andthen (h_put H (receipt_key (lb_hex L) (tx_id tx)) (default_account\<lparr>ac_contract_code := receipt_bytes\<rparr>)) (\<lambda>_.
             case lx_stored_tx L tx of
               None \<Rightarrow> stop (DatabaseError ''Tx body serialize'')
             | Some tx_bytes \<Rightarrow>
                 h_put H (tx_body_key (lb_hex L) (tx_id tx)) (default_account\<lparr>ac_contract_code := tx_bytes\<rparr>)))"

definition plain_receipt :: "bool \<Rightarrow> nat \<Rightarrow> archived_receipt" where
  "plain_receipt status gas_used = \<lparr>rc_status = status, rc_gas_used = gas_used,
     rc_contract_address = None, rc_logs = [], rc_block_number = 0\<rparr>"

definition archive_dropped_transaction ::
  "'m executor_libs_scheme \<Rightarrow> 's host \<Rightarrow> transaction \<Rightarrow> ('s, unit) action" where
  "archive_dropped_transaction L H tx = archive_transaction L H tx (plain_receipt False 0)"

definition save_dummy_receipt ::
  "'m executor_libs_scheme \<Rightarrow> 's host \<Rightarrow> transaction \<Rightarrow> ('s, unit) action" where
  "save_dummy_receipt L H tx = archive_transaction L H tx (plain_receipt True (tx_gas_limit tx))"

definition save_failed_receipt ::
  "'m executor_libs_scheme \<Rightarrow> 's host \<Rightarrow> transaction \<Rightarrow> nat \<Rightarrow> ('s, unit) action" where
  "save_failed_receipt L H tx gas_used = archive_transaction L H tx (plain_receipt False gas_used)"

section \<open>Rewards\<close>

definition block_producer_is_qualified ::
  "'m libs_scheme \<Rightarrow> ('s \<times> volatile) host \<Rightarrow> nat \<Rightarrow> ('s \<times> volatile, bool) action" where
  "block_producer_is_qualified L H block_timestamp =
     andthen (read_var vo_block_producer) (\<lambda>producer.
       if producer = [] then give False
       else andthen (h_get H producer) (\<lambda>found.
         let account = unwrap_or_default found
         in andthen (load_chain_params L H) (\<lambda>params.
            andthen (min_validator_stake_zagros H params) (\<lambda>min_stake.
              let threshold = qualification_threshold (ac_validator_stake_snapshot account) min_stake
                    (p_stake_hysteresis_bps params)
              in give (ac_is_registered_validator account \<and> threshold \<le> ac_staked_balance account \<and>
                   ac_jailed_until account \<le> block_timestamp)))))"

definition reward_snapshot_key :: address where
  "reward_snapshot_key = ''__LAST_REWARD_SNAPSHOT__''"

definition record_reward_snapshot ::
  "'m executor_libs_scheme \<Rightarrow> 's host \<Rightarrow> nat \<Rightarrow> nat \<Rightarrow> nat \<Rightarrow> nat \<Rightarrow> nat \<Rightarrow> ('s, unit) action" where
  "record_reward_snapshot L H total_staked acc staker_share validator_share timestamp =
     (case lx_ser_snapshot L \<lparr>rs_total_staked = total_staked, rs_accumulated_reward_per_share = acc,
        rs_staker_share = staker_share, rs_validator_share = validator_share, rs_timestamp = timestamp\<rparr> of
        None \<Rightarrow> stop (Other ''Failed to serialize reward snapshot'')
      | Some bytes \<Rightarrow> h_put H reward_snapshot_key (default_account\<lparr>ac_contract_code := bytes\<rparr>))"

text \<open>
  \<open>distribute_staking_reward\<close>. The share of the producer is at most the whole reward, so the
  subtraction is exact.
\<close>

definition validator_share_of ::
  "'m libs_scheme \<Rightarrow> ('s \<times> volatile) host \<Rightarrow> nat \<Rightarrow> bool \<Rightarrow> ('s \<times> volatile, nat) action" where
  "validator_share_of L H reward_amount is_qualified =
     (if is_qualified
      then (let base = sat_mul u128_max reward_amount VALIDATOR_REWARD_BPS div 10000
            in andthen (read_var vo_block_producer) (\<lambda>producer.
               andthen (producer_reward_factor_bps L H producer) (\<lambda>factor.
                 give (sat_mul u128_max base factor div 10000))))
      else give 0)"

definition credit_stakers ::
  "'s host \<Rightarrow> nat \<Rightarrow> nat \<Rightarrow> nat \<Rightarrow> ('s, nat) action" where
  "credit_stakers H staker_share total_staked acc =
     (if 0 < staker_share
      then andthen (state_add_balance (h_get H) (h_put H) VALIDATOR_REWARD_POOL staker_share) (\<lambda>_.
             let added = sat_mul u128_max staker_share 1000000000000 div total_staked;
                 new_acc = sat_add u128_max acc added
             in andthen (set_accumulated_reward_per_share (h_get H) (h_put H) new_acc) (\<lambda>_. give new_acc))
      else give acc)"

definition distribute_staking_reward ::
  "'m executor_libs_scheme \<Rightarrow> ('s \<times> volatile) host \<Rightarrow> nat \<Rightarrow> nat \<Rightarrow> ('s \<times> volatile, unit) action" where
  "distribute_staking_reward L H reward_amount block_timestamp =
     (if reward_amount = 0 then give ()
      else andthen (h_get H GLOBAL_TOTAL_STAKED) (\<lambda>tracker.
        let total_staked = ac_balance (unwrap_or_default tracker)
        in if total_staked = 0
           then andthen (state_add_balance (h_get H) (h_put H) VALIDATOR_REWARD_POOL reward_amount) (\<lambda>_.
                andthen (get_accumulated_reward_per_share (h_get H)) (\<lambda>acc.
                  record_reward_snapshot L H 0 acc 0 0 block_timestamp))
           else andthen (block_producer_is_qualified L H block_timestamp) (\<lambda>is_qualified.
                andthen (validator_share_of L H reward_amount is_qualified) (\<lambda>validator_share.
                  let staker_share = reward_amount - validator_share
                  in andthen (if 0 < validator_share
                              then andthen (read_var vo_block_producer) (\<lambda>producer.
                                     state_add_balance (h_get H) (h_put H) producer validator_share)
                              else give ()) (\<lambda>_.
                     andthen (get_accumulated_reward_per_share (h_get H)) (\<lambda>acc.
                     andthen (credit_stakers H staker_share total_staked acc) (\<lambda>new_acc.
                       record_reward_snapshot L H total_staked new_acc staker_share validator_share block_timestamp)))))))"

text \<open>\<open>fetch_add\<close> and \<open>swap\<close> of the atomics; \<open>fetch_add\<close> wraps.\<close>

definition wrap_u128 :: "nat \<Rightarrow> nat" where
  "wrap_u128 n = n mod (u128_max + 1)"

definition credit_native_gas_fee :: "nat \<Rightarrow> ('s \<times> volatile, unit) action" where
  "credit_native_gas_fee charged =
     (if charged = 0 then give ()
      else change_var (\<lambda>w. w\<lparr>vo_pending_gas_reward := wrap_u128 (vo_pending_gas_reward w + charged)\<rparr>))"

definition flush_block_rewards ::
  "'m executor_libs_scheme \<Rightarrow> ('s \<times> volatile) host \<Rightarrow> nat \<Rightarrow> ('s \<times> volatile, unit) action" where
  "flush_block_rewards L H block_timestamp =
     andthen (read_var vo_pending_gas_reward) (\<lambda>collected.
     andthen (change_var (\<lambda>w. w\<lparr>vo_pending_gas_reward := 0\<rparr>)) (\<lambda>_.
       if 0 < collected then distribute_staking_reward L H collected block_timestamp else give ()))"

text \<open>
  \<open>settle_pending_stake\<close> changes the caller's account in place: it returns the account it leaves.
\<close>

definition settle_pending_stake ::
  "'s host \<Rightarrow> account \<Rightarrow> nat \<Rightarrow> ('s, account) action" where
  "settle_pending_stake H sender block_timestamp =
     (if ac_pending_stake_amount sender = 0 \<or> block_timestamp < ac_pending_stake_activation_time sender
      then give sender
      else andthen (get_accumulated_reward_per_share (h_get H)) (\<lambda>acc.
        let settling = ac_pending_stake_amount sender;
            sender = sender\<lparr>ac_reward_debt := sat_add u128_max (ac_reward_debt sender) (reward_owed settling acc),
              ac_staked_balance := sat_add u128_max (ac_staked_balance sender) settling,
              ac_pending_stake_amount := 0, ac_pending_stake_activation_time := 0\<rparr>
        in andthen (h_get H GLOBAL_TOTAL_STAKED) (\<lambda>found.
           let tracker = unwrap_or_default found
           in andthen (h_put H GLOBAL_TOTAL_STAKED
                (tracker\<lparr>ac_balance := sat_add u128_max (ac_balance tracker) settling\<rparr>)) (\<lambda>_.
              give sender))))"

section \<open>The active validators\<close>

fun filter_qualified ::
  "'s host \<Rightarrow> chain_params \<Rightarrow> nat \<Rightarrow> nat \<Rightarrow> address list \<Rightarrow> ('s, address list) action" where
  "filter_qualified H params min_stake block_timestamp [] = give []"
| "filter_qualified H params min_stake block_timestamp (a # as) =
     andthen (h_get H a) (\<lambda>found.
       let account = unwrap_or_default found;
           threshold = qualification_threshold (ac_validator_stake_snapshot account) min_stake
             (p_stake_hysteresis_bps params);
           ok = (ac_is_registered_validator account \<and> threshold \<le> ac_staked_balance account \<and>
             ac_jailed_until account \<le> block_timestamp)
       in andthen (filter_qualified H params min_stake block_timestamp as) (\<lambda>rest.
            give (if ok then a # rest else rest)))"

definition active_validator_set_of ::
  "'m libs_scheme \<Rightarrow> ('s \<times> volatile) host \<Rightarrow> nat \<Rightarrow> ('s \<times> volatile, address list) action" where
  "active_validator_set_of L H block_timestamp =
     andthen (read_var vo_staking_index) (\<lambda>index.
     andthen (case index of
         Some index \<Rightarrow> give index
       | None \<Rightarrow> andthen (h_candidates H) (\<lambda>candidates.
           let index = index_from_candidates candidates
           in andthen (change_var (\<lambda>w. w\<lparr>vo_staking_index := Some index\<rparr>)) (\<lambda>_. give index))) (\<lambda>index.
     andthen (load_chain_params L H) (\<lambda>params.
     andthen (min_validator_stake_zagros H params) (\<lambda>min_stake.
       filter_qualified H params min_stake block_timestamp (sort (map fst (vi_stakes index)))))))"

definition refresh_one :: "('s \<times> volatile) host \<Rightarrow> address \<Rightarrow> ('s \<times> volatile, unit) action" where
  "refresh_one H a =
     andthen (h_get H a) (\<lambda>found.
       change_var (\<lambda>w. w\<lparr>vo_staking_index :=
         map_option (index_update a (unwrap_or_default found)) (vo_staking_index w)\<rparr>))"

definition refresh_staking_index_after ::
  "'m libs_scheme \<Rightarrow> ('s \<times> volatile) host \<Rightarrow> transaction \<Rightarrow> ('s \<times> volatile, unit) action" where
  "refresh_staking_index_after L H tx =
     (let refresh = (\<lambda>address. andthen (lift (canonical_account_address address)) (\<lambda>a.
            andthen (read_var vo_staking_index) (\<lambda>index.
              if index = None then give () else refresh_one H a)))
      in case tx_kind tx of
           StakeZagros \<Rightarrow> refresh (tx_sender tx)
         | UnstakeZagros \<Rightarrow> refresh (tx_sender tx)
         | ReportMalicious \<Rightarrow> refresh (tx_receiver tx)
         | SlashValidator \<Rightarrow> refresh (slash_target_address (lb_from_utf8 L) (lb_hex L) (tx_receiver tx) (tx_payload tx))
         | _ \<Rightarrow> give ())"

section \<open>The bridge's counters and records\<close>

definition bridge_backed_zerenya_key :: address where
  "bridge_backed_zerenya_key = ''__BRIDGE_BACKED_ZERENYA__''"

definition get_bridge_backed_zerenya :: "'s host \<Rightarrow> ('s, nat) action" where
  "get_bridge_backed_zerenya H =
     andthen (h_get H bridge_backed_zerenya_key) (\<lambda>found.
       give (case found of None \<Rightarrow> 0 | Some acc \<Rightarrow> ac_balance acc))"

definition increase_bridge_backed_zerenya :: "'s host \<Rightarrow> nat \<Rightarrow> ('s, unit) action" where
  "increase_bridge_backed_zerenya H amount =
     andthen (get_bridge_backed_zerenya H) (\<lambda>current.
       h_put H bridge_backed_zerenya_key (default_account\<lparr>ac_balance := sat_add u128_max current amount\<rparr>))"

definition decrease_bridge_backed_zerenya :: "'s host \<Rightarrow> nat \<Rightarrow> ('s, unit) action" where
  "decrease_bridge_backed_zerenya H amount =
     andthen (get_bridge_backed_zerenya H) (\<lambda>current.
       case checked_sub current amount of
         None \<Rightarrow> stop (BridgeError ''Bridge teminat sayaci negatife dusuyor'')
       | Some new_value \<Rightarrow> h_put H bridge_backed_zerenya_key (default_account\<lparr>ac_balance := new_value\<rparr>))"

definition MAX_RECENT_BRIDGE_BURNS :: nat where
  "MAX_RECENT_BRIDGE_BURNS = 10000"

definition recent_bridge_burns_key :: address where
  "recent_bridge_burns_key = ''__RECENT_BRIDGE_BURNS__''"

definition recent_bridge_burns_next_index_key :: address where
  "recent_bridge_burns_next_index_key = ''__RECENT_BRIDGE_BURNS_NEXT_INDEX__''"

definition trim_records :: "nat \<Rightarrow> 'a list \<Rightarrow> 'a list" where
  "trim_records cap records = (if cap < length records then drop (length records - cap) records else records)"

text \<open>The list a record account holds; an account without code holds none.\<close>

definition decode_list :: "(bytes \<Rightarrow> 'a list option) \<Rightarrow> string \<Rightarrow> bytes \<Rightarrow> 'a list result" where
  "decode_list de message code =
     (if code = [] then Inr []
      else case de code of None \<Rightarrow> Inl (Other message) | Some xs \<Rightarrow> Inr xs)"

definition record_bridge_burn ::
  "'m executor_libs_scheme \<Rightarrow> 's host \<Rightarrow> hash \<Rightarrow> address \<Rightarrow> nat \<Rightarrow> nat \<Rightarrow> ('s, unit) action" where
  "record_bridge_burn L H txid sender amount timestamp =
     andthen (h_get H recent_bridge_burns_next_index_key) (\<lambda>found.
     let index = (case found of None \<Rightarrow> 0 | Some acc \<Rightarrow> ac_balance acc)
     in andthen (h_get H recent_bridge_burns_key) (\<lambda>found.
        let list_acc = unwrap_or_default found
        in andthen (lift (decode_list (lx_de_burns L) ''Corrupt bridge burn index'' (ac_contract_code list_acc))) (\<lambda>records.
           let records = trim_records MAX_RECENT_BRIDGE_BURNS
                 (records @ [\<lparr>br_index = index, br_tx_id = txid, br_sender = sender, br_amount = amount,
                              br_timestamp = timestamp\<rparr>])
           in case lx_ser_burns L records of
                None \<Rightarrow> stop (Other ''Failed to serialize bridge burn index'')
              | Some bytes \<Rightarrow>
                  andthen (h_put H recent_bridge_burns_key (list_acc\<lparr>ac_contract_code := bytes\<rparr>)) (\<lambda>_.
                    if u128_max < index + 1 then stop RustPanic
                    else h_put H recent_bridge_burns_next_index_key (default_account\<lparr>ac_balance := index + 1\<rparr>)))))"

definition load_recent_bridge_burns ::
  "'m executor_libs_scheme \<Rightarrow> 's host \<Rightarrow> nat \<Rightarrow> ('s, bridge_burn_record list) action" where
  "load_recent_bridge_burns L H since_index =
     andthen (h_get H recent_bridge_burns_key) (\<lambda>found.
     andthen (lift (decode_list (lx_de_burns L) ''Corrupt bridge burn index''
       (case found of None \<Rightarrow> [] | Some acc \<Rightarrow> ac_contract_code acc))) (\<lambda>records.
       give (filter (\<lambda>r. since_index \<le> br_index r) records)))"

definition find_bridge_burn_record ::
  "'m executor_libs_scheme \<Rightarrow> 's host \<Rightarrow> hash \<Rightarrow> ('s, bridge_burn_record option) action" where
  "find_bridge_burn_record L H txid =
     andthen (h_get H recent_bridge_burns_key) (\<lambda>found.
     andthen (lift (decode_list (lx_de_burns L) ''Corrupt bridge burn index''
       (case found of None \<Rightarrow> [] | Some acc \<Rightarrow> ac_contract_code acc))) (\<lambda>records.
       give (List.find (\<lambda>r. br_tx_id r = txid) records)))"

definition oldest_bridge_burn_index ::
  "'m executor_libs_scheme \<Rightarrow> 's host \<Rightarrow> ('s, nat option) action" where
  "oldest_bridge_burn_index L H =
     andthen (h_get H recent_bridge_burns_key) (\<lambda>found.
     andthen (lift (decode_list (lx_de_burns L) ''Corrupt bridge burn index''
       (case found of None \<Rightarrow> [] | Some acc \<Rightarrow> ac_contract_code acc))) (\<lambda>records.
       give (case records of [] \<Rightarrow> None | r # _ \<Rightarrow> Some (br_index r))))"

section \<open>Slashes, proofs and transfers\<close>

definition MAX_SLASH_HISTORY :: nat where
  "MAX_SLASH_HISTORY = 10000"

definition slash_history_key :: address where
  "slash_history_key = ''__SLASH_HISTORY__''"

definition slash_history_next_index_key :: address where
  "slash_history_next_index_key = ''__SLASH_HISTORY_NEXT_INDEX__''"

definition record_slash_history ::
  "'m executor_libs_scheme \<Rightarrow> 's host \<Rightarrow> address \<Rightarrow> slash_reason \<Rightarrow> nat \<Rightarrow> nat \<Rightarrow> ('s, unit) action" where
  "record_slash_history L H target reason confiscated_amount timestamp =
     andthen (h_get H slash_history_next_index_key) (\<lambda>found.
     let index = (case found of None \<Rightarrow> 0 | Some acc \<Rightarrow> as_u64 (ac_balance acc))
     in andthen (h_get H slash_history_key) (\<lambda>found.
        let list_acc = unwrap_or_default found
        in andthen (lift (decode_list (lx_de_slashes L) ''Corrupt slash history'' (ac_contract_code list_acc))) (\<lambda>records.
           let records = trim_records MAX_SLASH_HISTORY
                 (records @ [\<lparr>sl_index = index, sl_target = target, sl_reason = reason,
                              sl_confiscated_amount = confiscated_amount, sl_timestamp = timestamp\<rparr>])
           in case lx_ser_slashes L records of
                None \<Rightarrow> stop (Other ''Failed to serialize slash history'')
              | Some bytes \<Rightarrow>
                  andthen (h_put H slash_history_key (list_acc\<lparr>ac_contract_code := bytes\<rparr>)) (\<lambda>_.
                    if u64_max < index + 1 then stop RustPanic
                    else h_put H slash_history_next_index_key (default_account\<lparr>ac_balance := index + 1\<rparr>)))))"

definition used_slashing_proofs_key :: address where
  "used_slashing_proofs_key = ''__USED_SLASHING_PROOFS__''"

definition is_slashing_proof_used ::
  "'m executor_libs_scheme \<Rightarrow> 's host \<Rightarrow> hash \<Rightarrow> ('s, bool) action" where
  "is_slashing_proof_used L H proof_hash =
     andthen (h_get H used_slashing_proofs_key) (\<lambda>found.
     andthen (lift (decode_list (lx_de_hashes L) ''Corrupt used-proof set''
       (case found of None \<Rightarrow> [] | Some acc \<Rightarrow> ac_contract_code acc))) (\<lambda>used.
       give (proof_hash \<in> set used)))"

definition mark_slashing_proof_used ::
  "'m executor_libs_scheme \<Rightarrow> 's host \<Rightarrow> hash \<Rightarrow> ('s, unit) action" where
  "mark_slashing_proof_used L H proof_hash =
     andthen (h_get H used_slashing_proofs_key) (\<lambda>found.
     let acc = unwrap_or_default found
     in andthen (lift (decode_list (lx_de_hashes L) ''Corrupt used-proof set'' (ac_contract_code acc))) (\<lambda>used.
          case lx_ser_hashes L (sort (List.insert proof_hash used)) of
            None \<Rightarrow> stop (Other ''Failed to serialize used-proof set'')
          | Some bytes \<Rightarrow> h_put H used_slashing_proofs_key (acc\<lparr>ac_contract_code := bytes\<rparr>)))"

definition MAX_RECENT_TRANSFERS :: nat where
  "MAX_RECENT_TRANSFERS = 10000"

definition recent_transfers_next_index_key :: address where
  "recent_transfers_next_index_key = ''__RECENT_TRANSFERS_NEXT_INDEX__''"

definition recent_transfer_record_key :: "nat \<Rightarrow> address" where
  "recent_transfer_record_key index = ''RecentTransfer_'' @ decimal index"

definition peek_next_transfer_index :: "'s host \<Rightarrow> ('s, nat) action" where
  "peek_next_transfer_index H =
     andthen (attempt (h_get H recent_transfers_next_index_key)) (\<lambda>found.
       give (case found of Some (Some acc) \<Rightarrow> ac_balance acc | Some None \<Rightarrow> 0 | None \<Rightarrow> 0))"

definition record_transfer ::
  "'m executor_libs_scheme \<Rightarrow> ('s \<times> volatile) host \<Rightarrow> hash \<Rightarrow> address \<Rightarrow> address \<Rightarrow> nat \<Rightarrow> string \<Rightarrow> nat \<Rightarrow>
     ('s \<times> volatile, unit) action" where
  "record_transfer L H txid sender receiver amount asset timestamp =
     andthen (read_var vo_transfer_index) (\<lambda>index.
     andthen (change_var (\<lambda>w. w\<lparr>vo_transfer_index := wrap_u128 (vo_transfer_index w + 1)\<rparr>)) (\<lambda>_.
       case lx_ser_transfer L \<lparr>tr_index = index, tr_tx_id = txid, tr_sender = sender, tr_receiver = receiver,
           tr_amount = amount, tr_asset = asset, tr_timestamp = timestamp\<rparr> of
         None \<Rightarrow> stop (Other ''Failed to serialize transfer record'')
       | Some bytes \<Rightarrow>
           andthen (h_put H (recent_transfer_record_key index) (default_account\<lparr>ac_contract_code := bytes\<rparr>)) (\<lambda>_.
             if MAX_RECENT_TRANSFERS \<le> index
             then h_put H (recent_transfer_record_key (index - MAX_RECENT_TRANSFERS)) default_account
             else give ())))"

definition flush_recent_transfer_index :: "('s \<times> volatile) host \<Rightarrow> ('s \<times> volatile, unit) action" where
  "flush_recent_transfer_index H =
     andthen (read_var vo_transfer_index) (\<lambda>current.
       h_put H recent_transfers_next_index_key (default_account\<lparr>ac_balance := current\<rparr>))"

section \<open>Fees\<close>

definition reserves_or_zero :: "'s host \<Rightarrow> ('s, nat \<times> nat) action" where
  "reserves_or_zero H =
     andthen (attempt (get_pool_reserves (h_get H))) (\<lambda>found. give (case found of None \<Rightarrow> (0, 0) | Some r \<Rightarrow> r))"

definition scheduled_fee :: "exec_config \<Rightarrow> 's host \<Rightarrow> tx_type \<Rightarrow> ('s, nat) action" where
  "scheduled_fee F H k =
     andthen (reserves_or_zero H) (\<lambda>(pool_zagros, pool_zerenya).
       give (calculate_gas_for_tx_type (gc_with_target pool_zagros pool_zerenya (cf_gas_target_zerenya F)) k 0))"

definition evm_deploy_levy :: "exec_config \<Rightarrow> 's host \<Rightarrow> ('s, nat) action" where
  "evm_deploy_levy F H = scheduled_fee F H DeployContract"

definition evm_standard_fee :: "exec_config \<Rightarrow> 's host \<Rightarrow> ('s, nat) action" where
  "evm_standard_fee F H = scheduled_fee F H CallContract"

definition token_factory_fee_per_contract :: "'s host \<Rightarrow> ('s, nat) action" where
  "token_factory_fee_per_contract H =
     andthen (reserves_or_zero H) (\<lambda>(pool_zagros, pool_zerenya).
       give (base_gas_fee_from_reserves TOKEN_FACTORY_FEE_ZERENYA pool_zagros pool_zerenya))"

definition is_admin_authority_active :: "'s host \<Rightarrow> nat \<Rightarrow> ('s, bool) action" where
  "is_admin_authority_active H block_timestamp =
     andthen (h_get H GENESIS_TIMESTAMP_KEY) (\<lambda>found.
       case found of
         None \<Rightarrow> give False
       | Some account \<Rightarrow>
           if 0 < ac_balance account
           then andthen (admin_authority_end H) (\<lambda>authority_end. give (block_timestamp \<le> authority_end))
           else give False)"

section \<open>The same on every store\<close>

lemma executor_keys_are_accounts [simp]:
  "account_key GLOBAL_TOTAL_STAKED" "account_key GLOBAL_BLOCK_HEIGHT" "account_key reward_snapshot_key"
  "account_key bridge_backed_zerenya_key" "account_key recent_bridge_burns_key"
  "account_key recent_bridge_burns_next_index_key" "account_key slash_history_key"
  "account_key slash_history_next_index_key" "account_key used_slashing_proofs_key"
  "account_key recent_transfers_next_index_key" "account_key (recent_transfer_record_key n)"
  "account_key (receipt_key h d)" "account_key (tx_body_key h d)"
  by (simp_all add: account_key_def GLOBAL_TOTAL_STAKED_def GLOBAL_BLOCK_HEIGHT_def reward_snapshot_key_def
      bridge_backed_zerenya_key_def recent_bridge_burns_key_def recent_bridge_burns_next_index_key_def
      slash_history_key_def slash_history_next_index_key_def used_slashing_proofs_key_def
      recent_transfers_next_index_key_def recent_transfer_record_key_def receipt_key_def tx_body_key_def)

lemma validate_address_key: "validate_address a \<Longrightarrow> account_key a"
  using validate_address_length [of a] by (auto simp: account_key_def)

lemma canonical_account_key: "canonical_account_address a = Inr k \<Longrightarrow> account_key k"
  by (auto simp: canonical_account_address_def account_key_def split: if_splits)

lemma tracker_error_renames: "tracker_error msg m = rename_error (\<lambda>_. Other msg) m"
  by (auto simp: tracker_error_def rename_error_def map_err_def fun_eq_iff split: prod.split sum.split)

context chain_store
begin

lemma mirrors_receipts [intro!]:
  "mirrors (current_block_height_for_rules (shared host)) (current_block_height_for_rules (shared plain_host))"
  "mirrors (archive_transaction L (shared host) tx rc) (archive_transaction L (shared plain_host) tx rc)"
  unfolding archive_transaction_def current_block_height_for_rules_def by auto

lemma mirrors_save_receipt [intro!]:
  "mirrors (save_dummy_receipt L (shared host) tx) (save_dummy_receipt L (shared plain_host) tx)"
  "mirrors (save_failed_receipt L (shared host) tx g) (save_failed_receipt L (shared plain_host) tx g)"
  unfolding save_dummy_receipt_def save_failed_receipt_def by auto

lemma mirrors_qualified [intro!]:
  "mirrors (block_producer_is_qualified L (shared host) t) (block_producer_is_qualified L (shared plain_host) t)"
  unfolding block_producer_is_qualified_def by (auto simp: Let_def)

lemma mirrors_shares [intro!]:
  "mirrors (validator_share_of L (shared host) n q) (validator_share_of L (shared plain_host) n q)"
  "mirrors (credit_stakers (shared host) n t a) (credit_stakers (shared plain_host) n t a)"
  "mirrors (record_reward_snapshot L (shared host) n a x y t) (record_reward_snapshot L (shared plain_host) n a x y t)"
  unfolding validator_share_of_def credit_stakers_def record_reward_snapshot_def by (auto simp: Let_def)

lemma mirrors_distribute [intro!]:
  "mirrors (distribute_staking_reward L (shared host) n t) (distribute_staking_reward L (shared plain_host) n t)"
  unfolding distribute_staking_reward_def by (auto simp: Let_def)

lemma mirrors_gas_reward [intro!]:
  "mirrors (credit_native_gas_fee n) (credit_native_gas_fee n)"
  "mirrors (flush_block_rewards L (shared host) t) (flush_block_rewards L (shared plain_host) t)"
  unfolding credit_native_gas_fee_def flush_block_rewards_def by auto

lemma mirrors_settle [intro!]:
  "mirrors (settle_pending_stake (shared host) a t) (settle_pending_stake (shared plain_host) a t)"
  unfolding settle_pending_stake_def by (auto simp: Let_def)

lemma mirrors_bridge_backed [intro!]:
  "mirrors (get_bridge_backed_zerenya (shared host)) (get_bridge_backed_zerenya (shared plain_host))"
  "mirrors (increase_bridge_backed_zerenya (shared host) n) (increase_bridge_backed_zerenya (shared plain_host) n)"
  "mirrors (decrease_bridge_backed_zerenya (shared host) n) (decrease_bridge_backed_zerenya (shared plain_host) n)"
  unfolding increase_bridge_backed_zerenya_def decrease_bridge_backed_zerenya_def get_bridge_backed_zerenya_def by auto

lemma mirrors_records [intro!]:
  "mirrors (record_bridge_burn L (shared host) h a n t) (record_bridge_burn L (shared plain_host) h a n t)"
  "mirrors (record_slash_history L (shared host) a q n t) (record_slash_history L (shared plain_host) a q n t)"
  "mirrors (record_transfer L (shared host) h a b n x t) (record_transfer L (shared plain_host) h a b n x t)"
  unfolding record_bridge_burn_def record_slash_history_def record_transfer_def by (auto simp: Let_def)

lemma mirrors_proofs [intro!]:
  "mirrors (is_slashing_proof_used L (shared host) h) (is_slashing_proof_used L (shared plain_host) h)"
  "mirrors (mark_slashing_proof_used L (shared host) h) (mark_slashing_proof_used L (shared plain_host) h)"
  unfolding is_slashing_proof_used_def mark_slashing_proof_used_def by (auto simp: Let_def)

lemma mirrors_fees [intro!]:
  "mirrors (reserves_or_zero (shared host)) (reserves_or_zero (shared plain_host))"
  "mirrors (scheduled_fee F (shared host) k) (scheduled_fee F (shared plain_host) k)"
  "mirrors (is_admin_authority_active (shared host) t) (is_admin_authority_active (shared plain_host) t)"
  unfolding scheduled_fee_def reserves_or_zero_def is_admin_authority_active_def by auto

lemma mirrors_volume [intro!]:
  "mirrors (record_volume_and_compute_fee_bps C (h_get (shared host)) (h_put (shared host)) d n r t)
     (record_volume_and_compute_fee_bps C (h_get (shared plain_host)) (h_put (shared plain_host)) d n r t)"
proof -
  have "account_key swap_volume_tracker_key" by (simp add: account_key_def swap_volume_tracker_key_def)
  then show ?thesis
    unfolding record_volume_and_compute_fee_bps_def check_and_record_swap_volume_def load_tracker_def
      tracker_error_renames
    by auto
qed

end

end
