(* ===== verification/ValidatorSet.thy ===== *)
theory ValidatorSet
  imports Executor Crypto
begin

text \<open>
  Validators in the state: \<open>crates/zagros-executor/src/validator_set.rs\<close>, up to the passing of an
  epoch, which is in \<open>Epoch\<close>. The life cycle's flag, liveness and shadow votes, the genesis set, the
  diversity caps, pending key rotations, the multisig's check and the two admin actions on a
  validator.

  A \<open>BTreeMap\<close> is given back as the list of its entries in the order of its keys, a \<open>BTreeSet\<close> as its
  sorted list.
\<close>

section \<open>Encodings\<close>

record pending_key_rotation =
  kr_new_pubkey :: pubkey
  kr_requested_epoch :: nat

record shadow_vote_attestation =
  sv_address :: address
  sv_vote :: vote

record register_validator_payload =
  rv_consensus_pubkey :: pubkey
  rv_ownership_proof :: bytes
  rv_declaration :: validator_declaration

record rotate_key_payload =
  rk_new_pubkey :: pubkey
  rk_ownership_proof :: bytes

record validator_libs = executor_libs +
  lv_ser_rotation :: "pending_key_rotation \<Rightarrow> bytes"
  lv_de_rotation :: "bytes \<Rightarrow> pending_key_rotation option"
  lv_ser_shadow :: "(nat \<times> hash) list \<Rightarrow> bytes option"
  lv_de_shadow :: "bytes \<Rightarrow> (nat \<times> hash) list option"
  lv_de_admin :: "bytes \<Rightarrow> admin_action_payload option"
  lv_de_register :: "bytes \<Rightarrow> register_validator_payload option"
  lv_de_rotate :: "bytes \<Rightarrow> rotate_key_payload option"

definition register_payload_decode ::
  "(bytes \<Rightarrow> register_validator_payload option) \<Rightarrow> bytes \<Rightarrow> register_validator_payload result" where
  "register_payload_decode dec bytes =
     (case dec bytes of
        None \<Rightarrow> Inl (Other ''RegisterValidator payload cozulemedi'')
      | Some p \<Rightarrow>
          if rv_consensus_pubkey p = NIL_HASH then Inl (Other ''consensus_pubkey sifir olamaz'')
          else if length (rv_ownership_proof p) \<noteq> 64 then Inl (Other ''ownership_proof 64 bayt olmali'')
          else if vd_provider (rv_declaration p) = [] \<or> vd_region (rv_declaration p) = [] \<or>
              vd_operator_id (rv_declaration p) = NIL_HASH
            then Inl (Other ''beyan eksik (provider/region/operator_id)'')
          else if 64 < length (vd_provider (rv_declaration p)) \<or> 64 < length (vd_region (rv_declaration p))
            then Inl (Other ''beyan alanlari cok uzun'')
          else Inr p)"

definition rotate_payload_decode ::
  "(bytes \<Rightarrow> rotate_key_payload option) \<Rightarrow> bytes \<Rightarrow> rotate_key_payload result" where
  "rotate_payload_decode dec bytes =
     (case dec bytes of
        None \<Rightarrow> Inl (Other ''RotateConsensusKey payload cozulemedi'')
      | Some p \<Rightarrow>
          if rk_new_pubkey p = NIL_HASH then Inl (Other ''new_pubkey sifir olamaz'')
          else if length (rk_ownership_proof p) \<noteq> 64 then Inl (Other ''ownership_proof 64 bayt olmali'')
          else Inr p)"

definition rotation_decode ::
  "(bytes \<Rightarrow> pending_key_rotation option) \<Rightarrow> bytes \<Rightarrow> pending_key_rotation result" where
  "rotation_decode dec bytes =
     (case dec bytes of None \<Rightarrow> Inl (Other ''PendingKeyRotation cozulemedi'') | Some r \<Rightarrow> Inr r)"

section \<open>Accounts of validators\<close>

definition registered_status :: "validator_status option \<Rightarrow> bool" where
  "registered_status s = (s \<in> {Some Candidate, Some Approved, Some Probation, Some Active})"

definition sync_registered_flag :: "account \<Rightarrow> account" where
  "sync_registered_flag a = a\<lparr>ac_is_registered_validator := registered_status (ac_validator_status a)\<rparr>"

definition canonical_address :: "address \<Rightarrow> address result" where
  "canonical_address a = (if \<not> validate_address a then Inl InvalidAddress else Inr (to_ascii_lowercase a))"

section \<open>Liveness\<close>

definition fresh_liveness :: "nat \<Rightarrow> liveness_counters \<Rightarrow> liveness_counters" where
  "fresh_liveness epoch c =
     (if lc_epoch c \<noteq> epoch then \<lparr>lc_epoch = epoch, lc_participated = 0, lc_total = 0, lc_strikes = lc_strikes c\<rparr>
      else c)"

definition count_total :: "liveness_counters \<Rightarrow> liveness_counters" where
  "count_total c = c\<lparr>lc_total := sat_add u64_max (lc_total c) 1\<rparr>"

definition count_participated :: "liveness_counters \<Rightarrow> liveness_counters" where
  "count_participated c = c\<lparr>lc_participated := sat_add u64_max (lc_participated c) 1\<rparr>"

fun record_members_liveness ::
  "'s host \<Rightarrow> nat \<Rightarrow> nat list \<Rightarrow> nat \<Rightarrow> validator_member list \<Rightarrow> ('s, unit) action" where
  "record_members_liveness H epoch signers idx [] = give ()"
| "record_members_liveness H epoch signers idx (m # ms) =
     andthen (h_get H (m_address m)) (\<lambda>found.
       let acc = unwrap_or_default found;
           live = count_total (fresh_liveness epoch (ac_liveness acc));
           live = (if as_u16 idx \<in> set signers then count_participated live else live)
       in andthen (h_put H (m_address m) (acc\<lparr>ac_liveness := live\<rparr>)) (\<lambda>_.
          record_members_liveness H epoch signers (idx + 1) ms))"

definition record_qc_liveness ::
  "'m libs_scheme \<Rightarrow> 's host \<Rightarrow> quorum_certificate \<Rightarrow> ('s, unit) action" where
  "record_qc_liveness L H qc =
     andthen (attempt (load_validator_set_at_epoch L H (q_epoch qc))) (\<lambda>loaded.
       case loaded of
         None \<Rightarrow> give ()
       | Some vset \<Rightarrow> record_members_liveness H (q_epoch qc) (signer_indices qc) 0 (vs_members vset))"

definition record_shadow_vote_liveness :: "'s host \<Rightarrow> address \<Rightarrow> nat \<Rightarrow> ('s, unit) action" where
  "record_shadow_vote_liveness H address epoch =
     andthen (lift (canonical_address address)) (\<lambda>key.
     andthen (h_get H key) (\<lambda>found.
       case found of
         None \<Rightarrow> stop (Other ''shadow oy: hesap yok'')
       | Some acc \<Rightarrow>
           h_put H key (acc\<lparr>ac_liveness := count_participated (count_total (fresh_liveness epoch (ac_liveness acc)))\<rparr>)))"

section \<open>Shadow votes\<close>

definition shadow_vote_replay_hash :: "crypto_env \<Rightarrow> address \<Rightarrow> nat \<Rightarrow> nat \<Rightarrow> hash" where
  "shadow_vote_replay_hash E address height round =
     keccak E (str_bytes address @ le_bytes 8 height @ le_bytes 4 round)"

definition used_shadow_votes_key :: address where
  "used_shadow_votes_key = ''__USED_SHADOW_VOTES__''"

definition MAX_SHADOW_VOTES_PER_BLOCK :: nat where
  "MAX_SHADOW_VOTES_PER_BLOCK = 256"

definition SHADOW_VOTE_MAX_AGE_BLOCKS :: nat where
  "SHADOW_VOTE_MAX_AGE_BLOCKS = 128"

definition load_used_shadow_votes ::
  "'m validator_libs_scheme \<Rightarrow> 's host \<Rightarrow> ('s, (nat \<times> hash) list) action" where
  "load_used_shadow_votes L H =
     andthen (h_get H used_shadow_votes_key) (\<lambda>found.
       lift (decode_list (lv_de_shadow L) ''Corrupt used-shadow-vote set''
         (case found of None \<Rightarrow> [] | Some acc \<Rightarrow> ac_contract_code acc)))"

definition is_shadow_vote_used ::
  "'m validator_libs_scheme \<Rightarrow> 's host \<Rightarrow> nat \<Rightarrow> hash \<Rightarrow> ('s, bool) action" where
  "is_shadow_vote_used L H height h =
     andthen (load_used_shadow_votes L H) (\<lambda>used. give ((height, h) \<in> set used))"

text \<open>\<open>split_off\<close> keeps the entries from the floor on.\<close>

definition prune_shadow_votes :: "nat \<Rightarrow> (nat \<times> hash) list \<Rightarrow> (nat \<times> hash) list" where
  "prune_shadow_votes block_number used =
     filter (\<lambda>k. (sat_sub block_number SHADOW_VOTE_MAX_AGE_BLOCKS, NIL_HASH) \<le> k) used"

definition mark_shadow_vote_used ::
  "'m validator_libs_scheme \<Rightarrow> 's host \<Rightarrow> nat \<Rightarrow> hash \<Rightarrow> nat \<Rightarrow> ('s, unit) action" where
  "mark_shadow_vote_used L H height h block_number =
     andthen (load_used_shadow_votes L H) (\<lambda>used.
       case lv_ser_shadow L (sort (List.insert (height, h) (prune_shadow_votes block_number used))) of
         None \<Rightarrow> stop (Other ''used-shadow-vote set serialize'')
       | Some bytes \<Rightarrow> h_put H used_shadow_votes_key (default_account\<lparr>ac_contract_code := bytes\<rparr>))"

definition verify_and_record_shadow_vote ::
  "'m validator_libs_scheme \<Rightarrow> 's host \<Rightarrow> consensus_domain \<Rightarrow> nat \<Rightarrow> address \<Rightarrow> vote \<Rightarrow> nat \<Rightarrow> ('s, unit) action" where
  "verify_and_record_shadow_vote L H domain epoch address vote block_number =
     andthen (lift (canonical_address address)) (\<lambda>key.
     andthen (h_get H key) (\<lambda>found.
       case found of
         None \<Rightarrow> stop (Other ''shadow oy: hesap yok'')
       | Some acc \<Rightarrow>
           andthen (lift (verify_shadow_vote (lb_crypto L) vote domain epoch (ac_consensus_pubkey acc))) (\<lambda>_.
             let replay_key = shadow_vote_replay_hash (lb_crypto L) key (v_height vote) (v_round vote)
             in andthen (is_shadow_vote_used L H (v_height vote) replay_key) (\<lambda>used.
                  if used then stop (Other ''shadow oy: bu (validator, yukseklik, tur) icin zaten kaydedildi'')
                  else andthen (mark_shadow_vote_used L H (v_height vote) replay_key block_number) (\<lambda>_.
                    record_shadow_vote_liveness H key epoch)))))"

definition shadow_vote_in_window :: "nat \<Rightarrow> vote \<Rightarrow> bool" where
  "shadow_vote_in_window block_number v \<longleftrightarrow>
     \<not> (block_number \<le> v_height v \<or> SHADOW_VOTE_MAX_AGE_BLOCKS < sat_sub block_number (v_height v))"

definition apply_shadow_vote_attestations ::
  "'m validator_libs_scheme \<Rightarrow> 's host \<Rightarrow> consensus_domain \<Rightarrow> nat \<Rightarrow> nat \<Rightarrow> shadow_vote_attestation list \<Rightarrow>
     ('s, unit) action" where
  "apply_shadow_vote_attestations L H domain epoch block_number attestations =
     each (\<lambda>a. if \<not> shadow_vote_in_window block_number (sv_vote a) then give ()
               else andthen (attempt (verify_and_record_shadow_vote L H domain epoch (sv_address a) (sv_vote a)
                      block_number)) (\<lambda>_. give ()))
       (take MAX_SHADOW_VOTES_PER_BLOCK attestations)"

section \<open>Diversity caps\<close>

record diversity_counts =
  dc_provider :: "(string \<times> nat) list"
  dc_region :: "(string \<times> nat) list"
  dc_operator :: "(hash \<times> nat) list"

definition no_counts :: diversity_counts where
  "no_counts = \<lparr>dc_provider = [], dc_region = [], dc_operator = []\<rparr>"

definition count_of :: "('k \<times> nat) list \<Rightarrow> 'k \<Rightarrow> nat" where
  "count_of counts k = (case map_of counts k of None \<Rightarrow> 0 | Some n \<Rightarrow> n)"

definition count_up :: "'k \<Rightarrow> ('k \<times> nat) list \<Rightarrow> ('k \<times> nat) list" where
  "count_up k counts = AList.update k (count_of counts k + 1) counts"

definition dc_add :: "validator_declaration \<Rightarrow> diversity_counts \<Rightarrow> diversity_counts" where
  "dc_add d c = \<lparr>dc_provider = count_up (to_ascii_lowercase (vd_provider d)) (dc_provider c),
     dc_region = count_up (to_ascii_lowercase (vd_region d)) (dc_region c),
     dc_operator = count_up (vd_operator_id d) (dc_operator c)\<rparr>"

definition counts_in_caps :: "account \<Rightarrow> bool" where
  "counts_in_caps a = (ac_validator_status a \<in> {Some Approved, Some Probation, Some Active})"

definition counts_from_accounts :: "account list \<Rightarrow> diversity_counts" where
  "counts_from_accounts accounts =
     fold (\<lambda>a c. if counts_in_caps a then dc_add (ac_validator_declaration a) c else c) accounts no_counts"

definition check_and_add :: "chain_params \<Rightarrow> validator_declaration \<Rightarrow> diversity_counts \<Rightarrow> diversity_counts result" where
  "check_and_add p d c =
     (if p_max_per_provider p \<le> count_of (dc_provider c) (to_ascii_lowercase (vd_provider d))
        then Inl (Other ''cesitlilik: provider tavani dolu'')
      else if p_max_per_region p \<le> count_of (dc_region c) (to_ascii_lowercase (vd_region d))
        then Inl (Other ''cesitlilik: region tavani dolu'')
      else if p_max_per_operator p \<le> count_of (dc_operator c) (vd_operator_id d)
        then Inl (Other ''cesitlilik: operator tavani dolu'')
      else Inr (dc_add d c))"

section \<open>The genesis set\<close>

fun install_members ::
  "'s host \<Rightarrow> chain_params \<Rightarrow> diversity_counts \<Rightarrow> (address \<times> pubkey \<times> validator_declaration) list \<Rightarrow>
     ('s, validator_member list) action" where
  "install_members H params counts [] = give []"
| "install_members H params counts ((address, pubkey, decl) # vs) =
     andthen (lift (check_and_add params decl counts)) (\<lambda>counts.
     andthen (lift (canonical_address address)) (\<lambda>key.
     andthen (h_get H key) (\<lambda>found.
       let acc = sync_registered_flag ((unwrap_or_default found)\<lparr>ac_validator_status := Some Active,
             ac_consensus_pubkey := pubkey, ac_validator_declaration := decl,
             ac_validator_status_epoch := 0, ac_validator_registered_at := 0\<rparr>)
       in andthen (h_put H key acc) (\<lambda>_.
          andthen (install_members H params counts vs) (\<lambda>members.
            give (\<lparr>m_address = key, m_consensus_pubkey = pubkey\<rparr> # members))))))"

definition install_genesis_validator_set ::
  "'m libs_scheme \<Rightarrow> 's host \<Rightarrow> chain_params \<Rightarrow> (address \<times> pubkey \<times> validator_declaration) list \<Rightarrow>
     ('s, active_validator_set) action" where
  "install_genesis_validator_set L H params validators =
     (if p_max_validators params < length validators
      then stop (ConfigError ''genesis validator sayisi max_validators'')
      else andthen (install_members H params no_counts validators) (\<lambda>members.
        let vset = \<lparr>vs_epoch = 0, vs_members = members\<rparr>
        in andthen (store_active_set L H vset) (\<lambda>_.
           andthen (store_active_set_epoch_snapshot L H vset) (\<lambda>_. give vset))))"

section \<open>Registered validators\<close>

text \<open>Those with stake that the store offers as candidates, and the members of the set in force.\<close>

fun collect_registered ::
  "'s host \<Rightarrow> (address \<times> account) list \<Rightarrow> (address \<times> nat) list \<Rightarrow> ('s, (address \<times> account) list) action" where
  "collect_registered H known [] = give known"
| "collect_registered H known ((addr, stake) # cs) =
     (let key = to_ascii_lowercase addr
      in andthen (h_get H key) (\<lambda>found.
           case found of
             None \<Rightarrow> collect_registered H known cs
           | Some acc \<Rightarrow>
               collect_registered H
                 (if ac_validator_status acc \<noteq> None then AList.update key acc known else known) cs))"

fun collect_members ::
  "'s host \<Rightarrow> (address \<times> account) list \<Rightarrow> validator_member list \<Rightarrow> ('s, (address \<times> account) list) action" where
  "collect_members H known [] = give known"
| "collect_members H known (m # ms) =
     (if map_of known (m_address m) \<noteq> None then collect_members H known ms
      else andthen (h_get H (m_address m)) (\<lambda>found.
        case found of
          None \<Rightarrow> collect_members H known ms
        | Some acc \<Rightarrow> collect_members H (AList.update (m_address m) acc known) ms))"

definition registered_validator_accounts ::
  "'m libs_scheme \<Rightarrow> 's host \<Rightarrow> ('s, (address \<times> account) list) action" where
  "registered_validator_accounts L H =
     andthen (h_candidates H) (\<lambda>candidates.
     andthen (collect_registered H [] candidates) (\<lambda>known.
     andthen (attempt (load_active_set L H)) (\<lambda>loaded.
     andthen (case loaded of None \<Rightarrow> give known | Some vset \<Rightarrow> collect_members H known (vs_members vset)) (\<lambda>known.
       give (sort_key fst known)))))"

section \<open>Key rotation\<close>

definition pending_keyrot_key :: "address \<Rightarrow> address" where
  "pending_keyrot_key address = ''__KEYROT_'' @ to_ascii_lowercase address @ ''__''"

definition load_pending_key_rotation ::
  "'m validator_libs_scheme \<Rightarrow> 's host \<Rightarrow> address \<Rightarrow> ('s, pending_key_rotation option) action" where
  "load_pending_key_rotation L H address =
     andthen (h_get H (pending_keyrot_key address)) (\<lambda>found.
       case found of
         None \<Rightarrow> give None
       | Some acc \<Rightarrow>
           if ac_contract_code acc = [] then give None
           else andthen (lift (rotation_decode (lv_de_rotation L) (ac_contract_code acc))) (\<lambda>r. give (Some r)))"

definition write_keyrot :: "'s host \<Rightarrow> address \<Rightarrow> bytes \<Rightarrow> ('s, unit) action" where
  "write_keyrot H address bytes =
     andthen (h_get H (pending_keyrot_key address)) (\<lambda>found.
       h_put H (pending_keyrot_key address) ((unwrap_or_default found)\<lparr>ac_contract_code := bytes\<rparr>))"

definition store_pending_key_rotation ::
  "'m validator_libs_scheme \<Rightarrow> 's host \<Rightarrow> address \<Rightarrow> pending_key_rotation \<Rightarrow> ('s, unit) action" where
  "store_pending_key_rotation L H address rot = write_keyrot H address (lv_ser_rotation L rot)"

definition clear_pending_key_rotation :: "'s host \<Rightarrow> address \<Rightarrow> ('s, unit) action" where
  "clear_pending_key_rotation H address = write_keyrot H address []"

text \<open>The accounts with their new keys, and the keys that changed.\<close>

fun apply_pending_key_rotations ::
  "'m validator_libs_scheme \<Rightarrow> 's host \<Rightarrow> nat \<Rightarrow> (address \<times> account) list \<Rightarrow>
     ('s, (address \<times> account) list \<times> (address \<times> pubkey) list) action" where
  "apply_pending_key_rotations L H current_epoch [] = give ([], [])"
| "apply_pending_key_rotations L H current_epoch ((addr, acc) # rest) =
     andthen (load_pending_key_rotation L H addr) (\<lambda>rot.
     andthen (case rot of
         None \<Rightarrow> give (acc, [])
       | Some rot \<Rightarrow>
           if current_epoch \<le> kr_requested_epoch rot then give (acc, [])
           else let acc = acc\<lparr>ac_consensus_pubkey := kr_new_pubkey rot\<rparr>
                in andthen (h_put H addr acc) (\<lambda>_.
                   andthen (clear_pending_key_rotation H addr) (\<lambda>_.
                     give (acc, [(addr, kr_new_pubkey rot)])))) (\<lambda>(acc, changed).
     andthen (apply_pending_key_rotations L H current_epoch rest) (\<lambda>(accounts, rotated).
       give ((addr, acc) # accounts, changed @ rotated))))"

section \<open>The admin multisig\<close>

definition DOMAIN_ADMIN_ACTION :: bytes where
  "DOMAIN_ADMIN_ACTION = str_bytes ''ZAGROS/ADMIN-ACTION/v1''"

definition admin_action_code :: "admin_action \<Rightarrow> byte" where
  "admin_action_code a = (case a of Approve \<Rightarrow> 1 | Remove \<Rightarrow> 2 | VetoProposal \<Rightarrow> 3)"

definition admin_action_digest ::
  "crypto_env \<Rightarrow> consensus_domain \<Rightarrow> admin_action \<Rightarrow> address \<Rightarrow> nat \<Rightarrow> hash" where
  "admin_action_digest E domain action target epoch =
     signing_digest E DOMAIN_ADMIN_ACTION domain epoch 0 0 (admin_action_code action)
       (keccak E (str_bytes (to_ascii_lowercase target)))"

definition eip191_admin_digest :: "crypto_env \<Rightarrow> hash \<Rightarrow> hash" where
  "eip191_admin_digest E digest =
     keccak E ([0x19] @ str_bytes ''Ethereum Signed Message:'' @ [10] @ str_bytes ''32'' @ digest)"

fun admin_signers ::
  "(hash \<Rightarrow> bytes \<Rightarrow> address option) \<Rightarrow> admin_multisig \<Rightarrow> hash \<Rightarrow> address list \<Rightarrow> bytes list \<Rightarrow> address list result" where
  "admin_signers recover multisig digest signers [] = Inr signers"
| "admin_signers recover multisig digest signers (sig # sigs) =
     (case recover digest sig of
        None \<Rightarrow> Inl InvalidSignature
      | Some signer \<Rightarrow>
          let signer = to_ascii_lowercase signer
          in if \<not> is_signer multisig signer then Inl (Other ''admin aksiyonu: imzaci multisig uyesi degil'')
             else if signer \<in> set signers then Inl (Other ''admin aksiyonu: tekrar eden imzaci'')
             else admin_signers recover multisig digest (signers @ [signer]) sigs)"

definition verify_admin_action ::
  "'m libs_scheme \<Rightarrow> 's host \<Rightarrow> admin_action_payload \<Rightarrow> nat \<Rightarrow> ('s, unit) action" where
  "verify_admin_action L H payload current_epoch =
     (if aa_epoch payload \<noteq> current_epoch then stop (Other ''admin aksiyonu baska epoch icin imzalanmis'')
      else andthen (load_admin_multisig L H) (\<lambda>multisig.
        andthen (load_consensus_domain H) (\<lambda>domain.
          let digest = eip191_admin_digest (lb_crypto L)
                (admin_action_digest (lb_crypto L) domain (aa_action payload) (aa_target payload) (aa_epoch payload))
          in andthen (lift (admin_signers (lb_recover_signer L) multisig digest [] (aa_signatures payload))) (\<lambda>signers.
               fails_unless (am_threshold multisig \<le> length signers) (Other ''admin aksiyonu: imza < esik'')))))"

section \<open>Approval and removal\<close>

definition apply_admin_approve ::
  "'m libs_scheme \<Rightarrow> 's host \<Rightarrow> address \<Rightarrow> nat \<Rightarrow> ('s, unit) action" where
  "apply_admin_approve L H target current_epoch =
     andthen (lift (canonical_address target)) (\<lambda>key.
     andthen (load_chain_params L H) (\<lambda>params.
     andthen (h_get H key) (\<lambda>found.
       case found of
         None \<Rightarrow> stop (Other ''onay: hedef hesap yok'')
       | Some acc \<Rightarrow>
           if ac_validator_status acc \<noteq> Some Candidate then stop (Other ''onay: hedef Candidate degil'')
           else if ac_consensus_pubkey acc = NIL_HASH then stop (Other ''onay: konsensus anahtari yok'')
           else andthen (min_validator_stake_zagros H params) (\<lambda>min_stake.
             if ac_staked_balance acc < qualification_threshold (ac_validator_stake_snapshot acc) min_stake
                  (p_stake_hysteresis_bps params)
             then stop (StakingError ''onay: teminat esigin altinda'')
             else andthen (registered_validator_accounts L H) (\<lambda>others.
               let counts = counts_from_accounts (map snd (filter (\<lambda>(a, _). a \<noteq> key) others))
               in andthen (lift (check_and_add params (ac_validator_declaration acc) counts)) (\<lambda>_.
                    h_put H key (sync_registered_flag (acc\<lparr>ac_validator_status := Some Approved,
                      ac_validator_status_epoch := current_epoch\<rparr>))))))))"

definition apply_admin_remove ::
  "'m libs_scheme \<Rightarrow> 's host \<Rightarrow> address \<Rightarrow> nat \<Rightarrow> nat \<Rightarrow> ('s, unit) action" where
  "apply_admin_remove L H target now_secs current_epoch =
     andthen (lift (canonical_address target)) (\<lambda>key.
     andthen (load_chain_params L H) (\<lambda>params.
     andthen (h_get H key) (\<lambda>found.
       case found of
         None \<Rightarrow> stop (Other ''cikarma: hedef hesap yok'')
       | Some acc \<Rightarrow>
           if ac_validator_status acc = None \<or> ac_validator_status acc = Some Removed
           then stop (Other ''cikarma: hedef kayitli validator degil'')
           else h_put H key (sync_registered_flag (acc\<lparr>ac_validator_status := Some Removed,
                  ac_validator_status_epoch := current_epoch,
                  ac_bond_unlock_at := sat_add u128_max now_secs (p_bond_lock_seconds params)\<rparr>)))))"

definition admin_phase_active :: "'s host \<Rightarrow> nat \<Rightarrow> ('s, bool) action" where
  "admin_phase_active H now_secs =
     andthen (admin_authority_end H) (\<lambda>authority_end. give (now_secs \<le> authority_end))"

section \<open>Matured stake\<close>

text \<open>The account with its matured stake, or none when there is nothing to settle.\<close>

definition settle_matured_stake :: "'s host \<Rightarrow> account \<Rightarrow> nat \<Rightarrow> ('s, account option) action" where
  "settle_matured_stake H acc now_secs =
     (if ac_pending_stake_amount acc = 0 \<or> now_secs < ac_pending_stake_activation_time acc then give None
      else andthen (get_accumulated_reward_per_share (h_get H)) (\<lambda>acc_per_share.
        let settling = ac_pending_stake_amount acc;
            acc = acc\<lparr>ac_reward_debt := sat_add u128_max (ac_reward_debt acc) (reward_owed settling acc_per_share),
              ac_staked_balance := sat_add u128_max (ac_staked_balance acc) settling,
              ac_pending_stake_amount := 0, ac_pending_stake_activation_time := 0\<rparr>
        in andthen (h_get H GLOBAL_TOTAL_STAKED) (\<lambda>found.
           let tracker = unwrap_or_default found
           in andthen (h_put H GLOBAL_TOTAL_STAKED
                (tracker\<lparr>ac_balance := sat_add u128_max (ac_balance tracker) settling\<rparr>)) (\<lambda>_.
              give (Some acc)))))"

end
