(* ===== verification/Governance.thy ===== *)
theory Governance
  imports ValidatorSet
begin

text \<open>
  Governance: proposals and their stored shapes (\<open>crates/zagros-types/src/lib.rs\<close>), the executor's
  records of proposals and votes (\<open>crates/zagros-executor/src/lib.rs\<close>) and the two-channel pipeline
  run at the end of an epoch (\<open>crates/zagros-executor/src/governance.rs\<close>): votes, deposits, tallies,
  queue, execution, veto.
\<close>

section \<open>Proposals\<close>

datatype proposal_status = PsPending | PsActive | PsSucceeded | PsRejected | PsExpired | PsExecuted
  | PsArchived | PsQueued | PsVetoed

record proposal =
  pr_proposal_id :: hash
  pr_proposer :: address
  pr_description :: bytes
  pr_created_at :: nat
  pr_votes_for :: nat
  pr_votes_against :: nat
  pr_status :: proposal_status
  pr_action :: proposal_action
  pr_executes_at_epoch :: nat
  pr_voting_ends_at_epoch :: nat

record proposal_v2 =
  p2_proposal_id :: hash
  p2_proposer :: address
  p2_description :: bytes
  p2_created_at :: nat
  p2_votes_for :: nat
  p2_votes_against :: nat
  p2_status :: proposal_status

record proposal_v1 =
  p1_proposal_id :: hash
  p1_proposer :: address
  p1_description :: bytes
  p1_created_at :: nat
  p1_votes_for :: nat
  p1_votes_against :: nat
  p1_voters :: "address list"

definition proposal_from_v2 :: "proposal_v2 \<Rightarrow> proposal" where
  "proposal_from_v2 v = \<lparr>pr_proposal_id = p2_proposal_id v, pr_proposer = p2_proposer v,
     pr_description = p2_description v, pr_created_at = p2_created_at v, pr_votes_for = p2_votes_for v,
     pr_votes_against = p2_votes_against v, pr_status = p2_status v, pr_action = Text,
     pr_executes_at_epoch = 0, pr_voting_ends_at_epoch = 0\<rparr>"

definition proposal_from_v1 :: "proposal_v1 \<Rightarrow> proposal" where
  "proposal_from_v1 v = \<lparr>pr_proposal_id = p1_proposal_id v, pr_proposer = p1_proposer v,
     pr_description = p1_description v, pr_created_at = p1_created_at v, pr_votes_for = p1_votes_for v,
     pr_votes_against = p1_votes_against v, pr_status = PsActive, pr_action = Text,
     pr_executes_at_epoch = 0, pr_voting_ends_at_epoch = 0\<rparr>"

record gov_libs = validator_libs +
  lg_ser_proposal :: "proposal \<Rightarrow> bytes option"
  lg_de_proposal :: "bytes \<Rightarrow> proposal option"
  lg_de_proposal_v2 :: "bytes \<Rightarrow> proposal_v2 option"
  lg_de_proposal_v1 :: "bytes \<Rightarrow> proposal_v1 option"
  lg_de_action :: "bytes \<Rightarrow> proposal_action option"
  lg_utf8_lossy :: "bytes \<Rightarrow> string"

text \<open>The current shape, then the two older ones, each read strictly. A first-version record brings its voters.\<close>

definition proposal_detecting_legacy :: "'m gov_libs_scheme \<Rightarrow> bytes \<Rightarrow> (proposal \<times> address list option) option" where
  "proposal_detecting_legacy L bytes =
     (case lg_de_proposal L bytes of
        Some p \<Rightarrow> Some (p, None)
      | None \<Rightarrow> (case lg_de_proposal_v2 L bytes of
          Some v2 \<Rightarrow> Some (proposal_from_v2 v2, None)
        | None \<Rightarrow> (case lg_de_proposal_v1 L bytes of
            Some v1 \<Rightarrow> Some (proposal_from_v1 v1, Some (p1_voters v1))
          | None \<Rightarrow> None)))"

definition proposal_with_migration :: "'m gov_libs_scheme \<Rightarrow> bytes \<Rightarrow> proposal option" where
  "proposal_with_migration L bytes = map_option fst (proposal_detecting_legacy L bytes)"

definition effective_status :: "proposal \<Rightarrow> nat \<Rightarrow> nat \<Rightarrow> nat \<Rightarrow> proposal_status" where
  "effective_status p now_secs voting_period_secs proposal_expiry_secs =
     (if pr_status p \<in> {PsExecuted, PsArchived, PsQueued, PsVetoed} then pr_status p
      else let created_secs = as_u64 (pr_created_at p) in
        if sat_add u64_max created_secs proposal_expiry_secs \<le> now_secs then PsArchived
        else if now_secs < sat_add u64_max created_secs voting_period_secs then PsActive
        else if pr_votes_for p = 0 \<and> pr_votes_against p = 0 then PsExpired
        else if pr_votes_against p < pr_votes_for p then PsSucceeded
        else PsRejected)"

section \<open>The executor's records\<close>

definition GOV_DEPOSIT_ACTIVATION_HEIGHT :: nat where
  "GOV_DEPOSIT_ACTIVATION_HEIGHT = 10300"

definition proposal_key :: "'m libs_scheme \<Rightarrow> hash \<Rightarrow> address" where
  "proposal_key L pid = ''Proposal_'' @ lb_hex L pid"

definition proposal_vote_key :: "'m libs_scheme \<Rightarrow> hash \<Rightarrow> address \<Rightarrow> address" where
  "proposal_vote_key L pid voter = ''ProposalVote_'' @ lb_hex L pid @ ''_'' @ to_ascii_lowercase voter"

definition ACTIVE_PROPOSAL_COUNT_KEY :: address where
  "ACTIVE_PROPOSAL_COUNT_KEY = ''__ACTIVE_PROPOSAL_COUNT__''"

definition active_proposal_count :: "'s host \<Rightarrow> ('s, nat) action" where
  "active_proposal_count H =
     andthen (h_get H ACTIVE_PROPOSAL_COUNT_KEY) (\<lambda>found.
       give (case found of None \<Rightarrow> 0 | Some a \<Rightarrow> ac_balance a))"

definition increment_active_proposal_count :: "'s host \<Rightarrow> ('s, unit) action" where
  "increment_active_proposal_count H =
     andthen (h_get H ACTIVE_PROPOSAL_COUNT_KEY) (\<lambda>found.
       let acc = unwrap_or_default found
       in h_put H ACTIVE_PROPOSAL_COUNT_KEY (acc\<lparr>ac_balance := sat_add u128_max (ac_balance acc) 1\<rparr>))"

definition has_voted :: "'m libs_scheme \<Rightarrow> 's host \<Rightarrow> hash \<Rightarrow> address \<Rightarrow> ('s, bool) action" where
  "has_voted L H pid voter =
     andthen (h_get H (proposal_vote_key L pid voter)) (\<lambda>found. give (found \<noteq> None))"

definition mark_voted :: "'m libs_scheme \<Rightarrow> 's host \<Rightarrow> hash \<Rightarrow> address \<Rightarrow> ('s, unit) action" where
  "mark_voted L H pid voter = h_put H (proposal_vote_key L pid voter) default_account"

definition save_proposal :: "'m gov_libs_scheme \<Rightarrow> 's host \<Rightarrow> proposal \<Rightarrow> ('s, unit) action" where
  "save_proposal L H p =
     (case lg_ser_proposal L p of
        None \<Rightarrow> stop (Other ''Failed to serialize proposal'')
      | Some bytes \<Rightarrow> h_put H (proposal_key L (pr_proposal_id p)) (default_account\<lparr>ac_contract_code := bytes\<rparr>))"

definition load_proposal_from_state :: "'m gov_libs_scheme \<Rightarrow> 's host \<Rightarrow> hash \<Rightarrow> ('s, proposal option) action" where
  "load_proposal_from_state L H pid =
     andthen (h_get H (proposal_key L pid)) (\<lambda>found.
       case found of
         None \<Rightarrow> give None
       | Some acc \<Rightarrow>
           if ac_contract_code acc = [] then give None
           else (case proposal_with_migration L (ac_contract_code acc) of
               None \<Rightarrow> stop (Other ''Corrupt proposal record'')
             | Some p \<Rightarrow> give (Some p)))"

text \<open>A first-version record's votes are written again under the keys of their own.\<close>

definition load_proposal :: "'m gov_libs_scheme \<Rightarrow> 's host \<Rightarrow> hash \<Rightarrow> ('s, proposal option) action" where
  "load_proposal L H pid =
     andthen (h_get H (proposal_key L pid)) (\<lambda>found.
       case found of
         None \<Rightarrow> give None
       | Some acc \<Rightarrow>
           if ac_contract_code acc = [] then give None
           else (case proposal_detecting_legacy L (ac_contract_code acc) of
               None \<Rightarrow> stop (Other ''Corrupt proposal record'')
             | Some (p, legacy_voters) \<Rightarrow>
                 andthen (case legacy_voters of
                     None \<Rightarrow> give ()
                   | Some voters \<Rightarrow>
                       andthen (each (\<lambda>voter. h_put H (proposal_vote_key L pid voter) default_account) voters)
                         (\<lambda>_. save_proposal L H p)) (\<lambda>_.
                 give (Some p))))"

section \<open>Lists of proposals\<close>

definition GOV_ACTIVE_LIST_KEY :: address where
  "GOV_ACTIVE_LIST_KEY = ''__GOV_TYPED_ACTIVE__''"

definition GOV_PROPOSAL_INDEX_KEY :: address where
  "GOV_PROPOSAL_INDEX_KEY = ''__GOV_PROPOSAL_INDEX__''"

definition load_hash_list :: "'m executor_libs_scheme \<Rightarrow> 's host \<Rightarrow> address \<Rightarrow> string \<Rightarrow> ('s, hash list) action" where
  "load_hash_list L H key message =
     andthen (h_get H key) (\<lambda>found.
       lift (decode_list (lx_de_hashes L) message (case found of None \<Rightarrow> [] | Some acc \<Rightarrow> ac_contract_code acc)))"

definition store_hash_list ::
  "'m executor_libs_scheme \<Rightarrow> 's host \<Rightarrow> address \<Rightarrow> string \<Rightarrow> hash list \<Rightarrow> ('s, unit) action" where
  "store_hash_list L H key message pids =
     (case lx_ser_hashes L pids of
        None \<Rightarrow> stop (Other message)
      | Some bytes \<Rightarrow> h_put H key (default_account\<lparr>ac_contract_code := bytes\<rparr>))"

definition load_typed_active :: "'m executor_libs_scheme \<Rightarrow> 's host \<Rightarrow> ('s, hash list) action" where
  "load_typed_active L H = load_hash_list L H GOV_ACTIVE_LIST_KEY ''gov aktif liste decode''"

definition store_typed_active :: "'m executor_libs_scheme \<Rightarrow> 's host \<Rightarrow> hash list \<Rightarrow> ('s, unit) action" where
  "store_typed_active L H pids = store_hash_list L H GOV_ACTIVE_LIST_KEY ''gov aktif liste encode'' pids"

definition register_typed_active :: "'m executor_libs_scheme \<Rightarrow> 's host \<Rightarrow> hash \<Rightarrow> ('s, unit) action" where
  "register_typed_active L H pid =
     andthen (load_typed_active L H) (\<lambda>pids.
       if pid \<in> set pids then give () else store_typed_active L H (pids @ [pid]))"

definition remove_typed_active :: "'m executor_libs_scheme \<Rightarrow> 's host \<Rightarrow> hash \<Rightarrow> ('s, unit) action" where
  "remove_typed_active L H pid =
     andthen (load_typed_active L H) (\<lambda>pids. store_typed_active L H (filter (\<lambda>p. p \<noteq> pid) pids))"

definition load_index :: "'m executor_libs_scheme \<Rightarrow> 's host \<Rightarrow> ('s, hash list) action" where
  "load_index L H = load_hash_list L H GOV_PROPOSAL_INDEX_KEY ''gov dizin decode''"

definition register_index :: "'m executor_libs_scheme \<Rightarrow> 's host \<Rightarrow> hash \<Rightarrow> ('s, unit) action" where
  "register_index L H pid =
     andthen (load_index L H) (\<lambda>pids.
       if pid \<in> set pids then give ()
       else store_hash_list L H GOV_PROPOSAL_INDEX_KEY ''gov dizin encode'' (pids @ [pid]))"

section \<open>Votes\<close>

definition vote_key :: "'m libs_scheme \<Rightarrow> hash \<Rightarrow> address \<Rightarrow> address" where
  "vote_key L pid addr = ''GovVote_'' @ lb_hex L pid @ ''_'' @ to_ascii_lowercase addr"

definition voter_count_key :: "'m libs_scheme \<Rightarrow> hash \<Rightarrow> address" where
  "voter_count_key L pid = ''GovVoterCount_'' @ lb_hex L pid"

definition voter_index_key :: "'m libs_scheme \<Rightarrow> hash \<Rightarrow> nat \<Rightarrow> address" where
  "voter_index_key L pid n = ''GovVoter_'' @ lb_hex L pid @ ''_'' @ decimal n"

definition record_gov_vote ::
  "'m libs_scheme \<Rightarrow> 's host \<Rightarrow> hash \<Rightarrow> address \<Rightarrow> bool \<Rightarrow> nat \<Rightarrow> ('s, unit) action" where
  "record_gov_vote L H pid addr support weight =
     andthen (h_put H (vote_key L pid addr)
       (default_account\<lparr>ac_balance := weight, ac_nonce := (if support then 1 else 0)\<rparr>)) (\<lambda>_.
     andthen (h_get H (voter_count_key L pid)) (\<lambda>found.
       let c = unwrap_or_default found;
           n = ac_balance c
       in andthen (h_put H (voter_count_key L pid) (c\<lparr>ac_balance := sat_add u128_max n 1\<rparr>)) (\<lambda>_.
          h_put H (voter_index_key L pid n)
            (default_account\<lparr>ac_contract_code := str_bytes (to_ascii_lowercase addr)\<rparr>))))"

definition vote_of :: "'m libs_scheme \<Rightarrow> 's host \<Rightarrow> hash \<Rightarrow> address \<Rightarrow> ('s, (bool \<times> nat) option) action" where
  "vote_of L H pid addr =
     andthen (h_get H (vote_key L pid addr)) (\<lambda>found.
       give (map_option (\<lambda>a. (ac_nonce a = 1, ac_balance a)) found))"

fun voters_at :: "'m gov_libs_scheme \<Rightarrow> 's host \<Rightarrow> hash \<Rightarrow> nat list \<Rightarrow> ('s, address list) action" where
  "voters_at L H pid [] = give []"
| "voters_at L H pid (i # is) =
     andthen (h_get H (voter_index_key L pid i)) (\<lambda>found.
     andthen (voters_at L H pid is) (\<lambda>rest.
       give (case found of None \<Rightarrow> rest | Some acc \<Rightarrow> lg_utf8_lossy L (ac_contract_code acc) # rest)))"

definition gov_voters :: "'m gov_libs_scheme \<Rightarrow> 's host \<Rightarrow> hash \<Rightarrow> ('s, address list) action" where
  "gov_voters L H pid =
     andthen (h_get H (voter_count_key L pid)) (\<lambda>found.
       voters_at L H pid [0..<(case found of None \<Rightarrow> 0 | Some a \<Rightarrow> ac_balance a)])"

section \<open>Deposits\<close>

definition GOV_DEPOSIT_ESCROW_KEY :: address where
  "GOV_DEPOSIT_ESCROW_KEY = ''__GOV_DEPOSIT_ESCROW__''"

definition deposit_key :: "'m libs_scheme \<Rightarrow> hash \<Rightarrow> address" where
  "deposit_key L pid = ''GovDeposit_'' @ lb_hex L pid"

definition escrow_deposit :: "'m libs_scheme \<Rightarrow> 's host \<Rightarrow> hash \<Rightarrow> nat \<Rightarrow> ('s, unit) action" where
  "escrow_deposit L H pid amount =
     (if amount = 0 then give ()
      else andthen (h_get H (deposit_key L pid)) (\<lambda>found.
        let d = unwrap_or_default found
        in andthen (h_put H (deposit_key L pid) (d\<lparr>ac_balance := sat_add u128_max (ac_balance d) amount\<rparr>)) (\<lambda>_.
           state_add_balance (h_get H) (h_put H) GOV_DEPOSIT_ESCROW_KEY amount)))"

definition deposit_of :: "'m libs_scheme \<Rightarrow> 's host \<Rightarrow> hash \<Rightarrow> ('s, nat) action" where
  "deposit_of L H pid =
     andthen (h_get H (deposit_key L pid)) (\<lambda>found.
       give (case found of None \<Rightarrow> 0 | Some a \<Rightarrow> ac_balance a))"

definition total_staked_of :: "'s host \<Rightarrow> ('s, nat) action" where
  "total_staked_of H =
     andthen (h_get H GLOBAL_TOTAL_STAKED) (\<lambda>found.
       give (case found of None \<Rightarrow> 0 | Some a \<Rightarrow> ac_balance a))"

definition forfeit_to_hevsel :: "'s host \<Rightarrow> nat \<Rightarrow> ('s, unit) action" where
  "forfeit_to_hevsel H amount =
     (if amount = 0 then give ()
      else andthen (total_staked_of H) (\<lambda>total_staked.
        andthen (state_add_balance (h_get H) (h_put H) VALIDATOR_REWARD_POOL amount) (\<lambda>_.
          if 0 < total_staked
          then andthen (get_accumulated_reward_per_share (h_get H)) (\<lambda>acc.
            set_accumulated_reward_per_share (h_get H) (h_put H)
              (sat_add u128_max acc (sat_mul u128_max amount 1000000000000 div total_staked)))
          else give ())))"

definition settle_deposit :: "'m libs_scheme \<Rightarrow> 's host \<Rightarrow> proposal \<Rightarrow> bool \<Rightarrow> ('s, nat) action" where
  "settle_deposit L H p refund =
     andthen (deposit_of L H (pr_proposal_id p)) (\<lambda>amount.
       if amount = 0 then give 0
       else andthen (h_get H (deposit_key L (pr_proposal_id p))) (\<lambda>found.
         andthen (h_put H (deposit_key L (pr_proposal_id p)) ((unwrap_or_default found)\<lparr>ac_balance := 0\<rparr>)) (\<lambda>_.
         andthen (h_get H GOV_DEPOSIT_ESCROW_KEY) (\<lambda>found.
           let e = unwrap_or_default found
           in andthen (h_put H GOV_DEPOSIT_ESCROW_KEY (e\<lparr>ac_balance := sat_sub (ac_balance e) amount\<rparr>)) (\<lambda>_.
              andthen (if refund then state_add_balance (h_get H) (h_put H) (pr_proposer p) amount
                       else forfeit_to_hevsel H amount) (\<lambda>_. give amount))))))"

section \<open>Tallies\<close>

fun validator_tally_loop ::
  "'m libs_scheme \<Rightarrow> 's host \<Rightarrow> hash \<Rightarrow> nat \<times> nat \<Rightarrow> validator_member list \<Rightarrow> ('s, nat \<times> nat) action" where
  "validator_tally_loop L H pid (yes, voted) [] = give (yes, voted)"
| "validator_tally_loop L H pid (yes, voted) (m # ms) =
     andthen (vote_of L H pid (m_address m)) (\<lambda>v.
       validator_tally_loop L H pid
         (case v of None \<Rightarrow> (yes, voted)
          | Some (support, _) \<Rightarrow> (if support then yes + 1 else yes, voted + 1)) ms)"

definition validator_tally ::
  "'m libs_scheme \<Rightarrow> 's host \<Rightarrow> hash \<Rightarrow> active_validator_set \<Rightarrow> ('s, nat \<times> nat \<times> nat) action" where
  "validator_tally L H pid vset =
     andthen (validator_tally_loop L H pid (0, 0) (vs_members vset)) (\<lambda>(yes, voted).
       give (yes, voted, length (vs_members vset)))"

fun staker_tally_loop ::
  "'m libs_scheme \<Rightarrow> 's host \<Rightarrow> hash \<Rightarrow> nat \<Rightarrow> nat \<times> nat \<Rightarrow> address list \<Rightarrow> ('s, nat \<times> nat) action" where
  "staker_tally_loop L H pid cap (yes_w, no_w) [] = give (yes_w, no_w)"
| "staker_tally_loop L H pid cap (yes_w, no_w) (addr # addrs) =
     andthen (vote_of L H pid addr) (\<lambda>v.
       case v of
         None \<Rightarrow> staker_tally_loop L H pid cap (yes_w, no_w) addrs
       | Some (support, w) \<Rightarrow>
           andthen (h_get H addr) (\<lambda>found.
             let live_staked = (case found of None \<Rightarrow> 0 | Some a \<Rightarrow> ac_staked_balance a);
                 w = min (min w live_staked) cap
             in staker_tally_loop L H pid cap
                  (if support then (sat_add u128_max yes_w w, no_w) else (yes_w, sat_add u128_max no_w w)) addrs))"

definition staker_tally ::
  "'m gov_libs_scheme \<Rightarrow> 's host \<Rightarrow> hash \<Rightarrow> nat \<Rightarrow> nat \<Rightarrow> ('s, bool \<times> bool \<times> nat \<times> nat \<times> nat) action" where
  "staker_tally L H pid vote_cap_bps staker_quorum_bps =
     andthen (total_staked_of H) (\<lambda>total_staked.
       if total_staked = 0 then give (False, False, 0, 0, 0)
       else let cap = sat_mul u128_max total_staked vote_cap_bps div 10000
         in andthen (gov_voters L H pid) (\<lambda>addrs.
            andthen (staker_tally_loop L H pid cap (0, 0) addrs) (\<lambda>(yes_w, no_w).
              let participation = sat_add u128_max yes_w no_w;
                  quorum_ok = (sat_mul u128_max total_staked staker_quorum_bps
                    \<le> sat_mul u128_max participation 10000)
              in give (quorum_ok \<and> no_w < yes_w, quorum_ok, participation, yes_w, no_w))))"

definition staker_tally_view ::
  "'m gov_libs_scheme \<Rightarrow> 's host \<Rightarrow> hash \<Rightarrow> nat \<Rightarrow> nat \<Rightarrow>
     ('s, bool \<times> bool \<times> nat \<times> nat \<times> nat \<times> nat) action" where
  "staker_tally_view L H pid vote_cap_bps staker_quorum_bps =
     andthen (total_staked_of H) (\<lambda>total_staked.
     andthen (staker_tally L H pid vote_cap_bps staker_quorum_bps) (\<lambda>(a, q, p, y, n).
       give (a, q, p, y, n, total_staked)))"

fun validator_votes_view ::
  "'m libs_scheme \<Rightarrow> 's host \<Rightarrow> hash \<Rightarrow> validator_member list \<Rightarrow> ('s, (address \<times> bool option) list) action" where
  "validator_votes_view L H pid [] = give []"
| "validator_votes_view L H pid (m # ms) =
     andthen (vote_of L H pid (m_address m)) (\<lambda>v.
     andthen (validator_votes_view L H pid ms) (\<lambda>rest.
       give ((m_address m, map_option fst v) # rest)))"

section \<open>Proposals at the end of an epoch\<close>

definition load_proposal_state :: "'m gov_libs_scheme \<Rightarrow> 's host \<Rightarrow> hash \<Rightarrow> ('s, proposal option) action" where
  "load_proposal_state L H pid =
     andthen (h_get H (proposal_key L pid)) (\<lambda>found.
       case found of
         None \<Rightarrow> give None
       | Some acc \<Rightarrow>
           if ac_contract_code acc = [] then give None
           else (case proposal_detecting_legacy L (ac_contract_code acc) of
               None \<Rightarrow> stop (Other ''gov oneri decode'')
             | Some (p, _) \<Rightarrow> give (Some p)))"

definition save_proposal_state :: "'m gov_libs_scheme \<Rightarrow> 's host \<Rightarrow> proposal \<Rightarrow> ('s, unit) action" where
  "save_proposal_state L H p =
     (case lg_ser_proposal L p of
        None \<Rightarrow> stop (Other ''gov oneri encode'')
      | Some bytes \<Rightarrow>
          andthen (h_get H (proposal_key L (pr_proposal_id p))) (\<lambda>found.
            h_put H (proposal_key L (pr_proposal_id p)) ((unwrap_or_default found)\<lparr>ac_contract_code := bytes\<rparr>)))"

definition decrement_active_count :: "'s host \<Rightarrow> ('s, unit) action" where
  "decrement_active_count H =
     andthen (h_get H ACTIVE_PROPOSAL_COUNT_KEY) (\<lambda>found.
       let acc = unwrap_or_default found
       in h_put H ACTIVE_PROPOSAL_COUNT_KEY (acc\<lparr>ac_balance := sat_sub (ac_balance acc) 1\<rparr>))"

definition terminalize :: "'m gov_libs_scheme \<Rightarrow> 's host \<Rightarrow> proposal \<Rightarrow> proposal_status \<Rightarrow> ('s, unit) action" where
  "terminalize L H p status =
     andthen (save_proposal_state L H (p\<lparr>pr_status := status\<rparr>)) (\<lambda>_.
     andthen (remove_typed_active L H (pr_proposal_id p)) (\<lambda>_.
       decrement_active_count H))"

definition gov_execute :: "'m gov_libs_scheme \<Rightarrow> 's host \<Rightarrow> nat \<Rightarrow> proposal \<Rightarrow> ('s, unit) action" where
  "gov_execute L H current_epoch p =
     (case pr_action p of
        Text \<Rightarrow> stop (Other ''Text oneri yurutulemez'')
      | ParamChange updates \<Rightarrow>
          andthen (load_chain_params L H) (\<lambda>base.
          andthen (load_qc_grace_ms H) (\<lambda>grace.
          andthen (lift (apply_param_updates_with_grace base grace updates)) (\<lambda>(next_params, next_grace).
          andthen (store_chain_params L H next_params) (\<lambda>_.
            if next_grace \<noteq> grace then store_qc_grace_ms H next_grace else give ()))))
      | ScheduleUpgrade target_ruleset binary_sha256 activation_epoch \<Rightarrow>
          if activation_epoch \<le> current_epoch then stop (Other ''activation_epoch gecmiste'')
          else store_scheduled_upgrade L H \<lparr>su_target_ruleset = target_ruleset,
            su_binary_sha256 = binary_sha256, su_activation_epoch = activation_epoch\<rparr>
      | ShortenAdminAuthority end_timestamp \<Rightarrow> shorten_admin_authority H end_timestamp
      | ActApproveValidator target \<Rightarrow> apply_admin_approve L H target current_epoch
      | ActRemoveValidator target \<Rightarrow>
          andthen (genesis_timestamp H) (\<lambda>genesis_ts.
          andthen (load_chain_params L H) (\<lambda>params.
            apply_admin_remove L H target
              (sat_add u128_max genesis_ts (sat_mul u128_max current_epoch (p_epoch_seconds params)))
              current_epoch)))"

definition validators_accept :: "proposal_action \<Rightarrow> nat \<Rightarrow> nat \<Rightarrow> bool" where
  "validators_accept act yes n =
     (case act of ScheduleUpgrade _ _ _ \<Rightarrow> 4 * n \<le> 5 * yes | _ \<Rightarrow> 2 * n \<le> 3 * yes)"

definition validator_quorum :: "nat \<Rightarrow> nat \<Rightarrow> nat \<Rightarrow> bool" where
  "validator_quorum voted n staker_quorum_bps \<longleftrightarrow>
     0 < n \<and> sat_mul u128_max n staker_quorum_bps \<le> sat_mul u128_max voted 10000"

definition count_text_proposal :: "'m gov_libs_scheme \<Rightarrow> 's host \<Rightarrow> chain_params \<Rightarrow> proposal \<Rightarrow> hash \<Rightarrow> ('s, unit) action" where
  "count_text_proposal L H params p pid =
     andthen (staker_tally L H pid (p_vote_cap_bps params) (p_staker_quorum_bps params)) (\<lambda>(_, quorum_ok, _).
     andthen (settle_deposit L H p quorum_ok) (\<lambda>_.
       remove_typed_active L H pid))"

definition count_typed_proposal ::
  "'m gov_libs_scheme \<Rightarrow> 's host \<Rightarrow> chain_params \<Rightarrow> nat \<Rightarrow> proposal \<Rightarrow> hash \<Rightarrow> nat \<times> nat \<times> nat \<Rightarrow> ('s, unit) action" where
  "count_typed_proposal L H params current_epoch p pid tally =
     (case tally of (yes, voted, n) \<Rightarrow>
      andthen (lift (pa_channel (pr_action p))) (\<lambda>channel.
        case channel of
          None \<Rightarrow> stop (Other ''tipli listede Text oneri (tutarsizlik)'')
        | Some channel \<Rightarrow>
            let validators_ok = validators_accept (pr_action p) yes n
            in andthen (case channel of
                 Consensus \<Rightarrow> give (validators_ok, validator_quorum voted n (p_staker_quorum_bps params))
               | Economic \<Rightarrow>
                   andthen (staker_tally L H pid (p_vote_cap_bps params) (p_staker_quorum_bps params))
                     (\<lambda>(stakers_ok, quorum_ok, _). give (validators_ok \<and> stakers_ok, quorum_ok)))
               (\<lambda>(accepted, quorum_reached).
                 if accepted
                 then let p = p\<lparr>pr_status := PsQueued,
                          pr_executes_at_epoch := sat_add u64_max current_epoch (p_timelock_epochs params)\<rparr>
                      in andthen (save_proposal_state L H p) (\<lambda>_.
                         andthen (settle_deposit L H p True) (\<lambda>_. give ()))
                 else andthen (settle_deposit L H p quorum_reached) (\<lambda>_.
                        terminalize L H p PsRejected))))"

definition process_proposal ::
  "'m gov_libs_scheme \<Rightarrow> 's host \<Rightarrow> chain_params \<Rightarrow> nat \<Rightarrow> active_validator_set \<Rightarrow> hash \<Rightarrow> ('s, unit) action" where
  "process_proposal L H params current_epoch vset pid =
     andthen (load_proposal_state L H pid) (\<lambda>loaded.
       case loaded of
         None \<Rightarrow> remove_typed_active L H pid
       | Some p \<Rightarrow>
           if pr_status p = PsActive \<and> pr_voting_ends_at_epoch p \<le> current_epoch
           then andthen (validator_tally L H pid vset) (\<lambda>tally.
                  if pr_action p = Text then count_text_proposal L H params p pid
                  else count_typed_proposal L H params current_epoch p pid tally)
           else if pr_status p = PsQueued \<and> pr_executes_at_epoch p \<le> current_epoch
           then andthen (attempt (gov_execute L H current_epoch p)) (\<lambda>outcome.
                  terminalize L H p (if outcome = None then PsRejected else PsExecuted))
           else if pr_status p \<in> {PsVetoed, PsRejected, PsExecuted} then remove_typed_active L H pid
           else give ())"

definition process_at_epoch ::
  "'m gov_libs_scheme \<Rightarrow> 's host \<Rightarrow> nat \<Rightarrow> active_validator_set \<Rightarrow> ('s, unit) action" where
  "process_at_epoch L H current_epoch vset =
     andthen (load_typed_active L H) (\<lambda>pids.
       if pids = [] then give ()
       else andthen (load_chain_params L H) (\<lambda>params.
         each (process_proposal L H params current_epoch vset) pids))"

section \<open>Veto\<close>

definition strip_0x :: "string \<Rightarrow> string" where
  "strip_0x s = (if starts_with s ''0x'' then drop 2 s else s)"

definition apply_veto :: "'m gov_libs_scheme \<Rightarrow> 's host \<Rightarrow> string \<Rightarrow> ('s, unit) action" where
  "apply_veto L H target =
     (case lb_unhex L (strip_0x target) of
        None \<Rightarrow> stop (Other ''veto hedefi hex degil'')
      | Some pid \<Rightarrow>
          if length pid \<noteq> 32 then stop (Other ''veto hedefi 32 bayt olmali'')
          else andthen (load_proposal_state L H pid) (\<lambda>loaded.
            case loaded of
              None \<Rightarrow> stop (Other ''veto: oneri yok'')
            | Some p \<Rightarrow>
                andthen (lift (pa_channel (pr_action p))) (\<lambda>channel.
                  case channel of
                    None \<Rightarrow> stop (Other ''veto: Text oneriye veto yok (legacy)'')
                  | Some channel \<Rightarrow>
                      if channel \<noteq> Consensus then stop (Other ''veto yalniz consensus kanalinda'')
                      else if pr_status p \<noteq> PsActive \<and> pr_status p \<noteq> PsQueued
                        then stop (Other ''veto: durum uygun degil'')
                      else andthen (settle_deposit L H p False) (\<lambda>_. terminalize L H p PsVetoed))))"

end
