(* ===== verification/Bridge.thy ===== *)
theory Bridge
  imports Governance
begin

text \<open>
  The bridge's part of the state (\<open>crates/zagros-executor/src/bridge.rs\<close>): the set of authorities
  written at genesis, the signatures a proposal carries, the sources already paid out, the stored
  proposals and the daily limit. The live \<open>BridgeManager\<close> is in \<open>BridgeManager\<close>.

  The functions here take no manager: they read the state and the proposal alone, which is what
  makes every node decide the same.
\<close>

section \<open>Data\<close>

record bridge_authority =
  ba_address :: address
  ba_public_key :: pubkey
  ba_is_active :: bool

record on_chain_bridge_authority_set =
  oa_authorities :: "bridge_authority list"
  oa_required_signatures :: nat

record bridge_proposal_v0 =
  b0_proposal_id :: hash
  b0_tx_type :: bridge_tx_type
  b0_amount :: nat
  b0_recipient :: address
  b0_source_chain :: string
  b0_source_tx_hash :: string
  b0_timestamp :: nat
  b0_signatures :: "bridge_signature list"
  b0_executed :: bool
  b0_nonce :: nat

definition bridge_proposal_from_v0 :: "bridge_proposal_v0 \<Rightarrow> bridge_proposal" where
  "bridge_proposal_from_v0 old = \<lparr>bp_proposal_id = b0_proposal_id old, bp_tx_type = b0_tx_type old,
     bp_amount = b0_amount old, bp_recipient = b0_recipient old, bp_source_chain = b0_source_chain old,
     bp_source_tx_hash = b0_source_tx_hash old, bp_timestamp = b0_timestamp old,
     bp_signatures = b0_signatures old, bp_executed = b0_executed old, bp_nonce = b0_nonce old,
     bp_auto_swap = False, bp_amount_out_min = 0, bp_claim_vouchers = []\<rparr>"

text \<open>A list of daily mints is the tracker's \<open>entries\<close>; its older shape is a day and an amount.\<close>

record bridge_libs = gov_libs +
  lr_ser_proposal :: "bridge_proposal \<Rightarrow> bytes option"
  lr_de_proposal :: "bytes \<Rightarrow> bridge_proposal option"
  lr_de_proposal_v0 :: "bytes \<Rightarrow> bridge_proposal_v0 option"
  lr_ser_authorities :: "on_chain_bridge_authority_set \<Rightarrow> bytes option"
  lr_de_authorities :: "bytes \<Rightarrow> on_chain_bridge_authority_set option"
  lr_ser_mints :: "(nat \<times> nat) list \<Rightarrow> bytes option"
  lr_de_mints :: "bytes \<Rightarrow> (nat \<times> nat) list option"
  lr_de_mints_v0 :: "bytes \<Rightarrow> (nat \<times> nat) option"

definition bridge_proposal_with_migration :: "'m bridge_libs_scheme \<Rightarrow> bytes \<Rightarrow> bridge_proposal option" where
  "bridge_proposal_with_migration L bytes =
     (case lr_de_proposal L bytes of
        Some p \<Rightarrow> Some p
      | None \<Rightarrow> map_option bridge_proposal_from_v0 (lr_de_proposal_v0 L bytes))"

section \<open>State access\<close>

definition bridge_state_err :: "zerror \<Rightarrow> zerror" where
  "bridge_state_err e = Other ''Bridge state I/O error''"

definition bridge_get :: "'s host \<Rightarrow> address \<Rightarrow> ('s, account option) action" where
  "bridge_get H k = rename_error bridge_state_err (h_get H k)"

definition bridge_put :: "'s host \<Rightarrow> address \<Rightarrow> account \<Rightarrow> ('s, unit) action" where
  "bridge_put H k acc = rename_error bridge_state_err (h_put H k acc)"

text \<open>The code of a stored record; an account that is missing or has none is no record.\<close>

definition stored_code :: "account option \<Rightarrow> bytes option" where
  "stored_code found = (case found of None \<Rightarrow> None
     | Some acc \<Rightarrow> if ac_contract_code acc = [] then None else Some (ac_contract_code acc))"

definition BRIDGE_AUTHORITY_SET_KEY :: address where
  "BRIDGE_AUTHORITY_SET_KEY = ''__BRIDGE_AUTHORITY_SET__''"

definition source_key :: "string \<Rightarrow> string \<Rightarrow> string" where
  "source_key source_chain source_tx_hash =
     to_ascii_lowercase source_chain @ ''|'' @ to_ascii_lowercase source_tx_hash"

definition processed_source_key :: "string \<Rightarrow> string \<Rightarrow> address" where
  "processed_source_key source_chain source_tx_hash =
     ''BridgeProcessedSource_'' @ source_key source_chain source_tx_hash"

definition pending_index_key :: address where
  "pending_index_key = ''__BRIDGE_PENDING_PROPOSALS__''"

definition bridge_proposal_key :: "'m libs_scheme \<Rightarrow> hash \<Rightarrow> address" where
  "bridge_proposal_key L proposal_id = ''Bridge_'' @ lb_hex L proposal_id"

definition proposal_archive_key :: "'m libs_scheme \<Rightarrow> hash \<Rightarrow> address" where
  "proposal_archive_key L proposal_id = ''BridgeArchive_'' @ lb_hex L proposal_id"

definition daily_mint_tracker_key :: address where
  "daily_mint_tracker_key = ''BridgeDailyMintTracker''"

section \<open>The set of authorities\<close>

definition active_authorities :: "on_chain_bridge_authority_set \<Rightarrow> bridge_authority list" where
  "active_authorities s = filter ba_is_active (oa_authorities s)"

fun check_distinct_authorities ::
  "address list \<Rightarrow> pubkey list \<Rightarrow> bridge_authority list \<Rightarrow> unit result" where
  "check_distinct_authorities seen_addr seen_key [] = Inr ()"
| "check_distinct_authorities seen_addr seen_key (a # as) =
     (if to_ascii_lowercase (ba_address a) \<in> set seen_addr
        then Inl (ConfigError ''kopru yetkili adresi yinelenmis'')
      else if ba_public_key a \<in> set seen_key
        then Inl (ConfigError ''iki kopru yetkilisi AYNI acik anahtari kullaniyor'')
      else check_distinct_authorities (to_ascii_lowercase (ba_address a) # seen_addr)
             (ba_public_key a # seen_key) as)"

definition bridge_set_validate :: "on_chain_bridge_authority_set \<Rightarrow> unit result" where
  "bridge_set_validate s =
     (if oa_authorities s = [] then Inl (ConfigError ''kopru yetkili kumesi bos olamaz'')
      else if oa_required_signatures s = 0 then Inl (ConfigError ''kopru required_signatures 0 olamaz'')
      else if length (active_authorities s) < oa_required_signatures s
        then Inl (ConfigError ''kopru esigi aktif yetkili sayisindan buyuk olamaz'')
      else check_distinct_authorities [] [] (oa_authorities s))"

definition load_bridge_authority_set ::
  "'m bridge_libs_scheme \<Rightarrow> 's host \<Rightarrow> ('s, on_chain_bridge_authority_set) action" where
  "load_bridge_authority_set L H =
     andthen (bridge_get H BRIDGE_AUTHORITY_SET_KEY) (\<lambda>found.
       case stored_code found of
         None \<Rightarrow> stop (ConfigError ''kopru yetkili kumesi state'')
       | Some code \<Rightarrow>
           (case lr_de_authorities L code of
              None \<Rightarrow> stop (ConfigError ''kopru yetkili kumesi bozuk'')
            | Some s \<Rightarrow> andthen (lift (bridge_set_validate s)) (\<lambda>_. give s)))"

definition store_bridge_authority_set ::
  "'m bridge_libs_scheme \<Rightarrow> 's host \<Rightarrow> on_chain_bridge_authority_set \<Rightarrow> ('s, unit) action" where
  "store_bridge_authority_set L H s =
     andthen (lift (bridge_set_validate s)) (\<lambda>_.
       case lr_ser_authorities L s of
         None \<Rightarrow> stop (Other ''kopru yetkili kumesi serialize hatasi'')
       | Some bytes \<Rightarrow> bridge_put H BRIDGE_AUTHORITY_SET_KEY (default_account\<lparr>ac_contract_code := bytes\<rparr>))"

section \<open>Signatures\<close>

definition bridge_type_name :: "bridge_tx_type \<Rightarrow> string" where
  "bridge_type_name t = (case t of Mint \<Rightarrow> ''Mint'' | Burn \<Rightarrow> ''Burn'')"

definition flag_byte :: "bool \<Rightarrow> byte" where
  "flag_byte b = (if b then 1 else 0)"

text \<open>The bytes the source feeds to the hasher, in its order, with nothing between the fields.\<close>

definition signing_fields :: "bridge_proposal \<Rightarrow> nat \<Rightarrow> bytes" where
  "signing_fields p chain_id =
     bp_proposal_id p @ str_bytes (bridge_type_name (bp_tx_type p)) @ le_bytes 16 (bp_amount p) @
     str_bytes (bp_recipient p) @ str_bytes (bp_source_chain p) @ str_bytes (bp_source_tx_hash p) @
     le_bytes 8 (bp_timestamp p) @ le_bytes 8 (bp_nonce p) @ le_bytes 16 (bp_amount_out_min p) @
     [flag_byte (bp_auto_swap p)] @ le_bytes 8 chain_id"

definition create_signing_message :: "crypto_env \<Rightarrow> bridge_proposal \<Rightarrow> nat \<Rightarrow> bytes" where
  "create_signing_message E p chain_id = keccak E (signing_fields p chain_id)"

definition bind_timestamp_to_message :: "crypto_env \<Rightarrow> bytes \<Rightarrow> nat \<Rightarrow> bytes" where
  "bind_timestamp_to_message E base_message sig_timestamp =
     keccak E (base_message @ str_bytes ''SIG_TS:'' @ le_bytes 8 sig_timestamp)"

definition verify_ed25519 :: "crypto_env \<Rightarrow> bytes \<Rightarrow> bytes \<Rightarrow> pubkey \<Rightarrow> bool" where
  "verify_ed25519 E message signature public_key \<longleftrightarrow>
     length signature = 64 \<and> ed_key_ok E public_key \<and> ed_check E public_key message signature"

text \<open>
  The loop both counts share: go over the signatures, skip a signer already counted, count one whose
  signature is valid. The result is the list of those counted.
\<close>

fun collect_signers ::
  "(bridge_signature \<Rightarrow> string) \<Rightarrow> (bridge_signature \<Rightarrow> bool) \<Rightarrow> string list \<Rightarrow> bridge_signature list \<Rightarrow>
     string list" where
  "collect_signers name valid counted [] = counted"
| "collect_signers name valid counted (sig # sigs) =
     (if name sig \<notin> set counted \<and> valid sig
      then collect_signers name valid (name sig # counted) sigs
      else collect_signers name valid counted sigs)"

definition onchain_signature_ok ::
  "crypto_env \<Rightarrow> on_chain_bridge_authority_set \<Rightarrow> bytes \<Rightarrow> bridge_signature \<Rightarrow> bool" where
  "onchain_signature_ok E s base_message sig =
     (case List.find (\<lambda>a. to_ascii_lowercase (ba_address a) = to_ascii_lowercase (bs_authority sig))
             (oa_authorities s) of
        None \<Rightarrow> False
      | Some auth \<Rightarrow>
          ba_is_active auth \<and> length (bs_public_key sig) = 32 \<and> bs_public_key sig = ba_public_key auth \<and>
          verify_ed25519 E (bind_timestamp_to_message E base_message (bs_timestamp sig))
            (bs_signature sig) (ba_public_key auth))"

definition count_valid_signatures_onchain ::
  "crypto_env \<Rightarrow> on_chain_bridge_authority_set \<Rightarrow> bridge_proposal \<Rightarrow> nat \<Rightarrow> nat" where
  "count_valid_signatures_onchain E s p chain_id =
     (let base_message = create_signing_message E p chain_id
      in length (collect_signers (\<lambda>sig. to_ascii_lowercase (bs_authority sig))
           (onchain_signature_ok E s base_message) [] (bp_signatures p)))"

section \<open>When a proposal may run\<close>

text \<open>The sum of the timestamp and the lock is plain \<open>u64\<close> arithmetic: it panics on overflow.\<close>

definition proposal_is_executable :: "bridge_proposal \<Rightarrow> nat \<Rightarrow> nat \<Rightarrow> nat \<Rightarrow> bool result" where
  "proposal_is_executable p required_signatures timelock_secs current_time =
     (if bp_executed p then Inr False
      else if length (bp_signatures p) < required_signatures then Inr False
      else let current_time_secs = as_u64 (current_time div 1000)
        in if u64_max < bp_timestamp p + timelock_secs then Inl RustPanic
           else Inr (bp_timestamp p + timelock_secs \<le> current_time_secs))"

section \<open>Sources already paid out\<close>

definition mark_source_processed_in_state :: "'s host \<Rightarrow> string \<Rightarrow> string \<Rightarrow> ('s, unit) action" where
  "mark_source_processed_in_state H source_chain source_tx_hash =
     bridge_put H (processed_source_key source_chain source_tx_hash) default_account"

definition is_source_processed_in_state :: "'s host \<Rightarrow> string \<Rightarrow> string \<Rightarrow> ('s, bool) action" where
  "is_source_processed_in_state H source_chain source_tx_hash =
     andthen (bridge_get H (processed_source_key source_chain source_tx_hash)) (\<lambda>found.
       give (found \<noteq> None))"

section \<open>Stored proposals\<close>

definition load_stored_proposal ::
  "'m bridge_libs_scheme \<Rightarrow> 's host \<Rightarrow> address \<Rightarrow> string \<Rightarrow> ('s, bridge_proposal option) action" where
  "load_stored_proposal L H key message =
     andthen (bridge_get H key) (\<lambda>found.
       case stored_code found of
         None \<Rightarrow> give None
       | Some code \<Rightarrow>
           (case bridge_proposal_with_migration L code of
              None \<Rightarrow> stop (Other message)
            | Some p \<Rightarrow> give (Some p)))"

definition load_proposal_from_bridge ::
  "'m bridge_libs_scheme \<Rightarrow> 's host \<Rightarrow> hash \<Rightarrow> ('s, bridge_proposal option) action" where
  "load_proposal_from_bridge L H pid = load_stored_proposal L H (bridge_proposal_key L pid) ''Corrupt bridge proposal''"

definition load_archived_proposal_from_state ::
  "'m bridge_libs_scheme \<Rightarrow> 's host \<Rightarrow> hash \<Rightarrow> ('s, bridge_proposal option) action" where
  "load_archived_proposal_from_state L H pid =
     load_stored_proposal L H (proposal_archive_key L pid) ''Corrupt archived bridge proposal''"

text \<open>The active record, or else the archived one; an error is as good as nothing.\<close>

definition find_proposal :: "'m bridge_libs_scheme \<Rightarrow> 's host \<Rightarrow> hash \<Rightarrow> ('s, bridge_proposal option) action" where
  "find_proposal L H pid =
     andthen (attempt (load_proposal_from_bridge L H pid)) (\<lambda>found.
       case found of
         Some (Some p) \<Rightarrow> give (Some p)
       | _ \<Rightarrow> andthen (attempt (load_archived_proposal_from_state L H pid)) (\<lambda>found.
           give (case found of Some (Some p) \<Rightarrow> Some p | _ \<Rightarrow> None)))"

definition is_bridge_mint_kind :: "tx_type \<Rightarrow> bool" where
  "is_bridge_mint_kind k \<longleftrightarrow> k = BridgeMint \<or> k = BridgeMintAndSwap"

fun collect_proposals_for_relay ::
  "'m bridge_libs_scheme \<Rightarrow> 's host \<Rightarrow> transaction list \<Rightarrow> ('s, bridge_proposal list) action" where
  "collect_proposals_for_relay L H [] = give []"
| "collect_proposals_for_relay L H (tx # txs) =
     (if \<not> is_bridge_mint_kind (tx_kind tx) then collect_proposals_for_relay L H txs
      else andthen (find_proposal L H (tx_id tx)) (\<lambda>found.
           andthen (collect_proposals_for_relay L H txs) (\<lambda>rest.
             give (case found of None \<Rightarrow> rest | Some p \<Rightarrow> p # rest))))"

definition can_supply_proposal_for ::
  "'m bridge_libs_scheme \<Rightarrow> 's host \<Rightarrow> transaction \<Rightarrow> ('s, bool) action" where
  "can_supply_proposal_for L H tx =
     (if \<not> is_bridge_mint_kind (tx_kind tx) then give True
      else andthen (attempt (load_bridge_authority_set L H)) (\<lambda>loaded.
        case loaded of
          None \<Rightarrow> give False
        | Some s \<Rightarrow>
            andthen (find_proposal L H (tx_id tx)) (\<lambda>found.
              give (case found of
                  None \<Rightarrow> False
                | Some p \<Rightarrow>
                    oa_required_signatures s \<le> count_valid_signatures_onchain (lb_crypto L) s p CHAIN_ID))))"

definition ingest_one ::
  "'m bridge_libs_scheme \<Rightarrow> 's host \<Rightarrow> on_chain_bridge_authority_set \<Rightarrow> bridge_proposal \<Rightarrow> ('s, unit) action" where
  "ingest_one L H s p =
     (if count_valid_signatures_onchain (lb_crypto L) s p CHAIN_ID < oa_required_signatures s then give ()
      else case lr_ser_proposal L (p\<lparr>bp_executed := False\<rparr>) of
          None \<Rightarrow> stop (Other ''Bridge proposal (P2P relay) serialize'')
        | Some bytes \<Rightarrow>
            bridge_put H (bridge_proposal_key L (bp_proposal_id p)) (default_account\<lparr>ac_contract_code := bytes\<rparr>))"

definition ingest_relayed_proposals ::
  "'m bridge_libs_scheme \<Rightarrow> 's host \<Rightarrow> bridge_proposal list \<Rightarrow> ('s, unit) action" where
  "ingest_relayed_proposals L H proposals =
     andthen (attempt (load_bridge_authority_set L H)) (\<lambda>loaded.
       case loaded of None \<Rightarrow> give () | Some s \<Rightarrow> each (ingest_one L H s) proposals)"

definition encode_proposal_payload :: "'m bridge_libs_scheme \<Rightarrow> bridge_proposal \<Rightarrow> bytes result" where
  "encode_proposal_payload L p =
     (case lr_ser_proposal L p of
        None \<Rightarrow> Inl (Other ''Kopru onerisi payload serialize hatasi'') | Some bytes \<Rightarrow> Inr bytes)"

definition decode_proposal_payload :: "'m bridge_libs_scheme \<Rightarrow> bytes \<Rightarrow> bridge_proposal result" where
  "decode_proposal_payload L payload =
     (if payload = [] then Inl (BridgeError ''Kopru mint islemi oneriyi payload'')
      else case bridge_proposal_with_migration L payload of
          None \<Rightarrow> Inl (BridgeError ''Kopru onerisi payload'')
        | Some p \<Rightarrow> Inr p)"

text \<open>The id is taken out of the pending index; the index is written only when it held the id.\<close>

definition drop_from_pending :: "'m bridge_libs_scheme \<Rightarrow> 's host \<Rightarrow> hash \<Rightarrow> ('s, unit) action" where
  "drop_from_pending L H pid =
     andthen (bridge_get H pending_index_key) (\<lambda>found.
       case found of
         None \<Rightarrow> give ()
       | Some index_account \<Rightarrow>
           if ac_contract_code index_account = [] then give ()
           else (case lx_de_hashes L (ac_contract_code index_account) of
               None \<Rightarrow> stop (Other ''Corrupt bridge pending index'')
             | Some pending \<Rightarrow>
                 let kept = filter (\<lambda>q. q \<noteq> pid) pending
                 in if length kept = length pending then give ()
                    else (case lx_ser_hashes L kept of
                        None \<Rightarrow> stop (Other ''Failed to serialize pending index'')
                      | Some bytes \<Rightarrow>
                          bridge_put H pending_index_key (index_account\<lparr>ac_contract_code := bytes\<rparr>))))"

definition write_archive :: "'m bridge_libs_scheme \<Rightarrow> 's host \<Rightarrow> hash \<Rightarrow> bridge_proposal \<Rightarrow> ('s, unit) action" where
  "write_archive L H pid p =
     (case lr_ser_proposal L p of
        None \<Rightarrow> stop (Other ''Failed to serialize bridge proposal'')
      | Some bytes \<Rightarrow> bridge_put H (proposal_archive_key L pid) (default_account\<lparr>ac_contract_code := bytes\<rparr>))"

definition archive_executed_proposal ::
  "'m bridge_libs_scheme \<Rightarrow> 's host \<Rightarrow> bridge_proposal \<Rightarrow> ('s, unit) action" where
  "archive_executed_proposal L H p =
     (let pid = bp_proposal_id p
      in andthen (write_archive L H pid (p\<lparr>bp_executed := True\<rparr>)) (\<lambda>_.
         andthen (bridge_get H (bridge_proposal_key L pid)) (\<lambda>found.
         andthen (case found of
              None \<Rightarrow> give ()
            | Some acc \<Rightarrow>
                if ac_contract_code acc = [] then give ()
                else bridge_put H (bridge_proposal_key L pid) (acc\<lparr>ac_contract_code := []\<rparr>)) (\<lambda>_.
           drop_from_pending L H pid))))"

definition mark_executed_in_state :: "'m bridge_libs_scheme \<Rightarrow> 's host \<Rightarrow> hash \<Rightarrow> ('s, unit) action" where
  "mark_executed_in_state L H pid =
     andthen (bridge_get H (bridge_proposal_key L pid)) (\<lambda>found.
       case found of
         None \<Rightarrow> stop (Other ''Proposal not found'')
       | Some acc \<Rightarrow>
           (case bridge_proposal_with_migration L (ac_contract_code acc) of
              None \<Rightarrow> stop (Other ''Corrupt bridge proposal'')
            | Some p \<Rightarrow>
                andthen (write_archive L H pid (p\<lparr>bp_executed := True\<rparr>)) (\<lambda>_.
                andthen (bridge_put H (bridge_proposal_key L pid) (acc\<lparr>ac_contract_code := []\<rparr>)) (\<lambda>_.
                  drop_from_pending L H pid))))"

fun load_each_proposal ::
  "'m bridge_libs_scheme \<Rightarrow> 's host \<Rightarrow> hash list \<Rightarrow> ('s, bridge_proposal list) action" where
  "load_each_proposal L H [] = give []"
| "load_each_proposal L H (pid # pids) =
     andthen (load_proposal_from_bridge L H pid) (\<lambda>found.
     andthen (load_each_proposal L H pids) (\<lambda>rest.
       give (case found of None \<Rightarrow> rest | Some p \<Rightarrow> p # rest)))"

definition load_pending_ids :: "'m bridge_libs_scheme \<Rightarrow> 's host \<Rightarrow> ('s, hash list) action" where
  "load_pending_ids L H =
     andthen (bridge_get H pending_index_key) (\<lambda>found.
       case stored_code found of
         None \<Rightarrow> give []
       | Some code \<Rightarrow>
           (case lx_de_hashes L code of
              None \<Rightarrow> stop (Other ''Corrupt bridge pending index'')
            | Some pending \<Rightarrow> give pending))"

definition load_pending_proposals_from_state ::
  "'m bridge_libs_scheme \<Rightarrow> 's host \<Rightarrow> ('s, bridge_proposal list) action" where
  "load_pending_proposals_from_state L H = andthen (load_pending_ids L H) (load_each_proposal L H)"

section \<open>Limits\<close>

definition MAX_SINGLE_BRIDGE_MINT :: nat where
  "MAX_SINGLE_BRIDGE_MINT = 100 * TOKEN_DECIMAL"

definition DAY_SECONDS :: nat where
  "DAY_SECONDS = 86400"

definition decode_mints :: "'m bridge_libs_scheme \<Rightarrow> nat \<Rightarrow> account option \<Rightarrow> (nat \<times> nat) list result" where
  "decode_mints L now found =
     (case stored_code found of
        None \<Rightarrow> Inr []
      | Some code \<Rightarrow>
          (case lr_de_mints L code of
             Some entries \<Rightarrow> Inr entries
           | None \<Rightarrow>
               (case lr_de_mints_v0 L code of
                  Some (day, minted) \<Rightarrow> Inr (if 0 < minted then [(now, minted)] else [])
                | None \<Rightarrow> Inl (Other ''Corrupt daily mint tracker''))))"

definition in_window :: "nat \<Rightarrow> (nat \<times> nat) list \<Rightarrow> (nat \<times> nat) list" where
  "in_window now entries = filter (\<lambda>(ts, _). sat_sub now DAY_SECONDS < ts) entries"

definition minted :: "(nat \<times> nat) list \<Rightarrow> nat" where
  "minted entries = sum_list (map snd entries)"

definition add_mint :: "nat \<Rightarrow> nat \<Rightarrow> nat \<Rightarrow> (nat \<times> nat) list \<Rightarrow> (nat \<times> nat) list result" where
  "add_mint amount now daily_mint_limit entries =
     (let entries = in_window now entries
      in if u128_max < minted entries then Inl RustPanic
         else case checked_add u128_max (minted entries) amount of
             None \<Rightarrow> Inl (BridgeError ''Daily mint counter overflow'')
           | Some new_minted \<Rightarrow>
               if daily_mint_limit < new_minted
               then Inl (BridgeError ''Daily mint limit exceeded on-chain'')
               else Inr (entries @ [(now, amount)]))"

definition check_and_record_daily_mint ::
  "'m bridge_libs_scheme \<Rightarrow> 's host \<Rightarrow> nat \<Rightarrow> nat \<Rightarrow> nat \<Rightarrow> ('s, unit) action" where
  "check_and_record_daily_mint L H amount now daily_mint_limit =
     andthen (bridge_get H daily_mint_tracker_key) (\<lambda>found.
     andthen (lift (decode_mints L now found)) (\<lambda>entries.
     andthen (lift (add_mint amount now daily_mint_limit entries)) (\<lambda>entries.
       case lr_ser_mints L entries of
         None \<Rightarrow> stop (Other ''Failed to serialize daily mint tracker'')
       | Some bytes \<Rightarrow>
           andthen (bridge_get H daily_mint_tracker_key) (\<lambda>found.
             bridge_put H daily_mint_tracker_key ((unwrap_or_default found)\<lparr>ac_contract_code := bytes\<rparr>)))))"

record daily_mint_status =
  ds_daily_limit :: nat
  ds_minted_in_window :: nat
  ds_remaining :: nat
  ds_retry_after_secs :: nat

definition mint_status_of :: "nat \<Rightarrow> nat \<Rightarrow> (nat \<times> nat) list \<Rightarrow> daily_mint_status result" where
  "mint_status_of now daily_mint_limit entries =
     (let active = in_window now entries;
          remaining = sat_sub daily_mint_limit (minted active);
          waits = map (\<lambda>(ts, _). sat_sub (sat_add u64_max ts DAY_SECONDS) now) active
      in if u128_max < minted active then Inl RustPanic
         else Inr \<lparr>ds_daily_limit = daily_mint_limit, ds_minted_in_window = minted active,
                  ds_remaining = remaining,
                  ds_retry_after_secs = (if 0 < remaining then 0 else if waits = [] then 0 else min_list waits)\<rparr>)"

definition daily_mint_status_of ::
  "'m bridge_libs_scheme \<Rightarrow> 's host \<Rightarrow> nat \<Rightarrow> nat \<Rightarrow> ('s, daily_mint_status) action" where
  "daily_mint_status_of L H now daily_mint_limit =
     andthen (bridge_get H daily_mint_tracker_key) (\<lambda>found.
     andthen (lift (decode_mints L now found)) (\<lambda>entries.
       lift (mint_status_of now daily_mint_limit entries)))"

section \<open>Payloads and burns\<close>

definition be_bytes :: "nat \<Rightarrow> nat \<Rightarrow> bytes" where
  "be_bytes k n = rev (le_bytes k n)"

definition encode_amount_out_min_payload :: "nat \<Rightarrow> bytes" where
  "encode_amount_out_min_payload min_out = replicate 36 0 @ be_bytes 32 min_out"

text \<open>\<open>trim_start_matches("0x")\<close> takes the prefix off as often as it stands there.\<close>

fun trim_0x :: "string \<Rightarrow> string" where
  "trim_0x (a # b # s) = (if a = CHR ''0'' \<and> b = CHR ''x'' then trim_0x s else a # b # s)"
| "trim_0x s = s"

definition verify_source_burn_matches ::
  "'m bridge_libs_scheme \<Rightarrow> 's host \<Rightarrow> string \<Rightarrow> address \<Rightarrow> nat \<Rightarrow> ('s, unit) action" where
  "verify_source_burn_matches L H source_tx_hash expected_sender expected_amount =
     (case lb_unhex L (trim_0x source_tx_hash) of
        None \<Rightarrow> stop (BridgeError ''Gecersiz source_tx_hash formati'')
      | Some txid \<Rightarrow>
          if length txid \<noteq> 32 then stop (BridgeError ''Gecersiz source_tx_hash formati'')
          else andthen (rename_error (\<lambda>_. Other ''Burn kaydi aranirken hata'') (find_bridge_burn_record L H txid))
            (\<lambda>found. case found of
               None \<Rightarrow> stop (BridgeError ''Belirtilen kaynak islem (burn) bulunamadi'')
             | Some r \<Rightarrow>
                 if br_sender r \<noteq> expected_sender
                 then stop (BridgeError ''Burn kaydinin gonderen adresi eslesmiyor'')
                 else if br_amount r \<noteq> expected_amount
                 then stop (BridgeError ''Burn kaydinin miktari eslesmiyor'')
                 else give ()))"

end
