(* ===== verification/Claims.thy ===== *)
theory Claims
  imports Bridge
begin

text \<open>
  Withdrawals on the Ethereum side: the scaling of amounts
  (\<open>crates/zagros-types/src/bridge_amount.rs\<close>) and the EIP-712 digest the relayers sign
  (\<open>crates/zagros-types/src/eip712.rs\<close>). The relayer signs and the node checks with these functions.

  Addresses and words are lists of bytes, of length 20 and 32 where the source has arrays. The
  recovery of a public key is the secp256k1 crate's.
\<close>

section \<open>Scaling amounts\<close>

definition ZERENYA_DECIMALS :: nat where
  "ZERENYA_DECIMALS = 18"

record scaled_amount =
  sa_token_amount :: nat
  sa_dust :: nat

definition scale_zerenya_to_token :: "nat \<Rightarrow> nat \<Rightarrow> scaled_amount option" where
  "scale_zerenya_to_token zerenya_amount token_decimals =
     (if ZERENYA_DECIMALS < token_decimals then None
      else let divisor = 10 ^ (ZERENYA_DECIMALS - token_decimals)
        in if u128_max < divisor then None
           else if zerenya_amount div divisor = 0 then None
           else Some \<lparr>sa_token_amount = zerenya_amount div divisor, sa_dust = zerenya_amount mod divisor\<rparr>)"

definition scale_token_to_zerenya :: "nat \<Rightarrow> nat \<Rightarrow> nat option" where
  "scale_token_to_zerenya token_amount token_decimals =
     (if ZERENYA_DECIMALS < token_decimals \<or> token_amount = 0 then None
      else let multiplier = 10 ^ (ZERENYA_DECIMALS - token_decimals)
        in if u128_max < multiplier \<or> u128_max < token_amount * multiplier then None
           else Some (token_amount * multiplier))"

section \<open>The digest\<close>

definition EIP712_DOMAIN_TYPE :: string where
  "EIP712_DOMAIN_TYPE = ''EIP712Domain(string name,string version,uint256 chainId,address verifyingContract)''"

definition CLAIM_TYPE :: string where
  "CLAIM_TYPE = ''Claim(address token,address recipient,uint256 amount,bytes32 zagrosTxHash)''"

definition DOMAIN_NAME :: string where
  "DOMAIN_NAME = ''ZagrosBridgeGateway''"

definition DOMAIN_VERSION :: string where
  "DOMAIN_VERSION = ''1''"

definition address_word :: "bytes \<Rightarrow> bytes" where
  "address_word a = replicate 12 0 @ a"

definition u64_word :: "nat \<Rightarrow> bytes" where
  "u64_word n = replicate 24 0 @ be_bytes 8 n"

definition amount_to_be_bytes :: "nat \<Rightarrow> bytes" where
  "amount_to_be_bytes n = replicate 16 0 @ be_bytes 16 n"

definition claim_domain_separator :: "crypto_env \<Rightarrow> nat \<Rightarrow> bytes \<Rightarrow> hash" where
  "claim_domain_separator E chain_id gateway =
     keccak E (keccak E (str_bytes EIP712_DOMAIN_TYPE) @ keccak E (str_bytes DOMAIN_NAME) @
       keccak E (str_bytes DOMAIN_VERSION) @ u64_word chain_id @ address_word gateway)"

definition claim_struct :: "crypto_env \<Rightarrow> bytes \<Rightarrow> bytes \<Rightarrow> bytes \<Rightarrow> hash \<Rightarrow> bytes" where
  "claim_struct E token recipient amount_be zagros_tx_hash =
     keccak E (str_bytes CLAIM_TYPE) @ address_word token @ address_word recipient @ amount_be @ zagros_tx_hash"

definition claim_digest :: "crypto_env \<Rightarrow> nat \<Rightarrow> bytes \<Rightarrow> bytes \<Rightarrow> bytes \<Rightarrow> bytes \<Rightarrow> hash \<Rightarrow> hash" where
  "claim_digest E chain_id gateway token recipient amount_be zagros_tx_hash =
     keccak E ([0x19, 0x01] @ claim_domain_separator E chain_id gateway @
       keccak E (claim_struct E token recipient amount_be zagros_tx_hash))"

section \<open>Reading hex\<close>

definition parse_hex_of_length :: "(string \<Rightarrow> bytes option) \<Rightarrow> nat \<Rightarrow> string \<Rightarrow> bytes option" where
  "parse_hex_of_length unhex n s =
     (case unhex (strip_0x s) of None \<Rightarrow> None | Some bs \<Rightarrow> if length bs \<noteq> n then None else Some bs)"

definition parse_eth_address :: "(string \<Rightarrow> bytes option) \<Rightarrow> string \<Rightarrow> bytes option" where
  "parse_eth_address unhex s = parse_hex_of_length unhex 20 s"

definition parse_h256 :: "(string \<Rightarrow> bytes option) \<Rightarrow> string \<Rightarrow> bytes option" where
  "parse_h256 unhex s = parse_hex_of_length unhex 32 s"

section \<open>The signer of a claim\<close>

text \<open>The high half of the order is refused, so a signature has no twin. Slices compare byte by byte.\<close>

definition HALF_ORDER :: bytes where
  "HALF_ORDER = [0x7f, 0xff, 0xff, 0xff, 0xff, 0xff, 0xff, 0xff, 0xff, 0xff, 0xff, 0xff, 0xff, 0xff, 0xff, 0xff,
     0x5d, 0x57, 0x6e, 0x73, 0x57, 0xa4, 0x50, 0x1d, 0xdf, 0xe9, 0x2f, 0x46, 0x68, 0x1b, 0x20, 0xa0]"

definition recover_claim_signer ::
  "crypto_env \<Rightarrow> (nat \<Rightarrow> bytes \<Rightarrow> hash \<Rightarrow> bytes option) \<Rightarrow> hash \<Rightarrow> bytes \<Rightarrow> bytes option" where
  "recover_claim_signer E recover_uncompressed digest signature =
     (case (if signature ! 64 = 27 then Some 0 else if signature ! 64 = 28 then Some 1 else None) of
        None \<Rightarrow> None
      | Some recovery_id \<Rightarrow>
          if HALF_ORDER < take 32 (drop 32 signature) then None
          else (case recover_uncompressed recovery_id (take 64 signature) digest of
              None \<Rightarrow> None
            | Some uncompressed \<Rightarrow> Some (drop 12 (keccak E (drop 1 uncompressed)))))"

section \<open>Lemmas\<close>

lemma scale_exact_inverse:
  "scale_token_to_zerenya t d = Some z \<Longrightarrow> scale_zerenya_to_token z d = Some \<lparr>sa_token_amount = t, sa_dust = 0\<rparr>"
  by (auto simp: scale_token_to_zerenya_def scale_zerenya_to_token_def Let_def split: if_splits)

lemma scale_accounts_for_all:
  "scale_zerenya_to_token z d = Some s \<Longrightarrow>
     0 < sa_token_amount s \<and> sa_dust s < 10 ^ (18 - d) \<and> z = sa_token_amount s * 10 ^ (18 - d) + sa_dust s"
  by (auto simp: scale_zerenya_to_token_def ZERENYA_DECIMALS_def Let_def split: if_splits)
    (rule div_mult_mod_eq [symmetric])

lemma length_be_bytes [simp]: "length (be_bytes k n) = k"
  by (simp add: be_bytes_def)

lemma be_bytes_inj: "m < 256 ^ k \<Longrightarrow> n < 256 ^ k \<Longrightarrow> be_bytes k m = be_bytes k n \<Longrightarrow> m = n"
  by (auto simp: be_bytes_def dest: le_bytes_inj)

text \<open>The fields have fixed lengths, so the hashed bytes give them back.\<close>

lemma claim_struct_inj:
  assumes "claim_struct E token recipient (amount_to_be_bytes n) h = claim_struct E token' recipient' (amount_to_be_bytes n') h'"
    and "length token = 20" "length token' = 20" "length recipient = 20" "length recipient' = 20"
    and "n \<le> u128_max" "n' \<le> u128_max"
  shows "token = token' \<and> recipient = recipient' \<and> n = n' \<and> h = h'"
proof -
  have "address_word token @ address_word recipient @ amount_to_be_bytes n @ h =
      address_word token' @ address_word recipient' @ amount_to_be_bytes n' @ h'"
    using assms(1) by (simp add: claim_struct_def)
  with assms(2-5) have "token = token'" "recipient = recipient'"
    and n: "be_bytes 16 n = be_bytes 16 n'" and "h = h'"
    by (auto simp: address_word_def amount_to_be_bytes_def)
  moreover have "n = n'" using be_bytes_inj [OF _ _ n] assms(6,7) by simp
  ultimately show ?thesis by simp
qed

end
