(* ===== verification/BridgeManager.thy ===== *)
theory BridgeManager
  imports Claims
begin

text \<open>
  The live \<open>BridgeManager\<close> of \<open>crates/zagros-executor/src/bridge.rs\<close>: proposals in memory, their
  signatures, execution, the relayers' claim vouchers, and what of it is kept in the state.

  A \<open>HashMap\<close> is an association list; its order stands for the order the source iterates in, which
  is not specified there. \<open>flush\<close> of the store is left out: it writes the cache through and changes no
  account. Times in milliseconds are \<open>u128\<close>, seconds \<open>u64\<close>.
\<close>

section \<open>The manager\<close>

record claim_context =
  cc_chain_id :: nat
  cc_gateway :: bytes
  cc_token :: bytes
  cc_token_decimals :: nat
  cc_relayers :: "bytes list"

record bridge_manager =
  bm_authorities :: "(address \<times> bridge_authority) list"
  bm_required_signatures :: nat
  bm_proposals :: "(hash \<times> bridge_proposal) list"
  bm_daily_mint_limit :: nat
  bm_daily_minted :: nat
  bm_last_reset :: nat
  bm_timelock_period :: nat
  bm_chain_id :: nat
  bm_nonce_counter :: nat
  bm_claim_context :: "claim_context option"

text \<open>The two assertions of the constructor panic.\<close>

definition bm_new :: "bridge_authority list \<Rightarrow> nat \<Rightarrow> nat \<Rightarrow> bridge_manager result" where
  "bm_new authorities required_signatures chain_id =
     (if length authorities < required_signatures \<or> required_signatures < 2 then Inl RustPanic
      else Inr \<lparr>bm_authorities = fold (\<lambda>a m. AList.update (ba_address a) a m) authorities [],
                bm_required_signatures = required_signatures, bm_proposals = [],
                bm_daily_mint_limit = 10000000 * TOKEN_DECIMAL, bm_daily_minted = 0, bm_last_reset = 0,
                bm_timelock_period = 24 * 60 * 60, bm_chain_id = chain_id, bm_nonce_counter = 0,
                bm_claim_context = None\<rparr>)"

definition derive_address_from_public_key :: "'m libs_scheme \<Rightarrow> pubkey \<Rightarrow> address" where
  "derive_address_from_public_key L pk = ''0x'' @ lb_hex L (drop 12 (keccak (lb_crypto L) pk))"

definition default_authority :: "'m libs_scheme \<Rightarrow> nat \<Rightarrow> bridge_authority" where
  "default_authority L i =
     (let pk = ed_public (lb_crypto L) (of_nat i # replicate 31 0)
      in \<lparr>ba_address = derive_address_from_public_key L pk, ba_public_key = pk, ba_is_active = True\<rparr>)"

definition default_authorities :: "'m libs_scheme \<Rightarrow> bridge_authority list" where
  "default_authorities L = map (default_authority L) [1, 2, 3]"

definition default_bridge_manager :: "'m libs_scheme \<Rightarrow> nat \<Rightarrow> bridge_manager result" where
  "default_bridge_manager L chain_id = bm_new (default_authorities L) 2 chain_id"

definition with_timelock_secs :: "nat \<Rightarrow> bridge_manager \<Rightarrow> bridge_manager" where
  "with_timelock_secs timelock_secs M = M\<lparr>bm_timelock_period := timelock_secs\<rparr>"

definition with_claim_context :: "claim_context \<Rightarrow> bridge_manager \<Rightarrow> bridge_manager" where
  "with_claim_context ctx M = M\<lparr>bm_claim_context := Some ctx\<rparr>"

section \<open>Actions beside the state\<close>

text \<open>The manager is locked while it works: an action changes the store and the manager together.\<close>

definition on_state :: "('s, 'a) action \<Rightarrow> ('s \<times> bridge_manager, 'a) action" where
  "on_state m = on_store m"

definition ask :: "(bridge_manager \<Rightarrow> 'a) \<Rightarrow> ('s \<times> bridge_manager, 'a) action" where
  "ask f sM = (Inr (f (snd sM)), sM)"

definition alter :: "(bridge_manager \<Rightarrow> bridge_manager) \<Rightarrow> ('s \<times> bridge_manager, unit) action" where
  "alter f sM = (Inr (), (fst sM, f (snd sM)))"

section \<open>Creating a proposal\<close>

definition too_old :: "nat \<Rightarrow> nat \<Rightarrow> bool" where
  "too_old timestamp now_secs \<longleftrightarrow> timestamp < sat_sub now_secs 3600"

text \<open>The test for the future adds in \<open>u64\<close>.\<close>

definition too_new :: "nat \<Rightarrow> nat \<Rightarrow> bool result" where
  "too_new timestamp now_secs =
     (if u64_max < now_secs + 300 then Inl RustPanic else Inr (now_secs + 300 < timestamp))"

definition check_fresh :: "string \<Rightarrow> string \<Rightarrow> nat \<Rightarrow> nat \<Rightarrow> unit result" where
  "check_fresh old_message new_message timestamp now_secs =
     (if too_old timestamp now_secs then Inl (Other old_message)
      else try_then (too_new timestamp now_secs) (\<lambda>new. if new then Inl (Other new_message) else Inr ()))"

definition reset_daily_limit_if_needed :: "nat \<Rightarrow> bridge_manager \<Rightarrow> bridge_manager result" where
  "reset_daily_limit_if_needed current_time M =
     (let now_secs = as_u64 (current_time div 1000)
      in if now_secs < bm_last_reset M then Inr M
         else if u64_max < bm_last_reset M + 24 * 60 * 60 then Inl RustPanic
         else if bm_last_reset M + 24 * 60 * 60 \<le> now_secs
           then Inr (M\<lparr>bm_daily_minted := 0, bm_last_reset := now_secs\<rparr>)
         else Inr M)"

definition generate_proposal_id ::
  "crypto_env \<Rightarrow> nat \<Rightarrow> string \<Rightarrow> string \<Rightarrow> address \<Rightarrow> nat \<Rightarrow> nat \<Rightarrow> hash" where
  "generate_proposal_id E chain_id source_chain source_tx_hash recipient amount nonce =
     keccak E (str_bytes source_chain @ str_bytes source_tx_hash @ str_bytes recipient @ le_bytes 16 amount @
       le_bytes 8 nonce @ le_bytes 8 chain_id)"

definition same_source :: "string \<Rightarrow> string \<Rightarrow> bridge_proposal \<Rightarrow> bool" where
  "same_source source_chain source_tx_hash p \<longleftrightarrow>
     bp_source_chain p = source_chain \<and> bp_source_tx_hash p = source_tx_hash"

definition check_daily_limit :: "string \<Rightarrow> nat \<Rightarrow> bridge_manager \<Rightarrow> unit result" where
  "check_daily_limit message amount M =
     (if u128_max < bm_daily_minted M + amount then Inl RustPanic
      else if bm_daily_mint_limit M < bm_daily_minted M + amount then Inl (Other message)
      else Inr ())"

record proposal_request =
  rq_tx_type :: bridge_tx_type
  rq_amount :: nat
  rq_recipient :: address
  rq_source_chain :: string
  rq_source_tx_hash :: string
  rq_timestamp :: nat
  rq_auto_swap :: bool
  rq_amount_out_min :: nat

definition new_proposal :: "proposal_request \<Rightarrow> hash \<Rightarrow> nat \<Rightarrow> bridge_proposal" where
  "new_proposal q pid nonce = \<lparr>bp_proposal_id = pid, bp_tx_type = rq_tx_type q, bp_amount = rq_amount q,
     bp_recipient = rq_recipient q, bp_source_chain = rq_source_chain q,
     bp_source_tx_hash = rq_source_tx_hash q, bp_timestamp = rq_timestamp q, bp_signatures = [],
     bp_executed = False, bp_nonce = nonce, bp_auto_swap = rq_auto_swap q,
     bp_amount_out_min = rq_amount_out_min q, bp_claim_vouchers = []\<rparr>"

text \<open>
  The nonce has moved by the time the later checks refuse; the window may have been reset.
\<close>

definition admit_mint :: "nat \<Rightarrow> nat \<Rightarrow> ('s \<times> bridge_manager, unit) action" where
  "admit_mint amount current_time =
     (if MAX_SINGLE_BRIDGE_MINT < amount then stop (BridgeError ''BridgeMint exceeds per-tx cap'')
      else andthen (ask (reset_daily_limit_if_needed current_time)) (\<lambda>reset.
           andthen (lift reset) (\<lambda>M.
           andthen (alter (\<lambda>_. M)) (\<lambda>_.
             lift (check_daily_limit ''Daily mint limit exceeded'' amount M)))))"

definition insert_proposal :: "crypto_env \<Rightarrow> proposal_request \<Rightarrow> nat \<Rightarrow> ('s \<times> bridge_manager, hash) action" where
  "insert_proposal E q current_time =
     andthen (ask bm_nonce_counter) (\<lambda>n.
       if u64_max < n + 1 then stop RustPanic
       else andthen (alter (\<lambda>M. M\<lparr>bm_nonce_counter := n + 1\<rparr>)) (\<lambda>_.
         andthen (ask (\<lambda>M. generate_proposal_id E (bm_chain_id M) (rq_source_chain q) (rq_source_tx_hash q)
           (rq_recipient q) (rq_amount q) (n + 1))) (\<lambda>pid.
         andthen (ask (\<lambda>M. map_of (bm_proposals M) pid)) (\<lambda>known.
           if known \<noteq> None then stop (Other ''Proposal already exists'')
           else if rq_amount q = 0 then stop (BridgeError ''Bridge proposal amount must be non-zero'')
           else andthen (if rq_tx_type q = Mint then admit_mint (rq_amount q) current_time else give ()) (\<lambda>_.
                andthen (alter (\<lambda>M. M\<lparr>bm_proposals :=
                  AList.update pid (new_proposal q pid (n + 1)) (bm_proposals M)\<rparr>)) (\<lambda>_.
                  give pid))))))"

definition create_proposal ::
  "crypto_env \<Rightarrow> 's host \<Rightarrow> proposal_request \<Rightarrow> nat \<Rightarrow> ('s \<times> bridge_manager, hash) action" where
  "create_proposal E H q current_time =
     andthen (lift (check_fresh ''Timestamp too old (max 1 hour)'' ''Timestamp too far in future (max 5 min)''
       (rq_timestamp q) (as_u64 (current_time div 1000)))) (\<lambda>_.
     andthen (ask (\<lambda>M. List.find (same_source (rq_source_chain q) (rq_source_tx_hash q))
       (map snd (bm_proposals M)))) (\<lambda>existing.
       case existing of
         Some p \<Rightarrow> give (bp_proposal_id p)
       | None \<Rightarrow>
           andthen (on_state (is_source_processed_in_state H (rq_source_chain q) (rq_source_tx_hash q))) (\<lambda>processed.
             if processed then stop (BridgeError ''Bu kaynak islem zaten yurutuldu'')
             else insert_proposal E q current_time)))"

section \<open>Signing\<close>

definition check_authority :: "bridge_manager \<Rightarrow> address \<Rightarrow> bytes \<Rightarrow> unit result" where
  "check_authority M authority public_key =
     (case map_of (bm_authorities M) authority of
        None \<Rightarrow> Inl (Other ''Unauthorized bridge authority'')
      | Some auth \<Rightarrow>
          if \<not> ba_is_active auth then Inl (Other ''Authority is not active'')
          else if length public_key \<noteq> 32 then Inl (Other ''Invalid public key length'')
          else if public_key \<noteq> ba_public_key auth then Inl (Other ''Public key does not match authority'')
          else Inr ())"

definition sign_proposal ::
  "crypto_env \<Rightarrow> hash \<Rightarrow> bridge_signature \<Rightarrow> nat \<Rightarrow> bridge_manager \<Rightarrow> bridge_manager result" where
  "sign_proposal E pid sig current_time M =
     try_then (check_authority M (bs_authority sig) (bs_public_key sig)) (\<lambda>_.
       case map_of (bm_proposals M) pid of
         None \<Rightarrow> Inl (Other ''Proposal not found'')
       | Some p \<Rightarrow>
           if bp_executed p then Inl (Other ''Proposal already executed'')
           else if (\<exists>s \<in> set (bp_signatures p). bs_authority s = bs_authority sig)
             then Inl (Other ''Authority already signed'')
           else try_then (check_fresh ''Signature timestamp too old'' ''Signature timestamp too far in future''
                  (bs_timestamp sig) (as_u64 (current_time div 1000))) (\<lambda>_.
             if \<not> verify_ed25519 E (bind_timestamp_to_message E (create_signing_message E p (bm_chain_id M))
                   (bs_timestamp sig)) (bs_signature sig) (bs_public_key sig)
             then Inl (Other ''Invalid signature - cryptographic verification failed'')
             else Inr (M\<lparr>bm_proposals :=
               AList.update pid (p\<lparr>bp_signatures := bp_signatures p @ [sig]\<rparr>) (bm_proposals M)\<rparr>)))"

definition propose_request_message :: "crypto_env \<Rightarrow> proposal_request \<Rightarrow> nat \<Rightarrow> bytes" where
  "propose_request_message E q chain_id =
     keccak E (str_bytes ''BRIDGE_PROPOSE:'' @ str_bytes (bridge_type_name (rq_tx_type q)) @
       str_bytes (rq_recipient q) @ le_bytes 16 (rq_amount q) @ str_bytes (rq_source_chain q) @
       str_bytes (rq_source_tx_hash q) @ le_bytes 8 (rq_timestamp q) @ [flag_byte (rq_auto_swap q)] @
       le_bytes 16 (rq_amount_out_min q) @ le_bytes 8 chain_id)"

definition authenticate_authority_request ::
  "crypto_env \<Rightarrow> bridge_manager \<Rightarrow> address \<Rightarrow> pubkey \<Rightarrow> bytes \<Rightarrow> bytes \<Rightarrow> bool" where
  "authenticate_authority_request E M authority public_key message signature =
     (case map_of (bm_authorities M) authority of
        None \<Rightarrow> False
      | Some auth \<Rightarrow> ba_is_active auth \<and> ba_public_key auth = public_key \<and>
          verify_ed25519 E message signature public_key)"

definition authority_signature_ok :: "crypto_env \<Rightarrow> bridge_manager \<Rightarrow> bytes \<Rightarrow> bridge_signature \<Rightarrow> bool" where
  "authority_signature_ok E M base_message sig \<longleftrightarrow>
     length (bs_public_key sig) = 32 \<and>
     authenticate_authority_request E M (bs_authority sig) (bs_public_key sig)
       (bind_timestamp_to_message E base_message (bs_timestamp sig)) (bs_signature sig)"

definition count_valid_authority_signatures :: "crypto_env \<Rightarrow> bridge_manager \<Rightarrow> bridge_proposal \<Rightarrow> nat" where
  "count_valid_authority_signatures E M p =
     length (collect_signers bs_authority
       (authority_signature_ok E M (create_signing_message E p (bm_chain_id M))) [] (bp_signatures p))"

section \<open>Execution\<close>

definition can_execute :: "bridge_manager \<Rightarrow> hash \<Rightarrow> nat \<Rightarrow> bool result" where
  "can_execute M pid current_time =
     (case map_of (bm_proposals M) pid of
        None \<Rightarrow> Inl (Other ''Proposal not found'')
      | Some p \<Rightarrow> proposal_is_executable p (bm_required_signatures M) (bm_timelock_period M) current_time)"

definition admit_execution :: "bridge_proposal \<Rightarrow> nat \<Rightarrow> ('s \<times> bridge_manager, unit) action" where
  "admit_execution p current_time =
     (if bp_tx_type p = Mint
      then andthen (ask (reset_daily_limit_if_needed current_time)) (\<lambda>reset.
           andthen (lift reset) (\<lambda>M.
           andthen (alter (\<lambda>_. M)) (\<lambda>_.
             lift (check_daily_limit ''Daily mint limit exceeded at execution'' (bp_amount p) M))))
      else give ())"

definition execute_proposal ::
  "'s host \<Rightarrow> hash \<Rightarrow> nat \<Rightarrow> ('s \<times> bridge_manager, bridge_proposal) action" where
  "execute_proposal H pid current_time =
     andthen (ask (\<lambda>M. can_execute M pid current_time)) (\<lambda>r.
     andthen (lift r) (\<lambda>ready.
       if \<not> ready then stop (Other ''Proposal cannot be executed yet'')
       else andthen (ask (\<lambda>M. map_of (bm_proposals M) pid)) (\<lambda>found.
         case found of
           None \<Rightarrow> stop (Other ''Proposal not found'')
         | Some p \<Rightarrow>
             andthen (admit_execution p current_time) (\<lambda>_.
             andthen (on_state (is_source_processed_in_state H (bp_source_chain p) (bp_source_tx_hash p))) (\<lambda>processed.
               if processed then stop (BridgeError ''Mukerrer yurutme reddedildi'')
               else (let executed = p\<lparr>bp_executed := True\<rparr> in
                 andthen (alter (\<lambda>M. M\<lparr>bm_proposals := AList.update pid executed (bm_proposals M),
                   bm_daily_minted := (if bp_tx_type p = Mint then bm_daily_minted M + bp_amount p
                     else bm_daily_minted M)\<rparr>)) (\<lambda>_.
                 andthen (on_state (mark_source_processed_in_state H (bp_source_chain p) (bp_source_tx_hash p)))
                   (\<lambda>_. give executed))))))))"

section \<open>Claim vouchers\<close>

fun put_voucher :: "string \<Rightarrow> string \<Rightarrow> claim_voucher list \<Rightarrow> claim_voucher list" where
  "put_voucher signer signature [] = [\<lparr>cv_signer = signer, cv_signature = signature\<rparr>]"
| "put_voucher signer signature (v # vs) =
     (if cv_signer v = signer then v\<lparr>cv_signature := signature\<rparr> # vs else v # put_voucher signer signature vs)"

definition voucher_digest :: "'m libs_scheme \<Rightarrow> claim_context \<Rightarrow> bridge_proposal \<Rightarrow> hash result" where
  "voucher_digest L ctx p =
     (case parse_eth_address (lb_unhex L) (bp_recipient p) of
        None \<Rightarrow> Inl (BridgeError ''Proposal recipient is not a valid Ethereum address'')
      | Some recipient \<Rightarrow>
          (case parse_h256 (lb_unhex L) (bp_source_tx_hash p) of
             None \<Rightarrow> Inl (BridgeError ''Proposal source_tx_hash is not a valid 32-byte hash'')
           | Some zagros_tx_hash \<Rightarrow>
               (case scale_zerenya_to_token (bp_amount p) (cc_token_decimals ctx) of
                  None \<Rightarrow> Inl (BridgeError ''Burn amount does not scale to a non-zero token amount'')
                | Some scaled \<Rightarrow>
                    Inr (claim_digest (lb_crypto L) (cc_chain_id ctx) (cc_gateway ctx) (cc_token ctx) recipient
                      (amount_to_be_bytes (sa_token_amount scaled)) zagros_tx_hash))))"

definition voucher_signer ::
  "'m libs_scheme \<Rightarrow> (nat \<Rightarrow> bytes \<Rightarrow> hash \<Rightarrow> bytes option) \<Rightarrow> claim_context \<Rightarrow> hash \<Rightarrow> string \<Rightarrow>
     (bytes \<times> bytes) result" where
  "voucher_signer L recover_uncompressed ctx digest signature_hex =
     (case lb_unhex L (strip_0x signature_hex) of
        None \<Rightarrow> Inl (BridgeError ''Signature is not valid hex'')
      | Some raw \<Rightarrow>
          if length raw \<noteq> 65 then Inl (BridgeError ''Signature must be 65 bytes'')
          else (case recover_claim_signer (lb_crypto L) recover_uncompressed digest raw of
              None \<Rightarrow> Inl (BridgeError ''Signature does not recover to any signer'')
            | Some signer \<Rightarrow>
                if signer \<notin> set (cc_relayers ctx)
                then Inl (BridgeError ''Signature is not from a configured bridge relayer'')
                else Inr (signer, raw)))"

definition add_claim_voucher ::
  "'m libs_scheme \<Rightarrow> (nat \<Rightarrow> bytes \<Rightarrow> hash \<Rightarrow> bytes option) \<Rightarrow> hash \<Rightarrow> string \<Rightarrow> bridge_manager \<Rightarrow>
     (bridge_manager \<times> string) result" where
  "add_claim_voucher L recover_uncompressed pid signature_hex M =
     (case bm_claim_context M of
        None \<Rightarrow> Inl (BridgeError ''Claim voucher acceptance is disabled'')
      | Some ctx \<Rightarrow>
          (case map_of (bm_proposals M) pid of
             None \<Rightarrow> Inl (BridgeError ''Proposal not found'')
           | Some p \<Rightarrow>
               if bp_tx_type p \<noteq> Burn
               then Inl (BridgeError ''Claim vouchers only apply to burn (withdraw) proposals'')
               else try_then (voucher_digest L ctx p) (\<lambda>digest.
                    try_then (voucher_signer L recover_uncompressed ctx digest signature_hex) (\<lambda>(signer, raw).
                      let signer_hex = ''0x'' @ lb_hex L signer;
                          p = p\<lparr>bp_claim_vouchers := put_voucher signer_hex (''0x'' @ lb_hex L raw) (bp_claim_vouchers p)\<rparr>
                      in Inr (M\<lparr>bm_proposals := AList.update pid p (bm_proposals M)\<rparr>, signer_hex)))))"

section \<open>Listing and pruning\<close>

definition get_pending_proposals :: "bridge_manager \<Rightarrow> bridge_proposal list" where
  "get_pending_proposals M = filter (\<lambda>p. \<not> bp_executed p) (map snd (bm_proposals M))"

text \<open>Newest first; the sort is stable.\<close>

definition get_recent_proposals :: "nat \<Rightarrow> bridge_manager \<Rightarrow> bridge_proposal list" where
  "get_recent_proposals limit M = take limit (rev (sort_key bp_timestamp (rev (map snd (bm_proposals M)))))"

definition prune_ids_not_in :: "hash list \<Rightarrow> bridge_manager \<Rightarrow> bridge_manager" where
  "prune_ids_not_in still_pending M =
     M\<lparr>bm_proposals := filter (\<lambda>(pid, _). pid \<in> set still_pending) (bm_proposals M)\<rparr>"

section \<open>What is kept in the state\<close>

record bridge_manager_meta =
  mm_daily_minted :: nat
  mm_last_reset :: nat
  mm_nonce_counter :: nat

record migration_record =
  mr_version :: nat
  mr_completed_at_unix_secs :: nat

record manager_libs = bridge_libs +
  lk_ser_meta :: "bridge_manager_meta \<Rightarrow> bytes option"
  lk_de_meta :: "bytes \<Rightarrow> bridge_manager_meta option"
  lk_de_sources :: "bytes \<Rightarrow> string list option"
  lk_ser_migration :: "migration_record \<Rightarrow> bytes option"

definition meta_key :: address where
  "meta_key = ''__BRIDGE_MANAGER_META__''"

definition legacy_processed_sources_key :: address where
  "legacy_processed_sources_key = ''BridgeProcessedSources''"

definition processed_sources_migration_key :: address where
  "processed_sources_migration_key = ''__MIGRATION_BridgeProcessedSourcesFanOut__''"

definition persist_meta :: "'m manager_libs_scheme \<Rightarrow> 's host \<Rightarrow> bridge_manager \<Rightarrow> ('s, unit) action" where
  "persist_meta L H M =
     (case lk_ser_meta L \<lparr>mm_daily_minted = bm_daily_minted M, mm_last_reset = bm_last_reset M,
         mm_nonce_counter = bm_nonce_counter M\<rparr> of
        None \<Rightarrow> stop (Other ''Failed to serialize bridge meta'')
      | Some bytes \<Rightarrow> bridge_put H meta_key (default_account\<lparr>ac_contract_code := bytes\<rparr>))"

definition persist_pending_index :: "'m bridge_libs_scheme \<Rightarrow> 's host \<Rightarrow> bridge_manager \<Rightarrow> ('s, unit) action" where
  "persist_pending_index L H M =
     (case lx_ser_hashes L (map bp_proposal_id (get_pending_proposals M)) of
        None \<Rightarrow> stop (Other ''Failed to serialize pending index'')
      | Some bytes \<Rightarrow> bridge_put H pending_index_key (default_account\<lparr>ac_contract_code := bytes\<rparr>))"

definition persist_proposal :: "'m bridge_libs_scheme \<Rightarrow> 's host \<Rightarrow> hash \<Rightarrow> bridge_manager \<Rightarrow> ('s, unit) action" where
  "persist_proposal L H pid M =
     (case map_of (bm_proposals M) pid of
        None \<Rightarrow> stop (Other ''Proposal not found'')
      | Some p \<Rightarrow>
          (case lr_ser_proposal L p of
             None \<Rightarrow> stop (Other ''Failed to serialize bridge proposal'')
           | Some bytes \<Rightarrow>
               andthen (bridge_put H (bridge_proposal_key L pid) (default_account\<lparr>ac_contract_code := bytes\<rparr>)) (\<lambda>_.
                 persist_pending_index L H M)))"

definition load_meta :: "'m manager_libs_scheme \<Rightarrow> 's host \<Rightarrow> bridge_manager \<Rightarrow> ('s, bridge_manager) action" where
  "load_meta L H M =
     andthen (bridge_get H meta_key) (\<lambda>found.
       case stored_code found of
         None \<Rightarrow> give M
       | Some code \<Rightarrow>
           (case lk_de_meta L code of
              None \<Rightarrow> stop (Other ''Corrupt bridge meta'')
            | Some meta \<Rightarrow> give (M\<lparr>bm_daily_minted := mm_daily_minted meta, bm_last_reset := mm_last_reset meta,
                bm_nonce_counter := mm_nonce_counter meta\<rparr>)))"

text \<open>The migration runs once; \<open>now_secs\<close> is the clock's reading.\<close>

definition legacy_sources :: "'m manager_libs_scheme \<Rightarrow> account option \<Rightarrow> string list result" where
  "legacy_sources L found =
     (case stored_code found of
        None \<Rightarrow> Inr []
      | Some code \<Rightarrow>
          (case lk_de_sources L code of
             None \<Rightarrow> Inl (Other ''Corrupt bridge processed sources'') | Some sources \<Rightarrow> Inr sources))"

definition migrate_sources :: "'m manager_libs_scheme \<Rightarrow> 's host \<Rightarrow> nat \<Rightarrow> ('s, unit) action" where
  "migrate_sources L H now_secs =
     andthen (bridge_get H processed_sources_migration_key) (\<lambda>found.
       if found \<noteq> None then give ()
       else andthen (bridge_get H legacy_processed_sources_key) (\<lambda>legacy.
            andthen (lift (legacy_sources L legacy)) (\<lambda>sources.
            andthen (each (\<lambda>k. bridge_put H (''BridgeProcessedSource_'' @ k) default_account) sources) (\<lambda>_.
              case lk_ser_migration L \<lparr>mr_version = 1, mr_completed_at_unix_secs = now_secs\<rparr> of
                None \<Rightarrow> stop (Other ''Failed to serialize migration record'')
              | Some bytes \<Rightarrow>
                  bridge_put H processed_sources_migration_key (default_account\<lparr>ac_contract_code := bytes\<rparr>)))))"

fun load_pending_pairs ::
  "'m bridge_libs_scheme \<Rightarrow> 's host \<Rightarrow> hash list \<Rightarrow> ('s, (hash \<times> bridge_proposal) list) action" where
  "load_pending_pairs L H [] = give []"
| "load_pending_pairs L H (pid # pids) =
     andthen (load_proposal_from_bridge L H pid) (\<lambda>found.
     andthen (load_pending_pairs L H pids) (\<lambda>rest.
       give (case found of None \<Rightarrow> rest | Some p \<Rightarrow> (pid, p) # rest)))"

definition load_from_state ::
  "'m manager_libs_scheme \<Rightarrow> 's host \<Rightarrow> nat \<Rightarrow> bridge_authority list \<Rightarrow> nat \<Rightarrow> nat \<Rightarrow> ('s, bridge_manager) action" where
  "load_from_state L H now_secs authorities required_signatures chain_id =
     andthen (lift (bm_new authorities required_signatures chain_id)) (\<lambda>M.
     andthen (load_meta L H M) (\<lambda>M.
     andthen (migrate_sources L H now_secs) (\<lambda>_.
     andthen (load_pending_ids L H) (\<lambda>pids.
     andthen (load_pending_pairs L H pids) (\<lambda>pairs.
       give (M\<lparr>bm_proposals := fold (\<lambda>(pid, p) ps. AList.update pid p ps) pairs (bm_proposals M)\<rparr>))))))"

end
