(* ===== verification/TxTransfers.thy ===== *)
theory TxTransfers
  imports Bridge
begin

text \<open>
  The handlers of \<open>execute_transaction_inner\<close> (\<open>crates/zagros-executor/src/lib.rs\<close>) for transfers,
  swaps and stake: \<open>Transfer\<close>, \<open>SwapBuy\<close>, \<open>SwapSell\<close>, \<open>StakeZagros\<close>, \<open>UnstakeZagros\<close>,
  \<open>ClaimReward\<close>.

  The source keeps the sender's account in a local variable through the handler and writes it back
  at the very end, over whatever the handler wrote to that account meanwhile. A handler here takes
  the account as it was read and returns the one to write.
\<close>

section \<open>Transfers\<close>

definition d14_active :: "'s host \<Rightarrow> ('s, bool) action" where
  "d14_active H =
     andthen (current_block_height_for_rules H) (\<lambda>height. give (D14_RULES_ACTIVATION_HEIGHT \<le> height))"

definition reject_self_transfer :: "'s host \<Rightarrow> transaction \<Rightarrow> address \<Rightarrow> ('s, unit) action" where
  "reject_self_transfer H tx sender_key =
     andthen (d14_active H) (\<lambda>active.
       if active
       then andthen (lift (canonical_account_address (tx_receiver tx))) (\<lambda>receiver_key.
              if receiver_key = sender_key then stop (Other ''Kendine transfer (D14)'')
              else give ())
       else give ())"

definition do_transfer ::
  "'m executor_libs_scheme \<Rightarrow> ('s \<times> volatile) host \<Rightarrow> transaction \<Rightarrow> nat \<Rightarrow> address \<Rightarrow> account \<Rightarrow>
     ('s \<times> volatile, account) action" where
  "do_transfer L H tx now sender_key sender =
     (if tx_receiver tx = LIQUIDITY_POOL_ADDRESS
      then stop (Other ''Havuz adresine transfer - swap'')
      else andthen (reject_self_transfer H tx sender_key) (\<lambda>_.
        let sender = sender\<lparr>ac_balance := sat_sub (ac_balance sender) (tx_amount tx)\<rparr>
        in andthen (h_get H (tx_receiver tx)) (\<lambda>found.
           let receiver = unwrap_or_default found;
               receiver = receiver\<lparr>ac_balance := sat_add u128_max (ac_balance receiver) (tx_amount tx)\<rparr>
           in andthen (h_put H (tx_receiver tx) receiver) (\<lambda>_.
              andthen (record_transfer L H (tx_id tx) (tx_sender tx) (tx_receiver tx) (tx_amount tx) ''ZAGROS'' now) (\<lambda>_.
                give sender)))))"

section \<open>Swaps\<close>

definition swap_buy ::
  "'m executor_libs_scheme \<Rightarrow> ('s \<times> volatile) host \<Rightarrow> transaction \<Rightarrow> nat \<Rightarrow> account \<Rightarrow>
     ('s \<times> volatile, account) action" where
  "swap_buy L H tx now sender =
     (if ac_zerenya_balance sender < tx_amount tx then stop InsufficientBalance
      else andthen (get_pool_reserves (h_get H)) (\<lambda>(res_zagros, res_zerenya).
      andthen (lift (swap_amount_out_min tx)) (\<lambda>amount_out_min.
      andthen (record_volume_and_compute_fee_bps (lx_tracker L) (h_get H) (h_put H) ZerenyaIn (tx_amount tx)
        res_zerenya (as_u64 now)) (\<lambda>fee_bps.
      andthen (lift (quote_swap_buy (tx_amount tx) res_zagros res_zerenya fee_bps)) (\<lambda>quote.
        if 0 < amount_out_min \<and> sq_amount_out quote < amount_out_min then stop (Other ''Slippage too high'')
        else let sender = sender\<lparr>ac_zerenya_balance := sat_sub (ac_zerenya_balance sender) (tx_amount tx),
               ac_balance := sat_add u128_max (ac_balance sender) (sq_amount_out quote)\<rparr>
          in andthen (if 0 < sq_community_fee quote
                      then distribute_staking_reward L H (sq_community_fee quote) now else give ()) (\<lambda>_.
             andthen (set_pool_reserves (h_get H) (h_put H) (sq_new_pool_zagros quote) (sq_new_pool_zerenya quote))
               (\<lambda>_. give sender)))))))"

text \<open>The volume is recorded before the amount out is known; an error later takes it back with the rest.\<close>

definition swap_sell ::
  "'m executor_libs_scheme \<Rightarrow> ('s \<times> volatile) host \<Rightarrow> transaction \<Rightarrow> nat \<Rightarrow> account \<Rightarrow>
     ('s \<times> volatile, account) action" where
  "swap_sell L H tx now sender =
     (if ac_balance sender < tx_amount tx then stop InsufficientBalance
      else andthen (get_pool_reserves (h_get H)) (\<lambda>(res_zagros, res_zerenya).
        if res_zagros < MIN_POOL_LIQUIDITY_ZAGROS \<or> res_zerenya < MIN_POOL_LIQUIDITY_ZERENYA
        then stop (Other ''Insufficient liquidity'')
        else if swap_cap res_zagros < tx_amount tx then stop (Other ''Swap too large'')
        else
          andthen (record_volume_and_compute_fee_bps (lx_tracker L) (h_get H) (h_put H) ZagrosIn (tx_amount tx)
            res_zagros (as_u64 now)) (\<lambda>fee_bps.
          andthen (lift (swap_amount_out_min tx)) (\<lambda>amount_out_min.
          let swap_fee = sat_mul u128_max (tx_amount tx) fee_bps div 10000;
              input_with_fee = sat_sub (tx_amount tx) swap_fee
          in andthen (if 0 < swap_fee then distribute_staking_reward L H swap_fee now else give ()) (\<lambda>_.
             andthen (lift (amm_quotient input_with_fee res_zerenya (sat_add u256_max res_zagros input_with_fee)))
               (\<lambda>zsc_out.
               if zsc_out = 0 then stop (Other ''Likidite yetersiz'')
               else if zsc_out < amount_out_min then stop (Other ''Slippage'')
               else let sender = sender\<lparr>ac_balance := sat_sub (ac_balance sender) (tx_amount tx),
                      ac_zerenya_balance := sat_add u128_max (ac_zerenya_balance sender) zsc_out\<rparr>
                 in andthen (set_pool_reserves (h_get H) (h_put H) (sat_add u128_max res_zagros input_with_fee)
                      (sat_sub res_zerenya zsc_out)) (\<lambda>_. give sender)))))))"

section \<open>Stake\<close>

text \<open>
  The reward due before a change of stake is paid from the reward pool as far as it goes: the account
  after the payment, and what is still owed. Both callers hold it inline.
\<close>

definition pay_pending_reward :: "'s host \<Rightarrow> account \<Rightarrow> nat \<Rightarrow> ('s, account \<times> nat) action" where
  "pay_pending_reward H sender acc =
     (let due = sat_sub (reward_owed (ac_staked_balance sender) acc) (ac_reward_debt sender)
      in if due = 0 then give (sender, 0)
         else andthen (h_get H VALIDATOR_REWARD_POOL) (\<lambda>found.
           let treasury = unwrap_or_default found;
               payout = (if ac_balance treasury < due then ac_balance treasury else due)
           in andthen (h_put H VALIDATOR_REWARD_POOL
                (treasury\<lparr>ac_balance := sat_sub (ac_balance treasury) payout\<rparr>)) (\<lambda>_.
              give (sender\<lparr>ac_balance := sat_add u128_max (ac_balance sender) payout\<rparr>, sat_sub due payout))))"

definition stake_zagros ::
  "'s host \<Rightarrow> transaction \<Rightarrow> nat \<Rightarrow> account \<Rightarrow> ('s, account) action" where
  "stake_zagros H tx now sender =
     (if ac_balance sender < tx_amount tx then stop InsufficientBalance
      else andthen (settle_pending_stake H sender now) (\<lambda>sender.
        let sender = sender\<lparr>ac_balance := sat_sub (ac_balance sender) (tx_amount tx)\<rparr>
        in andthen (get_accumulated_reward_per_share (h_get H)) (\<lambda>acc.
           andthen (if 0 < ac_staked_balance sender then pay_pending_reward H sender acc else give (sender, 0))
             (\<lambda>(sender, unpaid).
               give (sender\<lparr>
                 ac_pending_stake_amount := sat_add u128_max (ac_pending_stake_amount sender) (tx_amount tx),
                 ac_pending_stake_activation_time := sat_add u128_max now REWARD_VESTING_SECONDS,
                 ac_reward_debt := sat_sub (reward_owed (ac_staked_balance sender) acc) unpaid\<rparr>)))))"

definition UNSTAKE_LOCK_SECONDS :: nat where
  "UNSTAKE_LOCK_SECONDS = 172800"

text \<open>With no amount the matured stake comes out; the handler then writes the account itself and ends.\<close>

definition withdraw_unstaked :: "transaction \<Rightarrow> account \<Rightarrow> account result" where
  "withdraw_unstaked tx sender =
     (if ac_pending_unstake_amount sender = 0 then Inl (StakingError ''Bekleyen bakiye yok'')
      else if tx_timestamp tx < ac_unlock_time sender then Inl (StakingError ''Kilit devam ediyor.'')
      else Inr (sender\<lparr>ac_pending_unstake_amount := 0,
             ac_balance := sat_add u128_max (ac_balance sender) (ac_pending_unstake_amount sender)\<rparr>))"

definition take_from_active :: "'s host \<Rightarrow> nat \<Rightarrow> account \<Rightarrow> ('s, account) action" where
  "take_from_active H from_active sender =
     (if from_active = 0 then give sender
      else andthen (get_accumulated_reward_per_share (h_get H)) (\<lambda>acc.
        andthen (pay_pending_reward H sender acc) (\<lambda>(sender, unpaid).
          let sender = sender\<lparr>ac_staked_balance := sat_sub (ac_staked_balance sender) from_active\<rparr>;
              sender = sender\<lparr>ac_reward_debt := sat_sub (reward_owed (ac_staked_balance sender) acc) unpaid\<rparr>
          in andthen (h_get H GLOBAL_TOTAL_STAKED) (\<lambda>found.
             let tracker = unwrap_or_default found
             in andthen (h_put H GLOBAL_TOTAL_STAKED
                  (tracker\<lparr>ac_balance := sat_sub (ac_balance tracker) from_active\<rparr>)) (\<lambda>_. give sender)))))"

definition lock_unstaked :: "'m libs_scheme \<Rightarrow> 's host \<Rightarrow> transaction \<Rightarrow> nat \<Rightarrow> account \<Rightarrow> ('s, account) action" where
  "lock_unstaked L H tx now sender =
     (if u128_max < tx_timestamp tx + UNSTAKE_LOCK_SECONDS then stop RustPanic
      else let sender = sender\<lparr>
             ac_pending_unstake_amount := sat_add u128_max (ac_pending_unstake_amount sender) (tx_amount tx),
             ac_unlock_time := tx_timestamp tx + UNSTAKE_LOCK_SECONDS\<rparr>
        in if \<not> ac_is_registered_validator sender then give sender
           else andthen (load_chain_params L H) (\<lambda>p.
             give (sender\<lparr>ac_bond_unlock_at :=
               max (ac_bond_unlock_at sender) (sat_add u128_max now (p_bond_lock_seconds p))\<rparr>)))"

definition unstake_amount :: "'m libs_scheme \<Rightarrow> 's host \<Rightarrow> transaction \<Rightarrow> nat \<Rightarrow> account \<Rightarrow> ('s, account) action" where
  "unstake_amount L H tx now sender =
     (if 0 < ac_pending_unstake_amount sender then stop (StakingError ''Aktif kilit var'')
      else andthen (settle_pending_stake H sender now) (\<lambda>sender.
        if sat_add u128_max (ac_staked_balance sender) (ac_pending_stake_amount sender) < tx_amount tx
        then stop (StakingError ''Bakiye yetersiz'')
        else let from_pending = min (tx_amount tx) (ac_pending_stake_amount sender);
                 from_active = tx_amount tx - from_pending;
                 sender = sender\<lparr>ac_pending_stake_amount := ac_pending_stake_amount sender - from_pending\<rparr>;
                 sender = (if ac_pending_stake_amount sender = 0
                   then sender\<lparr>ac_pending_stake_activation_time := 0\<rparr> else sender)
          in andthen (take_from_active H from_active sender) (lock_unstaked L H tx now)))"

text \<open>No account is returned when the handler has written it already.\<close>

definition unstake_zagros ::
  "'m executor_libs_scheme \<Rightarrow> 's host \<Rightarrow> transaction \<Rightarrow> nat \<Rightarrow> address \<Rightarrow> account \<Rightarrow>
     ('s, account option) action" where
  "unstake_zagros L H tx now sender_key sender =
     (if 0 < ac_bond_unlock_at sender \<and> now < ac_bond_unlock_at sender
      then stop (StakingError ''Teminat bond lock suresi icinde kilitli'')
      else if tx_amount tx = 0
      then andthen (lift (withdraw_unstaked tx sender)) (\<lambda>sender.
           andthen (h_put H sender_key sender) (\<lambda>_.
           andthen (save_dummy_receipt L H tx) (\<lambda>_. give None)))
      else andthen (unstake_amount L H tx now sender) (\<lambda>sender. give (Some sender)))"

definition claim_reward :: "'s host \<Rightarrow> nat \<Rightarrow> account \<Rightarrow> ('s, account) action" where
  "claim_reward H now sender =
     andthen (settle_pending_stake H sender now) (\<lambda>sender.
       if ac_staked_balance sender = 0 then give sender
       else andthen (get_accumulated_reward_per_share (h_get H)) (\<lambda>acc.
         let due = sat_sub (reward_owed (ac_staked_balance sender) acc) (ac_reward_debt sender)
         in if due = 0 then give sender
            else andthen (h_get H VALIDATOR_REWARD_POOL) (\<lambda>found.
              let treasury = unwrap_or_default found;
                  payout = (if ac_balance treasury < due then ac_balance treasury else due)
              in if payout = 0 then give sender
                 else andthen (h_put H VALIDATOR_REWARD_POOL
                        (treasury\<lparr>ac_balance := sat_sub (ac_balance treasury) payout\<rparr>)) (\<lambda>_.
                      give (sender\<lparr>ac_balance := sat_add u128_max (ac_balance sender) payout,
                        ac_reward_debt := sat_add u128_max (ac_reward_debt sender) payout\<rparr>)))))"

end
