(* ===== verification/TxSlashing.thy ===== *)
theory TxSlashing
  imports TxTransfers
begin

text \<open>
  The handlers of \<open>execute_transaction_inner\<close> (\<open>crates/zagros-executor/src/lib.rs\<close>) that take stake
  away: \<open>SlashValidator\<close> by the admin, and \<open>ReportMalicious\<close> by anyone who brings a proof of
  equivocation.
\<close>

section \<open>Reports\<close>

record slashing_proof =
  sp_validator :: address
  sp_block_hash :: hash
  sp_conflicting_block_hash :: hash
  sp_first_signature :: bytes
  sp_second_signature :: bytes
  sp_epoch :: nat
  sp_timestamp :: nat

datatype equivocation_report = Legacy slashing_proof | ConsensusEvidence evidence

text \<open>\<open>ln_ed_verify\<close> is \<open>ed25519-dalek\<close>'s plain \<open>verify\<close>, which registrations are checked with.\<close>

record native_libs = bridge_libs +
  ln_de_report :: "bytes \<Rightarrow> equivocation_report option"
  ln_ed_verify :: "pubkey \<Rightarrow> hash \<Rightarrow> bytes \<Rightarrow> bool"

section \<open>Confiscation\<close>

text \<open>All three pots, as the source adds them up.\<close>

definition seizable :: "account \<Rightarrow> nat" where
  "seizable a = sat_add u128_max (sat_add u128_max (ac_staked_balance a) (ac_pending_unstake_amount a))
     (ac_pending_stake_amount a)"

definition confiscate :: "nat \<Rightarrow> account \<Rightarrow> account" where
  "confiscate now a = a\<lparr>ac_staked_balance := 0, ac_pending_unstake_amount := 0, ac_unlock_time := 0,
     ac_pending_stake_amount := 0, ac_pending_stake_activation_time := 0,
     ac_is_registered_validator := False, ac_jailed_until := sat_add u128_max now JAIL_DURATION_SECONDS\<rparr>"

definition jail_validator :: "account \<Rightarrow> account" where
  "jail_validator a = a\<lparr>ac_validator_status := Some Jailed\<rparr>"

text \<open>The height is read first; the status is set only where there is one.\<close>

definition jail_at_d14 :: "'s host \<Rightarrow> account \<Rightarrow> ('s, account) action" where
  "jail_at_d14 H a =
     andthen (d14_active H) (\<lambda>active.
       give (if active \<and> ac_validator_status a \<noteq> None then jail_validator a else a))"

text \<open>\<open>__GLOBAL_TOTAL_STAKED__\<close> counts active stake only.\<close>

definition lower_total_staked :: "'s host \<Rightarrow> nat \<Rightarrow> ('s, unit) action" where
  "lower_total_staked H amount =
     andthen (h_get H GLOBAL_TOTAL_STAKED) (\<lambda>found.
       let tracker = unwrap_or_default found
       in h_put H GLOBAL_TOTAL_STAKED (tracker\<lparr>ac_balance := sat_sub (ac_balance tracker) amount\<rparr>))"

definition eq_ignore_ascii_case :: "string \<Rightarrow> string \<Rightarrow> bool" where
  "eq_ignore_ascii_case a b \<longleftrightarrow> to_ascii_lowercase a = to_ascii_lowercase b"

section \<open>The admin's seizure\<close>

definition slash_validator ::
  "'m executor_libs_scheme \<Rightarrow> exec_config \<Rightarrow> ('s \<times> volatile) host \<Rightarrow> transaction \<Rightarrow> nat \<Rightarrow> address \<Rightarrow> account \<Rightarrow>
     ('s \<times> volatile, account) action" where
  "slash_validator L F H tx now sender_key sender =
     (if tx_sender tx \<noteq> cf_admin_authority F then stop (Other ''Yetkisiz!'')
      else andthen (is_admin_authority_active H now) (\<lambda>active.
        if \<not> active then stop (Other ''Admin authority has expired - SlashValidator is permanently disabled'')
        else let target_address = slash_target_address (lb_from_utf8 L) (lb_hex L) (tx_receiver tx) (tx_payload tx);
                 is_self = eq_ignore_ascii_case target_address sender_key
          in andthen (if is_self then give sender
                      else andthen (h_get H target_address) (\<lambda>found. give (unwrap_or_default found))) (\<lambda>target.
             let confiscated = seizable target;
                 staked_before = ac_staked_balance target
             in if confiscated = 0 then stop (StakingError ''No stake!'')
                else andthen (jail_at_d14 H (confiscate now target)) (\<lambda>target.
                     andthen (if is_self then give target
                              else andthen (h_put H target_address target) (\<lambda>_. give sender)) (\<lambda>sender.
                     andthen (lower_total_staked H staked_before) (\<lambda>_.
                     andthen (distribute_staking_reward L H confiscated now) (\<lambda>_.
                     andthen (record_slash_history L H target_address AdminEmergencySeizure confiscated now) (\<lambda>_.
                       give sender))))))))"

section \<open>Equivocation\<close>

text \<open>
  A vote does not name its epoch: the snapshots in the window are tried, newest first. A header does.
\<close>

definition candidate_epochs :: "evidence \<Rightarrow> nat \<Rightarrow> nat \<Rightarrow> nat list result" where
  "candidate_epochs ev low current_epoch =
     (case ev of
        DoublePropose a b \<Rightarrow>
          if h_epoch (sh_header a) \<noteq> h_epoch (sh_header b)
          then Inl (Other ''DoublePropose: iki baslik farkli epoch'')
          else Inr [h_epoch (sh_header a)]
      | DoubleVote a b \<Rightarrow> Inr (rev [low..<current_epoch + 1]))"

fun resolve_evidence_set ::
  "'m libs_scheme \<Rightarrow> 's host \<Rightarrow> evidence \<Rightarrow> consensus_domain \<Rightarrow> nat \<Rightarrow> nat list \<Rightarrow>
     ('s, active_validator_set option) action" where
  "resolve_evidence_set L H ev domain low [] = give None"
| "resolve_evidence_set L H ev domain low (e # es) =
     (if e < low then resolve_evidence_set L H ev domain low es
      else andthen (attempt (load_validator_set_at_epoch L H e)) (\<lambda>loaded.
        case loaded of
          None \<Rightarrow> resolve_evidence_set L H ev domain low es
        | Some vset \<Rightarrow>
            if is_ok (verify_evidence (lb_crypto L) ev domain vset) then give (Some vset)
            else resolve_evidence_set L H ev domain low es))"

definition accused_of :: "active_validator_set \<Rightarrow> evidence \<Rightarrow> address \<Rightarrow> address result" where
  "accused_of vset ev receiver =
     (if length (vs_members vset) \<le> ev_validator_idx ev
      then Inl (Other ''evidence validator_idx kume disinda'')
      else let resolved = m_address (vs_members vset ! ev_validator_idx ev)
        in if \<not> eq_ignore_ascii_case resolved receiver
           then Inl (Other ''tx.receiver evidence'')
           else canonical_account_address resolved)"

definition resolve_report ::
  "'m native_libs_scheme \<Rightarrow> 's host \<Rightarrow> transaction \<Rightarrow> ('s, address) action" where
  "resolve_report L H tx =
     (case ln_de_report L (tx_payload tx) of
        None \<Rightarrow> stop (Other ''ReportMalicious requires a valid EquivocationReport payload'')
      | Some (Legacy proof) \<Rightarrow> stop (Other ''Legacy SlashingProof kanit yolu KAPATILDI'')
      | Some (ConsensusEvidence ev) \<Rightarrow>
          andthen (lift (evidence_validate_structure (lb_crypto L) ev)) (\<lambda>_.
          andthen (load_consensus_domain H) (\<lambda>domain.
          andthen (load_chain_params L H) (\<lambda>params.
          andthen (load_active_set L H) (\<lambda>vset.
            let current_epoch = vs_epoch vset;
                low = sat_sub current_epoch (p_evidence_max_age_epochs params)
            in andthen (lift (candidate_epochs ev low current_epoch)) (\<lambda>epochs.
               andthen (resolve_evidence_set L H ev domain low epochs) (\<lambda>resolved.
                 case resolved of
                   None \<Rightarrow> stop (Other ''Evidence dogrulanamadi'')
                 | Some vset \<Rightarrow> lift (accused_of vset ev (tx_receiver tx)))))))))"

definition report_malicious ::
  "'m native_libs_scheme \<Rightarrow> ('s \<times> volatile) host \<Rightarrow> transaction \<Rightarrow> nat \<Rightarrow> address \<Rightarrow> account \<Rightarrow>
     ('s \<times> volatile, account) action" where
  "report_malicious L H tx now sender_key sender =
     andthen (resolve_report L H tx) (\<lambda>target_key.
     let proof_hash = keccak (lb_crypto L) (tx_payload tx)
     in andthen (is_slashing_proof_used L H proof_hash) (\<lambda>used.
        if used then stop (Other ''Bu double-sign kaniti daha once kullanildi'')
        else if target_key = sender_key then stop (Other ''ReportMalicious kendi hesab'')
        else andthen (h_get H target_key) (\<lambda>found.
          let target = unwrap_or_default found;
              total = seizable target;
              staked_before = ac_staked_balance target
          in if total = 0 then stop (StakingError ''Stake bulunamadi'')
             else andthen (lower_total_staked H staked_before) (\<lambda>_.
                  andthen (load_chain_params L H) (\<lambda>params.
                  let reporter_reward = sat_mul u128_max total (p_reporter_reward_cap_bps params) div 10000;
                      treasury_share = sat_sub total reporter_reward
                  in andthen (h_put H target_key (jail_validator (confiscate now target))) (\<lambda>_.
                     if u128_max < now + UNSTAKE_LOCK_SECONDS then stop RustPanic
                     else let sender = sender\<lparr>
                            ac_pending_unstake_amount := sat_add u128_max (ac_pending_unstake_amount sender) reporter_reward,
                            ac_unlock_time := now + UNSTAKE_LOCK_SECONDS\<rparr>
                       in andthen (distribute_staking_reward L H treasury_share now) (\<lambda>_.
                          andthen (mark_slashing_proof_used L H proof_hash) (\<lambda>_.
                          andthen (record_slash_history L H target_key DoubleSign total now) (\<lambda>_.
                            give sender)))))))))"

end
