(* ===== verification/Epoch.thy ===== *)
theory Epoch
  imports Governance
begin

text \<open>
  The end of an epoch: \<open>advance_epoch_if_due\<close> of \<open>crates/zagros-executor/src/validator_set.rs\<close>, stage
  by stage, and the transaction that carries an admin action, which may veto a proposal.

  The vector of accounts the source changes in place is a list handed from stage to stage; every
  change is also written to the state.
\<close>

section \<open>Changing the accounts in place\<close>

fun change_accounts ::
  "'s host \<Rightarrow> (address \<Rightarrow> account \<Rightarrow> ('s, account option) action) \<Rightarrow> (address \<times> account) list \<Rightarrow>
     ('s, (address \<times> account) list) action" where
  "change_accounts H f [] = give []"
| "change_accounts H f ((addr, acc) # rest) =
     andthen (f addr acc) (\<lambda>changed.
     andthen (case changed of None \<Rightarrow> give acc | Some acc' \<Rightarrow> andthen (h_put H addr acc') (\<lambda>_. give acc')) (\<lambda>acc.
     andthen (change_accounts H f rest) (\<lambda>rest. give ((addr, acc) # rest))))"

definition with_status :: "validator_status \<Rightarrow> nat \<Rightarrow> account \<Rightarrow> account" where
  "with_status status epoch acc =
     sync_registered_flag (acc\<lparr>ac_validator_status := Some status, ac_validator_status_epoch := epoch\<rparr>)"

definition no_liveness :: liveness_counters where
  "no_liveness = \<lparr>lc_epoch = 0, lc_participated = 0, lc_total = 0, lc_strikes = 0\<rparr>"

section \<open>Amnesty\<close>

definition LIVENESS_JAIL_AMNESTY_EPOCH :: nat where
  "LIVENESS_JAIL_AMNESTY_EPOCH = 57"

definition amnesty :: "nat \<Rightarrow> account \<Rightarrow> account option" where
  "amnesty current_epoch acc =
     (if ac_validator_status acc = Some Jailed \<and> 0 < ac_staked_balance acc
      then Some (with_status Probation current_epoch (acc\<lparr>ac_jailed_until := 0, ac_liveness := no_liveness\<rparr>))
      else None)"

section \<open>Changes of status\<close>

text \<open>What an epoch needs to know to judge an account.\<close>

record epoch_rules =
  er_params :: chain_params
  er_min_stake :: nat
  er_now_secs :: nat
  er_current_epoch :: nat
  er_past_epoch :: nat

definition stake_threshold :: "epoch_rules \<Rightarrow> account \<Rightarrow> nat" where
  "stake_threshold R acc =
     qualification_threshold (ac_validator_stake_snapshot acc) (er_min_stake R) (p_stake_hysteresis_bps (er_params R))"

text \<open>The strikes of an active validator, when the past epoch measured it.\<close>

definition count_strike :: "epoch_rules \<Rightarrow> account \<Rightarrow> account option" where
  "count_strike R acc =
     (if lc_epoch (ac_liveness acc) = er_past_epoch R
      then (case participation_bps (ac_liveness acc) of
          None \<Rightarrow> None
        | Some bps \<Rightarrow> Some (acc\<lparr>ac_liveness := (ac_liveness acc)\<lparr>lc_strikes :=
            (if bps < effective_uptime_threshold_bps_at (er_params R) (er_current_epoch R)
             then sat_add u32_max (lc_strikes (ac_liveness acc)) 1 else 0)\<rparr>\<rparr>))
      else None)"

text \<open>The account an active validator leaves, whether it changed, and whether it is up for demotion.\<close>

definition judge_active :: "epoch_rules \<Rightarrow> account \<Rightarrow> account \<times> bool \<times> bool" where
  "judge_active R acc =
     (let measured = count_strike R acc;
          acc = (case measured of None \<Rightarrow> acc | Some a \<Rightarrow> a);
          changed = (measured \<noteq> None);
          struck = (effective_max_liveness_strikes_at (er_params R) (er_current_epoch R) \<le> lc_strikes (ac_liveness acc))
      in if struck \<and> \<not> liveness_v2_active (er_current_epoch R)
         then (acc\<lparr>ac_validator_status := Some Jailed,
                 ac_jailed_until := sat_add u128_max (er_now_secs R) JAIL_DURATION_SECONDS,
                 ac_bond_unlock_at := max (ac_bond_unlock_at acc)
                   (sat_add u128_max (er_now_secs R) (p_bond_lock_seconds (er_params R))),
                 ac_liveness := (ac_liveness acc)\<lparr>lc_strikes := 0\<rparr>\<rparr>, True, False)
         else if struck then (acc, changed, True)
         else if ac_staked_balance acc < stake_threshold R acc
           then (acc\<lparr>ac_validator_status := Some Probation\<rparr>, True, False)
         else (acc, changed, False))"

definition judge :: "epoch_rules \<Rightarrow> account \<Rightarrow> account \<times> bool \<times> bool" where
  "judge R acc =
     (case ac_validator_status acc of
        Some Exiting \<Rightarrow> (acc\<lparr>ac_validator_status := Some Removed\<rparr>, True, False)
      | Some Jailed \<Rightarrow>
          if ac_jailed_until acc \<le> er_now_secs R
          then (acc\<lparr>ac_validator_status := Some Candidate\<rparr>, True, False) else (acc, False, False)
      | Some Active \<Rightarrow> judge_active R acc
      | _ \<Rightarrow> (acc, False, False))"

text \<open>Every account in turn, with the indices of those up for demotion.\<close>

fun judge_accounts ::
  "'s host \<Rightarrow> epoch_rules \<Rightarrow> nat \<Rightarrow> (address \<times> account) list \<Rightarrow>
     ('s, (address \<times> account) list \<times> nat list) action" where
  "judge_accounts H R idx [] = give ([], [])"
| "judge_accounts H R idx ((addr, acc) # rest) =
     (case judge R acc of (acc, changed, demote) \<Rightarrow>
      andthen (if changed
               then (let acc = sync_registered_flag (acc\<lparr>ac_validator_status_epoch := er_current_epoch R\<rparr>)
                     in andthen (h_put H addr acc) (\<lambda>_. give acc))
               else give acc) (\<lambda>acc.
      andthen (judge_accounts H R (idx + 1) rest) (\<lambda>(rest, demotions).
        give ((addr, acc) # rest, if demote then idx # demotions else demotions))))"

section \<open>Demotions for liveness\<close>

definition demote :: "nat \<Rightarrow> account \<Rightarrow> account" where
  "demote current_epoch acc =
     with_status Probation current_epoch
       (acc\<lparr>ac_liveness := (ac_liveness acc)\<lparr>lc_strikes := 0, lc_participated := 0, lc_total := 0\<rparr>\<rparr>)"

fun change_at ::
  "'s host \<Rightarrow> (account \<Rightarrow> account) \<Rightarrow> nat list \<Rightarrow> (address \<times> account) list \<Rightarrow> ('s, (address \<times> account) list) action" where
  "change_at H f [] accounts = give accounts"
| "change_at H f (i # is) accounts =
     (let (addr, acc) = accounts ! i; acc = f acc
      in andthen (h_put H addr acc) (\<lambda>_. change_at H f is (accounts[i := (addr, acc)])))"

definition with_status_count :: "validator_status option set \<Rightarrow> (address \<times> account) list \<Rightarrow> nat" where
  "with_status_count statuses accounts = length (filter (\<lambda>(_, a). ac_validator_status a \<in> statuses) accounts)"

definition apply_demotions ::
  "'s host \<Rightarrow> nat \<Rightarrow> nat list \<Rightarrow> (address \<times> account) list \<Rightarrow> ('s, (address \<times> account) list) action" where
  "apply_demotions H current_epoch demotions accounts =
     (if demotions = [] then give accounts
      else let active_now = with_status_count {Some Active} accounts;
               remaining = sat_sub active_now (length demotions)
        in if MIN_VALIDATORS \<le> remaining then change_at H (demote current_epoch) demotions accounts
           else give accounts)"

section \<open>Promotions\<close>

definition promote_probation :: "epoch_rules \<Rightarrow> account \<Rightarrow> account option" where
  "promote_probation R acc =
     (if ac_validator_status acc \<noteq> Some Probation then None
      else if sat_sub (er_current_epoch R) (ac_validator_status_epoch acc) < p_probation_epochs (er_params R) then None
      else let passed = (case participation_bps (ac_liveness acc) of
                 None \<Rightarrow> False
               | Some bps \<Rightarrow> effective_uptime_threshold_bps_at (er_params R) (er_current_epoch R) \<le> bps)
        in if passed \<and> stake_threshold R acc \<le> ac_staked_balance acc \<and> ac_consensus_pubkey acc \<noteq> NIL_HASH
           then Some (with_status Active (er_current_epoch R) acc) else None)"

definition approved_order :: "(address \<times> account) list \<Rightarrow> nat list" where
  "approved_order accounts =
     sort_key (\<lambda>i. (ac_validator_registered_at (snd (accounts ! i)), fst (accounts ! i)))
       (filter (\<lambda>i. ac_validator_status (snd (accounts ! i)) = Some Approved) [0..<length accounts])"

definition promote_approved ::
  "'s host \<Rightarrow> epoch_rules \<Rightarrow> (address \<times> account) list \<Rightarrow> ('s, (address \<times> account) list) action" where
  "promote_approved H R accounts =
     (let used = as_u16 (with_status_count {Some Active, Some Probation} accounts);
          free_slots = sat_sub (p_max_validators (er_params R)) used
      in change_at H (\<lambda>acc. with_status Probation (er_current_epoch R) (acc\<lparr>ac_liveness := no_liveness\<rparr>))
           (take free_slots (approved_order accounts)) accounts)"

section \<open>The new set\<close>

definition member_of :: "address \<times> account \<Rightarrow> validator_member" where
  "member_of aa = \<lparr>m_address = fst aa, m_consensus_pubkey = ac_consensus_pubkey (snd aa)\<rparr>"

definition elected_set :: "nat \<Rightarrow> (address \<times> account) list \<Rightarrow> active_validator_set" where
  "elected_set current_epoch accounts =
     \<lparr>vs_epoch = current_epoch,
      vs_members = map member_of
        (sort_key (\<lambda>(addr, a). (ac_validator_registered_at a, ac_validator_status_epoch a, addr))
          (filter (\<lambda>(_, a). ac_validator_status a = Some Active) accounts))\<rparr>"

definition kept_set :: "nat \<Rightarrow> active_validator_set \<Rightarrow> (address \<times> pubkey) list \<Rightarrow> active_validator_set" where
  "kept_set current_epoch vset rotated =
     \<lparr>vs_epoch = current_epoch,
      vs_members = map (\<lambda>m. m\<lparr>m_consensus_pubkey :=
        (case List.find (\<lambda>(a, _). a = m_address m) rotated of
           None \<Rightarrow> m_consensus_pubkey m | Some (_, pk) \<Rightarrow> pk)\<rparr>) (vs_members vset)\<rparr>"

definition choose_set ::
  "nat \<Rightarrow> active_validator_set \<Rightarrow> (address \<times> account) list \<Rightarrow> (address \<times> pubkey) list \<Rightarrow> active_validator_set" where
  "choose_set current_epoch vset accounts rotated =
     (let new_set = elected_set current_epoch accounts
      in if vs_len new_set < MIN_VALIDATORS \<or> MAX_VALIDATORS_HARD < vs_len new_set
         then kept_set current_epoch vset rotated else new_set)"

definition store_epoch_set :: "'m gov_libs_scheme \<Rightarrow> 's host \<Rightarrow> active_validator_set \<Rightarrow> ('s, active_validator_set) action" where
  "store_epoch_set L H vset =
     andthen (store_active_set L H vset) (\<lambda>_.
     andthen (store_active_set_epoch_snapshot L H vset) (\<lambda>_.
     andthen (process_at_epoch L H (vs_epoch vset) vset) (\<lambda>_.
     andthen (maybe_activate_scheduled_upgrade L H (vs_epoch vset) vset) (\<lambda>_.
       give vset))))"

section \<open>The passing of an epoch\<close>

definition advance_accounts ::
  "'m validator_libs_scheme \<Rightarrow> 's host \<Rightarrow> epoch_rules \<Rightarrow> (address \<times> account) list \<Rightarrow>
     ('s, (address \<times> account) list \<times> (address \<times> pubkey) list) action" where
  "advance_accounts L H R accounts =
     andthen (change_accounts H (\<lambda>_ acc. settle_matured_stake H acc (er_now_secs R)) accounts) (\<lambda>accounts.
     andthen (apply_pending_key_rotations L H (er_current_epoch R) accounts) (\<lambda>(accounts, rotated).
     andthen (if er_current_epoch R = LIVENESS_JAIL_AMNESTY_EPOCH
              then change_accounts H (\<lambda>_ acc. give (amnesty (er_current_epoch R) acc)) accounts
              else give accounts) (\<lambda>accounts.
     andthen (judge_accounts H R 0 accounts) (\<lambda>(accounts, demotions).
     andthen (apply_demotions H (er_current_epoch R) demotions accounts) (\<lambda>accounts.
     andthen (change_accounts H (\<lambda>_ acc. give (promote_probation R acc)) accounts) (\<lambda>accounts.
     andthen (promote_approved H R accounts) (\<lambda>accounts.
       give (accounts, rotated))))))))"

definition advance_epoch_if_due ::
  "'m gov_libs_scheme \<Rightarrow> 's host \<Rightarrow> nat \<Rightarrow> ('s, active_validator_set) action" where
  "advance_epoch_if_due L H block_timestamp_secs =
     andthen (load_chain_params L H) (\<lambda>params.
     andthen (genesis_timestamp H) (\<lambda>genesis_ts.
       let current_epoch = epoch_at block_timestamp_secs genesis_ts (p_epoch_seconds params)
       in andthen (load_active_set L H) (\<lambda>vset.
          if current_epoch \<le> vs_epoch vset then give vset
          else andthen (min_validator_stake_zagros H params) (\<lambda>min_stake.
               andthen (registered_validator_accounts L H) (\<lambda>accounts.
               andthen (advance_accounts L H \<lparr>er_params = params, er_min_stake = min_stake,
                   er_now_secs = block_timestamp_secs, er_current_epoch = current_epoch,
                   er_past_epoch = vs_epoch vset\<rparr> accounts) (\<lambda>(accounts, rotated).
                 store_epoch_set L H (choose_set current_epoch vset accounts rotated)))))))"

section \<open>Admin actions\<close>

definition apply_admin_action_tx ::
  "'m gov_libs_scheme \<Rightarrow> 's host \<Rightarrow> admin_action \<Rightarrow> bytes \<Rightarrow> nat \<Rightarrow> ('s, address) action" where
  "apply_admin_action_tx L H action payload_bytes now_secs =
     andthen (lift (admin_payload_decode (lv_de_admin L) payload_bytes)) (\<lambda>payload.
       if \<not> (aa_action payload = action \<or> (action = Approve \<and> aa_action payload = VetoProposal))
       then stop (Other ''payload aksiyonu tx turuyle uyusmuyor'')
       else andthen (load_chain_params L H) (\<lambda>params.
            andthen (genesis_timestamp H) (\<lambda>genesis_ts.
              let current_epoch = epoch_at now_secs genesis_ts (p_epoch_seconds params)
              in andthen (admin_phase_active H now_secs) (\<lambda>active.
                 if \<not> active then stop (Other ''Faz A sona erdi'')
                 else andthen (verify_admin_action L H payload current_epoch) (\<lambda>_.
                      andthen (case aa_action payload of
                          Approve \<Rightarrow> apply_admin_approve L H (aa_target payload) current_epoch
                        | Remove \<Rightarrow> apply_admin_remove L H (aa_target payload) now_secs current_epoch
                        | VetoProposal \<Rightarrow> apply_veto L H (aa_target payload)) (\<lambda>_.
                      give (to_ascii_lowercase (aa_target payload))))))))"

end
