(* ===== verification/TxValidators.thy ===== *)
theory TxValidators
  imports TxSlashing Epoch
begin

text \<open>
  The handlers of \<open>execute_transaction_inner\<close> (\<open>crates/zagros-executor/src/lib.rs\<close>) for the life of
  a validator: \<open>RegisterValidator\<close>, \<open>UnregisterValidator\<close>, \<open>ApproveValidator\<close>, \<open>RemoveValidator\<close>,
  \<open>RotateConsensusKey\<close>.
\<close>

section \<open>Registration\<close>

text \<open>The proof is of the account's ownership of the key: \<open>key_ownership_digest\<close> is what both sides hash.\<close>

definition check_ownership ::
  "'m native_libs_scheme \<Rightarrow> string \<Rightarrow> string \<Rightarrow> pubkey \<Rightarrow> hash \<Rightarrow> bytes \<Rightarrow> unit result" where
  "check_ownership L key_message proof_message pk digest proof =
     (if \<not> ed_key_ok (lb_crypto L) pk then Inl (Other key_message)
      else if length proof \<noteq> 64 then Inl InvalidSignature
      else if \<not> ln_ed_verify L pk digest proof then Inl (Other proof_message)
      else Inr ())"

definition in_life_cycle :: "validator_status option \<Rightarrow> bool" where
  "in_life_cycle s = (s \<in> {Some Candidate, Some Approved, Some Probation, Some Active, Some Exiting})"

definition can_leave :: "validator_status option \<Rightarrow> bool" where
  "can_leave s = (s \<in> {Some Candidate, Some Approved, Some Probation, Some Active})"

definition key_taken :: "address \<Rightarrow> pubkey \<Rightarrow> (address \<times> account) list \<Rightarrow> bool" where
  "key_taken sender_key pk others = (\<exists>(a, acc) \<in> set others. a \<noteq> sender_key \<and> ac_consensus_pubkey acc = pk)"

definition registered_account ::
  "register_validator_payload \<Rightarrow> nat \<Rightarrow> nat \<Rightarrow> nat \<Rightarrow> account \<Rightarrow> account" where
  "registered_account payload min_stake now epoch sender =
     sync_registered_flag (sender\<lparr>ac_validator_status := Some Candidate,
       ac_consensus_pubkey := rv_consensus_pubkey payload,
       ac_validator_declaration := rv_declaration payload, ac_validator_stake_snapshot := min_stake,
       ac_validator_registered_at := now, ac_liveness := no_liveness, ac_validator_status_epoch := epoch\<rparr>)"

definition register_validator ::
  "'m native_libs_scheme \<Rightarrow> 's host \<Rightarrow> transaction \<Rightarrow> nat \<Rightarrow> address \<Rightarrow> account \<Rightarrow> ('s, account) action" where
  "register_validator L H tx now sender_key sender =
     andthen (load_chain_params L H) (\<lambda>p.
     andthen (lift (register_payload_decode (lv_de_register L) (tx_payload tx))) (\<lambda>payload.
     andthen (load_consensus_domain H) (\<lambda>domain.
     andthen (lift (check_ownership L ''gecersiz consensus_pubkey'' ''consensus anahtari sahiplik kaniti gecersiz''
       (rv_consensus_pubkey payload) (key_ownership_digest (lb_crypto L) domain sender_key None)
       (rv_ownership_proof payload))) (\<lambda>_.
       if in_life_cycle (ac_validator_status sender) then stop (StakingError ''Zaten kayitli validator'')
       else if now < ac_jailed_until sender
         then stop (StakingError ''Hapis suresi dolmadan yeniden kayit olunamaz'')
       else andthen (min_validator_stake_zagros H p) (\<lambda>min_stake.
         if ac_staked_balance sender < min_stake then stop (StakingError ''Validator olmak icin teminat gerekir'')
         else andthen (registered_validator_accounts L H) (\<lambda>others.
           if key_taken sender_key (rv_consensus_pubkey payload) others
           then stop (Other ''consensus_pubkey baska bir validator'')
           else andthen (genesis_timestamp H) (\<lambda>genesis_ts.
             give (registered_account payload min_stake now (epoch_at now genesis_ts (p_epoch_seconds p)) sender))))))))"

section \<open>Leaving\<close>

definition unregister_validator :: "'m libs_scheme \<Rightarrow> 's host \<Rightarrow> nat \<Rightarrow> account \<Rightarrow> ('s, account) action" where
  "unregister_validator L H now sender =
     (if \<not> can_leave (ac_validator_status sender) then stop (StakingError ''Kayitli bir validator degil'')
      else andthen (load_chain_params L H) (\<lambda>p.
        give (sync_registered_flag (sender\<lparr>ac_validator_status := Some Exiting,
          ac_bond_unlock_at := sat_add u128_max now (p_bond_lock_seconds p)\<rparr>))))"

section \<open>Approval and removal\<close>

definition reject_self_target ::
  "'m validator_libs_scheme \<Rightarrow> 's host \<Rightarrow> string \<Rightarrow> transaction \<Rightarrow> address \<Rightarrow> ('s, unit) action" where
  "reject_self_target L H message tx sender_key =
     andthen (d14_active H) (\<lambda>active.
       if active \<and> validator_action_target (lv_de_admin L) (tx_kind tx) (tx_payload tx) = Some sender_key
       then stop (Other message) else give ())"

definition charge_application_fee ::
  "'m executor_libs_scheme \<Rightarrow> ('s \<times> volatile) host \<Rightarrow> nat \<Rightarrow> address \<Rightarrow> ('s \<times> volatile, unit) action" where
  "charge_application_fee L H now target =
     andthen (load_chain_params L H) (\<lambda>p.
     andthen (application_fee_zagros H p) (\<lambda>fee.
       if fee = 0 then give ()
       else andthen (h_get H target) (\<lambda>found.
         case found of
           None \<Rightarrow> stop (Other ''onay ucreti: aday hesabi yok'')
         | Some cand \<Rightarrow>
             if ac_balance cand < fee then stop InsufficientBalance
             else andthen (h_put H target (cand\<lparr>ac_balance := sat_sub (ac_balance cand) fee\<rparr>)) (\<lambda>_.
               distribute_staking_reward L H fee now))))"

definition approve_validator ::
  "'m gov_libs_scheme \<Rightarrow> ('s \<times> volatile) host \<Rightarrow> transaction \<Rightarrow> nat \<Rightarrow> address \<Rightarrow> account \<Rightarrow>
     ('s \<times> volatile, account) action" where
  "approve_validator L H tx now sender_key sender =
     andthen (reject_self_target L H ''ApproveValidator hedefin kendisi (D14)'' tx sender_key) (\<lambda>_.
     andthen (apply_admin_action_tx L H Approve (tx_payload tx) now) (\<lambda>target.
     andthen (lift (admin_payload_decode (lv_de_admin L) (tx_payload tx))) (\<lambda>payload.
     andthen (if aa_action payload = Approve then charge_application_fee L H now target else give ()) (\<lambda>_.
       give sender))))"

definition remove_validator ::
  "'m gov_libs_scheme \<Rightarrow> 's host \<Rightarrow> transaction \<Rightarrow> nat \<Rightarrow> address \<Rightarrow> account \<Rightarrow> ('s, account) action" where
  "remove_validator L H tx now sender_key sender =
     andthen (reject_self_target L H ''RemoveValidator hedefin kendisi (D14)'' tx sender_key) (\<lambda>_.
     andthen (apply_admin_action_tx L H Remove (tx_payload tx) now) (\<lambda>_. give sender))"

section \<open>Rotation\<close>

text \<open>The new key is neither in use by another nor waited for by another.\<close>

fun reject_taken_key ::
  "'m validator_libs_scheme \<Rightarrow> 's host \<Rightarrow> address \<Rightarrow> pubkey \<Rightarrow> (address \<times> account) list \<Rightarrow> ('s, unit) action" where
  "reject_taken_key L H sender_key pk [] = give ()"
| "reject_taken_key L H sender_key pk ((a, acc) # others) =
     (if a \<noteq> sender_key \<and> ac_consensus_pubkey acc = pk
      then stop (Other ''new_pubkey baska bir validator'')
      else if a \<noteq> sender_key
      then andthen (load_pending_key_rotation L H a) (\<lambda>pending.
        case pending of
          None \<Rightarrow> reject_taken_key L H sender_key pk others
        | Some rot \<Rightarrow>
            if kr_new_pubkey rot = pk then stop (Other ''new_pubkey baska bir validator bekleyen rotasyonunda'')
            else reject_taken_key L H sender_key pk others)
      else reject_taken_key L H sender_key pk others)"

definition rotate_consensus_key ::
  "'m native_libs_scheme \<Rightarrow> 's host \<Rightarrow> transaction \<Rightarrow> nat \<Rightarrow> address \<Rightarrow> account \<Rightarrow> ('s, account) action" where
  "rotate_consensus_key L H tx now sender_key sender =
     andthen (lift (rotate_payload_decode (lv_de_rotate L) (tx_payload tx))) (\<lambda>payload.
       if ac_consensus_pubkey sender = NIL_HASH \<or> \<not> can_leave (ac_validator_status sender)
       then stop (StakingError ''Rotasyon icin kayitli bir validator gerekir'')
       else if rk_new_pubkey payload = ac_consensus_pubkey sender
       then stop (Other ''yeni anahtar mevcut anahtarla ayni'')
       else andthen (load_consensus_domain H) (\<lambda>domain.
            andthen (lift (check_ownership L ''gecersiz new_pubkey'' ''rotasyon sahiplik kaniti gecersiz''
              (rk_new_pubkey payload)
              (key_ownership_digest (lb_crypto L) domain sender_key (Some (ac_consensus_pubkey sender)))
              (rk_ownership_proof payload))) (\<lambda>_.
            andthen (registered_validator_accounts L H) (\<lambda>others.
            andthen (reject_taken_key L H sender_key (rk_new_pubkey payload) others) (\<lambda>_.
            andthen (load_chain_params L H) (\<lambda>p.
            andthen (genesis_timestamp H) (\<lambda>genesis_ts.
            andthen (store_pending_key_rotation L H sender_key
              \<lparr>kr_new_pubkey = rk_new_pubkey payload,
               kr_requested_epoch = epoch_at now genesis_ts (p_epoch_seconds p)\<rparr>) (\<lambda>_.
              give sender))))))))"

end
