(* ===== verification/TxBridge.thy ===== *)
theory TxBridge
  imports TxTransfers
begin

text \<open>
  The handlers of \<open>execute_transaction_inner\<close> (\<open>crates/zagros-executor/src/lib.rs\<close>) for the bridge:
  \<open>BridgeMint\<close>, \<open>BridgeMintAndSwap\<close>, \<open>BridgeBurn\<close>, \<open>BridgeSwapAndBurn\<close>.
\<close>

section \<open>The signed proposal\<close>

definition validate_bridge_mint_proposal ::
  "'m bridge_libs_scheme \<Rightarrow> exec_config \<Rightarrow> 's host \<Rightarrow> transaction \<Rightarrow> bool \<Rightarrow> nat \<Rightarrow> ('s, bridge_proposal) action" where
  "validate_bridge_mint_proposal L F H tx expects_auto_swap now =
     andthen (lift (decode_proposal_payload L (tx_payload tx))) (\<lambda>p.
       if bp_proposal_id p \<noteq> tx_id tx then stop (BridgeError ''Payload oneri kimligi eslesmiyor'')
       else andthen (lift (proposal_is_executable p (cf_bridge_required_signatures F) (cf_bridge_timelock_secs F)
              (sat_mul u128_max now 1000))) (\<lambda>executable.
         if \<not> executable then stop (BridgeError ''Kopru onerisi yurutulebilir degil'')
         else andthen (load_bridge_authority_set L H) (\<lambda>authority_set.
           if count_valid_signatures_onchain (lb_crypto L) authority_set p CHAIN_ID
                < oa_required_signatures authority_set
           then stop (BridgeError ''Kopru onerisi icin yeterli GECERLI yetkili imzasi yok'')
           else if bp_tx_type p \<noteq> Mint then stop (BridgeError ''Kopru onerisi mint turunde degil'')
           else if bp_recipient p \<noteq> tx_receiver tx \<or> bp_amount p \<noteq> tx_amount tx
             then stop (BridgeError ''Islem imzalanan oneriyle eslesmiyor'')
           else if bp_auto_swap p \<noteq> expects_auto_swap
             then stop (BridgeError ''Islem turu auto_swap ile eslesmiyor'')
           else andthen (is_source_processed_in_state H (bp_source_chain p) (bp_source_tx_hash p)) (\<lambda>processed.
             if processed then stop (BridgeError ''Bu yatiris zaten islendi - cift basim reddedildi'')
             else give p))))"

definition check_mint :: "exec_config \<Rightarrow> string \<Rightarrow> transaction \<Rightarrow> unit result" where
  "check_mint F cap_message tx =
     (if tx_sender tx \<noteq> cf_bridge_authority F
      then Inl (BridgeError ''Unauthorized: sender is not the bridge authority'')
      else if tx_receiver tx = cf_bridge_authority F
      then Inl (BridgeError ''Bridge authority cannot mint to itself'')
      else if MAX_SINGLE_BRIDGE_MINT < tx_amount tx then Inl (BridgeError cap_message)
      else Inr ())"

text \<open>The source is marked and the proposal archived in the same checkpoint as the mint.\<close>

definition close_mint :: "'m bridge_libs_scheme \<Rightarrow> 's host \<Rightarrow> bridge_proposal \<Rightarrow> ('s, unit) action" where
  "close_mint L H p =
     andthen (mark_source_processed_in_state H (bp_source_chain p) (bp_source_tx_hash p)) (\<lambda>_.
       archive_executed_proposal L H p)"

section \<open>Mints\<close>

definition bridge_mint ::
  "'m bridge_libs_scheme \<Rightarrow> exec_config \<Rightarrow> 's host \<Rightarrow> transaction \<Rightarrow> nat \<Rightarrow> account \<Rightarrow> ('s, account) action" where
  "bridge_mint L F H tx now sender =
     andthen (lift (check_mint F ''BridgeMint exceeds per-tx cap'' tx)) (\<lambda>_.
     andthen (validate_bridge_mint_proposal L F H tx False now) (\<lambda>p.
     andthen (check_and_record_daily_mint L H (tx_amount tx) (as_u64 now) (cf_bridge_daily_mint_limit F)) (\<lambda>_.
     andthen (h_get H (tx_receiver tx)) (\<lambda>found.
     let receiver = unwrap_or_default found
     in andthen (h_put H (tx_receiver tx)
          (receiver\<lparr>ac_zerenya_balance := sat_add u128_max (ac_zerenya_balance receiver) (tx_amount tx)\<rparr>)) (\<lambda>_.
        andthen (increase_bridge_backed_zerenya H (tx_amount tx)) (\<lambda>_.
        andthen (close_mint L H p) (\<lambda>_.
          give sender)))))))"

definition bridge_mint_and_swap ::
  "'m bridge_libs_scheme \<Rightarrow> exec_config \<Rightarrow> ('s \<times> volatile) host \<Rightarrow> transaction \<Rightarrow> nat \<Rightarrow> account \<Rightarrow>
     ('s \<times> volatile, account) action" where
  "bridge_mint_and_swap L F H tx now sender =
     andthen (lift (check_mint F ''BridgeMintAndSwap exceeds per-tx cap'' tx)) (\<lambda>_.
     andthen (validate_bridge_mint_proposal L F H tx True now) (\<lambda>p.
     andthen (check_and_record_daily_mint L H (tx_amount tx) (as_u64 now) (cf_bridge_daily_mint_limit F)) (\<lambda>_.
     andthen (get_pool_reserves (h_get H)) (\<lambda>(pool_zagros, pool_zerenya).
     andthen (record_volume_and_compute_fee_bps (lx_tracker L) (h_get H) (h_put H) ZerenyaIn (tx_amount tx)
       pool_zerenya (as_u64 now)) (\<lambda>fee_bps.
     andthen (lift (quote_bridge_mint_and_swap (tx_amount tx) pool_zagros pool_zerenya fee_bps)) (\<lambda>quote.
       if 0 < bp_amount_out_min p \<and> bq_amount_out quote < bp_amount_out_min p
       then stop (Other ''Slippage too high (BridgeMintAndSwap)'')
       else andthen (state_add_balance (h_get H) (h_put H) (tx_receiver tx) (bq_amount_out quote)) (\<lambda>_.
            andthen (increase_bridge_backed_zerenya H (tx_amount tx)) (\<lambda>_.
            andthen (if 0 < bq_community_fee quote
                     then distribute_staking_reward L H (bq_community_fee quote) now else give ()) (\<lambda>_.
            andthen (set_pool_reserves (h_get H) (h_put H) (bq_new_pool_zagros quote) (bq_new_pool_zerenya quote)) (\<lambda>_.
            andthen (close_mint L H p) (\<lambda>_.
              give sender)))))))))))"

section \<open>Burns\<close>

text \<open>Only what came over the bridge can leave over it.\<close>

definition require_backing :: "'s host \<Rightarrow> string \<Rightarrow> nat \<Rightarrow> ('s, unit) action" where
  "require_backing H message amount =
     andthen (get_bridge_backed_zerenya H) (\<lambda>backed.
       if backed < amount then stop (BridgeError message) else give ())"

definition bridge_burn ::
  "'m executor_libs_scheme \<Rightarrow> 's host \<Rightarrow> transaction \<Rightarrow> nat \<Rightarrow> account \<Rightarrow> ('s, account) action" where
  "bridge_burn L H tx now sender =
     (if ac_zerenya_balance sender < tx_amount tx then stop InsufficientBalance
      else andthen (require_backing H ''Bu ZERENYA kopru uzerinden basilmadigi icin kopruden yakilamaz''
             (tx_amount tx)) (\<lambda>_.
        let sender = sender\<lparr>ac_zerenya_balance := sat_sub (ac_zerenya_balance sender) (tx_amount tx)\<rparr>
        in andthen (decrease_bridge_backed_zerenya H (tx_amount tx)) (\<lambda>_.
           andthen (record_bridge_burn L H (tx_id tx) (tx_sender tx) (tx_amount tx) now) (\<lambda>_.
             give sender))))"

definition bridge_swap_and_burn ::
  "'m executor_libs_scheme \<Rightarrow> ('s \<times> volatile) host \<Rightarrow> transaction \<Rightarrow> nat \<Rightarrow> account \<Rightarrow>
     ('s \<times> volatile, account) action" where
  "bridge_swap_and_burn L H tx now sender =
     andthen (get_pool_reserves (h_get H)) (\<lambda>(pool_zagros, pool_zerenya).
     andthen (record_volume_and_compute_fee_bps (lx_tracker L) (h_get H) (h_put H) ZagrosIn (tx_amount tx)
       pool_zagros (as_u64 now)) (\<lambda>fee_bps.
     andthen (lift (quote_bridge_swap_and_burn (tx_amount tx) pool_zagros pool_zerenya fee_bps)) (\<lambda>quote.
     andthen (lift (swap_amount_out_min tx)) (\<lambda>amount_out_min.
       if 0 < amount_out_min \<and> bq_amount_out quote < amount_out_min
       then stop (Other ''Slippage too high (BridgeSwapAndBurn)'')
       else andthen (require_backing H ''Havuzdan cikacak ZERENYA kopru teminatini asiyor'' (bq_amount_out quote)) (\<lambda>_.
            andthen (lift (ac_sub_balance (tx_amount tx) sender)) (\<lambda>sender.
            andthen (distribute_staking_reward L H (bq_community_fee quote) now) (\<lambda>_.
            andthen (set_pool_reserves (h_get H) (h_put H) (bq_new_pool_zagros quote) (bq_new_pool_zerenya quote)) (\<lambda>_.
            andthen (decrease_bridge_backed_zerenya H (bq_amount_out quote)) (\<lambda>_.
            andthen (record_bridge_burn L H (tx_id tx) (tx_sender tx) (bq_amount_out quote) now) (\<lambda>_.
              give sender))))))))))"

end
