(* ===== verification/TxGovernance.thy ===== *)
theory TxGovernance
  imports TxTransfers
begin

text \<open>
  The handlers of \<open>execute_transaction_inner\<close> (\<open>crates/zagros-executor/src/lib.rs\<close>) for proposals:
  \<open>SubmitProposal\<close> and \<open>Vote\<close>.
\<close>

section \<open>Submission\<close>

definition check_submission :: "exec_config \<Rightarrow> 's host \<Rightarrow> account \<Rightarrow> ('s, unit) action" where
  "check_submission F H sender =
     (if ac_staked_balance sender < cf_governance_min_stake_to_submit F
      then stop (Other ''Oneri sunmak icin stake gerekli'')
      else if ac_balance sender < cf_governance_proposal_fee F then stop InsufficientBalance
      else andthen (active_proposal_count H) (\<lambda>active_count.
        if cf_governance_max_active_proposals F \<le> active_count
        then stop (Other ''Aktif oneri tavani'') else give ()))"

definition take_proposal_fee ::
  "'m executor_libs_scheme \<Rightarrow> exec_config \<Rightarrow> ('s \<times> volatile) host \<Rightarrow> transaction \<Rightarrow> nat \<Rightarrow>
     ('s \<times> volatile, bool) action" where
  "take_proposal_fee L F H tx now =
     andthen (current_block_height_for_rules H) (\<lambda>height.
     let deposit_mode = (GOV_DEPOSIT_ACTIVATION_HEIGHT \<le> height)
     in andthen (if deposit_mode then escrow_deposit L H (tx_id tx) (cf_governance_proposal_fee F)
                 else distribute_staking_reward L H (cf_governance_proposal_fee F) now) (\<lambda>_.
        give deposit_mode))"

text \<open>A vote on membership opens when the admin phase has ended.\<close>

definition check_membership_target :: "'s host \<Rightarrow> nat \<Rightarrow> string \<Rightarrow> ('s, unit) action" where
  "check_membership_target H now target =
     andthen (admin_phase_active H now) (\<lambda>active.
       if active then stop (Other ''Faz A surerken kume uyeligi admin coklu-imzasindadir'')
       else andthen (lift (canonical_account_address target)) (\<lambda>key.
            andthen (h_get H key) (\<lambda>found.
              case found of
                None \<Rightarrow> stop (Other ''hedef hesap yok'')
              | Some acc \<Rightarrow>
                  if ac_validator_status acc = None
                  then stop (Other ''hedef hic validator kaydi yapmamis'') else give ())))"

definition check_typed_action ::
  "'m libs_scheme \<Rightarrow> 's host \<Rightarrow> nat \<Rightarrow> chain_params \<Rightarrow> proposal_action \<Rightarrow> ('s, unit) action" where
  "check_typed_action L H now params act =
     (case act of
        ParamChange updates \<Rightarrow>
          andthen (load_qc_grace_ms H) (\<lambda>grace.
          andthen (lift (apply_param_updates_with_grace params grace updates)) (\<lambda>_. give ()))
      | ScheduleUpgrade target_ruleset _ _ \<Rightarrow>
          if target_ruleset \<le> p_active_ruleset params
          then stop (Other ''hedef ruleset yururluktekinden buyuk olmali'') else give ()
      | ShortenAdminAuthority end_timestamp \<Rightarrow>
          andthen (admin_authority_end H) (\<lambda>current_end.
            if current_end \<le> end_timestamp then stop (Other ''admin yetkisi yalnizca KISALTILABILIR'')
            else give ())
      | ActApproveValidator target \<Rightarrow> check_membership_target H now target
      | ActRemoveValidator target \<Rightarrow> check_membership_target H now target
      | Text \<Rightarrow> stop RustPanic)"

definition voting_end :: "'s host \<Rightarrow> nat \<Rightarrow> chain_params \<Rightarrow> ('s, nat) action" where
  "voting_end H now params =
     andthen (genesis_timestamp H) (\<lambda>genesis_ts.
       give (sat_add u64_max (epoch_at now genesis_ts (p_epoch_seconds params)) (p_gov_voting_epochs params)))"

definition voting_window ::
  "'m libs_scheme \<Rightarrow> 's host \<Rightarrow> nat \<Rightarrow> bool \<Rightarrow> proposal_action \<Rightarrow> ('s, nat) action" where
  "voting_window L H now deposit_mode act =
     (if act \<noteq> Text
      then andthen (load_chain_params L H) (\<lambda>params.
           andthen (lift (pa_channel act)) (\<lambda>_.
           andthen (check_typed_action L H now params act) (\<lambda>_.
             voting_end H now params)))
      else if deposit_mode then andthen (load_chain_params L H) (voting_end H now)
      else give 0)"

definition new_gov_proposal :: "transaction \<Rightarrow> address \<Rightarrow> nat \<Rightarrow> proposal_action \<Rightarrow> nat \<Rightarrow> proposal" where
  "new_gov_proposal tx sender_key now act voting_ends = \<lparr>pr_proposal_id = tx_id tx, pr_proposer = sender_key,
     pr_description = tx_payload tx, pr_created_at = now, pr_votes_for = 0, pr_votes_against = 0,
     pr_status = PsActive, pr_action = act, pr_executes_at_epoch = 0, pr_voting_ends_at_epoch = voting_ends\<rparr>"

definition submit_proposal ::
  "'m gov_libs_scheme \<Rightarrow> exec_config \<Rightarrow> ('s \<times> volatile) host \<Rightarrow> transaction \<Rightarrow> nat \<Rightarrow> address \<Rightarrow> account \<Rightarrow>
     ('s \<times> volatile, account) action" where
  "submit_proposal L F H tx now sender_key sender =
     andthen (check_submission F H sender) (\<lambda>_.
     let sender = sender\<lparr>ac_balance := sat_sub (ac_balance sender) (cf_governance_proposal_fee F)\<rparr>
     in andthen (take_proposal_fee L F H tx now) (\<lambda>deposit_mode.
        andthen (lift (decode_payload (lg_de_action L) (tx_payload tx))) (\<lambda>decoded.
        let act = (case decoded of None \<Rightarrow> Text | Some act \<Rightarrow> act)
        in andthen (voting_window L H now deposit_mode act) (\<lambda>voting_ends.
           andthen (save_proposal L H (new_gov_proposal tx sender_key now act voting_ends)) (\<lambda>_.
           andthen (increment_active_proposal_count H) (\<lambda>_.
           andthen (if act \<noteq> Text \<or> deposit_mode then register_typed_active L H (tx_id tx) else give ()) (\<lambda>_.
           andthen (register_index L H (tx_id tx)) (\<lambda>_.
             give sender))))))))"

section \<open>Votes\<close>

definition add_vote :: "bool \<Rightarrow> nat \<Rightarrow> proposal \<Rightarrow> proposal" where
  "add_vote support weight p =
     (if support then p\<lparr>pr_votes_for := sat_add u128_max (pr_votes_for p) weight\<rparr>
      else p\<lparr>pr_votes_against := sat_add u128_max (pr_votes_against p) weight\<rparr>)"

definition cast_gov_vote ::
  "'m gov_libs_scheme \<Rightarrow> exec_config \<Rightarrow> 's host \<Rightarrow> transaction \<Rightarrow> nat \<Rightarrow> address \<Rightarrow> account \<Rightarrow> ('s, account) action" where
  "cast_gov_vote L F H tx now sender_key sender =
     (if length (tx_payload tx) \<noteq> 33
      then stop (Other ''Vote payload must be 32-byte proposal id + 1-byte choice'')
      else let pid = take 32 (tx_payload tx); support = (tx_payload tx ! 32 \<noteq> 0)
        in andthen (load_proposal L H pid) (\<lambda>loaded.
           case loaded of
             None \<Rightarrow> stop (Other ''Proposal not found'')
           | Some p \<Rightarrow>
               if effective_status p (as_u64 now) (cf_governance_voting_period_secs F)
                    (cf_governance_proposal_expiry_secs F) \<noteq> PsActive
               then stop (Other ''Bu oneri oylanamaz'')
               else andthen (has_voted L H pid sender_key) (\<lambda>voted.
                 if voted then stop (Other ''Address has already voted on this proposal'')
                 else let weight = ac_staked_balance sender
                   in if weight = 0 then stop (Other ''Must have staked ZAGROS to vote'')
                      else andthen (save_proposal L H (add_vote support weight p)) (\<lambda>_.
                           andthen (mark_voted L H pid sender_key) (\<lambda>_.
                           andthen (record_gov_vote L H pid sender_key support weight) (\<lambda>_.
                             give sender))))))"

end
