(* ===== verification/Apply.thy ===== *)
theory Apply
  imports TxValidators TxBridge TxGovernance
begin

text \<open>
  \<open>apply_transaction\<close> and \<open>execute_transaction_inner\<close> of \<open>crates/zagros-executor/src/lib.rs\<close>: the
  checks before anything is written, the reservation of the addresses, the checkpoint around the
  handler, nonce and fee, and the settlement of a transaction that failed.

  The run of a contract (\<open>evm.rs\<close>, on the revm crate) is the argument \<open>call\<close>; everything the executor
  does with its outcome is here. The lock that serialises such runs is left out.
\<close>

section \<open>The outcome of a contract call\<close>

record evm_execution =
  ex_gas_used :: nat
  ex_nonce_already_advanced :: bool
  ex_treasury_gain :: nat
  ex_new_contract_count :: nat

record evm_failure =
  fa_error :: zerror
  fa_gas_used :: "nat option"

type_synonym 's evm_call =
  "transaction \<Rightarrow> nat \<Rightarrow> 's \<times> volatile \<Rightarrow> (evm_failure + evm_execution) \<times> 's \<times> volatile"

text \<open>The three \<open>&mut\<close> arguments of \<open>execute_transaction_inner\<close>. They are read after an error too.\<close>

record evm_out =
  eo_gas_used :: "nat option"
  eo_nonce_advanced :: bool
  eo_created_contract :: bool

definition no_out :: evm_out where
  "no_out = \<lparr>eo_gas_used = None, eo_nonce_advanced = False, eo_created_contract = False\<rparr>"

definition out_of :: "evm_execution \<Rightarrow> evm_out" where
  "out_of x = \<lparr>eo_gas_used = Some (ex_gas_used x), eo_nonce_advanced = ex_nonce_already_advanced x,
     eo_created_contract = (0 < ex_new_contract_count x)\<rparr>"

section \<open>Actions with other errors\<close>

definition chain :: "('s \<Rightarrow> ('e + 'a) \<times> 's) \<Rightarrow> ('a \<Rightarrow> 's \<Rightarrow> ('e + 'b) \<times> 's) \<Rightarrow> 's \<Rightarrow> ('e + 'b) \<times> 's" where
  "chain m k s = (case m s of (Inl e, s') \<Rightarrow> (Inl e, s') | (Inr x, s') \<Rightarrow> k x s')"

definition yields :: "'r \<Rightarrow> 's \<Rightarrow> 'r \<times> 's" where
  "yields r s = (r, s)"

definition tag_error :: "'o \<Rightarrow> ('s, 'a) action \<Rightarrow> 's \<Rightarrow> ('o \<times> zerror + 'a) \<times> 's" where
  "tag_error out m s = (case m s of (Inl e, s') \<Rightarrow> (Inl (out, e), s') | (Inr x, s') \<Rightarrow> (Inr x, s'))"

text \<open>\<open>catch_unwind\<close>: a panic becomes an error.\<close>

definition catch_panic :: "('s \<Rightarrow> ('o \<times> zerror + 'a) \<times> 's) \<Rightarrow> 's \<Rightarrow> ('o \<times> zerror + 'a) \<times> 's" where
  "catch_panic m s =
     (case m s of
        (Inl (out, e), s') \<Rightarrow> (Inl (out, if e = RustPanic then Other ''Panic during execution'' else e), s')
      | (Inr x, s') \<Rightarrow> (Inr x, s'))"

section \<open>Fees\<close>

definition exempt_mint :: "exec_config \<Rightarrow> transaction \<Rightarrow> bool" where
  "exempt_mint F tx \<longleftrightarrow> is_bridge_mint_kind (tx_kind tx) \<and> tx_sender tx = cf_bridge_authority F"

definition declared_fee :: "exec_config \<Rightarrow> 's host \<Rightarrow> transaction \<Rightarrow> ('s, nat) action" where
  "declared_fee F H tx =
     (let declared = tx_gas_limit tx * tx_gas_price tx
      in if exempt_mint F tx then give 0
         else if u128_max < declared then stop GasLimitExceeded
         else if is_evm_tx (tx_kind tx) then give declared
         else andthen (d14_active H) (\<lambda>active.
           if \<not> active then give declared
           else andthen (scheduled_fee F H (tx_kind tx)) (\<lambda>base.
             if 0 < base \<and> sat_mul u128_max base 1024 < declared
             then stop (Other ''ucret kanonik tavani asiyor (D14)'') else give declared)))"

definition evm_extras :: "exec_config \<Rightarrow> 's host \<Rightarrow> transaction \<Rightarrow> ('s, nat \<times> nat) action" where
  "evm_extras F H tx =
     (if \<not> is_evm_tx (tx_kind tx) then give (0, 0)
      else if is_evm_deploy (tx_receiver tx)
      then andthen (evm_deploy_levy F H) (\<lambda>levy. give (levy, 0))
      else andthen (evm_standard_fee F H) (\<lambda>base. give (0, base)))"

text \<open>What the handler itself asks the sender to hold.\<close>

definition required_balance :: "exec_config \<Rightarrow> transaction \<Rightarrow> nat" where
  "required_balance F tx =
     (let tx_fee = (if exempt_mint F tx then 0 else sat_mul u128_max (tx_gas_limit tx) (tx_gas_price tx))
      in if is_evm_tx (tx_kind tx) \<or> tx_kind tx \<in> {Transfer, SwapSell, StakeZagros, BridgeSwapAndBurn}
         then sat_add u128_max tx_fee (tx_amount tx) else tx_fee)"

section \<open>The handlers\<close>

definition kept :: "('s, account) action \<Rightarrow> ('s, account option) action" where
  "kept m = andthen m (\<lambda>a. give (Some a))"

text \<open>The two contract kinds do not come here: \<open>execute_evm\<close> has them.\<close>

definition run_handler ::
  "'m native_libs_scheme \<Rightarrow> exec_config \<Rightarrow> ('s \<times> volatile) host \<Rightarrow> transaction \<Rightarrow> nat \<Rightarrow> address \<Rightarrow> account \<Rightarrow>
     ('s \<times> volatile, account option) action" where
  "run_handler L F H tx now sender_key sender =
     (case tx_kind tx of
        Transfer \<Rightarrow> kept (do_transfer L H tx now sender_key sender)
      | SwapBuy \<Rightarrow> kept (swap_buy L H tx now sender)
      | SwapSell \<Rightarrow> kept (swap_sell L H tx now sender)
      | StakeZagros \<Rightarrow> kept (stake_zagros H tx now sender)
      | UnstakeZagros \<Rightarrow> unstake_zagros L H tx now sender_key sender
      | ClaimReward \<Rightarrow> kept (claim_reward H now sender)
      | SlashValidator \<Rightarrow> kept (slash_validator L F H tx now sender_key sender)
      | ReportMalicious \<Rightarrow> kept (report_malicious L H tx now sender_key sender)
      | RegisterValidator \<Rightarrow> kept (register_validator L H tx now sender_key sender)
      | UnregisterValidator \<Rightarrow> kept (unregister_validator L H now sender)
      | ApproveValidator \<Rightarrow> kept (approve_validator L H tx now sender_key sender)
      | RemoveValidator \<Rightarrow> kept (remove_validator L H tx now sender_key sender)
      | RotateConsensusKey \<Rightarrow> kept (rotate_consensus_key L H tx now sender_key sender)
      | BridgeMint \<Rightarrow> kept (bridge_mint L F H tx now sender)
      | BridgeMintAndSwap \<Rightarrow> kept (bridge_mint_and_swap L F H tx now sender)
      | BridgeBurn \<Rightarrow> kept (bridge_burn L H tx now sender)
      | BridgeSwapAndBurn \<Rightarrow> kept (bridge_swap_and_burn L H tx now sender)
      | SubmitProposal \<Rightarrow> kept (submit_proposal L F H tx now sender_key sender)
      | Vote \<Rightarrow> kept (cast_gov_vote L F H tx now sender_key sender)
      | DeployContract \<Rightarrow> stop (Other ''TxType::DeployContract desteklenmiyor'')
      | CallContract \<Rightarrow> stop RustPanic
      | ContractCall _ \<Rightarrow> stop RustPanic)"

definition execute_native ::
  "'m native_libs_scheme \<Rightarrow> exec_config \<Rightarrow> ('s \<times> volatile) host \<Rightarrow> transaction \<Rightarrow> nat \<Rightarrow> address \<Rightarrow> account \<Rightarrow>
     ('s \<times> volatile, nat) action" where
  "execute_native L F H tx now sender_key sender =
     andthen (run_handler L F H tx now sender_key sender) (\<lambda>left.
       case left of
         None \<Rightarrow> give 0
       | Some sender \<Rightarrow>
           andthen (h_put H sender_key sender) (\<lambda>_.
           andthen (save_dummy_receipt L H tx) (\<lambda>_.
             give (if exempt_mint F tx then 0 else sat_mul u128_max (tx_gas_limit tx) (tx_gas_price tx)))))"

text \<open>What the executor does after a contract ran: the reward of what reached the treasury, and the factory fee.\<close>

definition pay_for_contracts ::
  "'m executor_libs_scheme \<Rightarrow> ('s \<times> volatile) host \<Rightarrow> nat \<Rightarrow> address \<Rightarrow> nat \<Rightarrow> ('s \<times> volatile, unit) action" where
  "pay_for_contracts L H now sender_key contracts =
     (if contracts = 0 then give ()
      else andthen (token_factory_fee_per_contract H) (\<lambda>fee.
        let total = sat_mul u128_max fee contracts
        in andthen (h_get H sender_key) (\<lambda>found.
           andthen (lift (ac_sub_balance total (unwrap_or_default found))) (\<lambda>deployer.
           andthen (h_put H sender_key deployer) (\<lambda>_.
             distribute_staking_reward L H total now)))))"

definition after_call ::
  "'m executor_libs_scheme \<Rightarrow> ('s \<times> volatile) host \<Rightarrow> transaction \<Rightarrow> nat \<Rightarrow> address \<Rightarrow> evm_execution \<Rightarrow>
     ('s \<times> volatile, nat) action" where
  "after_call L H tx now sender_key x =
     (if u128_max < ex_gas_used x * tx_gas_price tx then stop GasLimitExceeded
      else andthen (if 0 < ex_treasury_gain x then distribute_staking_reward L H (ex_treasury_gain x) now else give ()) (\<lambda>_.
           andthen (pay_for_contracts L H now sender_key (ex_new_contract_count x)) (\<lambda>_.
             give (ex_gas_used x * tx_gas_price tx))))"

definition execute_evm ::
  "'m executor_libs_scheme \<Rightarrow> ('s \<times> volatile) host \<Rightarrow> 's evm_call \<Rightarrow> transaction \<Rightarrow> nat \<Rightarrow> address \<Rightarrow>
     's \<times> volatile \<Rightarrow> (evm_out \<times> zerror + evm_out \<times> nat) \<times> 's \<times> volatile" where
  "execute_evm L H call tx now sender_key s =
     (case call tx now s of
        (Inl f, s') \<Rightarrow> (Inl (no_out\<lparr>eo_gas_used := fa_gas_used f\<rparr>, fa_error f), s')
      | (Inr x, s') \<Rightarrow>
          chain (tag_error (out_of x) (after_call L H tx now sender_key x))
            (\<lambda>gas. yields (Inr (out_of x, gas))) s')"

text \<open>The sender is read under its canonical key, or else under the one the transaction gives.\<close>

definition read_sender :: "exec_config \<Rightarrow> 's host \<Rightarrow> transaction \<Rightarrow> ('s, address \<times> account) action" where
  "read_sender F H tx =
     andthen (lift (canonical_account_address (tx_sender tx))) (\<lambda>sender_key.
     andthen (h_get H sender_key) (\<lambda>found.
     andthen (case found of
         Some account \<Rightarrow> give account
       | None \<Rightarrow> if sender_key \<noteq> tx_sender tx
           then andthen (h_get H (tx_sender tx)) (\<lambda>found. give (unwrap_or_default found))
           else give default_account) (\<lambda>sender.
       if tx_nonce tx \<noteq> ac_nonce sender then stop InvalidNonce
       else if ac_balance sender < required_balance F tx then stop InsufficientBalance
       else give (sender_key, sender))))"

definition execute_transaction_inner ::
  "'m native_libs_scheme \<Rightarrow> exec_config \<Rightarrow> ('s \<times> volatile) host \<Rightarrow> 's evm_call \<Rightarrow> transaction \<Rightarrow> nat \<Rightarrow>
     's \<times> volatile \<Rightarrow> (evm_out \<times> zerror + evm_out \<times> nat) \<times> 's \<times> volatile" where
  "execute_transaction_inner L F H call tx now =
     chain (tag_error no_out (read_sender F H tx)) (\<lambda>(sender_key, sender).
       if is_evm_tx (tx_kind tx) then execute_evm L H call tx now sender_key
       else chain (tag_error no_out (execute_native L F H tx now sender_key sender))
              (\<lambda>gas. yields (Inr (no_out, gas))))"

section \<open>Nonce and fee\<close>

definition metered_gas :: "transaction \<Rightarrow> nat \<Rightarrow> evm_out \<Rightarrow> nat" where
  "metered_gas tx tx_fee out =
     (case eo_gas_used out of None \<Rightarrow> tx_fee | Some gas_used \<Rightarrow> sat_mul u128_max gas_used (tx_gas_price tx))"

definition effective_evm_floor :: "nat \<Rightarrow> evm_out \<Rightarrow> nat" where
  "effective_evm_floor evm_standard_floor out = (if eo_created_contract out then 0 else evm_standard_floor)"

definition actual_gas :: "transaction \<Rightarrow> nat \<Rightarrow> nat \<Rightarrow> nat \<Rightarrow> evm_out \<Rightarrow> nat" where
  "actual_gas tx tx_fee deploy_levy evm_standard_floor out =
     (if is_evm_tx (tx_kind tx)
      then sat_add u128_max (max (metered_gas tx tx_fee out) (effective_evm_floor evm_standard_floor out)) deploy_levy
      else tx_fee)"

text \<open>What the contract run has not taken from the sender yet.\<close>

definition not_yet_reflected :: "transaction \<Rightarrow> nat \<Rightarrow> nat \<Rightarrow> nat \<Rightarrow> evm_out \<Rightarrow> nat" where
  "not_yet_reflected tx tx_fee deploy_levy evm_standard_floor out =
     (if actual_gas tx tx_fee deploy_levy evm_standard_floor out = 0 then 0
      else if eo_nonce_advanced out
      then sat_add u128_max (sat_sub (effective_evm_floor evm_standard_floor out) (metered_gas tx tx_fee out)) deploy_levy
      else actual_gas tx tx_fee deploy_levy evm_standard_floor out)"

text \<open>Both accesses swallow their errors. The charge is cut to the balance.\<close>

definition settle_success ::
  "('s \<times> volatile) host \<Rightarrow> transaction \<Rightarrow> address \<Rightarrow> nat \<Rightarrow> nat \<Rightarrow> nat \<Rightarrow> evm_out \<Rightarrow> ('s \<times> volatile, nat) action" where
  "settle_success H tx sender_key tx_fee deploy_levy evm_standard_floor out =
     andthen (attempt (h_get H sender_key)) (\<lambda>found.
     let sender_end = (case found of Some (Some a) \<Rightarrow> a | _ \<Rightarrow> default_account);
         sender_end = (if eo_nonce_advanced out then sender_end else ac_increment_nonce sender_end);
         charged = min (not_yet_reflected tx tx_fee deploy_levy evm_standard_floor out) (ac_balance sender_end)
     in andthen (credit_native_gas_fee charged) (\<lambda>_.
        andthen (attempt (h_put H sender_key (sender_end\<lparr>ac_balance := ac_balance sender_end - charged\<rparr>))) (\<lambda>_.
          give (actual_gas tx tx_fee deploy_levy evm_standard_floor out))))"

definition settle_failed_native_transaction ::
  "('s \<times> volatile) host \<Rightarrow> address \<Rightarrow> nat \<Rightarrow> 's \<times> volatile \<Rightarrow> unit failing \<times> 's \<times> volatile" where
  "settle_failed_native_transaction H sender_key tx_fee =
     bracket H
       (andthen (h_get H sender_key) (\<lambda>found.
        andthen (lift (ac_sub_balance tx_fee (unwrap_or_default found))) (\<lambda>sender.
        andthen (h_put H sender_key (ac_increment_nonce sender)) (\<lambda>_.
          credit_native_gas_fee tx_fee))))
       (\<lambda>_. yields (Inr ())) (\<lambda>e. yields (Inl (e, 0)))"

section \<open>Applying a transaction\<close>

definition find_sender :: "'s host \<Rightarrow> transaction \<Rightarrow> address \<Rightarrow> ('s, account) action" where
  "find_sender H tx sender_key =
     andthen (h_get H sender_key) (\<lambda>found.
       case found of
         Some account \<Rightarrow> give account
       | None \<Rightarrow> if sender_key \<noteq> tx_sender tx
           then andthen (attempt (h_get H (tx_sender tx))) (\<lambda>found.
             give (case found of Some (Some a) \<Rightarrow> a | _ \<Rightarrow> default_account))
           else give default_account)"

definition failed_gas :: "transaction \<Rightarrow> nat \<Rightarrow> nat \<Rightarrow> evm_out \<Rightarrow> nat" where
  "failed_gas tx tx_fee evm_standard_floor out =
     (if is_evm_tx (tx_kind tx) then max (metered_gas tx tx_fee out) evm_standard_floor else tx_fee)"

definition settle_failure ::
  "'m executor_libs_scheme \<Rightarrow> ('s \<times> volatile) host \<Rightarrow> transaction \<Rightarrow> address \<Rightarrow> nat \<Rightarrow> nat \<Rightarrow> evm_out \<times> zerror \<Rightarrow>
     's \<times> volatile \<Rightarrow> nat failing \<times> 's \<times> volatile" where
  "settle_failure L H tx sender_key tx_fee evm_standard_floor oe =
     (let gas_to_charge = failed_gas tx tx_fee evm_standard_floor (fst oe);
          failed_gas_used = (case eo_gas_used (fst oe) of None \<Rightarrow> tx_gas_limit tx | Some g \<Rightarrow> g)
      in chain (settle_failed_native_transaction H sender_key gas_to_charge) (\<lambda>_.
         with_fee gas_to_charge (save_failed_receipt L H tx failed_gas_used) (\<lambda>_.
           yields (Inl (snd oe, gas_to_charge)))))"

definition run_in_checkpoint ::
  "'m native_libs_scheme \<Rightarrow> exec_config \<Rightarrow> ('s \<times> volatile) host \<Rightarrow> 's evm_call \<Rightarrow> transaction \<Rightarrow> nat \<Rightarrow> address \<Rightarrow>
     nat \<Rightarrow> nat \<Rightarrow> nat \<Rightarrow> 's \<times> volatile \<Rightarrow> nat failing \<times> 's \<times> volatile" where
  "run_in_checkpoint L F H call tx now sender_key tx_fee deploy_levy evm_standard_floor =
     bracket H
       (chain (catch_panic (execute_transaction_inner L F H call tx now)) (\<lambda>(out, _).
          tag_error out (settle_success H tx sender_key tx_fee deploy_levy evm_standard_floor out)))
       (\<lambda>gas. with_fee 0 (refresh_staking_index_after L H tx) (\<lambda>_. yields (Inr gas)))
       (settle_failure L H tx sender_key tx_fee evm_standard_floor)"

definition apply_reserved ::
  "'m native_libs_scheme \<Rightarrow> exec_config \<Rightarrow> ('s \<times> volatile) host \<Rightarrow> 's evm_call \<Rightarrow> transaction \<Rightarrow> nat \<Rightarrow> address \<Rightarrow>
     's \<times> volatile \<Rightarrow> nat failing \<times> 's \<times> volatile" where
  "apply_reserved L F H call tx now sender_key =
     with_fee 0 (find_sender H tx sender_key) (\<lambda>sender.
       if tx_nonce tx \<noteq> ac_nonce sender then yields (Inl (InvalidNonce, 0))
       else with_fee 0 (declared_fee F H tx) (\<lambda>tx_fee.
            with_fee 0 (evm_extras F H tx) (\<lambda>(deploy_levy, evm_standard_floor).
              if ac_balance sender < sat_add u128_max (max tx_fee evm_standard_floor) deploy_levy
              then yields (Inl (InsufficientBalanceForGas, 0))
              else run_in_checkpoint L F H call tx now sender_key tx_fee deploy_levy evm_standard_floor)))"

text \<open>
  The addresses are taken before the account is read and given back when the guard is dropped, on
  every way out.
\<close>

definition reserving ::
  "address list \<Rightarrow> ('s \<times> volatile \<Rightarrow> 'a failing \<times> 's \<times> volatile) \<Rightarrow> 's \<times> volatile \<Rightarrow> 'a failing \<times> 's \<times> volatile" where
  "reserving addresses m sw =
     (if \<exists>a \<in> set addresses. a \<in> set (vo_processing (snd sw)) then (Inl (Reentrancy, 0), sw)
      else case m (fst sw, (snd sw)\<lparr>vo_processing := addresses @ vo_processing (snd sw)\<rparr>) of
          (r, (s', w')) \<Rightarrow>
            (r, (s', w'\<lparr>vo_processing := filter (\<lambda>a. a \<notin> set addresses) (vo_processing w')\<rparr>)))"

definition action_target :: "'m validator_libs_scheme \<Rightarrow> transaction \<Rightarrow> address list result" where
  "action_target L tx =
     (if tx_kind tx \<noteq> ApproveValidator \<and> tx_kind tx \<noteq> RemoveValidator then Inr []
      else case validator_action_target (lv_de_admin L) (tx_kind tx) (tx_payload tx) of
          None \<Rightarrow> Inl (Other ''ApproveValidator/RemoveValidator payload cozulemedi'')
        | Some a \<Rightarrow> Inr [a])"

definition reserved_addresses :: "'m validator_libs_scheme \<Rightarrow> transaction \<Rightarrow> (address \<times> address list) result" where
  "reserved_addresses L tx =
     try_then (canonical_account_address (tx_sender tx)) (\<lambda>sender_key.
     try_then (canonical_account_address (tx_receiver tx)) (\<lambda>receiver_key.
     try_then (action_target L tx) (\<lambda>target.
       Inr (sender_key, remdups ([sender_key, receiver_key] @ target)))))"

definition abs_diff :: "nat \<Rightarrow> nat \<Rightarrow> nat" where
  "abs_diff a b = (if a < b then b - a else a - b)"

definition apply_transaction ::
  "'m native_libs_scheme \<Rightarrow> exec_config \<Rightarrow> ('s \<times> volatile) host \<Rightarrow> 's evm_call \<Rightarrow> (transaction \<Rightarrow> bool) \<Rightarrow>
     transaction \<Rightarrow> nat \<Rightarrow> 's \<times> volatile \<Rightarrow> nat failing \<times> 's \<times> volatile" where
  "apply_transaction L F H call verify_signature tx now =
     (case tx_validate verify_signature tx of
        Inl e \<Rightarrow> yields (Inl (e, 0))
      | Inr _ \<Rightarrow>
          if 300 < abs_diff now (tx_timestamp tx) then yields (Inl (TransactionExpired, 0))
          else (case reserved_addresses L tx of
              Inl e \<Rightarrow> yields (Inl (e, 0))
            | Inr (sender_key, addresses) \<Rightarrow>
                reserving addresses (apply_reserved L F H call tx now sender_key)))"

definition execute_transaction ::
  "'m native_libs_scheme \<Rightarrow> exec_config \<Rightarrow> ('s \<times> volatile) host \<Rightarrow> 's evm_call \<Rightarrow> (transaction \<Rightarrow> bool) \<Rightarrow>
     transaction \<Rightarrow> nat \<Rightarrow> ('s \<times> volatile, unit) action" where
  "execute_transaction L F H call verify_signature tx now sw =
     (case apply_transaction L F H call verify_signature tx now sw of
        (Inl (e, _), sw') \<Rightarrow> (Inl e, sw') | (Inr _, sw') \<Rightarrow> (Inr (), sw'))"

end
