(* ===== verification/Ledger.thy ===== *)
theory Ledger
  imports Apply
begin

text \<open>
  Where the coins are, and which actions of the executor leave them alone. A \<open>purse\<close> is a key whose
  account holds ZAGROS: every address, and the escrow of the proposals' deposits. The other keys hold
  records and counters.

  \<open>books m\<close> says that \<open>m\<close>, run on the plain map, changes no purse and no collected fee, whatever its
  outcome. It has one rule for each construct of the code, so it goes through a handler as \<open>mirrors\<close> does.
\<close>

section \<open>Purses\<close>

definition purse :: "address \<Rightarrow> bool" where
  "purse k \<longleftrightarrow> validate_address k \<or> k = GOV_DEPOSIT_ESCROW_KEY"

definition worth :: "account \<Rightarrow> nat" where
  "worth a = ac_balance a + ac_staked_balance a + ac_pending_unstake_amount a + ac_pending_stake_amount a"

definition held :: "(address \<rightharpoonup> account) \<Rightarrow> address \<Rightarrow> nat" where
  "held v k = (if purse k then worth (unwrap_or_default (v k)) else 0)"

definition coins :: "(address \<rightharpoonup> account) \<Rightarrow> nat" where
  "coins v = (\<Sum>k \<in> dom v. held v k)"

definition same_purses :: "(address \<rightharpoonup> account) \<Rightarrow> (address \<rightharpoonup> account) \<Rightarrow> bool" where
  "same_purses v v' \<longleftrightarrow> (finite (dom v) \<longrightarrow> finite (dom v')) \<and> (\<forall>k. purse k \<longrightarrow> v' k = v k)"

lemma worth_default [simp]: "worth default_account = 0"
  by (simp add: worth_def default_account_def)

lemma held_None: "v k = None \<Longrightarrow> held v k = 0"
  by (simp add: held_def unwrap_or_default_def)

lemma coins_over: "finite S \<Longrightarrow> dom v \<subseteq> S \<Longrightarrow> coins v = (\<Sum>k \<in> S. held v k)"
  unfolding coins_def by (rule sum.mono_neutral_left) (auto simp: held_None domIff)

lemma coins_update:
  assumes "finite (dom v)"
  shows "coins (v(k \<mapsto> a)) + held v k = coins v + (if purse k then worth a else 0)"
proof -
  let ?S = "insert k (dom v)"
  have rest: "(\<Sum>j \<in> ?S - {k}. held (v(k \<mapsto> a)) j) = (\<Sum>j \<in> ?S - {k}. held v j)"
    by (rule sum.cong) (auto simp: held_def)
  have "coins (v(k \<mapsto> a)) = held (v(k \<mapsto> a)) k + (\<Sum>j \<in> ?S - {k}. held (v(k \<mapsto> a)) j)"
    using assms by (subst coins_over [of ?S]) (auto simp: sum.remove [of ?S k])
  moreover have "coins v = held v k + (\<Sum>j \<in> ?S - {k}. held v j)"
    using assms by (subst coins_over [of ?S]) (auto simp: sum.remove [of ?S k])
  ultimately show ?thesis using rest by (simp add: held_def unwrap_or_default_def)
qed

lemma held_le_coins: "finite (dom v) \<Longrightarrow> held v k \<le> coins v"
  using coins_update [of v k default_account] by (cases "purse k") simp_all

lemma same_purses_refl [simp]: "same_purses v v"
  by (simp add: same_purses_def)

lemma same_purses_trans: "same_purses u v \<Longrightarrow> same_purses v w \<Longrightarrow> same_purses u w"
  by (simp add: same_purses_def)

lemma same_purses_held: "same_purses v v' \<Longrightarrow> held v' k = held v k"
  by (simp add: same_purses_def held_def)

lemma same_purses_coins:
  assumes "same_purses v v'" "finite (dom v)"
  shows "coins v' = coins v"
proof -
  have fin: "finite (dom v \<union> dom v')" using assms by (simp add: same_purses_def)
  then have "coins v' = (\<Sum>k \<in> dom v \<union> dom v'. held v' k)" "coins v = (\<Sum>k \<in> dom v \<union> dom v'. held v k)"
    by (auto intro: coins_over)
  then show ?thesis using same_purses_held [OF assms(1)] by simp
qed

lemma same_purses_put: "\<not> purse k \<Longrightarrow> same_purses v (v(k \<mapsto> a))"
  by (auto simp: same_purses_def)

text \<open>Keys that name records are no purses.\<close>

lemma not_purse:
  assumes "a \<noteq> []" "hd a \<noteq> CHR ''0''" "\<not> is_space (hd a)" "a \<noteq> GOV_DEPOSIT_ESCROW_KEY"
  shows "\<not> purse (canonicalize a)"
proof -
  have "canonicalize a = a" using assms by (intro canonicalize_other)
  moreover have "\<not> validate_address a" using assms(1,2) by (cases a) (auto simp: validate_address_def)
  ultimately show ?thesis using assms(4) by (simp add: purse_def)
qed

lemma records_are_no_purses [simp]:
  "\<not> purse (canonicalize GLOBAL_TOTAL_STAKED)" "\<not> purse (canonicalize GLOBAL_BLOCK_HEIGHT)"
  "\<not> purse (canonicalize reward_snapshot_key)" "\<not> purse (canonicalize bridge_backed_zerenya_key)"
  "\<not> purse (canonicalize recent_bridge_burns_key)" "\<not> purse (canonicalize recent_bridge_burns_next_index_key)"
  "\<not> purse (canonicalize slash_history_key)" "\<not> purse (canonicalize slash_history_next_index_key)"
  "\<not> purse (canonicalize used_slashing_proofs_key)" "\<not> purse (canonicalize recent_transfers_next_index_key)"
  "\<not> purse (canonicalize (recent_transfer_record_key n))" "\<not> purse (canonicalize (receipt_key h d))"
  "\<not> purse (canonicalize (tx_body_key h d))" "\<not> purse (canonicalize swap_volume_tracker_key)"
  "\<not> purse (canonicalize (processed_source_key c x))" "\<not> purse (canonicalize pending_index_key)"
  "\<not> purse (canonicalize (bridge_proposal_key L p))" "\<not> purse (canonicalize (proposal_archive_key L p))"
  "\<not> purse (canonicalize daily_mint_tracker_key)" "\<not> purse (canonicalize (proposal_key L p))"
  "\<not> purse (canonicalize (proposal_vote_key L p a))" "\<not> purse (canonicalize ACTIVE_PROPOSAL_COUNT_KEY)"
  "\<not> purse (canonicalize GOV_ACTIVE_LIST_KEY)" "\<not> purse (canonicalize GOV_PROPOSAL_INDEX_KEY)"
  "\<not> purse (canonicalize (vote_key L p a))" "\<not> purse (canonicalize (voter_count_key L p))"
  "\<not> purse (canonicalize (voter_index_key L p n))" "\<not> purse (canonicalize (deposit_key L p))"
  "\<not> purse (canonicalize (pending_keyrot_key a))"
  by (rule not_purse; simp add: GLOBAL_TOTAL_STAKED_def GLOBAL_BLOCK_HEIGHT_def reward_snapshot_key_def
      bridge_backed_zerenya_key_def recent_bridge_burns_key_def recent_bridge_burns_next_index_key_def
      slash_history_key_def slash_history_next_index_key_def used_slashing_proofs_key_def
      recent_transfers_next_index_key_def recent_transfer_record_key_def receipt_key_def tx_body_key_def
      swap_volume_tracker_key_def processed_source_key_def pending_index_key_def bridge_proposal_key_def
      proposal_archive_key_def daily_mint_tracker_key_def proposal_key_def proposal_vote_key_def
      ACTIVE_PROPOSAL_COUNT_KEY_def GOV_ACTIVE_LIST_KEY_def GOV_PROPOSAL_INDEX_KEY_def vote_key_def
      voter_count_key_def voter_index_key_def deposit_key_def pending_keyrot_key_def
      GOV_DEPOSIT_ESCROW_KEY_def is_space_def)+

section \<open>Actions that keep the books\<close>

definition books :: "(plain \<times> volatile \<Rightarrow> 'r \<times> plain \<times> volatile) \<Rightarrow> bool" where
  "books m \<longleftrightarrow> (\<forall>s w r s' w'. m (s, w) = (r, (s', w')) \<longrightarrow>
     pl_saved s' = pl_saved s \<and> vo_pending_gas_reward w' = vo_pending_gas_reward w \<and>
     same_purses (pl_view s) (pl_view s'))"

lemma booksD:
  assumes "books m" "m (s, w) = (r, (s', w'))"
  shows "pl_saved s' = pl_saved s \<and> vo_pending_gas_reward w' = vo_pending_gas_reward w \<and>
    same_purses (pl_view s) (pl_view s')"
  using assms(1) [unfolded books_def, rule_format, OF assms(2)] .

lemma books_pure [intro!]:
  "books (give x)" "books (stop e)" "books (lift r)" "books (read_var f)" "books (yields q)"
  by (auto simp: books_def give_def stop_def lift_def read_var_def yields_def)

lemma books_get [intro!]: "books (h_get (shared plain_host) a)"
  by (auto simp: books_def run_get)

lemma books_put [intro!]: "\<not> purse (canonicalize a) \<Longrightarrow> books (h_put (shared plain_host) a x)"
  by (auto simp: books_def run_put same_purses_put)

lemma books_change [intro!]:
  "(\<And>w. vo_pending_gas_reward (g w) = vo_pending_gas_reward w) \<Longrightarrow> books (change_var g)"
  by (auto simp: books_def change_var_def)

lemma books_andthen [intro!]:
  assumes "books m" "\<And>x. books (k x)"
  shows "books (andthen m k)"
  unfolding books_def
proof (intro allI impI)
  fix s w r s' w'
  assume run: "andthen m k (s, w) = (r, (s', w'))"
  obtain q s1 w1 where q: "m (s, w) = (q, (s1, w1))" by (metis prod.exhaust)
  note 1 = booksD [OF assms(1) q]
  show "pl_saved s' = pl_saved s \<and> vo_pending_gas_reward w' = vo_pending_gas_reward w \<and>
      same_purses (pl_view s) (pl_view s')"
  proof (cases q)
    case (Inl e)
    then show ?thesis using run q 1 by (simp add: andthen_def)
  next
    case (Inr x)
    then have "k x (s1, w1) = (r, (s', w'))" using run q by (simp add: andthen_def)
    from booksD [OF assms(2) this] 1 show ?thesis by (auto intro: same_purses_trans)
  qed
qed

lemma books_lift [intro!]: "(\<And>x. r = Inr x \<Longrightarrow> books (k x)) \<Longrightarrow> books (andthen (lift r) k)"
  by (cases r) (auto simp: run_andthen_pure)

lemma books_cases [intro!]:
  "(c \<Longrightarrow> books m) \<Longrightarrow> (\<not> c \<Longrightarrow> books n) \<Longrightarrow> books (if c then m else n)"
  "(x = None \<Longrightarrow> books m) \<Longrightarrow> (\<And>y. x = Some y \<Longrightarrow> books (k y)) \<Longrightarrow>
     books (case x of None \<Rightarrow> m | Some y \<Rightarrow> k y)"
  "(\<And>y. z = Inl y \<Longrightarrow> books (f y)) \<Longrightarrow> (\<And>y. z = Inr y \<Longrightarrow> books (g y)) \<Longrightarrow>
     books (case z of Inl y \<Rightarrow> f y | Inr y \<Rightarrow> g y)"
  "(\<And>a b. p = (a, b) \<Longrightarrow> books (h a b)) \<Longrightarrow> books (case p of (a, b) \<Rightarrow> h a b)"
  by (simp_all split: option.split sum.split prod.split)

lemma books_relabel:
  assumes "books m" "\<And>sw. n sw = (case m sw of (r, sw') \<Rightarrow> (f r, sw'))"
  shows "books n"
  unfolding books_def
proof (intro allI impI)
  fix s w r s' w'
  assume run: "n (s, w) = (r, (s', w'))"
  obtain q s1 w1 where q: "m (s, w) = (q, (s1, w1))" by (metis prod.exhaust)
  from booksD [OF assms(1) q] run q
  show "pl_saved s' = pl_saved s \<and> vo_pending_gas_reward w' = vo_pending_gas_reward w \<and>
      same_purses (pl_view s) (pl_view s')"
    by (simp add: assms(2))
qed

lemma books_labels [intro!]: "books m \<Longrightarrow> books (attempt m)" "books m \<Longrightarrow> books (rename_error f m)"
  by (erule books_relabel [where f = "\<lambda>r. case r of Inl e \<Rightarrow> Inr None | Inr x \<Rightarrow> Inr (Some x)"];
      simp add: attempt_def split: prod.split sum.split)
    (erule books_relabel [where f = "map_err f"]; simp add: rename_error_def split: prod.split)

lemma books_each [intro!]: "(\<And>x. x \<in> set xs \<Longrightarrow> books (f x)) \<Longrightarrow> books (each f xs)"
  by (induction xs) auto

lemma books_unless [intro!]: "books (fails_unless c e)"
  by (auto simp: fails_unless_def)

section \<open>The bookkeeping of the executor\<close>

lemma books_reserves [intro!]:
  "books (get_pool_reserves (h_get (shared plain_host)))"
  "books (get_accumulated_reward_per_share (h_get (shared plain_host)))"
  unfolding get_pool_reserves_def get_accumulated_reward_per_share_def
  by (auto simp: Let_def)

lemma books_sentinels [intro!]:
  "books (read_sentinel (shared plain_host) q)"
  "books (load_chain_params L (shared plain_host))"
  "books (load_qc_grace_ms (shared plain_host))"
  "books (load_genesis_hash (shared plain_host))"
  "books (genesis_timestamp (shared plain_host))"
  "books (admin_authority_end (shared plain_host))"
  "books (load_admin_multisig L (shared plain_host))"
  "books (load_active_set L (shared plain_host))"
  "books (load_validator_set_at_epoch L (shared plain_host) n)"
  unfolding load_chain_params_def load_qc_grace_ms_def load_genesis_hash_def genesis_timestamp_def admin_authority_end_def load_admin_multisig_def load_active_set_def load_validator_set_at_epoch_def read_sentinel_def
  by (auto simp: Let_def)

lemma books_domain [intro!]:
  "books (load_consensus_domain (shared plain_host))"
  unfolding load_consensus_domain_def
  by (auto simp: Let_def)

lemma books_prices [intro!]:
  "books (zerenya_to_zagros (shared plain_host) n)"
  "books (min_validator_stake_zagros (shared plain_host) p)"
  unfolding min_validator_stake_zagros_def zerenya_to_zagros_def
  by (auto simp: Let_def)

lemma books_factor [intro!]:
  "books (producer_reward_factor_bps L (shared plain_host) a)"
  unfolding producer_reward_factor_bps_def
  by (auto simp: Let_def split: option.split)

lemma books_receipts [intro!]:
  "books (current_block_height_for_rules (shared plain_host))"
  "books (archive_transaction L (shared plain_host) tx rc)"
  unfolding archive_transaction_def current_block_height_for_rules_def
  by (auto simp: Let_def)

lemma books_save_receipt [intro!]:
  "books (save_dummy_receipt L (shared plain_host) tx)"
  "books (save_failed_receipt L (shared plain_host) tx g)"
  unfolding save_dummy_receipt_def save_failed_receipt_def
  by (auto simp: Let_def)

lemma books_shares [intro!]:
  "books (block_producer_is_qualified L (shared plain_host) t)"
  "books (validator_share_of L (shared plain_host) n q)"
  "books (record_reward_snapshot L (shared plain_host) n a x y t)"
  unfolding block_producer_is_qualified_def validator_share_of_def record_reward_snapshot_def
  by (auto simp: Let_def)

lemma books_settle [intro!]:
  "books (settle_pending_stake (shared plain_host) a t)"
  unfolding settle_pending_stake_def
  by (auto simp: Let_def)

lemma books_bridge_backed [intro!]:
  "books (get_bridge_backed_zerenya (shared plain_host))"
  "books (increase_bridge_backed_zerenya (shared plain_host) n)"
  "books (decrease_bridge_backed_zerenya (shared plain_host) n)"
  unfolding increase_bridge_backed_zerenya_def decrease_bridge_backed_zerenya_def get_bridge_backed_zerenya_def
  by (auto simp: Let_def)

lemma books_records [intro!]:
  "books (record_bridge_burn L (shared plain_host) h a n t)"
  "books (record_slash_history L (shared plain_host) a q n t)"
  "books (record_transfer L (shared plain_host) h a b n x t)"
  unfolding record_bridge_burn_def record_slash_history_def record_transfer_def
  by (auto simp: Let_def)

lemma books_proofs [intro!]:
  "books (is_slashing_proof_used L (shared plain_host) h)"
  "books (mark_slashing_proof_used L (shared plain_host) h)"
  unfolding is_slashing_proof_used_def mark_slashing_proof_used_def
  by (auto simp: Let_def)

lemma books_fees [intro!]:
  "books (reserves_or_zero (shared plain_host))"
  "books (scheduled_fee F (shared plain_host) q)"
  "books (is_admin_authority_active (shared plain_host) t)"
  unfolding scheduled_fee_def reserves_or_zero_def is_admin_authority_active_def
  by (auto simp: Let_def)

lemma books_volume [intro!]:
  "books (record_volume_and_compute_fee_bps C (h_get (shared plain_host)) (h_put (shared plain_host)) d n r t)"
  unfolding record_volume_and_compute_fee_bps_def check_and_record_swap_volume_def load_tracker_def tracker_error_renames
  by (auto simp: Let_def)

lemma books_d14 [intro!]:
  "books (d14_active (shared plain_host))"
  "books (reject_self_transfer (shared plain_host) tx a)"
  "books (jail_at_d14 (shared plain_host) b)"
  "books (lower_total_staked (shared plain_host) n)"
  unfolding reject_self_transfer_def d14_active_def jail_at_d14_def lower_total_staked_def
  by (auto simp: Let_def)

lemma books_evidence_set [intro!]: "books (resolve_evidence_set L (shared plain_host) ev d n es)"
  by (induction es) auto

lemma books_report [intro!]:
  "books (resolve_report L (shared plain_host) tx)"
  unfolding resolve_report_def
  by (auto simp: Let_def split: option.split equivocation_report.split)

lemma books_validators [intro!]:
  "books (unregister_validator K (shared plain_host) now a)"
  "books (lock_unstaked K (shared plain_host) tx now a)"
  "books (reject_self_target L (shared plain_host) e tx q)"
  "books (admin_phase_active (shared plain_host) now)"
  "books (verify_admin_action L (shared plain_host) p n)"
  unfolding unregister_validator_def lock_unstaked_def reject_self_target_def admin_phase_active_def verify_admin_action_def
  by (auto simp: Let_def)

lemma books_bridge_access [intro!]:
  "books (bridge_get (shared plain_host) q)"
  unfolding bridge_get_def
  by (auto simp: Let_def)

lemma books_bridge_put [intro!]: "\<not> purse (canonicalize q) \<Longrightarrow> books (bridge_put (shared plain_host) q x)"
  unfolding bridge_put_def by auto

lemma books_bridge [intro!]:
  "books (load_bridge_authority_set L (shared plain_host))"
  "books (mark_source_processed_in_state (shared plain_host) c h)"
  "books (is_source_processed_in_state (shared plain_host) c h)"
  "books (drop_from_pending L (shared plain_host) p)"
  "books (write_archive L (shared plain_host) p b)"
  unfolding load_bridge_authority_set_def mark_source_processed_in_state_def is_source_processed_in_state_def drop_from_pending_def write_archive_def
  by (auto simp: Let_def)

lemma books_mints [intro!]:
  "books (close_mint L (shared plain_host) p)"
  "books (check_and_record_daily_mint L (shared plain_host) n t lim)"
  "books (validate_bridge_mint_proposal L F (shared plain_host) tx b now)"
  "books (require_backing (shared plain_host) e n)"
  unfolding close_mint_def archive_executed_proposal_def check_and_record_daily_mint_def validate_bridge_mint_proposal_def require_backing_def
  by (auto simp: Let_def)

lemma books_load_hashes [intro!]:
  "books (load_hash_list L (shared plain_host) q e)"
  unfolding load_hash_list_def
  by (auto simp: Let_def)

lemma books_store_hashes [intro!]:
  "\<not> purse (canonicalize q) \<Longrightarrow> books (store_hash_list L (shared plain_host) q e ps)"
  unfolding store_hash_list_def by auto

lemma books_registers [intro!]:
  "books (register_typed_active L (shared plain_host) p)"
  "books (register_index L (shared plain_host) p)"
  unfolding register_typed_active_def register_index_def load_typed_active_def load_index_def store_typed_active_def
  by (auto simp: Let_def)

lemma books_proposals [intro!]:
  "books (save_proposal L (shared plain_host) p)"
  "books (increment_active_proposal_count (shared plain_host))"
  "books (active_proposal_count (shared plain_host))"
  "books (has_voted L (shared plain_host) q a)"
  "books (mark_voted L (shared plain_host) q a)"
  "books (load_proposal L (shared plain_host) q)"
  unfolding save_proposal_def increment_active_proposal_count_def active_proposal_count_def has_voted_def mark_voted_def load_proposal_def
  by (auto simp: Let_def)

lemma books_votes [intro!]:
  "books (record_gov_vote L (shared plain_host) q a b n)"
  "books (cast_gov_vote L F (shared plain_host) tx now z x)"
  unfolding cast_gov_vote_def record_gov_vote_def
  by (auto simp: Let_def)

lemma books_submission [intro!]:
  "books (check_submission F (shared plain_host) a)"
  "books (check_membership_target (shared plain_host) now t)"
  "books (voting_end (shared plain_host) now p)"
  unfolding check_submission_def check_membership_target_def voting_end_def
  by (auto simp: Let_def)

lemma books_typed_action [intro!]:
  "books (check_typed_action L (shared plain_host) now p act)"
  unfolding check_typed_action_def
  by (auto split: proposal_action.split)

lemma books_window [intro!]:
  "books (voting_window L (shared plain_host) now d act)"
  unfolding voting_window_def
  by (auto simp: Let_def)

lemma books_refresh [intro!]:
  "books (refresh_staking_index_after L (shared plain_host) tx)"
  unfolding refresh_staking_index_after_def refresh_one_def Let_def
  by (auto split: tx_type.split)

lemma books_admission [intro!]:
  "books (find_sender (shared plain_host) tx q)"
  "books (declared_fee F (shared plain_host) tx)"
  "books (evm_extras F (shared plain_host) tx)"
  "books (read_sender F (shared plain_host) tx)"
  unfolding find_sender_def declared_fee_def evm_extras_def evm_deploy_levy_def evm_standard_fee_def read_sender_def
  by (auto simp: Let_def split: option.split)

end
