(* ===== verification/Supply.thy ===== *)
theory Supply
  imports Ledger
begin

text \<open>
  Where ZAGROS can come from: nowhere. On the plain map, whatever its outcome, an ordinary native transaction
  leaves at most as many coins as there were, the collected fees counted in.

  A handler works on a copy of the sender's account that the executor writes back at the end, so the
  state's own entry under the sender's key does not matter meanwhile: \<open>others k v\<close> are the coins under
  all other keys. \<open>good m v Q\<close> is the weakest precondition of success, \<open>gains k n m\<close> says that \<open>m\<close> adds at most
  \<open>n\<close> to the coins of the others and takes nothing from the pool's reserve.
\<close>

section \<open>The coins of the others\<close>

definition others :: "address \<Rightarrow> (address \<rightharpoonup> account) \<Rightarrow> nat" where
  "others k v = coins (v(k := None))"

definition reserve :: "(address \<rightharpoonup> account) \<Rightarrow> nat" where
  "reserve v = ac_balance (unwrap_or_default (v LIQUIDITY_POOL_ADDRESS))"

lemma coins_split: "finite (dom v) \<Longrightarrow> coins v = others k v + held v k"
proof -
  assume fin: "finite (dom v)"
  have "coins (v(k := None)) = (\<Sum>j \<in> insert k (dom v). held (v(k := None)) j)"
    using fin by (intro coins_over) auto
  also have "\<dots> = (\<Sum>j \<in> insert k (dom v) - {k}. held v j)"
    using fin by (simp add: sum.remove [of _ k] held_None) (rule sum.cong, auto simp: held_def)
  finally show ?thesis
    using fin by (simp add: others_def coins_over [of "insert k (dom v)" v] subset_insertI sum.remove [of _ k])
qed

lemma others_self [simp]: "others k (v(k \<mapsto> a)) = others k v"
  by (simp add: others_def)

lemma others_put:
  assumes "finite (dom v)" "j \<noteq> k"
  shows "others k (v(j \<mapsto> a)) + held v j = others k v + (if purse j then worth a else 0)"
proof -
  have "(v(j \<mapsto> a))(k := None) = (v(k := None))(j \<mapsto> a)" using assms(2) by (simp add: fun_upd_twist)
  moreover have "held (v(k := None)) j = held v j" using assms(2) by (simp add: held_def)
  ultimately show ?thesis using coins_update [of "v(k := None)" j a] assms(1) by (simp add: others_def)
qed

lemma others_same_purses: "same_purses v v' \<Longrightarrow> finite (dom v) \<Longrightarrow> others k v' = others k v"
  unfolding others_def by (rule same_purses_coins) (auto simp: same_purses_def)

lemma pools_are_purses [simp]:
  "canonicalize LIQUIDITY_POOL_ADDRESS = LIQUIDITY_POOL_ADDRESS"
  "canonicalize VALIDATOR_REWARD_POOL = VALIDATOR_REWARD_POOL"
  "purse LIQUIDITY_POOL_ADDRESS" "purse VALIDATOR_REWARD_POOL"
  "VALIDATOR_REWARD_POOL \<noteq> LIQUIDITY_POOL_ADDRESS"
  by (code_simp)+

lemma same_purses_reserve: "same_purses v v' \<Longrightarrow> reserve v' = reserve v"
  by (simp add: same_purses_def reserve_def)

lemma same_purses_finite: "same_purses v v' \<Longrightarrow> finite (dom v) \<Longrightarrow> finite (dom v')"
  by (simp add: same_purses_def)

section \<open>Growth\<close>

definition grows :: "address \<Rightarrow> nat \<Rightarrow> (address \<rightharpoonup> account) \<Rightarrow> (address \<rightharpoonup> account) \<Rightarrow> bool" where
  "grows k n v v' \<longleftrightarrow> (finite (dom v) \<longrightarrow>
     finite (dom v') \<and> others k v' \<le> others k v + n \<and> reserve v \<le> reserve v')"

lemma grows_same: "same_purses v v' \<Longrightarrow> grows k n v v'"
  by (simp add: grows_def same_purses_finite others_same_purses same_purses_reserve)

lemma grows_trans: "grows k m u v \<Longrightarrow> grows k n v w \<Longrightarrow> grows k (m + n) u w"
  by (auto simp: grows_def)

lemma grows_mono: "grows k m v v' \<Longrightarrow> m \<le> n \<Longrightarrow> grows k n v v'"
  by (auto simp: grows_def)

lemma grows_put:
  assumes "worth a \<le> worth (unwrap_or_default (v j)) + n"
    and "j = LIQUIDITY_POOL_ADDRESS \<Longrightarrow> reserve v \<le> ac_balance a"
  shows "grows k n v (v(j \<mapsto> a))"
proof -
  have "others k (v(j \<mapsto> a)) \<le> others k v + n" if "finite (dom v)"
    using others_put [OF that, of j k a] assms(1) by (cases "j = k") (auto simp: held_def split: if_splits)
  moreover have "reserve v \<le> reserve (v(j \<mapsto> a))" using assms(2) by (auto simp: reserve_def unwrap_or_default_def)
  ultimately show ?thesis by (simp add: grows_def)
qed

section \<open>Success\<close>

definition good ::
  "(plain \<times> volatile \<Rightarrow> ('e + 'a) \<times> plain \<times> volatile) \<Rightarrow> (address \<rightharpoonup> account) \<Rightarrow>
     ('a \<Rightarrow> (address \<rightharpoonup> account) \<Rightarrow> bool) \<Rightarrow> bool" where
  "good m v Q \<longleftrightarrow> (\<forall>s w r s' w'. m (s, w) = (r, (s', w')) \<longrightarrow> pl_view s = v \<longrightarrow>
     pl_saved s' = pl_saved s \<and> vo_pending_gas_reward w' = vo_pending_gas_reward w \<and>
     (\<forall>x. r = Inr x \<longrightarrow> Q x (pl_view s')))"

lemma goodD:
  assumes "good m v Q" "m (s, w) = (r, (s', w'))" "pl_view s = v"
  shows "pl_saved s' = pl_saved s" "vo_pending_gas_reward w' = vo_pending_gas_reward w" "r = Inr x \<Longrightarrow> Q x (pl_view s')"
  using assms(1) [unfolded good_def, rule_format, OF assms(2,3)] by blast+

lemma good_pure [simp]:
  "good (give x) v Q \<longleftrightarrow> Q x v" "good (stop e) v Q" "good (lift r) v Q \<longleftrightarrow> (\<forall>x. r = Inr x \<longrightarrow> Q x v)"
  by (auto simp: good_def give_def stop_def lift_def) (metis plain.select_convs(1))+

lemma good_mono: "good m v R \<Longrightarrow> (\<And>x v'. R x v' \<Longrightarrow> Q x v') \<Longrightarrow> good m v Q"
  unfolding good_def by blast

lemma good_andthen:
  assumes "good m v (\<lambda>x v'. good (k x) v' Q)"
  shows "good (andthen m k) v Q"
  unfolding good_def
proof (intro allI impI)
  fix s w r s' w'
  assume run: "andthen m k (s, w) = (r, (s', w'))" and v: "pl_view s = v"
  obtain q s1 w1 where q: "m (s, w) = (q, (s1, w1))" by (metis prod.exhaust)
  note 1 = goodD [OF assms q v]
  show "pl_saved s' = pl_saved s \<and> vo_pending_gas_reward w' = vo_pending_gas_reward w \<and>
      (\<forall>x. r = Inr x \<longrightarrow> Q x (pl_view s'))"
  proof (cases q)
    case (Inl e)
    then show ?thesis using run q 1(1,2) by (auto simp: andthen_def)
  next
    case (Inr x)
    then have "k x (s1, w1) = (r, (s', w'))" using run q by (simp add: andthen_def)
    from goodD [OF 1(3) [OF Inr] this refl] 1(1,2) show ?thesis by auto
  qed
qed

lemma good_get: "Q (v (canonicalize a)) v \<Longrightarrow> good (h_get (shared plain_host) a) v Q"
  by (auto simp: good_def run_get)

lemma good_put: "Q () (v(canonicalize a \<mapsto> x)) \<Longrightarrow> good (h_put (shared plain_host) a x) v Q"
  by (auto simp: good_def run_put)

lemma good_read: "(\<And>x. Q x v) \<Longrightarrow> good (read_var f) v Q"
  by (auto simp: good_def read_var_def)

lemma good_books: "books m \<Longrightarrow> (\<And>x v'. same_purses v v' \<Longrightarrow> Q x v') \<Longrightarrow> good m v Q"
  by (auto simp: good_def dest: booksD)

lemma good_cases:
  "(c \<Longrightarrow> good m v Q) \<Longrightarrow> (\<not> c \<Longrightarrow> good n v Q) \<Longrightarrow> good (if c then m else n) v Q"
  "(x = None \<Longrightarrow> good m v Q) \<Longrightarrow> (\<And>y. x = Some y \<Longrightarrow> good (g y) v Q) \<Longrightarrow>
     good (case x of None \<Rightarrow> m | Some y \<Rightarrow> g y) v Q"
  "(\<And>a b. p = (a, b) \<Longrightarrow> good (h a b) v Q) \<Longrightarrow> good (case p of (a, b) \<Rightarrow> h a b) v Q"
  by (simp_all split: option.split prod.split)

text \<open>The two ways to use an action: for what it returns, or only for how far it grows the others.\<close>

lemma then_get:
  "good (k (v (canonicalize a))) v Q \<Longrightarrow> good (andthen (h_get (shared plain_host) a) k) v Q"
  by (rule good_andthen, rule good_get)

lemma then_put:
  "good (k ()) (v(canonicalize a \<mapsto> x)) Q \<Longrightarrow> good (andthen (h_put (shared plain_host) a x) k) v Q"
  by (rule good_andthen, rule good_put)

lemma then_lift: "(\<And>x. r = Inr x \<Longrightarrow> good (k x) v Q) \<Longrightarrow> good (andthen (lift r) k) v Q"
  by (rule good_andthen) simp

lemma then_books:
  "books m \<Longrightarrow> (\<And>x v'. same_purses v v' \<Longrightarrow> good (k x) v' Q) \<Longrightarrow> good (andthen m k) v Q"
  by (rule good_andthen, erule good_books)

section \<open>Actions that add a known amount\<close>

definition gains :: "address \<Rightarrow> nat \<Rightarrow> (plain \<times> volatile \<Rightarrow> ('e + 'a) \<times> plain \<times> volatile) \<Rightarrow> bool" where
  "gains k n m \<longleftrightarrow> (\<forall>v. good m v (\<lambda>_. grows k n v))"

lemma gainsI: "(\<And>v. good m v (\<lambda>_. grows k n v)) \<Longrightarrow> gains k n m"
  by (simp add: gains_def)

lemma gains_books: "books m \<Longrightarrow> gains k n m"
  by (auto simp: gains_def intro: good_books grows_mono [OF grows_same])

lemma good_gains: "gains k n m \<Longrightarrow> (\<And>x v'. grows k n v v' \<Longrightarrow> Q x v') \<Longrightarrow> good m v Q"
  unfolding gains_def by (blast intro: good_mono)

lemma then_gains:
  "gains k n m \<Longrightarrow> (\<And>x v'. grows k n v v' \<Longrightarrow> good (c x) v' Q) \<Longrightarrow> good (andthen m c) v Q"
  by (rule good_andthen, erule good_gains)

lemma gains_andthen:
  assumes "gains k m a" "\<And>x. gains k n (b x)"
  shows "gains k (m + n) (andthen a b)"
  by (rule gainsI, rule then_gains [OF assms(1)], rule good_gains [OF assms(2)]) (rule grows_trans)

lemmas gains_then = gains_andthen [where n = 0, simplified]
lemmas gains_before = gains_andthen [where m = 0, simplified]

lemma gains_mono: "gains k m a \<Longrightarrow> m \<le> n \<Longrightarrow> gains k n a"
  by (rule gainsI, erule good_gains) (rule grows_mono)

lemma gains_if: "(c \<Longrightarrow> gains k n a) \<Longrightarrow> (\<not> c \<Longrightarrow> gains k n b) \<Longrightarrow> gains k n (if c then a else b)"
  by simp

lemma gains_add_balance: "gains k n (state_add_balance (h_get (shared plain_host)) (h_put (shared plain_host)) a n)"
  unfolding state_add_balance_def
  by (rule gainsI, rule then_get, rule then_lift, rule good_put, rule grows_put)
    (auto simp: ac_add_balance_def map_err_def worth_def reserve_def checked_add_def split: option.splits if_splits)

lemma gains_set_per_share:
  "gains k 0 (set_accumulated_reward_per_share (h_get (shared plain_host)) (h_put (shared plain_host)) n)"
  unfolding set_accumulated_reward_per_share_def
  by (rule gainsI, rule then_get, rule good_put, rule grows_put)
    (simp_all add: set_reward_per_share_def worth_def reserve_def)

text \<open>Where the value returned matters too.\<close>

definition returns :: "('s \<Rightarrow> ('e + 'a) \<times> 's) \<Rightarrow> ('a \<Rightarrow> bool) \<Rightarrow> bool" where
  "returns m P \<longleftrightarrow> (\<forall>s x s'. m s = (Inr x, s') \<longrightarrow> P x)"

lemma returns_pure [simp]: "returns (give x) P \<longleftrightarrow> P x" "returns (stop e) P"
    "returns (lift r) P \<longleftrightarrow> (\<forall>x. r = Inr x \<longrightarrow> P x)"
  by (auto simp: returns_def give_def stop_def lift_def)

lemma returns_andthen: "(\<And>x. returns (k x) P) \<Longrightarrow> returns (andthen m k) P"
  by (auto simp: returns_def andthen_Inr)

lemma returns_after: "returns m R \<Longrightarrow> (\<And>x. R x \<Longrightarrow> returns (k x) P) \<Longrightarrow> returns (andthen m k) P"
  unfolding returns_def andthen_Inr by blast

lemma returns_cases:
  "(c \<Longrightarrow> returns m P) \<Longrightarrow> (\<not> c \<Longrightarrow> returns n P) \<Longrightarrow> returns (if c then m else n) P"
  "(x = None \<Longrightarrow> returns m P) \<Longrightarrow> (\<And>y. x = Some y \<Longrightarrow> returns (k y) P) \<Longrightarrow>
     returns (case x of None \<Rightarrow> m | Some y \<Rightarrow> k y) P"
  by (simp_all split: option.split)

lemma good_books_with:
  assumes "books m" "returns m P" "\<And>x v'. P x \<Longrightarrow> same_purses v v' \<Longrightarrow> Q x v'"
  shows "good m v Q"
proof -
  have "good m v (\<lambda>x v'. P x \<and> same_purses v v')"
    using assms(1,2) unfolding good_def returns_def by (blast dest: booksD)
  then show ?thesis by (rule good_mono) (use assms(3) in auto)
qed

lemma then_books_with:
  "books m \<Longrightarrow> returns m P \<Longrightarrow> (\<And>x v'. P x \<Longrightarrow> same_purses v v' \<Longrightarrow> good (k x) v' Q) \<Longrightarrow>
     good (andthen m k) v Q"
  by (rule good_andthen) (rule good_books_with)

lemma gains_books_with:
  assumes "books m" "returns m P" "\<And>x. P x \<Longrightarrow> gains k n (c x)"
  shows "gains k n (andthen m c)"
  by (rule gainsI, rule then_books_with [OF assms(1,2)], rule good_gains [OF assms(3)])
    (auto dest: grows_same intro: grows_trans [where m = 0, simplified])

section \<open>Rewards\<close>

lemma factor_bounded: "returns (producer_reward_factor_bps L H a) (\<lambda>n. n \<le> 10000)"
  unfolding producer_reward_factor_bps_def Let_def
  by (intro returns_andthen returns_cases) (auto simp: as_u16_def)

lemma share_bounded: "returns (validator_share_of L H n q) (\<lambda>x. x \<le> n)"
proof -
  have "sat_mul u128_max (sat_mul u128_max n VALIDATOR_REWARD_BPS div 10000) f div 10000 \<le> n" if "f \<le> 10000" for f
    using fee_below [OF that] fee_below [of VALIDATOR_REWARD_BPS n]
    by (auto simp: VALIDATOR_REWARD_BPS_def intro: order_trans)
  then show ?thesis
    unfolding validator_share_of_def Let_def
    by (intro returns_cases returns_andthen returns_after [OF factor_bounded]) auto
qed

lemma gains_credit_stakers: "gains k n (credit_stakers (shared plain_host) n t acc)"
  unfolding credit_stakers_def Let_def
  by (intro gains_if gains_books [OF books_pure(1)]
      gains_then [OF gains_add_balance] gains_then [OF gains_set_per_share])

lemma gains_distribute: "gains k n (distribute_staking_reward L (shared plain_host) n t)"
proof -
  have producer: "gains k m (if 0 < m then andthen (read_var vo_block_producer) (\<lambda>p.
      state_add_balance (h_get (shared plain_host)) (h_put (shared plain_host)) p m) else give ())" for m
    by (intro gains_if gains_before gains_add_balance gains_books books_pure)
  have rest: "gains k n (andthen (validator_share_of L (shared plain_host) n q) (\<lambda>validator_share.
      andthen (if 0 < validator_share then andthen (read_var vo_block_producer) (\<lambda>p.
          state_add_balance (h_get (shared plain_host)) (h_put (shared plain_host)) p validator_share) else give ()) (\<lambda>_.
      andthen (get_accumulated_reward_per_share (h_get (shared plain_host))) (\<lambda>acc.
      andthen (credit_stakers (shared plain_host) (n - validator_share) total acc) (\<lambda>new_acc.
        record_reward_snapshot L (shared plain_host) total new_acc (n - validator_share) validator_share t)))))" for q total
  proof (rule gains_books_with [OF _ share_bounded])
    show "gains k n (andthen (if 0 < x then andthen (read_var vo_block_producer) (\<lambda>p.
          state_add_balance (h_get (shared plain_host)) (h_put (shared plain_host)) p x) else give ()) (\<lambda>_.
      andthen (get_accumulated_reward_per_share (h_get (shared plain_host))) (\<lambda>acc.
      andthen (credit_stakers (shared plain_host) (n - x) total acc) (\<lambda>new_acc.
        record_reward_snapshot L (shared plain_host) total new_acc (n - x) x t))))" if "x \<le> n" for x
      using that
      by (intro gains_mono [OF gains_andthen [where m = x and n = "n - x"]] producer
          gains_before
          gains_then gains_credit_stakers gains_books) auto
  qed auto
  show ?thesis
    unfolding distribute_staking_reward_def Let_def
    by (intro gains_if gains_before rest
        gains_then gains_add_balance gains_books) auto
qed

section \<open>Balanced handlers\<close>

text \<open>The others lose at least \<open>x\<close> and gain at most \<open>y\<close>.\<close>

definition moves :: "address \<Rightarrow> nat \<Rightarrow> nat \<Rightarrow> (address \<rightharpoonup> account) \<Rightarrow> (address \<rightharpoonup> account) \<Rightarrow> bool" where
  "moves k x y v v' \<longleftrightarrow> (finite (dom v) \<longrightarrow> finite (dom v') \<and> others k v' + x \<le> others k v + y)"

definition balanced :: "address \<Rightarrow> (address \<rightharpoonup> account) \<Rightarrow> account \<Rightarrow> account \<Rightarrow> (address \<rightharpoonup> account) \<Rightarrow> bool" where
  "balanced k v a a' v' \<longleftrightarrow> (finite (dom v) \<longrightarrow>
     finite (dom v') \<and> others k v' + worth a' \<le> others k v + worth a)"

lemma balancedI: "moves k x y v v' \<Longrightarrow> worth a' + y \<le> worth a + x \<Longrightarrow> balanced k v a a' v'"
  by (auto simp: moves_def balanced_def)

lemma moves_same: "same_purses v v' \<Longrightarrow> moves k 0 0 v v'"
  by (simp add: moves_def others_same_purses same_purses_finite)

lemma moves_grows: "grows k n v v' \<Longrightarrow> moves k 0 n v v'"
  by (auto simp: moves_def grows_def)

lemma moves_trans: "moves k x y u v \<Longrightarrow> moves k x' y' v w \<Longrightarrow> moves k (x + x') (y + y') u w"
  by (auto simp: moves_def)

lemma moves_put: "worth a \<le> worth (unwrap_or_default (v j)) + n \<Longrightarrow> moves k 0 n v (v(j \<mapsto> a))"
  using others_put [of v j k a] by (cases "j = k") (auto simp: moves_def held_def split: if_splits)

lemma moves_out:
  assumes "j \<noteq> k" "purse j" "worth a + n \<le> worth (unwrap_or_default (v j))"
  shows "moves k n 0 v (v(j \<mapsto> a))"
  using others_put [of v j k a] assms by (auto simp: moves_def held_def)

lemmas moves_first = moves_trans [where x = 0 and y = 0, simplified, OF moves_same]
lemmas moves_last = moves_trans [where x' = 0 and y' = 0, simplified, OF _ moves_same]

lemma balanced_same: "same_purses v v' \<Longrightarrow> worth a' \<le> worth a \<Longrightarrow> balanced k v a a' v'"
  by (rule balancedI [OF moves_same]) auto

lemma balanced_trans: "balanced k u a b v \<Longrightarrow> balanced k v b c w \<Longrightarrow> balanced k u a c w"
  by (auto simp: balanced_def)

lemma balanced_first: "same_purses u v \<Longrightarrow> balanced k v a b w \<Longrightarrow> balanced k u a b w"
  by (erule balanced_trans [OF balanced_same]) auto

definition fair :: "address \<Rightarrow> account \<Rightarrow> (plain \<times> volatile \<Rightarrow> ('e + account) \<times> plain \<times> volatile) \<Rightarrow> bool" where
  "fair k a m \<longleftrightarrow> (\<forall>v. good m v (balanced k v a))"

lemma fairI: "(\<And>v. good m v (balanced k v a)) \<Longrightarrow> fair k a m"
  by (simp add: fair_def)

lemma fair_books: "books m \<Longrightarrow> returns m (\<lambda>b. worth b \<le> worth a) \<Longrightarrow> fair k a m"
  unfolding fair_def good_def returns_def by (blast intro: balanced_same dest: booksD)

lemma fair_stop: "fair k a (stop e)"
  by (simp add: fair_def)

lemma fair_give: "worth b \<le> worth a \<Longrightarrow> fair k a (give b)"
  by (simp add: fair_def balanced_same)

lemma fair_if: "(c \<Longrightarrow> fair k a m) \<Longrightarrow> (\<not> c \<Longrightarrow> fair k a n) \<Longrightarrow> fair k a (if c then m else n)"
  by simp

lemma fair_lift: "(\<And>x. r = Inr x \<Longrightarrow> fair k a (m x)) \<Longrightarrow> fair k a (andthen (lift r) m)"
  by (cases r) (simp_all add: run_andthen_pure fair_stop)

lemma fair_then_books:
  "books m \<Longrightarrow> returns m P \<Longrightarrow> (\<And>x. P x \<Longrightarrow> fair k a (c x)) \<Longrightarrow> fair k a (andthen m c)"
  unfolding fair_def
  by (intro allI, erule (1) then_books_with) (blast intro: good_mono balanced_first)

lemma fair_then_read: "books m \<Longrightarrow> (\<And>x. fair k a (c x)) \<Longrightarrow> fair k a (andthen m c)"
  by (rule fair_then_books [where P = "\<lambda>_. True"]) (auto simp: returns_def)

text \<open>An account is handed on: what the first action leaves of it, the second starts from.\<close>

lemma fair_then: "fair k a m \<Longrightarrow> (\<And>b. fair k b (c b)) \<Longrightarrow> fair k a (andthen m c)"
  unfolding fair_def
  by (intro allI good_andthen) (blast intro: good_mono balanced_trans)

text \<open>The sender pays, the others gain; or the sender has paid before.\<close>

lemma fair_then_gains:
  assumes "gains k n m" "\<And>x. fair k b (c x)" "worth b + n \<le> worth a"
  shows "fair k a (andthen m c)"
proof (rule fairI, rule then_gains [OF assms(1)])
  fix v x v'
  assume "grows k n v v'"
  then have "balanced k v a b v'" using assms(3) by (intro balancedI [OF moves_grows]) auto
  moreover have "good (c x) v' (balanced k v' b)" using assms(2) by (simp add: fair_def)
  ultimately show "good (c x) v' (balanced k v a)" by (blast intro: good_mono balanced_trans)
qed

section \<open>Transfers, swaps and stake\<close>

lemma fair_transfer:
  assumes "tx_amount tx \<le> ac_balance a"
  shows "fair k a (do_transfer L (shared plain_host) tx now key a)"
proof -
  let ?n = "tx_amount tx" and ?r = "canonicalize (tx_receiver tx)"
  let ?a = "a\<lparr>ac_balance := sat_sub (ac_balance a) ?n\<rparr>"
  have paid: "worth ?a + ?n \<le> worth a" using assms by (simp add: worth_def sat_sub_def)
  have put: "good (andthen (h_put (shared plain_host) (tx_receiver tx)
        ((unwrap_or_default (v ?r))\<lparr>ac_balance := sat_add u128_max (ac_balance (unwrap_or_default (v ?r))) ?n\<rparr>))
      (\<lambda>_. andthen (record_transfer L (shared plain_host) i s r ?n z now) (\<lambda>_. give ?a))) v (balanced k v a)" for v i s r z
    by (rule then_put, rule then_books, blast, unfold good_pure)
      (rule balancedI [OF moves_last [OF moves_put [where n = ?n]]], use paid in
        \<open>auto simp: worth_def intro: order_trans [OF sat_add_upper]\<close>)
  show ?thesis
    unfolding do_transfer_def Let_def
    by (intro fair_if fair_stop fair_then_read [OF books_d14(2)]) (rule fairI, rule then_get, rule put)
qed

lemma moves_set_reserves:
  "k \<noteq> LIQUIDITY_POOL_ADDRESS \<Longrightarrow>
    good (set_pool_reserves (h_get (shared plain_host)) (h_put (shared plain_host)) x y) v
      (\<lambda>_. moves k (reserve v) x v)"
  unfolding set_pool_reserves_def
  by (rule then_get, rule good_put)
    (use others_put [of v LIQUIDITY_POOL_ADDRESS k
        "(unwrap_or_default (v LIQUIDITY_POOL_ADDRESS))\<lparr>ac_balance := x, ac_zerenya_balance := y\<rparr>"] in
      \<open>simp add: moves_def held_def worth_def reserve_def\<close>)

text \<open>The pool pays \<open>raw\<close> out of its reserve: a part to the sender, a part as the fee.\<close>

lemma amm_below:
  assumes "amm_quotient a z (sat_add u256_max e a) = Inr raw" "0 < z"
  shows "raw \<le> z"
proof (cases "e + a \<le> u256_max")
  case True
  then have "raw \<le> a * z div (e + a)"
    using assms(1) by (auto simp: amm_quotient_def Let_def sat_add_def sat_mul_upper div_le_mono split: if_splits)
  then show ?thesis using quotient_below [of a z e] by simp
next
  case False
  then have "raw \<le> u256_max div u256_max"
    using assms(1) by (auto simp: amm_quotient_def Let_def sat_add_def sat_mul_def div_le_mono split: if_splits)
  then show ?thesis using assms(2) by simp
qed

lemma fee_bps_bounded:
  "returns (record_volume_and_compute_fee_bps C (h_get H) (h_put H) d n r t) (\<lambda>bps. bps \<le> 10000)"
  unfolding record_volume_and_compute_fee_bps_def by (rule returns_andthen) (simp add: STANDARD_SWAP_FEE_BPS_def)

lemma then_reserves:
  "(\<And>z. good (c (reserve v, z)) v Q) \<Longrightarrow> good (andthen (get_pool_reserves (h_get (shared plain_host))) c) v Q"
  unfolding get_pool_reserves_def by (simp add: andthen_assoc, rule then_get) (simp add: run_andthen_pure reserve_def Let_def)

text \<open>The end of every swap: the fee is distributed, the new reserve is written.\<close>

lemma set_then:
  assumes k: "k \<noteq> LIQUIDITY_POOL_ADDRESS" and start: "same_purses v v1" and grows: "grows k n v1 v2"
    and paid: "worth b + n + x \<le> worth a + reserve v" and rest: "books c" "returns c (\<lambda>d. d = b)"
  shows "good (andthen (set_pool_reserves (h_get (shared plain_host)) (h_put (shared plain_host)) x y) (\<lambda>_. c)) v2
    (balanced k v a)"
proof (rule good_andthen, rule good_mono [OF moves_set_reserves [OF k]], rule good_books_with [OF rest])
  fix v3 v4 d
  assume set: "moves k (reserve v2) x v2 v3" and same: "same_purses v3 v4" and d: "d = b"
  have "finite (dom v) \<Longrightarrow> reserve v \<le> reserve v2"
    using grows start by (simp add: grows_def same_purses_finite same_purses_reserve [OF start])
  moreover have "moves k (reserve v2) (n + x) v v4"
    using moves_last [OF moves_first [OF start moves_trans [OF moves_grows [OF grows] set]] same] by simp
  ultimately show "balanced k v a d v4" using paid d by (auto simp: balanced_def moves_def)
qed

lemma set_end:
  assumes "k \<noteq> LIQUIDITY_POOL_ADDRESS" "same_purses v v1" "grows k n v1 v2" "worth b + n + x \<le> worth a + reserve v"
  shows "good (andthen (set_pool_reserves (h_get (shared plain_host)) (h_put (shared plain_host)) x y)
    (\<lambda>_. give b)) v2 (balanced k v a)"
  by (rule set_then [OF assms]) auto

lemma swap_end:
  assumes "k \<noteq> LIQUIDITY_POOL_ADDRESS" "gains k n m" "same_purses v v1" "worth b + n + x \<le> worth a + reserve v"
  shows "good (andthen m (\<lambda>_. andthen (set_pool_reserves (h_get (shared plain_host)) (h_put (shared plain_host)) x y)
    (\<lambda>_. give b))) v1 (balanced k v a)"
  by (rule then_gains [OF assms(2)]) (rule set_end [OF assms(1,3) _ assms(4)])

lemma fee_gains:
  "gains k n (if 0 < n then distribute_staking_reward L (shared plain_host) n t else give ())"
  by (intro gains_if gains_distribute gains_books books_pure)

lemma quote_buy_pays:
  assumes "quote_swap_buy n z e bps = Inr q" "bps \<le> 10000"
  shows "sq_amount_out q + sq_community_fee q + sq_new_pool_zagros q \<le> z"
  using assms amm_below [of n z e] fee_below [OF assms(2)]
  by (auto simp: quote_swap_buy_def Let_def try_then_Inr MIN_POOL_LIQUIDITY_ZAGROS_def TOKEN_DECIMAL_def
      split: if_splits)

lemma fair_swap_buy:
  assumes k: "k \<noteq> LIQUIDITY_POOL_ADDRESS"
  shows "fair k a (swap_buy L (shared plain_host) tx now a)"
  unfolding swap_buy_def
proof (intro fair_if fair_stop fairI then_reserves, unfold prod.case,
    rule then_lift, rule then_books_with [OF books_volume fee_bps_bounded], rule then_lift)
  fix v z m bps v1 q
  assume bps: "bps \<le> (10000::nat)" and v1: "same_purses v v1"
    and q: "quote_swap_buy (tx_amount tx) (reserve v) z bps = Inr q"
  let ?b = "a\<lparr>ac_zerenya_balance := sat_sub (ac_zerenya_balance a) (tx_amount tx),
    ac_balance := sat_add u128_max (ac_balance a) (sq_amount_out q)\<rparr>"
  have "worth ?b + sq_community_fee q + sq_new_pool_zagros q \<le> worth a + reserve v"
    using quote_buy_pays [OF q bps] sat_add_upper [of u128_max "ac_balance a" "sq_amount_out q"]
    by (simp add: worth_def)
  note ends = swap_end [OF k fee_gains v1 this]
  show "good (if 0 < m \<and> sq_amount_out q < m then stop (Other ''Slippage too high'')
      else let sender = ?b in andthen (if 0 < sq_community_fee q
          then distribute_staking_reward L (shared plain_host) (sq_community_fee q) now else give ())
        (\<lambda>_. andthen (set_pool_reserves (h_get (shared plain_host)) (h_put (shared plain_host)) (sq_new_pool_zagros q)
          (sq_new_pool_zerenya q)) (\<lambda>_. give sender))) v1 (balanced k v a)"
    unfolding Let_def by (rule good_cases(1), simp, rule ends)
qed

lemma fair_swap_sell:
  assumes k: "k \<noteq> LIQUIDITY_POOL_ADDRESS"
  shows "fair k a (swap_sell L (shared plain_host) tx now a)"
  unfolding swap_sell_def
proof (rule fair_if, rule fair_stop, rule fairI, rule then_reserves, unfold prod.case, intro good_cases(1),
    simp, simp, rule then_books_with [OF books_volume fee_bps_bounded], rule then_lift)
  fix v z bps v1 m
  assume bal: "\<not> ac_balance a < tx_amount tx" and bps: "bps \<le> (10000::nat)" and v1: "same_purses v v1"
  define fee where "fee = sat_mul u128_max (tx_amount tx) bps div 10000"
  define rest where "rest = sat_sub (tx_amount tx) fee"
  have "rest + fee = tx_amount tx" using fee_below [OF bps, of "tx_amount tx"] by (simp add: rest_def fee_def sat_sub_def)
  then have paid: "worth (a\<lparr>ac_balance := sat_sub (ac_balance a) (tx_amount tx), ac_zerenya_balance := o'\<rparr>) + fee +
      sat_add u128_max (reserve v) rest \<le> worth a + reserve v" for o'
    using bal sat_add_upper [of u128_max "reserve v" rest] by (simp add: worth_def sat_sub_def)
  show "good (let swap_fee = sat_mul u128_max (tx_amount tx) bps div 10000; input_with_fee = sat_sub (tx_amount tx) swap_fee
      in andthen (if 0 < swap_fee then distribute_staking_reward L (shared plain_host) swap_fee now else give ()) (\<lambda>_.
         andthen (lift (amm_quotient input_with_fee z (sat_add u256_max (reserve v) input_with_fee))) (\<lambda>zsc_out.
           if zsc_out = 0 then stop (Other ''Likidite yetersiz'') else if zsc_out < m then stop (Other ''Slippage'')
           else let sender = a\<lparr>ac_balance := sat_sub (ac_balance a) (tx_amount tx),
                ac_zerenya_balance := sat_add u128_max (ac_zerenya_balance a) zsc_out\<rparr>
             in andthen (set_pool_reserves (h_get (shared plain_host)) (h_put (shared plain_host))
                  (sat_add u128_max (reserve v) input_with_fee) (sat_sub z zsc_out)) (\<lambda>_. give sender)))) v1 (balanced k v a)"
    unfolding Let_def fee_def [symmetric] rest_def [symmetric]
    by (rule then_gains [OF fee_gains], rule then_lift, intro good_cases(1), simp, simp)
      (rule set_end [OF k v1 _ paid])
qed

lemma settled_stake: "returns (settle_pending_stake H a t) (\<lambda>b. worth b \<le> worth a \<and> ac_balance b = ac_balance a)"
  unfolding settle_pending_stake_def Let_def
  by (intro returns_cases returns_andthen) (auto simp: worth_def sat_add_def)

text \<open>The reward pool pays no more than it has.\<close>

lemma pending_reward_paid:
  assumes k: "k \<noteq> VALIDATOR_REWARD_POOL"
  shows "good (pay_pending_reward (shared plain_host) a acc) v
    (\<lambda>(b, _) v'. balanced k v a b v' \<and> ac_staked_balance b = ac_staked_balance a)"
  unfolding pay_pending_reward_def Let_def
proof (intro good_cases(1), simp add: balanced_same, rule then_get, rule then_put, unfold good_pure prod.case)
  let ?t = "unwrap_or_default (v (canonicalize VALIDATOR_REWARD_POOL))"
  define payout where "payout = (if ac_balance ?t < sat_sub (reward_owed (ac_staked_balance a) acc) (ac_reward_debt a)
    then ac_balance ?t else sat_sub (reward_owed (ac_staked_balance a) acc) (ac_reward_debt a))"
  have "worth (?t\<lparr>ac_balance := sat_sub (ac_balance ?t) payout\<rparr>) + payout \<le> worth (unwrap_or_default (v VALIDATOR_REWARD_POOL))"
    by (simp add: payout_def worth_def sat_sub_def)
  from moves_out [OF k [symmetric] pools_are_purses(4), where v = v and n = payout, OF this]
  show "balanced k v a (a\<lparr>ac_balance := sat_add u128_max (ac_balance a) payout\<rparr>)
      (v(canonicalize VALIDATOR_REWARD_POOL \<mapsto> ?t\<lparr>ac_balance := sat_sub (ac_balance ?t) payout\<rparr>)) \<and>
    ac_staked_balance (a\<lparr>ac_balance := sat_add u128_max (ac_balance a) payout\<rparr>) = ac_staked_balance a"
    using sat_add_upper [of u128_max "ac_balance a" payout]
    by (auto intro!: balancedI [where x = payout and y = 0] simp: worth_def)
qed

lemma balanced_then: "balanced k u a b v \<Longrightarrow> same_purses v w \<Longrightarrow> worth c \<le> worth b \<Longrightarrow> balanced k u a c w"
  by (erule balanced_trans) (rule balanced_same)

lemma balanced_worth: "balanced k u a b v \<Longrightarrow> worth c \<le> worth b \<Longrightarrow> balanced k u a c v"
  by (erule balanced_then) simp

lemma good_balanced_from:
  "(\<And>v. good m v (balanced k v b)) \<Longrightarrow> balanced k u a b v \<Longrightarrow> good m v (balanced k u a)"
  by (blast intro: good_mono balanced_trans)

lemma fair_stake:
  assumes k: "k \<noteq> VALIDATOR_REWARD_POOL"
  shows "fair k a (stake_zagros (shared plain_host) tx now a)"
  unfolding stake_zagros_def
proof (rule fair_if, rule fair_stop, rule fairI, rule then_books_with [OF books_settle settled_stake],
    unfold Let_def, rule then_books, blast)
  fix v b v1 acc v2
  assume enough: "\<not> ac_balance a < tx_amount tx" and b: "worth b \<le> worth a \<and> ac_balance b = ac_balance a"
    and same: "same_purses v v1" "same_purses v1 v2"
  let ?b = "b\<lparr>ac_balance := sat_sub (ac_balance b) (tx_amount tx)\<rparr>"
  have v2: "same_purses v v2" using same by (rule same_purses_trans)
  have less: "worth ?b + tx_amount tx \<le> worth a" using enough b by (simp add: worth_def sat_sub_def)
  have paid: "good (if 0 < ac_staked_balance ?b then pay_pending_reward (shared plain_host) ?b acc else give (?b, 0)) v2
      (\<lambda>(c, _). balanced k v2 ?b c)"
    by (rule good_cases(1), rule good_mono [OF pending_reward_paid [OF k]]) (auto simp: balanced_same)
  have final: "balanced k v a (c\<lparr>ac_pending_stake_amount := sat_add u128_max (ac_pending_stake_amount c) (tx_amount tx),
      ac_pending_stake_activation_time := t, ac_reward_debt := d\<rparr>) v3" if "balanced k v2 ?b c v3" for c v3 t d
  proof -
    have "worth (c\<lparr>ac_pending_stake_amount := sat_add u128_max (ac_pending_stake_amount c) (tx_amount tx),
        ac_pending_stake_activation_time := t, ac_reward_debt := d\<rparr>) \<le> worth c + tx_amount tx"
      using sat_add_upper [of u128_max "ac_pending_stake_amount c" "tx_amount tx"] by (simp add: worth_def)
    then show ?thesis
      using that less v2 by (auto simp: balanced_def same_purses_finite others_same_purses)
  qed
  show "good (andthen (if 0 < ac_staked_balance ?b then pay_pending_reward (shared plain_host) ?b acc else give (?b, 0))
      (\<lambda>(sender, unpaid). give (sender\<lparr>
        ac_pending_stake_amount := sat_add u128_max (ac_pending_stake_amount sender) (tx_amount tx),
        ac_pending_stake_activation_time := sat_add u128_max now REWARD_VESTING_SECONDS,
        ac_reward_debt := sat_sub (reward_owed (ac_staked_balance sender) acc) unpaid\<rparr>))) v2 (balanced k v a)"
    by (rule good_andthen, rule good_mono [OF paid]) (auto intro: final)
qed

text \<open>What leaves the active stake is still owed to the sender when it is locked.\<close>

lemma taken_stake_owed:
  assumes v1: "same_purses v v1" and b: "balanced k v1 a b v2" "ac_staked_balance b = ac_staked_balance a"
    and n: "n \<le> ac_staked_balance a"
    and c: "c = b\<lparr>ac_staked_balance := sat_sub (ac_staked_balance b) n, ac_reward_debt := d\<rparr>"
  shows "balanced k v a (c\<lparr>ac_balance := ac_balance c + n\<rparr>) (v2(canonicalize GLOBAL_TOTAL_STAKED \<mapsto> x))"
proof (rule balanced_then [OF balanced_first [OF v1 b(1)] same_purses_put])
  show "worth (c\<lparr>ac_balance := ac_balance c + n\<rparr>) \<le> worth b"
    using n b(2) by (simp add: c worth_def sat_sub_def)
qed simp

lemma taken_from_active:
  assumes k: "k \<noteq> VALIDATOR_REWARD_POOL" and n: "n \<le> ac_staked_balance a"
  shows "good (take_from_active (shared plain_host) n a) v
    (\<lambda>b. balanced k v a (b\<lparr>ac_balance := ac_balance b + n\<rparr>))"
  unfolding take_from_active_def
  by (rule good_cases(1), simp add: balanced_same, rule then_books, blast, rule good_andthen,
      rule good_mono [OF pending_reward_paid [OF k]], clarify, unfold Let_def, rule then_get, rule then_put,
      unfold good_pure, rule taken_stake_owed [OF _ _ _ n], assumption+, simp)

lemma locked_stake:
  "returns (lock_unstaked L H tx now b) (\<lambda>c. worth c \<le> worth (b\<lparr>ac_balance := ac_balance b + tx_amount tx\<rparr>))"
  unfolding lock_unstaked_def Let_def
  by (intro returns_cases returns_andthen)
    (auto simp: worth_def intro: order_trans [OF sat_add_upper])

lemma fair_unstake_amount:
  assumes k: "k \<noteq> VALIDATOR_REWARD_POOL"
  shows "fair k a (unstake_amount L (shared plain_host) tx now a)"
  unfolding unstake_amount_def
proof (rule fair_if, rule fair_stop, rule fairI, rule then_books_with [OF books_settle settled_stake],
    rule good_cases(1), simp)
  fix v b v1
  assume b: "worth b \<le> worth a \<and> ac_balance b = ac_balance a" and v1: "same_purses v v1"
    and enough: "\<not> sat_add u128_max (ac_staked_balance b) (ac_pending_stake_amount b) < tx_amount tx"
  define p where "p = min (tx_amount tx) (ac_pending_stake_amount b)"
  define n where "n = tx_amount tx - p"
  define c where "c = (if ac_pending_stake_amount b - p = 0
    then b\<lparr>ac_pending_stake_amount := ac_pending_stake_amount b - p, ac_pending_stake_activation_time := 0\<rparr>
    else b\<lparr>ac_pending_stake_amount := ac_pending_stake_amount b - p\<rparr>)"
  have n: "n \<le> ac_staked_balance c"
    using enough sat_add_upper [of u128_max "ac_staked_balance b" "ac_pending_stake_amount b"]
    by (auto simp: n_def p_def c_def)
  have c: "worth c + p \<le> worth a" using b by (auto simp: c_def p_def worth_def)
  have amount: "n + p = tx_amount tx" by (simp add: n_def p_def)
  have "good (andthen (take_from_active (shared plain_host) n c) (lock_unstaked L (shared plain_host) tx now)) v1 (balanced k v a)"
  proof (rule good_andthen, rule good_mono [OF taken_from_active [OF k n]])
    fix d v2
    assume d: "balanced k v1 c (d\<lparr>ac_balance := ac_balance d + n\<rparr>) v2"
    have final: "balanced k v a e v3" if "worth e \<le> worth (d\<lparr>ac_balance := ac_balance d + tx_amount tx\<rparr>)" "same_purses v2 v3" for e v3
      using d that c amount v1
      by (auto simp: balanced_def same_purses_finite others_same_purses worth_def)
    show "good (lock_unstaked L (shared plain_host) tx now d) v2 (balanced k v a)"
      by (rule good_books_with, rule books_validators, rule locked_stake, rule final)
  qed
  then show "good (let from_pending = min (tx_amount tx) (ac_pending_stake_amount b);
        from_active = tx_amount tx - from_pending;
        sender = b\<lparr>ac_pending_stake_amount := ac_pending_stake_amount b - from_pending\<rparr>;
        sender = (if ac_pending_stake_amount sender = 0 then sender\<lparr>ac_pending_stake_activation_time := 0\<rparr> else sender)
      in andthen (take_from_active (shared plain_host) from_active sender) (lock_unstaked L (shared plain_host) tx now))
      v1 (balanced k v a)"
    unfolding Let_def p_def [symmetric] n_def [symmetric] c_def by simp
qed

lemma fair_claim:
  assumes k: "k \<noteq> VALIDATOR_REWARD_POOL"
  shows "fair k a (claim_reward (shared plain_host) now a)"
  unfolding claim_reward_def Let_def
proof (rule fairI, rule then_books_with [OF books_settle settled_stake], rule good_cases(1),
    simp add: balanced_same, rule then_books, blast, rule good_cases(1))
  fix v b v1 v2
  assume b: "worth b \<le> worth a \<and> ac_balance b = ac_balance a" and same: "same_purses v v1" "same_purses v1 v2"
  have v2: "same_purses v v2" using same by (rule same_purses_trans)
  show "good (give b) v2 (balanced k v a)" using b by (simp add: balanced_same [OF v2])
  fix due :: nat
  let ?t = "unwrap_or_default (v2 (canonicalize VALIDATOR_REWARD_POOL))"
  let ?p = "if ac_balance ?t < due then ac_balance ?t else due"
  have "worth (?t\<lparr>ac_balance := sat_sub (ac_balance ?t) ?p\<rparr>) + ?p \<le> worth (unwrap_or_default (v2 VALIDATOR_REWARD_POOL))"
    by (simp add: worth_def sat_sub_def)
  note out = moves_first [OF v2 moves_out [OF k [symmetric] pools_are_purses(4), where v = v2 and n = ?p, OF this]]
  have got: "worth (b\<lparr>ac_balance := sat_add u128_max (ac_balance b) ?p, ac_reward_debt := d\<rparr>) + 0 \<le> worth a + ?p" for d
    using b sat_add_upper [of u128_max "ac_balance b" ?p] by (simp add: worth_def)
  show "good (andthen (h_get (shared plain_host) VALIDATOR_REWARD_POOL) (\<lambda>found.
      if (if ac_balance (unwrap_or_default found) < due then ac_balance (unwrap_or_default found) else due) = 0 then give b
      else andthen (h_put (shared plain_host) VALIDATOR_REWARD_POOL
        ((unwrap_or_default found)\<lparr>ac_balance := sat_sub (ac_balance (unwrap_or_default found))
          (if ac_balance (unwrap_or_default found) < due then ac_balance (unwrap_or_default found) else due)\<rparr>)) (\<lambda>_.
        give (b\<lparr>ac_balance := sat_add u128_max (ac_balance b)
            (if ac_balance (unwrap_or_default found) < due then ac_balance (unwrap_or_default found) else due),
          ac_reward_debt := sat_add u128_max (ac_reward_debt b)
            (if ac_balance (unwrap_or_default found) < due then ac_balance (unwrap_or_default found) else due)\<rparr>)))) v2 (balanced k v a)"
    by (rule then_get, rule good_cases(1), simp add: balanced_same [OF v2] b, rule then_put, unfold good_pure)
      (use balancedI [OF out got] in simp)
qed

section \<open>Slashing\<close>

lemma seizable_bound: "seizable a \<le> ac_staked_balance a + ac_pending_unstake_amount a + ac_pending_stake_amount a"
  unfolding seizable_def by (rule order_trans [OF sat_add_upper]) (simp add: sat_add_upper)

lemma seized: "worth (confiscate now a) + seizable a \<le> worth a"
  using seizable_bound [of a] by (simp add: confiscate_def worth_def)

lemma jailed: "returns (jail_at_d14 H a) (\<lambda>b. worth b = worth a)"
  unfolding jail_at_d14_def by (rule returns_andthen) (simp add: jail_validator_def worth_def)

text \<open>What was seized is given to the stakers.\<close>

lemma seizure_end:
  assumes "books m" "moves k x 0 v v1" "worth b + n \<le> worth a + x"
  shows "good (andthen m (\<lambda>_. andthen (distribute_staking_reward L (shared plain_host) n now) (\<lambda>_.
    andthen (record_slash_history K (shared plain_host) t r n now) (\<lambda>_. give b)))) v1 (balanced k v a)"
  by (rule then_books [OF assms(1)], rule then_gains [OF gains_distribute], rule then_books, blast, unfold good_pure)
    (rule balancedI [OF moves_last [OF moves_trans [OF moves_last [OF assms(2)] moves_grows]]], use assms(3) in auto)

lemma moves_seized:
  assumes "same_purses v v1" "same_purses v1 v2" "j \<noteq> k" "purse j" "worth b = worth (confiscate now (unwrap_or_default (v1 j)))"
  shows "moves k (seizable (unwrap_or_default (v1 j))) 0 v (v2(j \<mapsto> b))"
proof (rule moves_first [OF same_purses_trans [OF assms(1,2)]], rule moves_out [OF assms(3,4)])
  show "worth b + seizable (unwrap_or_default (v1 j)) \<le> worth (unwrap_or_default (v2 j))"
    using assms(2,4,5) seized by (simp add: same_purses_def)
qed

lemma fair_slash:
  assumes target: "t = slash_target_address (lb_from_utf8 L) (lb_hex L) (tx_receiver tx) (tx_payload tx)"
    and other: "canonicalize t = k \<Longrightarrow> eq_ignore_ascii_case t k"
    and p: "purse (canonicalize t)"
  shows "fair k a (slash_validator L F (shared plain_host) tx now k a)"
  unfolding slash_validator_def Let_def target [symmetric]
proof (intro fair_if fair_stop fair_then_read [OF books_fees(3)], cases "eq_ignore_ascii_case t k")
  case True
  show "fair k a (andthen (if eq_ignore_ascii_case t k then give a
      else andthen (h_get (shared plain_host) t) (\<lambda>found. give (unwrap_or_default found))) (\<lambda>b.
    if seizable b = 0 then stop (StakingError ''No stake!'')
    else andthen (jail_at_d14 (shared plain_host) (confiscate now b)) (\<lambda>c.
      andthen (if eq_ignore_ascii_case t k then give c
        else andthen (h_put (shared plain_host) t c) (\<lambda>_. give a)) (\<lambda>d.
      andthen (lower_total_staked (shared plain_host) (ac_staked_balance b)) (\<lambda>_.
      andthen (distribute_staking_reward L (shared plain_host) (seizable b) now) (\<lambda>_.
      andthen (record_slash_history L (shared plain_host) t AdminEmergencySeizure (seizable b) now) (\<lambda>_.
        give d)))))))"
    by (simp only: True if_True run_andthen_pure, intro fair_if fair_stop, rule fairI) (rule then_books_with [OF books_d14(3) jailed], rule seizure_end [where x = 0],
        auto intro: moves_same seized)
next
  case False
  then have ne: "canonicalize t \<noteq> k" using other by blast
  show "fair k a (andthen (if eq_ignore_ascii_case t k then give a
      else andthen (h_get (shared plain_host) t) (\<lambda>found. give (unwrap_or_default found))) (\<lambda>b.
    if seizable b = 0 then stop (StakingError ''No stake!'')
    else andthen (jail_at_d14 (shared plain_host) (confiscate now b)) (\<lambda>c.
      andthen (if eq_ignore_ascii_case t k then give c
        else andthen (h_put (shared plain_host) t c) (\<lambda>_. give a)) (\<lambda>d.
      andthen (lower_total_staked (shared plain_host) (ac_staked_balance b)) (\<lambda>_.
      andthen (distribute_staking_reward L (shared plain_host) (seizable b) now) (\<lambda>_.
      andthen (record_slash_history L (shared plain_host) t AdminEmergencySeizure (seizable b) now) (\<lambda>_.
        give d)))))))"
    by (simp only: False if_False andthen_assoc run_andthen_pure, rule fairI) (rule then_get, rule good_cases(1), simp, rule then_books_with [OF books_d14(3) jailed],
        rule then_put, rule seizure_end [OF books_d14(4) moves_seized], auto simp: ne p)
qed

lemma hexdigit_lower: "is_ascii_hexdigit c \<Longrightarrow> is_ascii_hexdigit (ascii_lower c)"
  by (auto simp: is_ascii_hexdigit_def ascii_lower_def Let_def)

lemma hexdigit_no_space: "is_ascii_hexdigit c \<Longrightarrow> \<not> is_space c"
  by (auto simp: is_ascii_hexdigit_def is_space_def Let_def)

lemma valid_canonical:
  assumes "validate_address a"
  shows "canonicalize a = ''0x'' @ to_ascii_lowercase (drop 2 a)" "purse (canonicalize a)"
    "to_ascii_lowercase (canonicalize a) = to_ascii_lowercase a"
proof -
  have a: "take 2 a = ''0x'' \<or> take 2 a = ''0X''" "length a = 42" "list_all is_ascii_hexdigit (drop 2 a)"
    using assms by (auto simp: validate_address_def split: if_splits)
  have split: "a = take 2 a @ drop 2 a" by simp
  have "last a = last (drop 2 a)" "drop 2 a \<noteq> []" using a(2) by (simp_all add: last_drop)
  then have "\<not> is_space (last a)"
    using a(3) hexdigit_no_space by (metis last_in_set list_all_iff)
  moreover have "hd a = CHR ''0''" using a(1) split by (metis hd_append2 list.sel(1) list.distinct(1))
  moreover have "\<not> is_space (CHR ''0'')" by code_simp
  ultimately have "trim a = a" using a(2) by (intro trim_prefix) auto
  then show c: "canonicalize a = ''0x'' @ to_ascii_lowercase (drop 2 a)"
    using a by (auto simp: canonicalize_def starts_with_def Let_def numeral_2_eq_2)
  have "list_all is_ascii_hexdigit (to_ascii_lowercase (drop 2 a))"
    using a(3) hexdigit_lower by (auto simp: to_ascii_lowercase_def list_all_iff)
  then show "purse (canonicalize a)"
    using a(2) by (simp add: c purse_def validate_address_def to_ascii_lowercase_def)
  have "to_ascii_lowercase ''0X'' = ''0x''" "to_ascii_lowercase ''0x'' = ''0x''" by code_simp+
  from this have "to_ascii_lowercase (take 2 a) = ''0x''" using a(1) by auto
  moreover have "to_ascii_lowercase a = to_ascii_lowercase (take 2 a) @ to_ascii_lowercase (drop 2 a)"
    unfolding to_ascii_lowercase_def by (metis map_append split)
  moreover have "to_ascii_lowercase (''0x'' @ to_ascii_lowercase (drop 2 a)) = ''0x'' @ to_ascii_lowercase (drop 2 a)"
    using \<open>to_ascii_lowercase ''0x'' = ''0x''\<close> by (simp add: to_ascii_lowercase_def)
  ultimately show "to_ascii_lowercase (canonicalize a) = to_ascii_lowercase a" by (simp only: c)
qed

lemma canonical_key:
  assumes "canonical_account_address a = Inr k"
  shows "validate_address a" "k = canonicalize a" "canonicalize k = k" "purse k"
proof -
  show v: "validate_address a" and k: "k = canonicalize a"
    using assms valid_canonical(1) by (auto simp: canonical_account_address_def split: if_splits)
  show "canonicalize k = k" by (simp add: k)
  show "purse k" using valid_canonical(2) [OF v] by (simp add: k)
qed

text \<open>The reporter's reward is a part of what was seized.\<close>

lemma params_reward_cap: "params_validate p = Inr () \<Longrightarrow> p_reporter_reward_cap_bps p \<le> 10000"
  by (auto simp: params_validate_def Let_def split: if_splits sum.splits)

lemma loaded_reward_cap: "returns (load_chain_params L H) (\<lambda>p. p_reporter_reward_cap_bps p \<le> 10000)"
  unfolding load_chain_params_def
  by (rule returns_andthen) (auto simp: params_decode_def params_reward_cap split: option.splits sum.splits)

lemma accused_canonical: "accused_of vset ev r = Inr k \<Longrightarrow> canonicalize k = k \<and> purse k"
  by (auto simp: accused_of_def Let_def dest: canonical_key split: if_splits)

lemma resolved_canonical: "returns (resolve_report L H tx) (\<lambda>k. canonicalize k = k \<and> purse k)"
  unfolding returns_def resolve_report_def
  by (auto simp: andthen_Inr Let_def lift_def stop_def dest!: accused_canonical
      split: option.splits equivocation_report.splits)

lemma fair_report: "fair k a (report_malicious L (shared plain_host) tx now k a)"
  unfolding report_malicious_def
proof (rule fair_then_books [OF books_report resolved_canonical], unfold Let_def, rule fair_then_read, blast,
    intro fair_if fair_stop, rule fairI, rule then_get, rule good_cases(1), simp, rule then_books, blast,
    rule then_books_with [OF books_sentinels(2) loaded_reward_cap], rule then_put)
  fix t v v1 v2 p
  assume t: "canonicalize t = t \<and> purse t" "t \<noteq> k" and same: "same_purses v v1" "same_purses v1 v2"
    and p: "p_reporter_reward_cap_bps p \<le> 10000"
  let ?total = "seizable (unwrap_or_default (v (canonicalize t)))"
  let ?reward = "sat_mul u128_max ?total (p_reporter_reward_cap_bps p) div 10000"
  let ?b = "a\<lparr>ac_pending_unstake_amount := sat_add u128_max (ac_pending_unstake_amount a) ?reward, ac_unlock_time := now + UNSTAKE_LOCK_SECONDS\<rparr>"
  have "?reward \<le> ?total" by (rule fee_below [OF p])
  then have paid: "worth ?b + sat_sub ?total ?reward \<le> worth a + ?total"
    using sat_add_upper [of u128_max "ac_pending_unstake_amount a" ?reward] by (simp add: worth_def sat_sub_def)
  have moved: "moves k ?total 0 v (v2(canonicalize t \<mapsto> jail_validator (confiscate now (unwrap_or_default (v (canonicalize t))))))"
    using moves_seized [OF same_purses_refl same_purses_trans [OF same], of "canonicalize t" k] t
    by (simp add: jail_validator_def worth_def)
  show "good (if u128_max < now + UNSTAKE_LOCK_SECONDS then stop RustPanic
      else andthen (distribute_staking_reward L (shared plain_host) (sat_sub ?total ?reward) now) (\<lambda>_.
        andthen (mark_slashing_proof_used L (shared plain_host) (keccak (lb_crypto L) (tx_payload tx))) (\<lambda>_.
        andthen (record_slash_history L (shared plain_host) t DoubleSign ?total now) (\<lambda>_.
          give ?b))))
      (v2(canonicalize t \<mapsto> jail_validator (confiscate now (unwrap_or_default (v (canonicalize t)))))) (balanced k v a)"
  proof (rule good_cases(1), simp, rule then_gains [OF gains_distribute], rule then_books, blast, rule then_books, blast,
      unfold good_pure)
    fix v3 v4 v5
    assume "grows k (sat_sub ?total ?reward) (v2(canonicalize t \<mapsto> jail_validator (confiscate now (unwrap_or_default (v (canonicalize t)))))) v3"
      "same_purses v3 v4" "same_purses v4 v5"
    then have "moves k ?total (sat_sub ?total ?reward) v v5"
      using moves_last [OF moves_trans [OF moved moves_grows]] same_purses_trans by fastforce
    then show "balanced k v a ?b v5" by (rule balancedI [OF _ paid])
  qed
qed

section \<open>Validators, the bridge and proposals\<close>

lemma worth_sync [simp]: "worth (sync_registered_flag a) = worth a"
  by (simp add: sync_registered_flag_def worth_def Let_def)

lemma fair_unregister: "fair k a (unregister_validator L (shared plain_host) now a)"
proof (rule fair_books)
  show "returns (unregister_validator L (shared plain_host) now a) (\<lambda>b. worth b \<le> worth a)"
    unfolding unregister_validator_def
    by (intro returns_cases returns_andthen) (simp_all, simp add: worth_def)
qed blast

lemma gains_lift: "(\<And>x. r = Inr x \<Longrightarrow> gains k n (m x)) \<Longrightarrow> gains k n (andthen (lift r) m)"
  by (cases r) (auto simp: run_andthen_pure intro: gains_books)

lemma gains_admin_remove: "gains k 0 (apply_admin_remove L (shared plain_host) t now e)"
  unfolding apply_admin_remove_def
  by (intro gains_lift gains_before [OF gains_books [OF books_sentinels(2)]] gainsI,
      rule then_get, intro good_cases, simp_all, rule good_put, rule grows_put)
    (auto simp: unwrap_or_default_def worth_def sync_registered_flag_def reserve_def Let_def)

lemma gains_removal: "gains k 0 (apply_admin_action_tx L (shared plain_host) Remove bs now)"
  unfolding apply_admin_action_tx_def Let_def
proof (rule gains_lift)
  fix p :: admin_action_payload
  show "gains k 0 (if \<not> (aa_action p = Remove \<or> Remove = Approve \<and> aa_action p = VetoProposal)
      then stop (Other ''payload aksiyonu tx turuyle uyusmuyor'') else andthen (load_chain_params L (shared plain_host)) (\<lambda>params.
        andthen (genesis_timestamp (shared plain_host)) (\<lambda>genesis_ts.
        andthen (admin_phase_active (shared plain_host) now) (\<lambda>active. if \<not> active then stop (Other ''Faz A sona erdi'')
          else andthen (verify_admin_action L (shared plain_host) p (epoch_at now genesis_ts (p_epoch_seconds params))) (\<lambda>_.
            andthen (case aa_action p of
                Approve \<Rightarrow> apply_admin_approve L (shared plain_host) (aa_target p) (epoch_at now genesis_ts (p_epoch_seconds params))
              | Remove \<Rightarrow> apply_admin_remove L (shared plain_host) (aa_target p) now (epoch_at now genesis_ts (p_epoch_seconds params))
              | VetoProposal \<Rightarrow> apply_veto L (shared plain_host) (aa_target p)) (\<lambda>_.
            give (to_ascii_lowercase (aa_target p))))))))"
  proof (cases "aa_action p = Remove")
    case True
    have done_: "gains k 0 (andthen (apply_admin_remove L (shared plain_host) t now e) (\<lambda>_. give z))" for t e z
      by (rule gains_then [OF gains_admin_remove]) (auto intro: gains_books)
    show ?thesis
      unfolding True admin_action.case
      by (intro gains_if gains_books [OF books_pure(2)] gains_before [OF gains_books [OF books_sentinels(2)]]
          gains_before [OF gains_books [OF books_sentinels(5)]] gains_before [OF gains_books [OF books_validators(4)]]
          gains_before [OF gains_books [OF books_validators(5)]] done_)
  qed (auto intro: gains_books)
qed

lemma fair_remove: "fair k a (remove_validator L (shared plain_host) tx now key a)"
  unfolding remove_validator_def
  by (rule fair_then_read, blast, rule fair_then_gains [OF gains_removal]) (auto simp: fair_give)

lemma mint_recipient:
  "gains k 0 (andthen (h_get (shared plain_host) r) (\<lambda>found.
     h_put (shared plain_host) r ((unwrap_or_default found)\<lparr>ac_zerenya_balance := f found\<rparr>)))"
  by (rule gainsI, rule then_get, rule good_put, rule grows_put) (auto simp: worth_def reserve_def)

lemma fair_mint: "fair k a (bridge_mint L F (shared plain_host) tx now a)"
  unfolding bridge_mint_def Let_def
proof (rule fair_lift, rule fair_then_read, blast, rule fair_then_read, blast, rule fairI, rule then_get, rule then_put,
    rule then_books, blast, rule then_books, blast, unfold good_pure)
  fix v v1 v2
  let ?r = "canonicalize (tx_receiver tx)"
  let ?x = "(unwrap_or_default (v ?r))\<lparr>ac_zerenya_balance := sat_add u128_max (ac_zerenya_balance (unwrap_or_default (v ?r))) (tx_amount tx)\<rparr>"
  assume "same_purses (v(?r \<mapsto> ?x)) v1" "same_purses v1 v2"
  moreover have "balanced k v a a (v(?r \<mapsto> ?x))"
    by (rule balancedI [OF moves_put [where n = 0]]) (auto simp: worth_def)
  ultimately show "balanced k v a a v2" by (blast intro: balanced_then order_refl)
qed

lemma quote_mint_pays:
  assumes "quote_bridge_mint_and_swap n z e bps = Inr q" "bps \<le> 10000"
  shows "bq_amount_out q + bq_community_fee q + bq_new_pool_zagros q \<le> z"
  using assms fee_below [OF assms(2)]
  by (auto simp: quote_bridge_mint_and_swap_def Let_def try_then_Inr split: if_splits)

lemma quote_burn_pays:
  assumes "quote_bridge_swap_and_burn n z e bps = Inr q" "bps \<le> 10000"
  shows "bq_community_fee q + bq_new_pool_zagros q \<le> z + n"
  using assms fee_below [OF assms(2), of n] sat_add_upper [of u128_max z "n - sat_mul u128_max n bps div 10000"]
  by (auto simp: quote_bridge_swap_and_burn_def Let_def try_then_Inr split: if_splits)

lemma fair_mint_and_swap:
  assumes k: "k \<noteq> LIQUIDITY_POOL_ADDRESS"
  shows "fair k a (bridge_mint_and_swap L F (shared plain_host) tx now a)"
  unfolding bridge_mint_and_swap_def
proof (rule fair_lift, rule fair_then_read, blast, rule fair_then_read, blast, rule fairI, rule then_reserves,
    unfold prod.case, rule then_books_with [OF books_volume fee_bps_bounded], rule then_lift, rule good_cases(1), simp)
  fix p v z bps v1 q
  assume bps: "bps \<le> (10000::nat)" and v1: "same_purses v v1"
    and q: "quote_bridge_mint_and_swap (tx_amount tx) (reserve v) z bps = Inr q"
  have paid: "worth a + (bq_amount_out q + bq_community_fee q) + bq_new_pool_zagros q \<le> worth a + reserve v"
    using quote_mint_pays [OF q bps] by simp
  show "good (andthen (state_add_balance (h_get (shared plain_host)) (h_put (shared plain_host)) (tx_receiver tx) (bq_amount_out q)) (\<lambda>_.
      andthen (increase_bridge_backed_zerenya (shared plain_host) (tx_amount tx)) (\<lambda>_.
      andthen (if 0 < bq_community_fee q then distribute_staking_reward L (shared plain_host) (bq_community_fee q) now else give ()) (\<lambda>_.
      andthen (set_pool_reserves (h_get (shared plain_host)) (h_put (shared plain_host)) (bq_new_pool_zagros q) (bq_new_pool_zerenya q)) (\<lambda>_.
      andthen (close_mint L (shared plain_host) p) (\<lambda>_. give a)))))) v1 (balanced k v a)"
  proof (rule then_gains [OF gains_add_balance], rule then_books, blast, rule then_gains [OF fee_gains],
      rule set_then [OF k v1 _ paid])
    fix v2 v3 v4
    assume out: "grows k (bq_amount_out q) v1 v2" and same: "same_purses v2 v3" and fee: "grows k (bq_community_fee q) v3 v4"
    show "grows k (bq_amount_out q + bq_community_fee q) v1 v4"
      using grows_trans [OF out grows_trans [OF grows_same [OF same, where n = 0] fee]] by simp
  qed (auto intro!: returns_andthen)
qed

lemma fair_burn: "fair k a (bridge_burn L (shared plain_host) tx now a)"
  unfolding bridge_burn_def Let_def
  by (intro fair_if fair_stop, rule fair_then_read, blast, rule fair_then_read, blast, rule fair_then_read, blast,
      rule fair_give) (simp add: worth_def)

lemma fair_swap_and_burn:
  assumes k: "k \<noteq> LIQUIDITY_POOL_ADDRESS"
  shows "fair k a (bridge_swap_and_burn L (shared plain_host) tx now a)"
  unfolding bridge_swap_and_burn_def
proof (rule fairI, rule then_reserves, unfold prod.case, rule then_books_with [OF books_volume fee_bps_bounded],
    rule then_lift, rule then_lift, rule good_cases(1), simp, rule then_books, blast, rule then_lift)
  fix v z bps v1 q m v2 b
  assume bps: "bps \<le> (10000::nat)" and same: "same_purses v v1" "same_purses v1 v2"
    and q: "quote_bridge_swap_and_burn (tx_amount tx) (reserve v) z bps = Inr q"
    and b: "ac_sub_balance (tx_amount tx) a = Inr b"
  have "worth b + tx_amount tx = worth a"
    using b by (auto simp: ac_sub_balance_def checked_sub_def worth_def split: if_splits)
  then have paid: "worth b + bq_community_fee q + bq_new_pool_zagros q \<le> worth a + reserve v"
    using quote_burn_pays [OF q bps] by simp
  show "good (andthen (distribute_staking_reward L (shared plain_host) (bq_community_fee q) now) (\<lambda>_.
      andthen (set_pool_reserves (h_get (shared plain_host)) (h_put (shared plain_host)) (bq_new_pool_zagros q) (bq_new_pool_zerenya q)) (\<lambda>_.
      andthen (decrease_bridge_backed_zerenya (shared plain_host) (bq_amount_out q)) (\<lambda>_.
      andthen (record_bridge_burn L (shared plain_host) (tx_id tx) (tx_sender tx) (bq_amount_out q) now) (\<lambda>_.
        give b))))) v2 (balanced k v a)"
    by (rule then_gains [OF gains_distribute], rule set_then [OF k same_purses_trans [OF same] _ paid])
      (auto intro!: returns_andthen)
qed

lemma gains_escrow: "gains k n (escrow_deposit L (shared plain_host) pid n)"
proof -
  have "\<not> purse (canonicalize (deposit_key L pid))" by simp
  then show ?thesis
    unfolding escrow_deposit_def Let_def
    by (intro gains_if gains_before [OF gains_books] gains_add_balance gains_books) auto
qed

lemma gains_proposal_fee:
  "gains k (cf_governance_proposal_fee F) (take_proposal_fee L F (shared plain_host) tx now)"
  unfolding take_proposal_fee_def Let_def
  by (rule gains_before [OF gains_books], blast, rule gains_then, intro gains_if gains_escrow gains_distribute)
    (auto intro: gains_books)

lemma checked_submission:
  "returns (check_submission F H a) (\<lambda>_. cf_governance_proposal_fee F \<le> ac_balance a)"
  unfolding check_submission_def
  by (intro returns_cases returns_andthen) auto

lemma fair_submit: "fair k a (submit_proposal L F (shared plain_host) tx now key a)"
  unfolding submit_proposal_def Let_def
  by (rule fair_then_books [OF books_submission(1) checked_submission], rule fair_then_gains [OF gains_proposal_fee],
      rule fair_lift, rule fair_then_read, blast, rule fair_then_read, blast, rule fair_then_read, blast,
      rule fair_then_read, blast, rule fair_then_read, blast, rule fair_give, rule order_refl)
    (simp add: worth_def sat_sub_def)

lemma fair_vote: "fair k a (cast_gov_vote L F (shared plain_host) tx now key a)"
proof (rule fair_books)
  show "returns (cast_gov_vote L F (shared plain_host) tx now key a) (\<lambda>b. worth b \<le> worth a)"
    unfolding cast_gov_vote_def Let_def by (intro returns_cases returns_andthen) auto
qed blast

end
