(* ===== verification/Mirrors.thy ===== *)
theory Mirrors
  imports Apply
begin

text \<open>
  A native transaction does on every store what it does on the plain map: handler by handler, then
  \<open>apply_transaction\<close> as a whole. Left out are the three kinds that ask the store for its validator
  candidates (\<open>RegisterValidator\<close>, \<open>RotateConsensusKey\<close>, \<open>ApproveValidator\<close>), where the stores do
  differ, and the contract calls.
\<close>

section \<open>Keys\<close>

lemma handler_keys_are_accounts [simp]:
  "account_key BRIDGE_AUTHORITY_SET_KEY" "account_key (processed_source_key c h)" "account_key pending_index_key"
  "account_key (bridge_proposal_key L p)" "account_key (proposal_archive_key L p)" "account_key daily_mint_tracker_key"
  "account_key (proposal_key L p)" "account_key (proposal_vote_key L p a)" "account_key ACTIVE_PROPOSAL_COUNT_KEY"
  "account_key GOV_ACTIVE_LIST_KEY" "account_key GOV_PROPOSAL_INDEX_KEY" "account_key (vote_key L p a)"
  "account_key (voter_count_key L p)" "account_key (voter_index_key L p n)" "account_key GOV_DEPOSIT_ESCROW_KEY"
  "account_key (deposit_key L p)"
  by (simp_all add: account_key_def BRIDGE_AUTHORITY_SET_KEY_def processed_source_key_def pending_index_key_def
      bridge_proposal_key_def proposal_archive_key_def daily_mint_tracker_key_def proposal_key_def
      proposal_vote_key_def ACTIVE_PROPOSAL_COUNT_KEY_def GOV_ACTIVE_LIST_KEY_def GOV_PROPOSAL_INDEX_KEY_def
      vote_key_def voter_count_key_def voter_index_key_def GOV_DEPOSIT_ESCROW_KEY_def deposit_key_def)

lemma hex_address_key: "account_key (''0x'' @ s)"
  by (simp add: account_key_def)

lemma slash_target_key: "validate_address r \<Longrightarrow> account_key (slash_target_address u h r p)"
  by (auto simp: slash_target_address_def validate_address_key hex_address_key account_key_def
      split: option.split dest: validate_address_key)

lemma canonical_address_key: "canonical_address a = Inr k \<Longrightarrow> account_key k"
proof -
  assume "canonical_address a = Inr k"
  then have "length k = 42"
    by (auto simp: canonical_address_def dest: validate_address_length split: if_splits)
  then show ?thesis by (auto simp: account_key_def)
qed

text \<open>The kinds whose handlers do not ask the store for its candidates.\<close>

definition plain_kind :: "tx_type \<Rightarrow> bool" where
  "plain_kind k \<longleftrightarrow> \<not> is_evm_tx k \<and> k \<notin> {RegisterValidator, RotateConsensusKey, ApproveValidator}"

context chain_store
begin

section \<open>Where the result of the first action matters to the second\<close>

lemma mirrors_chain_result:
  assumes m: "mirrors m m'" and result: "\<And>x s s'. m s = (Inr x, s') \<Longrightarrow> P x"
    and k: "\<And>x. P x \<Longrightarrow> mirrors (k x) (k' x)"
  shows "mirrors (chain m k) (chain m' k')"
proof (rule mirrorsI)
  fix s w r s' w'
  assume s: "inv s" "producer_ok w" and run: "chain m k (s, w) = (r, (s', w'))"
  obtain q s1 w1 where q: "m (s, w) = (q, (s1, w1))" by (metis prod.exhaust)
  note 1 = mirrorsD [OF m s q]
  show "producer_ok w' \<and> inv s' \<and> opened s' = opened s \<and> chain m' k' (plainly s, w) = (r, (plainly s', w'))"
  proof (cases q)
    case (Inl e)
    then show ?thesis using run q 1 by (simp add: chain_def)
  next
    case (Inr x)
    then have "k x (s1, w1) = (r, (s', w'))" using run q by (simp add: chain_def)
    from mirrorsD [OF k [OF result] _ _ this] show ?thesis using q Inr 1 by (simp add: chain_def)
  qed
qed

lemma mirrors_andthen_result:
  assumes m: "mirrors m m'" and result: "\<And>x s s'. m s = (Inr x, s') \<Longrightarrow> P x"
    and k: "\<And>x. P x \<Longrightarrow> mirrors (k x) (k' x)"
  shows "mirrors (andthen m k) (andthen m' k')"
proof -
  have "andthen m k = chain m k" "andthen m' k' = chain m' k'" by (simp_all add: andthen_def chain_def fun_eq_iff)
  then show ?thesis using mirrors_chain_result [OF assms] by simp
qed

lemma mirrors_chain [intro!]:
  "mirrors m m' \<Longrightarrow> (\<And>x. mirrors (k x) (k' x)) \<Longrightarrow> mirrors (chain m k) (chain m' k')"
  by (rule mirrors_chain_result [where P = "\<lambda>_. True"]) auto

section \<open>Transfers, swaps and stake\<close>

lemma mirrors_lift [intro!]:
  "(\<And>x. r = Inr x \<Longrightarrow> mirrors (k x) (k' x)) \<Longrightarrow> mirrors (andthen (lift r) k) (andthen (lift r) k')"
proof (rule mirrorsI)
  fix s w r' s' w'
  assume k: "\<And>x. r = Inr x \<Longrightarrow> mirrors (k x) (k' x)"
    and s: "inv s" "producer_ok w" and run: "andthen (lift r) k (s, w) = (r', (s', w'))"
  show "producer_ok w' \<and> inv s' \<and> opened s' = opened s \<and> andthen (lift r) k' (plainly s, w) = (r', (plainly s', w'))"
  proof (cases r)
    case (Inl e)
    then show ?thesis using run s by (simp add: andthen_def lift_def)
  next
    case (Inr x)
    then have "k x (s, w) = (r', (s', w'))" using run by (simp add: andthen_def lift_def)
    from mirrorsD [OF k [OF Inr] s this] show ?thesis using Inr by (simp add: andthen_def lift_def)
  qed
qed

lemma mirrors_d14 [intro!]:
  "mirrors (d14_active (shared host)) (d14_active (shared plain_host))"
  "mirrors (reject_self_transfer (shared host) tx a) (reject_self_transfer (shared plain_host) tx a)"
  unfolding reject_self_transfer_def d14_active_def by auto

lemma mirrors_transfer:
  "account_key (tx_receiver tx) \<Longrightarrow>
    mirrors (do_transfer L (shared host) tx now k a) (do_transfer L (shared plain_host) tx now k a)"
  unfolding do_transfer_def by (auto simp: Let_def)

lemma mirrors_swaps:
  "mirrors (swap_buy L (shared host) tx now a) (swap_buy L (shared plain_host) tx now a)"
  "mirrors (swap_sell L (shared host) tx now a) (swap_sell L (shared plain_host) tx now a)"
  unfolding swap_buy_def swap_sell_def by (auto simp: Let_def)

lemma mirrors_pay_pending [intro!]:
  "mirrors (pay_pending_reward (shared host) a n) (pay_pending_reward (shared plain_host) a n)"
  unfolding pay_pending_reward_def by (auto simp: Let_def)

lemma mirrors_stake:
  "mirrors (stake_zagros (shared host) tx now a) (stake_zagros (shared plain_host) tx now a)"
  unfolding stake_zagros_def by (auto simp: Let_def)

lemma mirrors_unstake_parts [intro!]:
  "mirrors (take_from_active (shared host) n a) (take_from_active (shared plain_host) n a)"
  "mirrors (lock_unstaked L (shared host) tx now a) (lock_unstaked L (shared plain_host) tx now a)"
  unfolding take_from_active_def lock_unstaked_def by (auto simp: Let_def)

lemma mirrors_unstake_amount [intro!]:
  "mirrors (unstake_amount L (shared host) tx now a) (unstake_amount L (shared plain_host) tx now a)"
  unfolding unstake_amount_def by (auto simp: Let_def)

lemma mirrors_unstake:
  "account_key k \<Longrightarrow> mirrors (unstake_zagros L (shared host) tx now k a) (unstake_zagros L (shared plain_host) tx now k a)"
  unfolding unstake_zagros_def by auto

lemma mirrors_claim:
  "mirrors (claim_reward (shared host) now a) (claim_reward (shared plain_host) now a)"
  unfolding claim_reward_def by (auto simp: Let_def)

section \<open>Slashing\<close>

lemma mirrors_jail [intro!]:
  "mirrors (jail_at_d14 (shared host) a) (jail_at_d14 (shared plain_host) a)"
  "mirrors (lower_total_staked (shared host) n) (lower_total_staked (shared plain_host) n)"
  unfolding jail_at_d14_def lower_total_staked_def by (auto simp: Let_def)

lemma mirrors_slash:
  "validate_address (tx_receiver tx) \<Longrightarrow>
    mirrors (slash_validator L F (shared host) tx now k a) (slash_validator L F (shared plain_host) tx now k a)"
  unfolding slash_validator_def by (auto simp: Let_def slash_target_key)

lemma mirrors_evidence_set [intro!]:
  "mirrors (resolve_evidence_set L (shared host) ev d n es) (resolve_evidence_set L (shared plain_host) ev d n es)"
  by (induction es) auto

lemma accused_key: "accused_of v ev r = Inr k \<Longrightarrow> account_key k"
  by (auto simp: accused_of_def Let_def canonical_account_key split: if_splits)

lemma mirrors_report_address [intro!]:
  "mirrors (resolve_report L (shared host) tx) (resolve_report L (shared plain_host) tx)"
  unfolding resolve_report_def by (auto simp: Let_def split: option.split equivocation_report.split)

lemma resolved_report_key: "resolve_report L H tx s = (Inr k, s') \<Longrightarrow> account_key k"
  unfolding resolve_report_def
  by (auto simp: andthen_Inr Let_def lift_def stop_def dest: accused_key
      split: option.splits equivocation_report.splits)

lemma mirrors_report:
  "mirrors (report_malicious L (shared host) tx now k a) (report_malicious L (shared plain_host) tx now k a)"
  unfolding report_malicious_def
  by (rule mirrors_andthen_result [where P = account_key]) (auto simp: Let_def dest: resolved_report_key)

section \<open>Validators\<close>

lemma mirrors_unregister:
  "mirrors (unregister_validator L (shared host) now a) (unregister_validator L (shared plain_host) now a)"
  unfolding unregister_validator_def by auto

lemma mirrors_admin [intro!]:
  "mirrors (reject_self_target L (shared host) m tx k) (reject_self_target L (shared plain_host) m tx k)"
  "mirrors (admin_phase_active (shared host) now) (admin_phase_active (shared plain_host) now)"
  "mirrors (verify_admin_action L (shared host) p n) (verify_admin_action L (shared plain_host) p n)"
  unfolding reject_self_target_def admin_phase_active_def verify_admin_action_def by (auto simp: Let_def)

lemma mirrors_admin_remove [intro!]:
  "mirrors (apply_admin_remove L (shared host) t now n) (apply_admin_remove L (shared plain_host) t now n)"
  unfolding apply_admin_remove_def by (auto simp: Let_def dest: canonical_address_key)

lemma mirrors_remove:
  "mirrors (remove_validator L (shared host) tx now k a) (remove_validator L (shared plain_host) tx now k a)"
  unfolding remove_validator_def apply_admin_action_tx_def
  by (auto simp: Let_def split: admin_action.split)

section \<open>The bridge\<close>

lemma mirrors_bridge_access [intro!]:
  "account_key k \<Longrightarrow> mirrors (bridge_get (shared host) k) (bridge_get (shared plain_host) k)"
  "account_key k \<Longrightarrow> mirrors (bridge_put (shared host) k x) (bridge_put (shared plain_host) k x)"
  unfolding bridge_get_def bridge_put_def by auto

lemma mirrors_bridge_set [intro!]:
  "mirrors (load_bridge_authority_set L (shared host)) (load_bridge_authority_set L (shared plain_host))"
  unfolding load_bridge_authority_set_def by auto

lemma mirrors_sources [intro!]:
  "mirrors (mark_source_processed_in_state (shared host) c h) (mark_source_processed_in_state (shared plain_host) c h)"
  "mirrors (is_source_processed_in_state (shared host) c h) (is_source_processed_in_state (shared plain_host) c h)"
  unfolding mark_source_processed_in_state_def is_source_processed_in_state_def by auto

lemma mirrors_archive [intro!]:
  "mirrors (drop_from_pending L (shared host) p) (drop_from_pending L (shared plain_host) p)"
  "mirrors (write_archive L (shared host) p b) (write_archive L (shared plain_host) p b)"
  unfolding drop_from_pending_def write_archive_def by (auto simp: Let_def)

lemma mirrors_close_mint [intro!]:
  "mirrors (close_mint L (shared host) p) (close_mint L (shared plain_host) p)"
  unfolding close_mint_def archive_executed_proposal_def by (auto simp: Let_def)

lemma mirrors_daily_mint [intro!]:
  "mirrors (check_and_record_daily_mint L (shared host) n t m) (check_and_record_daily_mint L (shared plain_host) n t m)"
  unfolding check_and_record_daily_mint_def by auto

lemma mirrors_mint_proposal [intro!]:
  "mirrors (validate_bridge_mint_proposal L F (shared host) tx b now)
     (validate_bridge_mint_proposal L F (shared plain_host) tx b now)"
  unfolding validate_bridge_mint_proposal_def by auto

lemma mirrors_mint:
  "account_key (tx_receiver tx) \<Longrightarrow>
    mirrors (bridge_mint L F (shared host) tx now a) (bridge_mint L F (shared plain_host) tx now a)"
  unfolding bridge_mint_def by (auto simp: Let_def)

lemma mirrors_mint_and_swap:
  "account_key (tx_receiver tx) \<Longrightarrow>
    mirrors (bridge_mint_and_swap L F (shared host) tx now a) (bridge_mint_and_swap L F (shared plain_host) tx now a)"
  unfolding bridge_mint_and_swap_def by (auto simp: Let_def)

lemma mirrors_backing [intro!]:
  "mirrors (require_backing (shared host) m n) (require_backing (shared plain_host) m n)"
  unfolding require_backing_def by auto

lemma mirrors_burn:
  "mirrors (bridge_burn L (shared host) tx now a) (bridge_burn L (shared plain_host) tx now a)"
  unfolding bridge_burn_def by (auto simp: Let_def)

lemma mirrors_swap_and_burn:
  "mirrors (bridge_swap_and_burn L (shared host) tx now a) (bridge_swap_and_burn L (shared plain_host) tx now a)"
  unfolding bridge_swap_and_burn_def by (auto simp: Let_def)

section \<open>Governance\<close>

lemma mirrors_hash_lists [intro!]:
  "account_key k \<Longrightarrow> mirrors (load_hash_list L (shared host) k m) (load_hash_list L (shared plain_host) k m)"
  "account_key k \<Longrightarrow> mirrors (store_hash_list L (shared host) k m ps) (store_hash_list L (shared plain_host) k m ps)"
  unfolding load_hash_list_def store_hash_list_def by auto

lemma mirrors_registers [intro!]:
  "mirrors (register_typed_active L (shared host) p) (register_typed_active L (shared plain_host) p)"
  "mirrors (register_index L (shared host) p) (register_index L (shared plain_host) p)"
  unfolding register_typed_active_def register_index_def load_typed_active_def load_index_def store_typed_active_def
  by auto

lemma mirrors_proposals [intro!]:
  "mirrors (save_proposal L (shared host) p) (save_proposal L (shared plain_host) p)"
  "mirrors (increment_active_proposal_count (shared host)) (increment_active_proposal_count (shared plain_host))"
  "mirrors (active_proposal_count (shared host)) (active_proposal_count (shared plain_host))"
  "mirrors (has_voted L (shared host) q v) (has_voted L (shared plain_host) q v)"
  "mirrors (mark_voted L (shared host) q v) (mark_voted L (shared plain_host) q v)"
  unfolding save_proposal_def increment_active_proposal_count_def active_proposal_count_def has_voted_def mark_voted_def
  by (auto simp: Let_def)

lemma mirrors_load_proposal [intro!]:
  "mirrors (load_proposal L (shared host) q) (load_proposal L (shared plain_host) q)"
  unfolding load_proposal_def by auto

lemma mirrors_gov_vote [intro!]:
  "mirrors (record_gov_vote L (shared host) q v b n) (record_gov_vote L (shared plain_host) q v b n)"
  unfolding record_gov_vote_def by (auto simp: Let_def)

lemma mirrors_vote:
  "mirrors (cast_gov_vote L F (shared host) tx now k a) (cast_gov_vote L F (shared plain_host) tx now k a)"
  unfolding cast_gov_vote_def by (auto simp: Let_def)

lemma mirrors_submission [intro!]:
  "mirrors (check_submission F (shared host) a) (check_submission F (shared plain_host) a)"
  "mirrors (escrow_deposit L (shared host) q n) (escrow_deposit L (shared plain_host) q n)"
  unfolding check_submission_def escrow_deposit_def by (auto simp: Let_def)

lemma mirrors_proposal_fee [intro!]:
  "mirrors (take_proposal_fee L F (shared host) tx now) (take_proposal_fee L F (shared plain_host) tx now)"
  unfolding take_proposal_fee_def by (auto simp: Let_def)

lemma mirrors_membership [intro!]:
  "mirrors (check_membership_target (shared host) now t) (check_membership_target (shared plain_host) now t)"
  "mirrors (voting_end (shared host) now p) (voting_end (shared plain_host) now p)"
  unfolding check_membership_target_def voting_end_def by (auto dest: canonical_account_key)

lemma mirrors_typed_action [intro!]:
  "mirrors (check_typed_action L (shared host) now p act) (check_typed_action L (shared plain_host) now p act)"
  unfolding check_typed_action_def by (auto split: proposal_action.split)

lemma mirrors_window [intro!]:
  "mirrors (voting_window L (shared host) now d act) (voting_window L (shared plain_host) now d act)"
  unfolding voting_window_def by auto

lemma mirrors_submit:
  "mirrors (submit_proposal L F (shared host) tx now k a) (submit_proposal L F (shared plain_host) tx now k a)"
  unfolding submit_proposal_def by (auto simp: Let_def)

section \<open>A whole transaction\<close>

text \<open>An action whose outcome is only relabelled.\<close>

lemma mirrors_relabel:
  assumes "mirrors m m'" "\<And>sw. n sw = (case m sw of (r, sw') \<Rightarrow> (f r, sw'))"
    and "\<And>sw. n' sw = (case m' sw of (r, sw') \<Rightarrow> (f r, sw'))"
  shows "mirrors n n'"
proof (rule mirrorsI)
  fix s w r s' w'
  assume s: "inv s" "producer_ok w" and run: "n (s, w) = (r, (s', w'))"
  obtain q s1 w1 where q: "m (s, w) = (q, (s1, w1))" by (metis prod.exhaust)
  from mirrorsD [OF assms(1) s q] run q
  show "producer_ok w' \<and> inv s' \<and> opened s' = opened s \<and> n' (plainly s, w) = (r, (plainly s', w'))"
    by (auto simp: assms(2,3))
qed

lemma mirrors_labels [intro!]:
  "mirrors m m' \<Longrightarrow> mirrors (tag_error x m) (tag_error x m')"
  "mirrors c c' \<Longrightarrow> mirrors (catch_panic c) (catch_panic c')"
  "mirrors (yields r) (yields r)"
  subgoal by (erule mirrors_relabel [where f = "map_sum (Pair x) id"])
      (auto simp: tag_error_def split: prod.split sum.split)
  subgoal by (erule mirrors_relabel
      [where f = "map_sum (\<lambda>(x, e). (x, if e = RustPanic then Other ''Panic during execution'' else e)) id"])
      (auto simp: catch_panic_def split: prod.split sum.split)
  subgoal by (simp add: mirrors_def yields_def)
  done

lemma mirrors_kept [intro!]: "mirrors m m' \<Longrightarrow> mirrors (kept m) (kept m')"
  unfolding kept_def by auto

lemma mirrors_handler:
  assumes "plain_kind (tx_kind tx)" "validate_address (tx_receiver tx)" "account_key k"
  shows "mirrors (run_handler L F (shared host) tx now k a) (run_handler L F (shared plain_host) tx now k a)"
proof -
  have key: "account_key (tx_receiver tx)" using assms(2) by (rule validate_address_key)
  note handlers = mirrors_transfer [OF key] mirrors_swaps mirrors_stake mirrors_unstake [OF assms(3)] mirrors_claim
    mirrors_slash [OF assms(2)] mirrors_report mirrors_unregister mirrors_remove mirrors_mint [OF key]
    mirrors_mint_and_swap [OF key] mirrors_burn mirrors_swap_and_burn mirrors_submit mirrors_vote
  from assms(1) show ?thesis
    unfolding run_handler_def
    by (cases "tx_kind tx") (auto intro: handlers simp: plain_kind_def is_evm_tx_def)
qed

lemma mirrors_native:
  assumes "plain_kind (tx_kind tx)" "validate_address (tx_receiver tx)" "account_key k"
  shows "mirrors (execute_native L F (shared host) tx now k a) (execute_native L F (shared plain_host) tx now k a)"
  unfolding execute_native_def using mirrors_handler [OF assms] assms(3) by (intro mirrors_andthen) auto

lemma read_sender_key: "read_sender F H tx s = (Inr (k, a), s') \<Longrightarrow> account_key k"
  unfolding read_sender_def by (auto simp: andthen_Inr lift_def give_def stop_def dest: canonical_account_key split: if_splits)

lemma mirrors_read_sender [intro!]:
  "account_key (tx_sender tx) \<Longrightarrow> mirrors (read_sender F (shared host) tx) (read_sender F (shared plain_host) tx)"
  unfolding read_sender_def by (auto dest: canonical_account_key)

lemma mirrors_inner:
  assumes "plain_kind (tx_kind tx)" "validate_address (tx_receiver tx)" "account_key (tx_sender tx)"
  shows "mirrors (execute_transaction_inner L F (shared host) call tx now)
    (execute_transaction_inner L F (shared plain_host) call' tx now)"
  unfolding execute_transaction_inner_def
proof (rule mirrors_chain_result [where P = "account_key \<circ> fst"])
  show "mirrors (tag_error no_out (read_sender F (shared host) tx)) (tag_error no_out (read_sender F (shared plain_host) tx))"
    using assms(3) by auto
  show "(account_key \<circ> fst) x" if "tag_error no_out (read_sender F (shared host) tx) s = (Inr x, s')" for x s s'
    using that read_sender_key by (cases x) (auto simp: tag_error_def split: prod.splits sum.splits)
  show "mirrors
      (case x of (k, a) \<Rightarrow> if is_evm_tx (tx_kind tx) then execute_evm L (shared host) call tx now k
         else chain (tag_error no_out (execute_native L F (shared host) tx now k a)) (\<lambda>gas. yields (Inr (no_out, gas))))
      (case x of (k, a) \<Rightarrow> if is_evm_tx (tx_kind tx) then execute_evm L (shared plain_host) call' tx now k
         else chain (tag_error no_out (execute_native L F (shared plain_host) tx now k a)) (\<lambda>gas. yields (Inr (no_out, gas))))"
    if "(account_key \<circ> fst) x" for x
    using that assms(1) mirrors_native [OF assms(1,2)] by (cases x) (auto simp: plain_kind_def)
qed

lemma mirrors_settle_success [intro!]:
  "account_key k \<Longrightarrow> mirrors (settle_success (shared host) tx k fee levy base out)
     (settle_success (shared plain_host) tx k fee levy base out)"
  unfolding settle_success_def by (auto simp: Let_def)

lemma mirrors_refresh [intro!]:
  "mirrors (refresh_staking_index_after L (shared host) tx) (refresh_staking_index_after L (shared plain_host) tx)"
  unfolding refresh_staking_index_after_def refresh_one_def Let_def
  by (auto split: tx_type.split dest: canonical_account_key)

lemma mirrors_tx_yields [intro!]: "mirrors_tx (yields r) (yields r)"
  by (rule mirrors_tx) auto

lemma mirrors_tx_with_fee:
  "mirrors m m' \<Longrightarrow> (\<And>x. mirrors_tx (k x) (k' x)) \<Longrightarrow> mirrors_tx (with_fee g m k) (with_fee g m' k')"
  by (rule mirrors_with_fee) (auto intro: mirrors_tx)

lemma mirrors_tx_prod:
  "(\<And>a b. p = (a, b) \<Longrightarrow> mirrors_tx (k a b) (k' a b)) \<Longrightarrow>
     mirrors_tx (case p of (a, b) \<Rightarrow> k a b) (case p of (a, b) \<Rightarrow> k' a b)"
  by (simp split: prod.split)

lemma mirrors_tx_chain:
  assumes "mirrors_tx m m'" "\<And>x. mirrors_tx (k x) (k' x)"
  shows "mirrors_tx (chain m k) (chain m' k')"
  unfolding mirrors_tx_def
proof (intro allI impI)
  fix s w
  assume s: "settled s" and w: "producer_ok w"
  obtain q s1 w1 where q: "m (s, w) = (q, (s1, w1))" by (metis prod.exhaust)
  note 1 = mirrors_txD [OF assms(1) s w q]
  show "case chain m k (s, w) of (r, (s', w')) \<Rightarrow> producer_ok w' \<and> settled s' \<and>
      chain m' k' (plainly s, w) = (r, (plainly s', w'))"
  proof (cases q)
    case (Inl e)
    then show ?thesis using q 1 by (simp add: chain_def)
  next
    case (Inr x)
    obtain r2 s2 w2 where k: "k x (s1, w1) = (r2, (s2, w2))" by (metis prod.exhaust)
    with mirrors_txD [OF assms(2) _ _ k] show ?thesis using q 1 Inr by (simp add: chain_def)
  qed
qed

lemma mirrors_tx_reserving:
  assumes "mirrors_tx m m'"
  shows "mirrors_tx (reserving as m) (reserving as m')"
  unfolding mirrors_tx_def
proof (intro allI impI)
  fix s w
  assume s: "settled s" and w: "producer_ok w"
  let ?w = "w\<lparr>vo_processing := as @ vo_processing w\<rparr>"
  obtain r s' w' where m: "m (s, ?w) = (r, (s', w'))" by (metis prod.exhaust)
  have "producer_ok ?w" using w by (simp add: producer_ok_def)
  note 1 = mirrors_txD [OF assms s this m]
  then show "case reserving as m (s, w) of (r, (s', w')) \<Rightarrow> producer_ok w' \<and> settled s' \<and>
      reserving as m' (plainly s, w) = (r, (plainly s', w'))"
    using s w m by (auto simp: reserving_def producer_ok_def)
qed

lemma mirrors_tx_failed:
  "account_key k \<Longrightarrow> mirrors_tx (settle_failed_native_transaction (shared host) k fee)
     (settle_failed_native_transaction (shared plain_host) k fee)"
  unfolding settle_failed_native_transaction_def by (rule mirrors_bracket) auto

lemma mirrors_tx_failure:
  assumes "account_key k"
  shows "mirrors_tx (settle_failure L (shared host) tx k fee base oe) (settle_failure L (shared plain_host) tx k fee base oe)"
  unfolding settle_failure_def Let_def
  by (intro mirrors_tx_chain mirrors_tx_failed [OF assms] mirrors_with_fee mirrors_tx) auto

lemma mirrors_tx_checkpoint:
  assumes "plain_kind (tx_kind tx)" "validate_address (tx_receiver tx)" "account_key (tx_sender tx)" "account_key k"
  shows "mirrors_tx (run_in_checkpoint L F (shared host) call tx now k fee levy base)
    (run_in_checkpoint L F (shared plain_host) call' tx now k fee levy base)"
  unfolding run_in_checkpoint_def
proof (rule mirrors_bracket)
  show "mirrors
      (chain (catch_panic (execute_transaction_inner L F (shared host) call tx now)) (\<lambda>(out, _).
         tag_error out (settle_success (shared host) tx k fee levy base out)))
      (chain (catch_panic (execute_transaction_inner L F (shared plain_host) call' tx now)) (\<lambda>(out, _).
         tag_error out (settle_success (shared plain_host) tx k fee levy base out)))"
    using mirrors_inner [OF assms(1-3)] assms(4) by auto
  show "mirrors_tx (with_fee 0 (refresh_staking_index_after L (shared host) tx) (\<lambda>_. yields (Inr gas)))
      (with_fee 0 (refresh_staking_index_after L (shared plain_host) tx) (\<lambda>_. yields (Inr gas)))" for gas
    by (intro mirrors_with_fee mirrors_tx) auto
qed (rule mirrors_tx_failure [OF assms(4)])

lemma mirrors_sender [intro!]:
  "account_key k \<Longrightarrow> account_key (tx_sender tx) \<Longrightarrow>
     mirrors (find_sender (shared host) tx k) (find_sender (shared plain_host) tx k)"
  unfolding find_sender_def by auto

lemma mirrors_fee [intro!]:
  "mirrors (declared_fee F (shared host) tx) (declared_fee F (shared plain_host) tx)"
  "mirrors (evm_extras F (shared host) tx) (evm_extras F (shared plain_host) tx)"
  unfolding declared_fee_def evm_extras_def evm_deploy_levy_def evm_standard_fee_def by (auto simp: Let_def)

lemma mirrors_tx_apply:
  assumes kind: "plain_kind (tx_kind tx)"
  shows "mirrors_tx (apply_transaction L F (shared host) call vs tx now)
    (apply_transaction L F (shared plain_host) call' vs tx now)"
proof (cases "tx_validate vs tx")
  case (Inl e)
  then show ?thesis unfolding apply_transaction_def by auto
next
  case (Inr u)
  then have valid: "validate_address (tx_sender tx)" "validate_address (tx_receiver tx)"
    by (cases u, simp add: tx_validate_Inr)+
  show ?thesis
  proof (cases "reserved_addresses L tx")
    case (Inl e)
    then show ?thesis using Inr unfolding apply_transaction_def by auto
  next
    case (Inr ka)
    obtain k as where ka: "ka = (k, as)" by (cases ka)
    then have k: "account_key k"
      using Inr by (auto simp: reserved_addresses_def try_then_Inr dest: canonical_account_key)
    have "mirrors_tx (apply_reserved L F (shared host) call tx now k) (apply_reserved L F (shared plain_host) call' tx now k)"
      unfolding apply_reserved_def
      by (auto intro!: mirrors_tx_with_fee mirrors_tx_prod mirrors_tx_checkpoint kind valid k validate_address_key)
    then show ?thesis
      using \<open>tx_validate vs tx = Inr u\<close> Inr ka
      unfolding apply_transaction_def by (auto intro!: mirrors_tx_if mirrors_tx_reserving)
  qed
qed

end

end
