(* ===== verification/Samples.thy ===== *)
theory Samples
  imports Apply StateRoot
begin

text \<open>
  Concrete libraries, a configuration and a transaction, for the witnesses of the executor's properties.
  Encodings of records nobody reads back are empty, decoders refuse.
\<close>

definition sample_crypto :: crypto_env where
  "sample_crypto = \<lparr>keccak = sample_keccak, ser_header = (\<lambda>_. []), ed_public = (\<lambda>b. b), ed_sign = (\<lambda>k h. k @ h),
     ed_key_ok = (\<lambda>_. True), ed_check = (\<lambda>k h s. s = k @ h)\<rparr>"

definition sample_libs :: native_libs where
  "sample_libs =
     \<lparr>lb_crypto = sample_crypto, lb_hex = (\<lambda>b. map (\<lambda>x. char_of (unat x)) b),
      lb_unhex = (\<lambda>_. None), lb_from_utf8 = (\<lambda>b. Some (map (\<lambda>x. char_of (unat x)) b)),
      lb_recover_signer = (\<lambda>_ _. None),
      lb_ser_params = (\<lambda>_. []), lb_de_params = (\<lambda>_. None), lb_ser_set = (\<lambda>_. Some []), lb_de_set = (\<lambda>_. None),
      lb_ser_multisig = (\<lambda>_. []), lb_de_multisig = (\<lambda>_. None), lb_ser_upgrade = (\<lambda>_. Some []),
      lb_de_upgrade = (\<lambda>_. None),
      lx_tracker = \<lparr>tc_serialize = (\<lambda>_. Some []), tc_deserialize = (\<lambda>_. None), tc_deserialize_legacy = (\<lambda>_. None)\<rparr>,
      lx_ser_receipt = (\<lambda>_. Some []), lx_stored_tx = (\<lambda>_. Some []), lx_ser_burns = (\<lambda>_. Some []),
      lx_de_burns = (\<lambda>_. None), lx_ser_slashes = (\<lambda>_. Some []), lx_de_slashes = (\<lambda>_. None),
      lx_ser_hashes = (\<lambda>_. Some []), lx_de_hashes = (\<lambda>_. None), lx_ser_snapshot = (\<lambda>_. Some []),
      lx_ser_transfer = (\<lambda>_. Some []),
      lv_ser_rotation = (\<lambda>_. []), lv_de_rotation = (\<lambda>_. None), lv_ser_shadow = (\<lambda>_. Some []),
      lv_de_shadow = (\<lambda>_. None), lv_de_admin = (\<lambda>_. None), lv_de_register = (\<lambda>_. None), lv_de_rotate = (\<lambda>_. None),
      lg_ser_proposal = (\<lambda>_. Some []), lg_de_proposal = (\<lambda>_. None), lg_de_proposal_v2 = (\<lambda>_. None),
      lg_de_proposal_v1 = (\<lambda>_. None), lg_de_action = (\<lambda>_. None),
      lg_utf8_lossy = (\<lambda>b. map (\<lambda>x. char_of (unat x)) b),
      lr_ser_proposal = (\<lambda>_. Some []), lr_de_proposal = (\<lambda>_. None), lr_de_proposal_v0 = (\<lambda>_. None),
      lr_ser_authorities = (\<lambda>_. Some []), lr_de_authorities = (\<lambda>_. None), lr_ser_mints = (\<lambda>_. Some []),
      lr_de_mints = (\<lambda>_. None), lr_de_mints_v0 = (\<lambda>_. None),
      ln_de_report = (\<lambda>_. None), ln_ed_verify = (\<lambda>k h s. s = k @ h)\<rparr>"

definition bob :: address where
  "bob = ''0x2222222222222222222222222222222222222222''"

definition sample_transfer :: transaction where
  "sample_transfer =
     \<lparr>tx_id = [], tx_kind = Transfer, tx_sender = alice, tx_amount = 3, tx_receiver = bob, tx_payload = [],
      tx_signature = [], tx_timestamp = 0, tx_nonce = 0, tx_gas_limit = 1, tx_gas_price = 1, tx_chain_id = CHAIN_ID\<rparr>"

definition sample_config :: exec_config where
  "sample_config =
     \<lparr>cf_bridge_authority = bob, cf_bridge_required_signatures = 1, cf_bridge_timelock_secs = 0,
      cf_bridge_daily_mint_limit = 100, cf_admin_authority = bob, cf_gas_target_zerenya = 1,
      cf_governance_proposal_fee = 0, cf_governance_min_stake_to_submit = 0,
      cf_governance_max_active_proposals = 10, cf_governance_voting_period_secs = 100,
      cf_governance_proposal_expiry_secs = 100\<rparr>"

definition sample_vars :: volatile where
  "sample_vars = \<lparr>vo_staking_index = None, vo_pending_gas_reward = 0, vo_block_producer = bob,
     vo_transfer_index = 0, vo_processing = []\<rparr>"

end
