(* ===== verification/Conservation.thy ===== *)
theory Conservation
  imports Supply Mirrors Samples
begin

text \<open>
  A whole transaction never adds to the coins: the handlers of \<open>Supply\<close> put together, the checkpoint
  around them, the settlement of nonce and fee. First on the plain map, then, through \<open>Mirrors\<close>, on the
  state manager and the overlay.
\<close>

section \<open>The handlers together\<close>

text \<open>
  What the executor knows of the sender when it runs the handler. No account of a pool sends: no one
  has its key. The amount is a \<open>u128\<close>. The address the admin seizes is an address.
\<close>

definition ordinary :: "'m libs_scheme \<Rightarrow> transaction \<Rightarrow> bool" where
  "ordinary L tx \<longleftrightarrow> plain_kind (tx_kind tx) \<and> tx_amount tx \<le> u128_max \<and>
     canonicalize (tx_sender tx) \<notin> {LIQUIDITY_POOL_ADDRESS, VALIDATOR_REWARD_POOL} \<and>
     (tx_kind tx = SlashValidator \<longrightarrow>
        validate_address (slash_target_address (lb_from_utf8 L) (lb_hex L) (tx_receiver tx) (tx_payload tx)))"

lemma amount_covered:
  assumes "tx_amount tx \<le> u128_max" "required_balance F tx \<le> ac_balance a" "tx_kind tx = Transfer"
  shows "tx_amount tx \<le> ac_balance a"
  using assms by (auto simp: required_balance_def Let_def sat_add_def)

lemma good_kept: "good m v (\<lambda>b. Q (Some b)) \<Longrightarrow> good (kept m) v Q"
  unfolding kept_def by (rule good_andthen) (auto elim: good_mono)

definition handled :: "address \<Rightarrow> (address \<rightharpoonup> account) \<Rightarrow> account \<Rightarrow> account option \<Rightarrow> (address \<rightharpoonup> account) \<Rightarrow> bool" where
  "handled k v a left v' \<longleftrightarrow>
     (case left of
        Some b \<Rightarrow> balanced k v a b v'
      | None \<Rightarrow> finite (dom v) \<longrightarrow> finite (dom v') \<and> coins v' \<le> others k v + worth a)"

lemma kept_fair: "fair k a m \<Longrightarrow> good (kept m) v (handled k v a)"
  by (rule good_kept, rule good_mono [where R = "balanced k v a"]) (simp_all add: handled_def fair_def)

lemma coins_written: "finite (dom v) \<Longrightarrow> coins (v(k \<mapsto> b)) \<le> others k v + worth b"
  using coins_split [of "v(k \<mapsto> b)" k] by (simp add: held_def unwrap_or_default_def)

lemma handled_unstake:
  assumes k: "k \<noteq> VALIDATOR_REWARD_POOL" "canonicalize k = k"
  shows "good (unstake_zagros L (shared plain_host) tx now k a) v (handled k v a)"
  unfolding unstake_zagros_def
proof (intro good_cases(1))
  show "good (andthen (lift (withdraw_unstaked tx a)) (\<lambda>sender.
      andthen (h_put (shared plain_host) k sender) (\<lambda>_.
      andthen (save_dummy_receipt L (shared plain_host) tx) (\<lambda>_. give None)))) v (handled k v a)"
  proof (rule then_lift, rule then_put, rule then_books, blast, unfold good_pure)
    fix b v'
    assume b: "withdraw_unstaked tx a = Inr b" and v': "same_purses (v(canonicalize k \<mapsto> b)) v'"
    have "worth b \<le> worth a"
      using b sat_add_upper [of u128_max "ac_balance a" "ac_pending_unstake_amount a"]
      by (auto simp: withdraw_unstaked_def worth_def split: if_splits)
    then show "handled k v a None v'"
      using v' coins_written [of v k b] k(2)
      by (auto simp: handled_def same_purses_coins same_purses_finite)
  qed
  show "good (andthen (unstake_amount L (shared plain_host) tx now a) (\<lambda>sender. give (Some sender))) v (handled k v a)"
    using kept_fair [OF fair_unstake_amount [OF k(1)]] by (simp add: kept_def)
qed simp

lemma handled_run:
  assumes tx: "ordinary L tx" and k: "canonical_account_address (tx_sender tx) = Inr k"
    and enough: "required_balance F tx \<le> ac_balance a"
  shows "good (run_handler L F (shared plain_host) tx now k a) v (handled k v a)"
proof -
  note key = canonical_key [OF k]
  have pools: "k \<noteq> LIQUIDITY_POOL_ADDRESS" "k \<noteq> VALIDATOR_REWARD_POOL" using tx key(2) by (auto simp: ordinary_def)
  have amount: "tx_kind tx = Transfer \<Longrightarrow> tx_amount tx \<le> ac_balance a"
    using amount_covered enough tx by (auto simp: ordinary_def)
  have slash: "fair k a (slash_validator L F (shared plain_host) tx now k a)" if "tx_kind tx = SlashValidator"
  proof (rule fair_slash [OF refl])
    have t: "validate_address (slash_target_address (lb_from_utf8 L) (lb_hex L) (tx_receiver tx) (tx_payload tx))"
      using that tx by (simp add: ordinary_def)
    show "purse (canonicalize (slash_target_address (lb_from_utf8 L) (lb_hex L) (tx_receiver tx) (tx_payload tx)))"
      by (rule valid_canonical(2) [OF t])
    show "eq_ignore_ascii_case (slash_target_address (lb_from_utf8 L) (lb_hex L) (tx_receiver tx) (tx_payload tx)) k"
      if "canonicalize (slash_target_address (lb_from_utf8 L) (lb_hex L) (tx_receiver tx) (tx_payload tx)) = k"
      using valid_canonical(3) [OF t] that by (simp add: eq_ignore_ascii_case_def)
  qed
  show ?thesis
    using tx unfolding run_handler_def
    by (cases "tx_kind tx")
      (auto simp: ordinary_def plain_kind_def is_evm_tx_def
        intro!: kept_fair fair_transfer fair_swap_buy fair_swap_sell fair_stake handled_unstake fair_claim slash fair_report
          fair_unregister fair_remove fair_mint fair_mint_and_swap fair_burn fair_swap_and_burn fair_submit fair_vote
          pools amount key(3))
qed

lemma native_keeps_coins:
  assumes tx: "ordinary L tx" and k: "canonical_account_address (tx_sender tx) = Inr k"
    and enough: "required_balance F tx \<le> ac_balance a" and a: "a = unwrap_or_default (v k)" and v: "finite (dom v)"
  shows "good (execute_native L F (shared plain_host) tx now k a) v (\<lambda>_ v'. finite (dom v') \<and> coins v' \<le> coins v)"
  unfolding execute_native_def
proof (rule good_andthen, rule good_mono [OF handled_run [OF tx k enough]])
  fix left v1
  assume h: "handled k v a left v1"
  note key = canonical_key [OF k]
  have start: "others k v + worth a = coins v" using coins_split [OF v, of k] a key(4) by (simp add: held_def)
  show "good (case left of None \<Rightarrow> give 0 | Some sender \<Rightarrow> andthen (h_put (shared plain_host) k sender) (\<lambda>_.
      andthen (save_dummy_receipt L (shared plain_host) tx) (\<lambda>_.
        give (if exempt_mint F tx then 0 else sat_mul u128_max (tx_gas_limit tx) (tx_gas_price tx))))) v1
      (\<lambda>_ v'. finite (dom v') \<and> coins v' \<le> coins v)"
  proof (cases left)
    case None
    then show ?thesis using h v start by (simp add: handled_def)
  next
    case (Some b)
    then have b: "finite (dom v1)" "others k v1 + worth b \<le> coins v"
      using h v start by (simp_all add: handled_def balanced_def)
    show ?thesis
      unfolding Some option.case
    proof (rule then_put, rule then_books, blast, unfold good_pure)
      fix v2
      assume "same_purses (v1(canonicalize k \<mapsto> b)) v2"
      then show "finite (dom v2) \<and> coins v2 \<le> coins v"
        using b coins_written [OF b(1), of k b] key(3) by (simp add: same_purses_coins same_purses_finite)
    qed
  qed
qed

section \<open>The whole transaction\<close>

definition money :: "plain \<times> volatile \<Rightarrow> nat" where
  "money sw = coins (pl_view (fst sw)) + vo_pending_gas_reward (snd sw)"

text \<open>Between transactions no checkpoint is open.\<close>

definition mints_nothing :: "(plain \<times> volatile \<Rightarrow> 'r \<times> plain \<times> volatile) \<Rightarrow> bool" where
  "mints_nothing m \<longleftrightarrow> (\<forall>s w r s' w'. m (s, w) = (r, (s', w')) \<longrightarrow> pl_saved s = None \<longrightarrow> finite (dom (pl_view s)) \<longrightarrow>
     pl_saved s' = None \<and> finite (dom (pl_view s')) \<and> money (s', w') \<le> money (s, w))"

text \<open>The work inside a checkpoint: an error may leave anything behind but the fees.\<close>

definition work_mints_nothing :: "(plain \<times> volatile \<Rightarrow> ('e + 'a) \<times> plain \<times> volatile) \<Rightarrow> bool" where
  "work_mints_nothing m \<longleftrightarrow> (\<forall>s w r s' w'. m (s, w) = (r, (s', w')) \<longrightarrow> finite (dom (pl_view s)) \<longrightarrow>
     pl_saved s' = pl_saved s \<and>
     (case r of Inl _ \<Rightarrow> vo_pending_gas_reward w' = vo_pending_gas_reward w
      | Inr _ \<Rightarrow> finite (dom (pl_view s')) \<and> money (s', w') \<le> money (s, w)))"

lemma books_mint_nothing: "books m \<Longrightarrow> mints_nothing m"
  by (auto simp: mints_nothing_def money_def same_purses_coins same_purses_finite dest: booksD)

lemma mints_with_fee:
  assumes "mints_nothing m" "\<And>x. mints_nothing (k x)"
  shows "mints_nothing (with_fee g m k)"
  unfolding mints_nothing_def
proof (intro allI impI)
  fix s w r s' w'
  assume run: "with_fee g m k (s, w) = (r, (s', w'))" and s: "pl_saved s = None" "finite (dom (pl_view s))"
  obtain q s1 w1 where q: "m (s, w) = (q, (s1, w1))" by (metis prod.exhaust)
  note 1 = assms(1) [unfolded mints_nothing_def, rule_format, OF q s]
  show "pl_saved s' = None \<and> finite (dom (pl_view s')) \<and> money (s', w') \<le> money (s, w)"
  proof (cases q)
    case (Inl e)
    then show ?thesis using run q 1 by (simp add: with_fee_def)
  next
    case (Inr x)
    then have "k x (s1, w1) = (r, (s', w'))" using run q by (simp add: with_fee_def)
    from assms(2) [unfolded mints_nothing_def, rule_format, OF this] 1 show ?thesis by auto
  qed
qed

lemma mints_chain:
  assumes "mints_nothing m" "\<And>x. mints_nothing (k x)"
  shows "mints_nothing (chain m k)"
  unfolding mints_nothing_def
proof (intro allI impI)
  fix s w r s' w'
  assume run: "chain m k (s, w) = (r, (s', w'))" and s: "pl_saved s = None" "finite (dom (pl_view s))"
  obtain q s1 w1 where q: "m (s, w) = (q, (s1, w1))" by (metis prod.exhaust)
  note 1 = assms(1) [unfolded mints_nothing_def, rule_format, OF q s]
  show "pl_saved s' = None \<and> finite (dom (pl_view s')) \<and> money (s', w') \<le> money (s, w)"
  proof (cases q)
    case (Inl e)
    then show ?thesis using run q 1 by (simp add: chain_def)
  next
    case (Inr x)
    then have "k x (s1, w1) = (r, (s', w'))" using run q by (simp add: chain_def)
    from assms(2) [unfolded mints_nothing_def, rule_format, OF this] 1 show ?thesis by auto
  qed
qed

lemma bracket_run:
  assumes "pl_saved s = None" "m (s\<lparr>pl_saved := Some (pl_view s)\<rparr>, w) = (q, (s1, w1))" "pl_saved s1 = Some (pl_view s)"
  shows "bracket (shared plain_host) m k l (s, w) =
    (case q of Inr x \<Rightarrow> k x (s1\<lparr>pl_saved := None\<rparr>, w1) | Inl e \<Rightarrow> l e (s1\<lparr>pl_view := pl_view s, pl_saved := None\<rparr>, w1))"
  using assms by (simp add: bracket_def with_fee_def shared_def plain_host_def on_store_def plain_checkpoint_def
      plain_commit_def plain_revert_def split: sum.split)

lemma mints_bracket:
  assumes work: "work_mints_nothing m" and rest: "\<And>x. mints_nothing (k x)" "\<And>e. mints_nothing (l e)"
  shows "mints_nothing (bracket (shared plain_host) m k l)"
  unfolding mints_nothing_def
proof (intro allI impI)
  fix s w r s' w'
  assume run: "bracket (shared plain_host) m k l (s, w) = (r, (s', w'))" and s: "pl_saved s = None" "finite (dom (pl_view s))"
  let ?s = "s\<lparr>pl_saved := Some (pl_view s)\<rparr>"
  obtain q s1 w1 where q: "m (?s, w) = (q, (s1, w1))" by (metis prod.exhaust)
  have "finite (dom (pl_view ?s))" using s by simp
  note 1 = work [unfolded work_mints_nothing_def, rule_format, OF q this]
  have saved: "pl_saved s1 = Some (pl_view s)" using 1 by simp
  note after = bracket_run [of s m w q s1 w1 k l, OF s(1) q saved]
  show "pl_saved s' = None \<and> finite (dom (pl_view s')) \<and> money (s', w') \<le> money (s, w)"
  proof (cases q)
    case (Inl e)
    then have "l e (s1\<lparr>pl_view := pl_view s, pl_saved := None\<rparr>, w1) = (r, (s', w'))" using run after by simp
    from rest(2) [unfolded mints_nothing_def, rule_format, OF this] 1 s Inl show ?thesis by (simp add: money_def)
  next
    case (Inr x)
    then have "k x (s1\<lparr>pl_saved := None\<rparr>, w1) = (r, (s', w'))" using run after by simp
    from rest(1) [unfolded mints_nothing_def, rule_format, OF this] 1 Inr show ?thesis by (auto simp: money_def)
  qed
qed

lemma chain_cases: "chain m k s = (case m s of (Inl e, s') \<Rightarrow> (Inl e, s') | (Inr x, s') \<Rightarrow> k x s')"
  by (fact chain_def)

lemma credited_gas:
  "credit_native_gas_fee n (s, w) = (r, sw') \<Longrightarrow>
     r = Inr () \<and> fst sw' = s \<and> vo_pending_gas_reward (snd sw') \<le> vo_pending_gas_reward w + n"
  by (auto simp: credit_native_gas_fee_def give_def change_var_def wrap_u128_def split: if_splits)

text \<open>What is charged leaves the account it is charged to.\<close>

lemma worth_charge: "n \<le> ac_balance a \<Longrightarrow> worth (a\<lparr>ac_balance := ac_balance a - n\<rparr>) + n = worth a"
  by (simp add: worth_def)

lemma worth_nonce [simp]: "worth (ac_increment_nonce a) = worth a" "ac_balance (ac_increment_nonce a) = ac_balance a"
  by (simp_all add: ac_increment_nonce_def worth_def)

lemma coins_charge:
  assumes "finite (dom v)" "purse k" "worth b + n \<le> worth (unwrap_or_default (v k))"
  shows "coins (v(k \<mapsto> b)) + n \<le> coins v"
  using coins_update [OF assms(1), of k b] assms(2,3) by (simp add: held_def)

text \<open>The account a successful transaction starts its charge from, and the charge.\<close>

definition closing_account :: "evm_out \<Rightarrow> account \<Rightarrow> account" where
  "closing_account out a = (if eo_nonce_advanced out then a else ac_increment_nonce a)"

lemma closing_same [simp]: "worth (closing_account out a) = worth a" "ac_balance (closing_account out a) = ac_balance a"
  by (simp_all add: closing_account_def)

lemma settle_success_run:
  fixes out fee levy base tx s k
  defines "b \<equiv> closing_account out (unwrap_or_default (pl_view s k))"
  defines "n \<equiv> min (not_yet_reflected tx fee levy base out) (ac_balance b)"
  assumes k: "canonicalize k = k"
    and run: "settle_success (shared plain_host) tx k fee levy base out (s, w) = (r, (s', w'))"
  shows "r = Inr (actual_gas tx fee levy base out)"
    and "s' = s\<lparr>pl_view := (pl_view s)(k \<mapsto> b\<lparr>ac_balance := ac_balance b - n\<rparr>)\<rparr>"
    and "vo_pending_gas_reward w' \<le> vo_pending_gas_reward w + n"
proof -
  obtain q s1 w1 where credit: "credit_native_gas_fee n (s, w) = (q, (s1, w1))" by (metis prod.exhaust)
  note 1 = credited_gas [OF credit, simplified]
  have found: "attempt (h_get (shared plain_host) k) (s, w) = (Inr (Some (pl_view s k)), (s, w))"
    by (simp add: attempt_def run_get k)
  have stored: "attempt (h_put (shared plain_host) k x) (s, w') = (Inr (Some ()), (s\<lparr>pl_view := (pl_view s)(k \<mapsto> x)\<rparr>, w'))" for x and w' :: volatile
    by (simp add: attempt_def run_put k)
  have a: "(case Some (pl_view s k) of Some (Some a) \<Rightarrow> a | _ \<Rightarrow> default_account) = unwrap_or_default (pl_view s k)"
    by (simp add: unwrap_or_default_def split: option.split)
  have "settle_success (shared plain_host) tx k fee levy base out (s, w) =
      andthen (credit_native_gas_fee n) (\<lambda>_. andthen (attempt (h_put (shared plain_host) k (b\<lparr>ac_balance := ac_balance b - n\<rparr>))) (\<lambda>_.
        give (actual_gas tx fee levy base out))) (s, w)"
    by (simp only: settle_success_def andthen_cases [of "attempt (h_get (shared plain_host) k)"] found prod.case sum.case
        Let_def a b_def closing_account_def [symmetric] n_def)
  also have "\<dots> = (Inr (actual_gas tx fee levy base out),
      (s\<lparr>pl_view := (pl_view s)(k \<mapsto> b\<lparr>ac_balance := ac_balance b - n\<rparr>)\<rparr>, w1))"
    using 1 credit stored by (simp add: andthen_cases give_def)
  finally show "r = Inr (actual_gas tx fee levy base out)"
      "s' = s\<lparr>pl_view := (pl_view s)(k \<mapsto> b\<lparr>ac_balance := ac_balance b - n\<rparr>)\<rparr>"
      "vo_pending_gas_reward w' \<le> vo_pending_gas_reward w + n"
    using run 1 by simp_all
qed

lemma settled_success:
  assumes k: "canonicalize k = k" "purse k"
  shows "work_mints_nothing (settle_success (shared plain_host) tx k fee levy base out)"
  unfolding work_mints_nothing_def
proof (intro allI impI)
  fix s w r s' w'
  assume run: "settle_success (shared plain_host) tx k fee levy base out (s, w) = (r, (s', w'))" and fin: "finite (dom (pl_view s))"
  define b where "b = closing_account out (unwrap_or_default (pl_view s k))"
  define n where "n = min (not_yet_reflected tx fee levy base out) (ac_balance b)"
  have "coins ((pl_view s)(k \<mapsto> b\<lparr>ac_balance := ac_balance b - n\<rparr>)) + n \<le> coins (pl_view s)"
    using worth_charge [of n b] by (intro coins_charge fin k(2)) (auto simp: n_def b_def)
  with settle_success_run [OF k(1) run, folded b_def, folded n_def] fin
  show "pl_saved s' = pl_saved s \<and> (case r of Inl _ \<Rightarrow> vo_pending_gas_reward w' = vo_pending_gas_reward w
      | Inr _ \<Rightarrow> finite (dom (pl_view s')) \<and> money (s', w') \<le> money (s, w))"
    by (simp add: money_def)
qed

lemma settled_failure:
  assumes k: "canonicalize k = k" "purse k"
  shows "mints_nothing (settle_failed_native_transaction (shared plain_host) k fee)"
  unfolding settle_failed_native_transaction_def
proof (rule mints_bracket)
  show "work_mints_nothing (andthen (h_get (shared plain_host) k) (\<lambda>found.
      andthen (lift (ac_sub_balance fee (unwrap_or_default found))) (\<lambda>sender.
      andthen (h_put (shared plain_host) k (ac_increment_nonce sender)) (\<lambda>_. credit_native_gas_fee fee))))"
    unfolding work_mints_nothing_def
  proof (intro allI impI)
    fix s w r s' w'
    assume run: "(andthen (h_get (shared plain_host) k) (\<lambda>found.
      andthen (lift (ac_sub_balance fee (unwrap_or_default found))) (\<lambda>sender.
      andthen (h_put (shared plain_host) k (ac_increment_nonce sender)) (\<lambda>_. credit_native_gas_fee fee)))) (s, w) = (r, (s', w'))"
      and fin: "finite (dom (pl_view s))"
    show "pl_saved s' = pl_saved s \<and> (case r of Inl _ \<Rightarrow> vo_pending_gas_reward w' = vo_pending_gas_reward w
        | Inr _ \<Rightarrow> finite (dom (pl_view s')) \<and> money (s', w') \<le> money (s, w))"
    proof (cases "ac_sub_balance fee (unwrap_or_default (pl_view s k))")
      case (Inl e)
      then show ?thesis using run by (auto simp: andthen_cases run_get k(1) lift_def)
    next
      case (Inr b)
      let ?s = "s\<lparr>pl_view := (pl_view s)(k \<mapsto> ac_increment_nonce b)\<rparr>"
      have credit: "credit_native_gas_fee fee (?s, w) = (r, (s', w'))"
        using run Inr by (simp add: andthen_cases run_get run_put k(1) lift_def)
      have "worth b + fee \<le> worth (unwrap_or_default (pl_view s k))"
        using Inr by (auto simp: ac_sub_balance_def checked_sub_def worth_def split: if_splits)
      then have "coins ((pl_view s)(k \<mapsto> ac_increment_nonce b)) + fee \<le> coins (pl_view s)"
        by (intro coins_charge fin k(2)) simp
      then show ?thesis using credited_gas [OF credit] fin by (auto simp: money_def)
    qed
  qed
qed (auto intro: books_mint_nothing)

lemma failure_mints_nothing:
  assumes "canonicalize k = k" "purse k"
  shows "mints_nothing (settle_failure L (shared plain_host) tx k fee base oe)"
  unfolding settle_failure_def Let_def
  by (intro mints_chain settled_failure [OF assms] mints_with_fee books_mint_nothing books_save_receipt books_pure)

section \<open>Applying a transaction\<close>

lemma good_chain:
  assumes "good m v (\<lambda>x v'. good (k x) v' Q)"
  shows "good (chain m k) v Q"
  unfolding good_def
proof (intro allI impI)
  fix s w r s' w'
  assume run: "chain m k (s, w) = (r, (s', w'))" and v: "pl_view s = v"
  obtain q s1 w1 where q: "m (s, w) = (q, (s1, w1))" by (metis prod.exhaust)
  note 1 = goodD [OF assms q v]
  show "pl_saved s' = pl_saved s \<and> vo_pending_gas_reward w' = vo_pending_gas_reward w \<and>
      (\<forall>x. r = Inr x \<longrightarrow> Q x (pl_view s'))"
  proof (cases q)
    case (Inl e)
    then show ?thesis using run q 1(1,2) by (auto simp: chain_def)
  next
    case (Inr x)
    then have "k x (s1, w1) = (r, (s', w'))" using run q by (simp add: chain_def)
    from goodD [OF 1(3) [OF Inr] this refl] 1(1,2) show ?thesis by auto
  qed
qed

lemma good_labels: "good m v Q \<Longrightarrow> good (tag_error out m) v Q" "good c v Q \<Longrightarrow> good (catch_panic c) v Q"
  "Q x v \<Longrightarrow> good (yields (Inr x)) v Q"
  by (fastforce simp: good_def tag_error_def catch_panic_def yields_def split: prod.splits sum.splits)+

lemma sender_read:
  "good (read_sender F (shared plain_host) tx) v (\<lambda>(k, a) v'.
     v' = v \<and> canonical_account_address (tx_sender tx) = Inr k \<and> a = unwrap_or_default (v k) \<and>
     required_balance F tx \<le> ac_balance a)"
  unfolding read_sender_def
proof (rule then_lift, rule then_get)
  fix k
  assume k: "canonical_account_address (tx_sender tx) = Inr k"
  note key = canonical_key [OF k]
  let ?Q = "\<lambda>(k, a) v'. v' = v \<and> canonical_account_address (tx_sender tx) = Inr k \<and> a = unwrap_or_default (v k) \<and>
     required_balance F tx \<le> ac_balance a"
  have found: "good (case v (canonicalize k) of Some account \<Rightarrow> give account
      | None \<Rightarrow> if k \<noteq> tx_sender tx then andthen (h_get (shared plain_host) (tx_sender tx)) (\<lambda>found. give (unwrap_or_default found))
          else give default_account) v (\<lambda>a v'. v' = v \<and> a = unwrap_or_default (v k))"
    unfolding key(3)
    by (cases "v k") (auto simp: key(2) [symmetric] unwrap_or_default_def intro!: then_get)
  show "good (andthen (case v (canonicalize k) of Some account \<Rightarrow> give account
      | None \<Rightarrow> if k \<noteq> tx_sender tx then andthen (h_get (shared plain_host) (tx_sender tx)) (\<lambda>found. give (unwrap_or_default found))
          else give default_account) (\<lambda>sender. if tx_nonce tx \<noteq> ac_nonce sender then stop InvalidNonce
      else if ac_balance sender < required_balance F tx then stop InsufficientBalance else give (k, sender))) v ?Q"
    by (rule good_andthen, rule good_mono [OF found]) (auto simp: k)
qed

lemma inner_keeps_coins:
  assumes tx: "ordinary L tx" and v: "finite (dom v)"
  shows "good (execute_transaction_inner L F (shared plain_host) call tx now) v (\<lambda>_ v'. finite (dom v') \<and> coins v' \<le> coins v)"
proof -
  have native: "\<not> is_evm_tx (tx_kind tx)" using tx by (simp add: ordinary_def plain_kind_def)
  show ?thesis
    unfolding execute_transaction_inner_def
  proof (rule good_chain, rule good_labels, rule good_mono [OF sender_read], clarify, unfold if_not_P [OF native])
    fix k
    assume k: "canonical_account_address (tx_sender tx) = Inr k"
      and enough: "required_balance F tx \<le> ac_balance (unwrap_or_default (v k))"
    show "good (chain (tag_error no_out (execute_native L F (shared plain_host) tx now k (unwrap_or_default (v k))))
        (\<lambda>gas. yields (Inr (no_out, gas)))) v (\<lambda>_ v'. finite (dom v') \<and> coins v' \<le> coins v)"
      by (rule good_chain, rule good_labels, rule good_mono [OF native_keeps_coins [OF tx k enough refl v]])
        (rule good_labels)
  qed
qed

lemma work_chain:
  assumes m: "\<And>v. finite (dom v) \<Longrightarrow> good m v (\<lambda>_ v'. finite (dom v') \<and> coins v' \<le> coins v)"
    and k: "\<And>x. work_mints_nothing (k x)"
  shows "work_mints_nothing (chain m k)"
  unfolding work_mints_nothing_def
proof (intro allI impI)
  fix s w r s' w'
  assume run: "chain m k (s, w) = (r, (s', w'))" and fin: "finite (dom (pl_view s))"
  obtain q s1 w1 where q: "m (s, w) = (q, (s1, w1))" by (metis prod.exhaust)
  note 1 = goodD [OF m [OF fin] q refl]
  show "pl_saved s' = pl_saved s \<and> (case r of Inl _ \<Rightarrow> vo_pending_gas_reward w' = vo_pending_gas_reward w
      | Inr _ \<Rightarrow> finite (dom (pl_view s')) \<and> money (s', w') \<le> money (s, w))"
  proof (cases q)
    case (Inl e)
    then show ?thesis using run q 1(1,2) by (auto simp: chain_def)
  next
    case (Inr x)
    then have "k x (s1, w1) = (r, (s', w'))" using run q by (simp add: chain_def)
    from k [unfolded work_mints_nothing_def, rule_format, OF this] 1(3) [OF Inr] 1(1,2)
    show ?thesis by (auto simp: money_def split: sum.splits)
  qed
qed

lemma work_tagged: "work_mints_nothing m \<Longrightarrow> work_mints_nothing (tag_error out m)"
  unfolding work_mints_nothing_def by (fastforce simp: tag_error_def split: prod.splits sum.splits)

lemma checkpoint_mints_nothing:
  assumes "ordinary L tx" "canonicalize k = k" "purse k"
  shows "mints_nothing (run_in_checkpoint L F (shared plain_host) call tx now k fee levy base)"
  unfolding run_in_checkpoint_def
proof (rule mints_bracket)
  show "work_mints_nothing (chain (catch_panic (execute_transaction_inner L F (shared plain_host) call tx now)) (\<lambda>(out, _).
      tag_error out (settle_success (shared plain_host) tx k fee levy base out)))"
    using assms by (intro work_chain good_labels inner_keeps_coins) (auto intro: work_tagged settled_success)
qed (intro mints_with_fee books_mint_nothing books_refresh books_pure failure_mints_nothing assms)+

lemma mints_reserving: "mints_nothing m \<Longrightarrow> mints_nothing (reserving as m)"
  unfolding mints_nothing_def
  by (fastforce simp: reserving_def money_def split: prod.splits if_splits)

lemma mints_if: "(c \<Longrightarrow> mints_nothing m) \<Longrightarrow> (\<not> c \<Longrightarrow> mints_nothing n) \<Longrightarrow> mints_nothing (if c then m else n)"
  by simp

lemma apply_mints_nothing:
  assumes tx: "ordinary L tx"
  shows "mints_nothing (apply_transaction L F (shared plain_host) call vs tx now)"
proof (cases "reserved_addresses L tx")
  case (Inl e)
  then show ?thesis unfolding apply_transaction_def by (auto intro: books_mint_nothing split: sum.split)
next
  case (Inr ka)
  obtain k as where ka: "ka = (k, as)" by (cases ka)
  then have "canonical_account_address (tx_sender tx) = Inr k"
    using Inr by (auto simp: reserved_addresses_def try_then_Inr)
  note key = canonical_key [OF this]
  have "mints_nothing (apply_reserved L F (shared plain_host) call tx now k)"
    unfolding apply_reserved_def
    by (rule mints_with_fee, rule books_mint_nothing, rule books_admission, rule mints_if,
        rule books_mint_nothing, rule books_pure, rule mints_with_fee, rule books_mint_nothing, rule books_admission,
        rule mints_with_fee, rule books_mint_nothing, rule books_admission, split prod.split, intro allI impI mints_if,
        rule books_mint_nothing, rule books_pure, rule checkpoint_mints_nothing, rule tx, rule key, rule key)
  then show ?thesis
    unfolding apply_transaction_def Inr ka by (auto intro: books_mint_nothing mints_reserving split: sum.split)
qed

section \<open>On the state manager\<close>

lemma managed_apply:
  assumes "sm_sound E tid s" "sm_opened E tid s = None" "producer_ok w" "plain_kind (tx_kind tx)"
    and "apply_transaction L F (shared (manager_host E tid)) call vs tx now (s, w) = (r, (s', w'))"
  shows "producer_ok w' \<and> sm_sound E tid s' \<and> sm_opened E tid s' = None \<and>
    apply_transaction L F (shared plain_host) call' vs tx now (\<lparr>pl_view = sm_view E s, pl_saved = None\<rparr>, w) =
      (r, (\<lparr>pl_view = sm_view E s', pl_saved = None\<rparr>, w'))"
  using managed.mirrors_txD [OF managed.mirrors_tx_apply, of tx E tid s w L F call vs now r s' w' call'] assms
  by (simp add: hosts managed.settled_def managed.plainly_def)

text \<open>
  C3: Applying a native transaction, whatever its outcome, never creates ZAGROS: the ZAGROS of all addresses
  and of the deposit escrow (balance, staked, pending stake and pending unstake), together with the fees
  waiting for the block producer, is at the end at most what it was. ZERENYA is not counted, which a bridge
  mint creates. The state is the state manager's with finitely many accounts and no checkpoint open, the
  producer's key is an account's, and the transaction is ordinary: a native kind other than
  \<open>RegisterValidator\<close>, \<open>RotateConsensusKey\<close> and \<open>ApproveValidator\<close>, an amount that fits \<open>u128\<close>, a sender that
  is neither the liquidity pool nor the reward pool, and for \<open>SlashValidator\<close> a target that is an address.
\<close>

theorem transactions_mint_no_coins:
  assumes "ordinary L tx" and "sm_sound E tid s" "sm_opened E tid s = None" "producer_ok w"
    and "finite (dom (sm_view E s))"
  shows "case apply_transaction L F (shared (manager_host E tid)) call vs tx now (s, w) of (r, (s', w')) \<Rightarrow>
    coins (sm_view E s') + vo_pending_gas_reward w' \<le> coins (sm_view E s) + vo_pending_gas_reward w"
proof -
  obtain r s' w' where run: "apply_transaction L F (shared (manager_host E tid)) call vs tx now (s, w) = (r, (s', w'))"
    by (metis prod.exhaust)
  have "plain_kind (tx_kind tx)" using assms(1) by (simp add: ordinary_def)
  from managed_apply [OF assms(2-4) this run, where call' = "\<lambda>_ _ s. (Inl undefined, s)"]
    apply_mints_nothing [OF assms(1)] assms(5)
  show ?thesis unfolding mints_nothing_def by (fastforce simp: run money_def)
qed

definition sample_store :: state_manager where
  "sample_store = snd (sm_set_account byte_env 0 alice (account_new 200) empty_store)"

lemma sample_store_ready:
  "sm_sound byte_env 0 sample_store" "sm_opened byte_env 0 sample_store = None"
  "sm_view byte_env sample_store = [alice \<mapsto> account_new 200]" "producer_ok sample_vars"
proof -
  have ok: "sm_ok byte_env empty_store" "sm_active empty_store 0 = 0" using empty_tracked
    by (simp_all add: tracked_def empty_store_def)
  then have sound: "sm_sound byte_env 0 empty_store" by (simp add: sm_sound_def empty_store_def)
  have none: "sm_opened byte_env 0 empty_store = None" by (simp add: sm_opened_def empty_store_def)
  have empty: "sm_view byte_env empty_store = Map.empty"
    by (simp add: fun_eq_iff sm_view_def empty_store_def empty_disk_def disk_view_def)
  have "account_key (canonicalize alice)" using alice_canonical by simp
  note put = sm.put_ok [OF sound this, of "account_new 200"] sm.put_opened [OF sound this, of "account_new 200"]
  show "sm_sound byte_env 0 sample_store" using put by (auto simp: sample_store_def)
  show "sm_opened byte_env 0 sample_store = None" using put none by (simp add: sample_store_def)
  show "sm_view byte_env sample_store = [alice \<mapsto> account_new 200]"
    using put empty alice_canonical by (auto simp: sample_store_def)
  show "producer_ok sample_vars" by code_simp
qed

lemma sample_ordinary: "ordinary sample_libs sample_transfer"
proof -
  have "canonicalize alice \<notin> {LIQUIDITY_POOL_ADDRESS, VALIDATOR_REWARD_POOL}" by code_simp
  then show ?thesis by (simp add: ordinary_def sample_transfer_def plain_kind_def is_evm_tx_def)
qed

lemma transactions_mint_no_coins_witness:
  "case apply_transaction sample_libs sample_config (shared (manager_host byte_env 0)) (\<lambda>_ _ s. (Inl undefined, s))
      (\<lambda>_. True) sample_transfer 0 (sample_store, sample_vars) of (r, (s', w')) \<Rightarrow>
    coins (sm_view byte_env s') + vo_pending_gas_reward w' \<le> coins (sm_view byte_env sample_store) + 0"
  using transactions_mint_no_coins [OF sample_ordinary sample_store_ready(1,2,4), of sample_config _ "\<lambda>_. True" 0]
  by (simp add: sample_store_ready sample_vars_def)

end
