(* ===== verification/Replay.thy ===== *)
theory Replay
  imports Conservation
begin

text \<open>
  What a transaction leaves in its sender's account: a nonce one higher, whether it succeeded or paid its
  fee and failed, so that it cannot be applied a second time; and, when it failed, nothing but the fee
  and the nonce.
\<close>

section \<open>No handler touches the nonce\<close>

text \<open>The account an action returns still has the nonce \<open>n\<close>.\<close>

abbreviation at_nonce :: "nat \<Rightarrow> account \<Rightarrow> bool" where
  "at_nonce n b \<equiv> ac_nonce b = n"

lemma returns_prod: "(\<And>a b. p = (a, b) \<Longrightarrow> returns (k a b) P) \<Longrightarrow> returns (case p of (a, b) \<Rightarrow> k a b) P"
  by (simp split: prod.split)

lemma returns_lift: "(\<And>x. r = Inr x \<Longrightarrow> returns (k x) P) \<Longrightarrow> returns (andthen (lift r) k) P"
  by (rule returns_after [where R = "\<lambda>x. r = Inr x"]) simp_all

lemma charged_nonce: "ac_sub_balance n a = Inr b \<Longrightarrow> ac_nonce b = ac_nonce a"
  by (auto simp: ac_sub_balance_def split: option.splits)

lemmas returns_steps = returns_cases returns_prod returns_lift returns_andthen

lemma paid_nonce: "returns (pay_pending_reward H a n) (\<lambda>(b, u). ac_nonce b = ac_nonce a)"
  unfolding pay_pending_reward_def Let_def by (intro returns_steps) simp_all

lemma settled_nonce: "returns (settle_pending_stake H a t) (at_nonce (ac_nonce a))"
  unfolding settle_pending_stake_def Let_def by (intro returns_steps) simp_all

lemma jailed_nonce: "returns (jail_at_d14 H a) (at_nonce (ac_nonce a))"
  unfolding jail_at_d14_def by (intro returns_steps) (simp add: jail_validator_def)

lemma transfer_nonce: "returns (do_transfer L H tx now k a) (at_nonce (ac_nonce a))"
  unfolding do_transfer_def Let_def by (intro returns_steps) simp_all

lemma swap_nonce:
  "returns (swap_buy L H tx now a) (at_nonce (ac_nonce a))"
  "returns (swap_sell L H tx now a) (at_nonce (ac_nonce a))"
  unfolding swap_buy_def swap_sell_def Let_def by (intro returns_steps; simp)+

lemma stake_nonce: "returns (stake_zagros H tx now a) (at_nonce (ac_nonce a))"
  unfolding stake_zagros_def Let_def
proof (rule returns_cases, simp, rule returns_after [OF settled_nonce], rule returns_andthen)
  fix b acc
  assume b: "at_nonce (ac_nonce a) b"
  let ?b = "b\<lparr>ac_balance := sat_sub (ac_balance b) (tx_amount tx)\<rparr>"
  show "returns (andthen (if 0 < ac_staked_balance ?b then pay_pending_reward H ?b acc else give (?b, 0))
      (\<lambda>(sender, unpaid). give (sender\<lparr>
         ac_pending_stake_amount := sat_add u128_max (ac_pending_stake_amount sender) (tx_amount tx),
         ac_pending_stake_activation_time := sat_add u128_max now REWARD_VESTING_SECONDS,
         ac_reward_debt := sat_sub (reward_owed (ac_staked_balance sender) acc) unpaid\<rparr>))) (at_nonce (ac_nonce a))"
    by (rule returns_after [where R = "\<lambda>(c, u). ac_nonce c = ac_nonce a"])
      (use paid_nonce [of H ?b acc] b in auto)
qed

lemma taken_nonce: "returns (take_from_active H n a) (at_nonce (ac_nonce a))"
  unfolding take_from_active_def Let_def
  by (intro returns_cases(1) returns_andthen returns_after [OF paid_nonce])
    (simp, force intro: returns_andthen)

lemma returns_conseq: "returns m R \<Longrightarrow> (\<And>x. R x \<Longrightarrow> P x) \<Longrightarrow> returns m P"
  unfolding returns_def by blast

lemma locked_nonce: "returns (lock_unstaked L H tx now a) (at_nonce (ac_nonce a))"
  unfolding lock_unstaked_def Let_def by (intro returns_steps) simp_all

lemma unstaked_nonce: "returns (unstake_amount L H tx now a) (at_nonce (ac_nonce a))"
  unfolding unstake_amount_def Let_def
  by (intro returns_cases(1) returns_after [OF settled_nonce] returns_after [OF taken_nonce] locked_nonce [THEN returns_conseq])
    simp_all

lemma claim_nonce: "returns (claim_reward H now a) (at_nonce (ac_nonce a))"
  unfolding claim_reward_def Let_def
  by (rule returns_after [OF settled_nonce], intro returns_steps) simp_all

lemma slash_nonce: "returns (slash_validator L F H tx now k a) (at_nonce (ac_nonce a))"
  unfolding slash_validator_def Let_def
proof (rule returns_cases, simp, rule returns_andthen, rule returns_cases, simp)
  fix active
  let ?t = "slash_target_address (lb_from_utf8 L) (lb_hex L) (tx_receiver tx) (tx_payload tx)"
  let ?self = "eq_ignore_ascii_case ?t k"
  show "returns (andthen (if ?self then give a else andthen (h_get H ?t) (\<lambda>found. give (unwrap_or_default found))) (\<lambda>target.
      if seizable target = 0 then stop (StakingError ''No stake!'')
      else andthen (jail_at_d14 H (confiscate now target)) (\<lambda>jailed.
           andthen (if ?self then give jailed else andthen (h_put H ?t jailed) (\<lambda>_. give a)) (\<lambda>sender.
           andthen (lower_total_staked H (ac_staked_balance target)) (\<lambda>_.
           andthen (distribute_staking_reward L H (seizable target) now) (\<lambda>_.
           andthen (record_slash_history L H ?t AdminEmergencySeizure (seizable target) now) (\<lambda>_. give sender)))))))
      (at_nonce (ac_nonce a))"
    by (rule returns_after [where R = "\<lambda>b. ?self \<longrightarrow> ac_nonce b = ac_nonce a"], simp add: returns_andthen,
        rule returns_cases, simp, rule returns_after [OF jailed_nonce],
        rule returns_after [where R = "at_nonce (ac_nonce a)"])
      (auto intro!: returns_andthen simp: confiscate_def)
qed

lemma report_nonce: "returns (report_malicious L H tx now k a) (at_nonce (ac_nonce a))"
  unfolding report_malicious_def Let_def by (intro returns_steps) simp_all

lemma leave_nonce:
  "returns (unregister_validator L H now a) (at_nonce (ac_nonce a))"
  "returns (remove_validator L H tx now k a) (at_nonce (ac_nonce a))"
  unfolding unregister_validator_def remove_validator_def
  by (intro returns_steps; simp add: sync_registered_flag_def)+

lemma bridge_nonce:
  "returns (bridge_mint L F H tx now a) (at_nonce (ac_nonce a))"
  "returns (bridge_mint_and_swap L F H tx now a) (at_nonce (ac_nonce a))"
  "returns (bridge_burn L H tx now a) (at_nonce (ac_nonce a))"
  "returns (bridge_swap_and_burn L H tx now a) (at_nonce (ac_nonce a))"
  unfolding bridge_mint_def bridge_mint_and_swap_def bridge_burn_def bridge_swap_and_burn_def Let_def
  by (intro returns_steps; simp add: charged_nonce)+

lemma governance_nonce:
  "returns (submit_proposal L F H tx now k a) (at_nonce (ac_nonce a))"
  "returns (cast_gov_vote L F H tx now k a) (at_nonce (ac_nonce a))"
  unfolding submit_proposal_def cast_gov_vote_def Let_def by (intro returns_steps; simp)+

lemma kept_nonce: "returns m (at_nonce n) \<Longrightarrow> returns (kept m) (\<lambda>left. \<exists>b. left = Some b \<and> ac_nonce b = n)"
  unfolding kept_def by (rule returns_after) auto

lemma handler_nonce:
  assumes "plain_kind (tx_kind tx)" "tx_kind tx \<noteq> UnstakeZagros"
  shows "returns (run_handler L F H tx now k a) (\<lambda>left. \<exists>b. left = Some b \<and> ac_nonce b = ac_nonce a)"
  using assms unfolding run_handler_def
  by (cases "tx_kind tx")
    (auto simp: plain_kind_def is_evm_tx_def intro!: kept_nonce transfer_nonce swap_nonce stake_nonce
      claim_nonce slash_nonce report_nonce leave_nonce bridge_nonce governance_nonce)

section \<open>The nonce in the map\<close>

definition nonce_at :: "address \<Rightarrow> (address \<rightharpoonup> account) \<Rightarrow> nat" where
  "nonce_at k v = ac_nonce (unwrap_or_default (v k))"

lemma nonce_at_put [simp]: "nonce_at k (v(k \<mapsto> b)) = ac_nonce b"
  by (simp add: nonce_at_def unwrap_or_default_def)

lemma nonce_at_same: "same_purses v v' \<Longrightarrow> purse k \<Longrightarrow> nonce_at k v' = nonce_at k v"
  by (simp add: same_purses_def nonce_at_def)

definition kept_at :: "address \<Rightarrow> nat \<Rightarrow> account option \<Rightarrow> (address \<rightharpoonup> account) \<Rightarrow> bool" where
  "kept_at k n left v' \<longleftrightarrow> (case left of Some b \<Rightarrow> ac_nonce b = n | None \<Rightarrow> nonce_at k v' = n)"

lemma good_returns: "good m v R \<Longrightarrow> returns m P \<Longrightarrow> (\<And>x v'. P x \<Longrightarrow> Q x v') \<Longrightarrow> good m v Q"
  unfolding good_def returns_def by blast

lemma withdrawn_nonce: "withdraw_unstaked tx a = Inr b \<Longrightarrow> ac_nonce b = ac_nonce a"
  by (auto simp: withdraw_unstaked_def split: if_splits)

lemma handler_kept_at:
  assumes tx: "ordinary L tx" and k: "canonical_account_address (tx_sender tx) = Inr k"
    and enough: "required_balance F tx \<le> ac_balance a"
  shows "good (run_handler L F (shared plain_host) tx now k a) v (kept_at k (ac_nonce a))"
proof (cases "tx_kind tx = UnstakeZagros")
  case False
  have "plain_kind (tx_kind tx)" using tx by (simp add: ordinary_def)
  from handled_run [OF tx k enough] handler_nonce [OF this False]
  show ?thesis by (rule good_returns) (auto simp: kept_at_def)
next
  case True
  note key = canonical_key [OF k]
  have pool: "k \<noteq> VALIDATOR_REWARD_POOL" using tx key(2) by (auto simp: ordinary_def)
  have "good (unstake_amount L (shared plain_host) tx now a) v (balanced k v a)"
    using fair_unstake_amount [OF pool, unfolded fair_def, rule_format] .
  then have some: "good (andthen (unstake_amount L (shared plain_host) tx now a) (\<lambda>b. give (Some b))) v (kept_at k (ac_nonce a))"
    by (rule good_andthen [OF good_returns [OF _ unstaked_nonce]]) (simp add: kept_at_def)
  have none: "good (andthen (lift (withdraw_unstaked tx a)) (\<lambda>sender. andthen (h_put (shared plain_host) k sender) (\<lambda>_.
      andthen (save_dummy_receipt L (shared plain_host) tx) (\<lambda>_. give None)))) v (kept_at k (ac_nonce a))"
    by (rule then_lift, rule then_put, rule then_books, blast)
      (auto simp: kept_at_def key(3) nonce_at_same [OF _ key(4)] withdrawn_nonce)
  from True some none show ?thesis
    by (simp add: run_handler_def unstake_zagros_def)
qed

lemma native_nonce:
  assumes tx: "ordinary L tx" and k: "canonical_account_address (tx_sender tx) = Inr k"
    and enough: "required_balance F tx \<le> ac_balance a"
  shows "good (execute_native L F (shared plain_host) tx now k a) v (\<lambda>_ v'. nonce_at k v' = ac_nonce a)"
  unfolding execute_native_def
proof (rule good_andthen, rule good_mono [OF handler_kept_at [OF tx k enough]])
  fix left v1
  assume h: "kept_at k (ac_nonce a) left v1"
  note key = canonical_key [OF k]
  show "good (case left of None \<Rightarrow> give 0 | Some sender \<Rightarrow> andthen (h_put (shared plain_host) k sender) (\<lambda>_.
      andthen (save_dummy_receipt L (shared plain_host) tx) (\<lambda>_.
        give (if exempt_mint F tx then 0 else sat_mul u128_max (tx_gas_limit tx) (tx_gas_price tx))))) v1
      (\<lambda>_ v'. nonce_at k v' = ac_nonce a)"
  proof (cases left)
    case None
    then show ?thesis using h by (simp add: kept_at_def)
  next
    case (Some b)
    show ?thesis
      unfolding Some option.case
      by (rule then_put, rule then_books, blast) (use h Some in \<open>auto simp: kept_at_def key(3) nonce_at_same [OF _ key(4)]\<close>)
  qed
qed

lemma inner_nonce:
  assumes tx: "ordinary L tx" and k: "canonical_account_address (tx_sender tx) = Inr k"
  shows "good (execute_transaction_inner L F (shared plain_host) call tx now) v (\<lambda>(out, _) v'. out = no_out \<and> nonce_at k v' = nonce_at k v)"
proof -
  have native: "\<not> is_evm_tx (tx_kind tx)" using tx by (simp add: ordinary_def plain_kind_def)
  show ?thesis
    unfolding execute_transaction_inner_def
  proof (rule good_chain, rule good_labels, rule good_mono [OF sender_read], clarify, unfold if_not_P [OF native])
    fix j
    assume j: "canonical_account_address (tx_sender tx) = Inr j"
      and enough: "required_balance F tx \<le> ac_balance (unwrap_or_default (v j))"
    show "good (chain (tag_error no_out (execute_native L F (shared plain_host) tx now j (unwrap_or_default (v j))))
        (\<lambda>gas. yields (Inr (no_out, gas)))) v (\<lambda>(out, _) v'. out = no_out \<and> nonce_at k v' = nonce_at k v)"
      by (rule good_chain, rule good_labels, rule good_mono [OF native_nonce [OF tx j enough]], rule good_labels)
        (use j k in \<open>simp add: nonce_at_def\<close>)
  qed
qed

section \<open>The two ways a transaction ends\<close>

text \<open>A failed transaction took its fee and its nonce from the sender, and nothing else from anyone.\<close>

definition charged_only :: "address \<Rightarrow> nat \<Rightarrow> (address \<rightharpoonup> account) \<Rightarrow> (address \<rightharpoonup> account) \<Rightarrow> bool" where
  "charged_only k fee v v' \<longleftrightarrow>
     (\<exists>b. ac_sub_balance fee (unwrap_or_default (v k)) = Inr b \<and> same_purses (v(k \<mapsto> ac_increment_nonce b)) v')"

definition next_nonce :: "nat \<Rightarrow> nat" where
  "next_nonce n = sat_add u64_max n 1"

definition ended :: "address \<Rightarrow> (address \<rightharpoonup> account) \<Rightarrow> nat failing \<Rightarrow> (address \<rightharpoonup> account) \<Rightarrow> bool" where
  "ended k v r v' \<longleftrightarrow>
     (case r of
        Inr _ \<Rightarrow> nonce_at k v' = next_nonce (nonce_at k v)
      | Inl (e, fee) \<Rightarrow> 0 < fee \<longrightarrow> charged_only k fee v v')"

definition ends :: "address \<Rightarrow> nat \<Rightarrow> (plain \<times> volatile \<Rightarrow> nat failing \<times> plain \<times> volatile) \<Rightarrow> bool" where
  "ends k n m \<longleftrightarrow> (\<forall>s w r s' w'. m (s, w) = (r, (s', w')) \<longrightarrow> pl_saved s = None \<longrightarrow> nonce_at k (pl_view s) = n \<longrightarrow>
     ended k (pl_view s) r (pl_view s'))"

lemma endsD: "ends k n m \<Longrightarrow> m (s, w) = (r, (s', w')) \<Longrightarrow> pl_saved s = None \<Longrightarrow> nonce_at k (pl_view s) = n \<Longrightarrow>
    ended k (pl_view s) r (pl_view s')"
  unfolding ends_def by blast

lemma charged_same:
  assumes "same_purses u v" "purse k" "charged_only k fee v v'"
  shows "charged_only k fee u v'"
proof -
  obtain b where b: "ac_sub_balance fee (unwrap_or_default (v k)) = Inr b" "same_purses (v(k \<mapsto> ac_increment_nonce b)) v'"
    using assms(3) by (auto simp: charged_only_def)
  moreover have "same_purses (u(k \<mapsto> ac_increment_nonce b)) (v(k \<mapsto> ac_increment_nonce b))" "u k = v k"
    using assms(1,2) by (auto simp: same_purses_def)
  ultimately show ?thesis unfolding charged_only_def by (metis same_purses_trans)
qed

lemma ended_same:
  assumes "same_purses u v" "purse k" "ended k v r v'"
  shows "ended k u r v'"
  using assms nonce_at_same [OF assms(1,2)] charged_same [OF assms(1,2)]
  by (auto simp: ended_def split: sum.splits)

lemma ended_nothing [simp]: "ended k v (Inl (e, 0)) v'"
  by (simp add: ended_def)

lemma ends_refused [intro!]: "ends k n (yields (Inl (e, 0)))"
  by (auto simp: ends_def yields_def)

lemma ends_if: "(c \<Longrightarrow> ends k n m) \<Longrightarrow> (\<not> c \<Longrightarrow> ends k n m') \<Longrightarrow> ends k n (if c then m else m')"
  by simp

lemma ends_with_fee:
  assumes m: "books m" and k: "purse k" and c: "\<And>x. ends k n (c x)"
  shows "ends k n (with_fee 0 m c)"
  unfolding ends_def
proof (intro allI impI)
  fix s w r s' w'
  assume run: "with_fee 0 m c (s, w) = (r, (s', w'))" and s: "pl_saved s = None" "nonce_at k (pl_view s) = n"
  obtain q s1 w1 where q: "m (s, w) = (q, (s1, w1))" by (metis prod.exhaust)
  note 1 = booksD [OF m q]
  show "ended k (pl_view s) r (pl_view s')"
  proof (cases q)
    case (Inl e)
    then show ?thesis using run q by (auto simp: with_fee_def)
  next
    case (Inr x)
    then have "c x (s1, w1) = (r, (s', w'))" using run q by (simp add: with_fee_def)
    from endsD [OF c this] 1 s show ?thesis by (auto intro: ended_same k simp: nonce_at_same k)
  qed
qed

section \<open>The settlement of a failure\<close>

lemma settle_failed_run:
  assumes k: "canonicalize k = k" and s: "pl_saved s = None"
    and run: "settle_failed_native_transaction (shared plain_host) k fee (s, w) = (r, (s', w'))"
  shows "case ac_sub_balance fee (unwrap_or_default (pl_view s k)) of
      Inl e \<Rightarrow> r = Inl (e, 0)
    | Inr b \<Rightarrow> r = Inr () \<and> pl_view s' = (pl_view s)(k \<mapsto> ac_increment_nonce b)"
proof -
  let ?s = "s\<lparr>pl_saved := Some (pl_view s)\<rparr>"
  let ?work = "andthen (h_get (shared plain_host) k) (\<lambda>found.
      andthen (lift (ac_sub_balance fee (unwrap_or_default found))) (\<lambda>sender.
      andthen (h_put (shared plain_host) k (ac_increment_nonce sender)) (\<lambda>_. credit_native_gas_fee fee)))"
  show ?thesis
  proof (cases "ac_sub_balance fee (unwrap_or_default (pl_view s k))")
    case (Inl e)
    then have "?work (?s, w) = (Inl e, (?s, w))" by (simp add: andthen_cases run_get k lift_def)
    from bracket_run [where m = ?work and k = "\<lambda>_. yields (Inr ())" and l = "\<lambda>e. yields (Inl (e, 0))", OF s this] run Inl show ?thesis by (simp add: settle_failed_native_transaction_def yields_def)
  next
    case (Inr b)
    let ?s' = "?s\<lparr>pl_view := (pl_view s)(k \<mapsto> ac_increment_nonce b)\<rparr>"
    obtain q s1 w1 where credit: "credit_native_gas_fee fee (?s', w) = (q, (s1, w1))" by (metis prod.exhaust)
    note 1 = credited_gas [OF credit, simplified]
    have "?work (?s, w) = (Inr (), (?s', w1))"
      using Inr 1 credit by (simp add: andthen_cases run_get run_put k lift_def)
    from bracket_run [where m = ?work and k = "\<lambda>_. yields (Inr ())" and l = "\<lambda>e. yields (Inl (e, 0))", OF s this] run Inr show ?thesis
      by (simp add: settle_failed_native_transaction_def) (auto simp: yields_def)
  qed
qed

lemma failure_charges_only:
  assumes k: "canonicalize k = k" and s: "pl_saved s = None"
    and run: "settle_failure L (shared plain_host) tx k fee base oe (s, w) = (r, (s', w'))"
  shows "ended k (pl_view s) r (pl_view s')"
proof -
  let ?fee = "failed_gas tx fee base (fst oe)"
  obtain q s1 w1 where q: "settle_failed_native_transaction (shared plain_host) k ?fee (s, w) = (q, (s1, w1))"
    by (metis prod.exhaust)
  note 1 = settle_failed_run [OF k s q]
  show ?thesis
  proof (cases "ac_sub_balance ?fee (unwrap_or_default (pl_view s k))")
    case (Inl e)
    then show ?thesis using run q 1 by (simp add: settle_failure_def Let_def chain_def) auto
  next
    case (Inr b)
    obtain q2 where q2: "save_failed_receipt L (shared plain_host) tx
        (case eo_gas_used (fst oe) of None \<Rightarrow> tx_gas_limit tx | Some g \<Rightarrow> g) (s1, w1) = (q2, (s', w'))"
      and r: "\<exists>e. r = Inl (e, ?fee)"
      using run q 1 Inr by (auto simp: settle_failure_def Let_def chain_def with_fee_def yields_def split: prod.splits sum.splits)
    have "same_purses (pl_view s1) (pl_view s')" using booksD [OF books_save_receipt(2) q2] by simp
    with r 1 Inr show ?thesis by (auto simp: ended_def charged_only_def)
  qed
qed

section \<open>The whole transaction\<close>

definition checkpoint_work ::
  "'m native_libs_scheme \<Rightarrow> exec_config \<Rightarrow> plain evm_call \<Rightarrow> transaction \<Rightarrow> nat \<Rightarrow> address \<Rightarrow> nat \<Rightarrow> nat \<Rightarrow> nat \<Rightarrow>
     plain \<times> volatile \<Rightarrow> (evm_out \<times> zerror + nat) \<times> plain \<times> volatile" where
  "checkpoint_work L F call tx now k fee levy base =
     chain (catch_panic (execute_transaction_inner L F (shared plain_host) call tx now)) (\<lambda>(out, _).
       tag_error out (settle_success (shared plain_host) tx k fee levy base out))"

lemma work_run:
  assumes tx: "ordinary L tx" and k: "canonical_account_address (tx_sender tx) = Inr k"
    and run: "checkpoint_work L F call tx now k fee levy base (s, w) = (q, (s1, w1))"
  shows "pl_saved s1 = pl_saved s" and "q = Inr x \<Longrightarrow> nonce_at k (pl_view s1) = next_nonce (nonce_at k (pl_view s))"
proof -
  note key = canonical_key(3) [OF k]
  obtain r s2 w2 where r: "catch_panic (execute_transaction_inner L F (shared plain_host) call tx now) (s, w) = (r, (s2, w2))"
    by (metis prod.exhaust)
  note 1 = goodD [OF good_labels(2) [OF inner_nonce [OF tx k]] r refl]
  have "pl_saved s1 = pl_saved s \<and> (\<forall>x. q = Inr x \<longrightarrow> nonce_at k (pl_view s1) = next_nonce (nonce_at k (pl_view s)))"
  proof (cases r)
    case (Inl e)
    then show ?thesis using run r 1(1) by (auto simp: checkpoint_work_def chain_def)
  next
    case (Inr z)
    obtain out gas where z: "z = (out, gas)" by (cases z)
    have 2: "out = no_out" "nonce_at k (pl_view s2) = nonce_at k (pl_view s)" using 1(3) [OF Inr] z by auto
    obtain r' where s: "settle_success (shared plain_host) tx k fee levy base out (s2, w2) = (r', (s1, w1))"
      using run r Inr z by (auto simp: checkpoint_work_def chain_def tag_error_def split: prod.splits sum.splits)
    have "closing_account no_out a = ac_increment_nonce a" for a by (simp add: closing_account_def no_out_def)
    then show ?thesis
      using settle_success_run(2) [OF key s] 1(1) 2
      by (simp add: next_nonce_def ac_increment_nonce_def) (simp add: nonce_at_def)
  qed
  then show "pl_saved s1 = pl_saved s" "q = Inr x \<Longrightarrow> nonce_at k (pl_view s1) = next_nonce (nonce_at k (pl_view s))"
    by auto
qed

lemma checkpoint_ends:
  assumes tx: "ordinary L tx" and k: "canonical_account_address (tx_sender tx) = Inr k"
  shows "ends k n (run_in_checkpoint L F (shared plain_host) call tx now k fee levy base)"
  unfolding ends_def
proof (intro allI impI)
  note key = canonical_key(3,4) [OF k]
  fix s w r s' w'
  assume run: "run_in_checkpoint L F (shared plain_host) call tx now k fee levy base (s, w) = (r, (s', w'))"
    and s: "pl_saved s = None"
  let ?s = "s\<lparr>pl_saved := Some (pl_view s)\<rparr>"
  obtain q s1 w1 where q: "checkpoint_work L F call tx now k fee levy base (?s, w) = (q, (s1, w1))" by (metis prod.exhaust)
  have saved: "pl_saved s1 = Some (pl_view s)" using work_run(1) [OF tx k q] by simp
  note after = bracket_run [where m = "checkpoint_work L F call tx now k fee levy base" and
      k = "\<lambda>gas. with_fee 0 (refresh_staking_index_after L (shared plain_host) tx) (\<lambda>_. yields (Inr gas))" and
      l = "settle_failure L (shared plain_host) tx k fee base", OF s q saved]
  show "ended k (pl_view s) r (pl_view s')"
  proof (cases q)
    case (Inl oe)
    have "settle_failure L (shared plain_host) tx k fee base oe (s1\<lparr>pl_view := pl_view s, pl_saved := None\<rparr>, w1) = (r, (s', w'))"
      using run after Inl by (simp add: run_in_checkpoint_def checkpoint_work_def)
    from failure_charges_only [OF key(1) _ this] show ?thesis by simp
  next
    case (Inr x)
    have c: "with_fee 0 (refresh_staking_index_after L (shared plain_host) tx) (\<lambda>_. yields (Inr x)) (s1\<lparr>pl_saved := None\<rparr>, w1) = (r, (s', w'))"
      using run after Inr by (simp add: run_in_checkpoint_def checkpoint_work_def)
    obtain q2 s2 w2 where q2: "refresh_staking_index_after L (shared plain_host) tx (s1\<lparr>pl_saved := None\<rparr>, w1) = (q2, (s2, w2))"
      by (metis prod.exhaust)
    note 2 = booksD [OF books_refresh q2]
    have "nonce_at k (pl_view s1) = next_nonce (nonce_at k (pl_view s))" using work_run(2) [OF tx k q Inr] by simp
    then have "nonce_at k (pl_view s2) = next_nonce (nonce_at k (pl_view s))"
      using 2 nonce_at_same [of "pl_view s1" "pl_view s2" k] key(2) by simp
    then show ?thesis using c q2 by (auto simp: with_fee_def yields_def ended_def split: sum.splits)
  qed
qed

lemma reserved_ends:
  assumes tx: "ordinary L tx" and k: "canonical_account_address (tx_sender tx) = Inr k"
  shows "ends k n (apply_reserved L F (shared plain_host) call tx now k)"
  unfolding apply_reserved_def
  by (rule ends_with_fee, rule books_admission, rule canonical_key(4) [OF k], rule ends_if, rule ends_refused,
      rule ends_with_fee, rule books_admission, rule canonical_key(4) [OF k],
      rule ends_with_fee, rule books_admission, rule canonical_key(4) [OF k], split prod.split, intro allI impI ends_if,
      rule ends_refused, rule checkpoint_ends [OF tx k])

lemma sender_found:
  assumes "canonicalize k = k" "k = canonicalize (tx_sender tx)"
  shows "good (find_sender (shared plain_host) tx k) v (\<lambda>a v'. v' = v \<and> a = unwrap_or_default (v k))"
proof -
  have get: "attempt (h_get (shared plain_host) (tx_sender tx)) (s, w) = (Inr (Some (pl_view s k)), (s, w))" for s w
    using assms(2) by (simp add: attempt_def run_get)
  have "good (attempt (h_get (shared plain_host) (tx_sender tx))) v (\<lambda>x v'. v' = v \<and> x = Some (v k))"
    by (simp add: good_def get)
  then show ?thesis
    unfolding find_sender_def
    by (intro then_get) (cases "v k"; auto simp: assms(1) unwrap_or_default_def intro!: good_andthen elim!: good_mono)
qed

lemma wrong_nonce_refused:
  assumes k: "canonical_account_address (tx_sender tx) = Inr k" and n: "nonce_at k (pl_view s) \<noteq> tx_nonce tx"
  shows "\<exists>e. fst (apply_reserved L F (shared plain_host) call tx now k (s, w)) = Inl (e, 0)"
proof -
  obtain q s1 w1 where q: "find_sender (shared plain_host) tx k (s, w) = (q, (s1, w1))" by (metis prod.exhaust)
  note 1 = goodD(3) [OF sender_found [OF canonical_key(3,2) [OF k]] q refl]
  show ?thesis
  proof (cases q)
    case (Inl e)
    then show ?thesis using q by (simp add: apply_reserved_def with_fee_def)
  next
    case (Inr a)
    then show ?thesis using q 1 n by (simp add: apply_reserved_def with_fee_def nonce_at_def yields_def)
  qed
qed

text \<open>The same two facts behind the checks of structure, time and reservation.\<close>

lemma reserving_result:
  "reserving as m (s, w) = (r, sw) \<Longrightarrow>
     r = Inl (Reentrancy, 0) \<or> (\<exists>w2. m (s, w\<lparr>vo_processing := as @ vo_processing w\<rparr>) = (r, (fst sw, w2)))"
  by (auto simp: reserving_def split: prod.splits if_splits)

lemma apply_reaches:
  assumes "apply_transaction L F H call vs tx now (s, w) = (r, (s', w'))"
  shows "(\<exists>e. r = Inl (e, 0)) \<or>
    (\<exists>k as w2. canonical_account_address (tx_sender tx) = Inr k \<and>
       apply_reserved L F H call tx now k (s, w\<lparr>vo_processing := as @ vo_processing w\<rparr>) = (r, (s', w2)))"
proof (cases "reserved_addresses L tx")
  case (Inl e)
  then show ?thesis using assms by (auto simp: apply_transaction_def yields_def split: sum.splits if_splits)
next
  case (Inr ka)
  obtain k as where ka: "ka = (k, as)" by (cases ka)
  then have "canonical_account_address (tx_sender tx) = Inr k"
    using Inr by (auto simp: reserved_addresses_def try_then_Inr)
  then show ?thesis
    using assms Inr ka reserving_result [of as "apply_reserved L F H call tx now k" s w]
    by (auto simp: apply_transaction_def yields_def split: sum.splits if_splits)
qed

lemma apply_ended:
  assumes tx: "ordinary L tx" and k: "canonical_account_address (tx_sender tx) = Inr k" and s: "pl_saved s = None"
    and run: "apply_transaction L F (shared plain_host) call vs tx now (s, w) = (r, (s', w'))"
  shows "ended k (pl_view s) r (pl_view s')"
    and "nonce_at k (pl_view s) \<noteq> tx_nonce tx \<Longrightarrow> \<exists>e. r = Inl (e, 0)"
proof -
  consider e where "r = Inl (e, 0)" | w1 w2 where "apply_reserved L F (shared plain_host) call tx now k (s, w1) = (r, (s', w2))"
    using apply_reaches [OF run] k by force
  note cs = this
  show "ended k (pl_view s) r (pl_view s')"
    using cs by cases (auto intro: endsD [OF reserved_ends [OF tx k] _ s refl])
  show "\<exists>e. r = Inl (e, 0)" if n: "nonce_at k (pl_view s) \<noteq> tx_nonce tx"
    using cs by cases (blast, metis wrong_nonce_refused [OF k n] fst_conv)
qed

section \<open>On the state manager\<close>

lemma sub_balance_exact: "ac_sub_balance n a = Inr b \<Longrightarrow> n \<le> ac_balance a \<and> b = a\<lparr>ac_balance := ac_balance a - n\<rparr>"
  by (auto simp: ac_sub_balance_def checked_sub_def split: if_splits)

text \<open>The nonce is compared before the kind of the transaction matters, so this holds for every kind.\<close>

lemma wrong_nonce_refused_managed:
  assumes k: "canonical_account_address (tx_sender tx) = Inr k" and n: "nonce_at k (sm_view E s) \<noteq> tx_nonce tx"
    and s: "sm_sound E tid s" "sm_opened E tid s = None" and w: "producer_ok w"
  shows "\<exists>e. fst (apply_reserved L F (shared (manager_host E tid)) call tx now k (s, w)) = Inl (e, 0)"
proof -
  have keys: "account_key k" "account_key (tx_sender tx)"
    using canonical_account_key [OF k] validate_address_key [OF canonical_key(1) [OF k]] by simp_all
  obtain q s1 w1 where q: "find_sender (shared (manager_host E tid)) tx k (s, w) = (q, (s1, w1))" by (metis prod.exhaust)
  have "find_sender (shared plain_host) tx k (\<lparr>pl_view = sm_view E s, pl_saved = None\<rparr>, w) =
      (q, (\<lparr>pl_view = sm_view E s1, pl_saved = None\<rparr>, w1))"
    using managed.mirrors_txD [OF managed.mirrors_tx [OF managed.mirrors_sender [OF keys]], of E tid s w] s w q
    by (simp add: hosts managed.settled_def managed.plainly_def)
  note 1 = goodD(3) [OF sender_found [OF canonical_key(3,2) [OF k]] this refl]
  show ?thesis
  proof (cases q)
    case (Inl e)
    then show ?thesis using q by (simp add: apply_reserved_def with_fee_def)
  next
    case (Inr a)
    then show ?thesis using q 1 n by (simp add: apply_reserved_def with_fee_def nonce_at_def yields_def)
  qed
qed

text \<open>
  C5: A failed native transaction only pays its fee. An ordinary transaction (a native kind other than
  \<open>RegisterValidator\<close>, \<open>RotateConsensusKey\<close> and \<open>ApproveValidator\<close>, an amount that fits \<open>u128\<close>, a sender that
  is neither the liquidity pool nor the reward pool, and for \<open>SlashValidator\<close> a target that is an address)
  that fails with a fee above 0, after it was admitted, costs its sender exactly the fee it reports, and one
  nonce: the account at every other address, the pools included, is what it was, whatever the handler had
  already written. The state is the state manager's, with no checkpoint open, and the block producer's key
  is an account's.
\<close>

theorem failed_transaction_only_pays_its_fee:
  assumes "ordinary L tx" and "sm_sound E tid s" "sm_opened E tid s = None" "producer_ok w"
    and "apply_transaction L F (shared (manager_host E tid)) call vs tx now (s, w) = (Inl (e, fee), (s', w'))" "0 < fee"
  shows "let k = canonicalize (tx_sender tx); a = unwrap_or_default (sm_view E s k) in
    fee \<le> ac_balance a \<and>
    sm_view E s' k = Some (ac_increment_nonce (a\<lparr>ac_balance := ac_balance a - fee\<rparr>)) \<and>
    (\<forall>j. validate_address j \<longrightarrow> j \<noteq> k \<longrightarrow> sm_view E s' j = sm_view E s j)"
proof -
  have kind: "plain_kind (tx_kind tx)" using assms(1) by (simp add: ordinary_def)
  note run = managed_apply [OF assms(2-4) kind assms(5), where call' = "\<lambda>_ _ s. (Inl undefined, s)"]
  then obtain k where k: "canonical_account_address (tx_sender tx) = Inr k"
    using apply_reaches [OF assms(5)] assms(6) by auto
  have "charged_only k fee (sm_view E s) (sm_view E s')"
    using apply_ended(1) [OF assms(1) k _ run [THEN conjunct2, THEN conjunct2, THEN conjunct2]] assms(6)
    by (simp add: ended_def)
  then obtain b where b: "ac_sub_balance fee (unwrap_or_default (sm_view E s k)) = Inr b"
    and v: "same_purses ((sm_view E s)(k \<mapsto> ac_increment_nonce b)) (sm_view E s')"
    unfolding charged_only_def by blast
  have same: "sm_view E s' j = ((sm_view E s)(k \<mapsto> ac_increment_nonce b)) j" if "purse j" for j
    using v that by (simp add: same_purses_def)
  show ?thesis
    unfolding canonical_key(2) [OF k, symmetric] Let_def
    using sub_balance_exact [OF b] same [OF canonical_key(4) [OF k]] same by (simp add: purse_def)
qed

text \<open>
  C6: One nonce, one transaction: once an ordinary transaction (a native kind other than \<open>RegisterValidator\<close>,
  \<open>RotateConsensusKey\<close> and \<open>ApproveValidator\<close>, an amount that fits \<open>u128\<close>, a sender that is neither the
  liquidity pool nor the reward pool, and for \<open>SlashValidator\<close> a target that is an address) was executed or
  paid for its failure, no transaction of any kind, contract calls and the three excepted kinds included,
  with the same sender account and the same nonce is executed or charged on the state it left: neither the
  same transaction again nor another one. Below the largest nonce, where the counter saturates.
\<close>

theorem nonce_is_spent_once:
  assumes "ordinary L tx" and "sm_sound E tid s" "sm_opened E tid s = None" "producer_ok w"
    and "apply_transaction L F (shared (manager_host E tid)) call vs tx now (s, w) = (r, (s', w'))"
    and "case r of Inr _ \<Rightarrow> True | Inl (_, fee) \<Rightarrow> 0 < fee" and "tx_nonce tx < u64_max"
    and "canonicalize (tx_sender tx') = canonicalize (tx_sender tx)" "tx_nonce tx' = tx_nonce tx"
  shows "\<exists>e. fst (apply_transaction L F (shared (manager_host E tid)) call vs tx' now' (s', w')) = Inl (e, 0)"
proof -
  have kind: "plain_kind (tx_kind tx)" using assms(1) by (simp add: ordinary_def)
  let ?call = "\<lambda>_ _ s. (Inl undefined, s)"
  note run = managed_apply [OF assms(2-4) kind assms(5), where call' = ?call]
  obtain k where k: "canonical_account_address (tx_sender tx) = Inr k"
    using apply_reaches [OF assms(5)] assms(6) by auto
  note ended = apply_ended [OF assms(1) k _ run [THEN conjunct2, THEN conjunct2, THEN conjunct2], simplified]
  have before: "nonce_at k (sm_view E s) = tx_nonce tx"
    using ended(2) assms(6) by (cases "nonce_at k (sm_view E s) = tx_nonce tx") auto
  have "nonce_at k (sm_view E s') = next_nonce (tx_nonce tx)"
  proof (cases r)
    case (Inr g)
    then show ?thesis using ended(1) before by (simp add: ended_def)
  next
    case (Inl ef)
    obtain e fee where "ef = (e, fee)" by (cases ef)
    then obtain b where b: "ac_sub_balance fee (unwrap_or_default (sm_view E s k)) = Inr b"
      and v: "same_purses ((sm_view E s)(k \<mapsto> ac_increment_nonce b)) (sm_view E s')"
      using ended(1) assms(6) Inl by (auto simp: ended_def charged_only_def)
    have "nonce_at k (sm_view E s') = ac_nonce (ac_increment_nonce b)"
      using nonce_at_same [OF v canonical_key(4) [OF k]] by simp
    then show ?thesis
      using before charged_nonce [OF b] by (simp add: nonce_at_def ac_increment_nonce_def next_nonce_def)
  qed
  then have n: "nonce_at k (sm_view E s') \<noteq> tx_nonce tx'"
    using assms(7,9) by (simp add: next_nonce_def sat_add_def)
  obtain r2 s2 w2 where again: "apply_transaction L F (shared (manager_host E tid)) call vs tx' now' (s', w') = (r2, (s2, w2))"
    by (metis prod.exhaust)
  have ready: "producer_ok w'" "sm_sound E tid s'" "sm_opened E tid s' = None" using run by simp_all
  consider e where "r2 = Inl (e, 0)" | j as w2 where "canonical_account_address (tx_sender tx') = Inr j"
      "apply_reserved L F (shared (manager_host E tid)) call tx' now' j (s', w'\<lparr>vo_processing := as @ vo_processing w'\<rparr>) =
         (r2, (s2, w2))"
    using apply_reaches [OF again] by blast
  then show ?thesis
  proof cases
    case (2 j as w2)
    have "j = k" using canonical_key(2) [OF 2(1)] canonical_key(2) [OF k] assms(8) by simp
    moreover have "producer_ok (w'\<lparr>vo_processing := as @ vo_processing w'\<rparr>)" using ready(1) by (simp add: producer_ok_def)
    ultimately show ?thesis
      using wrong_nonce_refused_managed [OF 2(1) _ ready(2,3), of "w'\<lparr>vo_processing := as @ vo_processing w'\<rparr>" L F call now']
        n 2(2) again by simp
  qed (simp add: again)
qed

section \<open>Witnesses\<close>

text \<open>A transfer to the pool: admitted, refused by its handler, charged.\<close>

definition sample_refused :: transaction where
  "sample_refused = sample_transfer\<lparr>tx_receiver := LIQUIDITY_POOL_ADDRESS\<rparr>"

lemma refused_keys:
  "canonical_account_address alice = Inr alice" "canonical_account_address LIQUIDITY_POOL_ADDRESS = Inr LIQUIDITY_POOL_ADDRESS"
  "validate_address alice" "validate_address LIQUIDITY_POOL_ADDRESS" "alice \<noteq> LIQUIDITY_POOL_ADDRESS"
  "canonicalize LIQUIDITY_POOL_ADDRESS = LIQUIDITY_POOL_ADDRESS" "canonicalize GLOBAL_BLOCK_HEIGHT \<noteq> alice"
  by code_simp+

lemma refused_fields:
  "tx_kind sample_refused = Transfer" "tx_sender sample_refused = alice" "tx_receiver sample_refused = LIQUIDITY_POOL_ADDRESS"
  "tx_amount sample_refused = 3" "tx_nonce sample_refused = 0" "tx_gas_limit sample_refused = 1"
  "tx_gas_price sample_refused = 1" "tx_timestamp sample_refused = 0" "tx_payload sample_refused = []"
  "tx_chain_id sample_refused = CHAIN_ID"
  by (simp_all add: sample_refused_def sample_transfer_def)

definition sample_plain :: plain where
  "sample_plain = \<lparr>pl_view = [alice \<mapsto> account_new 200], pl_saved = None\<rparr>"

lemma refused_work:
  assumes "pl_view s = [alice \<mapsto> account_new 200]"
  shows "execute_transaction_inner sample_libs sample_config (shared plain_host) call sample_refused 0 (s, w) =
    (Inl (no_out, Other ''Havuz adresine transfer - swap''), (s, w))"
  using assms by (simp add: execute_transaction_inner_def read_sender_def chain_def tag_error_def runs andthen_cases refused_fields refused_keys
      alice_canonical account_new_def default_account_def required_balance_def exempt_mint_def is_bridge_mint_kind_def is_evm_tx_def
      sat_add_def sat_mul_def execute_native_def run_handler_def kept_def do_transfer_def)

lemma refused_reserved:
  "\<exists>e s' w'. apply_reserved sample_libs sample_config (shared plain_host) call sample_refused 0 alice (sample_plain, w) =
    (Inl (e, 1), (s', w'))"
proof -
  let ?s = "sample_plain\<lparr>pl_saved := Some (pl_view sample_plain)\<rparr>"
  let ?m = "checkpoint_work sample_libs sample_config call sample_refused 0 alice 1 0 0"
  have work: "?m (?s, w) = (Inl (no_out, Other ''Havuz adresine transfer - swap''), (?s, w))"
    using refused_work [of ?s call w] by (simp add: sample_plain_def checkpoint_work_def chain_def catch_panic_def)
  obtain r s1 w1 where fail: "settle_failure sample_libs (shared plain_host) sample_refused alice 1 0
      (no_out, Other ''Havuz adresine transfer - swap'') (sample_plain, w) = (r, (s1, w1))"
    by (metis prod.exhaust)
  obtain q s2 w2 where charge: "settle_failed_native_transaction (shared plain_host) alice 1 (sample_plain, w) = (q, (s2, w2))"
    by (metis prod.exhaust)
  have q: "q = Inr ()"
    using settle_failed_run [OF alice_canonical(1) _ charge]
    by (simp add: sample_plain_def ac_sub_balance_def checked_sub_def account_new_def unwrap_or_default_def)
  have r: "\<exists>e. r = Inl (e, 1)"
    using fail charge q by (auto simp: settle_failure_def Let_def chain_def failed_gas_def refused_fields is_evm_tx_def with_fee_def
        yields_def split: prod.splits sum.splits)
  have "run_in_checkpoint sample_libs sample_config (shared plain_host) call sample_refused 0 alice 1 0 0 (sample_plain, w) = (r, (s1, w1))"
    using bracket_run [where m = ?m and k = "\<lambda>gas. with_fee 0 (refresh_staking_index_after sample_libs (shared plain_host) sample_refused) (\<lambda>_. yields (Inr gas))"
        and l = "settle_failure sample_libs (shared plain_host) sample_refused alice 1 0" and s = sample_plain, OF _ work] fail
    by (simp add: run_in_checkpoint_def checkpoint_work_def sample_plain_def)
  moreover have "declared_fee sample_config (shared plain_host) sample_refused (sample_plain, w) = (Inr 1, (sample_plain, w))"
    by (simp add: declared_fee_def exempt_mint_def is_bridge_mint_kind_def refused_fields is_evm_tx_def andthen_cases d14_active_def
        current_block_height_for_rules_def attempt_def runs sample_plain_def refused_keys D14_RULES_ACTIVATION_HEIGHT_def)
  ultimately have "apply_reserved sample_libs sample_config (shared plain_host) call sample_refused 0 alice (sample_plain, w) = (r, (s1, w1))"
    by (simp add: apply_reserved_def with_fee_def find_sender_def andthen_cases runs alice_canonical refused_fields evm_extras_def
        is_evm_tx_def sample_plain_def account_new_def default_account_def sat_add_def)
  with r show ?thesis by auto
qed

lemma refused_charged:
  assumes "producer_ok w" "vo_processing w = []"
  shows "\<exists>e s' w'. apply_transaction sample_libs sample_config (shared (manager_host byte_env 0)) call (\<lambda>_. True) sample_refused 0
    (sample_store, w) = (Inl (e, 1), (s', w'))"
proof -
  let ?call = "\<lambda>_ _ s. (Inl undefined, s)"
  obtain r s' w' where run: "apply_transaction sample_libs sample_config (shared (manager_host byte_env 0)) call (\<lambda>_. True) sample_refused 0
    (sample_store, w) = (r, (s', w'))"
    by (metis prod.exhaust)
  have "plain_kind (tx_kind sample_refused)" by (simp add: refused_fields plain_kind_def is_evm_tx_def)
  note plain = managed_apply [OF sample_store_ready(1,2) assms(1) this run, where call' = ?call, THEN conjunct2, THEN conjunct2, THEN conjunct2]
  have valid: "tx_validate (\<lambda>_. True) sample_refused = Inr ()"
    by (simp add: tx_validate_def refused_fields refused_keys checks_amount_def TOTAL_SUPPLY_def MAX_SUPPLY_def TOKEN_DECIMAL_def)
  have addresses: "reserved_addresses sample_libs sample_refused = Inr (alice, [alice, LIQUIDITY_POOL_ADDRESS])"
    by (simp add: reserved_addresses_def refused_fields refused_keys action_target_def try_then_def)
  have "\<exists>e. r = Inl (e, 1)"
    using plain assms(2) refused_reserved [of ?call "w\<lparr>vo_processing := [alice, LIQUIDITY_POOL_ADDRESS]\<rparr>"]
    by (auto simp: apply_transaction_def valid addresses refused_fields abs_diff_def reserving_def sample_plain_def sample_store_ready)
  with run show ?thesis by auto
qed

lemma refused_ordinary: "ordinary sample_libs sample_refused"
  using sample_ordinary by (simp add: ordinary_def sample_refused_def sample_transfer_def)

lemma sample_vars_ready: "producer_ok sample_vars" "vo_processing sample_vars = []"
  using sample_store_ready(4) by (simp_all add: sample_vars_def)

lemma failed_transaction_only_pays_its_fee_witness:
  "\<exists>s'. sm_view byte_env s' alice = Some (ac_increment_nonce (account_new 199)) \<and> sm_view byte_env s' LIQUIDITY_POOL_ADDRESS = None"
proof -
  obtain e s' w' where "apply_transaction sample_libs sample_config (shared (manager_host byte_env 0)) (\<lambda>_ _ s. (Inl undefined, s)) (\<lambda>_. True)
      sample_refused 0 (sample_store, sample_vars) = (Inl (e, 1), (s', w'))"
    using refused_charged [OF sample_vars_ready] by blast
  from failed_transaction_only_pays_its_fee [OF refused_ordinary sample_store_ready(1,2,4) this]
  have "sm_view byte_env s' alice = Some (ac_increment_nonce (account_new 199)) \<and> sm_view byte_env s' LIQUIDITY_POOL_ADDRESS = None"
    by (simp add: refused_fields alice_canonical sample_store_ready unwrap_or_default_def account_new_def default_account_def refused_keys(4) refused_keys(5) [symmetric] Let_def)
  then show ?thesis by blast
qed

lemma nonce_is_spent_once_witness:
  "\<exists>s' w' e. fst (apply_transaction sample_libs sample_config (shared (manager_host byte_env 0)) (\<lambda>_ _ s. (Inl undefined, s)) (\<lambda>_. True)
      sample_transfer 0 (s', w')) = Inl (e, 0)"
proof -
  obtain e s' w' where "apply_transaction sample_libs sample_config (shared (manager_host byte_env 0)) (\<lambda>_ _ s. (Inl undefined, s)) (\<lambda>_. True)
      sample_refused 0 (sample_store, sample_vars) = (Inl (e, 1), (s', w'))"
    using refused_charged [OF sample_vars_ready] by blast
  from nonce_is_spent_once [OF refused_ordinary sample_store_ready(1,2,4) this, of sample_transfer 0] show ?thesis
    by (simp add: sample_refused_def sample_transfer_def plain_kind_def is_evm_tx_def) blast
qed

end
