(* ===== verification/Archive.thy ===== *)
theory Archive
  imports Host
begin

text \<open>
  The store's book-keeping of old blocks (\<open>crates/zagros-state/src/manager.rs\<close>): the list of a block's
  transactions, and the pruning of the receipts, bodies and headers of old blocks. Only keys that are not
  chain accounts are touched. bincode's code of a list of hashes is an argument.
\<close>

section \<open>Keys\<close>

definition block_receipts_key :: "nat \<Rightarrow> address" where
  "block_receipts_key block_number = ''__RCPT_BLOCK_'' @ decimal block_number @ ''__''"

definition prune_cursor_key :: address where
  "prune_cursor_key = ''__RCPT_PRUNE_CURSOR__''"

section \<open>The list of a block\<close>

definition code_account :: "bytes \<Rightarrow> account" where
  "code_account b = default_account\<lparr>ac_contract_code := b\<rparr>"

definition store_manifest ::
  "(hash list \<Rightarrow> bytes option) \<Rightarrow> 's setter \<Rightarrow> string \<Rightarrow> nat \<Rightarrow> hash list \<Rightarrow> ('s, unit) action" where
  "store_manifest ser put msg block_number tx_ids =
     (case ser tx_ids of
        None \<Rightarrow> stop (DatabaseError msg)
      | Some b \<Rightarrow> put (block_receipts_key block_number) (code_account b))"

definition record_block_receipts ::
  "(hash list \<Rightarrow> bytes option) \<Rightarrow> 's setter \<Rightarrow> nat \<Rightarrow> hash list \<Rightarrow> ('s, unit) action" where
  "record_block_receipts ser put block_number tx_ids =
     (if tx_ids = [] then give ()
      else store_manifest ser put ''Serialize hatasi (block receipts)'' block_number tx_ids)"

section \<open>Pruning\<close>

definition load_manifest ::
  "state_env \<Rightarrow> (bytes \<Rightarrow> hash list option) \<Rightarrow> nat \<Rightarrow> (state_manager, hash list) action" where
  "load_manifest E de cursor =
     andthen (sm_get_account E (block_receipts_key cursor)) (\<lambda>found.
       case found of
         None \<Rightarrow> give []
       | Some acc \<Rightarrow>
           if ac_contract_code acc = [] then give []
           else (case de (ac_contract_code acc) of
               None \<Rightarrow> stop (DatabaseError ''Bozuk blok dekont manifesti'')
             | Some tx_ids \<Rightarrow> give tx_ids))"

definition delete_transaction :: "(bytes \<Rightarrow> string) \<Rightarrow> hash \<Rightarrow> (state_manager, unit) action" where
  "delete_transaction hex i =
     andthen (hard_delete_key (receipt_key hex i)) (\<lambda>_. hard_delete_key (tx_body_key hex i))"

definition delete_block :: "state_env \<Rightarrow> (bytes \<Rightarrow> string) \<Rightarrow> nat \<Rightarrow> (state_manager, unit) action" where
  "delete_block E hex cursor =
     andthen (hard_delete_key (block_receipts_key cursor)) (\<lambda>_.
     andthen (sm_get_account E (block_key cursor)) (\<lambda>found.
     andthen (case found of
         None \<Rightarrow> give ()
       | Some header_acc \<Rightarrow>
           andthen (hard_delete_key (block_hash_key hex (sv_keccak E (ac_contract_code header_acc)))) (\<lambda>_.
             hard_delete_key (block_key cursor))) (\<lambda>_.
       hard_delete_key (consensus_block_key cursor))))"

text \<open>One block: the last transactions of its list first, as many as the batch still allows.\<close>

definition prune_block ::
  "state_env \<Rightarrow> thread \<Rightarrow> (hash list \<Rightarrow> bytes option) \<Rightarrow> (bytes \<Rightarrow> hash list option) \<Rightarrow> (bytes \<Rightarrow> string) \<Rightarrow>
     nat \<Rightarrow> nat \<Rightarrow> (state_manager, bool \<times> nat) action" where
  "prune_block E tid ser de hex room cursor =
     andthen (load_manifest E de cursor) (\<lambda>tx_ids.
       let left = length tx_ids - room;
           rest = take left tx_ids
       in andthen (each (delete_transaction hex) (rev (drop left tx_ids))) (\<lambda>_.
          let deleted = length tx_ids - left
          in if rest = [] then andthen (delete_block E hex cursor) (\<lambda>_. give (True, deleted))
             else andthen (store_manifest ser (sm_set_account E tid) ''Serialize hatasi (kalan manifest)'' cursor rest)
               (\<lambda>_. give (False, deleted))))"

text \<open>The loop over the blocks from the cursor up to the limit: where the cursor ends, and what was deleted.\<close>

fun prune_loop ::
  "state_env \<Rightarrow> thread \<Rightarrow> (hash list \<Rightarrow> bytes option) \<Rightarrow> (bytes \<Rightarrow> hash list option) \<Rightarrow> (bytes \<Rightarrow> string) \<Rightarrow>
     nat \<Rightarrow> nat list \<Rightarrow> nat \<Rightarrow> nat \<Rightarrow> (state_manager, nat \<times> nat) action" where
  "prune_loop E tid ser de hex batch_limit [] cursor deleted = give (cursor, deleted)"
| "prune_loop E tid ser de hex batch_limit (c # cs) cursor deleted =
     (if batch_limit \<le> deleted then give (cursor, deleted)
      else andthen (prune_block E tid ser de hex (batch_limit - deleted) c) (\<lambda>(whole, n).
        if whole then prune_loop E tid ser de hex batch_limit cs (c + 1) (deleted + n)
        else give (c, deleted + n)))"

definition prune_historical_data ::
  "state_env \<Rightarrow> thread \<Rightarrow> (hash list \<Rightarrow> bytes option) \<Rightarrow> (bytes \<Rightarrow> hash list option) \<Rightarrow> (bytes \<Rightarrow> string) \<Rightarrow>
     nat \<Rightarrow> nat \<Rightarrow> (state_manager, nat) action" where
  "prune_historical_data E tid ser de hex prune_before_block batch_limit =
     (if batch_limit = 0 then give 0
      else andthen (sm_get_account E prune_cursor_key) (\<lambda>found.
        let cursor = max (case found of None \<Rightarrow> 0 | Some a \<Rightarrow> as_u64 (ac_balance a)) 1
        in andthen (prune_loop E tid ser de hex batch_limit [cursor..<prune_before_block] cursor 0) (\<lambda>(cursor, deleted).
           andthen (sm_set_account E tid prune_cursor_key (default_account\<lparr>ac_balance := cursor\<rparr>)) (\<lambda>_.
             give deleted))))"

end
