(* ===== verification/Scheduler.thy ===== *)
theory Scheduler
  imports Samples "HOL-Library.Multiset"
begin

text \<open>
  \<open>zagros-scheduler\<close>: the split of a block's transactions into those that run in parallel and those that
  run one after the other, and their execution. The parallel ones are run by \<open>rayon\<close> in an order nobody
  fixes: the argument \<open>interleave\<close> picks it, each transaction being one step.
\<close>

section \<open>What a transaction locks\<close>

definition RECENT_TRANSFERS_ADDRESS :: address where
  "RECENT_TRANSFERS_ADDRESS = ''__RECENT_TRANSFERS_NEXT_INDEX__''"

definition CLASSIFY_LOCK_ACTIVATION_HEIGHT :: nat where
  "CLASSIFY_LOCK_ACTIVATION_HEIGHT = 811"

definition touches_pool :: "tx_type \<Rightarrow> bool" where
  "touches_pool k \<longleftrightarrow> k \<in> {SwapBuy, SwapSell, BridgeMint, BridgeMintAndSwap, BridgeBurn, BridgeSwapAndBurn}"

definition touches_staking_accounting :: "bool \<Rightarrow> tx_type \<Rightarrow> bool" where
  "touches_staking_accounting d14 k \<longleftrightarrow>
     k \<in> {StakeZagros, UnstakeZagros, ClaimReward, SlashValidator, ReportMalicious, ApproveValidator} \<or>
     (d14 \<and> k = SubmitProposal)"

text \<open>Only what looks like an address is brought to lower case.\<close>

definition lock_token :: "address \<Rightarrow> address" where
  "lock_token a = (if length a = 42 \<and> (starts_with a ''0x'' \<or> starts_with a ''0X'') then to_ascii_lowercase a else a)"

definition touched_addresses_at :: "'m validator_libs_scheme \<Rightarrow> transaction \<Rightarrow> bool \<Rightarrow> address list" where
  "touched_addresses_at L tx d14 =
     (let k = tx_kind tx;
          addresses =
            [tx_sender tx, tx_receiver tx]
            @ (case validator_action_target (lv_de_admin L) k (tx_payload tx) of None \<Rightarrow> [] | Some target \<Rightarrow> [target])
            @ (if is_evm_tx k \<or> touches_pool k
               then [LIQUIDITY_POOL_ADDRESS, VALIDATOR_REWARD_POOL] @ (if is_evm_tx k then [RECENT_TRANSFERS_ADDRESS] else [])
               else [])
            @ (if k = Vote \<and> 32 \<le> length (tx_payload tx) then [''Proposal_'' @ lb_hex L (take 32 (tx_payload tx))] else [])
            @ (if k = SubmitProposal then [''Proposal_'' @ lb_hex L (tx_id tx), ACTIVE_PROPOSAL_COUNT_KEY] else [])
            @ (if touches_staking_accounting d14 k then [VALIDATOR_REWARD_POOL, GLOBAL_TOTAL_STAKED] else [])
            @ (if k = SlashValidator
               then [slash_target_address (lb_from_utf8 L) (lb_hex L) (tx_receiver tx) (tx_payload tx)] else [])
      in if d14 then map lock_token addresses else addresses)"

section \<open>The two groups\<close>

text \<open>The loop over the block, with the accounts locked so far.\<close>

fun classify_loop ::
  "'m validator_libs_scheme \<Rightarrow> bool \<Rightarrow> bool \<Rightarrow> address set \<Rightarrow> transaction list \<Rightarrow> transaction list \<times> transaction list" where
  "classify_loop L lock_conflicting d14 locked [] = ([], [])"
| "classify_loop L lock_conflicting d14 locked (tx # txs) =
     (let touched = touched_addresses_at L tx d14
      in if is_evm_tx (tx_kind tx)
         then (let locked = (if d14 then locked \<union> set touched else locked);
                   (independent, conflicting) = classify_loop L lock_conflicting d14 locked txs
               in (independent, tx # conflicting))
         else if \<exists>a \<in> set touched. a \<in> locked
         then (let locked = (if lock_conflicting then locked \<union> set touched else locked);
                   (independent, conflicting) = classify_loop L lock_conflicting d14 locked txs
               in (independent, tx # conflicting))
         else (let (independent, conflicting) = classify_loop L lock_conflicting d14 (locked \<union> set touched) txs
               in (tx # independent, conflicting)))"

definition classify_at_rules ::
  "'m validator_libs_scheme \<Rightarrow> transaction list \<Rightarrow> bool \<Rightarrow> bool \<Rightarrow> transaction list \<times> transaction list" where
  "classify_at_rules L transactions lock_conflicting d14 = classify_loop L lock_conflicting d14 {} transactions"

section \<open>Running a block\<close>

text \<open>An error is logged and counted; the batch goes on.\<close>

fun count_successes :: "('x \<Rightarrow> ('s, unit) action) \<Rightarrow> 'x list \<Rightarrow> nat \<Rightarrow> ('s, nat) action" where
  "count_successes exec [] n = give n"
| "count_successes exec (tx # txs) n =
     andthen (attempt (exec tx)) (\<lambda>outcome. count_successes exec txs (case outcome of None \<Rightarrow> n | Some _ \<Rightarrow> n + 1))"

definition execute_batch ::
  "'m native_libs_scheme \<Rightarrow> exec_config \<Rightarrow> ('s \<times> volatile) host \<Rightarrow> 's evm_call \<Rightarrow> (transaction \<Rightarrow> bool) \<Rightarrow>
     (transaction list \<Rightarrow> transaction list) \<Rightarrow> transaction list \<Rightarrow> nat \<Rightarrow> ('s \<times> volatile, nat \<times> nat) action" where
  "execute_batch L F H call verify_signature interleave transactions now =
     (if transactions = [] then give (0, 0)
      else andthen (current_block_height_for_rules H) (\<lambda>height.
        let (independent, conflicting) = classify_at_rules L transactions
              (CLASSIFY_LOCK_ACTIVATION_HEIGHT \<le> height) (D14_RULES_ACTIVATION_HEIGHT \<le> height);
            exec = (\<lambda>tx. execute_transaction L F H call verify_signature tx now)
        in andthen (count_successes exec (interleave independent) 0) (\<lambda>success_count.
           andthen (count_successes exec conflicting 0) (\<lambda>fallback_success.
             give (success_count + fallback_success,
               (length independent - success_count) + (length conflicting - fallback_success))))))"

section \<open>Every account sees the block's order\<close>

definition touches :: "'m validator_libs_scheme \<Rightarrow> address \<Rightarrow> transaction \<Rightarrow> bool" where
  "touches L a tx \<longleftrightarrow> a \<in> set (touched_addresses_at L tx True)"

lemma classify_loop_mset:
  "classify_loop L lc d locked txs = (ind, con) \<Longrightarrow> mset ind + mset con = mset txs"
  by (induction L lc d locked txs arbitrary: ind con rule: classify_loop.induct)
    (auto simp: Let_def split: if_splits prod.splits)

text \<open>A locked account sees only the second group; another at most one transaction of the first, and first.\<close>

lemma classify_loop_order:
  assumes "classify_loop L True True locked txs = (ind, con)"
  shows "(if a \<in> locked then filter (touches L a) ind = [] else length (filter (touches L a) ind) \<le> 1) \<and>
    filter (touches L a) ind @ filter (touches L a) con = filter (touches L a) txs"
  using assms
proof (induction txs arbitrary: locked ind con)
  case (Cons tx txs)
  let ?locked = "locked \<union> set (touched_addresses_at L tx True)"
  obtain i c where rest: "classify_loop L True True ?locked txs = (i, c)" by fastforce
  note IH = Cons.IH [OF rest]
  show ?case
  proof (cases "is_evm_tx (tx_kind tx) \<or> (\<exists>b \<in> set (touched_addresses_at L tx True). b \<in> locked)")
    case True
    then have "ind = i \<and> con = tx # c" using Cons.prems rest by (auto simp: Let_def split: if_splits)
    then show ?thesis using IH by (auto simp: touches_def split: if_splits)
  next
    case False
    then have "ind = tx # i \<and> con = c" using Cons.prems rest by (auto simp: Let_def split: if_splits)
    then show ?thesis using IH False by (auto simp: touches_def split: if_splits)
  qed
qed simp

lemma short_permutation: "mset xs = mset ys \<Longrightarrow> length ys \<le> 1 \<Longrightarrow> xs = ys"
  by (cases ys) auto

subsection \<open>What the handlers write\<close>

text \<open>
  The keys the handler of each kind writes, read off the handlers and not off the scheduler's list:
  accounts under their canonical key, the pool, the volume window, the counters. Not in it is what the
  fee of every transaction adds to (the reward pool's balance, the reward per share, the account of the
  block's producer), the registries of validators and proposals, and the accounts a contract writes
  beyond its caller and callee.
\<close>

definition account_keys :: "address list \<Rightarrow> address set" where
  "account_keys as = to_ascii_lowercase ` {a \<in> set as. validate_address a}"

definition swap_keys :: "address set" where
  "swap_keys = {LIQUIDITY_POOL_ADDRESS, swap_volume_tracker_key, VALIDATOR_REWARD_POOL}"

definition stake_keys :: "address set" where
  "stake_keys = {VALIDATOR_REWARD_POOL, GLOBAL_TOTAL_STAKED}"

definition burn_keys :: "address set" where
  "burn_keys = {bridge_backed_zerenya_key, recent_bridge_burns_key, recent_bridge_burns_next_index_key}"

definition slash_keys :: "address set" where
  "slash_keys = {slash_history_key, slash_history_next_index_key}"

definition handler_keys :: "'m validator_libs_scheme \<Rightarrow> transaction \<Rightarrow> address set" where
  "handler_keys L tx = account_keys [tx_sender tx] \<union>
     (case tx_kind tx of
        Transfer \<Rightarrow> account_keys [tx_receiver tx]
      | SwapBuy \<Rightarrow> swap_keys
      | SwapSell \<Rightarrow> swap_keys
      | StakeZagros \<Rightarrow> stake_keys
      | UnstakeZagros \<Rightarrow> stake_keys
      | ClaimReward \<Rightarrow> stake_keys
      | SlashValidator \<Rightarrow> stake_keys \<union> slash_keys \<union>
          account_keys [slash_target_address (lb_from_utf8 L) (lb_hex L) (tx_receiver tx) (tx_payload tx)]
      | ReportMalicious \<Rightarrow> stake_keys \<union> slash_keys \<union> {used_slashing_proofs_key} \<union>
          account_keys [tx_receiver tx]
      | RegisterValidator \<Rightarrow> {}
      | UnregisterValidator \<Rightarrow> {}
      | RotateConsensusKey \<Rightarrow> {}
      | ApproveValidator \<Rightarrow> {VALIDATOR_REWARD_POOL} \<union>
          set_option (validator_action_target (lv_de_admin L) (tx_kind tx) (tx_payload tx))
      | RemoveValidator \<Rightarrow> set_option (validator_action_target (lv_de_admin L) (tx_kind tx) (tx_payload tx))
      | BridgeMint \<Rightarrow> {bridge_backed_zerenya_key} \<union> account_keys [tx_receiver tx]
      | BridgeMintAndSwap \<Rightarrow> {bridge_backed_zerenya_key} \<union> swap_keys \<union> account_keys [tx_receiver tx]
      | BridgeBurn \<Rightarrow> burn_keys
      | BridgeSwapAndBurn \<Rightarrow> burn_keys \<union> swap_keys
      | SubmitProposal \<Rightarrow> {proposal_key L (tx_id tx), ACTIVE_PROPOSAL_COUNT_KEY, VALIDATOR_REWARD_POOL}
      | Vote \<Rightarrow> (if length (tx_payload tx) = 33 then {proposal_key L (take 32 (tx_payload tx))} else {})
      | DeployContract \<Rightarrow> {}
      | CallContract \<Rightarrow> swap_keys \<union> burn_keys \<union> account_keys [tx_receiver tx]
      | ContractCall _ \<Rightarrow> swap_keys \<union> burn_keys \<union> account_keys [tx_receiver tx])"

text \<open>
  The lock token that keeps a key in order: mostly its own, but the volume window and the bridge's
  counters stand behind the pool's, the book of slashings behind the reward pool's.
\<close>

definition guard_token :: "address \<Rightarrow> address" where
  "guard_token k =
     (if k = swap_volume_tracker_key \<or> k \<in> burn_keys then LIQUIDITY_POOL_ADDRESS
      else if k \<in> slash_keys \<or> k = used_slashing_proofs_key then VALIDATOR_REWARD_POOL else lock_token k)"

lemma hd_lower: "validate_address a \<Longrightarrow> hd (to_ascii_lowercase a) = CHR ''0''"
  by (cases a) (auto simp: validate_address_def to_ascii_lowercase_def ascii_lower_def split: if_splits)

lemma lock_token_account: "validate_address a \<Longrightarrow> lock_token a = to_ascii_lowercase a"
  by (auto simp: lock_token_def validate_address_def starts_with_def numeral_2_eq_2 split: if_splits)

lemma lock_token_lower:
  assumes "validate_address a"
  shows "lock_token (to_ascii_lowercase a) = to_ascii_lowercase a"
  by (simp add: lock_token_def)

lemma guard_account:
  assumes "validate_address a"
  shows "guard_token (to_ascii_lowercase a) = lock_token a"
proof -
  have "to_ascii_lowercase a \<noteq> k" if "hd k = CHR ''_''" for k
    using hd_lower [OF assms] that by auto
  then have "guard_token (to_ascii_lowercase a) = lock_token (to_ascii_lowercase a)"
    by (simp add: guard_token_def burn_keys_def slash_keys_def swap_volume_tracker_key_def
        bridge_backed_zerenya_key_def recent_bridge_burns_key_def recent_bridge_burns_next_index_key_def
        slash_history_key_def slash_history_next_index_key_def used_slashing_proofs_key_def)
  then show ?thesis by (simp only: lock_token_lower [OF assms] lock_token_account [OF assms])
qed

lemma guarded_account: "k \<in> account_keys as \<Longrightarrow> guard_token k \<in> lock_token ` set as"
  by (auto simp: account_keys_def guard_account)

lemmas guard_table = swap_volume_tracker_key_def bridge_backed_zerenya_key_def recent_bridge_burns_key_def
  recent_bridge_burns_next_index_key_def slash_history_key_def slash_history_next_index_key_def
  used_slashing_proofs_key_def LIQUIDITY_POOL_ADDRESS_def VALIDATOR_REWARD_POOL_def GLOBAL_TOTAL_STAKED_def
  ACTIVE_PROPOSAL_COUNT_KEY_def

lemma pools_keep_their_token:
  "lock_token LIQUIDITY_POOL_ADDRESS = LIQUIDITY_POOL_ADDRESS" "lock_token VALIDATOR_REWARD_POOL = VALIDATOR_REWARD_POOL"
  by code_simp+

lemma guard_shared:
  "k \<in> swap_keys \<Longrightarrow> guard_token k \<in> {lock_token LIQUIDITY_POOL_ADDRESS, lock_token VALIDATOR_REWARD_POOL}"
  "k \<in> burn_keys \<Longrightarrow> guard_token k = lock_token LIQUIDITY_POOL_ADDRESS"
  "k \<in> slash_keys \<Longrightarrow> guard_token k = lock_token VALIDATOR_REWARD_POOL"
  "k \<in> stake_keys \<Longrightarrow> guard_token k \<in> {lock_token VALIDATOR_REWARD_POOL, lock_token GLOBAL_TOTAL_STAKED}"
  "guard_token used_slashing_proofs_key = lock_token VALIDATOR_REWARD_POOL"
  "guard_token bridge_backed_zerenya_key = lock_token LIQUIDITY_POOL_ADDRESS"
  "guard_token VALIDATOR_REWARD_POOL = lock_token VALIDATOR_REWARD_POOL"
  "guard_token ACTIVE_PROPOSAL_COUNT_KEY = lock_token ACTIVE_PROPOSAL_COUNT_KEY"
  by (auto simp: swap_keys_def burn_keys_def slash_keys_def stake_keys_def guard_token_def pools_keep_their_token)
    (auto simp: guard_table)

lemma guard_proposal: "guard_token (''Proposal_'' @ xs) = lock_token (''Proposal_'' @ xs)"
  by (simp add: guard_token_def burn_keys_def slash_keys_def guard_table)

lemma guard_target:
  "validator_action_target d kind payload = Some t \<Longrightarrow> guard_token t = lock_token t"
  by (auto simp: validator_action_target_def admin_payload_decode_def guard_account lock_token_account lock_token_lower
      split: if_splits option.splits sum.splits)

text \<open>Whatever a handler writes, the scheduler's list for the transaction has the token of it.\<close>

lemma handler_keys_guarded: "k \<in> handler_keys L tx \<Longrightarrow> touches L (guard_token k) tx"
proof -
  assume k: "k \<in> handler_keys L tx"
  have tok: "touches L t tx \<longleftrightarrow> t \<in> set (touched_addresses_at L tx True)" for t by (simp add: touches_def)
  have own: "guard_token k \<in> lock_token ` {tx_sender tx, tx_receiver tx} \<Longrightarrow> touches L (guard_token k) tx"
    unfolding tok touched_addresses_at_def by (auto simp: Let_def)
  note names = guarded_account [of k] guard_shared guard_proposal guard_target
  show ?thesis
  proof (cases "k \<in> account_keys [tx_sender tx]")
    case True
    then show ?thesis using own guarded_account by fastforce
  next
    case False
    show ?thesis
      using k False own guarded_account [of k "[tx_receiver tx]"]
        guarded_account [of k "[slash_target_address (lb_from_utf8 L) (lb_hex L) (tx_receiver tx) (tx_payload tx)]"]
        guard_shared(1-4) [of k] guard_target
      by (cases "tx_kind tx")
        (auto simp: handler_keys_def tok touched_addresses_at_def Let_def touches_pool_def
          touches_staking_accounting_def is_evm_tx_def guard_shared(5-) guard_proposal [unfolded append.simps] proposal_key_def
          split: if_splits)
  qed
qed

text \<open>
  C14: Whatever order the parallel transactions are run in, the block's order is kept wherever the rules in
  force (from height 9400 on) name a key: the split neither loses nor doubles a transaction; for every lock
  token the transactions that name it run in the order in which the block lists them; and for every key
  that the handlers of the native kinds write by themselves (the accounts of sender, receiver and target
  under their canonical key, the pool, the volume window, the total stake, the reward pool, the bridge's and
  the slashing books, a proposal and the proposal counter) so do the transactions whose handlers write it.
  Not covered is what no token stands for: the fee shares every transaction ends with, the registry of
  validators (\<open>producer_and_registry_are_not_locked\<close>), and accounts a contract reaches on its own.
\<close>

theorem every_account_keeps_block_order:
  assumes "classify_at_rules L txs True True = (independent, conflicting)" and "mset order = mset independent"
  shows "mset (order @ conflicting) = mset txs \<and>
    filter (touches L a) (order @ conflicting) = filter (touches L a) txs \<and>
    filter (\<lambda>tx. k \<in> handler_keys L tx) (order @ conflicting) = filter (\<lambda>tx. k \<in> handler_keys L tx) txs"
proof -
  note run = assms(1) [unfolded classify_at_rules_def]
  have same: "filter (touches L b) (order @ conflicting) = filter (touches L b) txs" for b
  proof -
    note split = classify_loop_order [OF run, of b]
    have "mset (filter (touches L b) order) = mset (filter (touches L b) independent)" using assms(2) by simp
    then have "filter (touches L b) order = filter (touches L b) independent"
      using split by (intro short_permutation) auto
    then show ?thesis using split by simp
  qed
  have "filter (\<lambda>tx. k \<in> handler_keys L tx) xs =
      filter (\<lambda>tx. k \<in> handler_keys L tx) (filter (touches L (guard_token k)) xs)" for xs
    unfolding filter_filter by (rule filter_cong) (auto intro: handler_keys_guarded)
  then have "filter (\<lambda>tx. k \<in> handler_keys L tx) (order @ conflicting) = filter (\<lambda>tx. k \<in> handler_keys L tx) txs"
    using same by metis
  moreover have "mset (order @ conflicting) = mset txs"
    using classify_loop_mset [OF run] assms(2) by simp
  ultimately show ?thesis using same by blast
qed

section \<open>What the two groups miss\<close>

definition carol :: address where
  "carol = ''0x3333333333333333333333333333333333333333''"

definition dave :: address where
  "dave = ''0x4444444444444444444444444444444444444444''"

definition sample_tx :: "tx_type \<Rightarrow> address \<Rightarrow> address \<Rightarrow> nat \<Rightarrow> transaction" where
  "sample_tx k a b n = sample_transfer\<lparr>tx_kind := k, tx_sender := a, tx_receiver := b, tx_nonce := n\<rparr>"

lemma sample_tokens:
  "lock_token alice = alice" "lock_token bob = bob" "lock_token carol = carol" "lock_token dave = dave"
  "lock_token LIQUIDITY_POOL_ADDRESS = LIQUIDITY_POOL_ADDRESS" "lock_token VALIDATOR_REWARD_POOL = VALIDATOR_REWARD_POOL"
  by code_simp+

lemma sample_distinct:
  "distinct [alice, bob, carol, dave, LIQUIDITY_POOL_ADDRESS, VALIDATOR_REWARD_POOL]"
  by code_simp

lemma sample_touched:
  "touched_addresses_at sample_libs (sample_tx Transfer a b n) True = [lock_token a, lock_token b]"
  "touched_addresses_at sample_libs (sample_tx RegisterValidator a b n) True = [lock_token a, lock_token b]"
  "touched_addresses_at sample_libs (sample_tx SwapBuy a b n) True =
     [lock_token a, lock_token b, lock_token LIQUIDITY_POOL_ADDRESS, lock_token VALIDATOR_REWARD_POOL]"
  by (simp_all add: touched_addresses_at_def sample_tx_def validator_action_target_def is_evm_tx_def touches_pool_def
      touches_staking_accounting_def)

lemma sample_kind: "tx_kind (sample_tx k a b n) = k"
  by (simp add: sample_tx_def)

lemmas classify_sample = classify_at_rules_def sample_touched sample_tokens sample_kind is_evm_tx_def

lemma sample_classified:
  "classify_at_rules sample_libs
     [sample_tx Transfer alice bob 0, sample_tx Transfer alice carol 1, sample_tx SwapBuy dave dave 0] True True =
   ([sample_tx Transfer alice bob 0, sample_tx SwapBuy dave dave 0], [sample_tx Transfer alice carol 1])"
  using sample_distinct by (auto simp: classify_sample)

lemma every_account_keeps_block_order_witness:
  "filter (touches sample_libs alice)
      ([sample_tx SwapBuy dave dave 0, sample_tx Transfer alice bob 0] @ [sample_tx Transfer alice carol 1]) =
    filter (touches sample_libs alice)
      [sample_tx Transfer alice bob 0, sample_tx Transfer alice carol 1, sample_tx SwapBuy dave dave 0]"
  using every_account_keeps_block_order [OF sample_classified, of "[sample_tx SwapBuy dave dave 0, sample_tx Transfer alice bob 0]" alice]
  by simp

text \<open>
  Every reward distribution credits the block producer's own account, but no transaction locks it: a
  transfer sent by the producer and a swap by someone else, whose fee is distributed, are both put in the
  parallel group. The same holds for two registrations, each of which reads all the accounts of registered
  validators to see that its key is new and writes only its own.
\<close>

theorem producer_and_registry_are_not_locked:
  "classify_at_rules sample_libs [sample_tx Transfer alice bob 0, sample_tx SwapBuy dave dave 0] True True =
     ([sample_tx Transfer alice bob 0, sample_tx SwapBuy dave dave 0], []) \<and>
   classify_at_rules sample_libs [sample_tx RegisterValidator alice bob 0, sample_tx RegisterValidator carol dave 0] True True =
     ([sample_tx RegisterValidator alice bob 0, sample_tx RegisterValidator carol dave 0], [])"
  using sample_distinct by (auto simp: classify_sample)

end
