(* ===== verification/Runtime.thy ===== *)
theory Runtime
  imports Archive Scheduler Epoch
begin

text \<open>
  \<open>zagros-runtime\<close>: the execution of a block. The body is an action on any host, because the node runs
  it twice: on a simulation overlay, to propose a state root or to vote for one, and on the store, to
  commit. A \<open>block_store\<close> is what the body asks of the \<open>State\<close> trait beside the host. Log lines and the
  snapshot hook are left out; \<open>interleave\<close> is the order of the parallel transactions.
\<close>

section \<open>Records and keys\<close>

record archived_block_header =
  ah_number :: nat
  ah_parent_hash :: hash
  ah_state_root :: hash
  ah_timestamp :: nat
  ah_tx_hashes :: "hash list"

record runtime_libs = native_libs +
  lt_ser_header :: "archived_block_header \<Rightarrow> bytes option"

record pruning_config =
  pc_retention_blocks :: "nat option"
  pc_interval_blocks :: nat
  pc_batch_limit :: nat

definition default_pruning :: pruning_config where
  "default_pruning = \<lparr>pc_retention_blocks = None, pc_interval_blocks = 10000, pc_batch_limit = 5000\<rparr>"

record 's block_store =
  bs_host :: "'s host"
  bs_state_root :: "('s, hash) action"
  bs_record_receipts :: "nat \<Rightarrow> hash list \<Rightarrow> ('s, unit) action"
  bs_genesis_bytes :: "('s, bytes option) action"

text \<open>What does not change while blocks are run.\<close>

record runtime =
  rn_config :: exec_config
  rn_verify :: "transaction \<Rightarrow> bool"
  rn_interleave :: "transaction list \<Rightarrow> transaction list"
  rn_supported_ruleset :: nat
  rn_pruning :: pruning_config

definition GLOBAL_TOTAL_TX :: address where
  "GLOBAL_TOTAL_TX = ''__GLOBAL_TOTAL_TX__''"

section \<open>Trackers\<close>

definition write_block_height :: "'s host \<Rightarrow> nat \<Rightarrow> ('s, unit) action" where
  "write_block_height H block_height =
     andthen (h_get H GLOBAL_BLOCK_HEIGHT) (\<lambda>found.
       h_put H GLOBAL_BLOCK_HEIGHT ((unwrap_or_default found)\<lparr>ac_balance := block_height\<rparr>))"

definition current_block_height :: "'s host \<Rightarrow> ('s, nat) action" where
  "current_block_height H =
     andthen (h_get H GLOBAL_BLOCK_HEIGHT) (\<lambda>found. give (ac_balance (unwrap_or_default found)))"

definition add_total_tx :: "'s host \<Rightarrow> nat \<Rightarrow> ('s, unit) action" where
  "add_total_tx H n =
     (if n = 0 then give ()
      else andthen (h_get H GLOBAL_TOTAL_TX) (\<lambda>found.
        let tracker = unwrap_or_default found
        in h_put H GLOBAL_TOTAL_TX (tracker\<lparr>ac_balance := sat_add u128_max (ac_balance tracker) n\<rparr>)))"

section \<open>The archive\<close>

definition archive_dropped_transactions ::
  "'m executor_libs_scheme \<Rightarrow> 's host \<Rightarrow> transaction list \<Rightarrow> ('s, unit) action" where
  "archive_dropped_transactions L H transactions =
     each (\<lambda>tx. andthen (h_get H (tx_body_key (lb_hex L) (tx_id tx))) (\<lambda>found.
       if (case found of None \<Rightarrow> False | Some a \<Rightarrow> ac_contract_code a \<noteq> []) then give ()
       else archive_dropped_transaction L H tx)) transactions"

definition parent_block_hash_in ::
  "'m libs_scheme \<Rightarrow> 's block_store \<Rightarrow> ('s \<times> volatile) host \<Rightarrow> nat \<Rightarrow> ('s \<times> volatile, hash) action" where
  "parent_block_hash_in L B H block_number =
     (if block_number \<le> 1
      then andthen (on_store (bs_genesis_bytes B)) (\<lambda>found.
        give (case found of Some bytes \<Rightarrow> keccak (lb_crypto L) bytes | None \<Rightarrow> NIL_HASH))
      else andthen (h_get H (block_key (block_number - 1))) (\<lambda>found.
        give (case found of Some acc \<Rightarrow> keccak (lb_crypto L) (ac_contract_code acc) | None \<Rightarrow> NIL_HASH)))"

definition archive_keys :: "'m libs_scheme \<Rightarrow> nat \<Rightarrow> hash \<Rightarrow> transaction list \<Rightarrow> address list" where
  "archive_keys L block_number block_hash transactions =
     [block_key block_number, block_hash_key (lb_hex L) block_hash]
     @ concat (map (\<lambda>tx. [receipt_key (lb_hex L) (tx_id tx), tx_body_key (lb_hex L) (tx_id tx)]) transactions)"

text \<open>The header of the executed block, under its number and, as an index, under its hash.\<close>

definition archive_header ::
  "'m runtime_libs_scheme \<Rightarrow> 's host \<Rightarrow> archived_block_header \<Rightarrow> ('s, hash) action" where
  "archive_header L H header =
     (case lt_ser_header L header of
        None \<Rightarrow> stop (DatabaseError ''ArchivedBlockHeader serialize hatasi'')
      | Some header_bytes \<Rightarrow>
          let block_hash = keccak (lb_crypto L) header_bytes
          in andthen (h_put H (block_key (ah_number header)) (code_account header_bytes)) (\<lambda>_.
             andthen (h_put H (block_hash_key (lb_hex L) block_hash)
               (default_account\<lparr>ac_balance := ah_number header\<rparr>)) (\<lambda>_.
               give block_hash)))"

section \<open>The body of a block\<close>

text \<open>
  The producer of the block. A node that does not know the rules in force stops; the index must lie in the
  set of the epoch.
\<close>

definition set_block_producer_for_block :: "address \<Rightarrow> ('s \<times> volatile, unit) action" where
  "set_block_producer_for_block a = change_var (\<lambda>w. w\<lparr>vo_block_producer := a\<rparr>)"

definition settle_producer ::
  "'m libs_scheme \<Rightarrow> ('s \<times> volatile) host \<Rightarrow> nat \<Rightarrow> (nat \<times> nat \<times> nat) option \<Rightarrow> ('s \<times> volatile, unit) action" where
  "settle_producer L H supported_ruleset proposer =
     (case proposer of
        None \<Rightarrow> give ()
      | Some (epoch, idx, max_ruleset) \<Rightarrow>
          andthen (load_chain_params L H) (\<lambda>params.
            if supported_ruleset < p_active_ruleset params
            then stop (Other ''active_ruleset desteklenmiyor'')
            else andthen (load_validator_set_at_epoch L H epoch) (\<lambda>vset.
              if length (vs_members vset) \<le> idx
              then stop (Other ''proposer_idx kumesinin disinda'')
              else let entry = vs_members vset ! idx
                in andthen (set_block_producer_for_block (m_address entry)) (\<lambda>_.
                   record_ruleset_declaration H (m_address entry) max_ruleset))))"

definition run_transactions ::
  "'m native_libs_scheme \<Rightarrow> ('s \<times> volatile) host \<Rightarrow> runtime \<Rightarrow> 's evm_call \<Rightarrow> nat \<Rightarrow> transaction list \<Rightarrow> ('s \<times> volatile, unit) action" where
  "run_transactions L H N call block_timestamp transactions =
     andthen (execute_batch L (rn_config N) H call (rn_verify N) (rn_interleave N) transactions block_timestamp)
       (\<lambda>(success_count, _).
     andthen (archive_dropped_transactions L H transactions) (\<lambda>_.
     andthen (flush_block_rewards L H block_timestamp) (\<lambda>_.
     andthen (flush_recent_transfer_index H) (\<lambda>_.
       add_total_tx H success_count))))"

text \<open>What the certificate of the parent block brings: liveness, shadow votes, and the end of an epoch.\<close>

definition count_certificate ::
  "'m validator_libs_scheme \<Rightarrow> 's host \<Rightarrow> nat \<Rightarrow> quorum_certificate option \<Rightarrow> shadow_vote_attestation list \<Rightarrow> ('s, unit) action" where
  "count_certificate L H block_number last_qc shadow_votes =
     (case last_qc of
        None \<Rightarrow> give ()
      | Some qc \<Rightarrow>
          andthen (record_qc_liveness L H qc) (\<lambda>_.
            if shadow_votes = [] then give ()
            else andthen (load_consensus_domain H) (\<lambda>domain.
                 andthen (load_active_set L H) (\<lambda>vset.
                   apply_shadow_vote_attestations L H domain (vs_epoch vset) block_number shadow_votes))))"

definition pass_epoch ::
  "'m gov_libs_scheme \<Rightarrow> 's host \<Rightarrow> nat \<Rightarrow> quorum_certificate option \<Rightarrow> ('s, unit) action" where
  "pass_epoch L H block_timestamp last_qc =
     (case last_qc of None \<Rightarrow> give () | Some _ \<Rightarrow> andthen (advance_epoch_if_due L H block_timestamp) (\<lambda>_. give ()))"

text \<open>The body up to the end of the epoch.\<close>

definition block_work ::
  "'m native_libs_scheme \<Rightarrow> ('s \<times> volatile) host \<Rightarrow> runtime \<Rightarrow> 's evm_call \<Rightarrow> nat \<Rightarrow> nat \<Rightarrow> transaction list \<Rightarrow>
     quorum_certificate option \<Rightarrow> shadow_vote_attestation list \<Rightarrow> (nat \<times> nat \<times> nat) option \<Rightarrow> ('s \<times> volatile, unit) action" where
  "block_work L H N call block_number block_timestamp transactions last_qc shadow_votes proposer =
     andthen (settle_producer L H (rn_supported_ruleset N) proposer) (\<lambda>_.
     andthen (write_block_height H block_number) (\<lambda>_.
     andthen (run_transactions L H N call block_timestamp transactions) (\<lambda>_.
       count_certificate L H block_number last_qc shadow_votes)))"

text \<open>Receipts, state root and header. The root is taken before the header is written.\<close>

definition seal_block ::
  "'m runtime_libs_scheme \<Rightarrow> 's block_store \<Rightarrow> pruning_config \<Rightarrow> nat \<Rightarrow> nat \<Rightarrow> transaction list \<Rightarrow> hash list \<Rightarrow>
     ('s \<times> volatile, hash \<times> address list) action" where
  "seal_block L B pruning block_number block_timestamp transactions tx_hashes =
     andthen (if pc_retention_blocks pruning = None then give ()
              else on_store (bs_record_receipts B block_number tx_hashes)) (\<lambda>_.
     andthen (parent_block_hash_in L B (shared (bs_host B)) block_number) (\<lambda>parent_hash.
     andthen (on_store (bs_state_root B)) (\<lambda>header_state_root.
     andthen (archive_header L (shared (bs_host B))
         \<lparr>ah_number = block_number, ah_parent_hash = parent_hash, ah_state_root = header_state_root,
          ah_timestamp = block_timestamp, ah_tx_hashes = tx_hashes\<rparr>) (\<lambda>block_hash.
       give (header_state_root, archive_keys L block_number block_hash transactions)))))"

definition execute_block_body_archiving ::
  "'m runtime_libs_scheme \<Rightarrow> 's block_store \<Rightarrow> runtime \<Rightarrow> 's evm_call \<Rightarrow> nat \<Rightarrow> nat \<Rightarrow> transaction list \<Rightarrow>
     quorum_certificate option \<Rightarrow> shadow_vote_attestation list \<Rightarrow> (nat \<times> nat \<times> nat) option \<Rightarrow> hash list option \<Rightarrow>
     ('s \<times> volatile, hash \<times> address list) action" where
  "execute_block_body_archiving L B N call block_number block_timestamp transactions last_qc shadow_votes proposer archived =
     (let H = shared (bs_host B)
      in andthen (block_work L H N call block_number block_timestamp transactions last_qc shadow_votes proposer) (\<lambda>_.
         andthen (pass_epoch L H block_timestamp last_qc) (\<lambda>_.
           seal_block L B (rn_pruning N) block_number block_timestamp transactions
             (case archived of Some full \<Rightarrow> full | None \<Rightarrow> map tx_id transactions))))"

definition execute_block_body ::
  "'m runtime_libs_scheme \<Rightarrow> 's block_store \<Rightarrow> runtime \<Rightarrow> 's evm_call \<Rightarrow> nat \<Rightarrow> nat \<Rightarrow> transaction list \<Rightarrow>
     quorum_certificate option \<Rightarrow> shadow_vote_attestation list \<Rightarrow> (nat \<times> nat \<times> nat) option \<Rightarrow>
     ('s \<times> volatile, hash \<times> address list) action" where
  "execute_block_body L B N call block_number block_timestamp transactions last_qc shadow_votes proposer =
     execute_block_body_archiving L B N call block_number block_timestamp transactions last_qc shadow_votes proposer None"

section \<open>The two stores the body runs on\<close>

text \<open>The overlay keeps the trait's defaults: no receipts, no genesis bytes.\<close>

definition manager_store :: "'m executor_libs_scheme \<Rightarrow> state_env \<Rightarrow> thread \<Rightarrow> state_manager block_store" where
  "manager_store L E tid = \<lparr>bs_host = manager_host E tid, bs_state_root = sm_state_root E,
     bs_record_receipts = record_block_receipts (lx_ser_hashes L) (sm_set_account E tid),
     bs_genesis_bytes = get_genesis_block_0_bytes\<rparr>"

definition overlay_store :: "thread \<Rightarrow> overlay block_store" where
  "overlay_store tid = \<lparr>bs_host = overlay_host tid, bs_state_root = ov_state_root,
     bs_record_receipts = (\<lambda>block_number tx_ids. give ()), bs_genesis_bytes = give None\<rparr>"

text \<open>What a store answers to an overlay put over it.\<close>

definition shared_state :: "state_env \<Rightarrow> state_manager \<Rightarrow> inner_state" where
  "shared_state E s =
     \<lparr>in_get_account = (\<lambda>a. fst (sm_get_account E a s)),
      in_validator_candidates = fst (sm_get_validator_candidates E s),
      in_total_known_addresses = fst (sm_total_known_addresses s),
      in_state_root_with_overrides = (\<lambda>changes. fst (sm_state_root_with_overrides E changes s))\<rparr>"

section \<open>Simulation\<close>

text \<open>\<open>Executor::rebind\<close>: a fresh executor for another state; only the producer's address is kept.\<close>

definition rebind :: "'s host \<Rightarrow> volatile \<Rightarrow> ('s, volatile) action" where
  "rebind H w =
     andthen (peek_next_transfer_index H) (\<lambda>i. give
       \<lparr>vo_staking_index = None, vo_pending_gas_reward = 0, vo_block_producer = vo_block_producer w,
        vo_transfer_index = i, vo_processing = []\<rparr>)"

definition simulate_block ::
  "'m runtime_libs_scheme \<Rightarrow> thread \<Rightarrow> runtime \<Rightarrow> overlay evm_call \<Rightarrow> inner_state \<Rightarrow> volatile \<Rightarrow> nat \<Rightarrow> nat \<Rightarrow>
     transaction list \<Rightarrow> bridge_proposal list \<Rightarrow> quorum_certificate option \<Rightarrow> shadow_vote_attestation list \<Rightarrow>
     (nat \<times> nat \<times> nat) option \<Rightarrow> hash result" where
  "simulate_block L tid N call inner w block_number block_timestamp transactions bridge_proposals last_qc shadow_votes proposer =
     (case ingest_relayed_proposals L (shared (overlay_host tid)) bridge_proposals (overlay_new inner, w) of
        (Inl e, _) \<Rightarrow> Inl e
      | (Inr _, (s, _)) \<Rightarrow>
          (case rebind (overlay_host tid) w s of
             (Inl e, _) \<Rightarrow> Inl e
           | (Inr w', s) \<Rightarrow>
               try_then (fst (execute_block_body L (overlay_store tid) N call block_number block_timestamp transactions
                 last_qc shadow_votes proposer (s, w'))) (\<lambda>(root, _). Inr root)))"

section \<open>Commitment\<close>

text \<open>
  Pruning is best effort: its errors are dropped. \<open>archive_height\<close> is what the archive's height file says,
  \<open>Some 0\<close> when it cannot be read, \<open>None\<close> when none is configured.
\<close>

definition PRUNING_TOTAL_DELETED :: address where
  "PRUNING_TOTAL_DELETED = ''__PRUNING_TOTAL_DELETED__''"

definition PRUNING_LAST_RUN_AT :: address where
  "PRUNING_LAST_RUN_AT = ''__PRUNING_LAST_RUN_AT__''"

definition count_pruned :: "'s host \<Rightarrow> nat \<Rightarrow> nat \<Rightarrow> ('s, unit) action" where
  "count_pruned H now_secs n =
     andthen (attempt (h_get H PRUNING_TOTAL_DELETED)) (\<lambda>found.
       let so_far = (case found of Some (Some a) \<Rightarrow> ac_balance a | Some None \<Rightarrow> 0 | None \<Rightarrow> 0)
       in andthen (attempt (h_put H PRUNING_TOTAL_DELETED (default_account\<lparr>ac_balance := sat_add u128_max so_far n\<rparr>))) (\<lambda>_.
          andthen (attempt (h_put H PRUNING_LAST_RUN_AT (default_account\<lparr>ac_balance := now_secs\<rparr>))) (\<lambda>_. give ())))"

definition prune_height :: "nat \<Rightarrow> nat \<Rightarrow> nat option \<Rightarrow> nat" where
  "prune_height block_number retention archive_height =
     (let prune_before = sat_sub block_number retention
      in case archive_height of
           None \<Rightarrow> prune_before
         | Some archive_h \<Rightarrow> if archive_h < prune_before then archive_h else prune_before)"

definition maybe_prune ::
  "'m executor_libs_scheme \<Rightarrow> state_env \<Rightarrow> thread \<Rightarrow> pruning_config \<Rightarrow> nat option \<Rightarrow> nat \<Rightarrow> nat \<Rightarrow> (state_manager, unit) action" where
  "maybe_prune L E tid pruning archive_height now_secs block_number =
     (case pc_retention_blocks pruning of
        None \<Rightarrow> give ()
      | Some retention \<Rightarrow>
          if pc_interval_blocks pruning = 0 \<or> block_number mod pc_interval_blocks pruning \<noteq> 0 then give ()
          else andthen (attempt (prune_historical_data E tid (lx_ser_hashes L) (lx_de_hashes L) (lb_hex L)
                 (prune_height block_number retention archive_height) (pc_batch_limit pruning))) (\<lambda>outcome.
               case outcome of
                 None \<Rightarrow> give ()
               | Some n \<Rightarrow> if n = 0 then give () else count_pruned (manager_host E tid) now_secs n))"

definition persist_block ::
  "'m executor_libs_scheme \<Rightarrow> state_env \<Rightarrow> thread \<Rightarrow> pruning_config \<Rightarrow> nat option \<Rightarrow> nat \<Rightarrow> nat \<Rightarrow> address list \<Rightarrow>
     (state_manager, unit) action" where
  "persist_block L E tid pruning archive_height now_secs block_number ks =
     andthen (sm_flush E) (\<lambda>_.
     andthen (\<lambda>s. (Inr (), evict_from_cache ks s)) (\<lambda>_.
       maybe_prune L E tid pruning archive_height now_secs block_number))"

text \<open>The block is written to the disk only under the root that was expected.\<close>

definition accept_block ::
  "'m executor_libs_scheme \<Rightarrow> state_env \<Rightarrow> thread \<Rightarrow> pruning_config \<Rightarrow> nat option \<Rightarrow> nat \<Rightarrow> nat \<Rightarrow> hash \<Rightarrow>
     hash \<times> address list \<Rightarrow> (state_manager \<times> volatile, hash) action" where
  "accept_block L E tid pruning archive_height now_secs block_number expected_state_root = (\<lambda>(root, ks).
     if root \<noteq> expected_state_root then stop (Other ''state_root beklenenle ESLESMIYOR'')
     else andthen (on_store (persist_block L E tid pruning archive_height now_secs block_number ks)) (\<lambda>_. give root))"

definition commit_block_archiving ::
  "'m runtime_libs_scheme \<Rightarrow> state_env \<Rightarrow> thread \<Rightarrow> runtime \<Rightarrow> state_manager evm_call \<Rightarrow> nat option \<Rightarrow> nat \<Rightarrow> nat \<Rightarrow> nat \<Rightarrow>
     transaction list \<Rightarrow> bridge_proposal list \<Rightarrow> quorum_certificate option \<Rightarrow> shadow_vote_attestation list \<Rightarrow>
     (nat \<times> nat \<times> nat) option \<Rightarrow> hash \<Rightarrow> hash list option \<Rightarrow> (state_manager \<times> volatile, hash) action" where
  "commit_block_archiving L E tid N call archive_height now_secs block_number block_timestamp transactions bridge_proposals
     last_qc shadow_votes proposer expected_state_root archived =
     andthen (ingest_relayed_proposals L (shared (manager_host E tid)) bridge_proposals) (\<lambda>_.
     andthen (execute_block_body_archiving L (manager_store L E tid) N call block_number block_timestamp transactions
         last_qc shadow_votes proposer archived)
       (accept_block L E tid (rn_pruning N) archive_height now_secs block_number expected_state_root))"

definition commit_block ::
  "'m runtime_libs_scheme \<Rightarrow> state_env \<Rightarrow> thread \<Rightarrow> runtime \<Rightarrow> state_manager evm_call \<Rightarrow> nat option \<Rightarrow> nat \<Rightarrow> nat \<Rightarrow> nat \<Rightarrow>
     transaction list \<Rightarrow> bridge_proposal list \<Rightarrow> quorum_certificate option \<Rightarrow> shadow_vote_attestation list \<Rightarrow>
     (nat \<times> nat \<times> nat) option \<Rightarrow> hash \<Rightarrow> (state_manager \<times> volatile, hash) action" where
  "commit_block L E tid N call archive_height now_secs block_number block_timestamp transactions bridge_proposals
     last_qc shadow_votes proposer expected_state_root =
     commit_block_archiving L E tid N call archive_height now_secs block_number block_timestamp transactions bridge_proposals
       last_qc shadow_votes proposer expected_state_root None"

text \<open>A follower's block has neither a certificate nor a producer.\<close>

definition apply_external_block ::
  "'m runtime_libs_scheme \<Rightarrow> state_env \<Rightarrow> thread \<Rightarrow> runtime \<Rightarrow> state_manager evm_call \<Rightarrow> nat option \<Rightarrow> nat \<Rightarrow> nat \<Rightarrow> nat \<Rightarrow>
     transaction list \<Rightarrow> bridge_proposal list \<Rightarrow> hash \<Rightarrow> (state_manager \<times> volatile, hash) action" where
  "apply_external_block L E tid N call archive_height now_secs block_number block_timestamp transactions bridge_proposals
     expected_state_root =
     andthen (ingest_relayed_proposals L (shared (manager_host E tid)) bridge_proposals) (\<lambda>_.
     andthen (execute_block_body L (manager_store L E tid) N call block_number block_timestamp transactions None [] None)
       (accept_block L E tid (rn_pruning N) archive_height now_secs block_number expected_state_root))"

text \<open>The block of a node that produces alone: executed, archived and written, whatever its root.\<close>

definition process_block ::
  "'m runtime_libs_scheme \<Rightarrow> state_env \<Rightarrow> thread \<Rightarrow> runtime \<Rightarrow> state_manager evm_call \<Rightarrow> nat option \<Rightarrow> nat \<Rightarrow> nat \<Rightarrow> nat \<Rightarrow>
     transaction list \<Rightarrow> (state_manager \<times> volatile, hash) action" where
  "process_block L E tid N call archive_height now_secs block_number block_timestamp transactions =
     (let H = shared (manager_host E tid)
      in andthen (write_block_height H block_number) (\<lambda>_.
         andthen (run_transactions L H N call block_timestamp transactions) (\<lambda>_.
         andthen (seal_block L (manager_store L E tid) (rn_pruning N) block_number block_timestamp transactions
             (map tx_id transactions)) (\<lambda>(root, ks).
         andthen (on_store (persist_block L E tid (rn_pruning N) archive_height now_secs block_number ks)) (\<lambda>_.
           give root)))))"

end
