(* ===== verification/BlockMirrors.thy ===== *)
theory BlockMirrors
  imports Runtime Mirrors
begin

text \<open>
  The body of a block does on every store what it does on the plain map, for native transactions that do not
  ask for the validator candidates, up to the end of an epoch: where an epoch ends the candidates are asked
  for, and the stores differ.
\<close>

section \<open>Keys\<close>

lemma runtime_keys_are_accounts [simp]:
  "account_key GLOBAL_BLOCK_HEIGHT" "account_key GLOBAL_TOTAL_TX" "account_key (tx_body_key hex i)"
  "account_key used_shadow_votes_key" "account_key recent_transfers_next_index_key" "account_key (ruleset_decl_key a)"
  by (simp_all add: account_key_def GLOBAL_BLOCK_HEIGHT_def GLOBAL_TOTAL_TX_def tx_body_key_def used_shadow_votes_key_def
      recent_transfers_next_index_key_def ruleset_decl_key_def)

text \<open>A validator set that can be decoded names accounts: no member is called like the raw genesis row.\<close>

definition sets_name_accounts :: "'m libs_scheme \<Rightarrow> bool" where
  "sets_name_accounts L \<longleftrightarrow>
     (\<forall>b vset m. lb_de_set L b = Some vset \<longrightarrow> m \<in> set (vs_members vset) \<longrightarrow> account_key (m_address m))"

definition named :: "active_validator_set \<Rightarrow> bool" where
  "named vset \<longleftrightarrow> (\<forall>m \<in> set (vs_members vset). account_key (m_address m))"

lemma loaded_named: "sets_name_accounts L \<Longrightarrow> load_validator_set_at_epoch L H n s = (Inr vset, s') \<Longrightarrow> named vset"
  by (auto simp: load_validator_set_at_epoch_def andthen_def give_def stop_def lift_def sets_name_accounts_def named_def
      split: prod.splits sum.splits option.splits if_splits)

text \<open>Whether an epoch ends, as \<open>advance_epoch_if_due\<close> finds out.\<close>

definition epoch_due :: "'m libs_scheme \<Rightarrow> 's host \<Rightarrow> nat \<Rightarrow> ('s, bool) action" where
  "epoch_due L H t =
     andthen (load_chain_params L H) (\<lambda>params.
     andthen (genesis_timestamp H) (\<lambda>genesis_ts.
     andthen (load_active_set L H) (\<lambda>vset.
       give (vs_epoch vset < epoch_at t genesis_ts (p_epoch_seconds params)))))"

context chain_store
begin

lemma mirrors_tx_attempt: "mirrors_tx m m' \<Longrightarrow> mirrors_tx (attempt m) (attempt m')"
proof -
  assume m: "mirrors_tx m m'"
  show ?thesis
    unfolding mirrors_tx_def
  proof (intro allI impI)
    fix s w
    assume s: "settled s" "producer_ok w"
    obtain r s' w' where run: "m (s, w) = (r, (s', w'))" by (metis prod.exhaust)
    from mirrors_txD [OF m s run] run
    show "case attempt m (s, w) of (r, s', w') \<Rightarrow> producer_ok w' \<and> settled s' \<and> attempt m' (plainly s, w) = (r, (plainly s', w'))"
      by (auto simp: attempt_def split: sum.split)
  qed
qed

lemma mirrors_tx_execute:
  assumes "plain_kind (tx_kind tx)"
  shows "mirrors_tx (execute_transaction L F (shared host) call vs tx now) (execute_transaction L F (shared plain_host) call' vs tx now)"
  unfolding mirrors_tx_def
proof (intro allI impI)
  fix s w
  assume s: "settled s" "producer_ok w"
  obtain r s' w' where run: "apply_transaction L F (shared host) call vs tx now (s, w) = (r, (s', w'))" by (metis prod.exhaust)
  from mirrors_txD [OF mirrors_tx_apply [OF assms, where call' = call'] s run] run
  show "case execute_transaction L F (shared host) call vs tx now (s, w) of (r, s', w') \<Rightarrow>
      producer_ok w' \<and> settled s' \<and> execute_transaction L F (shared plain_host) call' vs tx now (plainly s, w) = (r, (plainly s', w'))"
    by (auto simp: execute_transaction_def split: sum.split)
qed

lemma mirrors_tx_count:
  assumes "\<And>tx. tx \<in> set txs \<Longrightarrow> mirrors_tx (f tx) (f' tx)"
  shows "mirrors_tx (count_successes f txs n) (count_successes f' txs n)"
  using assms
proof (induction txs arbitrary: n)
  case Nil
  then show ?case by (auto intro!: mirrors_tx)
next
  case (Cons tx txs)
  then show ?case by (auto intro!: mirrors_tx_andthen mirrors_tx_attempt)
qed

lemma mirrors_tx_batch:
  assumes "\<forall>tx \<in> set txs. plain_kind (tx_kind tx)" and "\<And>xs. set (interleave xs) \<subseteq> set xs"
  shows "mirrors_tx (execute_batch L F (shared host) call vs interleave txs now)
    (execute_batch L F (shared plain_host) call' vs interleave txs now)"
proof -
  have parts: "set ind \<union> set con \<subseteq> set txs" if "classify_at_rules L txs a b = (ind, con)" for a b ind con
    using classify_loop_mset [of L a b "{}" txs ind con] that
    by (metis classify_at_rules_def set_eq_subset set_mset_mset set_mset_union)
  have run: "mirrors_tx (count_successes (\<lambda>tx. execute_transaction L F (shared host) call vs tx now) xs 0)
      (count_successes (\<lambda>tx. execute_transaction L F (shared plain_host) call' vs tx now) xs 0)" if "set xs \<subseteq> set txs" for xs
    using assms(1) that by (intro mirrors_tx_count mirrors_tx_execute) blast
  show ?thesis
    unfolding execute_batch_def Let_def
  proof (intro mirrors_tx_if mirrors_tx_andthen mirrors_tx_prod)
    fix h ind con
    assume c: "classify_at_rules L txs (CLASSIFY_LOCK_ACTIVATION_HEIGHT \<le> h) (D14_RULES_ACTIVATION_HEIGHT \<le> h) = (ind, con)"
    note p = parts [OF c]
    show "mirrors_tx (count_successes (\<lambda>tx. execute_transaction L F (shared host) call vs tx now) (interleave ind) 0)
      (count_successes (\<lambda>tx. execute_transaction L F (shared plain_host) call' vs tx now) (interleave ind) 0)"
      using p assms(2) [of ind] by (intro run) blast
    show "mirrors_tx (count_successes (\<lambda>tx. execute_transaction L F (shared host) call vs tx now) con 0)
      (count_successes (\<lambda>tx. execute_transaction L F (shared plain_host) call' vs tx now) con 0)"
      using p by (intro run) blast
  qed (rule mirrors_tx, auto)+
qed

lemma mirrors_archive_dropped [intro!]:
  "mirrors (archive_dropped_transactions L (shared host) txs) (archive_dropped_transactions L (shared plain_host) txs)"
  unfolding archive_dropped_transactions_def archive_dropped_transaction_def by auto

lemma mirrors_trackers [intro!]:
  "mirrors (write_block_height (shared host) n) (write_block_height (shared plain_host) n)"
  "mirrors (add_total_tx (shared host) n) (add_total_tx (shared plain_host) n)"
  "mirrors (flush_recent_transfer_index (shared host)) (flush_recent_transfer_index (shared plain_host))"
  unfolding write_block_height_def add_total_tx_def flush_recent_transfer_index_def by (auto simp: Let_def)

lemma mirrors_producer:
  "account_key a \<Longrightarrow> mirrors (set_block_producer_for_block a) (set_block_producer_for_block a)"
  by (simp add: mirrors_def set_block_producer_for_block_def change_var_def producer_ok_def)

lemma mirrors_settle_producer:
  assumes "sets_name_accounts L"
  shows "mirrors (settle_producer L (shared host) v proposer) (settle_producer L (shared plain_host) v proposer)"
proof -
  have decl: "mirrors (record_ruleset_declaration (shared host) a n) (record_ruleset_declaration (shared plain_host) a n)" for a n
    unfolding record_ruleset_declaration_def by auto
  have set_it: "mirrors (set_block_producer_for_block (m_address (vs_members vset ! i)))
      (set_block_producer_for_block (m_address (vs_members vset ! i)))"
    if "named vset" "\<not> length (vs_members vset) \<le> i" for vset i
    using that by (intro mirrors_producer) (simp add: named_def)
  show ?thesis
  proof (cases proposer)
    case None
    then show ?thesis by (auto simp: settle_producer_def)
  next
    case (Some p)
    obtain e i n where p: "p = (e, i, n)" by (cases p)
    show ?thesis
      unfolding settle_producer_def Some p option.case prod.case Let_def
      by (rule mirrors_andthen, fast, rule mirrors_if, fast,
          rule mirrors_andthen_result [where P = named], fast, erule loaded_named [OF assms], rule mirrors_if, fast,
          rule mirrors_andthen, erule (1) set_it, rule decl)
  qed
qed

lemma mirrors_ingest [intro!]:
  "mirrors (ingest_relayed_proposals L (shared host) ps) (ingest_relayed_proposals L (shared plain_host) ps)"
  unfolding ingest_relayed_proposals_def ingest_one_def by auto

lemma mirrors_members:
  "(\<And>m. m \<in> set ms \<Longrightarrow> account_key (m_address m)) \<Longrightarrow>
    mirrors (record_members_liveness (shared host) e sg i ms) (record_members_liveness (shared plain_host) e sg i ms)"
  by (induction ms arbitrary: i) (auto simp: Let_def)

lemma mirrors_certificate:
  assumes "sets_name_accounts L"
  shows "mirrors (record_qc_liveness L (shared host) qc) (record_qc_liveness L (shared plain_host) qc)"
proof -
  have result: "attempt (load_validator_set_at_epoch L H n) s = (Inr x, s') \<Longrightarrow> (case x of None \<Rightarrow> True | Some vset \<Rightarrow> named vset)"
    for H :: "('s \<times> volatile) host" and n s s' x
    using loaded_named [OF assms, of H n s]
    by (cases "load_validator_set_at_epoch L H n s") (auto simp: attempt_def split: sum.splits option.split)
  show ?thesis
    unfolding record_qc_liveness_def
    by (rule mirrors_andthen_result [where P = "\<lambda>x. case x of None \<Rightarrow> True | Some vset \<Rightarrow> named vset"], fast, erule result)
      (auto simp: named_def intro!: mirrors_members)
qed

lemma mirrors_used_votes [intro!]:
  "mirrors (load_used_shadow_votes L (shared host)) (load_used_shadow_votes L (shared plain_host))"
  "mirrors (is_shadow_vote_used L (shared host) h k) (is_shadow_vote_used L (shared plain_host) h k)"
  "mirrors (mark_shadow_vote_used L (shared host) h k n) (mark_shadow_vote_used L (shared plain_host) h k n)"
  unfolding is_shadow_vote_used_def mark_shadow_vote_used_def load_used_shadow_votes_def by auto

lemma mirrors_shadow_liveness [intro!]:
  "mirrors (record_shadow_vote_liveness (shared host) a e) (record_shadow_vote_liveness (shared plain_host) a e)"
  unfolding record_shadow_vote_liveness_def by (auto dest: canonical_address_key)

lemma mirrors_verify_shadow [intro!]:
  "mirrors (verify_and_record_shadow_vote L (shared host) d e a v n) (verify_and_record_shadow_vote L (shared plain_host) d e a v n)"
  unfolding verify_and_record_shadow_vote_def by (auto simp: Let_def dest: canonical_address_key)

lemma mirrors_shadow [intro!]:
  "mirrors (apply_shadow_vote_attestations L (shared host) d e n vs) (apply_shadow_vote_attestations L (shared plain_host) d e n vs)"
  unfolding apply_shadow_vote_attestations_def by auto

lemma mirrors_count_certificate:
  "sets_name_accounts L \<Longrightarrow> mirrors (count_certificate L (shared host) n qc vs) (count_certificate L (shared plain_host) n qc vs)"
  unfolding count_certificate_def by (auto intro!: mirrors_certificate)

lemma mirrors_epoch_due [intro!]: "mirrors (epoch_due L (shared host) t) (epoch_due L (shared plain_host) t)"
  unfolding epoch_due_def by auto

lemma mirrors_tx_work:
  assumes txs: "\<forall>tx \<in> set txs. plain_kind (tx_kind tx)" "\<And>xs. set (rn_interleave N xs) \<subseteq> set xs" and L: "sets_name_accounts L"
  shows "mirrors_tx (block_work L (shared host) N call n t txs qc sh pr) (block_work L (shared plain_host) N call' n t txs qc sh pr)"
  unfolding block_work_def run_transactions_def
  by (intro mirrors_tx_andthen mirrors_tx_batch [OF txs] mirrors_tx_prod mirrors_tx [OF mirrors_settle_producer [OF L]]
      mirrors_tx [OF mirrors_count_certificate [OF L]]; rule mirrors_tx, fast)

end

end
