(* ===== verification/TwoStores.thy ===== *)
theory TwoStores
  imports BlockMirrors
begin

text \<open>
  What a block's body keeps of the two stores it runs on, beside the accounts: the store behind an overlay
  and the keys it overrides, and, of the manager, its rows, its trie and which leaves are stale. Both are
  again stores in the sense of \<open>chain_store\<close>, now with the accounts under proper keys as their view, so
  all that was shown of the handlers holds of them.
\<close>

section \<open>Stores with more of an invariant\<close>

definition proper :: "address \<Rightarrow> bool" where
  "proper a \<longleftrightarrow> account_key a \<and> canonicalize a = a"

definition clip :: "(address \<rightharpoonup> account) \<Rightarrow> address \<rightharpoonup> account" where
  "clip v a = (if proper a then v a else None)"

lemma proper_canonical: "account_key a \<Longrightarrow> proper (canonicalize a)"
  by (simp add: proper_def)

lemma clip_put: "proper c \<Longrightarrow> clip (v(c \<mapsto> x)) = (clip v)(c \<mapsto> x)"
  by (auto simp: clip_def fun_eq_iff)

lemma stronger_store:
  assumes base: "snapshot_store fetch put view ok account_key cp cm rv opened"
    and fetch: "\<And>s a. ok s \<Longrightarrow> P s \<Longrightarrow> account_key (canonicalize a) \<Longrightarrow> P (snd (fetch a s))"
    and put: "\<And>s a x. ok s \<Longrightarrow> P s \<Longrightarrow> account_key (canonicalize a) \<Longrightarrow> P (snd (put a x s))"
    and cp: "\<And>s. ok s \<Longrightarrow> P s \<Longrightarrow> opened s = None \<Longrightarrow> P (snd (cp s))"
    and cm: "\<And>s n v. ok s \<Longrightarrow> P s \<Longrightarrow> opened s = Some (n, v) \<Longrightarrow> P (snd (cm n s))"
    and rv: "\<And>s n v. ok s \<Longrightarrow> P s \<Longrightarrow> opened s = Some (n, v) \<Longrightarrow> P (snd (rv n s))"
  shows "snapshot_store fetch put (\<lambda>s. clip (view s)) (\<lambda>s. ok s \<and> P s) account_key cp cm rv
    (\<lambda>s. map_option (\<lambda>(n, v). (n, clip v)) (opened s))"
proof
  fix s a x n v
  assume s: "ok s \<and> P s"
  note laws = account_store.fetch_ok [OF snapshot_store.axioms(1) [OF base]] account_store.put_ok [OF snapshot_store.axioms(1) [OF base]]
  show "\<exists>s'. fetch a s = (Inr (clip (view s) (canonicalize a)), s') \<and> (ok s' \<and> P s') \<and> clip (view s') = clip (view s)"
    if key: "account_key (canonicalize a)"
  proof -
    obtain s' where "fetch a s = (Inr (view s (canonicalize a)), s')" "ok s'" "view s' = view s" using laws s key by blast
    with fetch [of s a] s key show ?thesis by (auto simp: clip_def proper_def)
  qed
  show "\<exists>s'. put a x s = (Inr (), s') \<and> (ok s' \<and> P s') \<and> clip (view s') = (clip (view s))(canonicalize a \<mapsto> x)"
    if key: "account_key (canonicalize a)"
  proof -
    obtain s' where "put a x s = (Inr (), s')" "ok s'" "view s' = (view s)(canonicalize a \<mapsto> x)" using laws s key by blast
    with put [of s a x] s key show ?thesis by (auto simp: clip_put proper_def)
  qed
  show "map_option (\<lambda>(n, v). (n, clip v)) (opened (snd (fetch a s))) = map_option (\<lambda>(n, v). (n, clip v)) (opened s)"
    "map_option (\<lambda>(n, v). (n, clip v)) (opened (snd (put a x s))) = map_option (\<lambda>(n, v). (n, clip v)) (opened s)"
    if "account_key (canonicalize a)"
    using snapshot_store.fetch_opened [OF base] snapshot_store.put_opened [OF base] s that by auto
  show "\<exists>n s'. cp s = (Inr n, s') \<and> (ok s' \<and> P s') \<and> clip (view s') = clip (view s) \<and>
      map_option (\<lambda>(n, v). (n, clip v)) (opened s') = Some (n, clip (view s))"
    if none: "map_option (\<lambda>(n, v). (n, clip v)) (opened s) = None"
  proof -
    obtain n s' where "cp s = (Inr n, s')" "ok s'" "view s' = view s" "opened s' = Some (n, view s)"
      using snapshot_store.checkpoint_ok [OF base, of s] s none by auto
    with cp [of s] s none show ?thesis by auto
  qed
  assume "map_option (\<lambda>(n, v). (n, clip v)) (opened s) = Some (n, v)"
  then obtain v0 where o: "opened s = Some (n, v0)" "v = clip v0" by auto
  show "\<exists>s'. cm n s = (Inr (), s') \<and> (ok s' \<and> P s') \<and> clip (view s') = clip (view s) \<and>
      map_option (\<lambda>(n, v). (n, clip v)) (opened s') = None"
  proof -
    obtain s' where "cm n s = (Inr (), s')" "ok s'" "view s' = view s" "opened s' = None"
      using snapshot_store.commit_ok [OF base, of s n v0] s o by blast
    with cm [of s n v0] s o show ?thesis by auto
  qed
  show "\<exists>s'. rv n s = (Inr (), s') \<and> (ok s' \<and> P s') \<and> clip (view s') = v \<and>
      map_option (\<lambda>(n, v). (n, clip v)) (opened s') = None"
  proof -
    obtain s' where "rv n s = (Inr (), s')" "ok s'" "view s' = v0" "opened s' = None"
      using snapshot_store.revert_ok [OF base, of s n v0] s o by blast
    with rv [of s n v0] s o show ?thesis by auto
  qed
qed

section \<open>The overlay\<close>

text \<open>The state behind it does not change; it overrides proper keys only, never with a deletion.\<close>

definition keyed :: "address \<times> account option \<Rightarrow> bool" where
  "keyed e \<longleftrightarrow> proper (fst e) \<and> snd e \<noteq> None"

definition journal_keyed :: "(address \<times> account option option) list \<Rightarrow> bool" where
  "journal_keyed j \<longleftrightarrow> (\<forall>a e. (a, Some e) \<in> set j \<longrightarrow> keyed (a, e))"

definition simulating :: "inner_state \<Rightarrow> overlay \<Rightarrow> bool" where
  "simulating inner s \<longleftrightarrow> ov_inner s = inner \<and> distinct (map fst (ov_accounts s)) \<and>
     list_all keyed (ov_accounts s) \<and> (\<forall>(t, stack) \<in> set (ov_journals s). list_all journal_keyed stack)"

lemma update_set: "set (AList.update k v xs) \<subseteq> insert (k, v) (set xs)"
  by (induction xs) auto

lemma list_all_update: "list_all P xs \<Longrightarrow> P (k, v) \<Longrightarrow> list_all P (AList.update k v xs)"
  using update_set [of k v xs] by (auto simp: list_all_iff)

lemma list_all_delete: "list_all P xs \<Longrightarrow> list_all P (AList.delete k xs)"
  by (simp add: list_all_iff AList.delete_eq)

lemma stack_keyed: "simulating inner s \<Longrightarrow> map_of (ov_journals s) t = Some stack \<Longrightarrow> list_all journal_keyed stack"
  by (auto simp: simulating_def dest!: map_of_SomeD)

lemma stacks_update:
  assumes "simulating inner s" "list_all journal_keyed stack"
  shows "\<forall>(t, stack) \<in> set (AList.update tid stack (ov_journals s)). list_all journal_keyed stack"
  using assms update_set [of tid stack "ov_journals s"] by (fastforce simp: simulating_def)

lemma restore_keyed:
  "list_all keyed xs \<Longrightarrow> distinct (map fst xs) \<Longrightarrow> journal_keyed j \<Longrightarrow>
    list_all keyed (restore_journal j xs) \<and> distinct (map fst (restore_journal j xs))"
proof (induction j xs rule: restore_journal.induct)
  case (2 addr prev latest accounts)
  have rest: "journal_keyed latest" using 2(4) by (auto simp: journal_keyed_def)
  show ?case
  proof (cases prev)
    case None
    then show ?thesis using 2(1) [OF _ _ rest] 2(2,3) by (simp add: list_all_delete distinct_delete)
  next
    case (Some entry)
    then have "keyed (addr, entry)" using 2(4) by (auto simp: journal_keyed_def)
    then show ?thesis using 2(1) [OF _ _ rest] 2(2,3) Some by (simp add: list_all_update distinct_update)
  qed
qed simp

lemma put_simulating:
  assumes "simulating inner s" "account_key (canonicalize a)"
  shows "simulating inner (snd (ov_set_account tid a x s))"
proof -
  let ?c = "canonicalize a"
  have k: "keyed (?c, Some x)" using assms(2) by (simp add: keyed_def proper_def)
  have entry: "keyed (?c, e)" if "map_of (ov_accounts s) ?c = Some e" for e
    using assms(1) that by (auto simp: simulating_def list_all_iff dest!: map_of_SomeD)
  have j: "journal_keyed (AList.update ?c (map_of (ov_accounts s) ?c) j)" if "journal_keyed j" for j
    using that entry update_set [of ?c "map_of (ov_accounts s) ?c" j] by (fastforce simp: journal_keyed_def)
  have "simulating inner (journal_previous tid ?c s)"
  proof (cases "map_of (ov_journals s) tid")
    case (Some stack)
    note ks = stack_keyed [OF assms(1) Some]
    show ?thesis
    proof (cases stack)
      case (Cons latest rest)
      then have "list_all journal_keyed (AList.update ?c (map_of (ov_accounts s) ?c) latest # rest)" using ks j by simp
      from stacks_update [OF assms(1) this, of tid] assms(1) show ?thesis
        using Some Cons by (simp add: journal_previous_def simulating_def)
    qed (use Some assms(1) in \<open>simp add: journal_previous_def\<close>)
  qed (use assms(1) in \<open>simp add: journal_previous_def\<close>)
  moreover have "ov_accounts (journal_previous tid ?c s) = ov_accounts s"
    by (auto simp: journal_previous_def split: option.split list.split)
  ultimately show ?thesis
    using k by (simp add: ov_set_account_def Let_def simulating_def list_all_update distinct_update)
qed

lemma checkpoint_simulating: "simulating inner s \<Longrightarrow> simulating inner (snd (ov_checkpoint tid s))"
proof -
  assume s: "simulating inner s"
  have "list_all journal_keyed ([] # (case map_of (ov_journals s) tid of None \<Rightarrow> [] | Some stack \<Rightarrow> stack))"
    using stack_keyed [OF s, of tid] by (auto simp: journal_keyed_def split: option.split)
  from stacks_update [OF s this, of tid] s show ?thesis by (simp add: ov_checkpoint_def Let_def simulating_def)
qed

lemma merge_keyed: "journal_keyed j \<Longrightarrow> journal_keyed p \<Longrightarrow> journal_keyed (merge_journal j p)"
proof (induction j p rule: merge_journal.induct)
  case (2 addr prev latest parent)
  have "journal_keyed (AList.update addr prev parent)"
    unfolding journal_keyed_def
  proof (intro allI impI)
    fix a e
    assume "(a, Some e) \<in> set (AList.update addr prev parent)"
    then have "(a, Some e) = (addr, prev) \<or> (a, Some e) \<in> set parent" using update_set [of addr prev parent] by blast
    then show "keyed (a, e)" using 2(2,3) by (auto simp: journal_keyed_def)
  qed
  moreover have "journal_keyed latest" using 2(2) by (simp add: journal_keyed_def)
  ultimately show ?case using 2(1,3) by simp
qed simp

lemma close_simulating:
  assumes "simulating inner s"
  shows "simulating inner (snd (ov_commit_checkpoint tid n s))" "simulating inner (snd (ov_revert_checkpoint tid n s))"
proof -
  show "simulating inner (snd (ov_commit_checkpoint tid n s))"
  proof (cases "map_of (ov_journals s) tid")
    case (Some stack)
    have "list_all journal_keyed (case stack of [] \<Rightarrow> [] | [latest] \<Rightarrow> []
        | latest # parent # rest \<Rightarrow> merge_journal latest parent # rest)"
      using stack_keyed [OF assms Some] merge_keyed by (auto split: list.split)
    from stacks_update [OF assms this, of tid] assms Some show ?thesis
      by (simp add: ov_commit_checkpoint_def Let_def simulating_def)
  qed (use assms in \<open>simp add: ov_commit_checkpoint_def\<close>)
  show "simulating inner (snd (ov_revert_checkpoint tid n s))"
  proof (cases "map_of (ov_journals s) tid")
    case (Some stack)
    obtain j rest where p: "(case stack of [] \<Rightarrow> ([], []) | latest # rest \<Rightarrow> (latest, rest)) = (j, rest)"
      by (cases stack) auto
    then have "journal_keyed j" "list_all journal_keyed rest"
      using stack_keyed [OF assms Some] by (auto simp: journal_keyed_def split: list.splits)
    then show ?thesis
      using stacks_update [OF assms, of rest tid] restore_keyed [of "ov_accounts s" j] assms Some p
      by (simp add: ov_revert_checkpoint_def Let_def simulating_def)
  qed (use assms in \<open>simp add: ov_revert_checkpoint_def\<close>)
qed

lemma get_overlay_same: "snd (ov_get_account a s) = s"
  by (simp add: ov_get_account_def Let_def split: option.split)

interpretation proposed: chain_store ov_get_account "ov_set_account tid" "\<lambda>s. clip (ov_view s)"
    "\<lambda>s. ov_sound tid s \<and> simulating inner s" "ov_checkpoint tid" "ov_commit_checkpoint tid" "ov_revert_checkpoint tid"
    "\<lambda>s. map_option (\<lambda>(n, v). (n, clip v)) (ov_opened tid s)" ov_get_validator_candidates
  for tid inner
  unfolding chain_store_def
  by (rule stronger_store) (simp_all add: ov.snapshot_store_axioms get_overlay_same put_simulating checkpoint_simulating close_simulating)

section \<open>The manager\<close>

text \<open>
  Until the next root or flush, the rows and the trie are the ones of the start, and a chain account that is
  not stale is the one of the start. No other checkpoint is open.
\<close>

definition entry_fine :: "state_env \<Rightarrow> address \<Rightarrow> cache_entry \<Rightarrow> bool" where
  "entry_fine E a e \<longleftrightarrow> (\<forall>x. ce_slot e = Present x \<longrightarrow> proper a \<or> faithful E x)"

definition tidy :: "nat \<Rightarrow> (nat \<times> (address \<times> account option) list) list \<Rightarrow> bool" where
  "tidy n js \<longleftrightarrow> (if n = 0 then js = [] else \<exists>j. js = [(n, j)] \<and> (\<forall>a \<in> fst ` set j. proper a))"

definition committing :: "state_env \<Rightarrow> thread \<Rightarrow> state_manager \<Rightarrow> state_manager \<Rightarrow> bool" where
  "committing E tid s0 s \<longleftrightarrow>
     sm_trie s = sm_trie s0 \<and> sm_storage s = sm_storage s0 \<and> set (sm_trie_dirty s0) \<subseteq> set (sm_trie_dirty s) \<and>
     (\<forall>a. chain_key a \<longrightarrow> a \<notin> set (sm_trie_dirty s) \<longrightarrow> sm_view E s a = sm_view E s0 a) \<and>
     (\<forall>a e. map_of (sm_cache s) a = Some e \<longrightarrow> entry_fine E a e) \<and>
     tidy (sm_active s tid) (sm_journal s)"

lemma evict_committing: "sm_ok E s \<Longrightarrow> committing E tid s0 s \<Longrightarrow> committing E tid s0 (maybe_evict_cache s)"
proof -
  assume ok: "sm_ok E s" and c: "committing E tid s0 s"
  have view: "sm_view E (maybe_evict_cache s) = sm_view E s" using evict_ok(2) [OF ok] .
  have "map_of (sm_cache (maybe_evict_cache s)) a = Some e \<Longrightarrow> map_of (sm_cache s) a = Some e" for a e
    by (cases rule: evict_cases [of s]) (auto dest: remove_clean_Some)
  then show ?thesis using c unfolding committing_def view by simp
qed

lemma get_committing:
  assumes "sm_ok E s" "committing E tid s0 s" "account_key (canonicalize a)"
  shows "committing E tid s0 (snd (sm_get_account E a s))"
proof -
  have "snd (sm_get_account E a s) = s \<or> (\<exists>x. disk_view E (sm_storage s) (canonicalize a) = Some x \<and>
      map_of (sm_cache s) (canonicalize a) = None \<and>
      snd (sm_get_account E a s) = maybe_evict_cache (cache_insert (canonicalize a) (Present x) False s))"
    by (auto simp: sm_get_account_def canonicalize_address_eq Let_def st_get_def disk_view_def split: option.splits)
  moreover have "committing E tid s0 (maybe_evict_cache (cache_insert (canonicalize a) (Present x) False s))"
    if x: "disk_view E (sm_storage s) (canonicalize a) = Some x" "map_of (sm_cache s) (canonicalize a) = None" for x
  proof (rule evict_committing)
    have same: "sm_view E (cache_insert (canonicalize a) (Present x) False s) = sm_view E s"
      using x by (auto simp: cache_insert_view slot_account_def sm_view_def fun_eq_iff)
    show "sm_ok E (cache_insert (canonicalize a) (Present x) False s)"
      by (rule cache_insert_ok [OF assms(1)]) (simp add: slot_account_def x)
    have "entry_fine E (canonicalize a) e" for e using assms(3) by (simp add: entry_fine_def proper_def)
    then show "committing E tid s0 (cache_insert (canonicalize a) (Present x) False s)"
      using assms(2) unfolding committing_def same by (simp add: cache_insert_def)
  qed
  ultimately show ?thesis using assms(2) by auto
qed

lemma put_committing:
  assumes ok: "sm_ok E s" and c: "committing E tid s0 s" and key: "account_key (canonicalize a)"
  shows "committing E tid s0 (snd (sm_set_account E tid a x s))"
proof -
  let ?c = "canonicalize a"
  let ?w = "written_state E tid ?c x s"
  have view: "sm_view E ?w = (sm_view E s)(?c \<mapsto> x)" by (rule written_state_ok(2) [OF ok])
  have dirty: "set (sm_trie_dirty ?w) = set (sm_trie_dirty s) \<union> (if chain_key ?c then {?c} else {})"
    by (simp add: written_state_def mark_chain_state_def chain_key_def)
  have cache: "map_of (sm_cache ?w) = (map_of (sm_cache s))(?c \<mapsto> \<lparr>ce_slot = Present x, ce_dirty = True\<rparr>)"
    by (simp add: written_state_def cache_insert_def)
  have p: "proper ?c" using key by (simp add: proper_def)
  have "tidy (sm_active ?w tid) (sm_journal ?w)"
  proof (cases "sm_active s tid = 0")
    case True
    then show ?thesis using c by (simp add: written_state_def recorded_def committing_def tidy_def)
  next
    case False
    then obtain j where j: "sm_journal s = [(sm_active s tid, j)]" "\<forall>a \<in> fst ` set j. proper a"
      using c by (auto simp: committing_def tidy_def)
    moreover have "\<forall>b \<in> fst ` set (AList.update ?c y j). proper b" for y
      using j(2) p update_set [of ?c y j] by auto
    ultimately show ?thesis using False by (simp add: written_state_def recorded_def tidy_def)
  qed
  then have "committing E tid s0 ?w"
    using c p unfolding committing_def view dirty cache
    by (auto simp: written_state_def entry_fine_def)
  then have "committing E tid s0 (maybe_evict_cache ?w)" by (rule evict_committing [OF written_state_ok(1) [OF ok]])
  then show ?thesis using sm_set_eq [OF ok key, of tid x] by simp
qed

lemma checkpoint_committing:
  assumes "sm_sound E tid s" "committing E tid s0 s" "sm_opened E tid s = None"
  shows "committing E tid s0 (snd (sm_checkpoint tid s))"
proof -
  have "sm_active s tid = 0" using assms(1,3) by (auto simp: sm_opened_def sm_sound_def split: option.splits if_splits)
  then show ?thesis
    using assms(1,2) checkpoint_ok(2) [of E s tid]
    by (auto simp: committing_def checkpoint_fields sm_sound_def tidy_def)
qed

lemma commit_committing:
  assumes "sm_sound E tid s" "committing E tid s0 s" "sm_opened E tid s = Some (n, v)"
  shows "committing E tid s0 (snd (sm_commit_checkpoint tid n s))"
proof -
  have "sm_active s tid \<noteq> 0" "n = sm_active s tid" using assms(3) by (auto simp: sm_opened_def split: option.splits if_splits)
  then show ?thesis
    using assms(1,2) sm_commit_ok(2) [of E s tid n]
    by (auto simp: committing_def sm_commit_fields sm_sound_def tidy_def)
qed

lemma fold_restore_fine:
  "\<forall>a e. map_of (sm_cache s) a = Some e \<longrightarrow> entry_fine E a e \<Longrightarrow> \<forall>a \<in> fst ` set j. proper a \<Longrightarrow>
    \<forall>a e. map_of (sm_cache (fold restore_entry j s)) a = Some e \<longrightarrow> entry_fine E a e"
proof (induction j arbitrary: s)
  case (Cons x j)
  obtain b old where x: "x = (b, old)" by (cases x)
  have "\<forall>a e. map_of (sm_cache (restore_entry x s)) a = Some e \<longrightarrow> entry_fine E a e"
    using Cons.prems by (auto simp: x restore_entry_cache cache_insert_def entry_fine_def)
  then show ?case using Cons.IH [of "restore_entry x s"] Cons.prems(2) by simp
qed simp

lemma revert_committing:
  assumes "sm_sound E tid s" "committing E tid s0 s" "sm_opened E tid s = Some (n, v)"
  shows "committing E tid s0 (snd (sm_revert_checkpoint tid n s))"
proof -
  have n: "sm_active s tid \<noteq> 0" "n = sm_active s tid" using assms(3) by (auto simp: sm_opened_def split: option.splits if_splits)
  then obtain j where j: "sm_journal s = [(n, j)]" "\<forall>a \<in> fst ` set j. proper a"
    using assms(2) by (auto simp: committing_def tidy_def)
  then have jn: "map_of (sm_journal s) n = Some j" by simp
  have ok: "sm_ok E s" using assms(1) by (simp add: sm_sound_def)
  then have d: "distinct (map fst j)" using jn by (auto simp: sm_ok_def journals_ok_def)
  let ?s = "reverted tid n j s"
  have view: "sm_view E ?s = restored j (sm_view E s)" using reverted_ok(2) [OF ok d] .
  have dirty: "set (sm_trie_dirty ?s) = set (sm_trie_dirty s) \<union> {a \<in> fst ` set j. chain_key a}"
    by (simp add: reverted_def close_checkpoint_in_gate_def restore_fold_dirty)
  have fields: "sm_trie ?s = sm_trie s" "sm_storage ?s = sm_storage s" "sm_active ?s tid = 0" "sm_journal ?s = []"
    using j by (simp_all add: reverted_def close_checkpoint_in_gate_def restore_fold_fields)
  have same: "restored j (sm_view E s) a = sm_view E s a" if "a \<notin> fst ` set j" for a
    using that by (simp add: restored_def map_of_eq_None_iff [THEN iffD2])
  have "\<forall>a e. map_of (sm_cache ?s) a = Some e \<longrightarrow> entry_fine E a e"
    using fold_restore_fine [of "s\<lparr>sm_journal := AList.delete n (sm_journal s)\<rparr>" E j] assms(2) j(2)
    by (simp add: reverted_def close_checkpoint_in_gate_def committing_def)
  then have "committing E tid s0 ?s"
    using assms(2) same unfolding committing_def view dirty fields by (auto simp: tidy_def)
  then show ?thesis using revert_eq [OF jn] by simp
qed

interpretation committed: chain_store "sm_get_account E" "sm_set_account E tid" "\<lambda>s. clip (sm_view E s)"
    "\<lambda>s. sm_sound E tid s \<and> committing E tid s0 s" "sm_checkpoint tid" "sm_commit_checkpoint tid" "sm_revert_checkpoint tid"
    "\<lambda>s. map_option (\<lambda>(n, v). (n, clip v)) (sm_opened E tid s)" "sm_get_validator_candidates E"
  for E tid s0
  unfolding chain_store_def
proof (rule stronger_store)
  show "snapshot_store (sm_get_account E) (sm_set_account E tid) (sm_view E) (sm_sound E tid) account_key
      (sm_checkpoint tid) (sm_commit_checkpoint tid) (sm_revert_checkpoint tid) (sm_opened E tid)"
    by (rule sm.snapshot_store_axioms)
qed (simp_all add: sm_sound_def [of E tid] get_committing put_committing,
    (auto simp: sm_sound_def intro: checkpoint_committing commit_committing revert_committing))

lemma block_hosts:
  "committed.host E tid = manager_host E tid" "proposed.host tid = overlay_host tid"
  by (simp_all add: committed.host_def manager_host_def proposed.host_def overlay_host_def)

end
