(* ===== verification/SimCommit.thy ===== *)
theory SimCommit
  imports TwoStores
begin

text \<open>
  What a node computes on the overlay, to propose a block or to vote for it, is what every node finds when
  it commits the block.
\<close>

section \<open>The run of a block up to its root\<close>

definition block_run ::
  "'m native_libs_scheme \<Rightarrow> ('s \<times> volatile) host \<Rightarrow> runtime \<Rightarrow> 's evm_call \<Rightarrow> nat \<Rightarrow> nat \<Rightarrow>
     transaction list \<Rightarrow> quorum_certificate option \<Rightarrow> shadow_vote_attestation list \<Rightarrow> (nat \<times> nat \<times> nat) option \<Rightarrow>
     ('s \<times> volatile, unit) action" where
  "block_run L H N call n t txs qc sh pr =
     andthen (block_work L H N call n t txs qc sh pr) (\<lambda>_. pass_epoch L H t qc)"

text \<open>No epoch ends with the block: where one does, the stores are asked for their candidates.\<close>

definition within_epoch ::
  "'m native_libs_scheme \<Rightarrow> runtime \<Rightarrow> plain evm_call \<Rightarrow> nat \<Rightarrow> nat \<Rightarrow> transaction list \<Rightarrow>
     quorum_certificate option \<Rightarrow> shadow_vote_attestation list \<Rightarrow> (nat \<times> nat \<times> nat) option \<Rightarrow> plain \<times> volatile \<Rightarrow> bool" where
  "within_epoch L N call n t txs qc sh pr sw \<longleftrightarrow>
     (case block_work L (shared plain_host) N call n t txs qc sh pr sw of
        (Inl e, _) \<Rightarrow> True
      | (Inr _, sw') \<Rightarrow> qc = None \<or> fst (epoch_due L (shared plain_host) t sw') = Inr False)"

definition advance_quiet :: "'m gov_libs_scheme \<Rightarrow> 's host \<Rightarrow> nat \<Rightarrow> ('s, active_validator_set) action" where
  "advance_quiet L H t =
     andthen (load_chain_params L H) (\<lambda>params.
     andthen (genesis_timestamp H) (\<lambda>genesis_ts.
     andthen (load_active_set L H) (\<lambda>vset.
       if epoch_at t genesis_ts (p_epoch_seconds params) \<le> vs_epoch vset then give vset else stop (Other ''epoch''))))"

lemma advance_is_quiet:
  "fst (epoch_due L H t s) = Inr False \<Longrightarrow> advance_epoch_if_due L H t s = advance_quiet L H t s"
  by (auto simp: epoch_due_def advance_quiet_def advance_epoch_if_due_def andthen_def give_def Let_def
      split: prod.splits sum.splits)

context chain_store
begin

lemma mirrors_quiet [intro!]: "mirrors (advance_quiet L (shared host) t) (advance_quiet L (shared plain_host) t)"
  unfolding advance_quiet_def by auto

lemma pass_epoch_mirrored:
  assumes s: "settled s" "producer_ok w"
    and quiet: "qc = None \<or> fst (epoch_due L (shared plain_host) t (plainly s, w)) = Inr False"
    and run: "pass_epoch L (shared host) t qc (s, w) = (r, (s', w'))"
  shows "producer_ok w' \<and> settled s' \<and> pass_epoch L (shared plain_host) t qc (plainly s, w) = (r, (plainly s', w'))"
proof (cases qc)
  case None
  then show ?thesis using s run by (simp add: pass_epoch_def give_def)
next
  case (Some q)
  let ?quiet = "\<lambda>H. andthen (advance_quiet L H t) (\<lambda>_. give ())"
  have due: "fst (epoch_due L (shared plain_host) t (plainly s, w)) = Inr False" using quiet Some by simp
  obtain q s1 w1 where e: "epoch_due L (shared host) t (s, w) = (q, (s1, w1))" by (metis prod.exhaust)
  have "epoch_due L (shared plain_host) t (plainly s, w) = (q, (plainly s1, w1))"
    using mirrors_txD [OF mirrors_tx [OF mirrors_epoch_due] s e] by simp
  then have due': "fst (epoch_due L (shared host) t (s, w)) = Inr False" using due e by simp
  have at: "pass_epoch L H t qc x = ?quiet H x" if "fst (epoch_due L H t x) = Inr False"
    for x and H :: "('c \<times> volatile) host"
    using advance_is_quiet [OF that] Some by (simp add: pass_epoch_def andthen_def)
  have "?quiet (shared host) (s, w) = (r, (s', w'))" using at [OF due'] run by simp
  moreover have "mirrors (?quiet (shared host)) (?quiet (shared plain_host))" by auto
  ultimately have "producer_ok w' \<and> settled s' \<and> ?quiet (shared plain_host) (plainly s, w) = (r, (plainly s', w'))"
    by (intro mirrors_txD [OF mirrors_tx s])
  then show ?thesis using at [OF due] by simp
qed

lemma block_run_mirrored:
  assumes txs: "\<forall>tx \<in> set txs. plain_kind (tx_kind tx)" "\<And>xs. set (rn_interleave N xs) \<subseteq> set xs" and L: "sets_name_accounts L"
    and s: "settled s" "producer_ok w"
    and quiet: "within_epoch L N call' n t txs qc sh pr (plainly s, w)"
    and run: "block_run L (shared host) N call n t txs qc sh pr (s, w) = (r, (s', w'))"
  shows "producer_ok w' \<and> settled s' \<and>
    block_run L (shared plain_host) N call' n t txs qc sh pr (plainly s, w) = (r, (plainly s', w'))"
proof -
  let ?work = "\<lambda>H call. block_work L H N call n t txs qc sh pr"
  obtain q s1 w1 where q: "?work (shared host) call (s, w) = (q, (s1, w1))" by (metis prod.exhaust)
  from mirrors_txD [OF mirrors_tx_work [OF txs L] s q]
  have 1: "producer_ok w1" "settled s1" "?work (shared plain_host) call' (plainly s, w) = (q, (plainly s1, w1))" by simp_all
  show ?thesis
  proof (cases q)
    case (Inl e)
    have "r = Inl e \<and> s' = s1 \<and> w' = w1" using run q Inl by (simp add: block_run_def andthen_def)
    then show ?thesis using 1 Inl by (simp add: block_run_def andthen_def)
  next
    case (Inr u)
    have "pass_epoch L (shared host) t qc (s1, w1) = (r, (s', w'))"
      using run q Inr by (simp add: block_run_def andthen_def)
    moreover have "qc = None \<or> fst (epoch_due L (shared plain_host) t (plainly s1, w1)) = Inr False"
      using quiet 1(3) Inr by (simp add: within_epoch_def)
    ultimately have "producer_ok w' \<and> settled s' \<and> pass_epoch L (shared plain_host) t qc (plainly s1, w1) = (r, (plainly s', w'))"
      using pass_epoch_mirrored [OF 1(2,1)] by blast
    then show ?thesis using 1(3) Inr by (simp add: block_run_def andthen_def)
  qed
qed

end

section \<open>Trees in step with accounts\<close>

definition in_step :: "state_env \<Rightarrow> address set \<Rightarrow> merkle_trie \<Rightarrow> (address \<rightharpoonup> account) \<Rightarrow> bool" where
  "in_step E R t v \<longleftrightarrow> trie_inv (sv_keccak E) t \<and> dom (trie_view t) \<subseteq> account_leaf_key E ` R \<and>
     (\<forall>a \<in> R. trie_view t (account_leaf_key E a) = map_option (leaf E) (v a))"

lemma stale_in_step: "stale E R {} s \<Longrightarrow> in_step E R (sm_trie s) (sm_view E s)"
  by (simp add: stale_def in_step_def)

lemma in_step_unique:
  assumes "in_step E R t v" "in_step E R u w" "\<forall>a \<in> R. v a = w a"
  shows "t = u"
proof (rule trie_eq_of_view [of "sv_keccak E"])
  show "trie_view t = trie_view u"
  proof
    fix k
    show "trie_view t k = trie_view u k"
    proof (cases "k \<in> account_leaf_key E ` R")
      case True
      then obtain a where "a \<in> R" "k = account_leaf_key E a" by blast
      then show ?thesis using assms by (auto simp: in_step_def)
    next
      case False
      then have "k \<notin> dom (trie_view t)" "k \<notin> dom (trie_view u)" using assms(1,2) unfolding in_step_def by blast+
      then show ?thesis by (simp add: domIff)
    qed
  qed
qed (use assms(1,2) in \<open>simp_all add: in_step_def\<close>)

lemma overrides_in_step:
  assumes ro: "roster_ok E R"
    and "list_all keyed os" "distinct (map fst os)" "\<And>a x. (a, Some x) \<in> set os \<Longrightarrow> faithful E x \<and> (chain_key a \<longrightarrow> a \<in> R)"
    and "in_step E R t v"
  shows "\<exists>t'. fold_result (override_leaf E) os t = Inr t' \<and>
    in_step E R t' (\<lambda>a. case map_of os a of Some e \<Rightarrow> e | None \<Rightarrow> v a)"
  using assms(2-)
proof (induction os arbitrary: t v)
  case Nil
  then show ?case by simp
next
  case (Cons e os)
  obtain a x where e: "e = (a, Some x)" and a: "proper a"
    using Cons.prems(1) by (cases e) (auto simp: keyed_def)
  have fx: "faithful E x" and aR: "chain_key a \<Longrightarrow> a \<in> R" using Cons.prems(3) [of a x] e by auto
  have fresh: "map_of os a = None" using Cons.prems(2) e by (simp add: map_of_eq_None_iff)
  have rest: "(\<lambda>b. case map_of os b of Some e \<Rightarrow> e | None \<Rightarrow> (v(a \<mapsto> x)) b) = (\<lambda>b. case map_of (e # os) b of Some f \<Rightarrow> f | None \<Rightarrow> v b)"
    using fresh e by (auto simp: fun_eq_iff split: option.split)
  have canon: "canonicalize_address a = a" using a by (simp add: canonicalize_address_eq proper_def)
  have step: "\<exists>t1. override_leaf E e t = Inr t1 \<and> in_step E R t1 (v(a \<mapsto> x))"
  proof (cases "chain_key a")
    case False
    then have "a \<notin> R" using ro by (auto simp: roster_ok_def)
    then show ?thesis
      using False Cons.prems(4) by (auto simp: override_leaf_def e canon chain_key_def in_step_def Let_def)
  next
    case True
    then have R: "a \<in> R" by (rule aR)
    obtain t1 where t1: "update_leaf E a (Some x) t = Inr t1" "trie_inv (sv_keccak E) t1"
        "trie_view t1 = (trie_view t)(account_leaf_key E a \<mapsto> leaf E x)"
      using update_leaf_ok [OF ro, of t "Some x" a] Cons.prems(4) fx by (auto simp: in_step_def)
    have inj: "account_leaf_key E b = account_leaf_key E a \<Longrightarrow> b \<in> R \<Longrightarrow> b = a" for b
      using ro R by (auto simp: roster_ok_def inj_on_def)
    have "in_step E R t1 (v(a \<mapsto> x))"
      using Cons.prems(4) t1 R inj by (auto simp: in_step_def)
    then show ?thesis using t1 True by (auto simp: override_leaf_def e canon chain_key_def Let_def)
  qed
  then obtain t1 where t1: "override_leaf E e t = Inr t1" "in_step E R t1 (v(a \<mapsto> x))" by blast
  have "\<exists>t'. fold_result (override_leaf E) os t1 = Inr t' \<and> in_step E R t' (\<lambda>b. case map_of os b of Some e \<Rightarrow> e | None \<Rightarrow> (v(a \<mapsto> x)) b)"
    using Cons.prems by (intro Cons.IH t1(2)) auto
  then show ?case unfolding rest using t1(1) by simp
qed

section \<open>Keys that are not chain accounts\<close>

lemma decimal_zero: "decimal n = ''0'' \<Longrightarrow> n = 0"
proof (cases "n < 10")
  case True
  assume "decimal n = ''0''"
  then have "of_char (char_of (48 + n) :: char) = (of_char CHR ''0'' :: nat)" using True by (simp add: decimal.simps [of n])
  then show ?thesis using True by simp
next
  case False
  assume d: "decimal n = ''0''"
  have "decimal m \<noteq> []" for m by (simp add: decimal.simps [of m])
  then show ?thesis using d False by (cases "decimal (n div 10)") (auto simp: decimal.simps [of n])
qed

definition sealed_key :: "address \<Rightarrow> bool" where
  "sealed_key a \<longleftrightarrow> canonicalize a = a \<and> account_key a \<and> \<not> chain_key a"

lemma sealed_keys:
  "1 \<le> n \<Longrightarrow> sealed_key (block_key n)" "sealed_key (block_hash_key hex h)" "sealed_key (block_receipts_key n)"
  "sealed_key recent_transfers_next_index_key"
proof -
  show "sealed_key (block_key n)" if "1 \<le> n"
    using that decimal_zero [of n]
    by (auto simp: sealed_key_def block_key_def account_key_def chain_key_def starts_with_def is_space_def canonicalize_other)
qed (simp_all add: sealed_key_def block_hash_key_def block_receipts_key_def recent_transfers_next_index_key_def account_key_def
    chain_key_def starts_with_def is_space_def canonicalize_other)

section \<open>The manager after the run\<close>

text \<open>What sealing and writing keep of the manager.\<close>

definition kept :: "state_env \<Rightarrow> address set \<Rightarrow> state_manager \<Rightarrow> state_manager \<Rightarrow> bool" where
  "kept E R s s' \<longleftrightarrow> tracked E R s' \<and> (\<forall>a. chain_key a \<longrightarrow> sm_view E s' a = sm_view E s a) \<and> sm_storage s' = sm_storage s"

lemma kept_refl: "tracked E R s \<Longrightarrow> kept E R s s"
  by (simp add: kept_def)

lemma kept_trans: "kept E R s s1 \<Longrightarrow> kept E R s1 s2 \<Longrightarrow> kept E R s s2"
  by (simp add: kept_def)

lemma get_keeps:
  assumes "roster_ok E R" "tracked E R s" "sealed_key a"
  shows "\<exists>x s'. sm_get_account E a s = (Inr x, s') \<and> kept E R s s'"
proof -
  have key: "account_key (canonicalize a)" using assms(3) by (simp add: sealed_key_def)
  have "\<forall>b \<in> R. chain_key b" using assms(1) by (simp add: roster_ok_def)
  from get_tracked [OF assms(2) key this] obtain s' where
    1: "sm_get_account E a s = (Inr (sm_view E s (canonicalize a)), s')" "tracked E R s'" "sm_view E s' = sm_view E s" by blast
  have "sm_ok E s" using assms(2) by (simp add: tracked_def)
  from sm_get_ok [OF this key] 1(1) have "sm_storage s' = sm_storage s" by auto
  with 1 show ?thesis by (simp add: kept_def)
qed

lemma put_keeps:
  assumes "roster_ok E R" "tracked E R s" "sealed_key a" "faithful E x"
  shows "\<exists>s'. sm_set_account E tid a x s = (Inr (), s') \<and> kept E R s s'"
proof -
  have key: "canonicalize a = a" "account_key (canonicalize a)" and n: "\<not> chain_key a" using assms(3) by (simp_all add: sealed_key_def)
  have ok: "sm_ok E s" using assms(2) by (simp add: tracked_def)
  note eq = sm_set_eq [OF ok key(2), of tid x]
  have chain: "\<forall>b \<in> R. chain_key b" using assms(1) by (simp add: roster_ok_def)
  have "tracked E R (snd (sm_set_account E tid a x s))"
    using set_tracked [OF assms(2,4) key(2) _ chain] key(1) n by simp
  moreover have "sm_view E (snd (sm_set_account E tid a x s)) = (sm_view E s)(a \<mapsto> x)"
    using evict_ok(2) [OF written_state_ok(1) [OF ok]] written_state_ok(2) [OF ok] key(1) by (simp add: eq)
  moreover have "sm_storage (snd (sm_set_account E tid a x s)) = sm_storage s" by (simp add: eq written_state_def)
  ultimately show ?thesis using eq n by (auto simp: kept_def)
qed

lemma get_storage: "sm_storage (snd (sm_get_account E a s)) = sm_storage s"
  by (simp add: sm_get_account_def Let_def split: option.split sum.split)

lemma sync_storage: "sm_storage (snd (sync_trie_loop E as s)) = sm_storage s"
proof (induction as arbitrary: s)
  case (Cons a as)
  let ?s = "s\<lparr>sm_trie_dirty := removeAll a (sm_trie_dirty s)\<rparr>"
  have "sm_storage (snd (sm_get_account E a ?s)) = sm_storage s" by (simp add: get_storage)
  then show ?case using Cons by (auto simp: andthen_def split: prod.split sum.split)
qed simp

lemma root_storage: "sm_storage (snd (sm_state_root E s)) = sm_storage s"
  using sync_storage [of E "sm_trie_dirty s" s]
  by (auto simp: sm_state_root_def sync_trie_dirty_def andthen_def split: prod.splits sum.splits)

text \<open>The libraries and the disk do not fail on what sealing writes.\<close>

definition sealable :: "'m runtime_libs_scheme \<Rightarrow> state_env \<Rightarrow> storage_engine \<Rightarrow> nat \<Rightarrow> bool" where
  "sealable L E disk n \<longleftrightarrow> 1 \<le> n \<and> (\<forall>x. lt_ser_header L x \<noteq> None) \<and> (\<forall>x. lx_ser_hashes L x \<noteq> None) \<and>
     (\<forall>b. faithful E (code_account b)) \<and> faithful E (default_account\<lparr>ac_balance := n\<rparr>) \<and>
     st_write_fault disk = None \<and> st_fault disk ''block_0'' = None"

lemma receipts_kept:
  assumes "roster_ok E R" "tracked E R s" "sealable L E d n"
  shows "\<exists>s'. record_block_receipts (lx_ser_hashes L) (sm_set_account E tid) n hs s = (Inr (), s') \<and> kept E R s s'"
proof (cases "hs = []")
  case True
  then show ?thesis using assms(2) by (simp add: record_block_receipts_def give_def kept_refl)
next
  case False
  have "lx_ser_hashes L hs \<noteq> None" using assms(3) by (simp add: sealable_def)
  then obtain b where "lx_ser_hashes L hs = Some b" by blast
  moreover have "faithful E (code_account b)" using assms(3) by (simp add: sealable_def)
  ultimately show ?thesis
    using put_keeps [OF assms(1,2) sealed_keys(3)] False by (simp add: record_block_receipts_def store_manifest_def)
qed

lemma parent_kept:
  assumes "roster_ok E R" "tracked E R s" "sealable L E (sm_storage s) n"
  shows "\<exists>h s'. parent_block_hash_in L (manager_store L E tid) (shared (manager_host E tid)) n (s, w) = (Inr h, (s', w)) \<and>
    kept E R s s'"
proof (cases "n \<le> 1")
  case True
  then show ?thesis
    using assms(2,3) by (simp add: parent_block_hash_in_def manager_store_def get_genesis_block_0_bytes_def st_get_def
        sealable_def on_store_def andthen_def give_def kept_refl)
next
  case False
  then have "sealed_key (block_key (n - 1))" by (intro sealed_keys) simp
  from get_keeps [OF assms(1,2) this] obtain x s' where
    "sm_get_account E (block_key (n - 1)) s = (Inr x, s')" "kept E R s s'" by blast
  then show ?thesis
    using False by (simp add: parent_block_hash_in_def shared_def manager_host_def on_store_def andthen_def give_def)
qed

lemma header_kept:
  assumes "roster_ok E R" "tracked E R s" "sealable L E d (ah_number x)"
  shows "\<exists>h s'. archive_header L (shared (manager_host E tid)) x (s, w) = (Inr h, (s', w)) \<and> kept E R s s'"
proof -
  have "lt_ser_header L x \<noteq> None" using assms(3) by (simp add: sealable_def)
  then obtain b where b: "lt_ser_header L x = Some b" by blast
  let ?h = "keccak (lb_crypto L) b"
  have "sealed_key (block_key (ah_number x))" using assms(3) by (intro sealed_keys) (simp add: sealable_def)
  from put_keeps [OF assms(1,2) this] assms(3) obtain s1 where
    1: "sm_set_account E tid (block_key (ah_number x)) (code_account b) s = (Inr (), s1)" "kept E R s s1"
    by (metis sealable_def)
  have "tracked E R s1" using 1(2) by (simp add: kept_def)
  from put_keeps [OF assms(1) this sealed_keys(2)] assms(3) obtain s2 where
    2: "sm_set_account E tid (block_hash_key (lb_hex L) ?h) (default_account\<lparr>ac_balance := ah_number x\<rparr>) s1 = (Inr (), s2)"
      "kept E R s1 s2"
    by (metis sealable_def)
  show ?thesis
    using 1 2 kept_trans [OF 1(2) 2(2)]
    by (simp add: archive_header_def b Let_def shared_def manager_host_def on_store_def andthen_def give_def)
qed

lemma seal_manager:
  assumes ro: "roster_ok E R" and s: "tracked E R s" and ok: "sealable L E (sm_storage s) n"
  shows "\<exists>s2 ks s3. seal_block L (manager_store L E tid) pc n t txs hs (s, w) =
      (Inr (root_hash (sv_keccak E) (sm_trie s2), ks), (s3, w)) \<and>
    stale E R {} s2 \<and> (\<forall>a. chain_key a \<longrightarrow> sm_view E s2 a = sm_view E s a) \<and>
    tracked E R s3 \<and> sm_storage s3 = sm_storage s"
proof -
  let ?H = "shared (manager_host E tid)"
  let ?first = "if pc_retention_blocks pc = None then give () else on_store (bs_record_receipts (manager_store L E tid) n hs)"
  have "\<exists>s0. ?first (s, w) = (Inr (), (s0, w)) \<and> kept E R s s0"
  proof (cases "pc_retention_blocks pc")
    case None
    then show ?thesis using kept_refl [OF s] by (simp add: give_def)
  next
    case (Some r)
    then show ?thesis using receipts_kept [OF ro s ok, of tid hs] by (auto simp: manager_store_def on_store_def)
  qed
  then obtain s0 where 0: "?first (s, w) = (Inr (), (s0, w))" "kept E R s s0" by blast
  have ok0: "sealable L E (sm_storage s0) n" "tracked E R s0" using ok 0(2) by (simp_all add: kept_def)
  obtain h s1 where 1: "parent_block_hash_in L (manager_store L E tid) ?H n (s0, w) = (Inr h, (s1, w))" "kept E R s0 s1"
    using parent_kept [OF ro ok0(2,1)] by blast
  have t1: "tracked E R s1" using 1(2) by (simp add: kept_def)
  obtain s2 where 2: "sm_state_root E s1 = (Inr (root_hash (sv_keccak E) (sm_trie s2)), s2)" "tracked E R s2"
      "stale E R {} s2" "sm_view E s2 = sm_view E s1"
    using state_root_ok [OF ro t1] by blast
  have st2: "sm_storage s2 = sm_storage s1" using root_storage [of E s1] 2(1) by simp
  have root: "on_store (bs_state_root (manager_store L E tid)) (s1, w) = (Inr (root_hash (sv_keccak E) (sm_trie s2)), (s2, w))"
    using 2(1) by (simp add: manager_store_def on_store_def)
  have store_host: "bs_host (manager_store L E tid) = manager_host E tid" by (simp add: manager_store_def)
  let ?hd = "\<lparr>ah_number = n, ah_parent_hash = h, ah_state_root = root_hash (sv_keccak E) (sm_trie s2), ah_timestamp = t, ah_tx_hashes = hs\<rparr>"
  obtain bh s3 where 3: "archive_header L ?H ?hd (s2, w) = (Inr bh, (s3, w))" "kept E R s2 s3"
    using header_kept [OF ro 2(2), of L "sm_storage s0" ?hd tid w] ok0(1) by auto
  have "seal_block L (manager_store L E tid) pc n t txs hs (s, w) =
      (Inr (root_hash (sv_keccak E) (sm_trie s2), archive_keys L n bh txs), (s3, w))"
    by (simp only: seal_block_def store_host andthen_cases 0(1) 1(1) root 3(1) give_def prod.case sum.case)
  moreover have "\<forall>a. chain_key a \<longrightarrow> sm_view E s2 a = sm_view E s a" "sm_storage s3 = sm_storage s"
    using 0(2) 1(2) 2(4) 3(2) st2 by (simp_all add: kept_def)
  ultimately show ?thesis using 2(3) 3(2) by (auto simp: kept_def)
qed

section \<open>The commitment\<close>

lemma prune_never_fails: "\<exists>s'. maybe_prune L E tid pc h now n s = (Inr (), s')"
proof -
  have a: "\<exists>x s'. attempt m s = (Inr x, s')" for m :: "(state_manager, 'x) action" and s
    by (cases "m s"; cases "fst (m s)") (auto simp: attempt_def)
  have c: "\<exists>s'. count_pruned H k m s = (Inr (), s')" for H :: "state_manager host" and k m s
    unfolding count_pruned_def andthen_def Let_def give_def
    by (metis (mono_tags, lifting) a old.prod.case old.sum.simps(6))
  show ?thesis
  proof (cases "pc_retention_blocks pc = None \<or> pc_interval_blocks pc = 0 \<or> n mod pc_interval_blocks pc \<noteq> 0")
    case True
    then show ?thesis by (auto simp: maybe_prune_def give_def split: option.split)
  next
    case False
    then obtain r where r: "pc_retention_blocks pc = Some r" by auto
    obtain x s1 where "attempt (prune_historical_data E tid (lx_ser_hashes L) (lx_de_hashes L) (lb_hex L)
        (prune_height n r h) (pc_batch_limit pc)) s = (Inr x, s1)" using a by blast
    then show ?thesis using False r c by (auto simp: maybe_prune_def andthen_def give_def split: option.split)
  qed
qed

lemma persist_ok:
  assumes "roster_ok E R" "tracked E R s" "st_write_fault (sm_storage s) = None"
  shows "\<exists>s'. persist_block L E tid pc h now n ks s = (Inr (), s')"
proof -
  have "\<forall>b \<in> R. chain_key b" using assms(1) by (simp add: roster_ok_def)
  from flush_ok [OF assms(2) this assms(3)] obtain s1 where "sm_flush E s = (Inr (), s1)" by blast
  then show ?thesis
    using prune_never_fails [of L E tid pc h now n "evict_from_cache ks s1"] by (simp add: persist_block_def andthen_def)
qed

end
