(* ===== verification/Proposal.thy ===== *)
theory Proposal
  imports SimCommit Samples
begin

text \<open>
  A proposal commits: the state root a node finds by simulating a block on the overlay is one under which the
  same block commits on the store, for native transactions that do not ask for the validator candidates, and
  within an epoch.
\<close>

section \<open>The root of the overlay\<close>




section \<open>The two runs\<close>









section \<open>The theorem\<close>


section \<open>A block that commits\<close>































section \<open>The same block on the plain map\<close>













end
