(* ===== verification/Mempool.thy ===== *)
theory Mempool
  imports Samples
begin

text \<open>
  \<open>zagros-mempool\<close>: the pool of waiting transactions. A \<open>DashMap\<close> is an association list (its iteration
  order is not fixed; nothing here depends on it), an atomic counter a number at its width. The chain
  state, a \<open>dyn State\<close> the pool only reads, is the record of the three answers it asks for; the clock
  is an argument; calls do not overlap. Notifications and log lines are left out.
\<close>

section \<open>The pool\<close>

definition DEFAULT_TX_EXPIRY_SECONDS :: nat where
  "DEFAULT_TX_EXPIRY_SECONDS = 3600"

definition MAX_QUEUE_GAP :: nat where
  "MAX_QUEUE_GAP = 32"

definition MAX_QUEUED_PER_SENDER :: nat where
  "MAX_QUEUED_PER_SENDER = 32"

definition MAX_QUEUED_TOTAL :: nat where
  "MAX_QUEUED_TOTAL = 5000"

definition PROPOSAL_MAX_TX_AGE_SECS :: nat where
  "PROPOSAL_MAX_TX_AGE_SECS = 270"

definition MAX_MEMPOOL_CAPACITY :: nat where
  "MAX_MEMPOOL_CAPACITY = 100000"

definition MAX_MEMPOOL_TOTAL_BYTES :: nat where
  "MAX_MEMPOOL_TOTAL_BYTES = 256 * 1024 * 1024"

definition MAX_BLOCK_GAS_LIMIT :: nat where
  "MAX_BLOCK_GAS_LIMIT = 100000000"

definition is_heavy :: "tx_type \<Rightarrow> bool" where
  "is_heavy k = (case k of ContractCall _ \<Rightarrow> True | CallContract \<Rightarrow> True | DeployContract \<Rightarrow> True | _ \<Rightarrow> False)"

datatype admission_error = Full | AdmInvalidNonce nat nat | Rejected zerror

type_synonym fifo_lane = "(nat \<times> hash list) list"
type_synonym forward_queue = "(nat \<times> (transaction \<times> nat \<times> bool)) list"

record mempool =
  mp_pool :: "(hash \<times> transaction) list"
  mp_tx_count :: nat
  mp_fifo_queue :: fifo_lane
  mp_heavy_fifo_queue :: fifo_lane
  mp_address_tx_count :: "(address \<times> nat) list"
  mp_nonce_index :: "((address \<times> nat) \<times> hash) list"
  mp_total_bytes :: nat
  mp_pending_costs :: "(address \<times> nat) list"
  mp_arrival_time :: "(hash \<times> nat) list"
  mp_local_origin_last_broadcast :: "(hash \<times> nat) list"
  mp_queued :: "(address \<times> forward_queue) list"
  mp_queued_total :: nat
  mp_fifo_seq :: nat
  mp_fifo_key :: "(hash \<times> nat) list"
  mp_tx_expiry_seconds :: nat
  mp_max_capacity :: nat
  mp_max_tx_per_address :: nat
  mp_max_tx_size_bytes :: nat
  mp_max_total_bytes :: nat
  mp_max_block_gas_limit :: nat
  mp_gas_calculator :: gas_calculator
  mp_bridge_authority :: "address option"

record chain_reads =
  cr_balance :: "address \<Rightarrow> nat result"
  cr_nonce :: "address \<Rightarrow> nat result"
  cr_pool_reserves :: "(nat \<times> nat) result"

definition with_limits :: "gas_calculator \<Rightarrow> nat \<Rightarrow> nat \<Rightarrow> nat \<Rightarrow> mempool" where
  "with_limits gas_calculator max_capacity max_total_bytes tx_expiry_seconds =
     \<lparr>mp_pool = [], mp_tx_count = 0, mp_fifo_queue = [], mp_heavy_fifo_queue = [], mp_address_tx_count = [],
      mp_nonce_index = [], mp_total_bytes = 0, mp_pending_costs = [], mp_arrival_time = [],
      mp_local_origin_last_broadcast = [], mp_queued = [], mp_queued_total = 0, mp_fifo_seq = 0, mp_fifo_key = [],
      mp_tx_expiry_seconds = tx_expiry_seconds, mp_max_capacity = max_capacity, mp_max_tx_per_address = 100,
      mp_max_tx_size_bytes = 128 * 1024, mp_max_total_bytes = max_total_bytes,
      mp_max_block_gas_limit = MAX_BLOCK_GAS_LIMIT, mp_gas_calculator = gas_calculator, mp_bridge_authority = None\<rparr>"

definition mempool_new :: "gas_calculator \<Rightarrow> mempool" where
  "mempool_new gas_calculator =
     with_limits gas_calculator MAX_MEMPOOL_CAPACITY MAX_MEMPOOL_TOTAL_BYTES DEFAULT_TX_EXPIRY_SECONDS"

definition with_max_block_gas_limit :: "nat \<Rightarrow> mempool \<Rightarrow> mempool" where
  "with_max_block_gas_limit limit m = m\<lparr>mp_max_block_gas_limit := limit\<rparr>"

definition with_bridge_authority :: "address \<Rightarrow> mempool \<Rightarrow> mempool" where
  "with_bridge_authority a m = m\<lparr>mp_bridge_authority := Some a\<rparr>"

text \<open>\<open>fetch_add\<close> and \<open>fetch_sub\<close> wrap.\<close>

definition wrap_u64 :: "nat \<Rightarrow> nat" where
  "wrap_u64 n = n mod (u64_max + 1)"

definition fetch_sub :: "nat \<Rightarrow> nat \<Rightarrow> nat" where
  "fetch_sub n k = wrap_u64 (n + (u64_max + 1 - wrap_u64 k))"

definition tx_byte_size :: "transaction \<Rightarrow> nat" where
  "tx_byte_size tx = length (tx_payload tx) + length (tx_signature tx) + length (tx_sender tx) + length (tx_receiver tx) + 128"

definition debits_value :: "tx_type \<Rightarrow> bool" where
  "debits_value k =
     (case k of Transfer \<Rightarrow> True | SwapSell \<Rightarrow> True | StakeZagros \<Rightarrow> True | BridgeSwapAndBurn \<Rightarrow> True
      | ContractCall _ \<Rightarrow> True | CallContract \<Rightarrow> True | _ \<Rightarrow> False)"

definition native_zagros_cost :: "transaction \<Rightarrow> nat" where
  "native_zagros_cost tx =
     (let gas_fee = sat_mul u128_max (tx_gas_limit tx) (tx_gas_price tx)
      in if debits_value (tx_kind tx) then sat_add u128_max gas_fee (tx_amount tx) else gas_fee)"

definition is_full :: "mempool \<Rightarrow> bool" where
  "is_full m \<longleftrightarrow> mp_max_capacity m \<le> mp_tx_count m"

text \<open>
  The loop over the occupied nonces. The counter saturates: with the last nonce occupied the loop does not
  end, which is \<open>None\<close> here. One step more than the index has entries is enough otherwise
  (\<open>pending_nonce_ends\<close>).
\<close>

fun pending_nonce_loop :: "nat \<Rightarrow> ((address \<times> nat) \<times> hash) list \<Rightarrow> address \<Rightarrow> nat \<Rightarrow> nat option" where
  "pending_nonce_loop 0 index sender next_nonce = None"
| "pending_nonce_loop (Suc fuel) index sender next_nonce =
     (if map_of index (sender, next_nonce) \<noteq> None
      then pending_nonce_loop fuel index sender (sat_add u64_max next_nonce 1)
      else Some next_nonce)"

definition pending_nonce :: "mempool \<Rightarrow> nat \<Rightarrow> address \<Rightarrow> nat option" where
  "pending_nonce m state_nonce sender =
     pending_nonce_loop (Suc (length (mp_nonce_index m))) (mp_nonce_index m) (to_ascii_lowercase sender) state_nonce"

definition get_transaction :: "mempool \<Rightarrow> hash \<Rightarrow> transaction option" where
  "get_transaction m h = map_of (mp_pool m) h"

section \<open>Fees\<close>

definition evm_calldata :: "transaction \<Rightarrow> bytes option" where
  "evm_calldata tx =
     (case tx_kind tx of ContractCall data \<Rightarrow> Some data | CallContract \<Rightarrow> Some (tx_payload tx) | _ \<Rightarrow> None)"

definition sync_gas_pools_from_state :: "chain_reads \<Rightarrow> mempool \<Rightarrow> mempool" where
  "sync_gas_pools_from_state R m =
     (case cr_pool_reserves R of
        Inl _ \<Rightarrow> m
      | Inr (zagros_reserve, zerenya_reserve) \<Rightarrow>
          if 0 < zerenya_reserve
          then m\<lparr>mp_gas_calculator := sync_pools zagros_reserve zerenya_reserve (mp_gas_calculator m)\<rparr> else m)"

definition native_min_required_fee :: "chain_reads \<Rightarrow> tx_type \<Rightarrow> mempool \<Rightarrow> nat \<times> mempool" where
  "native_min_required_fee R k m =
     (let m = sync_gas_pools_from_state R m
      in (calculate_gas_for_tx_type (mp_gas_calculator m) k (mp_tx_count m), m))"

definition min_required_fee :: "chain_reads \<Rightarrow> transaction \<Rightarrow> mempool \<Rightarrow> nat \<times> mempool" where
  "min_required_fee R tx m =
     (case evm_calldata tx of
        Some calldata \<Rightarrow> (evm_min_fee (mp_gas_calculator m) calldata (mp_tx_count m), m)
      | None \<Rightarrow> native_min_required_fee R (tx_kind tx) m)"

text \<open>The fee put into a native transaction, and the minimum it was put in for.\<close>

definition apply_fixed_gas_fee_returning_min ::
  "chain_reads \<Rightarrow> transaction \<Rightarrow> mempool \<Rightarrow> (transaction \<times> nat option) \<times> mempool" where
  "apply_fixed_gas_fee_returning_min R tx m =
     (if is_evm_tx (tx_kind tx) then ((tx, None), m)
      else let (fee, m) = min_required_fee R tx m; fee = max fee 1
        in ((tx\<lparr>tx_gas_limit := 1, tx_gas_price := fee\<rparr>, Some fee), m))"

definition is_under_stress :: "mempool \<Rightarrow> bool" where
  "is_under_stress m \<longleftrightarrow> gc_ddos_threshold (mp_gas_calculator m) < mp_tx_count m"

section \<open>Adding\<close>

text \<open>\<open>*entry(k).or_insert(0) += n\<close>, and the bucket of a lane.\<close>

definition add_entry :: "(nat \<Rightarrow> nat) \<Rightarrow> address \<Rightarrow> (address \<times> nat) list \<Rightarrow> (address \<times> nat) list" where
  "add_entry f a xs = AList.update a (f (case map_of xs a of None \<Rightarrow> 0 | Some n \<Rightarrow> n)) xs"

definition push_lane :: "nat \<Rightarrow> hash \<Rightarrow> fifo_lane \<Rightarrow> fifo_lane" where
  "push_lane key h lane = AList.update key ((case map_of lane key of None \<Rightarrow> [] | Some b \<Rightarrow> b) @ [h]) lane"

definition is_exempt_bridge_mint :: "mempool \<Rightarrow> transaction \<Rightarrow> bool" where
  "is_exempt_bridge_mint m tx \<longleftrightarrow> is_bridge_mint_kind (tx_kind tx) \<and>
     (case mp_bridge_authority m of None \<Rightarrow> False | Some a \<Rightarrow> eq_ignore_ascii_case a (tx_sender tx))"

definition balance_or_zero :: "chain_reads \<Rightarrow> address \<Rightarrow> nat" where
  "balance_or_zero R a = (case cr_balance R a of Inl _ \<Rightarrow> 0 | Inr n \<Rightarrow> n)"

text \<open>Size, capacity, structure, signature and intrinsic gas.\<close>

definition structural_gate :: "(transaction \<Rightarrow> bool) \<Rightarrow> transaction \<Rightarrow> mempool \<Rightarrow> unit result" where
  "structural_gate verify_signature tx m =
     (if tx_kind tx = DeployContract then Inl (Other ''TxType::DeployContract is not supported'')
      else if mp_max_tx_size_bytes m < length (tx_payload tx) then Inl (Other ''Transaction payload size exceeds limit'')
      else if mp_max_capacity m \<le> mp_tx_count m then Inl MempoolFull
      else if mp_max_total_bytes m < sat_add u64_max (mp_total_bytes m) (tx_byte_size tx) then Inl MempoolFull
      else try_then (tx_validate verify_signature tx) (\<lambda>_.
        case evm_calldata tx of
          Some calldata \<Rightarrow>
            if tx_gas_limit tx < evm_intrinsic_gas calldata then Inl (Other ''EVM gas limit too low'') else Inr ()
        | None \<Rightarrow> Inr ()))"

text \<open>The minimal fee and the balance for it.\<close>

definition fee_gate :: "chain_reads \<Rightarrow> transaction \<Rightarrow> nat option \<Rightarrow> mempool \<Rightarrow> unit result \<times> mempool" where
  "fee_gate R tx precomputed_min_fee m =
     (if is_exempt_bridge_mint m tx then (Inr (), m)
      else let declared_fee = sat_mul u128_max (tx_gas_limit tx) (tx_gas_price tx);
               (min_fee, m) = (case precomputed_min_fee of Some fee \<Rightarrow> (fee, m) | None \<Rightarrow> min_required_fee R tx m)
        in if declared_fee < min_fee then (Inl (Other ''Gas fee too low''), m)
           else if balance_or_zero R (tx_sender tx) < declared_fee then (Inl InsufficientBalanceForGas, m)
           else (Inr (), m))"

definition reservation_cost :: "mempool \<Rightarrow> transaction \<Rightarrow> nat" where
  "reservation_cost m tx = (if is_exempt_bridge_mint m tx then 0 else native_zagros_cost tx)"

text \<open>The counter of the sender's transactions exists from here on, even when the transaction is refused.\<close>

definition sender_gate :: "chain_reads \<Rightarrow> transaction \<Rightarrow> mempool \<Rightarrow> unit result" where
  "sender_gate R tx m =
     (let sender = to_ascii_lowercase (tx_sender tx);
          pending = (case map_of (mp_pending_costs m) sender of None \<Rightarrow> 0 | Some n \<Rightarrow> n)
      in if mp_max_tx_per_address m \<le> (case map_of (mp_address_tx_count m) sender of None \<Rightarrow> 0 | Some n \<Rightarrow> n)
         then Inl (Other ''Rate limit: Bir adresin cok fazla bekleyen islemi var'')
         else if map_of (mp_pool m) (tx_id tx) \<noteq> None then Inl (Other ''Transaction zaten bekleme odasinda'')
         else if map_of (mp_nonce_index m) (sender, tx_nonce tx) \<noteq> None then Inl InvalidNonce
         else if sat_sub (balance_or_zero R (tx_sender tx)) pending < reservation_cost m tx then Inl InsufficientBalance
         else Inr ())"

definition insert_transaction :: "nat \<Rightarrow> transaction \<Rightarrow> mempool \<Rightarrow> mempool" where
  "insert_transaction now tx m =
     (let sender = to_ascii_lowercase (tx_sender tx);
          key = mp_fifo_seq m
      in m\<lparr>mp_fifo_seq := wrap_u64 (key + 1),
           mp_fifo_key := AList.update (tx_id tx) key (mp_fifo_key m),
           mp_heavy_fifo_queue := (if is_heavy (tx_kind tx) then push_lane key (tx_id tx) (mp_heavy_fifo_queue m)
             else mp_heavy_fifo_queue m),
           mp_fifo_queue := (if is_heavy (tx_kind tx) then mp_fifo_queue m else push_lane key (tx_id tx) (mp_fifo_queue m)),
           mp_nonce_index := AList.update (sender, tx_nonce tx) (tx_id tx) (mp_nonce_index m),
           mp_total_bytes := wrap_u64 (mp_total_bytes m + tx_byte_size tx),
           mp_pending_costs := add_entry (\<lambda>n. wrap_u128 (n + reservation_cost m tx)) sender (mp_pending_costs m),
           mp_arrival_time := AList.update (tx_id tx) now (mp_arrival_time m),
           mp_pool := AList.update (tx_id tx) tx (mp_pool m),
           mp_tx_count := wrap_u64 (mp_tx_count m + 1),
           mp_address_tx_count := add_entry (\<lambda>n. wrap_u64 (n + 1)) sender (mp_address_tx_count m)\<rparr>)"

definition add_transaction_with_min_fee ::
  "chain_reads \<Rightarrow> (transaction \<Rightarrow> bool) \<Rightarrow> nat \<Rightarrow> transaction \<Rightarrow> nat option \<Rightarrow> mempool \<Rightarrow> unit result \<times> mempool" where
  "add_transaction_with_min_fee R verify_signature now tx precomputed_min_fee m =
     (case structural_gate verify_signature tx m of
        Inl e \<Rightarrow> (Inl e, m)
      | Inr _ \<Rightarrow>
          (case fee_gate R tx precomputed_min_fee m of
             (Inl e, m) \<Rightarrow> (Inl e, m)
           | (Inr _, m) \<Rightarrow>
               let sender = to_ascii_lowercase (tx_sender tx);
                   m = m\<lparr>mp_address_tx_count := add_entry (\<lambda>n. n) sender (mp_address_tx_count m)\<rparr>
               in (case sender_gate R tx m of
                     Inl e \<Rightarrow> (Inl e, m)
                   | Inr _ \<Rightarrow> (Inr (), insert_transaction now tx m))))"

definition add_transaction ::
  "chain_reads \<Rightarrow> (transaction \<Rightarrow> bool) \<Rightarrow> nat \<Rightarrow> transaction \<Rightarrow> mempool \<Rightarrow> unit result \<times> mempool" where
  "add_transaction R verify_signature now tx m = add_transaction_with_min_fee R verify_signature now tx None m"

section \<open>Removing\<close>

definition pull_lane :: "nat option \<Rightarrow> hash \<Rightarrow> fifo_lane \<Rightarrow> fifo_lane" where
  "pull_lane key h lane =
     (case key of
        None \<Rightarrow> lane
      | Some k \<Rightarrow>
          (case map_of lane k of
             None \<Rightarrow> lane
           | Some bucket \<Rightarrow>
               let bucket = filter (\<lambda>i. i \<noteq> h) bucket
               in if bucket = [] then AList.delete k lane else AList.update k bucket lane))"

text \<open>A counter that falls to nothing loses its entry.\<close>

definition lower_entry :: "nat \<Rightarrow> address \<Rightarrow> (address \<times> nat) list \<Rightarrow> (address \<times> nat) list" where
  "lower_entry n a xs =
     (case map_of xs a of
        None \<Rightarrow> xs
      | Some c \<Rightarrow> if sat_sub c n = 0 then AList.delete a xs else AList.update a (sat_sub c n) xs)"

definition remove_transaction :: "hash \<Rightarrow> mempool \<Rightarrow> transaction option \<times> mempool" where
  "remove_transaction h m =
     (case map_of (mp_pool m) h of
        None \<Rightarrow> (None, m)
      | Some tx \<Rightarrow>
          let sender = to_ascii_lowercase (tx_sender tx);
              key = map_of (mp_fifo_key m) h
          in (Some tx,
              m\<lparr>mp_pool := AList.delete h (mp_pool m),
                mp_tx_count := fetch_sub (mp_tx_count m) 1,
                mp_nonce_index := AList.delete (sender, tx_nonce tx) (mp_nonce_index m),
                mp_total_bytes := fetch_sub (mp_total_bytes m) (tx_byte_size tx),
                mp_arrival_time := AList.delete h (mp_arrival_time m),
                mp_local_origin_last_broadcast := AList.delete h (mp_local_origin_last_broadcast m),
                mp_pending_costs := lower_entry (native_zagros_cost tx) sender (mp_pending_costs m),
                mp_fifo_key := AList.delete h (mp_fifo_key m),
                mp_heavy_fifo_queue := (if is_heavy (tx_kind tx) then pull_lane key h (mp_heavy_fifo_queue m)
                  else mp_heavy_fifo_queue m),
                mp_fifo_queue := (if is_heavy (tx_kind tx) then mp_fifo_queue m else pull_lane key h (mp_fifo_queue m)),
                mp_address_tx_count := lower_entry 1 sender (mp_address_tx_count m)\<rparr>))"

section \<open>Transactions ahead of their nonce\<close>

definition queue_of :: "mempool \<Rightarrow> address \<Rightarrow> forward_queue" where
  "queue_of m sender = (case map_of (mp_queued m) sender of None \<Rightarrow> [] | Some q \<Rightarrow> q)"

text \<open>The sender's queue exists once it was asked for, even when the transaction is then refused.\<close>

definition enqueue_forward_nonce ::
  "chain_reads \<Rightarrow> (transaction \<Rightarrow> bool) \<Rightarrow> nat \<Rightarrow> transaction \<Rightarrow> bool \<Rightarrow> mempool \<Rightarrow> (admission_error + hash) \<times> mempool" where
  "enqueue_forward_nonce R verify_signature now tx is_local m =
     (case tx_validate verify_signature tx of
        Inl e \<Rightarrow> (Inl (Rejected e), m)
      | Inr _ \<Rightarrow>
          if \<not> verify_signature tx then (Inl (Rejected InvalidSignature), m)
          else let (fee, m) = min_required_fee R tx m
            in if balance_or_zero R (tx_sender tx) < sat_add u128_max fee (tx_amount tx)
               then (Inl (Rejected InsufficientBalance), m)
               else if MAX_QUEUED_TOTAL \<le> mp_queued_total m
               then (Inl (Rejected (Other ''Rate limit: ileri-nonce kuyrugu dolu'')), m)
               else let sender = to_ascii_lowercase (tx_sender tx);
                        q = queue_of m sender;
                        m = m\<lparr>mp_queued := AList.update sender q (mp_queued m)\<rparr>
                 in if MAX_QUEUED_PER_SENDER \<le> length q \<and> map_of q (tx_nonce tx) = None
                    then (Inl (Rejected (Other ''Rate limit: bu adresin ileri-nonce kuyrugu dolu'')), m)
                    else (Inr (tx_id tx),
                      m\<lparr>mp_queued := AList.update sender (AList.update (tx_nonce tx) (tx, now, is_local) q) (mp_queued m),
                        mp_queued_total := (if map_of q (tx_nonce tx) = None then wrap_u64 (mp_queued_total m + 1)
                          else mp_queued_total m)\<rparr>))"

definition mark_queued_local_origin :: "address \<Rightarrow> hash \<Rightarrow> mempool \<Rightarrow> mempool" where
  "mark_queued_local_origin sender h m =
     (let key = to_ascii_lowercase sender
      in case map_of (mp_queued m) key of
           None \<Rightarrow> m
         | Some q \<Rightarrow> m\<lparr>mp_queued := AList.update key
             (map (\<lambda>(n, (tx, at, l)). (n, (tx, at, if tx_id tx = h then True else l))) q) (mp_queued m)\<rparr>)"

text \<open>One turn of the promotion: what the chain consumed is dropped, then the expected entry is taken.\<close>

definition take_expected :: "address \<Rightarrow> nat \<Rightarrow> mempool \<Rightarrow> (transaction \<times> nat \<times> bool) option \<times> mempool" where
  "take_expected key expected m =
     (case map_of (mp_queued m) key of
        None \<Rightarrow> (None, m)
      | Some q \<Rightarrow>
          let fresh = filter (\<lambda>(n, _). expected \<le> n) q;
              total = fetch_sub (mp_queued_total m) (length q - length fresh);
              found = map_of fresh expected
          in (found,
              m\<lparr>mp_queued := AList.update key (AList.delete expected fresh) (mp_queued m),
                mp_queued_total := (if found = None then total else fetch_sub total 1)\<rparr>))"

lemma fee_gate_queued [simp]: "mp_queued (snd (fee_gate R tx p m)) = mp_queued m"
  by (auto simp: fee_gate_def Let_def min_required_fee_def native_min_required_fee_def sync_gas_pools_from_state_def
      split: prod.splits option.splits sum.splits if_splits)

lemma add_keeps_queued [simp]: "mp_queued (snd (add_transaction_with_min_fee R vs now tx p m)) = mp_queued m"
proof -
  obtain r m' where g: "fee_gate R tx p m = (r, m')" by (metis prod.exhaust)
  then have "mp_queued m' = mp_queued m" using fee_gate_queued [of R tx p m] by simp
  then show ?thesis
    using g by (auto simp: add_transaction_with_min_fee_def Let_def insert_transaction_def split: sum.split)
qed

lemma fixed_fee_queued [simp]: "mp_queued (snd (apply_fixed_gas_fee_returning_min R tx m)) = mp_queued m"
  by (auto simp: apply_fixed_gas_fee_returning_min_def Let_def min_required_fee_def native_min_required_fee_def
      sync_gas_pools_from_state_def split: prod.splits option.splits sum.splits if_splits)

lemma take_expected_shrinks:
  assumes "take_expected key expected m = (Some e, m')"
  shows "length (queue_of m' key) < length (queue_of m key)"
proof (cases "map_of (mp_queued m) key")
  case None
  then show ?thesis using assms by (simp add: take_expected_def)
next
  case (Some q)
  let ?fresh = "filter (\<lambda>(n, _). expected \<le> n) q"
  have found: "map_of ?fresh expected = Some e" and m': "queue_of m' key = AList.delete expected ?fresh"
    using assms Some by (auto simp: take_expected_def Let_def queue_of_def)
  have "length (AList.delete expected ?fresh) < length ?fresh"
    unfolding AList.delete_eq by (rule length_filter_less [OF map_of_SomeD [OF found]]) simp
  also have "\<dots> \<le> length q" by (rule length_filter_le)
  finally show ?thesis using Some m' by (simp add: queue_of_def)
qed

text \<open>A promoted transaction that came from the node's own clients is broadcast at once.\<close>

definition promote_entry ::
  "chain_reads \<Rightarrow> (transaction \<Rightarrow> bool) \<Rightarrow> nat \<Rightarrow> transaction \<times> nat \<times> bool \<Rightarrow> mempool \<Rightarrow> bool \<times> mempool" where
  "promote_entry R verify_signature now entry m =
     (let (tx, _, is_local) = entry;
          ((tx, embedded), m) = apply_fixed_gas_fee_returning_min R tx m
      in case add_transaction_with_min_fee R verify_signature now tx embedded m of
           (Inl _, m) \<Rightarrow> (False, m)
         | (Inr _, m) \<Rightarrow>
             (True, if is_local
                    then m\<lparr>mp_local_origin_last_broadcast := AList.update (tx_id tx) 0 (mp_local_origin_last_broadcast m)\<rparr>
                    else m))"

lemma promote_entry_queued [simp]: "mp_queued (snd (promote_entry R vs now e m)) = mp_queued m"
proof -
  obtain tx at l where e: "e = (tx, at, l)" by (cases e)
  obtain tx' p m1 where f: "apply_fixed_gas_fee_returning_min R tx m = ((tx', p), m1)" by (metis prod.exhaust)
  obtain r m2 where a: "add_transaction_with_min_fee R vs now tx' p m1 = (r, m2)" by (metis prod.exhaust)
  have "mp_queued m1 = mp_queued m" "mp_queued m2 = mp_queued m1"
    using fixed_fee_queued [of R tx m] add_keeps_queued [of R vs now tx' p m1] f a by simp_all
  then show ?thesis by (auto simp: promote_entry_def e f a Let_def split: sum.split)
qed

lemma promote_step_shrinks:
  assumes "take_expected key expected m = (Some e, m1)" "promote_entry R vs now e m1 = (b, m2)"
  shows "length (queue_of m2 key) < length (queue_of m key)"
proof -
  have "mp_queued m2 = mp_queued m1" using promote_entry_queued [of R vs now e m1] assms(2) by simp
  then show ?thesis using take_expected_shrinks [OF assms(1)] by (simp add: queue_of_def)
qed

function promote_loop ::
  "chain_reads \<Rightarrow> (transaction \<Rightarrow> bool) \<Rightarrow> nat \<Rightarrow> address \<Rightarrow> nat \<Rightarrow> mempool \<Rightarrow> (nat \<times> mempool) option" where
  "promote_loop R verify_signature now key promoted m =
     (let state_nonce = (case cr_nonce R key of Inl _ \<Rightarrow> 0 | Inr n \<Rightarrow> n)
      in case pending_nonce m state_nonce key of
           None \<Rightarrow> None
         | Some expected \<Rightarrow>
             (case take_expected key expected m of
                (None, m') \<Rightarrow> Some (promoted, m')
              | (Some entry, m') \<Rightarrow>
                  (case promote_entry R verify_signature now entry m' of
                     (True, m'') \<Rightarrow> promote_loop R verify_signature now key (promoted + 1) m''
                   | (False, m'') \<Rightarrow> Some (promoted, m''))))"
  by auto

termination
  by (relation "measure (\<lambda>(R, vs, now, key, promoted, m). length (queue_of m key))")
    (simp, simp, metis promote_step_shrinks)

definition drop_empty_queue :: "address \<Rightarrow> mempool \<Rightarrow> mempool" where
  "drop_empty_queue key m = (if map_of (mp_queued m) key = Some [] then m\<lparr>mp_queued := AList.delete key (mp_queued m)\<rparr> else m)"

definition promote_queued ::
  "chain_reads \<Rightarrow> (transaction \<Rightarrow> bool) \<Rightarrow> nat \<Rightarrow> address \<Rightarrow> mempool \<Rightarrow> (nat \<times> mempool) option" where
  "promote_queued R verify_signature now sender m =
     (let key = to_ascii_lowercase sender
      in map_option (\<lambda>(promoted, m). (promoted, drop_empty_queue key m)) (promote_loop R verify_signature now key 0 m))"

section \<open>Admission\<close>

definition admit_transaction ::
  "chain_reads \<Rightarrow> (transaction \<Rightarrow> bool) \<Rightarrow> nat \<Rightarrow> transaction \<Rightarrow> mempool \<Rightarrow> ((admission_error + hash) \<times> mempool) option" where
  "admit_transaction R verify_signature now tx m =
     (if is_full m then Some (Inl Full, m)
      else let ((tx, embedded_min_fee), m) = apply_fixed_gas_fee_returning_min R tx m;
               state_nonce = (case cr_nonce R (tx_sender tx) of Inl _ \<Rightarrow> 0 | Inr n \<Rightarrow> n)
        in case pending_nonce m state_nonce (tx_sender tx) of
             None \<Rightarrow> None
           | Some expected \<Rightarrow>
               if expected < tx_nonce tx \<and> tx_nonce tx - expected \<le> MAX_QUEUE_GAP
               then Some (enqueue_forward_nonce R verify_signature now tx False m)
               else if tx_nonce tx \<noteq> expected then Some (Inl (AdmInvalidNonce expected (tx_nonce tx)), m)
               else (case add_transaction_with_min_fee R verify_signature now tx embedded_min_fee m of
                       (Inl e, m) \<Rightarrow> Some (Inl (Rejected e), m)
                     | (Inr _, m) \<Rightarrow>
                         map_option (\<lambda>(_, m). (Inr (tx_id tx), m))
                           (promote_queued R verify_signature now (to_ascii_lowercase (tx_sender tx)) m)))"

section \<open>Broadcast, expiry and the chain's progress\<close>

definition mark_local_origin :: "nat \<Rightarrow> hash \<Rightarrow> mempool \<Rightarrow> mempool" where
  "mark_local_origin now h m =
     (if map_of (mp_pool m) h = None then m
      else m\<lparr>mp_local_origin_last_broadcast := AList.update h now (mp_local_origin_last_broadcast m)\<rparr>)"

text \<open>Two stable sorts make the order by sender and, for one sender, by nonce.\<close>

definition stale_local_for_rebroadcast :: "nat \<Rightarrow> nat \<Rightarrow> nat \<Rightarrow> mempool \<Rightarrow> transaction list \<times> mempool" where
  "stale_local_for_rebroadcast now min_age_secs cap m =
     (let old = filter (\<lambda>(_, at). min_age_secs \<le> sat_sub now at) (mp_local_origin_last_broadcast m);
          found = List.map_filter (\<lambda>(h, _). map_of (mp_pool m) h) old;
          picked = take cap (sort_key (\<lambda>tx. to_ascii_lowercase (tx_sender tx)) (sort_key tx_nonce found))
      in (picked, m\<lparr>mp_local_origin_last_broadcast :=
           fold (\<lambda>tx. AList.update (tx_id tx) now) picked (mp_local_origin_last_broadcast m)\<rparr>))"

fun purge_loop :: "address \<Rightarrow> nat \<Rightarrow> nat \<Rightarrow> mempool \<Rightarrow> nat \<times> mempool" where
  "purge_loop key 0 removed m = (removed, m)"
| "purge_loop key (Suc n) removed m =
     (case map_of (mp_nonce_index m) (key, n) of
        None \<Rightarrow> (removed, m)
      | Some h \<Rightarrow>
          (case remove_transaction h m of
             (None, m) \<Rightarrow> purge_loop key n removed m
           | (Some _, m) \<Rightarrow> purge_loop key n (removed + 1) m))"

definition purge_below_nonce ::
  "chain_reads \<Rightarrow> (transaction \<Rightarrow> bool) \<Rightarrow> nat \<Rightarrow> address \<Rightarrow> nat \<Rightarrow> mempool \<Rightarrow> (nat \<times> mempool) option" where
  "purge_below_nonce R verify_signature now sender state_nonce m =
     (let (removed, m) = purge_loop (to_ascii_lowercase sender) state_nonce 0 m
      in map_option (\<lambda>(_, m). (removed, m)) (promote_queued R verify_signature now sender m))"

definition remove_all :: "hash list \<Rightarrow> mempool \<Rightarrow> mempool" where
  "remove_all hs m = fold (\<lambda>h m. snd (remove_transaction h m)) hs m"

definition expire_queues :: "nat \<Rightarrow> mempool \<Rightarrow> mempool" where
  "expire_queues now m =
     (let kept = map (\<lambda>(sender, q). (sender, filter (\<lambda>(_, (_, at, _)). sat_sub now at \<le> mp_tx_expiry_seconds m) q)) (mp_queued m);
          dropped = (\<Sum>(_, q) \<leftarrow> mp_queued m. length q) - (\<Sum>(_, q) \<leftarrow> kept. length q)
      in m\<lparr>mp_queued := filter (\<lambda>(_, q). q \<noteq> []) kept,
           mp_queued_total := fetch_sub (mp_queued_total m) dropped\<rparr>)"

definition evict_expired :: "nat \<Rightarrow> mempool \<Rightarrow> nat \<times> mempool" where
  "evict_expired now m =
     (let expired = map fst (filter (\<lambda>(_, at). mp_tx_expiry_seconds m < sat_sub now at) (mp_arrival_time m))
      in (length expired, expire_queues now (remove_all expired m)))"

section \<open>Choosing the transactions of a block\<close>

text \<open>
  The two nested loops run over the buckets in the order of their keys, which is the order of the
  flattened lane; both leave where the limit is reached.
\<close>

definition lane_order :: "fifo_lane \<Rightarrow> hash list" where
  "lane_order lane = concat (map (\<lambda>k. case map_of lane k of None \<Rightarrow> [] | Some b \<Rightarrow> b) (sort (map fst lane)))"

fun drain_heavy_loop :: "(hash \<times> transaction) list \<Rightarrow> nat \<Rightarrow> nat \<Rightarrow> nat \<Rightarrow> hash list \<Rightarrow> transaction list" where
  "drain_heavy_loop pool limit gas_budget gas_reserved [] = []"
| "drain_heavy_loop pool limit gas_budget gas_reserved (h # hs) =
     (if limit = 0 then []
      else case map_of pool h of
        None \<Rightarrow> drain_heavy_loop pool limit gas_budget gas_reserved hs
      | Some tx \<Rightarrow>
          if gas_budget < sat_add u128_max gas_reserved (tx_gas_limit tx) then []
          else tx # drain_heavy_loop pool (limit - 1) gas_budget (sat_add u128_max gas_reserved (tx_gas_limit tx)) hs)"

definition drain_heavy_queue_within_gas_budget ::
  "fifo_lane \<Rightarrow> (hash \<times> transaction) list \<Rightarrow> nat \<Rightarrow> nat \<Rightarrow> transaction list" where
  "drain_heavy_queue_within_gas_budget lane pool limit gas_budget =
     drain_heavy_loop pool limit gas_budget 0 (lane_order lane)"

fun drain_loop :: "(hash \<times> transaction) list \<Rightarrow> nat \<Rightarrow> hash list \<Rightarrow> transaction list" where
  "drain_loop pool limit [] = []"
| "drain_loop pool limit (h # hs) =
     (if limit = 0 then []
      else case map_of pool h of None \<Rightarrow> drain_loop pool limit hs | Some tx \<Rightarrow> tx # drain_loop pool (limit - 1) hs)"

definition drain_queue :: "fifo_lane \<Rightarrow> (hash \<times> transaction) list \<Rightarrow> nat \<Rightarrow> transaction list" where
  "drain_queue lane pool limit = drain_loop pool limit (lane_order lane)"

definition select_fifo :: "nat \<Rightarrow> nat \<Rightarrow> mempool \<Rightarrow> transaction list" where
  "select_fifo max_count max_heavy m =
     (let heavy = drain_heavy_queue_within_gas_budget (mp_heavy_fifo_queue m) (mp_pool m) (min max_heavy max_count)
            (mp_max_block_gas_limit m)
      in heavy @ drain_queue (mp_fifo_queue m) (mp_pool m) (sat_sub max_count (length heavy)))"

text \<open>Too old: dropped from the pool. Too far ahead: left for a later block.\<close>

fun retain_fresh :: "nat \<Rightarrow> transaction list \<Rightarrow> mempool \<Rightarrow> transaction list \<times> mempool" where
  "retain_fresh now [] m = ([], m)"
| "retain_fresh now (tx # txs) m =
     (if tx_timestamp tx \<le> now
      then if PROPOSAL_MAX_TX_AGE_SECS < now - tx_timestamp tx
           then retain_fresh now txs (snd (remove_transaction (tx_id tx) m))
           else (let (rest, m) = retain_fresh now txs m in (tx # rest, m))
      else if tx_timestamp tx - now \<le> PROPOSAL_MAX_TX_AGE_SECS
      then (let (rest, m) = retain_fresh now txs m in (tx # rest, m))
      else retain_fresh now txs m)"

fun take_bytes :: "(transaction \<Rightarrow> nat) \<Rightarrow> nat \<Rightarrow> nat \<Rightarrow> transaction list \<Rightarrow> transaction list" where
  "take_bytes encoded_size max_bytes used [] = []"
| "take_bytes encoded_size max_bytes used (tx # txs) =
     (case checked_add u64_max used (encoded_size tx) of
        None \<Rightarrow> []
      | Some t \<Rightarrow> if t \<le> max_bytes then tx # take_bytes encoded_size max_bytes t txs else [])"

definition get_transactions_for_block_bounded ::
  "(transaction \<Rightarrow> nat) \<Rightarrow> nat \<Rightarrow> nat \<Rightarrow> nat \<Rightarrow> nat \<Rightarrow> mempool \<Rightarrow> transaction list \<times> mempool" where
  "get_transactions_for_block_bounded encoded_size now max_count max_heavy max_block_bytes m =
     (let (transactions, m) = retain_fresh now (select_fifo max_count max_heavy m) m
      in (if max_block_bytes = u64_max then transactions else take_bytes encoded_size max_block_bytes 8 transactions, m))"

definition get_transactions_for_block :: "nat \<Rightarrow> nat \<Rightarrow> nat \<Rightarrow> mempool \<Rightarrow> transaction list \<times> mempool" where
  "get_transactions_for_block now max_count max_heavy m =
     get_transactions_for_block_bounded (\<lambda>_. 0) now max_count max_heavy u64_max m"

end
