(* ===== verification/PoolOrder.thy ===== *)
theory PoolOrder
  imports Mempool
begin

text \<open>
  What the pool stands for: the waiting transactions in the order of their admission. \<open>represents m es\<close>
  says that every index, lane and counter of the pool is the one of the list \<open>es\<close> (admission number and
  transaction). Adding appends, removing filters, selecting reads a prefix.
\<close>

section \<open>Lists and their maps\<close>

lemma map_of_snoc: "k \<notin> fst ` set xs \<Longrightarrow> map_of (xs @ [(k, v)]) = (map_of xs)(k \<mapsto> v)"
  by (induction xs) (auto simp: fun_eq_iff)

lemma map_of_entry: "distinct (map (fst \<circ> g) es) \<Longrightarrow> e \<in> set es \<Longrightarrow> map_of (map g es) (fst (g e)) = Some (snd (g e))"
  by (intro map_of_is_SomeI) simp_all

lemma map_of_without:
  assumes "distinct (map (fst \<circ> g) es)" "e \<in> set es"
  shows "map_of (map g (filter (\<lambda>x. x \<noteq> e) es)) = (map_of (map g es))(fst (g e) := None)"
  using assms
proof (induction es)
  case (Cons x es)
  show ?case
  proof (cases "x = e")
    case True
    then have "fst (g e) \<notin> fst ` set (map g es)" using Cons.prems by (auto simp: image_image)
    moreover have "filter (\<lambda>x. x \<noteq> e) es = es" using Cons.prems True by (auto simp: filter_id_conv)
    ultimately show ?thesis using True by (auto simp: map_of_eq_None_iff fun_eq_iff)
  next
    case False
    moreover have "fst (g x) \<noteq> fst (g e)" using Cons.prems False by auto
    ultimately show ?thesis using Cons by (auto simp: fun_eq_iff)
  qed
qed simp

lemma sum_without:
  "distinct es \<Longrightarrow> e \<in> set es \<Longrightarrow> (\<Sum>x \<leftarrow> filter (\<lambda>x. x \<noteq> e) es. f x) + f e = (\<Sum>x \<leftarrow> es. f x)" for f :: "'a \<Rightarrow> nat"
proof (induction es)
  case (Cons x es)
  show ?case
  proof (cases "x = e")
    case True
    then have "filter (\<lambda>x. x \<noteq> e) es = es" using Cons.prems by (auto simp: filter_id_conv)
    then show ?thesis using True by simp
  next
    case False
    then show ?thesis using Cons by simp
  qed
qed simp

lemma length_without:
  assumes "distinct es" "e \<in> set es"
  shows "length (filter P (filter (\<lambda>x. x \<noteq> e) es)) = length (filter P es) - (if P e then 1 else 0)"
proof -
  have "(\<Sum>x \<leftarrow> filter (\<lambda>x. x \<noteq> e) es. if P x then 1 else 0) + (if P e then 1 else 0) = (\<Sum>x \<leftarrow> es. if P x then 1 else (0 :: nat))"
    by (rule sum_without [OF assms])
  then show ?thesis by (auto simp: sum_list_map_filter' [symmetric] sum_list_triv)
qed

text \<open>A number kept for an address, 0 without an entry.\<close>

definition entry_of :: "(address \<times> nat) list \<Rightarrow> address \<Rightarrow> nat" where
  "entry_of xs a = (case map_of xs a of None \<Rightarrow> 0 | Some n \<Rightarrow> n)"

lemma entry_of_add [simp]: "entry_of (add_entry f a xs) = (entry_of xs)(a := f (entry_of xs a))"
  by (auto simp: fun_eq_iff entry_of_def add_entry_def)

lemma map_of_delete [simp]: "map_of (AList.delete k xs) = (map_of xs)(k := None)"
  by (simp add: AList.delete_conv')

lemma entry_of_lower [simp]: "entry_of (lower_entry n a xs) = (entry_of xs)(a := entry_of xs a - n)"
  by (auto simp: fun_eq_iff entry_of_def lower_entry_def sat_sub_def split: option.splits)

section \<open>The pool as a list\<close>

definition slot :: "nat \<times> transaction \<Rightarrow> address \<times> nat" where
  "slot e = (to_ascii_lowercase (tx_sender (snd e)), tx_nonce (snd e))"

definition ident :: "nat \<times> transaction \<Rightarrow> hash" where
  "ident e = tx_id (snd e)"

definition heavy :: "nat \<times> transaction \<Rightarrow> bool" where
  "heavy e \<longleftrightarrow> is_heavy (tx_kind (snd e))"

definition ordered :: "mempool \<Rightarrow> (nat \<times> transaction) list \<Rightarrow> bool" where
  "ordered m es \<longleftrightarrow> sorted_wrt (<) (map fst es) \<and> (\<forall>e \<in> set es. fst e < mp_fifo_seq m) \<and>
     distinct (map ident es) \<and> distinct (map slot es)"

definition lane_holds :: "fifo_lane \<Rightarrow> (nat \<times> transaction) list \<Rightarrow> bool" where
  "lane_holds lane es \<longleftrightarrow> distinct (map fst lane) \<and> map_of lane = map_of (map (\<lambda>e. (fst e, [ident e])) es)"

definition indexed :: "mempool \<Rightarrow> (nat \<times> transaction) list \<Rightarrow> bool" where
  "indexed m es \<longleftrightarrow>
     map_of (mp_pool m) = map_of (map (\<lambda>e. (ident e, snd e)) es) \<and>
     map_of (mp_nonce_index m) = map_of (map (\<lambda>e. (slot e, ident e)) es) \<and>
     map_of (mp_fifo_key m) = map_of (map (\<lambda>e. (ident e, fst e)) es) \<and>
     lane_holds (mp_fifo_queue m) (filter (\<lambda>e. \<not> heavy e) es) \<and>
     lane_holds (mp_heavy_fifo_queue m) (filter heavy es) \<and>
     dom (map_of (mp_arrival_time m)) = ident ` set es \<and>
     dom (map_of (mp_local_origin_last_broadcast m)) \<subseteq> ident ` set es"

definition from_sender :: "address \<Rightarrow> nat \<times> transaction \<Rightarrow> bool" where
  "from_sender a e \<longleftrightarrow> fst (slot e) = a"

definition counted :: "mempool \<Rightarrow> (nat \<times> transaction) list \<Rightarrow> bool" where
  "counted m es \<longleftrightarrow>
     mp_tx_count m = length es \<and> mp_total_bytes m = (\<Sum>e \<leftarrow> es. tx_byte_size (snd e)) \<and>
     (\<forall>a. entry_of (mp_address_tx_count m) a = length (filter (from_sender a) es))"

definition within_limits :: "mempool \<Rightarrow> bool" where
  "within_limits m \<longleftrightarrow> mp_tx_count m \<le> mp_max_capacity m \<and> mp_total_bytes m \<le> mp_max_total_bytes m \<and>
     (\<forall>a. entry_of (mp_address_tx_count m) a \<le> mp_max_tx_per_address m) \<and>
     mp_max_capacity m \<le> u64_max \<and> mp_max_total_bytes m < u64_max \<and> mp_max_tx_per_address m \<le> u64_max"

definition represents :: "mempool \<Rightarrow> (nat \<times> transaction) list \<Rightarrow> bool" where
  "represents m es \<longleftrightarrow> ordered m es \<and> indexed m es \<and> counted m es \<and> within_limits m"

lemma ordered_distinct: "ordered m es \<Longrightarrow> distinct es \<and> distinct (map fst es)"
  by (auto simp: ordered_def distinct_map strict_sorted_iff)

section \<open>Adding appends\<close>

text \<open>What the gates let through.\<close>

lemma structural_room:
  assumes "structural_gate vs tx m = Inr ()"
  shows "mp_tx_count m < mp_max_capacity m" "sat_add u64_max (mp_total_bytes m) (tx_byte_size tx) \<le> mp_max_total_bytes m"
  using assms by (auto simp: structural_gate_def split: if_splits)

lemma sender_room:
  assumes "sender_gate R tx m = Inr ()"
  shows "entry_of (mp_address_tx_count m) (to_ascii_lowercase (tx_sender tx)) < mp_max_tx_per_address m"
    and "map_of (mp_pool m) (tx_id tx) = None"
    and "map_of (mp_nonce_index m) (to_ascii_lowercase (tx_sender tx), tx_nonce tx) = None"
    and "reservation_cost m tx \<le> balance_or_zero R (tx_sender tx) -
      entry_of (mp_pending_costs m) (to_ascii_lowercase (tx_sender tx))"
  using assms by (auto simp: sender_gate_def Let_def entry_of_def sat_sub_def split: if_splits)

lemma map_keys_indexed: "map_of xs = map_of ys \<Longrightarrow> fst ` set xs = fst ` set ys"
  by (metis dom_map_of_conv_image_fst)

lemma push_lane_holds:
  assumes "lane_holds lane es" "\<forall>e \<in> set es. fst e < key" and that: "fst e = key" "ident e = h"
  shows "lane_holds (push_lane key h lane) (es @ [e])"
proof -
  have "key \<notin> fst ` set (map (\<lambda>e. (fst e, [ident e])) es)" using assms(2) by (force simp: image_image)
  then have none: "map_of lane key = None" and new: "map_of (map (\<lambda>e. (fst e, [ident e])) (es @ [e])) = (map_of lane)(key \<mapsto> [h])"
    using assms(1) that map_of_snoc [of key "map (\<lambda>e. (fst e, [ident e])) es"]
    by (auto simp: lane_holds_def map_of_eq_None_iff)
  show ?thesis using assms(1) none new by (simp add: lane_holds_def push_lane_def distinct_update)
qed

lemma insert_ordered:
  assumes "ordered m es" "mp_fifo_seq m < u64_max" "ident (mp_fifo_seq m, tx) \<notin> ident ` set es"
    "slot (mp_fifo_seq m, tx) \<notin> slot ` set es"
  shows "ordered (insert_transaction now tx m) (es @ [(mp_fifo_seq m, tx)])"
  using assms by (force simp: ordered_def insert_transaction_def Let_def wrap_u64_def sorted_wrt_append)

lemma insert_indexed:
  assumes "indexed m es" "ordered m es" "ident (mp_fifo_seq m, tx) \<notin> ident ` set es" "slot (mp_fifo_seq m, tx) \<notin> slot ` set es"
  shows "indexed (insert_transaction now tx m) (es @ [(mp_fifo_seq m, tx)])"
proof -
  let ?e = "(mp_fifo_seq m, tx)"
  have below: "\<forall>e \<in> set (filter P es). fst e < mp_fifo_seq m" for P using assms(2) by (auto simp: ordered_def)
  note push = push_lane_holds [OF _ below, of _ _ ?e "tx_id tx"]
  have new: "map_of (map (\<lambda>e. (ident e, f e)) (es @ [?e])) = (map_of (map (\<lambda>e. (ident e, f e)) es))(tx_id tx \<mapsto> f ?e)" for f
    using map_of_snoc [of "ident ?e" "map (\<lambda>e. (ident e, f e)) es" "f ?e"] assms(3) by (simp add: image_image ident_def)
  have slots: "map_of (map (\<lambda>e. (slot e, ident e)) (es @ [?e])) = (map_of (map (\<lambda>e. (slot e, ident e)) es))(slot ?e \<mapsto> tx_id tx)"
    using map_of_snoc [of "slot ?e" "map (\<lambda>e. (slot e, ident e)) es" "ident ?e"] assms(4) by (simp add: image_image ident_def)
  show ?thesis
    using assms(1) push [of "mp_fifo_queue m"] push [of "mp_heavy_fifo_queue m"]
    unfolding indexed_def new slots
    by (auto simp: insert_transaction_def Let_def heavy_def ident_def slot_def)
qed

lemma insert_counted:
  assumes "counted m es" "within_limits m" "mp_tx_count m < mp_max_capacity m"
    "sat_add u64_max (mp_total_bytes m) (tx_byte_size tx) \<le> mp_max_total_bytes m"
    "entry_of (mp_address_tx_count m) (to_ascii_lowercase (tx_sender tx)) < mp_max_tx_per_address m"
  shows "counted (insert_transaction now tx m) (es @ [(k, tx)]) \<and> within_limits (insert_transaction now tx m)"
proof -
  let ?a = "to_ascii_lowercase (tx_sender tx)"
  have room: "mp_tx_count m + 1 \<le> u64_max" "mp_total_bytes m + tx_byte_size tx \<le> mp_max_total_bytes m"
    "mp_total_bytes m + tx_byte_size tx \<le> u64_max" "entry_of (mp_address_tx_count m) ?a + 1 \<le> u64_max"
    using assms(2-5) by (auto simp: within_limits_def sat_add_def min_def split: if_splits)
  then show ?thesis
    using assms(1-3,5)
    by (auto simp: counted_def within_limits_def insert_transaction_def Let_def wrap_u64_def from_sender_def slot_def)
qed

text \<open>The gates only move the calculator's prices and an empty counter.\<close>

definition same_pool :: "mempool \<Rightarrow> mempool \<Rightarrow> bool" where
  "same_pool m m' \<longleftrightarrow> (\<exists>g xs. entry_of xs = entry_of (mp_address_tx_count m) \<and>
     m' = m\<lparr>mp_gas_calculator := g, mp_address_tx_count := xs\<rparr>)"

lemma same_pool_refl [simp]: "same_pool m m"
  unfolding same_pool_def by (rule exI [of _ "mp_gas_calculator m"], rule exI [of _ "mp_address_tx_count m"]) simp

lemma same_pool_trans: "same_pool m m' \<Longrightarrow> same_pool m' m'' \<Longrightarrow> same_pool m m''"
  unfolding same_pool_def by (elim exE conjE) (rule exI, rule exI, auto)

lemma same_pool_represents:
  "same_pool m m' \<Longrightarrow> represents m es \<Longrightarrow> represents m' es"
proof -
  assume "same_pool m m'"
  then obtain g xs where "entry_of xs = entry_of (mp_address_tx_count m)" and m': "m' = m\<lparr>mp_gas_calculator := g, mp_address_tx_count := xs\<rparr>"
    by (auto simp: same_pool_def)
  then have "ordered m' es = ordered m es" "indexed m' es = indexed m es" "counted m' es = counted m es"
    "within_limits m' = within_limits m"
    by (simp_all add: ordered_def indexed_def counted_def within_limits_def)
  then show "represents m es \<Longrightarrow> represents m' es" by (simp add: represents_def)
qed

lemma same_pool_fields:
  assumes "same_pool m m'"
  shows "mp_queued m' = mp_queued m" "mp_queued_total m' = mp_queued_total m" "mp_pending_costs m' = mp_pending_costs m"
    "mp_fifo_seq m' = mp_fifo_seq m" "mp_bridge_authority m' = mp_bridge_authority m" "mp_nonce_index m' = mp_nonce_index m"
    "mp_tx_count m' = mp_tx_count m" "mp_max_capacity m' = mp_max_capacity m"
    "mp_total_bytes m' = mp_total_bytes m" "mp_max_total_bytes m' = mp_max_total_bytes m"
    "mp_max_tx_per_address m' = mp_max_tx_per_address m"
  using assms by (auto simp: same_pool_def)

lemma gas_same: "same_pool m (m\<lparr>mp_gas_calculator := g\<rparr>)"
  unfolding same_pool_def by (rule exI [of _ g], rule exI [of _ "mp_address_tx_count m"]) simp

lemma min_fee_same: "same_pool m (snd (min_required_fee R tx m))"
  by (auto simp: min_required_fee_def native_min_required_fee_def sync_gas_pools_from_state_def Let_def gas_same
      split: option.split sum.split)

lemma fixed_fee_same: "same_pool m (snd (apply_fixed_gas_fee_returning_min R tx m))"
  using min_fee_same [of m R tx] by (auto simp: apply_fixed_gas_fee_returning_min_def Let_def split: prod.splits)

lemma fee_gate_same: "same_pool m (snd (fee_gate R tx p m))"
  using min_fee_same [of m R tx] by (auto simp: fee_gate_def Let_def split: prod.splits option.splits)

lemma counter_same: "same_pool m (m\<lparr>mp_address_tx_count := add_entry (\<lambda>n. n) a (mp_address_tx_count m)\<rparr>)"
  unfolding same_pool_def
  by (rule exI [of _ "mp_gas_calculator m"], rule exI [of _ "add_entry (\<lambda>n. n) a (mp_address_tx_count m)"]) simp

text \<open>A refused transaction changes nothing of that, an accepted one is put at the end.\<close>

lemma add_cases:
  assumes "add_transaction_with_min_fee R vs now tx p m = (r, m')"
  obtains (refused) e where "r = Inl e" "same_pool m m'"
  | (added) m1 where "r = Inr ()" "same_pool m m1" "sender_gate R tx m1 = Inr ()" "structural_gate vs tx m = Inr ()"
      "m' = insert_transaction now tx m1"
proof (cases "structural_gate vs tx m")
  case (Inl e)
  then have "r = Inl e" "m' = m" using assms by (simp_all add: add_transaction_with_min_fee_def)
  then show ?thesis by (intro refused) simp_all
next
  case (Inr u)
  obtain q m0 where q: "fee_gate R tx p m = (q, m0)" by (metis prod.exhaust)
  then have same: "same_pool m m0" using fee_gate_same [of m R tx p] by simp
  let ?m1 = "m0\<lparr>mp_address_tx_count := add_entry (\<lambda>n. n) (to_ascii_lowercase (tx_sender tx)) (mp_address_tx_count m0)\<rparr>"
  have same1: "same_pool m ?m1" using same_pool_trans [OF same counter_same] .
  show ?thesis
  proof (cases q)
    case (Inl e)
    then have "r = Inl e" "m' = m0" using assms q Inr by (simp_all add: add_transaction_with_min_fee_def \<open>structural_gate vs tx m = Inr u\<close>)
    then show ?thesis using same by (intro refused) simp_all
  next
    case (Inr v)
    show ?thesis
    proof (cases "sender_gate R tx ?m1")
      case (Inl e)
      then have "r = Inl e" "m' = ?m1"
        using assms q \<open>structural_gate vs tx m = Inr u\<close> \<open>q = Inr v\<close> by (simp_all add: add_transaction_with_min_fee_def Let_def)
      then show ?thesis using same1 by (intro refused) simp_all
    next
      case (Inr z)
      then have "r = Inr ()" "m' = insert_transaction now tx ?m1"
        using assms q \<open>structural_gate vs tx m = Inr u\<close> \<open>q = Inr v\<close> by (simp_all add: add_transaction_with_min_fee_def Let_def)
      then show ?thesis using same1 Inr \<open>structural_gate vs tx m = Inr u\<close> by (intro added) simp_all
    qed
  qed
qed

lemma insert_represents:
  assumes rep: "represents m es" and gate: "sender_gate R tx m = Inr ()" and seq: "mp_fifo_seq m < u64_max"
    and room: "mp_tx_count m < mp_max_capacity m" "sat_add u64_max (mp_total_bytes m) (tx_byte_size tx) \<le> mp_max_total_bytes m"
  shows "represents (insert_transaction now tx m) (es @ [(mp_fifo_seq m, tx)])"
proof -
  note parts = rep [unfolded represents_def]
  note gate' = sender_room [OF gate]
  have "ident ` set es = dom (map_of (mp_pool m))" "slot ` set es = dom (map_of (mp_nonce_index m))"
    using parts by (simp_all add: indexed_def dom_map_of_conv_image_fst image_image)
  then have new: "ident (mp_fifo_seq m, tx) \<notin> ident ` set es" "slot (mp_fifo_seq m, tx) \<notin> slot ` set es"
    using gate'(2,3) by (auto simp: ident_def slot_def domIff)
  show ?thesis
    unfolding represents_def
    using insert_ordered [OF _ seq new] insert_indexed [OF _ _ new] insert_counted [OF _ _ room gate'(1)] parts by blast
qed

theorem add_appends:
  assumes rep: "represents m es" and seq: "mp_fifo_seq m < u64_max"
    and add: "add_transaction_with_min_fee R vs now tx p m = (r, m')"
  shows "represents m' (case r of Inl _ \<Rightarrow> es | Inr _ \<Rightarrow> es @ [(mp_fifo_seq m, tx)])"
  using add
proof (cases rule: add_cases)
  case refused
  then show ?thesis using same_pool_represents rep by simp
next
  case (added m1)
  note same = same_pool_fields [OF added(2)] and room = structural_room [OF added(4)]
  have "represents (insert_transaction now tx m1) (es @ [(mp_fifo_seq m1, tx)])"
    by (rule insert_represents [OF same_pool_represents [OF added(2) rep] added(3)]) (use same seq room in simp_all)
  then show ?thesis using added same by simp
qed

section \<open>Removing filters\<close>

lemma pull_lane_holds:
  assumes lane: "lane_holds lane es" and e: "e \<in> set es" "distinct (map fst es)"
  shows "lane_holds (pull_lane (Some (fst e)) (ident e) lane) (filter (\<lambda>x. x \<noteq> e) es)"
proof -
  have d: "distinct (map (fst \<circ> (\<lambda>e. (fst e, [ident e]))) es)" using e(2) by (simp add: comp_def)
  have "map_of lane (fst e) = Some [ident e]"
    using lane e d map_of_is_SomeI [of "map (\<lambda>e. (fst e, [ident e])) es" "fst e" "[ident e]"] by (force simp: lane_holds_def comp_def)
  then show ?thesis
    using lane map_of_without [OF d e(1)] by (simp add: lane_holds_def pull_lane_def Let_def distinct_delete)
qed

lemma remove_absent: "represents m es \<Longrightarrow> h \<notin> ident ` set es \<Longrightarrow> remove_transaction h m = (None, m)"
proof -
  assume "represents m es" "h \<notin> ident ` set es"
  then have "map_of (mp_pool m) h = None" by (auto simp: represents_def indexed_def map_of_eq_None_iff image_image)
  then show ?thesis by (simp add: remove_transaction_def)
qed

lemma filter_without: "filter P (filter (\<lambda>x. x \<noteq> e) es) = filter (\<lambda>x. x \<noteq> e) (filter P es)"
  by (simp, rule arg_cong [where f = "\<lambda>P. filter P es"], auto)

lemma lane_without:
  assumes "lane_holds lane (filter P es)" "e \<in> set es" "distinct (map fst es)"
  shows "lane_holds (if P e then pull_lane (Some (fst e)) (ident e) lane else lane) (filter P (filter (\<lambda>x. x \<noteq> e) es))"
proof (cases "P e")
  case True
  have "distinct (map fst (filter P es))" by (simp add: assms(3) distinct_map_filter)
  then have "lane_holds (pull_lane (Some (fst e)) (ident e) lane) (filter (\<lambda>x. x \<noteq> e) (filter P es))"
    using True assms(2) by (intro pull_lane_holds [OF assms(1)]) simp_all
  then show ?thesis by (simp only: True if_True filter_without)
next
  case False
  then have "filter (\<lambda>x. x \<noteq> e) (filter P es) = filter P es"
    by (subst filter_id_conv) auto
  with False assms(1) show ?thesis by (simp only: if_False filter_without)
qed

lemma fetch_sub_exact: "k \<le> n \<Longrightarrow> n \<le> u64_max \<Longrightarrow> fetch_sub n k = n - k"
  by (simp add: fetch_sub_def wrap_u64_def mod_if)

lemma remove_member:
  assumes rep: "represents m es" and e: "e \<in> set es" "ident e = h"
  shows "fst (remove_transaction h m) = Some (snd e)"
    and "represents (snd (remove_transaction h m)) (filter (\<lambda>x. x \<noteq> e) es)"
proof -
  have ord: "ordered m es" and ix: "indexed m es" and ct: "counted m es" and lim: "within_limits m"
    using rep by (simp_all add: represents_def)
  have d: "distinct es" "distinct (map fst es)" using ordered_distinct [OF ord] by simp_all
  have di: "distinct (map (fst \<circ> (\<lambda>e. (ident e, f e))) es)" for f using ord by (simp add: ordered_def comp_def)
  have ds: "distinct (map (fst \<circ> (\<lambda>e. (slot e, f e))) es)" for f using ord by (simp add: ordered_def comp_def)
  have at_e: "map_of (map (\<lambda>e. (ident e, f e)) es) h = Some (f e)" for f
    using di e by (intro map_of_is_SomeI) (auto simp: comp_def)
  have found: "map_of (mp_pool m) h = Some (snd e)" "map_of (mp_fifo_key m) h = Some (fst e)"
    using ix at_e by (simp_all add: indexed_def)
  then show "fst (remove_transaction h m) = Some (snd e)" by (simp add: remove_transaction_def Let_def)
  let ?m = "snd (remove_transaction h m)" and ?es = "filter (\<lambda>x. x \<noteq> e) es"
  have "ordered ?m ?es"
    using ord found by (auto simp: ordered_def remove_transaction_def Let_def distinct_map_filter sorted_wrt_map sorted_wrt_filter)
  moreover have "indexed ?m ?es"
  proof -
    have ids: "ident ` set ?es = ident ` set es - {h}"
      using ord e by (auto simp: ordered_def distinct_map inj_on_def)
    note lanes = lane_without [OF _ e(1) d(2), of "mp_fifo_queue m" "\<lambda>e. \<not> heavy e"]
      lane_without [OF _ e(1) d(2), of "mp_heavy_fifo_queue m" heavy]
    have k: "(to_ascii_lowercase (tx_sender (snd e)), tx_nonce (snd e)) = slot e" "is_heavy (tx_kind (snd e)) = heavy e"
      by (simp_all add: slot_def heavy_def)
    have maps: "map_of (mp_pool ?m) = map_of (map (\<lambda>e. (ident e, snd e)) ?es)"
        "map_of (mp_nonce_index ?m) = map_of (map (\<lambda>e. (slot e, ident e)) ?es)"
        "map_of (mp_fifo_key ?m) = map_of (map (\<lambda>e. (ident e, fst e)) ?es)"
      unfolding map_of_without [OF di e(1)] map_of_without [OF ds e(1)]
      using ix found e(2) by (simp_all add: indexed_def remove_transaction_def Let_def k)
    have "mp_fifo_queue ?m = (if heavy e then mp_fifo_queue m else pull_lane (Some (fst e)) (ident e) (mp_fifo_queue m))"
        "mp_heavy_fifo_queue ?m = (if heavy e then pull_lane (Some (fst e)) (ident e) (mp_heavy_fifo_queue m) else mp_heavy_fifo_queue m)"
      using found e(2) by (simp_all add: remove_transaction_def Let_def k)
    then have "lane_holds (mp_fifo_queue ?m) (filter (\<lambda>e. \<not> heavy e) ?es)" "lane_holds (mp_heavy_fifo_queue ?m) (filter heavy ?es)"
      using lanes ix by (cases "heavy e"; simp add: indexed_def)+
    moreover have "dom (map_of (mp_arrival_time ?m)) = ident ` set ?es"
        "dom (map_of (mp_local_origin_last_broadcast ?m)) \<subseteq> ident ` set ?es"
      unfolding ids using ix found by (auto simp: indexed_def remove_transaction_def Let_def)
    ultimately show ?thesis using maps by (simp add: indexed_def)
  qed
  moreover have "counted ?m ?es \<and> within_limits ?m"
  proof -
    have n: "length ?es + 1 = length es" "(\<Sum>x \<leftarrow> ?es. tx_byte_size (snd x)) + tx_byte_size (snd e) = (\<Sum>x \<leftarrow> es. tx_byte_size (snd x))"
      using sum_without [OF d(1) e(1), of "\<lambda>_. 1"] sum_without [OF d(1) e(1), of "\<lambda>x. tx_byte_size (snd x)"] by (simp_all add: sum_list_triv)
    have a: "length (filter (from_sender a) ?es) = length (filter (from_sender a) es) - (if fst (slot e) = a then 1 else 0)" for a
      using length_without [OF d(1) e(1), of "from_sender a"] by (simp add: from_sender_def)
    have c: "fetch_sub (mp_tx_count m) 1 = length ?es" "fetch_sub (mp_total_bytes m) (tx_byte_size (snd e)) = (\<Sum>x \<leftarrow> ?es. tx_byte_size (snd x))"
      using n ct lim by (simp_all add: fetch_sub_exact counted_def within_limits_def)
    have "counted ?m ?es"
      using ct found c a by (simp add: counted_def remove_transaction_def Let_def slot_def)
    moreover have "within_limits ?m"
      using lim ct found c n by (auto simp: within_limits_def counted_def remove_transaction_def Let_def intro: le_trans [OF diff_le_self])
    ultimately show ?thesis by simp
  qed
  ultimately show "represents ?m ?es" by (simp add: represents_def)
qed

theorem remove_filters:
  assumes rep: "represents m es"
  shows "represents (snd (remove_transaction h m)) (filter (\<lambda>e. ident e \<noteq> h) es)"
proof (cases "h \<in> ident ` set es")
  case True
  then obtain e where e: "e \<in> set es" "ident e = h" by auto
  then have "filter (\<lambda>x. ident x \<noteq> h) es = filter (\<lambda>x. x \<noteq> e) es"
    using rep by (intro filter_cong) (auto simp: represents_def ordered_def distinct_map inj_on_def)
  then show ?thesis using remove_member(2) [OF rep e] by simp
next
  case False
  then have "filter (\<lambda>x. ident x \<noteq> h) es = es" by (auto simp: filter_id_conv)
  then show ?thesis using remove_absent [OF rep False] rep by simp
qed

section \<open>Selecting reads a prefix\<close>

lemma lane_order_eq:
  assumes "lane_holds lane es" "sorted_wrt (<) (map fst es)"
  shows "lane_order lane = map ident es"
proof -
  have ks: "fst ` set lane = fst ` set es"
    using assms(1) map_keys_indexed [of lane "map (\<lambda>e. (fst e, [ident e])) es"] by (simp add: lane_holds_def image_image)
  have d: "distinct (map fst es)" "sorted (map fst es)" using assms(2) by (simp_all add: strict_sorted_iff)
  have "sort (map fst lane) = map fst es"
    using assms(1) ks d by (intro sorted_distinct_set_unique) (simp_all add: lane_holds_def)
  then have "lane_order lane = concat (map (\<lambda>e. case map_of lane (fst e) of None \<Rightarrow> [] | Some b \<Rightarrow> b) es)"
    by (simp add: lane_order_def comp_def)
  also have "\<dots> = concat (map (\<lambda>e. [ident e]) es)"
  proof (intro arg_cong [where f = concat] map_cong refl)
    fix e
    assume "e \<in> set es"
    then have "map_of lane (fst e) = Some [ident e]"
      using assms(1) map_of_entry [of "\<lambda>e. (fst e, [ident e])" es e] d(1) by (simp add: lane_holds_def comp_def)
    then show "(case map_of lane (fst e) of None \<Rightarrow> [] | Some b \<Rightarrow> b) = [ident e]" by simp
  qed
  finally show ?thesis by (simp add: concat_map_singleton)
qed

lemma drain_prefix:
  "(\<And>e. e \<in> set es \<Longrightarrow> map_of pool (ident e) = Some (snd e)) \<Longrightarrow>
    drain_loop pool limit (map ident es) = take limit (map snd es)"
  by (induction es arbitrary: limit) (auto simp: take_Cons' split: if_splits)

definition gas_of :: "transaction list \<Rightarrow> nat" where
  "gas_of txs = (\<Sum>tx \<leftarrow> txs. tx_gas_limit tx)"

lemma drain_heavy_prefix:
  assumes "\<And>e. e \<in> set es \<Longrightarrow> map_of pool (ident e) = Some (snd e)" "budget < u128_max" "reserved \<le> budget"
  shows "\<exists>n \<le> limit. drain_heavy_loop pool limit budget reserved (map ident es) = take n (map snd es) \<and>
    reserved + gas_of (take n (map snd es)) \<le> budget \<and>
    (n < limit \<longrightarrow> n < length es \<longrightarrow> budget < reserved + gas_of (take (Suc n) (map snd es)))"
  using assms
proof (induction es arbitrary: limit reserved)
  case Nil
  then show ?case by (auto simp: gas_of_def)
next
  case (Cons e es)
  let ?g = "tx_gas_limit (snd e)"
  show ?case
  proof (cases "limit = 0 \<or> budget < sat_add u128_max reserved ?g")
    case True
    then have "reserved + ?g > budget \<or> limit = 0" using Cons.prems(2) by (auto simp: sat_add_def min_def split: if_splits)
    then show ?thesis using True Cons.prems by (intro exI [of _ 0]) (auto simp: gas_of_def)
  next
    case False
    then have g: "sat_add u128_max reserved ?g = reserved + ?g" "reserved + ?g \<le> budget"
      using Cons.prems(2) by (auto simp: sat_add_def min_def split: if_splits)
    obtain n where n: "n \<le> limit - 1"
      "drain_heavy_loop pool (limit - 1) budget (reserved + ?g) (map ident es) = take n (map snd es)"
      "reserved + ?g + gas_of (take n (map snd es)) \<le> budget"
      "n < limit - 1 \<longrightarrow> n < length es \<longrightarrow> budget < reserved + ?g + gas_of (take (Suc n) (map snd es))"
      using Cons.IH [OF Cons.prems(1) Cons.prems(2) g(2), of "limit - 1"] by auto
    then show ?thesis using False g Cons.prems(1) [of e]
      by (intro exI [of _ "Suc n"]) (auto simp: gas_of_def)
  qed
qed

text \<open>
  C16: The pool serves first come, first served. If \<open>es\<close> lists the waiting transactions in the order of
  their admission, the selection for a block is a prefix of the contract calls of that list, followed by a
  prefix of its other transactions: the first prefix is the longest one within the count and the gas budget
  of the block (the first contract call that does not fit ends it, a smaller later one is not taken
  instead), the second one fills the block up to the count.
\<close>

theorem selection_is_first_come_first_served:
  assumes rep: "represents m es" and budget: "mp_max_block_gas_limit m < u128_max"
  defines "calls \<equiv> map snd (filter heavy es)" and "others \<equiv> map snd (filter (\<lambda>e. \<not> heavy e) es)"
  shows "\<exists>n \<le> min max_heavy max_count.
    select_fifo max_count max_heavy m = take n calls @ take (max_count - length (take n calls)) others \<and>
    gas_of (take n calls) \<le> mp_max_block_gas_limit m \<and>
    (n < min max_heavy max_count \<longrightarrow> n < length calls \<longrightarrow> mp_max_block_gas_limit m < gas_of (take (Suc n) calls))"
proof -
  have ix: "indexed m es" and ord: "ordered m es" using rep by (simp_all add: represents_def)
  have pool: "map_of (mp_pool m) (ident e) = Some (snd e)" if "e \<in> set es" for e
    using ix ord that map_of_is_SomeI [of "map (\<lambda>e. (ident e, snd e)) es" "ident e" "snd e"]
    by (auto simp: indexed_def ordered_def comp_def)
  have sorted: "sorted_wrt (<) (map fst (filter P es))" for P
    using ord by (simp add: ordered_def sorted_wrt_map sorted_wrt_filter)
  have lanes: "lane_order (mp_heavy_fifo_queue m) = map ident (filter heavy es)"
      "lane_order (mp_fifo_queue m) = map ident (filter (\<lambda>e. \<not> heavy e) es)"
    using ix by (auto simp: indexed_def intro!: lane_order_eq sorted)
  obtain n where n: "n \<le> min max_heavy max_count"
      "drain_heavy_loop (mp_pool m) (min max_heavy max_count) (mp_max_block_gas_limit m) 0 (map ident (filter heavy es)) = take n calls"
      "gas_of (take n calls) \<le> mp_max_block_gas_limit m"
      "n < min max_heavy max_count \<longrightarrow> n < length calls \<longrightarrow> mp_max_block_gas_limit m < gas_of (take (Suc n) calls)"
    using drain_heavy_prefix [OF _ budget, of "filter heavy es" "mp_pool m" 0 "min max_heavy max_count"] pool
    by (auto simp: calls_def)
  have "drain_loop (mp_pool m) k (map ident (filter (\<lambda>e. \<not> heavy e) es)) = take k others" for k
    unfolding others_def by (rule drain_prefix) (use pool in auto)
  then show ?thesis
    using n by (intro exI [of _ n]) (simp add: select_fifo_def drain_heavy_queue_within_gas_budget_def drain_queue_def lanes Let_def sat_sub_def)
qed

text \<open>A pool with one transfer.\<close>

lemma empty_represents: "cap \<le> u64_max \<Longrightarrow> b < u64_max \<Longrightarrow> represents (with_limits g cap b e) []"
  by (simp add: represents_def ordered_def indexed_def counted_def within_limits_def lane_holds_def with_limits_def entry_of_def)

definition sample_reads :: chain_reads where
  "sample_reads = \<lparr>cr_balance = (\<lambda>_. Inr 100), cr_nonce = (\<lambda>_. Inr 0), cr_pool_reserves = Inr (1, 1)\<rparr>"

definition empty_pool :: mempool where
  "empty_pool = with_limits (gc_new 1 1) 10 1000 3600"

lemma sample_cost: "native_zagros_cost sample_transfer = 4"
  by (simp add: native_zagros_cost_def Let_def sample_transfer_def debits_value_def sat_add_def sat_mul_def)

lemma sample_gate: "sender_gate sample_reads sample_transfer empty_pool = Inr ()"
  by (simp add: sender_gate_def Let_def empty_pool_def with_limits_def reservation_cost_def is_exempt_bridge_mint_def
      sample_cost balance_or_zero_def sample_reads_def sat_sub_def)

lemma sample_size: "tx_byte_size sample_transfer = 212"
  by (simp add: tx_byte_size_def sample_transfer_def alice_def bob_def)

lemma sample_pool_represents: "represents (insert_transaction 0 sample_transfer empty_pool) [(0, sample_transfer)]"
proof -
  have "represents empty_pool []" by (simp add: empty_pool_def empty_represents)
  then have "represents (insert_transaction 0 sample_transfer empty_pool) ([] @ [(mp_fifo_seq empty_pool, sample_transfer)])"
    by (rule insert_represents [OF _ sample_gate]) (simp_all add: empty_pool_def with_limits_def sample_size sat_add_def)
  then show ?thesis by (simp add: empty_pool_def with_limits_def)
qed

lemma selection_is_first_come_first_served_witness:
  "select_fifo 5 1 (insert_transaction 0 sample_transfer empty_pool) = [sample_transfer]"
proof -
  have "\<not> heavy (0, sample_transfer)" by (simp add: heavy_def sample_transfer_def is_heavy_def)
  moreover have "mp_max_block_gas_limit (insert_transaction 0 sample_transfer empty_pool) < u128_max"
    by (simp add: insert_transaction_def Let_def empty_pool_def with_limits_def MAX_BLOCK_GAS_LIMIT_def)
  ultimately show ?thesis
    using selection_is_first_come_first_served [OF sample_pool_represents, of 1 5] by auto
qed

end
