(* ===== verification/PoolRuns.thy ===== *)
theory PoolRuns
  imports PoolOrder
begin

text \<open>
  The balance reserved for waiting transactions, the queue of transactions ahead of their nonce, and the
  two together with \<open>represents\<close> through every sequence of calls.
\<close>

section \<open>The next nonce\<close>

lemma pending_loop_least:
  "pending_nonce_loop fuel index s n = Some r \<Longrightarrow> n \<le> u64_max \<Longrightarrow>
    n \<le> r \<and> map_of index (s, r) = None \<and> (\<forall>i. n \<le> i \<longrightarrow> i < r \<longrightarrow> map_of index (s, i) \<noteq> None)"
proof (induction fuel index s n rule: pending_nonce_loop.induct)
  case (2 fuel index s n)
  show ?case
  proof (cases "map_of index (s, n)")
    case None
    then show ?thesis using 2(2) by simp
  next
    case (Some h)
    then have "sat_add u64_max n 1 \<le> r \<and> map_of index (s, r) = None \<and>
        (\<forall>i. sat_add u64_max n 1 \<le> i \<longrightarrow> i < r \<longrightarrow> map_of index (s, i) \<noteq> None)"
      using 2 by simp
    moreover have "r \<noteq> n" using calculation Some by auto
    moreover have "sat_add u64_max n 1 = n + 1 \<or> sat_add u64_max n 1 = n" using 2(3) by (auto simp: sat_add_def)
    ultimately show ?thesis using Some by (auto simp: less_Suc_eq_le nat_less_le) (metis Suc_leI le_neq_implies_less)+
  qed
qed simp

lemma pending_loop_full:
  assumes "pending_nonce_loop fuel index s n = None" "n \<le> u64_max" "map_of index (s, u64_max) = None"
  shows "\<forall>i < fuel. map_of index (s, n + i) \<noteq> None"
  using assms
proof (induction fuel index s n rule: pending_nonce_loop.induct)
  case (2 fuel index s n)
  have occ: "map_of index (s, n) \<noteq> None" using 2(2) by (auto split: if_splits)
  have "n \<noteq> u64_max" using occ 2(4) by metis
  then have next_n: "sat_add u64_max n 1 = Suc n" "Suc n \<le> u64_max" using 2(3) by (simp_all add: sat_add_def)
  have "pending_nonce_loop fuel index s (Suc n) = None" using 2(2) occ next_n(1) by simp
  then have rest: "\<forall>i < fuel. map_of index (s, Suc n + i) \<noteq> None" using 2(1) [OF occ] next_n 2(4) by simp
  show ?case
  proof (intro allI impI)
    fix i
    assume "i < Suc fuel"
    then show "map_of index (s, n + i) \<noteq> None" using occ rest by (cases i) simp_all
  qed
qed simp

lemma pending_nonce_ends:
  assumes "n \<le> u64_max" "map_of (mp_nonce_index m) (to_ascii_lowercase a, u64_max) = None"
  shows "pending_nonce m n a \<noteq> None"
proof
  let ?ix = "mp_nonce_index m" and ?s = "to_ascii_lowercase a"
  assume "pending_nonce m n a = None"
  then have all: "\<forall>i < Suc (length ?ix). map_of ?ix (?s, n + i) \<noteq> None"
    using pending_loop_full [OF _ assms] by (simp only: pending_nonce_def)
  have "(\<lambda>i. (?s, n + i)) ` {..< Suc (length ?ix)} \<subseteq> dom (map_of ?ix)" using all by auto
  then have "card ((\<lambda>i. (?s, n + i)) ` {..< Suc (length ?ix)}) \<le> card (dom (map_of ?ix))"
    by (intro card_mono) (simp_all add: finite_dom_map_of)
  moreover have "card ((\<lambda>i. (?s, n + i)) ` {..< Suc (length ?ix)}) = Suc (length ?ix)"
    by (simp add: card_image inj_on_def)
  moreover have "card (dom (map_of ?ix)) \<le> length ?ix"
    by (simp add: dom_map_of_conv_image_fst) (metis card_length length_map list.set_map)
  ultimately show False by simp
qed

section \<open>The reserved balance\<close>

definition spoken_for :: "address \<Rightarrow> (nat \<times> transaction) list \<Rightarrow> nat" where
  "spoken_for a es = (\<Sum>e \<leftarrow> filter (from_sender a) es. native_zagros_cost (snd e))"

text \<open>The bridge's own signer is left out: its mints reserve nothing, but release their cost.\<close>

definition backed :: "mempool \<Rightarrow> (nat \<times> transaction) list \<Rightarrow> bool" where
  "backed m es \<longleftrightarrow> (\<forall>a. (\<forall>b. mp_bridge_authority m = Some b \<longrightarrow> a \<noteq> to_ascii_lowercase b) \<longrightarrow>
     entry_of (mp_pending_costs m) a = spoken_for a es \<and> spoken_for a es \<le> u128_max)"

definition reads_ok :: "chain_reads \<Rightarrow> bool" where
  "reads_ok R \<longleftrightarrow> (\<forall>a. balance_or_zero R a \<le> u128_max)"

lemma spoken_snoc: "spoken_for a (es @ [e]) = spoken_for a es + (if from_sender a e then native_zagros_cost (snd e) else 0)"
  by (simp add: spoken_for_def)

lemma spoken_without:
  assumes "distinct es" "e \<in> set es"
  shows "spoken_for a (filter (\<lambda>x. x \<noteq> e) es) = spoken_for a es - (if from_sender a e then native_zagros_cost (snd e) else 0)"
proof (cases "from_sender a e")
  case True
  have "spoken_for a (filter (\<lambda>x. x \<noteq> e) es) + native_zagros_cost (snd e) = spoken_for a es"
    unfolding spoken_for_def filter_without using assms True by (intro sum_without) simp_all
  then show ?thesis using True by simp
next
  case False
  then have "filter (\<lambda>x. x \<noteq> e) (filter (from_sender a) es) = filter (from_sender a) es"
    by (subst filter_id_conv) auto
  then show ?thesis using False unfolding spoken_for_def filter_without by simp
qed

lemma exempt_sender: "is_exempt_bridge_mint m tx \<Longrightarrow>
    \<exists>b. mp_bridge_authority m = Some b \<and> to_ascii_lowercase (tx_sender tx) = to_ascii_lowercase b"
  by (auto simp: is_exempt_bridge_mint_def eq_ignore_ascii_case_def split: option.splits)

lemma insert_backed:
  assumes "backed m es" "sender_gate R tx m = Inr ()" "reads_ok R"
  shows "backed (insert_transaction now tx m) (es @ [(k, tx)])"
  unfolding backed_def
proof (intro allI impI)
  fix a
  let ?s = "to_ascii_lowercase (tx_sender tx)" and ?m = "insert_transaction now tx m"
  assume other: "\<forall>b. mp_bridge_authority ?m = Some b \<longrightarrow> a \<noteq> to_ascii_lowercase b"
  have auth: "mp_bridge_authority ?m = mp_bridge_authority m" by (simp add: insert_transaction_def Let_def)
  have old: "entry_of (mp_pending_costs m) a = spoken_for a es" "spoken_for a es \<le> u128_max"
    using assms(1) other auth by (simp_all add: backed_def)
  have new: "entry_of (mp_pending_costs ?m) a = (if a = ?s then wrap_u128 (spoken_for a es + reservation_cost m tx) else spoken_for a es)"
    using old by (auto simp: insert_transaction_def Let_def)
  show "entry_of (mp_pending_costs ?m) a = spoken_for a (es @ [(k, tx)]) \<and> spoken_for a (es @ [(k, tx)]) \<le> u128_max"
  proof (cases "a = ?s")
    case True
    then have "\<not> is_exempt_bridge_mint m tx" using other auth exempt_sender by auto
    then have cost: "reservation_cost m tx = native_zagros_cost tx" by (simp add: reservation_cost_def)
    have "native_zagros_cost tx \<le> balance_or_zero R (tx_sender tx) - spoken_for a es"
      using sender_room(4) [OF assms(2)] cost old True by simp
    moreover have "balance_or_zero R (tx_sender tx) \<le> u128_max" using assms(3) by (simp add: reads_ok_def)
    ultimately have "spoken_for a es + native_zagros_cost tx \<le> u128_max" using old(2) by linarith
    then show ?thesis using new cost True by (simp add: spoken_snoc from_sender_def slot_def wrap_u128_def)
  qed (use new old in \<open>simp add: spoken_snoc from_sender_def slot_def\<close>)
qed

lemma remove_backed:
  assumes "represents m es" "backed m es"
  shows "backed (snd (remove_transaction h m)) (filter (\<lambda>e. ident e \<noteq> h) es)"
proof (cases "h \<in> ident ` set es")
  case False
  then have "filter (\<lambda>x. ident x \<noteq> h) es = es" by (subst filter_id_conv) auto
  then show ?thesis using remove_absent [OF assms(1) False] assms(2) by simp
next
  case True
  then obtain e where e: "e \<in> set es" "ident e = h" by auto
  then have es: "filter (\<lambda>x. ident x \<noteq> h) es = filter (\<lambda>x. x \<noteq> e) es"
    using assms(1) by (intro filter_cong) (auto simp: represents_def ordered_def distinct_map inj_on_def)
  have d: "distinct es" using assms(1) ordered_distinct by (auto simp: represents_def)
  have "map_of (mp_pool m) h = Some (snd e)"
    using assms(1) map_of_entry [of "\<lambda>e. (ident e, snd e)" es e] e by (simp add: represents_def indexed_def ordered_def comp_def)
  then show ?thesis
    unfolding es using assms(2) spoken_without [OF d e(1)]
    by (auto simp: backed_def remove_transaction_def Let_def from_sender_def slot_def)
qed

lemma validated_gas: "tx_validate vs tx = Inr () \<Longrightarrow> 0 < tx_gas_limit tx \<and> 0 < tx_gas_price tx"
  by (auto simp: tx_validate_def split: if_splits)

lemma admitted_cost: "structural_gate vs tx m = Inr () \<Longrightarrow> 0 < native_zagros_cost tx"
proof -
  assume "structural_gate vs tx m = Inr ()"
  then have "tx_validate vs tx = Inr ()" by (auto simp: structural_gate_def try_then_Inr split: if_splits)
  then have "0 < sat_mul u128_max (tx_gas_limit tx) (tx_gas_price tx)"
    using validated_gas by (simp add: sat_mul_def)
  then show ?thesis by (auto simp: native_zagros_cost_def Let_def sat_add_def)
qed

text \<open>
  C17: No sender gets more into the pool than it can pay: when a transaction is admitted, all the waiting
  transactions of its sender together, fees and transferred amounts, cost at most the sender's balance on
  the chain. The sender is not the bridge's own signer, whose mints are exempt.
\<close>

theorem waiting_transactions_are_covered:
  assumes "backed m es" and "add_transaction_with_min_fee R vs now tx p m = (Inr (), m')"
    and "\<forall>b. mp_bridge_authority m = Some b \<longrightarrow> to_ascii_lowercase (tx_sender tx) \<noteq> to_ascii_lowercase b"
  shows "spoken_for (to_ascii_lowercase (tx_sender tx)) (es @ [(mp_fifo_seq m, tx)]) \<le> balance_or_zero R (tx_sender tx)"
  using assms(2)
proof (cases rule: add_cases)
  case (added m1)
  let ?s = "to_ascii_lowercase (tx_sender tx)"
  note same = same_pool_fields [OF added(2)]
  have "\<not> is_exempt_bridge_mint m1 tx" using exempt_sender [of m1 tx] assms(3) same(5) by auto
  then have "native_zagros_cost tx \<le> balance_or_zero R (tx_sender tx) - entry_of (mp_pending_costs m) ?s"
    using sender_room(4) [OF added(3)] same(3) by (simp add: reservation_cost_def)
  moreover have "entry_of (mp_pending_costs m) ?s = spoken_for ?s es" using assms(1,3) by (simp add: backed_def)
  ultimately show ?thesis
    using admitted_cost [OF added(4)] by (simp add: spoken_snoc from_sender_def slot_def)
qed simp

lemma sample_admitted: "structural_gate (\<lambda>_. True) sample_transfer empty_pool = Inr ()"
proof -
  have "validate_address alice" "validate_address bob" by code_simp+
  then have "tx_validate (\<lambda>_. True) sample_transfer = Inr ()"
    by (simp add: tx_validate_def sample_transfer_def checks_amount_def TOTAL_SUPPLY_def MAX_SUPPLY_def TOKEN_DECIMAL_def)
  then show ?thesis
    by (simp add: structural_gate_def empty_pool_def with_limits_def sample_size sat_add_def try_then_Inr evm_calldata_def)
      (simp add: sample_transfer_def)
qed

lemma sample_added:
  "\<exists>m. add_transaction_with_min_fee sample_reads (\<lambda>_. True) 0 sample_transfer (Some 1) empty_pool = (Inr (), m)"
proof -
  have "fee_gate sample_reads sample_transfer (Some 1) empty_pool = (Inr (), empty_pool)"
    by (simp add: fee_gate_def Let_def is_exempt_bridge_mint_def empty_pool_def with_limits_def sample_transfer_def
        sat_mul_def sample_reads_def balance_or_zero_def)
  moreover have "sender_gate sample_reads sample_transfer (empty_pool\<lparr>mp_address_tx_count := xs\<rparr>) = Inr ()"
    if "entry_of xs (to_ascii_lowercase (tx_sender sample_transfer)) = 0" for xs
    using that
    by (simp add: sender_gate_def Let_def empty_pool_def with_limits_def reservation_cost_def is_exempt_bridge_mint_def
      sample_cost balance_or_zero_def sample_reads_def sat_sub_def entry_of_def)
  moreover have "entry_of (add_entry (\<lambda>n. n) a (mp_address_tx_count empty_pool)) a = 0" for a
    by (simp add: empty_pool_def with_limits_def entry_of_def)
  ultimately show ?thesis by (simp add: add_transaction_with_min_fee_def sample_admitted Let_def)
qed

lemma empty_backed: "backed (with_limits g cap b e) []"
  by (simp add: backed_def with_limits_def entry_of_def spoken_for_def)

lemma waiting_transactions_are_covered_witness:
  "spoken_for (to_ascii_lowercase alice) [(0, sample_transfer)] \<le> 100"
proof -
  obtain m where m: "add_transaction_with_min_fee sample_reads (\<lambda>_. True) 0 sample_transfer (Some 1) empty_pool = (Inr (), m)"
    using sample_added by blast
  have "backed empty_pool []" by (simp add: empty_pool_def empty_backed)
  from waiting_transactions_are_covered [OF this m] show ?thesis
    by (simp add: empty_pool_def with_limits_def sample_reads_def balance_or_zero_def sample_transfer_def)
qed

text \<open>
  The bridge signer's mint reserves nothing when it comes and releases its cost when it goes: the
  reservation of the signer's other transactions shrinks by it.
\<close>

theorem exempt_mint_frees_other_reservations:
  assumes exempt: "is_exempt_bridge_mint m tx" and other: "entry_of (mp_pending_costs m) (to_ascii_lowercase (tx_sender tx)) \<le> u128_max"
  shows "entry_of (mp_pending_costs (snd (remove_transaction (tx_id tx) (insert_transaction now tx m))))
      (to_ascii_lowercase (tx_sender tx)) =
    entry_of (mp_pending_costs m) (to_ascii_lowercase (tx_sender tx)) - native_zagros_cost tx"
proof -
  have "map_of (mp_pool (insert_transaction now tx m)) (tx_id tx) = Some tx" by (simp add: insert_transaction_def Let_def)
  then show ?thesis
    using exempt other
    by (simp add: remove_transaction_def Let_def insert_transaction_def reservation_cost_def wrap_u128_def)
qed

section \<open>The queue of transactions ahead of their nonce\<close>

definition queue_size :: "(address \<times> forward_queue) list \<Rightarrow> nat" where
  "queue_size qs = (\<Sum>(_, q) \<leftarrow> qs. length q)"

definition queue_ok :: "mempool \<Rightarrow> bool" where
  "queue_ok m \<longleftrightarrow> distinct (map fst (mp_queued m)) \<and>
     (\<forall>(a, q) \<in> set (mp_queued m). distinct (map fst q) \<and> length q \<le> MAX_QUEUED_PER_SENDER) \<and>
     mp_queued_total m = queue_size (mp_queued m) \<and> mp_queued_total m \<le> MAX_QUEUED_TOTAL"

lemma queue_size_update:
  "distinct (map fst qs) \<Longrightarrow>
     queue_size (AList.update a q qs) + length (case map_of qs a of None \<Rightarrow> [] | Some q \<Rightarrow> q) = queue_size qs + length q"
proof (induction qs)
  case (Cons x qs)
  then show ?case by (cases x) (auto simp: queue_size_def map_of_eq_None_iff [symmetric] split: option.splits)
qed (simp add: queue_size_def)

lemma queue_of_member: "queue_ok m \<Longrightarrow> distinct (map fst (queue_of m a)) \<and> length (queue_of m a) \<le> MAX_QUEUED_PER_SENDER"
  by (auto simp: queue_ok_def queue_of_def dest!: map_of_SomeD split: option.splits)

lemma queue_within: "distinct (map fst qs) \<Longrightarrow> length (case map_of qs a of None \<Rightarrow> [] | Some q \<Rightarrow> q) \<le> queue_size qs"
  by (induction qs) (auto simp: queue_size_def split: option.splits)

lemma length_update_entry: "length (AList.update k v q) = (if map_of q k = None then Suc (length q) else length q)"
  by (induction q) auto

lemma length_delete_entry: "distinct (map fst q) \<Longrightarrow> length (AList.delete k q) = length q - (if map_of q k = None then 0 else 1)"
proof (induction q)
  case (Cons x q)
  then have "map_of q (fst x) = None" by (simp add: map_of_eq_None_iff)
  with Cons show ?case by (cases x) (auto simp: neq_Nil_conv split: if_splits; (cases q; auto))
qed simp

text \<open>One queue replaced by another that is no longer than allowed.\<close>

lemma queue_ok_update:
  assumes "queue_ok m" "distinct (map fst q)" "length q \<le> MAX_QUEUED_PER_SENDER"
    and "t + length (queue_of m a) = mp_queued_total m + length q" "t \<le> MAX_QUEUED_TOTAL"
  shows "queue_ok (m\<lparr>mp_queued := AList.update a q (mp_queued m), mp_queued_total := t\<rparr>)"
proof -
  have d: "distinct (map fst (mp_queued m))" using assms(1) by (simp add: queue_ok_def)
  have "queue_size (AList.update a q (mp_queued m)) = t"
    using queue_size_update [OF d, of a q] assms(1,4) by (simp add: queue_ok_def queue_of_def)
  then show ?thesis
    using assms d set_update_subset [of a q "mp_queued m"] by (auto simp: queue_ok_def distinct_update)
qed

lemma take_expected_ok:
  assumes "queue_ok m"
  shows "queue_ok (snd (take_expected a n m))"
proof (cases "map_of (mp_queued m) a")
  case None
  then show ?thesis using assms by (simp add: take_expected_def)
next
  case (Some q)
  let ?f = "filter (\<lambda>(i, _). n \<le> i) q"
  have q: "distinct (map fst q)" "length q \<le> MAX_QUEUED_PER_SENDER" "queue_of m a = q"
    using queue_of_member [OF assms, of a] Some by (simp_all add: queue_of_def)
  have f: "distinct (map fst ?f)" "length ?f \<le> length q" using q by (simp_all add: distinct_map_filter)
  have total: "length q \<le> mp_queued_total m" "mp_queued_total m \<le> u64_max"
    using assms queue_within [of "mp_queued m" a] Some by (auto simp: queue_ok_def MAX_QUEUED_TOTAL_def)
  have found: "map_of ?f n \<noteq> None \<Longrightarrow> 0 < length ?f" by (cases ?f) auto
  define t where "t = (if map_of ?f n = None then mp_queued_total m - (length q - length ?f)
    else mp_queued_total m - (length q - length ?f) - 1)"
  have t: "(if map_of ?f n = None then fetch_sub (mp_queued_total m) (length q - length ?f)
      else fetch_sub (fetch_sub (mp_queued_total m) (length q - length ?f)) 1) = t"
  proof -
    have one: "fetch_sub (mp_queued_total m) (length q - length ?f) = mp_queued_total m - (length q - length ?f)"
      using total f(2) by (intro fetch_sub_exact) simp_all
    show ?thesis
    proof (cases "map_of ?f n")
      case (Some e)
      then have "0 < length ?f" using found by blast
      then have "1 \<le> mp_queued_total m - (length q - length ?f)" using total f(2) by linarith
      then have "fetch_sub (mp_queued_total m - (length q - length ?f)) 1 = mp_queued_total m - (length q - length ?f) - 1"
        using total by (intro fetch_sub_exact) linarith+
      with Some one show ?thesis by (simp add: t_def)
    qed (simp add: t_def one)
  qed
  have "queue_ok (m\<lparr>mp_queued := AList.update a (AList.delete n ?f) (mp_queued m), mp_queued_total := t\<rparr>)"
  proof (rule queue_ok_update [OF assms])
    show "distinct (map fst (AList.delete n ?f))" using f(1) by (simp add: distinct_delete)
    show "length (AList.delete n ?f) \<le> MAX_QUEUED_PER_SENDER"
      unfolding length_delete_entry [OF f(1)] using f(2) q(2) by linarith
    show "t + length (queue_of m a) = mp_queued_total m + length (AList.delete n ?f)"
    proof (cases "map_of ?f n = None")
      case False
      then have "0 < length ?f" using found by blast
      with False total f(2) show ?thesis unfolding t_def q(3) length_delete_entry [OF f(1)] by (simp only: if_False)
    qed (use total f(2) in \<open>simp add: t_def q(3) length_delete_entry [OF f(1)]\<close>)
    have "t \<le> mp_queued_total m" unfolding t_def
      by (split if_split) (intro conjI impI diff_le_self le_trans [OF diff_le_self diff_le_self])
    also have "\<dots> \<le> MAX_QUEUED_TOTAL" using assms by (simp add: queue_ok_def)
    finally show "t \<le> MAX_QUEUED_TOTAL" .
  qed
  then show ?thesis using Some t by (simp add: take_expected_def Let_def)
qed

lemma same_pool_queue: "same_pool m m' \<Longrightarrow> queue_ok m' = queue_ok m"
  by (simp add: queue_ok_def same_pool_fields)

lemma same_pool_backed: "same_pool m m' \<Longrightarrow> backed m' es = backed m es"
  by (simp add: backed_def same_pool_fields)

lemma same_pool_queue_of: "same_pool m m' \<Longrightarrow> queue_of m' a = queue_of m a"
  by (simp add: queue_of_def same_pool_fields)

lemma enqueue_ok:
  assumes "queue_ok m"
  shows "queue_ok (snd (enqueue_forward_nonce R vs now tx l m))"
proof -
  obtain fee m1 where fee: "min_required_fee R tx m = (fee, m1)" by (metis prod.exhaust)
  then have same: "same_pool m m1" using min_fee_same [of m R tx] by simp
  then have ok1: "queue_ok m1" using assms by (simp add: same_pool_queue)
  let ?a = "to_ascii_lowercase (tx_sender tx)"
  let ?q = "queue_of m1 ?a"
  let ?m2 = "m1\<lparr>mp_queued := AList.update ?a ?q (mp_queued m1)\<rparr>"
  let ?q' = "AList.update (tx_nonce tx) (tx, now, l) ?q"
  have q: "distinct (map fst ?q)" "length ?q \<le> MAX_QUEUED_PER_SENDER" using queue_of_member [OF ok1] by simp_all
  have ok2: "queue_ok ?m2" using queue_ok_update [OF ok1 q, of "mp_queued_total m1"] ok1 by (simp add: queue_ok_def)
  have q2: "queue_of ?m2 ?a = ?q" by (simp add: queue_of_def)
  have full: "queue_ok (?m2\<lparr>mp_queued := AList.update ?a ?q' (mp_queued ?m2),
      mp_queued_total := if map_of ?q (tx_nonce tx) = None then wrap_u64 (mp_queued_total m1 + 1) else mp_queued_total m1\<rparr>)"
    if room: "mp_queued_total m1 < MAX_QUEUED_TOTAL" "length ?q < MAX_QUEUED_PER_SENDER \<or> map_of ?q (tx_nonce tx) \<noteq> None"
  proof (rule queue_ok_update [OF ok2])
    show "distinct (map fst ?q')" using q(1) by (simp add: distinct_update)
    show "length ?q' \<le> MAX_QUEUED_PER_SENDER" using room(2) q(2) by (auto simp: length_update_entry)
    have w: "wrap_u64 (mp_queued_total m1 + 1) = mp_queued_total m1 + 1"
      using room(1) by (simp add: wrap_u64_def MAX_QUEUED_TOTAL_def)
    show "(if map_of ?q (tx_nonce tx) = None then wrap_u64 (mp_queued_total m1 + 1) else mp_queued_total m1) +
        length (queue_of ?m2 ?a) = mp_queued_total ?m2 + length ?q'"
      unfolding q2 using w by (auto simp: length_update_entry)
    show "(if map_of ?q (tx_nonce tx) = None then wrap_u64 (mp_queued_total m1 + 1) else mp_queued_total m1) \<le> MAX_QUEUED_TOTAL"
      using room(1) w by simp
  qed
  have twice: "AList.update ?a ?q' (AList.update ?a ?q (mp_queued m1)) = AList.update ?a ?q' (mp_queued ?m2)" by simp
  show ?thesis
    using assms ok1 ok2 full
    by (auto simp: enqueue_forward_nonce_def fee Let_def not_le split: sum.split)
qed

section \<open>Every sequence of calls\<close>

definition pool_ok :: "mempool \<Rightarrow> bool" where
  "pool_ok m \<longleftrightarrow> (\<exists>es. represents m es \<and> backed m es) \<and> queue_ok m"

lemma same_pool_ok: "same_pool m m' \<Longrightarrow> pool_ok m \<Longrightarrow> pool_ok m'"
  unfolding pool_ok_def using same_pool_represents same_pool_backed same_pool_queue by blast

lemma queue_only:
  assumes "m' = m\<lparr>mp_queued := qs, mp_queued_total := t\<rparr>" "pool_ok m" "queue_ok m'"
  shows "pool_ok m'"
proof -
  have "represents m' es = represents m es" "backed m' es = backed m es" for es
    using assms(1) by (simp_all add: represents_def ordered_def indexed_def counted_def within_limits_def backed_def)
  then show ?thesis using assms(2,3) by (simp add: pool_ok_def)
qed

lemma add_ok:
  assumes ok: "pool_ok m" and R: "reads_ok R" and seq: "mp_fifo_seq m < u64_max"
    and add: "add_transaction_with_min_fee R vs now tx p m = (r, m')"
  shows "pool_ok m' \<and> mp_fifo_seq m' \<le> mp_fifo_seq m + 1"
  using add
proof (cases rule: add_cases)
  case refused
  then show ?thesis using same_pool_ok [OF _ ok] same_pool_fields by simp
next
  case (added m1)
  obtain es where es: "represents m es" "backed m es" using ok by (auto simp: pool_ok_def)
  have "represents m' (es @ [(mp_fifo_seq m, tx)])" using add_appends [OF es(1) seq add] added(1) by simp
  moreover have "backed m' (es @ [(mp_fifo_seq m, tx)])"
    using insert_backed [OF _ added(3) R] same_pool_backed [OF added(2)] es(2) added(5) by simp
  moreover have "queue_ok m'"
    using ok same_pool_queue [OF added(2)] added(5) by (simp add: pool_ok_def queue_ok_def insert_transaction_def Let_def)
  moreover have "mp_fifo_seq m' \<le> mp_fifo_seq m + 1"
    using added(5) same_pool_fields(4) [OF added(2)] by (simp add: insert_transaction_def Let_def wrap_u64_def)
  ultimately show ?thesis by (auto simp: pool_ok_def)
qed

lemma remove_same: "mp_queued (snd (remove_transaction h m)) = mp_queued m \<and>
    mp_queued_total (snd (remove_transaction h m)) = mp_queued_total m \<and>
    mp_fifo_seq (snd (remove_transaction h m)) = mp_fifo_seq m"
  by (simp add: remove_transaction_def Let_def split: option.split)

lemma remove_ok:
  assumes "pool_ok m"
  shows "pool_ok (snd (remove_transaction h m)) \<and> mp_fifo_seq (snd (remove_transaction h m)) = mp_fifo_seq m"
proof -
  obtain es where "represents m es" "backed m es" "queue_ok m" using assms by (auto simp: pool_ok_def)
  then have "represents (snd (remove_transaction h m)) (filter (\<lambda>e. ident e \<noteq> h) es)"
      "backed (snd (remove_transaction h m)) (filter (\<lambda>e. ident e \<noteq> h) es)"
    by (simp_all only: remove_filters remove_backed)
  moreover have "queue_ok (snd (remove_transaction h m))"
    using assms remove_same [of h m] by (simp add: pool_ok_def queue_ok_def)
  ultimately have "pool_ok (snd (remove_transaction h m))" unfolding pool_ok_def by blast
  then show ?thesis by (simp only: remove_same)
qed

lemma take_expected_pool:
  assumes "pool_ok m" "take_expected a n m = (x, m')"
  shows "pool_ok m' \<and> mp_fifo_seq m' = mp_fifo_seq m"
proof -
  have same: "m' = m\<lparr>mp_queued := mp_queued m', mp_queued_total := mp_queued_total m'\<rparr>"
    using assms(2) by (auto simp: take_expected_def Let_def split: option.splits)
  have "queue_ok m'" using take_expected_ok [of m a n] assms by (simp add: pool_ok_def)
  then have "pool_ok m'" by (rule queue_only [OF same assms(1)])
  moreover have "mp_fifo_seq m' = mp_fifo_seq m" by (subst same) simp
  ultimately show ?thesis ..
qed

lemma local_only:
  assumes "pool_ok m" "dom (map_of xs) \<subseteq> dom (map_of (mp_pool m))"
  shows "pool_ok (m\<lparr>mp_local_origin_last_broadcast := xs\<rparr>)"
proof -
  obtain es where es: "represents m es" "backed m es" using assms by (auto simp: pool_ok_def)
  have "dom (map_of (mp_pool m)) = ident ` set es"
    using es(1) by (simp add: represents_def indexed_def dom_map_of_conv_image_fst image_image)
  then have "represents (m\<lparr>mp_local_origin_last_broadcast := xs\<rparr>) es" "backed (m\<lparr>mp_local_origin_last_broadcast := xs\<rparr>) es"
    using es assms(2) by (auto simp: represents_def ordered_def indexed_def counted_def within_limits_def backed_def)
  then show ?thesis using assms(1) by (auto simp: pool_ok_def queue_ok_def)
qed

lemma promote_entry_ok:
  assumes ok: "pool_ok m" and R: "reads_ok R" and seq: "mp_fifo_seq m < u64_max"
    and run: "promote_entry R vs now e m = (b, m')"
  shows "pool_ok m' \<and> mp_fifo_seq m' \<le> mp_fifo_seq m + 1"
proof -
  obtain tx at l where e: "e = (tx, at, l)" by (cases e)
  obtain tx' p m1 where f: "apply_fixed_gas_fee_returning_min R tx m = ((tx', p), m1)" by (metis prod.exhaust)
  then have same: "same_pool m m1" using fixed_fee_same [of m R tx] by simp
  obtain r m2 where a: "add_transaction_with_min_fee R vs now tx' p m1 = (r, m2)" by (metis prod.exhaust)
  have ok2: "pool_ok m2 \<and> mp_fifo_seq m2 \<le> mp_fifo_seq m + 1"
    using add_ok [OF same_pool_ok [OF same ok] R _ a] seq same_pool_fields(4) [OF same] by simp
  have member: "r = Inr () \<Longrightarrow> tx_id tx' \<in> dom (map_of (mp_pool m2))"
    using a by (cases rule: add_cases) (auto simp: insert_transaction_def Let_def)
  show ?thesis
  proof (cases r)
    case (Inl x)
    then show ?thesis using run ok2 by (simp add: promote_entry_def e f a Let_def)
  next
    case (Inr u)
    have "represents m2 es \<Longrightarrow> dom (map_of (mp_local_origin_last_broadcast m2)) \<subseteq> dom (map_of (mp_pool m2))" for es
      by (simp add: represents_def indexed_def dom_map_of_conv_image_fst [of "map (\<lambda>e. (ident e, snd e)) es"] image_image)
    then have "pool_ok (m2\<lparr>mp_local_origin_last_broadcast := AList.update (tx_id tx') 0 (mp_local_origin_last_broadcast m2)\<rparr>)"
      using ok2 member Inr by (intro local_only) (auto simp: pool_ok_def)
    then show ?thesis using run ok2 Inr by (auto simp: promote_entry_def e f a Let_def split: if_splits)
  qed
qed

declare promote_loop.simps [simp del]

lemma promote_loop_ok:
  assumes "promote_loop R vs now key k m = Some (n, m')" "pool_ok m" "reads_ok R"
    "mp_fifo_seq m + length (queue_of m key) \<le> u64_max"
  shows "pool_ok m' \<and> mp_fifo_seq m' \<le> mp_fifo_seq m + length (queue_of m key)"
  using assms
proof (induction R vs now key k m rule: promote_loop.induct)
  case (1 R vs now key k m)
  obtain expected where p: "pending_nonce m (case cr_nonce R key of Inl _ \<Rightarrow> 0 | Inr n \<Rightarrow> n) key = Some expected"
    using 1(2) by (subst (asm) promote_loop.simps) (auto simp: Let_def split: option.splits)
  obtain x m1 where t: "take_expected key expected m = (x, m1)" by (metis prod.exhaust)
  note ok1 = take_expected_pool [OF 1(3) t]
  show ?case
  proof (cases x)
    case None
    then have "m' = m1" using 1(2) p t by (subst (asm) promote_loop.simps) (simp add: Let_def)
    then show ?thesis using ok1 by simp
  next
    case (Some e)
    obtain b m2 where e: "promote_entry R vs now e m1 = (b, m2)" by (metis prod.exhaust)
    have shrink: "length (queue_of m2 key) < length (queue_of m key)" using promote_step_shrinks t e Some by simp
    have ok2: "pool_ok m2 \<and> mp_fifo_seq m2 \<le> mp_fifo_seq m1 + 1"
      using promote_entry_ok [OF _ 1(4) _ e] ok1 1(5) shrink by simp
    show ?thesis
    proof (cases b)
      case True
      then have again: "promote_loop R vs now key (k + 1) m2 = Some (n, m')"
        using 1(2) p t e Some by (subst (asm) promote_loop.simps) (simp add: Let_def)
      have room: "mp_fifo_seq m2 + length (queue_of m2 key) \<le> u64_max" using ok2 ok1 1(5) shrink by linarith
      have b: "b = True" using True by simp
      from 1(1) [OF refl p t [symmetric] Some e [symmetric] b again conjunct1 [OF ok2] 1(4) room] ok2 ok1 shrink
      show ?thesis by linarith
    next
      case False
      then have "m' = m2" using 1(2) p t e Some by (subst (asm) promote_loop.simps) (simp add: Let_def)
      then show ?thesis using ok2 ok1 shrink by simp
    qed
  qed
qed

end
