(* ===== verification/PoolCalls.thy ===== *)
theory PoolCalls
  imports PoolRuns
begin

text \<open>
  The calls the node makes on its pool, as a datatype, and every sequence of them: the pool goes on being
  the one of a list of waiting transactions, and every call returns unless the largest nonce is submitted.
\<close>

section \<open>The calls that only drop or mark\<close>

lemma queue_size_map: "queue_size (map (\<lambda>(a, q). (a, f a q)) qs) = (\<Sum>(a, q) \<leftarrow> qs. length (f a q))"
  by (induction qs) (auto simp: queue_size_def)

lemma queue_size_nonempty: "queue_size (filter (\<lambda>(_, q). q \<noteq> []) qs) = queue_size qs"
  by (induction qs) (auto simp: queue_size_def)

lemma queue_size_delete: "distinct (map fst qs) \<Longrightarrow> map_of qs a = Some [] \<Longrightarrow> queue_size (AList.delete a qs) = queue_size qs"
proof (induction qs)
  case (Cons x qs)
  show ?case
  proof (cases "fst x = a")
    case True
    then have "a \<notin> fst ` set qs" "snd x = []" using Cons.prems by (cases x, auto)+
    then have "AList.delete a qs = qs" by (simp add: AList.delete_eq filter_id_conv) force
    then show ?thesis using True \<open>snd x = []\<close> by (cases x) (simp add: queue_size_def)
  next
    case False
    then show ?thesis using Cons by (cases x) (simp add: queue_size_def)
  qed
qed simp

lemma same_fields_ok:
  assumes "pool_ok m" "m' = m\<lparr>mp_queued := qs, mp_queued_total := t\<rparr>"
    and "distinct (map fst qs)" "\<forall>(a, q) \<in> set qs. distinct (map fst q) \<and> length q \<le> MAX_QUEUED_PER_SENDER"
    and "t = queue_size qs" "t \<le> MAX_QUEUED_TOTAL"
  shows "pool_ok m'"
  by (rule queue_only [OF assms(2,1)]) (use assms in \<open>simp add: queue_ok_def\<close>)

lemma drop_empty_ok: "pool_ok m \<Longrightarrow> pool_ok (drop_empty_queue a m)"
proof (cases "map_of (mp_queued m) a = Some []")
  case True
  assume ok: "pool_ok m"
  then have q: "queue_ok m" by (simp add: pool_ok_def)
  show ?thesis
  proof (rule same_fields_ok [OF ok])
    show "drop_empty_queue a m = m\<lparr>mp_queued := AList.delete a (mp_queued m), mp_queued_total := mp_queued_total m\<rparr>"
      using True by (simp add: drop_empty_queue_def)
    show "\<forall>(a, q) \<in> set (AList.delete a (mp_queued m)). distinct (map fst q) \<and> length q \<le> MAX_QUEUED_PER_SENDER"
      using q by (auto simp: queue_ok_def AList.delete_eq)
  qed (use q True in \<open>simp_all add: queue_ok_def queue_size_delete distinct_delete\<close>)
qed (simp add: drop_empty_queue_def)

lemma mark_queued_ok: "pool_ok m \<Longrightarrow> pool_ok (mark_queued_local_origin a h m)"
proof (cases "map_of (mp_queued m) (to_ascii_lowercase a)")
  case (Some q)
  assume ok: "pool_ok m"
  let ?a = "to_ascii_lowercase a" and ?q = "map (\<lambda>(n, (tx, at, l)). (n, (tx, at, if tx_id tx = h then True else l))) q"
  have q: "queue_ok m" using ok by (simp add: pool_ok_def)
  have this_q: "queue_of m ?a = q" using Some by (simp add: queue_of_def)
  have f: "map fst ?q = map fst q" by auto
  have "queue_ok (m\<lparr>mp_queued := AList.update ?a ?q (mp_queued m), mp_queued_total := mp_queued_total m\<rparr>)"
  proof (rule queue_ok_update [OF q])
    show "distinct (map fst ?q)" "length ?q \<le> MAX_QUEUED_PER_SENDER"
      using queue_of_member [OF q, of ?a] by (simp_all only: this_q f length_map)
    show "mp_queued_total m + length (queue_of m ?a) = mp_queued_total m + length ?q" by (simp only: this_q length_map)
    show "mp_queued_total m \<le> MAX_QUEUED_TOTAL" using q by (simp add: queue_ok_def)
  qed
  moreover have same: "mark_queued_local_origin a h m =
      m\<lparr>mp_queued := AList.update ?a ?q (mp_queued m), mp_queued_total := mp_queued_total m\<rparr>"
    by (simp add: mark_queued_local_origin_def Let_def Some)
  ultimately show ?thesis by (intro queue_only [OF same ok]) (simp only: same)
qed (simp add: mark_queued_local_origin_def)

lemma expire_ok: "pool_ok m \<Longrightarrow> pool_ok (expire_queues now m)"
proof -
  assume ok: "pool_ok m"
  let ?keep = "\<lambda>q :: forward_queue. filter (\<lambda>(_, (_, at, _)). sat_sub now at \<le> mp_tx_expiry_seconds m) q"
  let ?kept = "map (\<lambda>(a, q). (a, ?keep q)) (mp_queued m)"
  have q: "queue_ok m" using ok by (simp add: pool_ok_def)
  have le: "queue_size ?kept \<le> queue_size (mp_queued m)"
    unfolding queue_size_map by (simp only: queue_size_def) (rule sum_list_mono, auto)
  have total: "fetch_sub (mp_queued_total m) (queue_size (mp_queued m) - queue_size ?kept) = queue_size ?kept"
    using q le by (subst fetch_sub_exact) (auto simp: queue_ok_def MAX_QUEUED_TOTAL_def)
  have fst_kept: "map fst ?kept = map fst (mp_queued m)" by auto
  show ?thesis
  proof (rule same_fields_ok [OF ok])
    show "expire_queues now m = m\<lparr>mp_queued := filter (\<lambda>(_, q). q \<noteq> []) ?kept, mp_queued_total := queue_size ?kept\<rparr>"
      using total by (simp add: expire_queues_def Let_def queue_size_def)
    show "distinct (map fst (filter (\<lambda>(_, q). q \<noteq> []) ?kept))"
      by (rule distinct_map_filter) (use fst_kept q in \<open>simp only: queue_ok_def\<close>)
    show "\<forall>(a, q) \<in> set (filter (\<lambda>(_, q). q \<noteq> []) ?kept). distinct (map fst q) \<and> length q \<le> MAX_QUEUED_PER_SENDER"
      using q by (auto simp: queue_ok_def distinct_map_filter dest!: bspec intro: le_trans [OF length_filter_le])
    show "queue_size ?kept = queue_size (filter (\<lambda>(_, q). q \<noteq> []) ?kept)" by (rule queue_size_nonempty [symmetric])
    show "queue_size ?kept \<le> MAX_QUEUED_TOTAL" using le q by (simp add: queue_ok_def)
  qed
qed

lemma remove_all_ok: "pool_ok m \<Longrightarrow> pool_ok (remove_all hs m) \<and> mp_fifo_seq (remove_all hs m) = mp_fifo_seq m"
proof (induction hs arbitrary: m)
  case (Cons h hs)
  then show ?case using remove_ok [OF Cons.prems, of h] by (simp add: remove_all_def)
qed (simp add: remove_all_def)

lemma evict_pool_ok: "pool_ok m \<Longrightarrow> pool_ok (snd (evict_expired now m)) \<and> mp_fifo_seq (snd (evict_expired now m)) = mp_fifo_seq m"
  using remove_all_ok expire_ok by (simp add: evict_expired_def Let_def expire_queues_def)

lemma purge_loop_ok:
  "purge_loop a n k m = (r, m') \<Longrightarrow> pool_ok m \<Longrightarrow> pool_ok m' \<and> mp_fifo_seq m' = mp_fifo_seq m"
proof (induction a n k m rule: purge_loop.induct)
  case (2 a n k m)
  show ?case
  proof (cases "map_of (mp_nonce_index m) (a, n)")
    case (Some h)
    obtain x m1 where x: "remove_transaction h m = (x, m1)" by (metis prod.exhaust)
    then have "pool_ok m1" "mp_fifo_seq m1 = mp_fifo_seq m" using remove_ok [OF 2(4), of h] by simp_all
    then show ?thesis using 2(1,2) [OF Some x [symmetric]] 2(3) Some x by (cases x) auto
  qed (use 2(3,4) in simp)
qed simp

lemma retain_ok:
  "retain_fresh now txs m = (r, m') \<Longrightarrow> pool_ok m \<Longrightarrow> pool_ok m' \<and> mp_fifo_seq m' = mp_fifo_seq m"
proof (induction txs arbitrary: m r)
  case (Cons tx txs)
  let ?m = "snd (remove_transaction (tx_id tx) m)"
  have "pool_ok ?m \<and> mp_fifo_seq ?m = mp_fifo_seq m" by (rule remove_ok [OF Cons.prems(2)])
  then show ?case
    using Cons.prems Cons.IH by (auto simp: Let_def split: if_splits prod.splits) 
qed simp

lemma block_selection_ok:
  assumes "get_transactions_for_block_bounded sz now c hv b m = (txs, m')" "pool_ok m"
  shows "pool_ok m' \<and> mp_fifo_seq m' = mp_fifo_seq m"
proof -
  obtain rest m1 where t: "retain_fresh now (select_fifo c hv m) m = (rest, m1)" by (metis prod.exhaust)
  then show ?thesis using assms retain_ok [OF t] by (auto simp: get_transactions_for_block_bounded_def Let_def)
qed

lemma mark_local_ok: "pool_ok m \<Longrightarrow> pool_ok (mark_local_origin now h m)"
proof -
  assume ok: "pool_ok m"
  then obtain es where "represents m es" by (auto simp: pool_ok_def)
  then have "dom (map_of (mp_local_origin_last_broadcast m)) \<subseteq> dom (map_of (mp_pool m))"
    by (auto simp: represents_def indexed_def dom_map_of_conv_image_fst image_image)
  then show ?thesis using ok local_only [OF ok, of "AList.update h now (mp_local_origin_last_broadcast m)"]
    by (auto simp: mark_local_origin_def update_conv')
qed

lemma rebroadcast_ok: "pool_ok m \<Longrightarrow> pool_ok (snd (stale_local_for_rebroadcast now age cap m))"
proof -
  assume ok: "pool_ok m"
  then obtain es where es: "represents m es" by (auto simp: pool_ok_def)
  have pool: "dom (map_of (mp_pool m)) = ident ` set es" "map_of (mp_pool m) h = Some tx \<Longrightarrow> h = tx_id tx" for h tx
    using es by (auto simp: represents_def indexed_def dom_map_of_conv_image_fst image_image ident_def dest!: map_of_SomeD)
  have marks: "dom (map_of (fold (\<lambda>tx. AList.update (tx_id tx) now) txs xs)) = dom (map_of xs) \<union> tx_id ` set txs" for txs xs
    by (induction txs arbitrary: xs) (auto simp: update_conv')
  let ?old = "filter (\<lambda>(_, at). age \<le> sat_sub now at) (mp_local_origin_last_broadcast m)"
  let ?found = "List.map_filter (\<lambda>(h, _). map_of (mp_pool m) h) ?old"
  let ?picked = "take cap (sort_key (\<lambda>tx. to_ascii_lowercase (tx_sender tx)) (sort_key tx_nonce ?found))"
  have "set ?picked \<subseteq> set ?found" by (metis set_sort set_take_subset)
  moreover have "tx_id tx \<in> dom (map_of (mp_pool m))" if "tx \<in> set ?found" for tx
    using that pool(2) by (auto simp: List.map_filter_def)
  ultimately have picked: "tx_id ` set ?picked \<subseteq> dom (map_of (mp_pool m))" by blast
  have "dom (map_of (mp_local_origin_last_broadcast m)) \<subseteq> dom (map_of (mp_pool m))"
    using es pool(1) by (simp add: represents_def indexed_def)
  then have "dom (map_of (fold (\<lambda>tx. AList.update (tx_id tx) now) ?picked (mp_local_origin_last_broadcast m))) \<subseteq> dom (map_of (mp_pool m))"
    using picked by (simp only: marks Un_subset_iff simp_thms)
  then show ?thesis
    using local_only [OF ok] by (simp only: stale_local_for_rebroadcast_def Let_def snd_conv)
qed

section \<open>The calls that admit\<close>

lemma enqueue_pool:
  assumes "enqueue_forward_nonce R vs now tx l m = (r, m')" "pool_ok m"
  shows "pool_ok m' \<and> mp_fifo_seq m' = mp_fifo_seq m"
proof -
  obtain fee m1 where fee: "min_required_fee R tx m = (fee, m1)" by (metis prod.exhaust)
  then have same: "same_pool m m1" using min_fee_same [of m R tx] by simp
  then have ok1: "pool_ok m1" using same_pool_ok assms(2) by blast
  have "queue_ok m'" using enqueue_ok [of m R vs now tx l] assms by (simp add: pool_ok_def)
  moreover have "m' = m \<or> m' = m1\<lparr>mp_queued := mp_queued m', mp_queued_total := mp_queued_total m'\<rparr>"
    using assms(1) by (auto simp: enqueue_forward_nonce_def fee Let_def split: sum.splits if_splits)
  ultimately have "pool_ok m'" using assms(2) queue_only [OF _ ok1] by blast
  moreover have "mp_fifo_seq m' = mp_fifo_seq m"
    using assms(1) same_pool_fields(4) [OF same]
    by (auto simp: enqueue_forward_nonce_def fee Let_def split: sum.splits if_splits)
  ultimately show ?thesis ..
qed

lemma promote_ok:
  assumes "promote_queued R vs now a m = Some (n, m')" "pool_ok m" "reads_ok R" "mp_fifo_seq m + 32 \<le> u64_max"
  shows "pool_ok m' \<and> mp_fifo_seq m' \<le> mp_fifo_seq m + 32"
proof -
  let ?a = "to_ascii_lowercase a"
  obtain m1 where run: "promote_loop R vs now ?a 0 m = Some (n, m1)" and m': "m' = drop_empty_queue ?a m1"
    using assms(1) by (auto simp: promote_queued_def Let_def)
  have "length (queue_of m ?a) \<le> 32"
    using queue_of_member [of m ?a] assms(2) by (simp add: pool_ok_def MAX_QUEUED_PER_SENDER_def)
  then have "pool_ok m1 \<and> mp_fifo_seq m1 \<le> mp_fifo_seq m + 32"
    using promote_loop_ok [OF run assms(2,3)] assms(4) by linarith
  moreover have "mp_fifo_seq m' = mp_fifo_seq m1" unfolding m' by (simp add: drop_empty_queue_def)
  ultimately show ?thesis using drop_empty_ok m' by simp
qed

lemma purge_ok:
  assumes "purge_below_nonce R vs now a n m = Some (k, m')" "pool_ok m" "reads_ok R" "mp_fifo_seq m + 32 \<le> u64_max"
  shows "pool_ok m' \<and> mp_fifo_seq m' \<le> mp_fifo_seq m + 32"
proof -
  obtain r m1 where l: "purge_loop (to_ascii_lowercase a) n 0 m = (r, m1)" by (metis prod.exhaust)
  then obtain j where "promote_queued R vs now a m1 = Some (j, m')"
    using assms(1) by (auto simp: purge_below_nonce_def)
  then show ?thesis using promote_ok [of R vs now a m1 j m'] purge_loop_ok [OF l assms(2)] assms(3,4) by simp
qed

lemma admit_ok:
  assumes run: "admit_transaction R vs now tx m = Some (r, m')" and ok: "pool_ok m" and R: "reads_ok R"
    and seq: "mp_fifo_seq m + 33 \<le> u64_max"
  shows "pool_ok m' \<and> mp_fifo_seq m' \<le> mp_fifo_seq m + 33"
proof (cases "is_full m")
  case True
  then show ?thesis using run ok by (simp add: admit_transaction_def)
next
  case False
  obtain tx' p m1 where f: "apply_fixed_gas_fee_returning_min R tx m = ((tx', p), m1)" by (metis prod.exhaust)
  then have same: "same_pool m m1" using fixed_fee_same [of m R tx] by simp
  have ok1: "pool_ok m1" "mp_fifo_seq m1 = mp_fifo_seq m" using same_pool_ok [OF same ok] same_pool_fields(4) [OF same] by simp_all
  obtain q m2 where e: "enqueue_forward_nonce R vs now tx' False m1 = (q, m2)" by (metis prod.exhaust)
  obtain a m3 where a: "add_transaction_with_min_fee R vs now tx' p m1 = (a, m3)" by (metis prod.exhaust)
  have e_ok: "pool_ok m2 \<and> mp_fifo_seq m2 = mp_fifo_seq m" using enqueue_pool [OF e ok1(1)] ok1(2) by simp
  have a_ok: "pool_ok m3 \<and> mp_fifo_seq m3 \<le> mp_fifo_seq m + 1" using add_ok [OF ok1(1) R _ a] ok1(2) seq by simp
  have p_ok: "pool_ok m' \<and> mp_fifo_seq m' \<le> mp_fifo_seq m + 33" if "promote_queued R vs now b m3 = Some (k, m')" for k b
    using promote_ok [OF that] a_ok R seq by auto
  show ?thesis
    using run False e_ok a_ok p_ok ok1
    by (auto simp: admit_transaction_def f Let_def e a split: option.splits if_splits sum.splits)
qed

section \<open>Sequences of calls\<close>

text \<open>
  One constructor for each call, with the chain as it stands at that moment and the clock. \<open>Select\<close> is
  the choice of a block's transactions, which drops what became too old.
\<close>

datatype pool_call =
    Submit chain_reads nat transaction
  | Gossip chain_reads nat transaction
  | Enqueue chain_reads nat transaction bool
  | Promote chain_reads nat address
  | Purge chain_reads nat address nat
  | Drop hash
  | Mark_Local nat hash
  | Mark_Queued address hash
  | Rebroadcast nat nat nat
  | Evict nat
  | Select "transaction \<Rightarrow> nat" nat nat nat nat

fun call_reads :: "pool_call \<Rightarrow> chain_reads option" where
  "call_reads (Submit R _ _) = Some R"
| "call_reads (Gossip R _ _) = Some R"
| "call_reads (Enqueue R _ _ _) = Some R"
| "call_reads (Promote R _ _) = Some R"
| "call_reads (Purge R _ _ _) = Some R"
| "call_reads _ = None"

fun make_call :: "(transaction \<Rightarrow> bool) \<Rightarrow> pool_call \<Rightarrow> mempool \<Rightarrow> mempool option" where
  "make_call vs (Submit R now tx) m = map_option snd (admit_transaction R vs now tx m)"
| "make_call vs (Gossip R now tx) m = Some (snd (add_transaction R vs now tx m))"
| "make_call vs (Enqueue R now tx l) m = Some (snd (enqueue_forward_nonce R vs now tx l m))"
| "make_call vs (Promote R now a) m = map_option snd (promote_queued R vs now a m)"
| "make_call vs (Purge R now a n) m = map_option snd (purge_below_nonce R vs now a n m)"
| "make_call vs (Drop h) m = Some (snd (remove_transaction h m))"
| "make_call vs (Mark_Local now h) m = Some (mark_local_origin now h m)"
| "make_call vs (Mark_Queued a h) m = Some (mark_queued_local_origin a h m)"
| "make_call vs (Rebroadcast now age cap) m = Some (snd (stale_local_for_rebroadcast now age cap m))"
| "make_call vs (Evict now) m = Some (snd (evict_expired now m))"
| "make_call vs (Select sz now n k b) m = Some (snd (get_transactions_for_block_bounded sz now n k b m))"

fun make_calls :: "(transaction \<Rightarrow> bool) \<Rightarrow> pool_call list \<Rightarrow> mempool \<Rightarrow> mempool option" where
  "make_calls vs [] m = Some m"
| "make_calls vs (c # cs) m = (case make_call vs c m of None \<Rightarrow> None | Some m' \<Rightarrow> make_calls vs cs m')"

definition call_ok :: "pool_call \<Rightarrow> bool" where
  "call_ok c \<longleftrightarrow> (case call_reads c of None \<Rightarrow> True | Some R \<Rightarrow> reads_ok R)"

lemma call_keeps:
  assumes "make_call vs c m = Some m'" "pool_ok m" "call_ok c" "mp_fifo_seq m + 33 \<le> u64_max"
  shows "pool_ok m' \<and> mp_fifo_seq m' \<le> mp_fifo_seq m + 33"
proof (cases c)
  case (Submit R now tx)
  then show ?thesis using assms by (auto simp: call_ok_def dest: admit_ok)
next
  case (Gossip R now tx)
  obtain r where "add_transaction_with_min_fee R vs now tx None m = (r, m')"
    using assms(1) Gossip by (auto simp: add_transaction_def intro: prod.collapse [symmetric])
  then show ?thesis using add_ok [OF assms(2) _ _] assms Gossip by (fastforce simp: call_ok_def)
next
  case (Enqueue R now tx l)
  then show ?thesis using assms(1,2) enqueue_pool [OF prod.collapse [symmetric] assms(2), of R vs now tx l] by auto
next
  case (Promote R now a)
  then show ?thesis using assms by (fastforce simp: call_ok_def dest: promote_ok)
next
  case (Purge R now a n)
  then show ?thesis using assms by (fastforce simp: call_ok_def dest: purge_ok)
next
  case (Mark_Local now h)
  then show ?thesis using assms(1,2) mark_local_ok by (auto simp: mark_local_origin_def)
next
  case (Mark_Queued a h)
  moreover have "mp_fifo_seq (mark_queued_local_origin a h m) = mp_fifo_seq m"
    by (simp add: mark_queued_local_origin_def Let_def split: option.split)
  ultimately show ?thesis using assms(1,2) mark_queued_ok [OF assms(2), of a h] by auto
next
  case (Rebroadcast now age cap)
  then show ?thesis using assms(1,2) rebroadcast_ok by (auto simp: stale_local_for_rebroadcast_def Let_def)
next
  case (Select sz now n k b)
  then show ?thesis using assms(1,2) block_selection_ok [OF prod.collapse [symmetric] assms(2), of sz now n k b] by auto
qed (use assms(1,2) remove_ok evict_pool_ok in auto)

lemma calls_keep:
  "make_calls vs cs m = Some m' \<Longrightarrow> pool_ok m \<Longrightarrow> list_all call_ok cs \<Longrightarrow> mp_fifo_seq m + 33 * length cs \<le> u64_max \<Longrightarrow>
    pool_ok m'"
proof (induction cs arbitrary: m)
  case (Cons c cs)
  obtain m1 where c: "make_call vs c m = Some m1" "make_calls vs cs m1 = Some m'"
    using Cons.prems(1) by (auto split: option.splits)
  then have "pool_ok m1 \<and> mp_fifo_seq m1 \<le> mp_fifo_seq m + 33"
    using Cons.prems by (intro call_keeps [OF c(1)]) simp_all
  then show ?case using Cons.IH [OF c(2)] Cons.prems by simp
qed simp

section \<open>Every call returns\<close>

text \<open>
  The scan for the next free nonce of a sender goes on for ever when it meets the last nonce, \<open>u64::MAX\<close>,
  occupied. It never is if no transaction with that nonce is handed to the pool.
\<close>

definition nonces_below_last :: "mempool \<Rightarrow> bool" where
  "nonces_below_last m \<longleftrightarrow> (\<forall>(slot, h) \<in> set (mp_nonce_index m). snd slot < u64_max) \<and>
     (\<forall>(a, q) \<in> set (mp_queued m). \<forall>(n, e) \<in> set q. tx_nonce (fst e) < u64_max)"

lemma nonces_same: "mp_nonce_index m' = mp_nonce_index m \<Longrightarrow> mp_queued m' = mp_queued m \<Longrightarrow> nonces_below_last m' = nonces_below_last m"
  by (simp add: nonces_below_last_def)

lemma nonces_same_pool: "same_pool m m' \<Longrightarrow> nonces_below_last m' = nonces_below_last m"
  by (simp add: nonces_below_last_def same_pool_fields)

lemma nonces_fewer:
  "nonces_below_last m \<Longrightarrow> set (mp_nonce_index m') \<subseteq> set (mp_nonce_index m) \<Longrightarrow> mp_queued m' = mp_queued m \<Longrightarrow>
     nonces_below_last m'"
  by (auto simp: nonces_below_last_def)

lemma nonces_queue:
  assumes "nonces_below_last m" "mp_nonce_index m' = mp_nonce_index m"
    and "\<And>a q n e. (a, q) \<in> set (mp_queued m') \<Longrightarrow> (n, e) \<in> set q \<Longrightarrow> tx_nonce (fst e) < u64_max"
  shows "nonces_below_last m'"
  using assms(1) unfolding nonces_below_last_def assms(2) by (auto dest: assms(3))

lemma nonces_queue_of:
  assumes "nonces_below_last m" "(n, e) \<in> set (queue_of m a)"
  shows "tx_nonce (fst e) < u64_max"
proof -
  obtain q where "(a, q) \<in> set (mp_queued m)" "(n, e) \<in> set q"
    using assms(2) by (cases "map_of (mp_queued m) a") (auto simp: queue_of_def dest: map_of_SomeD)
  then show ?thesis using assms(1) unfolding nonces_below_last_def by blast
qed

lemma nonces_queue_update:
  assumes "nonces_below_last m" "\<And>n e. (n, e) \<in> set q \<Longrightarrow> tx_nonce (fst e) < u64_max"
    and "mp_nonce_index m' = mp_nonce_index m" "mp_queued m' = AList.update a q (mp_queued m)"
  shows "nonces_below_last m'"
proof (rule nonces_queue [OF assms(1,3)])
  fix b p n e
  assume b: "(b, p) \<in> set (mp_queued m')" and e: "(n, e) \<in> set p"
  then have "(b, p) = (a, q) \<or> (b, p) \<in> set (mp_queued m)" using set_update_subset [of a q "mp_queued m"] assms(4) by auto
  then show "tx_nonce (fst e) < u64_max"
  proof
    assume "(b, p) = (a, q)"
    then show ?thesis using assms(2) e by blast
  next
    assume "(b, p) \<in> set (mp_queued m)"
    then have "\<forall>(n, e) \<in> set p. tx_nonce (fst e) < u64_max" using assms(1) unfolding nonces_below_last_def by blast
    then show ?thesis using e by blast
  qed
qed

lemma nonces_remove: "nonces_below_last m \<Longrightarrow> nonces_below_last (snd (remove_transaction h m))"
proof (rule nonces_fewer [of m])
  show "set (mp_nonce_index (snd (remove_transaction h m))) \<subseteq> set (mp_nonce_index m)"
    by (auto simp: remove_transaction_def Let_def AList.delete_eq split: option.split)
  show "mp_queued (snd (remove_transaction h m)) = mp_queued m"
    by (simp add: remove_transaction_def Let_def split: option.split)
qed

lemma nonces_insert: "nonces_below_last m \<Longrightarrow> tx_nonce tx < u64_max \<Longrightarrow> nonces_below_last (insert_transaction now tx m)"
  using set_update_subset [of "(to_ascii_lowercase (tx_sender tx), tx_nonce tx)" "tx_id tx" "mp_nonce_index m"]
  by (fastforce simp: nonces_below_last_def insert_transaction_def Let_def)

lemma nonces_add:
  assumes "add_transaction_with_min_fee R vs now tx p m = (r, m')" "nonces_below_last m" "tx_nonce tx < u64_max"
  shows "nonces_below_last m'"
  using assms(1)
proof (cases rule: add_cases)
  case (refused e)
  then show ?thesis using assms(2) nonces_same_pool by blast
next
  case (added m1)
  then show ?thesis using assms(2,3) nonces_same_pool nonces_insert by blast
qed

lemma fixed_fee_nonce: "apply_fixed_gas_fee_returning_min R tx m = ((tx', p), m') \<Longrightarrow> tx_nonce tx' = tx_nonce tx \<and> tx_sender tx' = tx_sender tx"
  by (auto simp: apply_fixed_gas_fee_returning_min_def Let_def split: if_splits prod.splits)

lemma nonces_enqueue:
  assumes "enqueue_forward_nonce R vs now tx l m = (r, m')" "nonces_below_last m" "tx_nonce tx < u64_max"
  shows "nonces_below_last m'"
proof -
  obtain fee m1 where fee: "min_required_fee R tx m = (fee, m1)" by (metis prod.exhaust)
  then have m1: "nonces_below_last m1" using min_fee_same [of m R tx] nonces_same_pool assms(2) by fastforce
  let ?a = "to_ascii_lowercase (tx_sender tx)"
  let ?q = "AList.update (tx_nonce tx) (tx, now, l) (queue_of m1 ?a)"
  let ?m2 = "m1\<lparr>mp_queued := AList.update ?a (queue_of m1 ?a) (mp_queued m1)\<rparr>"
  have 2: "nonces_below_last ?m2"
    by (rule nonces_queue_update [OF m1, of "queue_of m1 ?a"]) (use nonces_queue_of [OF m1] in simp_all)
  have q: "tx_nonce (fst e) < u64_max" if "(n, e) \<in> set ?q" for n e
    using that set_update_subset [of "tx_nonce tx" "(tx, now, l)" "queue_of m1 ?a"] nonces_queue_of [OF m1] assms(3) by fastforce
  have 3: "nonces_below_last (?m2\<lparr>mp_queued := AList.update ?a ?q (mp_queued ?m2), mp_queued_total := t\<rparr>)" for t
    by (rule nonces_queue_update [where a = ?a, OF 2 q]) simp_all
  have 4: "nonces_below_last (?m2\<lparr>mp_queued := AList.update ?a ?q (mp_queued ?m2)\<rparr>)"
    by (rule nonces_queue_update [where a = ?a, OF 2 q]) simp_all
  show ?thesis
    using assms(1,2) m1 2 3 4 unfolding enqueue_forward_nonce_def fee Let_def
    by (simp split: sum.splits if_splits) (auto simp: Let_def split: if_splits)
qed

lemma nonces_take:
  assumes "take_expected key n m = (found, m')" "nonces_below_last m"
  shows "nonces_below_last m'" "found = Some e \<Longrightarrow> tx_nonce (fst e) < u64_max"
proof -
  show "nonces_below_last m'"
  proof (cases "map_of (mp_queued m) key")
    case (Some q)
    then have q: "queue_of m key = q" by (simp add: queue_of_def)
    show ?thesis
      by (rule nonces_queue_update [OF assms(2), of "AList.delete n (filter (\<lambda>(i, _). n \<le> i) q)" _ key])
        (use assms(1) Some nonces_queue_of [OF assms(2), of _ _ key] q in
          \<open>auto simp: take_expected_def Let_def AList.delete_eq\<close>)
  qed (use assms in \<open>simp add: take_expected_def\<close>)
  assume "found = Some e"
  then have "(n, e) \<in> set (queue_of m key)"
    using assms(1) by (auto simp: take_expected_def Let_def queue_of_def split: option.splits dest!: map_of_SomeD)
  then show "tx_nonce (fst e) < u64_max" by (rule nonces_queue_of [OF assms(2)])
qed

lemma nonces_promote_entry:
  assumes "promote_entry R vs now e m = (b, m')" "nonces_below_last m" "tx_nonce (fst e) < u64_max"
  shows "nonces_below_last m'"
proof -
  obtain tx at l where e: "e = (tx, at, l)" by (cases e)
  obtain tx' p m1 where f: "apply_fixed_gas_fee_returning_min R tx m = ((tx', p), m1)" by (metis prod.exhaust)
  obtain r m2 where a: "add_transaction_with_min_fee R vs now tx' p m1 = (r, m2)" by (metis prod.exhaust)
  have "nonces_below_last m1" using fixed_fee_same [of m R tx] f nonces_same_pool assms(2) by fastforce
  then have "nonces_below_last m2" using nonces_add [OF a] fixed_fee_nonce [OF f] assms(3) e by simp
  moreover have "mp_nonce_index m' = mp_nonce_index m2 \<and> mp_queued m' = mp_queued m2"
    using assms(1) by (cases r) (auto simp: promote_entry_def e f a Let_def)
  ultimately show ?thesis using nonces_same by blast
qed

definition nonces_fit :: "chain_reads \<Rightarrow> bool" where
  "nonces_fit R \<longleftrightarrow> (\<forall>a n. cr_nonce R a = Inr n \<longrightarrow> n \<le> u64_max)"

lemma scan_ends:
  assumes "nonces_below_last m" "nonces_fit R"
  shows "pending_nonce m (case cr_nonce R b of Inl _ \<Rightarrow> 0 | Inr n \<Rightarrow> n) a \<noteq> None"
proof (rule pending_nonce_ends)
  show "(case cr_nonce R b of Inl _ \<Rightarrow> 0 | Inr n \<Rightarrow> n) \<le> u64_max"
    using assms(2) by (auto simp: nonces_fit_def split: sum.split)
  show "map_of (mp_nonce_index m) (to_ascii_lowercase a, u64_max) = None"
    using assms(1) by (fastforce simp: nonces_below_last_def map_of_eq_None_iff)
qed

lemma promote_returns:
  assumes "nonces_below_last m" "nonces_fit R"
  shows "\<exists>n m'. promote_loop R vs now key k m = Some (n, m') \<and> nonces_below_last m'"
  using assms
proof (induction R vs now key k m rule: promote_loop.induct)
  case (1 R vs now key k m)
  obtain expected where s: "pending_nonce m (case cr_nonce R key of Inl _ \<Rightarrow> 0 | Inr n \<Rightarrow> n) key = Some expected"
    using scan_ends [OF 1(2,3)] by blast
  obtain found m1 where t: "take_expected key expected m = (found, m1)" by (metis prod.exhaust)
  note m1 = nonces_take [OF t 1(2)]
  show ?case
  proof (cases found)
    case None
    then show ?thesis using s t m1(1) by (simp add: promote_loop.simps [of R vs now key k m])
  next
    case (Some e)
    obtain b m2 where p: "promote_entry R vs now e m1 = (b, m2)" by (metis prod.exhaust)
    have m2: "nonces_below_last m2" by (rule nonces_promote_entry [OF p m1(1) m1(2) [OF Some]])
    show ?thesis
    proof (cases "b = True")
      case True
      have "\<exists>n m'. promote_loop R vs now key (k + 1) m2 = Some (n, m') \<and> nonces_below_last m'"
        using 1(1) [OF refl s t [symmetric] Some p [symmetric] True m2 1(3)] .
      then show ?thesis using s t p Some True by (simp add: promote_loop.simps [of R vs now key k m])
    next
      case False
      then show ?thesis using s t p Some m2 by (simp add: promote_loop.simps [of R vs now key k m])
    qed
  qed
qed

lemma promote_queued_returns:
  assumes "nonces_below_last m" "nonces_fit R"
  shows "\<exists>n m'. promote_queued R vs now a m = Some (n, m') \<and> nonces_below_last m'"
proof -
  obtain n m1 where p: "promote_loop R vs now (to_ascii_lowercase a) 0 m = Some (n, m1)" "nonces_below_last m1"
    using promote_returns [OF assms] by blast
  have "nonces_below_last (drop_empty_queue b m1)" for b
    using p(2) by (auto simp: drop_empty_queue_def nonces_below_last_def AList.delete_eq)
  then show ?thesis using p(1) by (simp add: promote_queued_def Let_def)
qed

lemma nonces_purge: "purge_loop a n k m = (r, m') \<Longrightarrow> nonces_below_last m \<Longrightarrow> nonces_below_last m'"
proof (induction a n k m rule: purge_loop.induct)
  case (2 a n k m)
  show ?case
  proof (cases "map_of (mp_nonce_index m) (a, n)")
    case (Some h)
    obtain x m1 where x: "remove_transaction h m = (x, m1)" by (metis prod.exhaust)
    then have "nonces_below_last m1" using nonces_remove [OF 2(4), of h] by simp
    then show ?thesis using 2(1,2) [OF Some x [symmetric]] 2(3) Some x by (cases x) auto
  qed (use 2(3,4) in simp)
qed simp

lemma nonces_retain: "retain_fresh now txs m = (r, m') \<Longrightarrow> nonces_below_last m \<Longrightarrow> nonces_below_last m'"
proof (induction txs arbitrary: m r)
  case (Cons tx txs)
  have "nonces_below_last (snd (remove_transaction (tx_id tx) m))" by (rule nonces_remove [OF Cons.prems(2)])
  then show ?case using Cons.prems Cons.IH by (auto simp: Let_def split: if_splits prod.splits)
qed simp

lemma nonces_remove_all: "nonces_below_last m \<Longrightarrow> nonces_below_last (remove_all hs m)"
proof (induction hs arbitrary: m)
  case (Cons h hs)
  then show ?case using nonces_remove [OF Cons.prems, of h] by (simp add: remove_all_def)
qed (simp add: remove_all_def)

lemma nonces_evict: "nonces_below_last m \<Longrightarrow> nonces_below_last (snd (evict_expired now m))"
proof -
  assume m: "nonces_below_last m"
  have "nonces_below_last (expire_queues now m1)" if "nonces_below_last m1" for m1
  proof (rule nonces_queue [OF that])
    show "mp_nonce_index (expire_queues now m1) = mp_nonce_index m1" by (simp add: expire_queues_def Let_def)
    fix a q n e
    assume "(a, q) \<in> set (mp_queued (expire_queues now m1))" and e: "(n, e) \<in> set q"
    then obtain p where "(a, p) \<in> set (mp_queued m1)" "set q \<subseteq> set p" by (auto simp: expire_queues_def Let_def)
    then show "tx_nonce (fst e) < u64_max" using that e unfolding nonces_below_last_def by blast
  qed
  then show ?thesis using nonces_remove_all [OF m] by (simp add: evict_expired_def Let_def)
qed

lemma nonces_mark_queued: "nonces_below_last m \<Longrightarrow> nonces_below_last (mark_queued_local_origin a h m)"
proof (cases "map_of (mp_queued m) (to_ascii_lowercase a)")
  case (Some q)
  assume m: "nonces_below_last m"
  have q: "(to_ascii_lowercase a, q) \<in> set (mp_queued m)" using Some by (rule map_of_SomeD)
  show ?thesis
  proof (rule nonces_queue_update [OF m, where a = "to_ascii_lowercase a"])
    show "mp_nonce_index (mark_queued_local_origin a h m) = mp_nonce_index m"
      by (simp add: mark_queued_local_origin_def Let_def Some)
    show "mp_queued (mark_queued_local_origin a h m) = AList.update (to_ascii_lowercase a)
        (map (\<lambda>(n, (tx, at, l)). (n, (tx, at, if tx_id tx = h then True else l))) q) (mp_queued m)"
      by (simp add: mark_queued_local_origin_def Let_def Some)
    fix n e
    assume "(n, e) \<in> set (map (\<lambda>(n, (tx, at, l)). (n, (tx, at, if tx_id tx = h then True else l))) q)"
    then obtain at l where "(n, (fst e, at, l)) \<in> set q" by auto
    then have "tx_nonce (fst (fst e, at, l)) < u64_max" using m q unfolding nonces_below_last_def by blast
    then show "tx_nonce (fst e) < u64_max" by simp
  qed
qed (simp add: mark_queued_local_origin_def Let_def)

lemma admit_returns:
  assumes "nonces_below_last m" "nonces_fit R" "tx_nonce tx < u64_max"
  shows "\<exists>r m'. admit_transaction R vs now tx m = Some (r, m') \<and> nonces_below_last m'"
proof (cases "is_full m")
  case True
  then show ?thesis using assms(1) by (simp add: admit_transaction_def)
next
  case False
  obtain tx' p m1 where f: "apply_fixed_gas_fee_returning_min R tx m = ((tx', p), m1)" by (metis prod.exhaust)
  note tx' = fixed_fee_nonce [OF f]
  have m1: "nonces_below_last m1" using fixed_fee_same [of m R tx] f nonces_same_pool assms(1) by fastforce
  obtain expected where s: "pending_nonce m1 (case cr_nonce R (tx_sender tx') of Inl _ \<Rightarrow> 0 | Inr n \<Rightarrow> n) (tx_sender tx') = Some expected"
    using scan_ends [OF m1 assms(2)] by blast
  obtain q m2 where e: "enqueue_forward_nonce R vs now tx' False m1 = (q, m2)" by (metis prod.exhaust)
  obtain a m3 where a: "add_transaction_with_min_fee R vs now tx' p m1 = (a, m3)" by (metis prod.exhaust)
  have "nonces_below_last m2" using nonces_enqueue [OF e m1] tx' assms(3) by simp
  moreover have m3: "nonces_below_last m3" using nonces_add [OF a m1] tx' assms(3) by simp
  moreover obtain k m4 where "promote_queued R vs now (to_ascii_lowercase (tx_sender tx')) m3 = Some (k, m4)" "nonces_below_last m4"
    using promote_queued_returns [OF m3 assms(2)] by blast
  ultimately show ?thesis
    using False m1 s e a by (cases a) (auto simp: admit_transaction_def f Let_def)
qed

text \<open>The calls for which that is so, and their sequences.\<close>

fun submitted :: "pool_call \<Rightarrow> transaction option" where
  "submitted (Submit _ _ tx) = Some tx"
| "submitted (Gossip _ _ tx) = Some tx"
| "submitted (Enqueue _ _ tx _) = Some tx"
| "submitted _ = None"

definition call_below_last :: "pool_call \<Rightarrow> bool" where
  "call_below_last c \<longleftrightarrow> (\<forall>tx. submitted c = Some tx \<longrightarrow> tx_nonce tx < u64_max) \<and>
     (\<forall>R. call_reads c = Some R \<longrightarrow> nonces_fit R)"

lemma call_returns:
  assumes "nonces_below_last m" "call_below_last c"
  shows "\<exists>m'. make_call vs c m = Some m' \<and> nonces_below_last m'"
proof (cases c)
  case (Submit R now tx)
  then show ?thesis using assms admit_returns [of m R tx vs now] by (auto simp: call_below_last_def)
next
  case (Gossip R now tx)
  then show ?thesis
    using assms nonces_add [OF prod.collapse [symmetric], of m] by (simp add: call_below_last_def add_transaction_def)
next
  case (Enqueue R now tx l)
  then show ?thesis using assms nonces_enqueue [OF prod.collapse [symmetric], of m] by (simp add: call_below_last_def)
next
  case (Promote R now a)
  then show ?thesis using assms promote_queued_returns [of m R vs now a] by (auto simp: call_below_last_def)
next
  case (Purge R now a n)
  obtain k m1 where p: "purge_loop (to_ascii_lowercase a) n 0 m = (k, m1)" by (metis prod.exhaust)
  then have "nonces_below_last m1" using nonces_purge assms(1) by blast
  then show ?thesis
    using Purge p assms(2) promote_queued_returns [of m1 R vs now a]
    by (auto simp: call_below_last_def purge_below_nonce_def)
next
  case (Drop h)
  then show ?thesis using assms(1) nonces_remove by simp
next
  case (Mark_Local now h)
  then show ?thesis using assms(1) by (auto simp: mark_local_origin_def nonces_below_last_def)
next
  case (Mark_Queued a h)
  then show ?thesis using assms(1) nonces_mark_queued by simp
next
  case (Rebroadcast now age cap)
  then show ?thesis using assms(1) by (auto simp: stale_local_for_rebroadcast_def Let_def nonces_below_last_def)
next
  case (Evict now)
  then show ?thesis using assms(1) nonces_evict by simp
next
  case (Select sz now n k b)
  obtain rest m1 where t: "retain_fresh now (select_fifo n k m) m = (rest, m1)" by (metis prod.exhaust)
  then show ?thesis using Select nonces_retain [OF t assms(1)] by (simp add: get_transactions_for_block_bounded_def Let_def)
qed

lemma calls_return:
  "nonces_below_last m \<Longrightarrow> list_all call_below_last cs \<Longrightarrow> \<exists>m'. make_calls vs cs m = Some m'"
proof (induction cs arbitrary: m)
  case (Cons c cs)
  then obtain m1 where "make_call vs c m = Some m1" "nonces_below_last m1"
    using call_returns [of m c vs] by auto
  then show ?case using Cons by simp
qed simp

lemma empty_pool_ok: "cap \<le> u64_max \<Longrightarrow> b < u64_max \<Longrightarrow> pool_ok (with_bridge_authority a (with_limits g cap b e))"
proof -
  assume "cap \<le> u64_max" "b < u64_max"
  then have "represents (with_limits g cap b e) []" by (rule empty_represents)
  then have "represents (with_bridge_authority a (with_limits g cap b e)) []"
    by (simp add: represents_def with_bridge_authority_def ordered_def indexed_def counted_def within_limits_def)
  moreover have "backed (with_bridge_authority a (with_limits g cap b e)) []"
    by (simp add: backed_def with_bridge_authority_def with_limits_def entry_of_def spoken_for_def)
  moreover have "queue_ok (with_bridge_authority a (with_limits g cap b e))"
    by (simp add: queue_ok_def with_bridge_authority_def with_limits_def queue_size_def)
  ultimately show ?thesis unfolding pool_ok_def by blast
qed

text \<open>
  C15: Whatever calls are made on a new pool, in whatever order, all of its parts go on agreeing: there is one
  list of waiting transactions, in the order of their admission, no two with the same identifier or with the
  same sender and nonce, of which both lanes, the indexes by identifier and by nonce, the counts and the bytes
  are the ones, and the reserved balances too, except that of the bridge's signer, whose mints reserve nothing
  but release their cost. It is within the limits on transactions and bytes and the limit per sender, and the
  queue ahead of the nonces holds at most 32 per sender and 5000 in all, as its counter says. Every call returns
  if no transaction handed in has the nonce 2^64-1 (a scan that meets it occupied never ends); otherwise this
  is for the calls that return. Balances and nonces read fit their types, and the admission counter does not
  wrap: 33 numbers per call are enough.
\<close>

theorem every_call_sequence_keeps_the_pool:
  assumes "list_all call_ok calls" and "33 * length calls \<le> u64_max"
    and "capacity \<le> u64_max" and "max_bytes < u64_max"
  shows "(\<forall>m. make_calls verify_signature calls (with_bridge_authority a (with_limits g capacity max_bytes expiry)) = Some m \<longrightarrow>
      (\<exists>es. represents m es \<and> backed m es) \<and> queue_ok m) \<and>
    (list_all call_below_last calls \<longrightarrow>
      make_calls verify_signature calls (with_bridge_authority a (with_limits g capacity max_bytes expiry)) \<noteq> None)"
proof (intro conjI allI impI)
  fix m assume m: "make_calls verify_signature calls (with_bridge_authority a (with_limits g capacity max_bytes expiry)) = Some m"
  have "mp_fifo_seq (with_bridge_authority a (with_limits g capacity max_bytes expiry)) = 0"
    by (simp add: with_bridge_authority_def with_limits_def)
  then have "pool_ok m" using calls_keep [OF m empty_pool_ok [OF assms(3,4)] assms(1)] assms(2) by simp
  then show "\<exists>es. represents m es \<and> backed m es" "queue_ok m" by (simp_all add: pool_ok_def)
next
  assume "list_all call_below_last calls"
  moreover have "nonces_below_last (with_bridge_authority a (with_limits g capacity max_bytes expiry))"
    by (simp add: nonces_below_last_def with_bridge_authority_def with_limits_def)
  ultimately show "make_calls verify_signature calls (with_bridge_authority a (with_limits g capacity max_bytes expiry)) \<noteq> None"
    using calls_return by blast
qed

lemma every_call_sequence_keeps_the_pool_witness:
  "\<exists>m. make_calls (\<lambda>_. True) [Submit sample_reads 0 sample_transfer, Evict 4000]
        (with_bridge_authority bob (with_limits (gc_new 1 1) 10 1000 3600)) = Some m \<and>
     ((\<exists>es. represents m es \<and> backed m es) \<and> queue_ok m)"
proof -
  let ?calls = "[Submit sample_reads 0 sample_transfer, Evict 4000]"
  have "list_all call_ok ?calls" by (simp add: call_ok_def reads_ok_def sample_reads_def balance_or_zero_def)
  note keeps = every_call_sequence_keeps_the_pool [OF this, of 10 1000 "\<lambda>_. True" bob "gc_new 1 1" 3600]
  have "list_all call_below_last ?calls"
    by (simp add: call_below_last_def nonces_fit_def sample_reads_def sample_transfer_def)
  then obtain m where "make_calls (\<lambda>_. True) ?calls (with_bridge_authority bob (with_limits (gc_new 1 1) 10 1000 3600)) = Some m"
    using keeps by auto
  then show ?thesis using keeps by auto
qed

end
