(* ===== verification/Gate.thy ===== *)
theory Gate
  imports EngineState
begin

text \<open>
  The gate every gossiped consensus message passes before it reaches the engine
  (\<open>crates/zagros-network/src/consensus_wire.rs\<close>). bincode's decoder is an argument; the view
  is an argument of every check, \<open>None\<close> when its lock is poisoned, because the driver replaces it after each
  commit. The two hash tables are association lists; log lines and the measurement of late precommits, which
  changes no verdict, are left out.
\<close>

section \<open>Envelopes\<close>

definition WIRE_VERSION :: nat where
  "WIRE_VERSION = 1"

definition WIRE_OVERHEAD_BYTES :: nat where
  "WIRE_OVERHEAD_BYTES = 256 * 1024"

definition HEIGHT_LOOKAHEAD :: nat where
  "HEIGHT_LOOKAHEAD = 2"

record wire_envelope =
  we_version :: nat
  we_chain_id :: nat
  we_genesis_hash :: hash
  we_epoch :: nat
  we_msg :: message

definition wire_envelope_new :: "consensus_domain \<Rightarrow> nat \<Rightarrow> message \<Rightarrow> wire_envelope" where
  "wire_envelope_new d epoch msg =
     \<lparr>we_version = WIRE_VERSION, we_chain_id = dm_chain_id d, we_genesis_hash = dm_genesis_hash d, we_epoch = epoch, we_msg = msg\<rparr>"

definition max_wire_bytes :: "chain_params \<Rightarrow> nat" where
  "max_wire_bytes params = sat_add u64_max (p_max_block_bytes params) WIRE_OVERHEAD_BYTES"

section \<open>State and verdicts\<close>

record gate_view =
  gv_domain :: consensus_domain
  gv_set :: active_validator_set
  gv_height :: nat
  gv_probation :: "(address \<times> pubkey) list"

datatype verdict = Accept message | Ignore string | Reject string

definition is_accept :: "verdict \<Rightarrow> bool" where
  "is_accept v = (case v of Accept m \<Rightarrow> True | Ignore why \<Rightarrow> False | Reject why \<Rightarrow> False)"

text \<open>Kind, height, round, phase, validator.\<close>

type_synonym seen_key = "nat \<times> nat \<times> nat \<times> nat \<times> nat"

record inbound_gate =
  ig_max_bytes :: nat
  ig_seen :: "(seen_key \<times> hash) list"
  ig_equivocation_passed :: "seen_key list"
  ig_seen_height :: nat
  ig_heartbeat_seen :: "((nat \<times> nat \<times> nat) \<times> nat) list"
  ig_shadow_seen :: "((address \<times> nat \<times> nat) \<times> hash) list"

definition inbound_gate_new :: "nat \<Rightarrow> inbound_gate" where
  "inbound_gate_new max_bytes =
     \<lparr>ig_max_bytes = max_bytes, ig_seen = [], ig_equivocation_passed = [], ig_seen_height = 0,
      ig_heartbeat_seen = [], ig_shadow_seen = []\<rparr>"

definition key_height :: "seen_key \<Rightarrow> nat" where
  "key_height k = (case k of (kind, height, round, phase, idx) \<Rightarrow> height)"

definition gate_gc :: "nat \<Rightarrow> inbound_gate \<Rightarrow> inbound_gate" where
  "gate_gc height g =
     (if ig_seen_height g < height
      then g\<lparr>ig_seen := filter (\<lambda>(k, _). height \<le> key_height k) (ig_seen g),
             ig_equivocation_passed := filter (\<lambda>k. height \<le> key_height k) (ig_equivocation_passed g),
             ig_shadow_seen := filter (\<lambda>((_, h, _), _). height \<le> h) (ig_shadow_seen g),
             ig_heartbeat_seen := filter (\<lambda>((h, _, _), _). height \<le> h) (ig_heartbeat_seen g),
             ig_seen_height := height\<rparr>
      else g)"

section \<open>The checks\<close>

text \<open>The leader of a round, \<open>(h + r) % n\<close> in 64 bits.\<close>

definition wire_proposer :: "active_validator_set \<Rightarrow> nat \<Rightarrow> nat \<Rightarrow> nat" where
  "wire_proposer vset h r = as_u16 ((h + r) mod vs_len vset)"

definition check_shadow_vote ::
  "crypto_env \<Rightarrow> gate_view \<Rightarrow> shadow_vote_attestation \<Rightarrow> inbound_gate \<Rightarrow> verdict \<times> inbound_gate" where
  "check_shadow_vote E view sv g =
     (if \<not> v_shadow (sva_vote sv) then (Reject ''ShadowVote icindeki oy shadow=false'', g)
      else case List.find (\<lambda>(a, _). to_ascii_lowercase a = to_ascii_lowercase (sva_address sv)) (gv_probation view) of
          None \<Rightarrow> (Ignore ''adres su an bilinen Probation kumesinde degil'', g)
        | Some (_, pubkey) \<Rightarrow>
            (case verify_shadow_vote E (sva_vote sv) (gv_domain view) (vs_epoch (gv_set view)) pubkey of
               Inl e \<Rightarrow> (Reject ''shadow oy imzasi'', g)
             | Inr _ \<Rightarrow>
                 let key = (to_ascii_lowercase (sva_address sv), v_height (sva_vote sv), v_round (sva_vote sv))
                 in (case map_of (ig_shadow_seen g) key of
                       None \<Rightarrow> (Accept (MShadowVote sv),
                         g\<lparr>ig_shadow_seen := AList.update key (v_block_hash (sva_vote sv)) (ig_shadow_seen g)\<rparr>)
                     | Some _ \<Rightarrow> (Ignore ''shadow oy tekrari'', g))))"

text \<open>A vote or a proposal that passes its checks falls into a slot, with a hash.\<close>

definition gate_vote :: "crypto_env \<Rightarrow> gate_view \<Rightarrow> vote \<Rightarrow> verdict + seen_key \<times> hash" where
  "gate_vote E view v =
     (if v_shadow v then Inl (Reject ''shadow=true normal Vote uzerinden gonderilemez'')
      else if vs_len (gv_set view) \<le> v_validator_idx v then Inl (Reject ''validator_idx kume disinda'')
      else case verify_vote E v (gv_domain view) (gv_set view) of
          Inl e \<Rightarrow> Inl (Reject ''oy imzasi'')
        | Inr _ \<Rightarrow> Inr ((0, v_height v, v_round v, unat (as_u8 (v_phase v)), v_validator_idx v), v_block_hash v))"

definition gate_proposal :: "crypto_env \<Rightarrow> gate_view \<Rightarrow> proposal \<Rightarrow> verdict + seen_key \<times> hash" where
  "gate_proposal E view p =
     (let hdr = sh_header (pr_signed p);
          expected = wire_proposer (gv_set view) (h_number hdr) (pr_round p)
      in case pubkey_of (gv_set view) expected of
           None \<Rightarrow> Inl (Reject ''proposer indeksi kume disinda'')
         | Some pk \<Rightarrow>
             (case verify_digest E pk (envelope_digest E (gv_domain view) (vs_epoch (gv_set view)) p) (pr_sig p) of
                Inl e \<Rightarrow> Inl (Reject ''oneri zarf imzasi'')
              | Inr _ \<Rightarrow>
                  if h_proposer_idx hdr \<noteq> wire_proposer (gv_set view) (h_number hdr) (h_round hdr)
                  then Inl (Reject ''baslik proposer_idx rotasyonla uyusmuyor'')
                  else (case verify_signed_header E (pr_signed p) (gv_domain view) (gv_set view) of
                          Inl e \<Rightarrow> Inl (Reject ''baslik imzasi'')
                        | Inr _ \<Rightarrow> Inr ((1, h_number hdr, pr_round p, 0, expected), pr_block_hash E p))))"

definition gate_heartbeat ::
  "crypto_env \<Rightarrow> gate_view \<Rightarrow> heartbeat \<Rightarrow> inbound_gate \<Rightarrow> verdict \<times> inbound_gate" where
  "gate_heartbeat E view hb g =
     (if vs_len (gv_set view) \<le> hb_validator_idx hb then (Reject ''validator_idx kume disinda'', g)
      else if hb_validator_idx hb \<noteq> wire_proposer (gv_set view) (hb_height hb) (hb_round hb)
      then (Reject ''heartbeat lider olmayan validator dan'', g)
      else case verify_heartbeat E hb (gv_domain view) (gv_set view) of
          Inl e \<Rightarrow> (Reject ''heartbeat imzasi'', g)
        | Inr _ \<Rightarrow>
            let key = (hb_height hb, hb_round hb, hb_validator_idx hb)
            in if (case map_of (ig_heartbeat_seen g) key of None \<Rightarrow> False | Some latest \<Rightarrow> hb_timestamp_ms hb \<le> latest)
               then (Ignore ''heartbeat tekrari (eski/ayni damga)'', g)
               else (Accept (MHeartbeat hb),
                     g\<lparr>ig_heartbeat_seen := AList.update key (hb_timestamp_ms hb) (ig_heartbeat_seen g)\<rparr>))"

text \<open>The first message of a slot passes; one more with another hash passes too, so that the engine sees the equivocation.\<close>

definition remember_slot :: "message \<Rightarrow> seen_key \<times> hash \<Rightarrow> inbound_gate \<Rightarrow> verdict \<times> inbound_gate" where
  "remember_slot msg = (\<lambda>(key, h) g.
     case map_of (ig_seen g) key of
       None \<Rightarrow> (Accept msg, g\<lparr>ig_seen := AList.update key h (ig_seen g)\<rparr>)
     | Some first \<Rightarrow>
         if first = h then (Ignore ''tekrar (duplicate)'', g)
         else if key \<in> set (ig_equivocation_passed g) then (Ignore ''equivocation tekrari'', g)
         else (Accept msg, g\<lparr>ig_equivocation_passed := key # ig_equivocation_passed g\<rparr>))"

definition check_message :: "crypto_env \<Rightarrow> gate_view \<Rightarrow> message \<Rightarrow> inbound_gate \<Rightarrow> verdict \<times> inbound_gate" where
  "check_message E view msg g =
     (case msg of
        MShadowVote sv \<Rightarrow> check_shadow_vote E view sv g
      | MHeartbeat hb \<Rightarrow> gate_heartbeat E view hb g
      | MVote v \<Rightarrow> (case gate_vote E view v of Inl out \<Rightarrow> (out, g) | Inr seat \<Rightarrow> remember_slot msg seat g)
      | MProposal p \<Rightarrow> (case gate_proposal E view p of Inl out \<Rightarrow> (out, g) | Inr seat \<Rightarrow> remember_slot msg seat g))"

definition is_shadow_vote :: "message \<Rightarrow> bool" where
  "is_shadow_vote m = (case m of MShadowVote sv \<Rightarrow> True | MVote v \<Rightarrow> False | MHeartbeat h \<Rightarrow> False | MProposal p \<Rightarrow> False)"

text \<open>The window of heights, the epoch, then the message itself.\<close>

definition check_window :: "crypto_env \<Rightarrow> gate_view \<Rightarrow> wire_envelope \<Rightarrow> inbound_gate \<Rightarrow> verdict \<times> inbound_gate" where
  "check_window E view env g =
     (let height = msg_height (we_msg env)
      in if height < gv_height view \<and> \<not> is_shadow_vote (we_msg env) then (Ignore ''bayat yukseklik'', g)
         else if sat_add u64_max (gv_height view) HEIGHT_LOOKAHEAD < height then (Ignore ''cok ileri yukseklik'', g)
         else if we_epoch env \<noteq> vs_epoch (gv_set view) then (Ignore ''epoch'', g)
         else if vs_len (gv_set view) = 0 then (Ignore ''aktif kume bos'', g)
         else check_message E view (we_msg env) g)"

definition gate_check ::
  "crypto_env \<Rightarrow> (bytes \<Rightarrow> wire_envelope option) \<Rightarrow> gate_view option \<Rightarrow> bytes \<Rightarrow> inbound_gate \<Rightarrow> verdict \<times> inbound_gate" where
  "gate_check E decode current bytes g =
     (if ig_max_bytes g < length bytes then (Reject ''zarf tavan ustunde'', g)
      else case decode bytes of
          None \<Rightarrow> (Reject ''cozulemedi'', g)
        | Some env \<Rightarrow>
            if we_version env \<noteq> WIRE_VERSION then (Reject ''zarf surumu'', g)
            else (case current of
                None \<Rightarrow> (Ignore ''gate view kilidi zehirli'', g)
              | Some view \<Rightarrow>
                  if we_chain_id env \<noteq> dm_chain_id (gv_domain view) then (Reject ''chain_id'', g)
                  else if we_genesis_hash env \<noteq> dm_genesis_hash (gv_domain view) then (Reject ''genesis_hash uyusmuyor'', g)
                  else check_window E view env (gate_gc (gv_height view) g)))"

section \<open>What passes is authentic\<close>

text \<open>
  \<open>attested E view pk digest sig\<close>: the key is a member's and the signature over the digest checks. The digest
  binds the domain, the epoch, height, round, phase and hash.
\<close>

definition signed_by :: "crypto_env \<Rightarrow> gate_view \<Rightarrow> nat \<Rightarrow> hash \<Rightarrow> bytes \<Rightarrow> bool" where
  "signed_by E view i digest sig \<longleftrightarrow>
     (\<exists>pk. pubkey_of (gv_set view) i = Some pk \<and> length sig = SIGNATURE_LEN \<and> ed_check E pk digest sig)"

definition authentic :: "crypto_env \<Rightarrow> gate_view \<Rightarrow> message \<Rightarrow> bool" where
  "authentic E view m =
     (let d = gv_domain view; vset = gv_set view; epoch = vs_epoch vset
      in case m of
           MVote v \<Rightarrow> \<not> v_shadow v \<and> signed_by E view (v_validator_idx v) (vote_signing_digest E d epoch v) (v_sig v)
         | MHeartbeat hb \<Rightarrow>
             hb_validator_idx hb = wire_proposer vset (hb_height hb) (hb_round hb) \<and>
             signed_by E view (hb_validator_idx hb) (heartbeat_signing_digest E d epoch hb) (hb_sig hb)
         | MProposal p \<Rightarrow>
             signed_by E view (wire_proposer vset (pr_height p) (pr_round p)) (envelope_digest E d epoch p) (pr_sig p) \<and>
             (let h = sh_header (pr_signed p)
              in h_proposer_idx h = wire_proposer vset (h_number h) (h_round h) \<and> h_epoch h = epoch \<and>
                 h_validator_set_hash h = vs_hash (keccak E) vset \<and>
                 signed_by E view (h_proposer_idx h) (header_signing_digest E d h) (sh_sig (pr_signed p)))
         | MShadowVote sv \<Rightarrow> v_shadow (sva_vote sv) \<and>
             (\<exists>a pk. (a, pk) \<in> set (gv_probation view) \<and> to_ascii_lowercase a = to_ascii_lowercase (sva_address sv) \<and>
                pk \<noteq> NIL_HASH \<and> ed_check E pk (vote_signing_digest E d epoch (sva_vote sv)) (v_sig (sva_vote sv))))"

lemma signed_digest: "pubkey_of (gv_set view) i = Some pk \<Longrightarrow> verify_digest E pk digest sig = Inr () \<Longrightarrow> signed_by E view i digest sig"
  by (auto simp: signed_by_def verify_digest_def split: if_splits)

lemma accepted_shadow:
  assumes "check_shadow_vote E view sv g = (Accept m, g')"
  shows "m = MShadowVote sv \<and> authentic E view m"
proof -
  let ?P = "\<lambda>(a, _). to_ascii_lowercase a = to_ascii_lowercase (sva_address sv)"
  obtain a pk where f: "v_shadow (sva_vote sv)" "List.find ?P (gv_probation view) = Some (a, pk)"
      "verify_shadow_vote E (sva_vote sv) (gv_domain view) (vs_epoch (gv_set view)) pk = Inr ()"
    using assms unfolding check_shadow_vote_def by (auto split: if_splits option.splits sum.splits)
  have "(a, pk) \<in> set (gv_probation view)" "?P (a, pk)" using f(2) by (auto simp: find_Some_iff in_set_conv_nth)
  moreover have "pk \<noteq> NIL_HASH \<and> ed_check E pk (vote_signing_digest E (gv_domain view) (vs_epoch (gv_set view)) (sva_vote sv)) (v_sig (sva_vote sv))"
    using f(3) by (auto simp: verify_shadow_vote_def verify_digest_def split: if_splits)
  moreover have "m = MShadowVote sv"
    using assms f unfolding check_shadow_vote_def by (auto simp: Let_def split: if_splits option.splits)
  ultimately show ?thesis using f(1) by (auto simp: authentic_def)
qed

lemma checked_vote: "gate_vote E view v = Inr seat \<Longrightarrow> authentic E view (MVote v)"
  by (auto simp: gate_vote_def authentic_def verify_vote_def Let_def intro: signed_digest split: if_splits option.splits sum.splits)

lemma checked_proposal: "gate_proposal E view p = Inr seat \<Longrightarrow> authentic E view (MProposal p)"
  by (auto simp: gate_proposal_def authentic_def verify_signed_header_def Let_def pr_height_def intro: signed_digest
      split: if_splits option.splits sum.splits)

lemma checked_heartbeat: "gate_heartbeat E view hb g = (Accept m, g') \<Longrightarrow> m = MHeartbeat hb \<and> authentic E view m"
  by (auto simp: gate_heartbeat_def authentic_def verify_heartbeat_def Let_def intro: signed_digest
      split: if_splits option.splits sum.splits)

lemma remembered: "remember_slot msg seat g = (Accept m, g') \<Longrightarrow> m = msg"
  by (auto simp: remember_slot_def split: if_splits option.splits prod.splits)

lemma refusals: "gate_vote E view v \<noteq> Inl (Accept m)" "gate_proposal E view p \<noteq> Inl (Accept m)"
  by (auto simp: gate_vote_def gate_proposal_def Let_def split: if_splits option.splits sum.splits)

lemma checked_message: "check_message E view msg g = (Accept m, g') \<Longrightarrow> m = msg \<and> authentic E view m"
  by (auto simp: check_message_def refusals dest: accepted_shadow checked_heartbeat remembered checked_vote checked_proposal
      split: message.splits sum.splits)

end
