(* ===== verification/GateSlots.thy ===== *)
theory GateSlots
  imports Gate EngineExample
begin

text \<open>
  What the gate lets through over a run: of one slot two votes or proposals at most, with different hashes, and of one
  leader's heartbeats only younger ones, while the driver's views do not go back in height; old shadow votes
  again and again.
\<close>

section \<open>Runs\<close>

definition seat_of :: "crypto_env \<Rightarrow> gate_view \<Rightarrow> message \<Rightarrow> (seen_key \<times> hash) option" where
  "seat_of E view m =
     (case m of
        MVote v \<Rightarrow> Some ((0, v_height v, v_round v, unat (as_u8 (v_phase v)), v_validator_idx v), v_block_hash v)
      | MProposal p \<Rightarrow>
          Some ((1, pr_height p, pr_round p, 0, wire_proposer (gv_set view) (pr_height p) (pr_round p)), pr_block_hash E p)
      | MHeartbeat hb \<Rightarrow> None
      | MShadowVote sv \<Rightarrow> None)"

definition beat_of :: "message \<Rightarrow> ((nat \<times> nat \<times> nat) \<times> nat) option" where
  "beat_of m = (case m of
     MHeartbeat hb \<Rightarrow> Some ((hb_height hb, hb_round hb, hb_validator_idx hb), hb_timestamp_ms hb)
   | MVote v \<Rightarrow> None | MProposal p \<Rightarrow> None | MShadowVote sv \<Rightarrow> None)"

type_synonym passage = "gate_view \<times> message"

definition gate_step ::
  "crypto_env \<Rightarrow> (bytes \<Rightarrow> wire_envelope option) \<Rightarrow> gate_view \<times> bytes \<Rightarrow> passage list \<times> inbound_gate \<Rightarrow> passage list \<times> inbound_gate" where
  "gate_step E decode = (\<lambda>(view, bytes) (passed, g).
     case gate_check E decode (Some view) bytes g of
       (Accept m, g') \<Rightarrow> (passed @ [(view, m)], g')
     | (Ignore why, g') \<Rightarrow> (passed, g')
     | (Reject why, g') \<Rightarrow> (passed, g'))"

definition gate_run ::
  "crypto_env \<Rightarrow> (bytes \<Rightarrow> wire_envelope option) \<Rightarrow> nat \<Rightarrow> (gate_view \<times> bytes) list \<Rightarrow> passage list \<times> inbound_gate" where
  "gate_run E decode max_bytes events = fold (gate_step E decode) events ([], inbound_gate_new max_bytes)"

text \<open>The hashes that passed in a slot, and the stamps of a leader's heartbeats.\<close>

definition values_at :: "('m \<Rightarrow> ('k \<times> 'v) option) \<Rightarrow> 'k \<Rightarrow> 'm list \<Rightarrow> 'v list" where
  "values_at f k ms = concat (map (\<lambda>m. case f m of None \<Rightarrow> [] | Some (k', v) \<Rightarrow> if k' = k then [v] else []) ms)"

lemma values_at_snoc:
  "values_at f k (ms @ [m]) = values_at f k ms @ (case f m of None \<Rightarrow> [] | Some (k', v) \<Rightarrow> if k' = k then [v] else [])"
  by (simp add: values_at_def)

lemma values_at_Nil [simp]: "values_at f k [] = []"
  by (simp add: values_at_def)

definition seats :: "crypto_env \<Rightarrow> seen_key \<Rightarrow> passage list \<Rightarrow> hash list" where
  "seats E = values_at (\<lambda>(view, m). seat_of E view m)"

definition beats :: "nat \<times> nat \<times> nat \<Rightarrow> passage list \<Rightarrow> nat list" where
  "beats = values_at (\<lambda>(view, m). beat_of m)"

lemma seats_snoc:
  "seats E k (passed @ [(view, m)]) = seats E k passed @ (case seat_of E view m of None \<Rightarrow> [] | Some (k', v) \<Rightarrow> if k' = k then [v] else [])"
  by (simp add: seats_def values_at_snoc)

lemma beats_snoc:
  "beats k (passed @ [(view, m)]) = beats k passed @ (case beat_of m of None \<Rightarrow> [] | Some (k', v) \<Rightarrow> if k' = k then [v] else [])"
  by (simp add: beats_def values_at_snoc)

lemma nothing_passed [simp]: "seats E k [] = []" "beats k' [] = []"
  by (simp_all add: seats_def beats_def)

section \<open>The books agree with what passed\<close>

definition seat_matches :: "inbound_gate \<Rightarrow> seen_key \<Rightarrow> hash list \<Rightarrow> bool" where
  "seat_matches g k hs \<longleftrightarrow>
     (case map_of (ig_seen g) k of
        None \<Rightarrow> hs = [] \<and> k \<notin> set (ig_equivocation_passed g)
      | Some h \<Rightarrow> if k \<in> set (ig_equivocation_passed g) then \<exists>h'. h' \<noteq> h \<and> hs = [h, h'] else hs = [h])"

definition beat_matches :: "inbound_gate \<Rightarrow> nat \<times> nat \<times> nat \<Rightarrow> nat list \<Rightarrow> bool" where
  "beat_matches g k ts \<longleftrightarrow>
     (case map_of (ig_heartbeat_seen g) k of None \<Rightarrow> ts = [] | Some t \<Rightarrow> ts \<noteq> [] \<and> last ts = t)"

definition seats_ok :: "crypto_env \<Rightarrow> passage list \<Rightarrow> inbound_gate \<Rightarrow> bool" where
  "seats_ok E passed g \<longleftrightarrow>
     (\<forall>k. (ig_seen_height g \<le> key_height k \<longrightarrow> seat_matches g k (seats E k passed)) \<and>
        length (seats E k passed) \<le> 2 \<and> distinct (seats E k passed))"

definition beats_ok :: "passage list \<Rightarrow> inbound_gate \<Rightarrow> bool" where
  "beats_ok passed g \<longleftrightarrow>
     (\<forall>k. (ig_seen_height g \<le> fst k \<longrightarrow> beat_matches g k (beats k passed)) \<and> sorted_wrt (<) (beats k passed))"

lemma map_of_filter_key: "map_of (filter (\<lambda>(k, v). P k) xs) k = (if P k then map_of xs k else None)"
  by (induction xs) auto

lemma map_of_filter_beats: "map_of (filter (\<lambda>((h, _, _), _). n \<le> h) xs) k = (if n \<le> fst k then map_of xs k else None)"
  by (induction xs) auto

lemma gc_seats: "seats_ok E passed g \<Longrightarrow> seats_ok E passed (gate_gc n g)"
proof -
  assume b: "seats_ok E passed g"
  have "seat_matches (gate_gc n g) k (seats E k passed)" if "ig_seen_height (gate_gc n g) \<le> key_height k" for k
    using b [unfolded seats_ok_def, rule_format, of k] that
    by (auto simp: gate_gc_def seat_matches_def map_of_filter_key split: if_splits option.splits)
  then show ?thesis using b by (simp add: seats_ok_def)
qed

lemma gc_beats: "beats_ok passed g \<Longrightarrow> beats_ok passed (gate_gc n g)"
proof -
  assume b: "beats_ok passed g"
  have "beat_matches (gate_gc n g) k (beats k passed)" if "ig_seen_height (gate_gc n g) \<le> fst k" for k
    using b [unfolded beats_ok_def, rule_format, of k] that
    by (auto simp: gate_gc_def beat_matches_def map_of_filter_beats split: if_splits option.splits)
  then show ?thesis using b by (simp add: beats_ok_def)
qed

lemma seats_cong:
  assumes "seats_ok E passed g" "ig_seen g' = ig_seen g" "ig_equivocation_passed g' = ig_equivocation_passed g"
    and "ig_seen_height g' = ig_seen_height g"
  shows "seats_ok E passed g'"
proof -
  have "seat_matches g' k = seat_matches g k" for k unfolding seat_matches_def assms(2,3) ..
  then show ?thesis using assms(1,4) by (simp add: seats_ok_def)
qed

lemma beats_cong:
  assumes "beats_ok passed g" "ig_heartbeat_seen g' = ig_heartbeat_seen g" "ig_seen_height g' = ig_seen_height g"
  shows "beats_ok passed g'"
proof -
  have "beat_matches g' k = beat_matches g k" for k unfolding beat_matches_def assms(2) ..
  then show ?thesis using assms(1,3) by (simp add: beats_ok_def)
qed

text \<open>The outcome of a check.\<close>

lemma check_outcome:
  assumes "gate_check E decode (Some view) bytes g = (out, g')"
  shows "(\<not> is_accept out \<and> (g' = g \<or> g' = gate_gc (gv_height view) g)) \<or>
    (\<exists>m. out = Accept m \<and> (is_shadow_vote m \<or> gv_height view \<le> msg_height m) \<and>
       check_message E view m (gate_gc (gv_height view) g) = (Accept m, g'))"
proof -
  let ?g = "gate_gc (gv_height view) g"
  have quiet: "g' = ?g" if "check_message E view m ?g = (out, g')" "\<not> is_accept out" for m
    using that unfolding check_message_def check_shadow_vote_def gate_heartbeat_def remember_slot_def
    by (auto simp: Let_def is_accept_def split: message.splits sum.splits if_splits option.splits prod.splits)
  show ?thesis
  proof (cases "is_accept out")
    case True
    then obtain m where m: "out = Accept m" by (auto simp: is_accept_def split: verdict.splits)
    obtain env where "check_window E view env ?g = (Accept m, g')"
      using assms m by (auto simp: gate_check_def split: if_splits option.splits)
    then have "is_shadow_vote (we_msg env) \<or> gv_height view \<le> msg_height (we_msg env)"
        "check_message E view (we_msg env) ?g = (Accept m, g')"
      by (auto simp: check_window_def Let_def not_less split: if_splits)
    moreover have "m = we_msg env" using checked_message [OF calculation(2)] by simp
    ultimately show ?thesis using m by blast
  next
    case False
    then show ?thesis
      using assms quiet unfolding gate_check_def check_window_def by (auto simp: Let_def split: if_splits option.splits)
  qed
qed

text \<open>A slot that is let through.\<close>

lemma passed_seat:
  assumes ok: "seats_ok E passed g" and seat: "seat_of E view m = Some (k, h)" and high: "ig_seen_height g \<le> key_height k"
    and run: "remember_slot msg (k, h) g = (Accept m, g')"
  shows "seats_ok E (passed @ [(view, m)]) g'"
proof -
  have g': "ig_seen_height g' = ig_seen_height g" using run by (auto simp: remember_slot_def split: option.splits if_splits)
  have other: "seat_matches g' k' = seat_matches g k'" if "k' \<noteq> k" for k'
    using run that by (auto simp: remember_slot_def seat_matches_def fun_eq_iff split: option.splits if_splits)
  have here: "seat_matches g k (seats E k passed)" using ok [unfolded seats_ok_def, rule_format, of k] high by simp
  then have now: "seat_matches g' k (seats E k passed @ [h])" "length (seats E k passed @ [h]) \<le> 2" "distinct (seats E k passed @ [h])"
    using run by (auto simp: remember_slot_def seat_matches_def split: option.splits if_splits)
  show ?thesis
    unfolding seats_ok_def
  proof
    fix k'
    show "(ig_seen_height g' \<le> key_height k' \<longrightarrow> seat_matches g' k' (seats E k' (passed @ [(view, m)]))) \<and>
        length (seats E k' (passed @ [(view, m)])) \<le> 2 \<and> distinct (seats E k' (passed @ [(view, m)]))"
    proof (cases "k' = k")
      case True
      then show ?thesis using now by (simp add: seats_snoc seat)
    next
      case False
      then show ?thesis
        using ok [unfolded seats_ok_def, rule_format, of k'] other [OF False] by (simp add: seats_snoc seat g')
    qed
  qed
qed

lemma passed_no_seat: "seats_ok E passed g \<Longrightarrow> seat_of E view m = None \<Longrightarrow> seats_ok E (passed @ [(view, m)]) g"
  by (simp add: seats_ok_def seats_snoc)

lemma passed_no_beat: "beats_ok passed g \<Longrightarrow> beat_of m = None \<Longrightarrow> beats_ok (passed @ [(view, m)]) g"
  by (simp add: beats_ok_def beats_snoc)

lemma passed_beat:
  assumes ok: "beats_ok passed g" and high: "ig_seen_height g \<le> hb_height hb"
    and run: "gate_heartbeat E view hb g = (Accept m, g')"
  shows "beats_ok (passed @ [(view, m)]) g'"
proof -
  let ?k = "(hb_height hb, hb_round hb, hb_validator_idx hb)" and ?t = "hb_timestamp_ms hb"
  have r: "m = MHeartbeat hb" "g' = g\<lparr>ig_heartbeat_seen := AList.update ?k ?t (ig_heartbeat_seen g)\<rparr>"
      "case map_of (ig_heartbeat_seen g) ?k of None \<Rightarrow> True | Some latest \<Rightarrow> latest < ?t"
    using run by (auto simp: gate_heartbeat_def Let_def split: if_splits option.splits sum.splits)
  have beat: "beat_of m = Some (?k, ?t)" by (simp add: beat_of_def r(1))
  have here: "beat_matches g ?k (beats ?k passed)" "sorted_wrt (<) (beats ?k passed)"
    using ok high by (auto simp: beats_ok_def)
  have "t < ?t" if "t \<in> set (beats ?k passed)" for t
  proof (cases "map_of (ig_heartbeat_seen g) ?k")
    case None
    then show ?thesis using here(1) that by (simp add: beat_matches_def)
  next
    case (Some latest)
    then have l: "beats ?k passed \<noteq> []" "last (beats ?k passed) = latest" using here(1) by (simp_all add: beat_matches_def)
    have "sorted (beats ?k passed)" using here(2) strict_sorted_imp_sorted by blast
    then have "t \<le> latest" using that l by (metis in_set_conv_nth last_conv_nth length_greater_0_conv Suc_pred' less_Suc_eq_le sorted_nth_mono lessI diff_less zero_less_one diff_Suc_1)
    then show ?thesis using r(3) Some by simp
  qed
  then have now: "sorted_wrt (<) (beats ?k passed @ [?t])" using here(2) by (simp add: sorted_wrt_append)
  show ?thesis
    unfolding beats_ok_def
  proof
    fix k
    show "(ig_seen_height g' \<le> fst k \<longrightarrow> beat_matches g' k (beats k (passed @ [(view, m)]))) \<and> sorted_wrt (<) (beats k (passed @ [(view, m)]))"
    proof (cases "k = ?k")
      case True
      then show ?thesis using now by (simp add: beats_snoc beat beat_matches_def r(2))
    next
      case False
      have "beat_matches g' k ts = beat_matches g k ts" for ts using False by (simp add: beat_matches_def r(2))
      then show ?thesis using ok [unfolded beats_ok_def, rule_format, of k] False by (simp add: beats_snoc beat r(2))
    qed
  qed
qed

section \<open>The theorem\<close>

definition gate_fine :: "crypto_env \<Rightarrow> passage list \<times> inbound_gate \<Rightarrow> bool" where
  "gate_fine E = (\<lambda>(passed, g). seats_ok E passed g \<and> beats_ok passed g)"

lemma checked_seat:
  "gate_vote E view v = Inr seat \<Longrightarrow> seat_of E view (MVote v) = Some seat \<and> key_height (fst seat) = v_height v"
  "gate_proposal E view p = Inr seat \<Longrightarrow> seat_of E view (MProposal p) = Some seat \<and> key_height (fst seat) = pr_height p"
  by (auto simp: gate_vote_def gate_proposal_def seat_of_def key_height_def pr_height_def Let_def
      split: if_splits option.splits sum.splits)

lemma message_fine:
  assumes fine: "seats_ok E passed g" "beats_ok passed g"
    and run: "check_message E view m g = (Accept m, g')" and high: "is_shadow_vote m \<or> ig_seen_height g \<le> msg_height m"
  shows "seats_ok E (passed @ [(view, m)]) g' \<and> beats_ok (passed @ [(view, m)]) g'"
proof -
  have slot_case: ?thesis
    if "remember_slot m seat g = (Accept m, g')" "seat_of E view m = Some seat" "key_height (fst seat) = msg_height m"
      "\<not> is_shadow_vote m" "beat_of m = None" for seat
  proof -
    have g': "ig_heartbeat_seen g' = ig_heartbeat_seen g" "ig_seen_height g' = ig_seen_height g"
      using that(1) by (auto simp: remember_slot_def split: prod.splits option.splits if_splits)
    have "seats_ok E (passed @ [(view, m)]) g'"
      using that high by (intro passed_seat [OF fine(1), of view m "fst seat" "snd seat" m]) simp_all
    then show ?thesis using beats_cong [OF passed_no_beat [OF fine(2) that(5)] g'] by simp
  qed
  show ?thesis
  proof (cases m)
    case (MProposal p)
    then obtain seat where c: "gate_proposal E view p = Inr seat" "remember_slot m seat g = (Accept m, g')"
      using run by (auto simp: check_message_def refusals split: sum.splits)
    show ?thesis
      using checked_seat(2) [OF c(1)] c(2) MProposal by (intro slot_case [OF c(2)]) (simp_all add: msg_height_def is_shadow_vote_def beat_of_def)
  next
    case (MVote v)
    then obtain seat where c: "gate_vote E view v = Inr seat" "remember_slot m seat g = (Accept m, g')"
      using run by (auto simp: check_message_def refusals split: sum.splits)
    show ?thesis
      using checked_seat(1) [OF c(1)] c(2) MVote by (intro slot_case [OF c(2)]) (simp_all add: msg_height_def is_shadow_vote_def beat_of_def)
  next
    case (MHeartbeat hb)
    then have c: "gate_heartbeat E view hb g = (Accept m, g')" using run by (simp add: check_message_def)
    then have g': "ig_seen g' = ig_seen g" "ig_equivocation_passed g' = ig_equivocation_passed g" "ig_seen_height g' = ig_seen_height g"
      by (auto simp: gate_heartbeat_def Let_def split: if_splits option.splits sum.splits)
    have "beats_ok (passed @ [(view, m)]) g'"
      using high MHeartbeat by (intro passed_beat [OF fine(2) _ c]) (simp add: is_shadow_vote_def msg_height_def)
    moreover have "seat_of E view m = None" using MHeartbeat by (simp add: seat_of_def)
    ultimately show ?thesis using seats_cong [OF passed_no_seat [OF fine(1)] g'] by blast
  next
    case (MShadowVote sv)
    then have c: "check_shadow_vote E view sv g = (Accept m, g')" using run by (simp add: check_message_def)
    then have g': "ig_seen g' = ig_seen g" "ig_equivocation_passed g' = ig_equivocation_passed g" "ig_seen_height g' = ig_seen_height g"
        "ig_heartbeat_seen g' = ig_heartbeat_seen g"
      by (auto simp: check_shadow_vote_def Let_def split: if_splits option.splits sum.splits)
    have "seat_of E view m = None" "beat_of m = None" using MShadowVote by (simp_all add: seat_of_def beat_of_def)
    then show ?thesis
      using seats_cong [OF passed_no_seat [OF fine(1)] g'(1-3)] beats_cong [OF passed_no_beat [OF fine(2)] g'(4,3)] by blast
  qed
qed

lemma gc_height: "ig_seen_height g \<le> n \<Longrightarrow> ig_seen_height (gate_gc n g) = n"
  by (simp add: gate_gc_def)

lemma step_fine:
  assumes "gate_fine E pg" "ig_seen_height (snd pg) \<le> gv_height view"
  shows "gate_fine E (gate_step E decode (view, bytes) pg) \<and>
    ig_seen_height (snd (gate_step E decode (view, bytes) pg)) \<le> gv_height view"
proof -
  obtain passed g where pg: "pg = (passed, g)" by (cases pg)
  have fine: "seats_ok E passed g" "beats_ok passed g" using assms(1) by (simp_all add: gate_fine_def pg)
  have low: "ig_seen_height g \<le> gv_height view" using assms(2) by (simp add: pg)
  let ?g = "gate_gc (gv_height view) g"
  have h: "ig_seen_height ?g = gv_height view" by (rule gc_height [OF low])
  obtain out g' where c: "gate_check E decode (Some view) bytes g = (out, g')" by (metis prod.exhaust)
  consider "\<not> is_accept out" "g' = g \<or> g' = ?g"
    | m where "out = Accept m" "is_shadow_vote m \<or> gv_height view \<le> msg_height m" "check_message E view m ?g = (Accept m, g')"
    using check_outcome [OF c] by blast
  then show ?thesis
  proof cases
    case 1
    then have "gate_step E decode (view, bytes) pg = (passed, g')"
      by (auto simp: gate_step_def pg c is_accept_def split: verdict.splits)
    then show ?thesis using 1(2) fine low h gc_seats [OF fine(1)] gc_beats [OF fine(2)] by (auto simp: gate_fine_def)
  next
    case (2 m)
    have "ig_seen_height g' = ig_seen_height ?g"
      using 2(3) unfolding check_message_def check_shadow_vote_def gate_heartbeat_def remember_slot_def
      by (auto simp: Let_def split: message.splits sum.splits if_splits option.splits prod.splits)
    moreover have "gate_step E decode (view, bytes) pg = (passed @ [(view, m)], g')" by (simp add: gate_step_def pg c 2(1))
    ultimately show ?thesis
      using message_fine [OF gc_seats [OF fine(1)] gc_beats [OF fine(2)] 2(3)] 2(2) h by (simp add: gate_fine_def)
  qed
qed

lemma run_fine:
  assumes "gate_fine E pg" "sorted (map (gv_height \<circ> fst) events)" "\<forall>e \<in> set events. ig_seen_height (snd pg) \<le> gv_height (fst e)"
  shows "gate_fine E (fold (gate_step E decode) events pg)"
  using assms
proof (induction events arbitrary: pg)
  case (Cons e events)
  obtain view bytes where e: "e = (view, bytes)" by (cases e)
  note step = step_fine [OF Cons.prems(1), of view decode bytes]
  have "gate_fine E (gate_step E decode e pg)" "ig_seen_height (snd (gate_step E decode e pg)) \<le> gv_height view"
    using step Cons.prems(3) by (simp_all add: e)
  then show ?case using Cons.prems(2) by (auto simp: e intro!: Cons.IH)
qed simp

text \<open>
  C20: the gate cannot be flooded with one slot of votes or proposals. Whatever bytes arrive in whatever order,
  as long as the height the node works at does not go back, at most two votes (or two proposals) pass for one
  phase, height, round and sender, and two only if their block hashes differ, so that the engine can prove the
  equivocation; a vote or proposal of the same slot and hash never passes again. Heartbeats of one leader and
  round pass in the strict order of their time stamps. Shadow votes are not covered: an old one passes again
  after every block (\<open>old_shadow_votes_pass_again\<close>).
\<close>

theorem one_slot_passes_twice_at_most:
  assumes "sorted (map (gv_height \<circ> fst) events)"
  shows "length (seats E k (fst (gate_run E decode max_bytes events))) \<le> 2 \<and>
    distinct (seats E k (fst (gate_run E decode max_bytes events))) \<and>
    sorted_wrt (<) (beats b (fst (gate_run E decode max_bytes events)))"
proof -
  have "gate_fine E ([], inbound_gate_new max_bytes)"
    by (simp add: gate_fine_def seats_ok_def beats_ok_def seat_matches_def beat_matches_def inbound_gate_new_def)
  moreover have "ig_seen_height (inbound_gate_new max_bytes) = 0" by (simp add: inbound_gate_new_def)
  ultimately have "gate_fine E (gate_run E decode max_bytes events)"
    unfolding gate_run_def using assms by (intro run_fine) simp_all
  then obtain passed g where run: "gate_run E decode max_bytes events = (passed, g)" "seats_ok E passed g" "beats_ok passed g"
    by (cases "gate_run E decode max_bytes events") (simp add: gate_fine_def)
  show ?thesis
    using run(2) [unfolded seats_ok_def, rule_format, of k] run(3) [unfolded beats_ok_def, rule_format, of b] by (simp add: run(1))
qed

section \<open>What passes is authentic\<close>

text \<open>
  C19: whatever bytes arrive, a message that passes the gate is no longer than the limit, was sent for this
  chain, this genesis and this epoch, is at most the lookahead above the node's height and, unless it is a
  shadow vote, not below it (shadow votes are exempt from the lower end of the window); and it is signed by who
  it says it is from: a vote by the member it names, a heartbeat and a proposal by the leader of their round,
  the proposal's header by the leader of its round under the hash of this validator set, and a shadow vote by
  a validator on probation.
\<close>

theorem accepted_messages_are_authentic:
  assumes "gate_check E decode current bytes g = (Accept m, g')"
  shows "\<exists>env view. decode bytes = Some env \<and> current = Some view \<and> m = we_msg env \<and> length bytes \<le> ig_max_bytes g \<and>
    we_version env = WIRE_VERSION \<and> we_chain_id env = dm_chain_id (gv_domain view) \<and>
    we_genesis_hash env = dm_genesis_hash (gv_domain view) \<and> we_epoch env = vs_epoch (gv_set view) \<and>
    (is_shadow_vote m \<or> gv_height view \<le> msg_height m) \<and> msg_height m \<le> gv_height view + HEIGHT_LOOKAHEAD \<and>
    authentic E view m"
proof -
  obtain env view where 1: "decode bytes = Some env" "current = Some view" "length bytes \<le> ig_max_bytes g"
      "we_version env = WIRE_VERSION" "we_chain_id env = dm_chain_id (gv_domain view)"
      "we_genesis_hash env = dm_genesis_hash (gv_domain view)"
      "check_window E view env (gate_gc (gv_height view) g) = (Accept m, g')"
    using assms by (auto simp: gate_check_def not_less split: if_splits option.splits)
  have 2: "is_shadow_vote (we_msg env) \<or> gv_height view \<le> msg_height (we_msg env)"
      "msg_height (we_msg env) \<le> sat_add u64_max (gv_height view) HEIGHT_LOOKAHEAD" "we_epoch env = vs_epoch (gv_set view)"
      "check_message E view (we_msg env) (gate_gc (gv_height view) g) = (Accept m, g')"
    using 1(7) by (auto simp: check_window_def Let_def not_less split: if_splits)
  note m = checked_message [OF 2(4)]
  have "msg_height m \<le> gv_height view + HEIGHT_LOOKAHEAD" using 2(2) m by (simp add: sat_add_def)
  with 1 2 m show ?thesis by auto
qed

section \<open>A run\<close>

text \<open>The prevote of a validator, sent twice to a node at its height.\<close>

definition toy_view :: gate_view where
  "toy_view = \<lparr>gv_domain = sample_domain, gv_set = toy_set, gv_height = 1, gv_probation = []\<rparr>"

definition toy_decode :: "bytes \<Rightarrow> wire_envelope option" where
  "toy_decode bytes = Some (wire_envelope_new sample_domain 0 (MVote (toy_ballot Prevote 1)))"

lemma toy_window:
  "gate_check toy_env toy_decode (Some toy_view) [] g = remember_slot (MVote (toy_ballot Prevote 1)) ((0, 1, 0, 1, 1), toy_bh) (gate_gc 1 g)"
  by (simp add: gate_check_def toy_decode_def wire_envelope_new_def toy_view_def check_window_def msg_height_def is_shadow_vote_def
      sat_add_def HEIGHT_LOOKAHEAD_def toy_set_len check_message_def gate_vote_def as_u8_def)

theorem accepted_messages_are_authentic_witness:
  "authentic toy_env toy_view (MVote (toy_ballot Prevote 1))"
proof -
  obtain g' where "gate_check toy_env toy_decode (Some toy_view) [] (inbound_gate_new 10) = (Accept (MVote (toy_ballot Prevote 1)), g')"
    by (simp add: toy_window remember_slot_def inbound_gate_new_def gate_gc_def)
  from accepted_messages_are_authentic [OF this] show ?thesis by auto
qed

theorem one_slot_passes_twice_at_most_witness:
  "seats toy_env (0, 1, 0, 1, 1) (fst (gate_run toy_env toy_decode 10 [(toy_view, []), (toy_view, [])])) = [toy_bh] \<and>
   length (seats toy_env (0, 1, 0, 1, 1) (fst (gate_run toy_env toy_decode 10 [(toy_view, []), (toy_view, [])]))) \<le> 2"
proof -
  let ?events = "[(toy_view, []), (toy_view, [])]"
  have "sorted (map (gv_height \<circ> fst) ?events)" by simp
  moreover have "seats toy_env (0, 1, 0, 1, 1) (fst (gate_run toy_env toy_decode 10 ?events)) = [toy_bh]"
    by (simp add: gate_run_def gate_step_def toy_window remember_slot_def inbound_gate_new_def gate_gc_def key_height_def
        seats_def values_at_def seat_of_def as_u8_def)
  ultimately show ?thesis using one_slot_passes_twice_at_most [of ?events] by blast
qed

section \<open>Shadow votes of the past\<close>

text \<open>
  A shadow vote of a past height is not held back by the window, and the book of shadow votes forgets it at
  the next height: the very same message passes once more after every block.
\<close>

theorem old_shadow_votes_pass_again:
  assumes old: "v_height (sva_vote sv) < gv_height view" "gv_height view < gv_height later"
    and new: "ig_seen_height g \<le> gv_height view"
      "map_of (ig_shadow_seen g) (to_ascii_lowercase (sva_address sv), v_height (sva_vote sv), v_round (sva_vote sv)) = None"
    and ok: "\<And>v g. v \<in> {view, later} \<Longrightarrow> fst (check_shadow_vote E v sv (g\<lparr>ig_shadow_seen := []\<rparr>)) = Accept (MShadowVote sv)"
  shows "\<exists>g1 g2. check_shadow_vote E view sv (gate_gc (gv_height view) g) = (Accept (MShadowVote sv), g1) \<and>
    check_shadow_vote E later sv (gate_gc (gv_height later) g1) = (Accept (MShadowVote sv), g2)"
proof -
  let ?k = "(to_ascii_lowercase (sva_address sv), v_height (sva_vote sv), v_round (sva_vote sv))"
  have passes: "\<exists>g'. check_shadow_vote E v sv g = (Accept (MShadowVote sv), g') \<and> ig_seen_height g' = ig_seen_height g"
    if "v \<in> {view, later}" "map_of (ig_shadow_seen g) ?k = None" for v g
    using ok [OF that(1), of g] that(2)
    by (auto simp: check_shadow_vote_def Let_def split: if_splits option.splits sum.splits prod.splits)
  have "map_of (filter (\<lambda>((_, h, _), _). n \<le> h) xs) ?k = None" if "v_height (sva_vote sv) < n" for n and xs :: "((address \<times> nat \<times> nat) \<times> hash) list"
    using that by (induction xs) auto
  note gone = this
  have "map_of (ig_shadow_seen (gate_gc (gv_height view) g)) ?k = None" using new(2) gone [OF old(1)] by (simp add: gate_gc_def)
  then obtain g1 where 1: "check_shadow_vote E view sv (gate_gc (gv_height view) g) = (Accept (MShadowVote sv), g1)"
      "ig_seen_height g1 = ig_seen_height (gate_gc (gv_height view) g)"
    using passes [of view] by blast
  have "ig_seen_height g1 < gv_height later" using 1(2) old(2) gc_height [OF new(1)] by simp
  moreover have "v_height (sva_vote sv) < gv_height later" using old by simp
  ultimately have "map_of (ig_shadow_seen (gate_gc (gv_height later) g1)) ?k = None" using gone by (simp add: gate_gc_def)
  then show ?thesis using passes [of later] 1(1) by blast
qed

end
