(* ===== verification/PeerLedger.thy ===== *)
theory PeerLedger
  imports Prelude
begin

text \<open>
  The ledger of peers that misbehave (\<open>PeerLedger\<close> in \<open>crates/zagros-network/src/consensus_wire.rs\<close>): a reject
  adds a point, an accepted message takes one away, and at the threshold the peer is banned. libp2p's
  \<open>PeerId\<close> is a type variable; the counters are an association list.
\<close>

section \<open>The ledger\<close>

definition DEFAULT_BAN_THRESHOLD :: nat where
  "DEFAULT_BAN_THRESHOLD = 8"

definition MAX_TRACKED_PEERS :: nat where
  "MAX_TRACKED_PEERS = 4096"

definition MAX_BANNED_PEERS :: nat where
  "MAX_BANNED_PEERS = 4096"

record 'p peer_ledger =
  ld_rejects :: "('p \<times> nat) list"
  ld_banned :: "'p set"
  ld_ban_order :: "'p list"
  ld_ban_threshold :: nat

definition peer_ledger_new :: "nat \<Rightarrow> 'p peer_ledger" where
  "peer_ledger_new ban_threshold =
     \<lparr>ld_rejects = [], ld_banned = {}, ld_ban_order = [], ld_ban_threshold = max ban_threshold 1\<rparr>"

definition is_banned :: "'p \<Rightarrow> 'p peer_ledger \<Rightarrow> bool" where
  "is_banned peer l \<longleftrightarrow> peer \<in> ld_banned l"

definition reject_count :: "'p \<Rightarrow> 'p peer_ledger \<Rightarrow> nat" where
  "reject_count peer l = (case map_of (ld_rejects l) peer of None \<Rightarrow> 0 | Some c \<Rightarrow> c)"

text \<open>The oldest bans go while there are too many.\<close>

fun trim_bans :: "'p list \<Rightarrow> 'p set \<Rightarrow> 'p list \<times> 'p set" where
  "trim_bans [] banned = ([], banned)"
| "trim_bans (oldest # order) banned =
     (if MAX_BANNED_PEERS < length (oldest # order) then trim_bans order (banned - {oldest}) else (oldest # order, banned))"

definition put_ban :: "'p \<Rightarrow> 'p peer_ledger \<Rightarrow> 'p peer_ledger" where
  "put_ban peer l =
     (if peer \<in> ld_banned l then l
      else let (order, banned) = trim_bans (ld_ban_order l @ [peer]) (insert peer (ld_banned l))
           in l\<lparr>ld_ban_order := order, ld_banned := banned\<rparr>)"

definition prune_if_oversized :: "'p peer_ledger \<Rightarrow> 'p peer_ledger" where
  "prune_if_oversized l =
     (if length (ld_rejects l) \<le> MAX_TRACKED_PEERS then l
      else let kept = filter (\<lambda>(_, c). 1 < c) (ld_rejects l)
           in l\<lparr>ld_rejects := (if MAX_TRACKED_PEERS < length kept then [] else kept)\<rparr>)"

definition record_reject :: "'p \<Rightarrow> 'p peer_ledger \<Rightarrow> bool \<times> 'p peer_ledger" where
  "record_reject peer l =
     (let c = reject_count peer l + 1;
          crossed = (ld_ban_threshold l \<le> c)
      in (crossed, prune_if_oversized
            (if crossed then put_ban peer (l\<lparr>ld_rejects := AList.delete peer (ld_rejects l)\<rparr>)
             else l\<lparr>ld_rejects := AList.update peer c (ld_rejects l)\<rparr>)))"

definition record_accept :: "'p \<Rightarrow> 'p peer_ledger \<Rightarrow> 'p peer_ledger" where
  "record_accept peer l =
     (case map_of (ld_rejects l) peer of
        None \<Rightarrow> l
      | Some c \<Rightarrow>
          if c - 1 = 0 then l\<lparr>ld_rejects := AList.delete peer (ld_rejects l)\<rparr>
          else l\<lparr>ld_rejects := AList.update peer (c - 1) (ld_rejects l)\<rparr>)"

section \<open>The ledger is bounded\<close>

datatype 'p peer_event = Rejected 'p | Accepted 'p

fun ledger_step :: "'p peer_event \<Rightarrow> 'p peer_ledger \<Rightarrow> 'p peer_ledger" where
  "ledger_step (Rejected p) l = snd (record_reject p l)"
| "ledger_step (Accepted p) l = record_accept p l"

definition ledger_run :: "nat \<Rightarrow> 'p peer_event list \<Rightarrow> 'p peer_ledger" where
  "ledger_run ban_threshold events = fold ledger_step events (peer_ledger_new ban_threshold)"

definition counts_ok :: "nat \<Rightarrow> ('p \<times> nat) list \<Rightarrow> bool" where
  "counts_ok n rejects \<longleftrightarrow> distinct (map fst rejects) \<and> (\<forall>p c. (p, c) \<in> set rejects \<longrightarrow> 1 \<le> c \<and> c < n)"

definition ledger_ok :: "'p peer_ledger \<Rightarrow> bool" where
  "ledger_ok l \<longleftrightarrow> 1 \<le> ld_ban_threshold l \<and> counts_ok (ld_ban_threshold l) (ld_rejects l) \<and> length (ld_rejects l) \<le> MAX_TRACKED_PEERS \<and>
     distinct (ld_ban_order l) \<and> set (ld_ban_order l) = ld_banned l \<and> length (ld_ban_order l) \<le> MAX_BANNED_PEERS"

lemma trim_bans_ok:
  "trim_bans order banned = (order', banned') \<Longrightarrow> distinct order \<Longrightarrow> set order = banned \<Longrightarrow>
    distinct order' \<and> set order' = banned' \<and> length order' \<le> MAX_BANNED_PEERS \<and>
    (\<forall>p. order = xs @ [p] \<longrightarrow> p \<in> banned') \<and> (length order \<le> MAX_BANNED_PEERS \<longrightarrow> banned' = banned)"
proof (induction order banned arbitrary: xs rule: trim_bans.induct)
  case (2 oldest order banned)
  show ?case
  proof (cases "MAX_BANNED_PEERS < length (oldest # order)")
    case True
    then have t: "trim_bans order (banned - {oldest}) = (order', banned')" using 2(2) by simp
    have "set order = banned - {oldest}" "distinct order" using 2(3,4) by auto
    note ih = 2(1) [OF True t this(2,1)]
    have "order \<noteq> []" using True by (auto simp: MAX_BANNED_PEERS_def)
    have "p \<in> banned'" if e: "oldest # order = xs @ [p]" for p
    proof -
      obtain ys where "order = ys @ [p]" using e \<open>order \<noteq> []\<close> by (cases xs) auto
      then show ?thesis using ih [of ys] by simp
    qed
    then show ?thesis using ih [of xs] True by auto
  next
    case False
    then show ?thesis using 2(2-4) by auto
  qed
qed (auto simp: MAX_BANNED_PEERS_def)

lemma put_ban_ok:
  assumes "ledger_ok l"
  shows "ledger_ok (put_ban p l)" "is_banned p (put_ban p l)" "ld_rejects (put_ban p l) = ld_rejects l"
    "ld_ban_threshold (put_ban p l) = ld_ban_threshold l"
    "card (insert p (ld_banned l)) \<le> MAX_BANNED_PEERS \<Longrightarrow> ld_banned (put_ban p l) = insert p (ld_banned l)"
proof -
  have "ledger_ok (put_ban p l) \<and> is_banned p (put_ban p l) \<and> ld_rejects (put_ban p l) = ld_rejects l \<and>
      ld_ban_threshold (put_ban p l) = ld_ban_threshold l \<and>
      (card (insert p (ld_banned l)) \<le> MAX_BANNED_PEERS \<longrightarrow> ld_banned (put_ban p l) = insert p (ld_banned l))"
  proof (cases "p \<in> ld_banned l")
    case True
    then show ?thesis using assms by (auto simp: put_ban_def is_banned_def insert_absorb)
  next
    case False
    obtain order banned where t: "trim_bans (ld_ban_order l @ [p]) (insert p (ld_banned l)) = (order, banned)"
      by (metis prod.exhaust)
    have d: "distinct (ld_ban_order l @ [p])" "set (ld_ban_order l @ [p]) = insert p (ld_banned l)"
      using assms False by (auto simp: ledger_ok_def)
    note ok = trim_bans_ok [OF t d, of "ld_ban_order l"]
    have "card (insert p (ld_banned l)) = length (ld_ban_order l @ [p])" using d by (metis distinct_card)
    then show ?thesis using ok assms False by (auto simp: put_ban_def t ledger_ok_def is_banned_def)
  qed
  then show "ledger_ok (put_ban p l)" "is_banned p (put_ban p l)" "ld_rejects (put_ban p l) = ld_rejects l"
    "ld_ban_threshold (put_ban p l) = ld_ban_threshold l"
    "card (insert p (ld_banned l)) \<le> MAX_BANNED_PEERS \<Longrightarrow> ld_banned (put_ban p l) = insert p (ld_banned l)"
    by blast+
qed

lemma counts_filter: "counts_ok n xs \<Longrightarrow> counts_ok n (filter P xs)"
  by (auto simp: counts_ok_def distinct_map_filter)

lemma counts_delete: "counts_ok n xs \<Longrightarrow> counts_ok n (AList.delete p xs) \<and> length (AList.delete p xs) \<le> length xs"
  unfolding AList.delete_eq by (simp add: counts_filter)

lemma counts_update: "counts_ok n xs \<Longrightarrow> 1 \<le> c \<Longrightarrow> c < n \<Longrightarrow> counts_ok n (AList.update p c xs)"
  using set_update_subset [of p c xs] by (auto simp: counts_ok_def distinct_update)

lemma length_update_known: "p \<in> fst ` set xs \<Longrightarrow> length (AList.update p c xs) = length xs"
  using update_keys [of p c xs] by (metis length_map list.set_map)

lemma prune_ok:
  assumes "ledger_ok (l\<lparr>ld_rejects := []\<rparr>)" "counts_ok (ld_ban_threshold l) (ld_rejects l)"
  shows "ledger_ok (prune_if_oversized l)"
  using assms counts_filter [OF assms(2)] by (auto simp: prune_if_oversized_def Let_def ledger_ok_def not_less)

lemma reject_ok:
  assumes "ledger_ok l"
  shows "ledger_ok (snd (record_reject p l))" "fst (record_reject p l) \<Longrightarrow> is_banned p (snd (record_reject p l))"
proof -
  let ?c = "reject_count p l + 1" and ?del = "l\<lparr>ld_rejects := AList.delete p (ld_rejects l)\<rparr>"
  have counts: "counts_ok (ld_ban_threshold l) (ld_rejects l)" using assms by (simp add: ledger_ok_def)
  have del: "ledger_ok ?del" using assms counts_delete [OF counts, of p] by (simp add: ledger_ok_def)
  have crossed: "ledger_ok (prune_if_oversized (put_ban p ?del))"
    using put_ban_ok(1) [OF del] by (simp add: prune_if_oversized_def ledger_ok_def)
  have below: "ledger_ok (prune_if_oversized (l\<lparr>ld_rejects := AList.update p ?c (ld_rejects l)\<rparr>))" if "?c < ld_ban_threshold l"
    using assms that counts_update [OF counts, of ?c p] by (intro prune_ok) (simp_all add: ledger_ok_def counts_ok_def)
  show "ledger_ok (snd (record_reject p l))"
    using crossed below by (cases "ld_ban_threshold l \<le> ?c") (simp_all add: record_reject_def Let_def not_le)
  have "ld_banned (prune_if_oversized m) = ld_banned m" for m :: "'a peer_ledger" by (simp add: prune_if_oversized_def Let_def)
  then show "is_banned p (snd (record_reject p l))" if "fst (record_reject p l)"
    using that put_ban_ok(2) [OF del, of p] by (simp add: record_reject_def Let_def is_banned_def)
qed

lemma accept_ok:
  assumes "ledger_ok l"
  shows "ledger_ok (record_accept p l)"
proof (cases "map_of (ld_rejects l) p")
  case None
  then show ?thesis using assms by (simp add: record_accept_def)
next
  case (Some c)
  have counts: "counts_ok (ld_ban_threshold l) (ld_rejects l)" using assms by (simp add: ledger_ok_def)
  have m: "(p, c) \<in> set (ld_rejects l)" using Some by (rule map_of_SomeD)
  then have "1 \<le> c" "c < ld_ban_threshold l" using counts by (auto simp: counts_ok_def)
  moreover have "length (AList.update p (c - 1) (ld_rejects l)) = length (ld_rejects l)" using m by (intro length_update_known) force
  ultimately show ?thesis
    using assms Some counts_delete [OF counts, of p] counts_update [OF counts, of "c - 1" p]
    by (cases "c - 1 = 0") (simp_all add: record_accept_def ledger_ok_def)
qed

lemma step_ok: "ledger_ok l \<Longrightarrow> ledger_ok (ledger_step e l)"
  by (cases e) (simp_all add: reject_ok accept_ok)

lemma ledger_run_ok: "ledger_ok l \<Longrightarrow> ledger_ok (fold ledger_step events l)"
  by (induction events arbitrary: l) (simp_all add: step_ok)

lemma new_ok: "ledger_ok (peer_ledger_new n)"
  by (simp add: ledger_ok_def peer_ledger_new_def counts_ok_def)

section \<open>Every peer is judged by its own messages\<close>

text \<open>The points of one peer and whether it is banned, as if it had a ledger of its own.\<close>

fun standing_step :: "nat \<Rightarrow> 'p \<Rightarrow> 'p peer_event \<Rightarrow> nat \<times> bool \<Rightarrow> nat \<times> bool" where
  "standing_step n p (Rejected q) (c, banned) =
     (if q \<noteq> p then (c, banned) else if n \<le> c + 1 then (0, True) else (c + 1, banned))"
| "standing_step n p (Accepted q) (c, banned) = (if q \<noteq> p then (c, banned) else (c - 1, banned))"

definition standing :: "nat \<Rightarrow> 'p \<Rightarrow> 'p peer_event list \<Rightarrow> nat \<times> bool" where
  "standing n p events = fold (standing_step n p) events (0, False)"

fun peer_of :: "'p peer_event \<Rightarrow> 'p" where
  "peer_of (Rejected p) = p"
| "peer_of (Accepted p) = p"

definition within :: "'p set \<Rightarrow> 'p peer_ledger \<Rightarrow> bool" where
  "within P l \<longleftrightarrow> ledger_ok l \<and> fst ` set (ld_rejects l) \<subseteq> P \<and> ld_banned l \<subseteq> P"

lemma tracked_few:
  assumes "finite P" "card P \<le> MAX_TRACKED_PEERS" "distinct (map fst xs)" "fst ` set xs \<subseteq> P"
  shows "length xs \<le> MAX_TRACKED_PEERS"
  using card_mono [OF assms(1,4)] distinct_card [OF assms(3)] assms(2) by simp

lemma step_within:
  assumes P: "finite P" "card P \<le> MAX_TRACKED_PEERS" and l: "within P l" and e: "peer_of e \<in> P"
  shows "within P (ledger_step e l) \<and> ld_ban_threshold (ledger_step e l) = ld_ban_threshold l \<and>
    (reject_count p (ledger_step e l), is_banned p (ledger_step e l)) =
      standing_step (ld_ban_threshold l) p e (reject_count p l, is_banned p l)"
proof -
  have ok: "ledger_ok l" and keys: "fst ` set (ld_rejects l) \<subseteq> P" "ld_banned l \<subseteq> P" using l by (simp_all add: within_def)
  have counts: "counts_ok (ld_ban_threshold l) (ld_rejects l)" using ok by (simp add: ledger_ok_def)
  have del: "fst ` set (AList.delete q (ld_rejects l)) \<subseteq> P" for q using keys by (auto simp: AList.delete_eq)
  have upd: "fst ` set (AList.update q c (ld_rejects l)) \<subseteq> P" if "q \<in> P" for q c
    using set_update_subset [of q c "ld_rejects l"] keys that by force
  show ?thesis
  proof (cases e)
    case (Rejected q)
    then have q: "q \<in> P" using e by simp
    let ?c = "reject_count q l + 1" and ?del = "l\<lparr>ld_rejects := AList.delete q (ld_rejects l)\<rparr>"
    let ?upd = "l\<lparr>ld_rejects := AList.update q ?c (ld_rejects l)\<rparr>"
    have ok': "ledger_ok ?del" using ok counts_delete [OF counts, of q] by (simp add: ledger_ok_def)
    have "card (insert q (ld_banned l)) \<le> MAX_BANNED_PEERS"
      using card_mono [OF P(1), of "insert q (ld_banned l)"] P(2) q keys(2) by (simp add: MAX_BANNED_PEERS_def MAX_TRACKED_PEERS_def)
    then have ban: "ld_banned (put_ban q ?del) = insert q (ld_banned l)" using put_ban_ok(5) [OF ok'] by simp
    have small: "length (AList.delete q (ld_rejects l)) \<le> MAX_TRACKED_PEERS" using ok' by (simp add: ledger_ok_def)
    have small': "length (AList.update q ?c (ld_rejects l)) \<le> MAX_TRACKED_PEERS"
      using counts distinct_update [of "ld_rejects l" q ?c] by (intro tracked_few [OF P _ upd [OF q]]) (simp add: counts_ok_def)
    have run: "ledger_step e l = (if ld_ban_threshold l \<le> ?c then put_ban q ?del else ?upd)"
      using small small' put_ban_ok(3) [OF ok', of q] by (simp add: Rejected record_reject_def Let_def prune_if_oversized_def)
    have rejects: "ld_rejects (ledger_step e l) = (if ld_ban_threshold l \<le> ?c then AList.delete q (ld_rejects l) else AList.update q ?c (ld_rejects l))"
      "ld_banned (ledger_step e l) = (if ld_ban_threshold l \<le> ?c then insert q (ld_banned l) else ld_banned l)"
      "ld_ban_threshold (ledger_step e l) = ld_ban_threshold l"
      unfolding run using put_ban_ok(3,4) [OF ok', of q] ban by simp_all
    have "within P (ledger_step e l)"
      using step_ok [OF ok, of e] del [of q] upd [OF q, of ?c] keys q unfolding within_def rejects by simp
    moreover have "(reject_count p (ledger_step e l), is_banned p (ledger_step e l)) =
        standing_step (ld_ban_threshold l) p e (reject_count p l, is_banned p l)"
      unfolding reject_count_def is_banned_def rejects by (auto simp: Rejected reject_count_def delete_conv' split: option.splits)
    ultimately show ?thesis using rejects(3) by simp
  next
    case (Accepted q)
    then have q: "q \<in> P" using e by simp
    have one: "1 \<le> c" if "map_of (ld_rejects l) q = Some c" for c
      using counts map_of_SomeD [OF that] by (auto simp: counts_ok_def)
    have "within P (ledger_step e l)"
      using step_ok [OF ok, of e] del [of q] upd [OF q] keys unfolding within_def
      by (auto simp: Accepted record_accept_def split: option.splits)
    moreover have "(reject_count p (ledger_step e l), is_banned p (ledger_step e l)) =
        standing_step (ld_ban_threshold l) p e (reject_count p l, is_banned p l)"
      by (auto simp: Accepted record_accept_def reject_count_def is_banned_def delete_conv' split: option.splits)
    moreover have "ld_ban_threshold (ledger_step e l) = ld_ban_threshold l"
      by (simp add: Accepted record_accept_def split: option.split)
    ultimately show ?thesis by blast
  qed
qed

lemma run_within:
  assumes P: "finite P" "card P \<le> MAX_TRACKED_PEERS" and "within P l" "peer_of ` set events \<subseteq> P"
  shows "(reject_count p (fold ledger_step events l), is_banned p (fold ledger_step events l)) =
    fold (standing_step (ld_ban_threshold l) p) events (reject_count p l, is_banned p l)"
  using assms(3,4)
proof (induction events arbitrary: l)
  case (Cons e events)
  have e: "peer_of e \<in> P" using Cons.prems(2) by simp
  note step = step_within [OF P Cons.prems(1) e, of p]
  show ?case using Cons.IH [of "ledger_step e l"] step Cons.prems(2) by simp
qed simp

text \<open>
  C22: the ledger of peers never grows past its bounds, whoever calls it with whatever identities: after any
  sequence of rejects and accepts it tracks at most 4096 counters, each below the threshold, and at most 4096
  bans, the ban queue naming exactly the banned peers, and the peer whose reject crosses the threshold is
  banned. And while no more than 4096 peers are in play, a peer's standing is that of a ledger of its own: its
  points are its rejects less its accepts, never below zero, and it is banned at the threshold for good,
  whatever the other peers do.
\<close>

theorem peers_are_judged_by_their_own_messages:
  "ledger_ok (ledger_run n events) \<and>
   (fst (record_reject p (ledger_run n events)) \<longrightarrow> is_banned p (snd (record_reject p (ledger_run n events)))) \<and>
   (card (peer_of ` set events) \<le> MAX_TRACKED_PEERS \<longrightarrow>
      (reject_count p (ledger_run n events), is_banned p (ledger_run n events)) = standing (max n 1) p events)"
proof -
  have ok: "ledger_ok (ledger_run n events)" unfolding ledger_run_def by (rule ledger_run_ok [OF new_ok])
  have start: "within (peer_of ` set events) (peer_ledger_new n)"
    using new_ok [of n] by (simp add: within_def peer_ledger_new_def)
  show ?thesis
    using ok reject_ok(2) [OF ok] run_within [OF _ _ start, where p = p]
    by (simp add: ledger_run_def standing_def reject_count_def is_banned_def peer_ledger_new_def)
qed

theorem peers_are_judged_by_their_own_messages_witness:
  "fst (record_reject 1 (ledger_run 2 [Rejected 1, Rejected 2, Accepted 2, Rejected (1 :: nat)])) = False \<and>
   is_banned 1 (ledger_run 2 [Rejected 1, Rejected 2, Accepted 2, Rejected (1 :: nat)]) \<and>
   \<not> is_banned 2 (ledger_run 2 [Rejected 1, Rejected 2, Accepted 2, Rejected (1 :: nat)])"
proof -
  let ?events = "[Rejected 1, Rejected 2, Accepted 2, Rejected (1 :: nat)]"
  have few: "card (peer_of ` set ?events) \<le> MAX_TRACKED_PEERS" by (simp add: MAX_TRACKED_PEERS_def card_insert_if)
  have "(reject_count 1 (ledger_run 2 ?events), is_banned 1 (ledger_run 2 ?events)) = (0, True)"
    "(reject_count 2 (ledger_run 2 ?events), is_banned 2 (ledger_run 2 ?events)) = (0, False)"
    using peers_are_judged_by_their_own_messages [of 2 ?events 1] peers_are_judged_by_their_own_messages [of 2 ?events 2] few
    by (simp_all add: standing_def)
  moreover have "ld_ban_threshold (ledger_run 2 ?events) = 2"
    by code_simp
  ultimately show ?thesis by (simp add: record_reject_def Let_def)
qed

end
