(* ===== verification/Sync.thy ===== *)
theory Sync
  imports Runtime
begin

text \<open>
  Catch-up with certificates (\<open>crates/zagros-network/src/sync2.rs\<close>): the records of committed blocks, the server
  that answers with them, and the checks of the node that catches up. bincode and the transactions' stored
  form are arguments, as is the size of a body; log lines are left out.
\<close>

section \<open>Records\<close>

record trusted_checkpoint =
  tk_height :: nat
  tk_block_hash :: hash
  tk_validator_set_hash :: hash

record checkpoint_config =
  tf_height :: nat
  tf_block_hash :: string
  tf_validator_set_hash :: string

type_synonym consensus_record = "signed_header \<times> quorum_certificate \<times> shadow_vote_attestation list"

record sync_block =
  sb_signed :: signed_header
  sb_qc :: quorum_certificate
  sb_transactions :: "transaction list"
  sb_bridge_proposals :: "bridge_proposal list"
  sb_shadow_votes :: "shadow_vote_attestation list"

record sync_block_v2 =
  s2_block :: sync_block
  s2_missing :: "(nat \<times> hash) list"

datatype sync_request = GetStatus | GetBlockRange nat nat

record sync_status =
  ss_tip_height :: nat
  ss_tip_hash :: hash
  ss_epoch :: nat
  ss_validator_set_hash :: hash

datatype sync_response = Status sync_status | Blocks "sync_block list" | NotAvailable | BlocksV2 "sync_block_v2 list"

record sync_libs = runtime_libs +
  ly_ser_record :: "consensus_record \<Rightarrow> bytes option"
  ly_de_record :: "bytes \<Rightarrow> consensus_record option"
  ly_de_header :: "bytes \<Rightarrow> archived_block_header option"
  ly_from_stored :: "bytes \<Rightarrow> transaction option"

definition MAX_BLOCKS_PER_RESPONSE :: nat where
  "MAX_BLOCKS_PER_RESPONSE = 512"

definition CONSENSUS_TIP_KEY :: address where
  "CONSENSUS_TIP_KEY = ''__CONSENSUS_TIP__''"

text \<open>The checkpoint of the configuration: two hashes in hexadecimal digits.\<close>

definition checkpoint_hash :: "'m libs_scheme \<Rightarrow> string \<Rightarrow> hash result" where
  "checkpoint_hash L s =
     (case lb_unhex L (trim_0x (trim s)) of
        None \<Rightarrow> Inl (ConfigError ''checkpoint hex'')
      | Some bytes \<Rightarrow> if length bytes = 32 then Inr bytes else Inl (ConfigError ''checkpoint hash 32 bayt olmali''))"

definition checkpoint_from_config :: "'m libs_scheme \<Rightarrow> checkpoint_config \<Rightarrow> trusted_checkpoint result" where
  "checkpoint_from_config L c =
     (if tf_height c = 0 then Inl (ConfigError ''trusted_checkpoint.height > 0 olmali'')
      else try_then (checkpoint_hash L (tf_block_hash c)) (\<lambda>b.
           try_then (checkpoint_hash L (tf_validator_set_hash c)) (\<lambda>v.
             Inr \<lparr>tk_height = tf_height c, tk_block_hash = b, tk_validator_set_hash = v\<rparr>)))"

section \<open>What a node keeps of a committed block\<close>

definition load_record_at :: "'m sync_libs_scheme \<Rightarrow> 's host \<Rightarrow> address \<Rightarrow> string \<Rightarrow> ('s, consensus_record option) action" where
  "load_record_at L H key msg =
     andthen (h_get H key) (\<lambda>found.
       case found of
         None \<Rightarrow> give None
       | Some acc \<Rightarrow>
           if ac_contract_code acc = [] then give None
           else (case ly_de_record L (ac_contract_code acc) of
               None \<Rightarrow> stop (ConfigError msg)
             | Some r \<Rightarrow> give (Some r)))"

definition load_consensus_record :: "'m sync_libs_scheme \<Rightarrow> 's host \<Rightarrow> nat \<Rightarrow> ('s, consensus_record option) action" where
  "load_consensus_record L H height = load_record_at L H (consensus_block_key height) ''consensus_block_ cozulemedi''"

definition load_consensus_tip :: "'m sync_libs_scheme \<Rightarrow> 's host \<Rightarrow> ('s, consensus_record option) action" where
  "load_consensus_tip L H = load_record_at L H CONSENSUS_TIP_KEY ''__CONSENSUS_TIP__ cozulemedi''"

definition store_consensus_records ::
  "'m sync_libs_scheme \<Rightarrow> 's host \<Rightarrow> signed_header \<Rightarrow> quorum_certificate \<Rightarrow> shadow_vote_attestation list \<Rightarrow> ('s, unit) action" where
  "store_consensus_records L H sh qc shadow_votes =
     (case ly_ser_record L (sh, qc, shadow_votes) of
        None \<Rightarrow> stop (Other ''consensus record serialize'')
      | Some bytes \<Rightarrow>
          andthen (h_put H CONSENSUS_TIP_KEY (code_account bytes)) (\<lambda>_.
            h_put H (consensus_block_key (h_number (sh_header sh))) (code_account bytes)))"

section \<open>The server\<close>

text \<open>\<open>.ok().flatten()\<close>: an error is no account.\<close>

definition get_or_none :: "'s host \<Rightarrow> address \<Rightarrow> ('s, account option) action" where
  "get_or_none H key = andthen (attempt (h_get H key)) (\<lambda>found. give (case found of None \<Rightarrow> None | Some x \<Rightarrow> x))"

text \<open>The bodies that are archived, and the places and ids of those that are not.\<close>

fun read_bodies ::
  "'m sync_libs_scheme \<Rightarrow> 's host \<Rightarrow> nat \<Rightarrow> hash list \<Rightarrow> ('s, transaction list \<times> (nat \<times> hash) list) action" where
  "read_bodies L H i [] = give ([], [])"
| "read_bodies L H i (h # ids) =
     andthen (get_or_none H (tx_body_key (lb_hex L) h)) (\<lambda>found.
       let body = (case found of
             None \<Rightarrow> None
           | Some a \<Rightarrow> if ac_contract_code a = [] then None else ly_from_stored L (ac_contract_code a))
       in andthen (read_bodies L H (i + 1) ids) (\<lambda>(transactions, missing).
            give (case body of
                Some tx \<Rightarrow> (tx # transactions, missing)
              | None \<Rightarrow> (transactions, (i, h) # missing))))"

definition read_block_tolerant :: "'m sync_libs_scheme \<Rightarrow> 's host \<Rightarrow> nat \<Rightarrow> ('s, sync_block_v2 option) action" where
  "read_block_tolerant L H height =
     andthen (attempt (load_consensus_record L H height)) (\<lambda>record.
       case record of
         Some (Some (sh, qc, shadow_votes)) \<Rightarrow>
           andthen (get_or_none H (block_key height)) (\<lambda>archived_acc.
             case (case archived_acc of None \<Rightarrow> None | Some a \<Rightarrow> ly_de_header L (ac_contract_code a)) of
               None \<Rightarrow> give None
             | Some archived \<Rightarrow>
                 andthen (read_bodies L H 0 (ah_tx_hashes archived)) (\<lambda>(transactions, missing).
                 andthen (collect_proposals_for_relay L H transactions) (\<lambda>bridge_proposals.
                   give (Some \<lparr>s2_block = \<lparr>sb_signed = sh, sb_qc = qc, sb_transactions = transactions,
                       sb_bridge_proposals = bridge_proposals, sb_shadow_votes = shadow_votes\<rparr>,
                     s2_missing = missing\<rparr>))))
       | Some None \<Rightarrow> give None
       | None \<Rightarrow> give None)"

text \<open>The loop over the heights of a range: it ends at the first block that cannot be read.\<close>

fun read_range :: "'m sync_libs_scheme \<Rightarrow> 's host \<Rightarrow> nat list \<Rightarrow> ('s, sync_block_v2 list) action" where
  "read_range L H [] = give []"
| "read_range L H (height # heights) =
     andthen (read_block_tolerant L H height) (\<lambda>block.
       case block of
         None \<Rightarrow> give []
       | Some b \<Rightarrow> andthen (read_range L H heights) (\<lambda>blocks. give (b # blocks)))"

definition batch_cap :: "nat \<Rightarrow> nat" where
  "batch_cap max_blocks = min (max max_blocks 1) MAX_BLOCKS_PER_RESPONSE"

definition answer_status :: "'m sync_libs_scheme \<Rightarrow> 's host \<Rightarrow> ('s, sync_response) action" where
  "answer_status L H =
     andthen (attempt (load_active_set L H)) (\<lambda>loaded.
       case loaded of
         None \<Rightarrow> give NotAvailable
       | Some vset \<Rightarrow>
           andthen (attempt (load_consensus_tip L H)) (\<lambda>tip.
             let (tip_height, tip_hash) = (case tip of
                   Some (Some (sh, _, _)) \<Rightarrow> (h_number (sh_header sh), h_hash (lb_crypto L) (sh_header sh))
                 | Some None \<Rightarrow> (0, NIL_HASH) | None \<Rightarrow> (0, NIL_HASH))
             in give (Status \<lparr>ss_tip_height = tip_height, ss_tip_hash = tip_hash, ss_epoch = vs_epoch vset,
                  ss_validator_set_hash = vs_hash (keccak (lb_crypto L)) vset\<rparr>)))"

definition answer_blocks :: "sync_block_v2 list \<Rightarrow> sync_response" where
  "answer_blocks blocks =
     (if blocks = [] then NotAvailable
      else if list_all (\<lambda>b. s2_missing b = []) blocks then Blocks (map s2_block blocks)
      else BlocksV2 blocks)"

definition build_response :: "'m sync_libs_scheme \<Rightarrow> 's host \<Rightarrow> sync_request \<Rightarrow> nat \<Rightarrow> ('s, sync_response) action" where
  "build_response L H request max_blocks =
     (case request of
        GetStatus \<Rightarrow> answer_status L H
      | GetBlockRange first end_height \<Rightarrow>
          if first = 0 \<or> end_height < first then give NotAvailable
          else andthen (read_range L H [first..<min end_height (sat_add u64_max first (batch_cap max_blocks - 1)) + 1])
                 (\<lambda>blocks. give (answer_blocks blocks)))"

section \<open>The ids of a body\<close>

text \<open>
  The missing ids at their places, the ids of the bodies at hand in the places left: \<open>None\<close> for an answer
  whose places do not fit.
\<close>

fun place_missing :: "(nat \<times> hash) list \<Rightarrow> hash option list \<Rightarrow> hash option list option" where
  "place_missing [] slots = Some slots"
| "place_missing ((i, h) # missing) slots =
     (if length slots \<le> i \<or> slots ! i \<noteq> None then None else place_missing missing (slots[i := Some h]))"

fun fill_present :: "hash list \<Rightarrow> hash option list \<Rightarrow> hash list option" where
  "fill_present [] [] = Some []"
| "fill_present (p # present) [] = None"
| "fill_present present (Some h # slots) = map_option (\<lambda>hs. h # hs) (fill_present present slots)"
| "fill_present [] (None # slots) = None"
| "fill_present (p # present) (None # slots) = map_option (\<lambda>hs. p # hs) (fill_present present slots)"

definition merged_tx_ids :: "transaction list \<Rightarrow> (nat \<times> hash) list \<Rightarrow> hash list option" where
  "merged_tx_ids present missing =
     (case place_missing missing (replicate (length present + length missing) None) of
        None \<Rightarrow> None
      | Some slots \<Rightarrow> fill_present (map tx_id present) slots)"

section \<open>The checks of the node that catches up\<close>

record sync_context =
  sx_domain :: consensus_domain
  sx_params :: chain_params
  sx_set :: active_validator_set
  sx_tip_set :: active_validator_set
  sx_tip_height :: nat
  sx_tip_hash :: hash
  sx_tip_timestamp_ms :: nat
  sx_now_ms :: nat
  sx_checkpoint :: "trusted_checkpoint option"

definition sync_err :: "string \<Rightarrow> 'a result" where
  "sync_err m = Inl (Other m)"

definition check_place :: "sync_context \<Rightarrow> block_header \<Rightarrow> unit result" where
  "check_place ctx h =
     (if h_number h \<noteq> sx_tip_height ctx + 1 then sync_err ''ardisik degil''
      else if h_parent_hash h \<noteq> sx_tip_hash ctx then sync_err ''parent_hash tip ile uyusmuyor''
      else if h_timestamp_ms h \<le> sx_tip_timestamp_ms ctx then sync_err ''zaman damgasi monoton degil''
      else if sat_add u64_max (sx_now_ms ctx) (p_max_clock_skew_ms (sx_params ctx)) < h_timestamp_ms h
        then sync_err ''zaman damgasi gelecekte''
      else if vs_len (sx_set ctx) = 0 then sync_err ''aktif kume bos''
      else if h_proposer_idx h \<noteq> (h_number h + h_round h) mod vs_len (sx_set ctx)
        then sync_err ''proposer_idx rotasyonla uyusmuyor''
      else Inr ())"

definition check_parent_qc :: "crypto_env \<Rightarrow> sync_context \<Rightarrow> block_header \<Rightarrow> unit result" where
  "check_parent_qc E ctx h =
     (case h_last_qc h of
        None \<Rightarrow> if sx_tip_height ctx = 0 then Inr () else sync_err ''genesis disinda last_qc zorunlu''
      | Some qc \<Rightarrow>
          if q_height qc \<noteq> sx_tip_height ctx \<or> q_block_hash qc \<noteq> sx_tip_hash ctx then sync_err ''last_qc tip ile uyusmuyor''
          else verify_qc E qc (sx_domain ctx) (sx_tip_set ctx))"

definition check_own_qc :: "crypto_env \<Rightarrow> sync_context \<Rightarrow> block_header \<Rightarrow> quorum_certificate \<Rightarrow> unit result" where
  "check_own_qc E ctx h qc =
     (if q_height qc \<noteq> h_number h then sync_err ''QC yuksekligi''
      else if q_block_hash qc \<noteq> h_hash E h then sync_err ''QC.block_hash != header.hash()''
      else if q_epoch qc \<noteq> h_epoch h \<or> h_validator_set_hash h \<noteq> vs_hash (keccak E) (sx_set ctx)
        then sync_err ''QC/baslik epoch ya da kume hash i uyusmuyor''
      else verify_qc E qc (sx_domain ctx) (sx_set ctx))"

definition check_sync_body ::
  "crypto_env \<Rightarrow> (transaction list \<Rightarrow> nat) \<Rightarrow> sync_context \<Rightarrow> block_header \<Rightarrow> transaction list \<Rightarrow> (nat \<times> hash) list \<Rightarrow> unit result" where
  "check_sync_body E body_bytes ctx h txs missing =
     (if h_tx_count h \<noteq> length txs + length missing then sync_err ''tx_count govdeyle uyusmuyor''
      else case merged_tx_ids txs missing of
          None \<Rightarrow> sync_err ''eksik islem listesi bozuk''
        | Some ids \<Rightarrow>
            if h_tx_root h \<noteq> compute_tx_root E ids then sync_err ''tx_root govdeyle uyusmuyor''
            else let bytes = body_bytes txs
              in if missing = [] \<and> (bytes \<noteq> h_body_bytes h \<or> p_max_block_bytes (sx_params ctx) < bytes)
                 then sync_err ''body_bytes''
                 else if missing \<noteq> [] \<and> (h_body_bytes h < bytes \<or> p_max_block_bytes (sx_params ctx) < h_body_bytes h)
                 then sync_err ''body_bytes (eksik govdeli blok)''
                 else if \<exists>t \<in> set txs. tx_chain_id t \<noteq> CHAIN_ID then sync_err ''yabanci chain_id li tx''
                 else Inr ())"

definition check_checkpoint :: "crypto_env \<Rightarrow> sync_context \<Rightarrow> block_header \<Rightarrow> unit result" where
  "check_checkpoint E ctx h =
     (case sx_checkpoint ctx of
        None \<Rightarrow> Inr ()
      | Some cp \<Rightarrow>
          if tk_height cp = h_number h \<and> (tk_block_hash cp \<noteq> h_hash E h \<or> tk_validator_set_hash cp \<noteq> h_validator_set_hash h)
          then sync_err ''GUVENILIR CHECKPOINT UYUSMAZLIGI'' else Inr ())"

definition validate_block_with_missing ::
  "crypto_env \<Rightarrow> (transaction list \<Rightarrow> nat) \<Rightarrow> sync_context \<Rightarrow> sync_block \<Rightarrow> (nat \<times> hash) list \<Rightarrow> unit result" where
  "validate_block_with_missing E body_bytes ctx block missing =
     (let h = sh_header (sb_signed block)
      in try_then (header_validate_structure h (sx_params ctx)) (\<lambda>_.
         try_then (check_place ctx h) (\<lambda>_.
         try_then (verify_signed_header E (sb_signed block) (sx_domain ctx) (sx_set ctx)) (\<lambda>_.
         try_then (check_parent_qc E ctx h) (\<lambda>_.
         try_then (check_own_qc E ctx h (sb_qc block)) (\<lambda>_.
         try_then (check_sync_body E body_bytes ctx h (sb_transactions block) missing) (\<lambda>_.
           check_checkpoint E ctx h)))))))"

definition validate_block :: "crypto_env \<Rightarrow> (transaction list \<Rightarrow> nat) \<Rightarrow> sync_context \<Rightarrow> sync_block \<Rightarrow> unit result" where
  "validate_block E body_bytes ctx block = validate_block_with_missing E body_bytes ctx block []"

definition validate_batch_shape :: "sync_block list \<Rightarrow> nat \<Rightarrow> nat \<Rightarrow> unit result" where
  "validate_batch_shape blocks expected_first max_blocks =
     (case blocks of
        [] \<Rightarrow> sync_err ''sync2: bos blok listesi''
      | b # _ \<Rightarrow>
          if batch_cap max_blocks < length blocks then sync_err ''sync2: blok > tavan''
          else if h_number (sh_header (sb_signed b)) \<noteq> expected_first then sync_err ''sync2: ilk blok''
          else Inr ())"

definition load_chain_context ::
  "'m sync_libs_scheme \<Rightarrow> 's host \<Rightarrow> ('s, consensus_domain \<times> chain_params \<times> active_validator_set) action" where
  "load_chain_context L H =
     andthen (load_consensus_domain H) (\<lambda>domain.
     andthen (load_chain_params L H) (\<lambda>params.
     andthen (load_active_set L H) (\<lambda>vset. give (domain, params, vset))))"

end
