(* ===== verification/SyncFacts.thy ===== *)
theory SyncFacts
  imports Sync EngineExample Samples
begin

text \<open>
  What the checks of catch-up prove of a block, and that the server answers with what was committed.
\<close>

section \<open>The ids of a body\<close>

lemma place_missing_iff:
  "place_missing missing slots = Some slots' \<longleftrightarrow>
     distinct (map fst missing) \<and> (\<forall>(i, h) \<in> set missing. i < length slots \<and> slots ! i = None) \<and>
     slots' = map (\<lambda>i. case map_of missing i of Some h \<Rightarrow> Some h | None \<Rightarrow> slots ! i) [0..<length slots]"
proof (induction missing slots rule: place_missing.induct)
  case (1 slots)
  then show ?case by (auto simp: map_nth)
next
  case (2 i h missing slots)
  show ?case
  proof (cases "length slots \<le> i \<or> slots ! i \<noteq> None")
    case True
    then show ?thesis by auto
  next
    case False
    have same: "(case map_of missing j of Some h \<Rightarrow> Some h | None \<Rightarrow> slots[i := Some h] ! j) =
        (case map_of ((i, h) # missing) j of Some h \<Rightarrow> Some h | None \<Rightarrow> slots ! j)"
      if "i \<notin> fst ` set missing" "j < length slots" for j
    proof (cases "j = i")
      case True
      have "map_of missing i = None" using that(1) by (simp add: map_of_eq_None_iff)
      then show ?thesis using True False by simp
    qed (simp split: option.split)
    have free: "(\<forall>(j, h') \<in> set missing. j < length slots \<and> slots[i := Some h] ! j = None) \<longleftrightarrow>
        i \<notin> fst ` set missing \<and> (\<forall>(j, h') \<in> set missing. j < length slots \<and> slots ! j = None)"
      using False by (force simp: nth_list_update split: if_splits)
    have m: "map (\<lambda>j. case map_of missing j of Some h \<Rightarrow> Some h | None \<Rightarrow> slots[i := Some h] ! j) [0..<length slots] =
        map (\<lambda>j. case map_of ((i, h) # missing) j of Some h \<Rightarrow> Some h | None \<Rightarrow> slots ! j) [0..<length slots]"
      if "i \<notin> fst ` set missing"
      using same [OF that] by (intro map_cong) auto
    have "place_missing ((i, h) # missing) slots = place_missing missing (slots[i := Some h])" using False by simp
    then show ?thesis using 2 [OF False] free m False by auto
  qed
qed

lemma fill_present_iff:
  "fill_present present slots = Some ids \<longleftrightarrow>
     length ids = length slots \<and> (\<forall>i < length slots. \<forall>h. slots ! i = Some h \<longrightarrow> ids ! i = h) \<and>
     nths ids {i. i < length slots \<and> slots ! i = None} = present"
proof (induction present slots arbitrary: ids rule: fill_present.induct)
  case (3 present h slots)
  show ?case
  proof (cases ids)
    case (Cons x xs)
    have s: "{i. Suc i < length (Some h # slots) \<and> (Some h # slots) ! Suc i = None} = {i. i < length slots \<and> slots ! i = None}" by auto
    show ?thesis using 3 [of xs] by (auto simp: Cons nths_Cons s All_less_Suc2)
  qed (use 3 in auto)
next
  case (4 slots)
  show ?case by (cases ids) (auto simp: nths_Cons)
next
  case (5 p present slots)
  show ?case
  proof (cases ids)
    case (Cons x xs)
    have s: "{i. Suc i < length (None # slots) \<and> (None # slots) ! Suc i = None} = {i. i < length slots \<and> slots ! i = None}" by auto
    show ?thesis using 5 [of xs] by (auto simp: Cons nths_Cons s All_less_Suc2)
  qed (use 5 in auto)
qed auto

lemma nths_within: "A \<inter> {..<n} = B \<inter> {..<n} \<Longrightarrow> length xs \<le> n \<Longrightarrow> nths xs A = nths xs B"
proof -
  assume a: "A \<inter> {..<n} = B \<inter> {..<n}" "length xs \<le> n"
  have "snd p \<in> A \<longleftrightarrow> snd p \<in> B" if "p \<in> set (zip xs [0..<length xs])" for p
  proof -
    have "snd p < n" using set_zip_rightD [of "fst p" "snd p"] that a(2) by force
    then show ?thesis using a(1) by blast
  qed
  then show ?thesis unfolding nths_def by (simp cong: filter_cong)
qed

text \<open>
  C21: the list of ids of a block whose bodies are not all at hand is exact: it is accepted exactly when the
  missing places are distinct and within the block, and then it has the missing ids at their places and the
  ids of the bodies at hand, in their order, everywhere else. So the transaction root decides about every
  transaction, missing or not.
\<close>

theorem merged_ids_are_exact:
  "merged_tx_ids present missing = Some ids \<longleftrightarrow>
     length ids = length present + length missing \<and> distinct (map fst missing) \<and>
     (\<forall>(i, h) \<in> set missing. i < length ids \<and> ids ! i = h) \<and>
     nths ids (- fst ` set missing) = map tx_id present"
proof -
  define n where "n = length present + length missing"
  define slots where "slots = map (map_of missing) [0..<n]"
  have len: "length slots = n" and at: "\<And>j. j < n \<Longrightarrow> slots ! j = map_of missing j" by (simp_all add: slots_def)
  have "map (\<lambda>i. case map_of missing i of Some h \<Rightarrow> Some h | None \<Rightarrow> replicate n None ! i) [0..<n] = slots"
    unfolding slots_def by (rule map_cong) (auto split: option.split)
  then have start: "place_missing missing (replicate n None) = Some s \<longleftrightarrow>
      distinct (map fst missing) \<and> (\<forall>(i, h) \<in> set missing. i < n) \<and> s = slots" for s
    unfolding place_missing_iff by auto
  have "merged_tx_ids present missing = Some ids \<longleftrightarrow>
      (\<exists>s. place_missing missing (replicate n None) = Some s \<and> fill_present (map tx_id present) s = Some ids)"
    by (simp add: merged_tx_ids_def n_def split: option.split)
  then have merged: "merged_tx_ids present missing = Some ids \<longleftrightarrow>
      distinct (map fst missing) \<and> (\<forall>(i, h) \<in> set missing. i < n) \<and> fill_present (map tx_id present) slots = Some ids"
    unfolding start by blast
  have gaps: "nths ids {i. i < length slots \<and> slots ! i = None} = nths ids (- fst ` set missing)" if "length ids = n"
  proof -
    have "{i. i < length slots \<and> slots ! i = None} \<inter> {..<n} = - fst ` set missing \<inter> {..<n}"
      by (force simp: len at map_of_eq_None_iff)
    then show ?thesis by (rule nths_within) (use that in simp)
  qed
  have placed: "(\<forall>i < length slots. \<forall>h. slots ! i = Some h \<longrightarrow> ids ! i = h) \<longleftrightarrow> (\<forall>(i, h) \<in> set missing. ids ! i = h)"
    if d: "distinct (map fst missing)" and b: "\<forall>(i, h) \<in> set missing. i < n"
  proof -
    have "map_of missing i = Some h \<longleftrightarrow> (i, h) \<in> set missing" for i h using d by (rule map_of_eq_Some_iff)
    then show ?thesis using b by (auto simp: len at)
  qed
  show ?thesis
  proof (cases "length ids = n \<and> distinct (map fst missing) \<and> (\<forall>(i, h) \<in> set missing. i < n)")
    case True
    then show ?thesis unfolding merged fill_present_iff using gaps placed by (auto simp: len n_def)
  next
    case False
    then show ?thesis unfolding merged fill_present_iff len n_def by auto
  qed
qed

theorem merged_ids_are_exact_witness:
  "merged_tx_ids [sample_transfer] [(1, [7])] = Some [tx_id sample_transfer, [7]]"
  by (subst merged_ids_are_exact) (auto simp: nths_Cons)

section \<open>Accepted blocks\<close>

lemma check_place_Inr:
  "check_place ctx h = Inr () \<Longrightarrow> h_number h = sx_tip_height ctx + 1 \<and> h_parent_hash h = sx_tip_hash ctx \<and>
     sx_tip_timestamp_ms ctx < h_timestamp_ms h"
  by (auto simp: check_place_def sync_err_def split: if_splits)

lemma check_own_qc_Inr:
  "check_own_qc E ctx h qc = Inr () \<Longrightarrow>
     q_height qc = h_number h \<and> q_block_hash qc = h_hash E h \<and> verify_qc E qc (sx_domain ctx) (sx_set ctx) = Inr ()"
  by (auto simp: check_own_qc_def sync_err_def split: if_splits)

lemma check_parent_qc_Inr:
  "check_parent_qc E ctx h = Inr () \<Longrightarrow> sx_tip_height ctx \<noteq> 0 \<Longrightarrow>
     \<exists>qc. h_last_qc h = Some qc \<and> q_height qc = sx_tip_height ctx \<and> q_block_hash qc = sx_tip_hash ctx \<and>
       verify_qc E qc (sx_domain ctx) (sx_tip_set ctx) = Inr ()"
  by (auto simp: check_parent_qc_def sync_err_def split: if_splits option.splits)

lemma check_sync_body_Inr:
  "check_sync_body E body_bytes ctx h txs missing = Inr () \<Longrightarrow>
     \<exists>ids. merged_tx_ids txs missing = Some ids \<and> h_tx_root h = compute_tx_root E ids"
  by (auto simp: check_sync_body_def sync_err_def split: if_splits option.splits)

text \<open>
  C18: a block that catch-up accepts is the child of the tip and carries the work of a quorum: more than two
  thirds of the set's validators signed a precommit of exactly the hash of its header, a tip past the first
  block is certified by the header as well, and the header's transaction root is that of the ids the body
  and the list of missing bodies make together.
\<close>

theorem accepted_blocks_are_certified:
  assumes "validate_block_with_missing E body_bytes ctx block missing = Inr ()"
    and h: "h = sh_header (sb_signed block)" and signers: "signers = set (signer_indices (sb_qc block))"
  shows "h_number h = sx_tip_height ctx + 1 \<and> h_parent_hash h = sx_tip_hash ctx \<and>
    2 * vs_len (sx_set ctx) < 3 * card signers \<and>
    (\<forall>i \<in> signers. \<exists>sg r. verify_vote E \<lparr>v_height = h_number h, v_round = r, v_phase = Precommit,
        v_block_hash = h_hash E h, v_validator_idx = i, v_shadow = False, v_sig = sg\<rparr> (sx_domain ctx) (sx_set ctx) = Inr ()) \<and>
    (sx_tip_height ctx \<noteq> 0 \<longrightarrow> (\<exists>qc. h_last_qc h = Some qc \<and> q_block_hash qc = sx_tip_hash ctx \<and>
        verify_qc E qc (sx_domain ctx) (sx_tip_set ctx) = Inr ())) \<and>
    (\<exists>ids. merged_tx_ids (sb_transactions block) missing = Some ids \<and> h_tx_root h = compute_tx_root E ids)"
proof -
  from assms have place: "check_place ctx h = Inr ()" and parent: "check_parent_qc E ctx h = Inr ()"
    and own: "check_own_qc E ctx h (sb_qc block) = Inr ()"
    and body: "check_sync_body E body_bytes ctx h (sb_transactions block) missing = Inr ()"
    by (auto simp: validate_block_with_missing_def Let_def try_then_Inr)
  note qc = check_own_qc_Inr [OF own]
  then have struct: "qc_validate_structure E (sb_qc block) (sx_set ctx) = Inr ()" by (simp add: verify_qc_Inr)
  have "2 * vs_len (sx_set ctx) < 3 * ((2 * vs_len (sx_set ctx)) div 3 + 1)" by presburger
  then have quorum: "2 * vs_len (sx_set ctx) < 3 * card signers"
    unfolding signers using qc_signers_quorum(4) [OF struct] by linarith
  have signed: "\<exists>sg r. verify_vote E \<lparr>v_height = h_number h, v_round = r, v_phase = Precommit,
      v_block_hash = h_hash E h, v_validator_idx = i, v_shadow = False, v_sig = sg\<rparr> (sx_domain ctx) (sx_set ctx) = Inr ()"
    if i: "i \<in> signers" for i
  proof -
    obtain pk sg where "pubkey_of (sx_set ctx) i = Some pk"
      "verify_digest E pk (qc_digest E (sx_domain ctx) (sb_qc block)) sg = Inr ()"
      using verify_qc_signature [of E "sb_qc block" "sx_domain ctx" "sx_set ctx" i] qc i signers by blast
    moreover have "q_epoch (sb_qc block) = vs_epoch (sx_set ctx)" using struct by (simp add: qc_validate_structure_Inr)
    ultimately have "verify_vote E (precommit_of (sb_qc block) i sg) (sx_domain ctx) (sx_set ctx) = Inr ()"
      by (rule verify_precommit_of [rotated])
    then show ?thesis unfolding precommit_of_def using qc by auto
  qed
  show ?thesis
    using check_place_Inr [OF place] check_parent_qc_Inr [OF parent] check_sync_body_Inr [OF body] quorum signed by blast
qed

text \<open>The first block of the sample chain, certified by three of its four validators.\<close>

definition caught_ctx :: sync_context where
  "caught_ctx = \<lparr>sx_domain = sample_domain, sx_params = genesis_defaults, sx_set = toy_set, sx_tip_set = toy_set,
     sx_tip_height = 0, sx_tip_hash = NIL_HASH, sx_tip_timestamp_ms = 1000, sx_now_ms = 2000, sx_checkpoint = None\<rparr>"

definition caught_block :: "quorum_certificate \<Rightarrow> sync_block" where
  "caught_block qc = \<lparr>sb_signed = sign_header toy_env (toy_key 1) sample_domain toy_header, sb_qc = qc,
     sb_transactions = [], sb_bridge_proposals = [], sb_shadow_votes = []\<rparr>"

lemma caught_block_is_accepted:
  "\<exists>qc. validate_block_with_missing toy_env (\<lambda>txs. 8) caught_ctx (caught_block qc) [] = Inr () \<and>
     set (signer_indices qc) = {0, 1, 2}"
proof -
  obtain qc where qc: "build_qc toy_env (map (toy_ballot Precommit) [0, 1, 2]) sample_domain toy_set 1 0 toy_bh = Inr qc"
    using toy_build [of "[0, 1, 2]"] by auto
  note b = build_qc_Inr [OF qc]
  have ep: "q_epoch qc = 0" using b(1) by (simp add: verify_qc_Inr qc_validate_structure_Inr)
  have signers: "set (signer_indices qc) = {0, 1, 2}"
    unfolding b(5) by (force simp: qc_candidate_def v_is_nil_def)
  have hd: "sh_header (sign_header toy_env (toy_key 1) sample_domain toy_header) = toy_header" by (simp add: sign_header_def)
  have st: "header_validate_structure toy_header genesis_defaults = Inr ()"
    by (simp add: header_validate_structure_def toy_header_def HEADER_VERSION_def genesis_defaults_def)
  have f: "h_number toy_header = 1" "h_round toy_header = 0" "h_proposer_idx toy_header = 1" "h_epoch toy_header = 0"
    "h_parent_hash toy_header = NIL_HASH" "h_last_qc toy_header = None" "h_timestamp_ms toy_header = 2000"
    "h_tx_count toy_header = 0" "h_tx_root toy_header = compute_tx_root toy_env []" "h_body_bytes toy_header = 8"
    "h_validator_set_hash toy_header = vs_hash (keccak toy_env) toy_set"
    by (simp_all add: toy_header_def)
  have ctx: "sx_domain caught_ctx = sample_domain" "sx_params caught_ctx = genesis_defaults" "sx_set caught_ctx = toy_set"
    "sx_tip_height caught_ctx = 0" "sx_tip_hash caught_ctx = NIL_HASH" "sx_tip_timestamp_ms caught_ctx = 1000"
    "sx_now_ms caught_ctx = 2000" "sx_checkpoint caught_ctx = None"
    by (simp_all add: caught_ctx_def)
  have big: "p_max_block_bytes genesis_defaults = 262144" "p_max_clock_skew_ms genesis_defaults = 2000"
    by (simp_all add: genesis_defaults_def)
  have place: "check_place caught_ctx toy_header = Inr ()"
    unfolding check_place_def ctx f big by (simp add: sat_add_def)
  have parent: "check_parent_qc toy_env caught_ctx toy_header = Inr ()"
    unfolding check_parent_qc_def ctx f by simp
  have own: "check_own_qc toy_env caught_ctx toy_header qc = Inr ()"
    unfolding check_own_qc_def ctx f toy_bh_def [symmetric] by (simp add: b ep)
  have "merged_tx_ids [] [] = Some []" by (simp add: merged_tx_ids_def)
  then have body: "check_sync_body toy_env (\<lambda>txs. 8) caught_ctx toy_header [] [] = Inr ()"
    unfolding check_sync_body_def ctx f big by simp
  have "validate_block_with_missing toy_env (\<lambda>txs. 8) caught_ctx (caught_block qc) [] = Inr ()"
    unfolding validate_block_with_missing_def Let_def caught_block_def
    by (simp add: hd ctx st place parent own body try_then_def check_checkpoint_def del: One_nat_def)
  then show ?thesis using signers by blast
qed

theorem accepted_blocks_are_certified_witness:
  "\<exists>qc. 2 * vs_len toy_set < 3 * card (set (signer_indices qc)) \<and> set (signer_indices qc) = {0, 1, 2}"
proof -
  obtain qc where ok: "validate_block_with_missing toy_env (\<lambda>txs. 8) caught_ctx (caught_block qc) [] = Inr ()"
    and signers: "set (signer_indices qc) = {0, 1, 2}"
    using caught_block_is_accepted by blast
  have "2 * vs_len (sx_set caught_ctx) < 3 * card (set (signer_indices (sb_qc (caught_block qc))))"
    using accepted_blocks_are_certified [OF ok refl refl] by blast
  then have "2 * vs_len toy_set < 3 * card (set (signer_indices qc))" by (simp only: caught_ctx_def caught_block_def sync_context.simps sync_block.simps)
  then show ?thesis using signers by blast
qed

end
