(* ===== verification/AdminActions.thy ===== *)
theory AdminActions
  imports Epoch
begin

text \<open>
  The veto of the admin multisig (\<open>apply_veto\<close>, reached only through \<open>apply_admin_action_tx\<close>) can never
  take effect: the decoder of the payload wants a target of 40 hexadecimal digits, the veto one of 64.
\<close>

text \<open>What \<open>hex::decode\<close> documents: two digits make a byte.\<close>

definition two_digits_a_byte :: "(string \<Rightarrow> bytes option) \<Rightarrow> bool" where
  "two_digits_a_byte unhex \<longleftrightarrow> (\<forall>s bs. unhex s = Some bs \<longrightarrow> length s = 2 * length bs)"

lemma short_target_is_not_vetoed:
  assumes "two_digits_a_byte (lb_unhex L)" and "validate_address target"
  shows "apply_veto L H target s \<noteq> (Inr u, s')"
proof -
  have "length target = 42" using assms(2) by (simp add: validate_address_def split: if_splits)
  then have "length (strip_0x target) < 64" by (simp add: strip_0x_def)
  then have "length bs \<noteq> 32" if "lb_unhex L (strip_0x target) = Some bs" for bs
    using assms(1) that by (auto simp: two_digits_a_byte_def)
  then show ?thesis by (simp add: apply_veto_def stop_def split: option.split)
qed

theorem vetoes_never_take_effect:
  assumes "two_digits_a_byte (lb_unhex L)"
    and "admin_payload_decode (lv_de_admin L) bs = Inr payload" "aa_action payload = VetoProposal"
  shows "apply_admin_action_tx L H action bs now s \<noteq> (Inr target, s')"
proof
  assume "apply_admin_action_tx L H action bs now s = (Inr target, s')"
  then obtain u t t' where "apply_veto L H (aa_target payload) t = (Inr u, t')"
    using assms(2,3) by (auto simp: apply_admin_action_tx_def andthen_Inr lift_def stop_def Let_def split: if_splits)
  moreover have "validate_address (aa_target payload)"
    using assms(2) by (auto simp: admin_payload_decode_def split: option.splits if_splits)
  ultimately show False using short_target_is_not_vetoed [OF assms(1), of "aa_target payload" H t u t'] by blast
qed

end
