(* ===== verification/RelayClient.thy ===== *)
theory RelayClient
  imports BridgeManager DoubleSign
begin

text \<open>
  The relayer's side of the JSON-RPC: JSON values, the client of \<open>crates/zagros-relayer/src/zagros_client.rs\<close>, the
  reading of proposals from JSON (\<open>inbound.rs\<close>, \<open>outbound.rs\<close>) and the node's writing of them
  (\<open>crates/zagros-rpc/src/lib.rs\<close>). A number of JSON is an integer. The HTTP post is an argument; Ed25519 and
  hexadecimal digits are fields of \<open>libs\<close>.
\<close>

section \<open>Procedures\<close>

text \<open>
  A procedure changes the world it runs in and ends with a value, an error of its own type or a panic, which no
  code of the relayer catches.
\<close>

datatype 'e fault = Raised 'e | Panicked

type_synonym ('s, 'e, 'a) proc = "'s \<Rightarrow> ('e fault + 'a) \<times> 's"

definition finish :: "'a \<Rightarrow> ('s, 'e, 'a) proc" where
  "finish x s = (Inr x, s)"

definition raise_error :: "'e \<Rightarrow> ('s, 'e, 'a) proc" where
  "raise_error e s = (Inl (Raised e), s)"

definition panic :: "('s, 'e, 'a) proc" where
  "panic s = (Inl Panicked, s)"

definition bind_proc :: "('s, 'e, 'a) proc \<Rightarrow> ('a \<Rightarrow> ('s, 'e, 'b) proc) \<Rightarrow> ('s, 'e, 'b) proc" where
  "bind_proc m k s = (case m s of (Inl f, s') \<Rightarrow> (Inl f, s') | (Inr x, s') \<Rightarrow> k x s')"

text \<open>\<open>match\<close> on the result: the error becomes a value.\<close>

definition outcome_of :: "('s, 'e, 'a) proc \<Rightarrow> ('s, 'f, 'e + 'a) proc" where
  "outcome_of m s =
     (case m s of
        (Inl (Raised e), s') \<Rightarrow> (Inr (Inl e), s')
      | (Inl Panicked, s') \<Rightarrow> (Inl Panicked, s')
      | (Inr x, s') \<Rightarrow> (Inr (Inr x), s'))"

text \<open>The outcome of a call on the store.\<close>

definition stored :: "('s, 'a) action \<Rightarrow> ('s, 'f, 'a result) proc" where
  "stored m s = (case m s of (r, s') \<Rightarrow> (Inr r, s'))"

lemma bind_proc_Inr:
  "bind_proc m k s = (Inr y, s'') \<longleftrightarrow> (\<exists>x s'. m s = (Inr x, s') \<and> k x s' = (Inr y, s''))"
  by (auto simp: bind_proc_def split: prod.splits sum.splits)

lemma outcome_of_Inr:
  "outcome_of m s = (Inr r, s') \<longleftrightarrow>
     (case r of Inl e \<Rightarrow> m s = (Inl (Raised e), s') | Inr x \<Rightarrow> m s = (Inr x, s'))"
  by (auto simp: outcome_of_def split: prod.splits sum.splits fault.splits)

lemma stored_Inr: "stored m s = (Inr r, s') \<longleftrightarrow> m s = (r, s')"
  by (auto simp: stored_def split: prod.splits)

section \<open>JSON\<close>

datatype json = JNull | JBool bool | JNumber int | JString string | JArray "json list" | JObject "(string \<times> json) list"

definition json_get :: "string \<Rightarrow> json \<Rightarrow> json option" where
  "json_get key v = (case v of JObject entries \<Rightarrow> map_of entries key | _ \<Rightarrow> None)"

definition as_str :: "json \<Rightarrow> string option" where
  "as_str v = (case v of JString s \<Rightarrow> Some s | _ \<Rightarrow> None)"

definition as_bool :: "json \<Rightarrow> bool option" where
  "as_bool v = (case v of JBool b \<Rightarrow> Some b | _ \<Rightarrow> None)"

definition as_array :: "json \<Rightarrow> json list option" where
  "as_array v = (case v of JArray vs \<Rightarrow> Some vs | _ \<Rightarrow> None)"

definition get_str :: "string \<Rightarrow> json \<Rightarrow> string option" where
  "get_str key v = Option.bind (json_get key v) as_str"

definition get_bool :: "string \<Rightarrow> json \<Rightarrow> bool option" where
  "get_bool key v = Option.bind (json_get key v) as_bool"

definition get_uint :: "nat \<Rightarrow> string \<Rightarrow> json \<Rightarrow> nat option" where
  "get_uint mx key v = Option.bind (get_str key v) (parse_uint mx)"

section \<open>The client\<close>

datatype client_error = Transport string | Rpc int string | UnexpectedShape string

definition show_int :: "int \<Rightarrow> string" where
  "show_int n = (if n < 0 then ''-'' @ show_nat (nat (- n)) else show_nat (nat n))"

definition client_error_text :: "client_error \<Rightarrow> string" where
  "client_error_text e =
     (case e of
        Transport m \<Rightarrow> ''transport error: '' @ m
      | Rpc c m \<Rightarrow> ''RPC error '' @ show_int c @ '': '' @ m
      | UnexpectedShape m \<Rightarrow> ''unexpected response shape: '' @ m)"

text \<open>The post: what the server answered, or an error of the transport. \<open>ck_debug\<close> is \<open>{:?}\<close> of a JSON value.\<close>

record 's zagros_client =
  ck_post :: "json \<Rightarrow> 's \<Rightarrow> (string + json) \<times> 's"
  ck_debug :: "json \<Rightarrow> string"

definition read_answer :: "string + json \<Rightarrow> ('s, client_error, json) proc" where
  "read_answer answer =
     (case answer of
        Inl e \<Rightarrow> raise_error (Transport e)
      | Inr parsed \<Rightarrow>
          (case json_get ''error'' parsed of
             Some error \<Rightarrow> raise_error (Rpc
               (case json_get ''code'' error of Some (JNumber n) \<Rightarrow> if - (2 ^ 63) \<le> n \<and> n < 2 ^ 63 then n else 0 | _ \<Rightarrow> 0)
               (case get_str ''message'' error of Some m \<Rightarrow> m | None \<Rightarrow> ''''))
           | None \<Rightarrow>
               (case json_get ''result'' parsed of
                  None \<Rightarrow> raise_error (UnexpectedShape ''missing \"result\" field'')
                | Some found \<Rightarrow>
                    (case get_str ''error'' found of
                       Some embedded \<Rightarrow> raise_error (Rpc 0 embedded)
                     | None \<Rightarrow> finish found))))"

definition client_call :: "'s zagros_client \<Rightarrow> string \<Rightarrow> json list \<Rightarrow> ('s, client_error, json) proc" where
  "client_call C rpc_method params s =
     (case ck_post C (JObject [(''jsonrpc'', JString ''2.0''), (''id'', JNumber 1), (''method'', JString rpc_method),
         (''params'', JArray params)]) s of
        (answer, s') \<Rightarrow> read_answer answer s')"

definition bridge_tx_type_str :: "bridge_tx_type \<Rightarrow> string" where
  "bridge_tx_type_str t = (case t of Mint \<Rightarrow> ''mint'' | Burn \<Rightarrow> ''burn'')"

text \<open>A relayer's Ed25519 key and the address of its authority.\<close>

record relay_identity =
  ri_signing_key :: bytes
  ri_authority_address :: address

definition propose_bridge_action ::
  "'m libs_scheme \<Rightarrow> 's zagros_client \<Rightarrow> relay_identity \<Rightarrow> proposal_request \<Rightarrow> nat \<Rightarrow> ('s, client_error, string) proc" where
  "propose_bridge_action L C me q chain_id =
     (let E = lb_crypto L;
          message = propose_request_message E q chain_id
      in bind_proc (client_call C ''zagros_proposeBridgeAction''
           [JString (bridge_tx_type_str (rq_tx_type q)), JString (rq_recipient q), JString (show_nat (rq_amount q)),
            JString (rq_source_chain q), JString (rq_source_tx_hash q), JString (show_nat (rq_timestamp q)),
            JBool (rq_auto_swap q), JString (show_nat (rq_amount_out_min q)), JString (ri_authority_address me),
            JString (lb_hex L (ed_public E (ri_signing_key me))),
            JString (lb_hex L (ed_sign E (ri_signing_key me) message))]) (\<lambda>found.
           case get_str ''proposal_id'' found of
             None \<Rightarrow> raise_error (UnexpectedShape (''propose response missing proposal_id: '' @ ck_debug C found))
           | Some pid \<Rightarrow> finish pid))"

definition sign_bridge_proposal ::
  "'m libs_scheme \<Rightarrow> 's zagros_client \<Rightarrow> relay_identity \<Rightarrow> string \<Rightarrow> bytes \<Rightarrow> nat \<Rightarrow> ('s, client_error, bool) proc" where
  "sign_bridge_proposal L C me proposal_id_hex message timestamp =
     (let E = lb_crypto L;
          bound = bind_timestamp_to_message E message timestamp
      in bind_proc (client_call C ''zagros_signBridgeProposal''
           [JString proposal_id_hex, JString (ri_authority_address me),
            JString (lb_hex L (ed_public E (ri_signing_key me))),
            JString (lb_hex L (ed_sign E (ri_signing_key me) bound)), JString (show_nat timestamp)]) (\<lambda>found.
           finish (case get_bool ''can_execute'' found of Some b \<Rightarrow> b | None \<Rightarrow> False)))"

text \<open>\<open>as_u64\<close> of a number: a non-negative integer.\<close>

definition submit_claim_voucher ::
  "'s zagros_client \<Rightarrow> string \<Rightarrow> string \<Rightarrow> ('s, client_error, nat) proc" where
  "submit_claim_voucher C proposal_id_hex signature_hex =
     bind_proc (client_call C ''zagros_submitClaimVoucher'' [JString proposal_id_hex, JString signature_hex]) (\<lambda>found.
       finish (case json_get ''vouchers_collected'' found of
         Some (JNumber n) \<Rightarrow> if 0 \<le> n \<and> n \<le> int u64_max then nat n else 0 | _ \<Rightarrow> 0))"

definition get_bridge_proposal :: "'s zagros_client \<Rightarrow> string \<Rightarrow> ('s, client_error, json) proc" where
  "get_bridge_proposal C proposal_id_hex = client_call C ''zagros_getBridgeProposal'' [JString proposal_id_hex]"

definition get_pending_bridge_proposals :: "'s zagros_client \<Rightarrow> ('s, client_error, json list) proc" where
  "get_pending_bridge_proposals C =
     bind_proc (client_call C ''zagros_getPendingBridgeProposals'' []) (\<lambda>found.
       case Option.bind (json_get ''proposals'' found) as_array of
         None \<Rightarrow> raise_error (UnexpectedShape (ck_debug C found))
       | Some ps \<Rightarrow> finish ps)"

definition get_recent_bridge_burns :: "'s zagros_client \<Rightarrow> nat \<Rightarrow> ('s, client_error, json) proc" where
  "get_recent_bridge_burns C since_index =
     client_call C ''zagros_getRecentBridgeBurns'' [JString (show_nat since_index)]"

section \<open>Proposals as JSON\<close>

text \<open>What the node writes of a proposal. The claim vouchers go in the order of their signers.\<close>

definition signature_json :: "'m libs_scheme \<Rightarrow> bridge_signature \<Rightarrow> json" where
  "signature_json L sig = JObject [(''authority'', JString (bs_authority sig)),
     (''signature'', JString (''0x'' @ lb_hex L (bs_signature sig))),
     (''public_key'', JString (''0x'' @ lb_hex L (bs_public_key sig))),
     (''timestamp'', JString (show_nat (bs_timestamp sig)))]"

definition bridge_proposal_json :: "'m libs_scheme \<Rightarrow> json \<Rightarrow> bool \<Rightarrow> bridge_proposal \<Rightarrow> json" where
  "bridge_proposal_json L vouchers may_execute p = JObject
     [(''proposal_id'', JString (''0x'' @ lb_hex L (bp_proposal_id p))),
      (''tx_type'', JString (bridge_tx_type_str (bp_tx_type p))),
      (''recipient'', JString (bp_recipient p)),
      (''amount'', JString (show_nat (bp_amount p))),
      (''source_chain'', JString (bp_source_chain p)),
      (''source_tx_hash'', JString (bp_source_tx_hash p)),
      (''timestamp'', JString (show_nat (bp_timestamp p))),
      (''nonce'', JString (show_nat (bp_nonce p))),
      (''signatures_collected'', JNumber (int (length (bp_signatures p)))),
      (''signers'', JArray (map (\<lambda>s. JString (bs_authority s)) (bp_signatures p))),
      (''signatures'', JArray (map (signature_json L) (bp_signatures p))),
      (''executed'', JBool (bp_executed p)),
      (''can_execute'', JBool may_execute),
      (''auto_swap'', JBool (bp_auto_swap p)),
      (''amount_out_min'', JString (show_nat (bp_amount_out_min p))),
      (''claim_vouchers'', vouchers)]"

text \<open>What a relayer reads of it: \<open>trim_start_matches("0x")\<close>, then as many bytes as wanted.\<close>

definition decode_hash :: "'m libs_scheme \<Rightarrow> string \<Rightarrow> hash option" where
  "decode_hash L s =
     (case lb_unhex L (trim_0x s) of None \<Rightarrow> None | Some bs \<Rightarrow> if length bs = 32 then Some bs else None)"

definition decode_hex_bytes :: "'m libs_scheme \<Rightarrow> string \<Rightarrow> bytes option" where
  "decode_hex_bytes L s = lb_unhex L (trim_0x s)"

definition tx_type_of_str :: "string \<Rightarrow> bridge_tx_type option" where
  "tx_type_of_str s = (if s = ''mint'' then Some Mint else if s = ''burn'' then Some Burn else None)"

definition uint_or_zero :: "nat option \<Rightarrow> nat" where
  "uint_or_zero n = (case n of None \<Rightarrow> 0 | Some k \<Rightarrow> k)"

definition unsigned_proposal_from_json :: "'m libs_scheme \<Rightarrow> json \<Rightarrow> bridge_proposal option" where
  "unsigned_proposal_from_json L v =
     Option.bind (Option.bind (get_str ''proposal_id'' v) (decode_hash L)) (\<lambda>proposal_id.
     Option.bind (Option.bind (get_str ''tx_type'' v) tx_type_of_str) (\<lambda>tx_type.
     Option.bind (get_uint u128_max ''amount'' v) (\<lambda>amount.
     Option.bind (get_str ''recipient'' v) (\<lambda>recipient.
     Option.bind (get_str ''source_chain'' v) (\<lambda>source_chain.
     Option.bind (get_str ''source_tx_hash'' v) (\<lambda>source_tx_hash.
     Option.bind (get_uint u64_max ''timestamp'' v) (\<lambda>timestamp.
     Option.bind (get_bool ''executed'' v) (\<lambda>executed.
     Option.bind (get_uint u64_max ''nonce'' v) (\<lambda>nonce.
     Option.bind (get_bool ''auto_swap'' v) (\<lambda>auto_swap.
       Some \<lparr>bp_proposal_id = proposal_id, bp_tx_type = tx_type, bp_amount = amount, bp_recipient = recipient,
         bp_source_chain = source_chain, bp_source_tx_hash = source_tx_hash, bp_timestamp = timestamp,
         bp_signatures = [], bp_executed = executed, bp_nonce = nonce, bp_auto_swap = auto_swap,
         bp_amount_out_min = uint_or_zero (get_uint u128_max ''amount_out_min'' v), bp_claim_vouchers = []\<rparr>))))))))))"

definition signing_message_from_json :: "'m libs_scheme \<Rightarrow> json \<Rightarrow> nat \<Rightarrow> bytes option" where
  "signing_message_from_json L v chain_id =
     map_option (\<lambda>p. create_signing_message (lb_crypto L) p chain_id) (unsigned_proposal_from_json L v)"

definition parse_bridge_signature_json :: "'m libs_scheme \<Rightarrow> json \<Rightarrow> bridge_signature option" where
  "parse_bridge_signature_json L v =
     Option.bind (get_str ''authority'' v) (\<lambda>authority.
     Option.bind (Option.bind (get_str ''signature'' v) (decode_hex_bytes L)) (\<lambda>sig.
     Option.bind (Option.bind (get_str ''public_key'' v) (decode_hex_bytes L)) (\<lambda>public_key.
     Option.bind (get_uint u64_max ''timestamp'' v) (\<lambda>timestamp.
       Some \<lparr>bs_authority = authority, bs_signature = sig, bs_public_key = public_key, bs_timestamp = timestamp\<rparr>))))"

definition signatures_from_json :: "'m libs_scheme \<Rightarrow> json \<Rightarrow> bridge_signature list" where
  "signatures_from_json L v =
     (case Option.bind (json_get ''signatures'' v) as_array of
        None \<Rightarrow> []
      | Some sigs \<Rightarrow> List.map_filter (parse_bridge_signature_json L) sigs)"

definition proposal_with_signatures_from_json :: "'m libs_scheme \<Rightarrow> json \<Rightarrow> bridge_proposal option" where
  "proposal_with_signatures_from_json L v =
     map_option (\<lambda>p. p\<lparr>bp_signatures := signatures_from_json L v\<rparr>) (unsigned_proposal_from_json L v)"

definition already_signed_by :: "json \<Rightarrow> address \<Rightarrow> bool" where
  "already_signed_by v authority_address =
     (case Option.bind (json_get ''signatures'' v) as_array of
        None \<Rightarrow> False
      | Some sigs \<Rightarrow> list_ex (\<lambda>s. case get_str ''authority'' s of
            None \<Rightarrow> False
          | Some a \<Rightarrow> to_ascii_lowercase a = to_ascii_lowercase authority_address) sigs)"

end
