(* ===== verification/RelayStore.thy ===== *)
theory RelayStore
  imports RelayClient
begin

text \<open>
  The relayer's store (\<open>crates/zagros-relayer/src/store.rs\<close>) over the \<open>Storage\<close> trait: the marks of what has been
  handled, the queue of retries with its dead letters, and the two cursors. The trait is a record of operations,
  each of which may fail; keys are text. bincode is the record \<open>relay_codec\<close>, the clock and the random part of a
  delay are arguments.
\<close>

section \<open>Storage\<close>

record 's storage =
  sg_get :: "string \<Rightarrow> ('s, bytes option) action"
  sg_put :: "string \<Rightarrow> bytes \<Rightarrow> ('s, unit) action"
  sg_delete :: "string \<Rightarrow> ('s, unit) action"
  sg_contains :: "string \<Rightarrow> ('s, bool) action"
  sg_list_keys :: "('s, string list) action"

definition IDEM_ETH_PREFIX :: string where
  "IDEM_ETH_PREFIX = ''idem:eth:''"

definition IDEM_ZAGROS_BURN_PREFIX :: string where
  "IDEM_ZAGROS_BURN_PREFIX = ''idem:zagros_burn:''"

definition IDEM_UNLOCK_SUBMITTED_PREFIX :: string where
  "IDEM_UNLOCK_SUBMITTED_PREFIX = ''idem:unlock_submitted:''"

definition RETRY_PREFIX :: string where
  "RETRY_PREFIX = ''retry:''"

definition DEAD_LETTER_PREFIX :: string where
  "DEAD_LETTER_PREFIX = ''deadletter:''"

definition OUTBOUND_CURSOR_KEY :: string where
  "OUTBOUND_CURSOR_KEY = ''outbound_cursor''"

definition INBOUND_CURSOR_KEY :: string where
  "INBOUND_CURSOR_KEY = ''inbound_cursor''"

definition IDEM_MIGRATION_KEY :: string where
  "IDEM_MIGRATION_KEY = ''__MIGRATION_IdempotencyMarkerBackfill__''"

definition RETRY_BASE_DELAY_SECS :: nat where
  "RETRY_BASE_DELAY_SECS = 5"

definition RETRY_MAX_DELAY_SECS :: nat where
  "RETRY_MAX_DELAY_SECS = 3600"

definition MAX_RETRY_ATTEMPTS :: nat where
  "MAX_RETRY_ATTEMPTS = 10"

record retry_entry =
  re_id :: string
  re_attempt :: nat
  re_next_attempt_at :: nat
  re_payload :: bytes

datatype retry_outcome = Rescheduled | DeadLettered

record idempotency_marker =
  im_created_at :: nat
  im_payload :: bytes

text \<open>bincode: \<open>None\<close> is its error; the source turns a failed encoding into no bytes.\<close>

record relay_codec =
  rk_ser_marker :: "idempotency_marker \<Rightarrow> bytes option"
  rk_de_marker :: "bytes \<Rightarrow> idempotency_marker option"
  rk_ser_retry :: "retry_entry \<Rightarrow> bytes option"
  rk_de_retry :: "bytes \<Rightarrow> retry_entry option"
  rk_ser_u128 :: "nat \<Rightarrow> bytes option"
  rk_de_u128 :: "bytes \<Rightarrow> nat option"
  rk_ser_u64 :: "nat \<Rightarrow> bytes option"
  rk_de_u64 :: "bytes \<Rightarrow> nat option"

definition or_no_bytes :: "bytes option \<Rightarrow> bytes" where
  "or_no_bytes b = (case b of None \<Rightarrow> [] | Some bs \<Rightarrow> bs)"

section \<open>Marks\<close>

definition put_marker :: "relay_codec \<Rightarrow> 's storage \<Rightarrow> nat \<Rightarrow> string \<Rightarrow> bytes \<Rightarrow> ('s, unit) action" where
  "put_marker K G now key payload =
     sg_put G key (or_no_bytes (rk_ser_marker K \<lparr>im_created_at = now, im_payload = payload\<rparr>))"

definition eth_key :: "string \<Rightarrow> string" where
  "eth_key eth_tx_hash = IDEM_ETH_PREFIX @ to_ascii_lowercase eth_tx_hash"

definition burn_key :: "'m libs_scheme \<Rightarrow> hash \<Rightarrow> string" where
  "burn_key L burn_tx_id = IDEM_ZAGROS_BURN_PREFIX @ lb_hex L burn_tx_id"

definition unlock_key :: "string \<Rightarrow> string" where
  "unlock_key proposal_id_hex = IDEM_UNLOCK_SUBMITTED_PREFIX @ to_ascii_lowercase (trim_0x proposal_id_hex)"

definition is_ethereum_deposit_handled :: "'s storage \<Rightarrow> string \<Rightarrow> ('s, bool) action" where
  "is_ethereum_deposit_handled G eth_tx_hash = sg_contains G (eth_key eth_tx_hash)"

definition mark_ethereum_deposit_handled ::
  "relay_codec \<Rightarrow> 's storage \<Rightarrow> nat \<Rightarrow> string \<Rightarrow> hash \<Rightarrow> ('s, unit) action" where
  "mark_ethereum_deposit_handled K G now eth_tx_hash proposal_id = put_marker K G now (eth_key eth_tx_hash) proposal_id"

definition is_zagros_burn_handled :: "'m libs_scheme \<Rightarrow> 's storage \<Rightarrow> hash \<Rightarrow> ('s, bool) action" where
  "is_zagros_burn_handled L G burn_tx_id = sg_contains G (burn_key L burn_tx_id)"

definition mark_zagros_burn_handled ::
  "'m libs_scheme \<Rightarrow> relay_codec \<Rightarrow> 's storage \<Rightarrow> nat \<Rightarrow> hash \<Rightarrow> ('s, unit) action" where
  "mark_zagros_burn_handled L K G now burn_tx_id = put_marker K G now (burn_key L burn_tx_id) []"

definition is_unlock_submitted :: "'s storage \<Rightarrow> string \<Rightarrow> ('s, bool) action" where
  "is_unlock_submitted G proposal_id_hex = sg_contains G (unlock_key proposal_id_hex)"

definition mark_unlock_submitted :: "relay_codec \<Rightarrow> 's storage \<Rightarrow> nat \<Rightarrow> string \<Rightarrow> ('s, unit) action" where
  "mark_unlock_submitted K G now proposal_id_hex = put_marker K G now (unlock_key proposal_id_hex) []"

definition is_idempotency_key :: "string \<Rightarrow> bool" where
  "is_idempotency_key key \<longleftrightarrow> starts_with key IDEM_ETH_PREFIX \<or> starts_with key IDEM_ZAGROS_BURN_PREFIX \<or>
     starts_with key IDEM_UNLOCK_SUBMITTED_PREFIX"

fun prune_keys :: "relay_codec \<Rightarrow> 's storage \<Rightarrow> nat \<Rightarrow> nat \<Rightarrow> string list \<Rightarrow> ('s, nat) action" where
  "prune_keys K G now retention_secs [] = give 0"
| "prune_keys K G now retention_secs (key # ks) =
     (if \<not> is_idempotency_key key then prune_keys K G now retention_secs ks
      else andthen (sg_get G key) (\<lambda>found.
        case Option.bind found (rk_de_marker K) of
          None \<Rightarrow> prune_keys K G now retention_secs ks
        | Some m \<Rightarrow>
            if retention_secs < now - im_created_at m
            then andthen (sg_delete G key) (\<lambda>_.
                 andthen (prune_keys K G now retention_secs ks) (\<lambda>n. give (n + 1)))
            else prune_keys K G now retention_secs ks))"

definition prune_expired_idempotency_markers :: "relay_codec \<Rightarrow> 's storage \<Rightarrow> nat \<Rightarrow> nat \<Rightarrow> ('s, nat) action" where
  "prune_expired_idempotency_markers K G now retention_secs =
     andthen (sg_list_keys G) (prune_keys K G now retention_secs)"

fun migrate_keys :: "relay_codec \<Rightarrow> 's storage \<Rightarrow> nat \<Rightarrow> string list \<Rightarrow> ('s, nat) action" where
  "migrate_keys K G now [] = give 0"
| "migrate_keys K G now (key # ks) =
     (if \<not> is_idempotency_key key then migrate_keys K G now ks
      else andthen (sg_get G key) (\<lambda>found.
        case found of
          None \<Rightarrow> migrate_keys K G now ks
        | Some bytes \<Rightarrow>
            if rk_de_marker K bytes \<noteq> None then migrate_keys K G now ks
            else andthen (put_marker K G now key bytes) (\<lambda>_.
                 andthen (migrate_keys K G now ks) (\<lambda>n. give (n + 1)))))"

definition migrate_legacy_idempotency_markers :: "relay_codec \<Rightarrow> 's storage \<Rightarrow> nat \<Rightarrow> ('s, nat) action" where
  "migrate_legacy_idempotency_markers K G now =
     andthen (sg_contains G IDEM_MIGRATION_KEY) (\<lambda>migrated.
       if migrated then give 0
       else andthen (sg_list_keys G) (\<lambda>ks.
            andthen (migrate_keys K G now ks) (\<lambda>n.
            andthen (sg_put G IDEM_MIGRATION_KEY [1]) (\<lambda>_. give n))))"

section \<open>Retries\<close>

definition retry_key :: "string \<Rightarrow> string" where
  "retry_key i = RETRY_PREFIX @ i"

definition dead_letter_key :: "string \<Rightarrow> string" where
  "dead_letter_key i = DEAD_LETTER_PREFIX @ i"

definition save_retry :: "relay_codec \<Rightarrow> 's storage \<Rightarrow> retry_entry \<Rightarrow> ('s, unit) action" where
  "save_retry K G entry = sg_put G (retry_key (re_id entry)) (or_no_bytes (rk_ser_retry K entry))"

definition enqueue_retry :: "relay_codec \<Rightarrow> 's storage \<Rightarrow> string \<Rightarrow> bytes \<Rightarrow> nat \<Rightarrow> ('s, unit) action" where
  "enqueue_retry K G i payload now =
     save_retry K G \<lparr>re_id = i, re_attempt = 0, re_next_attempt_at = now, re_payload = payload\<rparr>"

text \<open>The entries stored under the keys of a prefix that can be read and pass a test.\<close>

fun entries_under :: "relay_codec \<Rightarrow> 's storage \<Rightarrow> string \<Rightarrow> (retry_entry \<Rightarrow> bool) \<Rightarrow> string list \<Rightarrow> ('s, retry_entry list) action" where
  "entries_under K G pre test [] = give []"
| "entries_under K G pre test (key # ks) =
     (if \<not> starts_with key pre then entries_under K G pre test ks
      else andthen (sg_get G key) (\<lambda>found.
           andthen (entries_under K G pre test ks) (\<lambda>entries.
             give (case Option.bind found (rk_de_retry K) of
                 None \<Rightarrow> entries
               | Some e \<Rightarrow> if test e then e # entries else entries))))"

definition due_retries :: "relay_codec \<Rightarrow> 's storage \<Rightarrow> nat \<Rightarrow> ('s, retry_entry list) action" where
  "due_retries K G now =
     andthen (sg_list_keys G) (entries_under K G RETRY_PREFIX (\<lambda>e. re_next_attempt_at e \<le> now))"

definition list_dead_letters :: "relay_codec \<Rightarrow> 's storage \<Rightarrow> ('s, retry_entry list) action" where
  "list_dead_letters K G = andthen (sg_list_keys G) (entries_under K G DEAD_LETTER_PREFIX (\<lambda>_. True))"

definition remove_retry :: "'s storage \<Rightarrow> string \<Rightarrow> ('s, unit) action" where
  "remove_retry G i = sg_delete G (retry_key i)"

definition move_to_dead_letter :: "relay_codec \<Rightarrow> 's storage \<Rightarrow> retry_entry \<Rightarrow> ('s, unit) action" where
  "move_to_dead_letter K G entry =
     andthen (sg_put G (dead_letter_key (re_id entry)) (or_no_bytes (rk_ser_retry K entry))) (\<lambda>_.
       sg_delete G (retry_key (re_id entry)))"

definition base_delay :: "nat \<Rightarrow> nat" where
  "base_delay next_attempt =
     min (sat_mul u64_max RETRY_BASE_DELAY_SECS (if next_attempt < 64 then 2 ^ next_attempt else u64_max)) RETRY_MAX_DELAY_SECS"

text \<open>\<open>jitter\<close> is the number drawn from \<open>-range..=range\<close> with \<open>range = max(base / 5, 1)\<close>.\<close>

definition jitter_range :: "nat \<Rightarrow> nat" where
  "jitter_range base = max (base div 5) 1"

definition retry_delay :: "nat \<Rightarrow> int \<Rightarrow> nat" where
  "retry_delay next_attempt jitter = nat (max (int (base_delay next_attempt) + jitter) (int RETRY_BASE_DELAY_SECS))"

definition reschedule_retry :: "relay_codec \<Rightarrow> 's storage \<Rightarrow> int \<Rightarrow> retry_entry \<Rightarrow> nat \<Rightarrow> ('s, retry_outcome) action" where
  "reschedule_retry K G jitter entry now =
     (let next_attempt = re_attempt entry + 1
      in if MAX_RETRY_ATTEMPTS \<le> next_attempt
         then andthen (move_to_dead_letter K G entry) (\<lambda>_. give DeadLettered)
         else andthen (save_retry K G (entry\<lparr>re_attempt := next_attempt,
                re_next_attempt_at := now + retry_delay next_attempt jitter\<rparr>)) (\<lambda>_. give Rescheduled))"

section \<open>Cursors\<close>

definition get_outbound_cursor :: "relay_codec \<Rightarrow> 's storage \<Rightarrow> ('s, nat) action" where
  "get_outbound_cursor K G =
     andthen (sg_get G OUTBOUND_CURSOR_KEY) (\<lambda>found.
       give (case Option.bind found (rk_de_u128 K) of None \<Rightarrow> 0 | Some c \<Rightarrow> c))"

definition set_outbound_cursor :: "relay_codec \<Rightarrow> 's storage \<Rightarrow> nat \<Rightarrow> ('s, unit) action" where
  "set_outbound_cursor K G cursor = sg_put G OUTBOUND_CURSOR_KEY (or_no_bytes (rk_ser_u128 K cursor))"

definition get_inbound_cursor :: "relay_codec \<Rightarrow> 's storage \<Rightarrow> ('s, nat option) action" where
  "get_inbound_cursor K G =
     andthen (sg_get G INBOUND_CURSOR_KEY) (\<lambda>found. give (Option.bind found (rk_de_u64 K)))"

definition set_inbound_cursor :: "relay_codec \<Rightarrow> 's storage \<Rightarrow> nat \<Rightarrow> ('s, unit) action" where
  "set_inbound_cursor K G cursor = sg_put G INBOUND_CURSOR_KEY (or_no_bytes (rk_ser_u64 K cursor))"

end
