(* ===== verification/Inbound.thy ===== *)
theory Inbound
  imports RelayStore
begin

text \<open>
  The relayer's way in: deposits on Ethereum become mint proposals (\<open>crates/zagros-relayer/src/inbound.rs\<close>,
  \<open>ethereum_watcher.rs\<close>). The Ethereum node is a record of its three answers, the reading of an event's
  parameters (ethers-abi) an argument. Waiting, log lines and the cancelling of a turn are left out; a turn reads
  the clock once, and texts of errors that only reach the log are cut to their fixed part.
\<close>

section \<open>Watching Ethereum\<close>

datatype abi_token = AbiAddress bytes | AbiUint nat | AbiBool bool

record eth_log =
  el_topics :: "bytes list"
  el_data :: bytes
  el_transaction_hash :: "bytes option"
  el_block_number :: "nat option"

record tokens_locked_event =
  tl_sender :: bytes
  tl_token :: bytes
  tl_amount :: nat
  tl_auto_swap :: bool
  tl_min_amount_out :: nat
  tl_deposit_timestamp :: nat
  tl_eth_tx_hash :: bytes
  tl_block_number :: nat

definition into_address :: "abi_token \<Rightarrow> bytes option" where
  "into_address t = (case t of AbiAddress a \<Rightarrow> Some a | _ \<Rightarrow> None)"

definition into_uint :: "abi_token \<Rightarrow> nat option" where
  "into_uint t = (case t of AbiUint n \<Rightarrow> Some n | _ \<Rightarrow> None)"

definition into_bool :: "abi_token \<Rightarrow> bool option" where
  "into_bool t = (case t of AbiBool b \<Rightarrow> Some b | _ \<Rightarrow> None)"

type_synonym log_parser = "bytes list \<Rightarrow> bytes \<Rightarrow> (string \<times> abi_token) list option"

definition decode_tokens_locked :: "log_parser \<Rightarrow> eth_log \<Rightarrow> tokens_locked_event option" where
  "decode_tokens_locked parse l =
     Option.bind (parse (el_topics l) (el_data l)) (\<lambda>params.
     Option.bind (Option.bind (map_of params ''sender'') into_address) (\<lambda>sender.
     Option.bind (Option.bind (map_of params ''token'') into_address) (\<lambda>token.
     Option.bind (Option.bind (map_of params ''amount'') into_uint) (\<lambda>amount.
     Option.bind (Option.bind (map_of params ''autoSwapToZagros'') into_bool) (\<lambda>auto_swap.
     Option.bind (Option.bind (map_of params ''minAmountOut'') into_uint) (\<lambda>min_amount_out.
     Option.bind (Option.bind (map_of params ''timestamp'') into_uint) (\<lambda>deposit_timestamp.
     Option.bind (el_transaction_hash l) (\<lambda>tx_hash.
     Option.bind (el_block_number l) (\<lambda>block_number.
       Some \<lparr>tl_sender = sender, tl_token = token, tl_amount = amount, tl_auto_swap = auto_swap,
         tl_min_amount_out = min_amount_out, tl_deposit_timestamp = deposit_timestamp,
         tl_eth_tx_hash = tx_hash, tl_block_number = block_number\<rparr>)))))))))"

definition is_confirmed :: "nat \<Rightarrow> nat \<Rightarrow> nat \<Rightarrow> bool" where
  "is_confirmed event_block latest_block confirmation_depth \<longleftrightarrow> confirmation_depth \<le> latest_block - event_block"

definition next_backoff :: "nat \<Rightarrow> nat \<Rightarrow> nat" where
  "next_backoff current mx = min (current * 2) mx"

record scan_params =
  sc_confirmation_depth :: nat
  sc_reorg_buffer :: nat
  sc_start_block :: nat
  sc_max_range :: nat

definition catch_up_range :: "nat option \<Rightarrow> nat \<Rightarrow> scan_params \<Rightarrow> (nat \<times> nat) option" where
  "catch_up_range last_processed latest_block params =
     (if latest_block < sc_confirmation_depth params then None
      else let confirmed_tip = latest_block - sc_confirmation_depth params;
               first = (case last_processed of
                  Some l \<Rightarrow> sat_add u64_max l 1 - sc_reorg_buffer params
                | None \<Rightarrow> sc_start_block params);
               span = max (sc_max_range params) 1
           in if confirmed_tip < first then None
              else Some (first, min confirmed_tip (sat_add u64_max first (span - 1))))"

definition confirmed_events :: "log_parser \<Rightarrow> eth_log list \<Rightarrow> nat \<Rightarrow> nat \<Rightarrow> tokens_locked_event list" where
  "confirmed_events parse logs latest_block confirmation_depth =
     filter (\<lambda>ev. is_confirmed (tl_block_number ev) latest_block confirmation_depth)
       (List.map_filter (decode_tokens_locked parse) logs)"

record 's eth_log_source =
  es_latest_block_number :: "('s, string, nat) proc"
  es_tokens_locked_logs :: "nat \<Rightarrow> nat \<Rightarrow> ('s, string, eth_log list) proc"
  es_transaction_receipt_logs :: "bytes \<Rightarrow> ('s, string, eth_log list option) proc"

section \<open>A deposit becomes a proposal\<close>

record 's inbound_relayer =
  ir_client :: "'s zagros_client"
  ir_store :: "'s storage"
  ir_me :: relay_identity
  ir_chain_id :: nat
  ir_source_chain_name :: string
  ir_token_decimals :: nat

text \<open>\<open>U256::as_u128\<close> panics above the range.\<close>

definition as_u128_or_panic :: "nat \<Rightarrow> ('s, 'e, nat) proc" where
  "as_u128_or_panic n = (if n \<le> u128_max then finish n else panic)"

definition hex_text :: "'m libs_scheme \<Rightarrow> bytes \<Rightarrow> string" where
  "hex_text L bs = ''0x'' @ lb_hex L bs"

definition sign_proposal_by_id ::
  "'m libs_scheme \<Rightarrow> 's inbound_relayer \<Rightarrow> string \<Rightarrow> nat \<Rightarrow> ('s, client_error, bool) proc" where
  "sign_proposal_by_id L R proposal_id_hex now =
     bind_proc (get_bridge_proposal (ir_client R) proposal_id_hex) (\<lambda>v.
       case signing_message_from_json L v (ir_chain_id R) of
         None \<Rightarrow> raise_error (UnexpectedShape (''cannot reconstruct signing message from '' @ ck_debug (ir_client R) v))
       | Some message \<Rightarrow> sign_bridge_proposal L (ir_client R) (ir_me R) proposal_id_hex message now)"

definition deposit_request :: "'m libs_scheme \<Rightarrow> 's inbound_relayer \<Rightarrow> tokens_locked_event \<Rightarrow> nat \<Rightarrow> nat \<Rightarrow> nat \<Rightarrow> proposal_request" where
  "deposit_request L R event amount min_out now =
     \<lparr>rq_tx_type = Mint, rq_amount = amount, rq_recipient = hex_text L (tl_sender event),
      rq_source_chain = ir_source_chain_name R, rq_source_tx_hash = hex_text L (tl_eth_tx_hash event),
      rq_timestamp = now, rq_auto_swap = tl_auto_swap event, rq_amount_out_min = min_out\<rparr>"

definition propose_deposit ::
  "'m libs_scheme \<Rightarrow> relay_codec \<Rightarrow> 's inbound_relayer \<Rightarrow> tokens_locked_event \<Rightarrow> nat \<Rightarrow> nat \<Rightarrow>
   ('s, client_error, string) proc" where
  "propose_deposit L K R event amount now =
     bind_proc (as_u128_or_panic (tl_min_amount_out event)) (\<lambda>min_out.
     bind_proc (propose_bridge_action L (ir_client R) (ir_me R) (deposit_request L R event amount min_out now) (ir_chain_id R))
       (\<lambda>proposal_id.
         case decode_hash L proposal_id of
           None \<Rightarrow> raise_error (UnexpectedShape (''bad proposal_id: '' @ proposal_id))
         | Some pid \<Rightarrow>
             bind_proc (stored (mark_ethereum_deposit_handled K (ir_store R) now (hex_text L (tl_eth_tx_hash event)) pid))
               (\<lambda>marked. case marked of
                  Inl e \<Rightarrow> raise_error (Transport ''store'')
                | Inr u \<Rightarrow> bind_proc (sign_proposal_by_id L R proposal_id now) (\<lambda>_. finish proposal_id))))"

definition handle_confirmed_deposit ::
  "'m libs_scheme \<Rightarrow> relay_codec \<Rightarrow> 's inbound_relayer \<Rightarrow> tokens_locked_event \<Rightarrow> nat \<Rightarrow>
   ('s, client_error, string option) proc" where
  "handle_confirmed_deposit L K R event now =
     (let eth_tx_hash = hex_text L (tl_eth_tx_hash event)
      in bind_proc (stored (is_ethereum_deposit_handled (ir_store R) eth_tx_hash)) (\<lambda>known.
           if known = Inr True then finish None
           else bind_proc (as_u128_or_panic (tl_amount event)) (\<lambda>raw_amount.
             case scale_token_to_zerenya raw_amount (ir_token_decimals R) of
               None \<Rightarrow> raise_error (UnexpectedShape (''yatirma tutari olceklenemedi (tutar='' @ show_nat raw_amount @
                 '' ham, ondalik='' @ show_nat (ir_token_decimals R) @ '') tx='' @ eth_tx_hash))
             | Some amount \<Rightarrow>
                 bind_proc (propose_deposit L K R event amount now) (\<lambda>pid. finish (Some pid)))))"

section \<open>The proposals of others\<close>

definition first_tokens_locked :: "log_parser \<Rightarrow> eth_log list \<Rightarrow> tokens_locked_event option" where
  "first_tokens_locked parse logs =
     (case List.map_filter (decode_tokens_locked parse) logs of [] \<Rightarrow> None | ev # _ \<Rightarrow> Some ev)"

text \<open>The fields of a proposal against the event: recipient, amount, the wish to swap and the least result.\<close>

definition check_mint_fields :: "'m libs_scheme \<Rightarrow> nat \<Rightarrow> json \<Rightarrow> tokens_locked_event \<Rightarrow> ('s, string, unit) proc" where
  "check_mint_fields L token_decimals v event =
     (if to_ascii_lowercase (case get_str ''recipient'' v of None \<Rightarrow> '''' | Some r \<Rightarrow> r) \<noteq>
         to_ascii_lowercase (hex_text L (tl_sender event))
      then raise_error ''recipient uyusmuyor''
      else bind_proc (as_u128_or_panic (tl_amount event)) (\<lambda>raw.
        case scale_token_to_zerenya raw token_decimals of
          None \<Rightarrow> raise_error ''zincirdeki tutar olceklenemedi''
        | Some expected \<Rightarrow>
            (case get_uint u128_max ''amount'' v of
               None \<Rightarrow> raise_error ''proposal da amount yok''
             | Some actual \<Rightarrow>
                 if actual \<noteq> expected then raise_error ''amount uyusmuyor''
                 else if (get_bool ''auto_swap'' v = Some True) \<noteq> tl_auto_swap event then raise_error ''auto_swap uyusmuyor''
                 else bind_proc (as_u128_or_panic (tl_min_amount_out event)) (\<lambda>expected_min.
                   if uint_or_zero (get_uint u128_max ''amount_out_min'' v) \<noteq> expected_min
                   then raise_error ''amount_out_min uyusmuyor'' else finish ()))))"

definition verify_mint_proposal_against_ethereum ::
  "'m libs_scheme \<Rightarrow> log_parser \<Rightarrow> 's inbound_relayer \<Rightarrow> 's eth_log_source \<Rightarrow> json \<Rightarrow> nat \<Rightarrow> ('s, string, unit) proc" where
  "verify_mint_proposal_against_ethereum L parse R S v confirmation_depth =
     (case get_str ''source_tx_hash'' v of
        None \<Rightarrow> raise_error ''proposal da source_tx_hash yok''
      | Some source_tx_hash \<Rightarrow>
          (case decode_hash L source_tx_hash of
             None \<Rightarrow> raise_error ''gecersiz source_tx_hash formati''
           | Some tx_hash \<Rightarrow>
               bind_proc (es_transaction_receipt_logs S tx_hash) (\<lambda>logs.
                 case Option.bind logs (first_tokens_locked parse) of
                   None \<Rightarrow> raise_error (if logs = None then ''islem Ethereum da bulunamadi'' else ''islemde gecerli bir TokensLocked olayi yok'')
                 | Some event \<Rightarrow>
                     bind_proc (es_latest_block_number S) (\<lambda>latest.
                       if \<not> is_confirmed (tl_block_number event) latest confirmation_depth
                       then raise_error ''onay derinligi yetersiz''
                       else check_mint_fields L (ir_token_decimals R) v event))))"

text \<open>One proposal of the list, and whether it got a new signature.\<close>

definition text_contains :: "string \<Rightarrow> string \<Rightarrow> bool" where
  "text_contains hay needle \<longleftrightarrow>
     list_ex (\<lambda>i. take (length needle) (drop i hay) = needle) [0..<length hay + 1]"

definition cosign_mint ::
  "'m libs_scheme \<Rightarrow> log_parser \<Rightarrow> 's inbound_relayer \<Rightarrow> 's eth_log_source \<Rightarrow> nat \<Rightarrow> nat \<Rightarrow> json \<Rightarrow> ('s, string, bool) proc" where
  "cosign_mint L parse R S confirmation_depth now v =
     (if get_str ''tx_type'' v \<noteq> Some ''mint'' then finish False
      else case get_str ''proposal_id'' v of
          None \<Rightarrow> finish False
        | Some proposal_id \<Rightarrow>
            (case signing_message_from_json L v (ir_chain_id R) of
               None \<Rightarrow> finish False
             | Some message \<Rightarrow>
                 if already_signed_by v (ri_authority_address (ir_me R)) then finish False
                 else bind_proc (outcome_of (verify_mint_proposal_against_ethereum L parse R S v confirmation_depth)) (\<lambda>verified.
                   case verified of
                     Inl e \<Rightarrow> finish False
                   | Inr u \<Rightarrow>
                       bind_proc (outcome_of (sign_bridge_proposal L (ir_client R) (ir_me R) proposal_id message now)) (\<lambda>signed_it.
                         finish (case signed_it of Inl e \<Rightarrow> False | Inr b \<Rightarrow> True)))))"

fun cosign_mints ::
  "'m libs_scheme \<Rightarrow> log_parser \<Rightarrow> 's inbound_relayer \<Rightarrow> 's eth_log_source \<Rightarrow> nat \<Rightarrow> nat \<Rightarrow> json list \<Rightarrow> ('s, string, nat) proc" where
  "cosign_mints L parse R S confirmation_depth now [] = finish 0"
| "cosign_mints L parse R S confirmation_depth now (v # vs) =
     bind_proc (cosign_mint L parse R S confirmation_depth now v) (\<lambda>newly.
     bind_proc (cosign_mints L parse R S confirmation_depth now vs) (\<lambda>n. finish (if newly then n + 1 else n)))"

definition discover_and_cosign_pending_mints ::
  "'m libs_scheme \<Rightarrow> log_parser \<Rightarrow> 's inbound_relayer \<Rightarrow> 's eth_log_source \<Rightarrow> nat \<Rightarrow> nat \<Rightarrow> ('s, string, nat) proc" where
  "discover_and_cosign_pending_mints L parse R S confirmation_depth now =
     bind_proc (outcome_of (get_pending_bridge_proposals (ir_client R))) (\<lambda>pending.
       case pending of Inl e \<Rightarrow> finish 0 | Inr vs \<Rightarrow> cosign_mints L parse R S confirmation_depth now vs)"

section \<open>Scanning\<close>

text \<open>What became of a deposit; an answer that it is known counts as handled.\<close>

datatype deposit_outcome = Proposed | Known | Refused

definition says_known :: "client_error \<Rightarrow> bool" where
  "says_known e \<longleftrightarrow> text_contains (client_error_text e) ''zaten yurutuldu'' \<or> text_contains (client_error_text e) ''already exists''"

definition scan_deposit ::
  "'m libs_scheme \<Rightarrow> relay_codec \<Rightarrow> 's inbound_relayer \<Rightarrow> nat \<Rightarrow> tokens_locked_event \<Rightarrow> ('s, 'e, deposit_outcome) proc" where
  "scan_deposit L K R now event =
     bind_proc (outcome_of (handle_confirmed_deposit L K R event now)) (\<lambda>handled.
       case handled of
         Inr (Some pid) \<Rightarrow> finish Proposed
       | Inr None \<Rightarrow> finish Known
       | Inl e \<Rightarrow>
           if says_known e
           then bind_proc (stored (mark_ethereum_deposit_handled K (ir_store R) now (hex_text L (tl_eth_tx_hash event)) (replicate 32 0)))
                  (\<lambda>_. finish Known)
           else finish Refused)"

fun scan_deposits ::
  "'m libs_scheme \<Rightarrow> relay_codec \<Rightarrow> 's inbound_relayer \<Rightarrow> nat \<Rightarrow> tokens_locked_event list \<Rightarrow> ('s, 'e, deposit_outcome list) proc" where
  "scan_deposits L K R now [] = finish []"
| "scan_deposits L K R now (event # events) =
     bind_proc (scan_deposit L K R now event) (\<lambda>r.
     bind_proc (scan_deposits L K R now events) (\<lambda>rs. finish (r # rs)))"

definition MAX_CHUNKS_PER_TURN :: nat where
  "MAX_CHUNKS_PER_TURN = 200"

text \<open>
  The scanner's state is the world, the cursor, and the list of the windows the cursor has passed: a record for
  the properties, which nothing reads.
\<close>

record window =
  wn_first :: nat
  wn_end :: nat
  wn_latest :: nat
  wn_logs :: "eth_log list"
  wn_outcomes :: "deposit_outcome list"

type_synonym 's scanner = "'s \<times> nat option \<times> window list"

definition in_world :: "('s, 'e, 'a) proc \<Rightarrow> ('s scanner, 'e, 'a) proc" where
  "in_world m sc = (case m (fst sc) of (r, s') \<Rightarrow> (r, s', snd sc))"

definition the_cursor :: "('s scanner, 'e, nat option) proc" where
  "the_cursor sc = (Inr (fst (snd sc)), sc)"

definition pass_window :: "window \<Rightarrow> ('s scanner, 'e, unit) proc" where
  "pass_window w sc = (Inr (), fst sc, Some (wn_end w), snd (snd sc) @ [w])"

fun pump_chunks ::
  "'m libs_scheme \<Rightarrow> relay_codec \<Rightarrow> log_parser \<Rightarrow> 's inbound_relayer \<Rightarrow> 's eth_log_source \<Rightarrow> scan_params \<Rightarrow> nat \<Rightarrow> nat \<Rightarrow>
   nat \<Rightarrow> nat \<Rightarrow> ('s scanner, string, nat) proc" where
  "pump_chunks L K parse R S params now latest 0 handled = finish handled"
| "pump_chunks L K parse R S params now latest (Suc n) handled =
     bind_proc the_cursor (\<lambda>cursor.
       case catch_up_range cursor latest params of
         None \<Rightarrow> finish handled
       | Some (first, until) \<Rightarrow>
           bind_proc (in_world (es_tokens_locked_logs S first until)) (\<lambda>logs.
           bind_proc (in_world (scan_deposits L K R now (confirmed_events parse logs latest (sc_confirmation_depth params)))) (\<lambda>outcomes.
             let handled' = handled + length (filter (\<lambda>r. r = Proposed) outcomes)
             in if Refused \<in> set outcomes then finish handled'
                else bind_proc (pass_window \<lparr>wn_first = first, wn_end = until, wn_latest = latest, wn_logs = logs, wn_outcomes = outcomes\<rparr>) (\<lambda>_.
                     if cursor = Some until then finish handled'
                     else pump_chunks L K parse R S params now latest n handled'))))"

definition pump_once ::
  "'m libs_scheme \<Rightarrow> relay_codec \<Rightarrow> log_parser \<Rightarrow> 's inbound_relayer \<Rightarrow> 's eth_log_source \<Rightarrow> scan_params \<Rightarrow> nat \<Rightarrow>
   ('s scanner, string, nat) proc" where
  "pump_once L K parse R S params now =
     bind_proc (in_world (es_latest_block_number S)) (\<lambda>latest.
       pump_chunks L K parse R S params now latest MAX_CHUNKS_PER_TURN 0)"

text \<open>One turn of the loop: scan, keep the cursor, sign the proposals of others. An error ends the turn.\<close>

definition keep_cursor :: "relay_codec \<Rightarrow> 's inbound_relayer \<Rightarrow> nat option \<Rightarrow> ('s, 'e, unit) proc" where
  "keep_cursor K R cursor =
     (case cursor of
        None \<Rightarrow> finish ()
      | Some c \<Rightarrow> bind_proc (stored (set_inbound_cursor K (ir_store R) c)) (\<lambda>_. finish ()))"

definition event_turn ::
  "'m libs_scheme \<Rightarrow> relay_codec \<Rightarrow> log_parser \<Rightarrow> 's inbound_relayer \<Rightarrow> 's eth_log_source \<Rightarrow> scan_params \<Rightarrow> nat \<Rightarrow>
   ('s scanner, string, unit) proc" where
  "event_turn L K parse R S params now =
     bind_proc (outcome_of (pump_once L K parse R S params now)) (\<lambda>pumped.
       case pumped of
         Inl e \<Rightarrow> finish ()
       | Inr n \<Rightarrow>
           bind_proc the_cursor (\<lambda>cursor.
           bind_proc (in_world (keep_cursor K R cursor)) (\<lambda>_.
           bind_proc (in_world (discover_and_cosign_pending_mints L parse R S (sc_confirmation_depth params) now)) (\<lambda>_.
             finish ()))))"

definition first_cursor :: "relay_codec \<Rightarrow> 's inbound_relayer \<Rightarrow> bool \<Rightarrow> ('s, 'e, nat option) proc" where
  "first_cursor K R reset_cursor =
     (if reset_cursor then finish None
      else bind_proc (stored (get_inbound_cursor K (ir_store R))) (\<lambda>found.
        finish (case found of Inl e \<Rightarrow> None | Inr cursor \<Rightarrow> cursor)))"

end
