(* ===== verification/RelaySamples.thy ===== *)
theory RelaySamples
  imports Inbound Samples
begin

text \<open>
  For the witnesses of the relayer: two letters for a byte; one answer to every request, and a node with one deposit at block 5
  of 20.
\<close>

definition letter_pair :: "8 word \<Rightarrow> string" where
  "letter_pair b = [char_of (65 + unat b div 16), char_of (65 + unat b mod 16)]"

fun letters_to_bytes :: "string \<Rightarrow> bytes option" where
  "letters_to_bytes [] = Some []"
| "letters_to_bytes [a] = None"
| "letters_to_bytes (a # b # s) =
     (if a = CHR ''x'' \<or> b = CHR ''x'' then None
      else map_option ((#) (of_nat ((of_char a - 65) * 16 + (of_char b - 65)))) (letters_to_bytes s))"

definition relay_libs :: native_libs where
  "relay_libs = sample_libs\<lparr>lb_hex := (\<lambda>bs. concat (map letter_pair bs)), lb_unhex := letters_to_bytes\<rparr>"

lemma char_not: "n < 120 \<Longrightarrow> CHR ''x'' \<noteq> char_of (n :: nat)"
proof
  assume n: "n < 120" "CHR ''x'' = char_of n"
  then have "of_char CHR ''x'' = n" by (simp add: of_char_of take_bit_eq_mod)
  then show False using n(1) by simp
qed

lemma letters_back: "letters_to_bytes (concat (map letter_pair bs)) = Some bs"
proof (induction bs)
  case (Cons b bs)
  have "unat b < 256" using unsigned_less [of b, where 'a = nat] by simp
  then have "65 + unat b div 16 < 120" "65 + unat b mod 16 < 120" "unat b < 256" by linarith+
  then have "letters_to_bytes (letter_pair b @ s) = map_option ((#) b) (letters_to_bytes s)" for s
    using char_not [symmetric, of "65 + unat b div 16"] char_not [symmetric, of "65 + unat b mod 16"]
    by (simp add: letter_pair_def of_char_of take_bit_eq_mod)
  then show ?case by (simp add: Cons.IH)
qed simp

lemma letters_strict: "letters_to_bytes s = Some b \<Longrightarrow> CHR ''x'' \<notin> set s"
  by (induction s arbitrary: b rule: letters_to_bytes.induct) (auto split: if_splits)

lemma letters_no_x: "CHR ''x'' \<notin> set (concat (map letter_pair bs))"
proof -
  have "CHR ''x'' \<notin> set (letter_pair b)" for b
  proof -
    have "unat b < 256" using unsigned_less [of b, where 'a = nat] by simp
    then have "65 + unat b div 16 < 120" "65 + unat b mod 16 < 120" by linarith+
    then show ?thesis using char_not by (auto simp: letter_pair_def)
  qed
  then show ?thesis by auto
qed

lemma trim_0x_none: "CHR ''x'' \<notin> set s \<Longrightarrow> trim_0x s = s"
  by (induction s rule: trim_0x.induct) auto

lemma decode_letters: "length bs = 32 \<Longrightarrow> decode_hash relay_libs (concat (map letter_pair bs)) = Some bs"
  using letters_no_x [of bs] by (simp add: decode_hash_def relay_libs_def trim_0x_none letters_back)

definition sample_id :: string where
  "sample_id = concat (map letter_pair (replicate 32 7))"

definition sample_source :: string where
  "sample_source = concat (map letter_pair (replicate 32 17))"

definition sample_mint :: json where
  "sample_mint = JObject [(''proposal_id'', JString sample_id), (''tx_type'', JString ''mint''),
     (''amount'', JString (show_nat 5)), (''recipient'', JString ''0xAB''), (''source_chain'', JString ''e''),
     (''source_tx_hash'', JString sample_source), (''timestamp'', JString (show_nat 7)), (''executed'', JBool False),
     (''nonce'', JString (show_nat 1)), (''auto_swap'', JBool True), (''amount_out_min'', JString (show_nat 0))]"

definition sample_post :: "json \<Rightarrow> 's \<Rightarrow> (string + json) \<times> 's" where
  "sample_post request s = (Inr (JObject [(''result'',
     if json_get ''method'' request = Some (JString ''zagros_getPendingBridgeProposals'')
     then JObject [(''proposals'', JArray [sample_mint])] else sample_mint)]), s)"

definition sample_client :: "'s zagros_client" where
  "sample_client = \<lparr>ck_post = sample_post, ck_debug = (\<lambda>_. ''json'')\<rparr>"

definition plain_storage :: "'s storage" where
  "plain_storage = \<lparr>sg_get = (\<lambda>k s. (Inr None, s)), sg_put = (\<lambda>k v s. (Inr (), s)), sg_delete = (\<lambda>k s. (Inr (), s)),
     sg_contains = (\<lambda>k s. (Inr False, s)), sg_list_keys = (\<lambda>s. (Inr [], s))\<rparr>"

definition sample_codec :: relay_codec where
  "sample_codec = \<lparr>rk_ser_marker = (\<lambda>_. Some []), rk_de_marker = (\<lambda>_. None), rk_ser_retry = (\<lambda>_. Some []),
     rk_de_retry = (\<lambda>_. None), rk_ser_u128 = (\<lambda>_. Some []), rk_de_u128 = (\<lambda>_. None), rk_ser_u64 = (\<lambda>_. Some []),
     rk_de_u64 = (\<lambda>_. None)\<rparr>"

definition sample_me :: relay_identity where
  "sample_me = \<lparr>ri_signing_key = [9], ri_authority_address = ''0x9''\<rparr>"

definition sample_relayer :: "'s zagros_client \<Rightarrow> 's inbound_relayer" where
  "sample_relayer C = \<lparr>ir_client = C, ir_store = plain_storage,
     ir_me = sample_me, ir_chain_id = 1, ir_source_chain_name = ''e'',
     ir_token_decimals = ZERENYA_DECIMALS\<rparr>"

definition sample_parse :: log_parser where
  "sample_parse topics data = Some [(''sender'', AbiAddress [1]), (''token'', AbiAddress [2]), (''amount'', AbiUint 5),
     (''autoSwapToZagros'', AbiBool True), (''minAmountOut'', AbiUint 0), (''timestamp'', AbiUint 3)]"

definition sample_log :: eth_log where
  "sample_log = \<lparr>el_topics = [], el_data = [], el_transaction_hash = Some (replicate 32 17), el_block_number = Some 5\<rparr>"

definition sample_eth :: "'s eth_log_source" where
  "sample_eth = \<lparr>es_latest_block_number = (\<lambda>s. (Inr 20, s)), es_tokens_locked_logs = (\<lambda>a b s. (Inr [sample_log], s)),
     es_transaction_receipt_logs = (\<lambda>h s. (Inr (Some [sample_log]), s))\<rparr>"

definition sample_scan :: scan_params where
  "sample_scan = \<lparr>sc_confirmation_depth = 12, sc_reorg_buffer = 6, sc_start_block = 0, sc_max_range = 100\<rparr>"

lemma sample_parts [simp]:
  "ir_client (sample_relayer C) = C" "ir_store (sample_relayer C) = plain_storage" "ir_me (sample_relayer C) = sample_me"
  "ir_chain_id (sample_relayer C) = 1"
  "ir_token_decimals (sample_relayer C) = ZERENYA_DECIMALS" "sg_put plain_storage k v s = (Inr (), s)"
  "sg_contains plain_storage k s = (Inr False, s)" "es_latest_block_number sample_eth s = (Inr 20, s)"
  "es_tokens_locked_logs sample_eth a b s = (Inr [sample_log], s)"
  "es_transaction_receipt_logs sample_eth h s = (Inr (Some [sample_log]), s)"
  by (simp_all add: sample_relayer_def plain_storage_def sample_eth_def)

lemma bind_value: "m s = (Inr x, s') \<Longrightarrow> bind_proc m k s = k x s'"
  by (simp add: bind_proc_def)

lemma bind_False: "m s = (Inr False, s') \<Longrightarrow> bind_proc m k s = k False s'"
  by (simp add: bind_proc_def)

lemmas bind_run = bind_value bind_False

lemma sample_answer:
  "name \<noteq> ''zagros_getPendingBridgeProposals'' \<Longrightarrow> client_call sample_client name ps s = (Inr sample_mint, s)"
  by (simp add: client_call_def sample_client_def sample_post_def read_answer_def json_get_def get_str_def finish_def
      sample_mint_def)

lemma sample_pending: "get_pending_bridge_proposals sample_client s = (Inr [sample_mint], s)"
  by (simp add: get_pending_bridge_proposals_def bind_proc_def client_call_def sample_client_def sample_post_def
      read_answer_def json_get_def get_str_def finish_def as_array_def)

lemma sample_mint_fields:
  "get_str ''proposal_id'' sample_mint = Some sample_id" "get_bool ''can_execute'' sample_mint = None"
  "get_str ''tx_type'' sample_mint = Some ''mint''" "get_uint u128_max ''amount'' sample_mint = Some 5"
  "get_str ''recipient'' sample_mint = Some ''0xAB''" "get_str ''source_chain'' sample_mint = Some ''e''"
  "get_str ''source_tx_hash'' sample_mint = Some sample_source" "get_uint u64_max ''timestamp'' sample_mint = Some 7"
  "get_bool ''executed'' sample_mint = Some False" "get_uint u64_max ''nonce'' sample_mint = Some 1"
  "get_bool ''auto_swap'' sample_mint = Some True" "get_uint u128_max ''amount_out_min'' sample_mint = Some 0"
  "json_get ''signatures'' sample_mint = None"
  by (simp_all add: get_str_def get_bool_def get_uint_def json_get_def sample_mint_def as_str_def as_bool_def
      parse_uint_show_nat del: One_nat_def)

lemma sample_names:
  "decode_hash relay_libs sample_id = Some (replicate 32 7)" "decode_hash relay_libs sample_source = Some (replicate 32 17)"
  unfolding sample_id_def sample_source_def by (rule decode_letters, simp)+

lemma sample_message: "\<exists>m. signing_message_from_json relay_libs sample_mint chain_id = Some m"
  by (simp add: signing_message_from_json_def unsigned_proposal_from_json_def sample_mint_fields sample_names
      tx_type_of_str_def del: One_nat_def)

lemma sample_signs: "sign_bridge_proposal relay_libs sample_client me pid m now s = (Inr False, s)"
  by (simp add: sign_bridge_proposal_def Let_def bind_proc_def sample_answer sample_mint_fields finish_def)

lemma sample_event:
  "decode_tokens_locked sample_parse sample_log =
     Some \<lparr>tl_sender = [1], tl_token = [2], tl_amount = 5, tl_auto_swap = True, tl_min_amount_out = 0,
       tl_deposit_timestamp = 3, tl_eth_tx_hash = replicate 32 17, tl_block_number = 5\<rparr>"
  by (simp add: decode_tokens_locked_def sample_parse_def sample_log_def into_address_def into_uint_def into_bool_def)

lemma sample_sign: "sign_proposal_by_id relay_libs (sample_relayer sample_client) pid now s = (Inr False, s)"
proof -
  obtain m where "signing_message_from_json relay_libs sample_mint 1 = Some m" using sample_message by blast
  then show ?thesis by (simp add: sign_proposal_by_id_def get_bridge_proposal_def bind_run sample_answer sample_signs)
qed

lemma sample_propose:
  assumes "tl_min_amount_out ev = 0"
  shows "propose_deposit relay_libs sample_codec (sample_relayer sample_client) ev amount now s = (Inr sample_id, s)"
  by (simp add: propose_deposit_def bind_run assms as_u128_or_panic_def finish_def propose_bridge_action_def Let_def
      sample_answer sample_mint_fields sample_names stored_def mark_ethereum_deposit_handled_def put_marker_def sample_sign)

lemma sample_handled:
  assumes "tl_amount ev = 5" "tl_min_amount_out ev = 0"
  shows "handle_confirmed_deposit relay_libs sample_codec (sample_relayer sample_client) ev now s = (Inr (Some sample_id), s)"
  by (simp add: handle_confirmed_deposit_def assms is_ethereum_deposit_handled_def stored_def bind_run Let_def as_u128_or_panic_def
      finish_def scale_token_to_zerenya_def sample_propose)

lemma sample_scans:
  assumes "tl_amount ev = 5" "tl_min_amount_out ev = 0"
  shows "scan_deposits relay_libs sample_codec (sample_relayer sample_client) now [ev] s = (Inr [Proposed], s)"
  by (simp add: scan_deposit_def bind_run outcome_of_def finish_def sample_handled [OF assms])

lemma sample_scanned:
  "catch_up_range None 20 sample_scan = Some (0, 8)" "catch_up_range (Some 8) 20 sample_scan = Some (3, 8)"
  by (simp_all add: catch_up_range_def sample_scan_def Let_def sat_add_def)

lemma sample_confirmed: 
  "confirmed_events sample_parse [sample_log] 20 (sc_confirmation_depth sample_scan) = [the (decode_tokens_locked sample_parse sample_log)]"
  by (simp add: confirmed_events_def List.map_filter_def sample_event is_confirmed_def sample_scan_def)

lemma sample_chunk:
  "pump_chunks relay_libs sample_codec sample_parse (sample_relayer sample_client) sample_eth sample_scan now 20 (Suc n) k (s, cursor, ws) =
     (case catch_up_range cursor 20 sample_scan of
        None \<Rightarrow> (Inr k, s, cursor, ws)
      | Some (first, until) \<Rightarrow>
          let w = \<lparr>wn_first = first, wn_end = until, wn_latest = 20, wn_logs = [sample_log], wn_outcomes = [Proposed]\<rparr>
          in if cursor = Some until then (Inr (k + 1), s, cursor, ws @ [w])
             else pump_chunks relay_libs sample_codec sample_parse (sample_relayer sample_client) sample_eth sample_scan now 20 n
               (k + 1) (s, Some until, ws @ [w]))"
  by (simp add: bind_run the_cursor_def in_world_def sample_confirmed sample_event sample_scans pass_window_def finish_def
      Let_def del: scan_deposits.simps split: option.split)

lemma sample_pumped:
  "\<exists>n ws. pump_once relay_libs sample_codec sample_parse (sample_relayer sample_client) sample_eth sample_scan now (s, None, []) =
     (Inr n, s, Some 8, ws)"
proof -
  obtain n where n: "MAX_CHUNKS_PER_TURN = Suc (Suc n)" by (simp add: MAX_CHUNKS_PER_TURN_def numeral_eq_Suc)
  show ?thesis
    by (simp add: pump_once_def n bind_run in_world_def sample_chunk sample_scanned Let_def del: pump_chunks.simps)
qed

lemma sample_agrees:
  assumes "decode_tokens_locked sample_parse sample_log = Some ev"
  shows "check_mint_fields relay_libs ZERENYA_DECIMALS sample_mint ev s = (Inr (), s)"
proof -
  have "hex_text relay_libs (tl_sender ev) = ''0xAB''"
    using assms sample_event by (auto simp: hex_text_def relay_libs_def letter_pair_def char_of_def bit_simps)
  then show ?thesis
    using assms sample_event
    by (auto simp: check_mint_fields_def sample_mint_fields as_u128_or_panic_def scale_token_to_zerenya_def bind_run
        finish_def uint_or_zero_def)
qed

end
