(* ===== verification/InboundFacts.thy ===== *)
theory InboundFacts
  imports RelaySamples
begin

text \<open>
  What the relayer's way in promises: the cursor passes no deposit that was not dealt with, and a proposal of
  another relayer is signed only if it says what the deposit it names says. And what it does not promise: the
  name of the source is not compared, and the proposal it signs for its own deposits is not read at all.
\<close>

section \<open>The cursor\<close>

text \<open>
  A window is settled when every confirmed deposit among the logs the node gave for it was proposed or is known;
  windows cover a block when one of them holds it.
\<close>

definition window_settled :: "log_parser \<Rightarrow> nat \<Rightarrow> window \<Rightarrow> bool" where
  "window_settled parse depth w \<longleftrightarrow> Refused \<notin> set (wn_outcomes w) \<and>
     length (wn_outcomes w) = length (confirmed_events parse (wn_logs w) (wn_latest w) depth) \<and>
     wn_end w + depth \<le> wn_latest w"

definition covers :: "window list \<Rightarrow> nat \<Rightarrow> bool" where
  "covers ws b \<longleftrightarrow> (\<exists>w \<in> set ws. wn_first w \<le> b \<and> b \<le> wn_end w)"

definition reached :: "log_parser \<Rightarrow> scan_params \<Rightarrow> nat \<Rightarrow> nat option \<Rightarrow> window list \<Rightarrow> bool" where
  "reached parse params b0 cursor ws \<longleftrightarrow>
     (\<forall>w \<in> set ws. window_settled parse (sc_confirmation_depth params) w) \<and>
     (cursor = None \<longrightarrow> b0 = sc_start_block params) \<and> (\<forall>c b. cursor = Some c \<and> b0 \<le> b \<and> b \<le> c \<longrightarrow> covers ws b)"

fun scanned :: "log_parser \<Rightarrow> scan_params \<Rightarrow> nat \<Rightarrow> 's scanner \<Rightarrow> bool" where
  "scanned parse params b0 (s, cursor, ws) = reached parse params b0 cursor ws"

text \<open>\<open>keeps P m\<close>: whatever the outcome of \<open>m\<close>, it leaves \<open>P\<close> true.\<close>

definition keeps :: "('s \<Rightarrow> bool) \<Rightarrow> ('s, 'e, 'a) proc \<Rightarrow> bool" where
  "keeps P m \<longleftrightarrow> (\<forall>s. P s \<longrightarrow> P (snd (m s)))"

lemma keepsD: "keeps P m \<Longrightarrow> P s \<Longrightarrow> P (snd (m s))"
  by (simp add: keeps_def)

lemma keeps_finish: "keeps P (finish x)"
  by (simp add: keeps_def finish_def)

lemma keeps_bind: "keeps P m \<Longrightarrow> (\<And>x. keeps P (k x)) \<Longrightarrow> keeps P (bind_proc m k)"
  unfolding keeps_def bind_proc_def by (auto split: prod.split sum.split; metis snd_conv)

lemma keeps_outcome: "keeps P m \<Longrightarrow> keeps P (outcome_of m)"
  unfolding keeps_def outcome_of_def by (auto split: prod.split sum.split fault.split; metis snd_conv)

lemma keeps_cursor: "keeps P the_cursor"
  by (simp add: keeps_def the_cursor_def)

lemma keeps_world: "keeps (scanned parse params b0) (in_world m)"
  by (auto simp: keeps_def in_world_def split: prod.split)

lemma scan_deposits_length:
  "scan_deposits L K R now events s = (Inr rs, s') \<Longrightarrow> length rs = length events"
  by (induction events arbitrary: s rs s') (auto simp: bind_proc_Inr finish_def)

lemma range_bounds:
  assumes "catch_up_range cursor latest params = Some (first, until)"
  shows "until + sc_confirmation_depth params \<le> latest"
    and "cursor = None \<Longrightarrow> first = sc_start_block params" "cursor = Some c \<Longrightarrow> first \<le> c + 1"
proof -
  from assms have eq: "first \<le> latest - sc_confirmation_depth params" "sc_confirmation_depth params \<le> latest"
    "until = min (latest - sc_confirmation_depth params) (sat_add u64_max first (max (sc_max_range params) 1 - 1))"
    "first = (case cursor of Some l \<Rightarrow> sat_add u64_max l 1 - sc_reorg_buffer params | None \<Rightarrow> sc_start_block params)"
    unfolding catch_up_range_def Let_def by (auto split: if_splits)
  show "until + sc_confirmation_depth params \<le> latest" using eq(2,3) by linarith
  show "cursor = None \<Longrightarrow> first = sc_start_block params" using eq(4) by simp
  show "cursor = Some c \<Longrightarrow> first \<le> c + 1" using eq(4) by (simp add: sat_add_def)
qed

lemma pass_scanned:
  assumes sc: "scanned parse params b0 (s, cursor, ws)"
    and range: "catch_up_range cursor latest params = Some (first, until)"
    and w: "window_settled parse (sc_confirmation_depth params) w" "wn_first w = first" "wn_end w = until"
  shows "scanned parse params b0 (s', Some until, ws @ [w])"
proof -
  have "covers (ws @ [w]) b" if b: "b0 \<le> b" "b \<le> until" for b
  proof (cases "first \<le> b")
    case True
    then show ?thesis using w b by (auto simp: covers_def)
  next
    case False
    then obtain c where c: "cursor = Some c" using range_bounds(2) [OF range] sc b by (cases cursor) (auto simp: reached_def)
    then have "b \<le> c" using range_bounds(3) [OF range c] False by simp
    then have "covers ws b" using sc b(1) c by (simp add: reached_def)
    then show ?thesis by (auto simp: covers_def)
  qed
  then show ?thesis using sc w(1) by (auto simp: reached_def)
qed

lemma pump_chunks_scanned:
  fixes R :: "'s inbound_relayer"
  shows "scanned parse params b0 sc \<Longrightarrow>
     scanned parse params b0 (snd (pump_chunks L K parse R S params now latest n handled sc))"
proof (induction n arbitrary: sc handled)
  case 0
  then show ?case by (simp add: finish_def)
next
  case (Suc n)
  obtain s cursor ws where sc: "sc = (s, cursor, ws)" by (cases sc)
  show ?case
  proof (cases "catch_up_range cursor latest params")
    case None
    then show ?thesis using Suc.prems by (simp add: sc bind_proc_def the_cursor_def finish_def)
  next
    case (Some range)
    obtain first until where range: "range = (first, until)" by (cases range)
    let ?scan = "scan_deposits L K R now :: tokens_locked_event list \<Rightarrow> ('s, string, deposit_outcome list) proc"
    let ?events = "\<lambda>logs. confirmed_events parse logs latest (sc_confirmation_depth params)"
    show ?thesis
    proof (cases "es_tokens_locked_logs S first until s")
      case logs: (Pair r1 s1)
      show ?thesis
      proof (cases r1)
        case (Inl f)
        then show ?thesis using Suc.prems logs Some range
          by (simp add: sc bind_proc_def the_cursor_def in_world_def)
      next
        case r1: (Inr ls)
        obtain r2 s2 where scan: "?scan (?events ls) s1 = (r2, s2)" by (cases "?scan (?events ls) s1")
        show ?thesis
        proof (cases r2)
          case (Inl f)
          then show ?thesis using Suc.prems logs r1 scan Some range
            by (simp add: sc bind_proc_def the_cursor_def in_world_def)
        next
          case r2: (Inr outcomes)
          let ?w = "\<lparr>wn_first = first, wn_end = until, wn_latest = latest, wn_logs = ls, wn_outcomes = outcomes\<rparr>"
          let ?h = "handled + length (filter (\<lambda>r. r = Proposed) outcomes)"
          have step: "pump_chunks L K parse R S params now latest (Suc n) handled sc =
              (if Refused \<in> set outcomes then (Inr ?h, s2, cursor, ws)
               else if cursor = Some until then (Inr ?h, s2, Some until, ws @ [?w])
               else pump_chunks L K parse R S params now latest n ?h (s2, Some until, ws @ [?w]))"
            using logs r1 scan r2 Some range
            by (simp add: sc bind_proc_def the_cursor_def in_world_def pass_window_def finish_def Let_def)
          have passed: "scanned parse params b0 (s2, Some until, ws @ [?w])" if "Refused \<notin> set outcomes"
            using Suc.prems [unfolded sc] Some [unfolded range]
          proof (rule pass_scanned)
            have "length outcomes = length (?events ls)" using scan r2 scan_deposits_length by metis
            then show "window_settled parse (sc_confirmation_depth params) ?w"
              using that range_bounds(1) [OF Some [unfolded range]] by (simp add: window_settled_def)
          qed simp_all
          show ?thesis
            unfolding step using passed Suc.IH Suc.prems by (auto simp: sc)
        qed
      qed
    qed
  qed
qed

lemma event_turn_scanned: "keeps (scanned parse params b0) (event_turn L K parse R S params now)"
proof -
  have "keeps (scanned parse params b0) (pump_once L K parse R S params now)"
    unfolding pump_once_def
    by (intro keeps_bind keeps_world) (simp add: keeps_def pump_chunks_scanned)
  then show ?thesis
    unfolding event_turn_def
    by (intro keeps_bind keeps_outcome) (auto split: sum.split intro: keeps_bind keeps_finish keeps_cursor keeps_world)
qed

definition event_turns ::
  "'m libs_scheme \<Rightarrow> relay_codec \<Rightarrow> log_parser \<Rightarrow> 's inbound_relayer \<Rightarrow> 's eth_log_source \<Rightarrow> scan_params \<Rightarrow> nat list \<Rightarrow>
   's scanner \<Rightarrow> 's scanner" where
  "event_turns L K parse R S params nows sc =
     fold (\<lambda>now sc. snd (event_turn L K parse R S params now sc)) nows sc"

lemma event_turns_scanned:
  "scanned parse params b0 sc \<Longrightarrow> scanned parse params b0 (event_turns L K parse R S params nows sc)"
  unfolding event_turns_def
proof (induction nows arbitrary: sc)
  case (Cons now nows)
  show ?case using Cons.IH keepsD [OF event_turn_scanned Cons.prems, of L K R S now] by simp
qed simp

text \<open>Where a scan that starts with the cursor \<open>c\<close> has to begin.\<close>

definition from_block :: "scan_params \<Rightarrow> nat option \<Rightarrow> nat" where
  "from_block params cursor = (case cursor of None \<Rightarrow> sc_start_block params | Some c \<Rightarrow> c + 1)"

lemma start_reached: "reached parse params (from_block params cursor) cursor []"
  by (auto simp: reached_def from_block_def)

lemma settled_event:
  assumes "window_settled parse depth w" and "l \<in> set (wn_logs w)" "decode_tokens_locked parse l = Some ev"
    and "tl_block_number ev \<le> wn_end w"
  shows "\<exists>i < length (wn_outcomes w).
    confirmed_events parse (wn_logs w) (wn_latest w) depth ! i = ev \<and> wn_outcomes w ! i \<in> {Proposed, Known}"
proof -
  have "is_confirmed (tl_block_number ev) (wn_latest w) depth"
    using assms(1,4) by (auto simp: window_settled_def is_confirmed_def)
  then have "ev \<in> set (confirmed_events parse (wn_logs w) (wn_latest w) depth)"
    using assms(2,3) by (force simp: confirmed_events_def List.map_filter_def)
  then obtain i where i: "i < length (wn_outcomes w)" "confirmed_events parse (wn_logs w) (wn_latest w) depth ! i = ev"
    using assms(1) by (auto simp: window_settled_def in_set_conv_nth)
  then have "wn_outcomes w ! i \<noteq> Refused" using assms(1) by (metis window_settled_def nth_mem)
  then show ?thesis using i by (cases "wn_outcomes w ! i") auto
qed

text \<open>
  C26: the cursor passes no deposit that was not dealt with. Whatever the Ethereum node, the Zagros node and the
  store answer, after any turns of the relayer every block from the first one to the cursor lies in a window the
  relayer has read, and every deposit among the logs the node gave for that window, up to the window's end, was
  turned into a proposal or is known already: a failure keeps the cursor back.
\<close>

theorem cursor_passes_no_open_deposit:
  assumes "event_turns L K parse R S params nows (s, cursor, []) = (s', Some c, ws)"
    and "from_block params cursor \<le> b" "b \<le> c"
  shows "\<exists>w \<in> set ws. wn_first w \<le> b \<and> b \<le> wn_end w \<and> wn_end w + sc_confirmation_depth params \<le> wn_latest w \<and>
    (\<forall>l \<in> set (wn_logs w). \<forall>ev. decode_tokens_locked parse l = Some ev \<and> tl_block_number ev \<le> wn_end w \<longrightarrow>
       (\<exists>i < length (wn_outcomes w).
          confirmed_events parse (wn_logs w) (wn_latest w) (sc_confirmation_depth params) ! i = ev \<and>
          wn_outcomes w ! i \<in> {Proposed, Known}))"
proof -
  have "scanned parse params (from_block params cursor) (s', Some c, ws)"
    using event_turns_scanned [of parse params "from_block params cursor" "(s, cursor, [])" L K R S nows] start_reached
    by (simp add: assms(1))
  then have ws: "\<forall>w \<in> set ws. window_settled parse (sc_confirmation_depth params) w" and "covers ws b"
    using assms(2,3) by (auto simp: reached_def)
  then obtain w where w: "w \<in> set ws" "wn_first w \<le> b" "b \<le> wn_end w" unfolding covers_def by blast
  then have st: "window_settled parse (sc_confirmation_depth params) w" using ws by blast
  then have "wn_end w + sc_confirmation_depth params \<le> wn_latest w" by (simp add: window_settled_def)
  then show ?thesis using w settled_event [OF st] by blast
qed

lemma sample_turns:
  "\<exists>s' ws. event_turns relay_libs sample_codec sample_parse (sample_relayer sample_client) sample_eth sample_scan [1]
     (s, None, []) = (s', Some 8, ws)"
proof -
  obtain n ws where "pump_once relay_libs sample_codec sample_parse (sample_relayer sample_client) sample_eth sample_scan 1
      (s, None, []) = (Inr n, s, Some 8, ws)" using sample_pumped [of 1 s] by blast
  then show ?thesis
    by (simp add: event_turns_def event_turn_def outcome_of_def bind_value the_cursor_def in_world_def keep_cursor_def
        stored_def set_inbound_cursor_def finish_def) (auto simp: bind_proc_def in_world_def finish_def split: prod.split sum.split)
qed

theorem cursor_passes_no_open_deposit_witness:
  "\<exists>w \<in> set (snd (snd (event_turns relay_libs sample_codec sample_parse (sample_relayer sample_client) sample_eth sample_scan
     [1] ((), None, [])))). wn_first w \<le> 5 \<and> 5 \<le> wn_end w"
proof -
  obtain s' ws where run: "event_turns relay_libs sample_codec sample_parse (sample_relayer sample_client) sample_eth sample_scan
      [1] ((), None, []) = (s', Some 8, ws)" using sample_turns [of "()"] by blast
  show ?thesis
    using cursor_passes_no_open_deposit [OF run, of 5] unfolding run by (auto simp: from_block_def sample_scan_def)
qed

text \<open>
  Where the window is no larger than the blocks that are read again, the cursor does not move up: the source
  sets the latter to 6 and bounds the former nowhere.
\<close>

theorem small_windows_stop_the_cursor:
  assumes "catch_up_range (Some c) latest params = Some (first, until)"
    and "max (sc_max_range params) 1 \<le> sc_reorg_buffer params" "sc_reorg_buffer params \<le> c + 1" "c < u64_max"
  shows "until \<le> c"
  using assms by (auto simp: catch_up_range_def Let_def sat_add_def min_le_iff_disj max_def split: if_splits)

end
