(* ===== verification/CosignFacts.thy ===== *)
theory CosignFacts
  imports InboundFacts
begin

text \<open>
  What the relayer signs for others, read off the requests it posts: a client that keeps a list of them, over a
  source that does not see the list. And what it does not compare.
\<close>

section \<open>Keeping the requests\<close>

definition beside :: "('s, 'e, 'a) proc \<Rightarrow> ('s \<times> 'l, 'e, 'a) proc" where
  "beside m sl = (case m (fst sl) of (r, s') \<Rightarrow> (r, s', snd sl))"

definition logging :: "'s zagros_client \<Rightarrow> ('s \<times> json list) zagros_client" where
  "logging C = \<lparr>ck_post = (\<lambda>request sl. case ck_post C request (fst sl) of (answer, s') \<Rightarrow> (answer, s', snd sl @ [request])),
     ck_debug = ck_debug C\<rparr>"

definition beside_source :: "'s eth_log_source \<Rightarrow> ('s \<times> 'l) eth_log_source" where
  "beside_source S = \<lparr>es_latest_block_number = beside (es_latest_block_number S),
     es_tokens_locked_logs = (\<lambda>a b. beside (es_tokens_locked_logs S a b)),
     es_transaction_receipt_logs = (\<lambda>h. beside (es_transaction_receipt_logs S h))\<rparr>"

definition is_sign_request :: "json \<Rightarrow> bool" where
  "is_sign_request request \<longleftrightarrow> json_get ''method'' request = Some (JString ''zagros_signBridgeProposal'')"

text \<open>The request that carries the signature of \<open>me\<close> over a message, bound to a time.\<close>

definition sign_request :: "'m libs_scheme \<Rightarrow> relay_identity \<Rightarrow> string \<Rightarrow> bytes \<Rightarrow> nat \<Rightarrow> json" where
  "sign_request L me proposal_id message now =
     JObject [(''jsonrpc'', JString ''2.0''), (''id'', JNumber 1), (''method'', JString ''zagros_signBridgeProposal''),
       (''params'', JArray [JString proposal_id, JString (ri_authority_address me),
          JString (lb_hex L (ed_public (lb_crypto L) (ri_signing_key me))),
          JString (lb_hex L (ed_sign (lb_crypto L) (ri_signing_key me) (bind_timestamp_to_message (lb_crypto L) message now))),
          JString (show_nat now)])]"

text \<open>
  A deposit stands behind a proposal: the transaction the proposal names has a receipt with that event, old enough,
  and the fields agree.
\<close>

definition agrees :: "'m libs_scheme \<Rightarrow> nat \<Rightarrow> json \<Rightarrow> tokens_locked_event \<Rightarrow> bool" where
  "agrees L token_decimals v ev \<longleftrightarrow>
     to_ascii_lowercase (case get_str ''recipient'' v of None \<Rightarrow> '''' | Some r \<Rightarrow> r) = to_ascii_lowercase (hex_text L (tl_sender ev)) \<and>
     tl_amount ev \<le> u128_max \<and> tl_min_amount_out ev \<le> u128_max \<and>
     get_uint u128_max ''amount'' v = scale_token_to_zerenya (tl_amount ev) token_decimals \<and>
     get_uint u128_max ''amount'' v \<noteq> None \<and>
     (get_bool ''auto_swap'' v = Some True) = tl_auto_swap ev \<and>
     uint_or_zero (get_uint u128_max ''amount_out_min'' v) = tl_min_amount_out ev"

definition deposit_behind :: "'m libs_scheme \<Rightarrow> log_parser \<Rightarrow> 's eth_log_source \<Rightarrow> nat \<Rightarrow> nat \<Rightarrow> json \<Rightarrow> bool" where
  "deposit_behind L parse S depth token_decimals v \<longleftrightarrow>
     (\<exists>name tx_hash logs ev latest s1 s2 s3.
        get_str ''source_tx_hash'' v = Some name \<and> decode_hash L name = Some tx_hash \<and>
        es_transaction_receipt_logs S tx_hash s1 = (Inr (Some logs), s2) \<and> first_tokens_locked parse logs = Some ev \<and>
        es_latest_block_number S s2 = (Inr latest, s3) \<and> is_confirmed (tl_block_number ev) latest depth \<and>
        agrees L token_decimals v ev)"

section \<open>What the check establishes\<close>

lemma as_u128_Inr: "as_u128_or_panic n s = (Inr k, s') \<longleftrightarrow> n \<le> u128_max \<and> k = n \<and> s' = s"
  by (auto simp: as_u128_or_panic_def finish_def panic_def)

lemma check_mint_fields_Inr:
  "check_mint_fields L token_decimals v ev s = (Inr u, s') \<Longrightarrow> agrees L token_decimals v ev \<and> s' = s"
  unfolding check_mint_fields_def agrees_def
  by (auto simp: bind_proc_Inr as_u128_Inr raise_error_def finish_def split: if_splits option.splits)

lemma beside_Inr: "beside m (s, l) = (Inr x, sl') \<longleftrightarrow> (\<exists>s'. m s = (Inr x, s') \<and> sl' = (s', l))"
  by (auto simp: beside_def split: prod.splits)

lemma verify_backed:
  assumes "verify_mint_proposal_against_ethereum L parse R (beside_source S) v depth sl = (Inr u, sl')"
  shows "deposit_behind L parse S depth (ir_token_decimals R) v"
proof -
  obtain s l where sl: "sl = (s, l)" by (cases sl)
  from assms obtain name tx_hash logs ev latest s2 s3 where
    "get_str ''source_tx_hash'' v = Some name" "decode_hash L name = Some tx_hash"
    "es_transaction_receipt_logs S tx_hash s = (Inr logs, s2)" "Option.bind logs (first_tokens_locked parse) = Some ev"
    "es_latest_block_number S s2 = (Inr latest, s3)" "is_confirmed (tl_block_number ev) latest depth"
    "agrees L (ir_token_decimals R) v ev"
    unfolding verify_mint_proposal_against_ethereum_def sl
    by (auto simp: bind_proc_Inr beside_source_def beside_Inr raise_error_def
        split: option.splits if_splits dest!: check_mint_fields_Inr)
  then show ?thesis unfolding deposit_behind_def by (cases logs) (simp, simp, blast)
qed

section \<open>The requests\<close>

definition honest ::
  "'m libs_scheme \<Rightarrow> log_parser \<Rightarrow> ('s \<times> json list) inbound_relayer \<Rightarrow> 's eth_log_source \<Rightarrow> nat \<Rightarrow> nat \<Rightarrow> json \<Rightarrow> bool" where
  "honest L parse R S depth now request \<longleftrightarrow> (is_sign_request request \<longrightarrow>
     (\<exists>v proposal_id message. deposit_behind L parse S depth (ir_token_decimals R) v \<and> get_str ''proposal_id'' v = Some proposal_id \<and>
        signing_message_from_json L v (ir_chain_id R) = Some message \<and>
        request = sign_request L (ir_me R) proposal_id message now))"

definition all_posts :: "(json \<Rightarrow> bool) \<Rightarrow> 's \<times> json list \<Rightarrow> bool" where
  "all_posts Q sl \<longleftrightarrow> list_all Q (snd sl)"

lemma keeps_bind_knowing:
  assumes "keeps P m" and "\<And>s x s'. m s = (Inr x, s') \<Longrightarrow> P s' \<Longrightarrow> P (snd (k x s'))"
  shows "keeps P (bind_proc m k)"
  unfolding keeps_def
proof (intro allI impI)
  fix s
  assume "P s"
  then have "P (snd (m s))" using assms(1) by (simp add: keeps_def)
  then show "P (snd (bind_proc m k s))"
    using assms(2) [of s] by (cases "m s"; cases "fst (m s)") (auto simp: bind_proc_def)
qed

lemma keeps_raise: "keeps P (raise_error e)"
  by (simp add: keeps_def raise_error_def)

lemma keeps_panic: "keeps P panic"
  by (simp add: keeps_def panic_def)

lemma keeps_beside: "keeps (all_posts Q) (beside m)"
  by (auto simp: keeps_def beside_def all_posts_def split: prod.split)

lemma read_answer_state: "snd (read_answer answer s) = s"
  by (simp add: read_answer_def raise_error_def finish_def split: sum.split option.split)

text \<open>A call posts one request.\<close>

lemma call_posts:
  "all_posts Q sl \<Longrightarrow> Q (JObject [(''jsonrpc'', JString ''2.0''), (''id'', JNumber 1), (''method'', JString name), (''params'', JArray args)]) \<Longrightarrow>
     all_posts Q (snd (client_call (logging C) name args sl))"
  by (auto simp: client_call_def logging_def read_answer_state all_posts_def split: prod.split)

lemma keeps_other_call:
  "name \<noteq> ''zagros_signBridgeProposal'' \<Longrightarrow> keeps (all_posts (honest L parse R S depth now)) (client_call (logging C) name args)"
  unfolding keeps_def
  by (intro allI impI call_posts) (simp_all add: honest_def is_sign_request_def json_get_def)

lemma keeps_verify:
  "keeps (all_posts Q) (verify_mint_proposal_against_ethereum L parse R (beside_source S) v depth)"
proof -
  have "keeps (all_posts Q) (check_mint_fields L d v ev)" for d ev
    unfolding check_mint_fields_def as_u128_or_panic_def
    by (auto split: option.split intro!: keeps_bind keeps_raise keeps_finish keeps_panic)
  then show ?thesis
    unfolding verify_mint_proposal_against_ethereum_def
    by (auto simp: beside_source_def split: option.split intro!: keeps_bind keeps_raise keeps_beside)
qed

lemma sign_posts:
  assumes "all_posts Q sl" and "Q (sign_request L me proposal_id message now)"
  shows "all_posts Q (snd (sign_bridge_proposal L (logging C) me proposal_id message now sl))"
proof -
  have "all_posts Q (snd (client_call (logging C) ''zagros_signBridgeProposal''
      [JString proposal_id, JString (ri_authority_address me), JString (lb_hex L (ed_public (lb_crypto L) (ri_signing_key me))),
       JString (lb_hex L (ed_sign (lb_crypto L) (ri_signing_key me) (bind_timestamp_to_message (lb_crypto L) message now))),
       JString (show_nat now)] sl))"
    using assms by (intro call_posts) (simp_all add: sign_request_def)
  then show ?thesis
    unfolding sign_bridge_proposal_def Let_def bind_proc_def
    by (auto simp: finish_def split: prod.split sum.split)
qed

lemma keeps_cosign_mint:
  fixes R :: "('s \<times> json list) inbound_relayer"
  assumes R: "ir_client R = logging C"
  shows "keeps (all_posts (honest L parse R S depth now)) (cosign_mint L parse R (beside_source S) depth now v)"
proof -
  let ?P = "all_posts (honest L parse R S depth now)"
  have signing: "?P (snd (bind_proc (outcome_of (sign_bridge_proposal L (logging C) (ir_me R) proposal_id message now))
      (\<lambda>signed_it. finish (case signed_it of Inl e \<Rightarrow> False | Inr b \<Rightarrow> True)) sl))"
    if "?P sl" "deposit_behind L parse S depth (ir_token_decimals R) v" "get_str ''proposal_id'' v = Some proposal_id"
      "signing_message_from_json L v (ir_chain_id R) = Some message" for sl proposal_id message
  proof -
    have "honest L parse R S depth now (sign_request L (ir_me R) proposal_id message now)"
      unfolding honest_def using that(2-4) by blast
    then have "keeps ?P (sign_bridge_proposal L (logging C) (ir_me R) proposal_id message now)"
      unfolding keeps_def using sign_posts by blast
    then have "keeps ?P (bind_proc (outcome_of (sign_bridge_proposal L (logging C) (ir_me R) proposal_id message now))
        (\<lambda>signed_it. finish (case signed_it of Inl e \<Rightarrow> False | Inr b \<Rightarrow> True)))"
      by (intro keeps_bind keeps_outcome keeps_finish)
    from keepsD [OF this that(1)] show ?thesis .
  qed
  have checked: "keeps ?P (bind_proc (outcome_of (verify_mint_proposal_against_ethereum L parse R (beside_source S) v depth)) (\<lambda>verified.
      case verified of
        Inl e \<Rightarrow> finish False
      | Inr u \<Rightarrow> bind_proc (outcome_of (sign_bridge_proposal L (logging C) (ir_me R) proposal_id message now))
          (\<lambda>signed_it. finish (case signed_it of Inl e \<Rightarrow> False | Inr b \<Rightarrow> True))))"
    if "get_str ''proposal_id'' v = Some proposal_id" "signing_message_from_json L v (ir_chain_id R) = Some message"
    for proposal_id message
  proof (rule keeps_bind_knowing [OF keeps_outcome [OF keeps_verify]])
    fix s x s'
    assume "outcome_of (verify_mint_proposal_against_ethereum L parse R (beside_source S) v depth) s = (Inr x, s')" "?P s'"
    then show "?P (snd ((case x of Inl e \<Rightarrow> finish False | Inr u \<Rightarrow>
        bind_proc (outcome_of (sign_bridge_proposal L (logging C) (ir_me R) proposal_id message now))
          (\<lambda>signed_it. finish (case signed_it of Inl e \<Rightarrow> False | Inr b \<Rightarrow> True))) s'))"
    proof (cases x)
      case (Inl e)
      then show ?thesis using \<open>?P s'\<close> by (simp add: finish_def)
    next
      case (Inr u)
      then have "verify_mint_proposal_against_ethereum L parse R (beside_source S) v depth s = (Inr u, s')"
        using \<open>outcome_of _ s = _\<close> by (simp add: outcome_of_Inr)
      from signing [OF \<open>?P s'\<close> verify_backed [OF this] that] show ?thesis by (simp add: Inr)
    qed
  qed
  show ?thesis
    unfolding cosign_mint_def R
    by (auto split: option.split intro: keeps_finish checked)
qed

lemma keeps_cosign_mints:
  fixes R :: "('s \<times> json list) inbound_relayer"
  assumes "ir_client R = logging C"
  shows "keeps (all_posts (honest L parse R S depth now)) (cosign_mints L parse R (beside_source S) depth now vs)"
  by (induction vs) (auto intro!: keeps_bind keeps_finish keeps_cosign_mint [OF assms])

lemma keeps_discovery:
  fixes R :: "('s \<times> json list) inbound_relayer"
  assumes R: "ir_client R = logging C"
  shows "keeps (all_posts (honest L parse R S depth now)) (discover_and_cosign_pending_mints L parse R (beside_source S) depth now)"
proof -
  let ?P = "all_posts (honest L parse R S depth now)"
  have "keeps ?P (get_pending_bridge_proposals (logging C))"
    unfolding get_pending_bridge_proposals_def
    by (rule keeps_bind [OF keeps_other_call]) (auto split: option.split intro: keeps_raise keeps_finish)
  then show ?thesis
    unfolding discover_and_cosign_pending_mints_def R
    by (intro keeps_bind keeps_outcome) (auto split: sum.split intro: keeps_finish keeps_cosign_mints [OF R])
qed

text \<open>
  C25: a relayer puts its signature under another relayer's mint only if the deposit is there: every request to
  sign that it posts while it goes through the pending proposals carries its signature over a proposal whose
  named transaction has, by its own Ethereum node, a receipt with a deposit of the gateway, old enough, with
  the same recipient, the scaled amount, the same wish to swap and the same least result.
\<close>

theorem cosigned_mints_are_backed:
  assumes "ir_client R = logging C"
    and "discover_and_cosign_pending_mints L parse R (beside_source S) depth now (s, []) = (r, s', posts)"
    and "request \<in> set posts" "is_sign_request request"
  shows "\<exists>v proposal_id message. deposit_behind L parse S depth (ir_token_decimals R) v \<and> get_str ''proposal_id'' v = Some proposal_id \<and>
    signing_message_from_json L v (ir_chain_id R) = Some message \<and>
    request = sign_request L (ir_me R) proposal_id message now"
proof -
  have "all_posts (honest L parse R S depth now) (s', posts)"
    using keepsD [OF keeps_discovery [OF assms(1)], of L parse S depth now "(s, [])"] assms(2) by (simp add: all_posts_def)
  then have "honest L parse R S depth now request" using assms(3) by (simp add: all_posts_def list_all_iff)
  then show ?thesis using assms(4) by (simp add: honest_def)
qed

text \<open>The sample node has a deposit behind the sample proposal, so one request to sign is posted.\<close>

lemma read_answer_any: "read_answer a s = (Inr v, s') \<Longrightarrow> read_answer a t = (Inr v, t)"
  by (auto simp: read_answer_def raise_error_def finish_def split: sum.splits option.splits)

lemma logged_call:
  assumes "client_call sample_client name ps s = (Inr v, s)"
  shows "client_call (logging sample_client) name ps (s, l) =
     (Inr v, s, l @ [JObject [(''jsonrpc'', JString ''2.0''), (''id'', JNumber 1), (''method'', JString name), (''params'', JArray ps)]])"
  using assms unfolding client_call_def logging_def
  by (auto simp: sample_client_def sample_post_def simp del: of_int_numeral intro: read_answer_any)

lemma sample_verified:
  "verify_mint_proposal_against_ethereum relay_libs sample_parse (sample_relayer C) (beside_source sample_eth) sample_mint 12 sl
     = (Inr (), sl)"
proof -
  obtain ev where ev: "decode_tokens_locked sample_parse sample_log = Some ev" "tl_block_number ev = 5"
    using sample_event by simp
  show ?thesis
    using sample_agrees [OF ev(1), of sl]
    by (cases sl) (simp add: verify_mint_proposal_against_ethereum_def sample_mint_fields sample_names beside_source_def
        beside_def bind_value first_tokens_locked_def List.map_filter_def ev is_confirmed_def)
qed

lemma sample_signed:
  "\<exists>x. sign_bridge_proposal relay_libs (logging sample_client) me pid m now (s, l) =
     (Inr x, s, l @ [sign_request relay_libs me pid m now])"
  by (simp add: sign_bridge_proposal_def Let_def bind_value logged_call [OF sample_answer] finish_def sign_request_def)

lemma sample_posts:
  "\<exists>r s' posts. discover_and_cosign_pending_mints relay_libs sample_parse (sample_relayer (logging sample_client))
     (beside_source sample_eth) 12 1 (s, []) = (r, s', posts) \<and> list_ex is_sign_request posts"
proof -
  obtain m where m: "signing_message_from_json relay_libs sample_mint 1 = Some m" using sample_message by blast
  have "client_call sample_client ''zagros_getPendingBridgeProposals'' [] s = (Inr (JObject [(''proposals'', JArray [sample_mint])]), s)"
    by (simp add: client_call_def sample_client_def sample_post_def read_answer_def json_get_def get_str_def finish_def)
  from logged_call [OF this, of "[]"]
  obtain first where pending: "get_pending_bridge_proposals (logging sample_client) (s, []) = (Inr [sample_mint], s, [first])"
    by (simp add: get_pending_bridge_proposals_def bind_value json_get_def as_array_def finish_def)
  obtain x where signed: "sign_bridge_proposal relay_libs (logging sample_client) sample_me
      sample_id m 1 (s, [first]) = (Inr x, s, [first] @ [sign_request relay_libs sample_me sample_id m 1])"
    using sample_signed [of sample_me sample_id m 1 s "[first]"] by blast
  have "cosign_mint relay_libs sample_parse (sample_relayer (logging sample_client)) (beside_source sample_eth) 12 1 sample_mint (s, [first]) =
      (Inr True, s, [first] @ [sign_request relay_libs sample_me sample_id m 1])"
    using signed m
    by (simp add: cosign_mint_def sample_mint_fields already_signed_by_def outcome_of_def sample_verified bind_proc_def finish_def)
  then show ?thesis
    by (simp add: discover_and_cosign_pending_mints_def outcome_of_def pending bind_proc_def finish_def is_sign_request_def
        sign_request_def json_get_def)
qed

theorem cosigned_mints_are_backed_witness:
  "\<exists>v. deposit_behind relay_libs sample_parse (sample_eth :: unit eth_log_source) 12 ZERENYA_DECIMALS v"
proof -
  obtain r s' posts where run: "discover_and_cosign_pending_mints relay_libs sample_parse (sample_relayer (logging sample_client))
      (beside_source sample_eth) 12 1 ((), []) = (r, s', posts)" "list_ex is_sign_request posts"
    using sample_posts [of "()"] by blast
  then obtain request where "request \<in> set posts" "is_sign_request request" by (auto simp: list_ex_iff)
  then show ?thesis
    using cosigned_mints_are_backed [OF _ run(1)] by auto
qed

section \<open>What is not compared\<close>

text \<open>
  The check passes a proposal under another name of the source chain, or another spelling of the transaction,
  just as well; the mark of a processed source differs, so one deposit can stand behind several mints.
\<close>

lemma verify_same_fields:
  assumes "Option.bind (get_str ''source_tx_hash'' v) (decode_hash L) = Some tx_hash"
    and "Option.bind (get_str ''source_tx_hash'' v') (decode_hash L) = Some tx_hash"
    and "\<And>key. key \<in> {''recipient'', ''amount'', ''auto_swap'', ''amount_out_min''} \<Longrightarrow> json_get key v' = json_get key v"
  shows "verify_mint_proposal_against_ethereum L parse R S v' depth = verify_mint_proposal_against_ethereum L parse R S v depth"
proof -
  have same: "get_str ''recipient'' v' = get_str ''recipient'' v" "get_uint u128_max ''amount'' v' = get_uint u128_max ''amount'' v"
    "get_bool ''auto_swap'' v' = get_bool ''auto_swap'' v"
    "get_uint u128_max ''amount_out_min'' v' = get_uint u128_max ''amount_out_min'' v"
    by (simp_all add: get_str_def get_bool_def get_uint_def assms(3))
  have fields_same: "check_mint_fields L d v' ev = check_mint_fields L d v ev" for d ev
    unfolding check_mint_fields_def same by (rule refl)
  obtain name name' where "get_str ''source_tx_hash'' v = Some name" "get_str ''source_tx_hash'' v' = Some name'"
    "decode_hash L name = Some tx_hash" "decode_hash L name' = Some tx_hash"
    using assms(1,2) by (auto simp: bind_eq_Some_conv)
  then show ?thesis
    unfolding verify_mint_proposal_against_ethereum_def fields_same by simp
qed

theorem one_deposit_passes_under_other_names:
  assumes "decode_hash L (bp_source_tx_hash p) = Some tx_hash" "decode_hash L other_spelling = Some tx_hash"
  shows "verify_mint_proposal_against_ethereum L parse R S
      (bridge_proposal_json L vouchers b (p\<lparr>bp_source_chain := other_chain, bp_source_tx_hash := other_spelling\<rparr>)) depth =
    verify_mint_proposal_against_ethereum L parse R S (bridge_proposal_json L vouchers b p) depth"
  by (rule verify_same_fields) (auto simp: bridge_proposal_json_def get_str_def json_get_def as_str_def assms)

text \<open>A deposit that asks for more than \<open>u128::MAX\<close> ends the task in a panic, with the cursor before it.\<close>

theorem deposit_can_stop_the_relayer:
  assumes "sg_contains (ir_store R) (eth_key (hex_text L (tl_eth_tx_hash ev))) s = (Inr False, s')"
    and "tl_amount ev \<le> u128_max" "scale_token_to_zerenya (tl_amount ev) (ir_token_decimals R) = Some amount"
    and "u128_max < tl_min_amount_out ev"
  shows "scan_deposits L K R now (ev # events) s = (Inl Panicked, s')"
  using assms
  by (simp add: scan_deposit_def handle_confirmed_deposit_def propose_deposit_def is_ethereum_deposit_handled_def
      bind_proc_def outcome_of_def stored_def as_u128_or_panic_def finish_def panic_def Let_def)

text \<open>
  The marks are by transaction, not by log: a second deposit of a transaction counts as handled, and the cursor
  passes it.
\<close>

theorem second_deposit_of_a_transaction_is_dropped:
  assumes "sg_contains (ir_store R) (eth_key (hex_text L (tl_eth_tx_hash ev))) s = (Inr True, s')"
    and "tl_eth_tx_hash other = tl_eth_tx_hash ev"
  shows "scan_deposit L K R now other s = (Inr Known, s')"
  using assms
  by (simp add: scan_deposit_def handle_confirmed_deposit_def is_ethereum_deposit_handled_def bind_proc_def outcome_of_def
      stored_def finish_def Let_def)

end
