(* ===== verification/Outbound.thy ===== *)
theory Outbound
  imports RelayStore
begin

text \<open>
  The relayer's way out: burns on Zagros become unlock proposals, and proposals with a quorum and past their lock
  get a claim voucher (\<open>crates/zagros-relayer/src/outbound.rs\<close>, \<open>zagros_watcher.rs\<close>, \<open>claim.rs\<close>). secp256k1 signing and
  the encoding of a retry's payload are arguments; the loop around \<open>poll_once\<close> and log lines are left out; a poll
  reads the clock once, and the text of a store's error is a word.
\<close>

section \<open>Watching burns\<close>

record seen_burn =
  sb_index :: nat
  sb_tx_id_hex :: string
  sb_sender :: string
  sb_amount :: nat

record cursor_gap_error =
  cg_requested_since_index :: nat
  cg_oldest_available_index :: nat

definition detect_cursor_gap :: "nat \<Rightarrow> nat option \<Rightarrow> cursor_gap_error + unit" where
  "detect_cursor_gap since_index oldest_index =
     (case oldest_index of
        Some oldest \<Rightarrow>
          if since_index < oldest
          then Inl \<lparr>cg_requested_since_index = since_index, cg_oldest_available_index = oldest\<rparr>
          else Inr ()
      | None \<Rightarrow> Inr ())"

definition parse_burn_record :: "json \<Rightarrow> seen_burn option" where
  "parse_burn_record v =
     Option.bind (get_uint u128_max ''index'' v) (\<lambda>i.
     Option.bind (get_str ''tx_id'' v) (\<lambda>burn_id.
     Option.bind (get_str ''sender'' v) (\<lambda>sender.
     Option.bind (get_uint u128_max ''amount'' v) (\<lambda>amount.
       Some \<lparr>sb_index = i, sb_tx_id_hex = burn_id, sb_sender = sender, sb_amount = amount\<rparr>))))"

definition parse_burns_response :: "json \<Rightarrow> nat \<Rightarrow> cursor_gap_error + seen_burn list" where
  "parse_burns_response v since_index =
     (case detect_cursor_gap since_index (get_uint u128_max ''oldest_index'' v) of
        Inl e \<Rightarrow> Inl e
      | Inr u \<Rightarrow> Inr (case Option.bind (json_get ''burns'' v) as_array of
            None \<Rightarrow> []
          | Some entries \<Rightarrow> List.map_filter parse_burn_record entries))"

text \<open>The sum \<open>index + 1\<close> panics at \<open>u128::MAX\<close>.\<close>

definition next_cursor :: "nat \<Rightarrow> seen_burn list \<Rightarrow> ('s, 'e, nat) proc" where
  "next_cursor current records =
     (if list_ex (\<lambda>r. u128_max < sb_index r + 1) records then panic
      else finish (foldr max (map (\<lambda>r. sb_index r + 1) records) current))"

definition next_cursor_after_partial_failure ::
  "nat \<Rightarrow> seen_burn list \<Rightarrow> nat list \<Rightarrow> ('s, 'e, nat) proc" where
  "next_cursor_after_partial_failure current records failed_indices =
     (case failed_indices of
        [] \<Rightarrow> next_cursor current records
      | i # is \<Rightarrow> finish (max (foldr min is i) current))"

section \<open>Claim vouchers\<close>

text \<open>\<open>rs_sign\<close> gives the 64 bytes of the signature and its recovery id.\<close>

type_synonym recoverable_signing = "bytes \<Rightarrow> hash \<Rightarrow> bytes \<times> nat"

text \<open>The wrapper over \<open>eip712::claim_digest\<close> takes the amount as a \<open>U256\<close>, in 32 bytes.\<close>

definition claim_digest_of_amount :: "crypto_env \<Rightarrow> nat \<Rightarrow> bytes \<Rightarrow> bytes \<Rightarrow> bytes \<Rightarrow> nat \<Rightarrow> hash \<Rightarrow> hash" where
  "claim_digest_of_amount E chain_id gateway token recipient amount zagros_tx_hash =
     claim_digest E chain_id gateway token recipient (be_bytes 32 amount) zagros_tx_hash"

definition sign_claim :: "recoverable_signing \<Rightarrow> bytes \<Rightarrow> hash \<Rightarrow> bytes" where
  "sign_claim rs secret_key digest =
     (case rs secret_key digest of (compact, recovery_id) \<Rightarrow> compact @ [27 + of_nat recovery_id])"

record relay_voucher =
  rv_zagros_tx_hash :: hash
  rv_token :: bytes
  rv_recipient :: bytes
  rv_amount :: nat
  rv_signer :: bytes
  rv_signature :: bytes

definition signature_hex :: "'m libs_scheme \<Rightarrow> relay_voucher \<Rightarrow> string" where
  "signature_hex L v = ''0x'' @ lb_hex L (rv_signature v)"

record ready_voucher =
  rd_proposal_id :: string
  rd_voucher :: relay_voucher

section \<open>A burn becomes a proposal\<close>

record 's outbound_relayer =
  or_client :: "'s zagros_client"
  or_store :: "'s storage"
  or_me :: relay_identity
  or_ethereum_signing_key :: bytes
  or_ethereum_relayer_address :: bytes
  or_gateway_contract_address :: bytes
  or_unlock_token_address :: bytes
  or_unlock_token_decimals :: nat
  or_ethereum_chain_id :: nat
  or_chain_id :: nat
  or_trusted_authorities :: bridge_manager
  or_auto_recover_cursor_gap :: bool

definition sign_zagros_proposal ::
  "'m libs_scheme \<Rightarrow> 's outbound_relayer \<Rightarrow> string \<Rightarrow> nat \<Rightarrow> ('s, client_error, bool) proc" where
  "sign_zagros_proposal L R proposal_id_hex now =
     bind_proc (get_bridge_proposal (or_client R) proposal_id_hex) (\<lambda>v.
       case signing_message_from_json L v (or_chain_id R) of
         None \<Rightarrow> raise_error (UnexpectedShape (''cannot reconstruct signing message from '' @ ck_debug (or_client R) v))
       | Some message \<Rightarrow> sign_bridge_proposal L (or_client R) (or_me R) proposal_id_hex message now)"

definition burn_request :: "string \<Rightarrow> string \<Rightarrow> nat \<Rightarrow> nat \<Rightarrow> proposal_request" where
  "burn_request burn_tx_id_hex burn_sender burn_amount now =
     \<lparr>rq_tx_type = Burn, rq_amount = burn_amount, rq_recipient = burn_sender, rq_source_chain = ''Zagros'',
      rq_source_tx_hash = burn_tx_id_hex, rq_timestamp = now, rq_auto_swap = False, rq_amount_out_min = 0\<rparr>"

definition handle_new_burn ::
  "'m libs_scheme \<Rightarrow> relay_codec \<Rightarrow> 's outbound_relayer \<Rightarrow> string \<Rightarrow> string \<Rightarrow> nat \<Rightarrow> nat \<Rightarrow>
   ('s, client_error, string option) proc" where
  "handle_new_burn L K R burn_tx_id_hex burn_sender burn_amount now =
     (case decode_hash L burn_tx_id_hex of
        None \<Rightarrow> raise_error (UnexpectedShape (''bad burn tx_id: '' @ burn_tx_id_hex))
      | Some burn_id \<Rightarrow>
          bind_proc (stored (is_zagros_burn_handled L (or_store R) burn_id)) (\<lambda>known.
            if known = Inr True then finish None
            else bind_proc (propose_bridge_action L (or_client R) (or_me R)
                   (burn_request burn_tx_id_hex burn_sender burn_amount now) (or_chain_id R)) (\<lambda>proposal_id.
                 bind_proc (stored (mark_zagros_burn_handled L K (or_store R) now burn_id)) (\<lambda>marked.
                   case marked of
                     Inl e \<Rightarrow> raise_error (Transport ''store'')
                   | Inr u \<Rightarrow> bind_proc (sign_zagros_proposal L R proposal_id now) (\<lambda>_. finish (Some proposal_id))))))"

section \<open>The proposals of others\<close>

definition cosign_unlock ::
  "'m libs_scheme \<Rightarrow> 's outbound_relayer \<Rightarrow> nat \<Rightarrow> json \<Rightarrow> ('s, 'e, bool) proc" where
  "cosign_unlock L R now v =
     (if get_str ''tx_type'' v \<noteq> Some ''burn'' then finish False
      else case get_str ''proposal_id'' v of
          None \<Rightarrow> finish False
        | Some proposal_id \<Rightarrow>
            (case signing_message_from_json L v (or_chain_id R) of
               None \<Rightarrow> finish False
             | Some message \<Rightarrow>
                 if already_signed_by v (ri_authority_address (or_me R)) then finish False
                 else bind_proc (outcome_of (sign_bridge_proposal L (or_client R) (or_me R) proposal_id message now)) (\<lambda>signed_it.
                        finish (case signed_it of Inl e \<Rightarrow> False | Inr b \<Rightarrow> True))))"

fun cosign_unlocks :: "'m libs_scheme \<Rightarrow> 's outbound_relayer \<Rightarrow> nat \<Rightarrow> json list \<Rightarrow> ('s, 'e, nat) proc" where
  "cosign_unlocks L R now [] = finish 0"
| "cosign_unlocks L R now (v # vs) =
     bind_proc (cosign_unlock L R now v) (\<lambda>newly.
     bind_proc (cosign_unlocks L R now vs) (\<lambda>n. finish (if newly then n + 1 else n)))"

definition discover_and_cosign_pending_unlocks ::
  "'m libs_scheme \<Rightarrow> 's outbound_relayer \<Rightarrow> nat \<Rightarrow> ('s, 'e, nat) proc" where
  "discover_and_cosign_pending_unlocks L R now =
     bind_proc (outcome_of (get_pending_bridge_proposals (or_client R))) (\<lambda>pending.
       case pending of Inl e \<Rightarrow> finish 0 | Inr vs \<Rightarrow> cosign_unlocks L R now vs)"

section \<open>Making vouchers\<close>

definition eth_address_of_text :: "'m libs_scheme \<Rightarrow> string \<Rightarrow> bytes option" where
  "eth_address_of_text L s =
     (case lb_unhex L (trim_0x s) of None \<Rightarrow> None | Some bs \<Rightarrow> if length bs \<noteq> 20 then None else Some bs)"

definition h256_of_text :: "'m libs_scheme \<Rightarrow> string \<Rightarrow> bytes option" where
  "h256_of_text L s =
     (case lb_unhex L (trim_0x s) of None \<Rightarrow> None | Some bs \<Rightarrow> if length bs \<noteq> 32 then None else Some bs)"

definition voucher_of ::
  "'m libs_scheme \<Rightarrow> recoverable_signing \<Rightarrow> 's outbound_relayer \<Rightarrow> bridge_proposal \<Rightarrow> ready_voucher option" where
  "voucher_of L rs R p =
     Option.bind (eth_address_of_text L (bp_recipient p)) (\<lambda>recipient.
     Option.bind (h256_of_text L (bp_source_tx_hash p)) (\<lambda>zagros_tx_hash.
     Option.bind (scale_zerenya_to_token (bp_amount p) (or_unlock_token_decimals R)) (\<lambda>scaled.
       Some \<lparr>rd_proposal_id = ''0x'' @ lb_hex L (bp_proposal_id p),
         rd_voucher = \<lparr>rv_zagros_tx_hash = zagros_tx_hash, rv_token = or_unlock_token_address R, rv_recipient = recipient,
           rv_amount = sa_token_amount scaled, rv_signer = or_ethereum_relayer_address R,
           rv_signature = sign_claim rs (or_ethereum_signing_key R)
             (claim_digest_of_amount (lb_crypto L) (or_ethereum_chain_id R) (or_gateway_contract_address R)
               (or_unlock_token_address R) recipient (sa_token_amount scaled) zagros_tx_hash)\<rparr>\<rparr>)))"

definition unlock_due :: "'m libs_scheme \<Rightarrow> 's outbound_relayer \<Rightarrow> nat \<Rightarrow> json \<Rightarrow> bridge_proposal option" where
  "unlock_due L R now v =
     (if get_str ''tx_type'' v \<noteq> Some ''burn'' then None
      else case proposal_with_signatures_from_json L v of
          None \<Rightarrow> None
        | Some p \<Rightarrow>
            if count_valid_authority_signatures (lb_crypto L) (or_trusted_authorities R) p
                < bm_required_signatures (or_trusted_authorities R) then None
            else if now < sat_add u64_max (bp_timestamp p) (bm_timelock_period (or_trusted_authorities R)) then None
            else Some p)"

fun build_claim_vouchers ::
  "'m libs_scheme \<Rightarrow> recoverable_signing \<Rightarrow> 's outbound_relayer \<Rightarrow> nat \<Rightarrow> json list \<Rightarrow> ('s, string, ready_voucher list) proc" where
  "build_claim_vouchers L rs R now [] = finish []"
| "build_claim_vouchers L rs R now (v # vs) =
     (case unlock_due L R now v of
        None \<Rightarrow> build_claim_vouchers L rs R now vs
      | Some p \<Rightarrow>
          bind_proc (stored (is_unlock_submitted (or_store R) (''0x'' @ lb_hex L (bp_proposal_id p)))) (\<lambda>submitted.
            case (if submitted = Inr True then None else voucher_of L rs R p) of
              None \<Rightarrow> build_claim_vouchers L rs R now vs
            | Some ready \<Rightarrow> bind_proc (build_claim_vouchers L rs R now vs) (\<lambda>rest. finish (ready # rest))))"

definition submit_one_voucher ::
  "'m libs_scheme \<Rightarrow> relay_codec \<Rightarrow> 's outbound_relayer \<Rightarrow> nat \<Rightarrow> ready_voucher \<Rightarrow> ('s, 'e, unit) proc" where
  "submit_one_voucher L K R now r =
     bind_proc (outcome_of (submit_claim_voucher (or_client R) (rd_proposal_id r) (signature_hex L (rd_voucher r)))) (\<lambda>sent.
       case sent of
         Inl e \<Rightarrow> finish ()
       | Inr n \<Rightarrow> bind_proc (stored (mark_unlock_submitted K (or_store R) now (rd_proposal_id r))) (\<lambda>_. finish ()))"

fun submit_claim_vouchers ::
  "'m libs_scheme \<Rightarrow> relay_codec \<Rightarrow> 's outbound_relayer \<Rightarrow> nat \<Rightarrow> ready_voucher list \<Rightarrow> ('s, 'e, unit) proc" where
  "submit_claim_vouchers L K R now [] = finish ()"
| "submit_claim_vouchers L K R now (r # rs) =
     bind_proc (submit_one_voucher L K R now r) (\<lambda>_. submit_claim_vouchers L K R now rs)"

section \<open>A poll\<close>

record burn_retry_payload =
  bt_tx_id_hex :: string
  bt_sender :: string
  bt_amount :: nat

record burn_codec =
  bk_serialize :: "burn_retry_payload \<Rightarrow> bytes option"
  bk_deserialize :: "bytes \<Rightarrow> burn_retry_payload option"

text \<open>A burn that could not be handled is queued, and its index noted.\<close>

definition queue_burn ::
  "relay_codec \<Rightarrow> burn_codec \<Rightarrow> 's outbound_relayer \<Rightarrow> nat \<Rightarrow> seen_burn \<Rightarrow> ('s, 'e, unit) proc" where
  "queue_burn K B R now r =
     (case bk_serialize B \<lparr>bt_tx_id_hex = sb_tx_id_hex r, bt_sender = sb_sender r, bt_amount = sb_amount r\<rparr> of
        None \<Rightarrow> finish ()
      | Some bs \<Rightarrow> bind_proc (stored (enqueue_retry K (or_store R) (sb_tx_id_hex r) bs now)) (\<lambda>_. finish ()))"

fun try_burns ::
  "'m libs_scheme \<Rightarrow> relay_codec \<Rightarrow> burn_codec \<Rightarrow> 's outbound_relayer \<Rightarrow> nat \<Rightarrow> seen_burn list \<Rightarrow> ('s, 'e, nat list) proc" where
  "try_burns L K B R now [] = finish []"
| "try_burns L K B R now (r # rs) =
     bind_proc (outcome_of (handle_new_burn L K R (sb_tx_id_hex r) (sb_sender r) (sb_amount r) now)) (\<lambda>handled.
       case handled of
         Inr pid \<Rightarrow> try_burns L K B R now rs
       | Inl e \<Rightarrow>
           bind_proc (queue_burn K B R now r) (\<lambda>_.
           bind_proc (try_burns L K B R now rs) (\<lambda>failed. finish (sb_index r # failed))))"

definition keep_outbound_cursor :: "relay_codec \<Rightarrow> 's outbound_relayer \<Rightarrow> nat \<Rightarrow> ('s, 'e, nat) proc" where
  "keep_outbound_cursor K R cursor = bind_proc (stored (set_outbound_cursor K (or_store R) cursor)) (\<lambda>_. finish cursor)"

definition scan_burns ::
  "'m libs_scheme \<Rightarrow> relay_codec \<Rightarrow> burn_codec \<Rightarrow> 's outbound_relayer \<Rightarrow> nat \<Rightarrow> json \<Rightarrow> nat \<Rightarrow> ('s, 'e, nat) proc" where
  "scan_burns L K B R now resp cursor =
     (case parse_burns_response resp cursor of
        Inr records \<Rightarrow>
          bind_proc (try_burns L K B R now records) (\<lambda>failed_indices.
          bind_proc (next_cursor_after_partial_failure cursor records failed_indices) (keep_outbound_cursor K R))
      | Inl gap \<Rightarrow>
          if or_auto_recover_cursor_gap R then keep_outbound_cursor K R (cg_oldest_available_index gap)
          else finish cursor)"

definition retry_burn ::
  "'m libs_scheme \<Rightarrow> relay_codec \<Rightarrow> burn_codec \<Rightarrow> 's outbound_relayer \<Rightarrow> nat \<Rightarrow> (retry_entry \<Rightarrow> int) \<Rightarrow> retry_entry \<Rightarrow> ('s, 'e, unit) proc" where
  "retry_burn L K B R now jitter entry =
     (case bk_deserialize B (re_payload entry) of
        None \<Rightarrow> finish ()
      | Some payload \<Rightarrow>
          bind_proc (outcome_of (handle_new_burn L K R (bt_tx_id_hex payload) (bt_sender payload) (bt_amount payload) now)) (\<lambda>handled.
            case handled of
              Inr pid \<Rightarrow> bind_proc (stored (remove_retry (or_store R) (re_id entry))) (\<lambda>_. finish ())
            | Inl e \<Rightarrow> bind_proc (stored (reschedule_retry K (or_store R) (jitter entry) entry now)) (\<lambda>_. finish ())))"

fun retry_burns ::
  "'m libs_scheme \<Rightarrow> relay_codec \<Rightarrow> burn_codec \<Rightarrow> 's outbound_relayer \<Rightarrow> nat \<Rightarrow> (retry_entry \<Rightarrow> int) \<Rightarrow> retry_entry list \<Rightarrow> ('s, 'e, unit) proc" where
  "retry_burns L K B R now jitter [] = finish ()"
| "retry_burns L K B R now jitter (entry # entries) =
     bind_proc (retry_burn L K B R now jitter entry) (\<lambda>_. retry_burns L K B R now jitter entries)"

text \<open>The result is the cursor and whether the node could be reached.\<close>

definition poll_once ::
  "'m libs_scheme \<Rightarrow> relay_codec \<Rightarrow> burn_codec \<Rightarrow> recoverable_signing \<Rightarrow> 's outbound_relayer \<Rightarrow> (retry_entry \<Rightarrow> int) \<Rightarrow> nat \<Rightarrow> nat \<Rightarrow>
   ('s, string, nat \<times> bool) proc" where
  "poll_once L K B rs R jitter cursor now =
     bind_proc (outcome_of (get_recent_bridge_burns (or_client R) cursor)) (\<lambda>burns.
     bind_proc (case burns of Inr resp \<Rightarrow> scan_burns L K B R now resp cursor | Inl e \<Rightarrow> finish cursor) (\<lambda>cursor'.
     bind_proc (stored (due_retries K (or_store R) now)) (\<lambda>due.
     bind_proc (case due of Inr entries \<Rightarrow> retry_burns L K B R now jitter entries | Inl e \<Rightarrow> finish ()) (\<lambda>_.
     bind_proc (discover_and_cosign_pending_unlocks L R now) (\<lambda>_.
     bind_proc (outcome_of (get_pending_bridge_proposals (or_client R))) (\<lambda>pending.
     bind_proc (build_claim_vouchers L rs R now (case pending of Inr vs \<Rightarrow> vs | Inl e \<Rightarrow> [])) (\<lambda>ready.
     bind_proc (submit_claim_vouchers L K R now ready) (\<lambda>_.
       finish (cursor', \<not> isl burns \<and> \<not> isl pending)))))))))"

end
