(* ===== verification/OutboundFacts.thy ===== *)
theory OutboundFacts
  imports CosignFacts Outbound
begin

text \<open>
  What the relayer's way out promises: a proposal is read back from JSON as it was written, so relayers sign what
  the node checks; a claim voucher is made only for a burn that a quorum of the relayer's own authorities signed
  and whose lock has run out; and the node accepts the vouchers for the proposals it can read itself. And what it
  does not: which burns exist is left to the node, and a recipient with two prefixes gets a voucher no node takes.
\<close>

section \<open>Reading a proposal back\<close>

definition hex_reads_back :: "'m libs_scheme \<Rightarrow> bool" where
  "hex_reads_back L \<longleftrightarrow> (\<forall>b. lb_unhex L (lb_hex L b) = Some b \<and> CHR ''x'' \<notin> set (lb_hex L b))"

definition in_range :: "bridge_proposal \<Rightarrow> bool" where
  "in_range p \<longleftrightarrow> length (bp_proposal_id p) = 32 \<and> bp_amount p \<le> u128_max \<and> bp_timestamp p \<le> u64_max \<and>
     bp_nonce p \<le> u64_max \<and> bp_amount_out_min p \<le> u128_max \<and> list_all (\<lambda>s. bs_timestamp s \<le> u64_max) (bp_signatures p)"

lemma trim_hex: "hex_reads_back L \<Longrightarrow> trim_0x (''0x'' @ lb_hex L b) = lb_hex L b"
  by (simp add: hex_reads_back_def trim_0x_none)

lemma decode_written: "hex_reads_back L \<Longrightarrow> length b = 32 \<Longrightarrow> decode_hash L (''0x'' @ lb_hex L b) = Some b"
  using trim_hex [of L b] by (simp add: decode_hash_def hex_reads_back_def)

lemma signature_reads_back:
  "hex_reads_back L \<Longrightarrow> bs_timestamp sig \<le> u64_max \<Longrightarrow> parse_bridge_signature_json L (signature_json L sig) = Some sig"
  using trim_hex [of L "bs_signature sig"] trim_hex [of L "bs_public_key sig"]
  by (simp add: parse_bridge_signature_json_def signature_json_def get_str_def get_uint_def json_get_def as_str_def
      decode_hex_bytes_def hex_reads_back_def parse_uint_show_nat)

lemma signatures_read_back:
  assumes "hex_reads_back L" "list_all (\<lambda>s. bs_timestamp s \<le> u64_max) sigs"
  shows "List.map_filter (parse_bridge_signature_json L) (map (signature_json L) sigs) = sigs"
  using assms(2) by (induction sigs) (simp_all add: signature_reads_back [OF assms(1)] List.map_filter_simps)

lemma type_reads_back: "tx_type_of_str (bridge_tx_type_str t) = Some t"
  by (cases t) (simp_all add: tx_type_of_str_def bridge_tx_type_str_def)

lemma proposal_reads_back:
  assumes "hex_reads_back L" "in_range p"
  shows "proposal_with_signatures_from_json L (bridge_proposal_json L vs b p) = Some (p\<lparr>bp_claim_vouchers := []\<rparr>)"
proof -
  let ?v = "bridge_proposal_json L vs b p"
  have strs: "get_str ''proposal_id'' ?v = Some (''0x'' @ lb_hex L (bp_proposal_id p))"
    "get_str ''tx_type'' ?v = Some (bridge_tx_type_str (bp_tx_type p))" "get_str ''recipient'' ?v = Some (bp_recipient p)"
    "get_str ''source_chain'' ?v = Some (bp_source_chain p)" "get_str ''source_tx_hash'' ?v = Some (bp_source_tx_hash p)"
    "get_bool ''executed'' ?v = Some (bp_executed p)" "get_bool ''auto_swap'' ?v = Some (bp_auto_swap p)"
    by (simp_all add: bridge_proposal_json_def get_str_def get_bool_def json_get_def as_str_def as_bool_def)
  have nums: "get_uint u128_max ''amount'' ?v = Some (bp_amount p)" "get_uint u64_max ''timestamp'' ?v = Some (bp_timestamp p)"
    "get_uint u64_max ''nonce'' ?v = Some (bp_nonce p)" "get_uint u128_max ''amount_out_min'' ?v = Some (bp_amount_out_min p)"
    using assms(2) by (simp_all add: bridge_proposal_json_def get_uint_def get_str_def json_get_def as_str_def in_range_def
        parse_uint_show_nat)
  have "signatures_from_json L ?v = bp_signatures p"
    using signatures_read_back [OF assms(1)] assms(2)
    by (simp add: signatures_from_json_def bridge_proposal_json_def json_get_def as_array_def in_range_def)
  then show ?thesis
    using assms(2) decode_written [OF assms(1), of "bp_proposal_id p"]
    by (simp add: proposal_with_signatures_from_json_def unsigned_proposal_from_json_def strs nums type_reads_back
        uint_or_zero_def in_range_def)
qed

section \<open>Vouchers\<close>

lemma collect_signers_spec:
  "set (collect_signers name valid counted sigs) \<subseteq> set counted \<union> name ` {s \<in> set sigs. valid s}"
  "distinct counted \<Longrightarrow> distinct (collect_signers name valid counted sigs)"
  by (induction sigs arbitrary: counted) (fastforce split: if_splits)+

text \<open>The authorities that signed a proposal, by the relayer's own list of them.\<close>

definition authorised_by :: "crypto_env \<Rightarrow> bridge_manager \<Rightarrow> bridge_proposal \<Rightarrow> address \<Rightarrow> bool" where
  "authorised_by E M p a \<longleftrightarrow> (\<exists>auth sig. map_of (bm_authorities M) a = Some auth \<and> ba_is_active auth \<and> sig \<in> set (bp_signatures p) \<and>
     verify_ed25519 E (bind_timestamp_to_message E (create_signing_message E p (bm_chain_id M)) (bs_timestamp sig))
       (bs_signature sig) (ba_public_key auth))"

lemma counted_signed:
  "\<exists>A. finite A \<and> card A = count_valid_authority_signatures E M p \<and> (\<forall>a \<in> A. authorised_by E M p a)"
proof -
  let ?m = "create_signing_message E p (bm_chain_id M)"
  let ?l = "collect_signers bs_authority (authority_signature_ok E M ?m) [] (bp_signatures p)"
  have "authorised_by E M p a" if "a \<in> set ?l" for a
  proof -
    have "a \<in> bs_authority ` {s \<in> set (bp_signatures p). authority_signature_ok E M ?m s}"
      using that collect_signers_spec(1) [of bs_authority "authority_signature_ok E M ?m" "[]" "bp_signatures p"] by auto
    then show ?thesis
      unfolding authorised_by_def authority_signature_ok_def authenticate_authority_request_def
      by (auto split: option.splits)
  qed
  moreover have "card (set ?l) = count_valid_authority_signatures E M p"
    unfolding count_valid_authority_signatures_def by (rule distinct_card) (rule collect_signers_spec(2), simp)
  ultimately show ?thesis by (intro exI [of _ "set ?l"]) auto
qed

lemma voucher_due:
  assumes "build_claim_vouchers L rs R now vs s = (Inr ready, s')" "r \<in> set ready"
  shows "\<exists>v \<in> set vs. \<exists>p. unlock_due L R now v = Some p \<and> voucher_of L rs R p = Some r"
  using assms
proof (induction vs arbitrary: s ready)
  case (Cons v vs)
  show ?case
  proof (cases "unlock_due L R now v")
    case None
    then show ?thesis using Cons.IH Cons.prems by fastforce
  next
    case (Some p)
    then obtain submitted :: "bool result" and s1 where rest:
      "(case (if submitted = Inr True then None else voucher_of L rs R p) of
         None \<Rightarrow> build_claim_vouchers L rs R now vs
       | Some q \<Rightarrow> bind_proc (build_claim_vouchers L rs R now vs) (\<lambda>rest. finish (q # rest))) s1 = (Inr ready, s')"
      using Cons.prems(1) by (auto simp: bind_proc_Inr)
    then consider "build_claim_vouchers L rs R now vs s1 = (Inr ready, s')"
      | q rest s2 where "voucher_of L rs R p = Some q" "build_claim_vouchers L rs R now vs s1 = (Inr rest, s2)"
          "ready = q # rest" "s' = s2"
      by (auto simp: bind_proc_Inr finish_def split: option.splits if_splits)
    then show ?thesis using Cons.IH Cons.prems(2) Some by cases fastforce+
  qed
qed (simp add: finish_def)

text \<open>
  C23: a claim voucher, which the gateway contract pays on, is made only for a burn that a quorum signed: whatever
  the node answers, the voucher is for a proposal among its answers that as many different active authorities as
  the relayer itself requires, by its own list of keys, have signed, it pays the recipient and the scaled amount
  of exactly that proposal, and the lock has run out.
\<close>

theorem vouchers_need_a_quorum:
  assumes "build_claim_vouchers L rs R now vs s = (Inr ready, s')" "r \<in> set ready"
  shows "\<exists>v p A. v \<in> set vs \<and> proposal_with_signatures_from_json L v = Some p \<and> bp_tx_type p = Burn \<and>
    voucher_of L rs R p = Some r \<and>
    sat_add u64_max (bp_timestamp p) (bm_timelock_period (or_trusted_authorities R)) \<le> now \<and>
    finite A \<and> bm_required_signatures (or_trusted_authorities R) \<le> card A \<and>
    (\<forall>a \<in> A. authorised_by (lb_crypto L) (or_trusted_authorities R) p a)"
proof -
  obtain v p where v: "v \<in> set vs" "unlock_due L R now v = Some p" and r: "voucher_of L rs R p = Some r"
    using voucher_due [OF assms] by blast
  then have due: "get_str ''tx_type'' v = Some ''burn''" "proposal_with_signatures_from_json L v = Some p"
    "bm_required_signatures (or_trusted_authorities R) \<le> count_valid_authority_signatures (lb_crypto L) (or_trusted_authorities R) p"
    "sat_add u64_max (bp_timestamp p) (bm_timelock_period (or_trusted_authorities R)) \<le> now"
    by (auto simp: unlock_due_def split: if_splits option.splits)
  then have "bp_tx_type p = Burn"
    by (auto simp: proposal_with_signatures_from_json_def unsigned_proposal_from_json_def tx_type_of_str_def bind_eq_Some_conv)
  then show ?thesis
    using v(1) r due counted_signed [of "lb_crypto L" "or_trusted_authorities R" p] by metis
qed

section \<open>The node takes the vouchers\<close>

text \<open>secp256k1, for one key: the signature is low, and recovers to the public key whose address is \<open>addr\<close>.\<close>

definition recovers_to ::
  "crypto_env \<Rightarrow> recoverable_signing \<Rightarrow> (nat \<Rightarrow> bytes \<Rightarrow> hash \<Rightarrow> bytes option) \<Rightarrow> bytes \<Rightarrow> bytes \<Rightarrow> bool" where
  "recovers_to E rs recover_uncompressed secret_key addr \<longleftrightarrow>
     (\<forall>digest. \<exists>compact recovery_id uncompressed. rs secret_key digest = (compact, recovery_id) \<and> length compact = 64 \<and>
        recovery_id \<in> {0, 1} \<and> \<not> HALF_ORDER < drop 32 compact \<and>
        recover_uncompressed recovery_id compact digest = Some uncompressed \<and> drop 12 (keccak E (drop 1 uncompressed)) = addr)"

lemma recovered:
  assumes "recovers_to E rs recover_uncompressed secret_key addr"
  shows "recover_claim_signer E recover_uncompressed digest (sign_claim rs secret_key digest) = Some addr"
    and "length (sign_claim rs secret_key digest) = 65"
proof -
  obtain compact i u where c: "rs secret_key digest = (compact, i)" "length compact = 64" "i \<in> {0, 1}"
    "\<not> HALF_ORDER < drop 32 compact" "recover_uncompressed i compact digest = Some u" "drop 12 (keccak E (drop 1 u)) = addr"
    using assms unfolding recovers_to_def by blast
  have "sign_claim rs secret_key digest = compact @ [27 + of_nat i]" by (simp add: sign_claim_def c(1))
  moreover have "take 64 (compact @ [27 + of_nat i]) = compact" "(compact @ [27 + of_nat i]) ! 64 = (27 + of_nat i :: 8 word)"
    "take 32 (drop 32 (compact @ [27 + of_nat i])) = drop 32 compact"
    using c(2) by (simp_all add: nth_append)
  ultimately show "recover_claim_signer E recover_uncompressed digest (sign_claim rs secret_key digest) = Some addr"
    "length (sign_claim rs secret_key digest) = 65"
    using c(2-6) by (auto simp: recover_claim_signer_def)
qed

lemma le_bytes_pad: "n < 256 ^ k \<Longrightarrow> le_bytes (k + j) n = le_bytes k n @ replicate j 0"
proof (induction k arbitrary: n)
  case 0
  then show ?case by (induction j) simp_all
next
  case (Suc k)
  then have "n div 256 < 256 ^ k" by (simp add: div_less_iff_less_mult mult.commute)
  then show ?case using Suc.IH by simp
qed

lemma amount_in_32_bytes: "n \<le> u128_max \<Longrightarrow> be_bytes 32 n = amount_to_be_bytes n"
  using le_bytes_pad [of n 16 16] by (simp add: be_bytes_def amount_to_be_bytes_def)

lemma in_put_voucher: "\<lparr>cv_signer = signer, cv_signature = sig\<rparr> \<in> set (put_voucher signer sig vs)"
  by (induction vs) (auto intro: claim_voucher.equality)

definition same_gateway :: "'s outbound_relayer \<Rightarrow> claim_context \<Rightarrow> bool" where
  "same_gateway R ctx \<longleftrightarrow> cc_chain_id ctx = or_ethereum_chain_id R \<and> cc_gateway ctx = or_gateway_contract_address R \<and>
     cc_token ctx = or_unlock_token_address R \<and> cc_token_decimals ctx = or_unlock_token_decimals R"

lemma voucher_digest_signed:
  assumes "voucher_of L rs R p = Some r" and "same_gateway R ctx" and "bp_amount p \<le> u128_max"
    and "strip_0x (bp_recipient p) = trim_0x (bp_recipient p)" "strip_0x (bp_source_tx_hash p) = trim_0x (bp_source_tx_hash p)"
  shows "\<exists>digest. voucher_digest L ctx p = Inr digest \<and>
    rv_signature (rd_voucher r) = sign_claim rs (or_ethereum_signing_key R) digest"
proof -
  obtain recipient tx_hash scaled where v: "eth_address_of_text L (bp_recipient p) = Some recipient"
    "h256_of_text L (bp_source_tx_hash p) = Some tx_hash"
    "scale_zerenya_to_token (bp_amount p) (or_unlock_token_decimals R) = Some scaled"
    and r: "rv_signature (rd_voucher r) = sign_claim rs (or_ethereum_signing_key R)
      (claim_digest_of_amount (lb_crypto L) (or_ethereum_chain_id R) (or_gateway_contract_address R)
        (or_unlock_token_address R) recipient (sa_token_amount scaled) tx_hash)"
    using assms(1) by (auto simp: voucher_of_def bind_eq_Some_conv)
  have "sa_token_amount scaled \<le> bp_amount p"
    using v(3) by (auto simp: scale_zerenya_to_token_def Let_def split: if_splits)
  then have "be_bytes 32 (sa_token_amount scaled) = amount_to_be_bytes (sa_token_amount scaled)"
    using assms(3) by (simp add: amount_in_32_bytes)
  then show ?thesis
    using v r assms(2,4,5)
    by (auto simp: voucher_digest_def parse_eth_address_def parse_h256_def parse_hex_of_length_def eth_address_of_text_def
        h256_of_text_def claim_digest_of_amount_def same_gateway_def split: option.splits if_splits)
qed

lemma voucher_of_unvouched: "voucher_of L rs R (p\<lparr>bp_claim_vouchers := vs\<rparr>) = voucher_of L rs R p"
  by (simp add: voucher_of_def)

text \<open>\<open>hex::decode\<close> refuses text with a letter that is no hexadecimal digit, so with an \<open>x\<close>.\<close>

definition hex_is_strict :: "'m libs_scheme \<Rightarrow> bool" where
  "hex_is_strict L \<longleftrightarrow> (\<forall>s b. lb_unhex L s = Some b \<longrightarrow> CHR ''x'' \<notin> set s)"

lemma read_once_prefixed: "CHR ''x'' \<notin> set (strip_0x s) \<Longrightarrow> strip_0x s = trim_0x s"
proof (cases "starts_with s ''0x''")
  case True
  assume x: "CHR ''x'' \<notin> set (strip_0x s)"
  from True obtain t where "s = ''0x'' @ t" unfolding starts_with_def by (metis append_take_drop_id)
  then show ?thesis using x True by (simp add: strip_0x_def trim_0x_none starts_with_def)
qed (simp add: strip_0x_def trim_0x_none)

lemma node_reads_once_prefixed:
  assumes "hex_is_strict L"
  shows "parse_eth_address (lb_unhex L) s \<noteq> None \<Longrightarrow> strip_0x s = trim_0x s"
    and "parse_h256 (lb_unhex L) s \<noteq> None \<Longrightarrow> strip_0x s = trim_0x s"
  using assms
  by (auto simp: parse_eth_address_def parse_h256_def parse_hex_of_length_def hex_is_strict_def
      intro!: read_once_prefixed split: option.splits)

text \<open>
  C24: the node and the vouchers of a relayer. Let relayer and node agree on the gateway contract, the relayer's
  Ethereum address be one of those the node is configured with, and the relayer make a voucher from the node's own
  JSON of a burn proposal whose numbers fit their types. If the node itself can read the proposal's recipient and
  burn hash (hexadecimal with at most one prefix \<open>0x\<close>), it accepts the voucher and stores it with the proposal
  under the relayer's address: the two digests, computed in two places from two representations, are the same. If
  it cannot, it refuses the voucher; the relayer, which takes off every prefix \<open>0x\<close>, may have made one all the
  same (\<open>twice_prefixed_recipient_is_refused\<close>). Assumed of the libraries: hex reads back what it wrote and refuses
  an \<open>x\<close>, and recovering the signer of the relayer's secp256k1 signature gives its address.
\<close>

theorem node_accepts_vouchers:
  assumes "hex_reads_back L" "hex_is_strict L" "in_range p"
    and "recovers_to (lb_crypto L) rs recover_uncompressed (or_ethereum_signing_key R) (or_ethereum_relayer_address R)"
    and "unlock_due L R now (bridge_proposal_json L vs b p) = Some q" "voucher_of L rs R q = Some r"
    and "map_of (bm_proposals M) pid = Some p" "bp_tx_type p = Burn"
    and "bm_claim_context M = Some ctx" "same_gateway R ctx" "or_ethereum_relayer_address R \<in> set (cc_relayers ctx)"
  shows "if parse_eth_address (lb_unhex L) (bp_recipient p) \<noteq> None \<and> parse_h256 (lb_unhex L) (bp_source_tx_hash p) \<noteq> None
    then \<exists>M' p'. add_claim_voucher L recover_uncompressed pid (signature_hex L (rd_voucher r)) M =
        Inr (M', ''0x'' @ lb_hex L (or_ethereum_relayer_address R)) \<and> map_of (bm_proposals M') pid = Some p' \<and>
      \<lparr>cv_signer = ''0x'' @ lb_hex L (or_ethereum_relayer_address R), cv_signature = signature_hex L (rd_voucher r)\<rparr>
        \<in> set (bp_claim_vouchers p')
    else \<exists>e. add_claim_voucher L recover_uncompressed pid (signature_hex L (rd_voucher r)) M = Inl e"
proof (cases "parse_eth_address (lb_unhex L) (bp_recipient p) \<noteq> None \<and> parse_h256 (lb_unhex L) (bp_source_tx_hash p) \<noteq> None")
  case True
  have "q = p\<lparr>bp_claim_vouchers := []\<rparr>"
    using assms(5) proposal_reads_back [OF assms(1,3)] by (auto simp: unlock_due_def split: if_splits)
  then have "voucher_of L rs R p = Some r" using assms(6) by (simp add: voucher_of_unvouched)
  from voucher_digest_signed [OF this assms(10) _ node_reads_once_prefixed(1) [OF assms(2)]
      node_reads_once_prefixed(2) [OF assms(2)]] True assms(3)
  obtain digest where d: "voucher_digest L ctx p = Inr digest"
    "rv_signature (rd_voucher r) = sign_claim rs (or_ethereum_signing_key R) digest" by (auto simp: in_range_def)
  have "lb_unhex L (strip_0x (signature_hex L (rd_voucher r))) = Some (rv_signature (rd_voucher r))"
    using assms(1) by (simp add: signature_hex_def strip_0x_def starts_with_def hex_reads_back_def)
  then have "voucher_signer L recover_uncompressed ctx digest (signature_hex L (rd_voucher r)) =
      Inr (or_ethereum_relayer_address R, rv_signature (rd_voucher r))"
    using recovered [OF assms(4), of digest] assms(11) d(2) by (simp add: voucher_signer_def)
  then show ?thesis
    using assms(7-9) d(1) True by (simp add: add_claim_voucher_def Let_def update_conv' signature_hex_def in_put_voucher)
next
  case False
  then have "\<exists>e. voucher_digest L ctx p = Inl e"
    by (auto simp: voucher_digest_def split: option.splits)
  then show ?thesis using assms(7-9) False by (auto simp: add_claim_voucher_def Let_def)
qed

section \<open>The burn cursor\<close>

text \<open>The cursor stays at or before a burn that failed, unless it had passed it already.\<close>

lemma foldr_min_le: "i \<in> set (j # is) \<Longrightarrow> foldr min is (j :: nat) \<le> i"
  by (induction "is") auto

lemma cursor_before_failures:
  assumes "next_cursor_after_partial_failure current records failed_indices s = (Inr cursor, s')"
    and "i \<in> set failed_indices"
  shows "cursor \<le> max i current"
  using assms foldr_min_le [of i]
  by (cases failed_indices) (auto simp: next_cursor_after_partial_failure_def finish_def intro: max.mono)

section \<open>What is left to the node\<close>

text \<open>
  Whatever burn proposal the node lists, a relayer that has not signed it yet signs it: no record of the burn is
  asked for, and nothing is compared. So the quorum above is a quorum of what the relayers' nodes say.
\<close>

lemma call_posted:
  "snd (snd (client_call (logging C) name args (s, l))) = l @ [JObject [(''jsonrpc'', JString ''2.0''), (''id'', JNumber 1),
     (''method'', JString name), (''params'', JArray args)]]"
  by (simp add: client_call_def logging_def read_answer_state split: prod.split)

lemma finished_state: "snd (bind_proc m (\<lambda>x. finish (f x)) s) = snd (m s)"
  by (simp add: bind_proc_def finish_def split: prod.split sum.split)

lemma sign_posted:
  "snd (snd (sign_bridge_proposal L (logging C) me proposal_id message now (s, l))) = l @ [sign_request L me proposal_id message now]"
  by (simp add: sign_bridge_proposal_def Let_def finished_state call_posted sign_request_def)

lemma outcome_state: "snd (outcome_of m s) = snd (m s)"
  by (simp add: outcome_of_def split: prod.split sum.split fault.split)

theorem unlocks_are_cosigned_unseen:
  assumes "or_client R = logging C" "get_str ''tx_type'' v = Some ''burn''" "get_str ''proposal_id'' v = Some proposal_id"
    and "signing_message_from_json L v (or_chain_id R) = Some message"
    and "\<not> already_signed_by v (ri_authority_address (or_me R))"
  shows "snd (snd (cosign_unlock L R now v (s, l))) = l @ [sign_request L (or_me R) proposal_id message now]"
  by (simp add: cosign_unlock_def assms finished_state outcome_state sign_posted)

section \<open>Samples\<close>

text \<open>For the witnesses of the way out: two authorities, a burn both have signed, and a signer of claims.\<close>

definition sample_signature :: "string \<Rightarrow> bytes \<Rightarrow> bytes \<Rightarrow> bridge_signature" where
  "sample_signature a k m = \<lparr>bs_authority = a, bs_signature = ed_sign sample_crypto k (bind_timestamp_to_message sample_crypto m 7),
     bs_public_key = k, bs_timestamp = 7\<rparr>"

definition unsigned_burn :: bridge_proposal where
  "unsigned_burn = \<lparr>bp_proposal_id = replicate 32 7, bp_tx_type = Burn, bp_amount = 5,
     bp_recipient = ''0x'' @ lb_hex relay_libs (replicate 20 1), bp_source_chain = ''Zagros'',
     bp_source_tx_hash = ''0x'' @ lb_hex relay_libs (replicate 32 2), bp_timestamp = 7, bp_signatures = [],
     bp_executed = False, bp_nonce = 1, bp_auto_swap = False, bp_amount_out_min = 0, bp_claim_vouchers = []\<rparr>"

definition sample_burn :: bridge_proposal where
  "sample_burn = unsigned_burn\<lparr>bp_signatures :=
     [sample_signature ''a'' (replicate 32 1) (create_signing_message sample_crypto unsigned_burn 1),
      sample_signature ''b'' (replicate 32 2) (create_signing_message sample_crypto unsigned_burn 1)]\<rparr>"

definition sample_claims :: claim_context where
  "sample_claims = \<lparr>cc_chain_id = 1, cc_gateway = replicate 20 3, cc_token = replicate 20 4,
     cc_token_decimals = ZERENYA_DECIMALS, cc_relayers = [replicate 20 5]\<rparr>"

definition sample_manager :: bridge_manager where
  "sample_manager = \<lparr>bm_authorities =
       [(''a'', \<lparr>ba_address = ''a'', ba_public_key = replicate 32 1, ba_is_active = True\<rparr>),
        (''b'', \<lparr>ba_address = ''b'', ba_public_key = replicate 32 2, ba_is_active = True\<rparr>)],
     bm_required_signatures = 2, bm_proposals = [(replicate 32 7, sample_burn)], bm_daily_mint_limit = 0,
     bm_daily_minted = 0, bm_last_reset = 0, bm_timelock_period = 10, bm_chain_id = 1, bm_nonce_counter = 0,
     bm_claim_context = Some sample_claims\<rparr>"

definition sample_outbound :: "unit outbound_relayer" where
  "sample_outbound = \<lparr>or_client = sample_client, or_store = plain_storage, or_me = sample_me,
     or_ethereum_signing_key = [9], or_ethereum_relayer_address = replicate 20 5,
     or_gateway_contract_address = replicate 20 3, or_unlock_token_address = replicate 20 4,
     or_unlock_token_decimals = ZERENYA_DECIMALS, or_ethereum_chain_id = 1, or_chain_id = 1,
     or_trusted_authorities = sample_manager, or_auto_recover_cursor_gap = False\<rparr>"

definition sample_compact :: bytes where
  "sample_compact = replicate 32 0 @ 0 # replicate 31 0"

definition sample_rs :: recoverable_signing where
  "sample_rs k digest = (sample_compact, 0)"

definition sample_recover :: "nat \<Rightarrow> bytes \<Rightarrow> hash \<Rightarrow> bytes option" where
  "sample_recover i compact digest = Some (4 # replicate 32 5)"

lemma relay_hex_strict: "hex_is_strict relay_libs"
  using letters_strict by (simp add: hex_is_strict_def relay_libs_def)

lemma relay_hex: "hex_reads_back relay_libs"
  using letters_back letters_no_x by (simp add: hex_reads_back_def relay_libs_def)

lemma sample_recovers: "recovers_to sample_crypto sample_rs sample_recover k (replicate 20 5)"
  by (simp add: recovers_to_def sample_rs_def sample_recover_def sample_compact_def sample_crypto_def sample_keccak_def
      HALF_ORDER_def)

lemma sample_burn_in_range: "in_range sample_burn"
  by (simp add: in_range_def sample_burn_def unsigned_burn_def sample_signature_def)

lemma sample_message_same: "create_signing_message sample_crypto sample_burn 1 = create_signing_message sample_crypto unsigned_burn 1"
  by (simp add: create_signing_message_def signing_fields_def sample_burn_def)

lemma sample_signature_ok:
  assumes "map_of (bm_authorities sample_manager) a = Some \<lparr>ba_address = a, ba_public_key = k, ba_is_active = True\<rparr>" "length k = 32"
  shows "authority_signature_ok sample_crypto sample_manager m (sample_signature a k m)"
  using assms
  by (simp add: authority_signature_ok_def authenticate_authority_request_def sample_signature_def verify_ed25519_def
      bind_timestamp_to_message_def) (simp add: sample_crypto_def)

lemma sample_count: "count_valid_authority_signatures sample_crypto sample_manager sample_burn = 2"
proof -
  let ?m = "create_signing_message sample_crypto unsigned_burn 1"
  have a: "authority_signature_ok sample_crypto sample_manager ?m (sample_signature ''a'' (replicate 32 1) ?m)"
    by (rule sample_signature_ok) (simp_all add: sample_manager_def)
  have b: "authority_signature_ok sample_crypto sample_manager ?m (sample_signature ''b'' (replicate 32 2) ?m)"
    by (rule sample_signature_ok) (simp_all add: sample_manager_def)
  have "bm_chain_id sample_manager = 1" by (simp add: sample_manager_def)
  moreover have "bp_signatures sample_burn = [sample_signature ''a'' (replicate 32 1) ?m, sample_signature ''b'' (replicate 32 2) ?m]"
    by (simp add: sample_burn_def)
  ultimately show ?thesis
    using a b by (simp add: count_valid_authority_signatures_def sample_message_same del: One_nat_def) (simp add: sample_signature_def)
qed

lemma sample_due:
  "unlock_due relay_libs sample_outbound 17 (bridge_proposal_json relay_libs JNull True sample_burn) = Some sample_burn"
proof -
  have "get_str ''tx_type'' (bridge_proposal_json relay_libs JNull True sample_burn) = Some ''burn''"
    by (simp add: bridge_proposal_json_def get_str_def json_get_def as_str_def bridge_tx_type_str_def sample_burn_def unsigned_burn_def)
  moreover have "proposal_with_signatures_from_json relay_libs (bridge_proposal_json relay_libs JNull True sample_burn) = Some sample_burn"
    using proposal_reads_back [OF relay_hex sample_burn_in_range] by (simp add: sample_burn_def unsigned_burn_def)
  moreover have "lb_crypto relay_libs = sample_crypto" by (simp add: relay_libs_def sample_libs_def)
  moreover have "or_trusted_authorities sample_outbound = sample_manager" by (simp add: sample_outbound_def)
  moreover have "bm_required_signatures sample_manager = 2" "bm_timelock_period sample_manager = 10" "bp_timestamp sample_burn = 7"
    by (simp_all add: sample_manager_def sample_burn_def unsigned_burn_def)
  ultimately show ?thesis by (simp add: unlock_due_def sample_count sat_add_def)
qed

lemma sample_voucher: "\<exists>r. voucher_of relay_libs sample_rs sample_outbound sample_burn = Some r"
proof -
  have "trim_0x (bp_recipient sample_burn) = lb_hex relay_libs (replicate 20 1)"
    "trim_0x (bp_source_tx_hash sample_burn) = lb_hex relay_libs (replicate 32 2)"
    using trim_hex [OF relay_hex] by (simp_all add: sample_burn_def unsigned_burn_def)
  then show ?thesis
    using relay_hex
    by (simp add: voucher_of_def eth_address_of_text_def h256_of_text_def hex_reads_back_def scale_zerenya_to_token_def
        sample_outbound_def) (simp add: sample_burn_def unsigned_burn_def)
qed

lemma sample_built:
  "\<exists>r. build_claim_vouchers relay_libs sample_rs sample_outbound 17 [bridge_proposal_json relay_libs JNull True sample_burn] s = (Inr [r], s)"
proof -
  obtain r where r: "voucher_of relay_libs sample_rs sample_outbound sample_burn = Some r" using sample_voucher by blast
  have "or_store sample_outbound = plain_storage" by (simp add: sample_outbound_def)
  then have asked: "stored (is_unlock_submitted (or_store sample_outbound) pid) s = (Inr (Inr False), s)" for pid s
    by (simp add: stored_def is_unlock_submitted_def)
  show ?thesis by (simp add: sample_due bind_value [OF asked] r) (simp add: bind_value finish_def)
qed

theorem vouchers_need_a_quorum_witness:
  "\<exists>p A. bp_tx_type p = Burn \<and> finite A \<and> 2 \<le> card A \<and> (\<forall>a \<in> A. authorised_by sample_crypto sample_manager p a)"
proof -
  have same: "lb_crypto relay_libs = sample_crypto" "or_trusted_authorities sample_outbound = sample_manager"
    "bm_required_signatures sample_manager = 2"
    by (simp_all add: relay_libs_def sample_libs_def sample_outbound_def sample_manager_def)
  obtain r where "build_claim_vouchers relay_libs sample_rs sample_outbound 17
      [bridge_proposal_json relay_libs JNull True sample_burn] () = (Inr [r], ())" using sample_built [of "()"] by blast
  from vouchers_need_a_quorum [OF this, of r] show ?thesis by (simp add: same) blast
qed

theorem node_accepts_vouchers_witness:
  "\<exists>(r :: ready_voucher) M'. add_claim_voucher relay_libs sample_recover (replicate 32 7) (signature_hex relay_libs (rd_voucher r)) sample_manager =
     Inr (M', ''0x'' @ lb_hex relay_libs (replicate 20 5))"
proof -
  obtain r where r: "voucher_of relay_libs sample_rs sample_outbound sample_burn = Some r" using sample_voucher by blast
  have gate: "same_gateway sample_outbound sample_claims" "or_ethereum_relayer_address sample_outbound = replicate 20 5"
    "bm_claim_context sample_manager = Some sample_claims" "map_of (bm_proposals sample_manager) (replicate 32 7) = Some sample_burn"
    "replicate 20 5 \<in> set (cc_relayers sample_claims)" "lb_crypto relay_libs = sample_crypto"
    by (simp_all add: same_gateway_def sample_outbound_def sample_claims_def sample_manager_def relay_libs_def sample_libs_def)
  have burn: "bp_tx_type sample_burn = Burn" by (simp add: sample_burn_def unsigned_burn_def)
  have names: "parse_eth_address (lb_unhex relay_libs) (bp_recipient sample_burn) \<noteq> None \<and>
      parse_h256 (lb_unhex relay_libs) (bp_source_tx_hash sample_burn) \<noteq> None"
    using relay_hex by (simp add: sample_burn_def unsigned_burn_def strip_0x_def starts_with_def hex_reads_back_def
        parse_eth_address_def parse_h256_def parse_hex_of_length_def)
  have key: "recovers_to (lb_crypto relay_libs) sample_rs sample_recover (or_ethereum_signing_key sample_outbound)
      (or_ethereum_relayer_address sample_outbound)" unfolding gate(2,6) by (rule sample_recovers)
  have known: "or_ethereum_relayer_address sample_outbound \<in> set (cc_relayers sample_claims)" unfolding gate(2) by (rule gate(5))
  show ?thesis
    using node_accepts_vouchers [OF relay_hex relay_hex_strict sample_burn_in_range key sample_due r gate(4) burn
        gate(3,1) known] names
    unfolding gate(2) by (auto split: if_splits)
qed

text \<open>
  Nothing checks the recipient of a burn proposal when it is made. With two prefixes the relayer still makes
  the voucher, which no node then takes.
\<close>

theorem twice_prefixed_recipient_is_refused:
  "\<exists>r. voucher_of relay_libs sample_rs sample_outbound (sample_burn\<lparr>bp_recipient := ''0x'' @ bp_recipient sample_burn\<rparr>) = Some r \<and>
     voucher_digest relay_libs sample_claims (sample_burn\<lparr>bp_recipient := ''0x'' @ bp_recipient sample_burn\<rparr>) =
       Inl (BridgeError ''Proposal recipient is not a valid Ethereum address'')"
proof -
  let ?p = "sample_burn\<lparr>bp_recipient := ''0x'' @ bp_recipient sample_burn\<rparr>"
  have "voucher_of relay_libs sample_rs sample_outbound ?p = voucher_of relay_libs sample_rs sample_outbound sample_burn"
    by (simp add: voucher_of_def eth_address_of_text_def)
  moreover have "CHR ''x'' \<in> set (strip_0x (bp_recipient ?p))"
    by (simp add: strip_0x_def starts_with_def sample_burn_def unsigned_burn_def)
  then have "lb_unhex relay_libs (strip_0x (bp_recipient ?p)) = None"
    using relay_hex_strict by (cases "lb_unhex relay_libs (strip_0x (bp_recipient ?p))") (auto simp: hex_is_strict_def)
  then have "voucher_digest relay_libs sample_claims ?p = Inl (BridgeError ''Proposal recipient is not a valid Ethereum address'')"
    by (simp add: voucher_digest_def parse_eth_address_def parse_hex_of_length_def)
  ultimately show ?thesis using sample_voucher by metis
qed

end
