(* ===== verification/Spec2Isabelle.thy ===== *)
theory Spec2Isabelle
  imports ChainParams DoubleSign EngineTermination Agreement EngineProperties Overlay StateRoot StateGate Swap BridgeManager Replay Proposal PoolCalls GateSlots PeerLedger SyncFacts AdminActions OutboundFacts
begin

text \<open>
  A verification library of Zagros-Core (\<open>src/\<close>), a proof-of-stake chain with one-block finality: the BFT
  engine, the state it commits to, the executor of transactions, the pool of waiting transactions, the body of a
  block, the two doors of the network the engine depends on (the message gate and certified catch-up), and the
  relayer, a process of its own that carries deposits and withdrawals between Ethereum and the chain.

  \<^bold>\<open>How the program works.\<close> A node gossips signed consensus messages; the gate
  (\<open>zagros-network/src/consensus_wire.rs\<close>) lets the authentic ones through to the engine
  (\<open>zagros-consensus/src/engine.rs\<close>), a Tendermint-like state machine with proposals, prevotes, precommits, a
  lock and view changes. The leader takes transactions from the pool (\<open>zagros-mempool\<close>) and runs them on an
  overlay of the state (\<open>zagros-state/src/overlay.rs\<close>) to find the state root it proposes; the voters do the
  same. When more than two thirds have precommitted, each node commits: it runs the block on its store
  (\<open>zagros-state/src/manager.rs\<close>), which keeps a Merkle trie of the accounts (\<open>trie.rs\<close>), and refuses the block
  if the root differs. A node that fell behind fetches blocks with their certificates
  (\<open>zagros-network/src/sync2.rs\<close>). The body of a block (\<open>zagros-runtime\<close>, \<open>zagros-scheduler\<close>) applies
  transactions (\<open>zagros-executor\<close>): transfers, a constant-product exchange, stake, validators, governance, a
  bridge, contract calls; at the end of an epoch it settles the validator set and the proposals. A relayer
  (\<open>zagros-relayer\<close>) asks an Ethereum node for deposits and its Zagros node for burns, proposes and signs bridge
  actions over the JSON-RPC, and makes the vouchers that a withdrawal on Ethereum is claimed with.

  \<^bold>\<open>Theories and code.\<close> A theory's header names its files; PROJECT.json maps each definition to its lines.

  \<^item> Data: \<open>Prelude\<close> (results as sums, arithmetic at a width, lists), \<open>Types\<close>, \<open>Accounts\<close>, \<open>Gas\<close>
  (\<open>zagros-types\<close>), \<open>ConsensusTypes\<close> and \<open>ChainParams\<close> (\<open>zagros-types/src/consensus.rs\<close>), \<open>Crypto\<close>
  (\<open>zagros-crypto\<close>), \<open>Quorum\<close> (the contract of a quorum rule, a locale interpreted on \<open>quorum_of\<close>).

  \<^item> Consensus: \<open>DoubleSign\<close>, \<open>EngineState\<close>, \<open>Engine\<close> (the handlers), \<open>EngineFacts\<close>, \<open>EngineTermination\<close>,
  \<open>EngineProtocol\<close> (the protocol as an inductive relation, and the refinement of every handler to its steps),
  \<open>EngineSafety\<close>, \<open>EngineExample\<close> (a run that commits), \<open>EngineProperties\<close>, \<open>Agreement\<close>.

  \<^item> State: \<open>StateApi\<close> (the \<open>State\<close> trait, the locale \<open>account_store\<close>), \<open>Trie\<close>, \<open>StateManager\<close>, \<open>StateRoot\<close>,
  \<open>StateGate\<close> (threads and flushes, a step relation), \<open>Overlay\<close>, \<open>Archive\<close>.

  \<^item> Execution: \<open>Host\<close> (what the executor is given to work on), \<open>Swap\<close>, \<open>Params\<close>, \<open>Executor\<close>, \<open>ValidatorSet\<close>,
  \<open>Governance\<close>, \<open>Epoch\<close>, \<open>Bridge\<close>, \<open>Claims\<close>, \<open>BridgeManager\<close>, the handlers \<open>TxTransfers\<close>, \<open>TxSlashing\<close>,
  \<open>TxValidators\<close>, \<open>TxBridge\<close>, \<open>TxGovernance\<close>, and \<open>Apply\<close> (\<open>apply_transaction\<close> around them).

  \<^item> About execution: \<open>Mirrors\<close>, \<open>Ledger\<close>, \<open>Supply\<close>, \<open>Conservation\<close>, \<open>Replay\<close>, \<open>AdminActions\<close>, with \<open>Samples\<close> for
  the witnesses.

  \<^item> Blocks: \<open>Scheduler\<close>, \<open>Runtime\<close>, \<open>BlockMirrors\<close>, \<open>TwoStores\<close>, \<open>SimCommit\<close>, \<open>Proposal\<close>.

  \<^item> Pool: \<open>Mempool\<close>, \<open>PoolOrder\<close>, \<open>PoolRuns\<close>, \<open>PoolCalls\<close>.

  \<^item> Network: \<open>Gate\<close>, \<open>GateSlots\<close>, \<open>PeerLedger\<close>, \<open>Sync\<close>, \<open>SyncFacts\<close>.

  \<^item> Relayer: \<open>RelayClient\<close> (procedures that may fail or panic, JSON, the calls), \<open>RelayStore\<close>, \<open>Inbound\<close> with
  \<open>InboundFacts\<close> (the cursor) and \<open>CosignFacts\<close> (what is signed for others), \<open>Outbound\<close> with \<open>OutboundFacts\<close>;
  \<open>RelaySamples\<close> for the witnesses.

  \<^bold>\<open>How state is modelled.\<close> A struct is a record, an enum a datatype, an error a value (\<open>result\<close>, a sum with
  \<open>zerror\<close>). The executor is written against the \<open>State\<close> trait; here a \<open>host\<close> is the record of the trait's
  operations and every function of the executor is an action on the host's state and the executor's own
  variables. Three hosts exist: the overlay, the manager and a plain map, the specification of the other two.
  The code is built with overflow checks, so counters are \<open>nat\<close>; saturating, checked and truncating operations
  are written out at their widths, digests and key indices are lists of 8-bit words. Hash tables are association
  lists, their order never relied on. Text is ASCII.

  \<^bold>\<open>Parameters.\<close> Keccak-256, Ed25519, secp256k1, hexadecimal and UTF-8 decoding and every bincode codec are
  fields of records (\<open>crypto_env\<close>, \<open>libs\<close> and its extensions, \<open>state_env\<close>) or arguments; a property that relies
  on them says so as a hypothesis (\<open>ed25519_correct\<close>, round trips of a codec, no collision among the hashes in
  play) and has a witness with concrete functions. The run of a contract is the operation of the revm crate.

  \<^bold>\<open>What is shown.\<close>

  \<^item> Consensus: with at most f faulty validators no two correct nodes commit different blocks at one height;
  every handler returns; the lock governs prevotes; commits are certified; one vote per slot, over restarts too;
  conflicting certificates carry two signatures each of more than f validators; verifying one never panics;
  leadership rotates fairly. Lock and votes of one run are followed from the construction of an engine, on one
  validator set; what a restart forgets is shown as well. The locale \<open>lock_discipline\<close> is the argument for
  agreement, its interpretation networks of engines.

  \<^item> State: the root is a function of the accounts, whatever reads, writes, checkpoints, flushes (also failed
  ones) and evictions came before, as long as no read of the disk fails, after which a change can be missing;
  the trie is canonical and commits to its map; what is flushed is read back; a revert leaves no trace; the gate
  counts the open checkpoints exactly, and a flush never runs while there is one.

  \<^item> Execution, for the \<open>ordinary\<close> transactions (native, without three kinds of validator management and senders
  that are pools): one mints no ZAGROS; one that fails pays its fee and changes nothing else; the nonce it spent
  is spent for transactions of every kind. Quotes conserve both sides, a purchase sold back gains nothing, and
  the volume window accepts exactly what its sliding rule allows, which caps every clock minute. \<open>mirrors\<close> says
  that an action does the same on a store and on the plain map, \<open>books\<close> that it leaves the coins alone; both are
  proved handler by handler from one rule for each construct.

  \<^item> Blocks: transactions keep their order on every lock token and on every key their native handlers write by
  themselves, while fee shares and the registry of validators have no token; a root found on the overlay is one
  under which the same block commits on the store.

  \<^item> Pool: every sequence of calls keeps the pool the representation of a list of waiting transactions, the
  reservations of the bridge's signer excepted, and every call returns unless the largest nonce is handed in;
  selection takes them first come, first served within the limits; what waits is covered by balances.

  \<^item> Network: what passes the gate is authentic and fits the chain, the epoch and the window (of which shadow
  votes only keep the upper end); one slot of votes or proposals passes twice at most; peers are judged by their
  own messages within bounded memory; a block that catch-up accepts is certified by more than two thirds and its
  transaction root decides about every transaction, missing or not.

  \<^item> Relayer, over arbitrary answers of the two nodes and the store: the cursor passes no deposit that was not
  dealt with; a mint of another relayer is signed only over a deposit with the same fields; a voucher is made
  only for a burn that a quorum of the relayer's own authorities signed, and the node accepts it exactly if it
  can read the burn's recipient and hash. What the checks leave out is shown too: other names for one deposit, a
  deposit that ends the task, a second deposit in one transaction, unlocks signed unseen, a recipient with two
  prefixes.

  \<^bold>\<open>Bounds.\<close> The handlers of the engine call each other; \<open>exec\<close> bounds the depth of calls by \<open>CALL_DEPTH\<close> = 20,
  which \<open>EngineTermination\<close> shows is never reached, so no result is lost. The scan of a sender's occupied nonces
  in the pool gets one step more than the index has entries; it is shown to run out only where the code's own
  loop never ends (the nonce counter saturates on an occupied 2^64-1). No other definition needs fuel. The
  schedule of parallel transactions is the argument \<open>interleave\<close>, one transaction being one step; calls on the
  pool do not overlap; a node's handlers run one at a time, as the driver calls them.

  \<^bold>\<open>Restrictions of the block properties.\<close> That a simulated root commits is shown for native transactions other
  than the three kinds that ask the store for its validator candidates, and within an epoch: there the overlay
  answers from the state below it and the two stores do differ (see the findings).

  \<^bold>\<open>Not modelled.\<close> The revm machine and its adapter; the libp2p service, its codecs and the driver task; the
  JSON-RPC server; the command line; configuration files; RocksDB and snapshots; the timers, tasks and
  reconnecting of the relayer, its Ethereum provider, secp256k1 signing and event decoding; metrics and log
  lines; the wire encoding and signature recovery of a transaction, which are bincode, RLP and secp256k1. They
  are I/O around the modelled parts, or third-party code.
\<close>

end
